(* ===== verification/Vnprox_Prelude.thy ===== *)
theory Vnprox_Prelude
  imports Main "HOL-Library.AList" "HOL-Library.Char_ord" "HOL-Library.List_Lexorder"
begin

text \<open>
  Shared vocabulary of the development: the proof collections, generic facts on lists,
  association lists (the model of Go maps that the code iterates over) and the option
  monad, and the three generic interfaces the components instantiate:

  \<^item> \<open>first_match\<close>: an ordered walk that stops at the first entry that decides (firewall
    rule order, group lookup, subnet lookup);
  \<^item> \<open>transition_system\<close>: a step relation with an invariant that every step keeps;
  \<^item> \<open>monotone_system\<close>: a step relation that never lowers a measure (fencing terms).
\<close>

named_theorems vn_defs \<open>definitions a component's proofs unfold together\<close>
named_theorems vn_frame \<open>what an operation leaves unchanged\<close>
named_theorems vn_inv \<open>invariant preservation rules\<close>


section \<open>Option monad helpers\<close>

text \<open>A loop over a list whose body may fail to return (\<open>None\<close>).\<close>

primrec foldM_opt :: "('a \<Rightarrow> 's \<Rightarrow> 's option) \<Rightarrow> 'a list \<Rightarrow> 's \<Rightarrow> 's option" where
  "foldM_opt f [] s = Some s"
| "foldM_opt f (x # xs) s = (case f x s of None \<Rightarrow> None | Some s' \<Rightarrow> foldM_opt f xs s')"

lemma foldM_opt_append:
  "foldM_opt f (xs @ ys) s = Option.bind (foldM_opt f xs s) (foldM_opt f ys)"
  by (induction xs arbitrary: s) (auto split: option.splits)

lemma foldM_opt_total:
  "(\<And>x s. x \<in> set xs \<Longrightarrow> \<exists>s'. f x s = Some s') \<Longrightarrow> \<exists>s'. foldM_opt f xs s = Some s'"
proof (induction xs arbitrary: s)
  case Nil
  then show ?case by simp
next
  case (Cons x xs)
  then obtain s' where "f x s = Some s'" by (meson list.set_intros(1))
  with Cons show ?case by simp
qed

lemma foldM_opt_inv:
  assumes "foldM_opt f xs s = Some t" and "P s"
    and "\<And>x u v. x \<in> set xs \<Longrightarrow> P u \<Longrightarrow> f x u = Some v \<Longrightarrow> P v"
  shows "P t"
  using assms
proof (induction xs arbitrary: s)
  case Nil
  then show ?case by simp
next
  case (Cons x xs)
  from Cons.prems(1) obtain u where u: "f x s = Some u" "foldM_opt f xs u = Some t"
    by (auto split: option.splits)
  have "P u" using Cons.prems(2,3) u(1) by (meson list.set_intros(1))
  with Cons.IH [OF u(2)] Cons.prems(3) show ?case by (meson list.set_intros(2))
qed

lemma foldM_opt_mono_fuel:
  assumes "foldM_opt f xs s = Some t"
    and "\<And>x u v. x \<in> set xs \<Longrightarrow> f x u = Some v \<Longrightarrow> g x u = Some v"
  shows "foldM_opt g xs s = Some t"
  using assms by (induction xs arbitrary: s) (auto split: option.splits)


section \<open>Lists\<close>

lemma takeWhile_dropWhile_split:
  "dropWhile P xs = y # ys \<Longrightarrow> xs = takeWhile P xs @ y # ys \<and> \<not> P y"
  by (metis dropWhile_eq_Cons_conv takeWhile_dropWhile_id)

lemma takeWhile_neq_append [simp]:
  "c \<notin> set xs \<Longrightarrow> takeWhile (\<lambda>x. x \<noteq> c) (xs @ c # ys) = xs"
  by (induction xs) auto

lemma dropWhile_neq_append [simp]:
  "c \<notin> set xs \<Longrightarrow> dropWhile (\<lambda>x. x \<noteq> c) (xs @ c # ys) = c # ys"
  by (induction xs) auto

lemma find_Some_conv:
  "List.find P xs = Some x \<Longrightarrow> x \<in> set xs \<and> P x"
  by (induction xs) (auto split: if_splits)

lemma find_append:
  "List.find P (xs @ ys) = (case List.find P xs of None \<Rightarrow> List.find P ys | Some x \<Rightarrow> Some x)"
  by (induction xs) auto


text \<open>Reaching an element that satisfies \<open>Q\<close> through elements that all satisfy \<open>P\<close>.\<close>

lemma reach_through_Cons:
  "(\<exists>xs y ys. x # zs = xs @ y # ys \<and> (\<forall>u \<in> set xs. P u) \<and> Q y) \<longleftrightarrow>
   Q x \<or> P x \<and> (\<exists>xs y ys. zs = xs @ y # ys \<and> (\<forall>u \<in> set xs. P u) \<and> Q y)" (is "?l \<longleftrightarrow> ?r")
proof
  assume ?l
  then obtain xs y ys where *: "x # zs = xs @ y # ys" "\<forall>u \<in> set xs. P u" "Q y" by blast
  show ?r
  proof (cases xs)
    case Nil
    with * show ?thesis by simp
  next
    case (Cons w ws)
    with * show ?thesis by auto
  qed
next
  assume ?r
  then consider "Q x" | xs y ys where "P x" "zs = xs @ y # ys" "\<forall>u \<in> set xs. P u" "Q y" by blast
  then show ?l
  proof cases
    case 1
    have "x # zs = [] @ x # zs" by simp
    with 1 show ?thesis by fastforce
  next
    case (2 xs y ys)
    then have "x # zs = (x # xs) @ y # ys" "\<forall>u \<in> set (x # xs). P u" by auto
    with 2(4) show ?thesis by blast
  qed
qed


section \<open>Go maps that are iterated: association lists with distinct keys\<close>

lemma map_of_AList_update [simp]: "map_of (AList.update k v al) = (map_of al)(k \<mapsto> v)"
  by (simp add: update_conv')

lemma distinct_keys_update: "distinct (map fst al) \<Longrightarrow> distinct (map fst (AList.update k v al))"
  by (rule distinct_update)

lemma keys_update: "set (map fst (AList.update k v al)) = insert k (set (map fst al))"
  by (induction al) auto


section \<open>Ordered walks: first match wins\<close>

text \<open>
  The interface of every ordered rule walk: \<open>test\<close> says whether an entry decides an input and
  how, \<open>walk\<close> tries the entries in order, and \<open>fallback\<close> is the answer when none decides.
\<close>

locale first_match =
  fixes test :: "'r \<Rightarrow> 'p \<Rightarrow> 'd option"
    and fallback :: "'p \<Rightarrow> 'd"
    and walk :: "'r list \<Rightarrow> 'p \<Rightarrow> 'd"
  assumes walk_Nil: "walk [] p = fallback p"
    and walk_Cons: "walk (r # rs) p = (case test r p of None \<Rightarrow> walk rs p | Some d \<Rightarrow> d)"
begin

lemma walk_skip: "(\<And>r. r \<in> set rs \<Longrightarrow> test r p = None) \<Longrightarrow> walk (rs @ qs) p = walk qs p"
  by (induction rs) (auto simp: walk_Cons)

lemma walk_none: "(\<And>r. r \<in> set rs \<Longrightarrow> test r p = None) \<Longrightarrow> walk rs p = fallback p"
  using walk_skip [of rs p "[]"] by (simp add: walk_Nil)

lemma walk_hit:
  assumes "\<And>r. r \<in> set rs \<Longrightarrow> test r p = None" and "test q p = Some d"
  shows "walk (rs @ q # qs) p = d"
  using walk_skip [of rs p "q # qs"] assms by (simp add: walk_Cons)

lemma walk_filter:
  assumes "\<And>r. \<not> K r \<Longrightarrow> test r p = None"
  shows "walk (filter K rs) p = walk rs p"
  using assms by (induction rs) (auto simp: walk_Cons walk_Nil split: option.splits)

text \<open>Every walk is either a first hit at a definite place or a complete fall-through.\<close>

lemma walk_cases:
  obtains (hit) rs1 q rs2 d where "rs = rs1 @ q # rs2"
      and "\<And>r. r \<in> set rs1 \<Longrightarrow> test r p = None" and "test q p = Some d" and "walk rs p = d"
    | (through) "\<And>r. r \<in> set rs \<Longrightarrow> test r p = None" and "walk rs p = fallback p"
proof (cases "\<exists>r \<in> set rs. test r p \<noteq> None")
  case True
  then obtain rs1 q rs2 where s: "rs = rs1 @ q # rs2" "test q p \<noteq> None"
    "\<forall>r \<in> set rs1. \<not> test r p \<noteq> None"
    using split_list_first_prop [of rs "\<lambda>r. test r p \<noteq> None"] by blast
  then obtain d where d: "test q p = Some d" by blast
  have "walk rs p = d"
    unfolding s(1) by (rule walk_hit) (use s(3) d in auto)
  with s d hit show ?thesis by blast
next
  case False
  then have n: "\<And>r. r \<in> set rs \<Longrightarrow> test r p = None" by blast
  from through [OF n walk_none [OF n]] show ?thesis by blast
qed

lemma walk_tail_irrelevant:
  assumes "\<exists>r \<in> set rs. test r p \<noteq> None"
  shows "walk (rs @ qs) p = walk rs p"
  using assms
proof (induction rs)
  case Nil
  then show ?case by simp
next
  case (Cons r rs)
  then show ?case by (cases "test r p") (auto simp: walk_Cons)
qed

end


section \<open>Transition systems\<close>

text \<open>A component with state: the steps it can take and what every step keeps.\<close>

locale transition_system =
  fixes step :: "'s \<Rightarrow> 's \<Rightarrow> bool" and inv :: "'s \<Rightarrow> bool"
  assumes step_inv: "step s t \<Longrightarrow> inv s \<Longrightarrow> inv t"
begin

lemma reach_inv: "step\<^sup>*\<^sup>* s t \<Longrightarrow> inv s \<Longrightarrow> inv t"
  by (induction rule: rtranclp_induct) (auto intro: step_inv)

lemma unreachable: "inv s \<Longrightarrow> \<not> inv t \<Longrightarrow> \<not> step\<^sup>*\<^sup>* s t"
  using reach_inv by blast

end

text \<open>A component with a quantity that no step lowers.\<close>

locale monotone_system =
  fixes step :: "'s \<Rightarrow> 's \<Rightarrow> bool" and level :: "'s \<Rightarrow> int"
  assumes step_level: "step s t \<Longrightarrow> level s \<le> level t"
begin

lemma reach_level: "step\<^sup>*\<^sup>* s t \<Longrightarrow> level s \<le> level t"
  by (induction rule: rtranclp_induct) (auto dest: step_level)

lemma no_return: "step\<^sup>*\<^sup>* s t \<Longrightarrow> level s < level t \<Longrightarrow> \<not> step\<^sup>*\<^sup>* t s"
  using reach_level by fastforce

end

text \<open>Bounding a measure from below is one kind of invariant.\<close>

sublocale monotone_system \<subseteq> floor: transition_system step "\<lambda>s. k \<le> level s" for k
  by unfold_locales (use step_level in force)

end
