(* ===== verification/Go_Strings.thy ===== *)
theory Go_Strings
  imports Vnprox_Prelude
begin

text \<open>
  The part of the Go standard library (\<^verbatim>\<open>strings\<close>, \<^verbatim>\<open>strconv\<close>, \<^verbatim>\<open>fmt\<close>) the modelled sources
  use. A Go string is a byte string, modelled as a \<open>string\<close>, whose characters are bytes.
  White space, case folding and quoting are modelled for the ASCII bytes; bytes above 127 are
  never white space, fold to themselves and are printed unchanged.
\<close>

section \<open>strings\<close>

text \<open>\<open>strings.Split(s, sep)\<close> for a one-byte separator.\<close>

fun go_Split :: "char \<Rightarrow> string \<Rightarrow> string list" where
  "go_Split c [] = [[]]"
| "go_Split c (x # xs) =
     (if x = c then [] # go_Split c xs
      else (case go_Split c xs of [] \<Rightarrow> [[x]] | y # ys \<Rightarrow> (x # y) # ys))"

text \<open>\<open>strings.SplitN(s, sep, n)\<close> for a one-byte separator: at most \<open>n\<close> parts, the last unsplit.\<close>

fun go_SplitN :: "char \<Rightarrow> nat \<Rightarrow> string \<Rightarrow> string list" where
  "go_SplitN c 0 s = []"
| "go_SplitN c (Suc 0) s = [s]"
| "go_SplitN c (Suc (Suc n)) s =
     (case dropWhile (\<lambda>x. x \<noteq> c) s of
        [] \<Rightarrow> [s]
      | _ # rest \<Rightarrow> takeWhile (\<lambda>x. x \<noteq> c) s # go_SplitN c (Suc n) rest)"

definition go_isspace :: "char \<Rightarrow> bool" where
  "go_isspace c \<longleftrightarrow> c \<in> {CHR 0x09, CHR 0x0A, CHR 0x0B, CHR 0x0C, CHR 0x0D, CHR 0x20}"

definition go_TrimSpace :: "string \<Rightarrow> string" where
  "go_TrimSpace s = rev (dropWhile go_isspace (rev (dropWhile go_isspace s)))"

definition go_HasPrefix :: "string \<Rightarrow> string \<Rightarrow> bool" where
  "go_HasPrefix s p \<longleftrightarrow> take (length p) s = p"

fun go_Contains :: "string \<Rightarrow> string \<Rightarrow> bool" where
  "go_Contains [] sub \<longleftrightarrow> sub = []"
| "go_Contains (x # xs) sub \<longleftrightarrow> go_HasPrefix (x # xs) sub \<or> go_Contains xs sub"

definition go_ord :: "char \<Rightarrow> int" where
  "go_ord c = of_char c"

definition go_chr :: "int \<Rightarrow> char" where
  "go_chr n = char_of n"

definition go_lower :: "char \<Rightarrow> char" where
  "go_lower c = (if 65 \<le> go_ord c \<and> go_ord c \<le> 90 then go_chr (go_ord c + 32) else c)"

definition go_EqualFold :: "string \<Rightarrow> string \<Rightarrow> bool" where
  "go_EqualFold a b \<longleftrightarrow> map go_lower a = map go_lower b"


section \<open>strconv\<close>

definition go_isdigit :: "char \<Rightarrow> bool" where
  "go_isdigit c \<longleftrightarrow> 48 \<le> go_ord c \<and> go_ord c \<le> 57"

definition go_decval :: "string \<Rightarrow> int" where
  "go_decval s = foldl (\<lambda>acc c. 10 * acc + (go_ord c - 48)) 0 s"

text \<open>\<open>strconv.Atoi\<close>: an optional sign, then one or more decimal digits, within the range of a
  64-bit \<open>int\<close>.\<close>

definition go_Atoi :: "string \<Rightarrow> int option" where
  "go_Atoi s =
     (let (neg, ds) = (case s of [] \<Rightarrow> (False, [])
                       | c # r \<Rightarrow> if c = CHR ''-'' then (True, r)
                                  else if c = CHR ''+'' then (False, r) else (False, s))
      in if ds = [] \<or> \<not> list_all go_isdigit ds then None
         else let n = (if neg then - go_decval ds else go_decval ds)
              in if - (2 ^ 63) \<le> n \<and> n < 2 ^ 63 then Some n else None)"

text \<open>The decimal digits of a non-negative number.\<close>

function go_natstr :: "int \<Rightarrow> string" where
  "go_natstr n =
     (if n < 10 then [go_chr (48 + n)] else go_natstr (n div 10) @ [go_chr (48 + n mod 10)])"
  by pat_completeness auto
termination
  by (relation "measure nat") auto

declare go_natstr.simps [simp del]

text \<open>\<open>strconv.Itoa\<close> and the verb \<open>%d\<close>.\<close>

definition go_Itoa :: "int \<Rightarrow> string" where
  "go_Itoa i = (if i < 0 then CHR ''-'' # go_natstr (- i) else go_natstr i)"

definition go_hexdigit :: "int \<Rightarrow> char" where
  "go_hexdigit n = (if n < 10 then go_chr (48 + n) else go_chr (87 + n))"

text \<open>One byte of \<open>strconv.Quote\<close> (the verb \<open>%q\<close>).\<close>

definition go_quote_char :: "char \<Rightarrow> string" where
  "go_quote_char c = (let n = go_ord c in
     if c = CHR 0x22 then [CHR 0x5C, CHR 0x22]
     else if c = CHR 0x5C then [CHR 0x5C, CHR 0x5C]
     else if n = 7 then [CHR 0x5C, CHR ''a'']
     else if n = 8 then [CHR 0x5C, CHR ''b'']
     else if n = 9 then [CHR 0x5C, CHR ''t'']
     else if n = 10 then [CHR 0x5C, CHR ''n'']
     else if n = 11 then [CHR 0x5C, CHR ''v'']
     else if n = 12 then [CHR 0x5C, CHR ''f'']
     else if n = 13 then [CHR 0x5C, CHR ''r'']
     else if n < 32 \<or> n = 127 then [CHR 0x5C, CHR ''x'', go_hexdigit (n div 16), go_hexdigit (n mod 16)]
     else [c])"

definition go_Quote :: "string \<Rightarrow> string" where
  "go_Quote s = CHR 0x22 # concat (map go_quote_char s) @ [CHR 0x22]"


section \<open>Non-ASCII characters of the sources' message texts (UTF-8)\<close>

definition em_dash :: string where
  "em_dash = [CHR 0xE2, CHR 0x80, CHR 0x94]"

definition arrow_right :: string where
  "arrow_right = [CHR 0xE2, CHR 0x86, CHR 0x92]"


section \<open>Facts\<close>

lemma go_Split_nonempty [simp]: "go_Split c s \<noteq> []"
  by (cases s) (auto split: list.splits)

lemma go_Split_no_sep: "p \<in> set (go_Split c s) \<Longrightarrow> c \<notin> set p"
  by (induction s arbitrary: p rule: go_Split.induct) (auto split: list.splits if_splits)

lemma go_Split_absent: "c \<notin> set s \<Longrightarrow> go_Split c s = [s]"
  by (induction s) auto

lemma go_Split_append:
  "c \<notin> set p \<Longrightarrow> go_Split c (p @ c # s) = p # go_Split c s"
  by (induction p) auto

text \<open>Cutting off the first two fields of \<open>k:n:i\<close> leaves \<open>i\<close> untouched, whatever it contains.\<close>

lemma go_SplitN3:
  assumes "c \<notin> set k" and "c \<notin> set n"
  shows "go_SplitN c 3 (k @ c # n @ c # i) = [k, n, i]"
  using assms by (simp add: numeral_3_eq_3)

lemma go_SplitN3_inv:
  assumes "go_SplitN c 3 s = [k, n, i]"
  shows "s = k @ c # n @ c # i"
  using assms
  by (auto simp: numeral_3_eq_3 split: list.splits dest!: takeWhile_dropWhile_split)

lemma go_TrimSpace_Nil [simp]: "go_TrimSpace [] = []"
  by (simp add: go_TrimSpace_def)

lemma go_Atoi_range: "go_Atoi s = Some n \<Longrightarrow> - (2 ^ 63) \<le> n \<and> n < 2 ^ 63"
  by (auto simp: go_Atoi_def Let_def split: if_splits list.splits prod.splits)

lemma go_decval_snoc: "go_decval (s @ [c]) = 10 * go_decval s + (go_ord c - 48)"
  by (simp add: go_decval_def)

lemma go_ord_chr [simp]: "0 \<le> n \<Longrightarrow> n < 256 \<Longrightarrow> go_ord (go_chr n) = n"
  by (simp add: go_ord_def go_chr_def take_bit_int_eq_self)

lemma go_isdigit_chr [simp]: "0 \<le> d \<Longrightarrow> d < 10 \<Longrightarrow> go_isdigit (go_chr (48 + d))"
  by (simp add: go_isdigit_def)

lemma go_natstr_digits: "0 \<le> n \<Longrightarrow> list_all go_isdigit (go_natstr n)"
proof (induction n rule: go_natstr.induct)
  case (1 n)
  then show ?case by (subst go_natstr.simps) auto
qed

lemma go_natstr_nonempty [simp]: "go_natstr n \<noteq> []"
  by (subst go_natstr.simps) simp

lemma go_natstr_val: "0 \<le> n \<Longrightarrow> go_decval (go_natstr n) = n"
proof (induction n rule: go_natstr.induct)
  case (1 n)
  show ?case
  proof (cases "n < 10")
    case True
    with "1.prems" show ?thesis by (subst go_natstr.simps) (simp add: go_decval_def)
  next
    case False
    with 1 have "go_decval (go_natstr (n div 10)) = n div 10" by simp
    with False show ?thesis by (subst go_natstr.simps) (simp add: go_decval_snoc)
  qed
qed

lemma go_natstr_inj: "0 \<le> m \<Longrightarrow> 0 \<le> n \<Longrightarrow> go_natstr m = go_natstr n \<Longrightarrow> m = n"
  by (metis go_natstr_val)

lemma go_natstr_hd: "0 \<le> n \<Longrightarrow> go_isdigit (hd (go_natstr n))"
  by (metis go_natstr_digits go_natstr_nonempty list.pred_set list.set_sel(1))

lemma go_isdigit_not_sign [simp]: "\<not> go_isdigit (CHR ''-'')" "\<not> go_isdigit (CHR ''+'')"
  by (simp_all add: go_isdigit_def go_ord_def)

lemma go_natstr_no_sign: "0 \<le> n \<Longrightarrow> CHR ''-'' # s \<noteq> go_natstr n"
  using go_natstr_hd [of n] by (metis go_isdigit_not_sign(1) list.sel(1))

lemma go_Itoa_inj: "go_Itoa i = go_Itoa j \<Longrightarrow> i = j"
  using go_natstr_no_sign [of i] go_natstr_no_sign [of j] go_natstr_no_sign [of i, symmetric]
  by (auto simp: go_Itoa_def dest!: go_natstr_inj [rotated -1] split: if_splits)

text \<open>Printing and reading back a number that fits an \<open>int\<close>.\<close>

lemma go_Atoi_Itoa:
  assumes "- (2 ^ 63) \<le> i" and "i < 2 ^ 63"
  shows "go_Atoi (go_Itoa i) = Some i"
proof (cases "i < 0")
  case True
  with assms show ?thesis
    by (simp add: go_Itoa_def go_Atoi_def Let_def go_natstr_digits go_natstr_val)
next
  case False
  obtain c r where cr: "go_natstr i = c # r" by (meson go_natstr_nonempty list.exhaust)
  then have "go_isdigit c" using False go_natstr_hd [of i] by simp
  then have "c \<noteq> CHR ''-''" "c \<noteq> CHR ''+''" by auto
  then show ?thesis
    using assms False cr go_natstr_digits [of i] go_natstr_val [of i]
    by (simp add: go_Itoa_def go_Atoi_def Let_def)
qed

end
