(* ===== verification/Go_Netip.thy ===== *)
theory Go_Netip
  imports Go_Strings "HOL-Library.Word"
begin

unbundle bit_operations_syntax

text \<open>
  The part of the Go standard library package \<^verbatim>\<open>net/netip\<close> the sources use: \<open>Addr\<close>, \<open>Prefix\<close>,
  \<open>ParseAddr\<close>, \<open>ParsePrefix\<close>, \<open>Contains\<close>, \<open>String\<close> and the family tests. The zero \<open>Addr\<close> (which
  Go calls invalid) is \<open>AddrNone\<close>; an IPv6 address carries its zone, empty for none.
\<close>

section \<open>Addresses and prefixes\<close>

datatype addr = AddrNone | Addr4 "32 word" | Addr6 "128 word" string

record prefix =
  pfx_Addr :: addr
  pfx_Bits :: nat

definition addr_Is4 :: "addr \<Rightarrow> bool" where
  "addr_Is4 a = (case a of Addr4 _ \<Rightarrow> True | _ \<Rightarrow> False)"

definition addr_Is6 :: "addr \<Rightarrow> bool" where
  "addr_Is6 a = (case a of Addr6 _ _ \<Rightarrow> True | _ \<Rightarrow> False)"

definition addr_Is4In6 :: "addr \<Rightarrow> bool" where
  "addr_Is4In6 a = (case a of Addr6 w _ \<Rightarrow> drop_bit 32 w = 0xFFFF | _ \<Rightarrow> False)"

definition addr_BitLen :: "addr \<Rightarrow> nat" where
  "addr_BitLen a = (case a of AddrNone \<Rightarrow> 0 | Addr4 _ \<Rightarrow> 32 | Addr6 _ _ \<Rightarrow> 128)"

definition addr_hasZone :: "addr \<Rightarrow> bool" where
  "addr_hasZone a = (case a of Addr6 _ z \<Rightarrow> z \<noteq> [] | _ \<Rightarrow> False)"

definition addr_withoutZone :: "addr \<Rightarrow> addr" where
  "addr_withoutZone a = (case a of Addr6 w _ \<Rightarrow> Addr6 w [] | _ \<Rightarrow> a)"

text \<open>\<open>netip.PrefixFrom\<close>; the callers pass a length that fits the address.\<close>

definition PrefixFrom :: "addr \<Rightarrow> nat \<Rightarrow> prefix" where
  "PrefixFrom a n = \<lparr> pfx_Addr = addr_withoutZone a, pfx_Bits = n \<rparr>"

text \<open>\<open>Prefix.Contains\<close>: same family, no zone, and the leading bits agree.\<close>

definition pfx_Contains :: "prefix \<Rightarrow> addr \<Rightarrow> bool" where
  "pfx_Contains p a =
     (case (pfx_Addr p, a) of
        (Addr4 v, Addr4 w) \<Rightarrow> drop_bit (32 - pfx_Bits p) (w XOR v) = 0
      | (Addr6 v _, Addr6 w z) \<Rightarrow> z = [] \<and> drop_bit (128 - pfx_Bits p) (w XOR v) = 0
      | _ \<Rightarrow> False)"


section \<open>Parsing\<close>

text \<open>\<open>parseIPv4Fields\<close>: four dot-separated decimal fields, at most 255, no leading zero.\<close>

definition ipv4_field :: "string \<Rightarrow> int option" where
  "ipv4_field f =
     (if f = [] \<or> \<not> list_all go_isdigit f then None
      else if length f > 1 \<and> hd f = CHR ''0'' then None
      else if go_decval f > 255 then None
      else Some (go_decval f))"

definition parseIPv4Fields :: "string \<Rightarrow> (int \<times> int \<times> int \<times> int) option" where
  "parseIPv4Fields s =
     (case map ipv4_field (go_Split (CHR ''.'') s) of
        [Some a, Some b, Some c, Some d] \<Rightarrow> Some (a, b, c, d)
      | _ \<Rightarrow> None)"

definition word_of_octets :: "int \<times> int \<times> int \<times> int \<Rightarrow> 32 word" where
  "word_of_octets = (\<lambda>(a, b, c, d). of_int (((a * 256 + b) * 256 + c) * 256 + d))"

definition parseIPv4 :: "string \<Rightarrow> addr option" where
  "parseIPv4 s = map_option (\<lambda>q. Addr4 (word_of_octets q)) (parseIPv4Fields s)"

definition hex_digit :: "char \<Rightarrow> int option" where
  "hex_digit c = (let n = go_ord c in
     if 48 \<le> n \<and> n \<le> 57 then Some (n - 48)
     else if 97 \<le> n \<and> n \<le> 102 then Some (n - 87)
     else if 65 \<le> n \<and> n \<le> 70 then Some (n - 55) else None)"

definition hex_run :: "string \<Rightarrow> string" where
  "hex_run s = takeWhile (\<lambda>c. hex_digit c \<noteq> None) s"

definition hex_val :: "string \<Rightarrow> int" where
  "hex_val ds = foldl (\<lambda>acc c. 16 * acc + (case hex_digit c of Some d \<Rightarrow> d | None \<Rightarrow> 0)) 0 ds"

text \<open>
  The group loop of \<open>parseIPv6\<close>. \<open>k\<close> counts the 16-bit groups still free (\<open>i < 16\<close> in bytes is
  \<open>k > 0\<close>), \<open>gs\<close> are the groups read so far, \<open>ell\<close> the position of the \<open>::\<close>, \<open>s\<close> the rest. The
  result is the groups, the position of the \<open>::\<close> and what is left of the text.
\<close>

fun parse6_loop ::
  "nat \<Rightarrow> int list \<Rightarrow> nat option \<Rightarrow> string \<Rightarrow> (int list \<times> nat option \<times> string) option" where
  "parse6_loop 0 gs ell s = Some (gs, ell, s)"
| "parse6_loop (Suc k) gs ell s =
     (let ds = hex_run s; rest = drop (length ds) s in
      if ds = [] \<or> length ds > 4 then None
      else case rest of
        [] \<Rightarrow> Some (gs @ [hex_val ds], ell, [])
      | c # r \<Rightarrow>
          if c = CHR ''.'' then
            (if ell = None \<and> length gs \<noteq> 6 then None
             else if length gs + 2 > 8 then None
             else case parseIPv4Fields s of
                    None \<Rightarrow> None
                  | Some (a, b, x, d) \<Rightarrow> Some (gs @ [a * 256 + b, x * 256 + d], ell, []))
          else if c \<noteq> CHR '':'' then None
          else case r of
            [] \<Rightarrow> None
          | c2 # r2 \<Rightarrow>
              if c2 = CHR '':'' then
                (if ell \<noteq> None then None
                 else if r2 = [] then Some (gs @ [hex_val ds], Some (length gs + 1), [])
                 else parse6_loop k (gs @ [hex_val ds]) (Some (length gs + 1)) r2)
              else parse6_loop k (gs @ [hex_val ds]) ell r)"

definition word_of_groups :: "int list \<Rightarrow> 128 word" where
  "word_of_groups gs = of_int (foldl (\<lambda>acc g. 65536 * acc + g) 0 gs)"

definition parse6_finish :: "string \<Rightarrow> int list \<times> nat option \<times> string \<Rightarrow> addr option" where
  "parse6_finish zone = (\<lambda>(gs, ell, s).
     if s \<noteq> [] then None
     else if length gs < 8 then
       (case ell of None \<Rightarrow> None
        | Some e \<Rightarrow> Some (Addr6 (word_of_groups
            (take e gs @ replicate (8 - length gs) 0 @ drop e gs)) zone))
     else if ell \<noteq> None then None
     else Some (Addr6 (word_of_groups gs) zone))"

definition parseIPv6 :: "string \<Rightarrow> addr option" where
  "parseIPv6 s0 =
     (let s = takeWhile (\<lambda>c. c \<noteq> CHR ''%'') s0; zpart = drop (length s) s0 in
      if zpart = ''%'' then None
      else let zone = tl zpart in
        if take 2 s = ''::'' then
          (if length s = 2 then Some (Addr6 0 zone)
           else Option.bind (parse6_loop 8 [] (Some 0) (drop 2 s)) (parse6_finish zone))
        else Option.bind (parse6_loop 8 [] None s) (parse6_finish zone))"

definition ParseAddr :: "string \<Rightarrow> addr option" where
  "ParseAddr s =
     (case dropWhile (\<lambda>c. c \<noteq> CHR ''.'' \<and> c \<noteq> CHR '':'' \<and> c \<noteq> CHR ''%'') s of
        [] \<Rightarrow> None
      | c # _ \<Rightarrow> if c = CHR ''.'' then parseIPv4 s
                 else if c = CHR '':'' then parseIPv6 s else None)"

text \<open>\<open>ParsePrefix\<close> cuts at the last slash.\<close>

definition ParsePrefix :: "string \<Rightarrow> prefix option" where
  "ParsePrefix s =
     (if CHR ''/'' \<notin> set s then None
      else let bits = rev (takeWhile (\<lambda>c. c \<noteq> CHR ''/'') (rev s));
               ip = take (length s - length bits - 1) s in
        case ParseAddr ip of
          None \<Rightarrow> None
        | Some a \<Rightarrow>
            if addr_hasZone a then None
            else if length bits > 1 \<and> (hd bits = CHR ''0'' \<or> \<not> go_isdigit (hd bits)) then None
            else case go_Atoi bits of
                   None \<Rightarrow> None
                 | Some n \<Rightarrow> if n < 0 \<or> n > int (addr_BitLen a) then None
                             else Some (PrefixFrom a (nat n)))"


section \<open>Printing\<close>

definition octets_of_word :: "32 word \<Rightarrow> int list" where
  "octets_of_word w = (let n = uint w in
     [n div 16777216, (n div 65536) mod 256, (n div 256) mod 256, n mod 256])"

definition ipv4_string :: "32 word \<Rightarrow> string" where
  "ipv4_string w = (case map go_natstr (octets_of_word w) of
     [a, b, c, d] \<Rightarrow> a @ ''.'' @ b @ ''.'' @ c @ ''.'' @ d | _ \<Rightarrow> [])"

definition groups_of_word :: "128 word \<Rightarrow> int list" where
  "groups_of_word w = map (\<lambda>i. (uint w div 65536 ^ (7 - i)) mod 65536) [0..<8]"

function go_hexstr :: "int \<Rightarrow> string" where
  "go_hexstr n = (if n < 16 then [go_hexdigit n] else go_hexstr (n div 16) @ [go_hexdigit (n mod 16)])"
  by pat_completeness auto
termination
  by (relation "measure nat") auto

declare go_hexstr.simps [simp del]

text \<open>The longest run of at least two zero groups, the first of equals: its bounds.\<close>

definition zero_run :: "int list \<Rightarrow> nat \<times> nat" where
  "zero_run gs = foldl (\<lambda>(a, b) i.
     let j = i + length (takeWhile (\<lambda>g. g = 0) (drop i gs)) in
     if j - i \<ge> 2 \<and> j - i > b - a then (i, j) else (a, b)) (8, 8) [0..<8]"

definition ipv6_string :: "128 word \<Rightarrow> string" where
  "ipv6_string w = (let gs = groups_of_word w; (a, b) = zero_run gs;
       colons = (\<lambda>xs. concat (map (\<lambda>(i, g). (if i = 0 then [] else '':'') @ go_hexstr g)
                                  (enumerate 0 xs)))
     in if a = 8 then colons gs
        else colons (take a gs) @ ''::'' @ colons (drop b gs))"

definition addr_String :: "addr \<Rightarrow> string" where
  "addr_String a = (case a of
     AddrNone \<Rightarrow> ''invalid IP''
   | Addr4 w \<Rightarrow> ipv4_string w
   | Addr6 w z \<Rightarrow>
       (if addr_Is4In6 a then ''::ffff:'' @ ipv4_string (ucast w) else ipv6_string w)
       @ (if z = [] then [] else ''%'' @ z))"


section \<open>Facts\<close>

lemma ipv4_field_bound: "ipv4_field f = Some n \<Longrightarrow> n \<le> 255"
  by (auto simp: ipv4_field_def split: if_splits)

lemma pfx_Contains_family:
  "pfx_Contains p a \<Longrightarrow> addr_BitLen (pfx_Addr p) = addr_BitLen a \<and> \<not> addr_hasZone a"
  by (auto simp: pfx_Contains_def addr_BitLen_def addr_hasZone_def split: addr.splits)

lemma ParsePrefix_bits:
  "ParsePrefix s = Some p \<Longrightarrow> pfx_Bits p \<le> addr_BitLen (pfx_Addr p)"
  by (auto simp: ParsePrefix_def PrefixFrom_def addr_withoutZone_def addr_BitLen_def Let_def
      split: if_splits option.splits addr.splits)

lemma word_xor_eq_0_iff: "(a XOR b = 0) = (a = b)" for a b :: "'n::len word"
  by (auto simp: bit_eq_iff bit_xor_iff)

text \<open>A full-length prefix contains exactly its own address.\<close>

lemma pfx_Contains_full:
  assumes "a \<noteq> AddrNone" and "\<not> addr_hasZone b"
  shows "pfx_Contains (PrefixFrom a (addr_BitLen a)) b \<longleftrightarrow> addr_withoutZone a = b"
  using assms
  by (auto simp: pfx_Contains_def PrefixFrom_def addr_withoutZone_def addr_BitLen_def
      addr_hasZone_def word_xor_eq_0_iff split: addr.splits)

end
