(* ===== verification/Inventory.thy ===== *)
theory Inventory
  imports Go_Netip
begin

text \<open>
  The inventory model of \<^verbatim>\<open>src/internal/inventory\<close>: entity identities (\<open>Ref\<close>, with their string
  encoding and its parser), the entity structs, and the immutable \<open>Snapshot\<close> read view.

  A Go struct is a record; the fields kept are those an operation of this development reads, and
  each record has its Go zero value (\<open>zero_\<close>\<open>\<dots>\<close>). A Go pointer is an \<open>option\<close>, nil being \<open>None\<close>.
  The entity map of a snapshot is an association list with distinct keys, because the code iterates
  over it. Node, bond, VLAN and physical-NIC entities, whose contents nothing here reads, are
  \<open>EOther\<close>.
\<close>

section \<open>Ref\<close>

type_synonym kind = string

abbreviation "KindNode \<equiv> ''node''"
abbreviation "KindPhysNic \<equiv> ''physnic''"
abbreviation "KindBond \<equiv> ''bond''"
abbreviation "KindBridge \<equiv> ''bridge''"
abbreviation "KindVlan \<equiv> ''vlan''"
abbreviation "KindOVSBridge \<equiv> ''ovs-bridge''"
abbreviation "KindOVSBond \<equiv> ''ovs-bond''"
abbreviation "KindSDNZone \<equiv> ''sdn-zone''"
abbreviation "KindSDNVnet \<equiv> ''sdn-vnet''"
abbreviation "KindSDNSubnet \<equiv> ''sdn-subnet''"
abbreviation "KindSDNDnsZone \<equiv> ''sdn-dns-zone''"
abbreviation "KindSDNDnsRecord \<equiv> ''sdn-dns-record''"
abbreviation "KindSDNDnsServer \<equiv> ''sdn-dns-server''"
abbreviation "KindSDNFabric \<equiv> ''sdn-fabric''"
abbreviation "KindSDNController \<equiv> ''sdn-controller''"
abbreviation "KindSDNIpam \<equiv> ''sdn-ipam''"
abbreviation "KindGuest \<equiv> ''guest''"
abbreviation "KindGuestNic \<equiv> ''guest-nic''"
abbreviation "KindLldpNeighbor \<equiv> ''lldp-neighbor''"
abbreviation "KindFwRuleset \<equiv> ''fw-ruleset''"
abbreviation "KindQosShape \<equiv> ''qos-shape''"
abbreviation "KindWgTunnel \<equiv> ''wg-tunnel''"
abbreviation "KindWgPeer \<equiv> ''wg-peer''"
abbreviation "KindNatRule \<equiv> ''nat-rule''"
abbreviation "KindStaticRoute \<equiv> ''static-route''"
abbreviation "KindVF \<equiv> ''vf''"
abbreviation "KindCephOSD \<equiv> ''ceph-osd''"
abbreviation "KindPBSHost \<equiv> ''pbs-host''"
abbreviation "KindSwitchPort \<equiv> ''switch-port''"
abbreviation "KindTcMirror \<equiv> ''tc-mirror''"

definition knownKinds :: "kind list" where
  "knownKinds =
     [KindNode, KindPhysNic, KindBond, KindBridge, KindVlan, KindOVSBridge, KindOVSBond, KindSDNZone,
      KindSDNVnet, KindSDNSubnet, KindGuest, KindGuestNic, KindLldpNeighbor, KindFwRuleset,
      KindQosShape, KindWgTunnel, KindWgPeer, KindNatRule, KindStaticRoute, KindVF, KindCephOSD,
      KindPBSHost, KindSDNDnsZone, KindSDNDnsRecord, KindSDNDnsServer, KindSwitchPort,
      KindSDNFabric, KindSDNController, KindSDNIpam, KindTcMirror]"

record Ref =
  ref_Kind :: kind
  ref_Node :: string
  ref_ID :: string

abbreviation mkRef :: "kind \<Rightarrow> string \<Rightarrow> string \<Rightarrow> Ref" where
  "mkRef k n i \<equiv> \<lparr> ref_Kind = k, ref_Node = n, ref_ID = i \<rparr>"

definition zero_Ref :: Ref where
  "zero_Ref = mkRef [] [] []"

definition Ref_String :: "Ref \<Rightarrow> string" where
  "Ref_String r = ref_Kind r @ '':'' @ ref_Node r @ '':'' @ ref_ID r"

definition Ref_IsZero :: "Ref \<Rightarrow> bool" where
  "Ref_IsZero r \<longleftrightarrow> ref_Kind r = [] \<and> ref_Node r = [] \<and> ref_ID r = []"

definition Ref_ClusterScoped :: "Ref \<Rightarrow> bool" where
  "Ref_ClusterScoped r \<longleftrightarrow> ref_Node r = []"

datatype parse_ref_error = MalformedRef string | UnknownKind string kind

definition ParseRef :: "string \<Rightarrow> parse_ref_error + Ref" where
  "ParseRef s =
     (case go_SplitN (CHR '':'') 3 s of
        [k, n, i] \<Rightarrow> if k \<in> set knownKinds then Inr (mkRef k n i) else Inl (UnknownKind s k)
      | _ \<Rightarrow> Inl (MalformedRef s))"


section \<open>Firewall objects\<close>

record FwRule =
  rule_Dest :: string
  rule_Direction :: string
  rule_Action :: string
  rule_Proto :: string
  rule_Source :: string
  rule_Sport :: string
  rule_Dport :: string
  rule_Iface :: string
  rule_Macro :: string
  rule_Log :: string
  rule_Comment :: string
  rule_Pos :: int
  rule_Enabled :: bool

definition zero_FwRule :: FwRule where
  "zero_FwRule = \<lparr> rule_Dest = [], rule_Direction = [], rule_Action = [], rule_Proto = [],
     rule_Source = [], rule_Sport = [], rule_Dport = [], rule_Iface = [], rule_Macro = [],
     rule_Log = [], rule_Comment = [], rule_Pos = 0, rule_Enabled = False \<rparr>"

datatype FwScope = FwScopeCluster | FwScopeNode | FwScopeGuest | FwScopeVNet

record FwAlias =
  alias_Name :: string
  alias_CIDR :: string
  alias_Comment :: string

record FwIPSetEntry =
  ipe_CIDR :: string
  ipe_Comment :: string
  ipe_NoMatch :: bool

record FwIPSet =
  ips_Name :: string
  ips_Comment :: string
  ips_Entries :: "FwIPSetEntry list"

record FwGroup =
  grp_Name :: string
  grp_Comment :: string
  grp_Rules :: "FwRule list"

record FwRuleset =
  rs_Ref :: Ref
  rs_Scope :: FwScope
  rs_DefaultIn :: string
  rs_DefaultOut :: string
  rs_DefaultForward :: string
  rs_LogLevelForward :: string
  rs_Rules :: "FwRule list"
  rs_Aliases :: "FwAlias list"
  rs_IPSets :: "FwIPSet list"
  rs_Groups :: "FwGroup list"
  rs_Enabled :: bool

definition zero_FwRuleset :: FwRuleset where
  "zero_FwRuleset = \<lparr> rs_Ref = zero_Ref, rs_Scope = FwScopeCluster, rs_DefaultIn = [],
     rs_DefaultOut = [], rs_DefaultForward = [], rs_LogLevelForward = [], rs_Rules = [],
     rs_Aliases = [], rs_IPSets = [], rs_Groups = [], rs_Enabled = False \<rparr>"


section \<open>Network entities\<close>

record VidRange =
  vid_Low :: int
  vid_High :: int

datatype BridgeVirt = BridgeLinux | BridgeOVS

record Bridge =
  br_Ref :: Ref
  br_Gateway :: string
  br_Name :: string
  br_Virt :: BridgeVirt
  br_Vids :: "VidRange list"
  br_Ports :: "Ref list"
  br_VlanAware :: bool

definition zero_Bridge :: Bridge where
  "zero_Bridge = \<lparr> br_Ref = zero_Ref, br_Gateway = [], br_Name = [], br_Virt = BridgeLinux,
     br_Vids = [], br_Ports = [], br_VlanAware = False \<rparr>"

record SdnZone =
  zone_Ref :: Ref
  zone_ID :: string
  zone_Type :: string
  zone_Bridge :: string
  zone_Nodes :: "string list"
  zone_ExitNodes :: "string list"

definition zero_SdnZone :: SdnZone where
  "zero_SdnZone = \<lparr> zone_Ref = zero_Ref, zone_ID = [], zone_Type = [], zone_Bridge = [],
     zone_Nodes = [], zone_ExitNodes = [] \<rparr>"

record SdnVnet =
  vnet_Ref :: Ref
  vnet_ID :: string
  vnet_Zone :: string
  vnet_Tag :: int

definition zero_SdnVnet :: SdnVnet where
  "zero_SdnVnet = \<lparr> vnet_Ref = zero_Ref, vnet_ID = [], vnet_Zone = [], vnet_Tag = 0 \<rparr>"

record SdnSubnet =
  sub_Ref :: Ref
  sub_ID :: string
  sub_Vnet :: string
  sub_SNAT :: bool

definition zero_SdnSubnet :: SdnSubnet where
  "zero_SdnSubnet = \<lparr> sub_Ref = zero_Ref, sub_ID = [], sub_Vnet = [], sub_SNAT = False \<rparr>"

record Guest =
  guest_Ref :: Ref
  guest_Name :: string

record GuestNic =
  nic_Ref :: Ref
  nic_Guest :: Ref
  nic_Key :: string
  nic_TargetName :: string
  nic_BridgeOrVnet :: Ref
  nic_EffectiveVid :: int
  nic_Firewall :: bool

definition zero_GuestNic :: GuestNic where
  "zero_GuestNic = \<lparr> nic_Ref = zero_Ref, nic_Guest = zero_Ref, nic_Key = [], nic_TargetName = [],
     nic_BridgeOrVnet = zero_Ref, nic_EffectiveVid = 0, nic_Firewall = False \<rparr>"

record LldpNeighbor =
  lldp_Ref :: Ref
  lldp_PortID :: string
  lldp_TaggedVLANs :: "int list"
  lldp_VLAN :: int

datatype Entity =
    EGuestNic GuestNic
  | EGuest Guest
  | EBridge Bridge
  | ESdnVnet SdnVnet
  | ESdnZone SdnZone
  | ESdnSubnet SdnSubnet
  | EFwRuleset FwRuleset
  | ELldpNeighbor LldpNeighbor
  | EOther Ref

primrec GetRef :: "Entity \<Rightarrow> Ref" where
  "GetRef (EGuestNic x) = nic_Ref x"
| "GetRef (EGuest x) = guest_Ref x"
| "GetRef (EBridge x) = br_Ref x"
| "GetRef (ESdnVnet x) = vnet_Ref x"
| "GetRef (ESdnZone x) = zone_Ref x"
| "GetRef (ESdnSubnet x) = sub_Ref x"
| "GetRef (EFwRuleset x) = rs_Ref x"
| "GetRef (ELldpNeighbor x) = lldp_Ref x"
| "GetRef (EOther r) = r"


section \<open>Edges and snapshots\<close>

datatype EdgeKind = EdgeEnslavedBy | EdgePortOf | EdgeTaggedOn | EdgeRealizes | EdgeAttachedTo
  | EdgeLldpAdjacent | EdgeVtepPeer

record Edge =
  edge_From :: Ref
  edge_To :: Ref
  edge_Kind :: EdgeKind

abbreviation mkEdge :: "Ref \<Rightarrow> Ref \<Rightarrow> EdgeKind \<Rightarrow> Edge" where
  "mkEdge f t k \<equiv> \<lparr> edge_From = f, edge_To = t, edge_Kind = k \<rparr>"

record InvSnapshot =
  inv_entities :: "(Ref \<times> Entity) list"
  inv_edges :: "Edge list"

text \<open>Entities in the order of their keys' string encodings.\<close>

definition sortedEntities :: "(Ref \<times> Entity) list \<Rightarrow> Entity list" where
  "sortedEntities ents = map snd (sort_key (\<lambda>(r, e). Ref_String r) ents)"

definition Snapshot_All :: "InvSnapshot \<Rightarrow> Entity list" where
  "Snapshot_All s = sortedEntities (inv_entities s)"

definition Snapshot_Get :: "InvSnapshot \<Rightarrow> Ref \<Rightarrow> Entity option" where
  "Snapshot_Get s r = map_of (inv_entities s) r"

text \<open>
  The per-entity edge index: walking the edge list, each edge is appended to the list of its
  source and then to the list of its target, so a self-loop is listed twice.
\<close>

definition EdgesOf :: "InvSnapshot \<Rightarrow> Ref \<Rightarrow> Edge list" where
  "EdgesOf s r = concat (map (\<lambda>e. (if edge_From e = r then [e] else [])
                                 @ (if edge_To e = r then [e] else [])) (inv_edges s))"


section \<open>Facts\<close>

lemma knownKinds_no_colon: "k \<in> set knownKinds \<Longrightarrow> CHR '':'' \<notin> set k"
  by (auto simp: knownKinds_def)

lemma set_EdgesOf: "e \<in> set (EdgesOf s r) \<longleftrightarrow> e \<in> set (inv_edges s) \<and> (edge_From e = r \<or> edge_To e = r)"
  by (auto simp: EdgesOf_def)

lemma set_sortedEntities: "set (sortedEntities ents) = snd ` set ents"
  by (simp add: sortedEntities_def)

lemma Snapshot_All_iff:
  assumes "distinct (map fst (inv_entities s))"
  shows "e \<in> set (Snapshot_All s) \<longleftrightarrow> (\<exists>r. Snapshot_Get s r = Some e)"
  using assms by (force simp: Snapshot_All_def set_sortedEntities Snapshot_Get_def map_of_eq_Some_iff)

lemma Ref_String_inj:
  assumes "CHR '':'' \<notin> set (ref_Kind r)" "CHR '':'' \<notin> set (ref_Node r)"
    and "CHR '':'' \<notin> set (ref_Kind q)" "CHR '':'' \<notin> set (ref_Node q)"
    and "Ref_String r = Ref_String q"
  shows "r = q"
proof -
  have "go_SplitN (CHR '':'') 3 (Ref_String r) = [ref_Kind r, ref_Node r, ref_ID r]"
    "go_SplitN (CHR '':'') 3 (Ref_String q) = [ref_Kind q, ref_Node q, ref_ID q]"
    using assms(1-4) by (simp_all add: Ref_String_def go_SplitN3)
  with assms(5) show ?thesis by (cases r; cases q) simp
qed

text \<open>
  C40. \<open>ParseRef\<close> is the exact inverse of \<open>Ref.String\<close>: for a ref whose kind is known and whose
  node name has no colon, printing and parsing gives the same ref back, whatever the ID contains.
\<close>

theorem ParseRef_String:
  assumes "ref_Kind r \<in> set knownKinds" and "CHR '':'' \<notin> set (ref_Node r)"
  shows "ParseRef (Ref_String r) = Inr r"
  using assms knownKinds_no_colon [of "ref_Kind r"]
  by (simp add: ParseRef_def Ref_String_def go_SplitN3)

theorem ParseRef_String_witness:
  "ParseRef (Ref_String (mkRef KindSDNSubnet [] ''2001:db8::/64''))
   = Inr (mkRef KindSDNSubnet [] ''2001:db8::/64'')"
  by (rule ParseRef_String) (simp_all add: knownKinds_def)

text \<open>
  \<open>ParseRef\<close> accepts nothing else: what it accepts is a known kind, a node name without a
  colon, and exactly the text that printing the result gives back.
\<close>

theorem ParseRef_sound:
  assumes "ParseRef s = Inr r"
  shows "ref_Kind r \<in> set knownKinds \<and> CHR '':'' \<notin> set (ref_Node r) \<and> Ref_String r = s"
proof -
  from assms obtain k n i where kni: "go_SplitN (CHR '':'') 3 s = [k, n, i]"
    and k: "k \<in> set knownKinds" and r: "r = mkRef k n i"
    by (auto simp: ParseRef_def split: list.splits if_splits)
  have s: "s = k @ CHR '':'' # n @ CHR '':'' # i" by (rule go_SplitN3_inv [OF kni])
  from kni have "CHR '':'' \<notin> set n"
    by (auto simp: numeral_3_eq_3 split: list.splits dest: set_takeWhileD)
  with k r s show ?thesis by (simp add: Ref_String_def)
qed

theorem ParseRef_sound_witness:
  "Ref_String (mkRef KindBridge ''pve1'' ''vmbr0'') = ''bridge:pve1:vmbr0''"
proof -
  have "ParseRef ''bridge:pve1:vmbr0'' = Inr (mkRef KindBridge ''pve1'' ''vmbr0'')"
    by (simp add: ParseRef_def numeral_3_eq_3 knownKinds_def)
  from ParseRef_sound [OF this] show ?thesis by blast
qed

end
