(* ===== verification/Fw.thy ===== *)
theory Fw
  imports Inventory "HOL-Library.Product_Lexorder"
begin

text \<open>
  The firewall resolution engine of \<^verbatim>\<open>src/internal/fw\<close>: the ruleset snapshot (\<^verbatim>\<open>snapshot.go\<close>), the
  macro catalog (\<^verbatim>\<open>macro.go\<close>), a guest's effective rule order and its enablement gates
  (\<^verbatim>\<open>resolve.go\<close>), the rule-effects preview (\<^verbatim>\<open>effects.go\<close>) and object usage counts (\<^verbatim>\<open>usage.go\<close>).

  The model keeps the code's accumulators (the output slice and the running position). The lemmas
  show it equal to a declarative order: cluster rules, then guest rules, each enabled reference to
  an existing security group followed by that group's rules, numbered from 0.
\<close>

section \<open>Snapshot\<close>

record FwSnapshot =
  fs_Cluster :: "FwRuleset option"
  fs_Nodes :: "(string \<times> FwRuleset) list"
  fs_Guests :: "(Ref \<times> FwRuleset) list"
  fs_VNets :: "(Ref \<times> FwRuleset) list"

definition empty_FwSnapshot :: FwSnapshot where
  "empty_FwSnapshot = \<lparr> fs_Cluster = None, fs_Nodes = [], fs_Guests = [], fs_VNets = [] \<rparr>"

definition guestRefFromRulesetID :: "Ref \<Rightarrow> Ref option" where
  "guestRefFromRulesetID r =
     (case go_SplitN (CHR ''/'') 3 (ref_ID r) of
        [a, b, c] \<Rightarrow> if a = ''guest'' then Some (mkRef KindGuest (ref_Node r) c) else None
      | _ \<Rightarrow> None)"

definition vnetRefFromRulesetID :: "Ref \<Rightarrow> Ref option" where
  "vnetRefFromRulesetID r =
     (case go_SplitN (CHR ''/'') 3 (ref_ID r) of
        [a, b, c] \<Rightarrow> if a = ''vnet'' then Some (mkRef KindSDNVnet [] (b @ ''/'' @ c)) else None
      | _ \<Rightarrow> None)"

text \<open>One entity of \<open>BuildSnapshot\<close>'s loop; the copy the code takes is the value itself here.\<close>

definition addRuleset :: "FwSnapshot \<Rightarrow> Entity \<Rightarrow> FwSnapshot" where
  "addRuleset snap e =
     (case e of
        EFwRuleset rs \<Rightarrow>
          (case rs_Scope rs of
             FwScopeCluster \<Rightarrow> snap\<lparr>fs_Cluster := Some rs\<rparr>
           | FwScopeNode \<Rightarrow> snap\<lparr>fs_Nodes := AList.update (ref_Node (rs_Ref rs)) rs (fs_Nodes snap)\<rparr>
           | FwScopeGuest \<Rightarrow>
               (case guestRefFromRulesetID (rs_Ref rs) of
                  None \<Rightarrow> snap
                | Some r \<Rightarrow> snap\<lparr>fs_Guests := AList.update r rs (fs_Guests snap)\<rparr>)
           | FwScopeVNet \<Rightarrow>
               (case vnetRefFromRulesetID (rs_Ref rs) of
                  None \<Rightarrow> snap
                | Some r \<Rightarrow> snap\<lparr>fs_VNets := AList.update r rs (fs_VNets snap)\<rparr>))
      | _ \<Rightarrow> snap)"

definition BuildSnapshot :: "Entity list \<Rightarrow> FwSnapshot" where
  "BuildSnapshot es = foldl addRuleset empty_FwSnapshot es"

definition sortedNodeNames :: "FwSnapshot \<Rightarrow> string list" where
  "sortedNodeNames s = sort (map fst (fs_Nodes s))"

definition sortedGuestRefs :: "FwSnapshot \<Rightarrow> Ref list" where
  "sortedGuestRefs s = sort_key Ref_String (map fst (fs_Guests s))"

definition sortedVNetRefs :: "FwSnapshot \<Rightarrow> Ref list" where
  "sortedVNetRefs s = sort_key Ref_String (map fst (fs_VNets s))"

definition Snapshot_Group :: "FwSnapshot \<Rightarrow> string \<Rightarrow> FwGroup option" where
  "Snapshot_Group s name =
     (case fs_Cluster s of None \<Rightarrow> None
      | Some c \<Rightarrow> List.find (\<lambda>g. grp_Name g = name) (rs_Groups c))"


section \<open>Macros\<close>

record MacroPort =
  mp_Proto :: string
  mp_Dport :: string

record Macro =
  mac_Name :: string
  mac_Comment :: string
  mac_Ports :: "MacroPort list"

abbreviation mp :: "string \<Rightarrow> string \<Rightarrow> MacroPort" where
  "mp p d \<equiv> \<lparr> mp_Proto = p, mp_Dport = d \<rparr>"

abbreviation mkMacro :: "string \<Rightarrow> string \<Rightarrow> MacroPort list \<Rightarrow> string \<times> Macro" where
  "mkMacro n c ps \<equiv> (n, \<lparr> mac_Name = n, mac_Comment = c, mac_Ports = ps \<rparr>)"

definition macroCatalog :: "(string \<times> Macro) list" where
  "macroCatalog =
    [mkMacro ''HTTP'' ''Web traffic (HTTP)'' [mp ''tcp'' ''80''],
     mkMacro ''HTTPS'' ''Web traffic (HTTPS)'' [mp ''tcp'' ''443''],
     mkMacro ''SSH'' ''Secure shell'' [mp ''tcp'' ''22''],
     mkMacro ''DNS'' ''Domain Name System'' [mp ''udp'' ''53'', mp ''tcp'' ''53''],
     mkMacro ''SMTP'' ''Mail transport'' [mp ''tcp'' ''25''],
     mkMacro ''SMTPS'' ''Mail transport over TLS'' [mp ''tcp'' ''465''],
     mkMacro ''IMAP'' ''Mail retrieval'' [mp ''tcp'' ''143''],
     mkMacro ''IMAPS'' ''Mail retrieval over TLS'' [mp ''tcp'' ''993''],
     mkMacro ''POP3'' ''Mail retrieval'' [mp ''tcp'' ''110''],
     mkMacro ''POP3S'' ''Mail retrieval over TLS'' [mp ''tcp'' ''995''],
     mkMacro ''FTP'' ''File transfer (control)'' [mp ''tcp'' ''21''],
     mkMacro ''NTP'' ''Network time'' [mp ''udp'' ''123''],
     mkMacro ''Ping'' ''ICMP echo'' [mp ''icmp'' []],
     mkMacro ''Telnet'' ''Unencrypted remote shell'' [mp ''tcp'' ''23''],
     mkMacro ''Rsync'' ''File sync'' [mp ''tcp'' ''873''],
     mkMacro ''VNC'' ''Remote console (single display range)'' [mp ''tcp'' ''5900:5999''],
     mkMacro ''Syslog'' ''Log forwarding'' [mp ''udp'' ''514'', mp ''tcp'' ''514''],
     mkMacro ''SNMP'' ''Network monitoring'' [mp ''udp'' ''161''],
     mkMacro ''LDAP'' ''Directory service'' [mp ''tcp'' ''389''],
     mkMacro ''LDAPS'' ''Directory service over TLS'' [mp ''tcp'' ''636''],
     mkMacro ''HKP'' ''OpenPGP key server'' [mp ''tcp'' ''11371''],
     mkMacro ''MySQL'' ''MySQL/MariaDB'' [mp ''tcp'' ''3306''],
     mkMacro ''PostgreSQL'' ''PostgreSQL'' [mp ''tcp'' ''5432'']]"

definition MacroExpansion :: "string \<Rightarrow> Macro option" where
  "MacroExpansion name = map_of macroCatalog name"

definition KnownMacros :: "Macro list" where
  "KnownMacros = map (\<lambda>n. the (map_of macroCatalog n)) (sort (map fst macroCatalog))"


section \<open>Resolved view\<close>

datatype Origin = OriginCluster | OriginGroup | OriginGuest | OriginDefault

primrec Origin_string :: "Origin \<Rightarrow> string" where
  "Origin_string OriginCluster = ''cluster''"
| "Origin_string OriginGroup = ''group''"
| "Origin_string OriginGuest = ''guest''"
| "Origin_string OriginDefault = ''default''"

record ResolvedRule =
  rr_Origin :: Origin
  rr_GroupName :: string
  rr_Rule :: FwRule
  rr_Pos :: int

record DefaultPolicy =
  dp_Direction :: string
  dp_Policy :: string
  dp_Origin :: Origin

record EnablementGate =
  gate_Scope :: FwScope
  gate_Message :: string

record ResolvedView =
  rv_Guest :: Ref
  rv_DefaultIn :: DefaultPolicy
  rv_DefaultOut :: DefaultPolicy
  rv_Gates :: "EnablementGate list"
  rv_Rules :: "ResolvedRule list"
  rv_Active :: bool

definition pveHardDefaultIn :: string where
  "pveHardDefaultIn = ''DROP''"

definition pveHardDefaultOut :: string where
  "pveHardDefaultOut = ''ACCEPT''"

definition guestGates :: "FwSnapshot \<Rightarrow> FwRuleset option \<Rightarrow> EnablementGate list" where
  "guestGates snap guestRS =
     (case fs_Cluster snap of
        Some c \<Rightarrow> if rs_Enabled c then []
                  else [\<lparr> gate_Scope = FwScopeCluster, gate_Message =
                         ''Datacenter firewall is OFF: none of these rules are active.'' \<rparr>]
      | None \<Rightarrow> [])
     @ (if (case guestRS of None \<Rightarrow> True | Some g \<Rightarrow> \<not> rs_Enabled g)
        then [\<lparr> gate_Scope = FwScopeGuest, gate_Message =
               ''Firewall is OFF for this guest: none of its rules (or any referenced security groups) are active.'' \<rparr>]
        else [])"

text \<open>The inner loop of \<open>appendRule\<close> over a security group's own rules.\<close>

fun appendGroupRules :: "ResolvedRule list \<Rightarrow> int \<Rightarrow> string \<Rightarrow> FwRule list \<Rightarrow> ResolvedRule list \<times> int" where
  "appendGroupRules out pos name [] = (out, pos)"
| "appendGroupRules out pos name (gr # grs) =
     appendGroupRules
       (out @ [\<lparr> rr_Origin = OriginGroup, rr_GroupName = name, rr_Rule = gr, rr_Pos = pos \<rparr>])
       (pos + 1) name grs"

definition appendRule ::
  "ResolvedRule list \<Rightarrow> int \<Rightarrow> Origin \<Rightarrow> FwRule \<Rightarrow> FwSnapshot \<Rightarrow> ResolvedRule list \<times> int" where
  "appendRule out pos origin r snap =
     (if rule_Direction r \<noteq> ''group''
      then (out @ [\<lparr> rr_Origin = origin, rr_GroupName = [], rr_Rule = r, rr_Pos = pos \<rparr>], pos + 1)
      else
        let out = out @ [\<lparr> rr_Origin = origin, rr_GroupName = rule_Action r, rr_Rule = r, rr_Pos = pos \<rparr>];
            pos = pos + 1
        in if \<not> rule_Enabled r then (out, pos)
           else case Snapshot_Group snap (rule_Action r) of
                  None \<Rightarrow> (out, pos)
                | Some g \<Rightarrow> appendGroupRules out pos (grp_Name g) (grp_Rules g))"

fun appendRuleset ::
  "ResolvedRule list \<Rightarrow> int \<Rightarrow> Origin \<Rightarrow> FwRule list \<Rightarrow> FwSnapshot \<Rightarrow> ResolvedRule list \<times> int" where
  "appendRuleset out pos origin [] snap = (out, pos)"
| "appendRuleset out pos origin (r # rs) snap =
     (let (out', pos') = appendRule out pos origin r snap in appendRuleset out' pos' origin rs snap)"

definition policyFor :: "FwRuleset \<Rightarrow> string \<Rightarrow> string" where
  "policyFor rs direction = (if direction = ''in'' then rs_DefaultIn rs else rs_DefaultOut rs)"

definition resolveDefaultPolicy ::
  "string \<Rightarrow> FwRuleset option \<Rightarrow> FwRuleset option \<Rightarrow> DefaultPolicy" where
  "resolveDefaultPolicy direction cluster guest =
     (let mk = (\<lambda>p orig. \<lparr> dp_Direction = direction, dp_Policy = p, dp_Origin = orig \<rparr>);
          own = (case guest of None \<Rightarrow> [] | Some g \<Rightarrow> policyFor g direction);
          dc = (case cluster of None \<Rightarrow> [] | Some c \<Rightarrow> policyFor c direction)
      in if own \<noteq> [] then mk own OriginGuest
         else if dc \<noteq> [] then mk dc OriginCluster
         else mk (if direction = ''out'' then pveHardDefaultOut else pveHardDefaultIn) OriginDefault)"

datatype resolve_error = NotAGuestRef Ref

definition resolve_error_string :: "resolve_error \<Rightarrow> string" where
  "resolve_error_string e =
     (case e of NotAGuestRef g \<Rightarrow> ''fw: resolve guest ref '' @ Ref_String g @ '': not a guest ref'')"

definition Resolve :: "FwSnapshot \<Rightarrow> Ref \<Rightarrow> resolve_error + ResolvedView" where
  "Resolve snap guest =
     (if ref_Kind guest \<noteq> KindGuest then Inl (NotAGuestRef guest)
      else let guestRS = map_of (fs_Guests snap) guest;
               gates = guestGates snap guestRS;
               (rules1, pos1) = (case fs_Cluster snap of None \<Rightarrow> ([], 0)
                  | Some c \<Rightarrow> appendRuleset [] 0 OriginCluster (rs_Rules c) snap);
               rules2 = (case guestRS of None \<Rightarrow> rules1
                  | Some g \<Rightarrow> fst (appendRuleset rules1 pos1 OriginGuest (rs_Rules g) snap))
           in Inr \<lparr> rv_Guest = guest,
                    rv_DefaultIn = resolveDefaultPolicy ''in'' (fs_Cluster snap) guestRS,
                    rv_DefaultOut = resolveDefaultPolicy ''out'' (fs_Cluster snap) guestRS,
                    rv_Gates = gates, rv_Rules = rules2, rv_Active = (gates = []) \<rparr>)"

definition ScopeBanners ::
  "FwSnapshot \<Rightarrow> FwScope \<Rightarrow> string \<Rightarrow> FwRuleset option \<Rightarrow> EnablementGate list" where
  "ScopeBanners snap scope node ruleset =
     (let clusterOff = (case fs_Cluster snap of None \<Rightarrow> False | Some c \<Rightarrow> \<not> rs_Enabled c);
          off = (case ruleset of None \<Rightarrow> True | Some r \<Rightarrow> \<not> rs_Enabled r);
          gate = (\<lambda>sc m. [\<lparr> gate_Scope = sc, gate_Message = m \<rparr>])
      in case scope of
           FwScopeCluster \<Rightarrow>
             if off then gate FwScopeCluster ''Datacenter firewall is OFF: none of these rules are active.''
             else []
         | FwScopeNode \<Rightarrow>
             (if clusterOff then gate FwScopeCluster
                (''Datacenter firewall is OFF: none of node '' @ node @ '''s host-level rules are active.'')
              else [])
             @ (if off then gate FwScopeNode
                  (''Firewall is OFF for node '' @ node @ '': none of its own rules are active.'') else [])
         | FwScopeGuest \<Rightarrow> guestGates snap ruleset
         | FwScopeVNet \<Rightarrow>
             (if clusterOff then gate FwScopeCluster
                (''Datacenter firewall is OFF: none of vnet '' @ node @ '''s forward-chain rules are active.'')
              else [])
             @ (if off then gate FwScopeVNet
                  (''Firewall is OFF for vnet '' @ node @ '': none of its forward-chain rules are active.'')
                else []))"


section \<open>Effects preview\<close>

fun matchingGuests_loop :: "FwSnapshot \<Rightarrow> string \<Rightarrow> Ref list \<Rightarrow> resolve_error + Ref list" where
  "matchingGuests_loop snap grp [] = Inr []"
| "matchingGuests_loop snap grp (g # gs) =
     (case Resolve snap g of
        Inl e \<Rightarrow> Inl e
      | Inr view \<Rightarrow>
          (case matchingGuests_loop snap grp gs of
             Inl e \<Rightarrow> Inl e
           | Inr rest \<Rightarrow>
               Inr (if \<exists>r \<in> set (rv_Rules view). rr_Origin r = OriginGroup \<and> rr_GroupName r = grp
                    then g # rest else rest)))"

definition MatchingGuests :: "FwSnapshot \<Rightarrow> string \<Rightarrow> resolve_error + Ref list" where
  "MatchingGuests snap grp = matchingGuests_loop snap grp (sortedGuestRefs snap)"


section \<open>Object usage\<close>

datatype ObjectKind = ObjectAlias | ObjectIPSet | ObjectGroup

primrec ObjectKind_string :: "ObjectKind \<Rightarrow> string" where
  "ObjectKind_string ObjectAlias = ''alias''"
| "ObjectKind_string ObjectIPSet = ''ipset''"
| "ObjectKind_string ObjectGroup = ''group''"

primrec FwScope_string :: "FwScope \<Rightarrow> string" where
  "FwScope_string FwScopeCluster = ''cluster''"
| "FwScope_string FwScopeNode = ''node''"
| "FwScope_string FwScopeGuest = ''guest''"
| "FwScope_string FwScopeVNet = ''vnet''"

record RuleRef =
  rref_Scope :: FwScope
  rref_RulesetRef :: Ref
  rref_Pos :: int

record ObjectUsage =
  ou_Kind :: ObjectKind
  ou_Scope :: FwScope
  ou_Name :: string
  ou_Comment :: string
  ou_ReferencedBy :: "RuleRef list"
  ou_Count :: int

record rulesetRules =
  rsr_Scope :: FwScope
  rsr_Ref :: Ref
  rsr_Rules :: "FwRule list"

abbreviation mkRulesetRules :: "FwScope \<Rightarrow> Ref \<Rightarrow> FwRule list \<Rightarrow> rulesetRules" where
  "mkRulesetRules sc r rs \<equiv> \<lparr> rsr_Scope = sc, rsr_Ref = r, rsr_Rules = rs \<rparr>"

primrec ruleReferences :: "ObjectKind \<Rightarrow> FwRule \<Rightarrow> string \<Rightarrow> bool" where
  "ruleReferences ObjectAlias r name = (rule_Source r = name \<or> rule_Dest r = name)"
| "ruleReferences ObjectIPSet r name = (rule_Source r = ''+'' @ name \<or> rule_Dest r = ''+'' @ name)"
| "ruleReferences ObjectGroup r name = (rule_Direction r = ''group'' \<and> rule_Action r = name)"

definition countRule :: "rulesetRules \<Rightarrow> ObjectUsage \<Rightarrow> FwRule \<Rightarrow> ObjectUsage" where
  "countRule src u r =
     (if \<not> ruleReferences (ou_Kind u) r (ou_Name u) then u
      else u\<lparr> ou_Count := ou_Count u + 1,
              ou_ReferencedBy := ou_ReferencedBy u @
                [\<lparr> rref_Scope = rsr_Scope src, rref_RulesetRef = rsr_Ref src, rref_Pos = rule_Pos r \<rparr>] \<rparr>)"

definition buildUsage ::
  "ObjectKind \<Rightarrow> FwScope \<Rightarrow> string \<Rightarrow> string \<Rightarrow> rulesetRules list \<Rightarrow> ObjectUsage" where
  "buildUsage kind scope name comment sources =
     foldl (\<lambda>u src. foldl (countRule src) u (rsr_Rules src))
       \<lparr> ou_Kind = kind, ou_Scope = scope, ou_Name = name, ou_Comment = comment,
         ou_ReferencedBy = [], ou_Count = 0 \<rparr> sources"

definition allRulesetRules :: "FwSnapshot \<Rightarrow> rulesetRules list" where
  "allRulesetRules snap =
     (case fs_Cluster snap of
        None \<Rightarrow> []
      | Some c \<Rightarrow> mkRulesetRules FwScopeCluster (rs_Ref c) (rs_Rules c)
          # map (\<lambda>g. mkRulesetRules FwScopeCluster (mkRef KindFwRuleset [] (''group/'' @ grp_Name g))
                        (grp_Rules g)) (rs_Groups c))
     @ map (\<lambda>n. let rs = the (map_of (fs_Nodes snap) n) in mkRulesetRules FwScopeNode (rs_Ref rs) (rs_Rules rs))
         (sortedNodeNames snap)
     @ map (\<lambda>g. let rs = the (map_of (fs_Guests snap) g) in mkRulesetRules FwScopeGuest (rs_Ref rs) (rs_Rules rs))
         (sortedGuestRefs snap)
     @ map (\<lambda>v. let rs = the (map_of (fs_VNets snap) v) in mkRulesetRules FwScopeVNet (rs_Ref rs) (rs_Rules rs))
         (sortedVNetRefs snap)"

text \<open>The aliases and IP sets one node or guest ruleset defines, counted within that ruleset.\<close>

definition localUsage :: "FwScope \<Rightarrow> FwRuleset \<Rightarrow> ObjectUsage list" where
  "localUsage scope rs =
     (let lcl = [mkRulesetRules scope (rs_Ref rs) (rs_Rules rs)]
      in map (\<lambda>a. buildUsage ObjectAlias scope (alias_Name a) (alias_Comment a) lcl) (rs_Aliases rs)
       @ map (\<lambda>s. buildUsage ObjectIPSet scope (ips_Name s) (ips_Comment s) lcl) (rs_IPSets rs))"

definition usageKey :: "ObjectUsage \<Rightarrow> string \<times> string \<times> string" where
  "usageKey u = (ObjectKind_string (ou_Kind u), FwScope_string (ou_Scope u), ou_Name u)"

text \<open>
  \<open>sort.Slice\<close> leaves the order of entries with equal keys unspecified; the stable sort is one of
  its possible results, and the facts below only use that the result is a sorted permutation.
\<close>

definition UsageCounts :: "FwSnapshot \<Rightarrow> ObjectUsage list" where
  "UsageCounts snap =
     (let everywhere = allRulesetRules snap;
          outC = (case fs_Cluster snap of None \<Rightarrow> []
            | Some c \<Rightarrow>
                map (\<lambda>a. buildUsage ObjectAlias FwScopeCluster (alias_Name a) (alias_Comment a) everywhere) (rs_Aliases c)
              @ map (\<lambda>s. buildUsage ObjectIPSet FwScopeCluster (ips_Name s) (ips_Comment s) everywhere) (rs_IPSets c)
              @ map (\<lambda>g. buildUsage ObjectGroup FwScopeCluster (grp_Name g) (grp_Comment g) everywhere) (rs_Groups c));
          outN = concat (map (\<lambda>n. localUsage FwScopeNode (the (map_of (fs_Nodes snap) n))) (sortedNodeNames snap));
          outG = concat (map (\<lambda>g. localUsage FwScopeGuest (the (map_of (fs_Guests snap) g))) (sortedGuestRefs snap))
      in sort_key usageKey (outC @ outN @ outG))"


section \<open>The effective order, declaratively\<close>

text \<open>
  What the resolver promises: the rules a reference expands to, the order of a ruleset, and the
  order of a guest. A rule is named by where it comes from, the group it was spliced from (or
  refers to), and itself.
\<close>

type_synonym placed = "Origin \<times> string \<times> FwRule"

definition spliceGroup :: "FwSnapshot \<Rightarrow> FwRule \<Rightarrow> placed list" where
  "spliceGroup snap r =
     (if rule_Direction r = ''group'' \<and> rule_Enabled r
      then case Snapshot_Group snap (rule_Action r) of None \<Rightarrow> []
             | Some g \<Rightarrow> map (\<lambda>gr. (OriginGroup, grp_Name g, gr)) (grp_Rules g)
      else [])"

definition rulesetOrder :: "FwSnapshot \<Rightarrow> Origin \<Rightarrow> FwRule list \<Rightarrow> placed list" where
  "rulesetOrder snap origin rules =
     concat (map (\<lambda>r. (origin, if rule_Direction r = ''group'' then rule_Action r else [], r)
                      # spliceGroup snap r) rules)"

definition effectiveOrder :: "FwSnapshot \<Rightarrow> Ref \<Rightarrow> placed list" where
  "effectiveOrder snap guest =
     (case fs_Cluster snap of None \<Rightarrow> [] | Some c \<Rightarrow> rulesetOrder snap OriginCluster (rs_Rules c))
     @ (case map_of (fs_Guests snap) guest of None \<Rightarrow> []
        | Some g \<Rightarrow> rulesetOrder snap OriginGuest (rs_Rules g))"

definition placed_of :: "ResolvedRule \<Rightarrow> placed" where
  "placed_of rr = (rr_Origin rr, rr_GroupName rr, rr_Rule rr)"

text \<open>What the accumulator-passing loops maintain: entries numbered from 0, the next position free.\<close>

definition numbered :: "ResolvedRule list \<times> int \<Rightarrow> placed list \<Rightarrow> bool" where
  "numbered st ps \<longleftrightarrow> map placed_of (fst st) = ps \<and> snd st = int (length ps)
     \<and> map rr_Pos (fst st) = map int [0..<length ps]"

lemma numbered_snoc:
  assumes "numbered (out, pos) ps"
  shows "numbered (out @ [\<lparr> rr_Origin = orig, rr_GroupName = n, rr_Rule = r, rr_Pos = pos \<rparr>], pos + 1)
           (ps @ [(orig, n, r)])"
  using assms by (auto simp: numbered_def placed_of_def)

lemma numbered_appendGroupRules:
  "numbered (out, pos) ps \<Longrightarrow>
   numbered (appendGroupRules out pos n grs) (ps @ map (\<lambda>gr. (OriginGroup, n, gr)) grs)"
proof (induction grs arbitrary: out pos ps)
  case Nil
  then show ?case by simp
next
  case (Cons gr grs)
  from Cons.IH [OF numbered_snoc [OF Cons.prems]] show ?case by simp
qed

lemma numbered_appendRule:
  assumes "numbered (out, pos) ps"
  shows "numbered (appendRule out pos origin r snap) (ps @ rulesetOrder snap origin [r])"
proof (cases "rule_Direction r = ''group'' \<and> rule_Enabled r \<and> Snapshot_Group snap (rule_Action r) \<noteq> None")
  case True
  then obtain g where "Snapshot_Group snap (rule_Action r) = Some g" by blast
  with True numbered_appendGroupRules [OF numbered_snoc [OF assms]] show ?thesis
    by (simp add: appendRule_def rulesetOrder_def spliceGroup_def)
next
  case False
  then show ?thesis
    using numbered_snoc [OF assms]
    by (auto simp: appendRule_def rulesetOrder_def spliceGroup_def Let_def split: option.splits)
qed

lemma rulesetOrder_Cons:
  "rulesetOrder snap origin (r # rs) = rulesetOrder snap origin [r] @ rulesetOrder snap origin rs"
  by (simp add: rulesetOrder_def)

lemma numbered_appendRuleset:
  "numbered (out, pos) ps \<Longrightarrow>
   numbered (appendRuleset out pos origin rules snap) (ps @ rulesetOrder snap origin rules)"
proof (induction rules arbitrary: out pos ps)
  case Nil
  then show ?case by (simp add: rulesetOrder_def)
next
  case (Cons r rs)
  obtain out' pos' where st: "appendRule out pos origin r snap = (out', pos')" by fastforce
  from numbered_appendRule [OF Cons.prems, of origin r snap] st
  have "numbered (out', pos') (ps @ rulesetOrder snap origin [r])" by simp
  from Cons.IH [OF this] st show ?case
    by (subst rulesetOrder_Cons) simp
qed

lemma numbered_empty: "numbered ([], 0) []"
  by (simp add: numbered_def)

lemma Resolve_total: "ref_Kind guest = KindGuest \<Longrightarrow> \<exists>view. Resolve snap guest = Inr view"
  by (simp add: Resolve_def Let_def split: prod.split)

lemma Resolve_rules:
  assumes "Resolve snap guest = Inr view"
  shows "numbered (rv_Rules view, int (length (rv_Rules view))) (effectiveOrder snap guest)"
proof -
  define st where "st = (case fs_Cluster snap of None \<Rightarrow> ([], 0)
                  | Some c \<Rightarrow> appendRuleset [] 0 OriginCluster (rs_Rules c) snap)"
  define ps where "ps = (case fs_Cluster snap of None \<Rightarrow> [] | Some c \<Rightarrow> rulesetOrder snap OriginCluster (rs_Rules c))"
  have n1: "numbered (fst st, snd st) ps"
    using numbered_empty numbered_appendRuleset [OF numbered_empty]
    by (auto simp: st_def ps_def split: option.splits)
  have rules: "rv_Rules view = (case map_of (fs_Guests snap) guest of None \<Rightarrow> fst st
                  | Some g \<Rightarrow> fst (appendRuleset (fst st) (snd st) OriginGuest (rs_Rules g) snap))"
    using assms by (cases st) (auto simp: Resolve_def Let_def st_def [symmetric] split: if_splits option.split)
  have "numbered (case map_of (fs_Guests snap) guest of None \<Rightarrow> st
                  | Some g \<Rightarrow> appendRuleset (fst st) (snd st) OriginGuest (rs_Rules g) snap)
          (effectiveOrder snap guest)"
    using n1 numbered_appendRuleset [OF n1]
    by (auto simp: effectiveOrder_def ps_def split: option.splits)
  then show ?thesis
    by (auto simp: rules numbered_def split: option.splits dest: map_eq_imp_length_eq)
qed

text \<open>
  C39. The resolver implements the documented order. For every guest ref the effective rules are the
  cluster rules followed by the guest's own rules, with every enabled reference to an existing
  security group followed in place by that group's rules, and the positions are 0, 1, 2, \<dots> without
  gaps; the view is active exactly when no enablement gate is raised.
\<close>

theorem Resolve_effective_order:
  assumes "Resolve snap guest = Inr view"
  shows "map placed_of (rv_Rules view) = effectiveOrder snap guest
       \<and> map rr_Pos (rv_Rules view) = map int [0..<length (rv_Rules view)]
       \<and> (rv_Active view \<longleftrightarrow> rv_Gates view = [])"
proof -
  note n = Resolve_rules [OF assms, unfolded numbered_def fst_conv snd_conv]
  from assms have "rv_Active view \<longleftrightarrow> rv_Gates view = []"
    by (auto simp: Resolve_def Let_def split: if_splits prod.splits)
  moreover from n have "length (effectiveOrder snap guest) = length (rv_Rules view)" by simp
  ultimately show ?thesis using n by metis
qed

text \<open>A small cluster: one group, a cluster ruleset that includes it, one guest with its own rule.\<close>

definition ex_rule :: "string \<Rightarrow> string \<Rightarrow> FwRule" where
  "ex_rule dir act = zero_FwRule\<lparr> rule_Direction := dir, rule_Action := act, rule_Enabled := True \<rparr>"

definition ex_guest :: Ref where
  "ex_guest = mkRef KindGuest ''pve1'' ''101''"

definition ex_snap :: FwSnapshot where
  "ex_snap = empty_FwSnapshot\<lparr>
     fs_Cluster := Some (zero_FwRuleset\<lparr> rs_Enabled := True,
        rs_Rules := [ex_rule ''group'' ''web'', ex_rule ''in'' ''DROP''],
        rs_Groups := [\<lparr> grp_Name = ''web'', grp_Comment = [], grp_Rules = [ex_rule ''in'' ''ACCEPT''] \<rparr>] \<rparr>),
     fs_Guests := [(ex_guest, zero_FwRuleset\<lparr> rs_Scope := FwScopeGuest, rs_Enabled := True,
        rs_DefaultIn := ''REJECT'', rs_Rules := [ex_rule ''out'' ''DROP''] \<rparr>)] \<rparr>"

lemmas ex_defs = ex_snap_def ex_guest_def ex_rule_def zero_FwRule_def zero_FwRuleset_def
  empty_FwSnapshot_def

theorem Resolve_effective_order_witness:
  "\<exists>view. Resolve ex_snap ex_guest = Inr view
     \<and> map placed_of (rv_Rules view) =
         [(OriginCluster, ''web'', ex_rule ''group'' ''web''), (OriginGroup, ''web'', ex_rule ''in'' ''ACCEPT''),
          (OriginCluster, [], ex_rule ''in'' ''DROP''), (OriginGuest, [], ex_rule ''out'' ''DROP'')]
     \<and> map rr_Pos (rv_Rules view) = [0, 1, 2, 3]"
proof -
  obtain view where v: "Resolve ex_snap ex_guest = Inr view"
    using Resolve_total [of ex_guest ex_snap] by (auto simp: ex_guest_def)
  have "effectiveOrder ex_snap ex_guest =
         [(OriginCluster, ''web'', ex_rule ''group'' ''web''), (OriginGroup, ''web'', ex_rule ''in'' ''ACCEPT''),
          (OriginCluster, [], ex_rule ''in'' ''DROP''), (OriginGuest, [], ex_rule ''out'' ''DROP'')]"
    by (simp add: effectiveOrder_def rulesetOrder_def spliceGroup_def Snapshot_Group_def ex_defs)
  with Resolve_effective_order [OF v] have
    "map placed_of (rv_Rules view) =
         [(OriginCluster, ''web'', ex_rule ''group'' ''web''), (OriginGroup, ''web'', ex_rule ''in'' ''ACCEPT''),
          (OriginCluster, [], ex_rule ''in'' ''DROP''), (OriginGuest, [], ex_rule ''out'' ''DROP'')]"
    and "map rr_Pos (rv_Rules view) = map int [0..<length (rv_Rules view)]" by auto
  moreover from this(1) have "length (rv_Rules view) = 4" by (auto dest: map_eq_imp_length_eq)
  ultimately show ?thesis using v by (simp add: eval_nat_numeral upt_rec)
qed


section \<open>Gates and default policies\<close>

lemma Resolve_fields:
  assumes "Resolve snap guest = Inr view"
  shows "rv_Guest view = guest" "rv_Gates view = guestGates snap (map_of (fs_Guests snap) guest)"
    "rv_Active view \<longleftrightarrow> guestGates snap (map_of (fs_Guests snap) guest) = []"
    "rv_DefaultIn view = resolveDefaultPolicy ''in'' (fs_Cluster snap) (map_of (fs_Guests snap) guest)"
    "rv_DefaultOut view = resolveDefaultPolicy ''out'' (fs_Cluster snap) (map_of (fs_Guests snap) guest)"
    "ref_Kind guest = KindGuest"
  using assms by (auto simp: Resolve_def Let_def split: if_splits prod.splits)

lemma guestGates_none_iff:
  "guestGates snap guestRS = [] \<longleftrightarrow>
     (\<forall>c. fs_Cluster snap = Some c \<longrightarrow> rs_Enabled c) \<and> (\<exists>g. guestRS = Some g \<and> rs_Enabled g)"
  by (auto simp: guestGates_def split: option.splits)

lemma dp_Policy_nonempty: "dp_Policy (resolveDefaultPolicy d c g) \<noteq> []"
  by (auto simp: resolveDefaultPolicy_def Let_def pveHardDefaultIn_def pveHardDefaultOut_def)

text \<open>
  A resolved view is enforced exactly when the guest's own firewall is on and the datacenter
  firewall is not off, and it always has a definite fall-through policy in both directions: the
  guest's own if it sets one, else the cluster's, else DROP inbound and ACCEPT outbound.
\<close>

theorem Resolve_active_and_policy:
  assumes "Resolve snap guest = Inr view"
  shows "(rv_Active view \<longleftrightarrow> (\<exists>g. map_of (fs_Guests snap) guest = Some g \<and> rs_Enabled g)
            \<and> (case fs_Cluster snap of None \<Rightarrow> True | Some c \<Rightarrow> rs_Enabled c))
       \<and> dp_Policy (rv_DefaultIn view) =
           hd (filter (\<lambda>p. p \<noteq> [])
             [case map_of (fs_Guests snap) guest of None \<Rightarrow> [] | Some g \<Rightarrow> rs_DefaultIn g,
              case fs_Cluster snap of None \<Rightarrow> [] | Some c \<Rightarrow> rs_DefaultIn c, ''DROP''])
       \<and> dp_Policy (rv_DefaultOut view) =
           hd (filter (\<lambda>p. p \<noteq> [])
             [case map_of (fs_Guests snap) guest of None \<Rightarrow> [] | Some g \<Rightarrow> rs_DefaultOut g,
              case fs_Cluster snap of None \<Rightarrow> [] | Some c \<Rightarrow> rs_DefaultOut c, ''ACCEPT''])"
  using Resolve_fields [OF assms]
  by (auto simp: guestGates_none_iff resolveDefaultPolicy_def Let_def policyFor_def
      pveHardDefaultIn_def pveHardDefaultOut_def split: option.splits)

theorem Resolve_active_and_policy_witness:
  "\<exists>view. Resolve ex_snap ex_guest = Inr view \<and> rv_Active view
     \<and> dp_Policy (rv_DefaultIn view) = ''REJECT'' \<and> dp_Policy (rv_DefaultOut view) = ''ACCEPT''"
proof -
  obtain view where v: "Resolve ex_snap ex_guest = Inr view"
    using Resolve_total [of ex_guest ex_snap] by (auto simp: ex_guest_def)
  with Resolve_active_and_policy [OF v] show ?thesis by (simp add: ex_defs)
qed


section \<open>Which guests a group reaches\<close>

interpretation group_lookup: first_match
  "\<lambda>g name. if grp_Name g = name then Some (Some g) else None" "\<lambda>name. None"
  "\<lambda>gs name. List.find (\<lambda>g. grp_Name g = name) gs"
  by unfold_locales auto

lemma Snapshot_Group_name: "Snapshot_Group snap n = Some g \<Longrightarrow> grp_Name g = n"
  by (auto simp: Snapshot_Group_def dest: find_Some_conv split: option.splits)

lemma Snapshot_Group_mem:
  "Snapshot_Group snap n = Some g \<Longrightarrow> \<exists>c. fs_Cluster snap = Some c \<and> g \<in> set (rs_Groups c)"
  by (auto simp: Snapshot_Group_def dest: find_Some_conv split: option.splits)

text \<open>A later group of the same name is never consulted.\<close>

lemma Snapshot_Group_first:
  assumes "fs_Cluster snap = Some c" "rs_Groups c = gs1 @ g # gs2"
    and "\<And>h. h \<in> set gs1 \<Longrightarrow> grp_Name h \<noteq> grp_Name g"
  shows "Snapshot_Group snap (grp_Name g) = Some g"
  using group_lookup.walk_hit [of gs1 "grp_Name g" g "Some g" gs2] assms
  by (simp add: Snapshot_Group_def)

definition refersTo :: "FwSnapshot \<Rightarrow> string \<Rightarrow> FwRule list \<Rightarrow> bool" where
  "refersTo snap grp rules \<longleftrightarrow>
     (\<exists>r \<in> set rules. rule_Direction r = ''group'' \<and> rule_Enabled r \<and> rule_Action r = grp)"

definition reachedBy :: "FwSnapshot \<Rightarrow> string \<Rightarrow> Ref \<Rightarrow> bool" where
  "reachedBy snap grp guest \<longleftrightarrow>
     (case Snapshot_Group snap grp of None \<Rightarrow> False | Some g \<Rightarrow> grp_Rules g \<noteq> [])
     \<and> ((case fs_Cluster snap of None \<Rightarrow> False | Some c \<Rightarrow> refersTo snap grp (rs_Rules c))
        \<or> (case map_of (fs_Guests snap) guest of None \<Rightarrow> False | Some g \<Rightarrow> refersTo snap grp (rs_Rules g)))"

lemma splice_OriginGroup:
  "(\<exists>r. (OriginGroup, grp, r) \<in> set (spliceGroup snap q)) \<longleftrightarrow>
     rule_Direction q = ''group'' \<and> rule_Enabled q \<and> rule_Action q = grp
     \<and> (case Snapshot_Group snap grp of None \<Rightarrow> False | Some g \<Rightarrow> grp_Rules g \<noteq> [])"
proof (cases "rule_Direction q = ''group'' \<and> rule_Enabled q")
  case True
  show ?thesis
  proof (cases "Snapshot_Group snap (rule_Action q)")
    case None
    with True show ?thesis by (auto simp: spliceGroup_def)
  next
    case (Some g)
    with True Snapshot_Group_name [OF Some] show ?thesis
      by (cases "rule_Action q = grp") (auto simp: spliceGroup_def image_iff ex_in_conv)
  qed
next
  case False
  then have "spliceGroup snap q = []" by (auto simp: spliceGroup_def)
  with False show ?thesis by auto
qed

lemma rulesetOrder_OriginGroup:
  assumes "origin \<noteq> OriginGroup"
  shows "(\<exists>r. (OriginGroup, grp, r) \<in> set (rulesetOrder snap origin rules)) \<longleftrightarrow>
     (case Snapshot_Group snap grp of None \<Rightarrow> False | Some g \<Rightarrow> grp_Rules g \<noteq> [])
     \<and> refersTo snap grp rules"
proof -
  have "(\<exists>r. (OriginGroup, grp, r) \<in> set (rulesetOrder snap origin rules)) \<longleftrightarrow>
        (\<exists>q \<in> set rules. \<exists>r. (OriginGroup, grp, r) \<in> set (spliceGroup snap q))"
    using assms by (auto simp: rulesetOrder_def)
  then show ?thesis unfolding splice_OriginGroup refersTo_def by blast
qed

lemma effectiveOrder_OriginGroup:
  "(\<exists>r. (OriginGroup, grp, r) \<in> set (effectiveOrder snap guest)) \<longleftrightarrow> reachedBy snap grp guest"
  using rulesetOrder_OriginGroup [of OriginCluster grp snap] rulesetOrder_OriginGroup [of OriginGuest grp snap]
  by (auto simp: effectiveOrder_def reachedBy_def ex_disj_distrib split: option.splits)

lemma view_OriginGroup:
  assumes "Resolve snap g = Inr view"
  shows "(\<exists>r \<in> set (rv_Rules view). rr_Origin r = OriginGroup \<and> rr_GroupName r = grp) \<longleftrightarrow> reachedBy snap grp g"
proof -
  have "set (effectiveOrder snap g) = placed_of ` set (rv_Rules view)"
    using Resolve_rules [OF assms] by (simp add: numbered_def flip: list.set_map)
  then show ?thesis
    unfolding effectiveOrder_OriginGroup [of grp snap g, symmetric]
    by (force simp: placed_of_def image_iff)
qed

lemma matchingGuests_loop_filter:
  "(\<And>g. g \<in> set gs \<Longrightarrow> ref_Kind g = KindGuest) \<Longrightarrow>
   matchingGuests_loop snap grp gs = Inr (filter (reachedBy snap grp) gs)"
proof (induction gs)
  case Nil
  then show ?case by simp
next
  case (Cons g gs)
  then obtain view where v: "Resolve snap g = Inr view" using Resolve_total [of g snap] by auto
  with Cons view_OriginGroup [OF v, of grp] show ?case by auto
qed

definition guest_keys_ok :: "FwSnapshot \<Rightarrow> bool" where
  "guest_keys_ok snap \<longleftrightarrow> (\<forall>r \<in> set (map fst (fs_Guests snap)). ref_Kind r = KindGuest)"

lemma guestRefFromRulesetID_kind: "guestRefFromRulesetID q = Some r \<Longrightarrow> ref_Kind r = KindGuest"
  by (auto simp: guestRefFromRulesetID_def split: list.splits if_splits)

lemma guest_keys_addRuleset: "guest_keys_ok snap \<Longrightarrow> guest_keys_ok (addRuleset snap e)"
  unfolding guest_keys_ok_def addRuleset_def
  by (auto simp: keys_update simp del: set_map dest: guestRefFromRulesetID_kind
      split: Entity.split FwScope.split option.split)

lemma BuildSnapshot_guest_keys: "guest_keys_ok (BuildSnapshot es)"
proof -
  have "guest_keys_ok snap \<Longrightarrow> guest_keys_ok (foldl addRuleset snap es)" for snap
    by (induction es arbitrary: snap) (simp_all add: guest_keys_addRuleset)
  moreover have "guest_keys_ok empty_FwSnapshot" by (simp add: empty_FwSnapshot_def guest_keys_ok_def)
  ultimately show ?thesis by (simp add: BuildSnapshot_def)
qed

text \<open>
  On every snapshot the poller can build, the effects preview never fails and reports, in ref
  order, exactly the guests a group reaches: the group exists and has a rule, and the cluster
  ruleset or the guest's own ruleset has an enabled reference to it. Enablement gates play no part.
\<close>

theorem MatchingGuests_exact:
  "MatchingGuests (BuildSnapshot es) grp =
     Inr (filter (reachedBy (BuildSnapshot es) grp) (sortedGuestRefs (BuildSnapshot es)))"
  unfolding MatchingGuests_def
  by (rule matchingGuests_loop_filter)
     (use BuildSnapshot_guest_keys [of es] in \<open>auto simp: sortedGuestRefs_def guest_keys_ok_def\<close>)


section \<open>Usage counts are exact\<close>

lemma countRule_foldl:
  "foldl (countRule src) u rules = u\<lparr>
     ou_Count := ou_Count u + int (length (filter (\<lambda>r. ruleReferences (ou_Kind u) r (ou_Name u)) rules)),
     ou_ReferencedBy := ou_ReferencedBy u @
       map (\<lambda>r. \<lparr> rref_Scope = rsr_Scope src, rref_RulesetRef = rsr_Ref src, rref_Pos = rule_Pos r \<rparr>)
         (filter (\<lambda>r. ruleReferences (ou_Kind u) r (ou_Name u)) rules) \<rparr>"
  by (induction rules arbitrary: u) (auto simp: countRule_def)

definition referrers :: "ObjectKind \<Rightarrow> string \<Rightarrow> rulesetRules list \<Rightarrow> RuleRef list" where
  "referrers kind name sources = concat (map (\<lambda>src.
     map (\<lambda>r. \<lparr> rref_Scope = rsr_Scope src, rref_RulesetRef = rsr_Ref src, rref_Pos = rule_Pos r \<rparr>)
       (filter (\<lambda>r. ruleReferences kind r name) (rsr_Rules src))) sources)"

lemma buildUsage_eq:
  "buildUsage kind scope name comment sources =
     \<lparr> ou_Kind = kind, ou_Scope = scope, ou_Name = name, ou_Comment = comment,
       ou_ReferencedBy = referrers kind name sources,
       ou_Count = int (length (referrers kind name sources)) \<rparr>"
proof -
  have "foldl (\<lambda>u src. foldl (countRule src) u (rsr_Rules src)) u sources = u\<lparr>
          ou_Count := ou_Count u + int (length (referrers (ou_Kind u) (ou_Name u) sources)),
          ou_ReferencedBy := ou_ReferencedBy u @ referrers (ou_Kind u) (ou_Name u) sources \<rparr>" for u
    by (induction sources arbitrary: u) (auto simp: referrers_def countRule_foldl)
  then show ?thesis by (simp add: buildUsage_def)
qed

lemma buildUsage_pos:
  "0 < ou_Count (buildUsage kind scope name comment sources) \<longleftrightarrow>
   (\<exists>src \<in> set sources. \<exists>r \<in> set (rsr_Rules src). ruleReferences kind r name)"
  by (auto simp: buildUsage_eq referrers_def filter_empty_conv)

lemma matchingGuests_loop_mem:
  "matchingGuests_loop snap grp gs = Inr out \<Longrightarrow> g \<in> set out \<Longrightarrow> g \<in> set gs \<and> reachedBy snap grp g"
  by (induction gs arbitrary: out) (auto simp: view_OriginGroup split: sum.splits if_splits)

lemma allRulesetRules_mem:
  "fs_Cluster snap = Some c \<Longrightarrow> mkRulesetRules FwScopeCluster (rs_Ref c) (rs_Rules c) \<in> set (allRulesetRules snap)"
  "map_of (fs_Guests snap) g = Some rs \<Longrightarrow>
     mkRulesetRules FwScopeGuest (rs_Ref rs) (rs_Rules rs) \<in> set (allRulesetRules snap)"
proof -
  show "fs_Cluster snap = Some c \<Longrightarrow>
      mkRulesetRules FwScopeCluster (rs_Ref c) (rs_Rules c) \<in> set (allRulesetRules snap)"
    by (simp add: allRulesetRules_def)
  assume g: "map_of (fs_Guests snap) g = Some rs"
  then have "g \<in> set (sortedGuestRefs snap)"
    by (auto simp: sortedGuestRefs_def dest: map_of_SomeD intro: rev_image_eqI)
  with g show "mkRulesetRules FwScopeGuest (rs_Ref rs) (rs_Rules rs) \<in> set (allRulesetRules snap)"
    by (auto simp: allRulesetRules_def Let_def intro!: image_eqI [where x = g])
qed

lemma UsageCounts_group:
  assumes "Snapshot_Group snap grp = Some g"
  shows "buildUsage ObjectGroup FwScopeCluster grp (grp_Comment g) (allRulesetRules snap) \<in> set (UsageCounts snap)"
  using Snapshot_Group_mem [OF assms] Snapshot_Group_name [OF assms]
  by (auto simp: UsageCounts_def Let_def)

text \<open>
  The usage table is sorted by kind, scope and name, every count is the length of its reference
  list, and it never calls a live group unused: if the effects preview says a group reaches some
  guest, the table has an entry for that group with a positive count.
\<close>

theorem UsageCounts_sound:
  assumes "MatchingGuests snap grp = Inr gs" and "gs \<noteq> []"
  shows "sorted (map usageKey (UsageCounts snap))
       \<and> (\<forall>u \<in> set (UsageCounts snap). ou_Count u = int (length (ou_ReferencedBy u)))
       \<and> (\<exists>u \<in> set (UsageCounts snap). ou_Kind u = ObjectGroup \<and> ou_Name u = grp \<and> 0 < ou_Count u)"
proof (intro conjI)
  show "sorted (map usageKey (UsageCounts snap))" by (simp add: UsageCounts_def Let_def)
  show "\<forall>u \<in> set (UsageCounts snap). ou_Count u = int (length (ou_ReferencedBy u))"
    by (auto simp: UsageCounts_def localUsage_def Let_def buildUsage_eq split: option.splits)
  from assms obtain g where "reachedBy snap grp g"
    using matchingGuests_loop_mem [of snap grp "sortedGuestRefs snap" gs "hd gs"]
    by (auto simp: MatchingGuests_def)
  then obtain h where h: "Snapshot_Group snap grp = Some h"
    and "\<exists>src \<in> set (allRulesetRules snap). \<exists>r \<in> set (rsr_Rules src). ruleReferences ObjectGroup r grp"
    using allRulesetRules_mem [of snap] unfolding reachedBy_def refersTo_def
    by (fastforce split: option.splits)
  then have "0 < ou_Count (buildUsage ObjectGroup FwScopeCluster grp (grp_Comment h) (allRulesetRules snap))"
    by (simp add: buildUsage_pos)
  with UsageCounts_group [OF h]
  show "\<exists>u \<in> set (UsageCounts snap). ou_Kind u = ObjectGroup \<and> ou_Name u = grp \<and> 0 < ou_Count u"
    by (force simp: buildUsage_eq)
qed

theorem UsageCounts_sound_witness:
  "\<exists>u \<in> set (UsageCounts ex_snap). ou_Kind u = ObjectGroup \<and> ou_Name u = ''web'' \<and> 0 < ou_Count u"
proof -
  have "MatchingGuests ex_snap ''web'' = Inr [ex_guest]"
    unfolding MatchingGuests_def
    by (subst matchingGuests_loop_filter)
       (auto simp: sortedGuestRefs_def reachedBy_def refersTo_def Snapshot_Group_def ex_defs)
  from UsageCounts_sound [OF this] show ?thesis by blast
qed

end
