(* ===== verification/Sim_Types.thy ===== *)
theory Sim_Types
  imports Fw
begin

text \<open>
  The types of the path simulator (\<^verbatim>\<open>src/internal/sim/types.go\<close>), its caveat vocabulary
  (\<^verbatim>\<open>caveats.go\<close>), the engine's indexes (\<^verbatim>\<open>engine.go\<close>) and the two result writers \<open>addCaveat\<close> and
  \<open>addHop\<close>. A string-typed enumeration whose values arrive from outside has a constructor for
  every other value. The facts are those of the honesty bookkeeping: caveats only accumulate, stay
  free of duplicates, and a caveat that was added is there.
\<close>

section \<open>Requests\<close>

datatype Verdict = VerdictZero | VerdictAllow | VerdictDeny | VerdictUnreachable | VerdictIndeterminate

datatype EndpointKind = EndpointGuestNic | EndpointIP | EndpointExternal | EndpointOther string

primrec EndpointKind_string :: "EndpointKind \<Rightarrow> string" where
  "EndpointKind_string EndpointGuestNic = ''guest-nic''"
| "EndpointKind_string EndpointIP = ''ip''"
| "EndpointKind_string EndpointExternal = ''external''"
| "EndpointKind_string (EndpointOther s) = s"

record Endpoint =
  ept_Kind :: EndpointKind
  ept_NicRef :: Ref
  ept_IP :: string

datatype Family = FamilyEmpty | FamilyV4 | FamilyV6 | FamilyOther string

definition orDefault :: "Family \<Rightarrow> Family" where
  "orDefault f = (if f = FamilyEmpty then FamilyV4 else f)"

definition Family_matches :: "Family \<Rightarrow> addr \<Rightarrow> bool" where
  "Family_matches f a =
     (case f of
        FamilyV4 \<Rightarrow> addr_Is4 a \<or> addr_Is4In6 a
      | FamilyV6 \<Rightarrow> addr_Is6 a \<and> \<not> addr_Is4In6 a
      | _ \<Rightarrow> False)"

record Request =
  req_Src :: Endpoint
  req_Dst :: Endpoint
  req_Family :: Family
  req_Proto :: string
  req_Port :: int

datatype IPSource = IPSourceLiteral | IPSourceStatic | IPSourceIPAM | IPSourceAgent
  | IPSourceUnknown | IPSourceOther string

record GuestIP =
  gip_IP :: string
  gip_Source :: IPSource

record Input =
  in_Inventory :: InvSnapshot
  in_GuestIPs :: "Ref \<rightharpoonup> GuestIP list"
  in_ShapedRefs :: "(Ref \<times> bool) list"


section \<open>Results\<close>

record ResolvedEndpoint =
  re_Kind :: EndpointKind
  re_Ref :: string
  re_Guest :: string
  re_Node :: string
  re_IP :: string
  re_IPSource :: IPSource
  re_Attachment :: string
  re_Zone :: string
  re_Vnet :: string
  re_Subnet :: string
  re_Description :: string
  re_Vid :: int

definition zero_ResolvedEndpoint :: ResolvedEndpoint where
  "zero_ResolvedEndpoint = \<lparr> re_Kind = EndpointOther [], re_Ref = [], re_Guest = [], re_Node = [],
     re_IP = [], re_IPSource = IPSourceUnknown, re_Attachment = [], re_Zone = [], re_Vnet = [],
     re_Subnet = [], re_Description = [], re_Vid = 0 \<rparr>"

record Hop =
  hop_Ref :: string
  hop_Kind :: string
  hop_Node :: string
  hop_Label :: string
  hop_Detail :: string

abbreviation mkHop :: "string \<Rightarrow> string \<Rightarrow> string \<Rightarrow> string \<Rightarrow> string \<Rightarrow> Hop" where
  "mkHop r k n l d \<equiv> \<lparr> hop_Ref = r, hop_Kind = k, hop_Node = n, hop_Label = l, hop_Detail = d \<rparr>"

definition zero_Hop :: Hop where
  "zero_Hop = mkHop [] [] [] [] []"

record SimRuleRef =
  srr_EnforcementPoint :: string
  srr_RulesetRef :: string
  srr_Origin :: string
  srr_GroupName :: string
  srr_Direction :: string
  srr_Action :: string
  srr_Rule :: FwRule
  srr_Pos :: int

record Missing =
  mis_Code :: string
  mis_Message :: string
  mis_AtRef :: string
  mis_AtNode :: string

datatype CaveatSeverity = CaveatInfo | CaveatWarning | CaveatBlocker

record Caveat =
  cav_Code :: string
  cav_Severity :: CaveatSeverity
  cav_Message :: string
  cav_Feature :: string

record Result =
  res_BlockingRule :: "SimRuleRef option"
  res_Missing :: "Missing option"
  res_Src :: ResolvedEndpoint
  res_Dst :: ResolvedEndpoint
  res_Verdict :: Verdict
  res_Proto :: string
  res_Hops :: "Hop list"
  res_Caveats :: "Caveat list"
  res_Port :: int

definition zero_Result :: Result where
  "zero_Result = \<lparr> res_BlockingRule = None, res_Missing = None, res_Src = zero_ResolvedEndpoint,
     res_Dst = zero_ResolvedEndpoint, res_Verdict = VerdictZero, res_Proto = [], res_Hops = [],
     res_Caveats = [], res_Port = 0 \<rparr>"

definition addCaveat :: "Caveat \<Rightarrow> Result \<Rightarrow> Result" where
  "addCaveat c r =
     (if \<exists>e \<in> set (res_Caveats r). cav_Code e = cav_Code c \<and> cav_Message e = cav_Message c then r
      else r\<lparr>res_Caveats := res_Caveats r @ [c]\<rparr>)"


section \<open>Caveat vocabulary\<close>

abbreviation "CodeSimulated \<equiv> ''simulated''"
abbreviation "CodeConntrack \<equiv> ''conntrack''"
abbreviation "CodeGuestInternalFirewall \<equiv> ''guest-internal-firewall''"
abbreviation "CodeSNATAsymmetry \<equiv> ''snat-asymmetry''"
abbreviation "CodeGuestAgentIP \<equiv> ''guest-agent-ip''"
abbreviation "CodeGuestIPUnknown \<equiv> ''guest-ip-unknown''"
abbreviation "CodeFwClusterHostGuest \<equiv> ''fw-cluster-host-guest-simplification''"
abbreviation "CodeLLDPTrunkMismatch \<equiv> ''lldp-trunk-cross-check''"
abbreviation "CodeNotEvaluated \<equiv> ''not-evaluated''"
abbreviation "CodeNodeFirewall \<equiv> ''node-firewall-not-on-path''"
abbreviation "CodeVNetFirewall \<equiv> ''vnet-firewall-not-on-path''"
abbreviation "CodeOVS \<equiv> ''ovs-l2''"
abbreviation "CodeQosShaped \<equiv> ''qos-shaped''"

definition FeatureGuestIP :: string where
  "FeatureGuestIP = ''guest IP resolution (IPAM / guest-agent) not carried in inventory''"

definition FeatureUnknownEntityKind :: string where
  "FeatureUnknownEntityKind = ''path traverses an entity kind the simulator does not model''"

definition FeatureExternalRouting :: string where
  "FeatureExternalRouting = ''upstream/physical-network routing beyond the PVE node's own gateway''"

definition infoCaveat :: "string \<Rightarrow> string \<Rightarrow> Caveat" where
  "infoCaveat code msg = \<lparr> cav_Code = code, cav_Severity = CaveatInfo, cav_Message = msg, cav_Feature = [] \<rparr>"

definition warnCaveat :: "string \<Rightarrow> string \<Rightarrow> Caveat" where
  "warnCaveat code msg = \<lparr> cav_Code = code, cav_Severity = CaveatWarning, cav_Message = msg, cav_Feature = [] \<rparr>"

definition blockerCaveat :: "string \<Rightarrow> string \<Rightarrow> Caveat" where
  "blockerCaveat code msg = \<lparr> cav_Code = code, cav_Severity = CaveatBlocker, cav_Message = msg, cav_Feature = [] \<rparr>"

definition qosShapedCaveat :: "string \<Rightarrow> Caveat" where
  "qosShapedCaveat label = infoCaveat CodeQosShaped (label @ '' carries an applied QoS shape '' @ em_dash
     @ '' this path's throughput may be rate-limited (not evaluated by this simulator).'')"

definition notEvaluated :: "string \<Rightarrow> string \<Rightarrow> Caveat" where
  "notEvaluated feature detail =
     \<lparr> cav_Code = CodeNotEvaluated, cav_Severity = CaveatBlocker,
       cav_Message = ''not evaluated: '' @ feature
         @ (if detail \<noteq> [] then '' '' @ em_dash @ '' '' @ detail else []),
       cav_Feature = feature \<rparr>"

definition standingCaveats :: "Caveat list" where
  "standingCaveats =
     [infoCaveat CodeSimulated ''Simulated over configured state, not a live packet probe. Runtime conditions (links down, ARP, MTU blackholes) are not observed.'',
      infoCaveat CodeConntrack ''Connection tracking is not modeled: established/related return traffic and stateful accepts are not evaluated.'',
      infoCaveat CodeGuestInternalFirewall ''A firewall running inside the guest OS is invisible to this simulator; only pve-firewall is evaluated.'']"


section \<open>Engine\<close>

record Engine =
  eng_inv :: InvSnapshot
  eng_fw :: FwSnapshot
  eng_guestIPs :: "Ref \<rightharpoonup> GuestIP list"
  eng_shapedRefs :: "string list"
  eng_guestNics :: "Ref \<rightharpoonup> GuestNic"
  eng_guests :: "Ref \<rightharpoonup> Guest"
  eng_bridgesByRef :: "Ref \<rightharpoonup> Bridge"
  eng_bridgeByNodeName :: "string \<rightharpoonup> (string \<rightharpoonup> Bridge)"
  eng_vnetByID :: "string \<rightharpoonup> SdnVnet"
  eng_vnetByRef :: "Ref \<rightharpoonup> SdnVnet"
  eng_zoneByID :: "string \<rightharpoonup> SdnZone"
  eng_subnetsByVnet :: "string \<Rightarrow> SdnSubnet list"
  eng_subnets :: "SdnSubnet list"

text \<open>One entity of \<open>NewEngine\<close>'s loop. A missing key of \<open>subnetsByVnet\<close> reads as the empty list.\<close>

definition indexEntity :: "Engine \<Rightarrow> Entity \<Rightarrow> Engine" where
  "indexEntity e ent =
     (case ent of
        EGuestNic v \<Rightarrow> e\<lparr>eng_guestNics := (eng_guestNics e)(nic_Ref v \<mapsto> v)\<rparr>
      | EGuest v \<Rightarrow> e\<lparr>eng_guests := (eng_guests e)(guest_Ref v \<mapsto> v)\<rparr>
      | EBridge v \<Rightarrow>
          let n = ref_Node (br_Ref v);
              m = (case eng_bridgeByNodeName e n of None \<Rightarrow> Map.empty | Some m \<Rightarrow> m)
          in e\<lparr>eng_bridgesByRef := (eng_bridgesByRef e)(br_Ref v \<mapsto> v),
               eng_bridgeByNodeName := (eng_bridgeByNodeName e)(n \<mapsto> m(br_Name v \<mapsto> v))\<rparr>
      | ESdnVnet v \<Rightarrow> e\<lparr>eng_vnetByID := (eng_vnetByID e)(vnet_ID v \<mapsto> v),
                        eng_vnetByRef := (eng_vnetByRef e)(vnet_Ref v \<mapsto> v)\<rparr>
      | ESdnZone v \<Rightarrow> e\<lparr>eng_zoneByID := (eng_zoneByID e)(zone_ID v \<mapsto> v)\<rparr>
      | ESdnSubnet v \<Rightarrow> e\<lparr>eng_subnets := eng_subnets e @ [v],
                          eng_subnetsByVnet := (eng_subnetsByVnet e)
                            (sub_Vnet v := eng_subnetsByVnet e (sub_Vnet v) @ [v])\<rparr>
      | _ \<Rightarrow> e)"

definition NewEngine :: "Input \<Rightarrow> Engine" where
  "NewEngine inp =
     foldl indexEntity
       \<lparr> eng_inv = in_Inventory inp, eng_fw = BuildSnapshot (Snapshot_All (in_Inventory inp)),
         eng_guestIPs = in_GuestIPs inp,
         eng_shapedRefs = map (\<lambda>(r, _). Ref_String r) (filter snd (in_ShapedRefs inp)),
         eng_guestNics = Map.empty, eng_guests = Map.empty, eng_bridgesByRef = Map.empty,
         eng_bridgeByNodeName = Map.empty, eng_vnetByID = Map.empty, eng_vnetByRef = Map.empty,
         eng_zoneByID = Map.empty, eng_subnetsByVnet = (\<lambda>_. []), eng_subnets = [] \<rparr>
       (Snapshot_All (in_Inventory inp))"

definition addHop :: "Engine \<Rightarrow> Hop \<Rightarrow> Result \<Rightarrow> Result" where
  "addHop e h res =
     (if hop_Label h = [] then res
      else let res = res\<lparr>res_Hops := res_Hops res @ [h]\<rparr>
           in if hop_Ref h \<noteq> [] \<and> hop_Ref h \<in> set (eng_shapedRefs e)
              then addCaveat (qosShapedCaveat (hop_Label h)) res else res)"


section \<open>The honesty bookkeeping\<close>

text \<open>
  \<open>addCaveat\<close> drops a caveat whose code and message are already listed, whatever its severity. A
  blocker could therefore be lost behind an older, milder caveat. \<open>honest\<close> is the invariant that
  rules this out: the two codes the engine uses for blockers are never used for a milder caveat
  except for the fixed QinQ notice, whose text starts with a Q like no blocker's.
\<close>

definition blocking_code :: "string \<Rightarrow> bool" where
  "blocking_code code \<longleftrightarrow> code = CodeNotEvaluated \<or> code = CodeGuestIPUnknown"

definition q_text :: "string \<Rightarrow> bool" where
  "q_text msg \<longleftrightarrow> take 1 msg = ''Q''"

definition mild_ok :: "Caveat \<Rightarrow> bool" where
  "mild_ok c \<longleftrightarrow> (if cav_Severity c = CaveatBlocker then blocking_code (cav_Code c) \<and> \<not> q_text (cav_Message c)
                  else blocking_code (cav_Code c) \<longrightarrow> q_text (cav_Message c))"

definition honest :: "Result \<Rightarrow> bool" where
  "honest res \<longleftrightarrow> (\<forall>c \<in> set (res_Caveats res). mild_ok c)
     \<and> distinct (map (\<lambda>c. (cav_Code c, cav_Message c)) (res_Caveats res))"

definition has_blocker :: "Result \<Rightarrow> bool" where
  "has_blocker res \<longleftrightarrow> (\<exists>c \<in> set (res_Caveats res). cav_Severity c = CaveatBlocker)"

definition grows :: "Result \<Rightarrow> Result \<Rightarrow> bool" where
  "grows res res' \<longleftrightarrow> (\<exists>cs. res_Caveats res' = res_Caveats res @ cs) \<and> (\<exists>hs. res_Hops res' = res_Hops res @ hs)
     \<and> res_BlockingRule res' = res_BlockingRule res \<and> res_Missing res' = res_Missing res
     \<and> res_Verdict res' = res_Verdict res \<and> res_Src res' = res_Src res \<and> res_Dst res' = res_Dst res
     \<and> res_Proto res' = res_Proto res \<and> res_Port res' = res_Port res"

lemma grows_refl [simp, intro]: "grows r r"
  by (simp add: grows_def)

lemma grows_trans [trans]: "grows r s \<Longrightarrow> grows s t \<Longrightarrow> grows r t"
  by (auto simp: grows_def)

lemma grows_addCaveat [simp, intro]: "grows r (addCaveat c r)"
  by (auto simp: grows_def addCaveat_def)

lemma grows_addHop [simp, intro]: "grows r (addHop e h r)"
  by (auto simp: grows_def addHop_def addCaveat_def Let_def)

lemma grows_mem: "grows r s \<Longrightarrow> c \<in> set (res_Caveats r) \<Longrightarrow> c \<in> set (res_Caveats s)"
  by (auto simp: grows_def)

lemma honest_addCaveat [simp]: "honest r \<Longrightarrow> mild_ok c \<Longrightarrow> honest (addCaveat c r)"
  by (auto simp: honest_def addCaveat_def)

lemma has_blocker_addCaveat_mild [simp]:
  "cav_Severity c \<noteq> CaveatBlocker \<Longrightarrow> has_blocker (addCaveat c r) \<longleftrightarrow> has_blocker r"
  by (auto simp: has_blocker_def addCaveat_def)

text \<open>A blocker that is added is never swallowed by the duplicate check.\<close>

lemma has_blocker_addCaveat_blocker:
  assumes "honest r" and "mild_ok c" and "cav_Severity c = CaveatBlocker"
  shows "has_blocker (addCaveat c r)"
proof (cases "\<exists>e \<in> set (res_Caveats r). cav_Code e = cav_Code c \<and> cav_Message e = cav_Message c")
  case True
  then obtain e where e: "e \<in> set (res_Caveats r)" "cav_Code e = cav_Code c" "cav_Message e = cav_Message c" by blast
  with assms have "cav_Severity e = CaveatBlocker" by (auto simp: honest_def mild_ok_def split: if_splits)
  with e(1) True show ?thesis by (auto simp: addCaveat_def has_blocker_def)
next
  case False
  with assms(3) show ?thesis by (auto simp: addCaveat_def has_blocker_def)
qed

lemma sev_simps [simp]:
  "cav_Severity (infoCaveat c m) = CaveatInfo" "cav_Severity (warnCaveat c m) = CaveatWarning"
  "cav_Severity (blockerCaveat c m) = CaveatBlocker" "cav_Severity (notEvaluated f d) = CaveatBlocker"
  "cav_Severity (qosShapedCaveat l) = CaveatInfo"
  by (simp_all add: infoCaveat_def warnCaveat_def blockerCaveat_def notEvaluated_def qosShapedCaveat_def)

lemma mild_ok_simps [simp]:
  "mild_ok (infoCaveat c m) \<longleftrightarrow> (blocking_code c \<longrightarrow> q_text m)"
  "mild_ok (warnCaveat c m) \<longleftrightarrow> (blocking_code c \<longrightarrow> q_text m)"
  "mild_ok (blockerCaveat c m) \<longleftrightarrow> blocking_code c \<and> \<not> q_text m"
  "mild_ok (notEvaluated f d)" "mild_ok (qosShapedCaveat l)"
  by (auto simp: mild_ok_def infoCaveat_def warnCaveat_def blockerCaveat_def notEvaluated_def
      qosShapedCaveat_def blocking_code_def q_text_def)

lemma q_text_Cons [simp]: "q_text (c # s) \<longleftrightarrow> c = CHR ''Q''"
  by (simp add: q_text_def)

lemma blocking_codes [simp]:
  "blocking_code CodeNotEvaluated" "blocking_code CodeGuestIPUnknown" "\<not> blocking_code CodeSimulated"
  "\<not> blocking_code CodeConntrack" "\<not> blocking_code CodeGuestInternalFirewall"
  "\<not> blocking_code CodeSNATAsymmetry" "\<not> blocking_code CodeGuestAgentIP"
  "\<not> blocking_code CodeFwClusterHostGuest" "\<not> blocking_code CodeLLDPTrunkMismatch"
  "\<not> blocking_code CodeNodeFirewall" "\<not> blocking_code CodeVNetFirewall" "\<not> blocking_code CodeOVS"
  "\<not> blocking_code CodeQosShaped"
  by (simp_all add: blocking_code_def)

lemma honest_addHop [simp]: "honest r \<Longrightarrow> honest (addHop e h r)"
  using honest_addCaveat [of "r\<lparr>res_Hops := res_Hops r @ [h]\<rparr>" "qosShapedCaveat (hop_Label h)"]
  by (auto simp: addHop_def Let_def honest_def)

lemma has_blocker_addHop [simp]: "has_blocker (addHop e h r) \<longleftrightarrow> has_blocker r"
proof -
  have "has_blocker (r\<lparr>res_Hops := hs\<rparr>) \<longleftrightarrow> has_blocker r" for hs by (simp add: has_blocker_def)
  then show ?thesis by (simp add: addHop_def Let_def)
qed

lemma honest_zero: "honest zero_Result" "\<not> has_blocker zero_Result"
  by (simp_all add: honest_def has_blocker_def zero_Result_def)


section \<open>Phases\<close>

text \<open>What one piece of a phase does to the result: \<open>bad\<close> says that it added a blocker.\<close>

definition keeps :: "Result \<Rightarrow> Result \<Rightarrow> bool \<Rightarrow> bool" where
  "keeps res res' bad \<longleftrightarrow> grows res res' \<and> (honest res \<longrightarrow> honest res' \<and>
     (has_blocker res' \<longleftrightarrow> has_blocker res \<or> bad))"

lemma keeps_refl [simp, intro]: "keeps res res False"
  by (simp add: keeps_def)

lemma keeps_trans: "keeps r s b \<Longrightarrow> keeps s t c \<Longrightarrow> keeps r t (b \<or> c)"
  by (auto simp: keeps_def intro: grows_trans)

lemma keeps_trans_ok: "keeps r s False \<Longrightarrow> keeps s t c \<Longrightarrow> keeps r t c"
  using keeps_trans [of r s False t c] by simp

lemma keeps_addHop: "keeps r s b \<Longrightarrow> keeps r (addHop e h s) b"
  by (auto simp: keeps_def intro: grows_trans)

lemma keeps_mild: "keeps r s b \<Longrightarrow> cav_Severity c \<noteq> CaveatBlocker \<Longrightarrow> mild_ok c \<Longrightarrow> keeps r (addCaveat c s) b"
  by (auto simp: keeps_def intro: grows_trans)

lemma keeps_blocker: "keeps r s b \<Longrightarrow> cav_Severity c = CaveatBlocker \<Longrightarrow> mild_ok c \<Longrightarrow> keeps r (addCaveat c s) True"
  by (auto simp: keeps_def has_blocker_addCaveat_blocker intro: grows_trans)

text \<open>One introduction rule per way the code writes to a result.\<close>

lemma keeps_info: "keeps r s b \<Longrightarrow> \<not> blocking_code c \<or> q_text m \<Longrightarrow> keeps r (addCaveat (infoCaveat c m) s) b"
  by (rule keeps_mild) auto

lemma keeps_warn: "keeps r s b \<Longrightarrow> \<not> blocking_code c \<or> q_text m \<Longrightarrow> keeps r (addCaveat (warnCaveat c m) s) b"
  by (rule keeps_mild) auto

lemma keeps_block:
  "keeps r s b \<Longrightarrow> blocking_code c \<and> \<not> q_text m \<Longrightarrow> keeps r (addCaveat (blockerCaveat c m) s) True"
  by (rule keeps_blocker) auto

lemma keeps_notEvaluated: "keeps r s b \<Longrightarrow> keeps r (addCaveat (notEvaluated f d) s) True"
  by (rule keeps_blocker) auto

lemma keeps_block_refl:
  "blocking_code c \<and> \<not> q_text m \<Longrightarrow> keeps r (addCaveat (blockerCaveat c m) r) True"
  "keeps r (addCaveat (notEvaluated f d) r) True"
  by (auto intro: keeps_block [OF keeps_refl] keeps_notEvaluated [OF keeps_refl])

lemmas keeps_intros = keeps_refl keeps_addHop keeps_info keeps_warn keeps_block_refl

text \<open>
  The simulation is a chain of phases, each of which appends to the result and reports an outcome.
  A phase may not return (\<open>None\<close>). The contract every phase keeps: the result only grows, stays
  honest, and a blocker caveat appears exactly when the outcome is one the engine must not turn
  into a verdict.
\<close>

locale phase =
  fixes run :: "'a \<Rightarrow> Result \<Rightarrow> ('b \<times> Result) option" and inconclusive :: "'b \<Rightarrow> bool"
  assumes run_keeps: "run a res = Some (out, res') \<Longrightarrow> keeps res res' (inconclusive out)"
begin

lemma run_clean:
  assumes "run a res = Some (out, res')" "honest res" "\<not> has_blocker res"
  shows "honest res'" "has_blocker res' \<longleftrightarrow> inconclusive out"
  using assms run_keeps [OF assms(1)] by (auto simp: keeps_def)

lemma run_keeps_caveat:
  "run a res = Some (out, res') \<Longrightarrow> c \<in> set (res_Caveats res) \<Longrightarrow> c \<in> set (res_Caveats res')"
  using run_keeps grows_mem by (metis keeps_def)

end

end
