(* ===== verification/Sim_Match.thy ===== *)
theory Sim_Match
  imports Sim_Types
begin

text \<open>
  The per-rule matcher of the simulator (\<^verbatim>\<open>src/internal/sim/match.go\<close>), the rule walk
  \<open>decideDirection\<close> (\<^verbatim>\<open>firewall.go\<close>) and the exported evaluator \<open>EvaluateFirewall\<close> (\<^verbatim>\<open>eval.go\<close>).
  A match is three-valued; the facts give the meaning of each matcher and of the walk.
\<close>

section \<open>Matching\<close>

datatype matchState = matchNo | matchYes | matchUnknown

record matchResult =
  mr_reason :: string
  mr_state :: matchState

abbreviation mres :: "matchState \<Rightarrow> matchResult" where
  "mres s \<equiv> \<lparr> mr_reason = [], mr_state = s \<rparr>"

abbreviation munknown :: "string \<Rightarrow> matchResult" where
  "munknown why \<equiv> \<lparr> mr_reason = why, mr_state = matchUnknown \<rparr>"

record flow =
  fl_srcIP :: addr
  fl_dstIP :: addr
  fl_proto :: string
  fl_port :: int
  fl_portSet :: bool
  fl_srcKnown :: bool
  fl_dstKnown :: bool

record fwLookup =
  lk_aliases :: "string \<rightharpoonup> FwAlias"
  lk_ipsets :: "string \<rightharpoonup> FwIPSet"

definition lookup_add :: "fwLookup \<Rightarrow> FwAlias list \<Rightarrow> FwIPSet list \<Rightarrow> fwLookup" where
  "lookup_add lk as ss =
     \<lparr> lk_aliases = foldl (\<lambda>m a. m(alias_Name a \<mapsto> a)) (lk_aliases lk) as,
       lk_ipsets = foldl (\<lambda>m s. m(ips_Name s \<mapsto> s)) (lk_ipsets lk) ss \<rparr>"

definition empty_lookup :: fwLookup where
  "empty_lookup = \<lparr> lk_aliases = Map.empty, lk_ipsets = Map.empty \<rparr>"

definition lookupFor :: "Engine \<Rightarrow> Ref \<Rightarrow> fwLookup" where
  "lookupFor e guest =
     (let add = (\<lambda>lk rs. case rs of None \<Rightarrow> lk | Some r \<Rightarrow> lookup_add lk (rs_Aliases r) (rs_IPSets r))
      in add (add empty_lookup (fs_Cluster (eng_fw e))) (map_of (fs_Guests (eng_fw e)) guest))"

definition yesNo :: "bool \<Rightarrow> matchResult" where
  "yesNo b = (if b then mres matchYes else mres matchNo)"

definition looksLikeCIDR :: "string \<Rightarrow> bool" where
  "looksLikeCIDR s = go_Contains s ''/''"

definition looksLikeIP :: "string \<Rightarrow> bool" where
  "looksLikeIP s \<longleftrightarrow> ParseAddr s \<noteq> None"

definition parseCIDROrIP :: "string \<Rightarrow> prefix option" where
  "parseCIDROrIP s =
     (if looksLikeCIDR s then ParsePrefix s
      else case ParseAddr s of None \<Rightarrow> None | Some a \<Rightarrow> Some (PrefixFrom a (addr_BitLen a)))"

fun matchIPSet_loop :: "string \<Rightarrow> addr \<Rightarrow> bool \<Rightarrow> FwIPSetEntry list \<Rightarrow> matchResult" where
  "matchIPSet_loop name ip matched [] = yesNo matched"
| "matchIPSet_loop name ip matched (e # es) =
     (case parseCIDROrIP (ipe_CIDR e) of
        None \<Rightarrow> munknown (''ipset +'' @ name @ '' has an unparseable entry '' @ ipe_CIDR e)
      | Some pfx \<Rightarrow>
          if pfx_Contains pfx ip then
            (if ipe_NoMatch e then mres matchNo else matchIPSet_loop name ip True es)
          else matchIPSet_loop name ip matched es)"

definition matchIPSet :: "string \<Rightarrow> addr \<Rightarrow> fwLookup \<Rightarrow> string \<Rightarrow> matchResult" where
  "matchIPSet name ip lk side =
     (case lk_ipsets lk name of
        None \<Rightarrow> munknown (side @ '' ipset +'' @ name @ '' is not defined'')
      | Some s \<Rightarrow> matchIPSet_loop name ip False (ips_Entries s))"

definition matchAddr :: "string \<Rightarrow> addr \<Rightarrow> bool \<Rightarrow> fwLookup \<Rightarrow> string \<Rightarrow> matchResult" where
  "matchAddr field0 ip known lk side =
     (let field = go_TrimSpace field0 in
      if field = [] then mres matchYes
      else if \<not> known then munknown (''rule restricts '' @ side @ '' to '' @ field @ '' but the endpoint IP is not known'')
      else if go_HasPrefix field ''+'' then matchIPSet (tl field) ip lk side
      else if looksLikeCIDR field then
        (case ParsePrefix field of
           None \<Rightarrow> munknown (''unparseable CIDR '' @ field)
         | Some pfx \<Rightarrow> yesNo (pfx_Contains pfx ip))
      else if looksLikeIP field then
        (case ParseAddr field of
           None \<Rightarrow> munknown (''unparseable IP '' @ field)
         | Some a \<Rightarrow> yesNo (a = ip))
      else case lk_aliases lk field of
        Some a \<Rightarrow>
          (case ParsePrefix (alias_CIDR a) of
             None \<Rightarrow>
               (case ParseAddr (alias_CIDR a) of
                  Some single \<Rightarrow> yesNo (single = ip)
                | None \<Rightarrow> munknown (''alias '' @ field @ '' has an unparseable value''))
           | Some pfx \<Rightarrow> yesNo (pfx_Contains pfx ip))
      | None \<Rightarrow> munknown (side @ '' reference '' @ field @ '' is not a known alias/ipset/IP/CIDR''))"

definition port_sep :: "char \<Rightarrow> bool" where
  "port_sep c \<longleftrightarrow> c = CHR '':'' \<or> c = CHR ''-''"

definition parsePortToken :: "string \<Rightarrow> (int \<times> int) option" where
  "parsePortToken tok =
     (case dropWhile (\<lambda>c. \<not> port_sep c) tok of
        _ # rest \<Rightarrow>
          (case (go_Atoi (go_TrimSpace (takeWhile (\<lambda>c. \<not> port_sep c) tok)), go_Atoi (go_TrimSpace rest)) of
             (Some a, Some b) \<Rightarrow> Some (if a > b then (b, a) else (a, b))
           | _ \<Rightarrow> None)
      | [] \<Rightarrow> (case go_Atoi tok of None \<Rightarrow> None | Some n \<Rightarrow> Some (n, n)))"

fun matchPort_loop :: "int \<Rightarrow> string list \<Rightarrow> matchResult" where
  "matchPort_loop port [] = mres matchNo"
| "matchPort_loop port (t # ts) =
     (let tok = go_TrimSpace t in
      if tok = [] then matchPort_loop port ts
      else case parsePortToken tok of
        None \<Rightarrow> munknown (''unparseable port spec '' @ tok)
      | Some (lo, hi) \<Rightarrow> if port \<ge> lo \<and> port \<le> hi then mres matchYes else matchPort_loop port ts)"

definition matchPort :: "string \<Rightarrow> flow \<Rightarrow> matchResult" where
  "matchPort spec fl =
     (if spec = [] then mres matchYes
      else if \<not> fl_portSet fl then
        munknown (''rule restricts destination port '' @ spec @ '' but the request specified no port'')
      else matchPort_loop (fl_port fl) (go_Split (CHR '','') spec))"

definition matchProto :: "string \<Rightarrow> string \<Rightarrow> matchState" where
  "matchProto ruleProto flowProto =
     (if ruleProto = [] \<or> flowProto = [] then matchYes
      else if go_EqualFold ruleProto flowProto then matchYes else matchNo)"

fun matchMacro_loop :: "string \<Rightarrow> flow \<Rightarrow> bool \<Rightarrow> MacroPort list \<Rightarrow> matchResult" where
  "matchMacro_loop name fl sawUnknown [] =
     (if sawUnknown then munknown (''macro '' @ name @ '' port match needs a destination port'')
      else mres matchNo)"
| "matchMacro_loop name fl sawUnknown (p # ps) =
     (if matchProto (mp_Proto p) (fl_proto fl) = matchNo then matchMacro_loop name fl sawUnknown ps
      else case mr_state (matchPort (mp_Dport p) fl) of
        matchYes \<Rightarrow> mres matchYes
      | matchUnknown \<Rightarrow> matchMacro_loop name fl True ps
      | matchNo \<Rightarrow> matchMacro_loop name fl sawUnknown ps)"

definition matchMacro :: "Macro \<Rightarrow> flow \<Rightarrow> matchResult" where
  "matchMacro m fl = matchMacro_loop (mac_Name m) fl False (mac_Ports m)"

definition matchProtoPort :: "FwRule \<Rightarrow> flow \<Rightarrow> matchResult" where
  "matchProtoPort rule fl =
     (if rule_Macro rule \<noteq> [] then
        (case MacroExpansion (rule_Macro rule) of
           None \<Rightarrow> munknown (''unknown macro '' @ rule_Macro rule)
         | Some m \<Rightarrow> matchMacro m fl)
      else if matchProto (rule_Proto rule) (fl_proto fl) \<noteq> matchYes
        then mres (matchProto (rule_Proto rule) (fl_proto fl))
      else matchPort (rule_Dport rule) fl)"

definition matchRule :: "FwRule \<Rightarrow> flow \<Rightarrow> fwLookup \<Rightarrow> matchResult" where
  "matchRule rule fl lk =
     (let pp = matchProtoPort rule fl;
          sm = matchAddr (rule_Source rule) (fl_srcIP fl) (fl_srcKnown fl) lk ''source'';
          dm = matchAddr (rule_Dest rule) (fl_dstIP fl) (fl_dstKnown fl) lk ''dest''
      in if mr_state pp \<noteq> matchYes then pp
         else if mr_state sm \<noteq> matchYes then sm
         else if mr_state dm \<noteq> matchYes then dm
         else mres matchYes)"


section \<open>The rule walk\<close>

datatype decisionKind = decisionAllow | decisionDeny | decisionUnknown

text \<open>The zero value of an origin is the empty string, distinct from all four constants: \<open>None\<close>.\<close>

record decision =
  dec_action :: string
  dec_origin :: "Origin option"
  dec_groupName :: string
  dec_reason :: string
  dec_rule :: FwRule
  dec_kind :: decisionKind
  dec_pos :: int
  dec_fromRule :: bool
  dec_unknownIsIP :: bool
  dec_ifaceSeen :: bool

definition zero_decision :: decision where
  "zero_decision = \<lparr> dec_action = [], dec_origin = None, dec_groupName = [], dec_reason = [],
     dec_rule = zero_FwRule, dec_kind = decisionAllow, dec_pos = 0, dec_fromRule = False,
     dec_unknownIsIP = False, dec_ifaceSeen = False \<rparr>"

definition actionKind :: "string \<Rightarrow> decisionKind" where
  "actionKind action =
     (if action = ''ACCEPT'' then decisionAllow
      else if action = ''DROP'' \<or> action = ''REJECT'' then decisionDeny
      else decisionUnknown)"

definition isIPReason :: "string \<Rightarrow> bool" where
  "isIPReason reason = go_Contains reason ''endpoint IP is not known''"

fun decide_loop ::
  "ResolvedView \<Rightarrow> string \<Rightarrow> flow \<Rightarrow> fwLookup \<Rightarrow> bool \<Rightarrow> ResolvedRule list \<Rightarrow> decision" where
  "decide_loop view dir fl lk ifaceSeen [] =
     (let def = (if dir = ''out'' then rv_DefaultOut view else rv_DefaultIn view)
      in zero_decision\<lparr> dec_kind := actionKind (dp_Policy def), dec_action := dp_Policy def,
                        dec_origin := Some (dp_Origin def), dec_ifaceSeen := ifaceSeen \<rparr>)"
| "decide_loop view dir fl lk ifaceSeen (rr # rrs) =
     (let r = rr_Rule rr in
      if rule_Direction r = ''group'' then decide_loop view dir fl lk ifaceSeen rrs
      else if \<not> rule_Enabled r \<or> rule_Direction r \<noteq> dir then decide_loop view dir fl lk ifaceSeen rrs
      else let seen = (if rule_Iface r \<noteq> [] then True else ifaceSeen);
               m = matchRule r fl lk
           in case mr_state m of
                matchUnknown \<Rightarrow> zero_decision\<lparr> dec_kind := decisionUnknown, dec_reason := mr_reason m,
                    dec_unknownIsIP := isIPReason (mr_reason m), dec_ifaceSeen := seen \<rparr>
              | matchYes \<Rightarrow> zero_decision\<lparr> dec_kind := actionKind (rule_Action r), dec_action := rule_Action r,
                    dec_fromRule := True, dec_rule := r, dec_origin := Some (rr_Origin rr),
                    dec_groupName := rr_GroupName rr, dec_pos := rr_Pos rr, dec_ifaceSeen := seen \<rparr>
              | matchNo \<Rightarrow> decide_loop view dir fl lk seen rrs)"

definition decideDirection :: "ResolvedView \<Rightarrow> string \<Rightarrow> flow \<Rightarrow> fwLookup \<Rightarrow> decision" where
  "decideDirection view dir fl lk = decide_loop view dir fl lk False (rv_Rules view)"


section \<open>The exported evaluator\<close>

datatype FwVerdict = FwAllowVerdict | FwDenyVerdict | FwIndeterminateVerdict

record FwEval =
  fe_Reason :: string
  fe_Verdict :: FwVerdict

text \<open>The exported flow, in the order of its fields, and its conversion field by field.\<close>

record FwFlow =
  fwf_SrcIP :: addr
  fwf_DstIP :: addr
  fwf_Proto :: string
  fwf_Port :: int
  fwf_PortSet :: bool
  fwf_SrcKnown :: bool
  fwf_DstKnown :: bool

definition EvaluateFirewall ::
  "ResolvedView \<Rightarrow> string \<Rightarrow> FwFlow \<Rightarrow> FwAlias list \<Rightarrow> FwIPSet list \<Rightarrow> FwEval" where
  "EvaluateFirewall view dir fl aliases ipsets =
     (let lk = lookup_add empty_lookup aliases ipsets;
          dec = decideDirection view dir
            \<lparr> fl_srcIP = fwf_SrcIP fl, fl_dstIP = fwf_DstIP fl, fl_proto = fwf_Proto fl, fl_port = fwf_Port fl,
              fl_portSet = fwf_PortSet fl, fl_srcKnown = fwf_SrcKnown fl, fl_dstKnown = fwf_DstKnown fl \<rparr> lk
      in case dec_kind dec of
           decisionUnknown \<Rightarrow> \<lparr> fe_Reason = dec_reason dec, fe_Verdict = FwIndeterminateVerdict \<rparr>
         | decisionDeny \<Rightarrow> \<lparr> fe_Reason = [], fe_Verdict = FwDenyVerdict \<rparr>
         | decisionAllow \<Rightarrow> \<lparr> fe_Reason = [], fe_Verdict = FwAllowVerdict \<rparr>)"


section \<open>Facts: IP sets\<close>

lemma yesNo_simps [simp]:
  "mr_state (yesNo b) = matchYes \<longleftrightarrow> b" "mr_state (yesNo b) = matchNo \<longleftrightarrow> \<not> b"
  "mr_state (yesNo b) \<noteq> matchUnknown"
  by (simp_all add: yesNo_def)

definition entry_hits :: "addr \<Rightarrow> FwIPSetEntry \<Rightarrow> bool" where
  "entry_hits ip e \<longleftrightarrow> (\<exists>pfx. parseCIDROrIP (ipe_CIDR e) = Some pfx \<and> pfx_Contains pfx ip)"

lemma matchIPSet_loop_yes:
  "mr_state (matchIPSet_loop name ip matched es) = matchYes \<longleftrightarrow>
     (\<forall>e \<in> set es. parseCIDROrIP (ipe_CIDR e) \<noteq> None \<and> (ipe_NoMatch e \<longrightarrow> \<not> entry_hits ip e))
     \<and> (matched \<or> (\<exists>e \<in> set es. entry_hits ip e))"
  by (induction name ip matched es rule: matchIPSet_loop.induct)
     (auto simp: entry_hits_def split: option.splits)

lemma matchIPSet_loop_no:
  "mr_state (matchIPSet_loop name ip matched es) = matchNo \<longleftrightarrow>
     (\<exists>es1 e es2. es = es1 @ e # es2 \<and> (\<forall>x \<in> set es1. parseCIDROrIP (ipe_CIDR x) \<noteq> None)
        \<and> ipe_NoMatch e \<and> entry_hits ip e)
     \<or> \<not> matched \<and> (\<forall>e \<in> set es. parseCIDROrIP (ipe_CIDR e) \<noteq> None \<and> \<not> entry_hits ip e)"
proof (induction es arbitrary: matched)
  case Nil
  then show ?case by simp
next
  case (Cons e es)
  show ?case unfolding reach_through_Cons using Cons.IH
    by (cases "parseCIDROrIP (ipe_CIDR e)") (auto simp: entry_hits_def)
qed

text \<open>
  IP-set membership with exclusions. A rule's \<open>+set\<close> reference matches exactly when the set is
  defined, every entry can be read, some entry contains the address and no exclusion entry does;
  it definitely fails to match exactly when an exclusion entry contains the address before any
  unreadable entry, or when every entry is readable and none contains it. In every other case the
  answer is undecided.
\<close>

theorem matchIPSet_exact:
  "(mr_state (matchIPSet name ip lk side) = matchYes \<longleftrightarrow>
      (\<exists>s. lk_ipsets lk name = Some s
         \<and> list_all (\<lambda>e. parseCIDROrIP (ipe_CIDR e) \<noteq> None \<and> \<not> (ipe_NoMatch e \<and> entry_hits ip e)) (ips_Entries s)
         \<and> list_ex (entry_hits ip) (ips_Entries s)))
   \<and> (mr_state (matchIPSet name ip lk side) = matchNo \<longleftrightarrow>
      (\<exists>s. lk_ipsets lk name = Some s
         \<and> ((\<exists>es1 e es2. ips_Entries s = es1 @ e # es2
               \<and> list_all (\<lambda>x. parseCIDROrIP (ipe_CIDR x) \<noteq> None) es1 \<and> ipe_NoMatch e \<and> entry_hits ip e)
            \<or> list_all (\<lambda>e. parseCIDROrIP (ipe_CIDR e) \<noteq> None \<and> \<not> entry_hits ip e) (ips_Entries s))))"
  by (simp add: matchIPSet_def matchIPSet_loop_yes matchIPSet_loop_no list_all_iff list_ex_iff
      split: option.split)


section \<open>Facts: ports\<close>

definition range_str :: "int \<times> int \<Rightarrow> string" where
  "range_str = (\<lambda>(lo, hi). if lo = hi then go_Itoa lo else go_Itoa lo @ '':'' @ go_Itoa hi)"

fun ports_str :: "(int \<times> int) list \<Rightarrow> string" where
  "ports_str [] = []"
| "ports_str [r] = range_str r"
| "ports_str (r # rs) = range_str r @ '','' @ ports_str rs"

definition port_range :: "int \<times> int \<Rightarrow> bool" where
  "port_range = (\<lambda>(lo, hi). 0 \<le> lo \<and> lo \<le> hi \<and> hi < 65536)"

lemma go_isdigit_not_special:
  "go_isdigit c \<Longrightarrow> \<not> go_isspace c \<and> \<not> port_sep c \<and> c \<noteq> CHR '',''"
  by (auto simp: go_isdigit_def go_isspace_def port_sep_def go_ord_def)

lemma go_Itoa_digits: "0 \<le> n \<Longrightarrow> list_all go_isdigit (go_Itoa n)"
  by (simp add: go_Itoa_def go_natstr_digits)

lemma go_Itoa_nonempty [simp]: "go_Itoa n \<noteq> []"
  by (simp add: go_Itoa_def)

lemma go_TrimSpace_id: "s \<noteq> [] \<Longrightarrow> \<not> go_isspace (hd s) \<Longrightarrow> \<not> go_isspace (last s) \<Longrightarrow> go_TrimSpace s = s"
proof -
  assume s: "s \<noteq> []" "\<not> go_isspace (hd s)" "\<not> go_isspace (last s)"
  then have "dropWhile go_isspace s = s" by (cases s) auto
  moreover from s have "dropWhile go_isspace (rev s) = rev s"
    by (cases s rule: rev_cases) auto
  ultimately show ?thesis by (simp add: go_TrimSpace_def)
qed

lemma go_TrimSpace_Itoa: "0 \<le> n \<Longrightarrow> go_TrimSpace (go_Itoa n) = go_Itoa n"
  using go_Itoa_digits [of n] go_isdigit_not_special
  by (intro go_TrimSpace_id) (auto simp: list_all_iff)

lemma go_TrimSpace_range:
  assumes "port_range r" shows "go_TrimSpace (range_str r) = range_str r"
  using assms go_Itoa_digits [of "fst r"] go_Itoa_digits [of "snd r"] go_isdigit_not_special
  by (cases r; intro go_TrimSpace_id) (auto simp: port_range_def range_str_def list_all_iff)

lemma no_sep_Itoa: "0 \<le> n \<Longrightarrow> c \<in> set (go_Itoa n) \<Longrightarrow> \<not> port_sep c"
  using go_Itoa_digits [of n] go_isdigit_not_special by (auto simp: list_all_iff)

lemma parsePortToken_range:
  assumes "port_range r" shows "parsePortToken (range_str r) = Some r"
proof -
  obtain lo hi where r: "r = (lo, hi)" by force
  with assms have b: "0 \<le> lo" "lo \<le> hi" "hi < 65536" by (auto simp: port_range_def)
  then have at: "go_Atoi (go_Itoa lo) = Some lo" "go_Atoi (go_Itoa hi) = Some hi"
    by (simp_all add: go_Atoi_Itoa)
  have tw: "takeWhile (\<lambda>c. \<not> port_sep c) (go_Itoa lo @ CHR '':'' # s) = go_Itoa lo"
    and dw: "dropWhile (\<lambda>c. \<not> port_sep c) (go_Itoa lo @ CHR '':'' # s) = CHR '':'' # s" for s
    using b no_sep_Itoa [of lo] by (simp_all add: takeWhile_append dropWhile_append port_sep_def)
  have all: "dropWhile (\<lambda>c. \<not> port_sep c) (go_Itoa hi) = []"
    using b no_sep_Itoa [of hi] by simp
  show ?thesis
    using b at by (auto simp: r range_str_def parsePortToken_def tw dw all go_TrimSpace_Itoa)
qed

lemma no_comma_range: "port_range r \<Longrightarrow> CHR '','' \<notin> set (range_str r)"
  using go_Itoa_digits [of "fst r"] go_Itoa_digits [of "snd r"] go_isdigit_not_special
  by (cases r) (auto simp: port_range_def range_str_def list_all_iff)

lemma go_Split_ports:
  "rs \<noteq> [] \<Longrightarrow> list_all port_range rs \<Longrightarrow> go_Split (CHR '','') (ports_str rs) = map range_str rs"
  by (induction rs rule: ports_str.induct)
     (auto simp: go_Split_absent no_comma_range go_Split_append)

lemma range_str_nonempty [simp]: "range_str r \<noteq> []"
  by (cases r) (simp add: range_str_def)

lemma matchPort_loop_ranges:
  "list_all port_range rs \<Longrightarrow>
   matchPort_loop port (map range_str rs) = yesNo (list_ex (\<lambda>(lo, hi). lo \<le> port \<and> port \<le> hi) rs)"
  by (induction rs) (auto simp: go_TrimSpace_range parsePortToken_range yesNo_def split: if_splits)

text \<open>
  Destination-port specifications. For every non-empty list of port ranges, the printed
  specification (\<open>80\<close>, \<open>80,443\<close>, \<open>5900:5999\<close>, \<dots>) is read back exactly: a flow with a port matches
  if and only if the port lies in one of the ranges, and a flow without a port is undecided.
\<close>

theorem matchPort_ranges:
  assumes "rs \<noteq> []" and "list_all port_range rs"
  shows "mr_state (matchPort (ports_str rs) fl) =
     (if \<not> fl_portSet fl then matchUnknown
      else if list_ex (\<lambda>(lo, hi). lo \<le> fl_port fl \<and> fl_port fl \<le> hi) rs then matchYes else matchNo)"
proof -
  have "ports_str rs \<noteq> []" using assms(1) by (cases rs rule: ports_str.cases) auto
  then show ?thesis
    using go_Split_ports [OF assms] matchPort_loop_ranges [OF assms(2)]
    by (simp add: matchPort_def yesNo_def)
qed

definition ex_flow :: "int \<Rightarrow> flow" where
  "ex_flow port = \<lparr> fl_srcIP = Addr4 0x0A000005, fl_dstIP = Addr4 0x0A000006, fl_proto = ''tcp'',
     fl_port = port, fl_portSet = (port \<noteq> 0), fl_srcKnown = True, fl_dstKnown = True \<rparr>"

theorem matchPort_ranges_witness:
  "mr_state (matchPort (ports_str [(80, 80), (5900, 5999)]) (ex_flow 5905)) = matchYes
   \<and> mr_state (matchPort (ports_str [(80, 80), (5900, 5999)]) (ex_flow 6000)) = matchNo"
  using matchPort_ranges [of "[(80, 80), (5900, 5999)]" "ex_flow 5905"]
    matchPort_ranges [of "[(80, 80), (5900, 5999)]" "ex_flow 6000"]
  by (simp add: port_range_def ex_flow_def)


section \<open>Facts: the rule walk is first match\<close>

text \<open>A rule takes part in a direction's walk when it is an enabled leaf rule of that direction.\<close>

definition applies :: "string \<Rightarrow> ResolvedRule \<Rightarrow> bool" where
  "applies dir rr \<longleftrightarrow> rule_Direction (rr_Rule rr) \<noteq> ''group'' \<and> rule_Enabled (rr_Rule rr)
     \<and> rule_Direction (rr_Rule rr) = dir"

text \<open>The decision one rule takes by itself, if it takes one; the interface flag is left out.\<close>

definition rule_decision :: "ResolvedRule \<Rightarrow> string \<times> flow \<times> fwLookup \<Rightarrow> decision option" where
  "rule_decision rr = (\<lambda>(dir, fl, lk).
     if \<not> applies dir rr then None
     else let m = matchRule (rr_Rule rr) fl lk in
       case mr_state m of
         matchNo \<Rightarrow> None
       | matchUnknown \<Rightarrow> Some (zero_decision\<lparr> dec_kind := decisionUnknown, dec_reason := mr_reason m,
            dec_unknownIsIP := isIPReason (mr_reason m) \<rparr>)
       | matchYes \<Rightarrow> Some (zero_decision\<lparr> dec_kind := actionKind (rule_Action (rr_Rule rr)),
            dec_action := rule_Action (rr_Rule rr), dec_fromRule := True, dec_rule := rr_Rule rr,
            dec_origin := Some (rr_Origin rr), dec_groupName := rr_GroupName rr, dec_pos := rr_Pos rr \<rparr>))"

definition default_decision :: "ResolvedView \<Rightarrow> string \<times> flow \<times> fwLookup \<Rightarrow> decision" where
  "default_decision view = (\<lambda>(dir, fl, lk).
     let def = (if dir = ''out'' then rv_DefaultOut view else rv_DefaultIn view)
     in zero_decision\<lparr> dec_kind := actionKind (dp_Policy def), dec_action := dp_Policy def,
                       dec_origin := Some (dp_Origin def) \<rparr>)"

definition walk_rules :: "ResolvedView \<Rightarrow> ResolvedRule list \<Rightarrow> string \<times> flow \<times> fwLookup \<Rightarrow> decision" where
  "walk_rules view rrs = (\<lambda>(dir, fl, lk). (decide_loop view dir fl lk False rrs)\<lparr>dec_ifaceSeen := False\<rparr>)"

lemma decide_loop_iface:
  "(decide_loop view dir fl lk b rrs)\<lparr>dec_ifaceSeen := False\<rparr> =
   (decide_loop view dir fl lk c rrs)\<lparr>dec_ifaceSeen := False\<rparr>"
  by (induction rrs arbitrary: b c) (auto simp: Let_def split: matchState.splits)

interpretation fw_walk: first_match rule_decision "default_decision view" "walk_rules view" for view
proof
  fix rr rrs and p :: "string \<times> flow \<times> fwLookup"
  obtain dir fl lk where p: "p = (dir, fl, lk)" using prod_cases3 by blast
  show "walk_rules view [] p = default_decision view p"
    by (simp add: p walk_rules_def default_decision_def zero_decision_def Let_def)
  show "walk_rules view (rr # rrs) p =
      (case rule_decision rr p of None \<Rightarrow> walk_rules view rrs p | Some d \<Rightarrow> d)"
    using decide_loop_iface [of view dir fl lk True rrs False]
    by (auto simp: p walk_rules_def rule_decision_def applies_def zero_decision_def Let_def
        split: matchState.split)
qed

lemma decideDirection_walk:
  "(decideDirection view dir fl lk)\<lparr>dec_ifaceSeen := False\<rparr> = walk_rules view (rv_Rules view) (dir, fl, lk)"
  by (simp add: decideDirection_def walk_rules_def)

definition ref_decision :: "ResolvedView \<Rightarrow> string \<Rightarrow> flow \<Rightarrow> fwLookup \<Rightarrow> decision" where
  "ref_decision view dir fl lk =
     (case List.find (\<lambda>rr. applies dir rr \<and> mr_state (matchRule (rr_Rule rr) fl lk) \<noteq> matchNo) (rv_Rules view) of
        None \<Rightarrow> default_decision view (dir, fl, lk)
      | Some rr \<Rightarrow> the (rule_decision rr (dir, fl, lk)))"

lemma rule_decision_None:
  "rule_decision rr (dir, fl, lk) = None \<longleftrightarrow>
     \<not> (applies dir rr \<and> mr_state (matchRule (rr_Rule rr) fl lk) \<noteq> matchNo)"
  by (auto simp: rule_decision_def Let_def split: matchState.splits)

lemma walk_rules_ref:
  "walk_rules view rrs (dir, fl, lk) =
     (case List.find (\<lambda>rr. rule_decision rr (dir, fl, lk) \<noteq> None) rrs of
        None \<Rightarrow> default_decision view (dir, fl, lk) | Some rr \<Rightarrow> the (rule_decision rr (dir, fl, lk)))"
  by (induction rrs) (auto simp: fw_walk.walk_Nil fw_walk.walk_Cons)

text \<open>
  The rule walk is first match, with no guessing. Whatever the view, the decision is that of
  the first enabled leaf rule of the direction that does not definitely fail to match: its action
  if it matches, undecided if the match cannot be decided (later rules are never consulted), and
  the direction's default policy if there is no such rule.
\<close>

theorem decideDirection_first_match:
  "(decideDirection view dir fl lk)\<lparr>dec_ifaceSeen := False\<rparr> = ref_decision view dir fl lk"
  unfolding decideDirection_walk ref_decision_def walk_rules_ref
  by (simp add: rule_decision_None)

lemma decision_kind_ref: "dec_kind (decideDirection view dir fl lk) = dec_kind (ref_decision view dir fl lk)"
  unfolding ref_decision_def
  using arg_cong [OF decideDirection_walk [of view dir fl lk], of dec_kind]
  by (simp add: walk_rules_ref rule_decision_None)

text \<open>A decision that comes from a rule names a rule of the view, at the position it has there.\<close>

lemma decideDirection_fromRule:
  assumes "dec_fromRule (decideDirection view dir fl lk)"
  shows "\<exists>rr \<in> set (rv_Rules view). dec_rule (decideDirection view dir fl lk) = rr_Rule rr
      \<and> dec_pos (decideDirection view dir fl lk) = rr_Pos rr
      \<and> dec_origin (decideDirection view dir fl lk) = Some (rr_Origin rr)
      \<and> dec_action (decideDirection view dir fl lk) = rule_Action (rr_Rule rr)
      \<and> applies dir rr \<and> mr_state (matchRule (rr_Rule rr) fl lk) = matchYes"
proof -
  define d where "d = walk_rules view (rv_Rules view) (dir, fl, lk)"
  have dd: "d = (decideDirection view dir fl lk)\<lparr>dec_ifaceSeen := False\<rparr>"
    by (simp add: d_def decideDirection_walk)
  with assms have frm: "dec_fromRule d" by simp
  have "\<exists>rr \<in> set (rv_Rules view). rule_decision rr (dir, fl, lk) = Some d"
    using frm by (cases rule: fw_walk.walk_cases [of "rv_Rules view" "(dir, fl, lk)" view])
      (auto simp: d_def default_decision_def zero_decision_def Let_def)
  then obtain rr where rr: "rr \<in> set (rv_Rules view)" "rule_decision rr (dir, fl, lk) = Some d" by blast
  with frm have "applies dir rr" "mr_state (matchRule (rr_Rule rr) fl lk) = matchYes"
    "dec_rule d = rr_Rule rr" "dec_pos d = rr_Pos rr" "dec_origin d = Some (rr_Origin rr)"
    "dec_action d = rule_Action (rr_Rule rr)"
    by (auto simp: rule_decision_def zero_decision_def Let_def split: if_splits matchState.splits)
  with rr(1) dd show ?thesis by auto
qed

text \<open>A decision not taken by a matching rule or the default policy is never an allow or a deny.\<close>

lemma decideDirection_kind:
  "dec_kind (decideDirection view dir fl lk) \<noteq> decisionUnknown \<Longrightarrow>
   dec_kind (decideDirection view dir fl lk) = actionKind (dec_action (decideDirection view dir fl lk))"
proof -
  have "dec_kind d \<noteq> decisionUnknown \<longrightarrow> dec_kind d = actionKind (dec_action d)"
    if "d = decide_loop view dir fl lk b rrs" for d b rrs
    using that
    by (induction rrs arbitrary: b d) (auto simp: Let_def zero_decision_def split: matchState.splits)
  then show "dec_kind (decideDirection view dir fl lk) \<noteq> decisionUnknown \<Longrightarrow> ?thesis"
    by (simp add: decideDirection_def)
qed

text \<open>
  Source ports are ignored. The matcher gives the same answer whatever a rule's source-port
  restriction says, and does not report the restriction as undecided.
\<close>

theorem matchRule_ignores_sport:
  "matchRule (rule\<lparr>rule_Sport := s\<rparr>) fl lk = matchRule rule fl lk"
proof -
  have "matchProtoPort (rule\<lparr>rule_Sport := s\<rparr>) fl = matchProtoPort rule fl"
    by (simp add: matchProtoPort_def split: option.split)
  then show ?thesis by (simp add: matchRule_def)
qed

end
