(* ===== verification/Sim_Endpoint.thy ===== *)
theory Sim_Endpoint
  imports Sim_Types
begin

text \<open>
  Endpoint resolution of the simulator (\<^verbatim>\<open>src/internal/sim/endpoint.go\<close>) and the hop renderers
  (\<^verbatim>\<open>hops.go\<close>). A function that takes \<open>*Result\<close> or \<open>*resolvedEP\<close> returns the updated value. A
  pointer field is an option and a dereference is \<open>the\<close>; \<open>ep_ok\<close>, established here for every
  resolved endpoint, is what the later phases rely on never to dereference nil.
\<close>

section \<open>Resolved endpoints\<close>

datatype attachKind = attachNone | attachBridge | attachVnet

record resolvedEP =
  ep_ip :: addr
  ep_vnet :: "SdnVnet option"
  ep_subnet :: "SdnSubnet option"
  ep_nic :: "GuestNic option"
  ep_zone :: "SdnZone option"
  ep_bridge :: "Bridge option"
  ep_attach :: attachKind
  ep_node :: string
  ep_ipSource :: IPSource
  ep_kind :: EndpointKind
  ep_public :: ResolvedEndpoint
  ep_vid :: int
  ep_unattached :: bool
  ep_fatal :: bool
  ep_ipKnown :: bool
  ep_fwEnabled :: bool

definition zero_EP :: resolvedEP where
  "zero_EP = \<lparr> ep_ip = AddrNone, ep_vnet = None, ep_subnet = None, ep_nic = None, ep_zone = None,
     ep_bridge = None, ep_attach = attachNone, ep_node = [], ep_ipSource = IPSourceUnknown,
     ep_kind = EndpointOther [], ep_public = zero_ResolvedEndpoint, ep_vid = 0,
     ep_unattached = False, ep_fatal = False, ep_ipKnown = False, ep_fwEnabled = False \<rparr>"

abbreviation upd_public :: "(ResolvedEndpoint \<Rightarrow> ResolvedEndpoint) \<Rightarrow> resolvedEP \<Rightarrow> resolvedEP" where
  "upd_public f rep \<equiv> rep\<lparr>ep_public := f (ep_public rep)\<rparr>"

fun subnetContaining_loop :: "addr \<Rightarrow> SdnSubnet list \<Rightarrow> SdnSubnet option" where
  "subnetContaining_loop a [] = None"
| "subnetContaining_loop a (s # ss) =
     (case ParsePrefix (sub_ID s) of
        None \<Rightarrow> subnetContaining_loop a ss
      | Some pfx \<Rightarrow> if pfx_Contains pfx a then Some s else subnetContaining_loop a ss)"

definition subnetContaining :: "Engine \<Rightarrow> addr \<Rightarrow> SdnSubnet option" where
  "subnetContaining e a = subnetContaining_loop a (eng_subnets e)"

definition ip_order :: "IPSource \<Rightarrow> int" where
  "ip_order s = (case s of IPSourceStatic \<Rightarrow> 3 | IPSourceIPAM \<Rightarrow> 2 | IPSourceAgent \<Rightarrow> 1 | _ \<Rightarrow> 0)"

text \<open>One candidate of \<open>bestGuestIP\<close>'s loop; the state is the best rank, address and source so far.\<close>

definition best_step :: "Family \<Rightarrow> int \<times> addr \<times> IPSource \<Rightarrow> GuestIP \<Rightarrow> int \<times> addr \<times> IPSource" where
  "best_step family st gi =
     (case ParseAddr (gip_IP gi) of
        None \<Rightarrow> st
      | Some a \<Rightarrow> if \<not> Family_matches family a then st
                  else if ip_order (gip_Source gi) > fst st
                       then (ip_order (gip_Source gi), a, gip_Source gi) else st)"

definition bestGuestIP :: "Engine \<Rightarrow> Ref \<Rightarrow> Family \<Rightarrow> (addr \<times> IPSource) option" where
  "bestGuestIP e ref family =
     (let ips = (case eng_guestIPs e ref of None \<Rightarrow> [] | Some l \<Rightarrow> l) in
      if ips = [] then None
      else let (rank, best, src) = foldl (best_step family) (0, AddrNone, IPSourceUnknown) ips
           in if rank = 0 then None else Some (best, src))"

definition familySubnets :: "SdnSubnet list \<Rightarrow> Family \<Rightarrow> SdnSubnet list" where
  "familySubnets subs family =
     filter (\<lambda>s. case ParsePrefix (sub_ID s) of None \<Rightarrow> False
                 | Some pfx \<Rightarrow> Family_matches family (pfx_Addr pfx)) subs"

definition describeNic :: "Engine \<Rightarrow> GuestNic \<Rightarrow> resolvedEP \<Rightarrow> string" where
  "describeNic e nic rep =
     (let name = (case eng_guests e (nic_Guest nic) of
                    Some g \<Rightarrow> if guest_Name g \<noteq> [] then guest_Name g else ref_ID (nic_Guest nic)
                  | None \<Rightarrow> ref_ID (nic_Guest nic))
      in case ep_attach rep of
           attachBridge \<Rightarrow> name @ '' '' @ nic_Key nic @ '' on bridge '' @ br_Name (the (ep_bridge rep))
             @ '' (vlan '' @ go_Itoa (ep_vid rep) @ '')''
         | attachVnet \<Rightarrow> name @ '' '' @ nic_Key nic @ '' on VNet '' @ vnet_ID (the (ep_vnet rep))
             @ '' (vlan '' @ go_Itoa (ep_vid rep) @ '')''
         | attachNone \<Rightarrow> name @ '' '' @ nic_Key nic @ '' (attaches to '' @ go_Quote (nic_TargetName nic)
             @ '' '' @ em_dash @ '' unresolved)'')"

definition resolveNicIP :: "Engine \<Rightarrow> Ref \<Rightarrow> Family \<Rightarrow> resolvedEP \<Rightarrow> Result \<Rightarrow> resolvedEP \<times> Result" where
  "resolveNicIP e ref family0 rep res =
     (let family = orDefault family0 in
      case bestGuestIP e ref family of
        Some (ip, src) \<Rightarrow>
          let rep = upd_public (\<lambda>p. p\<lparr>re_IP := addr_String ip, re_IPSource := src\<rparr>)
                      (rep\<lparr>ep_ip := ip, ep_ipKnown := True, ep_ipSource := src\<rparr>);
              res = (if src = IPSourceAgent then addCaveat (warnCaveat CodeGuestAgentIP
                       (''Endpoint IP '' @ addr_String ip @ '' for '' @ Ref_String ref
                        @ '' came from the guest agent (runtime, lower confidence), not configuration.'')) res
                     else res)
          in (case subnetContaining e ip of
                Some sub \<Rightarrow> (upd_public (\<lambda>p. p\<lparr>re_Subnet := sub_ID sub\<rparr>) (rep\<lparr>ep_subnet := Some sub\<rparr>), res)
              | None \<Rightarrow> (rep, res))
      | None \<Rightarrow>
          let rep = (case ep_vnet rep of
                       None \<Rightarrow> rep
                     | Some vn \<Rightarrow>
                         (case familySubnets (eng_subnetsByVnet e (vnet_ID vn)) family of
                            [s] \<Rightarrow> upd_public (\<lambda>p. p\<lparr>re_Subnet := sub_ID s\<rparr>) (rep\<lparr>ep_subnet := Some s\<rparr>)
                          | _ \<Rightarrow> rep))
          in (rep\<lparr>ep_ipSource := IPSourceUnknown\<rparr>, res))"

definition resolveNicAttachment :: "Engine \<Rightarrow> GuestNic \<Rightarrow> resolvedEP \<Rightarrow> Result \<Rightarrow> resolvedEP \<times> Result" where
  "resolveNicAttachment e nic rep res =
     (let target = nic_BridgeOrVnet nic in
      if Ref_IsZero target then (rep\<lparr>ep_unattached := True, ep_attach := attachNone\<rparr>, res)
      else
        let rep = upd_public (\<lambda>p. p\<lparr>re_Attachment := Ref_String target\<rparr>) rep in
        if ref_Kind target = KindBridge \<or> ref_Kind target = KindOVSBridge then
          (let rep = rep\<lparr>ep_attach := attachBridge, ep_bridge := eng_bridgesByRef e target\<rparr> in
           case ep_bridge rep of
             None \<Rightarrow> (rep\<lparr>ep_unattached := True, ep_attach := attachNone\<rparr>, res)
           | Some b \<Rightarrow>
               (rep, if br_Virt b = BridgeOVS then addCaveat (warnCaveat CodeOVS
                  ''Path traverses an Open vSwitch bridge; the engine's VLAN/trunk reasoning is validated against Linux-bridge semantics.'') res
                else res))
        else if ref_Kind target = KindSDNVnet then
          (let rep = rep\<lparr>ep_attach := attachVnet, ep_vnet := eng_vnetByRef e target\<rparr> in
           case ep_vnet rep of
             None \<Rightarrow> (rep\<lparr>ep_unattached := True, ep_attach := attachNone\<rparr>, res)
           | Some vn \<Rightarrow>
               (upd_public (\<lambda>p. p\<lparr>re_Vnet := vnet_ID vn, re_Zone := vnet_Zone vn\<rparr>)
                  (rep\<lparr>ep_zone := eng_zoneByID e (vnet_Zone vn)\<rparr>), res))
        else (rep\<lparr>ep_fatal := True\<rparr>,
              addCaveat (notEvaluated FeatureUnknownEntityKind
                (''guest NIC attaches to '' @ Ref_String target @ '' (kind '' @ ref_Kind target
                 @ ''), which the simulator does not model'')) res))"

definition resolveGuestNic :: "Engine \<Rightarrow> Ref \<Rightarrow> Family \<Rightarrow> Result \<Rightarrow> resolvedEP \<times> Result" where
  "resolveGuestNic e ref family res =
     (let fatal = (\<lambda>desc. zero_EP\<lparr> ep_kind := EndpointGuestNic, ep_fatal := True,
                     ep_public := zero_ResolvedEndpoint\<lparr> re_Kind := EndpointGuestNic,
                       re_Ref := Ref_String ref, re_Description := desc \<rparr> \<rparr>) in
      if ref_Kind ref \<noteq> KindGuestNic then
        (fatal ''endpoint is not a guest NIC'',
         addCaveat (notEvaluated FeatureUnknownEntityKind
           (''endpoint ref '' @ Ref_String ref @ '' is a '' @ ref_Kind ref @ '', not a guest NIC'')) res)
      else case eng_guestNics e ref of
        None \<Rightarrow> (fatal ''guest NIC not found'',
           addCaveat (blockerCaveat CodeNotEvaluated
             (''guest NIC '' @ Ref_String ref @ '' not found in inventory'')) res)
      | Some nic \<Rightarrow>
          let rep = zero_EP\<lparr> ep_kind := EndpointGuestNic, ep_nic := Some nic, ep_node := ref_Node ref,
                ep_vid := nic_EffectiveVid nic, ep_fwEnabled := nic_Firewall nic,
                ep_public := zero_ResolvedEndpoint\<lparr> re_Kind := EndpointGuestNic, re_Ref := Ref_String ref,
                  re_Guest := Ref_String (nic_Guest nic), re_Node := ref_Node ref,
                  re_Vid := nic_EffectiveVid nic \<rparr> \<rparr>;
              (rep, res) = resolveNicAttachment e nic rep res;
              (rep, res) = resolveNicIP e ref family rep res
          in (upd_public (\<lambda>p. p\<lparr>re_Description := describeNic e nic rep\<rparr>) rep, res))"

definition resolveIP :: "Engine \<Rightarrow> string \<Rightarrow> Result \<Rightarrow> resolvedEP \<times> Result" where
  "resolveIP e raw res =
     (case ParseAddr raw of
        None \<Rightarrow>
          (zero_EP\<lparr> ep_kind := EndpointIP, ep_fatal := True,
             ep_public := zero_ResolvedEndpoint\<lparr> re_Kind := EndpointIP, re_Description := ''invalid IP literal'' \<rparr> \<rparr>,
           addCaveat (blockerCaveat CodeNotEvaluated
             (''endpoint IP '' @ go_Quote raw @ '' is not a valid address'')) res)
      | Some a \<Rightarrow>
          let rep = zero_EP\<lparr> ep_kind := EndpointIP, ep_ip := a, ep_ipKnown := True, ep_ipSource := IPSourceLiteral,
                ep_public := zero_ResolvedEndpoint\<lparr> re_Kind := EndpointIP, re_IP := addr_String a,
                  re_IPSource := IPSourceLiteral \<rparr> \<rparr>
          in case subnetContaining e a of
               Some sub \<Rightarrow>
                 let rep = rep\<lparr>ep_subnet := Some sub\<rparr>;
                     rep = (case eng_vnetByID e (sub_Vnet sub) of
                              None \<Rightarrow> rep
                            | Some vn \<Rightarrow> upd_public (\<lambda>p. p\<lparr>re_Vnet := vnet_ID vn, re_Zone := vnet_Zone vn\<rparr>)
                                (rep\<lparr>ep_vnet := Some vn, ep_zone := eng_zoneByID e (vnet_Zone vn),
                                     ep_attach := attachVnet, ep_vid := vnet_Tag vn\<rparr>))
                 in (upd_public (\<lambda>p. p\<lparr>re_Subnet := sub_ID sub,
                       re_Description := ''IP '' @ addr_String a @ '' in subnet '' @ sub_ID sub\<rparr>) rep, res)
             | None \<Rightarrow>
                 (upd_public (\<lambda>p. p\<lparr>re_Description := ''IP '' @ addr_String a @ '' (no known subnet '' @ em_dash
                    @ '' treated as off-fabric)''\<rparr>) rep, res))"

definition resolveEndpoint :: "Engine \<Rightarrow> Endpoint \<Rightarrow> Family \<Rightarrow> Result \<Rightarrow> resolvedEP \<times> Result" where
  "resolveEndpoint e ep family res =
     (case ept_Kind ep of
        EndpointExternal \<Rightarrow>
          (zero_EP\<lparr> ep_kind := EndpointExternal, ep_attach := attachNone,
             ep_public := zero_ResolvedEndpoint\<lparr> re_Kind := EndpointExternal, re_Description := ''external / WAN'' \<rparr> \<rparr>,
           res)
      | EndpointIP \<Rightarrow> resolveIP e (ept_IP ep) res
      | EndpointGuestNic \<Rightarrow> resolveGuestNic e (ept_NicRef ep) family res
      | EndpointOther k \<Rightarrow>
          (zero_EP\<lparr> ep_kind := EndpointOther k, ep_fatal := True,
             ep_public := zero_ResolvedEndpoint\<lparr> re_Kind := EndpointOther k,
               re_Description := ''unsupported endpoint kind'' \<rparr> \<rparr>,
           addCaveat (notEvaluated FeatureUnknownEntityKind
             (''endpoint kind '' @ go_Quote (EndpointKind_string (EndpointOther k)) @ '' is not supported'')) res))"


section \<open>Hops\<close>

definition vlanDetail :: "int \<Rightarrow> string" where
  "vlanDetail vid = (if vid = 0 then ''untagged'' else ''VLAN '' @ go_Itoa vid)"

definition hopForEndpoint :: "resolvedEP \<Rightarrow> Hop" where
  "hopForEndpoint ep =
     (case ep_kind ep of
        EndpointExternal \<Rightarrow> mkHop [] ''external'' [] ''external / WAN'' []
      | EndpointIP \<Rightarrow> mkHop [] ''ip'' [] (re_IP (ep_public ep)) (re_Description (ep_public ep))
      | EndpointGuestNic \<Rightarrow> mkHop (re_Ref (ep_public ep)) ''guest-nic'' (ep_node ep) (re_Description (ep_public ep)) []
      | EndpointOther k \<Rightarrow> zero_Hop)"

definition hopForAttachment :: "resolvedEP \<Rightarrow> Hop" where
  "hopForAttachment ep =
     (case ep_attach ep of
        attachBridge \<Rightarrow> mkHop (Ref_String (br_Ref (the (ep_bridge ep)))) ''bridge'' (ep_node ep)
          (''bridge '' @ br_Name (the (ep_bridge ep))) (vlanDetail (ep_vid ep))
      | attachVnet \<Rightarrow> mkHop (Ref_String (vnet_Ref (the (ep_vnet ep)))) ''sdn-vnet'' (ep_node ep)
          (''VNet '' @ vnet_ID (the (ep_vnet ep))) (vlanDetail (ep_vid ep))
      | attachNone \<Rightarrow> zero_Hop)"

definition fabricHop :: "string \<Rightarrow> int \<Rightarrow> string \<Rightarrow> string \<Rightarrow> Hop" where
  "fabricHop bridgeName vid srcNode dstNode =
     mkHop [] ''fabric'' [] (''fabric: '' @ bridgeName @ '' trunk '' @ srcNode @ arrow_right @ dstNode) (vlanDetail vid)"


section \<open>Facts: no nil dereference\<close>

text \<open>The pointers the later phases dereference: the attachment named by \<open>attach\<close>, and the NIC.\<close>

definition ep_ok :: "resolvedEP \<Rightarrow> bool" where
  "ep_ok ep \<longleftrightarrow> (ep_attach ep = attachBridge \<longrightarrow> ep_bridge ep \<noteq> None)
     \<and> (ep_attach ep = attachVnet \<longrightarrow> ep_vnet ep \<noteq> None)
     \<and> (ep_kind ep = EndpointGuestNic \<longrightarrow> ep_fatal ep \<or> ep_nic ep \<noteq> None)
     \<and> (ep_unattached ep \<longrightarrow> ep_attach ep = attachNone)"

lemma resolveNicAttachment_ok:
  assumes "ep_nic rep \<noteq> None" "ep_attach rep = attachNone" "\<not> ep_unattached rep"
    and "resolveNicAttachment e nic rep res = (rep', res')"
  shows "ep_ok rep' \<and> ep_nic rep' = ep_nic rep \<and> ep_kind rep' = ep_kind rep"
  using assms by (auto simp: resolveNicAttachment_def ep_ok_def Let_def split: if_splits option.splits)

lemma resolveNicIP_frame:
  assumes "resolveNicIP e ref family rep res = (rep', res')"
  shows "ep_attach rep' = ep_attach rep" "ep_bridge rep' = ep_bridge rep" "ep_vnet rep' = ep_vnet rep"
    "ep_nic rep' = ep_nic rep" "ep_kind rep' = ep_kind rep" "ep_fatal rep' = ep_fatal rep"
    "ep_unattached rep' = ep_unattached rep" "ep_node rep' = ep_node rep" "ep_zone rep' = ep_zone rep"
    "ep_fwEnabled rep' = ep_fwEnabled rep" "ep_vid rep' = ep_vid rep"
  using assms by (auto simp: resolveNicIP_def Let_def split: option.splits list.splits if_splits)

lemma resolveGuestNic_ok: "resolveGuestNic e ref family res = (rep, res') \<Longrightarrow> ep_ok rep"
proof -
  assume r: "resolveGuestNic e ref family res = (rep, res')"
  show "ep_ok rep"
  proof (cases "ref_Kind ref = KindGuestNic \<and> eng_guestNics e ref \<noteq> None")
    case False
    with r show ?thesis
      by (auto simp: resolveGuestNic_def ep_ok_def zero_EP_def Let_def split: if_splits option.splits)
  next
    case True
    then obtain nic where nic: "eng_guestNics e ref = Some nic" by blast
    with True r obtain rep1 res1 rep2 res2 rep0 where
      a: "resolveNicAttachment e nic rep0 res = (rep1, res1)"
      and r0: "ep_nic rep0 \<noteq> None" "ep_attach rep0 = attachNone" "\<not> ep_unattached rep0"
      and i: "resolveNicIP e ref family rep1 res1 = (rep2, res2)"
      and rep: "rep = upd_public (\<lambda>p. p\<lparr>re_Description := describeNic e nic rep2\<rparr>) rep2"
      by (auto simp: resolveGuestNic_def zero_EP_def Let_def split: prod.splits)
    from resolveNicAttachment_ok [OF r0 a] resolveNicIP_frame [OF i]
    show ?thesis by (auto simp: rep ep_ok_def)
  qed
qed

lemma resolveIP_ok: "resolveIP e raw res = (rep, res') \<Longrightarrow> ep_ok rep"
  by (auto simp: resolveIP_def ep_ok_def zero_EP_def Let_def split: option.splits)

text \<open>
  Whatever an endpoint names, resolving it yields an endpoint whose attachment pointer is set
  whenever its attachment kind says so, and whose NIC pointer is set unless the endpoint is fatal:
  the later phases dereference no nil pointer. An unattached endpoint is attached to nothing.
\<close>

theorem resolveEndpoint_ok:
  "ep_ok (fst (resolveEndpoint e ep family res))"
  using resolveGuestNic_ok [of e "ept_NicRef ep" family res] resolveIP_ok [of e "ept_IP ep" res]
  by (cases "resolveEndpoint e ep family res")
     (auto simp: resolveEndpoint_def ep_ok_def zero_EP_def split: EndpointKind.splits)

lemma resolveEndpoint_kind: "ep_kind (fst (resolveEndpoint e ep family res)) = ept_Kind ep"
proof -
  have "ep_kind (fst (resolveGuestNic e ref family res)) = EndpointGuestNic" for ref
  proof (cases "ref_Kind ref = KindGuestNic \<and> eng_guestNics e ref \<noteq> None")
    case False
    then show ?thesis by (auto simp: resolveGuestNic_def Let_def)
  next
    case True
    then show ?thesis
      by (auto simp: resolveGuestNic_def Let_def zero_EP_def split: prod.split
          dest!: resolveNicIP_frame(5) resolveNicAttachment_ok [rotated -1])
  qed
  moreover have "ep_kind (fst (resolveIP e raw res)) = EndpointIP" for raw
    by (auto simp: resolveIP_def Let_def split: option.split)
  ultimately show ?thesis by (simp add: resolveEndpoint_def split: EndpointKind.split)
qed


section \<open>Facts: endpoint resolution is a phase\<close>

lemma resolveNicAttachment_keeps:
  assumes "resolveNicAttachment e nic rep res = (rep', res')" and "\<not> ep_fatal rep"
  shows "keeps res res' (ep_fatal rep')"
  using assms
  by (auto simp: resolveNicAttachment_def Let_def split: if_splits option.splits intro!: keeps_intros)

lemma resolveNicIP_keeps:
  assumes "resolveNicIP e ref family rep res = (rep', res')"
  shows "keeps res res' False"
  using assms
  by (auto simp: resolveNicIP_def Let_def split: if_splits option.splits list.splits intro!: keeps_intros)

lemma resolveGuestNic_keeps:
  assumes "resolveGuestNic e ref family res = (rep, res')"
  shows "keeps res res' (ep_fatal rep)"
proof (cases "ref_Kind ref = KindGuestNic \<and> eng_guestNics e ref \<noteq> None")
  case False
  with assms show ?thesis
    by (auto simp: resolveGuestNic_def Let_def split: if_splits option.splits intro!: keeps_intros)
next
  case True
  then obtain nic where nic: "eng_guestNics e ref = Some nic" by blast
  with True assms obtain rep1 res1 rep2 res2 rep0 where
    a: "resolveNicAttachment e nic rep0 res = (rep1, res1)" and r0: "\<not> ep_fatal rep0"
    and i: "resolveNicIP e ref family rep1 res1 = (rep2, res2)"
    and rep: "rep = upd_public (\<lambda>p. p\<lparr>re_Description := describeNic e nic rep2\<rparr>) rep2" "res' = res2"
    by (auto simp: resolveGuestNic_def zero_EP_def Let_def split: prod.splits)
  from keeps_trans [OF resolveNicAttachment_keeps [OF a r0] resolveNicIP_keeps [OF i]] resolveNicIP_frame(6) [OF i]
  show ?thesis by (simp add: rep)
qed

lemma resolveIP_keeps:
  assumes "resolveIP e raw res = (rep, res')"
  shows "keeps res res' (ep_fatal rep)"
  using assms
  by (auto simp: resolveIP_def Let_def zero_EP_def split: option.splits intro!: keeps_intros)

lemma resolveEndpoint_keeps:
  assumes "resolveEndpoint e ep family res = (rep, res')"
  shows "keeps res res' (ep_fatal rep)"
proof (cases "ept_Kind ep")
  case EndpointGuestNic
  with assms show ?thesis by (simp add: resolveEndpoint_def resolveGuestNic_keeps)
next
  case EndpointIP
  with assms show ?thesis by (simp add: resolveEndpoint_def resolveIP_keeps)
qed (use assms in \<open>auto simp: resolveEndpoint_def zero_EP_def intro!: keeps_intros\<close>)

interpretation resolve_phase: phase
  "\<lambda>(e, ep, family) res. Some (resolveEndpoint e ep family res)" ep_fatal
  by unfold_locales (auto dest: resolveEndpoint_keeps)


text \<open>The resolved endpoint does not depend on the result it writes to.\<close>

lemma resolveNicAttachment_fst: "fst (resolveNicAttachment e nic rep res) = fst (resolveNicAttachment e nic rep res2)"
  by (simp add: resolveNicAttachment_def Let_def split: option.split)

lemma resolveNicIP_fst: "fst (resolveNicIP e ref family rep res) = fst (resolveNicIP e ref family rep res2)"
  by (simp add: resolveNicIP_def Let_def split: option.split list.split)

lemma resolveGuestNic_fst: "fst (resolveGuestNic e ref family res) = fst (resolveGuestNic e ref family res2)"
proof (cases "ref_Kind ref = KindGuestNic \<and> eng_guestNics e ref \<noteq> None")
  case False
  then show ?thesis by (auto simp: resolveGuestNic_def Let_def)
next
  case True
  then show ?thesis
    by (auto simp: resolveGuestNic_def Let_def split: prod.split)
       (metis fst_conv resolveNicAttachment_fst resolveNicIP_fst)+
qed

lemma resolveEndpoint_fst: "fst (resolveEndpoint e ep family res) = fst (resolveEndpoint e ep family res2)"
proof -
  have "fst (resolveIP e raw res) = fst (resolveIP e raw res2)" for raw
    by (simp add: resolveIP_def Let_def split: option.split)
  then show ?thesis
    using resolveGuestNic_fst [of e "ept_NicRef ep" family res res2]
    by (simp add: resolveEndpoint_def split: EndpointKind.split)
qed


section \<open>Facts: choosing an address and a subnet\<close>

interpretation subnet_lookup: first_match
  "\<lambda>s a. case ParsePrefix (sub_ID s) of None \<Rightarrow> None
         | Some pfx \<Rightarrow> if pfx_Contains pfx a then Some (Some s) else None"
  "\<lambda>a. None" "\<lambda>ss a. subnetContaining_loop a ss"
  by unfold_locales (auto split: option.splits)

definition subnet_has :: "SdnSubnet \<Rightarrow> addr \<Rightarrow> bool" where
  "subnet_has s a \<longleftrightarrow> (\<exists>pfx. ParsePrefix (sub_ID s) = Some pfx \<and> pfx_Contains pfx a)"

text \<open>The subnet chosen contains the address and is the first one that does.\<close>

lemma subnetContaining_iff:
  "subnetContaining e a = Some s \<longleftrightarrow>
     (\<exists>ss1 ss2. eng_subnets e = ss1 @ s # ss2 \<and> subnet_has s a \<and> (\<forall>x \<in> set ss1. \<not> subnet_has x a))"
proof -
  have "subnetContaining_loop a ss = Some s \<longleftrightarrow>
     (\<exists>ss1 y ss2. ss = ss1 @ y # ss2 \<and> (\<forall>x \<in> set ss1. \<not> subnet_has x a) \<and> subnet_has y a \<and> y = s)" for ss
  proof (induction ss)
    case Nil
    then show ?case by simp
  next
    case (Cons x ss)
    then show ?case unfolding reach_through_Cons
      by (auto simp: subnet_has_def split: option.splits)
  qed
  then show ?thesis unfolding subnetContaining_def by auto
qed

definition candidate :: "Family \<Rightarrow> GuestIP \<Rightarrow> addr \<Rightarrow> bool" where
  "candidate family gi a \<longleftrightarrow> ParseAddr (gip_IP gi) = Some a \<and> Family_matches family a \<and> 0 < ip_order (gip_Source gi)"

lemma best_fold:
  assumes "foldl (best_step family) st gis = (rank, best, src)" and "0 \<le> fst st"
  shows "fst st \<le> rank \<and> (\<forall>gi \<in> set gis. \<forall>a. candidate family gi a \<longrightarrow> ip_order (gip_Source gi) \<le> rank)
    \<and> ((rank, best, src) = st \<or>
       (\<exists>gi \<in> set gis. candidate family gi best \<and> src = gip_Source gi \<and> rank = ip_order src))"
  using assms
proof (induction gis arbitrary: st)
  case Nil
  then show ?case by simp
next
  case (Cons g gis)
  have ge: "fst st \<le> fst (best_step family st g)"
    by (auto simp: best_step_def split: option.splits)
  with Cons.prems Cons.IH [of "best_step family st g"]
  have ih: "fst (best_step family st g) \<le> rank"
    "\<forall>gi \<in> set gis. \<forall>a. candidate family gi a \<longrightarrow> ip_order (gip_Source gi) \<le> rank"
    "(rank, best, src) = best_step family st g \<or>
       (\<exists>gi \<in> set gis. candidate family gi best \<and> src = gip_Source gi \<and> rank = ip_order src)"
    by auto
  have g: "candidate family g a \<Longrightarrow> ip_order (gip_Source g) \<le> fst (best_step family st g)" for a
    by (auto simp: best_step_def candidate_def)
  have step: "best_step family st g = st \<or> (\<exists>a. candidate family g a
      \<and> best_step family st g = (ip_order (gip_Source g), a, gip_Source g))"
    using Cons.prems(2) by (auto simp: best_step_def candidate_def split: option.splits)
  show ?case using ge ih g step by fastforce
qed

text \<open>
  A guest NIC's address is the best one known for the requested family: \<open>bestGuestIP\<close> returns
  an address only if it parses, is of that family and comes from a static, IPAM or guest-agent
  record of that NIC, and no usable record of that family has a more trusted source; it returns
  none only if there is no usable record. An address of the other family is never used.
\<close>

theorem bestGuestIP_best:
  "case bestGuestIP e ref family of
     Some (a, src) \<Rightarrow>
       (\<exists>gi. gi \<in> set (case eng_guestIPs e ref of None \<Rightarrow> [] | Some l \<Rightarrow> l) \<and> candidate family gi a \<and> src = gip_Source gi)
       \<and> (\<nexists>gi b. gi \<in> set (case eng_guestIPs e ref of None \<Rightarrow> [] | Some l \<Rightarrow> l) \<and> candidate family gi b
             \<and> ip_order src < ip_order (gip_Source gi))
   | None \<Rightarrow> (\<nexists>gi a. gi \<in> set (case eng_guestIPs e ref of None \<Rightarrow> [] | Some l \<Rightarrow> l) \<and> candidate family gi a)"
proof -
  define ips where "ips = (case eng_guestIPs e ref of None \<Rightarrow> [] | Some l \<Rightarrow> l)"
  obtain rank best src where f: "foldl (best_step family) (0, AddrNone, IPSourceUnknown) ips = (rank, best, src)"
    by (metis prod_cases3)
  note b = best_fold [OF f, simplified]
  have "bestGuestIP e ref family = (if rank = 0 then None else Some (best, src))"
    using f by (auto simp: bestGuestIP_def ips_def [symmetric] Let_def)
  moreover have "rank = 0 \<Longrightarrow> gi \<in> set ips \<Longrightarrow> \<not> candidate family gi a" for gi a
    using b by (force simp: candidate_def)
  moreover have "rank \<noteq> 0 \<Longrightarrow> \<exists>gi \<in> set ips. candidate family gi best \<and> src = gip_Source gi \<and> rank = ip_order src"
    using b by auto
  ultimately show ?thesis using b unfolding ips_def [symmetric] by force
qed

end
