(* ===== verification/Sim_Firewall.thy ===== *)
theory Sim_Firewall
  imports Sim_Match Sim_Endpoint
begin

text \<open>
  The firewall phase of the simulator (\<^verbatim>\<open>src/internal/sim/firewall.go\<close>): enforcement at the source
  guest's outbound chain and at the destination guest's inbound chain, the disclosures it adds, and
  the reference to the rule that blocks a flow.
\<close>

section \<open>Enforcement\<close>

datatype fwState = fwAllow | fwDeny | fwIndeterminate

record fwOutcome =
  fwo_blocking :: "SimRuleRef option"
  fwo_state :: fwState

abbreviation fw_out :: "fwState \<Rightarrow> fwOutcome" where
  "fw_out s \<equiv> \<lparr> fwo_blocking = None, fwo_state = s \<rparr>"

definition gatesDetail :: "EnablementGate list \<Rightarrow> string" where
  "gatesDetail gates = (case gates of [] \<Rightarrow> ''firewall disabled'' | g # _ \<Rightarrow> gate_Message g)"

definition origin_str :: "Origin option \<Rightarrow> string" where
  "origin_str o' = (case o' of None \<Rightarrow> [] | Some x \<Rightarrow> Origin_string x)"

definition describeDecision :: "decision \<Rightarrow> string" where
  "describeDecision dec =
     (if \<not> dec_fromRule dec then
        ''default policy '' @ dec_action dec @ '' (origin '' @ origin_str (dec_origin dec) @ '')''
      else ''rule #'' @ go_Itoa (dec_pos dec) @ '' '' @ dec_action dec @ '' (origin '' @ origin_str (dec_origin dec)
        @ (if dec_groupName dec \<noteq> [] then '' '' @ dec_groupName dec else []) @ '')'')"

definition ruleRef :: "Engine \<Rightarrow> string \<Rightarrow> string \<Rightarrow> Ref \<Rightarrow> decision \<Rightarrow> SimRuleRef" where
  "ruleRef e point dir guest dec =
     (let rulesetRef =
        (case dec_origin dec of
           Some OriginCluster \<Rightarrow> (case fs_Cluster (eng_fw e) of None \<Rightarrow> [] | Some c \<Rightarrow> Ref_String (rs_Ref c))
         | Some OriginGroup \<Rightarrow> (case fs_Cluster (eng_fw e) of None \<Rightarrow> [] | Some c \<Rightarrow> Ref_String (rs_Ref c))
         | Some OriginGuest \<Rightarrow>
             (case map_of (fs_Guests (eng_fw e)) guest of None \<Rightarrow> [] | Some rs \<Rightarrow> Ref_String (rs_Ref rs))
         | _ \<Rightarrow> [])
      in \<lparr> srr_EnforcementPoint = point, srr_RulesetRef = rulesetRef, srr_Origin = origin_str (dec_origin dec),
           srr_GroupName = dec_groupName dec, srr_Direction = dir, srr_Action = dec_action dec,
           srr_Rule = dec_rule dec, srr_Pos = dec_pos dec \<rparr>)"

definition noteDecision :: "string \<Rightarrow> decision \<Rightarrow> Result \<Rightarrow> Result" where
  "noteDecision point dec res =
     (let res = (if dec_origin dec = Some OriginCluster then addCaveat (warnCaveat CodeFwClusterHostGuest
            (''The '' @ point @ '' decision came from a cluster-scope rule applied directly to the guest's chain '' @ em_dash
             @ '' internal/fw's documented simplification of pve-firewall's host/guest chain separation (needs hardware validation).'')) res
          else res)
      in if dec_ifaceSeen dec then addCaveat (warnCaveat CodeSimulated
            ''A rule along this path constrains a network interface (iface=); interface matching is not evaluated, so such rules are treated as interface-agnostic.'') res
         else res)"

definition enforceGuest ::
  "Engine \<Rightarrow> resolvedEP \<Rightarrow> flow \<Rightarrow> string \<Rightarrow> string \<Rightarrow> Result \<Rightarrow> fwOutcome \<times> Result" where
  "enforceGuest e ep fl dir point res =
     (let guest = nic_Guest (the (ep_nic ep));
          hop = (\<lambda>lbl det. mkHop [] ''firewall'' (ep_node ep) lbl det) in
      if \<not> ep_fwEnabled ep then
        (fw_out fwAllow, addHop e (hop (''firewall ('' @ point @ ''): not enforced'')
           (''firewall is disabled on NIC '' @ nic_Key (the (ep_nic ep)) @ '' (firewall=0)'')) res)
      else case Resolve (eng_fw e) guest of
        Inl err \<Rightarrow>
          (fw_out fwIndeterminate, addCaveat (blockerCaveat CodeNotEvaluated
             (''could not resolve firewall for '' @ Ref_String guest @ '': '' @ resolve_error_string err)) res)
      | Inr view \<Rightarrow>
          if \<not> rv_Active view then
            (fw_out fwAllow,
             addCaveat (infoCaveat CodeSimulated (''Firewall not enforced at '' @ point @ '': ''
               @ gatesDetail (rv_Gates view) @ ''. Traffic passes this point unfiltered.''))
             (addHop e (hop (''firewall ('' @ point @ ''): not enforced'') (gatesDetail (rv_Gates view))) res))
          else
            let dec = decideDirection view dir fl (lookupFor e guest);
                res = noteDecision point dec res
            in case dec_kind dec of
                 decisionUnknown \<Rightarrow>
                   let res = addCaveat (blockerCaveat CodeNotEvaluated
                               (''firewall '' @ point @ '' could not be decided: '' @ dec_reason dec)) res;
                       res = (if dec_reason dec \<noteq> [] \<and> dec_unknownIsIP dec then
                                addCaveat (blockerCaveat CodeGuestIPUnknown
                                  (''A firewall rule at '' @ point @ '' restricts by address but an endpoint IP is unknown (the inventory does not carry guest IPs); '' @ FeatureGuestIP)) res
                              else res)
                   in (fw_out fwIndeterminate, res)
               | decisionDeny \<Rightarrow>
                   (\<lparr> fwo_blocking = Some (ruleRef e point dir guest dec), fwo_state = fwDeny \<rparr>,
                    addHop e (hop (''firewall ('' @ point @ ''): '' @ dec_action dec) (describeDecision dec)) res)
               | decisionAllow \<Rightarrow>
                   (fw_out fwAllow,
                    addHop e (hop (''firewall ('' @ point @ ''): ACCEPT'') (describeDecision dec)) res))"

definition noteNodeFirewall :: "Engine \<Rightarrow> resolvedEP \<Rightarrow> Result \<Rightarrow> Result" where
  "noteNodeFirewall e ep res =
     (if ep_kind ep \<noteq> EndpointGuestNic then res
      else case map_of (fs_Nodes (eng_fw e)) (ep_node ep) of
        Some rs \<Rightarrow> if rs_Enabled rs \<and> rs_Rules rs \<noteq> [] then addCaveat (warnCaveat CodeNodeFirewall
            (''Node '' @ ep_node ep @ '' has host-scope firewall rules; guest-to-guest forwarded traffic does not traverse the host INPUT/OUTPUT chains, so those rules are not evaluated for this path.'')) res
          else res
      | None \<Rightarrow> res)"

definition noteVNetFirewall :: "Engine \<Rightarrow> resolvedEP \<Rightarrow> Result \<Rightarrow> Result" where
  "noteVNetFirewall e ep res =
     (case (ep_attach ep, ep_vnet ep) of
        (attachVnet, Some vn) \<Rightarrow>
          (case map_of (fs_VNets (eng_fw e)) (vnet_Ref vn) of
             Some rs \<Rightarrow> if rs_Enabled rs \<and> rs_Rules rs \<noteq> [] then addCaveat (warnCaveat CodeVNetFirewall
                 (''VNet '' @ vnet_ID vn @ '' has enabled forward-chain firewall rules; this simulator does not evaluate them for this path.'')) res
               else res
           | None \<Rightarrow> res)
      | _ \<Rightarrow> res)"

definition flow_of :: "resolvedEP \<Rightarrow> resolvedEP \<Rightarrow> Request \<Rightarrow> flow" where
  "flow_of src dst req =
     \<lparr> fl_srcIP = ep_ip src, fl_dstIP = ep_ip dst, fl_proto = req_Proto req, fl_port = req_Port req,
       fl_portSet = (req_Port req \<noteq> 0), fl_srcKnown = ep_ipKnown src, fl_dstKnown = ep_ipKnown dst \<rparr>"

definition evaluateFirewall ::
  "Engine \<Rightarrow> resolvedEP \<Rightarrow> resolvedEP \<Rightarrow> Request \<Rightarrow> Result \<Rightarrow> fwOutcome \<times> Result" where
  "evaluateFirewall e src dst req res =
     (let fl = flow_of src dst req;
          (o1, res) = (if ep_kind src = EndpointGuestNic then enforceGuest e src fl ''out'' ''source-guest-out'' res
                       else (fw_out fwAllow, res))
      in if fwo_state o1 \<noteq> fwAllow then (o1, res)
         else
           let (o2, res) = (if ep_kind dst = EndpointGuestNic then enforceGuest e dst fl ''in'' ''dest-guest-in'' res
                            else (fw_out fwAllow, res))
           in if fwo_state o2 \<noteq> fwAllow then (o2, res)
              else (fw_out fwAllow,
                    noteVNetFirewall e dst (noteVNetFirewall e src
                      (noteNodeFirewall e dst (noteNodeFirewall e src res)))))"


section \<open>Facts: the firewall is a phase\<close>

lemma noteDecision_keeps: "keeps r res b \<Longrightarrow> keeps r (noteDecision point dec res) b"
  by (auto simp: noteDecision_def Let_def intro!: keeps_intros)

lemma noteNodeFirewall_keeps: "keeps r res b \<Longrightarrow> keeps r (noteNodeFirewall e ep res) b"
  by (auto simp: noteNodeFirewall_def split: option.split intro!: keeps_intros)

lemma noteVNetFirewall_keeps: "keeps r res b \<Longrightarrow> keeps r (noteVNetFirewall e ep res) b"
  by (auto simp: noteVNetFirewall_def split: option.split attachKind.split intro!: keeps_intros)

text \<open>The decision a guest's chain takes, when it takes one: \<open>None\<close> when it is not enforced.\<close>

definition guest_decision :: "Engine \<Rightarrow> resolvedEP \<Rightarrow> flow \<Rightarrow> string \<Rightarrow> decision option" where
  "guest_decision e ep fl dir =
     (let guest = nic_Guest (the (ep_nic ep)) in
      if \<not> ep_fwEnabled ep then None
      else case Resolve (eng_fw e) guest of
        Inl err \<Rightarrow> None
      | Inr view \<Rightarrow> if rv_Active view then Some (decideDirection view dir fl (lookupFor e guest)) else None)"

definition resolvable :: "Engine \<Rightarrow> resolvedEP \<Rightarrow> bool" where
  "resolvable e ep \<longleftrightarrow> (\<exists>view. Resolve (eng_fw e) (nic_Guest (the (ep_nic ep))) = Inr view)"

text \<open>The outcome of an enforcement point, without the bookkeeping.\<close>

lemma enforceGuest_outcome:
  "fst (enforceGuest e ep fl dir point res) =
     (if ep_fwEnabled ep \<and> \<not> resolvable e ep then fw_out fwIndeterminate
      else case guest_decision e ep fl dir of
        None \<Rightarrow> fw_out fwAllow
      | Some dec \<Rightarrow>
          (case dec_kind dec of
             decisionAllow \<Rightarrow> fw_out fwAllow
           | decisionDeny \<Rightarrow> \<lparr> fwo_blocking = Some (ruleRef e point dir (nic_Guest (the (ep_nic ep))) dec), fwo_state = fwDeny \<rparr>
           | decisionUnknown \<Rightarrow> fw_out fwIndeterminate))"
  by (auto simp: enforceGuest_def guest_decision_def resolvable_def Let_def split: sum.split decisionKind.split)

lemma enforceGuest_keeps:
  assumes "enforceGuest e ep fl dir point res = (out, res')"
  shows "keeps res res' (fwo_state out = fwIndeterminate)"
proof -
  have blk: "blocking_code c \<and> \<not> q_text m \<Longrightarrow> keeps res (addCaveat (blockerCaveat c m) (noteDecision point dec res)) True" for c m dec
    by (rule keeps_block [OF noteDecision_keeps [OF keeps_refl]])
  then have blk2: "blocking_code c \<and> \<not> q_text m \<Longrightarrow> blocking_code c' \<and> \<not> q_text m' \<Longrightarrow>
      keeps res (addCaveat (blockerCaveat c' m') (addCaveat (blockerCaveat c m) (noteDecision point dec res))) True" for c m c' m' dec
    by (blast intro: keeps_block)
  show ?thesis using assms
    by (auto simp: enforceGuest_def Let_def intro!: keeps_intros blk blk2 intro: noteDecision_keeps
        split: if_splits sum.splits decisionKind.splits)
qed

lemma evaluateFirewall_keeps:
  assumes "evaluateFirewall e src dst req res = (out, res')"
  shows "keeps res res' (fwo_state out = fwIndeterminate)"
proof -
  define fl where "fl = flow_of src dst req"
  define p1 where "p1 = (if ep_kind src = EndpointGuestNic then enforceGuest e src fl ''out'' ''source-guest-out'' res
                       else (fw_out fwAllow, res))"
  define p2 where "p2 = (if ep_kind dst = EndpointGuestNic then enforceGuest e dst fl ''in'' ''dest-guest-in'' (snd p1)
                       else (fw_out fwAllow, snd p1))"
  have 1: "keeps res (snd p1) (fwo_state (fst p1) = fwIndeterminate)"
    using enforceGuest_keeps [of e src fl "''out''" "''source-guest-out''" res "fst p1" "snd p1"]
    by (cases "ep_kind src = EndpointGuestNic") (simp_all add: p1_def)
  have 2: "keeps (snd p1) (snd p2) (fwo_state (fst p2) = fwIndeterminate)"
    using enforceGuest_keeps [of e dst fl "''in''" "''dest-guest-in''" "snd p1" "fst p2" "snd p2"]
    by (cases "ep_kind dst = EndpointGuestNic") (simp_all add: p2_def)
  have "(out, res') = (if fwo_state (fst p1) \<noteq> fwAllow then p1
      else if fwo_state (fst p2) \<noteq> fwAllow then p2
      else (fw_out fwAllow, noteVNetFirewall e dst (noteVNetFirewall e src
                      (noteNodeFirewall e dst (noteNodeFirewall e src (snd p2))))))"
    using assms
    by (cases p1; cases p2)
       (auto simp: evaluateFirewall_def Let_def p1_def [symmetric] fl_def [symmetric] p2_def split: if_splits)
  then show ?thesis
    using 1 keeps_trans [OF 1 2]
    by (auto intro!: noteVNetFirewall_keeps noteNodeFirewall_keeps split: if_splits)
qed

interpretation firewall_phase: phase
  "\<lambda>(e, src, dst, req) res. Some (evaluateFirewall e src dst req res)" "\<lambda>out. fwo_state out = fwIndeterminate"
  by unfold_locales (auto dest: evaluateFirewall_keeps)


section \<open>Facts: what an outcome means\<close>

text \<open>An endpoint lets the flow through: not a guest, not enforced, or its chain accepts.\<close>

definition passes :: "Engine \<Rightarrow> resolvedEP \<Rightarrow> flow \<Rightarrow> string \<Rightarrow> bool" where
  "passes e ep fl dir \<longleftrightarrow> ep_kind ep = EndpointGuestNic \<longrightarrow>
     (ep_fwEnabled ep \<longrightarrow> resolvable e ep)
     \<and> (\<forall>dec. guest_decision e ep fl dir = Some dec \<longrightarrow> dec_kind dec = decisionAllow)"

text \<open>The two enforcement points of a path, with the endpoint each belongs to.\<close>

definition points :: "resolvedEP \<Rightarrow> resolvedEP \<Rightarrow> (resolvedEP \<times> string \<times> string) list" where
  "points src dst = filter (\<lambda>(ep, _). ep_kind ep = EndpointGuestNic)
     [(src, ''out'', ''source-guest-out''), (dst, ''in'', ''dest-guest-in'')]"

lemma evaluateFirewall_outcome:
  "fst (evaluateFirewall e src dst req res) =
     (let fl = flow_of src dst req;
          o1 = (if ep_kind src = EndpointGuestNic
                then fst (enforceGuest e src fl ''out'' ''source-guest-out'' res) else fw_out fwAllow);
          o2 = (if ep_kind dst = EndpointGuestNic
                then fst (enforceGuest e dst fl ''in'' ''dest-guest-in'' res) else fw_out fwAllow)
      in if fwo_state o1 \<noteq> fwAllow then o1 else if fwo_state o2 \<noteq> fwAllow then o2 else fw_out fwAllow)"
proof -
  have "fst (enforceGuest e dst fl d p r) = fst (enforceGuest e dst fl d p r')" for fl d p r r'
    by (simp add: enforceGuest_outcome)
  then show ?thesis
    by (auto simp: evaluateFirewall_def Let_def split: prod.splits if_splits) (metis fst_conv)+
qed

lemma actionKind_deny: "actionKind a = decisionDeny \<longleftrightarrow> a = ''DROP'' \<or> a = ''REJECT''"
  by (simp add: actionKind_def)

lemma Resolve_pos_index:
  assumes "Resolve snap g = Inr view" and "rr \<in> set (rv_Rules view)"
  shows "0 \<le> rr_Pos rr \<and> nat (rr_Pos rr) < length (rv_Rules view) \<and> rv_Rules view ! nat (rr_Pos rr) = rr"
proof -
  have n: "map rr_Pos (rv_Rules view) = map int [0..<length (rv_Rules view)]"
    using Resolve_rules [OF assms(1)] by (auto simp: numbered_def dest: map_eq_imp_length_eq)
  from assms(2) obtain i where i: "i < length (rv_Rules view)" "rv_Rules view ! i = rr"
    by (auto simp: in_set_conv_nth)
  with arg_cong [OF n, of "\<lambda>l. l ! i"] have "rr_Pos rr = int i" by simp
  with i show ?thesis by simp
qed

text \<open>What a blocking reference must say about the chain it points into.\<close>

definition blocks :: "FwSnapshot \<Rightarrow> fwLookup \<Rightarrow> Ref \<Rightarrow> flow \<Rightarrow> SimRuleRef \<Rightarrow> bool" where
  "blocks snap lk guest fl b \<longleftrightarrow>
     (\<exists>view. Resolve snap guest = Inr view \<and> rv_Active view \<and> srr_Action b \<in> {''DROP'', ''REJECT''}
        \<and> ((0 \<le> srr_Pos b \<and> nat (srr_Pos b) < length (rv_Rules view)
            \<and> srr_Rule b = rr_Rule (rv_Rules view ! nat (srr_Pos b))
            \<and> srr_Action b = rule_Action (srr_Rule b)
            \<and> srr_Origin b = Origin_string (rr_Origin (rv_Rules view ! nat (srr_Pos b)))
            \<and> applies (srr_Direction b) (rv_Rules view ! nat (srr_Pos b))
            \<and> mr_state (matchRule (srr_Rule b) fl lk) = matchYes)
          \<or> srr_Rule b = zero_FwRule \<and> srr_Action b =
              dp_Policy (if srr_Direction b = ''out'' then rv_DefaultOut view else rv_DefaultIn view)))"

lemma decide_not_fromRule:
  "dec_kind (decideDirection view dir fl lk) = decisionDeny \<Longrightarrow> \<not> dec_fromRule (decideDirection view dir fl lk) \<Longrightarrow>
   dec_rule (decideDirection view dir fl lk) = zero_FwRule \<and> dec_action (decideDirection view dir fl lk) =
     dp_Policy (if dir = ''out'' then rv_DefaultOut view else rv_DefaultIn view)"
proof -
  have "dec_kind (decide_loop view dir fl lk b rrs) = decisionDeny \<Longrightarrow> \<not> dec_fromRule (decide_loop view dir fl lk b rrs) \<Longrightarrow>
     dec_rule (decide_loop view dir fl lk b rrs) = zero_FwRule \<and> dec_action (decide_loop view dir fl lk b rrs) =
       dp_Policy (if dir = ''out'' then rv_DefaultOut view else rv_DefaultIn view)" for b rrs
    by (induction rrs arbitrary: b) (auto simp: Let_def zero_decision_def split: matchState.splits if_splits)
  then show "dec_kind (decideDirection view dir fl lk) = decisionDeny \<Longrightarrow> \<not> dec_fromRule (decideDirection view dir fl lk) \<Longrightarrow> ?thesis"
    by (simp add: decideDirection_def)
qed

lemma enforceGuest_blocks:
  assumes "fwo_state (fst (enforceGuest e ep fl dir point res)) = fwDeny"
  shows "\<exists>b. fwo_blocking (fst (enforceGuest e ep fl dir point res)) = Some b
     \<and> srr_EnforcementPoint b = point \<and> srr_Direction b = dir
     \<and> blocks (eng_fw e) (lookupFor e (nic_Guest (the (ep_nic ep)))) (nic_Guest (the (ep_nic ep))) fl b"
proof -
  define guest where "guest = nic_Guest (the (ep_nic ep))"
  define lk where "lk = lookupFor e guest"
  from assms obtain view where v: "Resolve (eng_fw e) guest = Inr view" "rv_Active view"
    and k: "dec_kind (decideDirection view dir fl lk) = decisionDeny"
    and o: "fst (enforceGuest e ep fl dir point res) =
       \<lparr> fwo_blocking = Some (ruleRef e point dir guest (decideDirection view dir fl lk)), fwo_state = fwDeny \<rparr>"
    by (auto simp: enforceGuest_outcome guest_decision_def resolvable_def guest_def lk_def Let_def
        split: if_splits option.splits sum.splits decisionKind.splits)
  define d where "d = decideDirection view dir fl lk"
  have act: "dec_action d \<in> {''DROP'', ''REJECT''}"
    using decideDirection_kind [of view dir fl lk] k actionKind_deny [of "dec_action d"]
    by (simp add: d_def)
  have "blocks (eng_fw e) lk guest fl (ruleRef e point dir guest d)"
  proof (cases "dec_fromRule d")
    case True
    then obtain rr where rr: "rr \<in> set (rv_Rules view)" "dec_rule d = rr_Rule rr" "dec_pos d = rr_Pos rr"
      "dec_origin d = Some (rr_Origin rr)" "dec_action d = rule_Action (rr_Rule rr)"
      "applies dir rr" "mr_state (matchRule (rr_Rule rr) fl lk) = matchYes"
      using decideDirection_fromRule [of view dir fl lk] by (auto simp: d_def)
    with Resolve_pos_index [OF v(1) rr(1)] v act show ?thesis
      by (auto simp: blocks_def ruleRef_def Let_def origin_str_def)
  next
    case False
    with decide_not_fromRule [of view dir fl lk] k v act show ?thesis
      by (auto simp: blocks_def ruleRef_def Let_def d_def)
  qed
  with o show ?thesis by (simp add: ruleRef_def Let_def guest_def lk_def d_def)
qed

text \<open>
  C17. A deny names its cause. When the firewall phase denies a flow it returns a blocking reference
  whose enforcement point is one of the path's guests; the action is DROP or REJECT, and either the
  reference's position in that guest's resolved view holds exactly the referenced rule, of the right
  direction, enabled and matching the flow, or no rule decided and the action is the default policy.
\<close>

theorem evaluateFirewall_deny_blocking:
  assumes "fwo_state (fst (evaluateFirewall e src dst req res)) = fwDeny"
  shows "\<exists>b ep dir point. fwo_blocking (fst (evaluateFirewall e src dst req res)) = Some b
     \<and> (ep, dir, point) \<in> set (points src dst) \<and> srr_EnforcementPoint b = point \<and> srr_Direction b = dir
     \<and> blocks (eng_fw e) (lookupFor e (nic_Guest (the (ep_nic ep)))) (nic_Guest (the (ep_nic ep)))
         (flow_of src dst req) b"
proof (cases "ep_kind src = EndpointGuestNic \<and>
    fwo_state (fst (enforceGuest e src (flow_of src dst req) ''out'' ''source-guest-out'' res)) = fwDeny")
  case True
  with enforceGuest_blocks [of e src "flow_of src dst req" "''out''" "''source-guest-out''" res]
  show ?thesis by (auto simp: evaluateFirewall_outcome points_def Let_def)
next
  case False
  with assms have "ep_kind dst = EndpointGuestNic"
    "fwo_state (fst (enforceGuest e dst (flow_of src dst req) ''in'' ''dest-guest-in'' res)) = fwDeny"
    "fst (evaluateFirewall e src dst req res) =
       fst (enforceGuest e dst (flow_of src dst req) ''in'' ''dest-guest-in'' res)"
    by (auto simp: evaluateFirewall_outcome Let_def split: if_splits)
  with enforceGuest_blocks [of e dst "flow_of src dst req" "''in''" "''dest-guest-in''" res]
  show ?thesis by (auto simp: points_def)
qed

text \<open>
  A small cluster for the examples: two guests on bridges \<open>vmbr0\<close> of two nodes, the inbound chain
  of the second dropping telnet.
\<close>

definition ex_nic :: "string \<Rightarrow> string \<Rightarrow> GuestNic" where
  "ex_nic node vm = zero_GuestNic\<lparr> nic_Ref := mkRef KindGuestNic node (vm @ ''/net0''), nic_Guest := mkRef KindGuest node vm,
     nic_Key := ''net0'', nic_TargetName := ''vmbr0'', nic_BridgeOrVnet := mkRef KindBridge node ''vmbr0'', nic_Firewall := True \<rparr>"

definition ex_bridge :: "string \<Rightarrow> Bridge" where
  "ex_bridge node = zero_Bridge\<lparr> br_Ref := mkRef KindBridge node ''vmbr0'', br_Name := ''vmbr0'' \<rparr>"

definition ex_ruleset :: "string \<Rightarrow> string \<Rightarrow> FwRuleset" where
  "ex_ruleset node vm = zero_FwRuleset\<lparr> rs_Ref := mkRef KindFwRuleset node (''guest/qemu/'' @ vm), rs_Scope := FwScopeGuest,
     rs_Enabled := True, rs_Rules := [zero_FwRule\<lparr> rule_Direction := ''in'', rule_Action := ''DROP'', rule_Macro := ''Telnet'', rule_Enabled := True \<rparr>,
       zero_FwRule\<lparr> rule_Direction := ''in'', rule_Action := ''ACCEPT'', rule_Proto := ''tcp'', rule_Pos := 1, rule_Enabled := True \<rparr>] \<rparr>"

definition ex_input :: Input where
  "ex_input = \<lparr> in_Inventory = \<lparr> inv_entities = map (\<lambda>x. (GetRef x, x))
       [EGuestNic (ex_nic ''pve1'' ''101''), EGuestNic (ex_nic ''pve2'' ''102''), EBridge (ex_bridge ''pve1''), EBridge (ex_bridge ''pve2''),
        EFwRuleset (ex_ruleset ''pve1'' ''101''), EFwRuleset (ex_ruleset ''pve2'' ''102'')], inv_edges = [] \<rparr>,
     in_GuestIPs = Map.empty, in_ShapedRefs = [] \<rparr>"

definition ex_req :: "int \<Rightarrow> Request" where
  "ex_req port = \<lparr> req_Src = \<lparr> ept_Kind = EndpointGuestNic, ept_NicRef = mkRef KindGuestNic ''pve1'' ''101/net0'', ept_IP = [] \<rparr>,
     req_Dst = \<lparr> ept_Kind = EndpointGuestNic, ept_NicRef = mkRef KindGuestNic ''pve2'' ''102/net0'', ept_IP = [] \<rparr>,
     req_Family = FamilyEmpty, req_Proto = ''tcp'', req_Port = port \<rparr>"

definition ex_ep :: "(Request \<Rightarrow> Endpoint) \<Rightarrow> resolvedEP" where
  "ex_ep sel = fst (resolveEndpoint (NewEngine ex_input) (sel (ex_req 23)) FamilyV4 zero_Result)"

theorem evaluateFirewall_deny_blocking_witness:
  "\<exists>b. fwo_blocking (fst (evaluateFirewall (NewEngine ex_input) (ex_ep req_Src) (ex_ep req_Dst) (ex_req 23) zero_Result)) = Some b
     \<and> srr_Action b \<in> {''DROP'', ''REJECT''}"
proof -
  have "fwo_state (fst (evaluateFirewall (NewEngine ex_input) (ex_ep req_Src) (ex_ep req_Dst) (ex_req 23) zero_Result)) = fwDeny"
    by code_simp
  from evaluateFirewall_deny_blocking [OF this] show ?thesis unfolding blocks_def by blast
qed


section \<open>Facts: the exported evaluator agrees with the simulator\<close>

definition visible_aliases :: "FwSnapshot \<Rightarrow> Ref \<Rightarrow> FwAlias list" where
  "visible_aliases snap guest =
     (case fs_Cluster snap of None \<Rightarrow> [] | Some c \<Rightarrow> rs_Aliases c)
     @ (case map_of (fs_Guests snap) guest of None \<Rightarrow> [] | Some g \<Rightarrow> rs_Aliases g)"

definition visible_ipsets :: "FwSnapshot \<Rightarrow> Ref \<Rightarrow> FwIPSet list" where
  "visible_ipsets snap guest =
     (case fs_Cluster snap of None \<Rightarrow> [] | Some c \<Rightarrow> rs_IPSets c)
     @ (case map_of (fs_Guests snap) guest of None \<Rightarrow> [] | Some g \<Rightarrow> rs_IPSets g)"

lemma lookup_add_append:
  "lookup_add (lookup_add lk as ss) bs ts = lookup_add lk (as @ bs) (ss @ ts)"
  by (simp add: lookup_add_def)

lemma lookup_add_Nil [simp]: "lookup_add lk [] [] = lk"
  by (simp add: lookup_add_def)

lemma lookupFor_visible:
  "lookupFor e guest = lookup_add empty_lookup (visible_aliases (eng_fw e) guest) (visible_ipsets (eng_fw e) guest)"
  by (auto simp: lookupFor_def visible_aliases_def visible_ipsets_def lookup_add_append Let_def split: option.split)

text \<open>
  One firewall evaluator. For an enforced guest, the exported dry-run evaluator, given the guest's
  resolved view, the aliases and IP sets visible to it and a flow with the same addresses, protocol
  and port, answers allow, deny or indeterminate exactly as the simulator's enforcement point does.
\<close>

lemma EvaluateFirewall_agrees:
  assumes "Resolve (eng_fw e) (nic_Guest (the (ep_nic ep))) = Inr view"
    and "rv_Active view" and "ep_fwEnabled ep"
    and "fwf_SrcIP ff = fl_srcIP fl" "fwf_DstIP ff = fl_dstIP fl" "fwf_Proto ff = fl_proto fl"
    and "fwf_Port ff = fl_port fl" "fwf_PortSet ff = fl_portSet fl"
    and "fwf_SrcKnown ff = fl_srcKnown fl" "fwf_DstKnown ff = fl_dstKnown fl"
  shows "fe_Verdict (EvaluateFirewall view dir ff
           (visible_aliases (eng_fw e) (nic_Guest (the (ep_nic ep))))
           (visible_ipsets (eng_fw e) (nic_Guest (the (ep_nic ep))))) =
         (case fwo_state (fst (enforceGuest e ep fl dir point res)) of
            fwAllow \<Rightarrow> FwAllowVerdict | fwDeny \<Rightarrow> FwDenyVerdict | fwIndeterminate \<Rightarrow> FwIndeterminateVerdict)"
  using assms
  by (cases fl) (simp add: EvaluateFirewall_def enforceGuest_outcome guest_decision_def resolvable_def
      lookupFor_visible Let_def split: decisionKind.split)

end
