(* ===== verification/Sim_Path.thy ===== *)
theory Sim_Path
  imports Sim_Endpoint "HOL-Library.Monad_Syntax"
begin

text \<open>
  The reachability phase of the simulator: L2 adjacency, trunk checks and the LLDP cross-check
  (\<^verbatim>\<open>src/internal/sim/l2.go\<close>), SDN routing and the external boundary (\<^verbatim>\<open>l3.go\<close>).

  \<open>lldpCheckFromPort\<close> recurses along enslaved-by edges without a visited set. It takes fuel, and so
  does everything that calls it; \<open>None\<close> means the fuel ran out. The last section shows that on an
  inventory whose enslaved-by edges are acyclic the number of edges plus one is enough fuel, and
  that on a bond enslaved to itself no fuel is.
\<close>

section \<open>Outcomes\<close>

datatype pathState = pathReachable | pathUnreachable | pathIndeterminate

record reachResult =
  rch_missing :: "Missing option"
  rch_state :: pathState

definition reachable :: reachResult where
  "reachable = \<lparr> rch_missing = None, rch_state = pathReachable \<rparr>"

definition indeterminate :: reachResult where
  "indeterminate = \<lparr> rch_missing = None, rch_state = pathIndeterminate \<rparr>"

definition unreachable :: "string \<Rightarrow> string \<Rightarrow> string \<Rightarrow> string \<Rightarrow> reachResult" where
  "unreachable code msg atRef atNode =
     \<lparr> rch_missing = Some \<lparr> mis_Code = code, mis_Message = msg, mis_AtRef = atRef, mis_AtNode = atNode \<rparr>,
       rch_state = pathUnreachable \<rparr>"

type_synonym reach_run = "(reachResult \<times> Result) option"


section \<open>Trunk checks\<close>

definition vidPermitted :: "Bridge \<Rightarrow> int \<Rightarrow> bool" where
  "vidPermitted br vid \<longleftrightarrow>
     (br_Vids br = [] \<or> (\<exists>r \<in> set (br_Vids br). vid \<ge> vid_Low r \<and> vid \<le> vid_High r))"

fun uplinkName_loop :: "string \<Rightarrow> Ref list \<Rightarrow> string" where
  "uplinkName_loop physFallback [] = (if physFallback \<noteq> [] then physFallback else ''the uplink'')"
| "uplinkName_loop physFallback (p # ps) =
     (if ref_Kind p = KindBond \<or> ref_Kind p = KindOVSBond then ref_ID p
      else if ref_Kind p = KindPhysNic \<and> physFallback = [] then uplinkName_loop (ref_ID p) ps
      else uplinkName_loop physFallback ps)"

definition uplinkName :: "Bridge \<Rightarrow> string" where
  "uplinkName br = uplinkName_loop [] (br_Ports br)"

text \<open>The physical-NIC branch: the first adjacency with VLAN information settles the check.\<close>

fun lldpNeighbours :: "Engine \<Rightarrow> Ref \<Rightarrow> Bridge \<Rightarrow> int \<Rightarrow> Edge list \<Rightarrow> Result \<Rightarrow> Result" where
  "lldpNeighbours e port br vid [] res = res"
| "lldpNeighbours e port br vid (edge # es) res =
     (if edge_Kind edge \<noteq> EdgeLldpAdjacent \<or> edge_From edge \<noteq> port then lldpNeighbours e port br vid es res
      else case Snapshot_Get (eng_inv e) (edge_To edge) of
        Some (ELldpNeighbor nb) \<Rightarrow>
          if lldp_VLAN nb = 0 \<and> lldp_TaggedVLANs nb = [] then lldpNeighbours e port br vid es res
          else if lldp_VLAN nb = vid \<or> vid \<in> set (lldp_TaggedVLANs nb) then res
          else addCaveat (warnCaveat CodeLLDPTrunkMismatch
            (''Bridge '' @ br_Name br @ '' permits VLAN '' @ go_Itoa vid @ '', but switch port '' @ lldp_PortID nb
             @ '' (LLDP) does not advertise it as trunked; verify the physical switch carries VLAN '' @ go_Itoa vid @ ''.'')) res
      | _ \<Rightarrow> lldpNeighbours e port br vid es res)"

primrec lldpCheckFromPort :: "nat \<Rightarrow> Engine \<Rightarrow> Ref \<Rightarrow> Bridge \<Rightarrow> int \<Rightarrow> Result \<Rightarrow> Result option" where
  "lldpCheckFromPort 0 e port br vid res = None"
| "lldpCheckFromPort (Suc fuel) e port br vid res =
     (if ref_Kind port = KindPhysNic then Some (lldpNeighbours e port br vid (EdgesOf (eng_inv e) port) res)
      else if ref_Kind port = KindBond \<or> ref_Kind port = KindOVSBond then
        foldM_opt (\<lambda>edge r. if edge_Kind edge = EdgeEnslavedBy \<and> edge_To edge = port
                            then lldpCheckFromPort fuel e (edge_From edge) br vid r else Some r)
          (EdgesOf (eng_inv e) port) res
      else Some res)"

definition lldpTrunkCrossCheck :: "nat \<Rightarrow> Engine \<Rightarrow> Bridge \<Rightarrow> int \<Rightarrow> Result \<Rightarrow> Result option" where
  "lldpTrunkCrossCheck fuel e br vid res =
     foldM_opt (\<lambda>edge r. if edge_Kind edge \<noteq> EdgePortOf \<or> edge_To edge \<noteq> br_Ref br then Some r
                         else lldpCheckFromPort fuel e (edge_From edge) br vid r)
       (EdgesOf (eng_inv e) (br_Ref br)) res"

definition bridgeByName :: "Engine \<Rightarrow> string \<Rightarrow> string \<Rightarrow> Bridge option" where
  "bridgeByName e node name =
     (case eng_bridgeByNodeName e node of None \<Rightarrow> None | Some m \<Rightarrow> m name)"

definition trunkCheck :: "nat \<Rightarrow> Engine \<Rightarrow> string \<Rightarrow> string \<Rightarrow> int \<Rightarrow> Result \<Rightarrow> reach_run" where
  "trunkCheck fuel e node bridgeName vid res =
     (case bridgeByName e node bridgeName of
        None \<Rightarrow> Some (unreachable ''bridge_absent''
          (''bridge '' @ bridgeName @ '' is not present on node '' @ node) [] node, res)
      | Some br \<Rightarrow>
          if vid = 0 then Some (reachable, res)
          else if \<not> br_VlanAware br then
            Some (unreachable ''bridge_not_vlan_aware''
              (''bridge '' @ bridgeName @ '' on node '' @ node @ '' is not VLAN-aware, so VLAN '' @ go_Itoa vid
               @ '' traffic is not carried'') (Ref_String (br_Ref br)) node, res)
          else if \<not> vidPermitted br vid then
            Some (unreachable ''vlan_not_trunked''
              (''VLAN '' @ go_Itoa vid @ '' is not trunked on '' @ uplinkName br @ '' of node '' @ node)
              (Ref_String (br_Ref br)) node, res)
          else do {
            res \<leftarrow> lldpTrunkCrossCheck fuel e br vid res;
            Some (reachable, res)
          })"


section \<open>L2\<close>

definition l2DomainKey :: "resolvedEP \<Rightarrow> string \<times> bool" where
  "l2DomainKey ep =
     (case ep_attach ep of
        attachVnet \<Rightarrow> (''vnet/'' @ vnet_ID (the (ep_vnet ep)) @ ''/vid='' @ go_Itoa (ep_vid ep), True)
      | attachBridge \<Rightarrow> (''bridge/'' @ br_Name (the (ep_bridge ep)) @ ''/vid='' @ go_Itoa (ep_vid ep), True)
      | attachNone \<Rightarrow> ([], False))"

definition nicTarget :: "resolvedEP \<Rightarrow> string" where
  "nicTarget ep = (case ep_nic ep of None \<Rightarrow> [] | Some nic \<Rightarrow> nic_TargetName nic)"

definition indeterminateVnet :: "string \<Rightarrow> Result \<Rightarrow> reachResult \<times> Result" where
  "indeterminateVnet vnetID res =
     (indeterminate, addCaveat (notEvaluated (''SDN zone for VNet '' @ vnetID)
        ''the VNet's zone was not found in inventory, so cross-node realization cannot be checked'') res)"

definition notRealized :: "string \<Rightarrow> string \<Rightarrow> string \<Rightarrow> reachResult" where
  "notRealized vnetID zoneID node = unreachable ''vnet_not_realized''
     (''VNet '' @ vnetID @ '' (zone '' @ zoneID @ '') is not realized on node '' @ node) [] node"

text \<open>Both realizing bridges must carry the VLAN; the fabric hop follows.\<close>

definition trunkBoth ::
  "nat \<Rightarrow> Engine \<Rightarrow> string \<Rightarrow> string \<Rightarrow> int \<Rightarrow> string \<Rightarrow> int \<Rightarrow> int \<Rightarrow> Result \<Rightarrow> reach_run" where
  "trunkBoth fuel e name srcNode srcVid dstNode dstVid hopVid res = do {
     (r, res) \<leftarrow> trunkCheck fuel e srcNode name srcVid res;
     if rch_state r \<noteq> pathReachable then Some (r, res)
     else do {
       (r, res) \<leftarrow> trunkCheck fuel e dstNode name dstVid res;
       if rch_state r \<noteq> pathReachable then Some (r, res)
       else Some (reachable, addHop e (fabricHop name hopVid srcNode dstNode) res)
     }
   }"

definition crossNodeVnet :: "nat \<Rightarrow> Engine \<Rightarrow> resolvedEP \<Rightarrow> resolvedEP \<Rightarrow> Result \<Rightarrow> reach_run" where
  "crossNodeVnet fuel e src dst res =
     (case ep_zone src of
        None \<Rightarrow> Some (indeterminateVnet (vnet_ID (the (ep_vnet src))) res)
      | Some zone \<Rightarrow>
          if zone_Type zone = ''vxlan'' \<or> zone_Type zone = ''evpn'' then
            (if ep_node src \<notin> set (zone_Nodes zone)
             then Some (notRealized (vnet_ID (the (ep_vnet src))) (zone_ID zone) (ep_node src), res)
             else if ep_node dst \<notin> set (zone_Nodes zone)
             then Some (notRealized (vnet_ID (the (ep_vnet dst))) (zone_ID zone) (ep_node dst), res)
             else Some (reachable, addHop e (mkHop [] ''overlay'' [] (''VXLAN/EVPN overlay (zone '' @ zone_ID zone @ '')'')
                          ''encapsulated over the underlay VTEP mesh'') res))
          else if zone_Type zone = ''simple'' then
            Some (unreachable ''simple_zone_node_local''
              (''VNet '' @ vnet_ID (the (ep_vnet src)) @ '' is in simple zone '' @ zone_ID zone
               @ '', which is node-local: there is no inter-node L2 path (source on '' @ ep_node src
               @ '', destination on '' @ ep_node dst @ '')'') (re_Attachment (ep_public src)) [], res)
          else if zone_Type zone = ''vlan'' \<or> zone_Type zone = ''qinq'' then
            trunkBoth fuel e (zone_Bridge zone) (ep_node src) (ep_vid src) (ep_node dst) (ep_vid src) (ep_vid src)
              (if zone_Type zone = ''qinq'' then addCaveat (warnCaveat CodeNotEvaluated
                 ''QinQ inner-tag (customer VLAN) isolation is not evaluated; only the service VLAN's trunking is checked.'') res
               else res)
          else Some (indeterminate, addCaveat (notEvaluated FeatureUnknownEntityKind
                 (''SDN zone type '' @ go_Quote (zone_Type zone) @ '' is not modeled by the simulator'')) res))"

definition crossNodeBridge :: "nat \<Rightarrow> Engine \<Rightarrow> resolvedEP \<Rightarrow> resolvedEP \<Rightarrow> Result \<Rightarrow> reach_run" where
  "crossNodeBridge fuel e src dst res =
     trunkBoth fuel e (br_Name (the (ep_bridge src))) (ep_node src) (ep_vid src) (ep_node dst) (ep_vid dst) (ep_vid src) res"

definition l2Path ::
  "nat \<Rightarrow> Engine \<Rightarrow> resolvedEP \<Rightarrow> resolvedEP \<Rightarrow> Result \<Rightarrow> ((reachResult \<times> bool) \<times> Result) option" where
  "l2Path fuel e src dst res =
     (let (sk, sok) = l2DomainKey src; (dk, dok) = l2DomainKey dst in
      if \<not> sok \<or> \<not> dok \<or> sk \<noteq> dk then Some ((reachable, False), res)
      else
        let res = addHop e (hopForAttachment src) (addHop e (hopForEndpoint src) res);
            sameNode = (ep_node src = ep_node dst \<or> ep_kind src = EndpointIP \<or> ep_kind dst = EndpointIP);
            finish = (\<lambda>res. addHop e (hopForEndpoint dst) (addHop e (hopForAttachment dst) res))
        in if sameNode then Some ((reachable, True), finish res)
           else do {
             (r, res) \<leftarrow> (if ep_attach src = attachVnet then crossNodeVnet fuel e src dst res
                          else crossNodeBridge fuel e src dst res);
             if rch_state r \<noteq> pathReachable then Some ((r, True), res)
             else Some ((reachable, True), finish res)
           })"


section \<open>L3\<close>

definition firstExitNode :: "SdnZone option \<Rightarrow> string" where
  "firstExitNode zone =
     (case zone of None \<Rightarrow> [] | Some z \<Rightarrow> (case zone_ExitNodes z of [] \<Rightarrow> [] | x # _ \<Rightarrow> x))"

definition snatCaveat :: "string \<Rightarrow> Caveat" where
  "snatCaveat cidr = warnCaveat CodeSNATAsymmetry
     (''Egress from subnet '' @ cidr @ '' is SNAT'd; return traffic is conntrack-dependent, so a forward allow does not by itself prove replies are deliverable.'')"

definition l3Path :: "Engine \<Rightarrow> resolvedEP \<Rightarrow> resolvedEP \<Rightarrow> Result \<Rightarrow> reachResult \<times> Result" where
  "l3Path e src dst res =
     (let res = addHop e (hopForAttachment src) (addHop e (hopForEndpoint src) res);
          finish = (\<lambda>res. addHop e (hopForEndpoint dst) (addHop e (hopForAttachment dst) res))
      in case (ep_subnet src, ep_subnet dst) of
           (Some ss, Some ds) \<Rightarrow>
             if sub_ID ss = sub_ID ds then (reachable, finish res)
             else (case (ep_zone src, ep_zone dst) of
               (Some sz, Some dz) \<Rightarrow>
                 if zone_ID sz = zone_ID dz then
                   (if zone_Type sz = ''evpn'' then
                      (reachable, finish (addHop e (mkHop [] ''router'' (firstExitNode (Some sz))
                         (''EVPN VRF routing (zone '' @ zone_ID sz @ '')'')
                         ''inter-VNet routing via the zone's anycast gateways / VRF'') res))
                    else (unreachable ''no_intrazone_route''
                      (''no route between subnets '' @ sub_ID ss @ '' and '' @ sub_ID ds @ '': '' @ zone_Type sz @ '' zone ''
                       @ zone_ID sz @ '' does not route between VNets (only EVPN zones provide inter-VNet routing)'') [] [], res))
                 else (unreachable ''no_route_between_zones''
                   (''no route between subnets '' @ sub_ID ss @ '' and '' @ sub_ID ds @ '' '' @ em_dash
                    @ '' different zones without exit node'') [] [], res)
             | _ \<Rightarrow> (unreachable ''no_route_between_zones''
                   (''no route between subnets '' @ sub_ID ss @ '' and '' @ sub_ID ds @ '' '' @ em_dash
                    @ '' different zones without exit node'') [] [], res))
         | _ \<Rightarrow> (indeterminate, addCaveat (notEvaluated FeatureExternalRouting
               ''L3 routing between these endpoints depends on host/upstream routing tables not carried in the inventory snapshot'') res))"

definition egressBoundary :: "Engine \<Rightarrow> resolvedEP \<Rightarrow> bool \<Rightarrow> Result \<Rightarrow> reachResult \<times> Result" where
  "egressBoundary e f ingress res =
     (let res = (if ingress then addCaveat (warnCaveat CodeConntrack
            ''Inbound connections from external require a published service / port-forward (DNAT), which is not modeled; this reflects routing reachability only.'') res
          else res)
      in case ep_attach f of
           attachVnet \<Rightarrow>
             (let snat = (case ep_subnet f of None \<Rightarrow> False | Some s \<Rightarrow> sub_SNAT s);
                  hasExit = (case ep_zone f of None \<Rightarrow> False | Some z \<Rightarrow> zone_ExitNodes z \<noteq> [])
              in if hasExit then
                   (let exit = firstExitNode (ep_zone f);
                        res = addHop e (mkHop [] ''exit-node'' exit
                                (''exit node '' @ exit @ '' (zone '' @ zone_ID (the (ep_zone f)) @ '')'')
                                ''routes the SDN fabric to the physical network'') res
                    in (reachable, if snat \<and> \<not> ingress then addCaveat (snatCaveat (sub_ID (the (ep_subnet f)))) res else res))
                 else if snat then
                   (let res = addHop e (mkHop [] ''snat'' (ep_node f)
                                (''SNAT egress (subnet '' @ sub_ID (the (ep_subnet f)) @ '')'')
                                ''source-NAT to the node's address'') res
                    in (reachable, if \<not> ingress then addCaveat (snatCaveat (sub_ID (the (ep_subnet f)))) res else res))
                 else (unreachable ''no_external_boundary''
                   (''subnet '' @ (case ep_subnet f of None \<Rightarrow> ''the VNet's subnet'' | Some s \<Rightarrow> sub_ID s)
                    @ '' has no SNAT and its zone has no exit node: no path to/from external'') [] (ep_node f), res))
         | attachBridge \<Rightarrow>
             (let b = the (ep_bridge f) in
              if br_Gateway b \<noteq> [] then
                (reachable, addCaveat (infoCaveat CodeSimulated
                   ''Reachability beyond the node's own gateway (upstream/physical-network routing) is not evaluated.'')
                   (addHop e (mkHop (Ref_String (br_Ref b)) ''gateway'' (ep_node f)
                      (''gateway '' @ br_Gateway b @ '' (bridge '' @ br_Name b @ '')'')
                      ''the node's configured default gateway for this subnet'') res))
              else (unreachable ''no_gateway''
                (''bridge '' @ br_Name b @ '' on node '' @ ep_node f @ '' has no gateway configured: no path to/from external'')
                (Ref_String (br_Ref b)) (ep_node f), res))
         | attachNone \<Rightarrow> (indeterminate, addCaveat (notEvaluated FeatureExternalRouting
             ''the fabric endpoint is not anchored to a bridge or VNet, so its external boundary cannot be determined'') res))"

definition externalPath :: "Engine \<Rightarrow> resolvedEP \<Rightarrow> bool \<Rightarrow> Result \<Rightarrow> reachResult \<times> Result" where
  "externalPath e f ingress res =
     (let res = (if \<not> ingress then addHop e (hopForAttachment f) (addHop e (hopForEndpoint f) res) else res);
          (r, res) = egressBoundary e f ingress res
      in (r, if rch_state r = pathReachable then
               (if ingress then addHop e (hopForEndpoint f) (addHop e (hopForAttachment f) res)
                else addHop e (mkHop [] ''external'' [] ''external / WAN'' []) res)
             else res))"

definition reachability :: "nat \<Rightarrow> Engine \<Rightarrow> resolvedEP \<Rightarrow> resolvedEP \<Rightarrow> Result \<Rightarrow> reach_run" where
  "reachability fuel e src dst res =
     (if ep_unattached src then
        Some (unreachable ''nic_unattached''
          (''source guest NIC '' @ re_Ref (ep_public src) @ '' attaches to '' @ go_Quote (nicTarget src)
           @ '', which resolves to no bridge or VNet'') (re_Ref (ep_public src)) (ep_node src), res)
      else if ep_unattached dst then
        Some (unreachable ''nic_unattached''
          (''destination guest NIC '' @ re_Ref (ep_public dst) @ '' attaches to '' @ go_Quote (nicTarget dst)
           @ '', which resolves to no bridge or VNet'') (re_Ref (ep_public dst)) (ep_node dst), res)
      else
        let srcExt = (ep_kind src = EndpointExternal); dstExt = (ep_kind dst = EndpointExternal) in
        if srcExt \<and> dstExt then
          Some (unreachable ''both_external''
            (''both endpoints are external '' @ em_dash @ '' nothing to simulate on the fabric'') [] [], res)
        else if srcExt then Some (externalPath e dst True res)
        else if dstExt then Some (externalPath e src False res)
        else do {
          ((r, handled), res) \<leftarrow> l2Path fuel e src dst res;
          if handled then Some (r, res) else Some (l3Path e src dst res)
        })"


section \<open>Facts: reachability is a phase\<close>

lemma lldpNeighbours_keeps: "keeps r res b \<Longrightarrow> keeps r (lldpNeighbours e port br vid es res) b"
  by (induction e port br vid es res rule: lldpNeighbours.induct)
     (auto split: option.split Entity.split intro!: keeps_intros)

lemma lldpCheckFromPort_keeps:
  "lldpCheckFromPort fuel e port br vid res = Some res' \<Longrightarrow> keeps r res b \<Longrightarrow> keeps r res' b"
proof (induction fuel arbitrary: port res res')
  case 0
  then show ?case by simp
next
  case (Suc fuel)
  show ?case
  proof (cases "ref_Kind port = KindPhysNic")
    case True
    with Suc.prems show ?thesis by (auto simp: lldpNeighbours_keeps)
  next
    case phys: False
    show ?thesis
    proof (cases "ref_Kind port = KindBond \<or> ref_Kind port = KindOVSBond")
      case True
      with Suc.prems(1) phys have
        "foldM_opt (\<lambda>edge r. if edge_Kind edge = EdgeEnslavedBy \<and> edge_To edge = port
                            then lldpCheckFromPort fuel e (edge_From edge) br vid r else Some r)
          (EdgesOf (eng_inv e) port) res = Some res'" by simp
      then show ?thesis
        by (rule foldM_opt_inv [where P = "\<lambda>x. keeps r x b"]) (use Suc in \<open>simp_all split: if_splits\<close>)
    next
      case False
      with Suc.prems phys show ?thesis by simp
    qed
  qed
qed

lemma lldpTrunkCrossCheck_keeps:
  assumes "lldpTrunkCrossCheck fuel e br vid res = Some res'"
  shows "keeps res res' False"
  using assms unfolding lldpTrunkCrossCheck_def
  by (rule foldM_opt_inv [where P = "\<lambda>x. keeps res x False"])
     (auto split: if_splits dest: lldpCheckFromPort_keeps)

text \<open>An outcome carries a missing-path description exactly when it is unreachable.\<close>

definition wf_reach :: "reachResult \<Rightarrow> bool" where
  "wf_reach r \<longleftrightarrow> (rch_missing r \<noteq> None \<longleftrightarrow> rch_state r = pathUnreachable)"

text \<open>What a part of the reachability phase guarantees of its outcome and of the result.\<close>

definition reach_ok :: "Result \<Rightarrow> reachResult \<times> Result \<Rightarrow> bool" where
  "reach_ok res = (\<lambda>(r, res'). wf_reach r \<and> keeps res res' (rch_state r = pathIndeterminate))"

lemma reach_simps [simp]:
  "wf_reach reachable" "wf_reach indeterminate" "wf_reach (unreachable a b c d)"
  "rch_state reachable = pathReachable" "rch_state indeterminate = pathIndeterminate"
  "rch_state (unreachable a b c d) = pathUnreachable"
  by (simp_all add: wf_reach_def reachable_def indeterminate_def unreachable_def)

lemma reach_okI: "wf_reach r \<Longrightarrow> keeps res res' (rch_state r = pathIndeterminate) \<Longrightarrow> reach_ok res (r, res')"
  by (simp add: reach_ok_def)

lemma reach_ok_trans: "keeps r s False \<Longrightarrow> reach_ok s out \<Longrightarrow> reach_ok r out"
  by (auto simp: reach_ok_def intro: keeps_trans_ok)

lemma reach_okD: "reach_ok res (r, res') \<Longrightarrow> rch_state r = pathReachable \<Longrightarrow> keeps res res' False"
  by (auto simp: reach_ok_def)

lemma trunkCheck_ok: "trunkCheck fuel e node name vid res = Some out \<Longrightarrow> reach_ok res out"
  by (auto simp: trunkCheck_def reach_ok_def lldpTrunkCrossCheck_keeps
      split: option.splits if_splits bind_splits)

lemma trunkBoth_ok:
  assumes "trunkBoth fuel e name sn sv dn dv hv res = Some out"
  shows "reach_ok res out"
proof -
  from assms obtain r1 res1 where 1: "trunkCheck fuel e sn name sv res = Some (r1, res1)"
    by (auto simp: trunkBoth_def split: bind_splits)
  show ?thesis
  proof (cases "rch_state r1 = pathReachable")
    case False
    with assms 1 trunkCheck_ok [OF 1] show ?thesis by (simp add: trunkBoth_def)
  next
    case True
    with assms 1 obtain r2 res2 where 2: "trunkCheck fuel e dn name dv res1 = Some (r2, res2)"
      by (auto simp: trunkBoth_def split: bind_splits)
    note k = reach_ok_trans [OF reach_okD [OF trunkCheck_ok [OF 1] True] trunkCheck_ok [OF 2]]
    show ?thesis
    proof (cases "rch_state r2 = pathReachable")
      case False
      with assms 1 2 True k show ?thesis by (simp add: trunkBoth_def)
    next
      case True2: True
      with assms 1 2 True reach_okD [OF k True2] show ?thesis
        by (auto simp: trunkBoth_def reach_ok_def intro: keeps_addHop)
    qed
  qed
qed

lemma crossNodeVnet_ok:
  assumes "crossNodeVnet fuel e src dst res = Some out"
  shows "reach_ok res out"
proof -
  have q: "keeps res (addCaveat (warnCaveat CodeNotEvaluated (CHR ''Q'' # m)) res) False" for m
    by (intro keeps_intros) simp
  show ?thesis
    using assms
    by (auto simp: crossNodeVnet_def indeterminateVnet_def notRealized_def
        intro!: reach_okI keeps_intros intro: reach_ok_trans [OF q] dest!: trunkBoth_ok
        split: option.splits if_splits)
qed

lemma l2Path_ok:
  assumes "l2Path fuel e src dst res = Some ((r, handled), res')"
  shows "if handled then reach_ok res (r, res') else res' = res"
proof -
  define r1 where "r1 = addHop e (hopForAttachment src) (addHop e (hopForEndpoint src) res)"
  have k: "keeps res r1 False" unfolding r1_def by (intro keeps_intros)
  have c: "crossNodeVnet fuel e src dst r1 = Some out \<or> crossNodeBridge fuel e src dst r1 = Some out \<Longrightarrow>
      reach_ok res out" for out
    using reach_ok_trans [OF k] crossNodeVnet_ok trunkBoth_ok
    by (cases out) (auto simp: crossNodeBridge_def)
  show ?thesis
    using assms
    by (auto simp: l2Path_def Let_def r1_def [symmetric] reach_ok_def
        split: prod.splits if_splits bind_splits
        intro!: keeps_addHop k dest: reach_okD [rotated] dest!: c [OF disjI1] c [OF disjI2])
qed

lemma l3Path_ok: "reach_ok res (l3Path e src dst res)"
  by (auto simp: l3Path_def Let_def reach_ok_def split: option.split
      intro!: keeps_intros intro: keeps_notEvaluated)

lemma egressBoundary_ok: "reach_ok res (egressBoundary e f ingress res)"
  by (auto simp: egressBoundary_def Let_def reach_ok_def snatCaveat_def split: attachKind.split option.split
      intro!: keeps_intros intro: keeps_notEvaluated)

lemma externalPath_ok: "reach_ok res (externalPath e f ingress res)"
proof -
  define r1 where "r1 = (if \<not> ingress then addHop e (hopForAttachment f) (addHop e (hopForEndpoint f) res) else res)"
  have k: "keeps res r1 False" unfolding r1_def by (auto intro!: keeps_intros)
  obtain r res2 where eb: "egressBoundary e f ingress r1 = (r, res2)" by force
  then have ok: "reach_ok res (r, res2)" using reach_ok_trans [OF k] egressBoundary_ok [of r1 e f ingress] by simp
  then show ?thesis
    using eb by (auto simp: externalPath_def Let_def r1_def [symmetric] reach_ok_def intro!: keeps_addHop)
qed

lemma reachability_ok: "reachability fuel e src dst res = Some out \<Longrightarrow> reach_ok res out"
  by (auto simp: reachability_def Let_def externalPath_ok l3Path_ok split: if_splits bind_splits
      intro!: reach_okI dest!: l2Path_ok)

interpretation reach_phase: phase
  "\<lambda>(fuel, e, src, dst) res. reachability fuel e src dst res" "\<lambda>r. rch_state r = pathIndeterminate"
  by unfold_locales (auto simp: reach_ok_def dest!: reachability_ok)


section \<open>Facts: what reachability decides\<close>

text \<open>A VLAN is carried by the named bridge of a node.\<close>

definition carried :: "Engine \<Rightarrow> string \<Rightarrow> string \<Rightarrow> int \<Rightarrow> bool" where
  "carried e node name vid \<longleftrightarrow>
     (\<exists>br. bridgeByName e node name = Some br \<and> (vid = 0 \<or> br_VlanAware br \<and> vidPermitted br vid))"

lemma trunkCheck_state:
  "trunkCheck fuel e node name vid res = Some (r, res') \<Longrightarrow>
   rch_state r = (if carried e node name vid then pathReachable else pathUnreachable)"
  by (auto simp: trunkCheck_def carried_def split: option.splits if_splits bind_splits)

lemma trunkBoth_state:
  "trunkBoth fuel e name sn sv dn dv hv res = Some (r, res') \<Longrightarrow>
   rch_state r = (if carried e sn name sv \<and> carried e dn name dv then pathReachable else pathUnreachable)"
  by (auto simp: trunkBoth_def split: if_splits bind_splits dest!: trunkCheck_state)

text \<open>
  The path relation the phase decides, stated on the endpoints' structure. Two endpoints share a
  segment when they hang off the same VNet, or off bridges of the same name, at the same VLAN.
\<close>

definition segment :: "resolvedEP \<Rightarrow> (string \<times> string \<times> int) option" where
  "segment ep =
     (case ep_attach ep of
        attachVnet \<Rightarrow> Some (''vnet'', vnet_ID (the (ep_vnet ep)), ep_vid ep)
      | attachBridge \<Rightarrow> Some (''bridge'', br_Name (the (ep_bridge ep)), ep_vid ep)
      | attachNone \<Rightarrow> None)"

definition same_segment :: "resolvedEP \<Rightarrow> resolvedEP \<Rightarrow> bool" where
  "same_segment a b \<longleftrightarrow> segment a \<noteq> None \<and> segment a = segment b"

definition fabric_spec :: "Engine \<Rightarrow> resolvedEP \<Rightarrow> resolvedEP \<Rightarrow> pathState" where
  "fabric_spec e src dst =
     (if ep_attach src = attachVnet then
        (case ep_zone src of
           None \<Rightarrow> pathIndeterminate
         | Some z \<Rightarrow>
             if zone_Type z \<in> {''vxlan'', ''evpn''}
             then (if {ep_node src, ep_node dst} \<subseteq> set (zone_Nodes z) then pathReachable else pathUnreachable)
             else if zone_Type z = ''simple'' then pathUnreachable
             else if zone_Type z \<in> {''vlan'', ''qinq''}
             then (if carried e (ep_node src) (zone_Bridge z) (ep_vid src) \<and> carried e (ep_node dst) (zone_Bridge z) (ep_vid src)
                   then pathReachable else pathUnreachable)
             else pathIndeterminate)
      else if carried e (ep_node src) (br_Name (the (ep_bridge src))) (ep_vid src)
            \<and> carried e (ep_node dst) (br_Name (the (ep_bridge src))) (ep_vid dst)
           then pathReachable else pathUnreachable)"

definition route_spec :: "resolvedEP \<Rightarrow> resolvedEP \<Rightarrow> pathState" where
  "route_spec src dst =
     (case (ep_subnet src, ep_subnet dst) of
        (Some a, Some b) \<Rightarrow>
          if sub_ID a = sub_ID b then pathReachable
          else (case (ep_zone src, ep_zone dst) of
                  (Some y, Some z) \<Rightarrow> if zone_ID y = zone_ID z \<and> zone_Type y = ''evpn'' then pathReachable else pathUnreachable
                | _ \<Rightarrow> pathUnreachable)
      | _ \<Rightarrow> pathIndeterminate)"

definition boundary_spec :: "resolvedEP \<Rightarrow> pathState" where
  "boundary_spec f =
     (case ep_attach f of
        attachVnet \<Rightarrow> if (\<exists>z. ep_zone f = Some z \<and> zone_ExitNodes z \<noteq> []) \<or> (\<exists>s. ep_subnet f = Some s \<and> sub_SNAT s)
                      then pathReachable else pathUnreachable
      | attachBridge \<Rightarrow> if br_Gateway (the (ep_bridge f)) \<noteq> [] then pathReachable else pathUnreachable
      | attachNone \<Rightarrow> pathIndeterminate)"

definition path_spec :: "Engine \<Rightarrow> resolvedEP \<Rightarrow> resolvedEP \<Rightarrow> pathState" where
  "path_spec e src dst =
     (if ep_unattached src \<or> ep_unattached dst then pathUnreachable
      else if ep_kind src = EndpointExternal then
        (if ep_kind dst = EndpointExternal then pathUnreachable else boundary_spec dst)
      else if ep_kind dst = EndpointExternal then boundary_spec src
      else if same_segment src dst then
        (if ep_node src = ep_node dst \<or> EndpointIP \<in> {ep_kind src, ep_kind dst} then pathReachable
         else fabric_spec e src dst)
      else route_spec src dst)"

text \<open>The domain key, a printed string, identifies the segment: nothing in a name can forge a VLAN.\<close>

lemma Itoa_no_slash: "CHR ''/'' \<notin> set (go_Itoa n)"
proof -
  have "\<not> go_isdigit (CHR ''/'')" by (simp add: go_isdigit_def go_ord_def)
  then show ?thesis
    using go_natstr_digits [of n] go_natstr_digits [of "- n"] by (auto simp: go_Itoa_def list_all_iff)
qed

lemma vid_suffix_inj:
  assumes "x @ ''/vid='' @ go_Itoa m = y @ ''/vid='' @ go_Itoa n"
  shows "x = y \<and> m = n"
proof -
  have tw: "takeWhile (\<lambda>c. c \<noteq> CHR ''/'') (rev (z @ ''/vid='' @ go_Itoa k)) = rev (''vid='' @ go_Itoa k)" for z k
    using Itoa_no_slash [of k] by (simp add: takeWhile_append)
  have "rev (''vid='' @ go_Itoa m) = rev (''vid='' @ go_Itoa n)" using tw [of x m] tw [of y n] assms by metis
  then have "go_Itoa m = go_Itoa n" by simp
  with assms show ?thesis using go_Itoa_inj by auto
qed

lemma l2DomainKey_segment:
  "snd (l2DomainKey a) \<and> snd (l2DomainKey b) \<and> fst (l2DomainKey a) = fst (l2DomainKey b) \<longleftrightarrow>
   same_segment a b"
proof -
  have v: "''vnet/'' @ x @ ''/vid='' @ go_Itoa m = ''vnet/'' @ y @ ''/vid='' @ go_Itoa n \<longleftrightarrow> x = y \<and> m = n"
    "''bridge/'' @ x @ ''/vid='' @ go_Itoa m = ''bridge/'' @ y @ ''/vid='' @ go_Itoa n \<longleftrightarrow> x = y \<and> m = n" for x y m n
    using vid_suffix_inj [of x m y n] by auto
  show ?thesis
    by (cases "ep_attach a"; cases "ep_attach b") (use v in \<open>auto simp: l2DomainKey_def same_segment_def segment_def\<close>)
qed

lemma crossNodeVnet_state:
  assumes "crossNodeVnet fuel e src dst res = Some (r, res')" and "ep_attach src = attachVnet"
  shows "rch_state r = fabric_spec e src dst"
proof (cases "ep_zone src")
  case None
  with assms show ?thesis by (auto simp: crossNodeVnet_def fabric_spec_def indeterminateVnet_def)
next
  case (Some z)
  show ?thesis
  proof (cases "zone_Type z = ''vlan'' \<or> zone_Type z = ''qinq''")
    case True
    with Some assms(1) obtain res1 where
      "trunkBoth fuel e (zone_Bridge z) (ep_node src) (ep_vid src) (ep_node dst) (ep_vid src) (ep_vid src) res1 = Some (r, res')"
      by (auto simp: crossNodeVnet_def)
    from trunkBoth_state [OF this] True Some assms(2) show ?thesis by (auto simp: fabric_spec_def)
  next
    case False
    with Some assms show ?thesis
      by (auto simp: crossNodeVnet_def fabric_spec_def notRealized_def split: if_splits)
  qed
qed

lemma crossNode_state:
  assumes "(if ep_attach src = attachVnet then crossNodeVnet fuel e src dst res else crossNodeBridge fuel e src dst res)
     = Some (r, res')"
  shows "rch_state r = fabric_spec e src dst"
proof (cases "ep_attach src = attachVnet")
  case True
  with assms show ?thesis by (simp add: crossNodeVnet_state)
next
  case False
  with assms show ?thesis by (simp add: crossNodeBridge_def trunkBoth_state fabric_spec_def)
qed

lemma l2Path_state:
  assumes "l2Path fuel e src dst res = Some ((r, handled), res')"
  shows "handled \<longleftrightarrow> same_segment src dst"
    and "handled \<Longrightarrow> rch_state r =
      (if ep_node src = ep_node dst \<or> EndpointIP \<in> {ep_kind src, ep_kind dst} then pathReachable
       else fabric_spec e src dst)"
proof -
  define same where "same \<longleftrightarrow> snd (l2DomainKey src) \<and> snd (l2DomainKey dst) \<and> fst (l2DomainKey src) = fst (l2DomainKey dst)"
  define near where "near \<longleftrightarrow> ep_node src = ep_node dst \<or> EndpointIP \<in> {ep_kind src, ep_kind dst}"
  define res1 where "res1 = addHop e (hopForAttachment src) (addHop e (hopForEndpoint src) res)"
  define x where "x = (if ep_attach src = attachVnet then crossNodeVnet fuel e src dst res1
                          else crossNodeBridge fuel e src dst res1)"
  have x: "x = Some (r', s') \<Longrightarrow> rch_state r' = fabric_spec e src dst" for r' s'
    unfolding x_def by (rule crossNode_state)
  have eq: "handled \<longleftrightarrow> same"
    "same \<Longrightarrow> near \<Longrightarrow> r = reachable"
    "same \<Longrightarrow> \<not> near \<Longrightarrow> \<exists>r' s'. x = Some (r', s') \<and> rch_state r = rch_state r'"
    using assms unfolding l2Path_def Let_def
    by (auto simp: same_def near_def res1_def x_def [unfolded res1_def, symmetric]
        split: prod.splits if_splits bind_splits)
  show "handled \<longleftrightarrow> same_segment src dst"
    using eq(1) l2DomainKey_segment [of src dst] by (simp add: same_def)
  show "rch_state r = (if ep_node src = ep_node dst \<or> EndpointIP \<in> {ep_kind src, ep_kind dst} then pathReachable
       else fabric_spec e src dst)" if handled
    using that eq x unfolding near_def [symmetric] by (cases near) auto
qed

lemma l3Path_state: "rch_state (fst (l3Path e src dst res)) = route_spec src dst"
  by (auto simp: l3Path_def route_spec_def Let_def split: option.split)

lemma externalPath_state: "rch_state (fst (externalPath e f ingress res)) = boundary_spec f"
  by (auto simp: externalPath_def egressBoundary_def boundary_spec_def Let_def
      split: prod.splits attachKind.splits option.splits)

lemma reachability_state:
  assumes "reachability fuel e src dst res = Some (r, res')"
  shows "rch_state r = path_spec e src dst"
proof -
  consider "ep_unattached src \<or> ep_unattached dst"
    | "\<not> ep_unattached src" "\<not> ep_unattached dst" "ep_kind src = EndpointExternal \<or> ep_kind dst = EndpointExternal"
    | (fabric) "\<not> ep_unattached src" "\<not> ep_unattached dst" "ep_kind src \<noteq> EndpointExternal" "ep_kind dst \<noteq> EndpointExternal"
    by blast
  then show ?thesis
  proof cases
    case fabric
    with assms obtain r1 h res1 where l2: "l2Path fuel e src dst res = Some ((r1, h), res1)"
      and r: "(r, res') = (if h then (r1, res1) else l3Path e src dst res1)"
      by (auto simp: reachability_def split: bind_splits if_splits)
    show ?thesis
    proof (cases h)
      case True
      with fabric r l2Path_state [OF l2] show ?thesis by (simp add: path_spec_def)
    next
      case False
      from False r have "(r, res') = l3Path e src dst res1" by simp
      then have "rch_state r = route_spec src dst" using l3Path_state [of e src dst res1] by (metis fst_conv)
      with False fabric l2Path_state(1) [OF l2] show ?thesis by (auto simp: path_spec_def)
    qed
  qed (use assms in \<open>auto simp: reachability_def path_spec_def Let_def externalPath_state split: if_splits
          dest!: arg_cong [where f = fst]\<close>)
qed



section \<open>Facts: when the trunk cross-check returns\<close>

text \<open>Slave-to-master pairs of the inventory's enslaved-by edges.\<close>

definition enslaved :: "InvSnapshot \<Rightarrow> (Ref \<times> Ref) set" where
  "enslaved g = {(edge_From e, edge_To e) |e. e \<in> set (inv_edges g) \<and> edge_Kind e = EdgeEnslavedBy}"

definition below :: "InvSnapshot \<Rightarrow> Ref \<Rightarrow> (Ref \<times> Ref) set" where
  "below g port = {(x, y) \<in> enslaved g. (y, port) \<in> (enslaved g)\<^sup>*}"

lemma enslaved_image: "enslaved g = (\<lambda>e. (edge_From e, edge_To e)) ` {e \<in> set (inv_edges g). edge_Kind e = EdgeEnslavedBy}"
  by (auto simp: enslaved_def)

lemma finite_enslaved: "finite (enslaved g)"
  by (simp add: enslaved_image)

lemma card_enslaved: "card (enslaved g) \<le> length (inv_edges g)"
proof -
  have "card (enslaved g) \<le> card {e \<in> set (inv_edges g). edge_Kind e = EdgeEnslavedBy}"
    unfolding enslaved_image by (intro card_image_le) simp
  also have "\<dots> \<le> card (set (inv_edges g))" by (intro card_mono) auto
  finally show ?thesis using card_length le_trans by blast
qed

lemma below_decreases:
  assumes "acyclic (enslaved g)" and "(x, port) \<in> enslaved g"
  shows "card (below g x) < card (below g port)"
proof (rule psubset_card_mono)
  show "finite (below g port)" by (rule finite_subset [OF _ finite_enslaved]) (auto simp: below_def)
  have "(port, x) \<notin> (enslaved g)\<^sup>*"
    using assms by (meson acyclic_def rtrancl_into_trancl1)
  then have "(x, port) \<in> below g port" "(x, port) \<notin> below g x"
    using assms(2) by (auto simp: below_def)
  moreover have "below g x \<subseteq> below g port"
    using assms(2) by (auto simp: below_def intro: rtrancl_into_rtrancl)
  ultimately show "below g x \<subset> below g port" by blast
qed

lemma lldpCheckFromPort_total:
  assumes "acyclic (enslaved (eng_inv e))" and "card (below (eng_inv e) port) < fuel"
  shows "\<exists>res'. lldpCheckFromPort fuel e port br vid res = Some res'"
  using assms(2)
proof (induction fuel arbitrary: port res)
  case 0
  then show ?case by simp
next
  case (Suc fuel)
  have step: "\<exists>r'. lldpCheckFromPort fuel e (edge_From ed) br vid r = Some r'"
    if "ed \<in> set (EdgesOf (eng_inv e) port)" "edge_Kind ed = EdgeEnslavedBy" "edge_To ed = port" for ed r
  proof (rule Suc.IH)
    from that have "(edge_From ed, port) \<in> enslaved (eng_inv e)" by (auto simp: enslaved_def set_EdgesOf)
    from below_decreases [OF assms(1) this] Suc.prems show "card (below (eng_inv e) (edge_From ed)) < fuel" by simp
  qed
  have "\<exists>r'. foldM_opt (\<lambda>edge r. if edge_Kind edge = EdgeEnslavedBy \<and> edge_To edge = port
                            then lldpCheckFromPort fuel e (edge_From edge) br vid r else Some r)
          (EdgesOf (eng_inv e) port) res = Some r'"
    by (rule foldM_opt_total) (use step in auto)
  then show ?case by simp
qed

lemma lldpTrunkCrossCheck_total:
  assumes "acyclic (enslaved (eng_inv e))" and "length (inv_edges (eng_inv e)) < fuel"
  shows "\<exists>res'. lldpTrunkCrossCheck fuel e br vid res = Some res'"
proof -
  have "card (below (eng_inv e) port) < fuel" for port
  proof -
    have "card (below (eng_inv e) port) \<le> card (enslaved (eng_inv e))"
      by (rule card_mono) (auto simp: below_def finite_enslaved)
    with card_enslaved [of "eng_inv e"] assms(2) show ?thesis by simp
  qed
  then show ?thesis unfolding lldpTrunkCrossCheck_def
    by (intro foldM_opt_total) (use lldpCheckFromPort_total [OF assms(1)] in auto)
qed

lemma trunkCheck_total:
  assumes "acyclic (enslaved (eng_inv e))" and "length (inv_edges (eng_inv e)) < fuel"
  shows "\<exists>r res'. trunkCheck fuel e node name vid res = Some (r, res')"
proof (cases "bridgeByName e node name")
  case None
  then show ?thesis by (simp add: trunkCheck_def)
next
  case (Some br)
  obtain res' where "lldpTrunkCrossCheck fuel e br vid res = Some res'"
    using lldpTrunkCrossCheck_total [OF assms] by blast
  with Some show ?thesis by (simp add: trunkCheck_def)
qed

lemma trunkBoth_total:
  assumes "acyclic (enslaved (eng_inv e))" and "length (inv_edges (eng_inv e)) < fuel"
  shows "\<exists>r res'. trunkBoth fuel e name sn sv dn dv hv res = Some (r, res')"
proof -
  obtain r1 res1 where 1: "trunkCheck fuel e sn name sv res = Some (r1, res1)"
    using trunkCheck_total [OF assms] by blast
  obtain r2 res2 where 2: "trunkCheck fuel e dn name dv res1 = Some (r2, res2)"
    using trunkCheck_total [OF assms] by blast
  from 1 2 show ?thesis by (simp add: trunkBoth_def)
qed

lemma reachability_total:
  assumes "acyclic (enslaved (eng_inv e))" and "length (inv_edges (eng_inv e)) < fuel"
  shows "\<exists>r res'. reachability fuel e src dst res = Some (r, res')"
proof -
  have vnet: "\<exists>out. crossNodeVnet fuel e src dst r = Some out" for r
    using trunkBoth_total [OF assms]
    by (cases "ep_zone src") (auto simp: crossNodeVnet_def indeterminateVnet_def)
  have bridge: "\<exists>out. crossNodeBridge fuel e src dst r = Some out" for r
    using trunkBoth_total [OF assms] by (fastforce simp: crossNodeBridge_def)
  have "\<exists>out. l2Path fuel e src dst r = Some out" for r
    using vnet bridge unfolding l2Path_def Let_def
    by (auto split: prod.splits bind_split) (metis option.discI)+
  then obtain r1 h res1 where "l2Path fuel e src dst res = Some ((r1, h), res1)" by (metis surj_pair)
  then show ?thesis by (auto simp: reachability_def Let_def intro: prod.exhaust)
qed

text \<open>A set of bonds each of which has a slave in the set: no amount of fuel is enough.\<close>

lemma foldM_opt_stuck: "x \<in> set xs \<Longrightarrow> (\<And>s. f x s = None) \<Longrightarrow> foldM_opt f xs s = None"
  by (induction xs arbitrary: s) (auto split: option.splits)

lemma lldpCheckFromPort_stuck:
  assumes "\<And>p. p \<in> C \<Longrightarrow> (ref_Kind p = KindBond \<or> ref_Kind p = KindOVSBond)
      \<and> (\<exists>q \<in> C. (q, p) \<in> enslaved (eng_inv e))"
    and "port \<in> C"
  shows "lldpCheckFromPort fuel e port br vid res = None"
  using assms(2)
proof (induction fuel arbitrary: port res)
  case 0
  then show ?case by simp
next
  case (Suc fuel)
  then obtain ed where ed: "ed \<in> set (inv_edges (eng_inv e))" "edge_Kind ed = EdgeEnslavedBy"
    "edge_To ed = port" "edge_From ed \<in> C"
    using assms(1) [OF Suc.prems] by (auto simp: enslaved_def)
  then have "ed \<in> set (EdgesOf (eng_inv e) port)" by (auto simp: set_EdgesOf)
  then have "foldM_opt (\<lambda>edge r. if edge_Kind edge = EdgeEnslavedBy \<and> edge_To edge = port
                            then lldpCheckFromPort fuel e (edge_From edge) br vid r else Some r)
          (EdgesOf (eng_inv e) port) res = None"
    by (rule foldM_opt_stuck) (use ed Suc.IH in auto)
  moreover have "ref_Kind port \<noteq> KindPhysNic" using assms(1) [OF Suc.prems] by auto
  ultimately show ?case using assms(1) [OF Suc.prems] by simp
qed

end
