(* ===== verification/Sim_Engine.thy ===== *)
theory Sim_Engine
  imports Sim_Firewall Sim_Path
begin

text \<open>
  The simulation itself (\<^verbatim>\<open>src/internal/sim/engine.go\<close>): resolve both endpoints, establish
  reachability, evaluate the firewall, append the standing caveats. The facts are the simulator's
  contract: the verdict refines a declarative specification, it is indeterminate exactly when a
  blocker caveat says why, a denial and a break carry their causes, and the answer always comes on
  an inventory whose bonding is acyclic.
\<close>

section \<open>Simulate\<close>

definition finalize :: "Result \<Rightarrow> Result" where
  "finalize res = foldl (\<lambda>r c. addCaveat c r) res standingCaveats"

definition Engine_Simulate :: "nat \<Rightarrow> Engine \<Rightarrow> Request \<Rightarrow> Result option" where
  "Engine_Simulate fuel e req =
     (let res = zero_Result\<lparr>res_Proto := req_Proto req, res_Port := req_Port req, res_Hops := []\<rparr>;
          family = orDefault (req_Family req);
          (src, res) = resolveEndpoint e (req_Src req) family res;
          (dst, res) = resolveEndpoint e (req_Dst req) family res;
          res = res\<lparr>res_Src := ep_public src, res_Dst := ep_public dst\<rparr>
      in if ep_fatal src \<or> ep_fatal dst then Some (finalize (res\<lparr>res_Verdict := VerdictIndeterminate\<rparr>))
         else do {
           (reach, res) \<leftarrow> reachability fuel e src dst res;
           case rch_state reach of
             pathUnreachable \<Rightarrow>
               Some (finalize (res\<lparr>res_Verdict := VerdictUnreachable, res_Missing := rch_missing reach\<rparr>))
           | pathIndeterminate \<Rightarrow> Some (finalize (res\<lparr>res_Verdict := VerdictIndeterminate\<rparr>))
           | pathReachable \<Rightarrow>
               let (out, res) = evaluateFirewall e src dst req res
               in (case fwo_state out of
                     fwDeny \<Rightarrow> Some (finalize (res\<lparr>res_Verdict := VerdictDeny, res_BlockingRule := fwo_blocking out\<rparr>))
                   | fwIndeterminate \<Rightarrow> Some (finalize (res\<lparr>res_Verdict := VerdictIndeterminate\<rparr>))
                   | fwAllow \<Rightarrow> Some (finalize (res\<lparr>res_Verdict := VerdictAllow\<rparr>)))
         })"

definition Simulate :: "nat \<Rightarrow> Input \<Rightarrow> Request \<Rightarrow> Result option" where
  "Simulate fuel inp req = Engine_Simulate fuel (NewEngine inp) req"


section \<open>Specification\<close>

abbreviation src_ep :: "Engine \<Rightarrow> Request \<Rightarrow> resolvedEP" where
  "src_ep e req \<equiv> fst (resolveEndpoint e (req_Src req) (orDefault (req_Family req)) zero_Result)"

abbreviation dst_ep :: "Engine \<Rightarrow> Request \<Rightarrow> resolvedEP" where
  "dst_ep e req \<equiv> fst (resolveEndpoint e (req_Dst req) (orDefault (req_Family req)) zero_Result)"

text \<open>The first enforcement point that does not let the flow through settles the verdict.\<close>

definition point_verdict :: "Engine \<Rightarrow> resolvedEP \<Rightarrow> flow \<Rightarrow> string \<Rightarrow> Verdict option" where
  "point_verdict e ep fl dir =
     (if passes e ep fl dir then None
      else if resolvable e ep \<and> (\<exists>dec. guest_decision e ep fl dir = Some dec \<and> dec_kind dec = decisionDeny)
      then Some VerdictDeny else Some VerdictIndeterminate)"

definition verdict_spec :: "Engine \<Rightarrow> Request \<Rightarrow> Verdict" where
  "verdict_spec e req =
     (let src = src_ep e req; dst = dst_ep e req; fl = flow_of src dst req in
      if ep_fatal src \<or> ep_fatal dst then VerdictIndeterminate
      else case path_spec e src dst of
        pathUnreachable \<Rightarrow> VerdictUnreachable
      | pathIndeterminate \<Rightarrow> VerdictIndeterminate
      | pathReachable \<Rightarrow>
          (case point_verdict e src fl ''out'' of
             Some v \<Rightarrow> v
           | None \<Rightarrow> (case point_verdict e dst fl ''in'' of Some v \<Rightarrow> v | None \<Rightarrow> VerdictAllow)))"


section \<open>Facts\<close>

lemma finalize_grows: "grows res (finalize res)"
  by (simp add: finalize_def standingCaveats_def) (meson grows_addCaveat grows_trans)

lemma finalize_keeps: "keeps res (finalize res) False"
  by (simp add: finalize_def standingCaveats_def) (intro keeps_intros; simp)

lemma finalize_standing:
  "c \<in> set standingCaveats \<Longrightarrow>
   \<exists>c' \<in> set (res_Caveats (finalize res)). cav_Code c' = cav_Code c \<and> cav_Message c' = cav_Message c"
proof -
  have added: "\<exists>c' \<in> set (res_Caveats (addCaveat x r)). cav_Code c' = cav_Code x \<and> cav_Message c' = cav_Message x" for x r
    by (auto simp: addCaveat_def)
  have "\<exists>c' \<in> set (res_Caveats (foldl (\<lambda>r c. addCaveat c r) r cs)). cav_Code c' = cav_Code c \<and> cav_Message c' = cav_Message c"
    if "c \<in> set cs \<or> (\<exists>c' \<in> set (res_Caveats r). cav_Code c' = cav_Code c \<and> cav_Message c' = cav_Message c)" for cs r
    using that
  proof (induction cs arbitrary: r)
    case (Cons x cs)
    then show ?case using added [of x r] grows_mem [OF grows_addCaveat [of r x]] by (simp, blast)
  qed auto
  then show "c \<in> set standingCaveats \<Longrightarrow> ?thesis" by (simp add: finalize_def)
qed

lemma finalize_fields [simp]:
  "res_Verdict (finalize res) = res_Verdict res" "res_BlockingRule (finalize res) = res_BlockingRule res"
  "res_Missing (finalize res) = res_Missing res" "res_Src (finalize res) = res_Src res"
  "res_Dst (finalize res) = res_Dst res" "res_Proto (finalize res) = res_Proto res"
  "res_Port (finalize res) = res_Port res"
  using finalize_grows [of res] by (auto simp: grows_def)

lemma verdict_update_irrelevant [simp]:
  "honest (res\<lparr>res_Verdict := v\<rparr>) \<longleftrightarrow> honest res" "has_blocker (res\<lparr>res_Verdict := v\<rparr>) \<longleftrightarrow> has_blocker res"
  "honest (res\<lparr>res_Missing := m\<rparr>) \<longleftrightarrow> honest res" "has_blocker (res\<lparr>res_Missing := m\<rparr>) \<longleftrightarrow> has_blocker res"
  "honest (res\<lparr>res_BlockingRule := b\<rparr>) \<longleftrightarrow> honest res" "has_blocker (res\<lparr>res_BlockingRule := b\<rparr>) \<longleftrightarrow> has_blocker res"
  "honest (res\<lparr>res_Src := p, res_Dst := q\<rparr>) \<longleftrightarrow> honest res"
  "has_blocker (res\<lparr>res_Src := p, res_Dst := q\<rparr>) \<longleftrightarrow> has_blocker res"
  by (simp_all add: honest_def has_blocker_def)

text \<open>
  A run, taken apart: the result after both endpoints are resolved, and how it ends. Every fact
  about \<open>Simulate\<close> below starts from here.
\<close>

definition start_result :: "Engine \<Rightarrow> Request \<Rightarrow> Result" where
  "start_result e req =
     (let res = zero_Result\<lparr>res_Proto := req_Proto req, res_Port := req_Port req, res_Hops := []\<rparr>;
          family = orDefault (req_Family req);
          (src, res) = resolveEndpoint e (req_Src req) family res;
          (dst, res) = resolveEndpoint e (req_Dst req) family res
      in res\<lparr>res_Src := ep_public src, res_Dst := ep_public dst\<rparr>)"

lemma Engine_Simulate_unfold:
  "Engine_Simulate fuel e req =
     (let src = src_ep e req; dst = dst_ep e req; res = start_result e req in
      if ep_fatal src \<or> ep_fatal dst then Some (finalize (res\<lparr>res_Verdict := VerdictIndeterminate\<rparr>))
      else do {
           (reach, res) \<leftarrow> reachability fuel e src dst res;
           case rch_state reach of
             pathUnreachable \<Rightarrow>
               Some (finalize (res\<lparr>res_Verdict := VerdictUnreachable, res_Missing := rch_missing reach\<rparr>))
           | pathIndeterminate \<Rightarrow> Some (finalize (res\<lparr>res_Verdict := VerdictIndeterminate\<rparr>))
           | pathReachable \<Rightarrow>
               let (out, res) = evaluateFirewall e src dst req res
               in (case fwo_state out of
                     fwDeny \<Rightarrow> Some (finalize (res\<lparr>res_Verdict := VerdictDeny, res_BlockingRule := fwo_blocking out\<rparr>))
                   | fwIndeterminate \<Rightarrow> Some (finalize (res\<lparr>res_Verdict := VerdictIndeterminate\<rparr>))
                   | fwAllow \<Rightarrow> Some (finalize (res\<lparr>res_Verdict := VerdictAllow\<rparr>)))
         })"
proof -
  let ?f = "orDefault (req_Family req)"
  let ?z = "zero_Result\<lparr>res_Proto := req_Proto req, res_Port := req_Port req, res_Hops := []\<rparr>"
  obtain src r1 where 1: "resolveEndpoint e (req_Src req) ?f ?z = (src, r1)" by force
  obtain dst r2 where 2: "resolveEndpoint e (req_Dst req) ?f r1 = (dst, r2)" by force
  have s: "src_ep e req = src" using resolveEndpoint_fst [of e "req_Src req" ?f zero_Result ?z] 1 by simp
  have d: "dst_ep e req = dst" using resolveEndpoint_fst [of e "req_Dst req" ?f zero_Result r1] 2 by simp
  have st: "start_result e req = r2\<lparr>res_Src := ep_public src, res_Dst := ep_public dst\<rparr>"
    using 1 2 by (simp add: start_result_def Let_def)
  show ?thesis unfolding Engine_Simulate_def s d st Let_def by (simp add: 1 2)
qed

lemma start_result_facts:
  "honest (start_result e req)"
  "has_blocker (start_result e req) \<longleftrightarrow> ep_fatal (src_ep e req) \<or> ep_fatal (dst_ep e req)"
  "res_BlockingRule (start_result e req) = None" "res_Missing (start_result e req) = None"
  "res_Proto (start_result e req) = req_Proto req" "res_Port (start_result e req) = req_Port req"
  "res_Src (start_result e req) = ep_public (src_ep e req)" "res_Dst (start_result e req) = ep_public (dst_ep e req)"
proof -
  let ?f = "orDefault (req_Family req)"
  let ?z = "zero_Result\<lparr>res_Proto := req_Proto req, res_Port := req_Port req, res_Hops := []\<rparr>"
  obtain src r1 where 1: "resolveEndpoint e (req_Src req) ?f ?z = (src, r1)" by force
  obtain dst r2 where 2: "resolveEndpoint e (req_Dst req) ?f r1 = (dst, r2)" by force
  have s: "src_ep e req = src" using resolveEndpoint_fst [of e "req_Src req" ?f zero_Result ?z] 1 by simp
  have d: "dst_ep e req = dst" using resolveEndpoint_fst [of e "req_Dst req" ?f zero_Result r1] 2 by simp
  have st: "start_result e req = r2\<lparr>res_Src := ep_public src, res_Dst := ep_public dst\<rparr>"
    using 1 2 by (simp add: start_result_def Let_def)
  have z: "honest ?z" "\<not> has_blocker ?z" by (simp_all add: honest_def has_blocker_def zero_Result_def)
  have k: "keeps ?z r2 (ep_fatal src \<or> ep_fatal dst)"
    by (rule keeps_trans [OF resolveEndpoint_keeps [OF 1] resolveEndpoint_keeps [OF 2]])
  show "honest (start_result e req)"
    "has_blocker (start_result e req) \<longleftrightarrow> ep_fatal (src_ep e req) \<or> ep_fatal (dst_ep e req)"
    using k z by (simp_all add: st s d keeps_def)
  show "res_BlockingRule (start_result e req) = None" "res_Missing (start_result e req) = None"
    "res_Proto (start_result e req) = req_Proto req" "res_Port (start_result e req) = req_Port req"
    using k by (simp_all add: st keeps_def grows_def zero_Result_def)
  show "res_Src (start_result e req) = ep_public (src_ep e req)" "res_Dst (start_result e req) = ep_public (dst_ep e req)"
    by (simp_all add: st s d)
qed

lemma Simulate_ending:
  assumes "Engine_Simulate fuel e req = Some res"
  obtains
    (fatal) "ep_fatal (src_ep e req) \<or> ep_fatal (dst_ep e req)"
      "res = finalize ((start_result e req)\<lparr>res_Verdict := VerdictIndeterminate\<rparr>)"
  | (broken) reach r1 where "\<not> (ep_fatal (src_ep e req) \<or> ep_fatal (dst_ep e req))"
      "reachability fuel e (src_ep e req) (dst_ep e req) (start_result e req) = Some (reach, r1)"
      "rch_state reach = pathUnreachable"
      "res = finalize (r1\<lparr>res_Verdict := VerdictUnreachable, res_Missing := rch_missing reach\<rparr>)"
  | (unsure) reach r1 where "\<not> (ep_fatal (src_ep e req) \<or> ep_fatal (dst_ep e req))"
      "reachability fuel e (src_ep e req) (dst_ep e req) (start_result e req) = Some (reach, r1)"
      "rch_state reach = pathIndeterminate"
      "res = finalize (r1\<lparr>res_Verdict := VerdictIndeterminate\<rparr>)"
  | (fw) reach r1 out r2 where "\<not> (ep_fatal (src_ep e req) \<or> ep_fatal (dst_ep e req))"
      "reachability fuel e (src_ep e req) (dst_ep e req) (start_result e req) = Some (reach, r1)"
      "rch_state reach = pathReachable"
      "evaluateFirewall e (src_ep e req) (dst_ep e req) req r1 = (out, r2)"
      "res = finalize (case fwo_state out of
                 fwDeny \<Rightarrow> r2\<lparr>res_Verdict := VerdictDeny, res_BlockingRule := fwo_blocking out\<rparr>
               | fwIndeterminate \<Rightarrow> r2\<lparr>res_Verdict := VerdictIndeterminate\<rparr>
               | fwAllow \<Rightarrow> r2\<lparr>res_Verdict := VerdictAllow\<rparr>)"
proof (cases "ep_fatal (src_ep e req) \<or> ep_fatal (dst_ep e req)")
  case True
  with assms fatal show ?thesis by (simp add: Engine_Simulate_unfold Let_def)
next
  case nf: False
  with assms obtain reach r1 where
    r: "reachability fuel e (src_ep e req) (dst_ep e req) (start_result e req) = Some (reach, r1)"
    by (auto simp: Engine_Simulate_unfold Let_def split: bind_splits)
  obtain out r2 where o: "evaluateFirewall e (src_ep e req) (dst_ep e req) req r1 = (out, r2)" by force
  show ?thesis
  proof (cases "rch_state reach")
    case pathReachable
    with assms nf r o show ?thesis
      by (intro fw [OF nf r pathReachable o]) (simp add: Engine_Simulate_unfold Let_def split: fwState.splits)
  next
    case pathUnreachable
    with assms nf r show ?thesis by (intro broken [OF nf r]) (simp_all add: Engine_Simulate_unfold Let_def)
  next
    case pathIndeterminate
    with assms nf r show ?thesis by (intro unsure [OF nf r]) (simp_all add: Engine_Simulate_unfold Let_def)
  qed
qed

text \<open>What the phases leave behind on the way to a verdict.\<close>

lemma reached:
  assumes "\<not> (ep_fatal (src_ep e req) \<or> ep_fatal (dst_ep e req))"
    and "reachability fuel e (src_ep e req) (dst_ep e req) (start_result e req) = Some (reach, r1)"
  shows "honest r1" "has_blocker r1 \<longleftrightarrow> rch_state reach = pathIndeterminate"
    "grows (start_result e req) r1" "rch_state reach = path_spec e (src_ep e req) (dst_ep e req)"
    "rch_missing reach \<noteq> None \<longleftrightarrow> rch_state reach = pathUnreachable"
proof -
  have k: "reach_ok (start_result e req) (reach, r1)" by (rule reachability_ok [OF assms(2)])
  then show "honest r1" "has_blocker r1 \<longleftrightarrow> rch_state reach = pathIndeterminate" "grows (start_result e req) r1"
    "rch_missing reach \<noteq> None \<longleftrightarrow> rch_state reach = pathUnreachable"
    using start_result_facts [of e req] assms(1) by (auto simp: reach_ok_def keeps_def wf_reach_def)
  show "rch_state reach = path_spec e (src_ep e req) (dst_ep e req)" by (rule reachability_state [OF assms(2)])
qed

lemma judged:
  assumes "\<not> (ep_fatal (src_ep e req) \<or> ep_fatal (dst_ep e req))"
    and "reachability fuel e (src_ep e req) (dst_ep e req) (start_result e req) = Some (reach, r1)"
    and "rch_state reach = pathReachable"
    and "evaluateFirewall e (src_ep e req) (dst_ep e req) req r1 = (out, r2)"
  shows "honest r2" "has_blocker r2 \<longleftrightarrow> fwo_state out = fwIndeterminate" "grows (start_result e req) r2"
    "fwo_blocking out \<noteq> None \<longleftrightarrow> fwo_state out = fwDeny"
proof -
  have k: "keeps r1 r2 (fwo_state out = fwIndeterminate)" by (rule evaluateFirewall_keeps [OF assms(4)])
  with reached [OF assms(1,2)] assms(3)
  show "honest r2" "has_blocker r2 \<longleftrightarrow> fwo_state out = fwIndeterminate" "grows (start_result e req) r2"
    by (auto simp: keeps_def intro: grows_trans)
  have "fwo_blocking (fst (enforceGuest e ep fl d p r)) \<noteq> None \<longleftrightarrow> fwo_state (fst (enforceGuest e ep fl d p r)) = fwDeny" for ep fl d p r
    by (auto simp: enforceGuest_outcome split: option.splits decisionKind.splits)
  then show "fwo_blocking out \<noteq> None \<longleftrightarrow> fwo_state out = fwDeny"
    using evaluateFirewall_outcome [of e "src_ep e req" "dst_ep e req" req r1]
    by (simp add: assms(4) Let_def split: if_splits)
qed

lemma has_blocker_finalize: "honest r \<Longrightarrow> has_blocker (finalize r) \<longleftrightarrow> has_blocker r"
  using finalize_keeps [of r] by (simp add: keeps_def)

lemma honest_finalize: "honest r \<Longrightarrow> honest (finalize r)"
  using finalize_keeps [of r] by (simp add: keeps_def)

lemma Simulate_final:
  assumes "Engine_Simulate fuel e req = Some res"
  shows "\<exists>r. honest r \<and> res = finalize r"
  using assms
proof (cases rule: Simulate_ending)
  case fatal
  have "honest ((start_result e req)\<lparr>res_Verdict := VerdictIndeterminate\<rparr>)" by (simp add: start_result_facts)
  with fatal(2) show ?thesis by blast
next
  case (broken reach r1)
  have "honest (r1\<lparr>res_Verdict := VerdictUnreachable, res_Missing := rch_missing reach\<rparr>)"
    using reached(1) [OF broken(1,2)] by simp
  with broken(4) show ?thesis by blast
next
  case (unsure reach r1)
  have "honest (r1\<lparr>res_Verdict := VerdictIndeterminate\<rparr>)" using reached(1) [OF unsure(1,2)] by simp
  with unsure(4) show ?thesis by blast
next
  case (fw reach r1 out r2)
  have "honest (case fwo_state out of
                 fwDeny \<Rightarrow> r2\<lparr>res_Verdict := VerdictDeny, res_BlockingRule := fwo_blocking out\<rparr>
               | fwIndeterminate \<Rightarrow> r2\<lparr>res_Verdict := VerdictIndeterminate\<rparr>
               | fwAllow \<Rightarrow> r2\<lparr>res_Verdict := VerdictAllow\<rparr>)"
    using judged(1) [OF fw(1-4)] by (simp split: fwState.split)
  with fw(5) show ?thesis by blast
qed

text \<open>
  C8. The honesty contract. Whatever the inventory and the question, when the simulator answers it
  answers with one of the four verdicts, and the verdict is indeterminate if and only if the result
  carries a blocker caveat: a feature that was not evaluated is never turned into an allow, a deny
  or an unreachable, and an indeterminate answer always says what could not be evaluated.
\<close>

theorem Simulate_honest:
  assumes "Simulate fuel inp req = Some res"
  shows "(res_Verdict res = VerdictIndeterminate \<longleftrightarrow>
            (\<exists>c. c \<in> set (res_Caveats res) \<and> cav_Severity c = CaveatBlocker))
       \<and> res_Verdict res \<noteq> VerdictZero"
proof -
  have "(res_Verdict res = VerdictIndeterminate \<longleftrightarrow> has_blocker res) \<and> res_Verdict res \<noteq> VerdictZero"
    using assms [unfolded Simulate_def]
  proof (cases rule: Simulate_ending)
    case fatal
    then show ?thesis using start_result_facts by (simp add: has_blocker_finalize)
  next
    case (broken reach r1)
    with reached [OF broken(1,2)] show ?thesis by (simp add: has_blocker_finalize)
  next
    case (unsure reach r1)
    with reached [OF unsure(1,2)] show ?thesis by (simp add: has_blocker_finalize)
  next
    case (fw reach r1 out r2)
    with judged [OF fw(1-4)] show ?thesis by (simp add: has_blocker_finalize split: fwState.split)
  qed
  then show ?thesis by (auto simp: has_blocker_def)
qed

definition ex_bad_req :: Request where
  "ex_bad_req = (ex_req 23)\<lparr>req_Src := \<lparr> ept_Kind = EndpointIP, ept_NicRef = zero_Ref, ept_IP = ''10.0.0'' \<rparr>\<rparr>"

theorem Simulate_honest_witness:
  "\<exists>res. Simulate 1 ex_input ex_bad_req = Some res \<and> res_Verdict res = VerdictIndeterminate
     \<and> (\<exists>c. c \<in> set (res_Caveats res) \<and> cav_Severity c = CaveatBlocker)"
proof -
  have "map_option res_Verdict (Simulate 1 ex_input ex_bad_req) = Some VerdictIndeterminate" by code_simp
  then obtain res where r: "Simulate 1 ex_input ex_bad_req = Some res" "res_Verdict res = VerdictIndeterminate" by auto
  with Simulate_honest [OF r(1)] show ?thesis by auto
qed

text \<open>
  The shape of every answer. A blocking rule is given exactly for a deny, a missing-path
  description exactly for an unreachable; the protocol and port asked about are echoed; the three
  standing disclosures are always there, and no two caveats share code and message.
\<close>

theorem Simulate_shape:
  assumes "Simulate fuel inp req = Some res"
  shows "(res_BlockingRule res \<noteq> None \<longleftrightarrow> res_Verdict res = VerdictDeny)
       \<and> (res_Missing res \<noteq> None \<longleftrightarrow> res_Verdict res = VerdictUnreachable)
       \<and> res_Proto res = req_Proto req \<and> res_Port res = req_Port req
       \<and> (\<forall>c \<in> set standingCaveats. (cav_Code c, cav_Message c) \<in> (\<lambda>c. (cav_Code c, cav_Message c)) ` set (res_Caveats res))
       \<and> distinct (map (\<lambda>c. (cav_Code c, cav_Message c)) (res_Caveats res))"
proof -
  have "(res_BlockingRule res \<noteq> None \<longleftrightarrow> res_Verdict res = VerdictDeny)
       \<and> (res_Missing res \<noteq> None \<longleftrightarrow> res_Verdict res = VerdictUnreachable)
       \<and> res_Proto res = req_Proto req \<and> res_Port res = req_Port req"
    using assms [unfolded Simulate_def]
  proof (cases rule: Simulate_ending)
    case fatal
    then show ?thesis by (simp add: start_result_facts)
  next
    case (broken reach r1)
    with reached [OF broken(1,2)] show ?thesis by (simp add: grows_def start_result_facts)
  next
    case (unsure reach r1)
    with reached [OF unsure(1,2)] show ?thesis by (simp add: grows_def start_result_facts)
  next
    case (fw reach r1 out r2)
    with judged [OF fw(1-4)] show ?thesis
      by (cases "fwo_state out") (simp_all add: grows_def start_result_facts)
  qed
  moreover obtain r where r: "honest r" "res = finalize r"
    using Simulate_final [OF assms [unfolded Simulate_def]] by blast
  moreover have "\<forall>c \<in> set standingCaveats. (cav_Code c, cav_Message c) \<in> (\<lambda>c. (cav_Code c, cav_Message c)) ` set (res_Caveats res)"
    unfolding r(2) using finalize_standing by (metis (mono_tags, lifting) image_eqI)
  ultimately show ?thesis using honest_finalize [OF r(1)] by (simp add: honest_def)
qed

theorem Simulate_shape_witness:
  "\<exists>res. Simulate 1 ex_input (ex_req 23) = Some res \<and> res_Verdict res = VerdictDeny \<and> res_BlockingRule res \<noteq> None"
proof -
  have "map_option res_Verdict (Simulate 1 ex_input (ex_req 23)) = Some VerdictDeny" by code_simp
  then obtain res where r: "Simulate 1 ex_input (ex_req 23) = Some res" "res_Verdict res = VerdictDeny" by auto
  with Simulate_shape [OF r(1)] show ?thesis by auto
qed

lemma enforceGuest_verdict:
  "ep_kind ep = EndpointGuestNic \<Longrightarrow> fwo_state (fst (enforceGuest e ep fl dir point res)) =
     (case point_verdict e ep fl dir of None \<Rightarrow> fwAllow | Some v \<Rightarrow> if v = VerdictDeny then fwDeny else fwIndeterminate)"
  by (auto simp: enforceGuest_outcome point_verdict_def passes_def guest_decision_def resolvable_def Let_def
      split: option.splits decisionKind.splits sum.splits if_splits)

lemma point_verdict_other: "ep_kind ep \<noteq> EndpointGuestNic \<Longrightarrow> point_verdict e ep fl dir = None"
  by (simp add: point_verdict_def passes_def)

lemma point_verdict_values: "point_verdict e ep fl dir = Some v \<Longrightarrow> v = VerdictDeny \<or> v = VerdictIndeterminate"
  by (auto simp: point_verdict_def split: if_splits)

lemma evaluateFirewall_verdict:
  "(case fwo_state (fst (evaluateFirewall e src dst req res)) of
      fwAllow \<Rightarrow> VerdictAllow | fwDeny \<Rightarrow> VerdictDeny | fwIndeterminate \<Rightarrow> VerdictIndeterminate) =
   (case point_verdict e src (flow_of src dst req) ''out'' of
      Some v \<Rightarrow> v
    | None \<Rightarrow> (case point_verdict e dst (flow_of src dst req) ''in'' of Some v \<Rightarrow> v | None \<Rightarrow> VerdictAllow))"
proof -
  define fl where "fl = flow_of src dst req"
  define s1 where "s1 = (if ep_kind src = EndpointGuestNic then fwo_state (fst (enforceGuest e src fl ''out'' ''source-guest-out'' res)) else fwAllow)"
  define s2 where "s2 = (if ep_kind dst = EndpointGuestNic then fwo_state (fst (enforceGuest e dst fl ''in'' ''dest-guest-in'' res)) else fwAllow)"
  have 0: "fwo_state (fst (evaluateFirewall e src dst req res)) = (if s1 \<noteq> fwAllow then s1 else s2)"
    unfolding evaluateFirewall_outcome Let_def fl_def [symmetric]
    by (simp add: s1_def s2_def)
  have 1: "s1 = (case point_verdict e src fl ''out'' of None \<Rightarrow> fwAllow | Some v \<Rightarrow> if v = VerdictDeny then fwDeny else fwIndeterminate)"
    by (cases "ep_kind src = EndpointGuestNic") (simp_all add: s1_def enforceGuest_verdict point_verdict_other)
  have 2: "s2 = (case point_verdict e dst fl ''in'' of None \<Rightarrow> fwAllow | Some v \<Rightarrow> if v = VerdictDeny then fwDeny else fwIndeterminate)"
    by (cases "ep_kind dst = EndpointGuestNic") (simp_all add: s2_def enforceGuest_verdict point_verdict_other)
  show ?thesis unfolding 0 1 2 fl_def [symmetric]
    using point_verdict_values [of e src fl "''out''"] point_verdict_values [of e dst fl "''in''"]
    by (cases "point_verdict e src fl ''out''"; cases "point_verdict e dst fl ''in''") auto
qed

text \<open>
  C10. The verdict refines its specification: indeterminate if an endpoint could not be resolved;
  otherwise what the path relation says when there is no path or it cannot be told; otherwise the
  first enforcement point, outbound at the source and then inbound at the destination, that does
  not let the flow through; otherwise allow. The result also echoes the resolved endpoints.
\<close>

theorem Simulate_refines:
  assumes "Simulate fuel inp req = Some res"
  shows "res_Verdict res = verdict_spec (NewEngine inp) req
       \<and> res_Src res = ep_public (src_ep (NewEngine inp) req) \<and> res_Dst res = ep_public (dst_ep (NewEngine inp) req)"
  using assms [unfolded Simulate_def]
proof (cases rule: Simulate_ending)
  case fatal
  then show ?thesis by (simp add: start_result_facts verdict_spec_def Let_def)
next
  case (broken reach r1)
  with reached [OF broken(1,2)] show ?thesis
    by (simp add: start_result_facts verdict_spec_def Let_def grows_def)
next
  case (unsure reach r1)
  with reached [OF unsure(1,2)] show ?thesis
    by (simp add: start_result_facts verdict_spec_def Let_def grows_def)
next
  case (fw reach r1 out r2)
  let ?e = "NewEngine inp"
  have "res_Verdict res = (case fwo_state (fst (evaluateFirewall ?e (src_ep ?e req) (dst_ep ?e req) req r1)) of
      fwAllow \<Rightarrow> VerdictAllow | fwDeny \<Rightarrow> VerdictDeny | fwIndeterminate \<Rightarrow> VerdictIndeterminate)"
    by (simp add: fw(4,5) split: fwState.split)
  then have "res_Verdict res = verdict_spec ?e req"
    using fw(1,3) reached(4) [OF fw(1,2)] by (simp add: evaluateFirewall_verdict verdict_spec_def Let_def)
  moreover have "res_Src res = res_Src r2 \<and> res_Dst res = res_Dst r2"
    by (simp add: fw(5) split: fwState.split)
  ultimately show ?thesis using judged(3) [OF fw(1-4)] by (simp add: grows_def start_result_facts)
qed

theorem Simulate_refines_witness:
  "verdict_spec (NewEngine ex_input) ex_bad_req = VerdictIndeterminate"
proof -
  have "map_option res_Verdict (Simulate 1 ex_input ex_bad_req) = Some VerdictIndeterminate" by code_simp
  then obtain res where r: "Simulate 1 ex_input ex_bad_req = Some res" "res_Verdict res = VerdictIndeterminate" by auto
  with Simulate_refines [OF r(1)] show ?thesis by simp
qed


section \<open>Facts: the simulator answers\<close>

text \<open>
  C38. On every inventory whose enslaved-by edges form no cycle, the simulator answers every
  question: the recursion of the trunk cross-check is bounded by the number of edges.
\<close>

theorem Simulate_answers:
  assumes "acyclic (enslaved (in_Inventory inp))" and "length (inv_edges (in_Inventory inp)) < fuel"
  shows "\<exists>res. Simulate fuel inp req = Some res"
proof -
  let ?e = "NewEngine inp"
  have "eng_inv (indexEntity e ent) = eng_inv e" for e ent
    by (simp add: indexEntity_def Let_def split: Entity.split)
  then have "eng_inv (foldl indexEntity e es) = eng_inv e" for e es
    by (induction es arbitrary: e) simp_all
  then have inv: "eng_inv ?e = in_Inventory inp" by (simp add: NewEngine_def)
  obtain reach r1 where r: "reachability fuel ?e (src_ep ?e req) (dst_ep ?e req) (start_result ?e req) = Some (reach, r1)"
    using reachability_total [of ?e fuel] assms unfolding inv by blast
  obtain out r2 where o: "evaluateFirewall ?e (src_ep ?e req) (dst_ep ?e req) req r1 = (out, r2)" by force
  show ?thesis unfolding Simulate_def Engine_Simulate_unfold Let_def
    by (simp add: r o split: pathState.split fwState.split)
qed

theorem Simulate_answers_witness: "\<exists>res. Simulate 1 ex_input (ex_req 0) = Some res"
  by (rule Simulate_answers) (simp_all add: ex_input_def enslaved_def acyclic_def)

text \<open>
  With a cycle of bonds the trunk cross-check does not return. If a bridge carries the VLAN
  asked about and one of its ports is a bond in a set of bonds each of which has a slave in the
  set, then the check does not return, however much fuel it is given.
\<close>

theorem trunkCheck_diverges:
  assumes "bridgeByName e node name = Some br" and "vid \<noteq> 0" and "br_VlanAware br" and "vidPermitted br vid"
    and "mkEdge port (br_Ref br) EdgePortOf \<in> set (inv_edges (eng_inv e))" and "port \<in> C"
    and "\<And>p. p \<in> C \<Longrightarrow> (ref_Kind p = KindBond \<or> ref_Kind p = KindOVSBond)
      \<and> (\<exists>q \<in> C. (q, p) \<in> enslaved (eng_inv e))"
  shows "trunkCheck fuel e node name vid res = None"
proof -
  have "mkEdge port (br_Ref br) EdgePortOf \<in> set (EdgesOf (eng_inv e) (br_Ref br))"
    using assms(5) by (simp add: set_EdgesOf)
  then have "lldpTrunkCrossCheck fuel e br vid res = None"
    unfolding lldpTrunkCrossCheck_def
    by (rule foldM_opt_stuck) (simp add: lldpCheckFromPort_stuck [OF assms(7,6)])
  with assms(1-4) show ?thesis by (simp add: trunkCheck_def)
qed

definition ex_bond :: Ref where
  "ex_bond = mkRef KindBond ''pve1'' ''bond0''"

definition ex_cyclic :: Input where
  "ex_cyclic = \<lparr> in_Inventory = \<lparr> inv_entities =
       [(mkRef KindBridge ''pve1'' ''vmbr0'', EBridge ((ex_bridge ''pve1'')\<lparr>br_VlanAware := True\<rparr>))],
       inv_edges = [mkEdge ex_bond (mkRef KindBridge ''pve1'' ''vmbr0'') EdgePortOf, mkEdge ex_bond ex_bond EdgeEnslavedBy] \<rparr>,
     in_GuestIPs = Map.empty, in_ShapedRefs = [] \<rparr>"

theorem trunkCheck_diverges_witness:
  "trunkCheck 1000 (NewEngine ex_cyclic) ''pve1'' ''vmbr0'' 30 zero_Result = None"
proof (rule trunkCheck_diverges [where port = ex_bond and C = "{ex_bond}" and br = "(ex_bridge ''pve1'')\<lparr>br_VlanAware := True\<rparr>"])
  have inv: "eng_inv (NewEngine ex_cyclic) = in_Inventory ex_cyclic"
    by (simp add: NewEngine_def ex_cyclic_def Snapshot_All_def sortedEntities_def indexEntity_def Let_def)
  show "bridgeByName (NewEngine ex_cyclic) ''pve1'' ''vmbr0'' = Some ((ex_bridge ''pve1'')\<lparr>br_VlanAware := True\<rparr>)"
    by (simp add: NewEngine_def ex_cyclic_def Snapshot_All_def sortedEntities_def indexEntity_def Let_def
        bridgeByName_def ex_bridge_def)
  show "vidPermitted ((ex_bridge ''pve1'')\<lparr>br_VlanAware := True\<rparr>) 30"
    by (simp add: vidPermitted_def ex_bridge_def zero_Bridge_def)
  show "mkEdge ex_bond (br_Ref ((ex_bridge ''pve1'')\<lparr>br_VlanAware := True\<rparr>)) EdgePortOf \<in> set (inv_edges (eng_inv (NewEngine ex_cyclic)))"
    unfolding inv by (simp add: ex_cyclic_def ex_bridge_def)
  show "(ref_Kind p = KindBond \<or> ref_Kind p = KindOVSBond) \<and> (\<exists>q \<in> {ex_bond}. (q, p) \<in> enslaved (eng_inv (NewEngine ex_cyclic)))"
    if "p \<in> {ex_bond}" for p
  proof -
    have "(ex_bond, ex_bond) \<in> enslaved (in_Inventory ex_cyclic)" unfolding enslaved_image
      by (rule image_eqI [where x = "mkEdge ex_bond ex_bond EdgeEnslavedBy"]) (simp_all add: ex_cyclic_def)
    with that show ?thesis unfolding inv by (simp add: ex_bond_def)
  qed
qed simp_all

end
