(* ===== verification/HA_Lease.thy ===== *)
theory HA_Lease
  imports Vnprox_Prelude
begin

text \<open>
  Active/standby arbitration (\<^verbatim>\<open>src/internal/ha/manager.go\<close>, types in \<^verbatim>\<open>ha.go\<close> and
  \<^verbatim>\<open>replicate.go\<close>): one definition per method of \<open>Manager\<close>. Times are nanoseconds, \<open>unix\<close> their
  whole seconds; terms are unbounded integers (an \<open>int64\<close> in the code, one step per promotion). The
  answers of the seams (the lease store, the snapshot source, the replicator, the applier) are
  arguments; \<open>hm_stored\<close> is what the lease store holds. Calls on the coordinator and the announcer
  are returned as a list of effects.

  The mutex is released around every call on a seam and between the steps of a promotion, so a
  method is several locked sections: \<open>acquireLease\<close>, \<open>adoptBatch\<close>, \<open>pushFailed\<close> and so on. The
  methods are their compositions, that is the methods run without interruption; the step relation
  \<open>ha_step\<close> interleaves the sections of the one ticker goroutine with those of any number of
  \<open>Receive\<close> calls (\<^verbatim>\<open>transport.go\<close>).
\<close>

section \<open>State\<close>

datatype Role = RoleStandby | RoleActive

record Lease =
  ls_Holder :: string
  ls_Term :: int
  ls_ExpiresAt :: int
  ls_AcquiredAt :: int
  ls_UpdatedAt :: int

definition zero_Lease :: Lease where
  "zero_Lease = \<lparr> ls_Holder = [], ls_Term = 0, ls_ExpiresAt = 0, ls_AcquiredAt = 0, ls_UpdatedAt = 0 \<rparr>"

record Ack =
  ack_Role :: Role
  ack_Term :: int
  ack_AuditMaxID :: int

record HAConfig =
  hc_hasLease :: bool
  hc_hasCoordinator :: bool
  hc_hasReplication :: bool
  hc_hasApplier :: bool
  hc_hasAnnouncer :: bool
  hc_InstanceID :: string
  hc_LeaseTTL :: int
  hc_RenewInterval :: int
  hc_FencingMargin :: int
  hc_LagThreshold :: int
  hc_Bootstrap :: bool

record Manager =
  hm_observedAt :: "int option"
  hm_lastPushOK :: "int option"
  hm_hasApplier :: bool
  hm_hasReplication :: bool
  hm_hasAnnouncer :: bool
  hm_lastErr :: bool
  hm_instanceID :: string
  hm_role :: Role
  hm_lease :: Lease
  hm_observed :: Lease
  hm_leaseTTL :: int
  hm_renew :: int
  hm_margin :: int
  hm_lag :: int
  hm_auditCursor :: int
  hm_lagThresh :: int
  hm_bootstrap :: bool
  hm_degraded :: bool
  hm_stored :: "Lease option"

datatype ha_effect = ReArm | Quiesce | Announce Role

datatype new_manager_error = LeaseRequired | CoordinatorRequired | InstanceIDRequired

abbreviation second :: int where
  "second \<equiv> 1000000000"

definition unix :: "int \<Rightarrow> int" where
  "unix t = t div second"

definition DefaultLeaseTTL :: int where "DefaultLeaseTTL = 15 * second"
definition DefaultRenewInterval :: int where "DefaultRenewInterval = 5 * second"
definition DefaultFencingMargin :: int where "DefaultFencingMargin = 15 * second"
definition DefaultReplicationLagThreshold :: int where "DefaultReplicationLagThreshold = 500"

definition NewManager :: "HAConfig \<Rightarrow> Lease option \<Rightarrow> new_manager_error + Manager" where
  "NewManager cfg stored =
     (if \<not> hc_hasLease cfg then Inl LeaseRequired
      else if \<not> hc_hasCoordinator cfg then Inl CoordinatorRequired
      else if hc_InstanceID cfg = [] then Inl InstanceIDRequired
      else Inr \<lparr> hm_observedAt = None, hm_lastPushOK = None, hm_hasApplier = hc_hasApplier cfg,
             hm_hasReplication = hc_hasReplication cfg, hm_hasAnnouncer = hc_hasAnnouncer cfg,
             hm_lastErr = False, hm_instanceID = hc_InstanceID cfg, hm_role = RoleStandby,
             hm_lease = zero_Lease, hm_observed = zero_Lease,
             hm_leaseTTL = (if hc_LeaseTTL cfg \<le> 0 then DefaultLeaseTTL else hc_LeaseTTL cfg),
             hm_renew = (if hc_RenewInterval cfg \<le> 0 then DefaultRenewInterval else hc_RenewInterval cfg),
             hm_margin = (if hc_FencingMargin cfg \<le> 0 then DefaultFencingMargin else hc_FencingMargin cfg),
             hm_lag = 0, hm_auditCursor = 0,
             hm_lagThresh = (if hc_LagThreshold cfg \<le> 0 then DefaultReplicationLagThreshold else hc_LagThreshold cfg),
             hm_bootstrap = hc_Bootstrap cfg, hm_degraded = False, hm_stored = stored \<rparr>)"


section \<open>Becoming active, stepping down\<close>

text \<open>\<open>leaseStore.Set\<close> of the lease read in a locked section before; it may fail.\<close>

definition persist :: "bool \<Rightarrow> Lease \<Rightarrow> Manager \<Rightarrow> Manager" where
  "persist setOk l m = (if setOk then m\<lparr>hm_stored := Some l\<rparr> else m)"

definition announce :: "Manager \<Rightarrow> Role \<Rightarrow> ha_effect list" where
  "announce m r = (if hm_hasAnnouncer m then [Announce r] else [])"

text \<open>The flag of the result says that the method returned an error.\<close>

definition becomeActive :: "int \<Rightarrow> bool \<Rightarrow> Manager \<Rightarrow> Manager \<times> ha_effect list \<times> bool" where
  "becomeActive now setOk m =
     (let lease = hm_lease m;
          m = m\<lparr>hm_lastPushOK := Some now\<rparr>;
          m = persist setOk lease m
      in if \<not> setOk then (m, [], True)
         else (m, ReArm # announce m RoleActive, False))"

definition acquireLease :: "int \<Rightarrow> int \<Rightarrow> Manager \<Rightarrow> Manager" where
  "acquireLease now base m =
     m\<lparr>hm_lease := \<lparr> ls_Holder = hm_instanceID m, ls_Term = base + 1,
         ls_ExpiresAt = unix (now + hm_leaseTTL m), ls_AcquiredAt = unix now, ls_UpdatedAt = unix now \<rparr>,
       hm_role := RoleActive\<rparr>"

definition promoteFrom :: "int \<Rightarrow> bool \<Rightarrow> int \<Rightarrow> Manager \<Rightarrow> Manager \<times> ha_effect list \<times> bool" where
  "promoteFrom now setOk base m = becomeActive now setOk (acquireLease now base m)"

definition demote :: "int \<Rightarrow> Manager \<Rightarrow> Manager \<times> ha_effect list" where
  "demote newerTerm m =
     (if hm_role m \<noteq> RoleActive then (m, [])
      else (m\<lparr>hm_role := RoleStandby,
              hm_lease := (if newerTerm > ls_Term (hm_lease m)
                           then (hm_lease m)\<lparr>ls_Term := newerTerm, ls_Holder := []\<rparr> else hm_lease m)\<rparr>,
            Quiesce # announce m RoleStandby))"


section \<open>Start\<close>

datatype lease_get = GotLease Lease | GotNoLease | GetFailed

definition read_lease :: "Manager \<Rightarrow> lease_get" where
  "read_lease m = (case hm_stored m of None \<Rightarrow> GotNoLease | Some l \<Rightarrow> GotLease l)"

definition ha_Start :: "int \<Rightarrow> lease_get \<Rightarrow> bool \<Rightarrow> Manager \<Rightarrow> Manager \<times> ha_effect list \<times> bool" where
  "ha_Start now got setOk m =
     (case got of
        GotLease persisted \<Rightarrow>
          let m = m\<lparr>hm_lease := persisted\<rparr> in
          if ls_Holder persisted = hm_instanceID m \<and> unix now \<le> ls_ExpiresAt persisted
          then becomeActive now setOk (m\<lparr>hm_role := RoleActive\<rparr>)
          else (m\<lparr>hm_observed := persisted, hm_observedAt := Some now\<rparr>, [], False)
      | GotNoLease \<Rightarrow>
          if hm_bootstrap m then promoteFrom now setOk 0 m
          else (m\<lparr>hm_observed := zero_Lease\<lparr>ls_ExpiresAt := unix (now + hm_leaseTTL m)\<rparr>,
                  hm_observedAt := Some now\<rparr>, [], False)
      | GetFailed \<Rightarrow> (m, [], True))"


section \<open>Ticks\<close>

definition extendLease :: "int \<Rightarrow> Manager \<Rightarrow> Manager" where
  "extendLease now m =
     m\<lparr>hm_lease := (hm_lease m)\<lparr>ls_ExpiresAt := unix (now + hm_leaseTTL m), ls_UpdatedAt := unix now\<rparr>\<rparr>"

definition renewLease :: "int \<Rightarrow> bool \<Rightarrow> Manager \<Rightarrow> Manager" where
  "renewLease now setOk m = (let m = extendLease now m in persist setOk (hm_lease m) m)"

text \<open>The locked sections of the two handlers; the flags say that a \<open>demote\<close> follows.\<close>

definition pushFailed :: "int \<Rightarrow> Manager \<Rightarrow> Manager \<times> bool" where
  "pushFailed now m =
     (m\<lparr>hm_lastErr := True, hm_degraded := True\<rparr>,
      case hm_lastPushOK m of None \<Rightarrow> False | Some t \<Rightarrow> now - t \<ge> hm_leaseTTL m)"

definition handlePushFailure :: "int \<Rightarrow> Manager \<Rightarrow> Manager \<times> ha_effect list" where
  "handlePushFailure now m =
     (let (m, stale) = pushFailed now m in if stale then demote 0 m else (m, []))"

definition pushAcked :: "int \<Rightarrow> Ack \<Rightarrow> int option \<Rightarrow> Manager \<Rightarrow> Manager \<times> bool" where
  "pushAcked now ack hw m =
     (let m = m\<lparr>hm_lastErr := False, hm_lastPushOK := Some now, hm_auditCursor := ack_AuditMaxID ack\<rparr>;
          m = (case hw of None \<Rightarrow> m
               | Some h \<Rightarrow> let lag = max 0 (h - ack_AuditMaxID ack)
                           in m\<lparr>hm_lag := lag, hm_degraded := lag > hm_lagThresh m\<rparr>)
      in (m, ack_Term ack > ls_Term (hm_lease m)))"

definition handlePushAck :: "int \<Rightarrow> Ack \<Rightarrow> int option \<Rightarrow> Manager \<Rightarrow> Manager \<times> ha_effect list" where
  "handlePushAck now ack hw m =
     (let (m, superseded) = pushAcked now ack hw m
      in if superseded then demote (ack_Term ack) m else (m, []))"

datatype push_answer = GatherFailed | PushFailed | PushAcked Ack

definition finishPush :: "int \<Rightarrow> push_answer \<Rightarrow> int option \<Rightarrow> Manager \<Rightarrow> Manager \<times> ha_effect list" where
  "finishPush now ans hw m =
     (case ans of
        GatherFailed \<Rightarrow> (m, [])
      | PushFailed \<Rightarrow> handlePushFailure now m
      | PushAcked ack \<Rightarrow> handlePushAck now ack hw m)"

definition tickActive :: "int \<Rightarrow> bool \<Rightarrow> push_answer \<Rightarrow> int option \<Rightarrow> Manager \<Rightarrow> Manager \<times> ha_effect list" where
  "tickActive now setOk ans hw m =
     (let m = renewLease now setOk m in
      if \<not> hm_hasReplication m then (m, []) else finishPush now ans hw m)"

definition shouldPromote :: "int \<Rightarrow> Manager \<Rightarrow> bool" where
  "shouldPromote now m \<longleftrightarrow> unix now > ls_ExpiresAt (hm_observed m) + hm_margin m div second"

definition promotionBase :: "Manager \<Rightarrow> int" where
  "promotionBase m = (if ls_Term (hm_observed m) > ls_Term (hm_lease m)
                      then ls_Term (hm_observed m) else ls_Term (hm_lease m))"

definition tickStandby :: "int \<Rightarrow> bool \<Rightarrow> Manager \<Rightarrow> Manager \<times> ha_effect list" where
  "tickStandby now setOk m =
     (if \<not> shouldPromote now m then (m, [])
      else let (m', eff, err) = promoteFrom now setOk (promotionBase m) m in (m', eff))"

definition Tick :: "int \<Rightarrow> bool \<Rightarrow> push_answer \<Rightarrow> int option \<Rightarrow> Manager \<Rightarrow> Manager \<times> ha_effect list" where
  "Tick now setOk ans hw m =
     (if hm_role m = RoleActive then tickActive now setOk ans hw m else tickStandby now setOk m)"


section \<open>Receive\<close>

definition mk_ack :: "int option \<Rightarrow> Role \<Rightarrow> Manager \<Rightarrow> Ack" where
  "mk_ack hw role m = \<lparr> ack_Role = role, ack_Term = ls_Term (hm_lease m),
     ack_AuditMaxID = (if hm_hasApplier m then (case hw of None \<Rightarrow> 0 | Some h \<Rightarrow> h) else 0) \<rparr>"

text \<open>
  The batch is represented by its lease; \<open>None\<close> as the acknowledgement is an error return. The first
  locked section of \<open>Receive\<close> reads the term and the role for the fence, the second records the
  batch and says whether the receiver was active on an older term.
\<close>

definition staleBatch :: "Lease \<Rightarrow> Manager \<Rightarrow> bool" where
  "staleBatch blease m \<longleftrightarrow>
     (let senderTerm = ls_Term blease; myTerm = ls_Term (hm_lease m); role = hm_role m
      in senderTerm < myTerm
         \<or> role = RoleActive \<and> senderTerm = myTerm \<and> ls_Holder blease \<noteq> hm_instanceID m)"

definition adoptBatch :: "int \<Rightarrow> Lease \<Rightarrow> Manager \<Rightarrow> Manager \<times> bool" where
  "adoptBatch now blease m =
     (let senderTerm = ls_Term blease;
          m = m\<lparr>hm_observed := blease, hm_observedAt := Some now\<rparr>;
          wasActiveOnOlderTerm = (hm_role m = RoleActive \<and> senderTerm > ls_Term (hm_lease m));
          m = (if senderTerm > ls_Term (hm_lease m) then m\<lparr>hm_lease := blease, hm_role := RoleStandby\<rparr> else m)
      in (m, wasActiveOnOlderTerm))"

definition Receive ::
  "int \<Rightarrow> Lease \<Rightarrow> bool \<Rightarrow> int option \<Rightarrow> Manager \<Rightarrow> Manager \<times> ha_effect list \<times> Ack option" where
  "Receive now blease applyOk hw m =
     (if staleBatch blease m then (m, [], Some (mk_ack hw (hm_role m) m))
      else if hm_hasApplier m \<and> \<not> applyOk then (m, [], None)
      else
        let (m, wasActiveOnOlderTerm) = adoptBatch now blease m
        in (m, if wasActiveOnOlderTerm then Quiesce # announce m RoleStandby else [],
            Some (mk_ack hw (hm_role m) m)))"

definition IsLeader :: "Manager \<Rightarrow> bool" where
  "IsLeader m \<longleftrightarrow> hm_role m = RoleActive"

record HAStatus =
  hs_Role :: Role
  hs_Term :: int
  hs_LeaseExpiresAt :: int
  hs_ReplicationLag :: int
  hs_ReplicationDegraded :: bool
  hs_LastError :: bool

definition ha_Status :: "Manager \<Rightarrow> HAStatus" where
  "ha_Status m = \<lparr> hs_Role = hm_role m, hs_Term = ls_Term (hm_lease m), hs_LeaseExpiresAt = ls_ExpiresAt (hm_lease m),
     hs_ReplicationLag = hm_lag m, hs_ReplicationDegraded = hm_degraded m, hs_LastError = hm_lastErr m \<rparr>"


section \<open>One daemon's steps\<close>

text \<open>
  Where the ticker goroutine stands between two locked sections or seam calls, with the local
  variables it holds there: it has read an active or a standby role; it has extended the lease and
  is about to store it; a push is on its way; a demotion to a term is decided; a promotion is
  decided, at the time it read; the base of the new term is read; the lease is acquired; the
  acquired lease is about to be stored.
\<close>

datatype Ticker = TkIdle | TkActive | TkExtended int Lease | TkPushing int | TkDemote int
  | TkStandby | TkDecided int | TkBase int | TkAcquired | TkStoring Lease

text \<open>The manager, its ticker, and the batches that passed the fence of \<open>Receive\<close> and are being applied.\<close>

record HAState =
  ha_mgr :: Manager
  ha_ticker :: Ticker
  ha_incoming :: "(int \<times> Lease) list"

definition ha_idle :: "Manager \<Rightarrow> HAState" where
  "ha_idle m = \<lparr> ha_mgr = m, ha_ticker = TkIdle, ha_incoming = [] \<rparr>"

abbreviation term_of :: "Manager \<Rightarrow> int" where
  "term_of m \<equiv> ls_Term (hm_lease m)"

abbreviation ha_leads :: "HAState \<Rightarrow> bool" where
  "ha_leads c \<equiv> IsLeader (ha_mgr c)"

abbreviation ha_term :: "HAState \<Rightarrow> int" where
  "ha_term c \<equiv> term_of (ha_mgr c)"

text \<open>
  Anything a running daemon can do but acquire the lease: at any time, with any answers of its
  seams and any incoming batches, one locked section or seam call at a time. A batch that is stale
  at the fence, and one that arrives twice, change nothing here. \<open>Start\<close> is not among the steps; it
  begins a new run.
\<close>

inductive ha_local :: "HAState \<Rightarrow> HAState \<Rightarrow> bool" where
  tick: "ha_ticker c = TkIdle \<Longrightarrow>
    ha_local c (c\<lparr>ha_ticker := (if hm_role (ha_mgr c) = RoleActive then TkActive else TkStandby)\<rparr>)"
| extend: "ha_ticker c = TkActive \<Longrightarrow> m = extendLease now (ha_mgr c) \<Longrightarrow>
    ha_local c (c\<lparr>ha_mgr := m, ha_ticker := TkExtended now (hm_lease m)\<rparr>)"
| store: "ha_ticker c = TkExtended now l \<Longrightarrow>
    ha_local c (c\<lparr>ha_mgr := persist setOk l (ha_mgr c),
      ha_ticker := (if hm_hasReplication (ha_mgr c) then TkPushing now else TkIdle)\<rparr>)"
| gather_failed: "ha_ticker c = TkPushing now \<Longrightarrow> ha_local c (c\<lparr>ha_ticker := TkIdle\<rparr>)"
| push_failed: "ha_ticker c = TkPushing now \<Longrightarrow> pushFailed now (ha_mgr c) = (m, stale) \<Longrightarrow>
    ha_local c (c\<lparr>ha_mgr := m, ha_ticker := (if stale then TkDemote 0 else TkIdle)\<rparr>)"
| push_acked: "ha_ticker c = TkPushing now \<Longrightarrow> pushAcked now ack hw (ha_mgr c) = (m, superseded) \<Longrightarrow>
    ha_local c (c\<lparr>ha_mgr := m, ha_ticker := (if superseded then TkDemote (ack_Term ack) else TkIdle)\<rparr>)"
| step_down: "ha_ticker c = TkDemote newerTerm \<Longrightarrow>
    ha_local c (c\<lparr>ha_mgr := fst (demote newerTerm (ha_mgr c)), ha_ticker := TkIdle\<rparr>)"
| decide: "ha_ticker c = TkStandby \<Longrightarrow>
    ha_local c (c\<lparr>ha_ticker := (if shouldPromote now (ha_mgr c) then TkDecided now else TkIdle)\<rparr>)"
| base: "ha_ticker c = TkDecided now \<Longrightarrow> ha_local c (c\<lparr>ha_ticker := TkBase (promotionBase (ha_mgr c))\<rparr>)"
| activate: "ha_ticker c = TkAcquired \<Longrightarrow>
    ha_local c (c\<lparr>ha_mgr := (ha_mgr c)\<lparr>hm_lastPushOK := Some now\<rparr>, ha_ticker := TkStoring (hm_lease (ha_mgr c))\<rparr>)"
| stored: "ha_ticker c = TkStoring l \<Longrightarrow>
    ha_local c (c\<lparr>ha_mgr := persist setOk l (ha_mgr c), ha_ticker := TkIdle\<rparr>)"
| pass_fence: "\<not> staleBatch b (ha_mgr c) \<Longrightarrow>
    ha_local c (c\<lparr>ha_incoming := ha_incoming c @ [(now, b)]\<rparr>)"
| not_applied: "(now, b) \<in> set (ha_incoming c) \<Longrightarrow> hm_hasApplier (ha_mgr c) \<Longrightarrow>
    ha_local c (c\<lparr>ha_incoming := remove1 (now, b) (ha_incoming c)\<rparr>)"
| adopt: "(now, b) \<in> set (ha_incoming c) \<Longrightarrow>
    ha_local c (c\<lparr>ha_mgr := fst (adoptBatch now b (ha_mgr c)), ha_incoming := remove1 (now, b) (ha_incoming c)\<rparr>)"

text \<open>The first section of \<open>promoteFrom\<close> is the one step that makes a daemon the leader.\<close>

inductive ha_step :: "HAState \<Rightarrow> HAState \<Rightarrow> bool" where
  elsewhere: "ha_local c c' \<Longrightarrow> ha_step c c'"
| acquire: "ha_ticker c = TkBase b \<Longrightarrow>
    ha_step c (c\<lparr>ha_mgr := acquireLease now b (ha_mgr c), ha_ticker := TkAcquired\<rparr>)"

inductive_cases ha_stepE: "ha_step c c'"


section \<open>Facts\<close>

lemma persist_simps [simp]:
  "hm_lease (persist b l m) = hm_lease m" "hm_role (persist b l m) = hm_role m"
  "hm_observed (persist b l m) = hm_observed m" "hm_instanceID (persist b l m) = hm_instanceID m"
  "hm_lastPushOK (persist b l m) = hm_lastPushOK m" "hm_margin (persist b l m) = hm_margin m"
  "hm_leaseTTL (persist b l m) = hm_leaseTTL m"
  "hm_hasReplication (persist b l m) = hm_hasReplication m" "hm_hasApplier (persist b l m) = hm_hasApplier m"
  by (simp_all add: persist_def)

lemma acquireLease_simps [simp]:
  "hm_role (acquireLease now b m) = RoleActive" "term_of (acquireLease now b m) = b + 1"
  "ls_Holder (hm_lease (acquireLease now b m)) = hm_instanceID m"
  "ls_ExpiresAt (hm_lease (acquireLease now b m)) = unix (now + hm_leaseTTL m)"
  "hm_observed (acquireLease now b m) = hm_observed m" "hm_instanceID (acquireLease now b m) = hm_instanceID m"
  by (simp_all add: acquireLease_def)

lemma demote_simps [simp]:
  "\<not> IsLeader (fst (demote t m))" "hm_observed (fst (demote t m)) = hm_observed m"
  by (auto simp: demote_def IsLeader_def)

lemma demote_term: "term_of m \<le> term_of (fst (demote t m))"
  by (simp add: demote_def)


lemma adoptBatch_standby: "hm_role m \<noteq> RoleActive \<Longrightarrow> hm_role (fst (adoptBatch now b m)) \<noteq> RoleActive"
  by (simp add: adoptBatch_def Let_def)




lemma ha_local_steps: "ha_local\<^sup>*\<^sup>* c c' \<Longrightarrow> ha_step\<^sup>*\<^sup>* c c'"
  by (erule rtranclp_mono [THEN predicate2D, rotated]) (blast intro: ha_step.elsewhere)





text \<open>The methods run alone are runs of the relation.\<close>

abbreviation ha_at :: "Manager \<Rightarrow> Ticker \<Rightarrow> HAState" where
  "ha_at m k \<equiv> (ha_idle m)\<lparr>ha_ticker := k\<rparr>"

lemma tick_to_base:
  assumes "\<not> IsLeader m" and "shouldPromote now m"
  shows "ha_local\<^sup>*\<^sup>* (ha_idle m) (ha_at m (TkBase (promotionBase m)))"
proof -
  have "ha_local (ha_idle m) (ha_at m TkStandby)"
    using ha_local.tick [of "ha_idle m"] assms(1) by (simp add: ha_idle_def IsLeader_def)
  moreover have "ha_local (ha_at m TkStandby) (ha_at m (TkDecided now))"
    using ha_local.decide [of "ha_at m TkStandby" now] assms(2) by (simp add: ha_idle_def)
  moreover have "ha_local (ha_at m (TkDecided now)) (ha_at m (TkBase (promotionBase m)))"
    using ha_local.base [of "ha_at m (TkDecided now)" now] by (simp add: ha_idle_def)
  ultimately show ?thesis by (blast intro: converse_rtranclp_into_rtranclp)
qed

lemma tickStandby_runs:
  assumes "\<not> IsLeader m"
  shows "ha_step\<^sup>*\<^sup>* (ha_idle m) (ha_idle (fst (tickStandby now setOk m)))"
proof (cases "shouldPromote now m")
  case False
  then show ?thesis by (simp add: tickStandby_def)
next
  case True
  let ?b = "promotionBase m" and ?a = "acquireLease now (promotionBase m) m"
  have "ha_step (ha_at m (TkBase ?b)) (ha_at ?a TkAcquired)"
    using ha_step.acquire [of "ha_at m (TkBase ?b)" ?b now] by (simp add: ha_idle_def)
  moreover have "ha_step (ha_at ?a TkAcquired) (ha_at (?a\<lparr>hm_lastPushOK := Some now\<rparr>) (TkStoring (hm_lease ?a)))"
    using ha_local.activate [of "ha_at ?a TkAcquired" now] by (auto simp: ha_idle_def intro: ha_step.elsewhere)
  moreover have "ha_step (ha_at (?a\<lparr>hm_lastPushOK := Some now\<rparr>) (TkStoring (hm_lease ?a)))
      (ha_idle (fst (tickStandby now setOk m)))"
    using ha_local.stored [of "ha_at (?a\<lparr>hm_lastPushOK := Some now\<rparr>) (TkStoring (hm_lease ?a))" "hm_lease ?a" setOk] True
    by (auto simp: ha_idle_def tickStandby_def promoteFrom_def becomeActive_def Let_def intro: ha_step.elsewhere)
  ultimately show ?thesis
    using ha_local_steps [OF tick_to_base [OF assms True]] by (meson rtranclp.rtrancl_into_rtrancl)
qed

lemma Receive_runs: "ha_local\<^sup>*\<^sup>* (ha_idle m) (ha_idle (fst (Receive now b applyOk hw m)))"
proof (cases "staleBatch b m")
  case False
  let ?c = "(ha_idle m)\<lparr>ha_incoming := [(now, b)]\<rparr>"
  have "ha_local (ha_idle m) ?c"
    using ha_local.pass_fence [of b "ha_idle m" now] False by (simp add: ha_idle_def)
  moreover have "ha_local ?c (ha_idle (fst (Receive now b applyOk hw m)))"
    using ha_local.not_applied [of now b ?c] ha_local.adopt [of now b ?c] False
    by (auto simp: ha_idle_def Receive_def split: prod.split)
  ultimately show ?thesis by (meson r_into_rtranclp rtranclp_trans)
qed (simp add: Receive_def)


section \<open>Contracts\<close>











definition ex_cfg :: "string \<Rightarrow> bool \<Rightarrow> HAConfig" where
  "ex_cfg i b = \<lparr> hc_hasLease = True, hc_hasCoordinator = True, hc_hasReplication = True, hc_hasApplier = True,
     hc_hasAnnouncer = True, hc_InstanceID = i, hc_LeaseTTL = 0, hc_RenewInterval = 0, hc_FencingMargin = 0,
     hc_LagThreshold = 0, hc_Bootstrap = b \<rparr>"

definition ex_manager :: "string \<Rightarrow> bool \<Rightarrow> Manager" where
  "ex_manager i b = (case NewManager (ex_cfg i b) None of Inr m \<Rightarrow> m)"

definition ex_boot :: "string \<Rightarrow> bool \<Rightarrow> Manager" where
  "ex_boot i b = fst (ha_Start (1000 * second) GotNoLease True (ex_manager i b))"


text \<open>
  C37. A promotion can be overtaken. The ticker unlocks between reading the terms and acquiring the
  lease. A batch of a newer term that is accepted in between does not stop the promotion: in a state
  where the lease the daemon has observed is fresh and comes from the peer, the standby still makes
  itself the leader, at a term that is not above the peer's, and its own term may fall.
\<close>

theorem promotion_overtaken:
  assumes "\<not> IsLeader m" and "shouldPromote now m" and "promotionBase m < ls_Term l"
    and "\<not> shouldPromote later (m\<lparr>hm_observed := l\<rparr>)"
  shows "\<exists>c c'. ha_step\<^sup>*\<^sup>* (ha_idle m) c \<and> ha_step c c'
     \<and> hm_observed (ha_mgr c) = l \<and> hm_lease (ha_mgr c) = l \<and> \<not> shouldPromote later (ha_mgr c)
     \<and> ha_leads c' \<and> ls_Holder (hm_lease (ha_mgr c')) = hm_instanceID m
     \<and> ha_term c' = promotionBase m + 1 \<and> ha_term c' \<le> ha_term c"
proof -
  let ?b = "promotionBase m" and ?m' = "fst (adoptBatch later l m)"
  let ?c = "ha_at ?m' (TkBase ?b)" and ?d = "(ha_at m (TkBase ?b))\<lparr>ha_incoming := [(later, l)]\<rparr>"
  let ?c' = "ha_at (acquireLease later ?b ?m') TkAcquired"
  have t: "term_of m < ls_Term l" using assms(3) by (simp add: promotionBase_def split: if_splits)
  have "ha_local (ha_at m (TkBase ?b)) ?d"
    using ha_local.pass_fence [of l "ha_at m (TkBase ?b)" later] t assms(1)
    by (simp add: ha_idle_def staleBatch_def IsLeader_def)
  moreover have "ha_local ?d ?c"
    using ha_local.adopt [of later l ?d] by (simp add: ha_idle_def)
  ultimately have c: "ha_step\<^sup>*\<^sup>* (ha_idle m) ?c"
    using tick_to_base [OF assms(1,2)] by (intro ha_local_steps) (meson rtranclp.rtrancl_into_rtrancl)
  have "ha_step ?c ?c'"
    using ha_step.acquire [of ?c ?b later] by (simp add: ha_idle_def)
  with c show ?thesis
    using t assms(3,4)
    by (intro exI [of _ ?c] exI [of _ ?c'])
       (auto simp: ha_idle_def adoptBatch_def shouldPromote_def IsLeader_def Let_def)
qed

theorem promotion_overtaken_witness:
  "\<exists>c c'. ha_step\<^sup>*\<^sup>* (ha_idle (ex_boot ''b'' False)) c \<and> ha_step c c' \<and> ha_leads c'
     \<and> ls_Holder (hm_lease (ha_mgr c)) = ''a'' \<and> ha_term c = 1 \<and> ha_term c' = 1"
proof -
  let ?m = "ex_boot ''b'' False"
  let ?l = "\<lparr> ls_Holder = ''a'', ls_Term = 1, ls_ExpiresAt = 1046, ls_AcquiredAt = 1031, ls_UpdatedAt = 1031 \<rparr>"
  have "\<not> IsLeader ?m" "shouldPromote (1031 * second) ?m" "promotionBase ?m < ls_Term ?l"
    "\<not> shouldPromote (1031 * second) (?m\<lparr>hm_observed := ?l\<rparr>)" by code_simp+
  from promotion_overtaken [OF this] obtain c c' where r: "ha_step\<^sup>*\<^sup>* (ha_idle ?m) c" "ha_step c c'"
    "hm_lease (ha_mgr c) = ?l" "ha_leads c'" "ha_term c' = promotionBase ?m + 1" by blast
  have "promotionBase ?m = 0" by code_simp
  with r have "ls_Holder (hm_lease (ha_mgr c)) = ''a'' \<and> ha_term c = 1 \<and> ha_term c' = 1" by simp
  with r show ?thesis by blast
qed

text \<open>
  The replication fence. A batch from an older term changes nothing and is answered with the
  receiver's own, higher term; a batch from a newer term, once applied, leaves the receiver a
  standby at that term which has observed that lease, with its timers quiesced if it was active; a
  batch that cannot be applied changes nothing and is not acknowledged.
\<close>

theorem Receive_fence:
  assumes "Receive now b ok hw m = (m', eff, ack)"
  shows "(ls_Term b < term_of m \<longrightarrow> m' = m \<and> eff = [] \<and> (\<exists>a. ack = Some a \<and> ack_Term a = term_of m))
       \<and> (ls_Term b > term_of m \<and> ack \<noteq> None \<longrightarrow>
            \<not> IsLeader m' \<and> term_of m' = ls_Term b \<and> hm_observed m' = b \<and> (IsLeader m \<longrightarrow> Quiesce \<in> set eff))
       \<and> (ack = None \<longrightarrow> m' = m \<and> eff = [])"
  using assms by (auto simp: Receive_def staleBatch_def adoptBatch_def IsLeader_def mk_ack_def Let_def split: if_splits)

theorem Receive_fence_witness:
  "\<not> IsLeader (fst (Receive 0 (zero_Lease\<lparr>ls_Term := 2\<rparr>) True None (ex_boot ''a'' True)))"
proof -
  obtain m' eff ack where r: "Receive 0 (zero_Lease\<lparr>ls_Term := 2\<rparr>) True None (ex_boot ''a'' True) = (m', eff, ack)"
    by (metis prod_cases3)
  have "term_of (ex_boot ''a'' True) = 1" by code_simp
  moreover have "snd (snd (Receive 0 (zero_Lease\<lparr>ls_Term := 2\<rparr>) True None (ex_boot ''a'' True))) \<noteq> None" by code_simp
  ultimately show ?thesis using Receive_fence [OF r] r by (simp add: zero_Lease_def)
qed

text \<open>
  No silent step-down: whenever a tick or a received batch takes the leadership away from a
  daemon, the change engine's timers are quiesced in the same step.
\<close>

theorem demotion_quiesces:
  assumes "IsLeader m"
  shows "(IsLeader (fst (Tick now setOk ans hw m)) \<or> Quiesce \<in> set (snd (Tick now setOk ans hw m)))
       \<and> (IsLeader (fst (Receive now b ok hw m)) \<or> Quiesce \<in> set (fst (snd (Receive now b ok hw m))))"
proof
  have fin: "IsLeader x \<Longrightarrow> IsLeader (fst (finishPush now ans hw x)) \<or> Quiesce \<in> set (snd (finishPush now ans hw x))" for x
    by (auto simp: finishPush_def handlePushFailure_def pushFailed_def handlePushAck_def pushAcked_def demote_def IsLeader_def Let_def
        split: push_answer.split option.split)
  have "IsLeader (renewLease now setOk m)" using assms by (simp add: renewLease_def extendLease_def IsLeader_def)
  from fin [OF this] assms this
  show "IsLeader (fst (Tick now setOk ans hw m)) \<or> Quiesce \<in> set (snd (Tick now setOk ans hw m))"
    by (auto simp: Tick_def tickActive_def IsLeader_def Let_def)
  show "IsLeader (fst (Receive now b ok hw m)) \<or> Quiesce \<in> set (fst (snd (Receive now b ok hw m)))"
    using assms by (auto simp: Receive_def staleBatch_def adoptBatch_def IsLeader_def Let_def)
qed

theorem demotion_quiesces_witness:
  "Quiesce \<in> set (snd (Tick (1020 * second) True PushFailed None (ex_boot ''a'' True)))"
proof -
  have "IsLeader (ex_boot ''a'' True)" by code_simp
  moreover have "\<not> IsLeader (fst (Tick (1020 * second) True PushFailed None (ex_boot ''a'' True)))" by code_simp
  ultimately show ?thesis using demotion_quiesces by blast
qed


section \<open>Two daemons\<close>

text \<open>
  One acknowledged replication pass: the sender renews its lease and pushes, the receiver handles
  the batch, the sender handles the acknowledgement.
\<close>

definition exchange :: "int \<Rightarrow> Manager \<Rightarrow> Manager \<Rightarrow> Manager \<times> Manager" where
  "exchange now s r =
     (let s = renewLease now True s;
          (r, _, ack) = Receive now (hm_lease s) True (Some 0) r
      in (case ack of None \<Rightarrow> (s, r) | Some a \<Rightarrow> (fst (finishPush now (PushAcked a) (Some 0) s), r)))"

text \<open>
  When two daemons are both active and a replication pass between them is acknowledged, exactly
  one of them is left active, namely the one with the higher term, provided their terms differ. If
  the terms are equal both stay active.
\<close>

theorem exchange_resolves:
  assumes "IsLeader s" and "IsLeader r" and "ls_Holder (hm_lease s) = hm_instanceID s" and "hm_instanceID s \<noteq> hm_instanceID r"
  shows "(IsLeader (fst (exchange now s r)) \<longleftrightarrow> term_of r \<le> term_of s)
       \<and> (IsLeader (snd (exchange now s r)) \<longleftrightarrow> term_of s \<le> term_of r)"
  using assms
  by (auto simp: exchange_def Receive_def staleBatch_def adoptBatch_def finishPush_def handlePushAck_def pushAcked_def demote_def renewLease_def extendLease_def IsLeader_def
      mk_ack_def persist_def Let_def)

theorem exchange_resolves_witness:
  "\<exists>a. IsLeader a \<and> \<not> IsLeader (fst (exchange (1040 * second) a (fst (tickStandby (1040 * second) True
     (snd (exchange (1001 * second) a (ex_boot ''b'' False)))))))"
proof (intro exI conjI)
  let ?a = "ex_boot ''a'' True"
  let ?b = "fst (tickStandby (1040 * second) True (snd (exchange (1001 * second) ?a (ex_boot ''b'' False))))"
  show a: "IsLeader ?a" by code_simp
  have "IsLeader ?b" by code_simp
  moreover have "ls_Holder (hm_lease ?a) = hm_instanceID ?a" by code_simp
  moreover have "hm_instanceID ?a \<noteq> hm_instanceID ?b" by code_simp
  ultimately have "IsLeader (fst (exchange (1040 * second) ?a ?b)) \<longleftrightarrow> term_of ?b \<le> term_of ?a"
    using exchange_resolves a by blast
  moreover have "\<not> term_of ?b \<le> term_of ?a" by code_simp
  ultimately show "\<not> IsLeader (fst (exchange (1040 * second) ?a ?b))" by blast
qed

text \<open>Replication passes one after the other, at any times, in either direction.\<close>

fun exchanges :: "(int \<times> bool) list \<Rightarrow> Manager \<times> Manager \<Rightarrow> Manager \<times> Manager" where
  "exchanges [] ab = ab"
| "exchanges ((now, True) # xs) (a, b) = exchanges xs (exchange now a b)"
| "exchanges ((now, False) # xs) (a, b) = exchanges xs (prod.swap (exchange now b a))"

definition split_brain :: "Manager \<times> Manager \<Rightarrow> bool" where
  "split_brain = (\<lambda>(a, b). IsLeader a \<and> IsLeader b \<and> term_of a = term_of b \<and> hm_instanceID a \<noteq> hm_instanceID b
     \<and> ls_Holder (hm_lease a) = hm_instanceID a \<and> ls_Holder (hm_lease b) = hm_instanceID b)"

lemma exchange_split: "split_brain (s, r) \<Longrightarrow> split_brain (exchange now s r)"
  by (auto simp: split_brain_def exchange_def Receive_def staleBatch_def adoptBatch_def finishPush_def handlePushAck_def pushAcked_def demote_def renewLease_def extendLease_def
      IsLeader_def mk_ack_def persist_def Let_def)

lemma split_brain_swap: "split_brain (prod.swap ab) \<longleftrightarrow> split_brain ab"
  by (cases ab) (auto simp: split_brain_def)

text \<open>
  Two active daemons with the same term stay active. Whatever number of replication passes they
  complete, in whatever order and at whatever times, neither demotes the other: equal terms are
  rejected as stale by the receiver, and the sender steps down only for a strictly higher term.
\<close>

theorem split_brain_persists:
  "split_brain ab \<Longrightarrow> split_brain (exchanges xs ab)"
proof (induction xs ab rule: exchanges.induct)
  case (2 now xs a b)
  then show ?case by (simp add: exchange_split)
next
  case (3 now xs a b)
  from 3(2) have "split_brain (b, a)" using split_brain_swap [of "(b, a)"] by simp
  then have "split_brain (prod.swap (exchange now b a))" by (simp add: split_brain_swap exchange_split)
  with 3(1) show ?case by simp
qed simp

text \<open>
  A run of a fresh pair that gets there: daemon \<open>a\<close> bootstraps and replicates once; the link fails;
  after a lease time \<open>a\<close> steps down and, never having observed a lease of its peer, promotes itself
  again one second later; daemon \<open>b\<close> promotes when the lease it observed has expired past the margin.
\<close>

definition ex_split_a :: Manager where
  "ex_split_a =
     (let a = fst (exchange (1001 * second) (ex_boot ''a'' True) (ex_boot ''b'' False));
          a = fst (Tick (1016 * second) True PushFailed (Some 0) a)
      in fst (Tick (1017 * second) True PushFailed (Some 0) a))"

definition ex_split_b :: Manager where
  "ex_split_b =
     (let b = snd (exchange (1001 * second) (ex_boot ''a'' True) (ex_boot ''b'' False))
      in fst (Tick (1032 * second) True PushFailed (Some 0) b))"

theorem split_brain_persists_witness:
  "split_brain (exchanges [(1033 * second, True), (1034 * second, False)] (ex_split_a, ex_split_b))"
  by (rule split_brain_persists) code_simp


section \<open>Gaps\<close>

text \<open>A process restart: the volatile fields are those of a new manager, the store is kept.\<close>

definition restarted :: "Manager \<Rightarrow> Manager" where
  "restarted m = m\<lparr>hm_observedAt := None, hm_lastPushOK := None, hm_lastErr := False, hm_role := RoleStandby,
     hm_lease := zero_Lease, hm_observed := zero_Lease, hm_lag := 0, hm_auditCursor := 0, hm_degraded := False\<rparr>"

text \<open>
  An adopted term is not durable. A standby that adopts a newer term from its peer does not
  store it: restarted, it is back at the term of its own stored lease, or at 0 if it has none.
\<close>

theorem adopted_term_not_durable:
  assumes "Receive now b True hw m = (m', eff, Some a)" and "ls_Term b > term_of m" and "\<not> hm_bootstrap m"
    and "case hm_stored m of None \<Rightarrow> True | Some l \<Rightarrow> ls_Holder l \<noteq> hm_instanceID m"
    and "m'' = fst (ha_Start later (read_lease m') setOk (restarted m'))"
  shows "term_of m' = ls_Term b \<and> term_of m'' = (case hm_stored m of None \<Rightarrow> 0 | Some l \<Rightarrow> ls_Term l)"
proof -
  have m': "term_of m' = ls_Term b" "hm_stored m' = hm_stored m" "hm_bootstrap m' = hm_bootstrap m"
    "hm_instanceID m' = hm_instanceID m"
    using assms(1,2) by (auto simp: Receive_def staleBatch_def adoptBatch_def Let_def split: if_splits)
  with assms(3-5) show ?thesis
    by (auto simp: ha_Start_def read_lease_def restarted_def zero_Lease_def Let_def split: option.splits)
qed

theorem adopted_term_not_durable_witness:
  "\<exists>m. term_of m = 1 \<and> term_of (fst (ha_Start (1020 * second) (read_lease m) True (restarted m))) = 0"
proof -
  let ?b = "ex_boot ''b'' False" and ?l = "zero_Lease\<lparr>ls_Term := 1\<rparr>"
  obtain m' eff ack where r: "Receive (1001 * second) ?l True None ?b = (m', eff, ack)" by (metis prod_cases3)
  have "snd (snd (Receive (1001 * second) ?l True None ?b)) \<noteq> None" by code_simp
  with r obtain a where a: "ack = Some a" by auto
  have s: "hm_stored ?b = None" and n: "\<not> hm_bootstrap ?b" and t: "ls_Term ?l > term_of ?b" by code_simp+
  have l: "ls_Term ?l = 1" by code_simp
  have c: "case hm_stored ?b of None \<Rightarrow> True | Some l \<Rightarrow> ls_Holder l \<noteq> hm_instanceID ?b" by (simp add: s)
  from adopted_term_not_durable [OF r [unfolded a] t n c refl, of "1020 * second" True] s l
  show ?thesis by auto
qed

text \<open>
  A promotion whose lease cannot be stored leaves a leader that never re-arms. If storing the
  lease fails during a promotion, the daemon is the leader all the same, the timers of pending
  confirmations are not re-armed, and no later tick re-arms them while it stays the leader.
\<close>

theorem failed_persist_no_rearm:
  assumes "shouldPromote now m"
  shows "IsLeader (fst (tickStandby now False m)) \<and> ReArm \<notin> set (snd (tickStandby now False m))
       \<and> (\<forall>m' later setOk ans hw. IsLeader m' \<longrightarrow> ReArm \<notin> set (snd (Tick later setOk ans hw m')))"
proof (intro conjI allI impI)
  show "IsLeader (fst (tickStandby now False m))" "ReArm \<notin> set (snd (tickStandby now False m))"
    using assms by (simp_all add: tickStandby_def promoteFrom_def becomeActive_def acquireLease_def persist_def IsLeader_def Let_def)
  show "ReArm \<notin> set (snd (Tick later setOk ans hw m'))" if "IsLeader m'" for m' later setOk ans hw
    using that by (auto simp: Tick_def tickActive_def finishPush_def handlePushFailure_def pushFailed_def handlePushAck_def pushAcked_def
        demote_def announce_def IsLeader_def Let_def split: push_answer.splits option.splits if_splits)
qed

theorem failed_persist_no_rearm_witness:
  "IsLeader (fst (tickStandby (1040 * second) False (ex_boot ''b'' False)))
   \<and> ReArm \<notin> set (snd (tickStandby (1040 * second) False (ex_boot ''b'' False)))"
proof -
  have "shouldPromote (1040 * second) (ex_boot ''b'' False)" by code_simp
  from failed_persist_no_rearm [OF this] show ?thesis by blast
qed

end
