(* ===== verification/Breaker.thy ===== *)
theory Breaker
  imports Vnprox_Prelude
begin

text \<open>
  The per-peer circuit breaker (\<^verbatim>\<open>src/internal/peer/breaker.go\<close>) and its use by one client call
  (\<open>Client.do\<close> in \<^verbatim>\<open>client.go\<close>). Times are nanoseconds; the clock reading is an argument. Each
  method holds the breaker's mutex from start to end, so a run is a sequence of method calls.
\<close>

section \<open>The breaker\<close>

datatype breakerState = breakerClosed | breakerOpen | breakerHalfOpen

record circuitBreaker =
  cb_openedAt :: int
  cb_failureThreshold :: int
  cb_resetTimeout :: int
  cb_consecutiveFailures :: int
  cb_state :: breakerState

text \<open>The zero time of \<open>openedAt\<close> is never read before the first opening; it is 0 here.\<close>

definition newCircuitBreaker :: "int \<Rightarrow> int \<Rightarrow> circuitBreaker" where
  "newCircuitBreaker threshold timeout =
     \<lparr> cb_openedAt = 0, cb_failureThreshold = threshold, cb_resetTimeout = timeout,
       cb_consecutiveFailures = 0, cb_state = breakerClosed \<rparr>"

definition allow :: "int \<Rightarrow> circuitBreaker \<Rightarrow> bool \<times> circuitBreaker" where
  "allow now b =
     (case cb_state b of
        breakerOpen \<Rightarrow> if now - cb_openedAt b < cb_resetTimeout b then (False, b)
                       else (True, b\<lparr>cb_state := breakerHalfOpen\<rparr>)
      | breakerHalfOpen \<Rightarrow> (False, b)
      | breakerClosed \<Rightarrow> (True, b))"

definition recordSuccess :: "circuitBreaker \<Rightarrow> circuitBreaker" where
  "recordSuccess b = b\<lparr>cb_state := breakerClosed, cb_consecutiveFailures := 0\<rparr>"

definition recordFailure :: "int \<Rightarrow> circuitBreaker \<Rightarrow> circuitBreaker" where
  "recordFailure now b =
     (let b = b\<lparr>cb_consecutiveFailures := cb_consecutiveFailures b + 1\<rparr>
      in if cb_state b = breakerHalfOpen \<or> cb_consecutiveFailures b \<ge> cb_failureThreshold b
         then b\<lparr>cb_state := breakerOpen, cb_openedAt := now\<rparr> else b)"

text \<open>How a call of \<open>Client.do\<close> that was let through ends, as far as the breaker sees it.\<close>

datatype call_end = RequestNotBuilt | TransportError | GotResponse

definition client_do :: "int \<Rightarrow> int \<Rightarrow> call_end \<Rightarrow> circuitBreaker \<Rightarrow> bool \<times> circuitBreaker" where
  "client_do now later res b =
     (let (ok, b) = allow now b in
      if \<not> ok then (False, b)
      else (True, case res of RequestNotBuilt \<Rightarrow> b
                  | TransportError \<Rightarrow> recordFailure later b
                  | GotResponse \<Rightarrow> recordSuccess b))"


section \<open>Runs\<close>

text \<open>Calls on the breaker in the order they take its mutex; callers interleave freely.\<close>

datatype bop = BAllow int | BSuccess | BFailure int

primrec bstep :: "bop \<Rightarrow> circuitBreaker \<Rightarrow> circuitBreaker" where
  "bstep (BAllow t) b = snd (allow t b)"
| "bstep BSuccess b = recordSuccess b"
| "bstep (BFailure t) b = recordFailure t b"

definition brun :: "bop list \<Rightarrow> circuitBreaker \<Rightarrow> circuitBreaker" where
  "brun ops b = foldl (\<lambda>b opr. bstep opr b) b ops"

inductive breaker_step :: "circuitBreaker \<Rightarrow> circuitBreaker \<Rightarrow> bool" where
  "breaker_step b (bstep opr b)"

inductive_cases breaker_stepE: "breaker_step b b'"

text \<open>A closed breaker is one failure short of its threshold at most.\<close>

definition breaker_inv :: "int \<Rightarrow> int \<Rightarrow> circuitBreaker \<Rightarrow> bool" where
  "breaker_inv threshold timeout b \<longleftrightarrow>
     cb_failureThreshold b = threshold \<and> cb_resetTimeout b = timeout \<and> 0 \<le> cb_consecutiveFailures b
     \<and> (cb_state b = breakerClosed \<longrightarrow> cb_consecutiveFailures b < threshold)
     \<and> (cb_state b \<noteq> breakerClosed \<longrightarrow> 0 < cb_consecutiveFailures b)"

lemma bstep_inv:
  assumes "0 < threshold" and "breaker_inv threshold timeout b"
  shows "breaker_inv threshold timeout (bstep opr b)"
  using assms
  by (cases opr) (auto simp: breaker_inv_def allow_def recordSuccess_def recordFailure_def Let_def
      split: breakerState.splits)

interpretation breaker: transition_system breaker_step "\<lambda>b. 0 < threshold \<and> breaker_inv threshold timeout b"
  for threshold timeout
  by unfold_locales (auto elim!: breaker_stepE simp: bstep_inv)

lemma brun_reach: "breaker_step\<^sup>*\<^sup>* b (brun ops b)"
proof (induction ops arbitrary: b)
  case Nil
  then show ?case by (simp add: brun_def)
next
  case (Cons opr ops)
  have "breaker_step b (bstep opr b)" by (rule breaker_step.intros)
  also have "breaker_step\<^sup>*\<^sup>* (bstep opr b) (brun ops (bstep opr b))" by (rule Cons.IH)
  finally show ?case by (simp add: brun_def)
qed

lemma newCircuitBreaker_inv: "0 < threshold \<Longrightarrow> breaker_inv threshold timeout (newCircuitBreaker threshold timeout)"
  by (simp add: breaker_inv_def newCircuitBreaker_def)

text \<open>
  Whatever the order in which callers use a breaker with a positive threshold, it is closed
  only with fewer consecutive failures than the threshold, and it lets a call through exactly when
  it is closed, or open with its reset time elapsed; in the latter case it becomes half-open.
\<close>

theorem breaker_admission:
  assumes "0 < threshold" and "b = brun ops (newCircuitBreaker threshold timeout)"
  shows "(cb_state b = breakerClosed \<longrightarrow> 0 \<le> cb_consecutiveFailures b \<and> cb_consecutiveFailures b < threshold)
       \<and> (fst (allow now b) \<longleftrightarrow> cb_state b = breakerClosed
            \<or> cb_state b = breakerOpen \<and> now - cb_openedAt b \<ge> timeout)
       \<and> (fst (allow now b) \<and> cb_state b = breakerOpen \<longrightarrow> cb_state (snd (allow now b)) = breakerHalfOpen)"
proof -
  have "breaker_inv threshold timeout b"
    using breaker.reach_inv [OF brun_reach, of threshold timeout "newCircuitBreaker threshold timeout" ops]
      newCircuitBreaker_inv [of threshold timeout] assms by simp
  then show ?thesis
    by (auto simp: breaker_inv_def allow_def split: breakerState.splits)
qed

theorem breaker_admission_witness:
  "\<not> fst (allow 5 (brun [BFailure 1, BFailure 2, BFailure 3] (newCircuitBreaker 3 10)))"
proof -
  define b where "b = brun [BFailure 1, BFailure 2, BFailure 3] (newCircuitBreaker 3 10)"
  have "cb_state b = breakerOpen" "cb_openedAt b = 3"
    by (simp_all add: b_def brun_def newCircuitBreaker_def recordFailure_def Let_def)
  with breaker_admission [of 3 b "[BFailure 1, BFailure 2, BFailure 3]" 10 5] show ?thesis
    by (simp add: b_def)
qed

lemma recordFailure_open: "cb_state b = breakerOpen \<Longrightarrow> cb_state (recordFailure t b) = breakerOpen"
  by (simp add: recordFailure_def Let_def)

lemma failures_count:
  "cb_state b \<noteq> breakerHalfOpen \<Longrightarrow>
   cb_consecutiveFailures (brun (map BFailure ts) b) = cb_consecutiveFailures b + int (length ts)
   \<and> cb_failureThreshold (brun (map BFailure ts) b) = cb_failureThreshold b
   \<and> cb_resetTimeout (brun (map BFailure ts) b) = cb_resetTimeout b
   \<and> cb_state (brun (map BFailure ts) b) \<noteq> breakerHalfOpen"
proof (induction ts arbitrary: b)
  case (Cons t ts)
  have "cb_state (recordFailure t b) \<noteq> breakerHalfOpen" using Cons.prems by (simp add: recordFailure_def Let_def)
  from Cons.IH [OF this] Cons.prems show ?case
    by (simp add: brun_def recordFailure_def Let_def split: if_splits)
qed (simp add: brun_def)

text \<open>
  A dead peer is failed fast. After as many consecutive transport failures as the threshold, the
  breaker is open since the last of them, and no call is let through until the reset time has passed
  since then; at that moment one is.
\<close>

theorem breaker_fails_fast:
  assumes "0 < threshold" and "b0 = brun ops (newCircuitBreaker threshold timeout)"
    and "cb_state b0 = breakerClosed" and "threshold \<le> int (length ts) + 1"
    and "b = brun (map BFailure (ts @ [t])) b0"
  shows "cb_state b = breakerOpen \<and> cb_openedAt b = t \<and> (fst (allow now b) \<longleftrightarrow> now - t \<ge> timeout)"
proof -
  have inv: "breaker_inv threshold timeout b0"
    using breaker.reach_inv [OF brun_reach, of threshold timeout "newCircuitBreaker threshold timeout" ops]
      newCircuitBreaker_inv [of threshold timeout] assms(1,2) by simp
  define c where "c = brun (map BFailure ts) b0"
  have b: "b = recordFailure t c" by (simp add: assms(5) c_def brun_def)
  have "cb_consecutiveFailures c + 1 \<ge> cb_failureThreshold c" "cb_resetTimeout c = timeout"
    using failures_count [of b0 ts] inv assms(3,4) by (auto simp: c_def breaker_inv_def)
  then show ?thesis by (auto simp: b recordFailure_def allow_def Let_def)
qed

theorem breaker_fails_fast_witness:
  "\<not> fst (allow 12 (brun (map BFailure ([1, 2] @ [3])) (brun [] (newCircuitBreaker 3 10))))"
  using breaker_fails_fast [of 3 "brun [] (newCircuitBreaker 3 10)" "[]" 10 "[1, 2]" "brun (map BFailure ([1, 2] @ [3])) (brun [] (newCircuitBreaker 3 10))" 3 12]
  by (simp add: brun_def newCircuitBreaker_def)

text \<open>While a probe is out, every other caller is turned away, at any time.\<close>

lemma half_open_stuck: "cb_state b = breakerHalfOpen \<Longrightarrow> brun (map BAllow ts) b = b \<and> \<not> fst (allow now b)"
  by (induction ts) (auto simp: brun_def allow_def)

text \<open>
  A probe that is never resolved blocks the peer for good. If the half-open probe's request
  cannot even be built, the call returns without reporting to the breaker; from then on no call is
  let through, at any later time, however many callers try.
\<close>

theorem breaker_probe_leak:
  assumes "cb_state b = breakerOpen" and "now - cb_openedAt b \<ge> cb_resetTimeout b"
  shows "fst (client_do now later RequestNotBuilt b)
       \<and> \<not> fst (allow t (brun (map BAllow ts) (snd (client_do now later RequestNotBuilt b))))"
proof -
  have "client_do now later RequestNotBuilt b = (True, b\<lparr>cb_state := breakerHalfOpen\<rparr>)"
    using assms by (simp add: client_do_def allow_def)
  then show ?thesis using half_open_stuck [of "b\<lparr>cb_state := breakerHalfOpen\<rparr>" ts t] by simp
qed

theorem breaker_probe_leak_witness:
  "\<not> fst (allow 1000000 (brun (map BAllow [20, 30]) (snd (client_do 13 13 RequestNotBuilt
      (brun (map BFailure [1, 2, 3]) (newCircuitBreaker 3 10))))))"
proof -
  let ?b = "brun (map BFailure [1, 2, 3]) (newCircuitBreaker 3 10)"
  have "cb_state ?b = breakerOpen" "13 - cb_openedAt ?b \<ge> cb_resetTimeout ?b"
    by (simp_all add: brun_def newCircuitBreaker_def recordFailure_def Let_def)
  from breaker_probe_leak [OF this] show ?thesis by blast
qed

end
