(* ===== verification/Changeset.thy ===== *)
theory Changeset
  imports Inventory
begin

text \<open>
  The changeset aggregate of \<^verbatim>\<open>src/internal/change\<close>: its lifecycle status machine
  (\<^verbatim>\<open>changeset.go\<close>), the ops it carries (\<open>Op\<close>; the parameter structs other than \<open>WgPeerAddParams\<close>
  are the type variable \<open>'p\<close>), findings, and the layered validator pipeline (\<^verbatim>\<open>validate.go\<close>,
  \<open>validateScoped\<close> and \<open>ValidateClusterScope\<close>). The validator classes the pipeline runs are an
  argument, a record with one function per class.
\<close>

section \<open>Status\<close>

datatype Status =
    StatusDraft | StatusValidated | StatusApplying | StatusAwaitingConfirm | StatusCommitted
  | StatusRolledBack | StatusFailed | StatusDiscarded | StatusRequested

definition AllStatuses :: "Status list" where
  "AllStatuses =
     [StatusDraft, StatusValidated, StatusApplying, StatusAwaitingConfirm, StatusCommitted,
      StatusRolledBack, StatusFailed, StatusDiscarded, StatusRequested]"

text \<open>The legal targets of each status; the Go map of maps holds only \<open>true\<close> entries.\<close>

primrec allowedTransitions :: "Status \<Rightarrow> Status list" where
  "allowedTransitions StatusDraft = [StatusValidated, StatusApplying, StatusDiscarded]"
| "allowedTransitions StatusValidated = [StatusDraft, StatusApplying, StatusDiscarded]"
| "allowedTransitions StatusApplying = [StatusAwaitingConfirm, StatusFailed, StatusRolledBack]"
| "allowedTransitions StatusAwaitingConfirm = [StatusCommitted, StatusRolledBack, StatusFailed]"
| "allowedTransitions StatusCommitted = []"
| "allowedTransitions StatusRolledBack = []"
| "allowedTransitions StatusFailed = []"
| "allowedTransitions StatusDiscarded = []"
| "allowedTransitions StatusRequested = [StatusDraft, StatusDiscarded]"


section \<open>Ops and findings\<close>

record WgPeerAddParams =
  wp_PublicKey :: string
  wp_Endpoint :: string
  wp_PresharedKey :: string
  wp_ClusterID :: string
  wp_AllowedIPs :: "string list"
  wp_PresharedKeyEnc :: string
  wp_KeepaliveSec :: int
  wp_External :: bool

datatype 'p Params = PWgPeerAdd WgPeerAddParams | POther 'p

record 'p Op =
  op_ID :: string
  op_Params :: "'p Params"
  op_Target :: Ref
  op_Type :: string

datatype Severity = SeverityError | SeverityWarning | SeverityInfo

record 'p Finding =
  fi_Severity :: Severity
  fi_Code :: string
  fi_Message :: string
  fi_Ref :: string
  fi_Fix :: "'p Op list"

definition hasError :: "'p Finding list \<Rightarrow> bool" where
  "hasError fs \<longleftrightarrow> list_ex (\<lambda>f. fi_Severity f = SeverityError) fs"

definition errorf :: "string \<Rightarrow> string \<Rightarrow> string \<Rightarrow> 'p Finding" where
  "errorf code r msg =
     \<lparr> fi_Severity = SeverityError, fi_Code = code, fi_Message = msg, fi_Ref = r, fi_Fix = [] \<rparr>"

text \<open>The computed, never persisted field \<open>UnattendedRevert\<close> is left out.\<close>

record 'p Changeset =
  ch_ConfirmDeadline :: "int option"
  ch_ID :: string
  ch_Title :: string
  ch_Author :: string
  ch_ClusterID :: string
  ch_Origin :: string
  ch_OriginTokenID :: string
  ch_OriginTool :: string
  ch_Status :: Status
  ch_Ops :: "'p Op list"
  ch_Findings :: "'p Finding list"
  ch_Plan :: string
  ch_ApplyLog :: string
  ch_RevertTicketExpiresAt :: int
  ch_CreatedAt :: int
  ch_UpdatedAt :: int

abbreviation "OriginUI \<equiv> ''ui''"
abbreviation "OriginMCP \<equiv> ''mcp''"
abbreviation "OriginCLI \<equiv> ''cli''"
abbreviation "OriginGitSync \<equiv> ''gitsync''"

datatype change_err =
    ErrIllegalTransition Status Status
  | ErrNotFound
  | ErrStorage
  | ErrNoCipher string
  | ErrSealing string

definition CanTransition :: "'p Changeset \<Rightarrow> Status \<Rightarrow> bool" where
  "CanTransition c t \<longleftrightarrow> t \<in> set (allowedTransitions (ch_Status c))"

definition Transition :: "Status \<Rightarrow> int \<Rightarrow> 'p Changeset \<Rightarrow> change_err + 'p Changeset" where
  "Transition t nowUnix c =
     (if \<not> CanTransition c t then Inl (ErrIllegalTransition (ch_Status c) t)
      else Inr (c\<lparr>ch_Status := t, ch_UpdatedAt := nowUnix\<rparr>))"

definition Editable :: "'p Changeset \<Rightarrow> bool" where
  "Editable c \<longleftrightarrow> ch_Status c = StatusDraft \<or> ch_Status c = StatusValidated"


section \<open>The validator pipeline\<close>

text \<open>The validator classes, in the order they run.\<close>

record 'p validators =
  v_schema :: "'p Op list \<Rightarrow> 'p Finding list"
  v_referential :: "'p Op list \<Rightarrow> 'p Finding list"
  v_sdn :: "'p Op list \<Rightarrow> 'p Finding list"
  v_overlay :: "'p Op list \<Rightarrow> 'p Finding list"
  v_switch :: "'p Op list \<Rightarrow> 'p Finding list"
  v_tcMirrorCap :: "'p Op list \<Rightarrow> 'p Finding list"
  v_policy :: "'p Op list \<Rightarrow> 'p Finding list"
  v_safety :: "'p Op list \<Rightarrow> 'p Finding list"
  v_crossnode :: "'p Op list \<Rightarrow> 'p Finding list"
  v_advisory :: "'p Op list \<Rightarrow> 'p Finding list"

definition ValidateWithSafety :: "'p validators \<Rightarrow> 'p Op list \<Rightarrow> 'p Finding list" where
  "ValidateWithSafety v ops =
     (let schemaFindings = v_schema v ops; findings = schemaFindings in
      if hasError schemaFindings then findings else
      let referentialFindings = v_referential v ops; findings = findings @ referentialFindings in
      if hasError referentialFindings then findings else
      let sdnFindings = v_sdn v ops @ v_overlay v ops; findings = findings @ sdnFindings in
      if hasError sdnFindings then findings else
      let switchFindings = v_switch v ops; findings = findings @ switchFindings in
      if hasError switchFindings then findings else
      let tcMirrorCapFindings = v_tcMirrorCap v ops; findings = findings @ tcMirrorCapFindings in
      if hasError tcMirrorCapFindings then findings else
      let policyFindings = v_policy v ops; findings = findings @ policyFindings in
      if hasError policyFindings then findings else
      let safetyFindings = v_safety v ops; findings = findings @ safetyFindings in
      if hasError safetyFindings then findings else
      let crossnodeFindings = v_crossnode v ops; findings = findings @ crossnodeFindings in
      if hasError crossnodeFindings then findings else
      findings @ v_advisory v ops)"

definition crossClusterFinding :: "string \<Rightarrow> string \<Rightarrow> Ref \<Rightarrow> 'p Finding" where
  "crossClusterFinding changesetCluster targetCluster r =
     errorf ''federation.cross_cluster_ref'' (Ref_String r)
       (''op target '' @ Ref_String r @ '' belongs to cluster '' @ go_Quote targetCluster
        @ '' but this changeset is scoped to cluster '' @ go_Quote changesetCluster
        @ ''; a changeset may not span clusters'')"

text \<open>
  \<open>nodeCluster\<close> is the membership map as an association list; \<open>None\<close>, an unwired seam or a
  failed read, is the nil map.
\<close>

definition ValidateClusterScope :: "string \<Rightarrow> 'p Op list \<Rightarrow> (string \<times> string) list option \<Rightarrow> 'p Finding list" where
  "ValidateClusterScope clusterID ops nodeCluster =
     (case nodeCluster of None \<Rightarrow> [] | Some m \<Rightarrow>
        if clusterID = [] \<or> m = [] then []
        else List.map_filter (\<lambda>opr.
               let node = ref_Node (op_Target opr) in
               if node = [] then None
               else case map_of m node of None \<Rightarrow> None
                    | Some owner \<Rightarrow> if owner = clusterID then None
                                    else Some (crossClusterFinding clusterID owner (op_Target opr))) ops)"

text \<open>
  What \<open>Service.validate\<close> reads for one call: the validator classes as they stand for this
  cluster and changeset, the expansion of raw-file ops with its own findings, the policy-loading
  findings, and the cluster membership.
\<close>

record 'p valid_inputs =
  vi_classes :: "string \<Rightarrow> string \<Rightarrow> 'p Op list \<Rightarrow> 'p validators"
  vi_expandRaw :: "'p Op list \<Rightarrow> 'p Op list \<times> 'p Finding list"
  vi_policyFindings :: "string \<Rightarrow> string \<Rightarrow> 'p Op list \<Rightarrow> 'p Finding list"
  vi_nodeClusters :: "(string \<times> string) list option"

definition svc_validate :: "'p valid_inputs \<Rightarrow> string \<Rightarrow> string \<Rightarrow> 'p Op list \<Rightarrow> 'p Finding list" where
  "svc_validate vi clusterID changesetID ops =
     (let (expanded, rawFindings) = vi_expandRaw vi ops;
          findings = ValidateWithSafety (vi_classes vi clusterID changesetID ops) expanded
      in rawFindings @ vi_policyFindings vi clusterID changesetID ops @ findings)"

definition validateScoped :: "'p valid_inputs \<Rightarrow> string \<Rightarrow> string \<Rightarrow> 'p Op list \<Rightarrow> 'p Finding list" where
  "validateScoped vi clusterID changesetID ops =
     (let findings = svc_validate vi clusterID changesetID ops in
      if clusterID = [] then findings
      else findings @ ValidateClusterScope clusterID ops (vi_nodeClusters vi))"


section \<open>The lifecycle\<close>

inductive moves :: "Status \<Rightarrow> Status \<Rightarrow> bool" where
  "t \<in> set (allowedTransitions s) \<Longrightarrow> moves s t"

inductive_cases movesE: "moves s t"

definition terminal :: "Status \<Rightarrow> bool" where
  "terminal s \<longleftrightarrow> s \<in> {StatusCommitted, StatusRolledBack, StatusFailed, StatusDiscarded}"

text \<open>A life is the sequence of statuses a changeset goes through.\<close>

fun life :: "Status list \<Rightarrow> bool" where
  "life [] = False"
| "life [s] = True"
| "life (s # t # ss) = (t \<in> set (allowedTransitions s) \<and> life (t # ss))"

lemma Transition_Inr: "Transition t now c = Inr c' \<longleftrightarrow>
    t \<in> set (allowedTransitions (ch_Status c)) \<and> c' = c\<lparr>ch_Status := t, ch_UpdatedAt := now\<rparr>"
  by (auto simp: Transition_def CanTransition_def)

lemma Transition_moves: "Transition t now c = Inr c' \<Longrightarrow> moves (ch_Status c) (ch_Status c')"
  by (auto simp: Transition_Inr intro: moves.intros)

interpretation lifecycle_end: transition_system moves "\<lambda>s. terminal s \<and> s = s0" for s0
  by unfold_locales (auto simp: terminal_def elim!: movesE)

lemma life_Cons: "life (s # ss) \<longleftrightarrow> ss = [] \<or> life ss \<and> hd ss \<in> set (allowedTransitions s)"
  by (cases ss) auto

text \<open>If a property of statuses can only be entered through a gate, a life that acquires it passes the gate.\<close>

definition gate :: "Status \<Rightarrow> (Status \<Rightarrow> bool) \<Rightarrow> bool" where
  "gate g P \<longleftrightarrow> (\<forall>s. \<forall>t \<in> set (allowedTransitions s). P t \<longrightarrow> P s \<or> s = g)"

lemma life_through:
  assumes step: "gate g P"
    and "life ss" and "P (last ss)" and "\<not> P (hd ss)"
  shows "\<exists>xs ys. ss = xs @ g # ys"
  using assms(2-4)
proof (induction ss rule: life.induct)
  case (3 s t ss)
  show ?case
  proof (cases "P t")
    case True
    with step 3 have "s # t # ss = [] @ g # t # ss" by (auto simp: gate_def)
    then show ?thesis by blast
  next
    case False
    with 3 obtain xs ys where "t # ss = xs @ g # ys" by auto
    then have "s # t # ss = (s # xs) @ g # ys" by simp
    then show ?thesis by blast
  qed
qed simp_all

lemma life_append: "life (xs @ ys) \<Longrightarrow> ys \<noteq> [] \<Longrightarrow> life ys"
  by (induction xs) (auto simp: life_Cons)

lemma life_prefix: "life (xs @ y # ys) \<Longrightarrow> life (xs @ [y])"
proof (induction xs)
  case Nil
  then show ?case by simp
next
  case (Cons x xs)
  then show ?case by (cases xs) auto
qed

text \<open>The gates of the lifecycle.\<close>

lemma committed_gate: "gate StatusAwaitingConfirm (\<lambda>s. s = StatusCommitted)"
  unfolding gate_def by (intro allI, case_tac s) auto

lemma awaiting_gate: "gate StatusApplying (\<lambda>s. s = StatusAwaitingConfirm)"
  unfolding gate_def by (intro allI, case_tac s) auto

lemma approval_gate: "gate StatusDraft (\<lambda>s. s \<notin> {StatusRequested, StatusDraft, StatusDiscarded})"
  unfolding gate_def by (intro allI, case_tac s) auto

text \<open>
  C22. No change becomes permanent unconfirmed. Every life of a changeset that ends committed and
  started as a draft, a validated changeset or a request went through applying and, after it, through
  awaiting_confirm.
\<close>

theorem committed_after_confirm:
  assumes "life ss" and "hd ss \<in> {StatusDraft, StatusValidated, StatusRequested}"
    and "last ss = StatusCommitted"
  shows "\<exists>xs ys zs. ss = xs @ StatusApplying # ys @ StatusAwaitingConfirm # zs"
proof -
  have "hd ss \<noteq> StatusCommitted" using assms(2) by auto
  with life_through [OF committed_gate assms(1)]
  obtain us zs where u: "ss = us @ StatusAwaitingConfirm # zs" using assms(3) by blast
  have l: "life (us @ [StatusAwaitingConfirm])" using life_prefix assms(1) u by blast
  have "hd (us @ [StatusAwaitingConfirm]) \<noteq> StatusAwaitingConfirm"
    using assms(2) u by (cases us) auto
  with life_through [OF awaiting_gate l]
  obtain xs ys where x: "us @ [StatusAwaitingConfirm] = xs @ StatusApplying # ys" by auto
  then obtain ys' where "us = xs @ StatusApplying # ys'"
    by (cases ys rule: rev_cases) auto
  with u show ?thesis by auto
qed

theorem committed_after_confirm_witness:
  "\<exists>xs ys zs. [StatusRequested, StatusDraft, StatusValidated, StatusApplying, StatusAwaitingConfirm, StatusCommitted]
     = xs @ StatusApplying # ys @ StatusAwaitingConfirm # zs"
  by (rule committed_after_confirm) simp_all

text \<open>
  The approval of a request cannot be bypassed. Every life that starts as a request stays
  requested or discarded, or went through draft; in particular it reaches validated, applying,
  awaiting_confirm, committed, rolled_back or failed only after a draft. And a terminal status is
  never left.
\<close>

theorem request_needs_approval:
  assumes "life (StatusRequested # ss)"
  shows "(\<forall>xs s ys. StatusRequested # ss = xs @ s # ys
            \<longrightarrow> s \<in> {StatusRequested, StatusDiscarded} \<or> StatusDraft \<in> set (xs @ [s]))
       \<and> (\<forall>xs s ys. StatusRequested # ss = xs @ s # ys \<longrightarrow> terminal s \<longrightarrow> ys = [])"
proof (intro conjI allI impI)
  fix xs s ys
  assume e: "StatusRequested # ss = xs @ s # ys"
  have l: "life (xs @ [s])" using life_prefix assms e by metis
  show "s \<in> {StatusRequested, StatusDiscarded} \<or> StatusDraft \<in> set (xs @ [s])"
  proof (cases "s \<in> {StatusRequested, StatusDraft, StatusDiscarded}")
    case True
    then show ?thesis by auto
  next
    case False
    have "hd (xs @ [s]) = StatusRequested" using e by (cases xs) auto
    with life_through [OF approval_gate l]
      False obtain us vs where "xs @ [s] = us @ StatusDraft # vs" by auto
    then show ?thesis by (metis in_set_conv_decomp)
  qed
  assume t: "terminal s"
  have "life (s # ys)" using life_append [of xs "s # ys"] assms e by simp
  with t show "ys = []" by (cases ys) (auto simp: terminal_def)
qed

theorem request_needs_approval_witness:
  "StatusApplying \<in> {StatusRequested, StatusDiscarded} \<or> StatusDraft \<in> set ([StatusRequested, StatusDraft] @ [StatusApplying])"
proof -
  have "life (StatusRequested # [StatusDraft, StatusApplying])" by simp
  moreover have "StatusRequested # [StatusDraft, StatusApplying] = [StatusRequested, StatusDraft] @ StatusApplying # []" by simp
  ultimately show ?thesis using request_needs_approval by blast
qed


section \<open>The pipeline\<close>

definition classes_of :: "'p validators \<Rightarrow> 'p Op list \<Rightarrow> 'p Finding list list" where
  "classes_of v ops =
     [v_schema v ops, v_referential v ops, v_sdn v ops @ v_overlay v ops, v_switch v ops,
      v_tcMirrorCap v ops, v_policy v ops, v_safety v ops, v_crossnode v ops, v_advisory v ops]"

text \<open>The specification: report class after class, up to and with the first that has an error.\<close>

fun until_error :: "'p Finding list list \<Rightarrow> 'p Finding list" where
  "until_error [] = []"
| "until_error (c # cs) = c @ (if hasError c then [] else until_error cs)"

lemma hasError_append [simp]: "hasError (xs @ ys) \<longleftrightarrow> hasError xs \<or> hasError ys"
  by (simp add: hasError_def)

lemma hasError_Nil [simp]: "\<not> hasError []"
  by (simp add: hasError_def)

lemma until_error_hasError: "hasError (until_error cs) \<longleftrightarrow> (\<exists>c \<in> set cs. hasError c)"
  by (induction cs) auto

lemma until_error_prefix:
  "\<exists>k \<le> length cs. until_error cs = concat (take k cs) \<and> (\<forall>c \<in> set (take (k - 1) cs). \<not> hasError c)"
proof (induction cs)
  case Nil
  then show ?case by simp
next
  case (Cons c cs)
  then obtain k where k: "k \<le> length cs" "until_error cs = concat (take k cs)"
    "\<forall>c \<in> set (take (k - 1) cs). \<not> hasError c" by blast
  show ?case
  proof (cases "hasError c")
    case True
    then show ?thesis by (intro exI [of _ 1]) simp
  next
    case False
    have "\<forall>x \<in> set (take k (c # cs)). \<not> hasError x" if "k > 0"
      using that k(3) False by (cases k) auto
    with k False show ?thesis by (intro exI [of _ "Suc k"]) (cases k; auto)
  qed
qed

text \<open>
  The short-circuiting pipeline is the specification: it reports the classes in order, up to
  and including the first with an error. Stopping there never changes the verdict, because the
  pipeline has an error exactly when some class has one when run on its own.
\<close>

theorem ValidateWithSafety_refines:
  "ValidateWithSafety v ops = until_error (classes_of v ops)
   \<and> (hasError (ValidateWithSafety v ops) \<longleftrightarrow> list_ex hasError (classes_of v ops))
   \<and> (\<exists>k \<le> 9. ValidateWithSafety v ops = concat (take k (classes_of v ops))
         \<and> \<not> list_ex hasError (take (k - 1) (classes_of v ops)))"
proof -
  have e: "ValidateWithSafety v ops = until_error (classes_of v ops)"
    by (simp add: ValidateWithSafety_def classes_of_def Let_def)
  have n: "length (classes_of v ops) = 9" by (simp add: classes_of_def)
  from until_error_prefix [of "classes_of v ops"] n
  have "\<exists>k \<le> 9. until_error (classes_of v ops) = concat (take k (classes_of v ops))
         \<and> (\<forall>c \<in> set (take (k - 1) (classes_of v ops)). \<not> hasError c)" by metis
  then show ?thesis unfolding e by (simp add: until_error_hasError list_ex_iff)
qed

lemma scope_error:
  assumes "clusterID \<noteq> []" and "vi_nodeClusters vi = Some m" and "opr \<in> set ops"
    and "ref_Node (op_Target opr) \<noteq> []" and "map_of m (ref_Node (op_Target opr)) = Some owner"
    and "owner \<noteq> clusterID"
  shows "hasError (validateScoped vi clusterID changesetID ops)
       \<and> crossClusterFinding clusterID owner (op_Target opr) \<in> set (validateScoped vi clusterID changesetID ops)"
proof -
  have "m \<noteq> []" using assms(5) by auto
  then have "crossClusterFinding clusterID owner (op_Target opr)
      \<in> set (ValidateClusterScope clusterID ops (vi_nodeClusters vi))"
    using assms by (force simp: ValidateClusterScope_def List.map_filter_def Let_def)
  moreover have "fi_Severity (crossClusterFinding clusterID owner (op_Target opr)) = SeverityError"
    by (simp add: crossClusterFinding_def errorf_def)
  ultimately show ?thesis using assms(1)
    by (auto simp: validateScoped_def Let_def hasError_def list_ex_iff)
qed

text \<open>
  A changeset cannot span clusters. Validation of a scoped changeset reports an error whenever
  one of its ops targets a node the membership map places in another cluster, whatever the other
  validators say.
\<close>

theorem cross_cluster_blocked:
  assumes "clusterID \<noteq> []" and "vi_nodeClusters vi = Some m" and "opr \<in> set ops"
    and "ref_Node (op_Target opr) \<noteq> []" and "map_of m (ref_Node (op_Target opr)) = Some owner"
    and "owner \<noteq> clusterID"
  shows "hasError (validateScoped vi clusterID changesetID ops)
       \<and> crossClusterFinding clusterID owner (op_Target opr) \<in> set (validateScoped vi clusterID changesetID ops)"
  using assms by (rule scope_error)

definition no_validators :: "'p validators" where
  "no_validators = \<lparr> v_schema = \<lambda>_. [], v_referential = \<lambda>_. [], v_sdn = \<lambda>_. [], v_overlay = \<lambda>_. [],
     v_switch = \<lambda>_. [], v_tcMirrorCap = \<lambda>_. [], v_policy = \<lambda>_. [], v_safety = \<lambda>_. [],
     v_crossnode = \<lambda>_. [], v_advisory = \<lambda>_. [] \<rparr>"

definition ex_valid_inputs :: "'p valid_inputs" where
  "ex_valid_inputs = \<lparr> vi_classes = \<lambda>_ _ _. no_validators, vi_expandRaw = \<lambda>ops. (ops, []),
     vi_policyFindings = \<lambda>_ _ _. [], vi_nodeClusters = Some [(''n1'', ''east''), (''n2'', ''west'')] \<rparr>"

definition ex_op :: "string \<Rightarrow> unit Op" where
  "ex_op node = \<lparr> op_ID = ''op1'', op_Params = POther (), op_Target = mkRef KindBridge node ''vmbr0'',
     op_Type = ''bridge.create'' \<rparr>"

theorem cross_cluster_blocked_witness:
  "hasError (validateScoped ex_valid_inputs ''east'' [] [ex_op ''n1'', ex_op ''n2''])"
  using cross_cluster_blocked [of "''east''" "ex_valid_inputs" "[(''n1'', ''east''), (''n2'', ''west'')]"
      "ex_op ''n2''" "[ex_op ''n1'', ex_op ''n2'']" "''west''" "[]"]
  by (simp add: ex_valid_inputs_def ex_op_def)

end
