(* ===== verification/Change_Service.thy ===== *)
theory Change_Service
  imports Changeset
begin

text \<open>
  The change service's draft operations and the entry gate of an apply: the \<open>changesets\<close> table
  (\<^verbatim>\<open>src/internal/store/changesets.go\<close>), and \<open>create\<close>, \<open>CreateRequest\<close>, \<open>Approve\<close>, \<open>UpdateDraft\<close>,
  \<open>Discard\<close>, \<open>Validate\<close> (\<^verbatim>\<open>src/internal/change/service.go\<close>) and \<open>beginApply\<close> (\<^verbatim>\<open>apply.go\<close>).

  State is passed explicitly: the table and the review tables beside it, the audit log, the status
  events broadcast, and the apply lock. A JSON column is represented by the value it encodes, with
  the empty list for a NULL or nil list. What the service calls outside is the record
  \<open>change_svc\<close>: the clock, the id generator, the cipher, whether each optional store is wired, and
  whether each write goes through. A step of the model is one whole service call; the two-phase
  reading of a call, with another call between its read and its write, is at the end.
\<close>

section \<open>The changesets table\<close>

record 'p ChangesetRow =
  row_ID :: string
  row_Title :: string
  row_Author :: string
  row_Status :: Status
  row_ClusterID :: string
  row_Origin :: string
  row_OriginTokenID :: string
  row_OriginTool :: string
  row_Ops :: "'p Op list"
  row_Findings :: "'p Finding list"
  row_Plan :: string
  row_ApplyLog :: string
  row_ConfirmDeadline :: "int option"
  row_RevertTicketEnc :: "string option"
  row_RevertTicketExpiresAt :: "int option"
  row_CreatedAt :: int
  row_UpdatedAt :: int

record ChangesetComment =
  co_ID :: string
  co_ChangesetID :: string
  co_OpID :: string
  co_Author :: string
  co_Body :: string
  co_CreatedAt :: int

record AuditEntry =
  au_Username :: string
  au_Action :: string
  au_Result :: string
  au_ChangesetID :: string

record statusEvent =
  se_ID :: string
  se_Status :: Status
  se_ConfirmDeadline :: "int option"

record 'p change_store =
  st_rows :: "string \<rightharpoonup> 'p ChangesetRow"
  st_comments :: "ChangesetComment list"
  st_approvals :: "string \<rightharpoonup> string"
  st_signoffs :: "(string \<times> string) list"
  st_acks :: "string \<rightharpoonup> string list"
  st_audit :: "AuditEntry list"
  st_events :: "statusEvent list"
  st_lockHeldBy :: string

text \<open>
  The service's dependencies during one call. An optional store is \<open>None\<close> when it is not wired,
  else \<open>Some ok\<close> with whether its write succeeds.
\<close>

record 'p change_svc =
  sv_now :: int
  sv_newULID :: "nat \<Rightarrow> string"
  sv_localClusterID :: string
  sv_inputs :: "'p valid_inputs"
  sv_sealer :: "(string \<Rightarrow> string option) option"
  sv_allowDangerousOps :: bool
  sv_ws :: bool
  sv_read_ok :: bool
  sv_write_ok :: bool
  sv_audit_ok :: bool
  sv_wipe_ok :: bool
  sv_comments :: "bool option"
  sv_approvals :: "bool option"
  sv_signoffs :: "bool option"
  sv_acks :: "bool option"

definition toStoreRow :: "'p Changeset \<Rightarrow> 'p ChangesetRow" where
  "toStoreRow c =
     \<lparr> row_ID = ch_ID c, row_Title = ch_Title c, row_Author = ch_Author c, row_Status = ch_Status c,
       row_ClusterID = ch_ClusterID c, row_Origin = ch_Origin c,
       row_OriginTokenID = ch_OriginTokenID c, row_OriginTool = ch_OriginTool c, row_Ops = ch_Ops c,
       row_Findings = ch_Findings c, row_Plan = ch_Plan c, row_ApplyLog = ch_ApplyLog c,
       row_ConfirmDeadline = ch_ConfirmDeadline c, row_RevertTicketEnc = None,
       row_RevertTicketExpiresAt = None, row_CreatedAt = ch_CreatedAt c, row_UpdatedAt = ch_UpdatedAt c \<rparr>"

definition fromStoreRow :: "'p ChangesetRow \<Rightarrow> 'p Changeset" where
  "fromStoreRow r =
     \<lparr> ch_ConfirmDeadline = row_ConfirmDeadline r, ch_ID = row_ID r, ch_Title = row_Title r,
       ch_Author = row_Author r, ch_ClusterID = row_ClusterID r, ch_Origin = row_Origin r,
       ch_OriginTokenID = row_OriginTokenID r, ch_OriginTool = row_OriginTool r,
       ch_Status = row_Status r, ch_Ops = row_Ops r, ch_Findings = row_Findings r,
       ch_Plan = row_Plan r, ch_ApplyLog = row_ApplyLog r,
       ch_RevertTicketExpiresAt = (case row_RevertTicketExpiresAt r of None \<Rightarrow> 0 | Some e \<Rightarrow> e),
       ch_CreatedAt = row_CreatedAt r, ch_UpdatedAt = row_UpdatedAt r \<rparr>"

text \<open>The repository. The primary key refuses a second row with the same id.\<close>

definition repo_Insert :: "bool \<Rightarrow> 'p ChangesetRow \<Rightarrow> 'p change_store \<Rightarrow> change_err + 'p change_store" where
  "repo_Insert ok r st =
     (if \<not> ok \<or> st_rows st (row_ID r) \<noteq> None then Inl ErrStorage
      else let r = r\<lparr>row_Origin := (if row_Origin r = [] then ''ui'' else row_Origin r),
                     row_RevertTicketEnc := None, row_RevertTicketExpiresAt := None\<rparr>
           in Inr (st\<lparr>st_rows := (st_rows st)(row_ID r \<mapsto> r)\<rparr>))"

definition repo_Get :: "bool \<Rightarrow> string \<Rightarrow> 'p change_store \<Rightarrow> change_err + 'p ChangesetRow" where
  "repo_Get ok i st =
     (if \<not> ok then Inl ErrStorage else case st_rows st i of None \<Rightarrow> Inl ErrNotFound | Some r \<Rightarrow> Inr r)"

definition repo_Update :: "bool \<Rightarrow> 'p ChangesetRow \<Rightarrow> 'p change_store \<Rightarrow> change_err + 'p change_store" where
  "repo_Update ok r st =
     (if \<not> ok then Inl ErrStorage
      else case st_rows st (row_ID r) of None \<Rightarrow> Inl ErrNotFound
           | Some old \<Rightarrow> Inr (st\<lparr>st_rows := (st_rows st)(row_ID r \<mapsto> old\<lparr>row_Title := row_Title r,
               row_Status := row_Status r, row_Ops := row_Ops r, row_Findings := row_Findings r,
               row_Plan := row_Plan r, row_ApplyLog := row_ApplyLog r,
               row_ConfirmDeadline := row_ConfirmDeadline r, row_UpdatedAt := row_UpdatedAt r\<rparr>)\<rparr>))"

text \<open>
  \<open>Upsert\<close> names its columns, and the provenance columns are not among them: a new row gets their
  declared defaults (\<open>''ui''\<close> and NULL), an existing one keeps its own.
\<close>

definition repo_Upsert :: "bool \<Rightarrow> 'p ChangesetRow \<Rightarrow> 'p change_store \<Rightarrow> change_err + 'p change_store" where
  "repo_Upsert ok r st =
     (if \<not> ok then Inl ErrStorage
      else let new = (case st_rows st (row_ID r) of
                  None \<Rightarrow> r\<lparr>row_Origin := ''ui'', row_OriginTokenID := [], row_OriginTool := [],
                            row_RevertTicketEnc := None, row_RevertTicketExpiresAt := None\<rparr>
                | Some old \<Rightarrow> old\<lparr>row_Title := row_Title r, row_Author := row_Author r,
                    row_Status := row_Status r, row_ClusterID := row_ClusterID r, row_Ops := row_Ops r,
                    row_Findings := row_Findings r, row_Plan := row_Plan r,
                    row_ApplyLog := row_ApplyLog r, row_ConfirmDeadline := row_ConfirmDeadline r,
                    row_CreatedAt := row_CreatedAt r, row_UpdatedAt := row_UpdatedAt r\<rparr>)
           in Inr (st\<lparr>st_rows := (st_rows st)(row_ID r \<mapsto> new)\<rparr>))"

definition WipeRevertTicket :: "bool \<Rightarrow> string \<Rightarrow> 'p change_store \<Rightarrow> 'p change_store" where
  "WipeRevertTicket ok i st =
     (if \<not> ok then st
      else case st_rows st i of None \<Rightarrow> st
           | Some r \<Rightarrow> st\<lparr>st_rows := (st_rows st)(i \<mapsto> r\<lparr>row_RevertTicketEnc := None, row_RevertTicketExpiresAt := None\<rparr>)\<rparr>)"


section \<open>Helpers of the service\<close>

fun assignOpIDs :: "(nat \<Rightarrow> string) \<Rightarrow> nat \<Rightarrow> 'p Op list \<Rightarrow> 'p Op list \<times> nat" where
  "assignOpIDs gen n [] = ([], n)"
| "assignOpIDs gen n (opr # ops) =
     (let (opr', n) = (if op_ID opr = [] then (opr\<lparr>op_ID := gen n\<rparr>, n + 1) else (opr, n));
          (ops', n) = assignOpIDs gen n ops
      in (opr' # ops', n))"

definition opIDSet :: "'p Op list \<Rightarrow> string set" where
  "opIDSet ops = set (filter (\<lambda>i. i \<noteq> []) (map op_ID ops))"

fun sealOpSecrets :: "(string \<Rightarrow> string option) option \<Rightarrow> 'p Op list \<Rightarrow> change_err + 'p Op list" where
  "sealOpSecrets sealer [] = Inr []"
| "sealOpSecrets sealer (opr # ops) =
     (case op_Params opr of
        POther _ \<Rightarrow> (case sealOpSecrets sealer ops of Inl e \<Rightarrow> Inl e | Inr ops \<Rightarrow> Inr (opr # ops))
      | PWgPeerAdd p \<Rightarrow>
          if wp_PresharedKey p = [] then
            (case sealOpSecrets sealer ops of Inl e \<Rightarrow> Inl e | Inr ops \<Rightarrow> Inr (opr # ops))
          else case sealer of None \<Rightarrow> Inl (ErrNoCipher (op_Type opr))
          | Some encrypt \<Rightarrow>
              (case encrypt (wp_PresharedKey p) of None \<Rightarrow> Inl (ErrSealing (op_Type opr))
               | Some sealed \<Rightarrow>
                   let opr = opr\<lparr>op_Params := PWgPeerAdd (p\<lparr>wp_PresharedKeyEnc := sealed, wp_PresharedKey := []\<rparr>)\<rparr>
                   in case sealOpSecrets sealer ops of Inl e \<Rightarrow> Inl e | Inr ops \<Rightarrow> Inr (opr # ops)))"

definition appendAudit :: "'p change_svc \<Rightarrow> string \<Rightarrow> string \<Rightarrow> string \<Rightarrow> string \<Rightarrow> 'p change_store \<Rightarrow> 'p change_store" where
  "appendAudit s username action res changesetID st =
     (if sv_audit_ok s
      then st\<lparr>st_audit := st_audit st @ [\<lparr> au_Username = username, au_Action = action, au_Result = res,
               au_ChangesetID = changesetID \<rparr>]\<rparr>
      else st)"

definition broadcastStatus :: "'p change_svc \<Rightarrow> 'p Changeset \<Rightarrow> 'p change_store \<Rightarrow> 'p change_store" where
  "broadcastStatus s c st =
     (if sv_ws s
      then st\<lparr>st_events := st_events st @ [\<lparr> se_ID = ch_ID c, se_Status = ch_Status c,
               se_ConfirmDeadline = ch_ConfirmDeadline c \<rparr>]\<rparr>
      else st)"

definition auditSafetyOverride :: "'p change_svc \<Rightarrow> string \<Rightarrow> string \<Rightarrow> 'p Finding list \<Rightarrow> 'p change_store \<Rightarrow> 'p change_store" where
  "auditSafetyOverride s author changesetID findings st =
     (if \<not> sv_allowDangerousOps s then st
      else let refs = map fi_Ref (filter (\<lambda>f. fi_Code f = ''safety.protected_interface''
                                            \<or> fi_Code f = ''safety.guest_bearing_bridge'') findings)
           in if refs = [] then st
              else appendAudit s author ''changeset.safety_override'' ''warning'' changesetID st)"

text \<open>\<open>DeleteForOps\<close> and the audit row for what it removed.\<close>

definition cleanupOrphanedComments :: "'p change_svc \<Rightarrow> string \<Rightarrow> string \<Rightarrow> string set \<Rightarrow> 'p change_store \<Rightarrow> 'p change_store" where
  "cleanupOrphanedComments s changesetID actor removedOpIDs st =
     (case sv_comments s of None \<Rightarrow> st
      | Some ok \<Rightarrow>
          if removedOpIDs = {} then st
          else if \<not> ok then st
          else let keep = filter (\<lambda>c. \<not> (co_ChangesetID c = changesetID \<and> co_OpID c \<in> removedOpIDs)) (st_comments st);
                   st' = st\<lparr>st_comments := keep\<rparr>
               in if length keep < length (st_comments st)
                  then appendAudit s actor ''changeset.comment_orphan_cleanup'' ''success'' changesetID st'
                  else st')"

definition clearApproval :: "'p change_svc \<Rightarrow> string \<Rightarrow> 'p change_store \<Rightarrow> 'p change_store" where
  "clearApproval s i st = (if sv_approvals s = Some True then st\<lparr>st_approvals := (st_approvals st)(i := None)\<rparr> else st)"

definition clearSDNPendingAck :: "'p change_svc \<Rightarrow> string \<Rightarrow> 'p change_store \<Rightarrow> 'p change_store" where
  "clearSDNPendingAck s i st = (if sv_acks s = Some True then st\<lparr>st_acks := (st_acks st)(i := None)\<rparr> else st)"

definition clearSignoffs :: "'p change_svc \<Rightarrow> string \<Rightarrow> 'p change_store \<Rightarrow> 'p change_store" where
  "clearSignoffs s i st =
     (if sv_signoffs s = Some True then st\<lparr>st_signoffs := filter (\<lambda>x. fst x \<noteq> i) (st_signoffs st)\<rparr> else st)"

definition wipeRevertTicket :: "'p change_svc \<Rightarrow> string \<Rightarrow> 'p change_store \<Rightarrow> 'p change_store" where
  "wipeRevertTicket s i st = (if i = [] then st else WipeRevertTicket (sv_wipe_ok s) i st)"


section \<open>Draft operations\<close>

type_synonym 'p outcome = "(change_err + 'p Changeset) \<times> 'p change_store"

definition svc_Get :: "'p change_svc \<Rightarrow> string \<Rightarrow> 'p change_store \<Rightarrow> change_err + 'p Changeset" where
  "svc_Get s i st = (case repo_Get (sv_read_ok s) i st of Inl e \<Rightarrow> Inl e | Inr r \<Rightarrow> Inr (fromStoreRow r))"

record Provenance =
  pv_Origin :: string
  pv_TokenID :: string
  pv_Tool :: string

definition svc_create :: "'p change_svc \<Rightarrow> string \<Rightarrow> string \<Rightarrow> 'p Op list \<Rightarrow> Provenance \<Rightarrow> 'p change_store \<Rightarrow> 'p outcome" where
  "svc_create s author title ops prov st =
     (let origin = (if pv_Origin prov = [] then OriginUI else pv_Origin prov);
          (ops, n) = assignOpIDs (sv_newULID s) 0 ops
      in case sealOpSecrets (sv_sealer s) ops of Inl e \<Rightarrow> (Inl e, st)
      | Inr ops \<Rightarrow>
          let findings = validateScoped (sv_inputs s) (sv_localClusterID s) [] ops;
              c = \<lparr> ch_ConfirmDeadline = None, ch_ID = sv_newULID s n, ch_Title = title, ch_Author = author,
                    ch_ClusterID = sv_localClusterID s, ch_Origin = origin,
                    ch_OriginTokenID = pv_TokenID prov, ch_OriginTool = pv_Tool prov,
                    ch_Status = StatusDraft, ch_Ops = ops, ch_Findings = findings, ch_Plan = [],
                    ch_ApplyLog = [], ch_RevertTicketExpiresAt = 0, ch_CreatedAt = sv_now s,
                    ch_UpdatedAt = sv_now s \<rparr>
          in case repo_Insert (sv_write_ok s) (toStoreRow c) st of Inl e \<Rightarrow> (Inl e, st)
             | Inr st \<Rightarrow>
                 let st = appendAudit s author ''changeset.create'' ''success'' (ch_ID c) st;
                     st = auditSafetyOverride s author (ch_ID c) findings st;
                     st = broadcastStatus s c st
                 in (Inr c, st))"

definition svc_Create :: "'p change_svc \<Rightarrow> string \<Rightarrow> string \<Rightarrow> 'p Op list \<Rightarrow> 'p change_store \<Rightarrow> 'p outcome" where
  "svc_Create s author title ops st =
     svc_create s author title ops \<lparr> pv_Origin = OriginUI, pv_TokenID = [], pv_Tool = [] \<rparr> st"

definition CreateWithOrigin :: "'p change_svc \<Rightarrow> string \<Rightarrow> string \<Rightarrow> 'p Op list \<Rightarrow> string \<Rightarrow> string \<Rightarrow> 'p change_store \<Rightarrow> 'p outcome" where
  "CreateWithOrigin s author title ops origin originTokenID st =
     svc_create s author title ops \<lparr> pv_Origin = origin, pv_TokenID = originTokenID, pv_Tool = [] \<rparr> st"

definition CreateWithProvenance :: "'p change_svc \<Rightarrow> string \<Rightarrow> string \<Rightarrow> 'p Op list \<Rightarrow> Provenance \<Rightarrow> 'p change_store \<Rightarrow> 'p outcome" where
  "CreateWithProvenance s author title ops p st = svc_create s author title ops p st"

definition CreateRequest :: "'p change_svc \<Rightarrow> string \<Rightarrow> string \<Rightarrow> 'p Op list \<Rightarrow> 'p change_store \<Rightarrow> 'p outcome" where
  "CreateRequest s author title ops st =
     (let (ops, n) = assignOpIDs (sv_newULID s) 0 ops
      in case sealOpSecrets (sv_sealer s) ops of Inl e \<Rightarrow> (Inl e, st)
      | Inr ops \<Rightarrow>
          let findings = validateScoped (sv_inputs s) (sv_localClusterID s) [] ops;
              c = \<lparr> ch_ConfirmDeadline = None, ch_ID = sv_newULID s n, ch_Title = title, ch_Author = author,
                    ch_ClusterID = sv_localClusterID s, ch_Origin = [],
                    ch_OriginTokenID = [], ch_OriginTool = [],
                    ch_Status = StatusRequested, ch_Ops = ops, ch_Findings = findings, ch_Plan = [],
                    ch_ApplyLog = [], ch_RevertTicketExpiresAt = 0, ch_CreatedAt = sv_now s,
                    ch_UpdatedAt = sv_now s \<rparr>
          in case repo_Insert (sv_write_ok s) (toStoreRow c) st of Inl e \<Rightarrow> (Inl e, st)
             | Inr st \<Rightarrow>
                 let st = appendAudit s author ''changeset.request'' ''success'' (ch_ID c) st;
                     st = auditSafetyOverride s author (ch_ID c) findings st;
                     st = broadcastStatus s c st
                 in (Inr c, st))"

definition svc_Approve :: "'p change_svc \<Rightarrow> string \<Rightarrow> string \<Rightarrow> 'p change_store \<Rightarrow> 'p outcome" where
  "svc_Approve s i approver st =
     (case svc_Get s i st of Inl e \<Rightarrow> (Inl e, st) | Inr c \<Rightarrow>
      case Transition StatusDraft (sv_now s) c of Inl e \<Rightarrow> (Inl e, st) | Inr c \<Rightarrow>
      let c = c\<lparr>ch_Findings := validateScoped (sv_inputs s) (ch_ClusterID c) i (ch_Ops c)\<rparr> in
      case repo_Update (sv_write_ok s) (toStoreRow c) st of Inl e \<Rightarrow> (Inl e, st) | Inr st \<Rightarrow>
      let st = appendAudit s approver ''changeset.approve'' ''success'' i st;
          st = broadcastStatus s c st
      in (Inr c, st))"

text \<open>
  \<open>UpdateDraft\<close> in two phases: what it computes from the changeset it read, and what it does with
  the result.
\<close>

definition update_edit :: "'p change_svc \<Rightarrow> string \<Rightarrow> string option \<Rightarrow> 'p Op list \<Rightarrow> 'p Changeset \<Rightarrow> change_err + 'p Changeset" where
  "update_edit s i title ops c =
     (if \<not> Editable c then Inl (ErrIllegalTransition (ch_Status c) StatusDraft) else
      case (if ch_Status c = StatusValidated then Transition StatusDraft (sv_now s) c else Inr c) of
        Inl e \<Rightarrow> Inl e
      | Inr c \<Rightarrow>
          case sealOpSecrets (sv_sealer s) (fst (assignOpIDs (sv_newULID s) 0 ops)) of Inl e \<Rightarrow> Inl e
          | Inr ops \<Rightarrow>
              Inr (c\<lparr>ch_Ops := ops, ch_Findings := validateScoped (sv_inputs s) (ch_ClusterID c) i ops,
                     ch_Title := (case title of None \<Rightarrow> ch_Title c | Some t \<Rightarrow> t), ch_UpdatedAt := sv_now s\<rparr>))"

definition update_write :: "'p change_svc \<Rightarrow> string \<Rightarrow> string \<Rightarrow> 'p Changeset \<Rightarrow> 'p Changeset \<Rightarrow> 'p change_store \<Rightarrow> 'p outcome" where
  "update_write s i author prev c st =
     (case repo_Update (sv_write_ok s) (toStoreRow c) st of Inl e \<Rightarrow> (Inl e, st) | Inr st \<Rightarrow>
      let st = auditSafetyOverride s author i (ch_Findings c) st;
          removed = opIDSet (ch_Ops prev) - opIDSet (ch_Ops c);
          st = cleanupOrphanedComments s i author removed st;
          st = clearApproval s i st;
          st = clearSDNPendingAck s i st;
          st = clearSignoffs s i st;
          st = (if ch_Status prev \<noteq> ch_Status c then broadcastStatus s c st else st)
      in (Inr c, st))"

definition UpdateDraft :: "'p change_svc \<Rightarrow> string \<Rightarrow> string \<Rightarrow> string option \<Rightarrow> 'p Op list \<Rightarrow> 'p change_store \<Rightarrow> 'p outcome" where
  "UpdateDraft s i author title ops st =
     (case svc_Get s i st of Inl e \<Rightarrow> (Inl e, st) | Inr prev \<Rightarrow>
      case update_edit s i title ops prev of Inl e \<Rightarrow> (Inl e, st) | Inr c \<Rightarrow>
      update_write s i author prev c st)"

text \<open>\<open>Discard\<close> returns no changeset; on success the model returns the one it wrote.\<close>

definition svc_Discard :: "'p change_svc \<Rightarrow> string \<Rightarrow> string \<Rightarrow> 'p change_store \<Rightarrow> 'p outcome" where
  "svc_Discard s i author st =
     (case svc_Get s i st of Inl e \<Rightarrow> (Inl e, st) | Inr c \<Rightarrow>
      case Transition StatusDiscarded (sv_now s) c of Inl e \<Rightarrow> (Inl e, st) | Inr c \<Rightarrow>
      case repo_Update (sv_write_ok s) (toStoreRow c) st of Inl e \<Rightarrow> (Inl e, st) | Inr st \<Rightarrow>
      let st = wipeRevertTicket s i st;
          st = appendAudit s author ''changeset.discard'' ''success'' i st;
          st = broadcastStatus s c st
      in (Inr c, st))"

definition validate_edit :: "'p change_svc \<Rightarrow> string \<Rightarrow> 'p Changeset \<Rightarrow> change_err + 'p Changeset" where
  "validate_edit s i c =
     (if \<not> Editable c then Inl (ErrIllegalTransition (ch_Status c) StatusValidated) else
      let findings = validateScoped (sv_inputs s) (ch_ClusterID c) i (ch_Ops c);
          c = c\<lparr>ch_Findings := findings\<rparr>;
          clean = (\<not> hasError findings)
      in if clean \<and> ch_Status c = StatusDraft then Transition StatusValidated (sv_now s) c
         else if \<not> clean \<and> ch_Status c = StatusValidated then Transition StatusDraft (sv_now s) c
         else Inr (c\<lparr>ch_UpdatedAt := sv_now s\<rparr>))"

definition svc_Validate :: "'p change_svc \<Rightarrow> string \<Rightarrow> string \<Rightarrow> 'p change_store \<Rightarrow> 'p outcome" where
  "svc_Validate s i author st =
     (case svc_Get s i st of Inl e \<Rightarrow> (Inl e, st) | Inr prev \<Rightarrow>
      case validate_edit s i prev of Inl e \<Rightarrow> (Inl e, st) | Inr c \<Rightarrow>
      case repo_Update (sv_write_ok s) (toStoreRow c) st of Inl e \<Rightarrow> (Inl e, st) | Inr st \<Rightarrow>
      let st = appendAudit s author ''changeset.validate'' (if hasError (ch_Findings c) then ''errors'' else ''clean'') i st;
          st = auditSafetyOverride s author i (ch_Findings c) st;
          st = (if ch_Status prev \<noteq> ch_Status c then broadcastStatus s c st else st)
      in (Inr c, st))"


section \<open>What a call does to the table\<close>

lemma rows_frame [simp]:
  "st_rows (appendAudit s u a r i st) = st_rows st"
  "st_rows (broadcastStatus s c st) = st_rows st"
  "st_rows (auditSafetyOverride s u i fs st) = st_rows st"
  "st_rows (cleanupOrphanedComments s i u rm st) = st_rows st"
  "st_rows (clearApproval s i st) = st_rows st"
  "st_rows (clearSDNPendingAck s i st) = st_rows st"
  "st_rows (clearSignoffs s i st) = st_rows st"
  by (simp_all add: appendAudit_def broadcastStatus_def auditSafetyOverride_def
      cleanupOrphanedComments_def clearApproval_def clearSDNPendingAck_def clearSignoffs_def Let_def
      split: option.split)

lemma fromStoreRow_simps [simp]:
  "ch_ID (fromStoreRow r) = row_ID r"
  "ch_Status (fromStoreRow r) = row_Status r"
  "ch_Ops (fromStoreRow r) = row_Ops r"
  "ch_Findings (fromStoreRow r) = row_Findings r"
  "ch_ClusterID (fromStoreRow r) = row_ClusterID r"
  "ch_Title (fromStoreRow r) = row_Title r"
  "ch_Author (fromStoreRow r) = row_Author r"
  by (simp_all add: fromStoreRow_def)

text \<open>The row \<open>Update\<close> leaves when it writes a changeset over an old row.\<close>

definition row_upd :: "'p ChangesetRow \<Rightarrow> 'p Changeset \<Rightarrow> 'p ChangesetRow" where
  "row_upd old c = old\<lparr>row_Title := ch_Title c, row_Status := ch_Status c, row_Ops := ch_Ops c,
     row_Findings := ch_Findings c, row_Plan := ch_Plan c, row_ApplyLog := ch_ApplyLog c,
     row_ConfirmDeadline := ch_ConfirmDeadline c, row_UpdatedAt := ch_UpdatedAt c\<rparr>"

lemma repo_Update_Inr:
  "repo_Update ok (toStoreRow c) st = Inr st' \<longleftrightarrow>
     ok \<and> (\<exists>old. st_rows st (ch_ID c) = Some old
              \<and> st' = st\<lparr>st_rows := (st_rows st)(ch_ID c \<mapsto> row_upd old c)\<rparr>)"
  by (auto simp: repo_Update_def toStoreRow_def row_upd_def split: option.splits)

lemma svc_Get_Inr:
  "svc_Get s i st = Inr c \<longleftrightarrow> sv_read_ok s \<and> (\<exists>r. st_rows st i = Some r \<and> c = fromStoreRow r)"
  by (auto simp: svc_Get_def repo_Get_def split: option.splits sum.splits)

text \<open>No plaintext preshared key: what every stored op list must satisfy.\<close>

definition sealed :: "'p Op list \<Rightarrow> bool" where
  "sealed ops \<longleftrightarrow> (\<forall>opr \<in> set ops. case op_Params opr of PWgPeerAdd p \<Rightarrow> wp_PresharedKey p = [] | POther _ \<Rightarrow> True)"

lemma sealOpSecrets_sealed: "sealOpSecrets sealer ops = Inr ops' \<Longrightarrow> sealed ops' \<and> map op_ID ops' = map op_ID ops"
  by (induction ops arbitrary: ops')
     (auto simp: sealed_def Let_def split: Params.splits sum.splits option.splits if_splits)

text \<open>
  How one call may change one existing row: the provenance and identity columns stay, the status
  stays or makes one legal move, sealed ops stay sealed, and validated rows carry clean findings.
\<close>

definition same_provenance :: "'p ChangesetRow \<Rightarrow> 'p ChangesetRow \<Rightarrow> bool" where
  "same_provenance r r' \<longleftrightarrow>
     row_ID r' = row_ID r \<and> row_Author r' = row_Author r \<and> row_ClusterID r' = row_ClusterID r
   \<and> row_Origin r' = row_Origin r \<and> row_OriginTokenID r' = row_OriginTokenID r
   \<and> row_OriginTool r' = row_OriginTool r \<and> row_CreatedAt r' = row_CreatedAt r"

definition row_ok :: "'p ChangesetRow \<Rightarrow> bool" where
  "row_ok r \<longleftrightarrow> sealed (row_Ops r) \<and> (row_Status r = StatusValidated \<longrightarrow> \<not> hasError (row_Findings r))"

definition edited :: "'p ChangesetRow \<Rightarrow> 'p ChangesetRow \<Rightarrow> bool" where
  "edited r r' \<longleftrightarrow> same_provenance r r'
     \<and> (row_Status r' = row_Status r \<or> moves (row_Status r) (row_Status r'))
     \<and> (row_ok r \<longrightarrow> row_ok r')"

definition keys_ok :: "'p change_store \<Rightarrow> bool" where
  "keys_ok st \<longleftrightarrow> (\<forall>i r. st_rows st i = Some r \<longrightarrow> row_ID r = i)"

lemma same_provenance_upd [simp]: "same_provenance r (row_upd r c)"
  by (simp add: same_provenance_def row_upd_def)

text \<open>The effect of a successful call on the row it names.\<close>

definition touches :: "string \<Rightarrow> 'p change_store \<Rightarrow> 'p change_store \<Rightarrow> bool" where
  "touches i st st' \<longleftrightarrow> (\<exists>r r'. st_rows st i = Some r \<and> st_rows st' = (st_rows st)(i \<mapsto> r') \<and> edited r r')"

definition adds :: "'p change_store \<Rightarrow> 'p change_store \<Rightarrow> bool" where
  "adds st st' \<longleftrightarrow> (\<exists>r. st_rows st (row_ID r) = None \<and> st_rows st' = (st_rows st)(row_ID r \<mapsto> r)
      \<and> row_ok r \<and> row_Status r \<in> {StatusDraft, StatusRequested} \<and> row_Origin r \<noteq> [])"

lemma create_adds:
  "svc_create s author title ops prov st = (Inr c, st') \<Longrightarrow> adds st st'"
  "CreateRequest s author title ops st = (Inr c, st') \<Longrightarrow> adds st st'"
  by (force simp: svc_create_def CreateRequest_def repo_Insert_def toStoreRow_def adds_def row_ok_def Let_def
      split: prod.splits sum.splits if_splits dest: sealOpSecrets_sealed)+

lemma validate_edit_Inr:
  assumes "validate_edit s i c = Inr c'"
  shows "ch_ID c' = ch_ID c \<and> ch_Ops c' = ch_Ops c \<and> Editable c
    \<and> ch_Findings c' = validateScoped (sv_inputs s) (ch_ClusterID c) i (ch_Ops c)
    \<and> (ch_Status c' = ch_Status c \<or> moves (ch_Status c) (ch_Status c'))
    \<and> ch_Status c' = (if hasError (ch_Findings c') then StatusDraft else StatusValidated)"
  using assms
  by (auto simp: validate_edit_def Editable_def Transition_Inr Let_def split: if_splits intro!: moves.intros)

lemma touchesI:
  assumes "keys_ok st" and "st_rows st i = Some r" and "st_rows st' = (st_rows st)(i \<mapsto> row_upd r c)"
    and "ch_Status c = row_Status r \<or> moves (row_Status r) (ch_Status c)"
    and "sealed (row_Ops r) \<Longrightarrow> sealed (ch_Ops c)"
    and "ch_Status c = StatusValidated \<Longrightarrow> \<not> hasError (ch_Findings c)"
  shows "touches i st st'"
proof -
  have "edited r (row_upd r c)"
    using assms(4-6) by (auto simp: edited_def row_ok_def row_upd_def same_provenance_def)
  with assms(2,3) show ?thesis unfolding touches_def by blast
qed

lemma Validate_touches:
  assumes "svc_Validate s i author st = (Inr c, st')" and "keys_ok st"
  shows "touches i st st'"
proof -
  from assms(1) obtain r where r: "st_rows st i = Some r" "validate_edit s i (fromStoreRow r) = Inr c"
    and st': "\<exists>old. st_rows st (ch_ID c) = Some old \<and> st_rows st' = (st_rows st)(ch_ID c \<mapsto> row_upd old c)"
    by (auto simp: svc_Validate_def svc_Get_Inr repo_Update_Inr Let_def split: sum.splits)
  have i: "ch_ID c = i" using validate_edit_Inr [OF r(2)] assms(2) r(1) by (simp add: keys_ok_def)
  show ?thesis
    by (rule touchesI [OF assms(2) r(1)]) (use validate_edit_Inr [OF r(2)] st' i r(1) in \<open>auto split: if_splits\<close>)
qed

lemma Approve_touches:
  assumes "svc_Approve s i approver st = (Inr c, st')" and "keys_ok st"
  shows "touches i st st'"
proof -
  from assms(1) obtain r where r: "st_rows st i = Some r" "ch_Status c = StatusDraft"
      "StatusDraft \<in> set (allowedTransitions (row_Status r))" "ch_Ops c = row_Ops r" "ch_ID c = row_ID r"
    and st': "\<exists>old. st_rows st (ch_ID c) = Some old \<and> st_rows st' = (st_rows st)(ch_ID c \<mapsto> row_upd old c)"
    by (auto simp: svc_Approve_def svc_Get_Inr Transition_Inr repo_Update_Inr Let_def split: sum.splits)
  have i: "ch_ID c = i" using r(1,5) assms(2) by (simp add: keys_ok_def)
  show ?thesis
    by (rule touchesI [OF assms(2) r(1)]) (use r st' i in \<open>auto intro: moves.intros\<close>)
qed

lemma update_edit_Inr:
  assumes "update_edit s i title ops c = Inr c'"
  shows "ch_ID c' = ch_ID c \<and> ch_Status c' = StatusDraft \<and> Editable c \<and> sealed (ch_Ops c')
    \<and> (ch_Status c = StatusDraft \<or> moves (ch_Status c) StatusDraft)
    \<and> ch_Findings c' = validateScoped (sv_inputs s) (ch_ClusterID c) i (ch_Ops c')"
  using assms
  by (auto simp: update_edit_def Editable_def Transition_Inr split: sum.splits if_splits
      intro!: moves.intros dest!: sealOpSecrets_sealed)

lemma update_write_Inr:
  assumes "update_write s i author prev c st = (Inr c', st')"
  shows "c' = c \<and> (\<exists>old. st_rows st (ch_ID c) = Some old \<and> st_rows st' = (st_rows st)(ch_ID c \<mapsto> row_upd old c))"
  using assms by (auto simp: update_write_def repo_Update_Inr Let_def split: sum.splits)

lemma UpdateDraft_Inr:
  assumes "UpdateDraft s i author title ops st = (Inr c, st')" and "keys_ok st"
  obtains r where "st_rows st i = Some r" and "row_ID r = i"
    and "update_edit s i title ops (fromStoreRow r) = Inr c"
    and "update_write s i author (fromStoreRow r) c st = (Inr c, st')"
    and "st_rows st' = (st_rows st)(i \<mapsto> row_upd r c)"
proof -
  from assms(1) obtain r c0 where r: "st_rows st i = Some r"
    and c0: "update_edit s i title ops (fromStoreRow r) = Inr c0"
    and w: "update_write s i author (fromStoreRow r) c0 st = (Inr c, st')"
    by (auto simp: UpdateDraft_def svc_Get_Inr split: sum.splits)
  have "row_ID r = i" using assms(2) r by (simp add: keys_ok_def)
  with that [of r] r c0 w update_write_Inr [OF w] update_edit_Inr [OF c0] show ?thesis by auto
qed

lemma UpdateDraft_touches:
  assumes "UpdateDraft s i author title ops st = (Inr c, st')" and "keys_ok st"
  shows "touches i st st'"
proof -
  obtain r where r: "st_rows st i = Some r" "update_edit s i title ops (fromStoreRow r) = Inr c"
      "st_rows st' = (st_rows st)(i \<mapsto> row_upd r c)"
    using UpdateDraft_Inr [OF assms] by metis
  show ?thesis
    by (rule touchesI [OF assms(2) r(1,3)]) (use update_edit_Inr [OF r(2)] in auto)
qed

lemma wipe_rows: "st_rows st i = Some r \<Longrightarrow>
   st_rows (wipeRevertTicket s i st) = st_rows st
   \<or> st_rows (wipeRevertTicket s i st) = (st_rows st)(i \<mapsto> r\<lparr>row_RevertTicketEnc := None, row_RevertTicketExpiresAt := None\<rparr>)"
  by (simp add: wipeRevertTicket_def WipeRevertTicket_def)

lemma Discard_touches:
  assumes "svc_Discard s i author st = (Inr c, st')" and "keys_ok st"
  shows "touches i st st'"
proof -
  from assms obtain r where r: "st_rows st i = Some r" "row_ID r = i"
      "StatusDiscarded \<in> set (allowedTransitions (row_Status r))"
    and c: "c = (fromStoreRow r)\<lparr>ch_Status := StatusDiscarded, ch_UpdatedAt := sv_now s\<rparr>"
    and st': "st_rows st' = st_rows (wipeRevertTicket s i (st\<lparr>st_rows := (st_rows st)(i \<mapsto> row_upd r c)\<rparr>))"
    by (auto simp: svc_Discard_def svc_Get_Inr Transition_Inr repo_Update_Inr keys_ok_def Let_def split: sum.splits)
  have e: "edited r (row_upd r c)" "edited r ((row_upd r c)\<lparr>row_RevertTicketEnc := None, row_RevertTicketExpiresAt := None\<rparr>)"
    using r(3) c by (auto simp: edited_def row_ok_def row_upd_def same_provenance_def intro: moves.intros)
  from wipe_rows [of "st\<lparr>st_rows := (st_rows st)(i \<mapsto> row_upd r c)\<rparr>" i "row_upd r c" s] st' e r(1)
  show ?thesis unfolding touches_def by auto
qed


section \<open>Sequences of calls\<close>

datatype 'p dop =
    DCreate string string "'p Op list" Provenance
  | DRequest string string "'p Op list"
  | DApprove string string
  | DUpdate string string "string option" "'p Op list"
  | DDiscard string string
  | DValidate string string

primrec dstep :: "'p change_svc \<Rightarrow> 'p dop \<Rightarrow> 'p change_store \<Rightarrow> 'p outcome" where
  "dstep s (DCreate author title ops prov) st = svc_create s author title ops prov st"
| "dstep s (DRequest author title ops) st = CreateRequest s author title ops st"
| "dstep s (DApprove i approver) st = svc_Approve s i approver st"
| "dstep s (DUpdate i author title ops) st = UpdateDraft s i author title ops st"
| "dstep s (DDiscard i author) st = svc_Discard s i author st"
| "dstep s (DValidate i author) st = svc_Validate s i author st"

primrec dtarget :: "'p dop \<Rightarrow> string option" where
  "dtarget (DCreate author title ops prov) = None"
| "dtarget (DRequest author title ops) = None"
| "dtarget (DApprove i approver) = Some i"
| "dtarget (DUpdate i author title ops) = Some i"
| "dtarget (DDiscard i author) = Some i"
| "dtarget (DValidate i author) = Some i"

inductive draft_step :: "'p change_store \<Rightarrow> 'p change_store \<Rightarrow> bool" where
  "draft_step st (snd (dstep s opr st))"

inductive_cases draft_stepE: "draft_step st st'"

lemma dstep_error: "dstep s opr st = (Inl e, st') \<Longrightarrow> st' = st"
  by (cases opr) (auto simp: svc_create_def CreateRequest_def svc_Approve_def UpdateDraft_def update_write_def
      svc_Discard_def svc_Validate_def Let_def split: sum.splits prod.splits)

lemma dstep_success:
  assumes "dstep s opr st = (Inr c, st')" and "keys_ok st"
  shows "case dtarget opr of None \<Rightarrow> adds st st' | Some i \<Rightarrow> touches i st st'"
  using assms
  by (cases opr) (auto intro: create_adds Approve_touches UpdateDraft_touches Discard_touches Validate_touches)

lemma dstep_cases:
  assumes "keys_ok st"
  obtains (failed) e where "dstep s opr st = (Inl e, st)"
    | (touched) i c st' where "dstep s opr st = (Inr c, st')" and "dtarget opr = Some i" and "touches i st st'"
    | (added) c st' where "dstep s opr st = (Inr c, st')" and "dtarget opr = None" and "adds st st'"
proof (cases "dstep s opr st")
  case (Pair res st')
  show ?thesis
  proof (cases res)
    case (Inl e)
    with Pair failed dstep_error show ?thesis by blast
  next
    case (Inr c)
    from dstep_success [OF Pair [unfolded Inr] assms] show ?thesis
      by (cases "dtarget opr") (use Pair Inr touched added in auto)
  qed
qed

definition store_inv :: "'p change_store \<Rightarrow> bool" where
  "store_inv st \<longleftrightarrow> keys_ok st \<and> (\<forall>i r. st_rows st i = Some r \<longrightarrow> row_ok r)"

lemma store_inv_upd:
  assumes "store_inv st" and "st_rows st' = (st_rows st)(row_ID r \<mapsto> r)" and "row_ok r"
  shows "store_inv st'"
  using assms by (simp add: store_inv_def keys_ok_def)

lemma touches_inv:
  assumes "touches i st st'" and "store_inv st"
  shows "store_inv st'"
proof -
  from assms(1) obtain r r' where r: "st_rows st i = Some r" "st_rows st' = (st_rows st)(i \<mapsto> r')" "edited r r'"
    unfolding touches_def by blast
  have "row_ID r = i" "row_ok r" using assms(2) r(1) by (simp_all add: store_inv_def keys_ok_def)
  then have "row_ID r' = i" "row_ok r'" using r(3) by (simp_all add: edited_def same_provenance_def)
  with store_inv_upd [OF assms(2), of st' r'] r(2) show ?thesis by simp
qed

lemma adds_inv:
  assumes "adds st st'" and "store_inv st"
  shows "store_inv st'"
  using assms store_inv_upd unfolding adds_def by blast

lemma dstep_inv: "store_inv st \<Longrightarrow> store_inv (snd (dstep s opr st))"
  by (rule dstep_cases [of st s opr]) (auto simp: store_inv_def [of st] intro: touches_inv adds_inv)

interpretation drafts: transition_system draft_step store_inv
  by unfold_locales (auto elim!: draft_stepE intro: dstep_inv)

text \<open>What a row may have become after any number of calls.\<close>

definition descends :: "'p change_store \<Rightarrow> 'p change_store \<Rightarrow> bool" where
  "descends st st' \<longleftrightarrow> (\<forall>i r. st_rows st i = Some r \<longrightarrow>
     (\<exists>r'. st_rows st' i = Some r' \<and> same_provenance r r' \<and> moves\<^sup>*\<^sup>* (row_Status r) (row_Status r')))"

lemma same_provenance_refl: "same_provenance r r"
  by (simp add: same_provenance_def)

lemma same_provenance_trans: "same_provenance a b \<Longrightarrow> same_provenance b c \<Longrightarrow> same_provenance a c"
  by (simp add: same_provenance_def)

lemma descends_refl: "descends st st"
  by (simp add: descends_def same_provenance_refl)

lemma descends_trans:
  assumes "descends a b" and "descends b c"
  shows "descends a c"
  unfolding descends_def
proof (intro allI impI)
  fix i r
  assume "st_rows a i = Some r"
  with assms(1) obtain r' where r': "st_rows b i = Some r'" "same_provenance r r'"
    "moves\<^sup>*\<^sup>* (row_Status r) (row_Status r')" unfolding descends_def by blast
  with assms(2) obtain r'' where "st_rows c i = Some r''" "same_provenance r' r''"
    "moves\<^sup>*\<^sup>* (row_Status r') (row_Status r'')" unfolding descends_def by blast
  with r' show "\<exists>r''. st_rows c i = Some r'' \<and> same_provenance r r'' \<and> moves\<^sup>*\<^sup>* (row_Status r) (row_Status r'')"
    by (meson same_provenance_trans rtranclp_trans)
qed

lemma touches_descends: "touches i st st' \<Longrightarrow> descends st st'"
  by (auto simp: touches_def descends_def edited_def same_provenance_refl)

lemma adds_descends: "adds st st' \<Longrightarrow> descends st st'"
  by (auto simp: adds_def descends_def same_provenance_refl)

lemma dstep_descends: "keys_ok st \<Longrightarrow> descends st (snd (dstep s opr st))"
  by (erule dstep_cases [of st s opr]) (auto intro: descends_refl touches_descends adds_descends)

interpretation descent: transition_system draft_step "\<lambda>st. store_inv st \<and> descends st0 st" for st0
proof
  fix st st' :: "'a change_store"
  assume "draft_step st st'" and i: "store_inv st \<and> descends st0 st"
  then obtain s opr where st': "st' = snd (dstep s opr st)" by (auto elim: draft_stepE)
  have "descends st st'" using i dstep_descends [of st s opr] by (simp add: st' store_inv_def)
  then show "store_inv st' \<and> descends st0 st'"
    using i dstep_inv [of st s opr] descends_trans by (auto simp: st')
qed


section \<open>Properties of the draft operations\<close>

text \<open>An example service with every optional store wired, and the empty store.\<close>

definition ex_svc :: "unit change_svc" where
  "ex_svc = \<lparr> sv_now = 100, sv_newULID = (\<lambda>n. ''id'' @ replicate n CHR ''x''), sv_localClusterID = [],
     sv_inputs = ex_valid_inputs, sv_sealer = Some (\<lambda>k. Some (rev k)), sv_allowDangerousOps = False,
     sv_ws = True, sv_read_ok = True, sv_write_ok = True, sv_audit_ok = True, sv_wipe_ok = True,
     sv_comments = Some True, sv_approvals = Some True, sv_signoffs = Some True, sv_acks = Some True \<rparr>"

definition empty_store :: "'p change_store" where
  "empty_store = \<lparr> st_rows = Map.empty, st_comments = [], st_approvals = Map.empty, st_signoffs = [],
     st_acks = Map.empty, st_audit = [], st_events = [], st_lockHeldBy = [] \<rparr>"

definition ex_row :: "Status \<Rightarrow> unit ChangesetRow" where
  "ex_row status = \<lparr> row_ID = ''c1'', row_Title = ''t'', row_Author = ''ann'', row_Status = status,
     row_ClusterID = [], row_Origin = ''mcp'', row_OriginTokenID = ''tok'', row_OriginTool = ''changesets.stage.bridge'',
     row_Ops = [ex_op ''n1''], row_Findings = [], row_Plan = [], row_ApplyLog = [], row_ConfirmDeadline = None,
     row_RevertTicketEnc = None, row_RevertTicketExpiresAt = None, row_CreatedAt = 1, row_UpdatedAt = 1 \<rparr>"

definition ex_store :: "Status \<Rightarrow> unit change_store" where
  "ex_store status = empty_store\<lparr>st_rows := [''c1'' \<mapsto> ex_row status], st_approvals := [''c1'' \<mapsto> ''approved''],
     st_signoffs := [(''c1'', ''bob''), (''c2'', ''bob'')]\<rparr>"

lemma ex_store_inv: "store_inv (ex_store status)"
  by (simp add: store_inv_def keys_ok_def ex_store_def row_ok_def ex_row_def sealed_def ex_op_def)

lemmas ex_simps = ex_svc_def ex_store_def ex_row_def ex_op_def empty_store_def

text \<open>
  C25. No secret in the clear, no false validation. Starting from a store with the invariant, for
  example the empty one, after any sequence of draft calls of any services, every stored changeset
  has only sealed preshared keys and, if it is validated, findings with no error. Every changeset
  that was there still is, with the identity, author, cluster, provenance and creation time it had,
  and a status the lifecycle table leads to.
\<close>

theorem draft_runs_safe:
  assumes "draft_step\<^sup>*\<^sup>* st st'" and "store_inv st"
  shows "(\<forall>i r. st_rows st' i = Some r \<longrightarrow> sealed (row_Ops r)
            \<and> (row_Status r = StatusValidated \<longrightarrow> \<not> hasError (row_Findings r)))
       \<and> (\<forall>i r. st_rows st i = Some r \<longrightarrow> (\<exists>r'. st_rows st' i = Some r' \<and> same_provenance r r'
            \<and> moves\<^sup>*\<^sup>* (row_Status r) (row_Status r')))"
proof -
  have "store_inv st'" "descends st st'"
    using descent.reach_inv [OF assms(1), of st] assms(2) descends_refl [of st] by blast+
  then show ?thesis unfolding store_inv_def row_ok_def descends_def by blast
qed

theorem draft_runs_safe_witness:
  "\<exists>r'. st_rows (snd (dstep ex_svc (DValidate ''c1'' ''ann'') (ex_store StatusDraft))) ''c1'' = Some r'
      \<and> row_Origin r' = ''mcp''"
proof -
  let ?st = "ex_store StatusDraft" and ?st' = "snd (dstep ex_svc (DValidate ''c1'' ''ann'') (ex_store StatusDraft))"
  have "draft_step\<^sup>*\<^sup>* ?st ?st'" by (blast intro: draft_step.intros)
  moreover have "st_rows ?st ''c1'' = Some (ex_row StatusDraft)" by (simp add: ex_store_def)
  ultimately have "\<exists>r'. st_rows ?st' ''c1'' = Some r' \<and> same_provenance (ex_row StatusDraft) r'"
    using draft_runs_safe [OF _ ex_store_inv] by blast
  then show ?thesis by (auto simp: same_provenance_def ex_row_def)
qed

text \<open>
  A draft call is all or nothing, and touches one row. When it fails the whole state is as
  before. When it succeeds, at most the named changeset's row differs, with its provenance kept and
  its status unchanged or moved along one edge of the lifecycle table.
\<close>

theorem draft_call_frame:
  assumes "keys_ok st"
  shows "(\<forall>e. fst (dstep s opr st) = Inl e \<longrightarrow> snd (dstep s opr st) = st)
       \<and> (\<forall>i r. st_rows st i = Some r \<longrightarrow> (\<exists>r'. st_rows (snd (dstep s opr st)) i = Some r'
            \<and> (dtarget opr \<noteq> Some i \<longrightarrow> r' = r) \<and> same_provenance r r'
            \<and> (row_Status r' = row_Status r \<or> moves (row_Status r) (row_Status r'))))"
  using assms
  by (rule dstep_cases [of st s opr])
    (auto simp: touches_def adds_def edited_def same_provenance_refl)

theorem draft_call_frame_witness:
  "snd (dstep ex_svc (DUpdate ''c1'' ''ann'' None []) (ex_store StatusApplying)) = ex_store StatusApplying"
proof -
  have e: "fst (dstep ex_svc (DUpdate ''c1'' ''ann'' None []) (ex_store StatusApplying))
      = Inl (ErrIllegalTransition StatusApplying StatusDraft)"
    by (simp add: UpdateDraft_def update_edit_def svc_Get_def repo_Get_def Editable_def ex_simps fromStoreRow_def)
  have "keys_ok (ex_store StatusApplying)" using ex_store_inv by (simp add: store_inv_def)
  from draft_call_frame [OF this] e show ?thesis by blast
qed

text \<open>The stores the end of \<open>UpdateDraft\<close> leaves alone.\<close>

lemma review_frame [simp]:
  "st_approvals (appendAudit s u a r i st) = st_approvals st"
  "st_approvals (broadcastStatus s c st) = st_approvals st"
  "st_approvals (auditSafetyOverride s u i fs st) = st_approvals st"
  "st_approvals (cleanupOrphanedComments s i u rm st) = st_approvals st"
  "st_approvals (clearSDNPendingAck s i st) = st_approvals st"
  "st_approvals (clearSignoffs s i st) = st_approvals st"
  "st_signoffs (appendAudit s u a r i st) = st_signoffs st"
  "st_signoffs (broadcastStatus s c st) = st_signoffs st"
  "st_signoffs (auditSafetyOverride s u i fs st) = st_signoffs st"
  "st_signoffs (cleanupOrphanedComments s i u rm st) = st_signoffs st"
  "st_signoffs (clearApproval s i st) = st_signoffs st"
  "st_signoffs (clearSDNPendingAck s i st) = st_signoffs st"
  "st_acks (appendAudit s u a r i st) = st_acks st"
  "st_acks (broadcastStatus s c st) = st_acks st"
  "st_acks (auditSafetyOverride s u i fs st) = st_acks st"
  "st_acks (cleanupOrphanedComments s i u rm st) = st_acks st"
  "st_acks (clearApproval s i st) = st_acks st"
  "st_acks (clearSignoffs s i st) = st_acks st"
  "st_comments (appendAudit s u a r i st) = st_comments st"
  "st_comments (broadcastStatus s c st) = st_comments st"
  "st_comments (auditSafetyOverride s u i fs st) = st_comments st"
  "st_comments (clearApproval s i st) = st_comments st"
  "st_comments (clearSDNPendingAck s i st) = st_comments st"
  "st_comments (clearSignoffs s i st) = st_comments st"
  by (simp_all add: appendAudit_def broadcastStatus_def auditSafetyOverride_def
      cleanupOrphanedComments_def clearApproval_def clearSDNPendingAck_def clearSignoffs_def Let_def
      split: option.split)

lemma cleanup_comments:
  "sv_comments s = Some True \<Longrightarrow> st_comments (cleanupOrphanedComments s i u rm st)
     = filter (\<lambda>c. \<not> (co_ChangesetID c = i \<and> co_OpID c \<in> rm)) (st_comments st)"
  by (simp add: cleanupOrphanedComments_def Let_def)

text \<open>
  An edit voids what was decided about the old ops. After a successful \<open>UpdateDraft\<close> whose
  review stores are wired and writable, the changeset is a draft holding the new ops and findings
  computed from them; its approval, its SDN acknowledgement and all its sign-offs are gone, exactly
  the comments on ops that are no longer there are gone, and no other changeset's are affected.
\<close>

theorem UpdateDraft_voids_review:
  assumes "UpdateDraft s i author title ops st = (Inr c, st')" and "keys_ok st"
    and "sv_approvals s = Some True" and "sv_acks s = Some True" and "sv_signoffs s = Some True"
    and "sv_comments s = Some True"
  shows "ch_Status c = StatusDraft \<and> sealed (ch_Ops c)
       \<and> ch_Findings c = validateScoped (sv_inputs s) (ch_ClusterID c) i (ch_Ops c)
       \<and> (\<exists>r r'. st_rows st i = Some r \<and> st_rows st' i = Some r' \<and> row_Ops r' = ch_Ops c
            \<and> st_comments st' = filter (\<lambda>x. \<not> (co_ChangesetID x = i
                 \<and> co_OpID x \<in> opIDSet (row_Ops r) - opIDSet (row_Ops r'))) (st_comments st))
       \<and> st_approvals st' = (st_approvals st)(i := None) \<and> st_acks st' = (st_acks st)(i := None)
       \<and> st_signoffs st' = filter (\<lambda>x. fst x \<noteq> i) (st_signoffs st)"
proof -
  obtain r where r: "st_rows st i = Some r" "update_edit s i title ops (fromStoreRow r) = Inr c"
      "st_rows st' = (st_rows st)(i \<mapsto> row_upd r c)"
    and w: "update_write s i author (fromStoreRow r) c st = (Inr c, st')"
    using UpdateDraft_Inr [OF assms(1,2)] by metis
  have cl: "ch_ClusterID c = row_ClusterID r"
    using r(2) by (auto simp: update_edit_def Transition_Inr split: sum.splits if_splits)
  have "st_approvals st' = (st_approvals st)(i := None)" "st_acks st' = (st_acks st)(i := None)"
    "st_signoffs st' = filter (\<lambda>x. fst x \<noteq> i) (st_signoffs st)"
    "st_comments st' = filter (\<lambda>x. \<not> (co_ChangesetID x = i \<and> co_OpID x \<in> opIDSet (row_Ops r) - opIDSet (ch_Ops c))) (st_comments st)"
    using w assms(3-6)
    by (auto simp: update_write_def repo_Update_Inr Let_def clearApproval_def clearSDNPendingAck_def
        clearSignoffs_def cleanup_comments split: sum.splits)
  moreover have "st_rows st' i = Some (row_upd r c)" "row_Ops (row_upd r c) = ch_Ops c"
    using r(3) by (simp_all add: row_upd_def)
  ultimately show ?thesis using update_edit_Inr [OF r(2)] r(1) cl by auto
qed

lemma ex_update: "\<exists>c st'. UpdateDraft ex_svc ''c1'' ''ann'' None [] (ex_store StatusValidated) = (Inr c, st')"
  by (simp add: UpdateDraft_def update_edit_def update_write_def svc_Get_def repo_Get_def repo_Update_def
      Editable_def Transition_def CanTransition_def toStoreRow_def ex_simps fromStoreRow_def Let_def)

theorem UpdateDraft_voids_review_witness:
  "\<exists>c st'. UpdateDraft ex_svc ''c1'' ''ann'' None [] (ex_store StatusValidated) = (Inr c, st')
     \<and> st_approvals st' ''c1'' = None \<and> st_signoffs st' = [(''c2'', ''bob'')]"
proof -
  obtain c st' where u: "UpdateDraft ex_svc ''c1'' ''ann'' None [] (ex_store StatusValidated) = (Inr c, st')"
    using ex_update by blast
  have "keys_ok (ex_store StatusValidated)" using ex_store_inv by (simp add: store_inv_def)
  from UpdateDraft_voids_review [OF u this] u show ?thesis
    by (simp add: ex_svc_def) (simp add: ex_store_def empty_store_def)
qed

text \<open>
  Approving is not limited to requests. \<open>Approve\<close> succeeds on a validated changeset as well,
  which it puts back to draft under the audit action of an approval; it refuses everything but
  requested and validated changesets.
\<close>

theorem Approve_statuses:
  assumes "keys_ok st" and "st_rows st i = Some r" and "sv_read_ok s" and "sv_write_ok s"
  shows "((\<exists>c st'. svc_Approve s i approver st = (Inr c, st'))
            \<longleftrightarrow> row_Status r = StatusRequested \<or> row_Status r = StatusValidated)
       \<and> (\<forall>c st'. svc_Approve s i approver st = (Inr c, st') \<longrightarrow> ch_Status c = StatusDraft \<and> ch_Ops c = row_Ops r
            \<and> ch_Findings c = validateScoped (sv_inputs s) (row_ClusterID r) i (row_Ops r))"
proof -
  have i: "row_ID r = i" using assms by (simp add: keys_ok_def)
  have g: "svc_Get s i st = Inr (fromStoreRow r)" using assms by (simp add: svc_Get_Inr)
  show ?thesis
    using assms i
    by (cases "row_Status r")
       (auto simp: svc_Approve_def g Transition_def CanTransition_def repo_Update_def toStoreRow_def Let_def)
qed

theorem Approve_statuses_witness:
  "\<exists>c st'. svc_Approve ex_svc ''c1'' ''root'' (ex_store StatusValidated) = (Inr c, st') \<and> ch_Status c = StatusDraft"
proof -
  have "keys_ok (ex_store StatusValidated)" using ex_store_inv by (simp add: store_inv_def)
  moreover have "st_rows (ex_store StatusValidated) ''c1'' = Some (ex_row StatusValidated)"
    "row_Status (ex_row StatusValidated) = StatusValidated" "sv_read_ok ex_svc" "sv_write_ok ex_svc"
    by (simp_all add: ex_simps)
  ultimately show ?thesis using Approve_statuses [of "ex_store StatusValidated" "''c1''" "ex_row StatusValidated" ex_svc "''root''"]
    by blast
qed

text \<open>
  Replication does not carry provenance. A changeset that the active writes to a standby with
  \<open>Upsert\<close> and that the standby has not seen before arrives labelled as staged by the user
  interface, with no token and no tool, whoever staged it; everything else but the sealed revert
  ticket arrives as it was.
\<close>

theorem Upsert_loses_provenance:
  assumes "repo_Upsert True r standby = Inr standby'" and "st_rows standby (row_ID r) = None"
  shows "st_rows standby' (row_ID r) = Some (r\<lparr>row_Origin := OriginUI, row_OriginTokenID := [],
           row_OriginTool := [], row_RevertTicketEnc := None, row_RevertTicketExpiresAt := None\<rparr>)"
  using assms by (auto simp: repo_Upsert_def)

theorem Upsert_loses_provenance_witness:
  "\<exists>st'. repo_Upsert True (ex_row StatusDraft) empty_store = Inr st'
      \<and> (\<exists>r. st_rows st' ''c1'' = Some r \<and> row_Origin r = OriginUI \<and> row_Origin r \<noteq> row_Origin (ex_row StatusDraft))"
proof -
  obtain st' where u: "repo_Upsert True (ex_row StatusDraft) empty_store = Inr st'"
    by (simp add: repo_Upsert_def)
  from Upsert_loses_provenance [OF this] u show ?thesis by (simp add: empty_store_def ex_row_def)
qed

end
