(* ===== verification/Change_Apply.thy ===== *)
theory Change_Apply
  imports Change_Service
begin

text \<open>
  The entry gate of an apply: \<open>beginApply\<close> (\<^verbatim>\<open>src/internal/change/apply.go\<close>) with the review gate
  (\<^verbatim>\<open>review.go\<close>), the two-person rule (\<^verbatim>\<open>twoperson.go\<close>) and the acknowledgement of foreign SDN edits
  (\<^verbatim>\<open>apply_sdn_foreign.go\<close>). The plan is a type variable; building it, its affected nodes, the
  classes an op list falls into, the fingerprint of an op list and the live checks are the record
  \<open>apply_gates\<close>. The call holds the service's apply mutex from start to end, so it is one step.
\<close>

datatype 'p apply_err =
    AChange change_err
  | ErrChangesetLocked string
  | ErrApprovalRequired string
  | ErrValidationBlocked "'p Finding list"
  | ErrTwoPersonRequired string int int
  | ErrUnsupportedOp
  | ErrSDNCheckFailed
  | ErrSDNForeignPendingUnacknowledged "string list"
  | ErrIncompatiblePeer string
  | ErrApplyStrategy

record MatchedClass =
  mc_Class :: string
  mc_Approvals :: int

record ('p, 'pl) apply_gates =
  ag_approvalRequired :: bool
  ag_approval_read_ok :: bool
  ag_protectedClasses :: bool
  ag_matchedClasses :: "'p Changeset \<Rightarrow> change_err + MatchedClass list"
  ag_signoff_read_ok :: bool
  ag_breakGlass :: "string \<rightharpoonup> string"
  ag_fingerprint :: "'p Op list \<Rightarrow> string"
  ag_BuildPlan :: "'p Op list \<Rightarrow> 'pl option"
  ag_hasSDN :: "'pl \<Rightarrow> bool"
  ag_foreign :: "string list option"
  ag_ack_read_ok :: bool
  ag_affectedNodes :: "'pl \<Rightarrow> string list"
  ag_incompatible :: "string \<Rightarrow> bool"
  ag_strategy_ok :: "'pl \<Rightarrow> bool"
  ag_marshalPlan :: "'pl \<Rightarrow> string"


section \<open>The gates\<close>

definition isApproved :: "'p change_svc \<Rightarrow> ('p, 'pl) apply_gates \<Rightarrow> string \<Rightarrow> 'p change_store \<Rightarrow> change_err + bool" where
  "isApproved s g i st =
     (if sv_approvals s = None then Inr False
      else if \<not> ag_approval_read_ok g then Inl ErrStorage
      else case st_approvals st i of None \<Rightarrow> Inr False | Some status \<Rightarrow> Inr (status = ''approved''))"

definition bindingClass :: "MatchedClass list \<Rightarrow> string \<times> int" where
  "bindingClass classes =
     foldl (\<lambda>(binding, required) c.
        if mc_Approvals c > required \<or> mc_Approvals c = required \<and> mc_Class c < binding
        then (mc_Class c, mc_Approvals c) else (binding, required)) ([], 0) classes"

definition signoffPrincipals :: "'p change_svc \<Rightarrow> ('p, 'pl) apply_gates \<Rightarrow> string \<Rightarrow> 'p change_store \<Rightarrow> change_err + string list" where
  "signoffPrincipals s g i st =
     (if sv_signoffs s = None then Inr []
      else if \<not> ag_signoff_read_ok g then Inl ErrStorage
      else Inr (map snd (filter (\<lambda>x. fst x = i) (st_signoffs st))))"

definition enforceTwoPerson :: "'p change_svc \<Rightarrow> ('p, 'pl) apply_gates \<Rightarrow> 'p Changeset \<Rightarrow> string \<Rightarrow> 'p change_store
    \<Rightarrow> 'p apply_err option \<times> 'p change_store" where
  "enforceTwoPerson s g cs author st =
     (if \<not> ag_protectedClasses g then (None, st) else
      case ag_matchedClasses g cs of Inl e \<Rightarrow> (Some (AChange e), st) | Inr classes \<Rightarrow>
      if classes = [] then (None, st) else
      let (binding, required) = bindingClass classes in
      case signoffPrincipals s g (ch_ID cs) st of Inl e \<Rightarrow> (Some (AChange e), st) | Inr approvers \<Rightarrow>
      if int (length approvers) \<ge> required then (None, st)
      else if ag_breakGlass g (ch_ID cs) = Some (ag_fingerprint g (ch_Ops cs))
        then (None, appendAudit s author ''changeset.apply'' ''break_glass'' (ch_ID cs) st)
        else (Some (ErrTwoPersonRequired binding required (int (length approvers))), st))"

text \<open>Entries and acknowledgements are compared by their canonical encodings.\<close>

definition isSDNForeignPendingCovered :: "'p change_svc \<Rightarrow> ('p, 'pl) apply_gates \<Rightarrow> string \<Rightarrow> string list \<Rightarrow> 'p change_store \<Rightarrow> change_err + bool" where
  "isSDNForeignPendingCovered s g i cur st =
     (if cur = [] then Inr True
      else if sv_acks s = None then Inr False
      else if \<not> ag_ack_read_ok g then Inl ErrStorage
      else case st_acks st i of None \<Rightarrow> Inr False
           | Some acked \<Rightarrow> Inr (list_all (\<lambda>k. k \<in> set acked) cur))"

definition sdn_gate :: "'p change_svc \<Rightarrow> ('p, 'pl) apply_gates \<Rightarrow> string \<Rightarrow> string \<Rightarrow> 'pl \<Rightarrow> 'p change_store
    \<Rightarrow> 'p apply_err option \<times> 'p change_store" where
  "sdn_gate s g i author plan st =
     (if \<not> ag_hasSDN g plan then (None, st) else
      case ag_foreign g of
        None \<Rightarrow> (Some ErrSDNCheckFailed, appendAudit s author ''changeset.apply'' ''sdn_foreign_pending_check_failed'' i st)
      | Some foreign \<Rightarrow>
          case isSDNForeignPendingCovered s g i foreign st of
            Inl e \<Rightarrow> (Some (AChange e), appendAudit s author ''changeset.apply'' ''sdn_foreign_pending_check_failed'' i st)
          | Inr covered \<Rightarrow>
              if \<not> covered
              then (Some (ErrSDNForeignPendingUnacknowledged foreign),
                    appendAudit s author ''changeset.apply'' ''sdn_foreign_pending_unacknowledged'' i st)
              else (None, st))"

definition peer_gate :: "'p change_svc \<Rightarrow> ('p, 'pl) apply_gates \<Rightarrow> string \<Rightarrow> string \<Rightarrow> 'pl \<Rightarrow> 'p change_store
    \<Rightarrow> 'p apply_err option \<times> 'p change_store" where
  "peer_gate s g i author plan st =
     (case filter (ag_incompatible g) (ag_affectedNodes g plan) of [] \<Rightarrow> (None, st)
      | node # _ \<Rightarrow> (Some (ErrIncompatiblePeer node), appendAudit s author ''changeset.apply'' ''peer_incompatible'' i st))"

definition persist_changeset :: "'p change_svc \<Rightarrow> 'p Changeset \<Rightarrow> 'p change_store \<Rightarrow> change_err + 'p change_store" where
  "persist_changeset s cs st = repo_Update (sv_write_ok s) (toStoreRow cs) st"

definition revalidation :: "'p change_svc \<Rightarrow> 'p Changeset \<Rightarrow> 'p Finding list" where
  "revalidation s cs =
     vi_policyFindings (sv_inputs s) (ch_ClusterID cs) (ch_ID cs) (ch_Ops cs)
     @ ValidateWithSafety (vi_classes (sv_inputs s) (ch_ClusterID cs) (ch_ID cs) (ch_Ops cs)) (ch_Ops cs)"

text \<open>The gates from the plan on, for a changeset that passed revalidation.\<close>

definition enter_applying :: "'p change_svc \<Rightarrow> ('p, 'pl) apply_gates \<Rightarrow> string \<Rightarrow> string \<Rightarrow> 'p Changeset \<Rightarrow> 'p change_store
    \<Rightarrow> ('p apply_err + 'p Changeset \<times> 'pl) \<times> 'p change_store" where
  "enter_applying s g i author cs st =
     (case ag_BuildPlan g (ch_Ops cs) of
        None \<Rightarrow> (Inl ErrUnsupportedOp, appendAudit s author ''changeset.apply'' ''unsupported_op'' i st)
      | Some plan \<Rightarrow>
      case sdn_gate s g i author plan st of (Some e, st) \<Rightarrow> (Inl e, st) | (None, st) \<Rightarrow>
      case peer_gate s g i author plan st of (Some e, st) \<Rightarrow> (Inl e, st) | (None, st) \<Rightarrow>
      if \<not> ag_strategy_ok g plan
      then (Inl ErrApplyStrategy, appendAudit s author ''changeset.apply'' ''invalid_apply_strategy'' i st) else
      let cs = cs\<lparr>ch_Plan := ag_marshalPlan g plan, ch_ApplyLog := []\<rparr> in
      case Transition StatusApplying (sv_now s) cs of Inl e \<Rightarrow> (Inl (AChange e), st) | Inr cs \<Rightarrow>
      case persist_changeset s cs st of Inl e \<Rightarrow> (Inl (AChange e), st) | Inr st \<Rightarrow>
      let st = st\<lparr>st_lockHeldBy := i\<rparr>;
          st = appendAudit s author ''changeset.apply'' ''applying'' i st;
          st = broadcastStatus s cs st
      in (Inr (cs, plan), st))"

definition beginApply :: "'p change_svc \<Rightarrow> ('p, 'pl) apply_gates \<Rightarrow> string \<Rightarrow> string \<Rightarrow> 'p change_store
    \<Rightarrow> ('p apply_err + 'p Changeset \<times> 'pl) \<times> 'p change_store" where
  "beginApply s g i author st =
     (if st_lockHeldBy st \<noteq> []
      then (Inl (ErrChangesetLocked (st_lockHeldBy st)), appendAudit s author ''changeset.apply'' ''locked'' i st) else
      case svc_Get s i st of Inl e \<Rightarrow> (Inl (AChange e), st) | Inr cs \<Rightarrow>
      if ch_Status cs \<noteq> StatusDraft \<and> ch_Status cs \<noteq> StatusValidated
      then (Inl (AChange (ErrIllegalTransition (ch_Status cs) StatusApplying)), st) else
      case (if ag_approvalRequired g then isApproved s g i st else Inr True) of
        Inl e \<Rightarrow> (Inl (AChange e), st)
      | Inr False \<Rightarrow> (Inl (ErrApprovalRequired i), appendAudit s author ''changeset.apply'' ''approval_required'' i st)
      | Inr True \<Rightarrow>
      let findings = revalidation s cs;
          cs = cs\<lparr>ch_Findings := findings\<rparr>
      in if hasError findings then
           let cs = (if ch_Status cs = StatusValidated
                     then (case Transition StatusDraft (sv_now s) cs of Inl _ \<Rightarrow> cs | Inr cs \<Rightarrow> cs)
                     else cs\<lparr>ch_UpdatedAt := sv_now s\<rparr>)
           in (case persist_changeset s cs st of Inl e \<Rightarrow> (Inl (AChange e), st)
               | Inr st \<Rightarrow>
                   let st = appendAudit s author ''changeset.apply'' ''validation_failed'' i st;
                       st = broadcastStatus s cs st
                   in (Inl (ErrValidationBlocked findings), st))
         else
           let st = auditSafetyOverride s author i findings st in
           case enforceTwoPerson s g cs author st of
             (Some e, st) \<Rightarrow>
               (Inl e, appendAudit s author ''changeset.apply''
                  (case e of ErrTwoPersonRequired _ _ _ \<Rightarrow> ''two_person_required'' | _ \<Rightarrow> ''two_person_undecidable'') i st)
           | (None, st) \<Rightarrow> enter_applying s g i author cs st)"


section \<open>What the gates change and guarantee\<close>

text \<open>A gate that passes or refuses writes nothing but audit rows.\<close>

definition audit_only :: "'p change_store \<Rightarrow> 'p change_store \<Rightarrow> bool" where
  "audit_only st st' \<longleftrightarrow> (\<exists>a. st' = st\<lparr>st_audit := a\<rparr>)"

lemma audit_only_refl [simp]: "audit_only st st"
  unfolding audit_only_def by (rule exI [of _ "st_audit st"]) simp

lemma audit_only_trans: "audit_only a b \<Longrightarrow> audit_only b c \<Longrightarrow> audit_only a c"
  by (auto simp: audit_only_def)

lemma appendAudit_only [simp]: "audit_only st (appendAudit s u a r i st)"
  by (auto simp: audit_only_def appendAudit_def intro: audit_only_refl [unfolded audit_only_def])

lemma auditSafetyOverride_only [simp]: "audit_only st (auditSafetyOverride s u i fs st)"
  by (simp add: auditSafetyOverride_def Let_def)

lemma audit_only_simps:
  assumes "audit_only st st'"
  shows "st_rows st' = st_rows st" "st_lockHeldBy st' = st_lockHeldBy st" "st_acks st' = st_acks st"
    "st_approvals st' = st_approvals st" "st_signoffs st' = st_signoffs st" "st_events st' = st_events st"
    "st_comments st' = st_comments st"
  using assms by (auto simp: audit_only_def)

lemma enforceTwoPerson_only: "enforceTwoPerson s g cs u st = (r, st') \<Longrightarrow> audit_only st st'"
  by (auto simp: enforceTwoPerson_def split: if_splits sum.splits prod.splits)

lemma sdn_gate_only: "sdn_gate s g i u plan st = (r, st') \<Longrightarrow> audit_only st st'"
  by (auto simp: sdn_gate_def split: if_splits sum.splits option.splits)

lemma peer_gate_only: "peer_gate s g i u plan st = (r, st') \<Longrightarrow> audit_only st st'"
  by (auto simp: peer_gate_def split: list.splits)

text \<open>The binding class asks for as many approvals as any matched class.\<close>

definition stricter :: "string \<times> int \<Rightarrow> MatchedClass \<Rightarrow> string \<times> int" where
  "stricter br c = (if mc_Approvals c > snd br \<or> mc_Approvals c = snd br \<and> mc_Class c < fst br
     then (mc_Class c, mc_Approvals c) else br)"

lemma bindingClass_alt: "bindingClass classes = foldl stricter ([], 0) classes"
  unfolding bindingClass_def by (rule arg_cong [where f = "\<lambda>f. foldl f _ _"]) (auto simp: stricter_def fun_eq_iff)

lemma stricter_ge: "snd br \<le> snd (stricter br c) \<and> mc_Approvals c \<le> snd (stricter br c)"
  by (auto simp: stricter_def)

lemma foldl_stricter_ge:
  "snd br \<le> snd (foldl stricter br cs) \<and> (\<forall>c \<in> set cs. mc_Approvals c \<le> snd (foldl stricter br cs))"
proof (induction cs arbitrary: br)
  case (Cons c cs)
  from Cons.IH [of "stricter br c"] stricter_ge [of br c] show ?case by auto
qed simp

lemma bindingClass_ge: "c \<in> set classes \<Longrightarrow> mc_Approvals c \<le> snd (bindingClass classes)"
  using foldl_stricter_ge [of "([], 0)" classes] by (simp add: bindingClass_alt)

text \<open>The two-person rule as a condition on the sign-offs on record.\<close>

definition two_person_ok :: "('p, 'pl) apply_gates \<Rightarrow> 'p Changeset \<Rightarrow> 'p change_store \<Rightarrow> bool" where
  "two_person_ok g cs st \<longleftrightarrow> (ag_protectedClasses g \<longrightarrow>
     (\<exists>classes. ag_matchedClasses g cs = Inr classes
        \<and> ((\<forall>c \<in> set classes. mc_Approvals c \<le> int (length (filter (\<lambda>x. fst x = ch_ID cs) (st_signoffs st))))
           \<or> ag_breakGlass g (ch_ID cs) = Some (ag_fingerprint g (ch_Ops cs)))))"

lemma enforceTwoPerson_pass:
  assumes "enforceTwoPerson s g cs u st = (None, st')"
  shows "two_person_ok g cs st"
proof (cases "ag_protectedClasses g")
  case True
  with assms obtain classes where c: "ag_matchedClasses g cs = Inr classes"
    by (auto simp: enforceTwoPerson_def split: sum.splits)
  have "(\<forall>x \<in> set classes. mc_Approvals x \<le> int (length (filter (\<lambda>x. fst x = ch_ID cs) (st_signoffs st))))
           \<or> ag_breakGlass g (ch_ID cs) = Some (ag_fingerprint g (ch_Ops cs))"
  proof (cases "classes = []")
    case False
    with assms True c have "snd (bindingClass classes) \<le> int (length (filter (\<lambda>x. fst x = ch_ID cs) (st_signoffs st)))
        \<or> ag_breakGlass g (ch_ID cs) = Some (ag_fingerprint g (ch_Ops cs))"
      by (auto simp: enforceTwoPerson_def signoffPrincipals_def split: sum.splits prod.splits if_splits)
    with bindingClass_ge [of _ classes] show ?thesis by fastforce
  qed simp
  with c True show ?thesis by (auto simp: two_person_ok_def)
qed (simp add: two_person_ok_def)

definition sdn_ok :: "('p, 'pl) apply_gates \<Rightarrow> string \<Rightarrow> 'pl \<Rightarrow> 'p change_store \<Rightarrow> bool" where
  "sdn_ok g i plan st \<longleftrightarrow> (ag_hasSDN g plan \<longrightarrow> (\<exists>foreign. ag_foreign g = Some foreign
     \<and> (foreign = [] \<or> (\<exists>acked. st_acks st i = Some acked \<and> set foreign \<subseteq> set acked))))"

lemma sdn_gate_pass: "sdn_gate s g i u plan st = (None, st') \<Longrightarrow> sdn_ok g i plan st"
  by (auto simp: sdn_gate_def sdn_ok_def isSDNForeignPendingCovered_def list_all_iff
      split: if_splits sum.splits option.splits)

lemma peer_gate_pass: "peer_gate s g i u plan st = (None, st') \<Longrightarrow> \<forall>n \<in> set (ag_affectedNodes g plan). \<not> ag_incompatible g n"
  by (auto simp: peer_gate_def filter_empty_conv split: list.splits)

lemma enter_applying_Inr:
  assumes "enter_applying s g i u cs st = (Inr (cs', plan), st')"
  shows "ag_BuildPlan g (ch_Ops cs) = Some plan \<and> sdn_ok g i plan st \<and> ag_strategy_ok g plan
    \<and> (\<forall>n \<in> set (ag_affectedNodes g plan). \<not> ag_incompatible g n)
    \<and> StatusApplying \<in> set (allowedTransitions (ch_Status cs))
    \<and> cs' = cs\<lparr>ch_Plan := ag_marshalPlan g plan, ch_ApplyLog := [], ch_Status := StatusApplying, ch_UpdatedAt := sv_now s\<rparr>
    \<and> st_lockHeldBy st' = i
    \<and> (\<exists>old. st_rows st (ch_ID cs) = Some old \<and> st_rows st' = (st_rows st)(ch_ID cs \<mapsto> row_upd old cs'))"
proof -
  from assms obtain st1 st2 st3 where p: "ag_BuildPlan g (ch_Ops cs) = Some plan" "ag_strategy_ok g plan"
    and s1: "sdn_gate s g i u plan st = (None, st1)" and s2: "peer_gate s g i u plan st1 = (None, st2)"
    and t: "Transition StatusApplying (sv_now s) (cs\<lparr>ch_Plan := ag_marshalPlan g plan, ch_ApplyLog := []\<rparr>) = Inr cs'"
    and u: "persist_changeset s cs' st2 = Inr st3"
    and st': "st' = broadcastStatus s cs' (appendAudit s u ''changeset.apply'' ''applying'' i (st3\<lparr>st_lockHeldBy := i\<rparr>))"
    by (auto simp: enter_applying_def Let_def split: option.splits prod.splits if_splits sum.splits)
  have r: "st_rows st2 = st_rows st"
    using audit_only_simps(1) [OF sdn_gate_only [OF s1]] audit_only_simps(1) [OF peer_gate_only [OF s2]] by simp
  have l: "st_lockHeldBy st' = i" by (simp add: st' broadcastStatus_def appendAudit_def)
  have "st_rows st' = st_rows st3" by (simp add: st')
  with p sdn_gate_pass [OF s1] peer_gate_pass [OF s2] t u r l show ?thesis
    by (auto simp: Transition_Inr persist_changeset_def repo_Update_Inr)
qed

lemma beginApply_Inr:
  assumes "beginApply s g i u st = (Inr (cs, plan), st')"
  obtains r st1 st2 where "st_lockHeldBy st = []" and "st_rows st i = Some r"
    and "row_Status r \<in> {StatusDraft, StatusValidated}"
    and "ag_approvalRequired g \<Longrightarrow> st_approvals st i = Some ''approved''"
    and "\<not> hasError (revalidation s (fromStoreRow r))"
    and "enforceTwoPerson s g ((fromStoreRow r)\<lparr>ch_Findings := revalidation s (fromStoreRow r)\<rparr>) u st1 = (None, st2)"
    and "audit_only st st1"
    and "enter_applying s g i u ((fromStoreRow r)\<lparr>ch_Findings := revalidation s (fromStoreRow r)\<rparr>) st2 = (Inr (cs, plan), st')"
proof -
  have lk: "st_lockHeldBy st = []" using assms by (auto simp: beginApply_def split: if_splits)
  then obtain r where r: "st_rows st i = Some r" and g: "svc_Get s i st = Inr (fromStoreRow r)"
    using assms by (auto simp: beginApply_def svc_Get_Inr split: if_splits sum.splits)
  have stt: "row_Status r \<in> {StatusDraft, StatusValidated}"
    using assms lk g by (auto simp: beginApply_def split: if_splits)
  have ap: "(if ag_approvalRequired g then isApproved s g i st else Inr True) = Inr True"
    using assms lk g stt by (auto simp: beginApply_def split: sum.splits bool.splits)
  have ok: "\<not> hasError (revalidation s (fromStoreRow r))"
    using assms lk g stt ap by (auto simp: beginApply_def Let_def split: sum.splits if_splits)
  let ?st1 = "auditSafetyOverride s u i (revalidation s (fromStoreRow r)) st"
  obtain st2 where e: "enforceTwoPerson s g ((fromStoreRow r)\<lparr>ch_Findings := revalidation s (fromStoreRow r)\<rparr>) u ?st1 = (None, st2)"
      "enter_applying s g i u ((fromStoreRow r)\<lparr>ch_Findings := revalidation s (fromStoreRow r)\<rparr>) st2 = (Inr (cs, plan), st')"
    using assms lk g stt ap ok by (auto simp: beginApply_def Let_def split: prod.splits option.splits)
  have "ag_approvalRequired g \<Longrightarrow> st_approvals st i = Some ''approved''"
    using ap by (auto simp: isApproved_def split: if_splits option.splits)
  from that [OF lk r stt this ok e(1) _ e(2)] show ?thesis by simp
qed

lemma begin_applying:
  assumes "beginApply s g i u st = (Inr (cs, plan), st')" and "keys_ok st"
  obtains r r' where "st_rows st i = Some r" and "st_rows st' = (st_rows st)(i \<mapsto> r')" and "st_rows st' i = Some r'"
    and "row_Status r' = StatusApplying" and "row_Ops r' = row_Ops r" and "row_Plan r' = ag_marshalPlan g plan"
    and "same_provenance r r'" and "st_lockHeldBy st' = i" and "ch_ID cs = i"
proof -
  obtain r st1 st2 where r: "st_rows st i = Some r" and a: "audit_only st st1"
    and tp: "enforceTwoPerson s g ((fromStoreRow r)\<lparr>ch_Findings := revalidation s (fromStoreRow r)\<rparr>) u st1 = (None, st2)"
    and en: "enter_applying s g i u ((fromStoreRow r)\<lparr>ch_Findings := revalidation s (fromStoreRow r)\<rparr>) st2 = (Inr (cs, plan), st')"
    using beginApply_Inr [OF assms(1)] by metis
  have i: "row_ID r = i" using assms(2) r by (simp add: keys_ok_def)
  note e = enter_applying_Inr [OF en]
  have f: "st_rows st2 = st_rows st"
    using audit_only_simps(1) [OF audit_only_trans [OF a enforceTwoPerson_only [OF tp]]] .
  have "st_rows st' = (st_rows st)(i \<mapsto> row_upd r cs)" using e f i r by auto
  moreover have "row_Status (row_upd r cs) = StatusApplying" "row_Ops (row_upd r cs) = row_Ops r"
    "row_Plan (row_upd r cs) = ag_marshalPlan g plan" "ch_ID cs = i" using e i by (simp_all add: row_upd_def)
  ultimately show ?thesis using that [of r "row_upd r cs"] r e by simp
qed

lemma lock_frame [simp]:
  "st_lockHeldBy (appendAudit s u a r i st) = st_lockHeldBy st"
  "st_lockHeldBy (broadcastStatus s c st) = st_lockHeldBy st"
  "st_lockHeldBy (auditSafetyOverride s u i fs st) = st_lockHeldBy st"
  "st_lockHeldBy (cleanupOrphanedComments s i u rm st) = st_lockHeldBy st"
  "st_lockHeldBy (clearApproval s i st) = st_lockHeldBy st"
  "st_lockHeldBy (clearSDNPendingAck s i st) = st_lockHeldBy st"
  "st_lockHeldBy (clearSignoffs s i st) = st_lockHeldBy st"
  by (simp_all add: appendAudit_def broadcastStatus_def auditSafetyOverride_def
      cleanupOrphanedComments_def clearApproval_def clearSDNPendingAck_def clearSignoffs_def Let_def
      split: option.split)

lemma update_write_lock: "update_write s i author prev c st = (Inr c', st') \<Longrightarrow> st_lockHeldBy st' = st_lockHeldBy st"
  by (auto simp: update_write_def repo_Update_Inr Let_def split: sum.splits)


section \<open>Properties of the entry gate\<close>

definition ex_gates :: "(unit, unit) apply_gates" where
  "ex_gates = \<lparr> ag_approvalRequired = True, ag_approval_read_ok = True, ag_protectedClasses = True,
     ag_matchedClasses = (\<lambda>_. Inr [\<lparr> mc_Class = ''firewall'', mc_Approvals = 1 \<rparr>]), ag_signoff_read_ok = True,
     ag_breakGlass = Map.empty, ag_fingerprint = (\<lambda>_. []), ag_BuildPlan = (\<lambda>_. Some ()), ag_hasSDN = (\<lambda>_. False),
     ag_foreign = None, ag_ack_read_ok = True, ag_affectedNodes = (\<lambda>_. [''n1'']), ag_incompatible = (\<lambda>_. False),
     ag_strategy_ok = (\<lambda>_. True), ag_marshalPlan = (\<lambda>_. ''{}'') \<rparr>"

text \<open>
  C12. Nothing starts applying past a closed gate. When \<open>beginApply\<close> lets a changeset through, no
  apply was in progress, the changeset was a draft or validated, it was approved if approval is
  required, its revalidation has no error, every protected class it falls into has its number of
  sign-offs or an emergency override taken for exactly these ops is on record, all foreign SDN edits
  are acknowledged, and no affected node runs an incompatible peer. Afterwards the lock names it, its
  row is applying with the plan and the same ops, and no other row changed.
\<close>

theorem beginApply_gates:
  assumes "beginApply s g i author st = (Inr (cs, plan), st')" and "keys_ok st"
  shows "\<exists>r r'. st_lockHeldBy st = [] \<and> st_rows st i = Some r \<and> row_Status r \<in> {StatusDraft, StatusValidated}
     \<and> (ag_approvalRequired g \<longrightarrow> st_approvals st i = Some ''approved'')
     \<and> \<not> hasError (revalidation s (fromStoreRow r))
     \<and> two_person_ok g ((fromStoreRow r)\<lparr>ch_Findings := revalidation s (fromStoreRow r)\<rparr>) st
     \<and> ag_BuildPlan g (row_Ops r) = Some plan \<and> sdn_ok g i plan st
     \<and> (\<forall>n \<in> set (ag_affectedNodes g plan). \<not> ag_incompatible g n)
     \<and> st_lockHeldBy st' = i \<and> st_rows st' = (st_rows st)(i \<mapsto> r')
     \<and> row_Status r' = StatusApplying \<and> row_Ops r' = row_Ops r \<and> row_Plan r' = ag_marshalPlan g plan
     \<and> same_provenance r r'"
proof -
  obtain r st1 st2 where b: "st_lockHeldBy st = []" "st_rows st i = Some r" "row_Status r \<in> {StatusDraft, StatusValidated}"
      "\<not> hasError (revalidation s (fromStoreRow r))" "audit_only st st1"
    and ap: "ag_approvalRequired g \<Longrightarrow> st_approvals st i = Some ''approved''"
    and tp: "enforceTwoPerson s g ((fromStoreRow r)\<lparr>ch_Findings := revalidation s (fromStoreRow r)\<rparr>) author st1 = (None, st2)"
    and en: "enter_applying s g i author ((fromStoreRow r)\<lparr>ch_Findings := revalidation s (fromStoreRow r)\<rparr>) st2 = (Inr (cs, plan), st')"
    using beginApply_Inr [OF assms(1)] by metis
  have ao: "audit_only st st2" using audit_only_trans [OF b(5) enforceTwoPerson_only [OF tp]] .
  note e = enter_applying_Inr [OF en] and f = audit_only_simps [OF ao] audit_only_simps [OF b(5)]
  have "two_person_ok g ((fromStoreRow r)\<lparr>ch_Findings := revalidation s (fromStoreRow r)\<rparr>) st"
    using enforceTwoPerson_pass [OF tp] f by (simp add: two_person_ok_def)
  moreover have "sdn_ok g i plan st" using e f by (simp add: sdn_ok_def)
  moreover obtain r' where "st_rows st' = (st_rows st)(i \<mapsto> r')" "row_Status r' = StatusApplying"
    "row_Ops r' = row_Ops r" "row_Plan r' = ag_marshalPlan g plan" "same_provenance r r'"
    using begin_applying [OF assms] b(2) by auto
  ultimately show ?thesis using b ap e by auto
qed

lemmas apply_simps = beginApply_def svc_Get_def repo_Get_def isApproved_def revalidation_def enforceTwoPerson_def
  signoffPrincipals_def bindingClass_def enter_applying_def sdn_gate_def peer_gate_def persist_changeset_def
  repo_Update_def toStoreRow_def fromStoreRow_def Transition_def CanTransition_def ValidateWithSafety_def
  auditSafetyOverride_def no_validators_def ex_valid_inputs_def ex_gates_def Let_def

lemma ex_apply: "\<exists>cs plan st'. beginApply ex_svc ex_gates ''c1'' ''ann'' (ex_store StatusDraft) = (Inr (cs, plan), st')"
  by (simp add: apply_simps ex_simps)

theorem beginApply_gates_witness:
  "\<exists>cs plan st'. beginApply ex_svc ex_gates ''c1'' ''ann'' (ex_store StatusDraft) = (Inr (cs, plan), st')
     \<and> st_lockHeldBy st' = ''c1''"
proof -
  obtain cs plan st' where a: "beginApply ex_svc ex_gates ''c1'' ''ann'' (ex_store StatusDraft) = (Inr (cs, plan), st')"
    using ex_apply by blast
  have "keys_ok (ex_store StatusDraft)" using ex_store_inv by (simp add: store_inv_def)
  from beginApply_gates [OF a this] a show ?thesis by blast
qed

lemma enter_applying_Inl:
  assumes "enter_applying s g i u cs st = (Inl e, st')"
  shows "audit_only st st'"
  using assms
  by (auto simp: enter_applying_def Let_def split: option.splits prod.splits if_splits sum.splits
      intro: audit_only_trans appendAudit_only dest!: sdn_gate_only peer_gate_only)

lemma persist_frame:
  assumes "persist_changeset s cs st = Inr st'"
  shows "st_lockHeldBy st' = st_lockHeldBy st
    \<and> (\<exists>old. st_rows st (ch_ID cs) = Some old \<and> st_rows st' = (st_rows st)(ch_ID cs \<mapsto> row_upd old cs))"
  using assms by (auto simp: persist_changeset_def repo_Update_Inr)

text \<open>What a changeset becomes when its revalidation finds an error.\<close>

definition blocked :: "'p change_svc \<Rightarrow> 'p ChangesetRow \<Rightarrow> 'p Changeset" where
  "blocked s r = (fromStoreRow r)\<lparr>ch_Findings := revalidation s (fromStoreRow r), ch_Status := StatusDraft, ch_UpdatedAt := sv_now s\<rparr>"

lemma beginApply_Inl:
  assumes "beginApply s g i u st = (Inl e, st')"
  obtains (unchanged) "audit_only st st'"
    | (invalid) r where "st_lockHeldBy st = []" and "st_rows st i = Some r"
        and "row_Status r \<in> {StatusDraft, StatusValidated}" and "hasError (revalidation s (fromStoreRow r))"
        and "e = ErrValidationBlocked (revalidation s (fromStoreRow r))" and "st_lockHeldBy st' = []"
        and "\<exists>old. st_rows st (row_ID r) = Some old \<and> st_rows st' = (st_rows st)(row_ID r \<mapsto> row_upd old (blocked s r))"
proof (cases "\<exists>r. st_lockHeldBy st = [] \<and> svc_Get s i st = Inr (fromStoreRow r) \<and> st_rows st i = Some r
    \<and> row_Status r \<in> {StatusDraft, StatusValidated}
    \<and> (if ag_approvalRequired g then isApproved s g i st else Inr True) = Inr True")
  case False
  with assms have "audit_only st st'"
    by (auto simp: beginApply_def svc_Get_Inr split: if_splits sum.splits bool.splits)
  then show ?thesis by (rule unchanged)
next
  case True
  then obtain r where r: "st_lockHeldBy st = []" "svc_Get s i st = Inr (fromStoreRow r)" "st_rows st i = Some r"
    "row_Status r \<in> {StatusDraft, StatusValidated}"
    "(if ag_approvalRequired g then isApproved s g i st else Inr True) = Inr True" by blast
  let ?cs = "(fromStoreRow r)\<lparr>ch_Findings := revalidation s (fromStoreRow r)\<rparr>"
  have tr: "(if row_Status r = StatusValidated
             then (case Transition StatusDraft (sv_now s) ?cs of Inl _ \<Rightarrow> ?cs | Inr cs \<Rightarrow> cs)
             else ?cs\<lparr>ch_UpdatedAt := sv_now s\<rparr>) = blocked s r"
    using r(4) by (auto simp: Transition_def CanTransition_def blocked_def fromStoreRow_def)
  show ?thesis
  proof (cases "hasError (revalidation s (fromStoreRow r))")
    case True
    show ?thesis
    proof (cases "persist_changeset s (blocked s r) st")
      case (Inl e')
      with assms r True tr have "st' = st" by (auto simp: beginApply_def Let_def)
      with unchanged show ?thesis by simp
    next
      case (Inr st1)
      with assms r True tr have "e = ErrValidationBlocked (revalidation s (fromStoreRow r))"
        "st' = broadcastStatus s (blocked s r) (appendAudit s u ''changeset.apply'' ''validation_failed'' i st1)"
        by (auto simp: beginApply_def Let_def)
      with invalid [of r] r True persist_frame [OF Inr] show ?thesis by (simp add: blocked_def)
    qed
  next
    case False
    let ?st1 = "auditSafetyOverride s u i (revalidation s (fromStoreRow r)) st"
    obtain res st2 where tp: "enforceTwoPerson s g ?cs u ?st1 = (res, st2)" by fastforce
    have a2: "audit_only st st2" using enforceTwoPerson_only [OF tp] by (blast intro: audit_only_trans auditSafetyOverride_only)
    have "audit_only st st'"
    proof (cases res)
      case None
      with assms r False tp have "enter_applying s g i u ?cs st2 = (Inl e, st')" by (auto simp: beginApply_def Let_def)
      from audit_only_trans [OF a2 enter_applying_Inl [OF this]] show ?thesis .
    next
      case (Some e')
      with assms r False tp have "\<exists>res. st' = appendAudit s u ''changeset.apply'' res i st2"
        by (auto simp: beginApply_def Let_def)
      with audit_only_trans [OF a2] show ?thesis by (auto intro: appendAudit_only)
    qed
    then show ?thesis by (rule unchanged)
  qed
qed

text \<open>
  A refused apply leaves the changeset where it was. The apply lock is as before, and no row
  changed, except that a draft or validated changeset whose revalidation found an error is now a
  draft with those findings and the ops it had.
\<close>

theorem beginApply_refusal:
  assumes "beginApply s g i author st = (Inl e, st')" and "keys_ok st"
  shows "st_lockHeldBy st' = st_lockHeldBy st
     \<and> (st_rows st' = st_rows st
        \<or> (\<exists>r r'. st_rows st i = Some r \<and> row_Status r \<in> {StatusDraft, StatusValidated}
             \<and> hasError (revalidation s (fromStoreRow r)) \<and> e = ErrValidationBlocked (revalidation s (fromStoreRow r))
             \<and> st_rows st' = (st_rows st)(i \<mapsto> r') \<and> row_Status r' = StatusDraft \<and> row_Ops r' = row_Ops r
             \<and> row_Findings r' = revalidation s (fromStoreRow r) \<and> same_provenance r r'))"
  using assms(1)
proof (cases rule: beginApply_Inl)
  case unchanged
  then show ?thesis by (simp add: audit_only_simps)
next
  case (invalid r)
  have i: "row_ID r = i" using invalid(2) assms(2) by (simp add: keys_ok_def)
  define r' where "r' = row_upd r (blocked s r)"
  have "row_Status r' = StatusDraft" "row_Ops r' = row_Ops r" "row_Findings r' = revalidation s (fromStoreRow r)" "same_provenance r r'"
    by (simp_all add: r'_def row_upd_def blocked_def same_provenance_def)
  moreover have "st_rows st' = (st_rows st)(i \<mapsto> r')" using invalid(2,7) i by (auto simp: r'_def)
  ultimately show ?thesis using invalid by auto
qed

theorem beginApply_refusal_witness:
  "\<exists>e st'. beginApply ex_svc ex_gates ''c1'' ''ann'' (ex_store StatusCommitted) = (Inl e, st') \<and> st_lockHeldBy st' = []"
proof -
  obtain e st' where a: "beginApply ex_svc ex_gates ''c1'' ''ann'' (ex_store StatusCommitted) = (Inl e, st')"
    by (simp add: apply_simps ex_simps)
  have "keys_ok (ex_store StatusCommitted)" using ex_store_inv by (simp add: store_inv_def)
  from beginApply_refusal [OF a this] a show ?thesis by (auto simp: ex_store_def empty_store_def)
qed


lemma beginApply_scope_blind:
  "beginApply (s\<lparr>sv_inputs := (sv_inputs s)\<lparr>vi_nodeClusters := m, vi_expandRaw := f\<rparr>\<rparr>) g i author st = beginApply s g i author st"
proof -
  let ?s = "s\<lparr>sv_inputs := (sv_inputs s)\<lparr>vi_nodeClusters := m, vi_expandRaw := f\<rparr>\<rparr>"
  have h: "sv_now ?s = sv_now s" "svc_Get ?s = svc_Get s" "isApproved ?s g = isApproved s g" "revalidation ?s = revalidation s"
    "appendAudit ?s = appendAudit s" "broadcastStatus ?s = broadcastStatus s"
    "persist_changeset ?s = persist_changeset s" "signoffPrincipals ?s g = signoffPrincipals s g"
    "isSDNForeignPendingCovered ?s g = isSDNForeignPendingCovered s g"
    by (simp_all add: svc_Get_def isApproved_def revalidation_def appendAudit_def broadcastStatus_def
        persist_changeset_def signoffPrincipals_def isSDNForeignPendingCovered_def fun_eq_iff)
  have h2: "auditSafetyOverride ?s = auditSafetyOverride s" "enforceTwoPerson ?s g = enforceTwoPerson s g"
    "sdn_gate ?s g = sdn_gate s g" "peer_gate ?s g = peer_gate s g"
    unfolding auditSafetyOverride_def enforceTwoPerson_def sdn_gate_def peer_gate_def h by simp_all
  have h3: "enter_applying ?s g = enter_applying s g"
    unfolding enter_applying_def h h2 by (rule refl)
  show ?thesis unfolding beginApply_def h h2 h3 by (rule refl)
qed

text \<open>
  The pre-apply revalidation is weaker than validation. What \<open>beginApply\<close> decides does not
  depend on the cluster membership nor on what a raw-file op expands to, so a draft that validation
  blocks for targeting a node of another cluster is let through whenever the remaining classes and
  gates pass: the entry gate never consults the cross-cluster class.
\<close>

theorem beginApply_ignores_scope:
  assumes "beginApply s g i author st = (Inr (cs, plan), st')"
    and "ch_ClusterID cs \<noteq> []" and "opr \<in> set (ch_Ops cs)" and "ref_Node (op_Target opr) \<noteq> []"
    and "owner \<noteq> ch_ClusterID cs"
    and "s' = s\<lparr>sv_inputs := (sv_inputs s)\<lparr>vi_nodeClusters := Some [(ref_Node (op_Target opr), owner)], vi_expandRaw := f\<rparr>\<rparr>"
  shows "hasError (validateScoped (sv_inputs s') (ch_ClusterID cs) i (ch_Ops cs))
       \<and> beginApply s' g i author st = (Inr (cs, plan), st')"
proof
  have m: "vi_nodeClusters (sv_inputs s') = Some [(ref_Node (op_Target opr), owner)]" by (simp add: assms(6))
  have "map_of [(ref_Node (op_Target opr), owner)] (ref_Node (op_Target opr)) = Some owner" by simp
  from scope_error [OF assms(2) m assms(3,4) this assms(5)]
  show "hasError (validateScoped (sv_inputs s') (ch_ClusterID cs) i (ch_Ops cs))" by blast
  show "beginApply s' g i author st = (Inr (cs, plan), st')"
    using assms(1) by (simp add: assms(6) beginApply_scope_blind)
qed

definition ex_scoped_store :: "unit change_store" where
  "ex_scoped_store = (ex_store StatusDraft)\<lparr>st_rows := [''c1'' \<mapsto> (ex_row StatusDraft)\<lparr>row_ClusterID := ''east''\<rparr>]\<rparr>"

theorem beginApply_ignores_scope_witness:
  "\<exists>s cs plan st'. beginApply s ex_gates ''c1'' ''ann'' ex_scoped_store = (Inr (cs, plan), st')
     \<and> hasError (validateScoped (sv_inputs s) ''east'' ''c1'' (ch_Ops cs))"
proof -
  obtain cs plan st' where a: "beginApply ex_svc ex_gates ''c1'' ''ann'' ex_scoped_store = (Inr (cs, plan), st')"
    and c: "ch_ClusterID cs = ''east''" "ch_Ops cs = [ex_op ''n1'']"
    by (simp add: apply_simps ex_simps ex_scoped_store_def)
  have n: "ref_Node (op_Target (ex_op ''n1'')) \<noteq> []" "''west'' \<noteq> ch_ClusterID cs" "ch_ClusterID cs \<noteq> []"
    "ex_op ''n1'' \<in> set (ch_Ops cs)" by (simp_all add: ex_op_def c)
  let ?s = "ex_svc\<lparr>sv_inputs := (sv_inputs ex_svc)\<lparr>vi_nodeClusters := Some [(ref_Node (op_Target (ex_op ''n1'')), ''west'')], vi_expandRaw := vi_expandRaw (sv_inputs ex_svc)\<rparr>\<rparr>"
  from beginApply_ignores_scope [OF a n(3,4,1,2), of ?s] c(1)
  have "beginApply ?s ex_gates ''c1'' ''ann'' ex_scoped_store = (Inr (cs, plan), st')
      \<and> hasError (validateScoped (sv_inputs ?s) ''east'' ''c1'' (ch_Ops cs))" by metis
  then show ?thesis by (intro exI)
qed

text \<open>
  An edit can undo the start of an apply. \<open>UpdateDraft\<close> reads and writes the row without the
  apply mutex. If \<open>beginApply\<close> runs between its read and its write, the write puts the changeset
  back to draft with the new ops while its apply holds the lock, though the lifecycle table has no
  edge from applying to draft.
\<close>

theorem edit_undoes_apply:
  assumes "keys_ok st" and "svc_Get s i st = Inr prev" and "update_edit s i title ops prev = Inr c"
    and "beginApply s2 g i author2 st = (Inr (cs, plan), st1)"
    and "sv_write_ok s"
  shows "\<exists>st2 r1 r2. update_write s i author prev c st1 = (Inr c, st2)
     \<and> st_rows st1 i = Some r1 \<and> row_Status r1 = StatusApplying
     \<and> st_rows st2 i = Some r2 \<and> row_Status r2 = StatusDraft \<and> row_Ops r2 = ch_Ops c
     \<and> st_lockHeldBy st2 = i \<and> \<not> moves StatusApplying StatusDraft"
proof -
  obtain r1 where r1: "st_rows st1 i = Some r1" "row_Status r1 = StatusApplying" "st_lockHeldBy st1 = i"
    using begin_applying [OF assms(4,1)] by blast
  have c: "ch_ID c = i" "ch_Status c = StatusDraft"
    using update_edit_Inr [OF assms(3)] assms(1,2) by (auto simp: svc_Get_Inr keys_ok_def)
  obtain st2 where w: "update_write s i author prev c st1 = (Inr c, st2)"
    using assms(5) r1 c by (simp add: update_write_def repo_Update_def toStoreRow_def Let_def)
  have "st_rows st2 i = Some (row_upd r1 c)" using update_write_Inr [OF w] r1 c by auto
  moreover have "st_lockHeldBy st2 = i" using update_write_lock [OF w] r1 by simp
  moreover have "\<not> moves StatusApplying StatusDraft" by (auto elim: movesE)
  ultimately show ?thesis using w r1 c by (auto simp: row_upd_def)
qed

theorem edit_undoes_apply_witness:
  "\<exists>c st1 st2 r2. update_write ex_svc ''c1'' ''bob'' (fromStoreRow (ex_row StatusDraft)) c st1 = (Inr c, st2)
     \<and> st_rows st2 ''c1'' = Some r2 \<and> row_Status r2 = StatusDraft \<and> st_lockHeldBy st2 = ''c1''"
proof -
  have k: "keys_ok (ex_store StatusDraft)" using ex_store_inv by (simp add: store_inv_def)
  have g: "svc_Get ex_svc ''c1'' (ex_store StatusDraft) = Inr (fromStoreRow (ex_row StatusDraft))" and w: "sv_write_ok ex_svc"
    by (simp_all add: svc_Get_Inr ex_store_def ex_svc_def)
  obtain c where c: "update_edit ex_svc ''c1'' None [] (fromStoreRow (ex_row StatusDraft)) = Inr c"
    by (simp add: update_edit_def Editable_def ex_row_def ex_svc_def)
  obtain cs plan st1 where b: "beginApply ex_svc ex_gates ''c1'' ''ann'' (ex_store StatusDraft) = (Inr (cs, plan), st1)"
    using ex_apply by blast
  from edit_undoes_apply [OF k g c b w, of "''bob''"] show ?thesis by blast
qed

end
