(* ===== verification/Go_Lists.thy ===== *)
theory Go_Lists
  imports Go_Strings "HOL-Library.Multiset" "HOL-Library.Sublist"
begin

text \<open>
  Go idioms on slices and maps that several components share: collecting distinct values in the
  order of their first appearance (a slice beside a map \<open>seen\<close>), and grouping the indexes of a slice
  by a key.
\<close>

section \<open>First appearance\<close>

text \<open>The loop \<open>if !seen[x] { seen[x] = true; out = append(out, x) }\<close>.\<close>

definition see :: "'a \<Rightarrow> 'a list \<Rightarrow> 'a list" where
  "see x out = (if x \<in> set out then out else out @ [x])"

definition first_seen :: "'a list \<Rightarrow> 'a list" where
  "first_seen xs = fold see xs []"

lemma first_seen_Nil [simp]: "first_seen [] = []"
  by (simp add: first_seen_def)

lemma first_seen_snoc: "first_seen (xs @ [x]) = see x (first_seen xs)"
  by (simp add: first_seen_def)

lemma set_first_seen [simp]: "set (first_seen xs) = set xs"
  by (induction xs rule: rev_induct) (auto simp: first_seen_snoc see_def)

lemma distinct_first_seen [simp]: "distinct (first_seen xs)"
  by (induction xs rule: rev_induct) (auto simp: first_seen_snoc see_def)

lemma first_seen_distinct: "distinct xs \<Longrightarrow> first_seen xs = xs"
  by (induction xs rule: rev_induct) (auto simp: first_seen_snoc see_def)

lemma first_seen_append_subset: "set ys \<subseteq> set xs \<Longrightarrow> first_seen (xs @ ys) = first_seen xs"
  by (induction ys rule: rev_induct) (auto simp: first_seen_snoc see_def simp flip: append_assoc)

text \<open>The order kept is that of the first appearances: the result is a subsequence of the list.\<close>

lemma subseq_first_seen: "subseq (first_seen xs) xs"
proof (induction xs rule: rev_induct)
  case (snoc x xs)
  then show ?case by (auto simp: first_seen_snoc see_def intro: list_emb_append_mono)
qed simp

text \<open>The same with a key: \<open>seen\<close> holds the keys, the slice the values that brought a new key.\<close>

definition see_by :: "('a \<Rightarrow> 'k) \<Rightarrow> 'a \<Rightarrow> 'a list \<Rightarrow> 'a list" where
  "see_by f x out = (if f x \<in> set (map f out) then out else out @ [x])"

definition first_by :: "('a \<Rightarrow> 'k) \<Rightarrow> 'a list \<Rightarrow> 'a list" where
  "first_by f xs = fold (see_by f) xs []"

lemma first_by_Nil [simp]: "first_by f [] = []"
  by (simp add: first_by_def)

lemma first_by_snoc: "first_by f (xs @ [x]) = see_by f x (first_by f xs)"
  by (simp add: first_by_def)

lemma map_first_by: "map f (first_by f xs) = first_seen (map f xs)"
  by (induction xs rule: rev_induct) (auto simp: first_by_snoc first_seen_snoc see_by_def see_def)

lemma set_first_by: "set (first_by f xs) \<subseteq> set xs"
  by (induction xs rule: rev_induct) (auto simp: first_by_snoc see_by_def)


section \<open>Grouping by a key\<close>

text \<open>The values of one group, in list order.\<close>

definition group_of :: "('k \<times> 'v) list \<Rightarrow> 'k \<Rightarrow> 'v list" where
  "group_of kvs k = map snd (filter (\<lambda>kv. fst kv = k) kvs)"

lemma group_of_Nil [simp]: "group_of [] k = []"
  by (simp add: group_of_def)

lemma group_of_snoc:
  "group_of (kvs @ [(k', v)]) k = group_of kvs k @ (if k' = k then [v] else [])"
  by (simp add: group_of_def)

lemma group_of_empty_iff: "group_of kvs k = [] \<longleftrightarrow> k \<notin> set (map fst kvs)"
  by (auto simp: group_of_def filter_empty_conv)

lemma mset_group_of: "mset (group_of kvs k) = image_mset snd {#kv \<in># mset kvs. fst kv = k#}"
  by (simp add: group_of_def)

text \<open>The groups, one per key of a list of distinct keys that has them all, hold each value once.\<close>

lemma mset_groups_aux:
  assumes "distinct ks" "set (map fst kvs) \<subseteq> set ks"
  shows "mset (concat (map (group_of kvs) ks)) = mset (map snd kvs)"
  using assms
proof (induction ks arbitrary: kvs)
  case (Cons k ks)
  let ?rest = "filter (\<lambda>kv. fst kv \<noteq> k) kvs"
  have same: "group_of kvs k' = group_of ?rest k'" if "k' \<in> set ks" for k'
    using that Cons.prems(1) by (auto simp: group_of_def intro!: arg_cong [where f = "map snd"] filter_cong)
  have "mset (concat (map (group_of kvs) ks)) = mset (concat (map (group_of ?rest) ks))"
    using same by (simp cong: map_cong)
  also have "\<dots> = mset (map snd ?rest)"
    by (rule Cons.IH) (use Cons.prems in auto)
  finally have rest: "mset (concat (map (group_of kvs) ks)) = image_mset snd (mset ?rest)"
    by simp
  have "mset kvs = {#kv \<in># mset kvs. fst kv = k#} + mset ?rest"
    by (simp only: mset_filter) (rule multiset_partition)
  then have "image_mset snd (mset kvs) =
      image_mset snd {#kv \<in># mset kvs. fst kv = k#} + image_mset snd (mset ?rest)"
    by (metis image_mset_union)
  then show ?case
    using rest by (simp add: mset_group_of)
qed simp

lemma mset_groups:
  "mset (concat (map (group_of kvs) (first_seen (map fst kvs)))) = mset (map snd kvs)"
  by (rule mset_groups_aux) simp_all

end
