(* ===== verification/Apply_Plan.thy ===== *)
theory Apply_Plan
  imports Changeset Go_Lists
begin

text \<open>
  The apply planner of \<^verbatim>\<open>src/internal/change/apply_plan.go\<close>: it turns the ops of a changeset into an
  ordered list of typed steps. The queries on a plan that the executor, the snapshot code and the
  staged apply use are here too (\<^verbatim>\<open>apply_plan.go\<close>, \<^verbatim>\<open>apply_staged.go\<close>, \<^verbatim>\<open>reverticket.go\<close>).

  The parameter structs that the planner and the executor read are constructors of \<open>plan_params\<close>; the
  others stay the type variable.
\<close>

section \<open>Op vocabulary\<close>

type_synonym OpType = string

abbreviation "OpIfaceUpdate \<equiv> ''iface.update''"
abbreviation "OpIfaceRename \<equiv> ''iface.rename''"
abbreviation "OpIfaceRawReplace \<equiv> ''iface.raw.replace''"
abbreviation "OpBondCreate \<equiv> ''bond.create''"
abbreviation "OpBondUpdate \<equiv> ''bond.update''"
abbreviation "OpBondDelete \<equiv> ''bond.delete''"
abbreviation "OpBridgeCreate \<equiv> ''bridge.create''"
abbreviation "OpBridgeUpdate \<equiv> ''bridge.update''"
abbreviation "OpBridgeDelete \<equiv> ''bridge.delete''"
abbreviation "OpBridgePortAdd \<equiv> ''bridge.port.add''"
abbreviation "OpBridgePortRemove \<equiv> ''bridge.port.remove''"
abbreviation "OpVlanCreate \<equiv> ''vlan.create''"
abbreviation "OpVlanUpdate \<equiv> ''vlan.update''"
abbreviation "OpVlanDelete \<equiv> ''vlan.delete''"
abbreviation "OpNatMasqueradeCreate \<equiv> ''nat.masquerade.create''"
abbreviation "OpNatMasqueradeDelete \<equiv> ''nat.masquerade.delete''"
abbreviation "OpNatPortForwardCreate \<equiv> ''nat.portforward.create''"
abbreviation "OpNatPortForwardUpdate \<equiv> ''nat.portforward.update''"
abbreviation "OpNatPortForwardDelete \<equiv> ''nat.portforward.delete''"
abbreviation "OpRouteStaticCreate \<equiv> ''route.static.create''"
abbreviation "OpRouteStaticUpdate \<equiv> ''route.static.update''"
abbreviation "OpRouteStaticDelete \<equiv> ''route.static.delete''"
abbreviation "OpVFProvision \<equiv> ''vf.provision''"
abbreviation "OpSdnZoneCreate \<equiv> ''sdn.zone.create''"
abbreviation "OpSdnZoneUpdate \<equiv> ''sdn.zone.update''"
abbreviation "OpSdnZoneDelete \<equiv> ''sdn.zone.delete''"
abbreviation "OpSdnVnetCreate \<equiv> ''sdn.vnet.create''"
abbreviation "OpSdnVnetUpdate \<equiv> ''sdn.vnet.update''"
abbreviation "OpSdnVnetDelete \<equiv> ''sdn.vnet.delete''"
abbreviation "OpSdnSubnetCreate \<equiv> ''sdn.subnet.create''"
abbreviation "OpSdnSubnetUpdate \<equiv> ''sdn.subnet.update''"
abbreviation "OpSdnSubnetDelete \<equiv> ''sdn.subnet.delete''"
abbreviation "OpSdnDnsServerCreate \<equiv> ''sdn.dns.server.create''"
abbreviation "OpSdnDnsServerUpdate \<equiv> ''sdn.dns.server.update''"
abbreviation "OpSdnDnsServerDelete \<equiv> ''sdn.dns.server.delete''"
abbreviation "OpSdnDnsRecordCreate \<equiv> ''sdn.dns.record.create''"
abbreviation "OpSdnDnsRecordUpdate \<equiv> ''sdn.dns.record.update''"
abbreviation "OpSdnDnsRecordDelete \<equiv> ''sdn.dns.record.delete''"
abbreviation "OpSdnFabricCreate \<equiv> ''sdn.fabric.create''"
abbreviation "OpSdnFabricUpdate \<equiv> ''sdn.fabric.update''"
abbreviation "OpSdnFabricDelete \<equiv> ''sdn.fabric.delete''"
abbreviation "OpSdnControllerCreate \<equiv> ''sdn.controller.create''"
abbreviation "OpSdnControllerUpdate \<equiv> ''sdn.controller.update''"
abbreviation "OpSdnControllerDelete \<equiv> ''sdn.controller.delete''"
abbreviation "OpSdnIpamCreate \<equiv> ''sdn.ipam.create''"
abbreviation "OpSdnIpamUpdate \<equiv> ''sdn.ipam.update''"
abbreviation "OpSdnIpamDelete \<equiv> ''sdn.ipam.delete''"
abbreviation "OpWgTunnelCreate \<equiv> ''wg.tunnel.create''"
abbreviation "OpWgTunnelUpdate \<equiv> ''wg.tunnel.update''"
abbreviation "OpWgTunnelDelete \<equiv> ''wg.tunnel.delete''"
abbreviation "OpWgPeerAdd \<equiv> ''wg.peer.add''"
abbreviation "OpWgPeerRemove \<equiv> ''wg.peer.remove''"
abbreviation "OpSwitchPortUpdate \<equiv> ''switch.port.update''"
abbreviation "OpFwRuleCreate \<equiv> ''fw.rule.create''"
abbreviation "OpFwRuleUpdate \<equiv> ''fw.rule.update''"
abbreviation "OpFwRuleDelete \<equiv> ''fw.rule.delete''"
abbreviation "OpFwRuleMove \<equiv> ''fw.rule.move''"
abbreviation "OpFwOptionsUpdate \<equiv> ''fw.options.update''"
abbreviation "OpFwAliasCreate \<equiv> ''fw.alias.create''"
abbreviation "OpFwAliasUpdate \<equiv> ''fw.alias.update''"
abbreviation "OpFwAliasDelete \<equiv> ''fw.alias.delete''"
abbreviation "OpFwIpsetCreate \<equiv> ''fw.ipset.create''"
abbreviation "OpFwIpsetUpdate \<equiv> ''fw.ipset.update''"
abbreviation "OpFwIpsetDelete \<equiv> ''fw.ipset.delete''"
abbreviation "OpFwGroupCreate \<equiv> ''fw.group.create''"
abbreviation "OpFwGroupUpdate \<equiv> ''fw.group.update''"
abbreviation "OpFwGroupDelete \<equiv> ''fw.group.delete''"
abbreviation "OpQosShapeCreate \<equiv> ''qos.shape.create''"
abbreviation "OpQosShapeUpdate \<equiv> ''qos.shape.update''"
abbreviation "OpQosShapeDelete \<equiv> ''qos.shape.delete''"
abbreviation "OpTcMirrorCreate \<equiv> ''tc.mirror.create''"
abbreviation "OpTcMirrorUpdate \<equiv> ''tc.mirror.update''"
abbreviation "OpTcMirrorDelete \<equiv> ''tc.mirror.delete''"
abbreviation "OpIpamAllocCreate \<equiv> ''ipam.alloc.create''"
abbreviation "OpIpamAllocDelete \<equiv> ''ipam.alloc.delete''"
abbreviation "OpSdnApply \<equiv> ''sdn.apply''"
abbreviation "OpGuestNicUpdate \<equiv> ''guest.nic.update''"

definition nodeFileOpTypes :: "OpType list" where
  "nodeFileOpTypes =
     [OpIfaceUpdate, OpIfaceRename, OpIfaceRawReplace, OpBondCreate, OpBondUpdate,
      OpBondDelete, OpBridgeCreate, OpBridgeUpdate, OpBridgeDelete, OpBridgePortAdd,
      OpBridgePortRemove, OpVlanCreate, OpVlanUpdate, OpVlanDelete, OpNatMasqueradeCreate,
      OpNatMasqueradeDelete, OpNatPortForwardCreate, OpNatPortForwardUpdate,
      OpNatPortForwardDelete, OpRouteStaticCreate, OpRouteStaticUpdate, OpRouteStaticDelete,
      OpVFProvision]"

definition sdnStageOpTypes :: "OpType list" where
  "sdnStageOpTypes =
     [OpSdnZoneCreate, OpSdnZoneUpdate, OpSdnZoneDelete, OpSdnVnetCreate, OpSdnVnetUpdate,
      OpSdnVnetDelete, OpSdnSubnetCreate, OpSdnSubnetUpdate, OpSdnSubnetDelete,
      OpSdnDnsServerCreate, OpSdnDnsServerUpdate, OpSdnDnsServerDelete, OpSdnDnsRecordCreate,
      OpSdnDnsRecordUpdate, OpSdnDnsRecordDelete, OpSdnFabricCreate, OpSdnFabricUpdate,
      OpSdnFabricDelete, OpSdnControllerCreate, OpSdnControllerUpdate, OpSdnControllerDelete,
      OpSdnIpamCreate, OpSdnIpamUpdate, OpSdnIpamDelete]"

definition wgOpTypes :: "OpType list" where
  "wgOpTypes =
     [OpWgTunnelCreate, OpWgTunnelUpdate, OpWgTunnelDelete, OpWgPeerAdd, OpWgPeerRemove]"

definition switchOpTypes :: "OpType list" where
  "switchOpTypes =
     [OpSwitchPortUpdate]"

definition fwOpTypes :: "OpType list" where
  "fwOpTypes =
     [OpFwRuleCreate, OpFwRuleUpdate, OpFwRuleDelete, OpFwRuleMove, OpFwOptionsUpdate,
      OpFwAliasCreate, OpFwAliasUpdate, OpFwAliasDelete, OpFwIpsetCreate, OpFwIpsetUpdate,
      OpFwIpsetDelete, OpFwGroupCreate, OpFwGroupUpdate, OpFwGroupDelete]"

definition qosOpTypes :: "OpType list" where
  "qosOpTypes =
     [OpQosShapeCreate, OpQosShapeUpdate, OpQosShapeDelete]"

definition tcMirrorOpTypes :: "OpType list" where
  "tcMirrorOpTypes =
     [OpTcMirrorCreate, OpTcMirrorUpdate, OpTcMirrorDelete]"


section \<open>Parameters the planner and the executor read\<close>

record IpamAllocCreateParams =
  iac_CIDR :: string
  iac_Hostname :: string
  iac_MAC :: string
  iac_Comment :: string

record IpamAllocDeleteParams =
  iad_CIDR :: string

record QosShapeCreateParams =
  qsc_MatchVlan :: "int option"
  qsc_CeilMbit :: "int option"
  qsc_Priority :: "int option"
  qsc_Bridge :: string
  qsc_MatchCIDR :: string
  qsc_RateMbit :: int

record QosShapeUpdateParams =
  qsu_Bridge :: "string option"
  qsu_MatchCIDR :: "string option"
  qsu_MatchVlan :: "int option"
  qsu_RateMbit :: "int option"
  qsu_CeilMbit :: "int option"
  qsu_Priority :: "int option"

record TcMirrorCreateParams =
  tmc_MaxMbit :: "int option"
  tmc_SourceIface :: string
  tmc_DestIface :: string
  tmc_MaxDurationSec :: int

record TcMirrorUpdateParams =
  tmu_MaxDurationSec :: "int option"

record FwRuleFields =
  frf_Direction :: string
  frf_Action :: string
  frf_Proto :: string
  frf_Source :: string
  frf_Dest :: string
  frf_Sport :: string
  frf_Dport :: string
  frf_Iface :: string
  frf_Macro :: string
  frf_Log :: string
  frf_Comment :: string
  frf_Enabled :: bool

record FwRuleMoveParams =
  frm_Expect :: "FwRuleFields option"
  frm_FromPos :: int
  frm_ToPos :: int

text \<open>Of the SDN parameters only the fields that are read: the zone of a vnet, the vnet of a subnet.\<close>

datatype 'q plan_params =
    PIpamAllocCreate IpamAllocCreateParams
  | PIpamAllocDelete IpamAllocDeleteParams
  | PQosShapeCreate QosShapeCreateParams
  | PQosShapeUpdate QosShapeUpdateParams
  | PQosShapeDelete
  | PTcMirrorCreate TcMirrorCreateParams
  | PTcMirrorUpdate TcMirrorUpdateParams
  | PTcMirrorDelete
  | PFwRuleMove FwRuleMoveParams
  | PSdnZoneCreate | PSdnZoneUpdate | PSdnZoneDelete
  | PSdnVnetCreate string | PSdnVnetUpdate | PSdnVnetDelete
  | PSdnSubnetCreate string
  | PRest 'q

type_synonym 'q plan_op = "'q plan_params Op"


section \<open>Steps and summaries\<close>

datatype StepKind =
    StepStageFile | StepReload | StepSDNApply | StepSDNStage | StepFwApply | StepFwVerify
  | StepWgApply | StepSwitchApply | StepIpamAlloc | StepQosApply | StepTcMirrorApply

record Step =
  st_Kind :: StepKind
  st_Node :: string
  st_Summary :: string
  st_Target :: string
  st_OpIdx :: "nat list"

definition zero_Step :: "StepKind \<Rightarrow> Step" where
  "zero_Step k = \<lparr> st_Kind = k, st_Node = [], st_Summary = [], st_Target = [], st_OpIdx = [] \<rparr>"

type_synonym Plan = "Step list"

definition allocCIDR :: "'q plan_op \<Rightarrow> string" where
  "allocCIDR op =
     (case op_Params op of
        POther (PIpamAllocCreate p) \<Rightarrow> iac_CIDR p
      | POther (PIpamAllocDelete p) \<Rightarrow> iad_CIDR p
      | _ \<Rightarrow> ''?'')"

text \<open>A Go map lookup of a missing key gives the empty string.\<close>

definition lookup_str :: "(string \<times> string) list \<Rightarrow> string \<Rightarrow> string" where
  "lookup_str al k = (case map_of al k of Some v \<Rightarrow> v | None \<Rightarrow> [])"

definition sdn_verbs :: "(OpType \<times> string) list" where
  "sdn_verbs =
     [(OpSdnZoneCreate, ''Create''), (OpSdnZoneUpdate, ''Update''), (OpSdnZoneDelete, ''Delete''),
      (OpSdnVnetCreate, ''Create''), (OpSdnVnetUpdate, ''Update''), (OpSdnVnetDelete, ''Delete''),
      (OpSdnSubnetCreate, ''Create''), (OpSdnSubnetUpdate, ''Update''), (OpSdnSubnetDelete, ''Delete''),
      (OpSdnDnsServerCreate, ''Create''), (OpSdnDnsServerUpdate, ''Update''),
      (OpSdnDnsServerDelete, ''Delete''), (OpSdnDnsRecordCreate, ''Create''),
      (OpSdnDnsRecordUpdate, ''Update''), (OpSdnDnsRecordDelete, ''Delete'')]"

definition sdn_kinds :: "(OpType \<times> string) list" where
  "sdn_kinds =
     [(OpSdnZoneCreate, ''sdn zone''), (OpSdnZoneUpdate, ''sdn zone''), (OpSdnZoneDelete, ''sdn zone''),
      (OpSdnVnetCreate, ''sdn vnet''), (OpSdnVnetUpdate, ''sdn vnet''), (OpSdnVnetDelete, ''sdn vnet''),
      (OpSdnSubnetCreate, ''sdn subnet''), (OpSdnSubnetUpdate, ''sdn subnet''),
      (OpSdnSubnetDelete, ''sdn subnet''), (OpSdnDnsServerCreate, ''sdn dns zone''),
      (OpSdnDnsServerUpdate, ''sdn dns zone''), (OpSdnDnsServerDelete, ''sdn dns zone''),
      (OpSdnDnsRecordCreate, ''sdn dns record''), (OpSdnDnsRecordUpdate, ''sdn dns record''),
      (OpSdnDnsRecordDelete, ''sdn dns record'')]"

definition sdnStageSummary :: "'p Op \<Rightarrow> string" where
  "sdnStageSummary op =
     lookup_str sdn_verbs (op_Type op) @ '' '' @ lookup_str sdn_kinds (op_Type op) @ '' '' @
     ref_ID (op_Target op)"

definition qosStepSummary :: "'q plan_op \<Rightarrow> string" where
  "qosStepSummary op =
     (case op_Params op of
        POther (PQosShapeCreate p) \<Rightarrow>
          ''Create QoS shape '' @ ref_ID (op_Target op) @ '' on bridge '' @ qsc_Bridge p @ '' ('' @
          go_Itoa (qsc_RateMbit p) @ '' Mbit)''
      | POther (PQosShapeUpdate p) \<Rightarrow> ''Update QoS shape '' @ ref_ID (op_Target op)
      | POther PQosShapeDelete \<Rightarrow> ''Delete QoS shape '' @ ref_ID (op_Target op)
      | _ \<Rightarrow> ''QoS shape operation'')"

definition tcMirrorStepSummary :: "'q plan_op \<Rightarrow> string" where
  "tcMirrorStepSummary op =
     (case op_Params op of
        POther (PTcMirrorCreate p) \<Rightarrow>
          ''Create tc.mirror session '' @ ref_ID (op_Target op) @ '': '' @ tmc_SourceIface p @ '' -> '' @
          tmc_DestIface p @ '' (max '' @ go_Itoa (tmc_MaxDurationSec p) @ ''s)''
      | POther (PTcMirrorUpdate p) \<Rightarrow> ''Update tc.mirror session '' @ ref_ID (op_Target op)
      | POther PTcMirrorDelete \<Rightarrow> ''Delete tc.mirror session '' @ ref_ID (op_Target op)
      | _ \<Rightarrow> ''tc.mirror session operation'')"

definition switchStepSummary :: "'p Op \<Rightarrow> string" where
  "switchStepSummary op = ''Push switch port config to '' @ ref_ID (op_Target op)"

definition wgStepSummary :: "'p Op \<Rightarrow> string" where
  "wgStepSummary op =
     (let t = op_Type op; i = ref_ID (op_Target op); n = ref_Node (op_Target op) in
      if t = OpWgTunnelCreate then ''Create WireGuard tunnel '' @ i @ '' on '' @ n
      else if t = OpWgTunnelUpdate then ''Update WireGuard tunnel '' @ i @ '' on '' @ n
      else if t = OpWgTunnelDelete then ''Delete WireGuard tunnel '' @ i @ '' on '' @ n
      else if t = OpWgPeerAdd then ''Add WireGuard peer to '' @ i
      else if t = OpWgPeerRemove then ''Remove WireGuard peer from '' @ i
      else ''WireGuard operation'')"

definition describeFwTarget :: "Ref \<Rightarrow> string" where
  "describeFwTarget t =
     (if ref_ID t = ''cluster'' then ''the datacenter firewall''
      else if ref_ID t = ''node'' then ''node '' @ ref_Node t @ CHR 0x27 # ''s firewall''
      else Ref_String t @ CHR 0x27 # ''s firewall'')"


section \<open>BuildPlan\<close>

text \<open>The accumulators of the loop; \<open>byNode\<close> and \<open>byFwTarget\<close> are Go maps that are only looked up.\<close>

record plan_acc =
  pa_nodeOrder :: "string list"
  pa_byNode :: "string \<rightharpoonup> nat list"
  pa_sdnStageSteps :: "Step list"
  pa_ipamSteps :: "Step list"
  pa_sdnApply :: bool
  pa_fwTargetOrder :: "Ref list"
  pa_byFwTarget :: "string \<rightharpoonup> nat list"
  pa_qosSteps :: "Step list"
  pa_tcMirrorSteps :: "Step list"
  pa_wgSteps :: "Step list"
  pa_switchSteps :: "Step list"

definition empty_acc :: plan_acc where
  "empty_acc = \<lparr> pa_nodeOrder = [], pa_byNode = Map.empty, pa_sdnStageSteps = [], pa_ipamSteps = [],
     pa_sdnApply = False, pa_fwTargetOrder = [], pa_byFwTarget = Map.empty, pa_qosSteps = [],
     pa_tcMirrorSteps = [], pa_wgSteps = [], pa_switchSteps = [] \<rparr>"

text \<open>Appending to an entry of a map of slices; a missing entry is the empty slice.\<close>

definition push :: "'k \<Rightarrow> 'v \<Rightarrow> ('k \<rightharpoonup> 'v list) \<Rightarrow> ('k \<rightharpoonup> 'v list)" where
  "push k v m = m(k \<mapsto> (case m k of Some vs \<Rightarrow> vs | None \<Rightarrow> []) @ [v])"

definition qos_step :: "nat \<Rightarrow> 'q plan_op \<Rightarrow> Step" where
  "qos_step i op = (zero_Step StepQosApply)\<lparr> st_Node := ref_Node (op_Target op),
     st_Target := Ref_String (op_Target op), st_OpIdx := [i], st_Summary := qosStepSummary op \<rparr>"

definition tcMirror_step :: "nat \<Rightarrow> 'q plan_op \<Rightarrow> Step" where
  "tcMirror_step i op = (zero_Step StepTcMirrorApply)\<lparr> st_Node := ref_Node (op_Target op),
     st_Target := Ref_String (op_Target op), st_OpIdx := [i], st_Summary := tcMirrorStepSummary op \<rparr>"

definition wg_step :: "nat \<Rightarrow> 'p Op \<Rightarrow> Step" where
  "wg_step i op = (zero_Step StepWgApply)\<lparr> st_Node := ref_Node (op_Target op),
     st_Target := Ref_String (op_Target op), st_OpIdx := [i], st_Summary := wgStepSummary op \<rparr>"

definition switch_step :: "nat \<Rightarrow> 'p Op \<Rightarrow> Step" where
  "switch_step i op = (zero_Step StepSwitchApply)\<lparr>
     st_Target := Ref_String (op_Target op), st_OpIdx := [i], st_Summary := switchStepSummary op \<rparr>"

definition ipam_step :: "string \<Rightarrow> nat \<Rightarrow> 'q plan_op \<Rightarrow> Step" where
  "ipam_step verb i op = (zero_Step StepIpamAlloc)\<lparr> st_OpIdx := [i],
     st_Summary := verb @ '' '' @ allocCIDR op @ '' in subnet '' @ ref_ID (op_Target op) \<rparr>"

definition sdnStage_step :: "nat \<Rightarrow> 'p Op \<Rightarrow> Step" where
  "sdnStage_step i op =
     (zero_Step StepSDNStage)\<lparr> st_OpIdx := [i], st_Summary := sdnStageSummary op \<rparr>"

text \<open>The body of the loop, its \<open>switch\<close> in the code's order.\<close>

definition plan_op_step :: "nat \<Rightarrow> 'q plan_op \<Rightarrow> plan_acc \<Rightarrow> OpType + plan_acc" where
  "plan_op_step i op a =
     (let t = op_Type op in
      if t \<in> set qosOpTypes then Inr (a\<lparr>pa_qosSteps := pa_qosSteps a @ [qos_step i op]\<rparr>)
      else if t \<in> set tcMirrorOpTypes then
        Inr (a\<lparr>pa_tcMirrorSteps := pa_tcMirrorSteps a @ [tcMirror_step i op]\<rparr>)
      else if t \<in> set wgOpTypes then Inr (a\<lparr>pa_wgSteps := pa_wgSteps a @ [wg_step i op]\<rparr>)
      else if t \<in> set switchOpTypes then
        Inr (a\<lparr>pa_switchSteps := pa_switchSteps a @ [switch_step i op]\<rparr>)
      else if t \<in> set nodeFileOpTypes then
        (let node = ref_Node (op_Target op);
             order = (if pa_byNode a node = None then pa_nodeOrder a @ [node] else pa_nodeOrder a)
         in Inr (a\<lparr>pa_nodeOrder := order, pa_byNode := push node i (pa_byNode a)\<rparr>))
      else if t = OpIpamAllocCreate then
        Inr (a\<lparr>pa_ipamSteps := pa_ipamSteps a @ [ipam_step ''Reserve'' i op]\<rparr>)
      else if t = OpIpamAllocDelete then
        Inr (a\<lparr>pa_ipamSteps := pa_ipamSteps a @ [ipam_step ''Release'' i op]\<rparr>)
      else if t \<in> set sdnStageOpTypes then
        Inr (a\<lparr>pa_sdnStageSteps := pa_sdnStageSteps a @ [sdnStage_step i op]\<rparr>)
      else if t = OpSdnApply then Inr (a\<lparr>pa_sdnApply := True\<rparr>)
      else if t \<in> set fwOpTypes then
        (let key = Ref_String (op_Target op);
             order = (if pa_byFwTarget a key = None then pa_fwTargetOrder a @ [op_Target op]
                      else pa_fwTargetOrder a)
         in Inr (a\<lparr>pa_fwTargetOrder := order, pa_byFwTarget := push key i (pa_byFwTarget a)\<rparr>))
      else Inl t)"

fun plan_loop :: "nat \<Rightarrow> 'q plan_op list \<Rightarrow> plan_acc \<Rightarrow> OpType + plan_acc" where
  "plan_loop i [] a = Inr a"
| "plan_loop i (op # ops) a =
     (case plan_op_step i op a of Inl e \<Rightarrow> Inl e | Inr a' \<Rightarrow> plan_loop (Suc i) ops a')"

definition stage_reload :: "string \<Rightarrow> nat list \<Rightarrow> Step list" where
  "stage_reload node idxs =
     [(zero_Step StepStageFile)\<lparr> st_Node := node, st_OpIdx := idxs,
        st_Summary := ''Stage /etc/network/interfaces on '' @ node @ '' ('' @
          go_Itoa (int (length idxs)) @ '' op(s))'' \<rparr>,
      (zero_Step StepReload)\<lparr> st_Node := node,
        st_Summary := ''Reload network on '' @ node @ '' (ifreload)'' \<rparr>]"

definition fw_steps :: "Ref \<Rightarrow> nat list \<Rightarrow> Step list" where
  "fw_steps target idxs =
     (zero_Step StepFwApply)\<lparr> st_Node := ref_Node target, st_Target := Ref_String target,
        st_OpIdx := idxs,
        st_Summary := ''Apply '' @ go_Itoa (int (length idxs)) @ '' firewall op(s) to '' @
          describeFwTarget target \<rparr> #
     (if ref_Node target \<noteq> [] then
        [(zero_Step StepFwVerify)\<lparr> st_Node := ref_Node target,
           st_Summary := ''Verify firewall compiled cleanly on '' @ ref_Node target \<rparr>]
      else [])"

definition sdnApply_step :: Step where
  "sdnApply_step =
     (zero_Step StepSDNApply)\<lparr> st_Summary := ''Apply pending cluster SDN configuration'' \<rparr>"

definition idxs_of :: "('k \<rightharpoonup> nat list) \<Rightarrow> 'k \<Rightarrow> nat list" where
  "idxs_of m k = (case m k of Some is \<Rightarrow> is | None \<Rightarrow> [])"

definition assemble :: "plan_acc \<Rightarrow> Plan" where
  "assemble a =
     pa_switchSteps a @ pa_sdnStageSteps a @ pa_ipamSteps a @
     concat (map (\<lambda>n. stage_reload n (idxs_of (pa_byNode a) n)) (pa_nodeOrder a)) @
     pa_qosSteps a @ pa_tcMirrorSteps a @ pa_wgSteps a @
     concat (map (\<lambda>t. fw_steps t (idxs_of (pa_byFwTarget a) (Ref_String t))) (pa_fwTargetOrder a)) @
     (if pa_sdnApply a then [sdnApply_step] else [])"

definition BuildPlan :: "'q plan_op list \<Rightarrow> OpType + Plan" where
  "BuildPlan ops = map_sum id assemble (plan_loop 0 ops empty_acc)"


section \<open>Queries on a plan\<close>

definition has_kind :: "StepKind list \<Rightarrow> Plan \<Rightarrow> bool" where
  "has_kind ks p \<longleftrightarrow> list_ex (\<lambda>s. st_Kind s \<in> set ks) p"

definition hasSDN :: "Plan \<Rightarrow> bool" where "hasSDN = has_kind [StepSDNStage, StepSDNApply]"
definition hasQos :: "Plan \<Rightarrow> bool" where "hasQos = has_kind [StepQosApply]"
definition hasTcMirror :: "Plan \<Rightarrow> bool" where "hasTcMirror = has_kind [StepTcMirrorApply]"
definition hasSwitch :: "Plan \<Rightarrow> bool" where "hasSwitch = has_kind [StepSwitchApply]"
definition hasWg :: "Plan \<Rightarrow> bool" where "hasWg = has_kind [StepWgApply]"
definition hasFw :: "Plan \<Rightarrow> bool" where "hasFw = has_kind [StepFwApply]"

definition planRequiresPVESession :: "Plan \<Rightarrow> bool" where
  "planRequiresPVESession =
     has_kind [StepSDNStage, StepSDNApply, StepFwApply, StepFwVerify, StepIpamAlloc]"

definition needsRevertTicket :: "Plan \<Rightarrow> bool" where
  "needsRevertTicket p \<longleftrightarrow> hasFw p \<or> hasSDN p"

definition kind_nodes :: "StepKind \<Rightarrow> Plan \<Rightarrow> string list" where
  "kind_nodes k p = first_seen (map st_Node (filter (\<lambda>s. st_Kind s = k \<and> st_Node s \<noteq> []) p))"

definition qosNodes :: "Plan \<Rightarrow> string list" where "qosNodes = kind_nodes StepQosApply"
definition tcMirrorNodes :: "Plan \<Rightarrow> string list" where "tcMirrorNodes = kind_nodes StepTcMirrorApply"
definition wgNodes :: "Plan \<Rightarrow> string list" where "wgNodes = kind_nodes StepWgApply"

definition switchPortTargets :: "Plan \<Rightarrow> string list" where
  "switchPortTargets p =
     first_seen (map st_Target (filter (\<lambda>s. st_Kind s = StepSwitchApply \<and> st_Target s \<noteq> []) p))"

definition affectedNodes :: "Plan \<Rightarrow> string list" where
  "affectedNodes p = first_seen (map st_Node (filter (\<lambda>s. st_Node s \<noteq> []) p))"

definition fwTargets :: "Plan \<Rightarrow> Ref list" where
  "fwTargets p =
     List.map_filter (\<lambda>s. case ParseRef (st_Target s) of Inr r \<Rightarrow> Some r | Inl _ \<Rightarrow> None)
       (filter (\<lambda>s. st_Kind s = StepFwApply) p)"

text \<open>Staged applies split the indexes of the steps into a canary stage and the rest.\<close>

definition canaryStageIndexes :: "Plan \<Rightarrow> string list \<Rightarrow> nat list \<times> nat list" where
  "canaryStageIndexes p canaryNodes =
     (let c = (\<lambda>i. st_Node (p ! i) \<noteq> [] \<and> st_Node (p ! i) \<in> set canaryNodes) in
      (filter c [0..<length p], filter (\<lambda>i. \<not> c i) [0..<length p]))"

definition allStepIndexes :: "Plan \<Rightarrow> nat list" where
  "allStepIndexes p = [0..<length p]"

definition stageNodes :: "Plan \<Rightarrow> nat list \<Rightarrow> string list" where
  "stageNodes p idxs =
     (let touched = map (\<lambda>i. st_Node (p ! i)) (filter (\<lambda>i. i < length p \<and> st_Node (p ! i) \<noteq> []) idxs)
      in filter (\<lambda>n. n \<in> set touched) (affectedNodes p))"

definition restrictedToNodes :: "Plan \<Rightarrow> string list \<Rightarrow> Plan" where
  "restrictedToNodes p nodes = filter (\<lambda>s. st_Node s \<noteq> [] \<and> st_Node s \<in> set nodes) p"


section \<open>The families of ops\<close>

text \<open>The case of the loop's \<open>switch\<close> an op type falls into.\<close>

datatype family =
  FQos | FTcMirror | FWg | FSwitch | FNodeFile | FIpam | FSdnStage | FSdnApply | FFw | FUnsupported

definition fam :: "OpType \<Rightarrow> family" where
  "fam t =
     (if t \<in> set qosOpTypes then FQos
      else if t \<in> set tcMirrorOpTypes then FTcMirror
      else if t \<in> set wgOpTypes then FWg
      else if t \<in> set switchOpTypes then FSwitch
      else if t \<in> set nodeFileOpTypes then FNodeFile
      else if t \<in> set [OpIpamAllocCreate, OpIpamAllocDelete] then FIpam
      else if t \<in> set sdnStageOpTypes then FSdnStage
      else if t = OpSdnApply then FSdnApply
      else if t \<in> set fwOpTypes then FFw
      else FUnsupported)"

text \<open>The families do not overlap, so the order of the cases does not matter.\<close>

lemma fam_members:
  "list_all (\<lambda>t. fam t = FQos) qosOpTypes"
  "list_all (\<lambda>t. fam t = FTcMirror) tcMirrorOpTypes"
  "list_all (\<lambda>t. fam t = FWg) wgOpTypes"
  "list_all (\<lambda>t. fam t = FSwitch) switchOpTypes"
  "list_all (\<lambda>t. fam t = FNodeFile) nodeFileOpTypes"
  "list_all (\<lambda>t. fam t = FIpam) [OpIpamAllocCreate, OpIpamAllocDelete]"
  "list_all (\<lambda>t. fam t = FSdnStage) sdnStageOpTypes"
  "fam OpSdnApply = FSdnApply"
  "list_all (\<lambda>t. fam t = FFw) fwOpTypes"
  by code_simp+

lemma fam_in:
  "t \<in> set qosOpTypes \<Longrightarrow> fam t = FQos"
  "t \<in> set tcMirrorOpTypes \<Longrightarrow> fam t = FTcMirror"
  "t \<in> set wgOpTypes \<Longrightarrow> fam t = FWg"
  "t \<in> set switchOpTypes \<Longrightarrow> fam t = FSwitch"
  "t \<in> set nodeFileOpTypes \<Longrightarrow> fam t = FNodeFile"
  "t \<in> set [OpIpamAllocCreate, OpIpamAllocDelete] \<Longrightarrow> fam t = FIpam"
  "t \<in> set sdnStageOpTypes \<Longrightarrow> fam t = FSdnStage"
  "t \<in> set fwOpTypes \<Longrightarrow> fam t = FFw"
  using fam_members unfolding list_all_iff by blast+

lemma fam_out:
  "fam t = FQos \<Longrightarrow> t \<in> set qosOpTypes"
  "fam t = FTcMirror \<Longrightarrow> t \<in> set tcMirrorOpTypes"
  "fam t = FWg \<Longrightarrow> t \<in> set wgOpTypes"
  "fam t = FSwitch \<Longrightarrow> t \<in> set switchOpTypes"
  "fam t = FNodeFile \<Longrightarrow> t \<in> set nodeFileOpTypes"
  "fam t = FIpam \<Longrightarrow> t \<in> set [OpIpamAllocCreate, OpIpamAllocDelete]"
  "fam t = FSdnStage \<Longrightarrow> t \<in> set sdnStageOpTypes"
  "fam t = FSdnApply \<Longrightarrow> t = OpSdnApply"
  "fam t = FFw \<Longrightarrow> t \<in> set fwOpTypes"
  unfolding fam_def by (simp_all only: family.distinct split: if_splits)

lemma fam_sdn_apply: "fam t = FSdnApply \<longleftrightarrow> t = OpSdnApply"
  by (rule iffI) (erule fam_out(8), simp only: fam_members(8))

lemma plan_op_step_fam:
  "plan_op_step i op a =
     (case fam (op_Type op) of
        FQos \<Rightarrow> Inr (a\<lparr>pa_qosSteps := pa_qosSteps a @ [qos_step i op]\<rparr>)
      | FTcMirror \<Rightarrow> Inr (a\<lparr>pa_tcMirrorSteps := pa_tcMirrorSteps a @ [tcMirror_step i op]\<rparr>)
      | FWg \<Rightarrow> Inr (a\<lparr>pa_wgSteps := pa_wgSteps a @ [wg_step i op]\<rparr>)
      | FSwitch \<Rightarrow> Inr (a\<lparr>pa_switchSteps := pa_switchSteps a @ [switch_step i op]\<rparr>)
      | FNodeFile \<Rightarrow>
          (let node = ref_Node (op_Target op);
               order = (if pa_byNode a node = None then pa_nodeOrder a @ [node] else pa_nodeOrder a)
           in Inr (a\<lparr>pa_nodeOrder := order, pa_byNode := push node i (pa_byNode a)\<rparr>))
      | FIpam \<Rightarrow> Inr (a\<lparr>pa_ipamSteps := pa_ipamSteps a @
          [ipam_step (if op_Type op = OpIpamAllocCreate then ''Reserve'' else ''Release'') i op]\<rparr>)
      | FSdnStage \<Rightarrow> Inr (a\<lparr>pa_sdnStageSteps := pa_sdnStageSteps a @ [sdnStage_step i op]\<rparr>)
      | FSdnApply \<Rightarrow> Inr (a\<lparr>pa_sdnApply := True\<rparr>)
      | FFw \<Rightarrow>
          (let key = Ref_String (op_Target op);
               order = (if pa_byFwTarget a key = None then pa_fwTargetOrder a @ [op_Target op]
                        else pa_fwTargetOrder a)
           in Inr (a\<lparr>pa_fwTargetOrder := order, pa_byFwTarget := push key i (pa_byFwTarget a)\<rparr>))
      | FUnsupported \<Rightarrow> Inl (op_Type op))"
  unfolding plan_op_step_def fam_def Let_def by simp


section \<open>What the loop computes\<close>

type_synonym 'q iop = "nat \<times> 'q plan_op"

definition sel :: "family \<Rightarrow> 'q iop list \<Rightarrow> 'q iop list" where
  "sel f xs = filter (\<lambda>(i, op). fam (op_Type op) = f) xs"

definition node_kvs :: "'q iop list \<Rightarrow> (string \<times> nat) list" where
  "node_kvs xs = map (\<lambda>(i, op). (ref_Node (op_Target op), i)) (sel FNodeFile xs)"

definition fw_kvs :: "'q iop list \<Rightarrow> (string \<times> nat) list" where
  "fw_kvs xs = map (\<lambda>(i, op). (Ref_String (op_Target op), i)) (sel FFw xs)"

definition ipam_steps :: "'q iop list \<Rightarrow> Step list" where
  "ipam_steps xs = map (\<lambda>(i, op).
     ipam_step (if op_Type op = OpIpamAllocCreate then ''Reserve'' else ''Release'') i op) (sel FIpam xs)"

definition fw_order :: "'q iop list \<Rightarrow> Ref list" where
  "fw_order xs = first_by Ref_String (map (\<lambda>(i, op). op_Target op) (sel FFw xs))"

text \<open>
  The plan, family by family: node files grouped by node and firewall ops by ruleset, the groups in
  the order of their first op; the other families one step per op, in the order of the ops.
\<close>

definition plan_spec :: "'q plan_op list \<Rightarrow> Plan" where
  "plan_spec ops =
     (let xs = enumerate 0 ops in
      map (\<lambda>(i, op). switch_step i op) (sel FSwitch xs) @
      map (\<lambda>(i, op). sdnStage_step i op) (sel FSdnStage xs) @
      ipam_steps xs @
      concat (map (\<lambda>n. stage_reload n (group_of (node_kvs xs) n)) (first_seen (map fst (node_kvs xs)))) @
      map (\<lambda>(i, op). qos_step i op) (sel FQos xs) @
      map (\<lambda>(i, op). tcMirror_step i op) (sel FTcMirror xs) @
      map (\<lambda>(i, op). wg_step i op) (sel FWg xs) @
      concat (map (\<lambda>t. fw_steps t (group_of (fw_kvs xs) (Ref_String t))) (fw_order xs)) @
      (if sel FSdnApply xs \<noteq> [] then [sdnApply_step] else []))"

definition some_group :: "('k \<times> 'v) list \<Rightarrow> 'k \<rightharpoonup> 'v list" where
  "some_group kvs = (\<lambda>k. if group_of kvs k = [] then None else Some (group_of kvs k))"

definition acc_of :: "'q iop list \<Rightarrow> plan_acc" where
  "acc_of xs =
     \<lparr> pa_nodeOrder = first_seen (map fst (node_kvs xs)),
       pa_byNode = some_group (node_kvs xs),
       pa_sdnStageSteps = map (\<lambda>(i, op). sdnStage_step i op) (sel FSdnStage xs),
       pa_ipamSteps = ipam_steps xs,
       pa_sdnApply = (sel FSdnApply xs \<noteq> []),
       pa_fwTargetOrder = fw_order xs,
       pa_byFwTarget = some_group (fw_kvs xs),
       pa_qosSteps = map (\<lambda>(i, op). qos_step i op) (sel FQos xs),
       pa_tcMirrorSteps = map (\<lambda>(i, op). tcMirror_step i op) (sel FTcMirror xs),
       pa_wgSteps = map (\<lambda>(i, op). wg_step i op) (sel FWg xs),
       pa_switchSteps = map (\<lambda>(i, op). switch_step i op) (sel FSwitch xs) \<rparr>"

lemma sel_snoc:
  "sel f (xs @ [(i, op)]) = sel f xs @ (if fam (op_Type op) = f then [(i, op)] else [])"
  by (simp add: sel_def)

lemma push_some_group: "push k v (some_group kvs) = some_group (kvs @ [(k, v)])"
  by (rule ext) (simp add: push_def some_group_def group_of_snoc)

lemma some_group_None: "some_group kvs k = None \<longleftrightarrow> k \<notin> set (map fst kvs)"
  by (simp add: some_group_def group_of_empty_iff)

lemma node_kvs_snoc:
  "node_kvs (xs @ [(i, op)]) =
     node_kvs xs @ (if fam (op_Type op) = FNodeFile then [(ref_Node (op_Target op), i)] else [])"
  by (simp add: node_kvs_def sel_snoc)

lemma fw_kvs_snoc:
  "fw_kvs (xs @ [(i, op)]) =
     fw_kvs xs @ (if fam (op_Type op) = FFw then [(Ref_String (op_Target op), i)] else [])"
  by (simp add: fw_kvs_def sel_snoc)

lemma fst_fw_kvs: "map fst (fw_kvs xs) = map Ref_String (map (\<lambda>(i, op). op_Target op) (sel FFw xs))"
  by (simp add: fw_kvs_def case_prod_beta')

lemma keys_fw_order: "map Ref_String (fw_order xs) = first_seen (map fst (fw_kvs xs))"
  by (simp add: fw_order_def map_first_by fst_fw_kvs)

lemma fw_order_snoc:
  "fw_order (xs @ [(i, op)]) =
     (if fam (op_Type op) \<noteq> FFw \<or> Ref_String (op_Target op) \<in> set (map fst (fw_kvs xs)) then fw_order xs
      else fw_order xs @ [op_Target op])"
proof -
  have "set (map Ref_String (fw_order xs)) = set (map fst (fw_kvs xs))"
    by (simp only: keys_fw_order set_first_seen)
  then show ?thesis
    by (simp add: fw_order_def sel_snoc first_by_snoc see_by_def)
qed

lemma acc_of_Nil: "acc_of [] = empty_acc"
  by (simp add: acc_of_def empty_acc_def sel_def node_kvs_def fw_kvs_def ipam_steps_def fw_order_def
      some_group_def)

lemma plan_op_step_acc:
  assumes "fam (op_Type op) \<noteq> FUnsupported"
  shows "plan_op_step i op (acc_of xs) = Inr (acc_of (xs @ [(i, op)]))"
  using assms
  by (cases "fam (op_Type op)")
     (simp_all add: plan_op_step_fam acc_of_def sel_snoc node_kvs_snoc fw_kvs_snoc fw_order_snoc
       ipam_steps_def push_some_group some_group_None first_seen_snoc see_def Let_def)

lemma plan_loop_acc:
  "plan_loop (length xs) ops (acc_of xs) =
     (case find (\<lambda>op. fam (op_Type op) = FUnsupported) ops of
        Some op \<Rightarrow> Inl (op_Type op)
      | None \<Rightarrow> Inr (acc_of (xs @ enumerate (length xs) ops)))"
proof (induction ops arbitrary: xs)
  case (Cons op ops)
  show ?case
  proof (cases "fam (op_Type op) = FUnsupported")
    case True
    then show ?thesis by (simp add: plan_op_step_fam)
  next
    case False
    then show ?thesis
      using Cons.IH [of "xs @ [(length xs, op)]"] by (simp add: plan_op_step_acc split: option.splits)
  qed
qed simp

lemma idxs_of_some_group: "idxs_of (some_group kvs) k = group_of kvs k"
  by (simp add: idxs_of_def some_group_def)

lemma assemble_acc: "assemble (acc_of (enumerate 0 ops)) = plan_spec ops"
  by (simp add: assemble_def acc_of_def plan_spec_def idxs_of_some_group Let_def)

lemma BuildPlan_eq:
  "BuildPlan ops =
     (case find (\<lambda>op. fam (op_Type op) = FUnsupported) ops of
        Some op \<Rightarrow> Inl (op_Type op)
      | None \<Rightarrow> Inr (plan_spec ops))"
  using plan_loop_acc [of "[]" ops]
  by (simp add: BuildPlan_def acc_of_Nil assemble_acc split: option.splits)

lemma BuildPlan_Inr: "BuildPlan ops = Inr p \<Longrightarrow> p = plan_spec ops"
  by (simp add: BuildPlan_eq split: option.splits)


section \<open>Every op is executed once\<close>

lemma step_idxs [simp]:
  "st_OpIdx (switch_step i op) = [i]" "st_OpIdx (sdnStage_step i op) = [i]"
  "st_OpIdx (ipam_step v i op') = [i]" "st_OpIdx (qos_step i op') = [i]"
  "st_OpIdx (tcMirror_step i op') = [i]" "st_OpIdx (wg_step i op) = [i]"
  "st_OpIdx sdnApply_step = []"
  by (simp_all add: switch_step_def sdnStage_step_def ipam_step_def qos_step_def tcMirror_step_def
      wg_step_def sdnApply_step_def zero_Step_def)

lemma step_kinds [simp]:
  "st_Kind (switch_step i op) = StepSwitchApply" "st_Kind (sdnStage_step i op) = StepSDNStage"
  "st_Kind (ipam_step v i op') = StepIpamAlloc" "st_Kind (qos_step i op') = StepQosApply"
  "st_Kind (tcMirror_step i op') = StepTcMirrorApply" "st_Kind (wg_step i op) = StepWgApply"
  "st_Kind sdnApply_step = StepSDNApply"
  by (simp_all add: switch_step_def sdnStage_step_def ipam_step_def qos_step_def tcMirror_step_def
      wg_step_def sdnApply_step_def zero_Step_def)

definition plan_idxs :: "Plan \<Rightarrow> nat list" where
  "plan_idxs p = concat (map st_OpIdx p)"

lemma plan_idxs_append [simp]: "plan_idxs (p @ q) = plan_idxs p @ plan_idxs q"
  by (simp add: plan_idxs_def)

lemma plan_idxs_single:
  "(\<And>i op. st_OpIdx (f (i, op)) = [i]) \<Longrightarrow> plan_idxs (map f xs) = map fst xs"
  by (induction xs) (auto simp: plan_idxs_def)

lemma plan_idxs_groups:
  "(\<And>k is. plan_idxs (f k is) = is) \<Longrightarrow>
    plan_idxs (concat (map (\<lambda>k. f k (g k)) ks)) = concat (map g ks)"
  by (induction ks) (auto simp: plan_idxs_def)

lemma plan_idxs_stage_reload: "plan_idxs (stage_reload n is) = is"
  by (simp add: plan_idxs_def stage_reload_def zero_Step_def)

lemma plan_idxs_fw_steps: "plan_idxs (fw_steps t is) = is"
  by (simp add: plan_idxs_def fw_steps_def zero_Step_def)

lemma mset_node_groups:
  "mset (concat (map (group_of (node_kvs xs)) (first_seen (map fst (node_kvs xs))))) =
     mset (map fst (sel FNodeFile xs))"
  unfolding mset_groups by (simp add: node_kvs_def case_prod_beta' comp_def)

lemma mset_fw_groups:
  "mset (concat (map (\<lambda>t. group_of (fw_kvs xs) (Ref_String t)) (fw_order xs))) =
     mset (map fst (sel FFw xs))"
proof -
  have "map (\<lambda>t. group_of (fw_kvs xs) (Ref_String t)) (fw_order xs) =
      map (group_of (fw_kvs xs)) (first_seen (map fst (fw_kvs xs)))"
    by (simp flip: keys_fw_order)
  then show ?thesis
    by (simp only: mset_groups) (simp add: fw_kvs_def case_prod_beta' comp_def)
qed

lemma mset_families:
  assumes "\<And>i op. (i, op) \<in> set xs \<Longrightarrow> fam (op_Type op) \<noteq> FUnsupported"
  shows "mset (map fst (sel FSwitch xs)) + mset (map fst (sel FSdnStage xs)) +
      mset (map fst (sel FIpam xs)) + mset (map fst (sel FNodeFile xs)) + mset (map fst (sel FQos xs)) +
      mset (map fst (sel FTcMirror xs)) + mset (map fst (sel FWg xs)) + mset (map fst (sel FFw xs)) =
    mset (map fst (filter (\<lambda>(i, op). fam (op_Type op) \<noteq> FSdnApply) xs))"
  using assms
proof (induction xs)
  case (Cons x xs)
  obtain i op where x: "x = (i, op)" by (cases x)
  have "fam (op_Type op) \<noteq> FUnsupported"
    using Cons.prems [of i op] x by simp
  moreover have "mset (map fst (sel FSwitch xs)) + mset (map fst (sel FSdnStage xs)) +
      mset (map fst (sel FIpam xs)) + mset (map fst (sel FNodeFile xs)) + mset (map fst (sel FQos xs)) +
      mset (map fst (sel FTcMirror xs)) + mset (map fst (sel FWg xs)) + mset (map fst (sel FFw xs)) =
    mset (map fst (filter (\<lambda>(i, op). fam (op_Type op) \<noteq> FSdnApply) xs))"
    by (rule Cons.IH) (use Cons.prems in auto)
  ultimately show ?case
    using x by (cases "fam (op_Type op)") (simp_all add: sel_def)
qed (simp add: sel_def)

lemma mset_plan_spec:
  assumes "\<And>op. op \<in> set ops \<Longrightarrow> fam (op_Type op) \<noteq> FUnsupported"
  shows "mset (plan_idxs (plan_spec ops)) =
    mset (map fst (filter (\<lambda>(i, op). fam (op_Type op) \<noteq> FSdnApply) (enumerate 0 ops)))"
proof -
  let ?xs = "enumerate 0 ops"
  have "mset (plan_idxs (plan_spec ops)) =
      mset (map fst (sel FSwitch ?xs)) + mset (map fst (sel FSdnStage ?xs)) +
      mset (map fst (sel FIpam ?xs)) + mset (map fst (sel FNodeFile ?xs)) + mset (map fst (sel FQos ?xs)) +
      mset (map fst (sel FTcMirror ?xs)) + mset (map fst (sel FWg ?xs)) + mset (map fst (sel FFw ?xs))"
    by (simp add: plan_spec_def Let_def plan_idxs_single ipam_steps_def
        plan_idxs_groups [of stage_reload, OF plan_idxs_stage_reload]
        plan_idxs_groups [of fw_steps, OF plan_idxs_fw_steps]
        mset_node_groups mset_fw_groups del: mset_map mset_concat)
       (simp add: plan_idxs_def)
  also have "\<dots> = mset (map fst (filter (\<lambda>(i, op). fam (op_Type op) \<noteq> FSdnApply) ?xs))"
    by (rule mset_families) (use assms in \<open>auto simp: in_set_enumerate_eq\<close>)
  finally show ?thesis .
qed


lemma fst_filter_enumerate:
  "map fst (filter (\<lambda>(i, op). P op) (enumerate n ops)) = filter (\<lambda>i. P (ops ! (i - n))) [n..<n + length ops]"
proof (induction ops arbitrary: n)
  case (Cons op ops)
  have "map fst (filter (\<lambda>(i, op). P op) (enumerate (Suc n) ops)) =
      filter (\<lambda>i. P ((op # ops) ! (i - n))) [Suc n..<Suc n + length ops]"
    unfolding Cons.IH by (rule filter_cong) (auto simp: nth_Cons')
  moreover have "[n..<n + length (op # ops)] = n # [Suc n..<Suc n + length ops]"
    by (simp add: upt_conv_Cons del: upt_Suc)
  ultimately show ?case by (simp del: upt_Suc)
qed simp

lemma BuildPlan_supported:
  assumes "BuildPlan ops = Inr p" "op \<in> set ops"
  shows "fam (op_Type op) \<noteq> FUnsupported"
  using assms by (auto simp: BuildPlan_eq find_None_iff split: option.splits)


section \<open>The order of the steps\<close>

fun step_rank :: "StepKind \<Rightarrow> nat" where
  "step_rank StepSwitchApply = 0"
| "step_rank StepSDNStage = 1"
| "step_rank StepIpamAlloc = 2"
| "step_rank StepStageFile = 3"
| "step_rank StepReload = 3"
| "step_rank StepQosApply = 4"
| "step_rank StepTcMirrorApply = 5"
| "step_rank StepWgApply = 6"
| "step_rank StepFwApply = 7"
| "step_rank StepFwVerify = 7"
| "step_rank StepSDNApply = 8"

text \<open>Every stage step is at once followed by the reload of its node, and there is no other reload.\<close>

fun paired :: "Plan \<Rightarrow> bool" where
  "paired [] \<longleftrightarrow> True"
| "paired [s] \<longleftrightarrow> st_Kind s \<noteq> StepStageFile \<and> st_Kind s \<noteq> StepReload"
| "paired (s # r # p) \<longleftrightarrow>
     (if st_Kind s = StepStageFile then st_Kind r = StepReload \<and> st_Node r = st_Node s \<and> paired p
      else st_Kind s \<noteq> StepReload \<and> paired (r # p))"

lemma paired_append: "paired p \<Longrightarrow> paired q \<Longrightarrow> paired (p @ q)"
proof (induction p rule: paired.induct)
  case (2 s)
  then show ?case by (cases q) auto
qed auto

lemma paired_no_files:
  "(\<And>s. s \<in> set p \<Longrightarrow> st_Kind s \<noteq> StepStageFile \<and> st_Kind s \<noteq> StepReload) \<Longrightarrow> paired p"
proof (induction p)
  case (Cons s p)
  then show ?case by (cases p) auto
qed simp

lemma paired_stage_reload: "paired (stage_reload n is)"
  by (simp add: stage_reload_def zero_Step_def)

lemma paired_concat: "(\<And>p. p \<in> set ps \<Longrightarrow> paired p) \<Longrightarrow> paired (concat ps)"
  by (induction ps) (auto intro: paired_append)

lemma stage_reload_kinds: "s \<in> set (stage_reload n is) \<Longrightarrow> st_Kind s \<in> {StepStageFile, StepReload}"
  by (auto simp: stage_reload_def zero_Step_def)

lemma fw_steps_kinds: "s \<in> set (fw_steps t is) \<Longrightarrow> st_Kind s \<in> {StepFwApply, StepFwVerify}"
  by (auto simp: fw_steps_def zero_Step_def split: if_splits)

lemma paired_fw_steps: "paired (fw_steps t is)"
  by (rule paired_no_files) (auto dest: fw_steps_kinds)

lemma paired_map:
  "(\<And>x. st_Kind (f x) \<notin> {StepStageFile, StepReload}) \<Longrightarrow> paired (map f xs)"
  by (rule paired_no_files) auto

lemma paired_plan_spec: "paired (plan_spec ops)"
  unfolding plan_spec_def Let_def ipam_steps_def
  by (intro paired_append paired_concat)
     (auto simp: paired_stage_reload paired_fw_steps intro: paired_map)

abbreviation rank_of :: "Step \<Rightarrow> nat" where
  "rank_of s \<equiv> step_rank (st_Kind s)"

lemma sorted_segments:
  assumes "sorted (map fst segs)"
    and "\<And>r p s. (r, p) \<in> set segs \<Longrightarrow> s \<in> set p \<Longrightarrow> rank_of s = r"
  shows "sorted (map rank_of (concat (map snd segs)))"
  using assms
proof (induction segs)
  case (Cons seg segs)
  obtain r p where seg: "seg = (r, p)" by (cases seg)
  have "map rank_of p = replicate (length p) r"
    using Cons.prems(2) [of r p] seg by (intro replicate_eqI) auto
  moreover have "r \<le> rank_of s" if "s \<in> set (concat (map snd segs))" for s
    using that Cons.prems seg by fastforce
  moreover have "sorted (map rank_of (concat (map snd segs)))"
    by (rule Cons.IH) (use Cons.prems in auto)
  ultimately show ?case using seg by (auto simp: sorted_append)
qed simp

definition plan_segments :: "'q iop list \<Rightarrow> (nat \<times> Plan) list" where
  "plan_segments xs =
     [(0, map (\<lambda>(i, op). switch_step i op) (sel FSwitch xs)),
      (1, map (\<lambda>(i, op). sdnStage_step i op) (sel FSdnStage xs)),
      (2, ipam_steps xs),
      (3, concat (map (\<lambda>n. stage_reload n (group_of (node_kvs xs) n)) (first_seen (map fst (node_kvs xs))))),
      (4, map (\<lambda>(i, op). qos_step i op) (sel FQos xs)),
      (5, map (\<lambda>(i, op). tcMirror_step i op) (sel FTcMirror xs)),
      (6, map (\<lambda>(i, op). wg_step i op) (sel FWg xs)),
      (7, concat (map (\<lambda>t. fw_steps t (group_of (fw_kvs xs) (Ref_String t))) (fw_order xs))),
      (8, if sel FSdnApply xs \<noteq> [] then [sdnApply_step] else [])]"

lemma plan_spec_segments: "plan_spec ops = concat (map snd (plan_segments (enumerate 0 ops)))"
  by (simp add: plan_spec_def plan_segments_def Let_def)

lemma plan_segments_rank: "(r, p) \<in> set (plan_segments xs) \<Longrightarrow> s \<in> set p \<Longrightarrow> rank_of s = r"
  by (auto simp: plan_segments_def ipam_steps_def dest!: stage_reload_kinds fw_steps_kinds split: if_splits)

lemma sorted_plan_spec: "sorted (map rank_of (plan_spec ops))"
  unfolding plan_spec_segments
  by (rule sorted_segments) (simp add: plan_segments_def, rule plan_segments_rank)

lemma filter_kind_none: "(\<And>s. s \<in> set p \<Longrightarrow> st_Kind s \<noteq> k) \<Longrightarrow> filter (\<lambda>s. st_Kind s = k) p = []"
  by (simp add: filter_empty_conv)

lemma stage_files_plan_spec:
  "map st_Node (filter (\<lambda>s. st_Kind s = StepStageFile) (plan_spec ops)) =
     first_seen (map fst (node_kvs (enumerate 0 ops)))"
proof -
  have "map st_Node (filter (\<lambda>s. st_Kind s = StepStageFile) (concat (map (\<lambda>n. stage_reload n (g n)) ns))) = ns"
    for g ns
    by (induction ns) (simp_all add: stage_reload_def zero_Step_def)
  moreover have "filter (\<lambda>s. st_Kind s = StepStageFile) (concat (map (\<lambda>t. fw_steps t (g t)) ts)) = []" for g ts
    by (rule filter_kind_none) (auto dest: fw_steps_kinds)
  ultimately show ?thesis
    by (simp add: plan_spec_def Let_def ipam_steps_def filter_map comp_def case_prod_beta')
qed

lemma fw_applies_plan_spec:
  "map st_Target (filter (\<lambda>s. st_Kind s = StepFwApply) (plan_spec ops)) =
     map Ref_String (fw_order (enumerate 0 ops))"
proof -
  have "map st_Target (filter (\<lambda>s. st_Kind s = StepFwApply) (concat (map (\<lambda>t. fw_steps t (g t)) ts))) =
      map Ref_String ts" for g ts
    by (induction ts) (simp_all add: fw_steps_def zero_Step_def)
  moreover have "filter (\<lambda>s. st_Kind s = StepFwApply) (concat (map (\<lambda>n. stage_reload n (g n)) ns)) = []" for g ns
    by (rule filter_kind_none) (auto dest: stage_reload_kinds)
  ultimately show ?thesis
    by (simp add: plan_spec_def Let_def ipam_steps_def filter_map comp_def case_prod_beta')
qed


section \<open>Queries and stages\<close>

lemma set_affectedNodes: "set (affectedNodes p) = {n. n \<noteq> [] \<and> n \<in> st_Node ` set p}"
  by (auto simp: affectedNodes_def)

lemma set_stageNodes:
  assumes "set idxs \<subseteq> {..<length p}"
  shows "set (stageNodes p idxs) = {n. n \<noteq> [] \<and> (\<exists>i\<in>set idxs. st_Node (p ! i) = n)}"
  using assms by (fastforce simp: stageNodes_def Let_def set_affectedNodes intro: nth_mem)

lemma filter_upt_nth: "filter P p = map (\<lambda>i. p ! i) (filter (\<lambda>i. P (p ! i)) [0..<length p])"
proof -
  have "filter P (map (\<lambda>i. p ! i) [0..<length p]) = map (\<lambda>i. p ! i) (filter (\<lambda>i. P (p ! i)) [0..<length p])"
    by (simp only: filter_map comp_def)
  then show ?thesis by (simp only: map_nth)
qed

lemma mset_filter_both: "mset (filter P xs @ filter (\<lambda>x. \<not> P x) xs) = mset xs"
  by (induction xs) auto

lemma ParseRef_printed:
  assumes "ref_Kind r \<in> set knownKinds" and "CHR '':'' \<notin> set (ref_Node r)"
  shows "ParseRef (Ref_String r) = Inr r"
  using assms knownKinds_no_colon [of "ref_Kind r"]
  by (simp add: ParseRef_def Ref_String_def go_SplitN3)

lemma set_fw_targets:
  "set (map (\<lambda>(i, op). op_Target op) (sel FFw (enumerate 0 ops))) =
     op_Target ` {op \<in> set ops. op_Type op \<in> set fwOpTypes}"
proof -
  have "fam t = FFw \<longleftrightarrow> t \<in> set fwOpTypes" for t
    by (rule iffI) (erule fam_out(9), erule fam_in(8))
  moreover have "snd ` set (enumerate 0 ops) = set ops"
    by (metis list.set_map map_snd_enumerate)
  then have "{op \<in> set ops. op_Type op \<in> set fwOpTypes} =
      snd ` {x \<in> set (enumerate 0 ops). op_Type (snd x) \<in> set fwOpTypes}"
    by auto
  ultimately show ?thesis
    by (simp add: sel_def image_image case_prod_beta')
qed

abbreviation parsed :: "string \<Rightarrow> Ref option" where
  "parsed t \<equiv> (case ParseRef t of Inr r \<Rightarrow> Some r | Inl _ \<Rightarrow> None)"

lemma fwTargets_map:
  "fwTargets p = List.map_filter parsed (map st_Target (filter (\<lambda>s. st_Kind s = StepFwApply) p))"
  by (simp add: fwTargets_def map_filter_def comp_def filter_map)

lemma map_filter_parse:
  "(\<And>t. t \<in> set ts \<Longrightarrow> ParseRef (Ref_String t) = Inr t) \<Longrightarrow>
    List.map_filter parsed (map Ref_String ts) = ts"
  by (induction ts) (auto simp: map_filter_simps)


section \<open>Properties\<close>

text \<open>A changeset with a bridge, a firewall rule, an SDN fabric and the SDN apply.\<close>

definition ex_plan_op :: "OpType \<Rightarrow> Ref \<Rightarrow> unit plan_op" where
  "ex_plan_op t r = \<lparr> op_ID = [], op_Params = POther (PRest ()), op_Target = r, op_Type = t \<rparr>"

definition ex_plan_ops :: "unit plan_op list" where
  "ex_plan_ops =
     [ex_plan_op OpBridgeCreate (mkRef KindBridge ''pve1'' ''vmbr1''),
      ex_plan_op OpSdnApply (mkRef KindSDNZone [] ''z1''),
      ex_plan_op OpFwRuleCreate (mkRef KindFwRuleset ''pve2'' ''node''),
      ex_plan_op OpSdnFabricCreate (mkRef KindSDNFabric [] ''f1''),
      ex_plan_op OpBridgePortAdd (mkRef KindBridge ''pve1'' ''vmbr1'')]"

lemma ex_plan_ops_BuildPlan: "BuildPlan ex_plan_ops = Inr (plan_spec ex_plan_ops)"
proof -
  have "find (\<lambda>op. fam (op_Type op) = FUnsupported) ex_plan_ops = None"
    by code_simp
  then show ?thesis by (simp add: BuildPlan_eq)
qed

text \<open>
  C16. The planner either names the first op no executor runs, or returns the plan that its families of
  ops determine: switch ports, SDN stages, address allocations, one stage and reload pair per node,
  traffic shaping, mirrors, tunnels, one firewall step per ruleset, and the SDN apply last.
\<close>

theorem BuildPlan_refines:
  "BuildPlan ops =
     (case find (\<lambda>op. fam (op_Type op) = FUnsupported) ops of
        Some op \<Rightarrow> Inl (op_Type op)
      | None \<Rightarrow> Inr (plan_spec ops))"
  by (rule BuildPlan_eq)

text \<open>
  Each op of the changeset is carried by exactly one step of the plan, once; only sdn.apply, which
  becomes the trailing step, is carried by none.
\<close>

theorem plan_covers_ops:
  assumes "BuildPlan ops = Inr p"
  shows "mset (concat (map st_OpIdx p)) =
    mset (filter (\<lambda>i. op_Type (ops ! i) \<noteq> OpSdnApply) [0..<length ops])"
proof -
  have "mset (plan_idxs p) =
      mset (map fst (filter (\<lambda>(i, op). fam (op_Type op) \<noteq> FSdnApply) (enumerate 0 ops)))"
    unfolding BuildPlan_Inr [OF assms] by (rule mset_plan_spec) (rule BuildPlan_supported [OF assms])
  also have "\<dots> = mset (filter (\<lambda>i. fam (op_Type (ops ! i)) \<noteq> FSdnApply) [0..<length ops])"
    using fst_filter_enumerate [of "\<lambda>op. fam (op_Type op) \<noteq> FSdnApply" 0 ops] by simp
  finally show ?thesis by (simp only: plan_idxs_def fam_sdn_apply)
qed

theorem plan_covers_ops_witness:
  "mset (concat (map st_OpIdx (plan_spec ex_plan_ops))) = {#0, 2, 3, 4#}"
  using plan_covers_ops [OF ex_plan_ops_BuildPlan]
  by (simp add: ex_plan_ops_def ex_plan_op_def eval_nat_numeral)

text \<open>
  The steps of a plan come in the documented order of categories; each node's file is staged once
  and its reload follows at once, so a node is never left between the two; no ruleset has two steps.
\<close>

theorem plan_ordered:
  assumes "BuildPlan ops = Inr p"
  shows "sorted (map (\<lambda>s. step_rank (st_Kind s)) p) \<and> paired p \<and>
    distinct (map st_Node (filter (\<lambda>s. st_Kind s = StepStageFile) p)) \<and>
    distinct (map st_Target (filter (\<lambda>s. st_Kind s = StepFwApply) p))"
  unfolding BuildPlan_Inr [OF assms]
  by (simp add: sorted_plan_spec paired_plan_spec stage_files_plan_spec fw_applies_plan_spec keys_fw_order)


theorem plan_ordered_witness:
  "sorted (map (\<lambda>s. step_rank (st_Kind s)) (plan_spec ex_plan_ops)) \<and>
    map st_Kind (plan_spec ex_plan_ops) =
      [StepSDNStage, StepStageFile, StepReload, StepFwApply, StepFwVerify, StepSDNApply]"
proof -
  have "map st_Kind (plan_spec ex_plan_ops) =
      [StepSDNStage, StepStageFile, StepReload, StepFwApply, StepFwVerify, StepSDNApply]"
    by code_simp
  with plan_ordered [OF ex_plan_ops_BuildPlan] show ?thesis by blast
qed

text \<open>
  Splitting a plan for a staged apply loses no step and keeps the order inside each stage. The
  canary stage touches only chosen nodes and the other stage none of them, and restricting the plan
  to the nodes of the canary stage, which is what an abort rolls back, gives exactly the steps that
  stage ran.
\<close>

theorem canary_split:
  assumes "canaryStageIndexes p canaryNodes = (canary, rest)"
  shows "mset (canary @ rest) = mset (allStepIndexes p) \<and> sorted canary \<and> sorted rest \<and>
    set (stageNodes p canary) = set canaryNodes \<inter> set (affectedNodes p) \<and>
    set (stageNodes p rest) \<inter> set canaryNodes = {} \<and>
    restrictedToNodes p (stageNodes p canary) = map (\<lambda>i. p ! i) canary"
proof -
  let ?c = "\<lambda>i. st_Node (p ! i) \<noteq> [] \<and> st_Node (p ! i) \<in> set canaryNodes"
  have canary: "canary = filter ?c [0..<length p]" and rest: "rest = filter (\<lambda>i. \<not> ?c i) [0..<length p]"
    using assms by (simp_all add: canaryStageIndexes_def Let_def)
  have nodes: "set (stageNodes p canary) = set canaryNodes \<inter> set (affectedNodes p)"
    unfolding canary by (subst set_stageNodes) (fastforce simp: set_affectedNodes in_set_conv_nth)+
  moreover have "set (stageNodes p rest) \<inter> set canaryNodes = {}"
    unfolding rest by (subst set_stageNodes) auto
  moreover have "restrictedToNodes p (stageNodes p canary) =
      filter (\<lambda>s. st_Node s \<noteq> [] \<and> st_Node s \<in> set canaryNodes) p"
    unfolding restrictedToNodes_def nodes by (rule filter_cong) (auto simp: set_affectedNodes)
  then have "restrictedToNodes p (stageNodes p canary) = map (\<lambda>i. p ! i) canary"
    unfolding canary by (subst (asm) filter_upt_nth)
  moreover have "mset (canary @ rest) = mset (allStepIndexes p)"
    unfolding canary rest allStepIndexes_def by (rule mset_filter_both)
  moreover have "sorted (filter P [0..<length p])" for P
    using sorted_filter [of "\<lambda>i. i" "[0..<length p]"] by simp
  ultimately show ?thesis unfolding canary rest by blast
qed

theorem canary_split_witness:
  "set (stageNodes (plan_spec ex_plan_ops) [3, 4]) = {''pve2''} \<and>
    restrictedToNodes (plan_spec ex_plan_ops) (stageNodes (plan_spec ex_plan_ops) [3, 4]) =
      map (\<lambda>i. plan_spec ex_plan_ops ! i) [3, 4]"
proof -
  have eq: "canaryStageIndexes (plan_spec ex_plan_ops) [''pve2''] = ([3, 4], [0, 1, 2, 5])"
    by code_simp
  have "set (affectedNodes (plan_spec ex_plan_ops)) = {''pve1'', ''pve2''}"
    by code_simp
  with canary_split [OF eq] show ?thesis by auto
qed

text \<open>
  The rulesets a rollback restores are the targets of the firewall ops: printing them into the plan
  and parsing them back loses nothing when the targets are printable refs.
\<close>

theorem fwTargets_complete:
  assumes "BuildPlan ops = Inr p"
    and "\<And>op. op \<in> set ops \<Longrightarrow> op_Type op \<in> set fwOpTypes \<Longrightarrow>
      ref_Kind (op_Target op) \<in> set knownKinds \<and> CHR '':'' \<notin> set (ref_Node (op_Target op))"
  shows "distinct (fwTargets p) \<and> set (fwTargets p) = op_Target ` {op \<in> set ops. op_Type op \<in> set fwOpTypes}"
proof -
  let ?ts = "map (\<lambda>(i, op). op_Target op) (sel FFw (enumerate 0 ops))"
  have ts: "set ?ts = op_Target ` {op \<in> set ops. op_Type op \<in> set fwOpTypes}"
    by (rule set_fw_targets)
  have parse: "ParseRef (Ref_String t) = Inr t" if "t \<in> set ?ts" for t
    using that assms(2) unfolding ts by (auto intro: ParseRef_printed)
  have order: "set (fw_order (enumerate 0 ops)) \<subseteq> set ?ts"
    unfolding fw_order_def by (rule set_first_by)
  have keys: "Ref_String ` set (fw_order (enumerate 0 ops)) = Ref_String ` set ?ts"
    using arg_cong [OF keys_fw_order [of "enumerate 0 ops"], of set] by (simp add: fst_fw_kvs image_image)
  have targets: "fwTargets p = fw_order (enumerate 0 ops)"
    unfolding fwTargets_map BuildPlan_Inr [OF assms(1)] fw_applies_plan_spec
    by (rule map_filter_parse) (use order parse in blast)
  have "distinct (map Ref_String (fwTargets p))"
    unfolding targets keys_fw_order by simp
  then have "distinct (fwTargets p)" by (simp add: distinct_map)
  moreover have "set ?ts \<subseteq> set (fwTargets p)"
  proof
    fix t assume t: "t \<in> set ?ts"
    then have "Ref_String t \<in> Ref_String ` set (fwTargets p)"
      unfolding targets keys by (rule imageI)
    then obtain t' where t': "t' \<in> set (fwTargets p)" "Ref_String t' = Ref_String t"
      by (elim imageE) simp
    then have "ParseRef (Ref_String t) = Inr t'"
      using parse [of t'] order targets by auto
    with parse [OF t] t' show "t \<in> set (fwTargets p)" by simp
  qed
  moreover have "set (fwTargets p) \<subseteq> set ?ts"
    unfolding targets by (rule order)
  ultimately show ?thesis unfolding ts [symmetric] by (intro conjI equalityI)
qed

theorem fwTargets_complete_witness:
  "set (fwTargets (plan_spec ex_plan_ops)) = {mkRef KindFwRuleset ''pve2'' ''node''}"
proof -
  have fw: "op_Target ` {op \<in> set ex_plan_ops. op_Type op \<in> set fwOpTypes} =
      {mkRef KindFwRuleset ''pve2'' ''node''}"
  proof -
    have "set (map op_Target (filter (\<lambda>op. op_Type op \<in> set fwOpTypes) ex_plan_ops)) =
        {mkRef KindFwRuleset ''pve2'' ''node''}"
      by (simp add: ex_plan_ops_def ex_plan_op_def fwOpTypes_def)
    then show ?thesis by (simp only: set_map set_filter)
  qed
  have "set (fwTargets (plan_spec ex_plan_ops)) =
      op_Target ` {op \<in> set ex_plan_ops. op_Type op \<in> set fwOpTypes}"
  proof (rule conjunct2 [OF fwTargets_complete [OF ex_plan_ops_BuildPlan]])
    have "list_all (\<lambda>op. op_Type op \<in> set fwOpTypes \<longrightarrow>
        ref_Kind (op_Target op) \<in> set knownKinds \<and> CHR '':'' \<notin> set (ref_Node (op_Target op))) ex_plan_ops"
      by code_simp
    then show "ref_Kind (op_Target op) \<in> set knownKinds \<and> CHR '':'' \<notin> set (ref_Node (op_Target op))"
      if "op \<in> set ex_plan_ops" "op_Type op \<in> set fwOpTypes" for op
      using that unfolding list_all_iff by blast
  qed
  then show ?thesis unfolding fw .
qed

end
