(* ===== verification/Node_Agent.thy ===== *)
theory Node_Agent
  imports Go_Strings
begin

text \<open>
  How a daemon changes a node's network file: the host writer \<open>hostNodeAgent\<close>
  (\<^verbatim>\<open>src/cmd/vnproxd/changeagent.go\<close>) on the committed file and the staged file of one node, and the
  routing of \<open>ClusterNodeAgent\<close> (\<^verbatim>\<open>src/internal/change/cluster_agent.go\<close>) over the nodes of a cluster.
  The interface \<open>NodeAgent\<close> is the record \<open>node_agent\<close>, its contract the locale \<open>node_agent_contract\<close>.

  What the operating system and the network do during a call is an argument: which reads succeed,
  whether a write completes or tears the file, whether \<open>ifreload\<close> succeeds, and whether a request to a
  peer and its reply arrive.
\<close>

section \<open>The host writer\<close>

datatype agent_err =
    EReadStaged | EReadCommitted | EWriteStaged | EWriteCommitted | EReload | ERemove
  | ErrUnknownPeerNode | ErrPeerUnreachable

text \<open>A failed write may leave the file missing or with other content.\<close>

datatype write_result = WOk | WTorn "string option"

record os_outcome =
  os_read1 :: bool
  os_read2 :: bool
  os_write1 :: write_result
  os_reload1 :: bool
  os_write2 :: write_result
  os_reload2 :: bool
  os_remove :: bool

text \<open>The two files (\<open>None\<close>: missing) and the configuration in effect (\<open>None\<close>: unknown).\<close>

record host_files =
  hf_committed :: "string option"
  hf_pending :: "string option"
  hf_running :: "string option"

definition host_ReadInterfaces :: "os_outcome \<Rightarrow> host_files \<Rightarrow> agent_err + string" where
  "host_ReadInterfaces os fs =
     (case hf_committed fs of
        Some c \<Rightarrow> if os_read1 os then Inr c else Inl EReadCommitted
      | None \<Rightarrow> Inl EReadCommitted)"

definition host_StageInterfaces :: "string \<Rightarrow> os_outcome \<Rightarrow> host_files \<Rightarrow> agent_err option \<times> host_files" where
  "host_StageInterfaces content os fs =
     (case os_write1 os of
        WOk \<Rightarrow> (None, fs\<lparr>hf_pending := Some content\<rparr>)
      | WTorn c \<Rightarrow> (Some EWriteStaged, fs\<lparr>hf_pending := c\<rparr>))"

definition host_ReloadInterfaces :: "os_outcome \<Rightarrow> host_files \<Rightarrow> agent_err option \<times> host_files" where
  "host_ReloadInterfaces os fs =
     (case (if os_read1 os then hf_pending fs else None) of
        None \<Rightarrow> (Some EReadStaged, fs)
      | Some staged \<Rightarrow>
          case (if os_read2 os then hf_committed fs else None) of
            None \<Rightarrow> (Some EReadCommitted, fs)
          | Some backup \<Rightarrow>
              case os_write1 os of
                WTorn c \<Rightarrow> (Some EWriteCommitted, fs\<lparr>hf_committed := c\<rparr>)
              | WOk \<Rightarrow>
                  if \<not> os_reload1 os then
                    (Some EReload,
                     case os_write2 os of
                       WTorn c \<Rightarrow> fs\<lparr>hf_committed := c, hf_running := None\<rparr>
                     | WOk \<Rightarrow> fs\<lparr>hf_committed := Some backup,
                                hf_running := (if os_reload2 os then Some backup else None)\<rparr>)
                  else
                    (None, fs\<lparr>hf_committed := Some staged, hf_running := Some staged,
                              hf_pending := (if os_remove os then None else Some staged)\<rparr>))"

definition host_DiscardStaged :: "os_outcome \<Rightarrow> host_files \<Rightarrow> agent_err option \<times> host_files" where
  "host_DiscardStaged os fs =
     (if hf_pending fs = None then (None, fs)
      else if os_remove os then (None, fs\<lparr>hf_pending := None\<rparr>)
      else (Some ERemove, fs))"

text \<open>The peer interface's restore: two calls, each with its own outcome.\<close>

definition host_RestoreInterfaces :: "string \<Rightarrow> os_outcome \<Rightarrow> os_outcome \<Rightarrow> host_files \<Rightarrow> agent_err option \<times> host_files" where
  "host_RestoreInterfaces content os os' fs =
     (case host_StageInterfaces content os fs of
        (Some e, fs) \<Rightarrow> (Some e, fs)
      | (None, fs) \<Rightarrow> host_ReloadInterfaces os' fs)"


section \<open>Routing over the cluster\<close>

text \<open>A call to a peer is delivered and answered, lost on the way, or executed with its reply lost.\<close>

datatype net_outcome = Delivered | Dropped | ReplyLost

record call_outcome =
  co_os :: os_outcome
  co_known :: bool
  co_net :: net_outcome

text \<open>\<open>cl_env k\<close> is what the environment does during the \<open>k\<close>-th call.\<close>

record cluster =
  cl_localNode :: string
  cl_files :: "string \<Rightarrow> host_files"
  cl_env :: "nat \<Rightarrow> call_outcome"
  cl_time :: nat

definition run_on :: "string \<Rightarrow> (os_outcome \<Rightarrow> host_files \<Rightarrow> agent_err option \<times> host_files) \<Rightarrow> os_outcome \<Rightarrow> cluster
    \<Rightarrow> agent_err option \<times> cluster" where
  "run_on node f os w =
     (case f os (cl_files w node) of (r, fs) \<Rightarrow> (r, w\<lparr>cl_files := (cl_files w)(node := fs)\<rparr>))"

definition route :: "string \<Rightarrow> (os_outcome \<Rightarrow> host_files \<Rightarrow> agent_err option \<times> host_files) \<Rightarrow> cluster
    \<Rightarrow> agent_err option \<times> cluster" where
  "route node f w =
     (let out = cl_env w (cl_time w); w = w\<lparr>cl_time := Suc (cl_time w)\<rparr> in
      if node = cl_localNode w then run_on node f (co_os out) w
      else if \<not> co_known out then (Some ErrUnknownPeerNode, w)
      else case co_net out of
        Delivered \<Rightarrow> run_on node f (co_os out) w
      | Dropped \<Rightarrow> (Some ErrPeerUnreachable, w)
      | ReplyLost \<Rightarrow> (Some ErrPeerUnreachable, snd (run_on node f (co_os out) w)))"

definition cluster_ReadInterfaces :: "string \<Rightarrow> cluster \<Rightarrow> (agent_err + string) \<times> cluster" where
  "cluster_ReadInterfaces node w =
     (let out = cl_env w (cl_time w); w = w\<lparr>cl_time := Suc (cl_time w)\<rparr> in
      (if node = cl_localNode w then host_ReadInterfaces (co_os out) (cl_files w node)
       else if \<not> co_known out then Inl ErrUnknownPeerNode
       else if co_net out = Delivered then host_ReadInterfaces (co_os out) (cl_files w node)
       else Inl ErrPeerUnreachable, w))"

definition cluster_StageInterfaces :: "string \<Rightarrow> string \<Rightarrow> cluster \<Rightarrow> agent_err option \<times> cluster" where
  "cluster_StageInterfaces node content = route node (host_StageInterfaces content)"

definition cluster_ReloadInterfaces :: "string \<Rightarrow> cluster \<Rightarrow> agent_err option \<times> cluster" where
  "cluster_ReloadInterfaces node = route node host_ReloadInterfaces"

definition cluster_DiscardStaged :: "string \<Rightarrow> cluster \<Rightarrow> agent_err option \<times> cluster" where
  "cluster_DiscardStaged node = route node host_DiscardStaged"


section \<open>The interface and its contract\<close>

record 'w node_agent =
  na_Read :: "string \<Rightarrow> 'w \<Rightarrow> (agent_err + string) \<times> 'w"
  na_Stage :: "string \<Rightarrow> string \<Rightarrow> 'w \<Rightarrow> agent_err option \<times> 'w"
  na_Reload :: "string \<Rightarrow> 'w \<Rightarrow> agent_err option \<times> 'w"
  na_Discard :: "string \<Rightarrow> 'w \<Rightarrow> agent_err option \<times> 'w"

definition cluster_agent :: "cluster node_agent" where
  "cluster_agent = \<lparr> na_Read = cluster_ReadInterfaces, na_Stage = cluster_StageInterfaces,
     na_Reload = cluster_ReloadInterfaces, na_Discard = cluster_DiscardStaged \<rparr>"

text \<open>Re-staging a file and reloading it, as the rollback and the node timers do.\<close>

definition restoreNode :: "'w node_agent \<Rightarrow> string \<Rightarrow> string \<Rightarrow> 'w \<Rightarrow> agent_err option \<times> 'w" where
  "restoreNode a node content w =
     (case na_Stage a node content w of
        (Some e, w) \<Rightarrow> (Some e, w)
      | (None, w) \<Rightarrow> na_Reload a node w)"

text \<open>
  What the callers of a node agent rely on. \<open>sound\<close> says that from here on no write tears a file and
  no reply of an executed request is lost.
\<close>

locale node_agent_contract =
  fixes agent :: "'w node_agent"
    and committed :: "'w \<Rightarrow> string \<Rightarrow> string option"
    and pending :: "'w \<Rightarrow> string \<Rightarrow> string option"
    and sound :: "'w \<Rightarrow> bool"
  assumes read_law: "na_Read agent n w = (rr, w') \<Longrightarrow> sound w \<Longrightarrow>
      sound w' \<and> committed w' = committed w \<and> (\<forall>c. rr = Inr c \<longrightarrow> committed w n = Some c)"
    and stage_law: "na_Stage agent n c w = (r, w') \<Longrightarrow> sound w \<Longrightarrow>
      sound w' \<and> committed w' = committed w \<and> (r = None \<longrightarrow> pending w' n = Some c)"
    and reload_law: "na_Reload agent n w = (r, w') \<Longrightarrow> sound w \<Longrightarrow>
      sound w' \<and> committed w' = (if r = None then (committed w)(n := pending w n) else committed w)"
    and discard_law: "na_Discard agent n w = (r, w') \<Longrightarrow> sound w \<Longrightarrow> sound w' \<and> committed w' = committed w"
begin

lemma restoreNode_law:
  assumes "restoreNode agent n c w = (r, w')" "sound w"
  shows "sound w' \<and> committed w' = (if r = None then (committed w)(n := Some c) else committed w)"
proof (cases "na_Stage agent n c w")
  case (Pair r1 w1)
  note st = stage_law [OF Pair assms(2)]
  show ?thesis
  proof (cases r1)
    case None
    then have "na_Reload agent n w1 = (r, w')" using assms Pair by (simp add: restoreNode_def)
    from reload_law [OF this] st None show ?thesis by simp
  next
    case (Some e)
    then show ?thesis using assms Pair st by (auto simp: restoreNode_def)
  qed
qed

end


section \<open>The host writer meets the contract\<close>

definition no_tear :: "os_outcome \<Rightarrow> bool" where
  "no_tear os \<longleftrightarrow> os_write1 os = WOk \<and> os_write2 os = WOk"

definition cl_sound :: "cluster \<Rightarrow> bool" where
  "cl_sound w \<longleftrightarrow> (\<forall>k. cl_time w \<le> k \<longrightarrow>
     no_tear (co_os (cl_env w k)) \<and> (co_net (cl_env w k) = ReplyLost \<longrightarrow> \<not> co_known (cl_env w k)))"

abbreviation cl_committed :: "cluster \<Rightarrow> string \<Rightarrow> string option" where
  "cl_committed w n \<equiv> hf_committed (cl_files w n)"

abbreviation cl_pending :: "cluster \<Rightarrow> string \<Rightarrow> string option" where
  "cl_pending w n \<equiv> hf_pending (cl_files w n)"

lemma host_Stage_effect:
  assumes "host_StageInterfaces c os fs = (r, fs')"
  shows "hf_committed fs' = hf_committed fs \<and> hf_running fs' = hf_running fs
    \<and> (r = None \<longrightarrow> hf_pending fs' = Some c)"
  using assms by (auto simp: host_StageInterfaces_def split: write_result.splits)

lemma host_Discard_effect:
  assumes "host_DiscardStaged os fs = (r, fs')"
  shows "hf_committed fs' = hf_committed fs \<and> hf_running fs' = hf_running fs \<and> (r = None \<longrightarrow> hf_pending fs' = None)"
  using assms by (auto simp: host_DiscardStaged_def split: if_splits)

lemma host_Reload_effect:
  assumes "host_ReloadInterfaces os fs = (r, fs')" "no_tear os"
  shows "hf_committed fs' = (if r = None then hf_pending fs else hf_committed fs)"
  using assms by (auto simp: host_ReloadInterfaces_def no_tear_def split: option.splits if_splits write_result.splits)

lemma route_effect:
  assumes "route n f w = (r, w')" "cl_sound w"
    and f: "\<And>os fs r fs'. f os fs = (r, fs') \<Longrightarrow> no_tear os \<Longrightarrow> R r fs fs'"
    and idle: "\<And>e fs. R (Some e) fs fs"
  shows "cl_sound w' \<and> R r (cl_files w n) (cl_files w' n) \<and> (\<forall>m. m \<noteq> n \<longrightarrow> cl_files w' m = cl_files w m)"
proof -
  let ?o = "cl_env w (cl_time w)"
  obtain r1 fs1 where f1: "f (co_os ?o) (cl_files w n) = (r1, fs1)" by fastforce
  have nt: "no_tear (co_os ?o)" and nr: "co_net ?o = ReplyLost \<Longrightarrow> \<not> co_known ?o"
    using assms(2) by (auto simp: cl_sound_def)
  have later: "cl_sound (w\<lparr>cl_time := Suc (cl_time w)\<rparr>)" "cl_sound (w\<lparr>cl_time := Suc (cl_time w), cl_files := g\<rparr>)" for g
    using assms(2) by (auto simp: cl_sound_def)
  show ?thesis
    using assms(1) f [OF f1 nt] nr idle later f1
    by (auto simp: route_def run_on_def Let_def split: if_splits net_outcome.splits)
qed

lemma cluster_contract: "node_agent_contract cluster_agent cl_committed cl_pending cl_sound"
proof
  show "cl_sound w' \<and> cl_committed w' = cl_committed w \<and> (\<forall>c. r = Inr c \<longrightarrow> cl_committed w n = Some c)"
    if "na_Read cluster_agent n w = (r, w')" "cl_sound w" for n w r w'
    using that by (auto simp: cluster_agent_def cluster_ReadInterfaces_def host_ReadInterfaces_def Let_def cl_sound_def
        split: option.splits if_splits)
  show "cl_sound w' \<and> cl_committed w' = cl_committed w \<and> (r = None \<longrightarrow> cl_pending w' n = Some c)"
    if "na_Stage cluster_agent n c w = (r, w')" "cl_sound w" for n c w r w'
    using route_effect [of n "host_StageInterfaces c" w r w'
        "\<lambda>r fs fs'. hf_committed fs' = hf_committed fs \<and> (r = None \<longrightarrow> hf_pending fs' = Some c)"] that host_Stage_effect
    by (force simp: cluster_agent_def cluster_StageInterfaces_def)
  show "cl_sound w' \<and> cl_committed w' = (if r = None then (cl_committed w)(n := cl_pending w n) else cl_committed w)"
    if "na_Reload cluster_agent n w = (r, w')" "cl_sound w" for n w r w'
    using route_effect [of n host_ReloadInterfaces w r w'
        "\<lambda>r fs fs'. hf_committed fs' = (if r = None then hf_pending fs else hf_committed fs)"] that host_Reload_effect
    by (force simp: cluster_agent_def cluster_ReloadInterfaces_def fun_eq_iff)
  show "cl_sound w' \<and> cl_committed w' = cl_committed w"
    if "na_Discard cluster_agent n w = (r, w')" "cl_sound w" for n w r w'
    using route_effect [of n host_DiscardStaged w r w' "\<lambda>r fs fs'. hf_committed fs' = hf_committed fs"] that host_Discard_effect
    by (force simp: cluster_agent_def cluster_DiscardStaged_def)
qed

interpretation cluster: node_agent_contract cluster_agent cl_committed cl_pending cl_sound
  by (rule cluster_contract)


section \<open>Properties\<close>

text \<open>
  A reload is all or nothing as long as no write tears a file: when it succeeds the staged file is
  committed and in effect, and when it fails the committed file and the staged file are what they
  were before.
\<close>

theorem host_reload_atomic:
  assumes "host_ReloadInterfaces os fs = (r, fs')" "os_write1 os = WOk" "os_write2 os = WOk"
  shows "if r = None then hf_committed fs' = hf_pending fs \<and> hf_running fs' = hf_pending fs
    else hf_committed fs' = hf_committed fs \<and> hf_pending fs' = hf_pending fs"
  using assms by (auto simp: host_ReloadInterfaces_def split: option.splits if_splits)

definition ex_os :: os_outcome where
  "ex_os = \<lparr> os_read1 = True, os_read2 = True, os_write1 = WOk, os_reload1 = True, os_write2 = WOk,
     os_reload2 = True, os_remove = True \<rparr>"

definition ex_files :: host_files where
  "ex_files = \<lparr> hf_committed = Some ''old'', hf_pending = Some ''new'', hf_running = Some ''old'' \<rparr>"

theorem host_reload_atomic_witness:
  "hf_committed (snd (host_ReloadInterfaces (ex_os\<lparr>os_reload1 := False\<rparr>) ex_files)) = Some ''old''"
proof -
  have "host_ReloadInterfaces (ex_os\<lparr>os_reload1 := False\<rparr>) ex_files = (Some EReload, ex_files)"
    by (simp add: host_ReloadInterfaces_def ex_os_def ex_files_def)
  from host_reload_atomic [OF this] this show ?thesis
    by (simp add: ex_os_def ex_files_def)
qed

text \<open>
  A torn write of the committed file is not undone: the call fails, the file is missing, and the
  caller, which was told that a failed reload changes nothing, discards the staged copy.
\<close>

theorem host_reload_torn:
  "host_ReloadInterfaces (ex_os\<lparr>os_write1 := WTorn None\<rparr>) ex_files =
     (Some EWriteCommitted, ex_files\<lparr>hf_committed := None\<rparr>)"
  by (simp add: host_ReloadInterfaces_def ex_os_def ex_files_def)

text \<open>
  Restoring a node of the cluster, local or through a peer, either commits exactly the given content
  on that node and nothing elsewhere, or reports an error and changes no committed file.
\<close>

theorem restoreNode_exact:
  assumes "restoreNode cluster_agent n c w = (r, w')" "cl_sound w"
  shows "cl_committed w' = (if r = None then (cl_committed w)(n := Some c) else cl_committed w)"
  using cluster.restoreNode_law [OF assms] by blast

definition ex_cluster :: cluster where
  "ex_cluster = \<lparr> cl_localNode = ''pve1'', cl_files = (\<lambda>_. ex_files),
     cl_env = (\<lambda>_. \<lparr> co_os = ex_os, co_known = True, co_net = Delivered \<rparr>), cl_time = 0 \<rparr>"

lemma ex_cluster_sound: "cl_sound (ex_cluster\<lparr>cl_time := t, cl_files := f\<rparr>)" "cl_sound ex_cluster"
  by (simp_all add: cl_sound_def ex_cluster_def no_tear_def ex_os_def)

lemma ex_restore:
  assumes "hf_committed (f n) \<noteq> None"
  shows "restoreNode cluster_agent n c (ex_cluster\<lparr>cl_time := t, cl_files := f\<rparr>) =
    (None, ex_cluster\<lparr>cl_time := t + 2, cl_files := f(n := \<lparr> hf_committed = Some c, hf_pending = None, hf_running = Some c \<rparr>)\<rparr>)"
  using assms
  by (cases "f n") (auto simp: restoreNode_def cluster_agent_def cluster_StageInterfaces_def cluster_ReloadInterfaces_def
      route_def run_on_def host_StageInterfaces_def host_ReloadInterfaces_def ex_cluster_def ex_os_def Let_def)

lemma ex_restore0:
  "restoreNode cluster_agent n c ex_cluster =
    (None, ex_cluster\<lparr>cl_time := 2, cl_files := (\<lambda>_. ex_files)(n := \<lparr> hf_committed = Some c, hf_pending = None, hf_running = Some c \<rparr>)\<rparr>)"
proof -
  have "ex_cluster = ex_cluster\<lparr>cl_time := 0, cl_files := \<lambda>_. ex_files\<rparr>"
    by (simp add: ex_cluster_def)
  moreover have "hf_committed ex_files \<noteq> None"
    by (simp add: ex_files_def)
  ultimately show ?thesis using ex_restore [of "\<lambda>_. ex_files" n c 0] by simp
qed

theorem restoreNode_exact_witness:
  "cl_committed (snd (restoreNode cluster_agent ''pve2'' ''pre'' ex_cluster)) = (\<lambda>_. Some ''old'')(''pve2'' := Some ''pre'')"
proof -
  obtain w' where w': "restoreNode cluster_agent ''pve2'' ''pre'' ex_cluster = (None, w')"
    by (simp add: ex_restore0)
  have "cl_committed ex_cluster = (\<lambda>_. Some ''old'')"
    by (simp add: ex_cluster_def ex_files_def)
  with restoreNode_exact [OF w' ex_cluster_sound(2)] w' show ?thesis by simp
qed

end
