(* ===== verification/Local_Timer.thy ===== *)
theory Local_Timer
  imports Node_Agent Vnprox_Prelude
begin

text \<open>
  The node-side half of the commit-confirm protocol: \<open>LocalTimerAgent\<close>
  (\<^verbatim>\<open>src/internal/change/localtimer.go\<close>) and its table \<open>node_timers\<close> (\<^verbatim>\<open>src/internal/store/nodetimers.go\<close>).
  A node that is told to reload a changed file first arms a timer with the content to go back to;
  unless the timer is cancelled, its firing restores the node.

  The state holds the table and the timers of the running process. A timer of the process is the
  callback's arguments and its deadline. Whether a read or a write of the table succeeds is part of
  \<open>timer_env\<close>.
\<close>

section \<open>The table\<close>

datatype NodeTimerStatus = NodeTimerArmed | NodeTimerCancelled | NodeTimerRolledBack | NodeTimerRollbackFailed

record NodeTimer =
  nt_ChangesetID :: string
  nt_Node :: string
  nt_PreContent :: string
  nt_Status :: NodeTimerStatus
  nt_Error :: "agent_err option"
  nt_Deadline :: int
  nt_ArmedAt :: int
  nt_ResolvedAt :: "int option"

type_synonym timer_id = "string \<times> string"
type_synonym timer_table = "(timer_id \<times> NodeTimer) list"

datatype timer_err = ErrTimerNotFound | ErrTimerStore

definition timers_Arm :: "NodeTimer \<Rightarrow> timer_table \<Rightarrow> timer_table" where
  "timers_Arm t rows = AList.update (nt_ChangesetID t, nt_Node t)
     (t\<lparr>nt_Status := NodeTimerArmed, nt_ResolvedAt := None, nt_Error := None\<rparr>) rows"

definition timers_Resolve :: "timer_id \<Rightarrow> NodeTimerStatus \<Rightarrow> int \<Rightarrow> agent_err option \<Rightarrow> timer_table \<Rightarrow> timer_table" where
  "timers_Resolve k status resolvedAt e rows =
     (case map_of rows k of
        None \<Rightarrow> rows
      | Some t \<Rightarrow> AList.update k (t\<lparr>nt_Status := status, nt_ResolvedAt := Some resolvedAt, nt_Error := e\<rparr>) rows)"

definition timers_ListByStatus :: "NodeTimerStatus \<Rightarrow> timer_table \<Rightarrow> NodeTimer list" where
  "timers_ListByStatus status rows = sort_key nt_ArmedAt (filter (\<lambda>t. nt_Status t = status) (map snd rows))"


section \<open>The agent\<close>

record timer_env =
  te_now :: int
  te_read_ok :: bool
  te_write_ok :: bool

record timer_state =
  ts_rows :: timer_table
  ts_timers :: "string \<rightharpoonup> timer_id \<times> int"

record TimerRecord =
  tr_ChangesetID :: string
  tr_Node :: string
  tr_Status :: NodeTimerStatus
  tr_Error :: "agent_err option"
  tr_Deadline :: int
  tr_ArmedAt :: int
  tr_ResolvedAt :: int

definition timerKey :: "string \<Rightarrow> string \<Rightarrow> string" where
  "timerKey changesetID node = changesetID @ CHR 0x00 # node"

definition nodeTimerToRecord :: "NodeTimer \<Rightarrow> TimerRecord" where
  "nodeTimerToRecord t = \<lparr> tr_ChangesetID = nt_ChangesetID t, tr_Node = nt_Node t, tr_Status = nt_Status t,
     tr_Error = nt_Error t, tr_Deadline = nt_Deadline t, tr_ArmedAt = nt_ArmedAt t,
     tr_ResolvedAt = (case nt_ResolvedAt t of Some r \<Rightarrow> r | None \<Rightarrow> 0) \<rparr>"

definition get_timer :: "timer_env \<Rightarrow> timer_id \<Rightarrow> timer_state \<Rightarrow> timer_err + NodeTimer" where
  "get_timer e k s =
     (if \<not> te_read_ok e then Inl ErrTimerStore
      else case map_of (ts_rows s) k of None \<Rightarrow> Inl ErrTimerNotFound | Some t \<Rightarrow> Inr t)"

definition armRealTimerLocked :: "string \<Rightarrow> string \<Rightarrow> int \<Rightarrow> timer_state \<Rightarrow> timer_state" where
  "armRealTimerLocked c n deadline s =
     s\<lparr>ts_timers := (ts_timers s)(timerKey c n \<mapsto> ((c, n), deadline))\<rparr>"

definition ArmTimer :: "timer_env \<Rightarrow> string \<Rightarrow> string \<Rightarrow> string \<Rightarrow> int \<Rightarrow> timer_state
    \<Rightarrow> (timer_err + TimerRecord) \<times> timer_state" where
  "ArmTimer e c n content deadline s =
     (if \<not> te_write_ok e then (Inl ErrTimerStore, s)
      else let row = \<lparr> nt_ChangesetID = c, nt_Node = n, nt_PreContent = content, nt_Status = NodeTimerArmed,
                       nt_Error = None, nt_Deadline = deadline, nt_ArmedAt = te_now e, nt_ResolvedAt = None \<rparr>
           in (Inr (nodeTimerToRecord row),
               armRealTimerLocked c n deadline (s\<lparr>ts_rows := timers_Arm row (ts_rows s)\<rparr>)))"

definition CancelTimer :: "timer_env \<Rightarrow> string \<Rightarrow> string \<Rightarrow> timer_state \<Rightarrow> (timer_err + TimerRecord) \<times> timer_state" where
  "CancelTimer e c n s =
     (let s = s\<lparr>ts_timers := (ts_timers s)(timerKey c n := None)\<rparr> in
      case get_timer e (c, n) s of
        Inl err \<Rightarrow> (Inl err, s)
      | Inr row \<Rightarrow>
          if nt_Status row = NodeTimerArmed then
            if \<not> te_write_ok e then (Inl ErrTimerStore, s)
            else (Inr (nodeTimerToRecord (row\<lparr>nt_Status := NodeTimerCancelled, nt_ResolvedAt := Some (te_now e)\<rparr>)),
                  s\<lparr>ts_rows := timers_Resolve (c, n) NodeTimerCancelled (te_now e) None (ts_rows s)\<rparr>)
          else (Inr (nodeTimerToRecord row), s))"

definition TimerStatus :: "timer_env \<Rightarrow> string \<Rightarrow> string \<Rightarrow> timer_state \<Rightarrow> timer_err + TimerRecord" where
  "TimerStatus e c n s = map_sum id nodeTimerToRecord (get_timer e (c, n) s)"

text \<open>The callback of a timer; \<open>restore\<close> is the same composition as the coordinator's.\<close>

definition fire :: "timer_env \<Rightarrow> 'w node_agent \<Rightarrow> string \<Rightarrow> string \<Rightarrow> timer_state \<Rightarrow> 'w \<Rightarrow> timer_state \<times> 'w" where
  "fire e a c n s w =
     (let s = s\<lparr>ts_timers := (ts_timers s)(timerKey c n := None)\<rparr> in
      case get_timer e (c, n) s of
        Inl _ \<Rightarrow> (s, w)
      | Inr row \<Rightarrow>
          if nt_Status row \<noteq> NodeTimerArmed then (s, w)
          else case restoreNode a n (nt_PreContent row) w of
            (Some err, w) \<Rightarrow>
              (if te_write_ok e
               then s\<lparr>ts_rows := timers_Resolve (c, n) NodeTimerRollbackFailed (te_now e) (Some err) (ts_rows s)\<rparr>
               else s, w)
          | (None, w) \<Rightarrow>
              (if te_write_ok e
               then s\<lparr>ts_rows := timers_Resolve (c, n) NodeTimerRolledBack (te_now e) None (ts_rows s)\<rparr>
               else s, w))"

definition ArmPendingOnStartup :: "timer_env \<Rightarrow> timer_state \<Rightarrow> timer_err option \<times> timer_state" where
  "ArmPendingOnStartup e s =
     (if \<not> te_read_ok e then (Some ErrTimerStore, s)
      else (None, fold (\<lambda>row. armRealTimerLocked (nt_ChangesetID row) (nt_Node row) (nt_Deadline row))
                    (timers_ListByStatus NodeTimerArmed (ts_rows s)) s))"

definition StopNodeTimers :: "timer_state \<Rightarrow> timer_state" where
  "StopNodeTimers s = s\<lparr>ts_timers := Map.empty\<rparr>"


section \<open>Facts on the table\<close>

text \<open>Rows carry their own key, and a changeset id has no NUL byte (it is a ULID).\<close>

definition table_ok :: "timer_table \<Rightarrow> bool" where
  "table_ok rows \<longleftrightarrow> distinct (map fst rows) \<and>
     (\<forall>(k, t) \<in> set rows. (nt_ChangesetID t, nt_Node t) = k \<and> CHR 0x00 \<notin> set (fst k))"

lemma table_okD: "table_ok rows \<Longrightarrow> map_of rows k = Some t \<Longrightarrow> (nt_ChangesetID t, nt_Node t) = k"
  by (auto simp: table_ok_def dest: map_of_SomeD)

lemma map_of_timers_Arm:
  "map_of (timers_Arm t rows) = (map_of rows)((nt_ChangesetID t, nt_Node t) \<mapsto>
     t\<lparr>nt_Status := NodeTimerArmed, nt_ResolvedAt := None, nt_Error := None\<rparr>)"
  by (simp add: timers_Arm_def)

lemma map_of_timers_Resolve:
  "map_of (timers_Resolve k st at e rows) j =
     (if j = k then map_option (\<lambda>t. t\<lparr>nt_Status := st, nt_ResolvedAt := Some at, nt_Error := e\<rparr>) (map_of rows k)
      else map_of rows j)"
  by (auto simp: timers_Resolve_def split: option.splits)

lemma timerKey_inj:
  assumes "CHR 0x00 \<notin> set c" "CHR 0x00 \<notin> set c'" "timerKey c n = timerKey c' n'"
  shows "c = c' \<and> n = n'"
proof -
  have "takeWhile (\<lambda>x. x \<noteq> CHR 0x00) (timerKey c n) = c" "takeWhile (\<lambda>x. x \<noteq> CHR 0x00) (timerKey c' n') = c'"
    using assms(1,2) by (auto simp: timerKey_def takeWhile_append)
  with assms(3) have "c = c'" by simp
  with assms(3) show ?thesis by (simp add: timerKey_def)
qed

lemma fold_arm_rows [simp]:
  "ts_rows (fold (\<lambda>row. armRealTimerLocked (nt_ChangesetID row) (nt_Node row) (nt_Deadline row)) rows s) = ts_rows s"
  by (induction rows arbitrary: s) (simp_all add: armRealTimerLocked_def)

text \<open>Arming rows with distinct keys leaves each of them armed.\<close>

lemma fold_arm_timers:
  assumes "t \<in> set rows"
    and "\<And>u. u \<in> set rows \<Longrightarrow> timerKey (nt_ChangesetID u) (nt_Node u) = timerKey (nt_ChangesetID t) (nt_Node t) \<Longrightarrow> u = t"
  shows "ts_timers (fold (\<lambda>row. armRealTimerLocked (nt_ChangesetID row) (nt_Node row) (nt_Deadline row)) rows s)
      (timerKey (nt_ChangesetID t) (nt_Node t)) = Some ((nt_ChangesetID t, nt_Node t), nt_Deadline t)"
  using assms
proof (induction rows arbitrary: s rule: rev_induct)
  case (snoc u rows)
  show ?case
  proof (cases "u = t")
    case False
    then have "t \<in> set rows" "timerKey (nt_ChangesetID u) (nt_Node u) \<noteq> timerKey (nt_ChangesetID t) (nt_Node t)"
      using snoc.prems by auto
    with snoc.IH snoc.prems(2) show ?thesis by (simp add: armRealTimerLocked_def)
  qed (simp add: armRealTimerLocked_def)
qed simp

lemma set_ListByStatus: "set (timers_ListByStatus st rows) = {t \<in> snd ` set rows. nt_Status t = st}"
  by (auto simp: timers_ListByStatus_def)

lemma armed_row_rearmed:
  assumes "table_ok (ts_rows s)"
    and "map_of (ts_rows s) (c, n) = Some t" "nt_Status t = NodeTimerArmed"
    and "ArmPendingOnStartup e s = (None, s')"
  shows "ts_rows s' = ts_rows s \<and> ts_timers s' (timerKey c n) = Some ((c, n), nt_Deadline t)"
proof -
  have k: "(nt_ChangesetID t, nt_Node t) = (c, n)" by (rule table_okD [OF assms(1,2)])
  let ?rows = "timers_ListByStatus NodeTimerArmed (ts_rows s)"
  have t: "t \<in> set ?rows"
    using assms(2,3) by (force simp: set_ListByStatus dest: map_of_SomeD)
  have key: "map_of (ts_rows s) (nt_ChangesetID u, nt_Node u) = Some u \<and> CHR 0x00 \<notin> set (nt_ChangesetID u)"
    if "u \<in> set ?rows" for u
    using that assms(1) by (force simp: set_ListByStatus table_ok_def)
  have same: "u = t" if "u \<in> set ?rows" "timerKey (nt_ChangesetID u) (nt_Node u) = timerKey (nt_ChangesetID t) (nt_Node t)" for u
  proof -
    have "nt_ChangesetID u = nt_ChangesetID t \<and> nt_Node u = nt_Node t"
      by (rule timerKey_inj [OF _ _ that(2)]) (rule conjunct2 [OF key], rule that(1), rule conjunct2 [OF key], rule t)
    with conjunct1 [OF key [OF that(1)]] conjunct1 [OF key [OF t]] show ?thesis by (metis option.inject)
  qed
  note timers = fold_arm_timers [OF t same, of s]
  have "s' = fold (\<lambda>row. armRealTimerLocked (nt_ChangesetID row) (nt_Node row) (nt_Deadline row)) ?rows s"
    using assms(4) by (simp add: ArmPendingOnStartup_def split: if_splits)
  then show ?thesis using timers k by simp
qed


section \<open>Firing\<close>

lemma fire_armed:
  assumes "map_of (ts_rows s) (c, n) = Some t" "nt_Status t = NodeTimerArmed" "te_read_ok e" "te_write_ok e"
    and "fire e a c n s w = (s', w')" and "restoreNode a n (nt_PreContent t) w = (r, w1)"
  shows "w' = w1 \<and> map_option nt_Status (map_of (ts_rows s') (c, n)) =
    Some (if r = None then NodeTimerRolledBack else NodeTimerRollbackFailed)"
  using assms by (cases r) (auto simp: fire_def Let_def get_timer_def map_of_timers_Resolve)

lemma fire_resolved:
  assumes "map_of (ts_rows s) (c, n) = Some t" "nt_Status t \<noteq> NodeTimerArmed"
  shows "fire e a c n s w = (s\<lparr>ts_timers := (ts_timers s)(timerKey c n := None)\<rparr>, w)"
  using assms by (auto simp: fire_def Let_def get_timer_def)

lemma CancelTimer_resolves:
  assumes "CancelTimer e c n s = (Inr r, s')"
  shows "\<exists>t. map_of (ts_rows s') (c, n) = Some t \<and> nt_Status t \<noteq> NodeTimerArmed"
  using assms by (auto simp: CancelTimer_def Let_def get_timer_def map_of_timers_Resolve split: if_splits option.splits)

lemma CancelTimer_total:
  assumes "map_of (ts_rows s) (c, n) \<noteq> None" "te_read_ok e" "te_write_ok e"
  shows "\<exists>r s'. CancelTimer e c n s = (Inr r, s')"
proof -
  obtain t where "map_of (ts_rows s) (c, n) = Some t" using assms(1) by blast
  with assms(2,3) show ?thesis
    by (cases "nt_Status t = NodeTimerArmed") (simp_all add: CancelTimer_def get_timer_def Let_def)
qed

text \<open>
  Everything that can happen on a node between two calls for the timer \<open>k\<close>: other timers are armed
  or cancelled, timers fire, the daemon restarts, and others change the node.
\<close>

inductive tstep :: "'w node_agent \<Rightarrow> timer_id \<Rightarrow> timer_state \<times> 'w \<Rightarrow> timer_state \<times> 'w \<Rightarrow> bool"
  for a :: "'w node_agent" and k :: timer_id where
  arm: "(c, n) \<noteq> k \<Longrightarrow> ArmTimer e c n content d s = (r, s') \<Longrightarrow> tstep a k (s, w) (s', w)"
| cancel: "CancelTimer e c n s = (r, s') \<Longrightarrow> tstep a k (s, w) (s', w)"
| fire: "fire e a c n s w = (s', w') \<Longrightarrow> tstep a k (s, w) (s', w')"
| restart: "ArmPendingOnStartup e (StopNodeTimers s) = (r, s') \<Longrightarrow> tstep a k (s, w) (s', w)"
| others: "tstep a k (s, w) (s, w')"

definition resolved :: "timer_id \<Rightarrow> timer_state \<times> 'w \<Rightarrow> bool" where
  "resolved k sw \<longleftrightarrow> (\<exists>t. map_of (ts_rows (fst sw)) k = Some t \<and> nt_Status t \<noteq> NodeTimerArmed)"

lemma CancelTimer_keeps:
  assumes "CancelTimer e c n s = (r, s')" "map_of (ts_rows s) k = Some t" "nt_Status t \<noteq> NodeTimerArmed"
  shows "map_of (ts_rows s') k = Some t"
  using assms by (auto simp: CancelTimer_def Let_def get_timer_def map_of_timers_Resolve split: if_splits option.splits)

lemma fire_keeps:
  assumes "fire e a c n s w = (s', w')" "map_of (ts_rows s) k = Some t" "nt_Status t \<noteq> NodeTimerArmed"
  shows "map_of (ts_rows s') k = Some t"
  using assms by (auto simp: fire_def Let_def get_timer_def map_of_timers_Resolve split: if_splits option.splits prod.splits)

interpretation timer_resolved: transition_system "tstep a k" "resolved k" for a k
proof
  fix x y :: "timer_state \<times> 'a"
  assume "tstep a k x y" "resolved k x"
  then show "resolved k y"
  proof (induction rule: tstep.induct)
    case (arm c n e content d s r s' w)
    then show ?case
      by (auto simp: resolved_def ArmTimer_def armRealTimerLocked_def map_of_timers_Arm Let_def split: if_splits)
  next
    case (restart e s r s' w)
    then show ?case by (auto simp: resolved_def ArmPendingOnStartup_def StopNodeTimers_def split: if_splits)
  qed (auto simp: resolved_def intro: CancelTimer_keeps fire_keeps)
qed


section \<open>Properties\<close>

text \<open>
  A cancelled timer never touches its node again: once a cancellation has succeeded, whatever else
  happens on the node short of arming the same timer anew (other timers, restarts, other changes),
  its callback leaves the node as it is.
\<close>

theorem cancelled_timer_harmless:
  assumes "CancelTimer e c n s = (Inr r, s1)" "(tstep a (c, n))\<^sup>*\<^sup>* (s1, w1) (s2, w2)"
  shows "snd (fire e' a c n s2 w2) = w2"
proof -
  have "resolved (c, n) (s1, w1)"
    using CancelTimer_resolves [OF assms(1)] by (simp add: resolved_def)
  from timer_resolved.reach_inv [OF assms(2) this]
  obtain t where "map_of (ts_rows s2) (c, n) = Some t" "nt_Status t \<noteq> NodeTimerArmed"
    by (auto simp: resolved_def)
  then show ?thesis by (simp add: fire_resolved)
qed

definition ex_te :: timer_env where
  "ex_te = \<lparr> te_now = 100, te_read_ok = True, te_write_ok = True \<rparr>"

definition ex_armed :: timer_state where
  "ex_armed = snd (ArmTimer ex_te ''cs1'' ''pve2'' ''pre'' 220 \<lparr> ts_rows = [], ts_timers = Map.empty \<rparr>)"

definition ex_timer :: NodeTimer where
  "ex_timer = \<lparr> nt_ChangesetID = ''cs1'', nt_Node = ''pve2'', nt_PreContent = ''pre'',
     nt_Status = NodeTimerArmed, nt_Error = None, nt_Deadline = 220, nt_ArmedAt = 100, nt_ResolvedAt = None \<rparr>"

lemma ex_armed_rows: "ts_rows ex_armed = [((''cs1'', ''pve2''), ex_timer)]"
  by (simp add: ex_timer_def ex_armed_def ArmTimer_def ex_te_def timers_Arm_def armRealTimerLocked_def Let_def)

theorem cancelled_timer_harmless_witness:
  "snd (fire ex_te cluster_agent ''cs1'' ''pve2'' (snd (CancelTimer ex_te ''cs1'' ''pve2'' ex_armed)) ex_cluster) = ex_cluster"
proof -
  obtain r where "CancelTimer ex_te ''cs1'' ''pve2'' ex_armed = (Inr r, snd (CancelTimer ex_te ''cs1'' ''pve2'' ex_armed))"
    by (simp add: CancelTimer_def get_timer_def ex_te_def Let_def ex_armed_rows ex_timer_def)
  from cancelled_timer_harmless [OF this rtranclp.rtrancl_refl] show ?thesis .
qed

text \<open>
  C31. An armed timer survives a restart and then does its work: the restarted daemon arms it again with
  its old deadline, and when it fires, on a cluster where the restore goes through, the node is back
  at its content from before the apply and the table says so.
\<close>

theorem armed_timer_restores:
  assumes "table_ok (ts_rows s)"
    and "map_of (ts_rows s) (c, n) = Some t" "nt_Status t = NodeTimerArmed"
    and "te_read_ok e" "te_read_ok e'" "te_write_ok e'"
    and "restoreNode cluster_agent n (nt_PreContent t) w = (None, w1)" "cl_sound w"
  shows "\<exists>s' s'' w'. ArmPendingOnStartup e (StopNodeTimers s) = (None, s') \<and>
    ts_timers s' (timerKey c n) = Some ((c, n), nt_Deadline t) \<and>
    fire e' cluster_agent c n s' w = (s'', w') \<and>
    cl_committed w' = (cl_committed w)(n := Some (nt_PreContent t)) \<and>
    map_option nt_Status (map_of (ts_rows s'') (c, n)) = Some NodeTimerRolledBack"
proof -
  let ?s = "StopNodeTimers s"
  have rows: "ts_rows ?s = ts_rows s" by (simp add: StopNodeTimers_def)
  obtain s' where s': "ArmPendingOnStartup e ?s = (None, s')"
    using assms(4) by (simp add: ArmPendingOnStartup_def)
  have armed: "ts_rows s' = ts_rows s" "ts_timers s' (timerKey c n) = Some ((c, n), nt_Deadline t)"
    using armed_row_rearmed [of ?s c n t e s'] assms(1-3) s' rows by simp_all
  obtain s'' w' where f: "fire e' cluster_agent c n s' w = (s'', w')" by fastforce
  have "w' = w1 \<and> map_option nt_Status (map_of (ts_rows s'') (c, n)) = Some NodeTimerRolledBack"
    using fire_armed [OF _ assms(3) assms(5) assms(6) f assms(7)] assms(2) armed(1) by simp
  moreover have "cl_committed w1 = (cl_committed w)(n := Some (nt_PreContent t))"
    using cluster.restoreNode_law [OF assms(7,8)] by simp
  ultimately show ?thesis using s' armed(2) f by blast
qed

theorem armed_timer_restores_witness:
  "\<exists>s' s'' w'. ArmPendingOnStartup ex_te (StopNodeTimers ex_armed) = (None, s') \<and>
    fire ex_te cluster_agent ''cs1'' ''pve2'' s' ex_cluster = (s'', w') \<and>
    cl_committed w' ''pve2'' = Some ''pre''"
proof -
  obtain w1 where w1: "restoreNode cluster_agent ''pve2'' (nt_PreContent ex_timer) ex_cluster = (None, w1)"
    by (simp add: ex_restore0)
  have "table_ok (ts_rows ex_armed)" "map_of (ts_rows ex_armed) (''cs1'', ''pve2'') = Some ex_timer"
    by (simp_all add: ex_armed_rows table_ok_def ex_timer_def)
  note r = armed_timer_restores [OF this _ _ _ _ w1 ex_cluster_sound(2), of ex_te ex_te]
  have "\<exists>s' s'' w'. ArmPendingOnStartup ex_te (StopNodeTimers ex_armed) = (None, s') \<and>
    ts_timers s' (timerKey ''cs1'' ''pve2'') = Some ((''cs1'', ''pve2''), nt_Deadline ex_timer) \<and>
    fire ex_te cluster_agent ''cs1'' ''pve2'' s' ex_cluster = (s'', w') \<and>
    cl_committed w' = (cl_committed ex_cluster)(''pve2'' := Some (nt_PreContent ex_timer)) \<and>
    map_option nt_Status (map_of (ts_rows s'') (''cs1'', ''pve2'')) = Some NodeTimerRolledBack"
    by (rule r) (simp_all add: ex_te_def ex_timer_def)
  moreover have "nt_PreContent ex_timer = ''pre''" by (simp add: ex_timer_def)
  ultimately show ?thesis by (auto dest: fun_cong [where x = "''pve2''"])
qed

text \<open>
  Every timer is on its own: a timer that is still armed restores its content even after the node
  has since been given a newer configuration under another changeset whose own timer was cancelled,
  that is, confirmed. Nothing in the node's timer table relates the two.
\<close>

theorem stale_timer_reverts_newer:
  assumes "map_of (ts_rows s) (c, n) = Some t" "nt_Status t = NodeTimerArmed" "c' \<noteq> c"
    and "ArmTimer e c' n old d s = (Inr r1, s1)"
    and "restoreNode cluster_agent n newer w = (None, w1)" "cl_sound w"
    and "CancelTimer e c' n s1 = (Inr r2, s2)"
    and "te_read_ok e'" "te_write_ok e'"
    and "restoreNode cluster_agent n (nt_PreContent t) w1 = (None, w2)"
  shows "cl_committed w1 n = Some newer \<and>
    cl_committed (snd (fire e' cluster_agent c n s2 w1)) n = Some (nt_PreContent t)"
proof -
  have "map_of (ts_rows s1) (c, n) = Some t"
    using assms(1,3,4) by (auto simp: ArmTimer_def armRealTimerLocked_def map_of_timers_Arm Let_def split: if_splits)
  then have "map_of (ts_rows s2) (c, n) = Some t"
    using assms(3,7)
    by (auto simp: CancelTimer_def Let_def get_timer_def map_of_timers_Resolve split: if_splits option.splits)
  moreover obtain s3 w3 where f: "fire e' cluster_agent c n s2 w1 = (s3, w3)" by fastforce
  ultimately have "w3 = w2"
    using fire_armed [OF _ assms(2,8,9) f assms(10)] by blast
  moreover have "cl_committed w1 n = Some newer" "cl_sound w1"
    using cluster.restoreNode_law [OF assms(5,6)] by (auto dest: fun_cong [where x = n])
  moreover have "cl_committed w2 n = Some (nt_PreContent t)"
    using cluster.restoreNode_law [OF assms(10) \<open>cl_sound w1\<close>] by (auto dest: fun_cong [where x = n])
  ultimately show ?thesis using f by simp
qed


theorem stale_timer_reverts_newer_witness:
  "\<exists>w1 s2. cl_committed w1 ''pve2'' = Some ''newer'' \<and>
    cl_committed (snd (fire ex_te cluster_agent ''cs1'' ''pve2'' s2 w1)) ''pve2'' = Some ''pre''"
proof -
  obtain r1 s1 where a: "ArmTimer ex_te ''cs2'' ''pve2'' ''pre'' 400 ex_armed = (Inr r1, s1)"
    by (simp add: ArmTimer_def ex_te_def Let_def)
  then have "map_of (ts_rows s1) (''cs2'', ''pve2'') \<noteq> None"
    by (auto simp: ArmTimer_def ex_te_def Let_def armRealTimerLocked_def map_of_timers_Arm)
  then obtain r2 s2 where c: "CancelTimer ex_te ''cs2'' ''pve2'' s1 = (Inr r2, s2)"
    using CancelTimer_total [of s1 "''cs2''" "''pve2''" ex_te] by (auto simp: ex_te_def)
  let ?f = "(\<lambda>_. ex_files)(''pve2'' := \<lparr> hf_committed = Some ''newer'', hf_pending = None, hf_running = Some ''newer'' \<rparr>)"
  let ?w1 = "ex_cluster\<lparr>cl_time := 2, cl_files := ?f\<rparr>"
  have w1: "restoreNode cluster_agent ''pve2'' ''newer'' ex_cluster = (None, ?w1)"
    by (rule ex_restore0)
  obtain w2 where w2: "restoreNode cluster_agent ''pve2'' (nt_PreContent ex_timer) ?w1 = (None, w2)"
    using ex_restore [of ?f "''pve2''" "nt_PreContent ex_timer" 2] by simp
  have m: "map_of (ts_rows ex_armed) (''cs1'', ''pve2'') = Some ex_timer" "nt_Status ex_timer = NodeTimerArmed"
    by (simp_all add: ex_armed_rows ex_timer_def)
  have pre: "nt_PreContent ex_timer = ''pre''" by (simp add: ex_timer_def)
  have "cl_committed ?w1 ''pve2'' = Some ''newer'' \<and>
      cl_committed (snd (fire ex_te cluster_agent ''cs1'' ''pve2'' s2 ?w1)) ''pve2'' = Some (nt_PreContent ex_timer)"
    by (rule stale_timer_reverts_newer [OF m _ a w1 ex_cluster_sound(2) c _ _ w2]) (simp_all add: ex_te_def)
  then show ?thesis unfolding pre by blast
qed

end
