(* ===== verification/Apply_Exec.thy ===== *)
theory Apply_Exec
  imports Apply_Plan Local_Timer
begin

text \<open>
  The executor of \<^verbatim>\<open>src/internal/change/apply_exec.go\<close>: it runs the steps of a plan in order, keeps the
  apply log, and rolls back what completed when a step fails. The pre-apply snapshot it restores from
  is captured by \<open>captureSnapshotFull\<close> (\<^verbatim>\<open>apply_snapshot.go\<close>), the SDN part by \<open>restoreSDN\<close>
  (\<^verbatim>\<open>apply_sdn.go\<close>).

  The outside is in two parts: the nodes \<open>'w\<close>, changed only through the node agent and the node timers,
  and everything else \<open>'r\<close> (the Proxmox API, traffic shaping, mirrors, tunnels, switches), changed only
  through the gateways of the record \<open>exec_env\<close>. An SDN configuration is kept in its encoded form.
  Timestamps of the log are left out.
\<close>

section \<open>The apply log\<close>

datatype StepStatus = StepPending | StepOK | StepFailed | StepSkipped | StepRolledBack

datatype exec_err =
    XAgent agent_err
  | XGateway string
  | XNoGateway StepKind
  | XOpCount nat
  | XArm string exec_err
  | XUnhealthy string string
  | XParams
  | XTarget string
  | XSubnet Ref
  | XFwPosition Ref int
  | XFwCompile string string
  | XSnapshot string
  | XMany "string list"
  | XNoUndo string

record StepLog =
  sl_Kind :: StepKind
  sl_Node :: string
  sl_Summary :: string
  sl_Status :: StepStatus
  sl_Error :: "exec_err option"
  sl_TaskUPID :: string
  sl_Index :: nat

record RollbackLog =
  rb_Node :: string
  rb_Summary :: string
  rb_Status :: StepStatus
  rb_Error :: "exec_err option"

text \<open>How the coordinator knows a node's timer: as the node reported it, or not at all.\<close>

datatype NodeTimerState = TimerIs NodeTimerStatus | TimerUnknown

datatype timer_call_err = TStore timer_err | TPeer agent_err

record NodeTimerLog =
  nl_Node :: string
  nl_Status :: NodeTimerState
  nl_Error :: "timer_call_err option"
  nl_Deadline :: int
  nl_ResolvedAt :: int

record AutoRollbackTrigger =
  at_FindingID :: string
  at_Check :: string
  at_Severity :: string
  at_Detail :: string
  at_Findings :: "string list"
  at_Nodes :: "string list"
  at_Refs :: "string list"
  at_At :: int

record ApplyLog =
  al_FailedStep :: "nat option"
  al_Steps :: "StepLog list"
  al_Rollback :: "RollbackLog list"
  al_RolledBackBy :: string
  al_AutoRollback :: "AutoRollbackTrigger option"
  al_NodeTimers :: "NodeTimerLog list"

definition empty_log :: ApplyLog where
  "empty_log = \<lparr> al_FailedStep = None, al_Steps = [], al_Rollback = [], al_RolledBackBy = [],
     al_AutoRollback = None, al_NodeTimers = [] \<rparr>"

text \<open>The last entry for a node is the one its index points to.\<close>

definition merge_one :: "NodeTimerLog \<Rightarrow> NodeTimerLog list \<Rightarrow> NodeTimerLog list" where
  "merge_one u out =
     (case find (\<lambda>i. nl_Node (out ! i) = nl_Node u) (rev [0..<length out]) of
        Some i \<Rightarrow> out[i := u]
      | None \<Rightarrow> out @ [u])"

definition mergeNodeTimerLogs :: "NodeTimerLog list \<Rightarrow> NodeTimerLog list \<Rightarrow> NodeTimerLog list" where
  "mergeNodeTimerLogs existing updates = fold merge_one updates existing"

definition rollback_entry :: "string \<Rightarrow> string \<Rightarrow> exec_err option \<Rightarrow> RollbackLog" where
  "rollback_entry node summary e =
     \<lparr> rb_Node = node, rb_Summary = summary, rb_Status = (if e = None then StepOK else StepFailed), rb_Error = e \<rparr>"


section \<open>Gateways\<close>

type_synonym 'r call = "'r \<Rightarrow> exec_err option \<times> 'r"

record SDNNodeHealth =
  snh_Node :: string
  snh_Status :: string

record SDNApplyResult =
  sar_UPID :: string
  sar_Node :: string
  sar_Zones :: "(string \<times> SDNNodeHealth list) list"

definition firstUnhealthy :: "SDNApplyResult \<Rightarrow> (string \<times> SDNNodeHealth) option" where
  "firstUnhealthy r =
     (case filter (\<lambda>(z, n). snh_Status n \<noteq> ''ok'')
             (concat (map (\<lambda>(z, ns). map (Pair z) ns) (sar_Zones r))) of
        [] \<Rightarrow> None
      | x # _ \<Rightarrow> Some x)"

record ('q, 'r) pve_gateway =
  pg_SDNConfig :: "'r \<Rightarrow> (exec_err + string) \<times> 'r"
  pg_SDNStageOp :: "'q plan_op \<Rightarrow> string \<Rightarrow> 'r call"
  pg_ApplySDN :: "string list \<Rightarrow> 'r \<Rightarrow> (SDNApplyResult \<times> exec_err option) \<times> 'r"
  pg_AllocateIPAMAddress :: "string \<Rightarrow> string \<Rightarrow> IpamAllocCreateParams \<Rightarrow> 'r call"
  pg_ReleaseIPAMAddress :: "string \<Rightarrow> string \<Rightarrow> string \<Rightarrow> 'r call"
  pg_SnapshotFirewallScope :: "Ref \<Rightarrow> 'r \<Rightarrow> (exec_err + string) \<times> 'r"
  pg_FirewallRuleFields :: "Ref \<Rightarrow> int \<Rightarrow> 'r \<Rightarrow> (exec_err + FwRuleFields) \<times> 'r"
  pg_ApplyFwOp :: "'q plan_op \<Rightarrow> 'r call"
  pg_FirewallCompileStatus :: "string \<Rightarrow> 'r \<Rightarrow> (exec_err + bool \<times> string) \<times> 'r"
  pg_RestoreFirewallScope :: "Ref \<Rightarrow> string \<Rightarrow> 'r call"

text \<open>The daemon-level gateways for shaping, mirrors, tunnels and switch ports share their shape.\<close>

record ('q, 'r) op_gateway =
  og_Snapshot :: "string \<Rightarrow> 'r \<Rightarrow> (exec_err + string) \<times> 'r"
  og_Apply :: "'q plan_op \<Rightarrow> 'r call"
  og_Restore :: "string \<Rightarrow> string \<Rightarrow> 'r call"

record ('q, 'w, 'r) exec_env =
  xe_agent :: "'w node_agent"
  xe_ArmTimer :: "(string \<Rightarrow> string \<Rightarrow> string \<Rightarrow> int \<Rightarrow> 'w \<Rightarrow> exec_err option \<times> 'w) option"
  xe_pve :: "('q, 'r) pve_gateway option"
  xe_qos :: "('q, 'r) op_gateway option"
  xe_tcMirror :: "('q, 'r) op_gateway option"
  xe_wg :: "('q, 'r) op_gateway option"
  xe_switches :: "('q, 'r) op_gateway option"
  xe_inventory :: InvSnapshot
  xe_computeStagedFile :: "string \<Rightarrow> string \<Rightarrow> nat list \<Rightarrow> exec_err + string"
  xe_sdnRestoreOps :: "string \<Rightarrow> string \<Rightarrow> ('q plan_op \<times> string \<times> string) list"
  xe_zoneIDsOf :: "string \<Rightarrow> string list"
  xe_errText :: "exec_err \<Rightarrow> string"
  xe_store_ok :: bool


section \<open>The executor\<close>

text \<open>The decoded pre-apply snapshot. A missing file of a kind is \<open>None\<close>.\<close>

record pre_snapshot =
  ps_files :: "(string \<times> string) list"
  ps_sdn :: "string option"
  ps_fw :: "(string \<times> string) list option"
  ps_qos :: "(string \<times> string) list option"
  ps_tcMirror :: "(string \<times> string) list option"
  ps_wg :: "(string \<times> string) list option"
  ps_switch :: "(string \<times> string) list option"

record 'q executor =
  ex_csID :: string
  ex_Ops :: "'q plan_op list"
  ex_plan :: Plan
  ex_pre :: "string \<rightharpoonup> string"
  ex_sdnPre :: "string option"
  ex_fwPre :: "string \<rightharpoonup> string"
  ex_qosPre :: "(string \<times> string) list option"
  ex_tcMirrorPre :: "(string \<times> string) list option"
  ex_wgPre :: "(string \<times> string) list option"
  ex_switchPre :: "(string \<times> string) list option"
  ex_loadIx :: "string \<rightharpoonup> nat"
  ex_rollbackNodes :: "string list"
  ex_deadline :: int
  ex_log :: ApplyLog

definition pre_content :: "'q executor \<Rightarrow> string \<Rightarrow> string" where
  "pre_content e node = (case ex_pre e node of Some c \<Rightarrow> c | None \<Rightarrow> [])"

definition pending_log :: "Plan \<Rightarrow> StepLog list" where
  "pending_log plan = map (\<lambda>(i, st). \<lparr> sl_Kind = st_Kind st, sl_Node = st_Node st, sl_Summary = st_Summary st,
     sl_Status = StepPending, sl_Error = None, sl_TaskUPID = [], sl_Index = i \<rparr>) (enumerate 0 plan)"

definition newExecutor :: "string \<Rightarrow> 'q plan_op list \<Rightarrow> Plan \<Rightarrow> pre_snapshot \<Rightarrow> int \<Rightarrow> 'q executor" where
  "newExecutor csID ops plan pre deadline =
     \<lparr> ex_csID = csID, ex_Ops = ops, ex_plan = plan,
       ex_pre = map_of (rev (filter (\<lambda>(n, c). n \<noteq> []) (ps_files pre))),
       ex_sdnPre = ps_sdn pre,
       ex_fwPre = (case ps_fw pre of Some m \<Rightarrow> map_of m | None \<Rightarrow> Map.empty),
       ex_qosPre = ps_qos pre, ex_tcMirrorPre = ps_tcMirror pre, ex_wgPre = ps_wg pre,
       ex_switchPre = ps_switch pre,
       ex_loadIx = map_of (rev (map (\<lambda>(i, st). (st_Node st, i))
                     (filter (\<lambda>(i, st). st_Kind st = StepReload) (enumerate 0 plan)))),
       ex_rollbackNodes = affectedNodes plan,
       ex_deadline = deadline,
       ex_log = empty_log\<lparr>al_Steps := pending_log plan\<rparr> \<rparr>"

text \<open>Taking over the log of an earlier stage.\<close>

definition seedLog :: "ApplyLog \<Rightarrow> 'q executor \<Rightarrow> 'q executor" where
  "seedLog prev e =
     e\<lparr>ex_log := (ex_log e)\<lparr>
         al_Steps := map (\<lambda>(i, s). if i < length (al_Steps prev) \<and> sl_Status (al_Steps prev ! i) \<noteq> StepPending
                                 then al_Steps prev ! i else s) (enumerate 0 (al_Steps (ex_log e))),
         al_Rollback := al_Rollback (ex_log e) @ al_Rollback prev,
         al_NodeTimers := mergeNodeTimerLogs (al_NodeTimers (ex_log e)) (al_NodeTimers prev)\<rparr>\<rparr>"

definition upd_step :: "nat \<Rightarrow> (StepLog \<Rightarrow> StepLog) \<Rightarrow> 'q executor \<Rightarrow> 'q executor" where
  "upd_step i f e =
     e\<lparr>ex_log := (ex_log e)\<lparr>al_Steps := (al_Steps (ex_log e))[i := f (al_Steps (ex_log e) ! i)]\<rparr>\<rparr>"

definition add_rollback :: "RollbackLog list \<Rightarrow> 'q executor \<Rightarrow> 'q executor" where
  "add_rollback rbs e = e\<lparr>ex_log := (ex_log e)\<lparr>al_Rollback := al_Rollback (ex_log e) @ rbs\<rparr>\<rparr>"


subsection \<open>Steps\<close>

definition zoneFromVnetID :: "string \<Rightarrow> string" where
  "zoneFromVnetID v = (if CHR ''/'' \<in> set v then takeWhile (\<lambda>c. c \<noteq> CHR ''/'') v else [])"

definition sdn_direct_zone :: "'q plan_op \<Rightarrow> string" where
  "sdn_direct_zone op =
     (case op_Params op of
        POther PSdnZoneCreate \<Rightarrow> ref_ID (op_Target op)
      | POther PSdnZoneUpdate \<Rightarrow> ref_ID (op_Target op)
      | POther PSdnZoneDelete \<Rightarrow> ref_ID (op_Target op)
      | POther (PSdnVnetCreate z) \<Rightarrow> z
      | POther PSdnVnetUpdate \<Rightarrow> zoneFromVnetID (ref_ID (op_Target op))
      | POther PSdnVnetDelete \<Rightarrow> zoneFromVnetID (ref_ID (op_Target op))
      | _ \<Rightarrow> [])"

definition vnet_zones :: "'q plan_op list \<Rightarrow> string \<rightharpoonup> string" where
  "vnet_zones ops = map_of (rev (List.map_filter (\<lambda>op.
     case op_Params op of POther (PSdnVnetCreate z) \<Rightarrow> Some (ref_ID (op_Target op), z) | _ \<Rightarrow> None) ops))"

definition sdn_subnet_zone :: "(string \<rightharpoonup> string) \<Rightarrow> 'q plan_op \<Rightarrow> string" where
  "sdn_subnet_zone vz op =
     (case op_Params op of
        POther (PSdnSubnetCreate v) \<Rightarrow> (case vz v of Some z \<Rightarrow> z | None \<Rightarrow> zoneFromVnetID v)
      | _ \<Rightarrow> [])"

definition sdnAffectedZones :: "'q plan_op list \<Rightarrow> string list" where
  "sdnAffectedZones ops =
     sort (first_seen (filter (\<lambda>z. z \<noteq> [])
       (map sdn_direct_zone ops @ map (sdn_subnet_zone (vnet_zones ops)) ops)))"

definition resolveSubnetVnet :: "'q plan_op list \<Rightarrow> nat \<Rightarrow> InvSnapshot \<Rightarrow> string \<Rightarrow> string" where
  "resolveSubnetVnet ops uptoIdx snap cidr =
     (case List.map_filter (\<lambda>op. case op_Params op of
              POther (PSdnSubnetCreate v) \<Rightarrow> if ref_ID (op_Target op) = cidr then Some v else None
            | _ \<Rightarrow> None) (take uptoIdx ops) of
        v # _ \<Rightarrow> v
      | [] \<Rightarrow>
          (case Snapshot_Get snap (mkRef KindSDNSubnet [] cidr) of
             Some (ESdnSubnet s) \<Rightarrow> sub_Vnet s
           | _ \<Rightarrow> []))"

definition subnetVnet :: "InvSnapshot \<Rightarrow> Ref \<Rightarrow> exec_err + string" where
  "subnetVnet snap r =
     (case Snapshot_Get snap r of Some (ESdnSubnet s) \<Rightarrow> Inr (sub_Vnet s) | _ \<Rightarrow> Inl (XSubnet r))"

text \<open>One op through one of the daemon-level gateways.\<close>

definition exec_one :: "StepKind \<Rightarrow> ('q, 'r) op_gateway option \<Rightarrow> 'q plan_op list \<Rightarrow> Step \<Rightarrow> 'r call" where
  "exec_one k gw ops st r =
     (case gw of None \<Rightarrow> (Some (XNoGateway k), r)
      | Some g \<Rightarrow>
          if length (st_OpIdx st) \<noteq> 1 then (Some (XOpCount (length (st_OpIdx st))), r)
          else og_Apply g (ops ! hd (st_OpIdx st)) r)"

definition execIpamAlloc :: "('q, 'r) pve_gateway \<Rightarrow> InvSnapshot \<Rightarrow> 'q plan_op list \<Rightarrow> Step \<Rightarrow> 'r call" where
  "execIpamAlloc g snap ops st r =
     (let op = ops ! hd (st_OpIdx st) in
      case subnetVnet snap (op_Target op) of Inl e \<Rightarrow> (Some e, r)
      | Inr vnet \<Rightarrow>
          (case op_Params op of
             POther (PIpamAllocCreate p) \<Rightarrow> pg_AllocateIPAMAddress g vnet (ref_ID (op_Target op)) p r
           | POther (PIpamAllocDelete p) \<Rightarrow> pg_ReleaseIPAMAddress g vnet (ref_ID (op_Target op)) (iad_CIDR p) r
           | _ \<Rightarrow> (Some XParams, r)))"

definition fw_expected :: "'q plan_op \<Rightarrow> (int \<times> FwRuleFields) option" where
  "fw_expected op =
     (case op_Params op of
        POther (PFwRuleMove m) \<Rightarrow> (case frm_Expect m of Some f \<Rightarrow> Some (frm_FromPos m, f) | None \<Rightarrow> None)
      | _ \<Rightarrow> None)"

fun exec_fw_ops :: "('q, 'r) pve_gateway \<Rightarrow> Ref \<Rightarrow> 'q plan_op list \<Rightarrow> 'r call" where
  "exec_fw_ops g target [] r = (None, r)"
| "exec_fw_ops g target (op # ops) r =
     (case (case fw_expected op of None \<Rightarrow> (None, r)
            | Some (pos, expect) \<Rightarrow>
                (case pg_FirewallRuleFields g target pos r of
                   (Inl e, r) \<Rightarrow> (Some e, r)
                 | (Inr live, r) \<Rightarrow> (if live = expect then None else Some (XFwPosition target pos), r))) of
        (Some e, r) \<Rightarrow> (Some e, r)
      | (None, r) \<Rightarrow>
          (case pg_ApplyFwOp g op r of (Some e, r) \<Rightarrow> (Some e, r) | (None, r) \<Rightarrow> exec_fw_ops g target ops r))"

definition execFwApply :: "('q, 'r) pve_gateway option \<Rightarrow> Step \<Rightarrow> 'q executor \<Rightarrow> 'r \<Rightarrow> exec_err option \<times> 'q executor \<times> 'r" where
  "execFwApply pve st e r =
     (case pve of None \<Rightarrow> (Some (XNoGateway StepFwApply), e, r)
      | Some g \<Rightarrow>
      case ParseRef (st_Target st) of Inl _ \<Rightarrow> (Some (XTarget (st_Target st)), e, r)
      | Inr target \<Rightarrow>
      case (if ex_fwPre e (st_Target st) \<noteq> None then (None, e, r)
            else case pg_SnapshotFirewallScope g target r of
              (Inl err, r) \<Rightarrow> (Some err, e, r)
            | (Inr pre, r) \<Rightarrow> (None, e\<lparr>ex_fwPre := (ex_fwPre e)(st_Target st \<mapsto> pre)\<rparr>, r)) of
        (Some err, e, r) \<Rightarrow> (Some err, e, r)
      | (None, e, r) \<Rightarrow>
          (case exec_fw_ops g target (map (\<lambda>i. ex_Ops e ! i) (st_OpIdx st)) r of (err, r) \<Rightarrow> (err, e, r)))"

definition execFwVerify :: "('q, 'r) pve_gateway option \<Rightarrow> Step \<Rightarrow> 'r call" where
  "execFwVerify pve st r =
     (case pve of None \<Rightarrow> (Some (XNoGateway StepFwVerify), r)
      | Some g \<Rightarrow>
          (case pg_FirewallCompileStatus g (st_Node st) r of
             (Inl e, r) \<Rightarrow> (Some e, r)
           | (Inr (ok, msg), r) \<Rightarrow> (if ok then None else Some (XFwCompile (st_Node st) msg), r)))"

definition execSDNStage :: "('q, 'r) pve_gateway option \<Rightarrow> InvSnapshot \<Rightarrow> 'q plan_op list \<Rightarrow> Step \<Rightarrow> 'r call" where
  "execSDNStage pve snap ops st r =
     (case pve of None \<Rightarrow> (Some (XNoGateway StepSDNStage), r)
      | Some g \<Rightarrow>
          if length (st_OpIdx st) \<noteq> 1 then (Some (XOpCount (length (st_OpIdx st))), r)
          else let i = hd (st_OpIdx st); op = ops ! i;
                   vnet = (if op_Type op = OpSdnSubnetUpdate \<or> op_Type op = OpSdnSubnetDelete
                           then resolveSubnetVnet ops i snap (ref_ID (op_Target op)) else [])
               in pg_SDNStageOp g op vnet r)"

definition execSDNApply :: "('q, 'r) pve_gateway option \<Rightarrow> nat \<Rightarrow> 'q executor \<Rightarrow> 'r \<Rightarrow> exec_err option \<times> 'q executor \<times> 'r" where
  "execSDNApply pve i e r =
     (case pve of None \<Rightarrow> (Some (XNoGateway StepSDNApply), e, r)
      | Some g \<Rightarrow>
          (case pg_ApplySDN g (sdnAffectedZones (ex_Ops e)) r of ((result, err), r) \<Rightarrow>
             let e = upd_step i (\<lambda>s. s\<lparr>sl_TaskUPID := sar_UPID result,
                        sl_Node := (if sar_Node result \<noteq> [] then sar_Node result else sl_Node s)\<rparr>) e
             in case err of Some x \<Rightarrow> (Some x, e, r)
                | None \<Rightarrow>
                    (case firstUnhealthy result of
                       Some (z, n) \<Rightarrow> (Some (XUnhealthy z (snh_Node n)), e, r)
                     | None \<Rightarrow> (None, e, r))))"

definition execStageFile :: "('q, 'w, 'r) exec_env \<Rightarrow> Step \<Rightarrow> 'q executor \<Rightarrow> 'w \<Rightarrow> exec_err option \<times> 'w" where
  "execStageFile env st e w =
     (case xe_computeStagedFile env (pre_content e (st_Node st)) (st_Node st) (st_OpIdx st) of
        Inl err \<Rightarrow> (Some err, w)
      | Inr content \<Rightarrow>
          (case na_Stage (xe_agent env) (st_Node st) content w of (err, w) \<Rightarrow> (map_option XAgent err, w)))"

definition execReload :: "('q, 'w, 'r) exec_env \<Rightarrow> Step \<Rightarrow> 'q executor \<Rightarrow> 'w \<Rightarrow> exec_err option \<times> 'w" where
  "execReload env st e w =
     (case (case xe_ArmTimer env of None \<Rightarrow> (None, w)
            | Some arm \<Rightarrow> arm (ex_csID e) (st_Node st) (pre_content e (st_Node st)) (ex_deadline e) w) of
        (Some err, w) \<Rightarrow> (Some (XArm (st_Node st) err), w)
      | (None, w) \<Rightarrow>
          (case na_Reload (xe_agent env) (st_Node st) w of (err, w) \<Rightarrow> (map_option XAgent err, w)))"

type_synonym ('q, 'w, 'r) exec_state = "'q executor \<times> 'w \<times> 'r"

definition execStep :: "('q, 'w, 'r) exec_env \<Rightarrow> nat \<Rightarrow> ('q, 'w, 'r) exec_state \<Rightarrow> exec_err option \<times> ('q, 'w, 'r) exec_state" where
  "execStep env i = (\<lambda>(e, w, r).
     let st = ex_plan e ! i;
         rest = (\<lambda>f. case f r of (err, r) \<Rightarrow> (err, e, w, r));
         nodes = (\<lambda>f. case f w of (err, w) \<Rightarrow> (err, e, w, r))
     in case st_Kind st of
          StepSDNStage \<Rightarrow> rest (execSDNStage (xe_pve env) (xe_inventory env) (ex_Ops e) st)
        | StepStageFile \<Rightarrow> nodes (execStageFile env st e)
        | StepReload \<Rightarrow> nodes (execReload env st e)
        | StepSDNApply \<Rightarrow> (case execSDNApply (xe_pve env) i e r of (err, e, r) \<Rightarrow> (err, e, w, r))
        | StepIpamAlloc \<Rightarrow>
            (case xe_pve env of None \<Rightarrow> (Some (XNoGateway StepIpamAlloc), e, w, r)
             | Some g \<Rightarrow> rest (execIpamAlloc g (xe_inventory env) (ex_Ops e) st))
        | StepWgApply \<Rightarrow> rest (exec_one StepWgApply (xe_wg env) (ex_Ops e) st)
        | StepSwitchApply \<Rightarrow> rest (exec_one StepSwitchApply (xe_switches env) (ex_Ops e) st)
        | StepFwApply \<Rightarrow> (case execFwApply (xe_pve env) st e r of (err, e, r) \<Rightarrow> (err, e, w, r))
        | StepFwVerify \<Rightarrow> rest (execFwVerify (xe_pve env) st)
        | StepQosApply \<Rightarrow> rest (exec_one StepQosApply (xe_qos env) (ex_Ops e) st)
        | StepTcMirrorApply \<Rightarrow> rest (exec_one StepTcMirrorApply (xe_tcMirror env) (ex_Ops e) st))"



subsection \<open>Restoring\<close>

definition interfacesPath :: string where
  "interfacesPath = ''/etc/network/interfaces''"

text \<open>The failures of the inverse ops, one text each.\<close>

fun restore_sdn_ops :: "('q, 'w, 'r) exec_env \<Rightarrow> ('q, 'r) pve_gateway \<Rightarrow> ('q plan_op \<times> string \<times> string) list \<Rightarrow> 'r \<Rightarrow> string list \<times> 'r" where
  "restore_sdn_ops env g [] r = ([], r)"
| "restore_sdn_ops env g ((op, vnet, blocked) # ops) r =
     (if blocked \<noteq> [] then (case restore_sdn_ops env g ops r of (fs, r) \<Rightarrow> (blocked # fs, r))
      else case pg_SDNStageOp g op vnet r of
        (None, r) \<Rightarrow> restore_sdn_ops env g ops r
      | (Some e, r) \<Rightarrow>
          (case restore_sdn_ops env g ops r of (fs, r) \<Rightarrow>
             ((op_Type op @ '' '' @ ref_ID (op_Target op) @ '': '' @ xe_errText env e) # fs, r)))"

definition restoreSDN :: "('q, 'w, 'r) exec_env \<Rightarrow> ('q, 'r) pve_gateway option \<Rightarrow> string \<Rightarrow> 'r \<Rightarrow> RollbackLog \<times> 'r" where
  "restoreSDN env pve pre r =
     (let summary = ''Restore /etc/pve/sdn/*.cfg from pre-apply snapshot and re-apply'' in
      case pve of None \<Rightarrow> (rollback_entry [] summary (Some (XNoGateway StepSDNApply)), r)
      | Some g \<Rightarrow>
      case pg_SDNConfig g r of
        (Inl e, r) \<Rightarrow> (rollback_entry [] summary (Some e), r)
      | (Inr current, r) \<Rightarrow>
      case restore_sdn_ops env g (xe_sdnRestoreOps env pre current) r of (failures, r) \<Rightarrow>
      case pg_ApplySDN g (xe_zoneIDsOf env pre) r of ((result, err), r) \<Rightarrow>
      let failures = failures @ (case err of None \<Rightarrow> [] | Some e \<Rightarrow> [''re-applying reverted sdn config: '' @ xe_errText env e])
      in (rollback_entry [] summary (if failures = [] then None else Some (XMany failures)), r))"

text \<open>One restore call per key, in the order of the keys; a failure is recorded and the rest still run.\<close>

fun restore_each :: "(string \<Rightarrow> string \<Rightarrow> 'r call) \<Rightarrow> (string \<Rightarrow> RollbackLog \<Rightarrow> RollbackLog) \<Rightarrow> (string \<Rightarrow> string) \<Rightarrow> (string \<times> string) list \<Rightarrow> 'r \<Rightarrow> RollbackLog list \<times> 'r" where
  "restore_each f g summary [] r = ([], r)"
| "restore_each f g summary ((k, v) # kvs) r =
     (case f k v r of (err, r) \<Rightarrow>
        case restore_each f g summary kvs r of (logs, r) \<Rightarrow> (g k (rollback_entry [] (summary k) err) # logs, r))"

definition sorted_state :: "(string \<times> string) list \<Rightarrow> (string \<times> string) list" where
  "sorted_state state = sort_key fst state"

definition on_node :: "string \<Rightarrow> RollbackLog \<Rightarrow> RollbackLog" where
  "on_node n rb = rb\<lparr>rb_Node := n\<rparr>"

definition restore_nodes :: "('q, 'r) op_gateway option \<Rightarrow> string \<Rightarrow> (string \<times> string) list \<Rightarrow> 'r \<Rightarrow> RollbackLog list \<times> 'r" where
  "restore_nodes gw what state r =
     (case gw of None \<Rightarrow> ([], r)
      | Some g \<Rightarrow> restore_each (og_Restore g) on_node
          (\<lambda>n. ''Restore '' @ what @ '' on '' @ n @ '' from pre-apply snapshot'') (sorted_state state) r)"

definition restoreQosState :: "('q, 'w, 'r) exec_env \<Rightarrow> (string \<times> string) list \<Rightarrow> 'r \<Rightarrow> RollbackLog list \<times> 'r" where
  "restoreQosState env = restore_nodes (xe_qos env) ''QoS shape state''"

definition restoreTcMirrorState :: "('q, 'w, 'r) exec_env \<Rightarrow> (string \<times> string) list \<Rightarrow> 'r \<Rightarrow> RollbackLog list \<times> 'r" where
  "restoreTcMirrorState env = restore_nodes (xe_tcMirror env) ''tc.mirror session state''"

definition restoreWgState :: "('q, 'w, 'r) exec_env \<Rightarrow> (string \<times> string) list \<Rightarrow> 'r \<Rightarrow> RollbackLog list \<times> 'r" where
  "restoreWgState env = restore_nodes (xe_wg env) ''WireGuard state''"

definition restoreSwitchState :: "('q, 'w, 'r) exec_env \<Rightarrow> (string \<times> string) list \<Rightarrow> 'r \<Rightarrow> RollbackLog list \<times> 'r" where
  "restoreSwitchState env state r =
     (case xe_switches env of None \<Rightarrow> ([], r)
      | Some g \<Rightarrow> restore_each (og_Restore g) (\<lambda>_ rb. rb)
          (\<lambda>p. ''Restore switch port '' @ p @ '' from pre-apply pre-image'') (sorted_state state) r)"

text \<open>Restoring firewall scopes needs the Proxmox gateway.\<close>

definition restore_fw_scope :: "('q, 'r) pve_gateway option \<Rightarrow> string \<Rightarrow> string \<Rightarrow> 'r call" where
  "restore_fw_scope pve target pre r =
     (case ParseRef target of Inl _ \<Rightarrow> (Some (XTarget target), r)
      | Inr t \<Rightarrow>
          (case pve of None \<Rightarrow> (Some (XNoGateway StepFwApply), r)
           | Some g \<Rightarrow> pg_RestoreFirewallScope g t pre r))"

definition fw_entry_node :: "('q, 'r) pve_gateway option \<Rightarrow> string \<Rightarrow> RollbackLog \<Rightarrow> RollbackLog" where
  "fw_entry_node pve target rb =
     (case ParseRef target of
        Inr t \<Rightarrow> (case pve of None \<Rightarrow> rb | Some _ \<Rightarrow> rb\<lparr>rb_Node := ref_Node t\<rparr>)
      | Inl _ \<Rightarrow> rb)"

definition restoreFwState :: "('q, 'r) pve_gateway option \<Rightarrow> (string \<times> string) list \<Rightarrow> 'r \<Rightarrow> RollbackLog list \<times> 'r" where
  "restoreFwState pve state =
     restore_each (restore_fw_scope pve) (fw_entry_node pve)
       (\<lambda>t. ''Restore firewall scope '' @ t @ '' from pre-apply snapshot'') (sorted_state state)"

definition scopedToNodes :: "(string \<times> string) list \<Rightarrow> string list \<Rightarrow> (string \<times> string) list" where
  "scopedToNodes state inScope = filter (\<lambda>(n, v). n \<in> set inScope) state"


subsection \<open>Rolling back a failed run\<close>

definition anyStepSucceeded :: "StepKind list \<Rightarrow> 'q executor \<Rightarrow> bool" where
  "anyStepSucceeded ks e \<longleftrightarrow> list_ex (\<lambda>s. sl_Kind s \<in> set ks \<and> sl_Status s = StepOK) (al_Steps (ex_log e))"

definition anySDNStepSucceeded :: "'q executor \<Rightarrow> bool" where
  "anySDNStepSucceeded = anyStepSucceeded [StepSDNStage, StepSDNApply]"
definition anyQosStepSucceeded :: "'q executor \<Rightarrow> bool" where
  "anyQosStepSucceeded = anyStepSucceeded [StepQosApply]"
definition anyTcMirrorStepSucceeded :: "'q executor \<Rightarrow> bool" where
  "anyTcMirrorStepSucceeded = anyStepSucceeded [StepTcMirrorApply]"
definition anyWgStepSucceeded :: "'q executor \<Rightarrow> bool" where
  "anyWgStepSucceeded = anyStepSucceeded [StepWgApply]"
definition anySwitchStepSucceeded :: "'q executor \<Rightarrow> bool" where
  "anySwitchStepSucceeded = anyStepSucceeded [StepSwitchApply]"

definition undoNode :: "('q, 'w, 'r) exec_env \<Rightarrow> string \<Rightarrow> bool \<Rightarrow> 'q executor \<Rightarrow> 'w \<Rightarrow> 'q executor \<times> 'w" where
  "undoNode env node reloaded e w =
     (if reloaded then
        (case restoreNode (xe_agent env) node (pre_content e node) w of (err, w) \<Rightarrow>
           (add_rollback [rollback_entry node (''Restore '' @ interfacesPath @ '' on '' @ node @
              '' from pre-apply snapshot and reload'') (map_option XAgent err)] e, w))
      else
        (case na_Discard (xe_agent env) node w of (err, w) \<Rightarrow>
           (add_rollback [rollback_entry node (''Discard staged '' @ interfacesPath @ '' on '' @ node)
              (map_option XAgent err)] e, w)))"

definition node_reloaded :: "'q executor \<Rightarrow> string \<Rightarrow> bool" where
  "node_reloaded e node =
     (case ex_loadIx e node of None \<Rightarrow> False | Some i \<Rightarrow> sl_Status (al_Steps (ex_log e) ! i) = StepOK)"

fun undo_nodes :: "('q, 'w, 'r) exec_env \<Rightarrow> string list \<Rightarrow> 'q executor \<Rightarrow> 'w \<Rightarrow> 'q executor \<times> 'w" where
  "undo_nodes env [] e w = (e, w)"
| "undo_nodes env (node # nodes) e w =
     (case undoNode env node (node_reloaded e node) e w of (e, w) \<Rightarrow> undo_nodes env nodes e w)"

definition undo_ipam_step :: "('q, 'w, 'r) exec_env \<Rightarrow> Step \<Rightarrow> 'q executor \<Rightarrow> 'r \<Rightarrow> 'q executor \<times> 'r" where
  "undo_ipam_step env st e r =
     (let op = ex_Ops e ! hd (st_OpIdx st);
          (err, r) = (case op_Params op of
             POther (PIpamAllocCreate p) \<Rightarrow>
               (case xe_pve env of None \<Rightarrow> (Some (XNoGateway StepIpamAlloc), r)
                | Some g \<Rightarrow>
                    (case subnetVnet (xe_inventory env) (op_Target op) of
                       Inl e \<Rightarrow> (Some e, r)
                     | Inr vnet \<Rightarrow> pg_ReleaseIPAMAddress g vnet (ref_ID (op_Target op)) (iac_CIDR p) r))
           | POther (PIpamAllocDelete p) \<Rightarrow> (Some (XNoUndo (iad_CIDR p)), r)
           | _ \<Rightarrow> (None, r))
      in (add_rollback [rollback_entry [] (''Undo: '' @ st_Summary st) err] e, r))"

fun undo_ipam :: "('q, 'w, 'r) exec_env \<Rightarrow> nat list \<Rightarrow> 'q executor \<Rightarrow> 'r \<Rightarrow> 'q executor \<times> 'r" where
  "undo_ipam env [] e r = (e, r)"
| "undo_ipam env (i # is) e r =
     (if st_Kind (ex_plan e ! i) \<noteq> StepIpamAlloc \<or> sl_Status (al_Steps (ex_log e) ! i) \<noteq> StepOK
      then undo_ipam env is e r
      else case undo_ipam_step env (ex_plan e ! i) e r of (e, r) \<Rightarrow> undo_ipam env is e r)"

definition rollbackIpamSteps :: "('q, 'w, 'r) exec_env \<Rightarrow> 'q executor \<Rightarrow> 'r \<Rightarrow> 'q executor \<times> 'r" where
  "rollbackIpamSteps env e r = undo_ipam env (rev [0..<length (ex_plan e)]) e r"

fun undo_fw :: "('q, 'r) pve_gateway \<Rightarrow> Ref list \<Rightarrow> string list \<Rightarrow> 'q executor \<Rightarrow> 'r \<Rightarrow> 'q executor \<times> 'r" where
  "undo_fw g [] inScope e r = (e, r)"
| "undo_fw g (t # ts) inScope e r =
     (if ref_Node t \<noteq> [] \<and> ref_Node t \<notin> set inScope then undo_fw g ts inScope e r
      else case ex_fwPre e (Ref_String t) of
        None \<Rightarrow> undo_fw g ts inScope e r
      | Some pre \<Rightarrow>
          (case pg_RestoreFirewallScope g t pre r of (err, r) \<Rightarrow>
             undo_fw g ts inScope (add_rollback [rollback_entry (ref_Node t)
               (''Restore firewall scope '' @ Ref_String t @ '' from pre-apply snapshot'') err] e) r))"

definition undoFwTargets :: "('q, 'w, 'r) exec_env \<Rightarrow> string list \<Rightarrow> 'q executor \<Rightarrow> 'r \<Rightarrow> 'q executor \<times> 'r" where
  "undoFwTargets env inScope e r =
     (case xe_pve env of None \<Rightarrow> (e, r) | Some g \<Rightarrow> undo_fw g (fwTargets (ex_plan e)) inScope e r)"

text \<open>The rollback entries of one kind of state, when it was captured and one of its steps ran.\<close>

definition undo_state :: "(string \<times> string) list option \<Rightarrow> bool \<Rightarrow> ((string \<times> string) list \<Rightarrow> 'r \<Rightarrow> RollbackLog list \<times> 'r) \<Rightarrow> 'q executor \<Rightarrow> 'r \<Rightarrow> 'q executor \<times> 'r" where
  "undo_state pre executed f e r =
     (case pre of None \<Rightarrow> (e, r)
      | Some state \<Rightarrow> if executed then (case f state r of (logs, r) \<Rightarrow> (add_rollback logs e, r)) else (e, r))"

definition undo_rest :: "('q, 'w, 'r) exec_env \<Rightarrow> 'q executor \<Rightarrow> 'r \<Rightarrow> 'q executor \<times> 'r" where
  "undo_rest env e r =
     (let nodes = ex_rollbackNodes e in
      case rollbackIpamSteps env e r of (e, r) \<Rightarrow>
      case undoFwTargets env nodes e r of (e, r) \<Rightarrow>
      case undo_state (ex_qosPre e) (anyQosStepSucceeded e) (\<lambda>s. restoreQosState env (scopedToNodes s nodes)) e r of (e, r) \<Rightarrow>
      case undo_state (ex_tcMirrorPre e) (anyTcMirrorStepSucceeded e) (\<lambda>s. restoreTcMirrorState env (scopedToNodes s nodes)) e r of (e, r) \<Rightarrow>
      case undo_state (ex_wgPre e) (anyWgStepSucceeded e) (\<lambda>s. restoreWgState env (scopedToNodes s nodes)) e r of (e, r) \<Rightarrow>
      undo_state (ex_switchPre e) (anySwitchStepSucceeded e) (restoreSwitchState env) e r)"

definition rollbackAfterFailure :: "('q, 'w, 'r) exec_env \<Rightarrow> ('q, 'w, 'r) exec_state \<Rightarrow> ('q, 'w, 'r) exec_state" where
  "rollbackAfterFailure env = (\<lambda>(e, w, r).
     case (case ex_sdnPre e of
             Some pre \<Rightarrow>
               if anySDNStepSucceeded e
               then (case restoreSDN env (xe_pve env) pre r of (rb, r) \<Rightarrow> (add_rollback [rb] e, r)) else (e, r)
           | None \<Rightarrow> (e, r)) of (e, r) \<Rightarrow>
     case undo_nodes env (rev (ex_rollbackNodes e)) e w of (e, w) \<Rightarrow>
     case undo_rest env e r of (e, r) \<Rightarrow> (e, w, r))"


subsection \<open>Running\<close>

definition fail_log :: "nat \<Rightarrow> exec_err \<Rightarrow> 'q executor \<Rightarrow> 'q executor" where
  "fail_log i err e =
     (let e = upd_step i (\<lambda>s. s\<lparr>sl_Status := StepFailed, sl_Error := Some err\<rparr>) e in
      e\<lparr>ex_log := (ex_log e)\<lparr>al_FailedStep := Some i,
          al_Steps := map (\<lambda>s. if sl_Status s = StepPending then s\<lparr>sl_Status := StepSkipped\<rparr> else s) (al_Steps (ex_log e))\<rparr>\<rparr>)"

fun runSteps :: "('q, 'w, 'r) exec_env \<Rightarrow> nat list \<Rightarrow> ('q, 'w, 'r) exec_state \<Rightarrow> exec_err option \<times> ('q, 'w, 'r) exec_state" where
  "runSteps env [] s = (None, s)"
| "runSteps env (i # is) s =
     (case execStep env i s of
        (Some err, e, w, r) \<Rightarrow> (Some err, rollbackAfterFailure env (fail_log i err e, w, r))
      | (None, e, w, r) \<Rightarrow> runSteps env is (upd_step i (\<lambda>s. s\<lparr>sl_Status := StepOK\<rparr>) e, w, r))"

definition run :: "('q, 'w, 'r) exec_env \<Rightarrow> ('q, 'w, 'r) exec_state \<Rightarrow> exec_err option \<times> ('q, 'w, 'r) exec_state" where
  "run env s = runSteps env (allStepIndexes (ex_plan (fst s))) s"



subsection \<open>The pre-apply snapshot\<close>

fun capture_files :: "('q, 'w, 'r) exec_env \<Rightarrow> string list \<Rightarrow> 'w \<Rightarrow> (exec_err + (string \<times> string) list) \<times> 'w" where
  "capture_files env [] w = (Inr [], w)"
| "capture_files env (node # nodes) w =
     (case na_Read (xe_agent env) node w of
        (Inl e, w) \<Rightarrow> (Inl (XAgent e), w)
      | (Inr content, w) \<Rightarrow>
          if \<not> xe_store_ok env then (Inl (XSnapshot node), w)
          else case capture_files env nodes w of
            (Inl e, w) \<Rightarrow> (Inl e, w)
          | (Inr files, w) \<Rightarrow> (Inr ((node, content) # files), w))"

fun capture_each :: "('k \<Rightarrow> string) \<Rightarrow> ('k \<Rightarrow> 'r \<Rightarrow> (exec_err + string) \<times> 'r) \<Rightarrow> 'k list \<Rightarrow> 'r \<Rightarrow> (exec_err + (string \<times> string) list) \<times> 'r" where
  "capture_each key f [] r = (Inr [], r)"
| "capture_each key f (k # ks) r =
     (case f k r of
        (Inl e, r) \<Rightarrow> (Inl e, r)
      | (Inr v, r) \<Rightarrow>
          (case capture_each key f ks r of (Inl e, r) \<Rightarrow> (Inl e, r) | (Inr kvs, r) \<Rightarrow> (Inr ((key k, v) # kvs), r)))"

definition store_state :: "('q, 'w, 'r) exec_env \<Rightarrow> (exec_err + (string \<times> string) list) \<times> 'r \<Rightarrow> (exec_err + (string \<times> string) list option) \<times> 'r" where
  "store_state env res =
     (case res of
        (Inl e, r) \<Rightarrow> (Inl e, r)
      | (Inr kvs, r) \<Rightarrow> if xe_store_ok env then (Inr (Some kvs), r) else (Inl (XSnapshot []), r))"

text \<open>One state file of the snapshot: captured when the plan has such steps and the gateway is wired.\<close>

definition capture_state :: "('q, 'w, 'r) exec_env \<Rightarrow> bool \<Rightarrow> ('q, 'r) op_gateway option \<Rightarrow> string list \<Rightarrow> 'r
    \<Rightarrow> (exec_err + (string \<times> string) list option) \<times> 'r" where
  "capture_state env wanted gw keys r =
     (case gw of
        None \<Rightarrow> (Inr None, r)
      | Some g \<Rightarrow>
          if wanted then store_state env (capture_each (\<lambda>k. k) (og_Snapshot g) keys r) else (Inr None, r))"

definition capture_pve :: "('q, 'w, 'r) exec_env \<Rightarrow> Plan \<Rightarrow> 'r \<Rightarrow> (exec_err + string option \<times> (string \<times> string) list option) \<times> 'r" where
  "capture_pve env plan r =
     (case (if \<not> hasSDN plan then (Inr None, r)
            else case xe_pve env of None \<Rightarrow> (Inl (XNoGateway StepSDNApply), r)
            | Some g \<Rightarrow>
                (case pg_SDNConfig g r of
                   (Inl e, r) \<Rightarrow> (Inl e, r)
                 | (Inr cfg, r) \<Rightarrow> if xe_store_ok env then (Inr (Some cfg), r) else (Inl (XSnapshot []), r))) of
        (Inl e, r) \<Rightarrow> (Inl e, r)
      | (Inr sdn, r) \<Rightarrow>
          if \<not> hasFw plan then (Inr (sdn, None), r)
          else case xe_pve env of None \<Rightarrow> (Inl (XNoGateway StepFwApply), r)
          | Some g \<Rightarrow>
              (case store_state env (capture_each Ref_String (pg_SnapshotFirewallScope g) (fwTargets plan) r) of
                 (Inl e, r) \<Rightarrow> (Inl e, r)
               | (Inr fw, r) \<Rightarrow> (Inr (sdn, fw), r)))"

definition captureSnapshotFull :: "('q, 'w, 'r) exec_env \<Rightarrow> Plan \<Rightarrow> 'w \<Rightarrow> 'r \<Rightarrow> (exec_err + pre_snapshot) \<times> 'w \<times> 'r" where
  "captureSnapshotFull env plan w r =
     (case capture_files env (affectedNodes plan) w of (Inl e, w) \<Rightarrow> (Inl e, w, r) | (Inr files, w) \<Rightarrow>
      case capture_pve env plan r of (Inl e, r) \<Rightarrow> (Inl e, w, r) | (Inr (sdn, fw), r) \<Rightarrow>
      case capture_state env (hasQos plan) (xe_qos env) (qosNodes plan) r of
        (Inl e, r) \<Rightarrow> (Inl e, w, r) | (Inr qos, r) \<Rightarrow>
      case capture_state env (hasTcMirror plan) (xe_tcMirror env) (tcMirrorNodes plan) r of
        (Inl e, r) \<Rightarrow> (Inl e, w, r) | (Inr tcm, r) \<Rightarrow>
      case capture_state env (hasWg plan) (xe_wg env) (wgNodes plan) r of
        (Inl e, r) \<Rightarrow> (Inl e, w, r) | (Inr wg, r) \<Rightarrow>
      case capture_state env (hasSwitch plan) (xe_switches env) (switchPortTargets plan) r of
        (Inl e, r) \<Rightarrow> (Inl e, w, r) | (Inr sw, r) \<Rightarrow>
      if \<not> xe_store_ok env then (Inl (XSnapshot []), w, r)
      else (Inr \<lparr> ps_files = files, ps_sdn = sdn, ps_fw = fw, ps_qos = qos, ps_tcMirror = tcm, ps_wg = wg,
                  ps_switch = sw \<rparr>, w, r))"

text \<open>The mutating part of an apply that runs all steps at once.\<close>

definition apply_plan :: "('q, 'w, 'r) exec_env \<Rightarrow> string \<Rightarrow> 'q plan_op list \<Rightarrow> Plan \<Rightarrow> int \<Rightarrow> 'w \<Rightarrow> 'r
    \<Rightarrow> exec_err option \<times> ApplyLog \<times> 'w \<times> 'r" where
  "apply_plan env csID ops plan deadline w r =
     (case captureSnapshotFull env plan w r of
        (Inl e, w, r) \<Rightarrow> (Some e, empty_log, w, r)
      | (Inr pre, w, r) \<Rightarrow>
          (case run env (newExecutor csID ops plan pre deadline, w, r) of
             (err, e, w, r) \<Rightarrow> (err, ex_log e, w, r)))"


section \<open>Frames\<close>

text \<open>What no step changes, and what is only added to.\<close>

definition static :: "'q executor \<Rightarrow> string \<times> 'q plan_op list \<times> Plan \<times> (string \<rightharpoonup> string) \<times> (string \<rightharpoonup> nat) \<times> string list \<times> int" where
  "static e = (ex_csID e, ex_Ops e, ex_plan e, ex_pre e, ex_loadIx e, ex_rollbackNodes e, ex_deadline e)"

definition statuses :: "'q executor \<Rightarrow> StepStatus list" where
  "statuses e = map sl_Status (al_Steps (ex_log e))"

definition evolves :: "'q executor \<Rightarrow> 'q executor \<Rightarrow> bool" where
  "evolves e e' \<longleftrightarrow> static e' = static e \<and> statuses e' = statuses e \<and>
     (\<forall>i. sl_Status (al_Steps (ex_log e') ! i) = sl_Status (al_Steps (ex_log e) ! i)) \<and>
     al_FailedStep (ex_log e') = al_FailedStep (ex_log e) \<and>
     (\<exists>rbs. al_Rollback (ex_log e') = al_Rollback (ex_log e) @ rbs)"

lemma evolves_refl [simp]: "evolves e e"
  by (simp add: evolves_def)

lemma evolves_trans: "evolves a b \<Longrightarrow> evolves b c \<Longrightarrow> evolves a c"
  by (auto simp: evolves_def)

lemma evolves_add_rollback [simp]: "evolves e (add_rollback rbs e)"
  by (auto simp: evolves_def add_rollback_def static_def statuses_def)

lemma evolves_fwPre: "evolves e (e\<lparr>ex_fwPre := x\<rparr>)"
  by (simp add: evolves_def static_def statuses_def)

lemma evolves_upd_step:
  assumes "\<And>s. sl_Status (f s) = sl_Status s"
  shows "evolves e (upd_step i f e)"
proof -
  let ?xs = "al_Steps (ex_log e)"
  have "sl_Status (?xs[i := f (?xs ! i)] ! j) = sl_Status (?xs ! j)" for j
    using assms by (cases "i = j"; cases "i < length ?xs") (simp_all add: not_less list_update_beyond)
  moreover from this have "map sl_Status (?xs[i := f (?xs ! i)]) = map sl_Status ?xs"
    by (intro nth_equalityI) simp_all
  ultimately show ?thesis by (simp add: evolves_def static_def statuses_def upd_step_def)
qed

lemma pre_content_static: "static e' = static e \<Longrightarrow> pre_content e' n = pre_content e n"
  by (simp add: static_def pre_content_def)

lemma node_reloaded_alt:
  "node_reloaded e n = (case ex_loadIx e n of None \<Rightarrow> False
     | Some i \<Rightarrow> sl_Status (al_Steps (ex_log e) ! i) = StepOK)"
  by (simp add: node_reloaded_def)

lemma execFwApply_evolves: "execFwApply pve st e r = (err, e', r') \<Longrightarrow> evolves e e'"
  by (auto simp: execFwApply_def intro: evolves_fwPre split: option.splits sum.splits prod.splits if_splits)

lemma execSDNApply_evolves: "execSDNApply pve i e r = (err, e', r') \<Longrightarrow> evolves e e'"
  by (auto simp: execSDNApply_def Let_def intro!: evolves_upd_step split: option.splits prod.splits)

lemma execStep_evolves: "execStep env i (e, w, r) = (err, e', w', r') \<Longrightarrow> evolves e e'"
  by (auto simp: execStep_def Let_def dest: execFwApply_evolves execSDNApply_evolves
      split: StepKind.splits prod.splits option.splits)

lemma execStep_nodes:
  assumes "execStep env i (e, w, r) = (err, e', w', r')"
  shows "st_Kind (ex_plan e ! i) = StepStageFile \<and> execStageFile env (ex_plan e ! i) e w = (err, w')
    \<or> st_Kind (ex_plan e ! i) = StepReload \<and> execReload env (ex_plan e ! i) e w = (err, w')
    \<or> st_Kind (ex_plan e ! i) \<noteq> StepReload \<and> w' = w"
  using assms by (cases "st_Kind (ex_plan e ! i)") (auto simp: execStep_def Let_def split: prod.splits option.splits)

lemma undo_ipam_evolves: "undo_ipam env is e r = (e', r') \<Longrightarrow> evolves e e'"
proof (induction "is" arbitrary: e r)
  case (Cons i "is")
  then show ?case
    by (fastforce simp: undo_ipam_step_def Let_def split: if_splits prod.splits intro: evolves_trans evolves_add_rollback)
qed simp

lemma undo_fw_evolves: "undo_fw g ts nodes e r = (e', r') \<Longrightarrow> evolves e e'"
proof (induction ts arbitrary: e r)
  case (Cons t ts)
  then show ?case by (fastforce split: if_splits option.splits prod.splits intro: evolves_trans evolves_add_rollback)
qed simp

lemma undo_state_evolves: "undo_state pre b f e r = (e', r') \<Longrightarrow> evolves e e'"
  by (auto simp: undo_state_def split: option.splits if_splits prod.splits)

lemma undo_rest_evolves: "undo_rest env e r = (e', r') \<Longrightarrow> evolves e e'"
  unfolding undo_rest_def Let_def rollbackIpamSteps_def undoFwTargets_def
  by (auto dest!: undo_ipam_evolves undo_fw_evolves undo_state_evolves split: prod.splits option.splits) (meson evolves_trans)+



lemma evolves_pre_content: "evolves e e' \<Longrightarrow> pre_content e' n = pre_content e n \<and> ex_csID e' = ex_csID e \<and> ex_plan e' = ex_plan e"
  by (simp add: evolves_def static_def pre_content_def)

lemma evolves_node_reloaded: "evolves e e' \<Longrightarrow> node_reloaded e' n = node_reloaded e n"
  by (simp add: evolves_def static_def node_reloaded_def cong: option.case_cong)

text \<open>The index kept for a node is that of its reload step, and the log has an entry for it.\<close>

definition fits :: "'q executor \<Rightarrow> bool" where
  "fits e \<longleftrightarrow> (\<forall>n i. ex_loadIx e n = Some i \<longrightarrow> i < length (statuses e) \<and>
     st_Kind (ex_plan e ! i) = StepReload \<and> st_Node (ex_plan e ! i) = n)"

lemma fits_cong: "static e' = static e \<Longrightarrow> length (statuses e') = length (statuses e) \<Longrightarrow> fits e' = fits e"
  by (simp add: fits_def static_def)

lemma evolves_fits: "evolves e e' \<Longrightarrow> fits e' = fits e"
  by (rule fits_cong) (simp_all add: evolves_def)

lemma status_nth: "i < length (statuses e) \<Longrightarrow> sl_Status (al_Steps (ex_log e) ! i) = statuses e ! i"
  by (simp add: statuses_def)

lemma node_reloaded_iff:
  "fits e \<Longrightarrow> node_reloaded e n \<longleftrightarrow> (\<exists>i. ex_loadIx e n = Some i \<and> statuses e ! i = StepOK)"
  by (auto simp: node_reloaded_def fits_def status_nth split: option.splits)

lemma upd_step_static [simp]: "static (upd_step i f e) = static e" "length (statuses (upd_step i f e)) = length (statuses e)"
  by (simp_all add: upd_step_def static_def statuses_def)

lemma statuses_mark_ok:
  "statuses (upd_step i (\<lambda>s. s\<lparr>sl_Status := StepOK\<rparr>) e) = (statuses e)[i := StepOK]"
  by (simp add: upd_step_def statuses_def map_update)

lemma statuses_fail_log:
  "statuses (fail_log i err e) = map (\<lambda>s. if s = StepPending then StepSkipped else s) ((statuses e)[i := StepFailed])"
  by (simp add: fail_log_def upd_step_def statuses_def map_update Let_def comp_def if_distrib cong: if_cong)

lemma fail_log_static [simp]: "static (fail_log i err e) = static e"
  by (simp add: fail_log_def Let_def static_def upd_step_def)

lemma log_frame [simp]:
  "pre_content (fail_log i err e) n = pre_content e n" "ex_csID (fail_log i err e) = ex_csID e"
  "pre_content (upd_step i f e) n = pre_content e n" "ex_csID (upd_step i f e) = ex_csID e"
  "ex_plan (fail_log i err e) = ex_plan e" "ex_plan (upd_step i f e) = ex_plan e"
  by (simp_all add: pre_content_def fail_log_def upd_step_def Let_def)

lemma fits_mark: "fits (upd_step i f e) = fits e"
  by (rule fits_cong) simp_all

lemma fits_fail: "fits (fail_log i err e) = fits e"
  by (rule fits_cong) (simp_all add: statuses_fail_log)

lemma reloaded_mark:
  assumes "fits e" "node_reloaded (upd_step i (\<lambda>s. s\<lparr>sl_Status := StepOK\<rparr>) e) n"
  shows "node_reloaded e n \<or> ex_loadIx e n = Some i"
proof -
  obtain j where "ex_loadIx e n = Some j" "(statuses e)[i := StepOK] ! j = StepOK"
    using assms upd_step_static(1) [of i _ e] by (auto simp: node_reloaded_iff fits_mark statuses_mark_ok static_def)
  then show ?thesis
    using assms(1) by (cases "i = j") (auto simp: node_reloaded_iff)
qed

lemma reloaded_fail:
  assumes "fits e" "node_reloaded (fail_log i err e) n"
  shows "node_reloaded e n"
proof -
  obtain j where j: "ex_loadIx e n = Some j" "statuses (fail_log i err e) ! j = StepOK"
    using assms fail_log_static [of i err e] by (auto simp: node_reloaded_iff fits_fail static_def)
  then have "j < length (statuses e)" using assms(1) by (simp add: fits_def)
  with j show ?thesis
    using assms(1) by (cases "i = j") (auto simp: node_reloaded_iff statuses_fail_log split: if_splits)
qed

lemma undoNode_cases:
  assumes "undoNode env n b e w = (e1, w1)"
  obtains err s where "e1 = add_rollback [rollback_entry n s (map_option XAgent err)] e"
    and "if b then restoreNode (xe_agent env) n (pre_content e n) w = (err, w1)
         else na_Discard (xe_agent env) n w = (err, w1)"
  using assms that unfolding undoNode_def by (cases b) (auto split: prod.splits)

lemma add_rollback_simps [simp]:
  "node_reloaded (add_rollback rbs e) m = node_reloaded e m"
  "pre_content (add_rollback rbs e) m = pre_content e m"
  "ex_csID (add_rollback rbs e) = ex_csID e" "ex_plan (add_rollback rbs e) = ex_plan e"
  "al_Rollback (ex_log (add_rollback rbs e)) = al_Rollback (ex_log e) @ rbs"
  by (simp_all add: add_rollback_def node_reloaded_def pre_content_def cong: option.case_cong)


section \<open>A new executor\<close>

text \<open>Every reload step of the plan is the one its node's index points to.\<close>

definition indexed :: "'q executor \<Rightarrow> bool" where
  "indexed e \<longleftrightarrow> (\<forall>i < length (ex_plan e). st_Kind (ex_plan e ! i) = StepReload \<longrightarrow>
     ex_loadIx e (st_Node (ex_plan e ! i)) = Some i)"

lemma length_pending_log [simp]: "length (pending_log plan) = length plan"
  by (simp add: pending_log_def)

lemma statuses_new: "statuses (newExecutor csID ops plan pre d) = replicate (length plan) StepPending"
  by (simp add: statuses_def newExecutor_def empty_log_def pending_log_def map_replicate_const comp_def case_prod_beta')

lemma newExecutor_simps [simp]:
  "ex_csID (newExecutor csID ops plan pre d) = csID" "ex_plan (newExecutor csID ops plan pre d) = plan"
  "ex_Ops (newExecutor csID ops plan pre d) = ops"
  "ex_rollbackNodes (newExecutor csID ops plan pre d) = affectedNodes plan"
  "al_Rollback (ex_log (newExecutor csID ops plan pre d)) = []"
  by (simp_all add: newExecutor_def empty_log_def)

lemma new_loadIx:
  assumes "ex_loadIx (newExecutor csID ops plan pre d) n = Some i"
  shows "i < length plan \<and> st_Kind (plan ! i) = StepReload \<and> st_Node (plan ! i) = n"
  using map_of_SomeD [of _ n i] assms by (force simp: newExecutor_def in_set_enumerate_eq)

lemma new_fits: "fits (newExecutor csID ops plan pre d)"
  by (auto simp: fits_def statuses_new dest: new_loadIx)

lemma new_indexed:
  assumes "distinct (map st_Node (filter (\<lambda>s. st_Kind s = StepReload) plan))"
  shows "indexed (newExecutor csID ops plan pre d)"
  unfolding indexed_def
proof (intro allI impI)
  fix i assume i: "i < length (ex_plan (newExecutor csID ops plan pre d))"
    "st_Kind (ex_plan (newExecutor csID ops plan pre d) ! i) = StepReload"
  let ?kvs = "map (\<lambda>(i, st). (st_Node st, i)) (filter (\<lambda>(i, st). st_Kind st = StepReload) (enumerate 0 plan))"
  have "map fst ?kvs = map st_Node (map snd (filter (\<lambda>x. st_Kind (snd x) = StepReload) (enumerate 0 plan)))"
    by (simp add: comp_def case_prod_beta')
  also have "map snd (filter (\<lambda>x. st_Kind (snd x) = StepReload) (enumerate 0 plan)) = filter (\<lambda>s. st_Kind s = StepReload) plan"
    using filter_map [of "\<lambda>s. st_Kind s = StepReload" snd "enumerate 0 plan"] by (simp add: comp_def)
  finally have d: "distinct (map fst (rev ?kvs))" using assms by (simp flip: rev_map)
  have "(st_Node (plan ! i), i) \<in> set (rev ?kvs)" using i by (force simp: in_set_enumerate_eq image_iff)
  with d have "map_of (rev ?kvs) (st_Node (plan ! i)) = Some i" by (rule map_of_is_SomeI)
  then show "ex_loadIx (newExecutor csID ops plan pre d) (st_Node (ex_plan (newExecutor csID ops plan pre d) ! i)) = Some i"
    by (simp add: newExecutor_def)
qed

lemma new_not_reloaded: "\<not> node_reloaded (newExecutor csID ops plan pre d) n"
proof
  assume "node_reloaded (newExecutor csID ops plan pre d) n"
  then obtain i where "ex_loadIx (newExecutor csID ops plan pre d) n = Some i"
    "statuses (newExecutor csID ops plan pre d) ! i = StepOK"
    by (auto simp: node_reloaded_iff [OF new_fits])
  then show False using new_loadIx by (fastforce simp: statuses_new)
qed

text \<open>The captured files are those of the nodes, one each, with the content the reads returned.\<close>

lemma capture_files_law:
  assumes "capture_files env nodes w = (res, w')" "P w"
    and read: "\<And>n w rr w'. na_Read (xe_agent env) n w = (rr, w') \<Longrightarrow> P w \<Longrightarrow>
      P w' \<and> committed w' = committed w \<and> (\<forall>c. rr = Inr c \<longrightarrow> committed w n = Some c)"
  shows "P w' \<and> committed w' = committed w \<and>
    (\<forall>files. res = Inr files \<longrightarrow> map fst files = nodes \<and> (\<forall>(n, c) \<in> set files. committed w n = Some c))"
  using assms(1,2)
proof (induction nodes arbitrary: w w' res)
  case (Cons n nodes)
  obtain rr w1 where r: "na_Read (xe_agent env) n w = (rr, w1)" by fastforce
  note l = read [OF r Cons.prems(2)]
  obtain y w2 where c: "capture_files env nodes w1 = (y, w2)" by fastforce
  from Cons.IH [OF c] Cons.prems(1) l r c show ?case
    by (cases y) (auto split: sum.splits if_splits)
qed auto

lemma captureSnapshotFull_files:
  assumes "captureSnapshotFull env plan w r = (res, w', r')"
  shows "\<exists>y. capture_files env (affectedNodes plan) w = (y, w') \<and> (\<forall>pre. res = Inr pre \<longrightarrow> y = Inr (ps_files pre))"
  using assms by (auto simp: captureSnapshotFull_def split: prod.splits sum.splits if_splits)

lemma pre_content_new:
  assumes "map fst (ps_files pre) = affectedNodes plan" "\<forall>(n, c) \<in> set (ps_files pre). committed w n = Some c"
    and "n \<in> set (affectedNodes plan)"
  shows "committed w n = Some (pre_content (newExecutor csID ops plan pre d) n)"
proof -
  let ?m = "map_of (rev (filter (\<lambda>(n, c). n \<noteq> []) (ps_files pre)))"
  have "n \<noteq> []" "n \<in> fst ` set (ps_files pre)"
    using assms(1,3) set_affectedNodes [of plan] by (auto simp flip: assms(1))
  then have "n \<in> fst ` set (rev (filter (\<lambda>(n, c). n \<noteq> []) (ps_files pre)))" by force
  then obtain c where c: "?m n = Some c" by (metis map_of_eq_None_iff not_None_eq)
  then have "committed w n = Some c" using assms(2) map_of_SomeD [OF c] by auto
  with c show ?thesis by (simp add: pre_content_def newExecutor_def)
qed


section \<open>The log of a run\<close>

lemma undo_nodes_evolves: "undo_nodes env nodes e w = (e', w') \<Longrightarrow> evolves e e'"
proof (induction nodes arbitrary: e w)
  case (Cons n nodes)
  obtain e1 w1 where u: "undoNode env n (node_reloaded e n) e w = (e1, w1)" by fastforce
  then have "evolves e e1" by (rule undoNode_cases) simp
  with Cons u show ?case by (auto intro: evolves_trans)
qed simp

lemma rollback_evolves: "rollbackAfterFailure env (e, w, r) = (e', w', r') \<Longrightarrow> evolves e e'"
  unfolding rollbackAfterFailure_def
  by (auto split: option.splits if_splits prod.splits dest!: undo_nodes_evolves undo_rest_evolves
      intro: evolves_trans evolves_add_rollback)

text \<open>After a run over the rest of the plan: the steps before the failed one are OK, those after it skipped.\<close>

definition log_shape :: "ApplyLog \<Rightarrow> nat \<Rightarrow> StepStatus list" where
  "log_shape l n =
     (case al_FailedStep l of
        None \<Rightarrow> replicate n StepOK
      | Some i \<Rightarrow> replicate i StepOK @ StepFailed # replicate (n - Suc i) StepSkipped)"

lemma runSteps_log:
  assumes "runSteps env [k..<n] (e, w, r) = (res, e', w', r')" "k \<le> n"
    and "statuses e = replicate k StepOK @ replicate (n - k) StepPending" "al_FailedStep (ex_log e) = None"
  shows "statuses e' = log_shape (ex_log e') n \<and>
    (case al_FailedStep (ex_log e') of None \<Rightarrow> res = None | Some i \<Rightarrow> i < n \<and> res \<noteq> None)"
  using assms
proof (induction "n - k" arbitrary: k e w r)
  case 0
  then show ?case by (simp add: log_shape_def)
next
  case (Suc m)
  then have k: "k < n" "[k..<n] = k # [Suc k..<n]" by (simp_all add: upt_conv_Cons)
  obtain x e1 w1 r1 where s: "execStep env k (e, w, r) = (x, e1, w1, r1)" by (metis prod_cases4)
  have g: "statuses e1 = replicate k StepOK @ StepPending # replicate (n - Suc k) StepPending"
      "al_FailedStep (ex_log e1) = None"
    using execStep_evolves [OF s] Suc.prems(3,4) k(1) by (simp_all add: evolves_def Suc_diff_Suc flip: replicate_Suc)
  show ?case
  proof (cases x)
    case (Some y)
    have "rollbackAfterFailure env (fail_log k y e1, w1, r1) = (e', w', r')" "res = Some y"
      using Suc.prems(1) s Some k(2) by simp_all
    moreover from rollback_evolves [OF this(1)] have "statuses e' = statuses (fail_log k y e1)"
        "al_FailedStep (ex_log e') = al_FailedStep (ex_log (fail_log k y e1))"
      by (simp_all add: evolves_def)
    moreover have "al_FailedStep (ex_log (fail_log k y e1)) = Some k"
      by (simp add: fail_log_def Let_def)
    ultimately show ?thesis
      using k(1) by (simp add: statuses_fail_log g(1) list_update_append log_shape_def)
  next
    case None
    let ?e = "upd_step k (\<lambda>s. s\<lparr>sl_Status := StepOK\<rparr>) e1"
    have "runSteps env [Suc k..<n] (?e, w1, r1) = (res, e', w', r')" using Suc.prems(1) s None k(2) by simp
    moreover have "statuses ?e = replicate (Suc k) StepOK @ replicate (n - Suc k) StepPending"
      by (simp add: statuses_mark_ok g(1) list_update_append replicate_app_Cons_same)
    moreover have "al_FailedStep (ex_log ?e) = None" using g(2) by (simp add: upd_step_def)
    ultimately show ?thesis using Suc.hyps k(1) by (metis Suc_diff_Suc Suc_inject Suc_leI)
  qed
qed


section \<open>The safety net: a changed node has its timer armed\<close>

text \<open>Between two steps: changed nodes and reloaded nodes have an armed timer for this changeset.\<close>

definition guarded :: "('w \<Rightarrow> string \<Rightarrow> string option) \<Rightarrow> ('w \<Rightarrow> string \<Rightarrow> string \<Rightarrow> string \<Rightarrow> bool) \<Rightarrow> 'w \<Rightarrow> 'q executor \<Rightarrow> 'w \<Rightarrow> bool" where
  "guarded committed armed w0 e w \<longleftrightarrow> (\<forall>n. committed w n \<noteq> committed w0 n \<or> node_reloaded e n \<longrightarrow>
     armed w (ex_csID e) n (pre_content e n) \<and> n \<in> st_Node ` set (ex_plan e))"

text \<open>
  What the executor needs of the nodes for its safety net, with no assumption on faults: only a reload
  changes a committed file, arming reports success only when the timer is armed, and nothing that the
  executor calls disarms a timer.
\<close>

locale guarded_nodes =
  fixes agent :: "'w node_agent"
    and arm :: "string \<Rightarrow> string \<Rightarrow> string \<Rightarrow> int \<Rightarrow> 'w \<Rightarrow> exec_err option \<times> 'w"
    and committed :: "'w \<Rightarrow> string \<Rightarrow> string option"
    and armed :: "'w \<Rightarrow> string \<Rightarrow> string \<Rightarrow> string \<Rightarrow> bool"
  assumes read_keeps: "na_Read agent n w = (rr, w') \<Longrightarrow>
      committed w' = committed w \<and> armed w' = armed w \<and> (\<forall>c. rr = Inr c \<longrightarrow> committed w n = Some c)"
    and stage_keeps: "na_Stage agent n c w = (x, w') \<Longrightarrow> committed w' = committed w \<and> armed w' = armed w"
    and discard_keeps: "na_Discard agent n w = (x, w') \<Longrightarrow> committed w' = committed w \<and> armed w' = armed w"
    and reload_only: "na_Reload agent n w = (x, w') \<Longrightarrow> (\<forall>m. m \<noteq> n \<longrightarrow> committed w' m = committed w m) \<and> armed w' = armed w"
    and arm_keeps: "arm i n c d w = (y, w') \<Longrightarrow> committed w' = committed w \<and> (\<forall>m p. m \<noteq> n \<longrightarrow> armed w i m p \<longrightarrow> armed w' i m p)"
    and arm_arms: "arm i n c d w = (y, w') \<Longrightarrow> y = None \<or> armed w i n c \<Longrightarrow> armed w' i n c"
begin

lemma restoreNode_only:
  assumes "restoreNode agent n c w = (x, w')"
  shows "(\<forall>m. m \<noteq> n \<longrightarrow> committed w' m = committed w m) \<and> armed w' = armed w"
proof (cases "na_Stage agent n c w")
  case (Pair y w1)
  then show ?thesis
    using assms stage_keeps [OF Pair] reload_only by (cases y) (auto simp: restoreNode_def)
qed

lemma undo_nodes_guarded:
  assumes "undo_nodes env nodes e w = (e', w')" "xe_agent env = agent" "guarded committed armed w0 e w"
  shows "guarded committed armed w0 e' w' \<and> evolves e e'"
  using assms
proof (induction nodes arbitrary: e w)
  case (Cons n nodes)
  obtain e1 w1 where u: "undoNode env n (node_reloaded e n) e w = (e1, w1)" by fastforce
  obtain err s where e1: "e1 = add_rollback [rollback_entry n s (map_option XAgent err)] e"
    and c: "if node_reloaded e n then restoreNode agent n (pre_content e n) w = (err, w1) else na_Discard agent n w = (err, w1)"
    using undoNode_cases [OF u] Cons.prems(2) by metis
  have w1: "(node_reloaded e n \<longrightarrow> (\<forall>m. m \<noteq> n \<longrightarrow> committed w1 m = committed w m)) \<and>
      (\<not> node_reloaded e n \<longrightarrow> committed w1 = committed w) \<and> armed w1 = armed w"
    using c restoreNode_only discard_keeps by (cases "node_reloaded e n") auto
  have same: "node_reloaded e1 m = node_reloaded e m" "pre_content e1 m = pre_content e m" "ex_csID e1 = ex_csID e"
      "ex_plan e1 = ex_plan e" for m
    by (simp_all add: e1)
  have g: "evolves e e1" by (simp add: e1)
  have "guarded committed armed w0 e1 w1"
    unfolding guarded_def
  proof (intro allI impI)
    fix m assume "committed w1 m \<noteq> committed w0 m \<or> node_reloaded e1 m"
    then have "committed w m \<noteq> committed w0 m \<or> node_reloaded e m"
    proof (cases "node_reloaded e m")
      case False
      then have "committed w1 m = committed w m"
        using w1 by (cases "node_reloaded e n") auto
      with \<open>committed w1 m \<noteq> committed w0 m \<or> node_reloaded e1 m\<close> same(1) show ?thesis by simp
    qed simp
    then show "armed w1 (ex_csID e1) m (pre_content e1 m) \<and> m \<in> st_Node ` set (ex_plan e1)"
      using Cons.prems(3) w1 same by (simp add: guarded_def)
  qed
  from Cons.IH [OF _ Cons.prems(2) this] Cons.prems(1) u g show ?case
    by (auto intro: evolves_trans)
qed simp


lemma rollback_guarded:
  assumes "rollbackAfterFailure env (e, w, r) = (e', w', r')" "xe_agent env = agent" "guarded committed armed w0 e w"
  shows "guarded committed armed w0 e' w' \<and> evolves e e'"
proof -
  obtain e1 r1 where sdn: "(case ex_sdnPre e of
             Some pre \<Rightarrow>
               if anySDNStepSucceeded e
               then (case restoreSDN env (xe_pve env) pre r of (rb, r) \<Rightarrow> (add_rollback [rb] e, r)) else (e, r)
           | None \<Rightarrow> (e, r)) = (e1, r1)" by fastforce
  then have e1: "e1 = e \<or> (\<exists>rb. e1 = add_rollback [rb] e)"
    by (auto split: option.splits if_splits prod.splits)
  then have g1: "evolves e e1" "guarded committed armed w0 e1 w"
    using assms(3) by (auto simp: guarded_def)
  obtain e2 w2 where n: "undo_nodes env (rev (ex_rollbackNodes e1)) e1 w = (e2, w2)" by fastforce
  obtain e3 r3 where x: "undo_rest env e2 r1 = (e3, r3)" by fastforce
  have eq: "e' = e3" "w' = w2"
    using assms(1) sdn n x by (simp_all add: rollbackAfterFailure_def)
  have g2: "guarded committed armed w0 e2 w2" "evolves e1 e2"
    using undo_nodes_guarded [OF n assms(2) g1(2)] by simp_all
  have g3: "evolves e2 e3" by (rule undo_rest_evolves [OF x])
  have "guarded committed armed w0 e3 w2"
    using g2(1) evolves_node_reloaded [OF g3] evolves_pre_content [OF g3] by (simp add: guarded_def)
  with eq g1 g2 g3 show ?thesis by (blast intro: evolves_trans)
qed


lemma execReload_cases:
  assumes "execReload env st e w = (err, w')" "xe_agent env = agent" "xe_ArmTimer env = Some arm"
  obtains a w1 where "arm (ex_csID e) (st_Node st) (pre_content e (st_Node st)) (ex_deadline e) w = (a, w1)"
    and "if a = None then \<exists>x. na_Reload agent (st_Node st) w1 = (x, w') \<and> err = map_option XAgent x
         else err \<noteq> None \<and> w' = w1"
proof -
  obtain a w1 where a: "arm (ex_csID e) (st_Node st) (pre_content e (st_Node st)) (ex_deadline e) w = (a, w1)"
    by fastforce
  with assms show ?thesis
    by (intro that [OF a]) (auto simp: execReload_def split: option.splits prod.splits)
qed

lemma execStep_armed:
  assumes "execStep env i (e, w, r) = (None, e', w', r')" "xe_agent env = agent" "xe_ArmTimer env = Some arm"
    and "st_Kind (ex_plan e ! i) = StepReload"
  shows "armed w' (ex_csID e) (st_Node (ex_plan e ! i)) (pre_content e (st_Node (ex_plan e ! i)))"
proof -
  have "execReload env (ex_plan e ! i) e w = (None, w')"
    using execStep_nodes [OF assms(1)] assms(4) by simp
  from execReload_cases [OF this assms(2,3)] show ?thesis
    by (metis arm_arms reload_only)
qed

lemma execStep_guarded:
  assumes "execStep env i (e, w, r) = (err, e', w', r')" "xe_agent env = agent" "xe_ArmTimer env = Some arm"
    and "guarded committed armed w0 e w" "i < length (ex_plan e)"
  shows "guarded committed armed w0 e' w'"
proof -
  have g: "evolves e e'" by (rule execStep_evolves [OF assms(1)])
  have same: "node_reloaded e' m = node_reloaded e m" "pre_content e' m = pre_content e m" "ex_csID e' = ex_csID e"
      "ex_plan e' = ex_plan e" for m
    using evolves_node_reloaded [OF g] evolves_pre_content [OF g] by simp_all
  have i: "st_Node (ex_plan e ! i) \<in> st_Node ` set (ex_plan e)" using assms(5) by simp
  from execStep_nodes [OF assms(1)] show ?thesis
  proof (elim disjE conjE, goal_cases)
    case 1
    then have "committed w' = committed w \<and> armed w' = armed w"
      by (auto simp: execStageFile_def assms(2) split: sum.splits prod.splits dest: stage_keeps)
    with assms(4) same show ?case by (simp add: guarded_def)
  next
    case 2
    from execReload_cases [OF 2(2) assms(2,3)] obtain a w1 where
      a: "arm (ex_csID e) (st_Node (ex_plan e ! i)) (pre_content e (st_Node (ex_plan e ! i))) (ex_deadline e) w = (a, w1)"
      and x: "if a = None then \<exists>x. na_Reload agent (st_Node (ex_plan e ! i)) w1 = (x, w') \<and> err = map_option XAgent x
         else err \<noteq> None \<and> w' = w1" by metis
    show ?case
    proof (cases a)
      case (Some y)
      then have "w' = w1" using x by simp
      with arm_keeps [OF a] arm_arms [OF a] assms(4) same i show ?thesis
        unfolding guarded_def by metis
    next
      case None
      then obtain y where "na_Reload agent (st_Node (ex_plan e ! i)) w1 = (y, w')" using x by auto
      with reload_only [OF this] arm_keeps [OF a] arm_arms [OF a] None assms(4) same i show ?thesis
        unfolding guarded_def by metis
    qed
  next
    case 3
    with assms(4) same show ?case by (simp add: guarded_def)
  qed
qed

lemma runSteps_guarded:
  assumes "runSteps env is (e, w, r) = (err, e', w', r')" "xe_agent env = agent" "xe_ArmTimer env = Some arm"
    and "guarded committed armed w0 e w" "fits e" "\<And>i. i \<in> set is \<Longrightarrow> i < length (ex_plan e)"
  shows "guarded committed armed w0 e' w' \<and> static e' = static e"
  using assms
proof (induction "is" arbitrary: e w r)
  case (Cons i "is")
  obtain x e1 w1 r1 where s: "execStep env i (e, w, r) = (x, e1, w1, r1)" by (metis prod_cases4)
  have i: "i < length (ex_plan e)" using Cons.prems(6) by simp
  have g: "guarded committed armed w0 e1 w1" by (rule execStep_guarded [OF s Cons.prems(2-4) i])
  have gr: "evolves e e1" by (rule execStep_evolves [OF s])
  have f: "fits e1" using Cons.prems(5) evolves_fits [OF gr] by simp
  show ?case
  proof (cases x)
    case (Some y)
    have "guarded committed armed w0 (fail_log i y e1) w1"
      using g by (auto simp: guarded_def dest: reloaded_fail [OF f])
    moreover have "rollbackAfterFailure env (fail_log i y e1, w1, r1) = (e', w', r')"
      using Cons.prems(1) s Some by simp
    ultimately show ?thesis
      using rollback_guarded [OF _ Cons.prems(2)] gr by (metis fail_log_static evolves_def)
  next
    case None
    let ?e = "upd_step i (\<lambda>s. s\<lparr>sl_Status := StepOK\<rparr>) e1"
    have st: "static ?e = static e1" by simp
    have p: "ex_plan e1 = ex_plan e" using gr by (simp add: evolves_def static_def)
    have "armed w1 (ex_csID ?e) n (pre_content ?e n) \<and> n \<in> st_Node ` set (ex_plan ?e)" if "ex_loadIx e1 n = Some i" for n
    proof -
      have n: "st_Kind (ex_plan e ! i) = StepReload" "st_Node (ex_plan e ! i) = n"
        using that f p by (auto simp: fits_def)
      then have "n \<in> st_Node ` set (ex_plan e)" using nth_mem [OF i] by blast
      with n execStep_armed [OF s [unfolded None] Cons.prems(2,3)] show ?thesis
        using gr st p by (simp add: evolves_def static_def pre_content_def)
    qed
    then have "guarded committed armed w0 ?e w1"
      using g unfolding guarded_def by (auto dest: reloaded_mark [OF f])
    from Cons.IH [OF _ Cons.prems(2,3) this] Cons.prems(1,6) s None f gr p show ?thesis
      by (simp add: fits_mark evolves_def)
  qed
qed simp

end



section \<open>Convergence: a failed run restores the nodes or says which it could not\<close>

text \<open>Between two steps, only nodes whose reload completed differ from the start.\<close>

definition clean :: "('w \<Rightarrow> string \<Rightarrow> string option) \<Rightarrow> 'w \<Rightarrow> 'q executor \<Rightarrow> 'w \<Rightarrow> bool" where
  "clean committed w0 e w \<longleftrightarrow> (\<forall>n. \<not> node_reloaded e n \<longrightarrow> committed w n = committed w0 n)"

definition failed_entry :: "string \<Rightarrow> 'q executor \<Rightarrow> bool" where
  "failed_entry n e \<longleftrightarrow> (\<exists>rb \<in> set (al_Rollback (ex_log e)). rb_Node rb = n \<and> rb_Status rb = StepFailed)"

text \<open>
  An executor that starts from the state \<open>w0\<close> of the nodes: its indexes point to the reload steps, the
  nodes with a reload are among those it rolls back, and their snapshot is what they hold.
\<close>

definition ready :: "('w \<Rightarrow> string \<Rightarrow> string option) \<Rightarrow> 'w \<Rightarrow> 'q executor \<Rightarrow> bool" where
  "ready committed w0 e \<longleftrightarrow> fits e \<and> indexed e \<and> distinct (ex_rollbackNodes e) \<and>
     length (statuses e) = length (ex_plan e) \<and>
     (\<forall>n i. ex_loadIx e n = Some i \<longrightarrow> n \<in> set (ex_rollbackNodes e) \<and> committed w0 n = Some (pre_content e n))"

lemma ready_cong:
  assumes "static e' = static e" "length (statuses e') = length (statuses e)"
  shows "ready committed w0 e' = ready committed w0 e"
  using assms fits_cong [OF assms] by (simp add: ready_def indexed_def static_def pre_content_def)

lemma reloaded_fail_iff:
  assumes "fits e" "statuses e ! i \<noteq> StepOK"
  shows "node_reloaded (fail_log i err e) n = node_reloaded e n"
proof
  assume "node_reloaded e n"
  then obtain j where j: "ex_loadIx e n = Some j" "statuses e ! j = StepOK" "j < length (statuses e)"
    using assms(1) by (auto simp: node_reloaded_iff) (auto simp: fits_def)
  then have "i \<noteq> j" using assms(2) by blast
  with j have "statuses (fail_log i err e) ! j = StepOK"
    by (simp add: statuses_fail_log)
  moreover have "ex_loadIx (fail_log i err e) n = Some j"
    using j(1) fail_log_static [of i err e] by (simp add: static_def)
  ultimately show "node_reloaded (fail_log i err e) n"
    using assms(1) by (simp add: node_reloaded_iff fits_fail)
qed (rule reloaded_fail [OF assms(1)])

lemma reloaded_mark_iff:
  assumes "fits e" "i < length (statuses e)"
  shows "node_reloaded (upd_step i (\<lambda>s. s\<lparr>sl_Status := StepOK\<rparr>) e) n \<longleftrightarrow> node_reloaded e n \<or> ex_loadIx e n = Some i"
proof -
  let ?e = "upd_step i (\<lambda>s. s\<lparr>sl_Status := StepOK\<rparr>) e"
  have "ex_loadIx ?e = ex_loadIx e" by (simp add: upd_step_def)
  moreover have "statuses ?e ! j = StepOK \<longleftrightarrow> statuses e ! j = StepOK \<or> j = i" for j
    using assms(2) by (cases "j = i") (simp_all add: statuses_mark_ok)
  ultimately show ?thesis
    using assms(1) by (auto simp: node_reloaded_iff fits_mark)
qed

lemma failed_entry_evolves: "evolves e e' \<Longrightarrow> failed_entry n e \<Longrightarrow> failed_entry n e'"
  by (auto simp: failed_entry_def evolves_def)

lemma failed_entry_add:
  "failed_entry n (add_rollback [rollback_entry m s err] e) \<longleftrightarrow> failed_entry n e \<or> n = m \<and> err \<noteq> None"
  by (auto simp: failed_entry_def rollback_entry_def)

locale restorable_nodes = node_agent_contract agent committed pending sound
  for agent :: "'w node_agent" and committed pending sound +
  fixes arm :: "string \<Rightarrow> string \<Rightarrow> string \<Rightarrow> int \<Rightarrow> 'w \<Rightarrow> exec_err option \<times> 'w"
  assumes arm_law: "arm i n c d w = (y, w') \<Longrightarrow> sound w \<Longrightarrow>
      sound w' \<and> committed w' = committed w \<and> pending w' = pending w"
begin

lemma execReload_effect:
  assumes "execReload env st e w = (err, w')" "xe_agent env = agent" "xe_ArmTimer env \<in> {None, Some arm}" "sound w"
  shows "sound w' \<and> (\<forall>m. err \<noteq> None \<or> m \<noteq> st_Node st \<longrightarrow> committed w' m = committed w m)"
proof -
  obtain a w1 where a: "(case xe_ArmTimer env of None \<Rightarrow> (None, w)
      | Some arm \<Rightarrow> arm (ex_csID e) (st_Node st) (pre_content e (st_Node st)) (ex_deadline e) w) = (a, w1)" by fastforce
  then have w1: "sound w1 \<and> committed w1 = committed w"
    using assms(3,4) arm_law by auto
  show ?thesis
  proof (cases a)
    case (Some y)
    then have "w' = w1" using assms(1) a by (simp add: execReload_def)
    with w1 show ?thesis by simp
  next
    case None
    then obtain x where x: "na_Reload agent (st_Node st) w1 = (x, w')" "err = map_option XAgent x"
      using assms(1,2) a by (auto simp: execReload_def split: prod.splits)
    from reload_law [OF x(1)] w1 x(2) show ?thesis by (cases x) auto
  qed
qed

lemma execStep_effect:
  assumes "execStep env i (e, w, r) = (err, e', w', r')" "xe_agent env = agent" "xe_ArmTimer env \<in> {None, Some arm}" "sound w"
  shows "sound w' \<and> (\<forall>m. err \<noteq> None \<or> st_Kind (ex_plan e ! i) \<noteq> StepReload \<or> m \<noteq> st_Node (ex_plan e ! i) \<longrightarrow>
    committed w' m = committed w m)"
  using execStep_nodes [OF assms(1)]
proof (elim disjE conjE, goal_cases)
  case 1
  then have "sound w' \<and> committed w' = committed w"
    using assms(4) by (auto simp: execStageFile_def assms(2) split: sum.splits prod.splits dest: stage_law)
  then show ?case by simp
next
  case 2
  from execReload_effect [OF 2(2) assms(2-4)] 2(1) show ?case by simp
next
  case 3
  then show ?case using assms(4) by simp
qed

text \<open>Undoing the nodes of a list, each once.\<close>

lemma undo_nodes_effect:
  assumes "undo_nodes env nodes e w = (e', w')" "xe_agent env = agent" "sound w" "distinct nodes"
  shows "sound w' \<and> evolves e e' \<and> (\<forall>n. committed w' n = committed w n \<or>
      n \<in> set nodes \<and> node_reloaded e n \<and> committed w' n = Some (pre_content e n)) \<and>
    (\<forall>n \<in> set nodes. node_reloaded e n \<longrightarrow> committed w' n = Some (pre_content e n) \<or> failed_entry n e')"
  using assms
proof (induction nodes arbitrary: e w)
  case (Cons n nodes)
  obtain e1 w1 where u: "undoNode env n (node_reloaded e n) e w = (e1, w1)" by fastforce
  obtain err s where e1: "e1 = add_rollback [rollback_entry n s (map_option XAgent err)] e"
    and c: "if node_reloaded e n then restoreNode agent n (pre_content e n) w = (err, w1) else na_Discard agent n w = (err, w1)"
    using undoNode_cases [OF u] Cons.prems(2) by metis
  have w1: "sound w1 \<and> committed w1 = (if node_reloaded e n \<and> err = None then (committed w)(n := Some (pre_content e n)) else committed w)"
    using c Cons.prems(3) restoreNode_law discard_law by (cases "node_reloaded e n") (auto split: if_splits)
  have f: "err \<noteq> None \<Longrightarrow> failed_entry n e1"
    by (simp add: e1 failed_entry_add)
  have n: "undo_nodes env nodes e1 w1 = (e', w')" using Cons.prems(1) u by simp
  note IH = Cons.IH [OF n Cons.prems(2)]
  have ih: "sound w' \<and> evolves e1 e' \<and> (\<forall>m. committed w' m = committed w1 m \<or>
      m \<in> set nodes \<and> node_reloaded e m \<and> committed w' m = Some (pre_content e m)) \<and>
    (\<forall>m \<in> set nodes. node_reloaded e m \<longrightarrow> committed w' m = Some (pre_content e m) \<or> failed_entry m e')"
    using IH w1 Cons.prems(4) by (simp add: e1)
  have g: "evolves e e'" using ih e1 evolves_trans [of e e1 e'] by simp
  have fn: "err \<noteq> None \<Longrightarrow> failed_entry n e'"
    using f failed_entry_evolves ih by blast
  show ?case
  proof (intro conjI allI ballI impI)
    show "sound w'" "evolves e e'" using ih g by simp_all
    show "committed w' m = committed w m \<or>
      m \<in> set (n # nodes) \<and> node_reloaded e m \<and> committed w' m = Some (pre_content e m)" for m
      using ih w1 by (cases "m = n") (auto split: if_splits)
    show "committed w' m = Some (pre_content e m) \<or> failed_entry m e'"
      if "m \<in> set (n # nodes)" "node_reloaded e m" for m
    proof (cases "m = n")
      case True
      have "committed w' n = committed w1 n"
        using ih Cons.prems(4) by auto
      with True that w1 fn show ?thesis by (cases err) auto
    next
      case False
      then show ?thesis using ih that by simp
    qed
  qed
qed simp


lemma rollback_effect:
  assumes "rollbackAfterFailure env (e, w, r) = (e', w', r')" "xe_agent env = agent" "sound w"
    and "ready committed w0 e" "clean committed w0 e w"
  shows "committed w' n = committed w0 n \<or> failed_entry n e'"
proof -
  obtain e1 r1 where sdn: "(case ex_sdnPre e of
             Some pre \<Rightarrow>
               if anySDNStepSucceeded e
               then (case restoreSDN env (xe_pve env) pre r of (rb, r) \<Rightarrow> (add_rollback [rb] e, r)) else (e, r)
           | None \<Rightarrow> (e, r)) = (e1, r1)" by fastforce
  then have e1: "e1 = e \<or> (\<exists>rb. e1 = add_rollback [rb] e)"
    by (auto split: option.splits if_splits prod.splits)
  then have same: "node_reloaded e1 m = node_reloaded e m" "pre_content e1 m = pre_content e m"
      "ex_rollbackNodes e1 = ex_rollbackNodes e" for m
    by (auto simp: add_rollback_def node_reloaded_def pre_content_def cong: option.case_cong)
  obtain e2 w2 where n: "undo_nodes env (rev (ex_rollbackNodes e1)) e1 w = (e2, w2)" by fastforce
  obtain e3 r3 where x: "undo_rest env e2 r1 = (e3, r3)" by fastforce
  have eq: "e' = e3" "w' = w2"
    using assms(1) sdn n x by (simp_all add: rollbackAfterFailure_def)
  have u: "committed w2 n = committed w n \<or> node_reloaded e n \<and> committed w2 n = Some (pre_content e n)"
      "n \<in> set (ex_rollbackNodes e) \<Longrightarrow> node_reloaded e n \<Longrightarrow> committed w2 n = Some (pre_content e n) \<or> failed_entry n e2"
    using undo_nodes_effect [OF n assms(2,3)] assms(4) by (auto simp: same ready_def)
  have g3: "failed_entry n e2 \<Longrightarrow> failed_entry n e3"
    by (rule failed_entry_evolves [OF undo_rest_evolves [OF x]])
  show ?thesis
  proof (cases "node_reloaded e n")
    case True
    then obtain i where "ex_loadIx e n = Some i" by (auto simp: node_reloaded_def split: option.splits)
    with True u(2) assms(4) g3 eq show ?thesis by (auto simp: ready_def)
  next
    case False
    with u(1) assms(5) eq show ?thesis by (simp add: clean_def)
  qed
qed

lemma runSteps_converges:
  assumes "runSteps env is (e, w, r) = (res, e', w', r')" "xe_agent env = agent" "xe_ArmTimer env \<in> {None, Some arm}" "sound w"
    and "ready committed w0 e" "clean committed w0 e w"
    and "distinct is" "\<And>i. i \<in> set is \<Longrightarrow> i < length (ex_plan e) \<and> statuses e ! i \<noteq> StepOK"
  shows "if res = None then clean committed w0 e' w' else committed w' n = committed w0 n \<or> failed_entry n e'"
  using assms
proof (induction "is" arbitrary: e w r)
  case (Cons i "is")
  obtain x e1 w1 r1 where s: "execStep env i (e, w, r) = (x, e1, w1, r1)" by (metis prod_cases4)
  have gr: "evolves e e1" by (rule execStep_evolves [OF s])
  have rd: "ready committed w0 e1"
    using Cons.prems(5) ready_cong [of e1 e committed w0] gr by (simp add: evolves_def)
  have re: "node_reloaded e1 m = node_reloaded e m" for m by (rule evolves_node_reloaded [OF gr])
  have ss: "statuses e1 = statuses e" "ex_plan e1 = ex_plan e" "ex_loadIx e1 = ex_loadIx e"
    using gr by (simp_all add: evolves_def static_def)
  have eff: "sound w1" "\<And>m. x \<noteq> None \<or> st_Kind (ex_plan e ! i) \<noteq> StepReload \<or> m \<noteq> st_Node (ex_plan e ! i) \<Longrightarrow> committed w1 m = committed w m"
    using execStep_effect [OF s Cons.prems(2-4)] by simp_all
  have i: "i < length (ex_plan e)" "statuses e ! i \<noteq> StepOK" using Cons.prems(8) by simp_all
  show ?case
  proof (cases x)
    case (Some y)
    have rb: "rollbackAfterFailure env (fail_log i y e1, w1, r1) = (e', w', r')" "res = Some y"
      using Cons.prems(1) s Some by simp_all
    have "clean committed w0 (fail_log i y e1) w1"
      using Cons.prems(6) eff(2) Some reloaded_fail_iff [of e1 i y] rd i ss re by (simp add: clean_def ready_def)
    moreover have "ready committed w0 (fail_log i y e1)"
      using rd by (subst ready_cong [of _ e1]) (simp_all add: statuses_fail_log)
    ultimately show ?thesis using rollback_effect [OF rb(1) Cons.prems(2) eff(1)] rb(2) by simp
  next
    case None
    let ?e = "upd_step i (\<lambda>s. s\<lparr>sl_Status := StepOK\<rparr>) e1"
    have run: "runSteps env is (?e, w1, r1) = (res, e', w', r')" using Cons.prems(1) s None by simp
    have rd': "ready committed w0 ?e" using rd by (subst ready_cong [of _ e1]) simp_all
    have "committed w1 m = committed w0 m" if "\<not> node_reloaded ?e m" for m
    proof -
      have m: "\<not> node_reloaded e m" "ex_loadIx e m \<noteq> Some i"
        using that reloaded_mark_iff [of e1 i m] rd i ss re by (simp_all add: ready_def)
      have "st_Kind (ex_plan e ! i) \<noteq> StepReload \<or> m \<noteq> st_Node (ex_plan e ! i)"
        using m(2) i(1) Cons.prems(5) by (auto simp: ready_def indexed_def)
      with eff(2) Cons.prems(6) m(1) show ?thesis by (simp add: clean_def)
    qed
    then have cl: "clean committed w0 ?e w1" by (simp add: clean_def)
    have "j < length (ex_plan ?e) \<and> statuses ?e ! j \<noteq> StepOK" if "j \<in> set is" for j
    proof -
      have "j \<noteq> i" using that Cons.prems(7) by auto
      moreover have "ex_plan ?e = ex_plan e1" by (simp add: upd_step_def)
      ultimately show ?thesis using that Cons.prems(8) [of j] ss by (simp add: statuses_mark_ok)
    qed
    with Cons.IH [OF run Cons.prems(2,3) eff(1) rd' cl] Cons.prems(7) show ?thesis by simp
  qed
qed (simp add: clean_def)

lemma execStep_stage_ok:
  assumes "execStep env i (e, w, r) = (None, e', w', r')" "xe_agent env = agent" "sound w"
    and "st_Kind (ex_plan e ! i) = StepStageFile"
  obtains c where "xe_computeStagedFile env (pre_content e (st_Node (ex_plan e ! i))) (st_Node (ex_plan e ! i)) (st_OpIdx (ex_plan e ! i)) = Inr c"
    and "sound w'" "committed w' = committed w" "pending w' (st_Node (ex_plan e ! i)) = Some c"
proof -
  have "execStageFile env (ex_plan e ! i) e w = (None, w')"
    using execStep_nodes [OF assms(1)] assms(4) assms(1) by (auto simp: execStep_def Let_def split: prod.splits)
  then obtain c where c: "xe_computeStagedFile env (pre_content e (st_Node (ex_plan e ! i))) (st_Node (ex_plan e ! i)) (st_OpIdx (ex_plan e ! i)) = Inr c"
    "na_Stage agent (st_Node (ex_plan e ! i)) c w = (None, w')"
    by (auto simp: execStageFile_def assms(2) split: sum.splits prod.splits)
  from stage_law [OF c(2) assms(3)] that [OF c(1)] show thesis by simp
qed

lemma execStep_reload_ok:
  assumes "execStep env i (e, w, r) = (None, e', w', r')" "xe_agent env = agent" "xe_ArmTimer env \<in> {None, Some arm}" "sound w"
    and "st_Kind (ex_plan e ! i) = StepReload"
  shows "sound w' \<and> committed w' = (committed w)(st_Node (ex_plan e ! i) := pending w (st_Node (ex_plan e ! i)))"
proof -
  let ?st = "ex_plan e ! i"
  have x: "execReload env ?st e w = (None, w')"
    using execStep_nodes [OF assms(1)] assms(5) by simp
  obtain a w1 where a: "(case xe_ArmTimer env of None \<Rightarrow> (None, w)
      | Some arm \<Rightarrow> arm (ex_csID e) (st_Node ?st) (pre_content e (st_Node ?st)) (ex_deadline e) w) = (a, w1)" by fastforce
  then have w1: "sound w1 \<and> committed w1 = committed w \<and> pending w1 = pending w"
    using assms(3,4) arm_law by auto
  have "na_Reload agent (st_Node ?st) w1 = (None, w')"
    using x a by (auto simp: execReload_def assms(2) split: prod.splits option.splits)
  from reload_law [OF this] w1 show ?thesis by simp
qed

lemma runSteps_next:
  assumes "runSteps env [k..<length (ex_plan e)] (e, w, r) = (None, e', w', r')" "drop k (ex_plan e) = s # p"
  obtains e1 e2 w1 r1 where "execStep env k (e, w, r) = (None, e1, w1, r1)" "ex_plan e ! k = s"
    and "runSteps env [Suc k..<length (ex_plan e2)] (e2, w1, r1) = (None, e', w', r')" "drop (Suc k) (ex_plan e2) = p"
    and "\<And>n. pre_content e2 n = pre_content e n"
proof -
  obtain x e1 w1 r1 where x: "execStep env k (e, w, r) = (x, e1, w1, r1)" by (metis prod_cases4)
  let ?e = "upd_step k (\<lambda>s. s\<lparr>sl_Status := StepOK\<rparr>) e1"
  have k: "k < length (ex_plan e)" using assms(2) by (metis drop_eq_Nil list.discI not_less)
  then have "ex_plan e ! k = s" "drop (Suc k) (ex_plan e) = p"
    using assms(2) by (auto simp flip: Cons_nth_drop_Suc)
  moreover have g: "ex_plan ?e = ex_plan e" "pre_content ?e n = pre_content e n" for n
    using execStep_evolves [OF x] by (auto simp: upd_step_def evolves_def static_def pre_content_def)
  moreover have "x = None" "runSteps env [Suc k..<length (ex_plan e)] (?e, w1, r1) = (None, e', w', r')"
    using assms(1) x k by (simp_all add: upt_conv_Cons split: option.splits)
  ultimately show thesis using that x by metis
qed

text \<open>A run that succeeds over the rest of a plan commits what was computed for each of its nodes.\<close>

lemma runSteps_success:
  assumes "runSteps env [k..<length (ex_plan e)] (e, w, r) = (None, e', w', r')" "xe_agent env = agent"
    and "xe_ArmTimer env \<in> {None, Some arm}" "sound w" "paired p" "drop k (ex_plan e) = p"
    and "distinct (map st_Node (filter (\<lambda>s. st_Kind s = StepStageFile) p))"
  shows "(\<forall>s \<in> set p. st_Kind s = StepStageFile \<longrightarrow>
      (\<exists>c. xe_computeStagedFile env (pre_content e (st_Node s)) (st_Node s) (st_OpIdx s) = Inr c \<and> committed w' (st_Node s) = Some c)) \<and>
    (\<forall>n. (\<forall>s \<in> set p. st_Kind s = StepStageFile \<longrightarrow> st_Node s \<noteq> n) \<longrightarrow> committed w' n = committed w n)"
  using assms
proof (induction p arbitrary: k e w r rule: paired.induct)
  case 1
  then show ?case by simp
next
  case (2 s)
  from runSteps_next [OF 2(1,6)] obtain e1 e2 w1 r1 where n: "execStep env k (e, w, r) = (None, e1, w1, r1)"
    "ex_plan e ! k = s" "runSteps env [Suc k..<length (ex_plan e2)] (e2, w1, r1) = (None, e', w', r')"
    "drop (Suc k) (ex_plan e2) = []" by metis
  have "w1 = w" using execStep_nodes [OF n(1)] n(2) 2(5) by auto
  with n(3,4) 2(5) show ?case by simp
next
  case (3 s t p)
  from runSteps_next [OF 3(3,8)] obtain e1 e2 w1 r1 where n: "execStep env k (e, w, r) = (None, e1, w1, r1)"
    "ex_plan e ! k = s" "runSteps env [Suc k..<length (ex_plan e2)] (e2, w1, r1) = (None, e', w', r')"
    "drop (Suc k) (ex_plan e2) = t # p" "\<And>n. pre_content e2 n = pre_content e n" by metis
  show ?case
  proof (cases "st_Kind s = StepStageFile")
    case False
    have "w1 = w" using execStep_nodes [OF n(1)] n(2) 3(7) False by auto
    with "3.IH"(2) [OF False n(3) 3(4,5) _ _ n(4)] 3(6,7,9) False n(5) show ?thesis by simp
  next
    case True
    from execStep_stage_ok [OF n(1) 3(4,6)] n(2) True obtain c where
      c: "xe_computeStagedFile env (pre_content e (st_Node s)) (st_Node s) (st_OpIdx s) = Inr c"
      "sound w1" "committed w1 = committed w" "pending w1 (st_Node s) = Some c" by metis
    from runSteps_next [OF n(3,4)] obtain e3 e4 w2 r2 where m: "execStep env (Suc k) (e2, w1, r1) = (None, e3, w2, r2)"
      "ex_plan e2 ! Suc k = t" "runSteps env [Suc (Suc k)..<length (ex_plan e4)] (e4, w2, r2) = (None, e', w', r')"
      "drop (Suc (Suc k)) (ex_plan e4) = p" "\<And>n. pre_content e4 n = pre_content e2 n" by metis
    have t: "st_Kind t = StepReload" "st_Node t = st_Node s" "paired p" using 3(7) True by simp_all
    have w2: "sound w2" "committed w2 = (committed w)(st_Node s \<mapsto> c)"
      using execStep_reload_ok [OF m(1) 3(4,5) c(2)] m(2) t c by simp_all
    have d: "\<forall>s' \<in> set p. st_Kind s' = StepStageFile \<longrightarrow> st_Node s' \<noteq> st_Node s"
      "distinct (map st_Node (filter (\<lambda>s. st_Kind s = StepStageFile) p))"
      using 3(9) True t(1) by (auto simp: image_iff)
    note ih = "3.IH"(1) [OF True m(3) 3(4,5) w2(1) t(3) m(4) d(2)]
    have "committed w' (st_Node s) = Some c" using ih d(1) w2(2) by auto
    moreover have "committed w' n = committed w n" if "\<forall>s' \<in> set p. st_Kind s' = StepStageFile \<longrightarrow> st_Node s' \<noteq> n" "n \<noteq> st_Node s" for n
      using ih that w2(2) by auto
    ultimately show ?thesis using ih True c(1) t(1) n(5) m(5) by auto
  qed
qed

end

end
