(* ===== verification/Cluster_Apply.thy ===== *)
theory Cluster_Apply
  imports Apply_Exec
begin

text \<open>
  The executor on the cluster: the nodes are those of \<open>Node_Agent\<close>, each with its own timer table
  of \<open>Local_Timer\<close>, reached through \<open>ClusterNodeAgent\<close> and \<open>ClusterTimerAgent\<close>
  (\<^verbatim>\<open>src/internal/change/cluster_agent.go\<close>). The two contracts the executor's lemmas rest on are
  discharged here, and the guarantees of an apply follow for every plan that \<open>BuildPlan\<close> makes.
\<close>

section \<open>The nodes with their timers\<close>

text \<open>\<open>nw_tenv k\<close> is what a node's store and clock do during the \<open>k\<close>-th call of the cluster.\<close>

record node_world =
  nw_cluster :: cluster
  nw_timers :: "string \<Rightarrow> timer_state"
  nw_tenv :: "nat \<Rightarrow> timer_env"

definition on_cluster :: "(cluster \<Rightarrow> 'x \<times> cluster) \<Rightarrow> node_world \<Rightarrow> 'x \<times> node_world" where
  "on_cluster f w = (case f (nw_cluster w) of (x, c) \<Rightarrow> (x, w\<lparr>nw_cluster := c\<rparr>))"

definition world_agent :: "node_world node_agent" where
  "world_agent = \<lparr> na_Read = (\<lambda>n. on_cluster (cluster_ReadInterfaces n)),
     na_Stage = (\<lambda>n c. on_cluster (cluster_StageInterfaces n c)),
     na_Reload = (\<lambda>n. on_cluster (cluster_ReloadInterfaces n)),
     na_Discard = (\<lambda>n. on_cluster (cluster_DiscardStaged n)) \<rparr>"

type_synonym timer_call = "timer_env \<Rightarrow> timer_state \<Rightarrow> (timer_err + TimerRecord) \<times> timer_state"

definition timer_on :: "string \<Rightarrow> timer_call \<Rightarrow> timer_env \<Rightarrow> node_world \<Rightarrow> (timer_call_err + TimerRecord) \<times> node_world" where
  "timer_on node f te w =
     (case f te (nw_timers w node) of (x, s) \<Rightarrow>
        (map_sum TStore id x, w\<lparr>nw_timers := (nw_timers w)(node := s)\<rparr>))"

definition route_timer :: "string \<Rightarrow> timer_call \<Rightarrow> node_world \<Rightarrow> (timer_call_err + TimerRecord) \<times> node_world" where
  "route_timer node f w =
     (let k = cl_time (nw_cluster w); out = cl_env (nw_cluster w) k; te = nw_tenv w k;
          w = w\<lparr>nw_cluster := (nw_cluster w)\<lparr>cl_time := Suc k\<rparr>\<rparr> in
      if node = cl_localNode (nw_cluster w) then timer_on node f te w
      else if \<not> co_known out then (Inl (TPeer ErrUnknownPeerNode), w)
      else case co_net out of
        Delivered \<Rightarrow> timer_on node f te w
      | Dropped \<Rightarrow> (Inl (TPeer ErrPeerUnreachable), w)
      | ReplyLost \<Rightarrow> (Inl (TPeer ErrPeerUnreachable), snd (timer_on node f te w)))"

definition cluster_ArmTimer :: "string \<Rightarrow> string \<Rightarrow> string \<Rightarrow> int \<Rightarrow> node_world \<Rightarrow> (timer_call_err + TimerRecord) \<times> node_world" where
  "cluster_ArmTimer c n content deadline = route_timer n (\<lambda>te. ArmTimer te c n content deadline)"

definition cluster_CancelTimer :: "string \<Rightarrow> string \<Rightarrow> node_world \<Rightarrow> (timer_call_err + TimerRecord) \<times> node_world" where
  "cluster_CancelTimer c n = route_timer n (\<lambda>te. CancelTimer te c n)"

definition cluster_TimerStatus :: "string \<Rightarrow> string \<Rightarrow> node_world \<Rightarrow> (timer_call_err + TimerRecord) \<times> node_world" where
  "cluster_TimerStatus c n = route_timer n (\<lambda>te s. (TimerStatus te c n s, s))"

text \<open>What the executor sees of arming a timer: the error.\<close>

definition arm_err :: "timer_call_err \<Rightarrow> exec_err" where
  "arm_err e = (case e of TPeer a \<Rightarrow> XAgent a | TStore _ \<Rightarrow> XGateway ''node timer store'')"

definition world_arm :: "string \<Rightarrow> string \<Rightarrow> string \<Rightarrow> int \<Rightarrow> node_world \<Rightarrow> exec_err option \<times> node_world" where
  "world_arm c n content deadline w =
     (case cluster_ArmTimer c n content deadline w of
        (Inl e, w) \<Rightarrow> (Some (arm_err e), w) | (Inr _, w) \<Rightarrow> (None, w))"

text \<open>The executor's environment with the cluster's agents wired in.\<close>

definition on_nodes :: "('q, node_world, 'r) exec_env \<Rightarrow> ('q, node_world, 'r) exec_env" where
  "on_nodes env = env\<lparr>xe_agent := world_agent, xe_ArmTimer := Some world_arm\<rparr>"

abbreviation nw_committed :: "node_world \<Rightarrow> string \<Rightarrow> string option" where
  "nw_committed w n \<equiv> cl_committed (nw_cluster w) n"

abbreviation nw_pending :: "node_world \<Rightarrow> string \<Rightarrow> string option" where
  "nw_pending w n \<equiv> cl_pending (nw_cluster w) n"

abbreviation nw_sound :: "node_world \<Rightarrow> bool" where
  "nw_sound w \<equiv> cl_sound (nw_cluster w)"

text \<open>The timer of changeset \<open>c\<close> on node \<open>n\<close> is in the table, runs, and holds the given content.\<close>

definition armed_with :: "node_world \<Rightarrow> string \<Rightarrow> string \<Rightarrow> string \<Rightarrow> bool" where
  "armed_with w c n content \<longleftrightarrow> (\<exists>t. map_of (ts_rows (nw_timers w n)) (c, n) = Some t \<and>
     nt_Status t = NodeTimerArmed \<and> nt_PreContent t = content \<and>
     ts_timers (nw_timers w n) (timerKey c n) = Some ((c, n), nt_Deadline t))"


section \<open>The contracts hold\<close>

lemma on_cluster_result:
  "on_cluster f w = (x, w') \<Longrightarrow> f (nw_cluster w) = (x, nw_cluster w') \<and> nw_timers w' = nw_timers w"
  by (auto simp: on_cluster_def split: prod.splits)

lemma route_other_files:
  assumes "route n f w = (x, w')"
    and f: "\<And>os fs y fs'. f os fs = (y, fs') \<Longrightarrow> R fs fs'" and R: "\<And>fs. R fs fs"
  shows "R (cl_files w n) (cl_files w' n) \<and> (\<forall>m. m \<noteq> n \<longrightarrow> cl_files w' m = cl_files w m)"
proof -
  let ?o = "cl_env w (cl_time w)"
  obtain y fs1 where f1: "f (co_os ?o) (cl_files w n) = (y, fs1)" by fastforce
  show ?thesis
    using assms(1) f [OF f1] R f1
    by (auto simp: route_def run_on_def Let_def split: if_splits net_outcome.splits)
qed

lemma cluster_Read_keeps:
  assumes "cluster_ReadInterfaces n w = (x, w')"
  shows "cl_files w' = cl_files w \<and> (\<forall>c. x = Inr c \<longrightarrow> cl_committed w n = Some c)"
  using assms by (auto simp: cluster_ReadInterfaces_def host_ReadInterfaces_def Let_def split: option.splits if_splits)

lemma ArmTimer_armed:
  assumes "ArmTimer te c n content d s = (Inr x, s')"
  shows "\<exists>t. map_of (ts_rows s') (c, n) = Some t \<and> nt_Status t = NodeTimerArmed \<and> nt_PreContent t = content \<and>
    ts_timers s' (timerKey c n) = Some ((c, n), nt_Deadline t)"
  using assms by (auto simp: ArmTimer_def Let_def armRealTimerLocked_def map_of_timers_Arm split: if_splits)

lemma ArmTimer_failed: "ArmTimer te c n content d s = (Inl x, s') \<Longrightarrow> s' = s"
  by (auto simp: ArmTimer_def Let_def split: if_splits)

lemma world_arm_effect:
  assumes "world_arm c n content d w = (y, w')"
  shows "cl_files (nw_cluster w') = cl_files (nw_cluster w) \<and> cl_env (nw_cluster w') = cl_env (nw_cluster w) \<and>
    cl_time (nw_cluster w') = Suc (cl_time (nw_cluster w)) \<and>
    (\<forall>m. m \<noteq> n \<longrightarrow> nw_timers w' m = nw_timers w m) \<and>
    (armed_with w' c n content \<or> y \<noteq> None \<and> nw_timers w' n = nw_timers w n)"
proof -
  let ?k = "cl_time (nw_cluster w)"
  obtain x s where a: "ArmTimer (nw_tenv w ?k) c n content d (nw_timers w n) = (x, s)" by fastforce
  have x: "x = Inr z \<Longrightarrow> armed_with (w\<lparr>nw_cluster := cl, nw_timers := (nw_timers w)(n := s)\<rparr>) c n content" for z cl
    using ArmTimer_armed [of "nw_tenv w ?k"] a by (simp add: armed_with_def)
  have f: "x = Inl z \<Longrightarrow> s = nw_timers w n" for z
    using ArmTimer_failed a by blast
  show ?thesis
    using assms a x f
    by (cases x) (auto simp: world_arm_def cluster_ArmTimer_def route_timer_def timer_on_def Let_def
        split: if_splits net_outcome.splits)
qed

interpretation nodes: guarded_nodes world_agent world_arm nw_committed armed_with
proof
  have rfiles: "(\<forall>m. m \<noteq> n \<longrightarrow> nw_committed w' m = nw_committed w m) \<and> armed_with w' = armed_with w"
    if "na_Reload world_agent n w = (x, w')" for n w x w'
    using on_cluster_result [of "cluster_ReloadInterfaces n" w x w'] that
      route_other_files [of n host_ReloadInterfaces "nw_cluster w" x "nw_cluster w'" "\<lambda>_ _. True"]
    by (simp add: world_agent_def cluster_ReloadInterfaces_def armed_with_def fun_eq_iff)
  show "(\<forall>m. m \<noteq> n \<longrightarrow> nw_committed w' m = nw_committed w m) \<and> armed_with w' = armed_with w"
    if "na_Reload world_agent n w = (x, w')" for n w x w'
    by (rule rfiles [OF that])
  show "nw_committed w' = nw_committed w \<and> armed_with w' = armed_with w \<and> (\<forall>c. x = Inr c \<longrightarrow> nw_committed w n = Some c)"
    if "na_Read world_agent n w = (x, w')" for n w x w'
    using on_cluster_result [of "cluster_ReadInterfaces n" w x w'] cluster_Read_keeps [of n "nw_cluster w"] that
    by (simp add: world_agent_def armed_with_def fun_eq_iff)
  show "nw_committed w' = nw_committed w \<and> armed_with w' = armed_with w"
    if "na_Stage world_agent n c w = (x, w')" for n c w x w'
    using on_cluster_result [of "cluster_StageInterfaces n c" w x w'] that host_Stage_effect
      route_other_files [of n "host_StageInterfaces c" "nw_cluster w" x "nw_cluster w'" "\<lambda>a b. hf_committed b = hf_committed a"]
    by (force simp: world_agent_def cluster_StageInterfaces_def armed_with_def fun_eq_iff)
  show "nw_committed w' = nw_committed w \<and> armed_with w' = armed_with w"
    if "na_Discard world_agent n w = (x, w')" for n w x w'
    using on_cluster_result [of "cluster_DiscardStaged n" w x w'] that host_Discard_effect
      route_other_files [of n host_DiscardStaged "nw_cluster w" x "nw_cluster w'" "\<lambda>a b. hf_committed b = hf_committed a"]
    by (force simp: world_agent_def cluster_DiscardStaged_def armed_with_def fun_eq_iff)
  show "nw_committed w' = nw_committed w \<and> (\<forall>m p. m \<noteq> n \<longrightarrow> armed_with w i m p \<longrightarrow> armed_with w' i m p)"
    if "world_arm i n c d w = (y, w')" for i n c d w y w'
    using world_arm_effect [OF that] by (simp add: armed_with_def)
  show "armed_with w' i n c" if "world_arm i n c d w = (y, w')" "y = None \<or> armed_with w i n c" for i n c d w y w'
    using world_arm_effect [OF that(1)] that(2) by (auto simp: armed_with_def)
qed

interpretation restorable: restorable_nodes world_agent nw_committed nw_pending nw_sound world_arm
proof
  show "nw_sound w' \<and> nw_committed w' = nw_committed w \<and> (\<forall>c. x = Inr c \<longrightarrow> nw_committed w n = Some c)"
    if "na_Read world_agent n w = (x, w')" "nw_sound w" for n w x w'
    using on_cluster_result [of "cluster_ReadInterfaces n" w x w'] cluster.read_law [of n "nw_cluster w"] that
    by (simp add: world_agent_def cluster_agent_def)
  show "nw_sound w' \<and> nw_committed w' = nw_committed w \<and> (x = None \<longrightarrow> nw_pending w' n = Some c)"
    if "na_Stage world_agent n c w = (x, w')" "nw_sound w" for n c w x w'
    using on_cluster_result [of "cluster_StageInterfaces n c" w x w'] cluster.stage_law [of n c "nw_cluster w"] that
    by (simp add: world_agent_def cluster_agent_def)
  show "nw_sound w' \<and> nw_committed w' = (if x = None then (nw_committed w)(n := nw_pending w n) else nw_committed w)"
    if "na_Reload world_agent n w = (x, w')" "nw_sound w" for n w x w'
    using on_cluster_result [of "cluster_ReloadInterfaces n" w x w'] cluster.reload_law [of n "nw_cluster w"] that
    by (simp add: world_agent_def cluster_agent_def)
  show "nw_sound w' \<and> nw_committed w' = nw_committed w"
    if "na_Discard world_agent n w = (x, w')" "nw_sound w" for n w x w'
    using on_cluster_result [of "cluster_DiscardStaged n" w x w'] cluster.discard_law [of n "nw_cluster w"] that
    by (simp add: world_agent_def cluster_agent_def)
  show "nw_sound w' \<and> nw_committed w' = nw_committed w \<and> nw_pending w' = nw_pending w"
    if "world_arm i n c d w = (y, w')" "nw_sound w" for i n c d w y w'
    using world_arm_effect [OF that(1)] that(2) by (auto simp: cl_sound_def)
qed


section \<open>Applying a plan\<close>

lemma on_nodes_simps [simp]: "xe_agent (on_nodes env) = world_agent" "xe_ArmTimer (on_nodes env) = Some world_arm"
    "xe_computeStagedFile (on_nodes env) = xe_computeStagedFile env"
  by (simp_all add: on_nodes_def)

text \<open>The two parts of an apply: the snapshot, and, when it succeeds, the run.\<close>

lemma apply_plan_cases:
  assumes "apply_plan env csID ops plan d w r = (res, l, w', r')"
  obtains y w1 r1 where "captureSnapshotFull env plan w r = (y, w1, r1)"
    and "case y of Inl e \<Rightarrow> res = Some e \<and> w' = w1
      | Inr pre \<Rightarrow> \<exists>e'. run env (newExecutor csID ops plan pre d, w1, r1) = (res, e', w', r') \<and> l = ex_log e'"
proof -
  obtain y w1 r1 where c: "captureSnapshotFull env plan w r = (y, w1, r1)" by (metis prod_cases3)
  show thesis
    by (rule that [OF c]) (use assms c in \<open>auto simp: apply_plan_def split: sum.splits prod.splits\<close>)
qed

lemma reload_nodes_paired:
  "paired p \<Longrightarrow> map st_Node (filter (\<lambda>s. st_Kind s = StepReload) p) = map st_Node (filter (\<lambda>s. st_Kind s = StepStageFile) p)"
  by (induction p rule: paired.induct) (auto split: if_splits)

lemma BuildPlan_files:
  assumes "BuildPlan ops = Inr plan"
  shows "paired plan" "distinct (map st_Node (filter (\<lambda>s. st_Kind s = StepStageFile) plan))"
    "distinct (map st_Node (filter (\<lambda>s. st_Kind s = StepReload) plan))"
proof -
  have p: "plan = plan_spec ops" by (rule BuildPlan_Inr [OF assms])
  show 1: "paired plan" by (simp add: p paired_plan_spec)
  show 2: "distinct (map st_Node (filter (\<lambda>s. st_Kind s = StepStageFile) plan))"
    by (simp only: p stage_files_plan_spec distinct_first_seen)
  show "distinct (map st_Node (filter (\<lambda>s. st_Kind s = StepReload) plan))"
    using 2 by (simp only: reload_nodes_paired [OF 1])
qed

lemma capture_world:
  assumes "captureSnapshotFull (on_nodes env) plan w r = (y, w1, r1)"
  shows "nw_committed w1 = nw_committed w" "nw_sound w \<Longrightarrow> nw_sound w1"
    "y = Inr pre \<Longrightarrow> n \<in> set (affectedNodes plan) \<Longrightarrow> nw_committed w n = Some (pre_content (newExecutor csID ops plan pre d) n)"
proof -
  obtain z where z: "capture_files (on_nodes env) (affectedNodes plan) w = (z, w1)" "\<And>pre. y = Inr pre \<Longrightarrow> z = Inr (ps_files pre)"
    using captureSnapshotFull_files [OF assms] by blast
  have l: "nw_committed w1 = nw_committed w \<and> (\<forall>files. z = Inr files \<longrightarrow> map fst files = affectedNodes plan \<and>
      (\<forall>(n, c) \<in> set files. nw_committed w n = Some c))"
    using capture_files_law [OF z(1), of "\<lambda>_. True" nw_committed] nodes.read_keeps by simp
  then show "nw_committed w1 = nw_committed w" by simp
  show "nw_sound w1" if "nw_sound w"
    using capture_files_law [OF z(1), of nw_sound nw_committed] restorable.read_law that by simp
  show "nw_committed w n = Some (pre_content (newExecutor csID ops plan pre d) n)"
    if "y = Inr pre" "n \<in> set (affectedNodes plan)"
    using pre_content_new [of pre plan nw_committed w n csID ops d] l z(2) [OF that(1)] that(2) by simp
qed

lemma reload_affected:
  "i < length plan \<Longrightarrow> st_Node (plan ! i) \<noteq> [] \<Longrightarrow> st_Node (plan ! i) \<in> set (affectedNodes plan)"
  by (simp add: set_affectedNodes)

lemma reload_nodes_named:
  assumes "BuildPlan ops = Inr plan" "list_all (\<lambda>op. op_Type op \<in> set nodeFileOpTypes \<longrightarrow> ref_Node (op_Target op) \<noteq> []) ops"
    and "s \<in> set plan" "st_Kind s = StepReload"
  shows "st_Node s \<noteq> []"
proof -
  have "st_Node s \<in> set (map st_Node (filter (\<lambda>s. st_Kind s = StepReload) plan))" using assms(3,4) by simp
  also have "\<dots> = set (map fst (node_kvs (enumerate 0 ops)))"
    using BuildPlan_Inr [OF assms(1)] by (simp only: reload_nodes_paired paired_plan_spec stage_files_plan_spec set_first_seen)
  finally obtain op where "op \<in> set ops" "fam (op_Type op) = FNodeFile" "st_Node s = ref_Node (op_Target op)"
    by (auto simp: node_kvs_def sel_def in_set_enumerate_eq) (metis nth_mem)
  then show ?thesis using assms(2) fam_out(5) by (auto simp: list_all_iff)
qed

lemma new_ready:
  assumes "BuildPlan ops = Inr plan" "list_all (\<lambda>op. op_Type op \<in> set nodeFileOpTypes \<longrightarrow> ref_Node (op_Target op) \<noteq> []) ops"
    and "captureSnapshotFull (on_nodes env) plan w r = (Inr pre, w1, r1)"
  shows "ready nw_committed w1 (newExecutor csID ops plan pre d)"
proof -
  have "n \<in> set (affectedNodes plan) \<and> nw_committed w1 n = Some (pre_content (newExecutor csID ops plan pre d) n)"
    if "ex_loadIx (newExecutor csID ops plan pre d) n = Some i" for n i
  proof -
    have i: "i < length plan" "st_Kind (plan ! i) = StepReload" "st_Node (plan ! i) = n"
      using new_loadIx [OF that] by simp_all
    then have "n \<noteq> []" using reload_nodes_named [OF assms(1,2)] nth_mem by blast
    then have "n \<in> set (affectedNodes plan)" using reload_affected i(1,3) by blast
    with capture_world(3) [OF assms(3) refl this] fun_cong [OF capture_world(1) [OF assms(3)], of n]
    show ?thesis by simp
  qed
  then show ?thesis
    using new_indexed [OF BuildPlan_files(3) [OF assms(1)]]
    by (simp add: ready_def new_fits statuses_new affectedNodes_def)
qed


section \<open>An example cluster\<close>

definition ex_two_ops :: "unit plan_op list" where
  "ex_two_ops = [ex_plan_op OpBridgeCreate (mkRef KindBridge ''pve1'' ''vmbr1''),
                 ex_plan_op OpBridgeCreate (mkRef KindBridge ''pve2'' ''vmbr1'')]"

definition ex_two_nodes :: Plan where
  "ex_two_nodes = stage_reload ''pve1'' [0] @ stage_reload ''pve2'' [1]"

lemma ex_two_plan: "BuildPlan ex_two_ops = Inr ex_two_nodes"
  by code_simp

definition ex_env :: "(unit, node_world, unit) exec_env" where
  "ex_env = \<lparr> xe_agent = world_agent, xe_ArmTimer = None, xe_pve = None, xe_qos = None, xe_tcMirror = None,
     xe_wg = None, xe_switches = None, xe_inventory = \<lparr> inv_entities = [], inv_edges = [] \<rparr>,
     xe_computeStagedFile = (\<lambda>pre n is. Inr (pre @ ''+'')), xe_sdnRestoreOps = (\<lambda>_ _. []), xe_zoneIDsOf = (\<lambda>_. []),
     xe_errText = (\<lambda>_. []), xe_store_ok = True \<rparr>"

text \<open>A cluster on which the reload of the call number \<open>bad\<close> fails.\<close>

definition ex_world :: "nat \<Rightarrow> node_world" where
  "ex_world bad = \<lparr> nw_cluster = ex_cluster\<lparr>cl_env := \<lambda>k. \<lparr> co_os = ex_os\<lparr>os_reload1 := (k \<noteq> bad)\<rparr>, co_known = True, co_net = Delivered \<rparr>\<rparr>,
     nw_timers = (\<lambda>_. \<lparr> ts_rows = [], ts_timers = Map.empty \<rparr>), nw_tenv = (\<lambda>_. ex_te) \<rparr>"

lemmas ex_apply_simps = apply_plan_def captureSnapshotFull_def capture_pve_def capture_state_def run_def
  allStepIndexes_def affectedNodes_def first_seen_def see_def ex_two_nodes_def stage_reload_def zero_Step_def ex_env_def
  on_nodes_def ex_world_def world_agent_def on_cluster_def cluster_ReadInterfaces_def cluster_StageInterfaces_def
  cluster_ReloadInterfaces_def cluster_DiscardStaged_def route_def run_on_def host_ReadInterfaces_def
  host_StageInterfaces_def host_ReloadInterfaces_def host_DiscardStaged_def ex_cluster_def ex_files_def ex_os_def
  hasSDN_def hasFw_def has_kind_def execStep_def execStageFile_def execReload_def world_arm_def cluster_ArmTimer_def
  route_timer_def timer_on_def ArmTimer_def armRealTimerLocked_def ex_te_def Let_def pre_content_def newExecutor_def empty_log_def

lemma ex_sound: "nw_sound (ex_world k)"
  by (simp add: ex_world_def cl_sound_def ex_cluster_def no_tear_def ex_os_def)

lemma ex_pre: "nw_committed (ex_world k) n = Some ''old''"
  by (simp add: ex_world_def ex_cluster_def ex_files_def)

lemma ex_apply_ok:
  "case apply_plan (on_nodes ex_env) ''cs1'' ops ex_two_nodes 220 (ex_world 99) () of (res, l, w, r) \<Rightarrow>
     res = None \<and> nw_committed w ''pve2'' = Some ''old+''"
  by (simp add: ex_apply_simps upd_step_def)

lemma ex_apply_fails:
  "case apply_plan (on_nodes ex_env) ''cs1'' ops ex_two_nodes 220 (ex_world 7) () of (res, l, w, r) \<Rightarrow>
     res = Some (XAgent EReload) \<and> map rb_Status (al_Rollback l) = [StepOK, StepOK]"
  by (simp add: ex_apply_simps upd_step_def fail_log_def rollbackAfterFailure_def undoNode_def node_reloaded_def
      restoreNode_def add_rollback_def rollback_entry_def undo_rest_def rollbackIpamSteps_def undoFwTargets_def undo_state_def
      pending_log_def enumerate_eq_zip)


section \<open>Properties\<close>

text \<open>
  C1. The safety net has no holes: whatever goes wrong during an apply (lost requests and replies, torn
  writes, failing stores, a failed rollback), a node whose network file is not what it was before has
  this changeset's timer in its own table and running, holding exactly the file from before. It goes
  back on its own unless someone confirms.
\<close>

theorem changed_node_has_timer:
  assumes "apply_plan (on_nodes env) csID ops plan deadline w r = (res, l, w', r')"
    and "nw_committed w' n \<noteq> nw_committed w n" "n \<noteq> []"
  shows "\<exists>c. nw_committed w n = Some c \<and> armed_with w' csID n c"
proof -
  obtain y w1 r1 where c: "captureSnapshotFull (on_nodes env) plan w r = (y, w1, r1)"
    and x: "case y of Inl e \<Rightarrow> res = Some e \<and> w' = w1
      | Inr pre \<Rightarrow> \<exists>e'. run (on_nodes env) (newExecutor csID ops plan pre deadline, w1, r1) = (res, e', w', r') \<and> l = ex_log e'"
    by (rule apply_plan_cases [OF assms(1)])
  note cap = capture_world [OF c]
  obtain pre where pre: "y = Inr pre"
    using x assms(2) fun_cong [OF cap(1), of n] by (cases y) auto
  let ?e = "newExecutor csID ops plan pre deadline"
  obtain e' where "runSteps (on_nodes env) (allStepIndexes plan) (?e, w1, r1) = (res, e', w', r')"
    using x pre by (auto simp: run_def)
  from nodes.runSteps_guarded [OF this on_nodes_simps(1,2) _ new_fits, of w1]
  have g: "guarded nw_committed armed_with w1 e' w'" "static e' = static ?e"
    by (simp_all add: guarded_def allStepIndexes_def new_not_reloaded)
  have changed: "nw_committed w' n \<noteq> nw_committed w1 n" using assms(2) fun_cong [OF cap(1), of n] by simp
  have "armed_with w' csID n (pre_content ?e n)" "n \<in> st_Node ` set plan"
    using g changed by (auto simp: guarded_def static_def pre_content_def)
  moreover from this(2) have "nw_committed w n = Some (pre_content ?e n)"
    by (intro cap(3) [OF pre]) (simp add: set_affectedNodes assms(3))
  ultimately show ?thesis by blast
qed


theorem changed_node_has_timer_witness:
  "\<exists>res l w r. apply_plan (on_nodes ex_env) ''cs1'' [] ex_two_nodes 220 (ex_world 99) () = (res, l, w, r) \<and>
     armed_with w ''cs1'' ''pve2'' ''old''"
proof -
  obtain res l w r where a: "apply_plan (on_nodes ex_env) ''cs1'' [] ex_two_nodes 220 (ex_world 99) () = (res, l, w, r)"
    by (metis prod_cases4)
  have "nw_committed w ''pve2'' = Some ''old+''" using ex_apply_ok [of "[]"] a by simp
  with changed_node_has_timer [OF a, of "''pve2''"] ex_pre have "armed_with w ''cs1'' ''pve2'' ''old''" by simp
  with a show ?thesis by blast
qed

text \<open>
  C6. A failed apply undoes itself: on nodes whose writes do not tear files and whose replies are not
  lost, every node is back at (or never left) its file from before, unless the rollback log has a
  failed entry for that very node.
\<close>

theorem failed_apply_restores:
  assumes "BuildPlan ops = Inr plan"
    and "list_all (\<lambda>op. op_Type op \<in> set nodeFileOpTypes \<longrightarrow> ref_Node (op_Target op) \<noteq> []) ops"
    and "apply_plan (on_nodes env) csID ops plan deadline w r = (Some err, l, w', r')" "nw_sound w"
  shows "nw_committed w' n = nw_committed w n \<or>
    (\<exists>rb. rb \<in> set (al_Rollback l) \<and> rb_Node rb = n \<and> rb_Status rb = StepFailed)"
proof -
  obtain y w1 r1 where c: "captureSnapshotFull (on_nodes env) plan w r = (y, w1, r1)"
    and x: "case y of Inl e \<Rightarrow> Some err = Some e \<and> w' = w1
      | Inr pre \<Rightarrow> \<exists>e'. run (on_nodes env) (newExecutor csID ops plan pre deadline, w1, r1) = (Some err, e', w', r') \<and> l = ex_log e'"
    by (rule apply_plan_cases [OF assms(3)])
  note cap = fun_cong [OF capture_world(1) [OF c], of n] capture_world(2) [OF c assms(4)]
  show ?thesis
  proof (cases y)
    case (Inl e)
    then show ?thesis using x cap(1) by simp
  next
    case (Inr pre)
    let ?e = "newExecutor csID ops plan pre deadline"
    obtain e' where e': "runSteps (on_nodes env) (allStepIndexes plan) (?e, w1, r1) = (Some err, e', w', r')" "l = ex_log e'"
      using x Inr by (auto simp: run_def)
    have "clean nw_committed w1 ?e w1" by (simp add: clean_def)
    from restorable.runSteps_converges [OF e'(1) on_nodes_simps(1) _ cap(2) new_ready [OF assms(1,2) c [unfolded Inr]] this, of n]
    have "nw_committed w' n = nw_committed w1 n \<or> failed_entry n e'"
      by (simp add: allStepIndexes_def statuses_new)
    with cap(1) e'(2) show ?thesis by (auto simp: failed_entry_def)
  qed
qed

theorem failed_apply_restores_witness:
  "\<exists>l w r. apply_plan (on_nodes ex_env) ''cs1'' ex_two_ops ex_two_nodes 220 (ex_world 7) () = (Some (XAgent EReload), l, w, r) \<and>
     nw_committed w ''pve1'' = Some ''old'' \<and> nw_committed w ''pve2'' = Some ''old''"
proof -
  obtain l w r where a: "apply_plan (on_nodes ex_env) ''cs1'' ex_two_ops ex_two_nodes 220 (ex_world 7) () = (Some (XAgent EReload), l, w, r)"
    and l: "map rb_Status (al_Rollback l) = [StepOK, StepOK]"
    using ex_apply_fails [of ex_two_ops] by (auto split: prod.splits)
  have n: "list_all (\<lambda>op. op_Type op \<in> set nodeFileOpTypes \<longrightarrow> ref_Node (op_Target op) \<noteq> []) ex_two_ops"
    by (simp add: ex_two_ops_def ex_plan_op_def)
  have "StepFailed \<notin> rb_Status ` set (al_Rollback l)" using l by (metis StepStatus.distinct(9) list.set_map set_ConsD empty_iff list.set(1))
  with failed_apply_restores [OF ex_two_plan n a ex_sound] have "nw_committed w m = Some ''old''" for m
    using ex_pre by (metis imageI)
  with a show ?thesis by blast
qed

lemma apply_commits_files:
  assumes "BuildPlan ops = Inr plan"
    and "apply_plan (on_nodes env) csID ops plan deadline w r = (None, l, w', r')" "nw_sound w" "n \<noteq> []"
  shows "case find (\<lambda>s. st_Kind s = StepStageFile \<and> st_Node s = n) plan of
      None \<Rightarrow> nw_committed w' n = nw_committed w n
    | Some s \<Rightarrow> \<exists>pre c. nw_committed w n = Some pre \<and> xe_computeStagedFile env pre n (st_OpIdx s) = Inr c \<and>
        nw_committed w' n = Some c"
proof -
  obtain y w1 r1 where c: "captureSnapshotFull (on_nodes env) plan w r = (y, w1, r1)"
    and x: "case y of Inl e \<Rightarrow> None = Some e \<and> w' = w1
      | Inr pre \<Rightarrow> \<exists>e'. run (on_nodes env) (newExecutor csID ops plan pre deadline, w1, r1) = (None, e', w', r') \<and> l = ex_log e'"
    by (rule apply_plan_cases [OF assms(2)])
  obtain pre e' where y: "y = Inr pre" and
    e': "runSteps (on_nodes env) (allStepIndexes plan) (newExecutor csID ops plan pre deadline, w1, r1) = (None, e', w', r')"
    using x by (cases y) (auto simp: run_def)
  let ?e = "newExecutor csID ops plan pre deadline"
  note cap = fun_cong [OF capture_world(1) [OF c], of n] capture_world(2) [OF c assms(3)]
  have ok: "(\<forall>s \<in> set plan. st_Kind s = StepStageFile \<longrightarrow>
      (\<exists>c. xe_computeStagedFile env (pre_content ?e (st_Node s)) (st_Node s) (st_OpIdx s) = Inr c \<and> nw_committed w' (st_Node s) = Some c)) \<and>
    (\<forall>n. (\<forall>s \<in> set plan. st_Kind s = StepStageFile \<longrightarrow> st_Node s \<noteq> n) \<longrightarrow> nw_committed w' n = nw_committed w1 n)"
    using restorable.runSteps_success [of "on_nodes env" 0 ?e w1 r1 e' w' r' plan] e' cap(2) BuildPlan_files [OF assms(1)]
    by (simp add: allStepIndexes_def)
  show ?thesis
  proof (cases "find (\<lambda>s. st_Kind s = StepStageFile \<and> st_Node s = n) plan")
    case None
    then have "\<forall>s \<in> set plan. st_Kind s = StepStageFile \<longrightarrow> st_Node s \<noteq> n" by (auto simp: find_None_iff)
    with None ok cap(1) show ?thesis by simp
  next
    case (Some s)
    then have s: "s \<in> set plan" "st_Kind s = StepStageFile" "st_Node s = n"
      by (auto simp: find_Some_iff)
    then have "nw_committed w n = Some (pre_content ?e n)"
      using assms(4) by (intro capture_world(3) [OF c y]) (auto simp: set_affectedNodes)
    with ok s Some show ?thesis by auto
  qed
qed

text \<open>
  C15. A successful apply commits on each node exactly the file computed from the node's file of before
  and the ops of its stage step, and changes no other node.
\<close>

theorem successful_apply_commits:
  assumes "BuildPlan ops = Inr plan"
    and "apply_plan (on_nodes env) csID ops plan deadline w r = (None, l, w', r')" "nw_sound w" "n \<noteq> []"
  shows "case find (\<lambda>s. st_Kind s = StepStageFile \<and> st_Node s = n) plan of
      None \<Rightarrow> nw_committed w' n = nw_committed w n
    | Some s \<Rightarrow> \<exists>pre c. nw_committed w n = Some pre \<and> xe_computeStagedFile env pre n (st_OpIdx s) = Inr c \<and>
        nw_committed w' n = Some c"
  using apply_commits_files [OF assms] .

theorem successful_apply_commits_witness:
  "\<exists>l w r. apply_plan (on_nodes ex_env) ''cs1'' ex_two_ops ex_two_nodes 220 (ex_world 99) () = (None, l, w, r) \<and>
     nw_committed w ''pve1'' = Some ''old+'' \<and> nw_committed w ''pve3'' = Some ''old''"
proof -
  obtain l w r where a: "apply_plan (on_nodes ex_env) ''cs1'' ex_two_ops ex_two_nodes 220 (ex_world 99) () = (None, l, w, r)"
    using ex_apply_ok [of ex_two_ops] by (auto split: prod.splits)
  note ok = successful_apply_commits [OF ex_two_plan a ex_sound]
  have "nw_committed w ''pve1'' = Some ''old+''"
    using ok [of "''pve1''"] by (simp add: ex_two_nodes_def stage_reload_def zero_Step_def ex_pre ex_env_def)
  moreover have "nw_committed w ''pve3'' = Some ''old''"
    using ok [of "''pve3''"] by (simp add: ex_two_nodes_def stage_reload_def zero_Step_def ex_pre)
  ultimately show ?thesis using a by blast
qed

text \<open>
  The log of a run is complete and truthful: every step of the plan is OK when the run returns no
  error, and otherwise the steps before the failed one are OK, that one is failed and the rest skipped.
\<close>

theorem apply_log_complete:
  assumes "run env (newExecutor csID ops plan pre deadline, w, r) = (res, e', w', r')"
  shows "map sl_Status (al_Steps (ex_log e')) =
      (case al_FailedStep (ex_log e') of
         None \<Rightarrow> replicate (length plan) StepOK
       | Some i \<Rightarrow> replicate i StepOK @ StepFailed # replicate (length plan - Suc i) StepSkipped) \<and>
    (case al_FailedStep (ex_log e') of None \<Rightarrow> res = None | Some i \<Rightarrow> i < length plan \<and> res \<noteq> None)"
proof -
  have "runSteps env [0..<length plan] (newExecutor csID ops plan pre deadline, w, r) = (res, e', w', r')"
    using assms by (simp add: run_def allStepIndexes_def)
  moreover have "al_FailedStep (ex_log (newExecutor csID ops plan pre deadline)) = None"
    by (simp add: newExecutor_def empty_log_def)
  ultimately show ?thesis
    using runSteps_log [of env 0 "length plan"] statuses_new [of csID ops plan pre deadline]
    by (force simp: log_shape_def statuses_def)
qed

definition ex_no_gateway :: "(unit, node_world, unit) exec_state" where
  "ex_no_gateway = (newExecutor ''cs1'' ex_two_ops [(zero_Step StepSDNStage)\<lparr>st_OpIdx := [0]\<rparr>, zero_Step StepSDNApply]
     \<lparr> ps_files = [], ps_sdn = None, ps_fw = None, ps_qos = None, ps_tcMirror = None, ps_wg = None, ps_switch = None \<rparr> 220,
     ex_world 0, ())"

theorem apply_log_complete_witness:
  "map sl_Status (al_Steps (ex_log (fst (snd (run ex_env ex_no_gateway))))) = [StepFailed, StepSkipped]"
proof -
  obtain res e w r where r: "run ex_env ex_no_gateway = (res, e, w, r)" by (metis prod_cases4)
  moreover have "al_FailedStep (ex_log (fst (snd (run ex_env ex_no_gateway)))) = Some 0"
    by (simp add: ex_no_gateway_def ex_apply_simps execSDNStage_def fail_log_def rollbackAfterFailure_def
        upd_step_def undo_rest_def rollbackIpamSteps_def undoFwTargets_def undo_state_def)
  ultimately show ?thesis
    using apply_log_complete [OF r [unfolded ex_no_gateway_def]] by simp
qed

end
