(* ===== verification/Coord_Core.thy ===== *)
theory Coord_Core
  imports Change_Apply Cluster_Apply
begin

text \<open>
  The coordinator of an apply, its state and the parts that its calls share: the ends of an apply
  (\<^verbatim>\<open>finishFailedApply\<close>, \<^verbatim>\<open>finishAwaitingConfirm\<close>) and the rollback every path goes through
  (\<^verbatim>\<open>doRollbackScopedLocked\<close>) of \<^verbatim>\<open>src/internal/change/apply.go\<close>, the restore across nodes of
  \<^verbatim>\<open>apply_distributed.go\<close>, and the sealed revert ticket of \<^verbatim>\<open>reverticket.go\<close>.

  The state holds the change store, the process's timers and guards, the stage table, the
  snapshots, and the outside of the executor. A section of code that holds the apply mutex is one
  function of the state and of the record \<open>coord_env\<close>, which is what the section depends on; a call
  that releases the mutex has one such record per section. JSON is a codec of that record. Metrics,
  logging, the refresh of the inventory and the coverage report attached to an apply's response are
  left out.
\<close>

section \<open>Data\<close>

record RevertTicket =
  rt_Ticket :: string
  rt_CSRF :: string
  rt_ExpiresAt :: int

record json_codec =
  jc_marshalPlan :: "Plan \<Rightarrow> string"
  jc_unmarshalPlan :: "string \<Rightarrow> Plan"
  jc_marshalLog :: "ApplyLog \<Rightarrow> string"
  jc_unmarshalLog :: "string \<Rightarrow> ApplyLog"
  jc_marshalTicket :: "RevertTicket \<Rightarrow> string"
  jc_unmarshalTicket :: "string \<Rightarrow> RevertTicket option"

definition decodePlan :: "json_codec \<Rightarrow> string \<Rightarrow> Plan" where
  "decodePlan j raw = (if raw = [] then [] else jc_unmarshalPlan j raw)"

definition decodeApplyLog :: "json_codec \<Rightarrow> string \<Rightarrow> ApplyLog" where
  "decodeApplyLog j raw = (if raw = [] then empty_log else jc_unmarshalLog j raw)"

text \<open>What \<open>encoding/json\<close> documents of these types: a value survives the round trip.\<close>

definition codec_ok :: "json_codec \<Rightarrow> bool" where
  "codec_ok j \<longleftrightarrow>
     (\<forall>p. jc_marshalPlan j p \<noteq> [] \<and> jc_unmarshalPlan j (jc_marshalPlan j p) = p) \<and>
     (\<forall>l. jc_marshalLog j l \<noteq> [] \<and> jc_unmarshalLog j (jc_marshalLog j l) = l) \<and>
     (\<forall>t. jc_unmarshalTicket j (jc_marshalTicket j t) = Some t)"

datatype ApplyMode = ApplyModeUnset | ApplyModeAll | ApplyModeCanary | ApplyModeOther string
datatype ApplyGate = ApplyGateUnset | ApplyGateManual | ApplyGateAuto | ApplyGateOther string

record ApplyStrategy =
  as_Mode :: ApplyMode
  as_Gate :: ApplyGate
  as_CanaryNodes :: "string list"
  as_HoldForSec :: int

datatype StageState = StageCanaryHold | StagePromoting

text \<open>A row of the stage table, with its JSON columns decoded.\<close>

record ChangesetApplyStage =
  sg_State :: StageState
  sg_Author :: string
  sg_Strategy :: ApplyStrategy
  sg_AppliedNodes :: "string list"
  sg_PendingNodes :: "string list"
  sg_HoldStartedAt :: int
  sg_HoldDeadline :: int
  sg_ConfirmDeadline :: int

record CanaryVerdict =
  cv_Healthy :: bool
  cv_Findings :: "string list"

record autoRollbackGuard =
  gd_baseline :: "string set option"
  gd_nodes :: "string list"
  gd_refs :: "string list"

record UnattendedRevert =
  ur_Reason :: string
  ur_CoversUntil :: int
  ur_Required :: bool
  ur_Available :: bool
  ur_FullWindow :: bool

datatype strategy_reason =
    RModeAll | RUnknownMode string | RNotConfigured | RNoChecker | RNeedsSession | RUnknownGate string
  | RUnstageable "StepKind list" | RTooFewNodes "string list" | RNoCanaryNodes | RUnaffected "string list"
  | RCoversAll "string list" | RHoldBounds | RHoldTooLong

datatype 'p coord_err =
    EChange change_err
  | EApply "'p apply_err"
  | EExec exec_err
  | ErrApplyNotConfigured
  | ErrNotConfirmable string Status
  | ErrNotResumable string Status "StageState option"
  | ErrInvalidApplyStrategy strategy_reason
  | ErrRollbackIncomplete string
  | ErrRollbackWindowExpired string int int
  | ErrNoPreSnapshot string
  | ErrNothingToRestore string
  | ErrStageStore

text \<open>
  A timer is the deadline it was armed with. The newest snapshot of a kind is the one that is read;
  \<open>cd_post\<close> holds the files of the one taken at a commit.
\<close>

record ('q, 'w, 'r) coord =
  cd_st :: "'q plan_params change_store"
  cd_timers :: "string \<rightharpoonup> int"
  cd_holds :: "string \<rightharpoonup> int"
  cd_stages :: "string \<rightharpoonup> ChangesetApplyStage"
  cd_guards :: "(string \<times> autoRollbackGuard) list"
  cd_lastFindings :: "string set option"
  cd_pre :: "string \<rightharpoonup> pre_snapshot"
  cd_post :: "string \<rightharpoonup> (string \<times> string) list"
  cd_w :: 'w
  cd_r :: 'r

text \<open>
  The gateway of \<open>ce_exec\<close> is the one of the requesting session, and \<open>ce_ticket\<close> what it has to seal.
  An optional dependency is \<open>None\<close> when it is not wired; \<open>ce_stages\<close> then says whether a write to the
  stage table succeeds. \<open>ce_order\<close> are the ids of the changesets table in the order of its listing.
\<close>

record ('q, 'w, 'r) coord_env =
  ce_svc :: "'q plan_params change_svc"
  ce_gates :: "('q plan_params, Plan) apply_gates"
  ce_exec :: "('q, 'w, 'r) exec_env"
  ce_CancelTimer :: "string \<Rightarrow> string \<Rightarrow> 'w \<Rightarrow> (timer_call_err + TimerRecord) \<times> 'w"
  ce_TimerStatus :: "string \<Rightarrow> string \<Rightarrow> 'w \<Rightarrow> (timer_call_err + TimerRecord) \<times> 'w"
  ce_codec :: json_codec
  ce_applyConfigured :: bool
  ce_mayLead :: bool
  ce_confirmTimeout :: int
  ce_rollbackWindowDays :: int
  ce_restoringOps :: "string \<Rightarrow> 'q plan_params coord_err + 'q plan_op list"
  ce_snap_read_ok :: bool
  ce_ticket :: "RevertTicket option"
  ce_unsealer :: "(string \<Rightarrow> string option) option"
  ce_revertGateways :: "(RevertTicket \<Rightarrow> ('q, 'r) pve_gateway option) option"
  ce_seal_ok :: bool
  ce_stages :: "bool option"
  ce_stage_read_ok :: bool
  ce_canary :: "(string list \<Rightarrow> int \<Rightarrow> CanaryVerdict option) option"
  ce_autoRollbackDefault :: bool
  ce_impact :: "'q plan_op list \<Rightarrow> string list \<times> string list"
  ce_order :: "string list"

text \<open>An error, the changeset returned (if any), and the state.\<close>

type_synonym ('q, 'w, 'r) coord_out =
  "('q plan_params coord_err option \<times> 'q plan_params Changeset option) \<times> ('q, 'w, 'r) coord"

abbreviation systemRollbackActor :: string where
  "systemRollbackActor \<equiv> ''system:rollback''"

abbreviation ce_now :: "('q, 'w, 'r) coord_env \<Rightarrow> int" where
  "ce_now E \<equiv> sv_now (ce_svc E)"

abbreviation ce_pve :: "('q, 'w, 'r) coord_env \<Rightarrow> ('q, 'r) pve_gateway option" where
  "ce_pve E \<equiv> xe_pve (ce_exec E)"

abbreviation nodeTimers :: "('q, 'w, 'r) coord_env \<Rightarrow> bool" where
  "nodeTimers E \<equiv> xe_ArmTimer (ce_exec E) \<noteq> None"


section \<open>Helpers\<close>

definition MinConfirmTimeout :: int where "MinConfirmTimeout = 30"
definition MaxConfirmTimeout :: int where "MaxConfirmTimeout = 600"

definition clampConfirmTimeout :: "int \<Rightarrow> int" where
  "clampConfirmTimeout d =
     (if d < MinConfirmTimeout then MinConfirmTimeout
      else if d > MaxConfirmTimeout then MaxConfirmTimeout else d)"

definition upd_st :: "('q plan_params change_store \<Rightarrow> 'q plan_params change_store) \<Rightarrow> ('q, 'w, 'r) coord \<Rightarrow> ('q, 'w, 'r) coord" where
  "upd_st f c = c\<lparr>cd_st := f (cd_st c)\<rparr>"

definition armTimerLocked :: "string \<Rightarrow> int \<Rightarrow> ('q, 'w, 'r) coord \<Rightarrow> ('q, 'w, 'r) coord" where
  "armTimerLocked i d c = c\<lparr>cd_timers := (cd_timers c)(i \<mapsto> d)\<rparr>"

definition cancelTimerLocked :: "string \<Rightarrow> ('q, 'w, 'r) coord \<Rightarrow> ('q, 'w, 'r) coord" where
  "cancelTimerLocked i c = c\<lparr>cd_timers := (cd_timers c)(i := None)\<rparr>"

definition StopTimers :: "('q, 'w, 'r) coord \<Rightarrow> ('q, 'w, 'r) coord" where
  "StopTimers c = c\<lparr>cd_timers := Map.empty\<rparr>"

definition armHoldTimerLocked :: "string \<Rightarrow> int \<Rightarrow> ('q, 'w, 'r) coord \<Rightarrow> ('q, 'w, 'r) coord" where
  "armHoldTimerLocked i d c = c\<lparr>cd_holds := (cd_holds c)(i \<mapsto> d)\<rparr>"

definition cancelHoldTimerLocked :: "string \<Rightarrow> ('q, 'w, 'r) coord \<Rightarrow> ('q, 'w, 'r) coord" where
  "cancelHoldTimerLocked i c = c\<lparr>cd_holds := (cd_holds c)(i := None)\<rparr>"

definition StopHoldTimers :: "('q, 'w, 'r) coord \<Rightarrow> ('q, 'w, 'r) coord" where
  "StopHoldTimers c = c\<lparr>cd_holds := Map.empty\<rparr>"

definition disarmAutoRollback :: "string \<Rightarrow> ('q, 'w, 'r) coord \<Rightarrow> ('q, 'w, 'r) coord" where
  "disarmAutoRollback i c = c\<lparr>cd_guards := filter (\<lambda>(k, g). k \<noteq> i) (cd_guards c)\<rparr>"

definition release_lock :: "('q, 'w, 'r) coord \<Rightarrow> ('q, 'w, 'r) coord" where
  "release_lock = upd_st (\<lambda>st. st\<lparr>st_lockHeldBy := []\<rparr>)"

definition audit :: "('q, 'w, 'r) coord_env \<Rightarrow> string \<Rightarrow> string \<Rightarrow> string \<Rightarrow> string \<Rightarrow> ('q, 'w, 'r) coord \<Rightarrow> ('q, 'w, 'r) coord" where
  "audit E author action res i = upd_st (appendAudit (ce_svc E) author action res i)"

definition broadcast :: "('q, 'w, 'r) coord_env \<Rightarrow> 'q plan_params Changeset \<Rightarrow> ('q, 'w, 'r) coord \<Rightarrow> ('q, 'w, 'r) coord" where
  "broadcast E cs = upd_st (broadcastStatus (ce_svc E) cs)"

definition wipe_ticket :: "('q, 'w, 'r) coord_env \<Rightarrow> string \<Rightarrow> ('q, 'w, 'r) coord \<Rightarrow> ('q, 'w, 'r) coord" where
  "wipe_ticket E i = upd_st (wipeRevertTicket (ce_svc E) i)"

definition get_cs :: "('q, 'w, 'r) coord_env \<Rightarrow> string \<Rightarrow> ('q, 'w, 'r) coord \<Rightarrow> change_err + 'q plan_params Changeset" where
  "get_cs E i c = svc_Get (ce_svc E) i (cd_st c)"

definition persist_cs :: "('q, 'w, 'r) coord_env \<Rightarrow> 'q plan_params Changeset \<Rightarrow> ('q, 'w, 'r) coord \<Rightarrow> change_err option \<times> ('q, 'w, 'r) coord" where
  "persist_cs E cs c =
     (case persist_changeset (ce_svc E) cs (cd_st c) of Inl e \<Rightarrow> (Some e, c) | Inr st \<Rightarrow> (None, c\<lparr>cd_st := st\<rparr>))"

text \<open>A transition whose refusal is ignored.\<close>

definition try_transition :: "Status \<Rightarrow> int \<Rightarrow> 'p Changeset \<Rightarrow> 'p Changeset" where
  "try_transition t now cs = (case Transition t now cs of Inl _ \<Rightarrow> cs | Inr cs \<Rightarrow> cs)"

definition updateApplyLog :: "('q, 'w, 'r) coord_env \<Rightarrow> string \<Rightarrow> ApplyLog \<Rightarrow> ('q, 'w, 'r) coord \<Rightarrow> change_err option \<times> ('q, 'w, 'r) coord" where
  "updateApplyLog E i l c =
     (case get_cs E i c of Inl e \<Rightarrow> (Some e, c)
      | Inr cs \<Rightarrow> persist_cs E (cs\<lparr>ch_ApplyLog := jc_marshalLog (ce_codec E) l\<rparr>) c)"

definition armed_log :: "int \<Rightarrow> string \<Rightarrow> NodeTimerLog" where
  "armed_log deadline node = \<lparr> nl_Node = node, nl_Status = TimerIs NodeTimerArmed, nl_Error = None,
     nl_Deadline = deadline, nl_ResolvedAt = 0 \<rparr>"

definition nodeTimerLogFromRecord :: "TimerRecord \<Rightarrow> NodeTimerLog" where
  "nodeTimerLogFromRecord r = \<lparr> nl_Node = tr_Node r, nl_Status = TimerIs (tr_Status r),
     nl_Error = map_option TPeer (tr_Error r), nl_Deadline = tr_Deadline r, nl_ResolvedAt = tr_ResolvedAt r \<rparr>"

definition cancel_result :: "string \<Rightarrow> timer_call_err + TimerRecord \<Rightarrow> NodeTimerLog" where
  "cancel_result node res =
     (case res of
        Inr r \<Rightarrow> nodeTimerLogFromRecord r
      | Inl e \<Rightarrow>
          if e = TStore ErrTimerNotFound
          then \<lparr> nl_Node = node, nl_Status = TimerIs NodeTimerCancelled, nl_Error = None, nl_Deadline = 0, nl_ResolvedAt = 0 \<rparr>
          else \<lparr> nl_Node = node, nl_Status = TimerUnknown, nl_Error = Some e, nl_Deadline = 0, nl_ResolvedAt = 0 \<rparr>)"

text \<open>The calls go to distinct nodes and are made in parallel; here they are made in order.\<close>

fun cancelNodeTimers :: "('q, 'w, 'r) coord_env \<Rightarrow> string \<Rightarrow> string list \<Rightarrow> 'w \<Rightarrow> NodeTimerLog list \<times> 'w" where
  "cancelNodeTimers E i [] w = ([], w)"
| "cancelNodeTimers E i (node # nodes) w =
     (case ce_CancelTimer E i node w of (res, w) \<Rightarrow>
        case cancelNodeTimers E i nodes w of (ls, w) \<Rightarrow> (cancel_result node res # ls, w))"

definition svc_List :: "('q, 'w, 'r) coord_env \<Rightarrow> Status \<Rightarrow> ('q, 'w, 'r) coord \<Rightarrow> change_err + 'q plan_params Changeset list" where
  "svc_List E status c =
     (if \<not> sv_read_ok (ce_svc E) then Inl ErrStorage
      else Inr (map fromStoreRow (filter (\<lambda>r. row_Status r = status) (List.map_filter (st_rows (cd_st c)) (ce_order E)))))"

definition loadPreSnapshot :: "('q, 'w, 'r) coord_env \<Rightarrow> string \<Rightarrow> ('q, 'w, 'r) coord \<Rightarrow> 'q plan_params coord_err + pre_snapshot" where
  "loadPreSnapshot E i c =
     (if \<not> ce_snap_read_ok E then Inl (EChange ErrStorage)
      else case cd_pre c i of None \<Rightarrow> Inl (ErrNoPreSnapshot i) | Some pre \<Rightarrow> Inr pre)"


section \<open>The revert ticket\<close>

definition SealRevertTicket :: "bool \<Rightarrow> string \<Rightarrow> string \<Rightarrow> int \<Rightarrow> 'p change_store \<Rightarrow> change_err + 'p change_store" where
  "SealRevertTicket ok i ticket expiresAt st =
     (if ticket = [] \<or> \<not> ok then Inl ErrStorage
      else case st_rows st i of None \<Rightarrow> Inl ErrNotFound
      | Some r \<Rightarrow> Inr (st\<lparr>st_rows := (st_rows st)(i \<mapsto> r\<lparr>row_RevertTicketEnc := Some ticket,
             row_RevertTicketExpiresAt := (if expiresAt > 0 then Some expiresAt else None)\<rparr>)\<rparr>))"

definition repo_RevertTicket :: "bool \<Rightarrow> string \<Rightarrow> 'p change_store \<Rightarrow> change_err + string \<times> int" where
  "repo_RevertTicket ok i st =
     (if \<not> ok then Inl ErrStorage
      else case st_rows st i of None \<Rightarrow> Inl ErrNotFound
      | Some r \<Rightarrow> Inr (case row_RevertTicketEnc r of None \<Rightarrow> [] | Some enc \<Rightarrow> enc,
                      case row_RevertTicketExpiresAt r of None \<Rightarrow> 0 | Some e \<Rightarrow> e))"

definition WipeExpiredRevertTickets :: "int \<Rightarrow> 'p change_store \<Rightarrow> 'p change_store" where
  "WipeExpiredRevertTickets now st =
     st\<lparr>st_rows := (\<lambda>i. map_option (\<lambda>r.
        if row_RevertTicketEnc r \<noteq> None \<and> (case row_RevertTicketExpiresAt r of None \<Rightarrow> False | Some e \<Rightarrow> e \<le> now)
        then r\<lparr>row_RevertTicketEnc := None, row_RevertTicketExpiresAt := None\<rparr> else r) (st_rows st i))\<rparr>"

definition SweepExpiredRevertTickets :: "('q, 'w, 'r) coord_env \<Rightarrow> ('q, 'w, 'r) coord \<Rightarrow> ('q, 'w, 'r) coord" where
  "SweepExpiredRevertTickets E = upd_st (\<lambda>st. if sv_wipe_ok (ce_svc E) then WipeExpiredRevertTickets (ce_now E) st else st)"

definition revertReasonNoSession :: string where
  "revertReasonNoSession =
     ''no PVE session credential was available at apply time; firewall/SDN changes in this changeset will not revert automatically''"

definition revertReasonSealFailed :: string where
  "revertReasonSealFailed =
     ''the revert credential could not be stored; firewall/SDN changes in this changeset will not revert automatically''"

definition revertReasonNotWired :: string where
  "revertReasonNotWired =
     ''this daemon is not configured for unattended firewall/SDN revert; firewall/SDN changes in this changeset will not revert automatically''"

definition revertReasonTicketExpiresFirst :: string where
  "revertReasonTicketExpiresFirst =
     ''your PVE session expires before the confirm window closes; after that point firewall/SDN changes will no longer revert automatically''"


definition no_ticket_needed :: "int \<Rightarrow> UnattendedRevert" where
  "no_ticket_needed deadline = \<lparr> ur_Reason = [], ur_CoversUntil = deadline, ur_Required = False, ur_Available = True, ur_FullWindow = True \<rparr>"

definition no_revert :: "string \<Rightarrow> UnattendedRevert" where
  "no_revert reason = \<lparr> ur_Reason = reason, ur_CoversUntil = 0, ur_Required = True, ur_Available = False, ur_FullWindow = False \<rparr>"

definition covered :: "int \<Rightarrow> int \<Rightarrow> bool \<Rightarrow> UnattendedRevert" where
  "covered deadline expiresAt shorter =
     (if shorter
      then \<lparr> ur_Reason = revertReasonTicketExpiresFirst, ur_CoversUntil = expiresAt, ur_Required = True, ur_Available = True, ur_FullWindow = False \<rparr>
      else \<lparr> ur_Reason = [], ur_CoversUntil = deadline, ur_Required = True, ur_Available = True, ur_FullWindow = True \<rparr>)"

definition sealRevertTicket :: "('q, 'w, 'r) coord_env \<Rightarrow> string \<Rightarrow> Plan \<Rightarrow> int \<Rightarrow> ('q, 'w, 'r) coord \<Rightarrow> UnattendedRevert \<times> ('q, 'w, 'r) coord" where
  "sealRevertTicket E i plan deadline c =
     (if \<not> needsRevertTicket plan then (no_ticket_needed deadline, c)
      else if ce_revertGateways E = None then (no_revert revertReasonNotWired, c)
      else if ce_unsealer E = None then (no_revert revertReasonNotWired, c)
      else case sv_sealer (ce_svc E) of None \<Rightarrow> (no_revert revertReasonNotWired, c)
      | Some encrypt \<Rightarrow>
      case (case ce_pve E of None \<Rightarrow> None | Some _ \<Rightarrow> ce_ticket E) of
        None \<Rightarrow> (no_revert revertReasonNoSession, c)
      | Some t \<Rightarrow>
          if rt_Ticket t = [] \<or> rt_CSRF t = [] then (no_revert revertReasonNoSession, c)
          else case encrypt (jc_marshalTicket (ce_codec E) t) of
            None \<Rightarrow> (no_revert revertReasonSealFailed, c)
          | Some enc \<Rightarrow>
              (case SealRevertTicket (ce_seal_ok E) i enc (rt_ExpiresAt t) (cd_st c) of
                 Inl _ \<Rightarrow> (no_revert revertReasonSealFailed, c)
               | Inr st \<Rightarrow>
                   (covered deadline (rt_ExpiresAt t) (rt_ExpiresAt t > 0 \<and> rt_ExpiresAt t < deadline), c\<lparr>cd_st := st\<rparr>)))"

definition revertCoverage :: "Plan \<Rightarrow> int \<Rightarrow> int \<Rightarrow> UnattendedRevert" where
  "revertCoverage plan deadline ticketExpiresAt =
     (if \<not> needsRevertTicket plan then no_ticket_needed deadline
      else if ticketExpiresAt = 0 then no_revert revertReasonNoSession
      else covered deadline ticketExpiresAt (ticketExpiresAt < deadline))"

definition unattendedRevertFor :: "'q plan_params Changeset \<Rightarrow> UnattendedRevert option" where
  "unattendedRevertFor cs =
     (if ch_Status cs \<noteq> StatusAwaitingConfirm then None
      else case ch_ConfirmDeadline cs of None \<Rightarrow> None
      | Some d \<Rightarrow>
          (case BuildPlan (ch_Ops cs) of Inl _ \<Rightarrow> None
           | Inr plan \<Rightarrow> Some (revertCoverage plan d (ch_RevertTicketExpiresAt cs))))"

definition revertGatewayFor :: "('q, 'w, 'r) coord_env \<Rightarrow> string \<Rightarrow> ('q, 'w, 'r) coord \<Rightarrow> ('q, 'r) pve_gateway option \<times> ('q, 'w, 'r) coord" where
  "revertGatewayFor E i c =
     (case ce_revertGateways E of None \<Rightarrow> (None, c)
      | Some build \<Rightarrow>
      case ce_unsealer E of None \<Rightarrow> (None, c)
      | Some decrypt \<Rightarrow>
      case repo_RevertTicket (sv_read_ok (ce_svc E)) i (cd_st c) of Inl _ \<Rightarrow> (None, c)
      | Inr (enc, expiresAt) \<Rightarrow>
          if enc = [] then (None, c)
          else if expiresAt > 0 \<and> ce_now E \<ge> expiresAt then (None, wipe_ticket E i c)
          else case decrypt enc of None \<Rightarrow> (None, c)
          | Some plaintext \<Rightarrow>
              (case jc_unmarshalTicket (ce_codec E) plaintext of None \<Rightarrow> (None, c)
               | Some t \<Rightarrow> (build t, c)))"


section \<open>Restoring\<close>

definition pre_by_node :: "pre_snapshot \<Rightarrow> string \<Rightarrow> string" where
  "pre_by_node pre node = (case map_of (rev (ps_files pre)) node of Some content \<Rightarrow> content | None \<Rightarrow> [])"

definition restore_summary :: "string \<Rightarrow> string" where
  "restore_summary node = ''Restore '' @ interfacesPath @ '' on '' @ node @ '' from pre-apply snapshot and reload''"

fun restore_list :: "'w node_agent \<Rightarrow> pre_snapshot \<Rightarrow> string list \<Rightarrow> 'w \<Rightarrow> (RollbackLog list \<times> bool) \<times> 'w" where
  "restore_list a pre [] w = (([], False), w)"
| "restore_list a pre (node # nodes) w =
     (case restoreNode a node (pre_by_node pre node) w of (err, w) \<Rightarrow>
      case restore_list a pre nodes w of ((logs, anyFailed), w) \<Rightarrow>
        ((rollback_entry node (restore_summary node) (map_option XAgent err) # logs, err \<noteq> None \<or> anyFailed), w))"

definition restoreAll :: "('q, 'w, 'r) coord_env \<Rightarrow> Plan \<Rightarrow> pre_snapshot \<Rightarrow> 'w \<Rightarrow> (RollbackLog list \<times> bool) \<times> 'w" where
  "restoreAll E plan pre w = restore_list (xe_agent (ce_exec E)) pre (rev (affectedNodes plan)) w"

definition unreachable_summary :: "string \<Rightarrow> string" where
  "unreachable_summary node = ''Could not reach '' @ node @
     '' to push a restore; its own local timer will self-restore (or already has)''"

definition restore_log :: "string \<Rightarrow> agent_err option \<Rightarrow> RollbackLog" where
  "restore_log node err =
     rollback_entry node (if err = Some ErrPeerUnreachable then unreachable_summary node else restore_summary node)
       (map_option XAgent err)"

definition restore_timer :: "int \<Rightarrow> string \<Rightarrow> agent_err option \<Rightarrow> NodeTimerLog" where
  "restore_timer now node err =
     (case err of
        None \<Rightarrow> \<lparr> nl_Node = node, nl_Status = TimerIs NodeTimerRolledBack, nl_Error = None, nl_Deadline = 0, nl_ResolvedAt = now \<rparr>
      | Some e \<Rightarrow>
          if e = ErrPeerUnreachable
          then \<lparr> nl_Node = node, nl_Status = TimerUnknown, nl_Error = Some (TPeer e), nl_Deadline = 0, nl_ResolvedAt = 0 \<rparr>
          else \<lparr> nl_Node = node, nl_Status = TimerIs NodeTimerRollbackFailed, nl_Error = Some (TPeer e), nl_Deadline = 0, nl_ResolvedAt = now \<rparr>)"

definition hard_failure :: "agent_err option \<Rightarrow> bool" where
  "hard_failure err \<longleftrightarrow> err \<noteq> None \<and> err \<noteq> Some ErrPeerUnreachable"

fun restore_list_distributed :: "'w node_agent \<Rightarrow> int \<Rightarrow> pre_snapshot \<Rightarrow> string list \<Rightarrow> 'w
    \<Rightarrow> (RollbackLog list \<times> NodeTimerLog list \<times> bool) \<times> 'w" where
  "restore_list_distributed a now pre [] w = (([], [], False), w)"
| "restore_list_distributed a now pre (node # nodes) w =
     (case restoreNode a node (pre_by_node pre node) w of (err, w) \<Rightarrow>
      case restore_list_distributed a now pre nodes w of ((logs, timers, hard), w) \<Rightarrow>
        ((restore_log node err # logs, restore_timer now node err # timers, hard_failure err \<or> hard), w))"

definition restoreAllDistributed :: "('q, 'w, 'r) coord_env \<Rightarrow> Plan \<Rightarrow> pre_snapshot \<Rightarrow> 'w
    \<Rightarrow> (RollbackLog list \<times> NodeTimerLog list \<times> bool) \<times> 'w" where
  "restoreAllDistributed E plan pre w =
     restore_list_distributed (xe_agent (ce_exec E)) (ce_now E) pre (rev (affectedNodes plan)) w"

text \<open>One kind of state: restored when the plan has steps of the kind and the snapshot has its file.\<close>

definition restore_part :: "bool \<Rightarrow> 'a option \<Rightarrow> ('a \<Rightarrow> 'r \<Rightarrow> RollbackLog list \<times> 'r) \<Rightarrow> 'r \<Rightarrow> RollbackLog list \<times> 'r" where
  "restore_part wanted pre f r =
     (if wanted then (case pre of None \<Rightarrow> ([], r) | Some state \<Rightarrow> f state r) else ([], r))"

definition restore_pve :: "('q, 'w, 'r) coord_env \<Rightarrow> ('q, 'r) pve_gateway option \<Rightarrow> Plan \<Rightarrow> pre_snapshot \<Rightarrow> 'r \<Rightarrow> RollbackLog list \<times> 'r" where
  "restore_pve E gw plan pre r =
     (case restore_part (hasSDN plan) (ps_sdn pre)
             (\<lambda>s r. case restoreSDN (ce_exec E) gw s r of (l, r) \<Rightarrow> ([l], r)) r of (sdn, r) \<Rightarrow>
      case restore_part (hasFw plan) (ps_fw pre) (restoreFwState gw) r of (fw, r) \<Rightarrow> (sdn @ fw, r))"

definition restore_daemon :: "('q, 'w, 'r) coord_env \<Rightarrow> Plan \<Rightarrow> pre_snapshot \<Rightarrow> 'r \<Rightarrow> RollbackLog list \<times> 'r" where
  "restore_daemon E plan pre r =
     (case restore_part (hasQos plan) (ps_qos pre) (restoreQosState (ce_exec E)) r of (qos, r) \<Rightarrow>
      case restore_part (hasTcMirror plan) (ps_tcMirror pre) (restoreTcMirrorState (ce_exec E)) r of (tcm, r) \<Rightarrow>
      case restore_part (hasWg plan) (ps_wg pre) (restoreWgState (ce_exec E)) r of (wg, r) \<Rightarrow>
      case restore_part (hasSwitch plan) (ps_switch pre) (restoreSwitchState (ce_exec E)) r of (sw, r) \<Rightarrow>
        (qos @ tcm @ wg @ sw, r))"

definition any_failed :: "RollbackLog list \<Rightarrow> bool" where
  "any_failed rbs \<longleftrightarrow> list_ex (\<lambda>l. rb_Status l \<noteq> StepOK) rbs"


section \<open>The ends of an apply\<close>

definition finishFailedApply :: "('q, 'w, 'r) coord_env \<Rightarrow> string \<Rightarrow> 'q plan_params Changeset \<Rightarrow> ApplyLog \<Rightarrow> 'q plan_params coord_err
    \<Rightarrow> ('q, 'w, 'r) coord \<Rightarrow> ('q, 'w, 'r) coord_out" where
  "finishFailedApply E author cs l cause c =
     (let c = disarmAutoRollback (ch_ID cs) c;
          cs = try_transition StatusFailed (ce_now E) (cs\<lparr>ch_ApplyLog := jc_marshalLog (ce_codec E) l\<rparr>);
          cs = cs\<lparr>ch_ConfirmDeadline := None\<rparr>;
          c = snd (persist_cs E cs c);
          c = wipe_ticket E (ch_ID cs) c;
          cs = cs\<lparr>ch_RevertTicketExpiresAt := 0\<rparr>;
          c = release_lock c;
          c = broadcast E cs c;
          c = audit E author ''changeset.apply'' ''failed'' (ch_ID cs) c
      in ((Some cause, Some cs), c))"

definition log_armed :: "('q, 'w, 'r) coord_env \<Rightarrow> string list \<Rightarrow> int \<Rightarrow> ApplyLog \<Rightarrow> ApplyLog" where
  "log_armed E nodes deadline l =
     (if \<not> nodeTimers E then l
      else if al_NodeTimers l = [] then l\<lparr>al_NodeTimers := map (armed_log deadline) nodes\<rparr>
      else l\<lparr>al_NodeTimers := mergeNodeTimerLogs (al_NodeTimers l) (map (armed_log deadline) nodes)\<rparr>)"

definition finishAwaitingConfirm :: "('q, 'w, 'r) coord_env \<Rightarrow> string \<Rightarrow> 'q plan_params Changeset \<Rightarrow> Plan \<Rightarrow> ApplyLog \<Rightarrow> int
    \<Rightarrow> ('q, 'w, 'r) coord \<Rightarrow> ('q, 'w, 'r) coord_out" where
  "finishAwaitingConfirm E author cs plan l deadline c =
     (let cs = cs\<lparr>ch_ApplyLog := jc_marshalLog (ce_codec E) (log_armed E (affectedNodes plan) deadline l)\<rparr> in
      case Transition StatusAwaitingConfirm (ce_now E) cs of Inl e \<Rightarrow> ((Some (EChange e), None), c)
      | Inr cs \<Rightarrow>
      let cs = cs\<lparr>ch_ConfirmDeadline := Some deadline\<rparr> in
      case persist_cs E cs c of (Some e, c) \<Rightarrow> ((Some (EChange e), None), c)
      | (None, c) \<Rightarrow>
          let c = armTimerLocked (ch_ID cs) deadline c;
              c = broadcast E cs c;
              c = audit E author ''changeset.apply'' ''awaiting_confirm'' (ch_ID cs) c
          in ((None, Some cs), c))"


section \<open>Rolling back\<close>

record rollback_out =
  ro_logs :: "RollbackLog list"
  ro_timers :: "NodeTimerLog list"
  ro_failed :: bool

text \<open>Restoring everything a plan touched: the nodes, then what needs the Proxmox gateway, then the rest.\<close>

definition restore_everything :: "('q, 'w, 'r) coord_env \<Rightarrow> ('q, 'r) pve_gateway option \<Rightarrow> Plan \<Rightarrow> pre_snapshot
    \<Rightarrow> ('q, 'w, 'r) coord \<Rightarrow> rollback_out \<times> ('q, 'w, 'r) coord" where
  "restore_everything E gw plan pre c =
     (case (if nodeTimers E then restoreAllDistributed E plan pre (cd_w c)
            else case restoreAll E plan pre (cd_w c) of ((logs, f), w) \<Rightarrow> ((logs, [], f), w)) of
        ((nodes, timers, f), w) \<Rightarrow>
      case restore_pve E gw plan pre (cd_r c) of (pve, r) \<Rightarrow>
      case restore_daemon E plan pre r of (rest, r) \<Rightarrow>
        (\<lparr> ro_logs = nodes @ pve @ rest, ro_timers = timers, ro_failed = (f \<or> any_failed (pve @ rest)) \<rparr>,
         c\<lparr>cd_w := w, cd_r := r\<rparr>))"

definition rollback_target :: "bool \<Rightarrow> Status" where
  "rollback_target failed = (if failed then StatusFailed else StatusRolledBack)"

definition rollback_log :: "string \<Rightarrow> rollback_out \<Rightarrow> ApplyLog \<Rightarrow> ApplyLog" where
  "rollback_log actor out l =
     l\<lparr>al_Rollback := al_Rollback l @ ro_logs out, al_RolledBackBy := actor,
       al_NodeTimers := mergeNodeTimerLogs (al_NodeTimers l) (ro_timers out)\<rparr>"

definition finish_rollback :: "('q, 'w, 'r) coord_env \<Rightarrow> string \<Rightarrow> rollback_out \<Rightarrow> 'q plan_params Changeset
    \<Rightarrow> ('q, 'w, 'r) coord \<Rightarrow> ('q plan_params coord_err option \<times> 'q plan_params Changeset) \<times> ('q, 'w, 'r) coord" where
  "finish_rollback E actor out cs c =
     (let cs = cs\<lparr>ch_ApplyLog := jc_marshalLog (ce_codec E) (rollback_log actor out (decodeApplyLog (ce_codec E) (ch_ApplyLog cs))),
                  ch_ConfirmDeadline := None\<rparr>;
          cs = try_transition (rollback_target (ro_failed out)) (ce_now E) cs
      in case persist_cs E cs c of (perr, c) \<Rightarrow>
         let c = wipe_ticket E (ch_ID cs) c;
             cs = cs\<lparr>ch_RevertTicketExpiresAt := 0\<rparr>;
             c = release_lock c
         in case perr of
              Some e \<Rightarrow> ((Some (EChange e), cs), c)
            | None \<Rightarrow>
                let c = broadcast E cs c;
                    c = audit E actor ''changeset.rollback''
                          (if ro_failed out then ''rollback_incomplete'' else ''rolled_back'') (ch_ID cs) c
                in ((if ro_failed out then Some (ErrRollbackIncomplete (ch_ID cs)) else None, cs), c))"

definition unrestorable :: "('q, 'w, 'r) coord_env \<Rightarrow> string \<Rightarrow> 'q plan_params Changeset \<Rightarrow> ('q, 'w, 'r) coord
    \<Rightarrow> 'q plan_params Changeset \<times> ('q, 'w, 'r) coord" where
  "unrestorable E actor cs c =
     (let cs = (try_transition StatusFailed (ce_now E) cs)\<lparr>ch_ConfirmDeadline := None\<rparr>;
          c = snd (persist_cs E cs c);
          c = wipe_ticket E (ch_ID cs) c;
          cs = cs\<lparr>ch_RevertTicketExpiresAt := 0\<rparr>;
          c = release_lock c;
          c = broadcast E cs c;
          c = audit E actor ''changeset.rollback'' ''error'' (ch_ID cs) c
      in (cs, c))"

definition rollback_plan :: "('q, 'w, 'r) coord_env \<Rightarrow> string list option \<Rightarrow> 'q plan_params Changeset \<Rightarrow> Plan" where
  "rollback_plan E restrict cs =
     (let plan = decodePlan (ce_codec E) (ch_Plan cs) in
      case restrict of None \<Rightarrow> plan | Some nodes \<Rightarrow> restrictedToNodes plan nodes)"

definition rollback_gateway :: "('q, 'w, 'r) coord_env \<Rightarrow> ('q, 'r) pve_gateway option \<Rightarrow> Plan \<Rightarrow> string \<Rightarrow> ('q, 'w, 'r) coord
    \<Rightarrow> ('q, 'r) pve_gateway option \<times> ('q, 'w, 'r) coord" where
  "rollback_gateway E pveGW plan i c =
     (case pveGW of Some g \<Rightarrow> (Some g, c)
      | None \<Rightarrow> if needsRevertTicket plan then revertGatewayFor E i c else (None, c))"

definition doRollbackScopedLocked :: "('q, 'w, 'r) coord_env \<Rightarrow> string \<Rightarrow> ('q, 'r) pve_gateway option \<Rightarrow> string list option
    \<Rightarrow> 'q plan_params Changeset \<Rightarrow> ('q, 'w, 'r) coord
    \<Rightarrow> ('q plan_params coord_err option \<times> 'q plan_params Changeset) \<times> ('q, 'w, 'r) coord" where
  "doRollbackScopedLocked E actor pveGW restrict cs c =
     (let c = disarmAutoRollback (ch_ID cs) c;
          plan = rollback_plan E restrict cs
      in case rollback_gateway E pveGW plan (ch_ID cs) c of (gw, c) \<Rightarrow>
      case loadPreSnapshot E (ch_ID cs) c of
        Inl e \<Rightarrow> (case unrestorable E actor cs c of (cs, c) \<Rightarrow> ((Some e, cs), c))
      | Inr pre \<Rightarrow>
          (case restore_everything E gw plan pre c of (out, c) \<Rightarrow> finish_rollback E actor out cs c))"

definition doRollbackLocked :: "('q, 'w, 'r) coord_env \<Rightarrow> string \<Rightarrow> ('q, 'r) pve_gateway option
    \<Rightarrow> 'q plan_params Changeset \<Rightarrow> ('q, 'w, 'r) coord
    \<Rightarrow> ('q plan_params coord_err option \<times> 'q plan_params Changeset) \<times> ('q, 'w, 'r) coord" where
  "doRollbackLocked E actor pveGW cs c = doRollbackScopedLocked E actor pveGW None cs c"

end
