(* ===== verification/Staged_Apply.thy ===== *)
theory Staged_Apply
  imports Coord_Core
begin

text \<open>
  Applying in stages (\<^verbatim>\<open>src/internal/change/apply_staged.go\<close> and the stage table of
  \<^verbatim>\<open>src/internal/store/changesetstages.go\<close>): the check of a strategy, the pause after the canary
  stage, its resolution by an operator, by the gate or by the deadline, and its recovery at startup.
  \<open>continueStaged\<close> releases the apply mutex while the remaining steps run, so it is made of the claim
  of the pause and of the run, which other calls may separate.
\<close>

section \<open>Strategies\<close>

definition DefaultCanaryHold :: int where "DefaultCanaryHold = 60"
definition MinCanaryHold :: int where "MinCanaryHold = 10"
definition MaxCanaryHold :: int where "MaxCanaryHold = MaxConfirmTimeout"

definition IsCanary :: "ApplyStrategy \<Rightarrow> bool" where
  "IsCanary s \<longleftrightarrow> as_Mode s = ApplyModeCanary"

definition holdFor :: "ApplyStrategy \<Rightarrow> int" where
  "holdFor s = (if as_HoldForSec s \<le> 0 then DefaultCanaryHold else as_HoldForSec s)"

text \<open>In the order of their names.\<close>

definition canaryUnstageableKinds :: "StepKind list" where
  "canaryUnstageableKinds = [StepIpamAlloc, StepSDNStage, StepSwitchApply]"

definition all_strategy :: ApplyStrategy where
  "all_strategy = \<lparr> as_Mode = ApplyModeAll, as_Gate = ApplyGateUnset, as_CanaryNodes = [], as_HoldForSec = 0 \<rparr>"

definition check_gate :: "('q, 'w, 'r) coord_env \<Rightarrow> Plan \<Rightarrow> ApplyGate \<Rightarrow> strategy_reason + ApplyGate" where
  "check_gate E plan g =
     (case g of
        ApplyGateUnset \<Rightarrow> Inr ApplyGateManual
      | ApplyGateManual \<Rightarrow> Inr ApplyGateManual
      | ApplyGateAuto \<Rightarrow>
          if ce_canary E = None then Inl RNoChecker
          else if planRequiresPVESession plan then Inl RNeedsSession
          else Inr ApplyGateAuto
      | ApplyGateOther x \<Rightarrow> Inl (RUnknownGate x))"

definition check_canary_nodes :: "Plan \<Rightarrow> string list \<Rightarrow> strategy_reason + string list" where
  "check_canary_nodes plan named =
     (let affected = affectedNodes plan in
      if length affected < 2 then Inl (RTooFewNodes affected)
      else if named = [] then Inl RNoCanaryNodes
      else let distinct_named = first_seen named;
               unaffected = filter (\<lambda>n. n \<notin> set affected) distinct_named;
               canary = filter (\<lambda>n. n \<in> set affected) distinct_named
           in if unaffected \<noteq> [] then Inl (RUnaffected unaffected)
              else if length canary = length affected then Inl (RCoversAll canary)
              else Inr canary)"

definition check_hold :: "ApplyStrategy \<Rightarrow> int \<Rightarrow> strategy_reason + int" where
  "check_hold s confirmTimeout =
     (let hold = holdFor s in
      if hold < MinCanaryHold \<or> hold > MaxCanaryHold then Inl RHoldBounds
      else if hold \<ge> confirmTimeout then Inl RHoldTooLong
      else Inr hold)"

definition validateApplyStrategy :: "('q, 'w, 'r) coord_env \<Rightarrow> ApplyStrategy \<Rightarrow> Plan \<Rightarrow> int \<Rightarrow> strategy_reason + ApplyStrategy" where
  "validateApplyStrategy E s plan confirmTimeout =
     (case as_Mode s of
        ApplyModeOther m \<Rightarrow> Inl (RUnknownMode m)
      | ApplyModeCanary \<Rightarrow>
          (if ce_stages E = None then Inl RNotConfigured
           else case check_gate E plan (as_Gate s) of Inl e \<Rightarrow> Inl e
           | Inr g \<Rightarrow>
           let unstageable = filter (\<lambda>k. has_kind [k] plan) canaryUnstageableKinds in
           if unstageable \<noteq> [] then Inl (RUnstageable unstageable)
           else case check_canary_nodes plan (as_CanaryNodes s) of Inl e \<Rightarrow> Inl e
           | Inr canary \<Rightarrow>
           case check_hold s confirmTimeout of Inl e \<Rightarrow> Inl e
           | Inr hold \<Rightarrow> Inr (s\<lparr>as_Gate := g, as_CanaryNodes := canary, as_HoldForSec := hold\<rparr>))
      | _ \<Rightarrow>
          if as_CanaryNodes s \<noteq> [] \<or> as_HoldForSec s \<noteq> 0 \<or> as_Gate s \<noteq> ApplyGateUnset then Inl RModeAll
          else Inr all_strategy)"


section \<open>The stage table\<close>

definition stages_Upsert :: "('q, 'w, 'r) coord_env \<Rightarrow> string \<Rightarrow> ChangesetApplyStage \<Rightarrow> ('q, 'w, 'r) coord \<Rightarrow> bool \<times> ('q, 'w, 'r) coord" where
  "stages_Upsert E i row c =
     (if ce_stages E = Some True then (True, c\<lparr>cd_stages := (cd_stages c)(i \<mapsto> row)\<rparr>) else (False, c))"

definition StagedApplyState :: "('q, 'w, 'r) coord_env \<Rightarrow> string \<Rightarrow> ('q, 'w, 'r) coord \<Rightarrow> 'q plan_params coord_err + ChangesetApplyStage option" where
  "StagedApplyState E i c =
     (if ce_stages E = None then Inr None
      else if \<not> ce_stage_read_ok E then Inl ErrStageStore
      else Inr (cd_stages c i))"

definition clearStage :: "('q, 'w, 'r) coord_env \<Rightarrow> string \<Rightarrow> ('q, 'w, 'r) coord \<Rightarrow> ('q, 'w, 'r) coord" where
  "clearStage E i c = (if ce_stages E = Some True then c\<lparr>cd_stages := (cd_stages c)(i := None)\<rparr> else c)"


section \<open>The hold\<close>

definition clampHold :: "int \<Rightarrow> int \<Rightarrow> int \<Rightarrow> int" where
  "clampHold now hold confirmDeadline =
     (if now + hold > confirmDeadline then confirmDeadline else now + hold)"

definition abortResult :: "Status \<Rightarrow> string" where
  "abortResult s = (if s = StatusFailed then ''rollback_incomplete'' else ''rolled_back'')"

definition log_hold :: "('q, 'w, 'r) coord_env \<Rightarrow> string list \<Rightarrow> int \<Rightarrow> ApplyLog \<Rightarrow> ApplyLog" where
  "log_hold E nodes deadline l =
     (if \<not> nodeTimers E then l
      else l\<lparr>al_NodeTimers := mergeNodeTimerLogs (al_NodeTimers l) (map (armed_log deadline) nodes)\<rparr>)"

definition holdAfterCanary :: "('q, 'w, 'r) coord_env \<Rightarrow> string \<Rightarrow> 'q plan_params Changeset \<Rightarrow> ApplyLog \<Rightarrow> int \<Rightarrow> ApplyStrategy
    \<Rightarrow> string list \<Rightarrow> string list \<Rightarrow> ('q, 'w, 'r) coord \<Rightarrow> ('q, 'w, 'r) coord_out" where
  "holdAfterCanary E author cs l deadline strategy applied pending c =
     (let holdDeadline = clampHold (ce_now E) (holdFor strategy) deadline;
          cs = cs\<lparr>ch_ApplyLog := jc_marshalLog (ce_codec E) (log_hold E applied deadline l),
                  ch_ConfirmDeadline := Some deadline, ch_UpdatedAt := ce_now E\<rparr>
      in case persist_cs E cs c of (Some e, c) \<Rightarrow> ((Some (EChange e), None), c)
      | (None, c) \<Rightarrow>
      case stages_Upsert E (ch_ID cs)
             \<lparr> sg_State = StageCanaryHold, sg_Author = author, sg_Strategy = strategy, sg_AppliedNodes = applied,
               sg_PendingNodes = pending, sg_HoldStartedAt = ce_now E, sg_HoldDeadline = holdDeadline,
               sg_ConfirmDeadline = deadline \<rparr> c of
        (False, c) \<Rightarrow>
          (case doRollbackScopedLocked E systemRollbackActor None (Some applied) cs c of ((rbErr, cs), c) \<Rightarrow>
             let c = clearStage E (ch_ID cs) c;
                 c = audit E author ''changeset.abort'' (abortResult (ch_Status cs)) (ch_ID cs) c
             in ((Some (case rbErr of Some e \<Rightarrow> e | None \<Rightarrow> ErrStageStore), Some cs), c))
      | (True, c) \<Rightarrow>
          let c = armHoldTimerLocked (ch_ID cs) holdDeadline c;
              c = broadcast E cs c;
              c = audit E author ''changeset.apply'' ''canary_hold'' (ch_ID cs) c
          in ((None, Some cs), c))"


section \<open>Continuing\<close>

definition claimPauseLocked :: "('q, 'w, 'r) coord_env \<Rightarrow> string \<Rightarrow> StageState \<Rightarrow> ('q, 'w, 'r) coord
    \<Rightarrow> ('q plan_params coord_err + 'q plan_params Changeset \<times> ChangesetApplyStage) \<times> ('q, 'w, 'r) coord" where
  "claimPauseLocked E i next_state c =
     (case get_cs E i c of Inl e \<Rightarrow> (Inl (EChange e), c) | Inr cs \<Rightarrow>
      case StagedApplyState E i c of Inl e \<Rightarrow> (Inl e, c)
      | Inr None \<Rightarrow> (Inl (ErrNotResumable i (ch_Status cs) None), c)
      | Inr (Some state) \<Rightarrow>
          if sg_State state \<noteq> StageCanaryHold \<or> ch_Status cs \<noteq> StatusApplying
          then (Inl (ErrNotResumable i (ch_Status cs) (Some (sg_State state))), c)
          else if next_state = sg_State state then (Inr (cs, state), c)
          else case stages_Upsert E i (state\<lparr>sg_State := next_state\<rparr>) c of
            (False, c) \<Rightarrow> (Inl ErrStageStore, c)
          | (True, c) \<Rightarrow> (Inr (cs, state), c))"

definition unionInPlanOrder :: "Plan \<Rightarrow> string list list \<Rightarrow> string list" where
  "unionInPlanOrder plan ls = filter (\<lambda>n. list_ex (\<lambda>l. n \<in> set l) ls) (affectedNodes plan)"

definition finishFailedStaged :: "('q, 'w, 'r) coord_env \<Rightarrow> string \<Rightarrow> 'q plan_params Changeset \<Rightarrow> ApplyLog \<Rightarrow> 'q plan_params coord_err
    \<Rightarrow> ('q, 'w, 'r) coord \<Rightarrow> ('q, 'w, 'r) coord_out" where
  "finishFailedStaged E author cs l cause c =
     (let c = clearStage E (ch_ID cs) c;
          c = cancelHoldTimerLocked (ch_ID cs) c;
          c = cancelTimerLocked (ch_ID cs) c
      in finishFailedApply E author cs l cause c)"

text \<open>The locked claim, and the run of the remaining steps with what ends it.\<close>

definition continue_claim :: "('q, 'w, 'r) coord_env \<Rightarrow> string \<Rightarrow> ('q, 'w, 'r) coord
    \<Rightarrow> ('q plan_params coord_err + 'q plan_params Changeset \<times> ChangesetApplyStage) \<times> ('q, 'w, 'r) coord" where
  "continue_claim E i c =
     (case claimPauseLocked E i StagePromoting c of
        (Inl e, c) \<Rightarrow> (Inl e, c)
      | (Inr x, c) \<Rightarrow> (Inr x, cancelHoldTimerLocked i c))"

definition exec_with :: "('q, 'w, 'r) coord_env \<Rightarrow> ('q, 'r) pve_gateway option \<Rightarrow> ('q, 'w, 'r) exec_env" where
  "exec_with E gw = (ce_exec E)\<lparr>xe_pve := gw\<rparr>"

definition rest_executor :: "('q, 'w, 'r) coord_env \<Rightarrow> 'q plan_params Changeset \<Rightarrow> ChangesetApplyStage \<Rightarrow> Plan \<Rightarrow> pre_snapshot \<Rightarrow> 'q executor" where
  "rest_executor E cs state plan pre =
     (let rest = snd (canaryStageIndexes plan (as_CanaryNodes (sg_Strategy state)));
          ex = newExecutor (ch_ID cs) (ch_Ops cs) plan pre (sg_ConfirmDeadline state);
          ex = seedLog (decodeApplyLog (ce_codec E) (ch_ApplyLog cs)) ex
      in ex\<lparr>ex_rollbackNodes := unionInPlanOrder plan [sg_AppliedNodes state, stageNodes plan rest]\<rparr>)"

definition continue_run :: "('q, 'w, 'r) coord_env \<Rightarrow> string \<Rightarrow> ('q, 'r) pve_gateway option \<Rightarrow> 'q plan_params Changeset
    \<Rightarrow> ChangesetApplyStage \<Rightarrow> ('q, 'w, 'r) coord \<Rightarrow> ('q, 'w, 'r) coord_out" where
  "continue_run E author pveGW cs state c =
     (let plan = decodePlan (ce_codec E) (ch_Plan cs) in
      case loadPreSnapshot E (ch_ID cs) c of
        Inl e \<Rightarrow> finishFailedStaged E author cs (decodeApplyLog (ce_codec E) (ch_ApplyLog cs)) e c
      | Inr pre \<Rightarrow>
      let rest = snd (canaryStageIndexes plan (as_CanaryNodes (sg_Strategy state))) in
      case runSteps (exec_with E pveGW) rest (rest_executor E cs state plan pre, cd_w c, cd_r c) of
        (Some e, ex, w, r) \<Rightarrow> finishFailedStaged E author cs (ex_log ex) (EExec e) (c\<lparr>cd_w := w, cd_r := r\<rparr>)
      | (None, ex, w, r) \<Rightarrow>
          let c = clearStage E (ch_ID cs) (c\<lparr>cd_w := w, cd_r := r\<rparr>);
              c = audit E author ''changeset.continue'' ''promoted'' (ch_ID cs) c
          in finishAwaitingConfirm E author cs plan (ex_log ex) (sg_ConfirmDeadline state) c)"

definition continueStaged :: "('q, 'w, 'r) coord_env \<Rightarrow> string \<Rightarrow> string \<Rightarrow> ('q, 'r) pve_gateway option \<Rightarrow> ('q, 'w, 'r) coord
    \<Rightarrow> ('q, 'w, 'r) coord_out" where
  "continueStaged E i author pveGW c =
     (case continue_claim E i c of
        (Inl e, c) \<Rightarrow> ((Some e, None), c)
      | (Inr (cs, state), c) \<Rightarrow> continue_run E author pveGW cs state c)"

definition ContinueStagedApply :: "('q, 'w, 'r) coord_env \<Rightarrow> string \<Rightarrow> string \<Rightarrow> ('q, 'w, 'r) coord \<Rightarrow> ('q, 'w, 'r) coord_out" where
  "ContinueStagedApply E i author c =
     (if \<not> ce_applyConfigured E then ((Some ErrApplyNotConfigured, None), c)
      else continueStaged E i author (ce_pve E) c)"


section \<open>Aborting\<close>

definition abortStagedApply :: "('q, 'w, 'r) coord_env \<Rightarrow> string \<Rightarrow> string \<Rightarrow> ('q, 'r) pve_gateway option \<Rightarrow> ('q, 'w, 'r) coord
    \<Rightarrow> ('q, 'w, 'r) coord_out" where
  "abortStagedApply E i actor pveGW c =
     (case get_cs E i c of Inl e \<Rightarrow> ((Some (EChange e), None), c) | Inr cs \<Rightarrow>
      case StagedApplyState E i c of Inl e \<Rightarrow> ((Some e, None), c)
      | Inr None \<Rightarrow> ((Some (ErrNotResumable i (ch_Status cs) None), None), c)
      | Inr (Some state) \<Rightarrow>
          if ch_Status cs \<noteq> StatusApplying
          then ((Some (ErrNotResumable i (ch_Status cs) (Some (sg_State state))), None), c)
          else
            let c = cancelHoldTimerLocked i c; c = cancelTimerLocked i c in
            (case doRollbackScopedLocked E actor pveGW (Some (sg_AppliedNodes state)) cs c of ((rbErr, cs), c) \<Rightarrow>
               let c = clearStage E i c;
                   c = audit E actor ''changeset.abort'' (abortResult (ch_Status cs)) i c
               in ((rbErr, Some cs), c)))"

definition AbortStagedApply :: "('q, 'w, 'r) coord_env \<Rightarrow> string \<Rightarrow> string \<Rightarrow> ('q, 'r) pve_gateway option \<Rightarrow> ('q, 'w, 'r) coord
    \<Rightarrow> ('q, 'w, 'r) coord_out" where
  "AbortStagedApply E i actor pveGW c =
     (if \<not> ce_applyConfigured E then ((Some ErrApplyNotConfigured, None), c)
      else abortStagedApply E i actor pveGW c)"


section \<open>The end of a hold\<close>

definition Clean :: "CanaryVerdict \<Rightarrow> bool" where
  "Clean v \<longleftrightarrow> cv_Healthy v \<and> cv_Findings v = []"

definition checkCanary :: "('q, 'w, 'r) coord_env \<Rightarrow> ChangesetApplyStage \<Rightarrow> CanaryVerdict" where
  "checkCanary E state =
     (case ce_canary E of None \<Rightarrow> \<lparr> cv_Healthy = False, cv_Findings = [] \<rparr>
      | Some check \<Rightarrow>
          (case check (sg_AppliedNodes state) (sg_HoldStartedAt state) of
             None \<Rightarrow> \<lparr> cv_Healthy = False, cv_Findings = [] \<rparr>
           | Some v \<Rightarrow> v))"

definition resolveHold :: "('q, 'w, 'r) coord_env \<Rightarrow> string \<Rightarrow> ChangesetApplyStage \<Rightarrow> ('q, 'w, 'r) coord \<Rightarrow> ('q, 'w, 'r) coord" where
  "resolveHold E i state c =
     (if ce_now E \<ge> sg_ConfirmDeadline state then snd (abortStagedApply E i systemRollbackActor None c)
      else if as_Gate (sg_Strategy state) \<noteq> ApplyGateAuto then snd (abortStagedApply E i systemRollbackActor None c)
      else if \<not> Clean (checkCanary E state) then
        snd (abortStagedApply E i systemRollbackActor None
          (audit E systemRollbackActor ''changeset.apply'' ''canary_gate_failed'' i c))
      else
        snd (continueStaged E i systemRollbackActor None
          (audit E systemRollbackActor ''changeset.apply'' ''canary_gate_passed'' i c)))"

definition onHoldExpired :: "('q, 'w, 'r) coord_env \<Rightarrow> string \<Rightarrow> ('q, 'w, 'r) coord \<Rightarrow> ('q, 'w, 'r) coord" where
  "onHoldExpired E i c =
     (let c = cancelHoldTimerLocked i c in
      if \<not> ce_mayLead E then c
      else case get_cs E i c of Inl _ \<Rightarrow> c | Inr cs \<Rightarrow>
      case StagedApplyState E i c of
        Inr (Some state) \<Rightarrow>
          if sg_State state \<noteq> StageCanaryHold \<or> ch_Status cs \<noteq> StatusApplying then c
          else resolveHold E i state c
      | _ \<Rightarrow> c)"

end
