(* ===== verification/Coordinator.thy ===== *)
theory Coordinator
  imports Staged_Apply
begin

text \<open>
  The calls of the coordinator (\<^verbatim>\<open>src/internal/change/apply.go\<close>): an apply with its options, the
  confirmation, the rollback by an operator and by the deadline, the reconciliation with nodes that
  were out of reach (\<^verbatim>\<open>apply_distributed.go\<close>), the rollback triggered by a finding
  (\<^verbatim>\<open>autorollback.go\<close>), and the recovery of all of it at startup.
\<close>

section \<open>Findings\<close>

record ObservedFinding =
  of_ID :: string
  of_Check :: string
  of_Severity :: string
  of_Detail :: string
  of_Nodes :: "string list"
  of_Refs :: "string list"

definition attributableTo :: "autoRollbackGuard \<Rightarrow> ObservedFinding \<Rightarrow> bool" where
  "attributableTo g f \<longleftrightarrow>
     list_ex (\<lambda>n. n \<in> set (gd_nodes g)) (of_Nodes f) \<or> list_ex (\<lambda>r. r \<in> set (gd_refs g)) (of_Refs f)"

definition autoRollbackEnabled :: "('q, 'w, 'r) coord_env \<Rightarrow> bool option \<Rightarrow> bool" where
  "autoRollbackEnabled E opt = (case opt of Some b \<Rightarrow> b | None \<Rightarrow> ce_autoRollbackDefault E)"

definition armAutoRollback :: "('q, 'w, 'r) coord_env \<Rightarrow> string \<Rightarrow> bool option \<Rightarrow> 'q plan_params Changeset \<Rightarrow> ('q, 'w, 'r) coord \<Rightarrow> ('q, 'w, 'r) coord" where
  "armAutoRollback E author opt cs c =
     (if \<not> autoRollbackEnabled E opt then c
      else case ce_impact E (ch_Ops cs) of (nodes, refs) \<Rightarrow>
        let g = \<lparr> gd_baseline = cd_lastFindings c, gd_nodes = nodes, gd_refs = refs \<rparr>;
            c = disarmAutoRollback (ch_ID cs) c;
            c = c\<lparr>cd_guards := (ch_ID cs, g) # cd_guards c\<rparr>
        in audit E author ''changeset.auto_rollback'' ''armed'' (ch_ID cs) c)"

definition new_errors :: "ObservedFinding list \<Rightarrow> autoRollbackGuard \<Rightarrow> ObservedFinding list" where
  "new_errors observed g =
     (case gd_baseline g of None \<Rightarrow> []
      | Some base \<Rightarrow> filter (\<lambda>f. of_ID f \<notin> base \<and> of_Severity f = ''error'' \<and> attributableTo g f) observed)"

text \<open>Under the findings mutex: which guards fire, in the order of their changesets.\<close>

definition observe_cycle :: "ObservedFinding list \<Rightarrow> ('q, 'w, 'r) coord \<Rightarrow> (string \<times> ObservedFinding list) list \<times> ('q, 'w, 'r) coord" where
  "observe_cycle observed c =
     (let ids = set (map of_ID observed);
          fired = sort_key fst (map (\<lambda>(i, g). (i, new_errors observed g))
                   (filter (\<lambda>(i, g). new_errors observed g \<noteq> []) (cd_guards c)));
          kept = map (\<lambda>(i, g). (i, if gd_baseline g = None then g\<lparr>gd_baseline := Some ids\<rparr> else g))
                   (filter (\<lambda>(i, g). new_errors observed g = []) (cd_guards c))
      in (fired, c\<lparr>cd_guards := kept, cd_lastFindings := Some ids\<rparr>))"

definition newAutoRollbackTrigger :: "ObservedFinding list \<Rightarrow> int \<Rightarrow> AutoRollbackTrigger" where
  "newAutoRollbackTrigger matched at =
     (let srt = sort_key of_ID matched; primary = hd srt in
      \<lparr> at_FindingID = of_ID primary, at_Check = of_Check primary, at_Severity = of_Severity primary,
        at_Detail = of_Detail primary, at_Findings = map of_ID srt, at_Nodes = of_Nodes primary,
        at_Refs = of_Refs primary, at_At = at \<rparr>)"

definition recordAutoRollbackTrigger :: "('q, 'w, 'r) coord_env \<Rightarrow> AutoRollbackTrigger \<Rightarrow> 'q plan_params Changeset \<Rightarrow> ('q, 'w, 'r) coord
    \<Rightarrow> 'q plan_params Changeset \<times> ('q, 'w, 'r) coord" where
  "recordAutoRollbackTrigger E t cs c =
     (let l = (decodeApplyLog (ce_codec E) (ch_ApplyLog cs))\<lparr>al_AutoRollback := Some t\<rparr> in
      (cs\<lparr>ch_ApplyLog := jc_marshalLog (ce_codec E) l\<rparr>, snd (updateApplyLog E (ch_ID cs) l c)))"

text \<open>
  Rolling back for a finding: the decision, made without the apply mutex, and the rollback under it
  with the changeset the decision read.
\<close>

definition fire_decide :: "('q, 'w, 'r) coord_env \<Rightarrow> string \<Rightarrow> ObservedFinding list \<Rightarrow> ('q, 'w, 'r) coord
    \<Rightarrow> ('q plan_params Changeset \<times> bool) option \<times> ('q, 'w, 'r) coord" where
  "fire_decide E i matched c =
     (case get_cs E i c of Inl _ \<Rightarrow> (None, c) | Inr cs \<Rightarrow>
      if \<not> ce_mayLead E then (None, c)
      else
        let paused = (case StagedApplyState E i c of Inr (Some _) \<Rightarrow> True | _ \<Rightarrow> False) in
        if \<not> (ch_Status cs = StatusAwaitingConfirm \<or> ch_Status cs = StatusApplying \<and> paused) then (None, c)
        else case recordAutoRollbackTrigger E (newAutoRollbackTrigger matched (ce_now E)) cs c of (cs, c) \<Rightarrow>
          (Some (cs, paused), audit E systemRollbackActor ''changeset.auto_rollback'' ''finding_triggered'' i c))"

definition fire_rollback :: "('q, 'w, 'r) coord_env \<Rightarrow> string \<Rightarrow> 'q plan_params Changeset \<times> bool \<Rightarrow> ('q, 'w, 'r) coord \<Rightarrow> ('q, 'w, 'r) coord" where
  "fire_rollback E i = (\<lambda>(cs, paused) c.
     if paused then snd (AbortStagedApply E i systemRollbackActor None c)
     else snd (doRollbackLocked E systemRollbackActor None cs (cancelTimerLocked i c)))"

definition fireAutoRollback :: "('q, 'w, 'r) coord_env \<Rightarrow> string \<Rightarrow> ObservedFinding list \<Rightarrow> ('q, 'w, 'r) coord \<Rightarrow> ('q, 'w, 'r) coord" where
  "fireAutoRollback E i matched c =
     (case fire_decide E i matched c of (None, c) \<Rightarrow> c | (Some x, c) \<Rightarrow> fire_rollback E i x c)"

definition ObserveFindings :: "('q, 'w, 'r) coord_env \<Rightarrow> ObservedFinding list \<Rightarrow> ('q, 'w, 'r) coord \<Rightarrow> ('q, 'w, 'r) coord" where
  "ObserveFindings E observed c =
     (case observe_cycle observed c of (fired, c) \<Rightarrow> fold (\<lambda>(i, matched). fireAutoRollback E i matched) fired c)"


section \<open>Applying\<close>

definition plan_gates :: "('q, 'w, 'r) coord_env \<Rightarrow> ApplyStrategy \<Rightarrow> int \<Rightarrow> ('q plan_params, Plan) apply_gates" where
  "plan_gates E strategy confirmTimeout =
     (ce_gates E)\<lparr>ag_BuildPlan := (\<lambda>ops. case BuildPlan ops of Inl _ \<Rightarrow> None | Inr plan \<Rightarrow> Some plan),
        ag_hasSDN := hasSDN, ag_affectedNodes := affectedNodes,
        ag_strategy_ok := (\<lambda>plan. case validateApplyStrategy E strategy plan confirmTimeout of Inl _ \<Rightarrow> False | Inr _ \<Rightarrow> True),
        ag_marshalPlan := jc_marshalPlan (ce_codec E)\<rparr>"

definition confirm_timeout :: "('q, 'w, 'r) coord_env \<Rightarrow> int \<Rightarrow> int" where
  "confirm_timeout E t = clampConfirmTimeout (if t = 0 then ce_confirmTimeout E else t)"

text \<open>The locked entry. The strategy is the one the gate normalised.\<close>

definition apply_enter :: "('q, 'w, 'r) coord_env \<Rightarrow> string \<Rightarrow> string \<Rightarrow> int \<Rightarrow> ApplyStrategy \<Rightarrow> ('q, 'w, 'r) coord
    \<Rightarrow> ('q plan_params coord_err + 'q plan_params Changeset \<times> Plan \<times> ApplyStrategy) \<times> ('q, 'w, 'r) coord" where
  "apply_enter E i author timeout strategy c =
     (case beginApply (ce_svc E) (plan_gates E strategy timeout) i author (cd_st c) of
        (Inl e, st) \<Rightarrow> (Inl (EApply e), c\<lparr>cd_st := st\<rparr>)
      | (Inr (cs, plan), st) \<Rightarrow>
          (case validateApplyStrategy E strategy plan timeout of
             Inl e \<Rightarrow> (Inl (ErrInvalidApplyStrategy e), c\<lparr>cd_st := st\<rparr>)
           | Inr strategy \<Rightarrow> (Inr (cs, plan, strategy), c\<lparr>cd_st := st\<rparr>)))"

definition take_snapshot :: "('q, 'w, 'r) coord_env \<Rightarrow> string \<Rightarrow> Plan \<Rightarrow> ('q, 'w, 'r) coord \<Rightarrow> (exec_err + pre_snapshot) \<times> ('q, 'w, 'r) coord" where
  "take_snapshot E i plan c =
     (case captureSnapshotFull (ce_exec E) plan (cd_w c) (cd_r c) of
        (Inl e, w, r) \<Rightarrow> (Inl e, c\<lparr>cd_w := w, cd_r := r\<rparr>)
      | (Inr pre, w, r) \<Rightarrow> (Inr pre, c\<lparr>cd_w := w, cd_r := r, cd_pre := (cd_pre c)(i \<mapsto> pre)\<rparr>))"

text \<open>
  What follows the entry, with the environment it is in and the one of the locked section that ends
  the call. \<open>Inl\<close> is a failure with the log it is recorded with.
\<close>

definition apply_execute :: "('q, 'w, 'r) coord_env \<Rightarrow> string \<Rightarrow> bool option \<Rightarrow> 'q plan_params Changeset \<Rightarrow> Plan \<Rightarrow> ApplyStrategy \<Rightarrow> int
    \<Rightarrow> ('q, 'w, 'r) coord \<Rightarrow> (exec_err \<times> ApplyLog + ApplyLog) \<times> ('q, 'w, 'r) coord" where
  "apply_execute E author opt cs plan strategy deadline c =
     (let c = armAutoRollback E author opt cs c in
      case take_snapshot E (ch_ID cs) plan c of
        (Inl e, c) \<Rightarrow> (Inl (e, empty_log), c)
      | (Inr pre, c) \<Rightarrow>
      case sealRevertTicket E (ch_ID cs) plan deadline c of (_, c) \<Rightarrow>
      let ex = newExecutor (ch_ID cs) (ch_Ops cs) plan pre deadline;
          canary = fst (canaryStageIndexes plan (as_CanaryNodes strategy))
      in case (if \<not> IsCanary strategy then run (ce_exec E) (ex, cd_w c, cd_r c)
               else runSteps (ce_exec E) canary (ex\<lparr>ex_rollbackNodes := stageNodes plan canary\<rparr>, cd_w c, cd_r c)) of
           (Some e, ex, w, r) \<Rightarrow> (Inl (e, ex_log ex), c\<lparr>cd_w := w, cd_r := r\<rparr>)
         | (None, ex, w, r) \<Rightarrow> (Inr (ex_log ex), c\<lparr>cd_w := w, cd_r := r\<rparr>))"

definition apply_finish :: "('q, 'w, 'r) coord_env \<Rightarrow> string \<Rightarrow> 'q plan_params Changeset \<Rightarrow> Plan \<Rightarrow> ApplyStrategy \<Rightarrow> int
    \<Rightarrow> exec_err \<times> ApplyLog + ApplyLog \<Rightarrow> ('q, 'w, 'r) coord \<Rightarrow> ('q, 'w, 'r) coord_out" where
  "apply_finish E author cs plan strategy deadline res c =
     (case res of
        Inl (e, l) \<Rightarrow> finishFailedApply E author cs l (EExec e) c
      | Inr l \<Rightarrow>
          if \<not> IsCanary strategy then finishAwaitingConfirm E author cs plan l deadline c
          else case canaryStageIndexes plan (as_CanaryNodes strategy) of (canary, rest) \<Rightarrow>
            holdAfterCanary E author cs l deadline strategy (stageNodes plan canary) (stageNodes plan rest) c)"

definition ApplyWithOptions :: "('q, 'w, 'r) coord_env \<Rightarrow> ('q, 'w, 'r) coord_env \<Rightarrow> string \<Rightarrow> string \<Rightarrow> int \<Rightarrow> ApplyStrategy \<Rightarrow> bool option
    \<Rightarrow> ('q, 'w, 'r) coord \<Rightarrow> ('q, 'w, 'r) coord_out" where
  "ApplyWithOptions E E' i author timeout strategy opt c =
     (if \<not> ce_applyConfigured E then ((Some ErrApplyNotConfigured, None), c)
      else let timeout = confirm_timeout E timeout in
      case apply_enter E i author timeout strategy c of
        (Inl e, c) \<Rightarrow> ((Some e, None), c)
      | (Inr (cs, plan, strategy), c) \<Rightarrow>
          let deadline = ce_now E + timeout in
          case apply_execute E author opt cs plan strategy deadline c of (res, c) \<Rightarrow>
            apply_finish E' author cs plan strategy deadline res c)"

definition Apply :: "('q, 'w, 'r) coord_env \<Rightarrow> ('q, 'w, 'r) coord_env \<Rightarrow> string \<Rightarrow> string \<Rightarrow> int \<Rightarrow> ('q, 'w, 'r) coord \<Rightarrow> ('q, 'w, 'r) coord_out" where
  "Apply E E' i author timeout c = ApplyWithOptions E E' i author timeout
     \<lparr> as_Mode = ApplyModeUnset, as_Gate = ApplyGateUnset, as_CanaryNodes = [], as_HoldForSec = 0 \<rparr> None c"


section \<open>Confirming\<close>

definition confirm_locked :: "('q, 'w, 'r) coord_env \<Rightarrow> string \<Rightarrow> ('q, 'w, 'r) coord
    \<Rightarrow> ('q plan_params coord_err + 'q plan_params Changeset) \<times> ('q, 'w, 'r) coord" where
  "confirm_locked E i c =
     (case get_cs E i c of Inl e \<Rightarrow> (Inl (EChange e), c) | Inr cs \<Rightarrow>
      if ch_Status cs \<noteq> StatusAwaitingConfirm then (Inl (ErrNotConfirmable i (ch_Status cs)), c)
      else
        let c = disarmAutoRollback i c; c = cancelTimerLocked i c in
        case Transition StatusCommitted (ce_now E) cs of Inl e \<Rightarrow> (Inl (EChange e), c)
        | Inr cs \<Rightarrow>
        let cs = cs\<lparr>ch_ConfirmDeadline := None\<rparr> in
        case persist_cs E cs c of (Some e, c) \<Rightarrow> (Inl (EChange e), c)
        | (None, c) \<Rightarrow>
            let c = wipe_ticket E i c;
                cs = cs\<lparr>ch_RevertTicketExpiresAt := 0\<rparr>;
                c = release_lock c
            in (Inr cs, c))"

definition confirm_rest :: "('q, 'w, 'r) coord_env \<Rightarrow> string \<Rightarrow> string \<Rightarrow> 'q plan_params Changeset \<Rightarrow> ('q, 'w, 'r) coord \<Rightarrow> ('q, 'w, 'r) coord" where
  "confirm_rest E i author cs c =
     (let plan = decodePlan (ce_codec E) (ch_Plan cs);
          l = decodeApplyLog (ce_codec E) (ch_ApplyLog cs);
          nodes = affectedNodes plan;
          c = broadcast E cs c;
          c = audit E author ''changeset.confirm'' ''committed'' i c;
          c = (if nodeTimers E \<and> nodes \<noteq> []
               then case cancelNodeTimers E i nodes (cd_w c) of (results, w) \<Rightarrow>
                      snd (updateApplyLog E i (l\<lparr>al_NodeTimers := mergeNodeTimerLogs (al_NodeTimers l) results\<rparr>) (c\<lparr>cd_w := w\<rparr>))
               else c)
      in case capture_files (ce_exec E) nodes (cd_w c) of
           (Inr files, w) \<Rightarrow>
             if xe_store_ok (ce_exec E) then c\<lparr>cd_w := w, cd_post := (cd_post c)(i \<mapsto> files)\<rparr> else c\<lparr>cd_w := w\<rparr>
         | (Inl _, w) \<Rightarrow> c\<lparr>cd_w := w\<rparr>)"

definition Confirm :: "('q, 'w, 'r) coord_env \<Rightarrow> ('q, 'w, 'r) coord_env \<Rightarrow> string \<Rightarrow> string \<Rightarrow> ('q, 'w, 'r) coord \<Rightarrow> ('q, 'w, 'r) coord_out" where
  "Confirm E E' i author c =
     (if \<not> ce_applyConfigured E then ((Some ErrApplyNotConfigured, None), c)
      else case confirm_locked E i c of
        (Inl e, c) \<Rightarrow> ((Some e, None), c)
      | (Inr cs, c) \<Rightarrow> ((None, Some cs), confirm_rest E' i author cs c))"


section \<open>Rolling back\<close>

definition restoringTitle :: "'p Changeset \<Rightarrow> string" where
  "restoringTitle orig = ''Rollback of '' @ (if ch_Title orig = [] then ch_ID orig else ch_Title orig)"

definition createRestoringDraft :: "('q, 'w, 'r) coord_env \<Rightarrow> string \<Rightarrow> 'q plan_params Changeset \<Rightarrow> ('q, 'w, 'r) coord \<Rightarrow> ('q, 'w, 'r) coord_out" where
  "createRestoringDraft E author orig c =
     (case ce_restoringOps E (ch_ID orig) of Inl e \<Rightarrow> ((Some e, None), c)
      | Inr ops \<Rightarrow>
          if ops = [] then ((Some (ErrNothingToRestore (ch_ID orig)), None), c)
          else case svc_Create (ce_svc E) author (restoringTitle orig) ops (cd_st c) of
            (Inl e, st) \<Rightarrow> ((Some (EChange e), None), c\<lparr>cd_st := st\<rparr>)
          | (Inr draft, st) \<Rightarrow>
              ((None, Some draft), audit E author ''changeset.rollback'' ''restoring_draft_created'' (ch_ID orig) (c\<lparr>cd_st := st\<rparr>)))"

definition Rollback :: "('q, 'w, 'r) coord_env \<Rightarrow> string \<Rightarrow> string \<Rightarrow> ('q, 'w, 'r) coord \<Rightarrow> ('q, 'w, 'r) coord_out" where
  "Rollback E i author c =
     (if \<not> ce_applyConfigured E then ((Some ErrApplyNotConfigured, None), c)
      else case get_cs E i c of Inl e \<Rightarrow> ((Some (EChange e), None), c) | Inr cs \<Rightarrow>
      case ch_Status cs of
        StatusAwaitingConfirm \<Rightarrow>
          (case doRollbackLocked E author (ce_pve E) cs (cancelTimerLocked i c) of ((rbErr, cs), c) \<Rightarrow> ((rbErr, Some cs), c))
      | StatusApplying \<Rightarrow>
          (case StagedApplyState E i c of
             Inr (Some _) \<Rightarrow> abortStagedApply E i author (ce_pve E) c
           | _ \<Rightarrow> ((Some (ErrNotConfirmable i StatusApplying), None), c))
      | StatusCommitted \<Rightarrow>
          if ce_now E > ch_UpdatedAt cs + ce_rollbackWindowDays E * 24 * 60 * 60
          then ((Some (ErrRollbackWindowExpired i (ch_UpdatedAt cs) (ce_rollbackWindowDays E)), None),
                audit E author ''changeset.rollback'' ''window_expired'' i c)
          else createRestoringDraft E author cs c
      | s \<Rightarrow> ((Some (ErrNotConfirmable i s), None), c))"

text \<open>The callback of the timer that guards the window.\<close>

definition autoRollback :: "('q, 'w, 'r) coord_env \<Rightarrow> string \<Rightarrow> ('q, 'w, 'r) coord \<Rightarrow> ('q, 'w, 'r) coord" where
  "autoRollback E i c =
     (let c = cancelTimerLocked i c in
      if \<not> ce_mayLead E then c
      else case get_cs E i c of Inl _ \<Rightarrow> c | Inr cs \<Rightarrow>
      if ch_Status cs = StatusApplying then
        (case StagedApplyState E i c of
           Inr (Some _) \<Rightarrow> snd (abortStagedApply E i systemRollbackActor None c)
         | _ \<Rightarrow> c)
      else if ch_Status cs \<noteq> StatusAwaitingConfirm then c
      else snd (doRollbackLocked E systemRollbackActor None cs c))"


section \<open>Startup\<close>

definition recoverInterruptedApply :: "('q, 'w, 'r) coord_env \<Rightarrow> 'q plan_params Changeset \<Rightarrow> ('q, 'w, 'r) coord \<Rightarrow> ('q, 'w, 'r) coord" where
  "recoverInterruptedApply E cs c =
     (let plan = decodePlan (ce_codec E) (ch_Plan cs);
          c = (case loadPreSnapshot E (ch_ID cs) c of Inl _ \<Rightarrow> c
               | Inr pre \<Rightarrow>
                   (case restoreAll E plan pre (cd_w c) of (_, w) \<Rightarrow>
                    let c = c\<lparr>cd_w := w\<rparr> in
                    if \<not> needsRevertTicket plan then c
                    else case revertGatewayFor E (ch_ID cs) c of
                      (None, c) \<Rightarrow> c
                    | (Some gw, c) \<Rightarrow>
                        (case restore_part True (ps_sdn pre)
                               (\<lambda>s r. case restoreSDN (ce_exec E) (Some gw) s r of (l, r) \<Rightarrow> ([l], r)) (cd_r c) of (_, r) \<Rightarrow>
                         case restore_part True (ps_fw pre) (restoreFwState (Some gw)) r of (_, r) \<Rightarrow> c\<lparr>cd_r := r\<rparr>)));
          cs = (try_transition StatusFailed (ce_now E) cs)\<lparr>ch_ConfirmDeadline := None\<rparr>;
          c = snd (persist_cs E cs c);
          c = wipe_ticket E (ch_ID cs) c;
          c = (if st_lockHeldBy (cd_st c) = ch_ID cs then release_lock c else c);
          c = broadcast E cs c
      in audit E systemRollbackActor ''changeset.recover'' ''failed'' (ch_ID cs) c)"

definition recoverStagedApply :: "('q, 'w, 'r) coord_env \<Rightarrow> 'q plan_params Changeset \<Rightarrow> ChangesetApplyStage \<Rightarrow> ('q, 'w, 'r) coord \<Rightarrow> ('q, 'w, 'r) coord" where
  "recoverStagedApply E cs state c =
     (if sg_State state = StagePromoting then recoverInterruptedApply E cs (clearStage E (ch_ID cs) c)
      else if ce_now E \<ge> sg_HoldDeadline state then
        resolveHold E (ch_ID cs) state
          (audit E systemRollbackActor ''changeset.recover'' ''canary_hold_expired'' (ch_ID cs) c)
      else
        let c = upd_st (\<lambda>st. st\<lparr>st_lockHeldBy := ch_ID cs\<rparr>) c;
            c = armHoldTimerLocked (ch_ID cs) (sg_HoldDeadline state) c
        in audit E systemRollbackActor ''changeset.recover'' ''canary_hold_resumed'' (ch_ID cs) c)"

definition rearm_window :: "('q, 'w, 'r) coord_env \<Rightarrow> 'q plan_params Changeset \<Rightarrow> ('q, 'w, 'r) coord \<Rightarrow> ('q, 'w, 'r) coord" where
  "rearm_window E cs c =
     (let c = upd_st (\<lambda>st. st\<lparr>st_lockHeldBy := ch_ID cs\<rparr>) c;
          c = (case ch_ConfirmDeadline cs of None \<Rightarrow> c | Some d \<Rightarrow> armTimerLocked (ch_ID cs) d c)
      in audit E systemRollbackActor ''changeset.timer_rearm'' ''armed'' (ch_ID cs) c)"

definition recover_applying :: "('q, 'w, 'r) coord_env \<Rightarrow> 'q plan_params Changeset \<Rightarrow> ('q, 'w, 'r) coord \<Rightarrow> ('q, 'w, 'r) coord" where
  "recover_applying E cs c =
     (case StagedApplyState E (ch_ID cs) c of
        Inl _ \<Rightarrow> recoverInterruptedApply E cs c
      | Inr (Some state) \<Rightarrow> recoverStagedApply E cs state c
      | Inr None \<Rightarrow> recoverInterruptedApply E cs c)"

definition ArmPendingRollbacks :: "('q, 'w, 'r) coord_env \<Rightarrow> ('q, 'w, 'r) coord \<Rightarrow> change_err option \<times> ('q, 'w, 'r) coord" where
  "ArmPendingRollbacks E c =
     (if \<not> ce_applyConfigured E then (None, c)
      else
        let c = SweepExpiredRevertTickets E c in
        case svc_List E StatusAwaitingConfirm c of Inl e \<Rightarrow> (Some e, c)
        | Inr awaiting \<Rightarrow>
        let c = fold (rearm_window E) awaiting c in
        case svc_List E StatusApplying c of Inl e \<Rightarrow> (Some e, c)
        | Inr interrupted \<Rightarrow> (None, fold (recover_applying E) interrupted c))"

text \<open>A restart loses what is only in memory.\<close>

definition crash :: "('q, 'w, 'r) coord \<Rightarrow> ('q, 'w, 'r) coord" where
  "crash c = upd_st (\<lambda>st. st\<lparr>st_lockHeldBy := []\<rparr>)
     (c\<lparr>cd_timers := Map.empty, cd_holds := Map.empty, cd_guards := [], cd_lastFindings := None\<rparr>)"


section \<open>Reconciliation\<close>

fun query_timers :: "('q, 'w, 'r) coord_env \<Rightarrow> string \<Rightarrow> string list \<Rightarrow> 'w \<Rightarrow> NodeTimerLog list \<times> 'w" where
  "query_timers E i [] w = ([], w)"
| "query_timers E i (node # nodes) w =
     (case ce_TimerStatus E i node w of (res, w) \<Rightarrow>
      case query_timers E i nodes w of (updates, w) \<Rightarrow>
        (case res of
           Inl _ \<Rightarrow> (updates, w)
         | Inr r \<Rightarrow> if tr_Status r = NodeTimerArmed then (updates, w) else (nodeTimerLogFromRecord r # updates, w)))"

definition reconcileOne :: "('q, 'w, 'r) coord_env \<Rightarrow> 'q plan_params Changeset \<Rightarrow> ('q, 'w, 'r) coord \<Rightarrow> (change_err + nat) \<times> ('q, 'w, 'r) coord" where
  "reconcileOne E cs c =
     (let l = decodeApplyLog (ce_codec E) (ch_ApplyLog cs);
          pending = map nl_Node (filter (\<lambda>t. nl_Status t = TimerUnknown) (al_NodeTimers l))
      in if pending = [] then (Inr 0, c)
         else case query_timers E (ch_ID cs) pending (cd_w c) of (updates, w) \<Rightarrow>
           let c = c\<lparr>cd_w := w\<rparr> in
           if updates = [] then (Inr 0, c)
           else case updateApplyLog E (ch_ID cs) (l\<lparr>al_NodeTimers := mergeNodeTimerLogs (al_NodeTimers l) updates\<rparr>) c of
             (Some e, c) \<Rightarrow> (Inl e, c)
           | (None, c) \<Rightarrow>
               (Inr (length updates), audit E systemRollbackActor ''changeset.reconcile'' ''resolved'' (ch_ID cs) c))"

fun reconcile_list :: "('q, 'w, 'r) coord_env \<Rightarrow> 'q plan_params Changeset list \<Rightarrow> nat \<times> ('q, 'w, 'r) coord \<Rightarrow> nat \<times> ('q, 'w, 'r) coord" where
  "reconcile_list E [] x = x"
| "reconcile_list E (cs # css) (n, c) =
     (case reconcileOne E cs c of
        (Inl _, c) \<Rightarrow> reconcile_list E css (n, c)
      | (Inr k, c) \<Rightarrow> reconcile_list E css (n + k, c))"

definition Reconcile :: "('q, 'w, 'r) coord_env \<Rightarrow> ('q, 'w, 'r) coord \<Rightarrow> (nat \<times> change_err option) \<times> ('q, 'w, 'r) coord" where
  "Reconcile E c =
     (if \<not> nodeTimers E then ((0, None), c)
      else case svc_List E StatusRolledBack c of Inl e \<Rightarrow> ((0, Some e), c)
      | Inr rolled \<Rightarrow>
      case reconcile_list E rolled (0, c) of (n, c) \<Rightarrow>
      case svc_List E StatusFailed c of Inl e \<Rightarrow> ((n, Some e), c)
      | Inr failed \<Rightarrow> (case reconcile_list E failed (n, c) of (n, c) \<Rightarrow> ((n, None), c)))"

end
