(* ===== verification/Confirm_Window.thy ===== *)
theory Confirm_Window
  imports Coordinator
begin

text \<open>
  The commit-confirm window: while a changeset is in flight, the apply lock is its own and a timer
  of the coordinator bounds it, through every sequence of calls, timer firings and restarts. The
  coordinator's state is abstracted to what the window depends on; each operation has its effect
  on the abstraction as a lemma.
\<close>

section \<open>The abstraction\<close>

record win =
  wn_rows :: "string \<rightharpoonup> Status \<times> int option"
  wn_lock :: string
  wn_timers :: "string \<rightharpoonup> int"
  wn_holds :: "string \<rightharpoonup> int"
  wn_stages :: "string \<rightharpoonup> ChangesetApplyStage"
  wn_keys :: bool

definition rowv :: "'p change_store \<Rightarrow> string \<rightharpoonup> Status \<times> int option" where
  "rowv st i = map_option (\<lambda>r. (row_Status r, row_ConfirmDeadline r)) (st_rows st i)"

definition view :: "('q, 'w, 'r) coord \<Rightarrow> win" where
  "view c = \<lparr> wn_rows = rowv (cd_st c), wn_lock = st_lockHeldBy (cd_st c), wn_timers = cd_timers c, wn_holds = cd_holds c,
     wn_stages = cd_stages c, wn_keys = keys_ok (cd_st c) \<rparr>"

lemma view_sel [simp]:
  "wn_rows (view c) = rowv (cd_st c)" "wn_lock (view c) = st_lockHeldBy (cd_st c)" "wn_timers (view c) = cd_timers c"
  "wn_holds (view c) = cd_holds c" "wn_stages (view c) = cd_stages c" "wn_keys (view c) = keys_ok (cd_st c)"
  by (simp_all add: view_def)

lemma rowvD: "rowv st i = Some (s, d) \<Longrightarrow> \<exists>r. st_rows st i = Some r \<and> row_Status r = s \<and> row_ConfirmDeadline r = d"
  by (auto simp: rowv_def)

lemma st_frames [simp]:
  "st_rows (appendAudit s u a res i st) = st_rows st" "st_lockHeldBy (appendAudit s u a res i st) = st_lockHeldBy st"
  "st_rows (broadcastStatus s cs st) = st_rows st" "st_lockHeldBy (broadcastStatus s cs st) = st_lockHeldBy st"
  "st_lockHeldBy (wipeRevertTicket s i st) = st_lockHeldBy st"
  by (simp_all add: appendAudit_def broadcastStatus_def wipeRevertTicket_def WipeRevertTicket_def split: option.splits)

text \<open>Operations the window does not see.\<close>

lemma view_audit [simp]: "view (audit E a b r i c) = view c"
  by (simp add: view_def audit_def upd_st_def rowv_def fun_eq_iff keys_ok_def)

lemma view_broadcast [simp]: "view (broadcast E cs c) = view c"
  by (simp add: view_def broadcast_def upd_st_def rowv_def fun_eq_iff keys_ok_def)

lemma view_disarm [simp]: "view (disarmAutoRollback i c) = view c"
  by (simp add: view_def disarmAutoRollback_def)

lemma view_wipe [simp]: "view (wipe_ticket E i c) = view c"
  by (auto simp: view_def wipe_ticket_def upd_st_def wipeRevertTicket_def WipeRevertTicket_def rowv_def fun_eq_iff
      keys_ok_def split: option.splits)

lemma view_outside [simp]:
  "view (c\<lparr>cd_w := w\<rparr>) = view c" "view (c\<lparr>cd_r := r\<rparr>) = view c" "view (c\<lparr>cd_pre := p\<rparr>) = view c"
  "view (c\<lparr>cd_post := q\<rparr>) = view c" "view (c\<lparr>cd_guards := g\<rparr>) = view c" "view (c\<lparr>cd_lastFindings := f\<rparr>) = view c"
  by (simp_all add: view_def)

lemma view_stages [simp]: "view (c\<lparr>cd_stages := x\<rparr>) = (view c)\<lparr>wn_stages := x\<rparr>"
  by (simp add: view_def)

lemma view_proj:
  assumes "view c = v"
  shows "rowv (cd_st c) = wn_rows v" "st_lockHeldBy (cd_st c) = wn_lock v" "cd_timers c = wn_timers v"
    "cd_holds c = wn_holds v" "cd_stages c = wn_stages v" "keys_ok (cd_st c) = wn_keys v"
  using assms by auto

text \<open>Operations on one part of it.\<close>

lemma view_parts [simp]:
  "view (release_lock c) = (view c)\<lparr>wn_lock := []\<rparr>"
  "view (armTimerLocked i d c) = (view c)\<lparr>wn_timers := (cd_timers c)(i \<mapsto> d)\<rparr>"
  "view (cancelTimerLocked i c) = (view c)\<lparr>wn_timers := (cd_timers c)(i := None)\<rparr>"
  "view (armHoldTimerLocked i d c) = (view c)\<lparr>wn_holds := (cd_holds c)(i \<mapsto> d)\<rparr>"
  "view (cancelHoldTimerLocked i c) = (view c)\<lparr>wn_holds := (cd_holds c)(i := None)\<rparr>"
  by (simp_all add: view_def release_lock_def upd_st_def armTimerLocked_def cancelTimerLocked_def
      armHoldTimerLocked_def cancelHoldTimerLocked_def rowv_def keys_ok_def fun_eq_iff)

lemma view_lock: "view (upd_st (\<lambda>st. st\<lparr>st_lockHeldBy := i\<rparr>) c) = (view c)\<lparr>wn_lock := i\<rparr>"
  by (simp add: view_def upd_st_def rowv_def keys_ok_def fun_eq_iff)

lemma view_clearStage:
  "view (clearStage E i c) = (view c)\<lparr>wn_stages := (if ce_stages E = Some True then (cd_stages c)(i := None) else cd_stages c)\<rparr>"
  by (simp add: view_def clearStage_def)

text \<open>Writing a changeset over its row.\<close>

lemma persist_view:
  assumes "sv_write_ok (ce_svc E)" and "rowv (cd_st c) (ch_ID cs) \<noteq> None"
  shows "\<exists>c'. persist_cs E cs c = (None, c') \<and>
    view c' = (view c)\<lparr>wn_rows := (rowv (cd_st c))(ch_ID cs \<mapsto> (ch_Status cs, ch_ConfirmDeadline cs))\<rparr>"
proof -
  obtain r where r: "st_rows (cd_st c) (ch_ID cs) = Some r" using assms(2) by (auto simp: rowv_def)
  then have "persist_cs E cs c = (None, c\<lparr>cd_st := (cd_st c)\<lparr>st_rows := (st_rows (cd_st c))(ch_ID cs \<mapsto> row_upd r cs)\<rparr>\<rparr>)"
    using assms(1) by (simp add: persist_cs_def persist_changeset_def repo_Update_def toStoreRow_def row_upd_def)
  then show ?thesis
    using r by (auto simp: view_def rowv_def row_upd_def keys_ok_def fun_eq_iff)
qed

lemma persist_missing: "rowv (cd_st c) (ch_ID cs) = None \<Longrightarrow> snd (persist_cs E cs c) = c"
  by (simp add: persist_cs_def persist_changeset_def repo_Update_def toStoreRow_def rowv_def split: option.splits if_splits)

text \<open>What a section relies on: the store answers, and this daemon may act.\<close>

definition store_up :: "('q, 'w, 'r) coord_env \<Rightarrow> bool" where
  "store_up E \<longleftrightarrow> sv_read_ok (ce_svc E) \<and> sv_write_ok (ce_svc E) \<and> ce_stage_read_ok E \<and> ce_stages E \<noteq> None \<and>
     ce_applyConfigured E \<and> ce_mayLead E \<and> (\<forall>n. sv_newULID (ce_svc E) n \<noteq> [])"

definition in_flight :: "Status set" where
  "in_flight = {StatusApplying, StatusAwaitingConfirm}"

text \<open>A changeset leaves the window: terminal, no deadline, the lock free.\<close>

definition end_view :: "string \<Rightarrow> Status \<Rightarrow> win \<Rightarrow> win" where
  "end_view i t v = v\<lparr>wn_rows := (wn_rows v)(i \<mapsto> (t, None)), wn_lock := []\<rparr>"

lemma try_transition_in_flight:
  "ch_Status cs \<in> in_flight \<Longrightarrow> t \<in> {StatusFailed, StatusRolledBack} \<Longrightarrow>
     try_transition t now cs = cs\<lparr>ch_Status := t, ch_UpdatedAt := now\<rparr>"
  by (auto simp: try_transition_def Transition_def CanTransition_def in_flight_def)

lemma finishFailedApply_view:
  assumes "store_up E" "rowv (cd_st c) (ch_ID cs) \<noteq> None" "ch_Status cs \<in> in_flight"
  shows "view (snd (finishFailedApply E author cs l cause c)) = end_view (ch_ID cs) StatusFailed (view c)"
proof -
  let ?cs = "cs\<lparr>ch_ApplyLog := jc_marshalLog (ce_codec E) l, ch_Status := StatusFailed, ch_UpdatedAt := ce_now E, ch_ConfirmDeadline := None\<rparr>"
  have v: "view (disarmAutoRollback (ch_ID cs) c) = view c" by simp
  have r: "rowv (cd_st (disarmAutoRollback (ch_ID cs) c)) = rowv (cd_st c)" by (simp add: disarmAutoRollback_def)
  obtain c' where "persist_cs E ?cs (disarmAutoRollback (ch_ID cs) c) = (None, c')"
    "view c' = (view c)\<lparr>wn_rows := (rowv (cd_st c))(ch_ID cs \<mapsto> (StatusFailed, None))\<rparr>"
    using persist_view [of E "disarmAutoRollback (ch_ID cs) c" ?cs] assms by (auto simp: store_up_def r)
  then show ?thesis
    using assms(3) by (simp add: finishFailedApply_def Let_def try_transition_in_flight end_view_def)
qed

lemma revertGatewayFor_view [simp]: "view (snd (revertGatewayFor E i c)) = view c"
  by (auto simp: revertGatewayFor_def split: option.splits sum.splits)

lemma rollback_gateway_view [simp]: "view (snd (rollback_gateway E gw plan i c)) = view c"
  by (auto simp: rollback_gateway_def split: option.splits)

lemma restore_everything_view [simp]: "view (snd (restore_everything E gw plan pre c)) = view c"
  by (simp add: restore_everything_def split: prod.splits)

lemma view_rows_eq: "view c' = view c \<Longrightarrow> rowv (cd_st c') = rowv (cd_st c)"
  by (metis view_sel(1))

lemma finish_rollback_view:
  assumes "store_up E" "rowv (cd_st c) (ch_ID cs) \<noteq> None" "ch_Status cs \<in> in_flight"
    "finish_rollback E actor out cs c = ((err, cs'), c')"
  shows "view c' = end_view (ch_ID cs) (rollback_target (ro_failed out)) (view c) \<and>
    ch_Status cs' = rollback_target (ro_failed out) \<and> ch_ID cs' = ch_ID cs"
proof -
  let ?base = "cs\<lparr>ch_ApplyLog := jc_marshalLog (ce_codec E) (rollback_log actor out (decodeApplyLog (ce_codec E) (ch_ApplyLog cs))), ch_ConfirmDeadline := None\<rparr>"
  let ?t = "rollback_target (ro_failed out)"
  let ?cs = "?base\<lparr>ch_Status := ?t, ch_UpdatedAt := ce_now E\<rparr>"
  have t: "try_transition ?t (ce_now E) ?base = ?cs"
    using assms(3) by (intro try_transition_in_flight) (auto simp: rollback_target_def)
  obtain c1 where "persist_cs E ?cs c = (None, c1)"
    "view c1 = (view c)\<lparr>wn_rows := (rowv (cd_st c))(ch_ID cs \<mapsto> (?t, None))\<rparr>"
    using persist_view [of E c ?cs] assms(1,2) by (auto simp: store_up_def)
  with assms(4) t show ?thesis
    by (auto simp: finish_rollback_def Let_def end_view_def)
qed

lemma unrestorable_view:
  assumes "store_up E" "rowv (cd_st c) (ch_ID cs) \<noteq> None" "ch_Status cs \<in> in_flight"
    "unrestorable E actor cs c = (cs', c')"
  shows "view c' = end_view (ch_ID cs) StatusFailed (view c) \<and> ch_Status cs' = StatusFailed \<and> ch_ID cs' = ch_ID cs"
proof -
  let ?cs = "cs\<lparr>ch_Status := StatusFailed, ch_UpdatedAt := ce_now E, ch_ConfirmDeadline := None\<rparr>"
  obtain c1 where "persist_cs E ?cs c = (None, c1)"
    "view c1 = (view c)\<lparr>wn_rows := (rowv (cd_st c))(ch_ID cs \<mapsto> (StatusFailed, None))\<rparr>"
    using persist_view [of E c ?cs] assms(1,2) by (auto simp: store_up_def)
  with assms(3,4) show ?thesis
    by (auto simp: unrestorable_def Let_def end_view_def try_transition_in_flight)
qed

lemma doRollback_view:
  assumes "store_up E" "rowv (cd_st c) (ch_ID cs) \<noteq> None" "ch_Status cs \<in> in_flight"
    "doRollbackScopedLocked E actor gw restrict cs c = ((err, cs'), c')"
  shows "ch_Status cs' \<in> {StatusRolledBack, StatusFailed} \<and> ch_ID cs' = ch_ID cs \<and>
    view c' = end_view (ch_ID cs) (ch_Status cs') (view c)"
proof -
  let ?plan = "rollback_plan E restrict cs" and ?start = "disarmAutoRollback (ch_ID cs) c"
  obtain g c1 where g: "rollback_gateway E gw ?plan (ch_ID cs) ?start = (g, c1)" by fastforce
  then have v1: "view c1 = view c" using rollback_gateway_view [of E gw ?plan "ch_ID cs" ?start] by simp
  show ?thesis
  proof (cases "loadPreSnapshot E (ch_ID cs) c1")
    case (Inl e)
    obtain cs1 c2 where u: "unrestorable E actor cs c1 = (cs1, c2)" by fastforce
    with assms(4) g Inl have "cs' = cs1" "c' = c2" by (simp_all add: doRollbackScopedLocked_def Let_def)
    with unrestorable_view [OF assms(1) _ assms(3) u] assms(2) v1 view_rows_eq [OF v1] show ?thesis by simp
  next
    case (Inr pre)
    obtain out c2 where r: "restore_everything E g ?plan pre c1 = (out, c2)" by fastforce
    then have v2: "view c2 = view c" using restore_everything_view [of E g ?plan pre c1] v1 by simp
    have f: "finish_rollback E actor out cs c2 = ((err, cs'), c')"
      using assms(4) g Inr r by (simp add: doRollbackScopedLocked_def Let_def)
    from finish_rollback_view [OF assms(1) _ assms(3) f] assms(2) v2 view_rows_eq [OF v2] show ?thesis
      by (auto simp: rollback_target_def)
  qed
qed

text \<open>A changeset enters the window.\<close>

lemma finishAwaitingConfirm_view:
  assumes "store_up E" "rowv (cd_st c) (ch_ID cs) \<noteq> None" "ch_Status cs = StatusApplying"
  shows "view (snd (finishAwaitingConfirm E author cs plan l deadline c)) =
    (view c)\<lparr>wn_rows := (rowv (cd_st c))(ch_ID cs \<mapsto> (StatusAwaitingConfirm, Some deadline)), wn_timers := (cd_timers c)(ch_ID cs \<mapsto> deadline)\<rparr>"
proof -
  let ?cs = "cs\<lparr>ch_ApplyLog := jc_marshalLog (ce_codec E) (log_armed E (affectedNodes plan) deadline l),
    ch_Status := StatusAwaitingConfirm, ch_UpdatedAt := ce_now E, ch_ConfirmDeadline := Some deadline\<rparr>"
  obtain c1 where p: "persist_cs E ?cs c = (None, c1)"
    "view c1 = (view c)\<lparr>wn_rows := (rowv (cd_st c))(ch_ID cs \<mapsto> (StatusAwaitingConfirm, Some deadline))\<rparr>"
    using persist_view [of E c ?cs] assms(1,2) by (auto simp: store_up_def)
  with assms(3) view_proj(3) [OF p(2)] show ?thesis
    by (simp add: finishAwaitingConfirm_def Let_def Transition_def CanTransition_def)
qed

lemma apply_execute_view: "view (snd (apply_execute E author opt cs plan strategy deadline c)) = view c"
proof -
  have a: "view (armAutoRollback E author opt cs c) = view c"
    by (simp add: armAutoRollback_def Let_def split: prod.splits)
  have t: "view (snd (take_snapshot E i plan c)) = view c" for i c
    by (auto simp: take_snapshot_def view_def split: prod.splits sum.splits)
  have k: "view (snd (sealRevertTicket E i plan deadline c)) = view c" for i c
    by (auto simp: sealRevertTicket_def SealRevertTicket_def view_def rowv_def keys_ok_def fun_eq_iff
        split: option.splits sum.splits if_splits)
  obtain x c1 where x: "take_snapshot E (ch_ID cs) plan (armAutoRollback E author opt cs c) = (x, c1)" by fastforce
  then have v1: "view c1 = view c" using t [of "ch_ID cs" "armAutoRollback E author opt cs c"] a by simp
  obtain u c2 where u: "sealRevertTicket E (ch_ID cs) plan deadline c1 = (u, c2)" by fastforce
  then have "view c2 = view c" using k [of "ch_ID cs" c1] v1 by simp
  then show ?thesis
    using v1 x u by (auto simp: apply_execute_def Let_def split: sum.splits prod.splits option.splits)
qed

text \<open>The pause after the canary stage: recorded with its bound, or the stage is rolled back.\<close>

lemma holdAfterCanary_view:
  assumes "store_up E" "rowv (cd_st c) (ch_ID cs) \<noteq> None" "ch_Status cs = StatusApplying"
    "holdAfterCanary E author cs l deadline strategy applied pending c = (res, c')"
  shows "(\<exists>sg. sg_State sg = StageCanaryHold \<and> sg_ConfirmDeadline sg = deadline \<and> sg_HoldDeadline sg \<le> deadline \<and>
      view c' = (view c)\<lparr>wn_rows := (rowv (cd_st c))(ch_ID cs \<mapsto> (StatusApplying, Some deadline)),
        wn_holds := (cd_holds c)(ch_ID cs \<mapsto> sg_HoldDeadline sg), wn_stages := (cd_stages c)(ch_ID cs \<mapsto> sg)\<rparr>)
    \<or> (\<exists>t \<in> {StatusRolledBack, StatusFailed}. \<exists>stg. view c' = (end_view (ch_ID cs) t (view c))\<lparr>wn_stages := stg\<rparr> \<and>
         (\<forall>k. k \<noteq> ch_ID cs \<longrightarrow> stg k = cd_stages c k))"
proof -
  let ?cs = "cs\<lparr>ch_ApplyLog := jc_marshalLog (ce_codec E) (log_hold E applied deadline l),
    ch_ConfirmDeadline := Some deadline, ch_UpdatedAt := ce_now E\<rparr>"
  let ?h = "clampHold (ce_now E) (holdFor strategy) deadline"
  let ?sg = "\<lparr> sg_State = StageCanaryHold, sg_Author = author, sg_Strategy = strategy, sg_AppliedNodes = applied,
     sg_PendingNodes = pending, sg_HoldStartedAt = ce_now E, sg_HoldDeadline = ?h, sg_ConfirmDeadline = deadline \<rparr>"
  obtain c1 where p: "persist_cs E ?cs c = (None, c1)"
    and v1: "view c1 = (view c)\<lparr>wn_rows := (rowv (cd_st c))(ch_ID cs \<mapsto> (StatusApplying, Some deadline))\<rparr>"
    using persist_view [of E c ?cs] assms(1-3) by (auto simp: store_up_def)
  note f = view_proj [OF v1, simplified]
  show ?thesis
  proof (cases "ce_stages E = Some True")
    case True
    then have "c' = audit E author ''changeset.apply'' ''canary_hold'' (ch_ID cs) (broadcast E ?cs
        (armHoldTimerLocked (ch_ID cs) ?h (c1\<lparr>cd_stages := (cd_stages c1)(ch_ID cs \<mapsto> ?sg)\<rparr>)))"
      using assms(4) p by (auto simp: holdAfterCanary_def Let_def stages_Upsert_def)
    then have "view c' = (view c)\<lparr>wn_rows := (rowv (cd_st c))(ch_ID cs \<mapsto> (StatusApplying, Some deadline)),
        wn_holds := (cd_holds c)(ch_ID cs \<mapsto> ?h), wn_stages := (cd_stages c)(ch_ID cs \<mapsto> ?sg)\<rparr>"
      using v1 f by (simp add: armHoldTimerLocked_def)
    moreover have "?h \<le> deadline" by (simp add: clampHold_def)
    ultimately show ?thesis by (intro disjI1 exI [of _ ?sg]) simp
  next
    case False
    obtain rbErr cs1 c2 where d: "doRollbackScopedLocked E systemRollbackActor None (Some applied) ?cs c1 = ((rbErr, cs1), c2)"
      by (metis prod.collapse)
    have c': "c' = audit E author ''changeset.abort'' (abortResult (ch_Status cs1)) (ch_ID cs1) (clearStage E (ch_ID cs1) c2)"
      using assms(4) p d False by (auto simp: holdAfterCanary_def Let_def stages_Upsert_def)
    from doRollback_view [OF assms(1) _ _ d] assms(3) f(1)
    have "ch_Status cs1 \<in> {StatusRolledBack, StatusFailed}" "view c2 = end_view (ch_ID cs) (ch_Status cs1) (view c1)"
      by (simp_all add: in_flight_def)
    then show ?thesis
      using False v1 f(5) view_proj(5) [OF \<open>view c2 = _\<close>]
      by (intro disjI2 bexI [of _ "ch_Status cs1"] exI [of _ "cd_stages c"]) (simp_all add: c' view_clearStage end_view_def)
  qed
qed


section \<open>The invariant\<close>

text \<open>
  What bounds a changeset in flight: in the window the armed timer, with the deadline that is stored;
  in a pause the hold timer, with the hold's deadline that is stored, which is not after the window's.
\<close>

definition bounded :: "win \<Rightarrow> string \<Rightarrow> Status \<Rightarrow> int option \<Rightarrow> bool" where
  "bounded v i s d \<longleftrightarrow> (\<exists>t. d = Some t \<and>
     (if s = StatusAwaitingConfirm then wn_timers v i = Some t
      else \<exists>sg. wn_stages v i = Some sg \<and> sg_State sg = StageCanaryHold \<and> sg_ConfirmDeadline sg = t \<and>
             sg_HoldDeadline sg \<le> t \<and> wn_holds v i = Some (sg_HoldDeadline sg)))"

definition unstarted :: "Status set" where
  "unstarted = {StatusDraft, StatusValidated, StatusRequested, StatusDiscarded}"

text \<open>
  \<open>running\<close> is the changeset whose steps a call is executing. Any other changeset in flight is
  bounded; a changeset in flight holds the lock, and the lock is held by one; a pause belongs to a
  changeset that was started.
\<close>

definition guarded_win :: "string option \<Rightarrow> win \<Rightarrow> bool" where
  "guarded_win running v \<longleftrightarrow>
     wn_keys v \<and> wn_rows v [] = None \<and>
     (\<forall>i s d. wn_rows v i = Some (s, d) \<longrightarrow> s \<in> in_flight \<longrightarrow>
        wn_lock v = i \<and> (bounded v i s d \<or> s = StatusApplying \<and> running = Some i)) \<and>
     (wn_lock v \<noteq> [] \<longrightarrow> (\<exists>s d. wn_rows v (wn_lock v) = Some (s, d) \<and> s \<in> in_flight)) \<and>
     (\<forall>i sg. wn_stages v i = Some sg \<longrightarrow> (\<exists>s d. wn_rows v i = Some (s, d) \<and> s \<notin> unstarted)) \<and>
     (\<forall>i. running = Some i \<longrightarrow> wn_lock v = i \<and> wn_stages v i = None \<and> (\<exists>d. wn_rows v i = Some (StatusApplying, d)))"

text \<open>A section that leaves what is in flight alone.\<close>

definition quiet :: "win \<Rightarrow> win \<Rightarrow> bool" where
  "quiet v v' \<longleftrightarrow> (wn_keys v \<longrightarrow> wn_keys v') \<and> wn_lock v' = wn_lock v \<and> wn_stages v' = wn_stages v \<and>
     (wn_rows v [] = None \<longrightarrow> wn_rows v' [] = None) \<and>
     (\<forall>k. wn_rows v' k = wn_rows v k \<or>
        (wn_rows v k = None \<or> (\<exists>s d. wn_rows v k = Some (s, d) \<and> s \<in> unstarted)) \<and>
        (\<exists>s d. wn_rows v' k = Some (s, d) \<and> s \<in> unstarted)) \<and>
     (\<forall>k d. wn_rows v k = Some (StatusAwaitingConfirm, d) \<longrightarrow> wn_timers v' k = wn_timers v k) \<and>
     (\<forall>k d sg. wn_rows v k = Some (StatusApplying, d) \<longrightarrow> wn_stages v k = Some sg \<longrightarrow> sg_State sg = StageCanaryHold \<longrightarrow>
        wn_holds v' k = wn_holds v k)"

text \<open>
  A section that resolves a changeset in flight: it ends, or it is in the window with its timer, and
  the end of a pause keeps the window's deadline.
\<close>

definition settles :: "string \<Rightarrow> win \<Rightarrow> win \<Rightarrow> bool" where
  "settles i v v' \<longleftrightarrow> wn_keys v' = wn_keys v \<and> (\<forall>k. k \<noteq> i \<longrightarrow> wn_stages v' k = wn_stages v k) \<and>
     (\<exists>s d. wn_rows v i = Some (s, d) \<and> s \<in> in_flight) \<and>
     ((\<exists>t. t \<in> {StatusCommitted, StatusRolledBack, StatusFailed} \<and> (t = StatusCommitted \<longrightarrow> (\<exists>d. wn_rows v i = Some (StatusAwaitingConfirm, d))) \<and>
         wn_rows v' = (wn_rows v)(i \<mapsto> (t, None)) \<and> wn_lock v' = []) \<or>
      (\<exists>d. wn_rows v' = (wn_rows v)(i \<mapsto> (StatusAwaitingConfirm, Some d)) \<and> wn_lock v' = wn_lock v \<and> wn_timers v' i = Some d \<and>
         (\<forall>sg. wn_stages v i = Some sg \<longrightarrow> d = sg_ConfirmDeadline sg)))"

text \<open>What a call may do to a changeset that is in its window or in a pause.\<close>

definition waiting :: "string \<Rightarrow> win \<Rightarrow> bool" where
  "waiting i v \<longleftrightarrow> (\<exists>d. wn_rows v i = Some (StatusAwaitingConfirm, d)) \<or>
     (\<exists>d sg. wn_rows v i = Some (StatusApplying, d) \<and> wn_stages v i = Some sg)"

definition resolves :: "string \<Rightarrow> win \<Rightarrow> win \<Rightarrow> bool" where
  "resolves i v v' \<longleftrightarrow> quiet v v' \<or> waiting i v \<and> settles i v v'"

lemma quiet_refl [simp]: "quiet v v"
  by (simp add: quiet_def)

lemma unstarted_not_in_flight: "s \<in> unstarted \<Longrightarrow> s \<notin> in_flight"
  by (auto simp: unstarted_def in_flight_def)

lemma quiet_row:
  assumes "quiet v v'" "wn_rows v' i = Some (s, d)" "s \<in> in_flight"
  shows "wn_rows v i = Some (s, d)"
  using assms unstarted_not_in_flight unfolding quiet_def by (metis option.inject prod.inject)

lemma quiet_row':
  assumes "quiet v v'" "wn_rows v i = Some (s, d)" "s \<notin> unstarted"
  shows "wn_rows v' i = Some (s, d)"
  using assms unfolding quiet_def by (metis option.distinct(1) option.inject prod.inject)

lemma guarded_quiet:
  assumes "guarded_win running v" "quiet v v'"
  shows "guarded_win running v'"
proof -
  have q: "wn_lock v' = wn_lock v" "wn_stages v' = wn_stages v" "wn_keys v \<Longrightarrow> wn_keys v'"
    "\<And>k d. wn_rows v k = Some (StatusAwaitingConfirm, d) \<Longrightarrow> wn_timers v' k = wn_timers v k"
    "\<And>k d sg. wn_rows v k = Some (StatusApplying, d) \<Longrightarrow> wn_stages v k = Some sg \<Longrightarrow> sg_State sg = StageCanaryHold \<Longrightarrow> wn_holds v' k = wn_holds v k"
    "wn_rows v [] = None \<Longrightarrow> wn_rows v' [] = None"
    using assms(2) by (auto simp: quiet_def)
  have b: "bounded v' i s d" if "bounded v i s d" "wn_rows v i = Some (s, d)" "s \<in> in_flight" for i s d
    using that q(2) q(4) [of i] q(5) [of i] by (auto simp: bounded_def in_flight_def split: if_splits)
  have f: "s \<in> in_flight \<Longrightarrow> s \<notin> unstarted" for s using unstarted_not_in_flight by blast
  show ?thesis
    unfolding guarded_win_def
  proof (intro conjI allI impI)
    fix i s d
    assume "wn_rows v' i = Some (s, d)" "s \<in> in_flight"
    with quiet_row [OF assms(2)] have r: "wn_rows v i = Some (s, d)" by blast
    with assms(1) \<open>s \<in> in_flight\<close> q(1) show "wn_lock v' = i" by (simp add: guarded_win_def)
    from r assms(1) \<open>s \<in> in_flight\<close> b [OF _ r] show "bounded v' i s d \<or> s = StatusApplying \<and> running = Some i"
      unfolding guarded_win_def by blast
  next
    assume "wn_lock v' \<noteq> []"
    then obtain s d where "wn_rows v (wn_lock v) = Some (s, d)" "s \<in> in_flight"
      using assms(1) q(1) by (auto simp: guarded_win_def)
    with quiet_row' [OF assms(2)] f q(1) show "\<exists>s d. wn_rows v' (wn_lock v') = Some (s, d) \<and> s \<in> in_flight" by metis
  next
    fix i sg
    assume "wn_stages v' i = Some sg"
    then obtain s d where "wn_rows v i = Some (s, d)" "s \<notin> unstarted"
      using assms(1) q(2) unfolding guarded_win_def by metis
    with quiet_row' [OF assms(2)] show "\<exists>s d. wn_rows v' i = Some (s, d) \<and> s \<notin> unstarted" by blast
  next
    fix i
    assume "running = Some i"
    then obtain d where r: "wn_rows v i = Some (StatusApplying, d)" and l: "wn_lock v = i" "wn_stages v i = None"
      using assms(1) by (auto simp: guarded_win_def)
    from l q show "wn_lock v' = i" "wn_stages v' i = None" by simp_all
    from quiet_row' [OF assms(2) r] show "\<exists>d. wn_rows v' i = Some (StatusApplying, d)" by (simp add: unstarted_def)
  qed (use assms(1) q in \<open>auto simp: guarded_win_def\<close>)
qed

lemma guarded_only:
  assumes "guarded_win running v" "wn_rows v i = Some (s, d)" "s \<in> in_flight" "wn_rows v k = Some (s', d')" "s' \<in> in_flight"
  shows "k = i"
  using assms unfolding guarded_win_def by metis

lemma guarded_settles:
  assumes g: "guarded_win running v" and st: "settles i v v'"
  shows "guarded_win None v'"
proof -
  obtain s d where r: "wn_rows v i = Some (s, d)" "s \<in> in_flight" using st by (auto simp: settles_def)
  have l: "wn_lock v = i" using g r unfolding guarded_win_def by blast
  have "wn_rows v [] = None" using g unfolding guarded_win_def by blast
  with r have ne: "i \<noteq> []" by auto
  have only: "wn_rows v k = Some (s', d') \<Longrightarrow> s' \<in> in_flight \<Longrightarrow> k = i" for k s' d'
    using guarded_only [OF g r] .
  have k: "wn_keys v'" using g st unfolding guarded_win_def settles_def by blast
  have sg: "\<exists>s d. wn_rows v k = Some (s, d) \<and> s \<notin> unstarted" if "wn_stages v' k = Some x" "k \<noteq> i" for k x
    using that g st unfolding guarded_win_def settles_def by metis
  from st consider
      (ended) t where "t \<in> {StatusCommitted, StatusRolledBack, StatusFailed}" "wn_rows v' = (wn_rows v)(i \<mapsto> (t, None))" "wn_lock v' = []"
    | (opened) d where "wn_rows v' = (wn_rows v)(i \<mapsto> (StatusAwaitingConfirm, Some d))" "wn_lock v' = wn_lock v" "wn_timers v' i = Some d"
    unfolding settles_def by blast
  then show ?thesis
  proof cases
    case ended
    have t: "t \<notin> in_flight" "t \<notin> unstarted" using ended(1) by (auto simp: in_flight_def unstarted_def)
    have "wn_rows v' j = Some (s', d') \<Longrightarrow> s' \<notin> in_flight" for j s' d'
      using only [of j s' d'] ended(2) t by (auto split: if_splits)
    moreover have "\<exists>s d. wn_rows v' j = Some (s, d) \<and> s \<notin> unstarted" if "wn_stages v' j = Some x" for j x
      using sg [OF that] ended(2) t by (cases "j = i") auto
    ultimately show ?thesis
      using k ne \<open>wn_rows v [] = None\<close> ended(2,3) unfolding guarded_win_def by (simp add: fun_upd_def)
  next
    case opened
    have t: "StatusAwaitingConfirm \<in> in_flight" "StatusAwaitingConfirm \<notin> unstarted" by (simp_all add: in_flight_def unstarted_def)
    have o: "j = i \<and> s' = StatusAwaitingConfirm \<and> d' = Some d" if "wn_rows v' j = Some (s', d')" "s' \<in> in_flight" for j s' d'
      using only [of j s' d'] that opened(1) by (cases "j = i") auto
    have "bounded v' i StatusAwaitingConfirm (Some d)" using opened(3) by (simp add: bounded_def)
    moreover have "\<exists>s d. wn_rows v' j = Some (s, d) \<and> s \<notin> unstarted" if "wn_stages v' j = Some x" for j x
      using sg [OF that] opened(1) t by (cases "j = i") auto
    ultimately show ?thesis
      unfolding guarded_win_def
    proof (intro conjI allI impI)
      show "wn_rows v' [] = None" using ne \<open>wn_rows v [] = None\<close> opened(1) by simp
      show "wn_lock v' = j" if "wn_rows v' j = Some (s', d')" "s' \<in> in_flight" for j s' d' using o [OF that] l opened(2) by simp
      show "\<exists>s d. wn_rows v' (wn_lock v') = Some (s, d) \<and> s \<in> in_flight" using l opened(1,2) t by simp
    qed (use k o in blast)+
  qed
qed

lemma guarded_hold_opened:
  assumes g: "guarded_win (Some i) v" and sg: "sg_State sg = StageCanaryHold" "sg_ConfirmDeadline sg = d" "sg_HoldDeadline sg \<le> d"
  shows "guarded_win None (v\<lparr>wn_rows := (wn_rows v)(i \<mapsto> (StatusApplying, Some d)), wn_holds := (wn_holds v)(i \<mapsto> sg_HoldDeadline sg),
    wn_stages := (wn_stages v)(i \<mapsto> sg)\<rparr>)" (is "guarded_win None ?v")
proof -
  obtain d0 where r: "wn_rows v i = Some (StatusApplying, d0)" and l: "wn_lock v = i" using g unfolding guarded_win_def by blast
  have f: "StatusApplying \<in> in_flight" "StatusApplying \<notin> unstarted" by (simp_all add: in_flight_def unstarted_def)
  have k: "wn_keys v" "wn_rows v [] = None" using g unfolding guarded_win_def by blast+
  with r have ne: "i \<noteq> []" by auto
  have b: "bounded ?v i StatusApplying (Some d)" using sg by (simp add: bounded_def)
  show ?thesis
    unfolding guarded_win_def
  proof (intro conjI allI impI)
    fix j s' d' assume "wn_rows ?v j = Some (s', d')" "s' \<in> in_flight"
    with guarded_only [OF g r f(1)] have "j = i \<and> s' = StatusApplying \<and> d' = Some d" by (cases "j = i") auto
    with b l show "wn_lock ?v = j" "bounded ?v j s' d' \<or> s' = StatusApplying \<and> None = Some j" by simp_all
  next
    fix j x assume "wn_stages ?v j = Some x"
    with g f(2) show "\<exists>s d. wn_rows ?v j = Some (s, d) \<and> s \<notin> unstarted" unfolding guarded_win_def by (cases "j = i") auto
  qed (use k ne l f in auto)
qed


section \<open>The effect of each section\<close>

lemma get_csD:
  assumes "get_cs E i c = Inr cs" "keys_ok (cd_st c)"
  shows "ch_ID cs = i" "rowv (cd_st c) i = Some (ch_Status cs, ch_ConfirmDeadline cs)"
  using assms by (auto simp: get_cs_def svc_Get_Inr rowv_def keys_ok_def fromStoreRow_def)

lemma get_cs_up: "store_up E \<Longrightarrow> rowv (cd_st c) i \<noteq> None \<Longrightarrow> \<exists>cs. get_cs E i c = Inr cs"
  by (auto simp: get_cs_def svc_Get_def repo_Get_def store_up_def rowv_def)

lemma get_cs_cong: "cd_st c' = cd_st c \<Longrightarrow> get_cs E i c' = get_cs E i c"
  by (simp add: get_cs_def)

text \<open>Rewriting the log of a row keeps its status and deadline.\<close>

lemma updateApplyLog_view:
  assumes "keys_ok (cd_st c)"
  shows "view (snd (updateApplyLog E i l c)) = view c"
proof (cases "get_cs E i c")
  case (Inr cs)
  note g = get_csD [OF Inr assms]
  let ?cs = "cs\<lparr>ch_ApplyLog := jc_marshalLog (ce_codec E) l\<rparr>"
  show ?thesis
  proof (cases "sv_write_ok (ce_svc E)")
    case True
    obtain c' where "persist_cs E ?cs c = (None, c')"
      "view c' = (view c)\<lparr>wn_rows := (rowv (cd_st c))(i \<mapsto> (ch_Status cs, ch_ConfirmDeadline cs))\<rparr>"
      using persist_view [OF True, of c ?cs] g by auto
    moreover have "(rowv (cd_st c))(i \<mapsto> (ch_Status cs, ch_ConfirmDeadline cs)) = rowv (cd_st c)" using g(2) by (simp add: fun_upd_idem)
    ultimately show ?thesis using Inr by (simp add: updateApplyLog_def view_def)
  qed (simp add: updateApplyLog_def Inr persist_cs_def persist_changeset_def repo_Update_def)
qed (simp add: updateApplyLog_def)

lemma settles_end:
  assumes "wn_rows v i = Some (s, d)" "s \<in> in_flight" "t \<in> {StatusCommitted, StatusRolledBack, StatusFailed}"
    "wn_rows v' = (wn_rows v)(i \<mapsto> (t, None))" "wn_lock v' = []" "wn_keys v' = wn_keys v" "\<forall>k. k \<noteq> i \<longrightarrow> wn_stages v' k = wn_stages v k"
    "t = StatusCommitted \<Longrightarrow> s = StatusAwaitingConfirm"
  shows "settles i v v'"
  using assms unfolding settles_def by blast

lemma settles_open:
  assumes "wn_rows v i = Some (s, d)" "s \<in> in_flight" "wn_rows v' = (wn_rows v)(i \<mapsto> (StatusAwaitingConfirm, Some t))"
    "wn_lock v' = wn_lock v" "wn_timers v' i = Some t" "wn_keys v' = wn_keys v" "\<forall>k. k \<noteq> i \<longrightarrow> wn_stages v' k = wn_stages v k"
    "\<forall>sg. wn_stages v i = Some sg \<longrightarrow> t = sg_ConfirmDeadline sg"
  shows "settles i v v'"
  using assms unfolding settles_def by simp

lemma StagedApplyState_up: "store_up E \<Longrightarrow> StagedApplyState E i c = Inr (cd_stages c i)"
  by (auto simp: StagedApplyState_def store_up_def)

lemma abort_ends:
  assumes "store_up E" "keys_ok (cd_st c)" "rowv (cd_st c) i = Some (StatusApplying, d)" "cd_stages c i = Some sg"
  shows "\<exists>t \<in> {StatusRolledBack, StatusFailed}. view (snd (abortStagedApply E i actor gw c)) =
    (end_view i t (view c))\<lparr>wn_timers := (cd_timers c)(i := None), wn_holds := (cd_holds c)(i := None),
      wn_stages := (if ce_stages E = Some True then (cd_stages c)(i := None) else cd_stages c)\<rparr>"
proof -
  obtain cs where g: "get_cs E i c = Inr cs" using get_cs_up [OF assms(1), of c i] assms(3) by auto
  note cs = get_csD [OF g assms(2)]
  let ?c = "cancelTimerLocked i (cancelHoldTimerLocked i c)"
  obtain e cs1 c1 where d: "doRollbackScopedLocked E actor gw (Some (sg_AppliedNodes sg)) cs ?c = ((e, cs1), c1)" by (metis prod.collapse)
  have s: "ch_Status cs = StatusApplying" using cs(2) assms(3) by simp
  have "rowv (cd_st ?c) = rowv (cd_st c)" by (simp add: cancelTimerLocked_def cancelHoldTimerLocked_def)
  with doRollback_view [OF assms(1) _ _ d] cs assms(3) s
  have r: "ch_Status cs1 \<in> {StatusRolledBack, StatusFailed}" "view c1 = end_view i (ch_Status cs1) (view ?c)" by (simp_all add: in_flight_def)
  have "snd (abortStagedApply E i actor gw c) =
      audit E actor ''changeset.abort'' (abortResult (ch_Status cs1)) i (clearStage E i c1)"
    using g d s assms(4) by (simp add: abortStagedApply_def StagedApplyState_up [OF assms(1)] Let_def)
  with r view_proj(5) [OF r(2)] show ?thesis
    by (intro bexI [of _ "ch_Status cs1"])
      (simp_all add: view_clearStage end_view_def cancelTimerLocked_def cancelHoldTimerLocked_def)
qed

lemma abort_settles:
  assumes "store_up E" "keys_ok (cd_st c)" "rowv (cd_st c) i = Some (StatusApplying, d)" "cd_stages c i = Some sg"
  shows "settles i (view c) (view (snd (abortStagedApply E i actor gw c)))"
proof -
  obtain t where "t \<in> {StatusRolledBack, StatusFailed}" "view (snd (abortStagedApply E i actor gw c)) =
    (end_view i t (view c))\<lparr>wn_timers := (cd_timers c)(i := None), wn_holds := (cd_holds c)(i := None),
      wn_stages := (if ce_stages E = Some True then (cd_stages c)(i := None) else cd_stages c)\<rparr>"
    using abort_ends [OF assms] by blast
  with assms(3) show ?thesis
    by (intro settles_end [where t = t and s = StatusApplying and d = d]) (auto simp: end_view_def in_flight_def)
qed

lemma abort_effect:
  assumes "store_up E" "keys_ok (cd_st c)"
  shows "resolves i (view c) (view (snd (abortStagedApply E i actor gw c)))"
proof (cases "\<exists>d sg. rowv (cd_st c) i = Some (StatusApplying, d) \<and> cd_stages c i = Some sg")
  case True
  with abort_settles [OF assms] show ?thesis by (auto simp: resolves_def waiting_def)
next
  case False
  then have "snd (abortStagedApply E i actor gw c) = c"
    using get_csD [OF _ assms(2), of E i] by (fastforce simp: abortStagedApply_def StagedApplyState_up [OF assms(1)] split: sum.splits option.splits)
  then show ?thesis by (simp add: resolves_def)
qed

text \<open>Running the remaining steps of a claimed pause settles the changeset.\<close>

lemma finishFailedStaged_settles:
  assumes "store_up E" "rowv (cd_st c) (ch_ID cs) = Some (StatusApplying, d)" "ch_Status cs = StatusApplying"
  shows "settles (ch_ID cs) (view c) (view (snd (finishFailedStaged E author cs l cause c)))"
proof -
  let ?c = "cancelTimerLocked (ch_ID cs) (cancelHoldTimerLocked (ch_ID cs) (clearStage E (ch_ID cs) c))"
  have "cd_st ?c = cd_st c" by (simp add: cancelTimerLocked_def cancelHoldTimerLocked_def clearStage_def)
  then have "view (snd (finishFailedStaged E author cs l cause c)) = end_view (ch_ID cs) StatusFailed (view ?c)"
    using finishFailedApply_view [OF assms(1), of ?c cs author l cause] assms(2,3) by (simp add: finishFailedStaged_def Let_def in_flight_def)
  then show ?thesis
    using assms(2) by (intro settles_end [where t = StatusFailed and s = StatusApplying and d = d])
      (auto simp: end_view_def in_flight_def view_clearStage)
qed

lemma settles_outside:
  assumes "settles i (view c) v" "view c' = view c"
  shows "settles i (view c') v"
  using assms by simp

lemma continue_run_settles:
  assumes "store_up E" "rowv (cd_st c) (ch_ID cs) = Some (StatusApplying, d)" "ch_Status cs = StatusApplying"
    "\<forall>sg. cd_stages c (ch_ID cs) = Some sg \<longrightarrow> sg_ConfirmDeadline state = sg_ConfirmDeadline sg"
  shows "settles (ch_ID cs) (view c) (view (snd (continue_run E author gw cs state c)))"
proof (cases "loadPreSnapshot E (ch_ID cs) c")
  case (Inl e)
  with finishFailedStaged_settles [OF assms(1-3)] show ?thesis by (simp add: continue_run_def)
next
  case (Inr pre)
  let ?plan = "decodePlan (ce_codec E) (ch_Plan cs)"
  let ?rest = "snd (canaryStageIndexes ?plan (as_CanaryNodes (sg_Strategy state)))"
  obtain err ex w r where run: "runSteps (exec_with E gw) ?rest (rest_executor E cs state ?plan pre, cd_w c, cd_r c) = (err, ex, w, r)"
    by (metis prod.collapse)
  let ?c = "c\<lparr>cd_w := w, cd_r := r\<rparr>"
  have v: "view ?c = view c" by simp
  show ?thesis
  proof (cases err)
    case (Some e)
    have "snd (continue_run E author gw cs state c) = snd (finishFailedStaged E author cs (ex_log ex) (EExec e) ?c)"
      using Inr run Some by (simp add: continue_run_def Let_def)
    with finishFailedStaged_settles [OF assms(1), of ?c cs d author "ex_log ex" "EExec e"] assms(2,3) v show ?thesis by simp
  next
    case None
    let ?c1 = "audit E author ''changeset.continue'' ''promoted'' (ch_ID cs) (clearStage E (ch_ID cs) ?c)"
    have v1: "view ?c1 = (view c)\<lparr>wn_stages := (if ce_stages E = Some True then (cd_stages c)(ch_ID cs := None) else cd_stages c)\<rparr>"
      by (simp add: view_clearStage)
    note p1 = view_proj [OF v1, simplified]
    have "view (snd (finishAwaitingConfirm E author cs ?plan (ex_log ex) (sg_ConfirmDeadline state) ?c1)) =
      (view ?c1)\<lparr>wn_rows := (rowv (cd_st c))(ch_ID cs \<mapsto> (StatusAwaitingConfirm, Some (sg_ConfirmDeadline state))),
        wn_timers := (cd_timers c)(ch_ID cs \<mapsto> sg_ConfirmDeadline state)\<rparr>"
      using finishAwaitingConfirm_view [OF assms(1), of ?c1 cs author ?plan "ex_log ex" "sg_ConfirmDeadline state"] assms(2,3) p1 by simp
    then show ?thesis
      using Inr run None assms(2,4) v1
      by (intro settles_open [where s = StatusApplying and d = d and t = "sg_ConfirmDeadline state"])
        (auto simp: continue_run_def Let_def in_flight_def)
  qed
qed

lemma settles_stages:
  assumes "settles i v1 v'" "wn_rows v1 = wn_rows v" "wn_lock v1 = wn_lock v" "wn_keys v1 = wn_keys v"
    "\<forall>k. map_option sg_ConfirmDeadline (wn_stages v1 k) = map_option sg_ConfirmDeadline (wn_stages v k)"
    "\<forall>k. k \<noteq> i \<longrightarrow> wn_stages v1 k = wn_stages v k"
  shows "settles i v v'"
proof -
  have "(\<forall>sg. wn_stages v1 i = Some sg \<longrightarrow> d = sg_ConfirmDeadline sg) \<longleftrightarrow> (\<forall>sg. wn_stages v i = Some sg \<longrightarrow> d = sg_ConfirmDeadline sg)" for d
    using spec [OF assms(5), of i] by (cases "wn_stages v1 i"; cases "wn_stages v i") simp_all
  with assms show ?thesis unfolding settles_def by simp
qed

lemma continue_settles:
  assumes "store_up E" "ce_stages E = Some True" "keys_ok (cd_st c)" "rowv (cd_st c) i = Some (StatusApplying, d)"
    "cd_stages c i = Some sg" "sg_State sg = StageCanaryHold"
  shows "settles i (view c) (view (snd (continueStaged E i author gw c)))"
proof -
  obtain cs where g: "get_cs E i c = Inr cs" using get_cs_up [OF assms(1), of c i] assms(4) by auto
  note cs = get_csD [OF g assms(3)]
  have s: "ch_Status cs = StatusApplying" using cs(2) assms(4) by simp
  let ?c = "cancelHoldTimerLocked i (c\<lparr>cd_stages := (cd_stages c)(i \<mapsto> sg\<lparr>sg_State := StagePromoting\<rparr>)\<rparr>)"
  have "snd (continueStaged E i author gw c) = snd (continue_run E author gw cs sg ?c)"
    using g s assms(2,5,6)
    by (simp add: continueStaged_def continue_claim_def claimPauseLocked_def StagedApplyState_up [OF assms(1)] stages_Upsert_def)
  moreover have "settles i (view ?c) (view (snd (continue_run E author gw cs sg ?c)))"
    using continue_run_settles [OF assms(1), of ?c cs d sg author gw] cs(1) s assms(4) by (simp add: cancelHoldTimerLocked_def)
  ultimately show ?thesis
    using settles_stages [of i "view ?c" _ "view c"] assms(5) by simp
qed

text \<open>When the claim is refused nothing changes.\<close>

lemma continue_effect:
  assumes "store_up E" "keys_ok (cd_st c)"
  shows "resolves i (view c) (view (snd (continueStaged E i author gw c)))"
proof (cases "ce_stages E = Some True \<and> (\<exists>d sg. rowv (cd_st c) i = Some (StatusApplying, d) \<and> cd_stages c i = Some sg \<and> sg_State sg = StageCanaryHold)")
  case True
  with continue_settles [OF assms(1) _ assms(2)] show ?thesis by (auto simp: resolves_def waiting_def)
next
  case False
  have "claimPauseLocked E i StagePromoting c = (Inl e, c) \<Longrightarrow> snd (continueStaged E i author gw c) = c" for e
    by (simp add: continueStaged_def continue_claim_def)
  moreover have "\<exists>e. claimPauseLocked E i StagePromoting c = (Inl e, c)"
  proof (cases "get_cs E i c")
    case (Inr cs)
    note g = get_csD [OF Inr assms(2)]
    show ?thesis
      using False g Inr by (cases "cd_stages c i") (auto simp: claimPauseLocked_def StagedApplyState_up [OF assms(1)] stages_Upsert_def)
  qed (simp add: claimPauseLocked_def)
  ultimately show ?thesis by (auto simp: resolves_def)
qed

lemma resolveHold_settles:
  assumes "store_up E" "ce_stages E = Some True" "keys_ok (cd_st c)" "rowv (cd_st c) i = Some (StatusApplying, d)"
    "cd_stages c i = Some sg" "sg_State sg = StageCanaryHold"
  shows "settles i (view c) (view (resolveHold E i sg c))"
proof -
  have a: "settles i (view c) (view (snd (abortStagedApply E i a gw (audit E u v w i c))))" for a gw u v w
    using abort_settles [OF assms(1), of "audit E u v w i c" i d sg a gw] assms(3-5) view_proj [OF view_audit [of E u v w i c]] by simp
  have b: "settles i (view c) (view (snd (continueStaged E i a gw (audit E u v w i c))))" for a gw u v w
    using continue_settles [OF assms(1,2), of "audit E u v w i c" i d sg a gw] assms(3-6) view_proj [OF view_audit [of E u v w i c]] by simp
  show ?thesis
    using a b abort_settles [OF assms(1,3,4,5)] by (simp add: resolveHold_def)
qed

lemma quiet_hold:
  assumes "\<nexists>d sg. wn_rows v i = Some (StatusApplying, d) \<and> wn_stages v i = Some sg \<and> sg_State sg = StageCanaryHold"
  shows "quiet v (v\<lparr>wn_holds := (wn_holds v)(i := x)\<rparr>)"
  using assms by (auto simp: quiet_def)

lemma quiet_timer:
  assumes "\<nexists>d. wn_rows v i = Some (StatusAwaitingConfirm, d)"
  shows "quiet v (v\<lparr>wn_timers := (wn_timers v)(i := x)\<rparr>)"
  using assms by (auto simp: quiet_def)

lemma settles_timers:
  assumes "settles i (v\<lparr>wn_holds := h\<rparr>) v'" shows "settles i v v'"
  using assms unfolding settles_def by simp

lemma onHoldExpired_settles:
  assumes "store_up E" "ce_stages E = Some True" "keys_ok (cd_st c)" "rowv (cd_st c) i = Some (StatusApplying, d)"
    "cd_stages c i = Some sg" "sg_State sg = StageCanaryHold"
  shows "settles i (view c) (view (onHoldExpired E i c))"
proof -
  let ?c = "cancelHoldTimerLocked i c"
  have e: "cd_st ?c = cd_st c" "cd_stages ?c = cd_stages c" by (simp_all add: cancelHoldTimerLocked_def)
  obtain cs where g: "get_cs E i c = Inr cs" using get_cs_up [OF assms(1), of c i] assms(4) by auto
  have "ch_Status cs = StatusApplying" using get_csD [OF g assms(3)] assms(4) by simp
  then have "onHoldExpired E i c = resolveHold E i sg ?c"
    using g assms get_cs_cong [OF e(1), of E i] by (simp add: onHoldExpired_def Let_def StagedApplyState_up [OF assms(1)] e store_up_def)
  with resolveHold_settles [OF assms(1,2), of ?c i d sg] assms(3-6) e show ?thesis
    using settles_timers [of i _ "view c"] by simp
qed

lemma onHoldExpired_effect:
  assumes "store_up E" "ce_stages E = Some True" "keys_ok (cd_st c)"
  shows "resolves i (view c) (view (onHoldExpired E i c))"
proof (cases "\<exists>d sg. rowv (cd_st c) i = Some (StatusApplying, d) \<and> cd_stages c i = Some sg \<and> sg_State sg = StageCanaryHold")
  case True
  with onHoldExpired_settles [OF assms] show ?thesis by (auto simp: resolves_def waiting_def)
next
  case False
  let ?c = "cancelHoldTimerLocked i c"
  have e: "cd_st ?c = cd_st c" "cd_stages ?c = cd_stages c" by (simp_all add: cancelHoldTimerLocked_def)
  have "onHoldExpired E i c = ?c"
    using False get_csD [OF _ assms(3), of E i] get_cs_cong [OF e(1), of E i]
    by (fastforce simp: onHoldExpired_def Let_def StagedApplyState_up [OF assms(1)] e split: sum.splits option.splits)
  with quiet_hold [of "view c" i None] False show ?thesis by (simp add: resolves_def)
qed

lemma doRollback_settles:
  assumes "store_up E" "rowv (cd_st c) (ch_ID cs) = Some (s, d)" "s \<in> in_flight" "ch_Status cs \<in> in_flight"
  shows "settles (ch_ID cs) (view c) (view (snd (doRollbackLocked E actor gw cs (cancelTimerLocked (ch_ID cs) c))))"
proof -
  let ?c = "cancelTimerLocked (ch_ID cs) c"
  obtain e cs1 c1 where r: "doRollbackScopedLocked E actor gw None cs ?c = ((e, cs1), c1)" by (metis prod.collapse)
  have "cd_st ?c = cd_st c" by (simp add: cancelTimerLocked_def)
  with doRollback_view [OF assms(1) _ assms(4) r] assms(2)
  have "ch_Status cs1 \<in> {StatusRolledBack, StatusFailed}" "view c1 = end_view (ch_ID cs) (ch_Status cs1) (view ?c)" by simp_all
  then show ?thesis
    using r assms(2,3) by (intro settles_end [where t = "ch_Status cs1" and s = s and d = d]) (auto simp: doRollbackLocked_def end_view_def)
qed

lemma autoRollback_effect:
  assumes "store_up E" "keys_ok (cd_st c)"
  shows "resolves i (view c) (view (autoRollback E i c))"
proof -
  let ?c = "cancelTimerLocked i c"
  have e: "cd_st ?c = cd_st c" "cd_stages ?c = cd_stages c" by (simp_all add: cancelTimerLocked_def)
  have m: "ce_mayLead E" using assms(1) by (simp add: store_up_def)
  show ?thesis
  proof (cases "get_cs E i c")
    case (Inl x)
    then have "rowv (cd_st c) i = None" using get_cs_up [OF assms(1), of c i] by (metis Inl_Inr_False)
    with Inl m get_cs_cong [OF e(1), of E i] quiet_timer [of "view c" i None] show ?thesis by (simp add: autoRollback_def Let_def resolves_def)
  next
    case (Inr cs)
    note g = get_csD [OF Inr assms(2)]
    note a = autoRollback_def Let_def m Inr get_cs_cong [OF e(1), of E i] StagedApplyState_up [OF assms(1)] e
    consider (paused) sg where "ch_Status cs = StatusApplying" "cd_stages c i = Some sg" | (window) "ch_Status cs = StatusAwaitingConfirm"
      | (other) "ch_Status cs \<noteq> StatusAwaitingConfirm" "ch_Status cs = StatusApplying \<Longrightarrow> cd_stages c i = None"
      by (cases "cd_stages c i") auto
    then show ?thesis
    proof cases
      case paused
      have "settles i (view ?c) (view (snd (abortStagedApply E i systemRollbackActor None ?c)))"
        using abort_settles [OF assms(1), of ?c i "ch_ConfirmDeadline cs" sg] assms(2) g paused e by simp
      moreover have "settles i (view ?c) v' \<Longrightarrow> settles i (view c) v'" for v' unfolding settles_def by simp
      ultimately show ?thesis using paused g by (simp add: a resolves_def waiting_def)
    next
      case window
      with doRollback_settles [OF assms(1), of c cs StatusAwaitingConfirm "ch_ConfirmDeadline cs" systemRollbackActor None] g show ?thesis
        by (simp add: a in_flight_def resolves_def waiting_def)
    next
      case other
      then have "autoRollback E i c = ?c" by (auto simp: a)
      with quiet_timer [of "view c" i None] other g show ?thesis by (simp add: resolves_def)
    qed
  qed
qed

lemma confirm_locked_effect:
  assumes "store_up E" "keys_ok (cd_st c)"
  shows "resolves i (view c) (view (snd (confirm_locked E i c)))"
proof (cases "get_cs E i c")
  case (Inr cs)
  note g = get_csD [OF Inr assms(2)]
  show ?thesis
  proof (cases "ch_Status cs = StatusAwaitingConfirm")
    case True
    let ?c = "cancelTimerLocked i (disarmAutoRollback i c)"
    let ?cs = "cs\<lparr>ch_Status := StatusCommitted, ch_UpdatedAt := ce_now E, ch_ConfirmDeadline := None\<rparr>"
    have e: "cd_st ?c = cd_st c" by (simp add: cancelTimerLocked_def disarmAutoRollback_def)
    obtain c1 where p: "persist_cs E ?cs ?c = (None, c1)" "view c1 = (view ?c)\<lparr>wn_rows := (rowv (cd_st c))(i \<mapsto> (StatusCommitted, None))\<rparr>"
      using persist_view [of E ?c ?cs] assms(1) g e by (auto simp: store_up_def)
    then have "view (snd (confirm_locked E i c)) = end_view i StatusCommitted (view ?c)"
      using True Inr g(1) by (simp add: confirm_locked_def Let_def Transition_def CanTransition_def end_view_def)
    then have "settles i (view c) (view (snd (confirm_locked E i c)))"
      using g True by (intro settles_end [where t = StatusCommitted and s = StatusAwaitingConfirm]) (auto simp: end_view_def in_flight_def)
    then show ?thesis using g True by (simp add: resolves_def waiting_def)
  qed (simp add: confirm_locked_def Inr resolves_def)
qed (simp add: confirm_locked_def resolves_def)

lemma confirm_rest_view:
  assumes "keys_ok (cd_st c)"
  shows "view (confirm_rest E i author cs c) = view c"
proof -
  let ?c = "audit E author ''changeset.confirm'' ''committed'' i (broadcast E cs c)"
  have "keys_ok (cd_st (?c\<lparr>cd_w := w\<rparr>))" for w using assms view_proj(6) [of ?c "view c"] by simp
  then have "view (snd (updateApplyLog E i l (?c\<lparr>cd_w := w\<rparr>))) = view c" for l w
    using updateApplyLog_view [of "?c\<lparr>cd_w := w\<rparr>" E i l] by simp
  then show ?thesis by (simp add: confirm_rest_def Let_def split: prod.splits sum.splits)
qed

lemma quiet_adds:
  assumes "adds st st'" "st_lockHeldBy st' = st_lockHeldBy st" "keys_ok (cd_st c)" "cd_st c = st" "rowv st' [] = None"
  shows "quiet (view c) (view (c\<lparr>cd_st := st'\<rparr>))"
proof -
  obtain r where r: "st_rows st (row_ID r) = None" "st_rows st' = (st_rows st)(row_ID r \<mapsto> r)" "row_Status r \<in> {StatusDraft, StatusRequested}"
    using assms(1) by (auto simp: adds_def)
  then show ?thesis using assms(2-5) by (auto simp: quiet_def rowv_def keys_ok_def unstarted_def)
qed

lemma Create_frame:
  assumes "svc_Create s author title ops st = (Inr d, st')"
  shows "adds st st'" "st_lockHeldBy st' = st_lockHeldBy st" "(\<forall>n. sv_newULID s n \<noteq> []) \<Longrightarrow> st_rows st [] = None \<Longrightarrow> st_rows st' [] = None"
proof -
  show "adds st st'" using assms create_adds(1) by (auto simp: svc_Create_def)
  show "st_lockHeldBy st' = st_lockHeldBy st"
    using assms by (auto simp: svc_Create_def svc_create_def repo_Insert_def Let_def split: prod.splits sum.splits if_splits)
  show "st_rows st' [] = None" if "\<forall>n. sv_newULID s n \<noteq> []" "st_rows st [] = None"
    using assms that that(1) [THEN spec, THEN not_sym] by (auto simp: svc_Create_def svc_create_def repo_Insert_def toStoreRow_def Let_def split: prod.splits sum.splits if_splits)
qed

lemma createRestoringDraft_quiet:
  assumes "store_up E" "keys_ok (cd_st c)" "st_rows (cd_st c) [] = None"
  shows "quiet (view c) (view (snd (createRestoringDraft E author cs c)))"
proof (cases "ce_restoringOps E (ch_ID cs)")
  case (Inr ops)
  obtain res st' where r: "svc_Create (ce_svc E) author (restoringTitle cs) ops (cd_st c) = (res, st')" by fastforce
  show ?thesis
  proof (cases res)
    case (Inl e)
    then have "st' = cd_st c" using r dstep_error [of "ce_svc E" "DCreate author (restoringTitle cs) ops _"] by (simp add: svc_Create_def)
    with r Inl Inr show ?thesis by (simp add: createRestoringDraft_def)
  next
    case (Inr d)
    note f = Create_frame [OF r [unfolded Inr]]
    have "quiet (view c) (view (c\<lparr>cd_st := st'\<rparr>))"
      using quiet_adds [OF f(1,2) assms(2) refl] f(3) assms(1,3) by (simp add: store_up_def rowv_def)
    with r Inr \<open>ce_restoringOps E (ch_ID cs) = Inr ops\<close> show ?thesis by (simp add: createRestoringDraft_def)
  qed
qed (simp add: createRestoringDraft_def)

lemma Rollback_effect:
  assumes "store_up E" "keys_ok (cd_st c)" "st_rows (cd_st c) [] = None"
  shows "resolves i (view c) (view (snd (Rollback E i author c)))"
proof (cases "get_cs E i c")
  case (Inr cs)
  note g = get_csD [OF Inr assms(2)]
  have ac: "ce_applyConfigured E" using assms(1) by (simp add: store_up_def)
  note d = Rollback_def ac Inr StagedApplyState_up [OF assms(1)]
  show ?thesis
  proof (cases "ch_Status cs")
    case StatusApplying
    then show ?thesis
      using abort_effect [OF assms(1,2), of i author "ce_pve E"] by (cases "cd_stages c i") (simp_all add: d resolves_def)
  next
    case StatusAwaitingConfirm
    with doRollback_settles [OF assms(1), of c cs StatusAwaitingConfirm "ch_ConfirmDeadline cs" author "ce_pve E"] g show ?thesis
      by (auto simp: d in_flight_def resolves_def waiting_def split: prod.splits)
  next
    case StatusCommitted
    then show ?thesis using createRestoringDraft_quiet [OF assms, of author cs] by (simp add: d resolves_def)
  qed (simp_all add: d resolves_def)
qed (use assms(1) in \<open>simp add: Rollback_def store_up_def resolves_def\<close>)

lemma fire_effect:
  assumes "store_up E" "keys_ok (cd_st c)"
  shows "resolves i (view c) (view (fireAutoRollback E i matched c))"
proof (cases "get_cs E i c")
  case (Inr cs)
  note g = get_csD [OF Inr assms(2)]
  let ?t = "newAutoRollbackTrigger matched (ce_now E)"
  let ?paused = "cd_stages c i \<noteq> None"
  obtain cs1 c1 where r: "recordAutoRollbackTrigger E ?t cs c = (cs1, c1)" by fastforce
  then have c1: "view c1 = view c" "ch_ID cs1 = i" "ch_Status cs1 = ch_Status cs"
    using updateApplyLog_view [OF assms(2)] g(1) by (auto simp: recordAutoRollbackTrigger_def Let_def)
  let ?c = "audit E systemRollbackActor ''changeset.auto_rollback'' ''finding_triggered'' i c1"
  have v: "view ?c = view c" using c1 by simp
  note p = view_proj [OF v, simplified]
  have up: "ce_mayLead E" "ce_applyConfigured E" using assms(1) by (simp_all add: store_up_def)
  note f = fireAutoRollback_def fire_decide_def fire_rollback_def Inr r up StagedApplyState_up [OF assms(1)]
  consider (out) "\<not> (ch_Status cs = StatusAwaitingConfirm \<or> ch_Status cs = StatusApplying \<and> ?paused)"
    | (paused) "ch_Status cs = StatusAwaitingConfirm \<or> ch_Status cs = StatusApplying" ?paused
    | (window) "ch_Status cs = StatusAwaitingConfirm" "\<not> ?paused" by blast
  then show ?thesis
  proof cases
    case out
    then show ?thesis by (cases "cd_stages c i") (auto simp: f Let_def resolves_def)
  next
    case paused
    then have "fireAutoRollback E i matched c = snd (AbortStagedApply E i systemRollbackActor None ?c)"
      by (cases "cd_stages c i") (auto simp: f Let_def)
    with abort_effect [OF assms(1), of ?c i systemRollbackActor None] p assms(2) v up show ?thesis by (simp add: AbortStagedApply_def)
  next
    case window
    then have "fireAutoRollback E i matched c = snd (doRollbackLocked E systemRollbackActor None cs1 (cancelTimerLocked i ?c))"
      by (auto simp: f Let_def)
    with doRollback_settles [OF assms(1), of ?c cs1 StatusAwaitingConfirm "ch_ConfirmDeadline cs" systemRollbackActor None] window c1 p g v
    show ?thesis by (auto simp: in_flight_def resolves_def waiting_def)
  qed
qed (simp add: fireAutoRollback_def fire_decide_def resolves_def)

text \<open>Entering: a refusal touches nothing in flight; an entry takes the free lock.\<close>

lemma begin_view:
  assumes "beginApply (ce_svc E) g i author (cd_st c) = (Inr (cs, plan), st)" "keys_ok (cd_st c)"
  shows "st_lockHeldBy (cd_st c) = []" "\<exists>s d. rowv (cd_st c) i = Some (s, d) \<and> s \<in> unstarted"
    "ch_ID cs = i" "ch_Status cs = StatusApplying" "ag_strategy_ok g plan"
    "\<exists>d. view (c\<lparr>cd_st := st\<rparr>) = (view c)\<lparr>wn_rows := (rowv (cd_st c))(i \<mapsto> (StatusApplying, d)), wn_lock := i\<rparr>"
proof -
  obtain r st1 st2 where r: "st_lockHeldBy (cd_st c) = []" "st_rows (cd_st c) i = Some r" "row_Status r \<in> {StatusDraft, StatusValidated}"
    and e: "enter_applying (ce_svc E) g i author ((fromStoreRow r)\<lparr>ch_Findings := revalidation (ce_svc E) (fromStoreRow r)\<rparr>) st2 = (Inr (cs, plan), st)"
    using beginApply_Inr [OF assms(1)] by metis
  note n = enter_applying_Inr [OF e]
  obtain r0 r' where b: "st_rows (cd_st c) i = Some r0" "st_rows st = (st_rows (cd_st c))(i \<mapsto> r')" "row_Status r' = StatusApplying"
      "same_provenance r0 r'" "st_lockHeldBy st = i" "ch_ID cs = i"
    using begin_applying [OF assms] by metis
  show "st_lockHeldBy (cd_st c) = []" by (rule r(1))
  show "\<exists>s d. rowv (cd_st c) i = Some (s, d) \<and> s \<in> unstarted" using r(2,3) by (auto simp: rowv_def unstarted_def)
  show "ch_ID cs = i" by (rule b(6))
  show "ch_Status cs = StatusApplying" "ag_strategy_ok g plan" using n by simp_all
  have "row_ID r' = i" using b(1,4) assms(2) by (simp add: same_provenance_def keys_ok_def)
  then show "\<exists>d. view (c\<lparr>cd_st := st\<rparr>) = (view c)\<lparr>wn_rows := (rowv (cd_st c))(i \<mapsto> (StatusApplying, d)), wn_lock := i\<rparr>"
    using b assms(2) by (intro exI [of _ "row_ConfirmDeadline r'"]) (auto simp: view_def rowv_def keys_ok_def fun_eq_iff)
qed

lemma begin_refused_quiet:
  assumes "beginApply (ce_svc E) g i author (cd_st c) = (Inl e, st)" "keys_ok (cd_st c)"
  shows "quiet (view c) (view (c\<lparr>cd_st := st\<rparr>))"
  using assms(1)
proof (cases rule: beginApply_Inl)
  case unchanged
  then have "view (c\<lparr>cd_st := st\<rparr>) = view c" by (simp add: view_def rowv_def keys_ok_def audit_only_simps fun_eq_iff)
  then show ?thesis by simp
next
  case (invalid r)
  have i: "row_ID r = i" using invalid(2) assms(2) by (simp add: keys_ok_def)
  with invalid(2,7) have s: "st_rows st = (st_rows (cd_st c))(i \<mapsto> row_upd r (blocked (ce_svc E) r))" by auto
  then show ?thesis
    using invalid(1-3,6) assms(2) i by (auto simp: quiet_def rowv_def keys_ok_def row_upd_def blocked_def unstarted_def)
qed

lemma apply_enter_Inr:
  assumes "apply_enter E i author timeout strategy c = (Inr (cs, plan, strategy'), c')" "keys_ok (cd_st c)"
  shows "st_lockHeldBy (cd_st c) = []" "\<exists>s d. rowv (cd_st c) i = Some (s, d) \<and> s \<in> unstarted"
    "ch_ID cs = i" "ch_Status cs = StatusApplying"
    "\<exists>d. view c' = (view c)\<lparr>wn_rows := (rowv (cd_st c))(i \<mapsto> (StatusApplying, d)), wn_lock := i\<rparr>"
proof -
  from assms(1) obtain st where b: "beginApply (ce_svc E) (plan_gates E strategy timeout) i author (cd_st c) = (Inr (cs, plan), st)"
    and "c' = c\<lparr>cd_st := st\<rparr>" by (auto simp: apply_enter_def split: prod.splits sum.splits)
  with begin_view [OF b assms(2)] show "st_lockHeldBy (cd_st c) = []" "\<exists>s d. rowv (cd_st c) i = Some (s, d) \<and> s \<in> unstarted"
    "ch_ID cs = i" "ch_Status cs = StatusApplying"
    "\<exists>d. view c' = (view c)\<lparr>wn_rows := (rowv (cd_st c))(i \<mapsto> (StatusApplying, d)), wn_lock := i\<rparr>" by simp_all
qed

lemma apply_enter_Inl:
  assumes "apply_enter E i author timeout strategy c = (Inl e, c')" "keys_ok (cd_st c)"
  shows "quiet (view c) (view c')"
proof -
  obtain res st where b: "beginApply (ce_svc E) (plan_gates E strategy timeout) i author (cd_st c) = (res, st)" by fastforce
  show ?thesis
  proof (cases res)
    case (Inl x)
    with assms(1) b begin_refused_quiet [OF b [unfolded Inl] assms(2)] show ?thesis by (simp add: apply_enter_def)
  next
    case (Inr x)
    obtain cs plan where x: "x = (cs, plan)" by fastforce
    with begin_view(5) [OF _ assms(2), of E "plan_gates E strategy timeout" i author cs plan st] b Inr assms(1) show ?thesis
      by (auto simp: apply_enter_def plan_gates_def split: sum.splits)
  qed
qed

text \<open>Finishing the steps of the running changeset.\<close>

lemma apply_finish_guarded:
  assumes "store_up E" "guarded_win (Some (ch_ID cs)) (view c)" "ch_Status cs = StatusApplying"
  shows "guarded_win None (view (snd (apply_finish E author cs plan strategy deadline res c)))"
proof -
  let ?i = "ch_ID cs"
  obtain d where r: "rowv (cd_st c) ?i = Some (StatusApplying, d)" and l: "st_lockHeldBy (cd_st c) = ?i"
    and st: "cd_stages c ?i = None"
    using assms(2) by (auto simp: guarded_win_def)
  have n: "rowv (cd_st c) ?i \<noteq> None" using r by simp
  have f: "StatusApplying \<in> in_flight" by (simp add: in_flight_def)
  show ?thesis
  proof (cases res)
    case (Inl x)
    obtain e lg where x: "x = (e, lg)" by fastforce
    have "settles ?i (view c) (view (snd (finishFailedApply E author cs lg (EExec e) c)))"
      using finishFailedApply_view [OF assms(1) n] r assms(3)
      by (intro settles_end [where t = StatusFailed and s = StatusApplying and d = d]) (auto simp: end_view_def in_flight_def)
    from guarded_settles [OF assms(2) this] Inl x show ?thesis by (simp add: apply_finish_def)
  next
    case (Inr lg)
    show ?thesis
    proof (cases "IsCanary strategy")
      case False
      have "settles ?i (view c) (view (snd (finishAwaitingConfirm E author cs plan lg deadline c)))"
        using finishAwaitingConfirm_view [OF assms(1) n assms(3), of author plan lg deadline] r f st
        by (intro settles_open [where s = StatusApplying and d = d and t = deadline]) auto
      from guarded_settles [OF assms(2) this] Inr False show ?thesis by (simp add: apply_finish_def)
    next
      case True
      obtain canary rest where cr: "canaryStageIndexes plan (as_CanaryNodes strategy) = (canary, rest)" by fastforce
      obtain o' c' where h: "holdAfterCanary E author cs lg deadline strategy (stageNodes plan canary) (stageNodes plan rest) c = (o', c')" by fastforce
      have c': "snd (apply_finish E author cs plan strategy deadline res c) = c'" using Inr True cr h by (simp add: apply_finish_def)
      from holdAfterCanary_view [OF assms(1) n assms(3) h] show ?thesis
      proof (elim disjE exE conjE bexE)
        fix sg assume sg: "sg_State sg = StageCanaryHold" "sg_ConfirmDeadline sg = deadline" "sg_HoldDeadline sg \<le> deadline"
          and v: "view c' = (view c)\<lparr>wn_rows := (rowv (cd_st c))(?i \<mapsto> (StatusApplying, Some deadline)),
            wn_holds := (cd_holds c)(?i \<mapsto> sg_HoldDeadline sg), wn_stages := (cd_stages c)(?i \<mapsto> sg)\<rparr>"
        show ?thesis unfolding c' v using guarded_hold_opened [OF assms(2) sg] by simp
      next
        fix t stg assume t: "t \<in> {StatusRolledBack, StatusFailed}" and v: "view c' = (end_view ?i t (view c))\<lparr>wn_stages := stg\<rparr>"
          and o: "\<forall>k. k \<noteq> ?i \<longrightarrow> stg k = cd_stages c k"
        have "settles ?i (view c) (view c')"
          using t v o r f by (intro settles_end [where t = t and s = StatusApplying and d = d]) (auto simp: end_view_def)
        from guarded_settles [OF assms(2) this] c' show ?thesis by simp
      qed
    qed
  qed
qed

text \<open>The draft operations stay with changesets that were not started.\<close>

lemma unstarted_sources: "t \<in> {StatusDraft, StatusDiscarded, StatusValidated} \<Longrightarrow> t \<in> set (allowedTransitions s) \<Longrightarrow> s \<in> unstarted"
  by (cases s) (auto simp: unstarted_def)

lemma repo_Update_row:
  assumes "repo_Update ok (toStoreRow d) st = Inr st'" shows "\<exists>r'. st_rows st' (ch_ID d) = Some r' \<and> row_Status r' = ch_Status d"
  using assms by (auto simp: repo_Update_Inr row_upd_def)

lemma dstep_statuses:
  assumes "dstep s opr st = (Inr d, st')" "dtarget opr = Some i" "keys_ok st"
  shows "\<exists>r. st_rows st i = Some r \<and> row_Status r \<in> unstarted \<and> (\<exists>r'. st_rows st' i = Some r' \<and> row_Status r' \<in> unstarted)"
proof -
  have e: "\<And>r. Editable (fromStoreRow r) \<Longrightarrow> row_Status r \<in> unstarted" by (auto simp: Editable_def unstarted_def)
  have u: "StatusDraft \<in> unstarted" "StatusDiscarded \<in> unstarted" "StatusValidated \<in> unstarted" by (simp_all add: unstarted_def)
  show ?thesis
  proof (cases opr)
    case (DApprove k approver)
    with assms obtain r where "st_rows st i = Some r" "StatusDraft \<in> set (allowedTransitions (row_Status r))"
      "row_ID r = i" "ch_ID d = i" "ch_Status d = StatusDraft" "\<exists>r'. st_rows st' (ch_ID d) = Some r' \<and> row_Status r' = ch_Status d"
      by (auto simp: svc_Approve_def svc_Get_Inr Transition_Inr Let_def keys_ok_def split: sum.splits dest!: repo_Update_row)
    with unstarted_sources [of StatusDraft] u show ?thesis by auto
  next
    case (DUpdate k author title ops)
    with assms obtain r where "st_rows st i = Some r" "update_edit s i title ops (fromStoreRow r) = Inr d" "st_rows st' = (st_rows st)(i \<mapsto> row_upd r d)"
      using UpdateDraft_Inr [of s i author title ops st d st'] by auto
    moreover have "ch_Status d = StatusDraft" using \<open>update_edit s i title ops (fromStoreRow r) = Inr d\<close>
      by (auto simp: update_edit_def Editable_def Transition_Inr split: if_splits sum.splits)
    ultimately show ?thesis using e u by (auto simp: update_edit_def row_upd_def split: if_splits)
  next
    case (DDiscard k author)
    with assms obtain r where r: "st_rows st i = Some r" "StatusDiscarded \<in> set (allowedTransitions (row_Status r))"
      and m: "map_option row_Status (st_rows st' i) = Some StatusDiscarded"
      by (auto simp: svc_Discard_def svc_Get_Inr Transition_Inr Let_def keys_ok_def repo_Update_Inr row_upd_def wipeRevertTicket_def WipeRevertTicket_def split: sum.splits)
    with unstarted_sources [of StatusDiscarded] u show ?thesis by auto
  next
    case (DValidate k author)
    with assms obtain r where "st_rows st i = Some r" "validate_edit s i (fromStoreRow r) = Inr d" "row_ID r = i"
      "\<exists>r'. st_rows st' (ch_ID d) = Some r' \<and> row_Status r' = ch_Status d"
      by (auto simp: svc_Validate_def svc_Get_Inr Let_def keys_ok_def split: sum.splits dest!: repo_Update_row)
    with validate_edit_Inr [of s i "fromStoreRow r" d] e u show ?thesis by auto
  qed (use assms in auto)
qed

lemma dstep_lock: "dstep s opr st = (Inr d, st') \<Longrightarrow> st_lockHeldBy st' = st_lockHeldBy st"
  by (cases opr) (auto simp: svc_create_def CreateRequest_def svc_Approve_def UpdateDraft_def svc_Discard_def svc_Validate_def
      repo_Insert_def repo_Update_Inr Let_def split: sum.splits prod.splits if_splits dest: update_write_lock)

lemma dstep_empty_id:
  assumes "dstep s opr st = (Inr d, st')" "dtarget opr = None" "\<forall>n. sv_newULID s n \<noteq> []" "st_rows st [] = None"
  shows "st_rows st' [] = None"
  using assms assms(3) [THEN spec, THEN not_sym]
  by (cases opr) (auto simp: svc_create_def CreateRequest_def repo_Insert_def toStoreRow_def Let_def split: prod.splits sum.splits if_splits)

lemma draft_quiet:
  assumes "\<forall>n. sv_newULID s n \<noteq> []" "keys_ok (cd_st c)" "st_rows (cd_st c) [] = None"
  shows "quiet (view c) (view (c\<lparr>cd_st := snd (dstep s opr (cd_st c))\<rparr>))"
proof (rule dstep_cases [OF assms(2), of s opr])
  fix i d st' assume d: "dstep s opr (cd_st c) = (Inr d, st')" and t: "dtarget opr = Some i" and tt: "touches i (cd_st c) st'"
  obtain r0 r' where r: "st_rows st' = (st_rows (cd_st c))(i \<mapsto> r')" "st_rows (cd_st c) i = Some r0" "edited r0 r'" using tt by (auto simp: touches_def)
  have s: "row_Status r0 \<in> unstarted" "row_Status r' \<in> unstarted" using dstep_statuses [OF d t assms(2)] r by auto
  have k: "row_ID r' = i" using r assms(2) by (simp add: edited_def same_provenance_def keys_ok_def)
  have "i \<noteq> []" using r(2) assms(3) by auto
  then show ?thesis
    using r s k dstep_lock [OF d] assms(2,3) d by (auto simp: quiet_def rowv_def keys_ok_def unstarted_def)
next
  fix d st' assume d: "dstep s opr (cd_st c) = (Inr d, st')" and t: "dtarget opr = None" and a: "adds (cd_st c) st'"
  show ?thesis
    using quiet_adds [OF a dstep_lock [OF d] assms(2) refl] dstep_empty_id [OF d t assms(1,3)] d by (simp add: rowv_def)
qed simp

text \<open>Reconciliation rewrites logs only.\<close>

lemma reconcileOne_view:
  assumes "keys_ok (cd_st c)"
  shows "view (snd (reconcileOne E cs c)) = view c"
proof -
  let ?l = "decodeApplyLog (ce_codec E) (ch_ApplyLog cs)"
  let ?p = "map nl_Node (filter (\<lambda>t. nl_Status t = TimerUnknown) (al_NodeTimers ?l))"
  obtain updates w where q: "query_timers E (ch_ID cs) ?p (cd_w c) = (updates, w)" by fastforce
  let ?log = "?l\<lparr>al_NodeTimers := mergeNodeTimerLogs (al_NodeTimers ?l) updates\<rparr>"
  obtain e c1 where u: "updateApplyLog E (ch_ID cs) ?log (c\<lparr>cd_w := w\<rparr>) = (e, c1)" by fastforce
  have "view c1 = view c" using updateApplyLog_view [of "c\<lparr>cd_w := w\<rparr>" E "ch_ID cs" ?log] u assms by simp
  then show ?thesis using q u by (simp add: reconcileOne_def Let_def split: option.splits)
qed

lemma reconcile_list_view: "keys_ok (cd_st c) \<Longrightarrow> view (snd (reconcile_list E css (n, c))) = view c"
proof (induction css arbitrary: n c)
  case (Cons cs css)
  obtain res c1 where r: "reconcileOne E cs c = (res, c1)" by fastforce
  then have v: "view c1 = view c" using reconcileOne_view [OF Cons.prems, of E cs] by simp
  with Cons.prems have "keys_ok (cd_st c1)" using view_proj(6) [OF v] by simp
  then show ?case using Cons.IH [of c1] r v by (cases res) simp_all
qed simp

lemma Reconcile_view:
  assumes "keys_ok (cd_st c)"
  shows "view (snd (Reconcile E c)) = view c"
proof -
  have k: "view c1 = view c \<Longrightarrow> keys_ok (cd_st c1)" for c1 using assms view_proj(6) [of c1 "view c"] by simp
  have "view (snd (reconcile_list E css (0, c))) = view c" for css by (rule reconcile_list_view [OF assms])
  moreover have "view (snd (reconcile_list E css (n, c1))) = view c" if "view c1 = view c" for css n c1
    using reconcile_list_view [OF k [OF that]] that by simp
  ultimately show ?thesis
    by (auto simp: Reconcile_def split: sum.splits prod.splits) (metis snd_conv)+
qed


section \<open>Restarting\<close>

lemma filter_single:
  assumes "distinct xs" "\<And>k r. f k = Some r \<Longrightarrow> P r \<Longrightarrow> k = i" "f i = Some r" "P r" "i \<in> set xs"
  shows "filter P (List.map_filter f xs) = [r]"
  using assms(1,5)
proof (induction xs)
  case (Cons x xs)
  have n: "filter P (List.map_filter f xs) = []" if "i \<notin> set xs"
    using that assms(2) by (fastforce simp: filter_empty_conv List.map_filter_def)
  show ?case
  proof (cases "x = i")
    case True
    then show ?thesis using Cons.prems assms(3,4) n by (simp add: List.map_filter_simps)
  next
    case False
    then show ?thesis using Cons assms(2) [of x] by (auto simp: List.map_filter_simps split: option.splits)
  qed
qed simp

definition lists_all :: "('q, 'w, 'r) coord_env \<Rightarrow> ('q, 'w, 'r) coord \<Rightarrow> bool" where
  "lists_all E c \<longleftrightarrow> distinct (ce_order E) \<and> (\<forall>i. st_rows (cd_st c) i \<noteq> None \<longrightarrow> i \<in> set (ce_order E))"

lemma svc_List_one:
  assumes "store_up E" "lists_all E c" "st_rows (cd_st c) i = Some r" "row_Status r = s"
    "\<And>k d. rowv (cd_st c) k = Some (s, d) \<Longrightarrow> k = i"
  shows "svc_List E s c = Inr [fromStoreRow r]"
proof -
  have "filter (\<lambda>r. row_Status r = s) (List.map_filter (st_rows (cd_st c)) (ce_order E)) = [r]"
    using assms(2,3,4,5) by (intro filter_single [where i = i]) (auto simp: lists_all_def rowv_def)
  then show ?thesis using assms(1) by (simp add: svc_List_def store_up_def)
qed

lemma svc_List_none:
  assumes "store_up E" "\<And>k d. rowv (cd_st c) k \<noteq> Some (s, d)"
  shows "svc_List E s c = Inr []"
proof -
  have "filter (\<lambda>r. row_Status r = s) (List.map_filter (st_rows (cd_st c)) (ce_order E)) = []"
    using assms(2) by (fastforce simp: filter_empty_conv List.map_filter_def rowv_def)
  then show ?thesis using assms(1) by (simp add: svc_List_def store_up_def)
qed

text \<open>What a restart finds: the rows as they were, the lock free, a pause perhaps claimed.\<close>

definition found :: "win \<Rightarrow> ('q, 'w, 'r) coord \<Rightarrow> bool" where
  "found v c \<longleftrightarrow> rowv (cd_st c) = wn_rows v \<and> st_lockHeldBy (cd_st c) = [] \<and> keys_ok (cd_st c) = wn_keys v \<and>
     (\<forall>i. cd_stages c i = wn_stages v i \<or>
        (\<exists>d sg. wn_rows v i = Some (StatusApplying, d) \<and> wn_stages v i = Some sg \<and>
           cd_stages c i = Some (sg\<lparr>sg_State := StagePromoting\<rparr>)))"

lemma guarded_reopened:
  assumes g: "guarded_win running v" and r: "wn_rows v i = Some (s, d)" "s \<in> in_flight" "bounded v' i s d"
    and v': "wn_rows v' = wn_rows v" "wn_keys v' = wn_keys v" "wn_lock v' = i"
      "\<forall>k. wn_stages v' k \<noteq> None \<longrightarrow> wn_stages v k \<noteq> None"
  shows "guarded_win None v'"
  unfolding guarded_win_def
proof (intro conjI allI impI)
  fix k s' d' assume "wn_rows v' k = Some (s', d')" "s' \<in> in_flight"
  then have k: "k = i" using guarded_only [OF g r(1,2), of k s' d'] v'(1) by simp
  with \<open>wn_rows v' k = _\<close> r(1) v'(1) have "s' = s" "d' = d" by simp_all
  with k r(3) v'(3) show "wn_lock v' = k" "bounded v' k s' d' \<or> s' = StatusApplying \<and> None = Some k" by simp_all
next
  fix k sg assume "wn_stages v' k = Some sg"
  with v'(4) obtain x where "wn_stages v k = Some x" by fastforce
  with g v'(1) show "\<exists>s d. wn_rows v' k = Some (s, d) \<and> s \<notin> unstarted" unfolding guarded_win_def by metis
qed (use g r v' in \<open>auto simp: guarded_win_def\<close>)

lemma recoverInterrupted_settles:
  assumes "store_up E" "rowv (cd_st c) (ch_ID cs) = Some (StatusApplying, d)" "ch_Status cs = StatusApplying"
    "st_lockHeldBy (cd_st c) = []" "wn_rows v = rowv (cd_st c)" "wn_keys v = keys_ok (cd_st c)"
    "\<forall>k. k \<noteq> ch_ID cs \<longrightarrow> cd_stages c k = wn_stages v k"
  shows "settles (ch_ID cs) v (view (recoverInterruptedApply E cs c))"
proof -
  let ?i = "ch_ID cs"
  define cx where "cx = (case loadPreSnapshot E ?i c of Inl _ \<Rightarrow> c
     | Inr pre \<Rightarrow>
         (case restoreAll E (decodePlan (ce_codec E) (ch_Plan cs)) pre (cd_w c) of (_, w) \<Rightarrow>
          let c = c\<lparr>cd_w := w\<rparr> in
          if \<not> needsRevertTicket (decodePlan (ce_codec E) (ch_Plan cs)) then c
          else case revertGatewayFor E ?i c of
            (None, c) \<Rightarrow> c
          | (Some gw, c) \<Rightarrow>
              (case restore_part True (ps_sdn pre)
                     (\<lambda>s r. case restoreSDN (ce_exec E) (Some gw) s r of (l, r) \<Rightarrow> ([l], r)) (cd_r c) of (_, r) \<Rightarrow>
               case restore_part True (ps_fw pre) (restoreFwState (Some gw)) r of (_, r) \<Rightarrow> c\<lparr>cd_r := r\<rparr>)))"
  have rg: "revertGatewayFor E ?i (c\<lparr>cd_w := w\<rparr>) = (x, y) \<Longrightarrow> view y = view c" for w x y
    using revertGatewayFor_view [of E ?i "c\<lparr>cd_w := w\<rparr>"] by simp
  have vx: "view cx = view c"
    using rg by (auto simp: cx_def Let_def split: sum.splits prod.splits option.splits)
  note px = view_proj [OF vx, simplified]
  let ?cs = "cs\<lparr>ch_Status := StatusFailed, ch_UpdatedAt := ce_now E, ch_ConfirmDeadline := None\<rparr>"
  obtain c1 where p: "persist_cs E ?cs cx = (None, c1)" "view c1 = (view c)\<lparr>wn_rows := (rowv (cd_st c))(?i \<mapsto> (StatusFailed, None))\<rparr>"
    using persist_view [of E cx ?cs] assms(1,2) px vx by (auto simp: store_up_def)
  have l: "st_lockHeldBy (cd_st (wipe_ticket E ?i c1)) = []"
    using view_proj(2) [OF view_wipe [of E ?i c1]] view_proj(2) [OF p(2)] assms(4) by simp
  have lk: "wn_lock (view c1) = []" using p(2) assms(4) by simp
  have rel: "view (if st_lockHeldBy (cd_st (wipe_ticket E ?i c1)) = ?i then release_lock (wipe_ticket E ?i c1) else wipe_ticket E ?i c1) = view c1"
  proof (cases "st_lockHeldBy (cd_st (wipe_ticket E ?i c1)) = ?i")
    case True
    have "(view c1)\<lparr>wn_lock := []\<rparr> = view c1" using lk by (cases "view c1") simp
    with True show ?thesis by simp
  qed simp
  have "recoverInterruptedApply E cs c = audit E systemRollbackActor ''changeset.recover'' ''failed'' ?i (broadcast E ?cs
      (if st_lockHeldBy (cd_st (wipe_ticket E ?i c1)) = ?i then release_lock (wipe_ticket E ?i c1) else wipe_ticket E ?i c1))"
    using p assms(3) by (simp add: recoverInterruptedApply_def Let_def cx_def [symmetric] try_transition_in_flight in_flight_def)
  then have "view (recoverInterruptedApply E cs c) = (view c)\<lparr>wn_rows := (rowv (cd_st c))(?i \<mapsto> (StatusFailed, None))\<rparr>"
    using rel p by simp
  then show ?thesis
    using assms(2,4-7) by (intro settles_end [where t = StatusFailed and s = StatusApplying and d = d]) (auto simp: in_flight_def)
qed

text \<open>A call on a waiting changeset cannot meet one whose steps are running.\<close>

lemma guarded_resolves:
  assumes g: "guarded_win running v" and r: "resolves i v v'"
  shows "guarded_win running v'"
proof (cases "quiet v v'")
  case True
  with g show ?thesis by (rule guarded_quiet)
next
  case False
  with r have w: "waiting i v" and s: "settles i v v'" by (auto simp: resolves_def)
  obtain s0 d where i: "wn_rows v i = Some (s0, d)" "s0 \<in> in_flight" using w by (auto simp: waiting_def in_flight_def)
  have "running = None"
  proof (rule ccontr)
    assume "running \<noteq> None"
    then obtain k where k: "running = Some k" by blast
    then have r: "wn_stages v k = None" "\<exists>d. wn_rows v k = Some (StatusApplying, d)"
      using g unfolding guarded_win_def by blast+
    then obtain d' where "wn_rows v k = Some (StatusApplying, d')" by blast
    with guarded_only [OF g i, of k StatusApplying d'] have "k = i" by (simp add: in_flight_def)
    with w r show False by (auto simp: waiting_def)
  qed
  with guarded_settles [OF g s] show ?thesis by simp
qed

end
