(* ===== verification/Coord_System.thy ===== *)
theory Coord_System
  imports Confirm_Window
begin

text \<open>
  The coordinator as a transition system: every call, timer firing and restart as a step, and the
  invariant of the confirm window in every state that is reached.
\<close>

section \<open>Restarting\<close>

lemma view_sweep [simp]: "view (SweepExpiredRevertTickets E c) = view c"
proof -
  have r: "rowv (WipeExpiredRevertTickets now st) = rowv st" for now and st :: "'a plan_params change_store"
  proof (rule ext)
    fix i show "rowv (WipeExpiredRevertTickets now st) i = rowv st i"
      by (cases "st_rows st i") (simp_all add: rowv_def WipeExpiredRevertTickets_def)
  qed
  have k: "keys_ok (WipeExpiredRevertTickets now st) = keys_ok st" for now and st :: "'a plan_params change_store"
  proof -
    have alt: "keys_ok s \<longleftrightarrow> (\<forall>i. map_option row_ID (st_rows s i) \<in> {None, Some i})" for s :: "'a plan_params change_store"
      unfolding keys_ok_def by (auto, metis option.distinct(1) option.inject)
    have "map_option row_ID (st_rows (WipeExpiredRevertTickets now st) i) = map_option row_ID (st_rows st i)" for i
      by (cases "st_rows st i") (simp_all add: WipeExpiredRevertTickets_def)
    then show ?thesis by (simp add: alt)
  qed
  have l: "st_lockHeldBy (WipeExpiredRevertTickets now st) = st_lockHeldBy st" for now and st :: "'a plan_params change_store"
    by (simp add: WipeExpiredRevertTickets_def)
  show ?thesis by (simp add: view_def SweepExpiredRevertTickets_def upd_st_def r k l)
qed

lemma lists_all_cong:
  assumes "rowv (cd_st c') = rowv (cd_st c)" shows "lists_all E c' = lists_all E c"
proof -
  have "st_rows (cd_st c') i = None \<longleftrightarrow> st_rows (cd_st c) i = None" for i
    using fun_cong [OF assms, of i] by (cases "st_rows (cd_st c') i"; cases "st_rows (cd_st c) i") (simp_all add: rowv_def)
  then show ?thesis by (simp add: lists_all_def)
qed

lemma found_stage:
  assumes "found v c"
  obtains "wn_stages v i = cd_stages c i"
    | d sg where "wn_rows v i = Some (StatusApplying, d)" "wn_stages v i = Some sg" "cd_stages c i = Some (sg\<lparr>sg_State := StagePromoting\<rparr>)"
proof -
  have "cd_stages c i = wn_stages v i \<or> (\<exists>d sg. wn_rows v i = Some (StatusApplying, d) \<and> wn_stages v i = Some sg \<and>
      cd_stages c i = Some (sg\<lparr>sg_State := StagePromoting\<rparr>))"
    using assms by (simp add: found_def)
  with that show thesis by metis
qed

lemma guarded_running: "guarded_win (Some i) v \<Longrightarrow> wn_stages v i = None"
  by (simp add: guarded_win_def)

lemma guarded_row:
  "guarded_win running v \<Longrightarrow> wn_rows v i = Some (s, d) \<Longrightarrow> s \<in> in_flight \<Longrightarrow> wn_lock v = i \<and> (bounded v i s d \<or> s = StatusApplying \<and> running = Some i)"
  unfolding guarded_win_def by blast

lemma guarded_awaiting: "guarded_win running v \<Longrightarrow> wn_rows v i = Some (StatusAwaitingConfirm, d) \<Longrightarrow> \<exists>t. d = Some t \<and> wn_timers v i = Some t"
  using guarded_row [of running v i StatusAwaitingConfirm d] by (auto simp: in_flight_def bounded_def)

lemma guarded_held:
  assumes "guarded_win running v" "wn_rows v i = Some (StatusApplying, d)" "wn_stages v i = Some sg"
  shows "bounded v i StatusApplying d"
  using guarded_row [OF assms(1,2)] guarded_running [of i v] assms(1,3) by (auto simp: in_flight_def)

lemma guarded_idle:
  assumes "guarded_win running v" "found v c" "\<And>i s d. wn_rows v i = Some (s, d) \<Longrightarrow> s \<notin> in_flight"
  shows "guarded_win None (view c)"
  unfolding guarded_win_def
proof (intro conjI allI impI)
  show "wn_keys (view c)" "wn_rows (view c) [] = None" using assms(1,2) by (auto simp: guarded_win_def found_def)
  show "\<exists>s d. wn_rows (view c) i = Some (s, d) \<and> s \<notin> unstarted" if st: "wn_stages (view c) i = Some sg" for i sg
  proof -
    obtain sg' where "wn_stages v i = Some sg'" using st by (cases rule: found_stage [OF assms(2), of i]) auto
    with assms(1,2) show ?thesis unfolding guarded_win_def found_def by (metis view_sel(1))
  qed
qed (use assms(2,3) in \<open>auto simp: found_def\<close>)

text \<open>The canary passes its check although the hold ended while the daemon was down.\<close>

definition promotes :: "('q, 'w, 'r) coord_env \<Rightarrow> ChangesetApplyStage \<Rightarrow> bool" where
  "promotes E sg \<longleftrightarrow> sg_HoldDeadline sg \<le> ce_now E \<and> ce_now E < sg_ConfirmDeadline sg \<and>
     as_Gate (sg_Strategy sg) = ApplyGateAuto \<and> Clean (checkCanary E sg)"

text \<open>A restart resolves what it finds: the row is the one before, the lock is free.\<close>

lemma found_settles:
  assumes f: "found v c" and g: "guarded_win running v" and r: "wn_rows v i = Some (s, d)" "s \<in> in_flight"
    and st: "settles i (view c) v'" "wn_rows v' i = Some (t, d')" "t \<noteq> StatusAwaitingConfirm"
  shows "settles i v v'"
proof -
  have "wn_stages (view c) k = wn_stages v k" if "k \<noteq> i" for k
    using f guarded_only [OF g r, of k StatusApplying] that by (auto simp: found_def in_flight_def)
  with st f r show ?thesis unfolding settles_def found_def by auto
qed

lemma resolveHold_aborts:
  assumes "store_up E" "keys_ok (cd_st c)" "rowv (cd_st c) i = Some (StatusApplying, d)" "cd_stages c i = Some sg"
    "sg_HoldDeadline sg \<le> ce_now E" "\<not> promotes E sg"
  shows "settles i (view c) (view (resolveHold E i sg c))"
    "\<exists>t d'. rowv (cd_st (resolveHold E i sg c)) i = Some (t, d') \<and> t \<noteq> StatusAwaitingConfirm"
proof -
  let ?a = "\<lambda>c. snd (abortStagedApply E i systemRollbackActor None c)"
  let ?c = "audit E systemRollbackActor ''changeset.apply'' ''canary_gate_failed'' i c"
  have "resolveHold E i sg c = ?a c \<or> resolveHold E i sg c = ?a ?c"
    using assms(5,6) by (auto simp: resolveHold_def promotes_def)
  moreover have *: "settles i (view c) (view (?a c'))" "\<exists>t d'. rowv (cd_st (?a c')) i = Some (t, d') \<and> t \<noteq> StatusAwaitingConfirm"
    if "view c' = view c" for c'
  proof -
    note p = view_proj [OF that, simplified]
    show "settles i (view c) (view (?a c'))"
      using abort_settles [OF assms(1), of c' i d sg systemRollbackActor None] assms(2-4) p that by simp
    obtain t where t: "t \<in> {StatusRolledBack, StatusFailed}" "view (?a c') =
      (end_view i t (view c'))\<lparr>wn_timers := (cd_timers c')(i := None), wn_holds := (cd_holds c')(i := None),
        wn_stages := (if ce_stages E = Some True then (cd_stages c')(i := None) else cd_stages c')\<rparr>"
      using abort_ends [OF assms(1), of c' i d sg systemRollbackActor None] assms(2-4) p by auto
    then have "rowv (cd_st (?a c')) i = Some (t, None)" using view_proj(1) [OF t(2)] by (simp add: end_view_def)
    with t(1) show "\<exists>t d'. rowv (cd_st (?a c')) i = Some (t, d') \<and> t \<noteq> StatusAwaitingConfirm" by auto
  qed
  ultimately show "settles i (view c) (view (resolveHold E i sg c))"
    "\<exists>t d'. rowv (cd_st (resolveHold E i sg c)) i = Some (t, d') \<and> t \<noteq> StatusAwaitingConfirm"
    using * [of c] * [of ?c] by auto
qed

lemma recover_applying_settles:
  assumes up: "store_up E" "ce_stages E = Some True" and g: "guarded_win running v" and f: "found v c"
    and cs: "ch_ID cs = i" "ch_Status cs = StatusApplying" "wn_rows v i = Some (StatusApplying, d)"
    and pr: "\<And>sg. cd_stages c i = Some sg \<Longrightarrow> sg_State sg = StageCanaryHold \<Longrightarrow> \<not> promotes E sg"
  shows "guarded_win None (view (recover_applying E cs c))"
proof -
  have k: "wn_keys v" using g by (simp add: guarded_win_def)
  have fd: "rowv (cd_st c) = wn_rows v" "st_lockHeldBy (cd_st c) = []" "keys_ok (cd_st c)" using f k by (auto simp: found_def)
  have fl: "StatusApplying \<in> in_flight" by (simp add: in_flight_def)
  have stg: "cd_stages c k = wn_stages v k" if "k \<noteq> i" for k
    using f guarded_only [OF g cs(3) fl, of k StatusApplying] that fl by (auto simp: found_def)
  have int: "guarded_win None (view (recoverInterruptedApply E cs c'))" if "cd_st c' = cd_st c" "\<forall>k. k \<noteq> i \<longrightarrow> cd_stages c' k = cd_stages c k" for c'
  proof -
    have "settles i v (view (recoverInterruptedApply E cs c'))"
      unfolding cs(1) [symmetric]
    proof (rule recoverInterrupted_settles [OF up(1), where d = d])
      show "rowv (cd_st c') (ch_ID cs) = Some (StatusApplying, d)" using that(1) fd(1) cs by simp
      show "st_lockHeldBy (cd_st c') = []" "wn_rows v = rowv (cd_st c')" using that(1) fd by simp_all
      show "wn_keys v = keys_ok (cd_st c')" using that(1) fd(3) k by simp
      show "\<forall>k. k \<noteq> ch_ID cs \<longrightarrow> cd_stages c' k = wn_stages v k" using that(2) stg cs(1) by metis
    qed (rule cs(2))
    with g show ?thesis by (rule guarded_settles)
  qed
  show ?thesis
  proof (cases "cd_stages c i")
    case None
    with int [of c] cs(1) show ?thesis by (simp add: recover_applying_def StagedApplyState_up [OF up(1)])
  next
    case (Some sg)
    then have re: "recover_applying E cs c = recoverStagedApply E cs sg c"
      using cs(1) by (simp add: recover_applying_def StagedApplyState_up [OF up(1)])
    show ?thesis
    proof (cases "sg_State sg")
      case StagePromoting
      then show ?thesis using int [of "clearStage E i c"] cs(1) by (simp add: re recoverStagedApply_def clearStage_def)
    next
      case StageCanaryHold
      let ?c = "audit E systemRollbackActor ''changeset.recover'' ''canary_hold_expired'' i c"
      have pc: "view ?c = view c" by simp
      note p = view_proj [OF pc, simplified]
      show ?thesis
      proof (cases "sg_HoldDeadline sg \<le> ce_now E")
        case True
        have a: "settles i (view c) (view (resolveHold E i sg ?c))"
          "\<exists>t d'. rowv (cd_st (resolveHold E i sg ?c)) i = Some (t, d') \<and> t \<noteq> StatusAwaitingConfirm"
          using resolveHold_aborts [OF up(1), of ?c i d sg] fd cs(3) Some True pr [OF Some StageCanaryHold] p pc by simp_all
        have "settles i v (view (resolveHold E i sg ?c))"
          using found_settles [OF f g cs(3) fl a(1)] a(2) by auto
        with guarded_settles [OF g] True StageCanaryHold cs(1) show ?thesis by (simp add: re recoverStagedApply_def)
      next
        case False
        have st: "wn_stages v i = Some sg"
          using f Some StageCanaryHold by (cases rule: found_stage [of v c i]) auto
        have "bounded v i StatusApplying d" using guarded_held [OF g cs(3) st] .
        then obtain t where t: "d = Some t" "sg_ConfirmDeadline sg = t" "sg_HoldDeadline sg \<le> t" using st by (auto simp: bounded_def)
        let ?l = "upd_st (\<lambda>st. st\<lparr>st_lockHeldBy := i\<rparr>) c"
        have vl: "view ?l = (view c)\<lparr>wn_lock := i\<rparr>" by (rule view_lock)
        have v': "view (recover_applying E cs c) = (view c)\<lparr>wn_lock := i, wn_holds := (cd_holds c)(i \<mapsto> sg_HoldDeadline sg)\<rparr>"
          using False StageCanaryHold cs(1) vl view_proj(4) [OF vl] by (simp add: re recoverStagedApply_def Let_def)
        have "\<forall>k. cd_stages c k \<noteq> None \<longrightarrow> wn_stages v k \<noteq> None" using stg st by (metis option.distinct(1))
        with t Some StageCanaryHold fd k show ?thesis
          by (intro guarded_reopened [OF g cs(3) fl]) (simp_all add: v' bounded_def)
      qed
    qed
  qed
qed

lemma fromStoreRow_in_flight:
  assumes "rowv st i = Some (s, d)" "keys_ok st"
  shows "\<exists>r. st_rows st i = Some r \<and> row_Status r = s \<and> ch_ID (fromStoreRow r) = i \<and> ch_Status (fromStoreRow r) = s \<and>
    ch_ConfirmDeadline (fromStoreRow r) = d"
  using assms by (auto simp: rowv_def keys_ok_def fromStoreRow_def)

lemma restart_guarded:
  assumes up: "store_up E" "ce_stages E = Some True" and g: "guarded_win running v" and f: "found v c" and la: "lists_all E c"
    and pr: "\<And>i d sg. wn_rows v i = Some (StatusApplying, d) \<Longrightarrow> cd_stages c i = Some sg \<Longrightarrow> sg_State sg = StageCanaryHold \<Longrightarrow> \<not> promotes E sg"
  shows "guarded_win None (view (snd (ArmPendingRollbacks E c)))"
proof -
  let ?c = "SweepExpiredRevertTickets E c"
  note p = view_proj [OF view_sweep [of E c], simplified]
  have f': "found v ?c" using f p by (simp add: found_def)
  have la': "lists_all E ?c" using la lists_all_cong [of ?c c] p(1) by simp
  have k: "keys_ok (cd_st ?c)" "rowv (cd_st ?c) = wn_rows v" using f' g by (auto simp: found_def guarded_win_def)
  have wk: "wn_keys v" using g by (simp add: guarded_win_def)
  have ac: "ce_applyConfigured E" using up(1) by (simp add: store_up_def)
  have none: "svc_List E s c' = Inr []" if "rowv (cd_st c') = wn_rows v" "\<And>k d. wn_rows v k \<noteq> Some (s, d)" for s c'
    using svc_List_none [OF up(1)] that by metis
  show ?thesis
  proof (cases "\<exists>i s d. wn_rows v i = Some (s, d) \<and> s \<in> in_flight")
    case False
    then have n: "svc_List E StatusAwaitingConfirm ?c = Inr []" "svc_List E StatusApplying ?c = Inr []"
      using False by (intro none [OF k(2)]; auto simp: in_flight_def)+
    have "guarded_win None (view ?c)" using False by (intro guarded_idle [OF g f']) blast
    with n ac show ?thesis by (simp add: ArmPendingRollbacks_def Let_def)
  next
    case True
    then obtain i s d where r: "wn_rows v i = Some (s, d)" "s \<in> in_flight" by blast
    note only = guarded_only [OF g r]
    have other: "wn_rows v k \<noteq> Some (s', d')" if "s' \<in> in_flight" "s' \<noteq> s" for k s' d'
      using only [of k s' d'] r(1) that by auto
    obtain row where row: "st_rows (cd_st ?c) i = Some row" "row_Status row = s" "ch_ID (fromStoreRow row) = i"
      "ch_Status (fromStoreRow row) = s" "ch_ConfirmDeadline (fromStoreRow row) = d"
      using fromStoreRow_in_flight [of "cd_st ?c" i s d] k r(1) by auto
    have one: "svc_List E s ?c = Inr [fromStoreRow row]"
      using only r(2) k(2) by (intro svc_List_one [OF up(1) la' row(1,2)]) auto
    show ?thesis
    proof (cases "s = StatusAwaitingConfirm")
      case True
      obtain t where t: "d = Some t" using guarded_awaiting [OF g] r(1) True by blast
      let ?l = "upd_st (\<lambda>st. st\<lparr>st_lockHeldBy := i\<rparr>) ?c"
      have vl: "view ?l = (view ?c)\<lparr>wn_lock := i\<rparr>" by (rule view_lock)
      let ?c' = "rearm_window E (fromStoreRow row) ?c"
      have v': "view ?c' = (view ?c)\<lparr>wn_lock := i, wn_timers := (cd_timers ?c)(i \<mapsto> t)\<rparr>"
        using row t vl view_proj(3) [OF vl] p by (simp add: rearm_window_def Let_def)
      have "rowv (cd_st ?c') = wn_rows v" using view_proj(1) [OF v'] k(2) p(1) by simp
      then have "svc_List E StatusApplying ?c' = Inr []" using other True by (intro none) (auto simp: in_flight_def)
      then have e: "snd (ArmPendingRollbacks E c) = ?c'" using one True ac by (simp add: ArmPendingRollbacks_def Let_def)
      have "\<forall>k. cd_stages ?c k \<noteq> None \<longrightarrow> wn_stages v k \<noteq> None" 
      proof (intro allI impI)
        fix k assume "cd_stages ?c k \<noteq> None"
        then show "wn_stages v k \<noteq> None" by (cases rule: found_stage [OF f', of k]) auto
      qed
      then show ?thesis
        unfolding e using True t k p wk by (intro guarded_reopened [OF g r]) (simp_all add: v' bounded_def)
    next
      case False
      with r(2) have s: "s = StatusApplying" by (simp add: in_flight_def)
      have "svc_List E StatusAwaitingConfirm ?c = Inr []"
        using other s by (intro none [OF k(2)]) (auto simp: in_flight_def)
      with one s ac have e: "snd (ArmPendingRollbacks E c) = recover_applying E (fromStoreRow row) ?c"
        by (simp add: ArmPendingRollbacks_def Let_def)
      show ?thesis
        unfolding e using recover_applying_settles [OF up g f', of "fromStoreRow row" i d] row(3,4) s r(1) pr [of i d] p(5) by simp
    qed
  qed
qed

lemma found_crash: "found (view c) (crash c)"
  by (simp add: found_def crash_def upd_st_def rowv_def keys_ok_def fun_eq_iff)

text \<open>A crash after a pause is claimed leaves the claim in the stage table.\<close>

lemma found_claimed:
  assumes "store_up E" "keys_ok (cd_st c)" "continue_claim E i c = (res, c')"
  shows "found (view c) (crash c')"
proof (cases res)
  case (Inl e)
  then have "c' = c" using assms(3)
    by (auto simp: continue_claim_def claimPauseLocked_def stages_Upsert_def split: sum.splits option.splits if_splits prod.splits)
  then show ?thesis using found_crash by simp
next
  case (Inr x)
  then obtain cs sg where g: "get_cs E i c = Inr cs" "cd_stages c i = Some sg" "ch_Status cs = StatusApplying"
    and c': "c' = cancelHoldTimerLocked i (c\<lparr>cd_stages := (cd_stages c)(i \<mapsto> sg\<lparr>sg_State := StagePromoting\<rparr>)\<rparr>)"
    using assms(1,3) by (auto simp: continue_claim_def claimPauseLocked_def stages_Upsert_def StagedApplyState_up
        split: sum.splits option.splits if_splits prod.splits)
  have "rowv (cd_st c) i = Some (StatusApplying, ch_ConfirmDeadline cs)" using get_csD(2) [OF g(1) assms(2)] g(3) by simp
  then show ?thesis
    using g(2) by (auto simp: c' found_def crash_def upd_st_def cancelHoldTimerLocked_def rowv_def keys_ok_def fun_eq_iff)
qed


section \<open>The steps\<close>

text \<open>A call to apply that is executing its steps, outside the apply mutex.\<close>

record 'q job =
  jb_cs :: "'q plan_params Changeset"
  jb_plan :: Plan
  jb_strategy :: ApplyStrategy
  jb_deadline :: int

type_synonym ('q, 'w, 'r) coord_sys = "('q, 'w, 'r) coord \<times> 'q job option"

text \<open>
  One step: a section of a call, the firing of a timer that is due, or a restart. Each is in its own
  environment, of which only the named facts are known: the store answers, this daemon leads where it
  acts unattended, and a stage table is writable where a pause is resolved without an operator.

  The relation leaves out some runs of the program. A call that promotes a pause (\<open>continueStaged\<close>), a
  cycle of findings (\<open>ObserveFindings\<close>) and a draft call are one step each, though the code releases
  the apply mutex inside them; a restart may find a promotion half done. At a restart, the canary check
  does not pass for a hold that ended while the daemon was down. \<open>Coord_Gaps\<close> shows what happens
  otherwise: \<open>recovery_promotes_unlocked\<close>, \<open>abort_overwritten_by_promotion\<close> and
  \<open>stale_finding_undoes_commit\<close>.
\<close>

inductive coord_step :: "('q, 'w, 'r) coord_sys \<Rightarrow> ('q, 'w, 'r) coord_sys \<Rightarrow> bool" where
  Enter: "store_up E \<Longrightarrow> apply_enter E i author timeout strategy c = (Inr (cs, plan, strategy'), c') \<Longrightarrow>
     coord_step (c, None) (c', Some \<lparr> jb_cs = cs, jb_plan = plan, jb_strategy = strategy', jb_deadline = ce_now E + timeout \<rparr>)"
| Refuse: "apply_enter E i author timeout strategy c = (Inl e, c') \<Longrightarrow> coord_step (c, j) (c', j)"
| Finish: "store_up E \<Longrightarrow> apply_execute E' author opt (jb_cs j) (jb_plan j) (jb_strategy j) (jb_deadline j) c = (res, c1) \<Longrightarrow>
     coord_step (c, Some j) (snd (apply_finish E author (jb_cs j) (jb_plan j) (jb_strategy j) (jb_deadline j) res c1), None)"
| Outside: "coord_step (c, j) (c\<lparr>cd_w := w, cd_r := r\<rparr>, j)"
| ConfirmCall: "store_up E \<Longrightarrow> coord_step (c, j) (snd (confirm_locked E i c), j)"
| ConfirmRest: "coord_step (c, j) (confirm_rest E i author cs c, j)"
| RollbackCall: "store_up E \<Longrightarrow> coord_step (c, j) (snd (Rollback E i author c), j)"
| WindowEnds: "store_up E \<Longrightarrow> cd_timers c i = Some d \<Longrightarrow> d \<le> ce_now E \<Longrightarrow> coord_step (c, j) (autoRollback E i c, j)"
| HoldEnds: "store_up E \<Longrightarrow> ce_stages E = Some True \<Longrightarrow> cd_holds c i = Some d \<Longrightarrow> d \<le> ce_now E \<Longrightarrow>
     coord_step (c, j) (onHoldExpired E i c, j)"
| ContinueCall: "store_up E \<Longrightarrow> coord_step (c, j) (snd (continueStaged E i author gw c), j)"
| AbortCall: "store_up E \<Longrightarrow> coord_step (c, j) (snd (abortStagedApply E i author gw c), j)"
| Findings: "store_up E \<Longrightarrow> coord_step (c, j) (ObserveFindings E observed c, j)"
| DraftCall: "\<forall>n. sv_newULID s n \<noteq> [] \<Longrightarrow> coord_step (c, j) (c\<lparr>cd_st := snd (dstep s opr (cd_st c))\<rparr>, j)"
| ReconcileRun: "coord_step (c, j) (snd (Reconcile E c), j)"
| Restart: "store_up E \<Longrightarrow> ce_stages E = Some True \<Longrightarrow> lists_all E c \<Longrightarrow>
     (\<forall>i d sg. rowv (cd_st c) i = Some (StatusApplying, d) \<longrightarrow> cd_stages c i = Some sg \<longrightarrow> sg_State sg = StageCanaryHold \<longrightarrow>
        \<not> promotes E sg) \<Longrightarrow>
     coord_step (c, j) (snd (ArmPendingRollbacks E (crash c)), None)"
| RestartPromoting: "store_up E \<Longrightarrow> ce_stages E = Some True \<Longrightarrow> lists_all E c \<Longrightarrow> store_up E' \<Longrightarrow>
     continue_claim E' i c = (Inr x, c') \<Longrightarrow>
     coord_step (c, j) (snd (ArmPendingRollbacks E (crash c')), None)"

definition job_win :: "'q job option \<Rightarrow> string option" where
  "job_win j = map_option (\<lambda>j. ch_ID (jb_cs j)) j"

definition window_inv :: "('q, 'w, 'r) coord_sys \<Rightarrow> bool" where
  "window_inv x \<longleftrightarrow> guarded_win (job_win (snd x)) (view (fst x)) \<and> (\<forall>j. snd x = Some j \<longrightarrow> ch_Status (jb_cs j) = StatusApplying)"

lemma guarded_keys: "guarded_win running (view c) \<Longrightarrow> keys_ok (cd_st c)"
  by (simp add: guarded_win_def)

lemma guarded_empty: "guarded_win running (view c) \<Longrightarrow> st_rows (cd_st c) [] = None"
  by (simp add: guarded_win_def rowv_def)

lemma observe_view: "view (snd (observe_cycle observed c)) = view c"
  by (simp add: observe_cycle_def Let_def view_def)

lemma Observe_guarded:
  assumes "store_up E" "guarded_win running (view c)"
  shows "guarded_win running (view (ObserveFindings E observed c))"
proof -
  have "guarded_win running (view (fold (\<lambda>(i, matched). fireAutoRollback E i matched) fired c))"
    if "guarded_win running (view c)" for fired c
    using that
  proof (induction fired arbitrary: c)
    case (Cons x fired)
    obtain i matched where x: "x = (i, matched)" by fastforce
    have "guarded_win running (view (fireAutoRollback E i matched c))"
      using guarded_resolves [OF Cons.prems fire_effect [OF assms(1) guarded_keys [OF Cons.prems]]] .
    then show ?case using Cons.IH x by simp
  qed simp
  from this [of "snd (observe_cycle observed c)"] show ?thesis
    using assms(2) by (simp add: ObserveFindings_def observe_view case_prod_beta)
qed

lemma guarded_begun:
  assumes g: "guarded_win None v" and l: "wn_lock v = []" and r: "wn_rows v i = Some (s, d0)" "s \<in> unstarted"
  shows "guarded_win (Some i) (v\<lparr>wn_rows := (wn_rows v)(i \<mapsto> (StatusApplying, d)), wn_lock := i\<rparr>)" (is "guarded_win _ ?v")
proof -
  have k: "wn_keys v" "wn_rows v [] = None" using g unfolding guarded_win_def by blast+
  with r have ne: "i \<noteq> []" by auto
  have none: "s' \<notin> in_flight" if "wn_rows v k = Some (s', d')" for k s' d'
  proof
    assume "s' \<in> in_flight"
    with guarded_row [OF g that] l have "k = []" by simp
    with that k show False by simp
  qed
  have st: "\<exists>s d. wn_rows v k = Some (s, d) \<and> s \<notin> unstarted" if "wn_stages v k = Some sg" for k sg
    using g that unfolding guarded_win_def by metis
  have f: "StatusApplying \<in> in_flight" "StatusApplying \<notin> unstarted" by (simp_all add: in_flight_def unstarted_def)
  have si: "wn_stages v i = None"
    using st [of i] r by (cases "wn_stages v i") auto
  show ?thesis
    unfolding guarded_win_def
  proof (intro conjI allI impI)
    fix k s' d' assume a: "wn_rows ?v k = Some (s', d')" "s' \<in> in_flight"
    with none [of k s' d'] have "k = i" "s' = StatusApplying" by (auto split: if_splits)
    then show "wn_lock ?v = k" "bounded ?v k s' d' \<or> s' = StatusApplying \<and> Some i = Some k" by simp_all
  next
    fix k sg assume "wn_stages ?v k = Some sg"
    with st [of k sg] f(2) show "\<exists>s d. wn_rows ?v k = Some (s, d) \<and> s \<notin> unstarted" by (cases "k = i") auto
  qed (use k ne si f in auto)
qed

lemma restart_step:
  assumes "store_up E" "ce_stages E = Some True" "guarded_win running (view c)" "found (view c) (crash c')"
    "lists_all E c" "rowv (cd_st c') = rowv (cd_st c)" "cd_stages (crash c') = cd_stages c'"
    "\<And>i d sg. rowv (cd_st c) i = Some (StatusApplying, d) \<Longrightarrow> cd_stages c' i = Some sg \<Longrightarrow> sg_State sg = StageCanaryHold \<Longrightarrow> \<not> promotes E sg"
  shows "guarded_win None (view (snd (ArmPendingRollbacks E (crash c'))))"
proof (rule restart_guarded [OF assms(1-4)])
  have "rowv (cd_st (crash c')) = rowv (cd_st c)" using assms(4) by (simp add: found_def)
  then show "lists_all E (crash c')" using assms(5) lists_all_cong by blast
  show "\<not> promotes E sg" if "wn_rows (view c) i = Some (StatusApplying, d)" "cd_stages (crash c') i = Some sg" "sg_State sg = StageCanaryHold" for i d sg
    using assms(8) [of i d sg] that assms(7) by simp
qed

lemma claimed_stage:
  assumes "continue_claim E i c = (Inr x, c')" "store_up E"
  shows "\<exists>sg. cd_stages c' i = Some (sg\<lparr>sg_State := StagePromoting\<rparr>)" "rowv (cd_st c') = rowv (cd_st c)"
    "\<exists>cs. get_cs E i c = Inr cs \<and> ch_Status cs = StatusApplying"
  using assms by (auto simp: continue_claim_def claimPauseLocked_def stages_Upsert_def StagedApplyState_up cancelHoldTimerLocked_def
      split: sum.splits option.splits if_splits prod.splits)

lemma window_resolves:
  assumes "window_inv (c, j)" "resolves i (view c) (view c')"
  shows "window_inv (c', j)"
  using assms guarded_resolves [of "job_win j" "view c" i "view c'"] by (simp add: window_inv_def)

lemma window_step:
  assumes "coord_step x y" "window_inv x"
  shows "window_inv y"
  using assms
proof (induction rule: coord_step.induct)
  case (Enter E i author timeout strategy c cs plan strategy' c')
  have g: "guarded_win None (view c)" using Enter.prems by (simp add: window_inv_def job_win_def)
  note e = apply_enter_Inr [OF Enter(2) guarded_keys [OF g]]
  obtain s d0 d where "rowv (cd_st c) i = Some (s, d0)" "s \<in> unstarted"
    "view c' = (view c)\<lparr>wn_rows := (rowv (cd_st c))(i \<mapsto> (StatusApplying, d)), wn_lock := i\<rparr>" using e(2,5) by blast
  with guarded_begun [OF g, of i s d0 d] e(1,3,4) show ?case by (simp add: window_inv_def job_win_def)
next
  case (Refuse E i author timeout strategy c e c' j)
  then have g: "guarded_win (job_win j) (view c)" by (simp add: window_inv_def)
  with guarded_quiet [OF g apply_enter_Inl [OF Refuse(1) guarded_keys [OF g]]] Refuse.prems show ?case by (simp add: window_inv_def)
next
  case (Finish E E' author opt j c res c1)
  then have g: "guarded_win (Some (ch_ID (jb_cs j))) (view c)" "ch_Status (jb_cs j) = StatusApplying"
    by (simp_all add: window_inv_def job_win_def)
  have "view c1 = view c" using Finish(2) apply_execute_view [of E' author opt "jb_cs j" "jb_plan j" "jb_strategy j" "jb_deadline j" c] by simp
  with apply_finish_guarded [OF Finish(1), of "jb_cs j" c1] g show ?case by (simp add: window_inv_def job_win_def)
next
  case (ConfirmRest c j E i author cs)
  then have g: "guarded_win (job_win j) (view c)" by (simp add: window_inv_def)
  with confirm_rest_view [OF guarded_keys [OF g]] ConfirmRest show ?case by (simp add: window_inv_def)
next
  case (DraftCall s c j opr)
  then have g: "guarded_win (job_win j) (view c)" by (simp add: window_inv_def)
  with guarded_quiet [OF g draft_quiet [OF DraftCall(1) guarded_keys [OF g] guarded_empty [OF g]]] DraftCall show ?case by (simp add: window_inv_def)
next
  case (ReconcileRun c j E)
  then have g: "guarded_win (job_win j) (view c)" by (simp add: window_inv_def)
  with Reconcile_view [OF guarded_keys [OF g]] ReconcileRun show ?case by (simp add: window_inv_def)
next
  case (Findings E c j observed)
  with Observe_guarded [OF Findings(1), of "job_win j" c observed] show ?case by (simp add: window_inv_def)
next
  case (Restart E c j)
  then have g: "guarded_win (job_win j) (view c)" by (simp add: window_inv_def)
  have "guarded_win None (view (snd (ArmPendingRollbacks E (crash c))))"
    using Restart by (intro restart_step [OF Restart(1,2) g found_crash Restart(3)]) (auto simp: crash_def upd_st_def)
  then show ?case by (simp add: window_inv_def job_win_def)
next
  case (RestartPromoting E c E' i x c' j)
  then have g: "guarded_win (job_win j) (view c)" by (simp add: window_inv_def)
  note cl = claimed_stage [OF RestartPromoting(5,4)]
  obtain cs where cs: "get_cs E' i c = Inr cs" "ch_Status cs = StatusApplying" using cl(3) by blast
  have i: "rowv (cd_st c) i = Some (StatusApplying, ch_ConfirmDeadline cs)" using get_csD(2) [OF cs(1) guarded_keys [OF g]] cs(2) by simp
  have "guarded_win None (view (snd (ArmPendingRollbacks E (crash c'))))"
  proof (rule restart_step [OF RestartPromoting(1,2) g found_claimed [OF RestartPromoting(4) guarded_keys [OF g] RestartPromoting(5)] RestartPromoting(3) cl(2)])
    show "cd_stages (crash c') = cd_stages c'" by (simp add: crash_def upd_st_def)
    fix k d sg assume k: "rowv (cd_st c) k = Some (StatusApplying, d)" "cd_stages c' k = Some sg" "sg_State sg = StageCanaryHold"
    then have "k = i" using guarded_only [OF g, of i StatusApplying "ch_ConfirmDeadline cs" k StatusApplying d] i by (simp add: in_flight_def)
    with k cl(1) show "\<not> promotes E sg" by auto
  qed
  then show ?case by (simp add: window_inv_def job_win_def)
qed (auto simp: window_inv_def guarded_keys guarded_empty intro!: guarded_resolves [OF _ confirm_locked_effect] guarded_resolves [OF _ Rollback_effect]
    guarded_resolves [OF _ autoRollback_effect] guarded_resolves [OF _ onHoldExpired_effect] guarded_resolves [OF _ continue_effect]
    guarded_resolves [OF _ abort_effect])

interpretation window: transition_system coord_step window_inv
  by unfold_locales (rule window_step)

end
