(* ===== verification/Coord_Restore.thy ===== *)
theory Coord_Restore
  imports Coord_System
begin

text \<open>
  What a rollback by the coordinator does to the nodes: the restore of the files from the snapshot of
  before, in both of its forms, and the path of the plan and of the snapshot from the start of an
  apply to the rollback that reads them back from the store.
\<close>

section \<open>Restoring the nodes\<close>

definition restore_failed :: "string \<Rightarrow> RollbackLog list \<Rightarrow> bool" where
  "restore_failed n logs \<longleftrightarrow> (\<exists>l \<in> set logs. rb_Node l = n \<and> rb_Status l = StepFailed)"

lemma restore_failed_Cons: "restore_failed n (l # ls) \<longleftrightarrow> rb_Node l = n \<and> rb_Status l = StepFailed \<or> restore_failed n ls"
  by (auto simp: restore_failed_def)

lemma restore_failed_append: "restore_failed n (ls @ ms) \<longleftrightarrow> restore_failed n ls \<or> restore_failed n ms"
  by (auto simp: restore_failed_def)

text \<open>The nodes after a restore: as in the snapshot or with a failed entry, and the others untouched.\<close>

definition restored :: "('w \<Rightarrow> string \<Rightarrow> string option) \<Rightarrow> pre_snapshot \<Rightarrow> string set \<Rightarrow> 'w \<Rightarrow> 'w \<Rightarrow> RollbackLog list \<Rightarrow> bool" where
  "restored committed pre ns w w' logs \<longleftrightarrow>
     (\<forall>n. n \<notin> ns \<longrightarrow> committed w' n = committed w n) \<and>
     (\<forall>n \<in> ns. committed w' n = Some (pre_by_node pre n) \<or> committed w' n = committed w n \<and> restore_failed n logs)"

lemma wipe_row:
  assumes "st_rows st k = Some r"
  shows "\<exists>r'. st_rows (wipeRevertTicket s i st) k = Some r' \<and> row_Status r' = row_Status r \<and> row_ApplyLog r' = row_ApplyLog r"
  using assms by (cases "st_rows st i") (auto simp: wipeRevertTicket_def WipeRevertTicket_def)

context restorable_nodes
begin

lemma restored_Cons:
  assumes "restoreNode agent n (pre_by_node pre n) w = (err, w1)" "sound w" "restored committed pre ns w1 w' logs" "n \<notin> ns"
    and "rb_Node l = n" "rb_Status l = (if err = None then StepOK else StepFailed)"
  shows "restored committed pre (insert n ns) w w' (l # logs)"
proof -
  have w1: "committed w1 = (if err = None then (committed w)(n := Some (pre_by_node pre n)) else committed w)"
    using restoreNode_law [OF assms(1,2)] by simp
  have m: "committed w1 m = committed w m" if "m \<noteq> n" for m using w1 that by simp
  have "committed w' n = committed w1 n" using assms(3,4) by (simp add: restored_def)
  then have "committed w' n = Some (pre_by_node pre n) \<or> committed w' n = committed w n \<and> restore_failed n (l # logs)"
    using w1 assms(5,6) by (auto simp: restore_failed_Cons)
  moreover have "committed w' k = Some (pre_by_node pre k) \<or> committed w' k = committed w k \<and> restore_failed k (l # logs)" if k: "k \<in> ns" for k
  proof -
    have "committed w1 k = committed w k" using m [of k] k assms(4) by blast
    then show ?thesis using assms(3) k by (auto simp: restored_def restore_failed_Cons)
  qed
  ultimately show ?thesis
    using assms(3) m by (auto simp: restored_def)
qed

lemma restore_list_law:
  assumes "restore_list agent pre ns w = ((logs, f), w')" "sound w" "distinct ns"
  shows "sound w' \<and> restored committed pre (set ns) w w' logs"
  using assms
proof (induction ns arbitrary: w logs f w')
  case (Cons n ns)
  obtain err w1 where r: "restoreNode agent n (pre_by_node pre n) w = (err, w1)" by fastforce
  obtain logs1 f1 w2 where l: "restore_list agent pre ns w1 = ((logs1, f1), w2)" by (metis prod.collapse)
  have s: "sound w1" using restoreNode_law [OF r Cons.prems(2)] by simp
  have "sound w2 \<and> restored committed pre (set ns) w1 w2 logs1" using Cons.IH [OF l s] Cons.prems(3) by simp
  with restored_Cons [OF r Cons.prems(2), of "set ns" w2 logs1] Cons.prems r l show ?case
    by (auto simp: rollback_entry_def)
qed (simp add: restored_def)

lemma restore_distributed_law:
  assumes "restore_list_distributed agent now pre ns w = ((logs, ts, f), w')" "sound w" "distinct ns"
  shows "sound w' \<and> restored committed pre (set ns) w w' logs"
  using assms
proof (induction ns arbitrary: w logs ts f w')
  case (Cons n ns)
  obtain err w1 where r: "restoreNode agent n (pre_by_node pre n) w = (err, w1)" by fastforce
  obtain logs1 ts1 f1 w2 where l: "restore_list_distributed agent now pre ns w1 = ((logs1, ts1, f1), w2)" by (metis prod.collapse)
  have s: "sound w1" using restoreNode_law [OF r Cons.prems(2)] by simp
  have "sound w2 \<and> restored committed pre (set ns) w1 w2 logs1" using Cons.IH [OF l s] Cons.prems(3) by simp
  with restored_Cons [OF r Cons.prems(2), of "set ns" w2 logs1] Cons.prems r l show ?case
    by (auto simp: restore_log_def rollback_entry_def)
qed (simp add: restored_def)

lemma restore_everything_law:
  assumes "restore_everything E gw plan pre c = (out, c')" "xe_agent (ce_exec E) = agent" "sound (cd_w c)"
  shows "sound (cd_w c') \<and> restored committed pre (set (affectedNodes plan)) (cd_w c) (cd_w c') (ro_logs out)"
proof -
  have d: "distinct (rev (affectedNodes plan))" by (simp add: affectedNodes_def)
  obtain logs ts f w where n: "(if nodeTimers E then restoreAllDistributed E plan pre (cd_w c)
      else case restoreAll E plan pre (cd_w c) of ((logs, f), w) \<Rightarrow> ((logs, [], f), w)) = ((logs, ts, f), w)" by (metis prod.collapse)
  obtain pve r1 where p: "restore_pve E gw plan pre (cd_r c) = (pve, r1)" by fastforce
  obtain rest r2 where q: "restore_daemon E plan pre r1 = (rest, r2)" by fastforce
  have out: "ro_logs out = logs @ pve @ rest" "cd_w c' = w"
    using assms(1) n p q by (auto simp: restore_everything_def)
  have "sound w \<and> restored committed pre (set (rev (affectedNodes plan))) (cd_w c) w logs"
  proof (cases "nodeTimers E")
    case True
    then have "restore_list_distributed agent (ce_now E) pre (rev (affectedNodes plan)) (cd_w c) = ((logs, ts, f), w)"
      using n assms(2) by (simp add: restoreAllDistributed_def)
    from restore_distributed_law [OF this assms(3) d] show ?thesis .
  next
    case False
    then have "restore_list agent pre (rev (affectedNodes plan)) (cd_w c) = ((logs, f), w)"
      using n assms(2) by (auto simp: restoreAll_def split: prod.splits)
    from restore_list_law [OF this assms(3) d] show ?thesis .
  qed
  then show ?thesis by (auto simp: restored_def out restore_failed_append)
qed

text \<open>A rollback with its snapshot at hand: the nodes of its plan, and the log it stores.\<close>

lemma doRollback_restores:
  assumes "doRollbackScopedLocked E actor gw restrict cs c = ((err, cs'), c')" "store_up E" "ce_snap_read_ok E"
    "xe_agent (ce_exec E) = agent" "sound (cd_w c)" "cd_pre c (ch_ID cs) = Some pre"
    "rowv (cd_st c) (ch_ID cs) \<noteq> None" "ch_Status cs \<in> in_flight"
  shows "\<exists>r l. st_rows (cd_st c') (ch_ID cs) = Some r \<and> row_Status r \<in> {StatusRolledBack, StatusFailed} \<and>
    row_ApplyLog r = jc_marshalLog (ce_codec E) l \<and>
    restored committed pre (set (affectedNodes (rollback_plan E restrict cs))) (cd_w c) (cd_w c') (al_Rollback l)"
proof -
  let ?plan = "rollback_plan E restrict cs" and ?start = "disarmAutoRollback (ch_ID cs) c"
  obtain g c1 where g: "rollback_gateway E gw ?plan (ch_ID cs) ?start = (g, c1)" by fastforce
  have f1: "cd_w c1 = cd_w c" "cd_pre c1 = cd_pre c"
    using g by (auto simp: rollback_gateway_def revertGatewayFor_def wipe_ticket_def upd_st_def disarmAutoRollback_def
        split: option.splits sum.splits if_splits)
  have v1: "view c1 = view c" using rollback_gateway_view [of E gw ?plan "ch_ID cs" ?start] g by simp
  obtain out c2 where r: "restore_everything E g ?plan pre c1 = (out, c2)" by fastforce
  have law: "restored committed pre (set (affectedNodes ?plan)) (cd_w c) (cd_w c2) (ro_logs out)"
    using restore_everything_law [OF r assms(4)] assms(5) f1 by simp
  have v2: "view c2 = view c" using restore_everything_view [of E g ?plan pre c1] r v1 by simp
  let ?l = "rollback_log actor out (decodeApplyLog (ce_codec E) (ch_ApplyLog cs))"
  let ?cs = "cs\<lparr>ch_ApplyLog := jc_marshalLog (ce_codec E) ?l, ch_ConfirmDeadline := None,
    ch_Status := rollback_target (ro_failed out), ch_UpdatedAt := ce_now E\<rparr>"
  have fr: "finish_rollback E actor out cs c2 = ((err, cs'), c')"
    using assms(1,3,6) g r f1 by (simp add: doRollbackScopedLocked_def Let_def loadPreSnapshot_def)
  have tt: "try_transition (rollback_target (ro_failed out)) (ce_now E)
      (cs\<lparr>ch_ApplyLog := jc_marshalLog (ce_codec E) ?l, ch_ConfirmDeadline := None\<rparr>) = ?cs"
    using assms(8) by (subst try_transition_in_flight) (auto simp: rollback_target_def)
  have "rowv (cd_st c2) (ch_ID cs) \<noteq> None" using assms(7) view_proj(1) [OF v2] by simp
  then obtain old where old: "st_rows (cd_st c2) (ch_ID cs) = Some old" by (auto simp: rowv_def)
  let ?c3 = "c2\<lparr>cd_st := (cd_st c2)\<lparr>st_rows := (st_rows (cd_st c2))(ch_ID cs \<mapsto> row_upd old ?cs)\<rparr>\<rparr>"
  have p: "persist_cs E ?cs c2 = (None, ?c3)"
    using old assms(2) by (simp add: persist_cs_def persist_changeset_def repo_Update_def toStoreRow_def row_upd_def store_up_def)
  have c': "c' = audit E actor ''changeset.rollback'' (if ro_failed out then ''rollback_incomplete'' else ''rolled_back'') (ch_ID cs)
      (broadcast E (?cs\<lparr>ch_RevertTicketExpiresAt := 0\<rparr>) (release_lock (wipe_ticket E (ch_ID cs) ?c3)))"
    using fr p tt by (auto simp: finish_rollback_def Let_def)
  have w: "cd_w c' = cd_w c2"
    by (simp add: c' audit_def broadcast_def release_lock_def wipe_ticket_def upd_st_def)
  have "st_rows (cd_st c') = st_rows (wipeRevertTicket (ce_svc E) (ch_ID cs) (cd_st ?c3))"
    by (simp add: c' audit_def broadcast_def release_lock_def wipe_ticket_def upd_st_def)
  moreover have "st_rows (cd_st ?c3) (ch_ID cs) = Some (row_upd old ?cs)" by simp
  ultimately obtain r' where r': "st_rows (cd_st c') (ch_ID cs) = Some r'" "row_Status r' = rollback_target (ro_failed out)"
    "row_ApplyLog r' = jc_marshalLog (ce_codec E) ?l"
    using wipe_row [of "cd_st ?c3" "ch_ID cs" "row_upd old ?cs" "ce_svc E" "ch_ID cs"] by (auto simp: row_upd_def)
  have "restored committed pre (set (affectedNodes ?plan)) (cd_w c) (cd_w c') (al_Rollback ?l)"
    using law by (auto simp: restored_def w rollback_log_def restore_failed_append)
  with r' show ?thesis by (intro exI [of _ r'] exI [of _ ?l]) (simp add: rollback_target_def)
qed

end


section \<open>The run inside an apply\<close>

lemma armAutoRollback_frame [simp]:
  "cd_w (armAutoRollback E author opt cs c) = cd_w c" "cd_r (armAutoRollback E author opt cs c) = cd_r c"
  "cd_pre (armAutoRollback E author opt cs c) = cd_pre c"
  by (simp_all add: armAutoRollback_def Let_def audit_def upd_st_def disarmAutoRollback_def split: prod.splits)

lemma seal_frame:
  assumes "sealRevertTicket E i plan deadline c = (u, c')"
  shows "cd_w c' = cd_w c \<and> cd_r c' = cd_r c \<and> cd_pre c' = cd_pre c"
  using assms by (auto simp: sealRevertTicket_def split: option.splits sum.splits if_splits)

text \<open>An apply that is not staged runs the plan as the executor does, and keeps the snapshot of before.\<close>

lemma apply_execute_runs:
  assumes "\<not> IsCanary strategy" "apply_execute E author opt cs plan strategy deadline c = (res, c')"
  shows "\<exists>err l. apply_plan (ce_exec E) (ch_ID cs) (ch_Ops cs) plan deadline (cd_w c) (cd_r c) = (err, l, cd_w c', cd_r c') \<and>
      res = (case err of Some e \<Rightarrow> Inl (e, l) | None \<Rightarrow> Inr l)"
    "res = Inr l \<Longrightarrow> \<exists>pre w r. captureSnapshotFull (ce_exec E) plan (cd_w c) (cd_r c) = (Inr pre, w, r) \<and>
      cd_pre c' = (cd_pre c)(ch_ID cs \<mapsto> pre)"
proof -
  let ?a = "armAutoRollback E author opt cs c"
  obtain y w r where y: "captureSnapshotFull (ce_exec E) plan (cd_w c) (cd_r c) = (y, w, r)" by (metis prod_cases3)
  have "(\<exists>err l. apply_plan (ce_exec E) (ch_ID cs) (ch_Ops cs) plan deadline (cd_w c) (cd_r c) = (err, l, cd_w c', cd_r c') \<and>
      res = (case err of Some e \<Rightarrow> Inl (e, l) | None \<Rightarrow> Inr l)) \<and>
    (\<forall>l. res = Inr l \<longrightarrow> (\<exists>pre. y = Inr pre \<and> cd_pre c' = (cd_pre c)(ch_ID cs \<mapsto> pre)))"
  proof (cases y)
    case (Inl e)
    then show ?thesis using assms y by (auto simp: apply_execute_def take_snapshot_def apply_plan_def Let_def)
  next
    case (Inr pre)
    let ?t = "?a\<lparr>cd_w := w, cd_r := r, cd_pre := (cd_pre c)(ch_ID cs \<mapsto> pre)\<rparr>"
    obtain u c2 where k: "sealRevertTicket E (ch_ID cs) plan deadline ?t = (u, c2)" by fastforce
    note f = seal_frame [OF k]
    obtain err e' w' r' where run: "run (ce_exec E) (newExecutor (ch_ID cs) (ch_Ops cs) plan pre deadline, w, r) = (err, e', w', r')"
      by (metis prod_cases4)
    show ?thesis
      using assms y Inr k f run
      by (cases err) (auto simp: apply_execute_def take_snapshot_def apply_plan_def Let_def)
  qed
  with y show "\<exists>err l. apply_plan (ce_exec E) (ch_ID cs) (ch_Ops cs) plan deadline (cd_w c) (cd_r c) = (err, l, cd_w c', cd_r c') \<and>
      res = (case err of Some e \<Rightarrow> Inl (e, l) | None \<Rightarrow> Inr l)"
    "res = Inr l \<Longrightarrow> \<exists>pre w r. captureSnapshotFull (ce_exec E) plan (cd_w c) (cd_r c) = (Inr pre, w, r) \<and>
      cd_pre c' = (cd_pre c)(ch_ID cs \<mapsto> pre)" by auto
qed


section \<open>From an apply to its rollback\<close>

lemma apply_enter_plan:
  assumes "apply_enter E i author timeout strategy c = (Inr (cs, plan, strategy'), c')" "keys_ok (cd_st c)"
  shows "BuildPlan (ch_Ops cs) = Inr plan" "ch_Plan cs = jc_marshalPlan (ce_codec E) plan"
    "c' = c\<lparr>cd_st := cd_st c'\<rparr>" "validateApplyStrategy E strategy plan timeout = Inr strategy'"
proof -
  from assms(1) obtain st where b: "beginApply (ce_svc E) (plan_gates E strategy timeout) i author (cd_st c) = (Inr (cs, plan), st)"
    and c': "c' = c\<lparr>cd_st := st\<rparr>" and v: "validateApplyStrategy E strategy plan timeout = Inr strategy'"
    by (auto simp: apply_enter_def split: prod.splits sum.splits)
  obtain r st2 where e: "enter_applying (ce_svc E) (plan_gates E strategy timeout) i author
      ((fromStoreRow r)\<lparr>ch_Findings := revalidation (ce_svc E) (fromStoreRow r)\<rparr>) st2 = (Inr (cs, plan), st)"
    using beginApply_Inr [OF b] by metis
  note n = enter_applying_Inr [OF e]
  show "BuildPlan (ch_Ops cs) = Inr plan" "ch_Plan cs = jc_marshalPlan (ce_codec E) plan"
    using n by (auto simp: plan_gates_def split: sum.splits)
  show "c' = c\<lparr>cd_st := cd_st c'\<rparr>" "validateApplyStrategy E strategy plan timeout = Inr strategy'" using c' v by simp_all
qed

lemma not_canary:
  assumes "validateApplyStrategy E s plan t = Inr s'" "as_Mode s \<noteq> ApplyModeCanary"
  shows "\<not> IsCanary s'"
  using assms by (auto simp: validateApplyStrategy_def IsCanary_def all_strategy_def split: ApplyMode.splits if_splits)

lemma finishAwaitingConfirm_row:
  assumes "store_up E" "rowv (cd_st c) (ch_ID cs) \<noteq> None" "ch_Status cs = StatusApplying"
    "finishAwaitingConfirm E author cs plan l deadline c = (out, c')"
  shows "\<exists>r cs'. st_rows (cd_st c') (ch_ID cs) = Some r \<and> row_Plan r = ch_Plan cs \<and> row_Ops r = ch_Ops cs \<and>
    out = (None, Some cs') \<and> ch_Ops cs' = ch_Ops cs \<and> ch_ConfirmDeadline cs' = Some deadline \<and> cd_pre c' = cd_pre c \<and> cd_w c' = cd_w c"
proof -
  obtain old where "st_rows (cd_st c) (ch_ID cs) = Some old" using assms(2) by (auto simp: rowv_def)
  then show ?thesis
    using assms by (auto simp: finishAwaitingConfirm_def Let_def Transition_def CanTransition_def persist_cs_def persist_changeset_def
        repo_Update_def toStoreRow_def row_upd_def store_up_def audit_def broadcast_def armTimerLocked_def upd_st_def)
qed

text \<open>What a successful apply leaves behind for its rollback.\<close>

lemma ApplyWithOptions_awaiting:
  assumes "ApplyWithOptions E E' i author timeout strategy opt c = ((None, Some cs), c1)" "as_Mode strategy \<noteq> ApplyModeCanary"
    "store_up E'" "keys_ok (cd_st c)"
  shows "\<exists>plan pre w r row. BuildPlan (ch_Ops cs) = Inr plan \<and> captureSnapshotFull (ce_exec E) plan (cd_w c) (cd_r c) = (Inr pre, w, r) \<and>
    cd_pre c1 i = Some pre \<and> st_rows (cd_st c1) i = Some row \<and> row_Plan row = jc_marshalPlan (ce_codec E) plan \<and>
    rowv (cd_st c1) i = Some (StatusAwaitingConfirm, Some (ce_now E + confirm_timeout E timeout)) \<and>
    cd_timers c1 i = Some (ce_now E + confirm_timeout E timeout) \<and> keys_ok (cd_st c1) \<and>
    ch_ConfirmDeadline cs = Some (ce_now E + confirm_timeout E timeout)"
proof -
  let ?t = "confirm_timeout E timeout"
  let ?d = "ce_now E + ?t"
  have ac: "ce_applyConfigured E" using assms(1) by (auto simp: ApplyWithOptions_def split: if_splits)
  obtain cs0 plan strategy' c0 where e: "apply_enter E i author ?t strategy c = (Inr (cs0, plan, strategy'), c0)"
    using assms(1) ac by (cases "apply_enter E i author ?t strategy c") (auto simp: ApplyWithOptions_def Let_def split: sum.splits)
  note p = apply_enter_plan [OF e assms(4)] and n = apply_enter_Inr [OF e assms(4)]
  have nc: "\<not> IsCanary strategy'" using not_canary [OF p(4) assms(2)] .
  obtain res c2 where x: "apply_execute E author opt cs0 plan strategy' ?d c0 = (res, c2)" by fastforce
  have fin: "apply_finish E' author cs0 plan strategy' ?d res c2 = ((None, Some cs), c1)"
    using assms(1) ac e x by (simp add: ApplyWithOptions_def Let_def)
  then obtain l where l: "res = Inr l" by (cases res) (auto simp: apply_finish_def finishFailedApply_def Let_def)
  have f: "finishAwaitingConfirm E' author cs0 plan l ?d c2 = ((None, Some cs), c1)" using fin l nc by (simp add: apply_finish_def)
  obtain pre w r where pre: "captureSnapshotFull (ce_exec E) plan (cd_w c0) (cd_r c0) = (Inr pre, w, r)" "cd_pre c2 = (cd_pre c0)(i \<mapsto> pre)"
    using apply_execute_runs(2) [OF nc x l] n(3) by auto
  have w0: "cd_w c0 = cd_w c" "cd_r c0 = cd_r c" using arg_cong [OF p(3), of cd_w] arg_cong [OF p(3), of cd_r] by simp_all
  have v2: "view c2 = view c0" using apply_execute_view [of E author opt cs0 plan strategy' ?d c0] x by simp
  obtain d where v0: "view c0 = (view c)\<lparr>wn_rows := (rowv (cd_st c))(i \<mapsto> (StatusApplying, d)), wn_lock := i\<rparr>" using n(5) by blast
  have r2: "rowv (cd_st c2) (ch_ID cs0) \<noteq> None" using view_proj(1) [OF v2] view_proj(1) [OF v0] n(3) by simp
  note fv = finishAwaitingConfirm_view [OF assms(3) r2 n(4), of author plan l ?d]
  have v1: "view c1 = (view c2)\<lparr>wn_rows := (rowv (cd_st c2))(i \<mapsto> (StatusAwaitingConfirm, Some ?d)), wn_timers := (cd_timers c2)(i \<mapsto> ?d)\<rparr>"
    using fv f n(3) by simp
  have k1: "keys_ok (cd_st c1)" using view_proj(6) [OF v1] view_proj(6) [OF v2] view_proj(6) [OF v0] assms(4) by simp
  obtain row where row: "st_rows (cd_st c1) i = Some row" "row_Plan row = ch_Plan cs0" "ch_Ops cs = ch_Ops cs0"
    "ch_ConfirmDeadline cs = Some ?d" "cd_pre c1 = cd_pre c2"
    using finishAwaitingConfirm_row [OF assms(3) r2 n(4) f] n(3) by auto
  have "rowv (cd_st c1) i = Some (StatusAwaitingConfirm, Some ?d)" "cd_timers c1 i = Some ?d"
    using view_proj(1,3) [OF v1] by simp_all
  with p pre row k1 w0 show ?thesis by auto
qed

end
