(* ===== verification/Coord_Props.thy ===== *)
theory Coord_Props
  imports Coord_Restore
begin

text \<open>
  What the coordinator promises: the confirm window is guarded in every state that is reached, a
  window that nobody confirms is undone, and the strategies, holds and findings that may end it
  early. Three theorems show interleavings in which a promise fails.
\<close>

section \<open>An example coordinator\<close>

definition ex_codec :: json_codec where
  "ex_codec = \<lparr> jc_marshalPlan = (\<lambda>_. ''p''), jc_unmarshalPlan = (\<lambda>_. ex_two_nodes), jc_marshalLog = (\<lambda>_. ''l''),
     jc_unmarshalLog = (\<lambda>_. empty_log), jc_marshalTicket = (\<lambda>_. ''t''), jc_unmarshalTicket = (\<lambda>_. None) \<rparr>"

definition xc_svc :: "int \<Rightarrow> unit plan_params change_svc" where
  "xc_svc now = \<lparr> sv_now = now, sv_newULID = (\<lambda>n. ''id'' @ replicate n CHR ''x''), sv_localClusterID = [],
     sv_inputs = ex_valid_inputs, sv_sealer = None, sv_allowDangerousOps = False,
     sv_ws = True, sv_read_ok = True, sv_write_ok = True, sv_audit_ok = True, sv_wipe_ok = True,
     sv_comments = Some True, sv_approvals = Some True, sv_signoffs = Some True, sv_acks = Some True \<rparr>"

definition xc_gates :: "(unit plan_params, Plan) apply_gates" where
  "xc_gates = \<lparr> ag_approvalRequired = False, ag_approval_read_ok = True, ag_protectedClasses = False,
     ag_matchedClasses = (\<lambda>_. Inr []), ag_signoff_read_ok = True,
     ag_breakGlass = Map.empty, ag_fingerprint = (\<lambda>_. []), ag_BuildPlan = (\<lambda>_. None), ag_hasSDN = (\<lambda>_. False),
     ag_foreign = None, ag_ack_read_ok = True, ag_affectedNodes = (\<lambda>_. []), ag_incompatible = (\<lambda>_. False),
     ag_strategy_ok = (\<lambda>_. True), ag_marshalPlan = (\<lambda>_. []) \<rparr>"

definition xc_env :: "int \<Rightarrow> (unit, node_world, unit) coord_env" where
  "xc_env now = \<lparr> ce_svc = xc_svc now, ce_gates = xc_gates, ce_exec = on_nodes ex_env,
     ce_CancelTimer = (\<lambda>_ _ w. (Inl (TStore ErrTimerNotFound), w)), ce_TimerStatus = (\<lambda>_ _ w. (Inl (TStore ErrTimerNotFound), w)),
     ce_codec = ex_codec, ce_applyConfigured = True, ce_mayLead = True, ce_confirmTimeout = 120, ce_rollbackWindowDays = 7,
     ce_restoringOps = (\<lambda>_. Inr []), ce_snap_read_ok = True, ce_ticket = None, ce_unsealer = None, ce_revertGateways = None,
     ce_seal_ok = True, ce_stages = Some True, ce_stage_read_ok = True,
     ce_canary = Some (\<lambda>_ _. Some \<lparr> cv_Healthy = True, cv_Findings = [] \<rparr>), ce_autoRollbackDefault = False,
     ce_impact = (\<lambda>_. ([], [])), ce_order = [''cs1''] \<rparr>"

definition xc_row :: "Status \<Rightarrow> unit plan_params ChangesetRow" where
  "xc_row status = \<lparr> row_ID = ''cs1'', row_Title = ''t'', row_Author = ''ann'', row_Status = status,
     row_ClusterID = [], row_Origin = [], row_OriginTokenID = [], row_OriginTool = [],
     row_Ops = ex_two_ops, row_Findings = [], row_Plan = [], row_ApplyLog = [], row_ConfirmDeadline = None,
     row_RevertTicketEnc = None, row_RevertTicketExpiresAt = None, row_CreatedAt = 1, row_UpdatedAt = 1 \<rparr>"

definition xc_start :: "(unit, node_world, unit) coord" where
  "xc_start = \<lparr> cd_st = empty_store\<lparr>st_rows := [''cs1'' \<mapsto> xc_row StatusDraft]\<rparr>, cd_timers = Map.empty, cd_holds = Map.empty,
     cd_stages = Map.empty, cd_guards = [], cd_lastFindings = None, cd_pre = Map.empty, cd_post = Map.empty,
     cd_w = ex_world 99, cd_r = () \<rparr>"

definition xc_canary :: ApplyStrategy where
  "xc_canary = \<lparr> as_Mode = ApplyModeCanary, as_Gate = ApplyGateAuto, as_CanaryNodes = [''pve1''], as_HoldForSec = 60 \<rparr>"

lemmas xc_simps = xc_svc_def xc_gates_def xc_env_def xc_row_def xc_start_def xc_canary_def ex_codec_def empty_store_def

lemma xc_up: "store_up (xc_env now)"
  by (simp add: store_up_def xc_simps)

lemma xc_strategy:
  "validateApplyStrategy (xc_env now) all_strategy ex_two_nodes 120 = Inr all_strategy"
  "validateApplyStrategy (xc_env now) xc_canary ex_two_nodes 120 = Inr xc_canary"
  by code_simp+

lemma xc_no_sdn: "\<not> hasSDN ex_two_nodes" "\<not> needsRevertTicket ex_two_nodes"
  by code_simp+

lemma xc_enter:
  assumes "validateApplyStrategy (xc_env 100) s ex_two_nodes 120 = Inr s'"
  shows "\<exists>cs c. apply_enter (xc_env 100) ''cs1'' ''ann'' 120 s xc_start = (Inr (cs, ex_two_nodes, s'), c) \<and>
    c = xc_start\<lparr>cd_st := cd_st c\<rparr> \<and> ch_ID cs = ''cs1'' \<and> ch_Ops cs = ex_two_ops"
  using assms
  by (simp add: apply_enter_def plan_gates_def apply_simps xc_simps ex_two_plan xc_no_sdn)

lemma xc_capture:
  "\<exists>pre w. captureSnapshotFull (on_nodes ex_env) ex_two_nodes (ex_world 99) () = (Inr pre, w, ()) \<and>
     ps_files pre = [(''pve1'', ''old''), (''pve2'', ''old'')]"
  by (simp add: ex_apply_simps)

lemma xc_execute:
  assumes "cd_w c = ex_world 99" "ch_ID cs = ''cs1''"
  shows "\<exists>l c'. apply_execute (xc_env 100) ''ann'' None cs ex_two_nodes all_strategy 220 c = (Inr l, c')"
proof -
  obtain res c' where x: "apply_execute (xc_env 100) ''ann'' None cs ex_two_nodes all_strategy 220 c = (res, c')" by fastforce
  have "\<not> IsCanary all_strategy" by (simp add: IsCanary_def all_strategy_def)
  from apply_execute_runs(1) [OF this x] obtain err l where
    "apply_plan (on_nodes ex_env) ''cs1'' (ch_Ops cs) ex_two_nodes 220 (ex_world 99) () = (err, l, cd_w c', cd_r c')"
    "res = (case err of Some e \<Rightarrow> Inl (e, l) | None \<Rightarrow> Inr l)"
    using assms by (auto simp: xc_env_def)
  with ex_apply_ok [of "ch_Ops cs"] x show ?thesis by auto
qed

lemma xc_applied:
  "\<exists>c. coord_step\<^sup>*\<^sup>* (xc_start, None) (c, None) \<and> rowv (cd_st c) ''cs1'' = Some (StatusAwaitingConfirm, Some 220) \<and> cd_stages c ''cs1'' = None"
proof -
  obtain cs c1 where e: "apply_enter (xc_env 100) ''cs1'' ''ann'' 120 all_strategy xc_start = (Inr (cs, ex_two_nodes, all_strategy), c1)"
    and c1: "c1 = xc_start\<lparr>cd_st := cd_st c1\<rparr>" "ch_ID cs = ''cs1''"
    using xc_enter [OF xc_strategy(1)] by blast
  have k: "keys_ok (cd_st xc_start)" by (simp add: keys_ok_def xc_simps)
  note en = apply_enter_Inr [OF e k]
  let ?j = "\<lparr> jb_cs = cs, jb_plan = ex_two_nodes, jb_strategy = all_strategy, jb_deadline = 220 \<rparr>"
  have s1: "coord_step (xc_start, None) (c1, Some ?j)"
    using coord_step.Enter [OF xc_up e] by (simp add: xc_env_def xc_svc_def)
  have "cd_w c1 = ex_world 99" using arg_cong [OF c1(1), of cd_w] by (simp add: xc_start_def)
  then obtain l c2 where x: "apply_execute (xc_env 100) ''ann'' None cs ex_two_nodes all_strategy 220 c1 = (Inr l, c2)"
    using xc_execute c1(2) by blast
  let ?c3 = "snd (apply_finish (xc_env 110) ''ann'' cs ex_two_nodes all_strategy 220 (Inr l) c2)"
  have s2: "coord_step (c1, Some ?j) (?c3, None)"
    using coord_step.Finish [OF xc_up, of "xc_env 100" "''ann''" None ?j c1 "Inr l" c2 110 ] x by simp
  have v2: "view c2 = view c1"
    using apply_execute_view [of "xc_env 100" "''ann''" None cs ex_two_nodes all_strategy 220 c1] x by simp
  obtain d where v1: "view c1 = (view xc_start)\<lparr>wn_rows := (rowv (cd_st xc_start))(''cs1'' \<mapsto> (StatusApplying, d)), wn_lock := ''cs1''\<rparr>"
    using en(5) by blast
  have r2: "rowv (cd_st c2) ''cs1'' \<noteq> None" using view_proj(1) [OF v2] view_proj(1) [OF v1] by simp
  have "view ?c3 = (view c2)\<lparr>wn_rows := (rowv (cd_st c2))(ch_ID cs \<mapsto> (StatusAwaitingConfirm, Some 220)), wn_timers := (cd_timers c2)(ch_ID cs \<mapsto> 220)\<rparr>"
    using finishAwaitingConfirm_view [OF xc_up, of c2 cs] r2 en(3,4) by (simp add: apply_finish_def IsCanary_def all_strategy_def)
  note p3 = view_proj [OF this]
  have "rowv (cd_st ?c3) ''cs1'' = Some (StatusAwaitingConfirm, Some 220)" using p3(1) c1(2) by simp
  moreover have "cd_stages ?c3 ''cs1'' = None" using p3(5) view_proj(5) [OF v2] view_proj(5) [OF v1] by (simp add: xc_start_def)
  ultimately show ?thesis using s1 s2 by (meson converse_rtranclp_into_rtranclp rtranclp.rtrancl_refl)
qed


section \<open>The window is guarded\<close>

text \<open>Where a coordinator starts: nothing in flight, no pause, no lock.\<close>

definition idle :: "('q, 'w, 'r) coord \<Rightarrow> bool" where
  "idle c \<longleftrightarrow> keys_ok (cd_st c) \<and> st_rows (cd_st c) [] = None \<and> st_lockHeldBy (cd_st c) = [] \<and> cd_stages c = Map.empty \<and>
     (\<forall>i r. st_rows (cd_st c) i = Some r \<longrightarrow> row_Status r \<notin> in_flight)"

lemma idle_window: "idle c \<Longrightarrow> window_inv (c, None)"
  by (auto simp: idle_def window_inv_def job_win_def guarded_win_def rowv_def)

lemma reached_guarded:
  assumes "idle c0" "coord_step\<^sup>*\<^sup>* (c0, None) (c, j)"
  shows "guarded_win (job_win j) (view c)"
  using window.reach_inv [OF assms(2) idle_window [OF assms(1)]] by (simp add: window_inv_def)

lemma rowvI: "st_rows st i = Some r \<Longrightarrow> rowv st i = Some (row_Status r, row_ConfirmDeadline r)"
  by (simp add: rowv_def)

lemma xc_idle: "idle xc_start"
  by (auto simp: idle_def keys_ok_def xc_simps in_flight_def)

text \<open>
  C3. The confirm window is guarded in every state that \<open>coord_step\<close> reaches, through any interleaving of
  calls, timers, findings, drafts and restarts, as long as the store answers, this daemon leads and the
  calls that \<open>coord_step\<close> takes as one step are not interrupted. A changeset that awaits its confirmation has a stored
  deadline, and the coordinator's timer for it is armed with exactly that deadline. A changeset that is
  applying is either the one whose steps are running right now, or it is paused: its stage row is a
  hold, the hold timer is armed with the hold's deadline, and that is not after the deadline of the window.
\<close>

theorem window_guarded:
  assumes "idle c0" "coord_step\<^sup>*\<^sup>* (c0, None) (c, j)" "st_rows (cd_st c) i = Some r"
  shows "case row_Status r of
      StatusAwaitingConfirm \<Rightarrow> \<exists>d. row_ConfirmDeadline r = Some d \<and> cd_timers c i = Some d
    | StatusApplying \<Rightarrow> (\<exists>b. j = Some b \<and> ch_ID (jb_cs b) = i) \<or>
        (\<exists>sg d. cd_stages c i = Some sg \<and> sg_State sg = StageCanaryHold \<and> cd_holds c i = Some (sg_HoldDeadline sg) \<and>
           row_ConfirmDeadline r = Some d \<and> sg_ConfirmDeadline sg = d \<and> sg_HoldDeadline sg \<le> d)
    | _ \<Rightarrow> True"
proof -
  note g = guarded_row [OF reached_guarded [OF assms(1,2)], of i "row_Status r" "row_ConfirmDeadline r"]
  show ?thesis
    using g rowvI [OF assms(3)] by (auto simp: in_flight_def bounded_def job_win_def split: Status.split)
qed

theorem window_guarded_witness:
  "\<exists>c r. coord_step\<^sup>*\<^sup>* (xc_start, None) (c, None) \<and> st_rows (cd_st c) ''cs1'' = Some r \<and>
     row_Status r = StatusAwaitingConfirm \<and> cd_timers c ''cs1'' = Some 220"
proof -
  obtain c where c: "coord_step\<^sup>*\<^sup>* (xc_start, None) (c, None)" "rowv (cd_st c) ''cs1'' = Some (StatusAwaitingConfirm, Some 220)"
    using xc_applied by blast
  then obtain r where r: "st_rows (cd_st c) ''cs1'' = Some r" "row_Status r = StatusAwaitingConfirm" "row_ConfirmDeadline r = Some 220"
    by (auto dest: rowvD)
  with window_guarded [OF xc_idle c(1) r(1)] c(1) show ?thesis by auto
qed

text \<open>
  C5. One at a time, within the runs of \<open>coord_step\<close>: the store answers, this daemon leads, a call that
  promotes a pause is not interrupted, and no restart promotes a hold that ended while the daemon was
  down. In every state these runs reach, the apply lock is taken exactly while a changeset is applying
  or awaiting its confirmation, its holder is that changeset, and there is only one of them. Outside of
  them the program does not keep it: \<open>recovery_promotes_unlocked\<close> and \<open>abort_overwritten_by_promotion\<close> in
  \<open>Coord_Gaps\<close> end with a changeset that awaits its confirmation while the lock is free.
\<close>

theorem one_in_flight:
  assumes "idle c0" "coord_step\<^sup>*\<^sup>* (c0, None) (c, j)"
  shows "(if st_lockHeldBy (cd_st c) = [] then {} else {st_lockHeldBy (cd_st c)}) =
    {i. \<exists>r. st_rows (cd_st c) i = Some r \<and> row_Status r \<in> {StatusApplying, StatusAwaitingConfirm}}"
proof -
  note g = reached_guarded [OF assms]
  have a: "st_lockHeldBy (cd_st c) = i" if "st_rows (cd_st c) i = Some r" "row_Status r \<in> {StatusApplying, StatusAwaitingConfirm}" for i r
    using guarded_row [OF g, of i] rowvI [OF that(1)] that(2) by (simp add: in_flight_def)
  have b: "\<exists>r. st_rows (cd_st c) i = Some r \<and> row_Status r \<in> {StatusApplying, StatusAwaitingConfirm}"
    if i: "st_lockHeldBy (cd_st c) = i" "i \<noteq> []" for i
  proof -
    obtain s d where "rowv (cd_st c) i = Some (s, d)" "s \<in> in_flight" using g i by (auto simp: guarded_win_def)
    then show ?thesis by (auto simp: in_flight_def dest: rowvD)
  qed
  have ne: "st_rows (cd_st c) [] = None" by (rule guarded_empty [OF g])
  show ?thesis
  proof (cases "st_lockHeldBy (cd_st c) = []")
    case True
    then have "\<not> (\<exists>i r. st_rows (cd_st c) i = Some r \<and> row_Status r \<in> {StatusApplying, StatusAwaitingConfirm})"
      using a ne by (metis option.distinct(1))
    with True show ?thesis by simp
  next
    case False
    with a b show ?thesis by auto
  qed
qed

theorem one_in_flight_witness:
  "\<exists>c r. coord_step\<^sup>*\<^sup>* (xc_start, None) (c, None) \<and> st_rows (cd_st c) ''cs1'' = Some r \<and>
     row_Status r = StatusAwaitingConfirm \<and> st_lockHeldBy (cd_st c) = ''cs1''"
proof -
  obtain c where c: "coord_step\<^sup>*\<^sup>* (xc_start, None) (c, None)" "rowv (cd_st c) ''cs1'' = Some (StatusAwaitingConfirm, Some 220)"
    using xc_applied by blast
  then obtain r where r: "st_rows (cd_st c) ''cs1'' = Some r" "row_Status r = StatusAwaitingConfirm" by (auto dest: rowvD)
  with one_in_flight [OF xc_idle c(1)]
  have "''cs1'' \<in> (if st_lockHeldBy (cd_st c) = [] then {} else {st_lockHeldBy (cd_st c)})" by auto
  with c(1) r show ?thesis by (auto split: if_splits)
qed


text \<open>The callback of the timer that bounds a changeset in the given status.\<close>

definition timer_callback :: "('q, 'w, 'r) coord_env \<Rightarrow> Status \<Rightarrow> string \<Rightarrow> ('q, 'w, 'r) coord \<Rightarrow> ('q, 'w, 'r) coord" where
  "timer_callback E s i c = (if s = StatusAwaitingConfirm then autoRollback E i c else onHoldExpired E i c)"

lemma settles_row:
  assumes "settles i v v'"
  shows "(\<exists>t \<in> {StatusRolledBack, StatusFailed} \<union> (if \<exists>d. wn_rows v i = Some (StatusAwaitingConfirm, d) then {StatusCommitted} else {}). wn_rows v' i = Some (t, None) \<and> wn_lock v' = []) \<or>
    (\<exists>d. wn_rows v' i = Some (StatusAwaitingConfirm, Some d) \<and> wn_timers v' i = Some d \<and> wn_lock v' = wn_lock v \<and>
       (\<forall>sg. wn_stages v i = Some sg \<longrightarrow> d = sg_ConfirmDeadline sg))"
  using assms unfolding settles_def by auto

lemma window_callback:
  assumes "store_up E" "keys_ok (cd_st c)" "rowv (cd_st c) i = Some (StatusAwaitingConfirm, d)"
  shows "\<exists>t \<in> {StatusRolledBack, StatusFailed}. rowv (cd_st (autoRollback E i c)) i = Some (t, None) \<and>
    st_lockHeldBy (cd_st (autoRollback E i c)) = []"
proof -
  obtain cs where g: "get_cs E i c = Inr cs" using get_cs_up [OF assms(1), of c i] assms(3) by auto
  note cs = get_csD [OF g assms(2)]
  let ?c = "cancelTimerLocked i c"
  have e: "cd_st ?c = cd_st c" by (simp add: cancelTimerLocked_def)
  obtain err cs1 c1 where r: "doRollbackScopedLocked E systemRollbackActor None None cs ?c = ((err, cs1), c1)" by (metis prod.collapse)
  have s: "ch_Status cs = StatusAwaitingConfirm" using cs(2) assms(3) by simp
  have "autoRollback E i c = c1"
    using g s r assms(1) get_cs_cong [OF e, of E i] by (simp add: autoRollback_def Let_def doRollbackLocked_def store_up_def)
  moreover have "ch_Status cs1 \<in> {StatusRolledBack, StatusFailed}" "view c1 = end_view i (ch_Status cs1) (view ?c)"
    using doRollback_view [OF assms(1) _ _ r] cs assms(3) s e by (simp_all add: in_flight_def)
  ultimately show ?thesis
    using view_proj(1,2) [OF \<open>view c1 = _\<close>] by (intro bexI [of _ "ch_Status cs1"]) (simp_all add: end_view_def)
qed

text \<open>
  C4. Every wait ends on its own. In every state that \<open>coord_step\<close> reaches (the store answers, this daemon
  leads, a promotion is not interrupted, no restart promotes), a changeset in flight whose steps are not
  running has a stored deadline and an armed timer that is due no later than it. Whenever the timer
  fires from then on, with the store reachable, the changeset is rolled back or failed and the lock is
  free, or a pause was promoted: then it awaits its confirmation with the same deadline and a timer for it.
\<close>

theorem every_wait_ends:
  assumes "idle c0" "coord_step\<^sup>*\<^sup>* (c0, None) (c, j)" "st_rows (cd_st c) i = Some r"
    "row_Status r \<in> {StatusApplying, StatusAwaitingConfirm}" "i \<notin> set_option (job_win j)"
    "store_up E" "ce_stages E = Some True"
  shows "\<exists>d t. row_ConfirmDeadline r = Some d \<and> t \<le> d \<and>
    (if row_Status r = StatusAwaitingConfirm then cd_timers c i = Some t else cd_holds c i = Some t) \<and>
    (t \<le> ce_now E \<longrightarrow>
       coord_step (c, j) (timer_callback E (row_Status r) i c, j) \<and>
       (\<exists>r'. st_rows (cd_st (timer_callback E (row_Status r) i c)) i = Some r' \<and>
          (row_Status r' \<in> {StatusRolledBack, StatusFailed} \<and>
             st_lockHeldBy (cd_st (timer_callback E (row_Status r) i c)) = [] \<or>
           row_Status r = StatusApplying \<and> row_Status r' = StatusAwaitingConfirm \<and> row_ConfirmDeadline r' = Some d \<and>
             cd_timers (timer_callback E (row_Status r) i c) i = Some d)))"
proof (cases "row_Status r = StatusAwaitingConfirm")
  case True
  note g = reached_guarded [OF assms(1,2)]
  have r: "rowv (cd_st c) i = Some (StatusAwaitingConfirm, row_ConfirmDeadline r)" using rowvI [OF assms(3)] True by simp
  obtain d where d: "row_ConfirmDeadline r = Some d" "cd_timers c i = Some d" using guarded_awaiting [OF g, of i] r by auto
  obtain t where t: "t \<in> {StatusRolledBack, StatusFailed}" "rowv (cd_st (autoRollback E i c)) i = Some (t, None)"
    "st_lockHeldBy (cd_st (autoRollback E i c)) = []"
    using window_callback [OF assms(6) guarded_keys [OF g] r] by blast
  then obtain r' where "st_rows (cd_st (autoRollback E i c)) i = Some r'" "row_Status r' = t" by (auto dest: rowvD)
  with t d True coord_step.WindowEnds [OF assms(6) d(2), of j] show ?thesis
    by (intro exI [of _ d] conjI impI) (auto simp: timer_callback_def)
next
  case False
  then have s: "row_Status r = StatusApplying" using assms(4) by simp
  note g = reached_guarded [OF assms(1,2)]
  have r: "rowv (cd_st c) i = Some (StatusApplying, row_ConfirmDeadline r)" using rowvI [OF assms(3)] s by simp
  have "bounded (view c) i StatusApplying (row_ConfirmDeadline r)"
    using guarded_row [OF g, of i] r assms(5) by (cases "job_win j") (auto simp: in_flight_def)
  then obtain d sg where d: "row_ConfirmDeadline r = Some d" "cd_stages c i = Some sg" "sg_State sg = StageCanaryHold"
    "sg_ConfirmDeadline sg = d" "sg_HoldDeadline sg \<le> d" "cd_holds c i = Some (sg_HoldDeadline sg)"
    by (auto simp: bounded_def)
  let ?c = "onHoldExpired E i c"
  from settles_row [OF onHoldExpired_settles [OF assms(6,7) guarded_keys [OF g] r d(2,3)]] r d(2,4)
  have "(\<exists>t \<in> {StatusRolledBack, StatusFailed}. rowv (cd_st ?c) i = Some (t, None) \<and> st_lockHeldBy (cd_st ?c) = []) \<or>
    rowv (cd_st ?c) i = Some (StatusAwaitingConfirm, Some d) \<and> cd_timers ?c i = Some d" by auto
  then have "\<exists>r'. st_rows (cd_st ?c) i = Some r' \<and> (row_Status r' \<in> {StatusRolledBack, StatusFailed} \<and> st_lockHeldBy (cd_st ?c) = [] \<or>
      row_Status r' = StatusAwaitingConfirm \<and> row_ConfirmDeadline r' = Some d \<and> cd_timers ?c i = Some d)"
    by (auto dest!: rowvD)
  with d s coord_step.HoldEnds [OF assms(6,7) d(6), of j] show ?thesis
    by (intro exI [of _ d] exI [of _ "sg_HoldDeadline sg"]) (auto simp: timer_callback_def)
qed

theorem every_wait_ends_witness:
  "\<exists>c r. coord_step\<^sup>*\<^sup>* (xc_start, None) (c, None) \<and> st_rows (cd_st (autoRollback (xc_env 220) ''cs1'' c)) ''cs1'' = Some r \<and>
     row_Status r \<in> {StatusRolledBack, StatusFailed}"
proof -
  obtain c where c: "coord_step\<^sup>*\<^sup>* (xc_start, None) (c, None)" "rowv (cd_st c) ''cs1'' = Some (StatusAwaitingConfirm, Some 220)"
    using xc_applied by blast
  then obtain r where r: "st_rows (cd_st c) ''cs1'' = Some r" "row_Status r = StatusAwaitingConfirm" "row_ConfirmDeadline r = Some 220"
    by (auto dest: rowvD)
  have "ce_stages (xc_env 220) = Some True" "ce_now (xc_env 220) = 220" by (simp_all add: xc_simps)
  with every_wait_ends [OF xc_idle c(1) r(1) _ _ xc_up, of 220] r c(1) show ?thesis
    by (auto simp: job_win_def timer_callback_def)
qed


section \<open>What is not confirmed is undone\<close>

lemma captured_pre:
  assumes "captureSnapshotFull (on_nodes env) plan w r = (Inr pre, w1, r1)" "n \<in> set (affectedNodes plan)"
  shows "nw_committed w n = Some (pre_by_node pre n)"
proof -
  obtain z where z: "capture_files (on_nodes env) (affectedNodes plan) w = (z, w1)" "z = Inr (ps_files pre)"
    using captureSnapshotFull_files [OF assms(1)] by blast
  have l: "map fst (ps_files pre) = affectedNodes plan" "\<forall>(n, c) \<in> set (ps_files pre). nw_committed w n = Some c"
    using capture_files_law [OF z(1), of "\<lambda>_. True" nw_committed] nodes.read_keeps z(2) by simp_all
  have "n \<in> fst ` set (ps_files pre)" using assms(2) by (simp flip: l(1))
  then have "n \<in> fst ` set (rev (ps_files pre))" by simp
  then obtain c where c: "map_of (rev (ps_files pre)) n = Some c" by (metis map_of_eq_None_iff not_None_eq)
  with map_of_SomeD [OF c] l(2) show ?thesis by (auto simp: pre_by_node_def)
qed

text \<open>
  C2. An apply that nobody confirms is undone. After an apply that succeeded, whatever happens to the
  nodes in between, the timer of the window brings every node of the plan back to its file from before
  the apply, or the stored log has a failed entry for that node, in which case the firing did not change
  it; every other node is left alone. The changeset ends rolled back or failed.
\<close>

theorem unconfirmed_apply_reverts:
  assumes "ApplyWithOptions E E' i author timeout strategy opt c = ((None, Some cs), c1)" "as_Mode strategy \<noteq> ApplyModeCanary"
    and "ce_exec E = on_nodes env" "store_up E'" "keys_ok (cd_st c)" "BuildPlan (ch_Ops cs) = Inr plan"
    and "cd_st c2 = cd_st c1" "cd_pre c2 = cd_pre c1" "nw_sound (cd_w c2)"
    and "store_up E''" "ce_snap_read_ok E''" "xe_agent (ce_exec E'') = world_agent"
    and "decodePlan (ce_codec E'') (jc_marshalPlan (ce_codec E) plan) = plan"
  shows "\<exists>r l. st_rows (cd_st (autoRollback E'' i c2)) i = Some r \<and> row_Status r \<in> {StatusRolledBack, StatusFailed} \<and>
    row_ApplyLog r = jc_marshalLog (ce_codec E'') l \<and>
    (\<forall>n. n \<notin> set (affectedNodes plan) \<longrightarrow> nw_committed (cd_w (autoRollback E'' i c2)) n = nw_committed (cd_w c2) n) \<and>
    (\<forall>n \<in> set (affectedNodes plan). nw_committed (cd_w (autoRollback E'' i c2)) n = nw_committed (cd_w c) n \<or>
       restore_failed n (al_Rollback l) \<and> nw_committed (cd_w (autoRollback E'' i c2)) n = nw_committed (cd_w c2) n)"
proof -
  obtain pre w r row where a: "captureSnapshotFull (ce_exec E) plan (cd_w c) (cd_r c) = (Inr pre, w, r)"
    "cd_pre c1 i = Some pre" "st_rows (cd_st c1) i = Some row" "row_Plan row = jc_marshalPlan (ce_codec E) plan"
    "rowv (cd_st c1) i = Some (StatusAwaitingConfirm, Some (ce_now E + confirm_timeout E timeout))" "keys_ok (cd_st c1)"
    using ApplyWithOptions_awaiting [OF assms(1,2,4,5)] assms(6) by auto
  let ?cs = "fromStoreRow row" and ?c = "cancelTimerLocked i c2"
  have g: "get_cs E'' i c2 = Inr ?cs"
    using a(3) assms(7,10) by (simp add: get_cs_def svc_Get_def repo_Get_def store_up_def)
  have k: "keys_ok (cd_st c2)" using a(6) assms(7) by simp
  note gc = get_csD [OF g k]
  have s: "ch_Status ?cs = StatusAwaitingConfirm" using gc(2) a(5) assms(7) by simp
  have e: "cd_st ?c = cd_st c2" "cd_w ?c = cd_w c2" "cd_pre ?c = cd_pre c2" by (simp_all add: cancelTimerLocked_def)
  obtain err cs1 c3 where d: "doRollbackScopedLocked E'' systemRollbackActor None None ?cs ?c = ((err, cs1), c3)" by (metis prod.collapse)
  have auto: "autoRollback E'' i c2 = c3"
    using g s d assms(10) get_cs_cong [OF e(1), of E'' i] by (simp add: autoRollback_def Let_def doRollbackLocked_def store_up_def)
  have pl: "rollback_plan E'' None ?cs = plan" using a(4) assms(13) by (simp add: rollback_plan_def fromStoreRow_def)
  have in_fl: "ch_Status ?cs \<in> in_flight" using s by (simp add: in_flight_def)
  have pre: "cd_pre ?c (ch_ID ?cs) = Some pre" using a(2) assms(8) e(3) gc(1) by simp
  have rw: "rowv (cd_st ?c) (ch_ID ?cs) \<noteq> None" using gc e(1) by simp
  obtain r' l where r: "st_rows (cd_st c3) i = Some r'" "row_Status r' \<in> {StatusRolledBack, StatusFailed}"
    "row_ApplyLog r' = jc_marshalLog (ce_codec E'') l"
    and re: "restored nw_committed pre (set (affectedNodes plan)) (cd_w c2) (cd_w c3) (al_Rollback l)"
    using restorable.doRollback_restores [OF d assms(10,11,12) _ pre rw in_fl] assms(9) e(2) pl gc(1) by auto
  have pc: "Some (pre_by_node pre n) = nw_committed (cd_w c) n" if "n \<in> set (affectedNodes plan)" for n
    using captured_pre [of env plan "cd_w c" "cd_r c" pre w r n] a(1) assms(3) that by simp
  show ?thesis
    unfolding auto using r re pc by (intro exI [of _ r'] exI [of _ l]) (auto simp: restored_def)
qed

lemma xc_apply:
  "\<exists>cs c. ApplyWithOptions (xc_env 100) (xc_env 110) ''cs1'' ''ann'' 120 all_strategy None xc_start = ((None, Some cs), c) \<and> ch_Ops cs = ex_two_ops"
proof -
  obtain cs c1 where e: "apply_enter (xc_env 100) ''cs1'' ''ann'' 120 all_strategy xc_start = (Inr (cs, ex_two_nodes, all_strategy), c1)"
    and c1: "c1 = xc_start\<lparr>cd_st := cd_st c1\<rparr>" "ch_ID cs = ''cs1''" "ch_Ops cs = ex_two_ops"
    using xc_enter [OF xc_strategy(1)] by blast
  have k: "keys_ok (cd_st xc_start)" by (simp add: keys_ok_def xc_simps)
  note en = apply_enter_Inr [OF e k]
  have "cd_w c1 = ex_world 99" using arg_cong [OF c1(1), of cd_w] by (simp add: xc_start_def)
  then obtain l c2 where x: "apply_execute (xc_env 100) ''ann'' None cs ex_two_nodes all_strategy 220 c1 = (Inr l, c2)"
    using xc_execute c1(2) by blast
  have v2: "view c2 = view c1"
    using apply_execute_view [of "xc_env 100" "''ann''" None cs ex_two_nodes all_strategy 220 c1] x by simp
  obtain d where v1: "view c1 = (view xc_start)\<lparr>wn_rows := (rowv (cd_st xc_start))(''cs1'' \<mapsto> (StatusApplying, d)), wn_lock := ''cs1''\<rparr>"
    using en(5) by blast
  have "rowv (cd_st c1) ''cs1'' \<noteq> None" using view_proj(1) [OF v1] by simp
  then have r2: "rowv (cd_st c2) (ch_ID cs) \<noteq> None" using view_proj(1) [OF v2] c1(2) by simp
  obtain out c3 where f: "finishAwaitingConfirm (xc_env 110) ''ann'' cs ex_two_nodes l 220 c2 = (out, c3)" by fastforce
  then obtain cs' where "out = (None, Some cs')" "ch_Ops cs' = ch_Ops cs"
    using finishAwaitingConfirm_row [OF xc_up r2 en(4) f] by blast
  moreover have "confirm_timeout (xc_env 100) 120 = 120" "ce_now (xc_env 100) = 100" "ce_applyConfigured (xc_env 100)"
    by (simp_all add: confirm_timeout_def clampConfirmTimeout_def MinConfirmTimeout_def MaxConfirmTimeout_def xc_simps)
  moreover have "\<not> IsCanary all_strategy" by (simp add: IsCanary_def all_strategy_def)
  ultimately show ?thesis using e x f c1(3) by (simp add: ApplyWithOptions_def apply_finish_def)
qed

theorem unconfirmed_apply_reverts_witness:
  "\<exists>cs c r (l :: ApplyLog). ApplyWithOptions (xc_env 100) (xc_env 110) ''cs1'' ''ann'' 120 all_strategy None xc_start = ((None, Some cs), c) \<and>
     st_rows (cd_st (autoRollback (xc_env 220) ''cs1'' (c\<lparr>cd_w := ex_world 7\<rparr>))) ''cs1'' = Some r \<and>
     row_Status r \<in> {StatusRolledBack, StatusFailed} \<and>
     (nw_committed (cd_w (autoRollback (xc_env 220) ''cs1'' (c\<lparr>cd_w := ex_world 7\<rparr>))) ''pve2'' = Some ''old'' \<or>
        restore_failed ''pve2'' (al_Rollback l))"
proof -
  obtain cs c where a: "ApplyWithOptions (xc_env 100) (xc_env 110) ''cs1'' ''ann'' 120 all_strategy None xc_start = ((None, Some cs), c)"
    "ch_Ops cs = ex_two_ops" using xc_apply by blast
  have k: "keys_ok (cd_st xc_start)" by (simp add: keys_ok_def xc_simps)
  have b: "BuildPlan (ch_Ops cs) = Inr ex_two_nodes" using a(2) ex_two_plan by simp
  have m: "as_Mode all_strategy \<noteq> ApplyModeCanary" by (simp add: all_strategy_def)
  have x: "ce_exec (xc_env 100) = on_nodes ex_env" "ce_snap_read_ok (xc_env 220)" "xe_agent (ce_exec (xc_env 220)) = world_agent"
    "decodePlan (ce_codec (xc_env 220)) (jc_marshalPlan (ce_codec (xc_env 100)) ex_two_nodes) = ex_two_nodes"
    by (simp_all add: xc_env_def on_nodes_def ex_env_def decodePlan_def ex_codec_def)
  have n: "''pve2'' \<in> set (affectedNodes ex_two_nodes)" by code_simp
  have w: "nw_committed (cd_w xc_start) ''pve2'' = Some ''old''" by (simp add: xc_start_def ex_pre)
  let ?c = "c\<lparr>cd_w := ex_world 7\<rparr>"
  have c: "cd_st ?c = cd_st c" "cd_pre ?c = cd_pre c" "nw_sound (cd_w ?c)" using ex_sound by simp_all
  define z where "z = autoRollback (xc_env 220) ''cs1'' ?c"
  have "\<exists>r l. st_rows (cd_st z) ''cs1'' = Some r \<and> row_Status r \<in> {StatusRolledBack, StatusFailed} \<and>
      row_ApplyLog r = jc_marshalLog (ce_codec (xc_env 220)) l \<and>
      (\<forall>n. n \<notin> set (affectedNodes ex_two_nodes) \<longrightarrow> nw_committed (cd_w z) n = nw_committed (cd_w ?c) n) \<and>
      (\<forall>n \<in> set (affectedNodes ex_two_nodes). nw_committed (cd_w z) n = nw_committed (cd_w xc_start) n \<or>
         restore_failed n (al_Rollback l) \<and> nw_committed (cd_w z) n = nw_committed (cd_w ?c) n)"
    unfolding z_def by (rule unconfirmed_apply_reverts [OF a(1) m x(1) xc_up k b c xc_up x(2-4)])
  then obtain r and l :: ApplyLog where z: "st_rows (cd_st z) ''cs1'' = Some r" "row_Status r \<in> {StatusRolledBack, StatusFailed}"
    "\<forall>n \<in> set (affectedNodes ex_two_nodes). nw_committed (cd_w z) n = nw_committed (cd_w xc_start) n \<or>
         restore_failed n (al_Rollback l) \<and> nw_committed (cd_w z) n = nw_committed (cd_w ?c) n" by auto
  have "nw_committed (cd_w z) ''pve2'' = Some ''old'' \<or> restore_failed ''pve2'' (al_Rollback l)" using bspec [OF z(3) n] w by auto
  with a(1) z(1,2) show ?thesis unfolding z_def by blast
qed

text \<open>The stage that has not run yet is not touched by giving up.\<close>

lemma affected_restricted: "set (affectedNodes (restrictedToNodes p ns)) = set (affectedNodes p) \<inter> set ns"
  by (auto simp: set_affectedNodes restrictedToNodes_def)

text \<open>
  C20. Giving up a canary is confined to it. Aborting a paused apply leaves every node outside the canary
  stage untouched, and every canary node of the plan goes back to its file in the snapshot of before,
  or the stored log has a failed entry for it and the abort did not change it. The changeset ends rolled
  back or failed, without its pause, and the lock is free.
\<close>

theorem abort_confined:
  assumes "store_up E" "ce_stages E = Some True" "ce_snap_read_ok E" "xe_agent (ce_exec E) = world_agent" "nw_sound (cd_w c)"
    and "keys_ok (cd_st c)" "get_cs E i c = Inr cs" "ch_Status cs = StatusApplying" "cd_stages c i = Some sg" "cd_pre c i = Some pre"
  shows "\<exists>r l. st_rows (cd_st (snd (abortStagedApply E i actor gw c))) i = Some r \<and> row_Status r \<in> {StatusRolledBack, StatusFailed} \<and>
    row_ApplyLog r = jc_marshalLog (ce_codec E) l \<and>
    restored nw_committed pre (set (affectedNodes (decodePlan (ce_codec E) (ch_Plan cs))) \<inter> set (sg_AppliedNodes sg))
      (cd_w c) (cd_w (snd (abortStagedApply E i actor gw c))) (al_Rollback l) \<and>
    cd_stages (snd (abortStagedApply E i actor gw c)) i = None \<and> st_lockHeldBy (cd_st (snd (abortStagedApply E i actor gw c))) = []"
proof -
  note g = get_csD [OF assms(7,6)]
  let ?c = "cancelTimerLocked i (cancelHoldTimerLocked i c)"
  obtain e cs1 c1 where d: "doRollbackScopedLocked E actor gw (Some (sg_AppliedNodes sg)) cs ?c = ((e, cs1), c1)" by (metis prod.collapse)
  have f: "cd_st ?c = cd_st c" "cd_w ?c = cd_w c" "cd_pre ?c = cd_pre c" by (simp_all add: cancelTimerLocked_def cancelHoldTimerLocked_def)
  have id: "ch_ID cs1 = i" using doRollback_view [OF assms(1) _ _ d] g f(1) assms(8) by (simp add: in_flight_def)
  have c': "snd (abortStagedApply E i actor gw c) = audit E actor ''changeset.abort'' (abortResult (ch_Status cs1)) i (clearStage E i c1)"
    using assms(7-9) d by (simp add: abortStagedApply_def StagedApplyState_up [OF assms(1)] Let_def)
  have fr: "st_rows (cd_st (snd (abortStagedApply E i actor gw c))) = st_rows (cd_st c1)" "cd_w (snd (abortStagedApply E i actor gw c)) = cd_w c1"
    by (simp_all add: c' audit_def upd_st_def clearStage_def)
  have pl: "set (affectedNodes (rollback_plan E (Some (sg_AppliedNodes sg)) cs)) =
      set (affectedNodes (decodePlan (ce_codec E) (ch_Plan cs))) \<inter> set (sg_AppliedNodes sg)"
    by (simp add: rollback_plan_def affected_restricted)
  obtain r l where r: "st_rows (cd_st c1) i = Some r" "row_Status r \<in> {StatusRolledBack, StatusFailed}" "row_ApplyLog r = jc_marshalLog (ce_codec E) l"
    "restored nw_committed pre (set (affectedNodes (rollback_plan E (Some (sg_AppliedNodes sg)) cs))) (cd_w c) (cd_w c1) (al_Rollback l)"
    using restorable.doRollback_restores [OF d assms(1,3,4), of pre] f assms(5,8,10) g by (auto simp: in_flight_def)
  obtain t where "view (snd (abortStagedApply E i actor gw c)) =
    (end_view i t (view c))\<lparr>wn_timers := (cd_timers c)(i := None), wn_holds := (cd_holds c)(i := None),
      wn_stages := (if ce_stages E = Some True then (cd_stages c)(i := None) else cd_stages c)\<rparr>"
    using abort_ends [OF assms(1,6), of i "ch_ConfirmDeadline cs" sg actor gw] g(2) assms(8,9) by auto
  note v = view_proj [OF this]
  have "cd_stages (snd (abortStagedApply E i actor gw c)) i = None" "st_lockHeldBy (cd_st (snd (abortStagedApply E i actor gw c))) = []"
    using v(2,5) assms(2) by (simp_all add: end_view_def)
  with r show ?thesis unfolding fr pl by blast
qed

text \<open>The example in its canary pause.\<close>

definition xc_stage :: ChangesetApplyStage where
  "xc_stage = \<lparr> sg_State = StageCanaryHold, sg_Author = ''ann'', sg_Strategy = xc_canary, sg_AppliedNodes = [''pve1''],
     sg_PendingNodes = [''pve2''], sg_HoldStartedAt = 100, sg_HoldDeadline = 160, sg_ConfirmDeadline = 220 \<rparr>"

definition xc_pre :: pre_snapshot where
  "xc_pre = \<lparr> ps_files = [(''pve1'', ''old''), (''pve2'', ''old'')], ps_sdn = None, ps_fw = None, ps_qos = None, ps_tcMirror = None,
     ps_wg = None, ps_switch = None \<rparr>"

definition xc_paused_row :: "unit plan_params ChangesetRow" where
  "xc_paused_row = (xc_row StatusApplying)\<lparr>row_Plan := ''p'', row_ConfirmDeadline := Some 220\<rparr>"

definition xc_paused :: "(unit, node_world, unit) coord" where
  "xc_paused = xc_start\<lparr>cd_st := empty_store\<lparr>st_rows := [''cs1'' \<mapsto> xc_paused_row], st_lockHeldBy := ''cs1''\<rparr>,
     cd_holds := [''cs1'' \<mapsto> 160], cd_stages := [''cs1'' \<mapsto> xc_stage], cd_pre := [''cs1'' \<mapsto> xc_pre]\<rparr>"

lemma xc_paused_facts:
  "keys_ok (cd_st xc_paused)" "get_cs (xc_env now) ''cs1'' xc_paused = Inr (fromStoreRow xc_paused_row)"
  "ch_Status (fromStoreRow xc_paused_row) = StatusApplying" "ch_ID (fromStoreRow xc_paused_row) = ''cs1''"
  "cd_stages xc_paused ''cs1'' = Some xc_stage" "cd_pre xc_paused ''cs1'' = Some xc_pre" "cd_w xc_paused = ex_world 99" "cd_r xc_paused = ()"
  "decodePlan (ce_codec (xc_env now)) (ch_Plan (fromStoreRow xc_paused_row)) = ex_two_nodes"
  "rowv (cd_st xc_paused) ''cs1'' = Some (StatusApplying, Some 220)" "st_lockHeldBy (cd_st xc_paused) = ''cs1''"
  by (simp_all add: keys_ok_def get_cs_def svc_Get_def repo_Get_def xc_paused_def xc_paused_row_def xc_simps fromStoreRow_def decodePlan_def rowv_def)

lemma xc_env_facts:
  "ce_stages (xc_env now) = Some True" "ce_snap_read_ok (xc_env now)" "xe_agent (ce_exec (xc_env now)) = world_agent" "ce_now (xc_env now) = now"
  by (simp_all add: xc_simps on_nodes_def ex_env_def)

theorem abort_confined_witness:
  "\<exists>r. st_rows (cd_st (snd (abortStagedApply (xc_env 130) ''cs1'' ''ann'' None xc_paused))) ''cs1'' = Some r \<and>
     row_Status r \<in> {StatusRolledBack, StatusFailed} \<and>
     nw_committed (cd_w (snd (abortStagedApply (xc_env 130) ''cs1'' ''ann'' None xc_paused))) ''pve2'' = Some ''old''"
proof -
  have s: "nw_sound (cd_w xc_paused)" using ex_sound by (simp add: xc_paused_facts)
  define z where "z = snd (abortStagedApply (xc_env 130) ''cs1'' ''ann'' None xc_paused)"
  obtain r and l :: ApplyLog where z: "st_rows (cd_st z) ''cs1'' = Some r" "row_Status r \<in> {StatusRolledBack, StatusFailed}"
    "restored nw_committed xc_pre (set (affectedNodes ex_two_nodes) \<inter> set (sg_AppliedNodes xc_stage)) (cd_w xc_paused) (cd_w z) (al_Rollback l)"
    using abort_confined [OF xc_up xc_env_facts(1-3) s xc_paused_facts(1-3,5,6), of 130 "''ann''" None]
    unfolding z_def xc_paused_facts(9) by auto
  have "''pve2'' \<notin> set (sg_AppliedNodes xc_stage)" by (simp add: xc_stage_def)
  then have "nw_committed (cd_w z) ''pve2'' = Some ''old''" using z(3) by (simp add: restored_def xc_paused_facts ex_pre)
  with z(1,2) show ?thesis unfolding z_def by blast
qed


section \<open>Confirming\<close>

lemma confirm_locked_Inr:
  assumes "store_up E" "keys_ok (cd_st c)" "confirm_locked E i c = (Inr cs, c')"
  shows "\<exists>d. rowv (cd_st c) i = Some (StatusAwaitingConfirm, d)"
    "view c' = (end_view i StatusCommitted (view c))\<lparr>wn_timers := (cd_timers c)(i := None)\<rparr>" "ch_ID cs = i" "cd_w c' = cd_w c"
proof -
  obtain cs0 where g: "get_cs E i c = Inr cs0" and s: "ch_Status cs0 = StatusAwaitingConfirm"
    using assms(3) by (auto simp: confirm_locked_def split: sum.splits if_splits)
  note gc = get_csD [OF g assms(2)]
  let ?c = "cancelTimerLocked i (disarmAutoRollback i c)"
  let ?cs = "cs0\<lparr>ch_Status := StatusCommitted, ch_UpdatedAt := ce_now E, ch_ConfirmDeadline := None\<rparr>"
  have e: "cd_st ?c = cd_st c" "cd_w ?c = cd_w c" "cd_timers (disarmAutoRollback i c) = cd_timers c"
    by (simp_all add: cancelTimerLocked_def disarmAutoRollback_def)
  obtain c1 where p: "persist_cs E ?cs ?c = (None, c1)" "view c1 = (view ?c)\<lparr>wn_rows := (rowv (cd_st c))(i \<mapsto> (StatusCommitted, None))\<rparr>"
    using persist_view [of E ?c ?cs] assms(1) gc e by (auto simp: store_up_def)
  have w: "cd_w c1 = cd_w c" using p(1) e(2) by (auto simp: persist_cs_def split: sum.splits)
  have r: "c' = release_lock (wipe_ticket E i c1)" "cs = ?cs\<lparr>ch_RevertTicketExpiresAt := 0\<rparr>"
    using assms(3) g s p(1) by (auto simp: confirm_locked_def Let_def Transition_def CanTransition_def)
  show "\<exists>d. rowv (cd_st c) i = Some (StatusAwaitingConfirm, d)" using gc(2) s by simp
  show "view c' = (end_view i StatusCommitted (view c))\<lparr>wn_timers := (cd_timers c)(i := None)\<rparr>"
    using p(2) e by (simp add: r end_view_def)
  show "ch_ID cs = i" using r(2) gc(1) by simp
  show "cd_w c' = cd_w c" using w by (simp add: r release_lock_def wipe_ticket_def upd_st_def)
qed

lemma confirmable:
  assumes "store_up E" "keys_ok (cd_st c)" "rowv (cd_st c) i = Some (StatusAwaitingConfirm, d)"
  shows "\<exists>cs c'. confirm_locked E i c = (Inr cs, c')"
proof -
  obtain cs0 where g: "get_cs E i c = Inr cs0" using get_cs_up [OF assms(1), of c i] assms(3) by auto
  note gc = get_csD [OF g assms(2)]
  let ?c = "cancelTimerLocked i (disarmAutoRollback i c)"
  let ?cs = "cs0\<lparr>ch_Status := StatusCommitted, ch_UpdatedAt := ce_now E, ch_ConfirmDeadline := None\<rparr>"
  obtain c1 where "persist_cs E ?cs ?c = (None, c1)"
    using persist_view [of E ?c ?cs] gc assms(1) by (auto simp: store_up_def cancelTimerLocked_def disarmAutoRollback_def)
  moreover have "ch_Status cs0 = StatusAwaitingConfirm" using gc(2) assms(3) by simp
  ultimately show ?thesis using g by (simp add: confirm_locked_def Let_def Transition_def CanTransition_def)
qed

text \<open>
  C18. A confirmation is final. It succeeds only for a changeset that awaits it; afterwards the changeset is
  committed with no deadline, the lock is free and the timer is gone. A firing of the timer that was
  already under way finds a committed changeset: it changes neither a node nor the store.
\<close>

theorem confirm_final:
  assumes "store_up E" "keys_ok (cd_st c)" "Confirm E E' i author c = ((None, Some cs), c')" "store_up E''"
  shows "(\<exists>r. st_rows (cd_st c) i = Some r \<and> row_Status r = StatusAwaitingConfirm) \<and>
    (\<exists>r. st_rows (cd_st c') i = Some r \<and> row_Status r = StatusCommitted \<and> row_ConfirmDeadline r = None) \<and>
    st_lockHeldBy (cd_st c') = [] \<and> cd_timers c' i = None \<and>
    cd_st (autoRollback E'' i c') = cd_st c' \<and> cd_w (autoRollback E'' i c') = cd_w c' \<and> cd_r (autoRollback E'' i c') = cd_r c'"
proof -
  obtain c1 where l: "confirm_locked E i c = (Inr cs, c1)" and c': "c' = confirm_rest E' i author cs c1"
    using assms(3) by (auto simp: Confirm_def split: if_splits prod.splits sum.splits)
  note n = confirm_locked_Inr [OF assms(1,2) l]
  have k: "keys_ok (cd_st c1)" using view_proj(6) [OF n(2)] assms(2) by (simp add: end_view_def)
  have v: "view c' = (end_view i StatusCommitted (view c))\<lparr>wn_timers := (cd_timers c)(i := None)\<rparr>"
    using confirm_rest_view [OF k] n(2) by (simp add: c')
  note p = view_proj [OF v]
  have r: "rowv (cd_st c') i = Some (StatusCommitted, None)" using p(1) by (simp add: end_view_def)
  have k': "keys_ok (cd_st c')" using p(6) assms(2) by (simp add: end_view_def)
  obtain cs2 where g: "get_cs E'' i (cancelTimerLocked i c') = Inr cs2"
    using get_cs_up [OF assms(4), of "cancelTimerLocked i c'" i] r by (auto simp: cancelTimerLocked_def)
  have "ch_Status cs2 = StatusCommitted" using get_csD(2) [OF g] k' r by (simp add: cancelTimerLocked_def)
  with g have "autoRollback E'' i c' = cancelTimerLocked i c'" by (simp add: autoRollback_def Let_def)
  moreover have "\<exists>r. st_rows (cd_st c) i = Some r \<and> row_Status r = StatusAwaitingConfirm" using n(1) by (auto dest: rowvD)
  moreover have "\<exists>r. st_rows (cd_st c') i = Some r \<and> row_Status r = StatusCommitted \<and> row_ConfirmDeadline r = None" using r by (auto dest: rowvD)
  ultimately show ?thesis using p(2,3) by (simp add: end_view_def cancelTimerLocked_def)
qed

theorem confirm_final_witness:
  "\<exists>c cs c'. Confirm (xc_env 150) (xc_env 150) ''cs1'' ''ann'' c = ((None, Some cs), c') \<and> st_lockHeldBy (cd_st c') = [] \<and>
     cd_w (autoRollback (xc_env 220) ''cs1'' c') = cd_w c'"
proof -
  obtain c where c: "coord_step\<^sup>*\<^sup>* (xc_start, None) (c, None)" "rowv (cd_st c) ''cs1'' = Some (StatusAwaitingConfirm, Some 220)"
    using xc_applied by blast
  have k: "keys_ok (cd_st c)" using guarded_keys [OF reached_guarded [OF xc_idle c(1)]] .
  obtain cs0 c1 where "confirm_locked (xc_env 150) ''cs1'' c = (Inr cs0, c1)" using confirmable [OF xc_up k c(2)] by blast
  then have "\<exists>cs c'. Confirm (xc_env 150) (xc_env 150) ''cs1'' ''ann'' c = ((None, Some cs), c')"
    using xc_up [of 150] by (simp add: Confirm_def store_up_def)
  then obtain cs c' where x: "Confirm (xc_env 150) (xc_env 150) ''cs1'' ''ann'' c = ((None, Some cs), c')" by blast
  from confirm_final [OF xc_up k x xc_up, of 220] x show ?thesis by blast
qed


section \<open>Strategies and deadlines\<close>

text \<open>
  What an accepted strategy is. An accepted canary strategy was asked for; its canary nodes are the named
  ones without repetition, at least one and not all of the nodes the plan affects; the plan has no step
  that cannot be staged; the hold is between ten seconds and ten minutes and shorter than the window;
  and the gate is manual, or automatic with a checker at hand and no step that needs a user's session.
  Any other accepted strategy is the plain one.
\<close>

theorem strategy_checked:
  assumes "validateApplyStrategy E s plan confirmTimeout = Inr s'"
  shows "if IsCanary s'
    then IsCanary s \<and> distinct (as_CanaryNodes s') \<and> set (as_CanaryNodes s') = set (as_CanaryNodes s) \<and> as_CanaryNodes s' \<noteq> [] \<and>
      set (as_CanaryNodes s') \<subset> set (affectedNodes plan) \<and>
      list_all (\<lambda>st. st_Kind st \<notin> {StepIpamAlloc, StepSDNStage, StepSwitchApply}) plan \<and>
      10 \<le> as_HoldForSec s' \<and> as_HoldForSec s' \<le> 600 \<and> as_HoldForSec s' < confirmTimeout \<and>
      (as_Gate s' = ApplyGateManual \<or> as_Gate s' = ApplyGateAuto \<and> ce_canary E \<noteq> None \<and> \<not> planRequiresPVESession plan)
    else s' = all_strategy \<and> \<not> IsCanary s"
proof (cases "as_Mode s = ApplyModeCanary")
  case True
  then obtain g canary hold where g: "check_gate E plan (as_Gate s) = Inr g" and u: "filter (\<lambda>k. has_kind [k] plan) canaryUnstageableKinds = []"
    and c: "check_canary_nodes plan (as_CanaryNodes s) = Inr canary" and h: "check_hold s confirmTimeout = Inr hold"
    and s': "s' = s\<lparr>as_Gate := g, as_CanaryNodes := canary, as_HoldForSec := hold\<rparr>"
    using assms by (auto simp: validateApplyStrategy_def Let_def split: if_splits sum.splits)
  have can: "IsCanary s'" "IsCanary s" using True s' by (simp_all add: IsCanary_def)
  have kinds: "list_all (\<lambda>st. st_Kind st \<notin> {StepIpamAlloc, StepSDNStage, StepSwitchApply}) plan"
    using u by (auto simp: canaryUnstageableKinds_def has_kind_def list_all_iff list_ex_iff split: if_splits)
  have gate: "as_Gate s' = ApplyGateManual \<or> as_Gate s' = ApplyGateAuto \<and> ce_canary E \<noteq> None \<and> \<not> planRequiresPVESession plan"
    using g s' by (auto simp: check_gate_def split: ApplyGate.splits if_splits)
  have hold: "10 \<le> hold" "hold \<le> 600" "hold < confirmTimeout"
    using h by (auto simp: check_hold_def Let_def MinCanaryHold_def MaxCanaryHold_def MaxConfirmTimeout_def split: if_splits)
  let ?a = "affectedNodes plan"
  have un: "filter (\<lambda>n. n \<notin> set ?a) (first_seen (as_CanaryNodes s)) = []" and ne: "as_CanaryNodes s \<noteq> []"
    and cd: "canary = filter (\<lambda>n. n \<in> set ?a) (first_seen (as_CanaryNodes s))" and len: "length canary \<noteq> length ?a"
    using c by (auto simp: check_canary_nodes_def Let_def split: if_splits)
  have sub: "set (as_CanaryNodes s) \<subseteq> set ?a" using un by (auto simp: filter_empty_conv)
  then have cn: "canary = first_seen (as_CanaryNodes s)" using cd by (simp add: subset_eq)
  then have "set canary = set (as_CanaryNodes s)" "distinct canary" by simp_all
  moreover have "set canary \<noteq> set ?a"
    using len distinct_card [OF \<open>distinct canary\<close>] distinct_card [of ?a] by (auto simp: affectedNodes_def)
  ultimately show ?thesis using can kinds gate hold sub ne s' by auto
next
  case False
  then have "s' = all_strategy" "\<not> IsCanary s" using assms by (auto simp: validateApplyStrategy_def IsCanary_def split: ApplyMode.splits if_splits)
  then show ?thesis by (simp add: IsCanary_def all_strategy_def)
qed

theorem strategy_checked_witness:
  "set (as_CanaryNodes xc_canary) \<subset> set (affectedNodes ex_two_nodes) \<and> as_HoldForSec xc_canary < 120"
proof -
  have "IsCanary xc_canary" by (simp add: IsCanary_def xc_canary_def)
  with strategy_checked [OF xc_strategy(2) [of 100]] show ?thesis by simp
qed

text \<open>
  The window is never shorter than half a minute nor longer than ten minutes, whatever timeout is asked
  for: an apply that succeeds returns a changeset whose deadline is that far after the start.
\<close>

theorem apply_window_bounds:
  assumes "ApplyWithOptions E E' i author timeout strategy opt c = ((None, Some cs), c')"
  shows "\<exists>d. ch_ConfirmDeadline cs = Some d \<and> ce_now E + 30 \<le> d \<and> d \<le> ce_now E + 600"
proof -
  let ?t = "confirm_timeout E timeout"
  have b: "30 \<le> ?t" "?t \<le> 600"
    by (simp_all add: confirm_timeout_def clampConfirmTimeout_def MinConfirmTimeout_def MaxConfirmTimeout_def)
  obtain cs0 plan s' c0 where e: "apply_enter E i author ?t strategy c = (Inr (cs0, plan, s'), c0)"
    using assms by (cases "apply_enter E i author ?t strategy c") (auto simp: ApplyWithOptions_def Let_def split: sum.splits if_splits)
  obtain res c2 where x: "apply_execute E author opt cs0 plan s' (ce_now E + ?t) c0 = (res, c2)" by fastforce
  have fin: "apply_finish E' author cs0 plan s' (ce_now E + ?t) res c2 = ((None, Some cs), c')"
    using assms e x by (simp add: ApplyWithOptions_def Let_def split: if_splits)
  then obtain l where l: "res = Inr l" by (cases res) (auto simp: apply_finish_def finishFailedApply_def Let_def)
  have "ch_ConfirmDeadline cs = Some (ce_now E + ?t)"
    using fin l by (auto simp: apply_finish_def finishAwaitingConfirm_def holdAfterCanary_def Let_def split: if_splits sum.splits prod.splits option.splits bool.splits)
  with b show ?thesis by simp
qed

theorem apply_window_bounds_witness:
  "\<exists>cs c d. ApplyWithOptions (xc_env 100) (xc_env 110) ''cs1'' ''ann'' 120 all_strategy None xc_start = ((None, Some cs), c) \<and>
     ch_ConfirmDeadline cs = Some d \<and> 130 \<le> d \<and> d \<le> 700"
proof -
  obtain cs c where a: "ApplyWithOptions (xc_env 100) (xc_env 110) ''cs1'' ''ann'' 120 all_strategy None xc_start = ((None, Some cs), c)"
    using xc_apply by blast
  from apply_window_bounds [OF a] a show ?thesis by (auto simp: xc_env_facts)
qed

end
