(* ===== verification/Coord_Gaps.thy ===== *)
theory Coord_Gaps
  imports Coord_Props
begin

text \<open>
  Interleavings in which the coordinator breaks a promise: a hold that is promoted at startup without
  the apply lock, a rollback for a finding that was decided before a confirmation and runs after it,
  and a pause that is given up while its promotion runs.
\<close>

section \<open>Promotion at startup\<close>

text \<open>
  C27. The daemon restarts after a canary hold ended, with an automatic gate, a clean check and the window still
  open. If the recovery promotes the changeset into its confirm window, the apply lock is left free
  although the changeset is in flight with a timer: the entry of an apply, which looks at the lock only, lets a second one start.
\<close>

theorem recovery_promotes_unlocked:
  assumes "store_up E" "ce_stages E = Some True" "keys_ok (cd_st c)" "rowv (cd_st c) i = Some (StatusApplying, d)"
    "cd_stages c i = Some sg" "sg_State sg = StageCanaryHold" "promotes E sg" "st_lockHeldBy (cd_st c) = []" "ch_ID cs = i"
    "rowv (cd_st (recover_applying E cs c)) i = Some (StatusAwaitingConfirm, d')"
  shows "st_lockHeldBy (cd_st (recover_applying E cs c)) = [] \<and> cd_timers (recover_applying E cs c) i = d'"
proof -
  let ?c = "audit E systemRollbackActor ''changeset.recover'' ''canary_hold_expired'' i c"
  have r: "recover_applying E cs c = resolveHold E i sg ?c"
    using assms(5-7,9) by (simp add: recover_applying_def StagedApplyState_up [OF assms(1)] recoverStagedApply_def promotes_def)
  have v: "view ?c = view c" by simp
  note p = view_proj [OF v, simplified]
  have "settles i (view c) (view (recover_applying E cs c))"
    using resolveHold_settles [OF assms(1,2), of ?c i d sg] assms(3-6) p by (simp add: r)
  from settles_row [OF this] assms(4,8,10)
  have l: "st_lockHeldBy (cd_st (recover_applying E cs c)) = []" "cd_timers (recover_applying E cs c) i = d'" by auto
  then show ?thesis by simp
qed

lemma xc_rest_runs:
  "\<exists>ex w. runSteps (exec_with (xc_env 170) None) [2, 3] (rest_executor (xc_env 170) (fromStoreRow xc_paused_row) xc_stage ex_two_nodes xc_pre, ex_world 99, ()) =
     (None, ex, w, ())"
proof -
  have i: "canaryStageIndexes ex_two_nodes [''pve1''] = ([0, 1], [2, 3])" by code_simp
  show ?thesis
    by (simp add: i rest_executor_def exec_with_def xc_env_def xc_stage_def xc_canary_def xc_pre_def xc_paused_row_def xc_row_def fromStoreRow_def
        decodeApplyLog_def seedLog_def pending_log_def enumerate_eq_zip ex_apply_simps upd_step_def)
qed

lemma xc_promotes: "promotes (xc_env 170) xc_stage"
  by (simp add: promotes_def xc_stage_def xc_canary_def checkCanary_def Clean_def xc_env_def xc_svc_def)

text \<open>The promotion of the example's pause from any state that holds it.\<close>

lemma xc_continue:
  assumes "st_rows (cd_st c) ''cs1'' = Some xc_paused_row" "cd_stages c ''cs1'' = Some xc_stage" "cd_pre c ''cs1'' = Some xc_pre"
    "cd_w c = ex_world 99"
  shows "rowv (cd_st (snd (continueStaged (xc_env 170) ''cs1'' actor None c))) ''cs1'' = Some (StatusAwaitingConfirm, Some 220)"
proof -
  let ?E = "xc_env 170" and ?cs = "fromStoreRow xc_paused_row"
  have g: "get_cs ?E ''cs1'' c = Inr ?cs" using assms(1) by (simp add: get_cs_def svc_Get_def repo_Get_def xc_env_def xc_svc_def)
  let ?c = "cancelHoldTimerLocked ''cs1'' (c\<lparr>cd_stages := (cd_stages c)(''cs1'' \<mapsto> xc_stage\<lparr>sg_State := StagePromoting\<rparr>)\<rparr>)"
  have hold: "sg_State xc_stage = StageCanaryHold" by (simp add: xc_stage_def)
  have cl: "continueStaged ?E ''cs1'' actor None c = continue_run ?E actor None ?cs xc_stage ?c"
    using g assms(2) hold xc_paused_facts(3)
    by (simp add: continueStaged_def continue_claim_def claimPauseLocked_def StagedApplyState_up [OF xc_up] stages_Upsert_def xc_env_facts)
  have ix: "snd (canaryStageIndexes ex_two_nodes (as_CanaryNodes (sg_Strategy xc_stage))) = [2, 3]" by code_simp
  have f: "cd_w ?c = ex_world 99" "cd_pre ?c ''cs1'' = Some xc_pre" "cd_st ?c = cd_st c" using assms by (simp_all add: cancelHoldTimerLocked_def)
  obtain ex w where run: "runSteps (exec_with ?E None) [2, 3] (rest_executor ?E ?cs xc_stage ex_two_nodes xc_pre, ex_world 99, cd_r ?c) = (None, ex, w, ())"
    using xc_rest_runs by auto
  let ?c1 = "audit ?E actor ''changeset.continue'' ''promoted'' ''cs1'' (clearStage ?E ''cs1'' (?c\<lparr>cd_w := w, cd_r := ()\<rparr>))"
  have run1: "snd (continue_run ?E actor None ?cs xc_stage ?c) =
      snd (finishAwaitingConfirm ?E actor ?cs ex_two_nodes (ex_log ex) (sg_ConfirmDeadline xc_stage) ?c1)"
    using run ix f xc_paused_facts(4,9) by (simp add: continue_run_def Let_def loadPreSnapshot_def xc_env_facts)
  have v1: "view ?c1 = (view ?c)\<lparr>wn_stages := (cd_stages ?c)(''cs1'' := None)\<rparr>" by (simp add: view_clearStage xc_env_facts)
  have r1: "rowv (cd_st ?c1) (ch_ID ?cs) \<noteq> None"
    using view_proj(1) [OF v1] assms(1) f(3) xc_paused_facts(4) by (simp add: rowv_def)
  note view_proj(1) [OF finishAwaitingConfirm_view [OF xc_up r1 xc_paused_facts(3), of 170 actor ex_two_nodes "ex_log ex" "sg_ConfirmDeadline xc_stage"]]
  moreover have "sg_ConfirmDeadline xc_stage = 220" by (simp add: xc_stage_def)
  moreover have "row_ID xc_paused_row = ''cs1''" by (simp add: xc_paused_row_def xc_row_def)
  ultimately show ?thesis using cl run1 by simp
qed

theorem recovery_promotes_unlocked_witness:
  "rowv (cd_st (recover_applying (xc_env 170) (fromStoreRow xc_paused_row) (crash xc_paused))) ''cs1'' = Some (StatusAwaitingConfirm, Some 220) \<and>
   st_lockHeldBy (cd_st (recover_applying (xc_env 170) (fromStoreRow xc_paused_row) (crash xc_paused))) = []"
proof -
  let ?E = "xc_env 170" and ?c = "crash xc_paused"
  let ?c1 = "audit ?E systemRollbackActor ''changeset.recover'' ''canary_hold_expired'' ''cs1'' ?c"
  let ?c2 = "audit ?E systemRollbackActor ''changeset.apply'' ''canary_gate_passed'' ''cs1'' ?c1"
  have c: "keys_ok (cd_st ?c)" "rowv (cd_st ?c) ''cs1'' = Some (StatusApplying, Some 220)" "cd_stages ?c ''cs1'' = Some xc_stage"
    "st_lockHeldBy (cd_st ?c) = []"
    using xc_paused_facts by (simp_all add: crash_def upd_st_def keys_ok_def rowv_def)
  have h: "sg_State xc_stage = StageCanaryHold" by (simp add: xc_stage_def)
  have f: "st_rows (cd_st ?c2) ''cs1'' = Some xc_paused_row" "cd_stages ?c2 ''cs1'' = Some xc_stage" "cd_pre ?c2 ''cs1'' = Some xc_pre"
    "cd_w ?c2 = ex_world 99"
    using xc_paused_facts(5-7) by (simp_all add: audit_def upd_st_def crash_def xc_paused_def)
  have "recover_applying ?E (fromStoreRow xc_paused_row) ?c = snd (continueStaged ?E ''cs1'' systemRollbackActor None ?c2)"
    using c(3) h xc_promotes xc_paused_facts(4)
    by (auto simp: recover_applying_def StagedApplyState_up [OF xc_up] recoverStagedApply_def resolveHold_def promotes_def)
  with xc_continue [OF f, of systemRollbackActor]
  have r: "rowv (cd_st (recover_applying ?E (fromStoreRow xc_paused_row) ?c)) ''cs1'' = Some (StatusAwaitingConfirm, Some 220)" by simp
  from recovery_promotes_unlocked [OF xc_up xc_env_facts(1) c(1,2,3) h xc_promotes c(4) xc_paused_facts(4) r] r show ?thesis by simp
qed


section \<open>A finding against a confirmation\<close>

text \<open>
  C28. A rollback for a finding is decided without the apply mutex and carried out with the changeset that
  the decision read. When a confirmation gets in between, the changeset is committed, and the rollback
  then restores the nodes of a committed changeset and overwrites its status, a transition the lifecycle
  forbids.
\<close>

theorem stale_finding_undoes_commit:
  assumes "store_up E'" "store_up E''" "keys_ok (cd_st c)"
    "fire_decide E i matched c = (Some (cs, False), c1)" "confirm_locked E' i c1 = (Inr cs', c2)"
  shows "rowv (cd_st c2) i = Some (StatusCommitted, None) \<and>
    (\<exists>t \<in> {StatusRolledBack, StatusFailed}. rowv (cd_st (fire_rollback E'' i (cs, False) c2)) i = Some (t, None) \<and>
       t \<notin> set (allowedTransitions StatusCommitted))"
proof -
  obtain cs0 where g: "get_cs E i c = Inr cs0" and s: "ch_Status cs0 = StatusAwaitingConfirm"
    using assms(4) by (auto simp: fire_decide_def Let_def split: sum.splits if_splits prod.splits)
  note gc = get_csD [OF g assms(3)]
  let ?l = "(decodeApplyLog (ce_codec E) (ch_ApplyLog cs0))\<lparr>al_AutoRollback := Some (newAutoRollbackTrigger matched (ce_now E))\<rparr>"
  have cs: "cs = cs0\<lparr>ch_ApplyLog := jc_marshalLog (ce_codec E) ?l\<rparr>"
    and c1: "c1 = audit E systemRollbackActor ''changeset.auto_rollback'' ''finding_triggered'' i (snd (updateApplyLog E (ch_ID cs0) ?l c))"
    using assms(4) g by (auto simp: fire_decide_def recordAutoRollbackTrigger_def Let_def split: if_splits)
  have v1: "view c1 = view c" using updateApplyLog_view [OF assms(3)] by (simp add: c1)
  have k1: "keys_ok (cd_st c1)" using view_proj(6) [OF v1] assms(3) by simp
  note n = confirm_locked_Inr [OF assms(1) k1 assms(5)]
  have r2: "rowv (cd_st c2) i = Some (StatusCommitted, None)" using view_proj(1) [OF n(2)] by (simp add: end_view_def)
  obtain e cs3 c3 where d: "doRollbackScopedLocked E'' systemRollbackActor None None cs (cancelTimerLocked i c2) = ((e, cs3), c3)" by (metis prod.collapse)
  have id: "ch_ID cs = i" "ch_Status cs \<in> in_flight" using cs gc(1) s by (simp_all add: in_flight_def)
  have rw: "rowv (cd_st (cancelTimerLocked i c2)) (ch_ID cs) \<noteq> None" using r2 id(1) by (simp add: cancelTimerLocked_def)
  from doRollback_view [OF assms(2) rw id(2) d] id(1)
  have v3: "ch_Status cs3 \<in> {StatusRolledBack, StatusFailed}" "view c3 = end_view i (ch_Status cs3) (view (cancelTimerLocked i c2))" by simp_all
  have "fire_rollback E'' i (cs, False) c2 = c3" using d by (simp add: fire_rollback_def doRollbackLocked_def)
  moreover have "rowv (cd_st c3) i = Some (ch_Status cs3, None)" using view_proj(1) [OF v3(2)] by (simp add: end_view_def)
  ultimately show ?thesis using r2 v3(1) by (intro conjI bexI [of _ "ch_Status cs3"]) auto
qed

definition xc_finding :: ObservedFinding where
  "xc_finding = \<lparr> of_ID = ''f1'', of_Check = ''mtu'', of_Severity = ''error'', of_Detail = [], of_Nodes = [''pve1''], of_Refs = [] \<rparr>"

theorem stale_finding_undoes_commit_witness:
  "\<exists>c x c1 cs' c2 t. fire_decide (xc_env 150) ''cs1'' [xc_finding] c = (Some x, c1) \<and>
     confirm_locked (xc_env 151) ''cs1'' c1 = (Inr cs', c2) \<and> rowv (cd_st c2) ''cs1'' = Some (StatusCommitted, None) \<and>
     rowv (cd_st (fire_rollback (xc_env 152) ''cs1'' x c2)) ''cs1'' = Some (t, None) \<and> t \<in> {StatusRolledBack, StatusFailed}"
proof -
  obtain c where c: "coord_step\<^sup>*\<^sup>* (xc_start, None) (c, None)" "rowv (cd_st c) ''cs1'' = Some (StatusAwaitingConfirm, Some 220)"
    "cd_stages c ''cs1'' = None"
    using xc_applied by blast
  have k: "keys_ok (cd_st c)" using guarded_keys [OF reached_guarded [OF xc_idle c(1)]] .
  obtain cs0 where g: "get_cs (xc_env 150) ''cs1'' c = Inr cs0" using get_cs_up [OF xc_up, of c "''cs1''"] c(2) by auto
  have s: "ch_Status cs0 = StatusAwaitingConfirm" using get_csD(2) [OF g k] c(2) by simp
  obtain cs c0 where t: "recordAutoRollbackTrigger (xc_env 150) (newAutoRollbackTrigger [xc_finding] (ce_now (xc_env 150))) cs0 c = (cs, c0)" by fastforce
  have vc0: "view c0 = view c" using t updateApplyLog_view [OF k] by (auto simp: recordAutoRollbackTrigger_def Let_def)
  let ?c1 = "audit (xc_env 150) systemRollbackActor ''changeset.auto_rollback'' ''finding_triggered'' ''cs1'' c0"
  have d: "fire_decide (xc_env 150) ''cs1'' [xc_finding] c = (Some (cs, False), ?c1)"
    using g s t c(3) xc_up [of 150] by (simp add: fire_decide_def StagedApplyState_up [OF xc_up] store_up_def Let_def)
  have v1: "view ?c1 = view c" using vc0 by simp
  obtain cs' c2 where f: "confirm_locked (xc_env 151) ''cs1'' ?c1 = (Inr cs', c2)"
    using confirmable [OF xc_up, of ?c1 "''cs1''" "Some 220" 151] view_proj(1,6) [OF v1] k c(2) by auto
  from stale_finding_undoes_commit [OF xc_up xc_up k d f, of 152] d f show ?thesis by blast
qed


section \<open>Giving up against a promotion\<close>

lemma continue_run_rows:
  assumes "store_up E" "rowv (cd_st c) (ch_ID cs) \<noteq> None" "ch_Status cs = StatusApplying"
  shows "let c' = snd (continue_run E author gw cs state c) in
    rowv (cd_st c') (ch_ID cs) = Some (StatusFailed, None) \<and> st_lockHeldBy (cd_st c') = [] \<or>
    rowv (cd_st c') (ch_ID cs) = Some (StatusAwaitingConfirm, Some (sg_ConfirmDeadline state)) \<and> st_lockHeldBy (cd_st c') = st_lockHeldBy (cd_st c) \<and>
      cd_timers c' (ch_ID cs) = Some (sg_ConfirmDeadline state)"
proof -
  let ?plan = "decodePlan (ce_codec E) (ch_Plan cs)" and ?i = "ch_ID cs"
  have fail: "rowv (cd_st (snd (finishFailedStaged E author cs l e (c\<lparr>cd_w := w, cd_r := r\<rparr>)))) ?i = Some (StatusFailed, None) \<and>
      st_lockHeldBy (cd_st (snd (finishFailedStaged E author cs l e (c\<lparr>cd_w := w, cd_r := r\<rparr>)))) = []" for l e w r
  proof -
    let ?c = "cancelTimerLocked ?i (cancelHoldTimerLocked ?i (clearStage E ?i (c\<lparr>cd_w := w, cd_r := r\<rparr>)))"
    have "cd_st ?c = cd_st c" by (simp add: cancelTimerLocked_def cancelHoldTimerLocked_def clearStage_def)
    then have "view (snd (finishFailedStaged E author cs l e (c\<lparr>cd_w := w, cd_r := r\<rparr>))) = end_view ?i StatusFailed (view ?c)"
      using finishFailedApply_view [OF assms(1), of ?c cs author l e] assms(2,3) by (simp add: finishFailedStaged_def Let_def in_flight_def)
    from view_proj(1,2) [OF this] show ?thesis by (simp add: end_view_def)
  qed
  show ?thesis
  proof (cases "loadPreSnapshot E ?i c")
    case (Inl e)
    with fail [where e = e and w = "cd_w c" and r = "cd_r c"] show ?thesis by (simp add: continue_run_def)
  next
    case (Inr pre)
    let ?rest = "snd (canaryStageIndexes ?plan (as_CanaryNodes (sg_Strategy state)))"
    obtain err ex w r where run: "runSteps (exec_with E gw) ?rest (rest_executor E cs state ?plan pre, cd_w c, cd_r c) = (err, ex, w, r)"
      by (metis prod.collapse)
    show ?thesis
    proof (cases err)
      case (Some e)
      with fail [where l = "ex_log ex" and e = "EExec e" and w = w and r = r] Inr run show ?thesis by (simp add: continue_run_def Let_def)
    next
      case None
      let ?c1 = "audit E author ''changeset.continue'' ''promoted'' ?i (clearStage E ?i (c\<lparr>cd_w := w, cd_r := r\<rparr>))"
      have v1: "view ?c1 = (view c)\<lparr>wn_stages := (if ce_stages E = Some True then (cd_stages c)(?i := None) else cd_stages c)\<rparr>"
        by (simp add: view_clearStage)
      have r1: "rowv (cd_st ?c1) ?i \<noteq> None" using view_proj(1) [OF v1] assms(2) by simp
      note p = view_proj(1-3) [OF finishAwaitingConfirm_view [OF assms(1) r1 assms(3), of author ?plan "ex_log ex" "sg_ConfirmDeadline state"]]
      show ?thesis
        using p view_proj(2) [OF v1] Inr run None by (simp add: continue_run_def Let_def clearStage_def)
    qed
  qed
qed

text \<open>
  A pause that is being promoted can be given up at the same time: only the claim of the pause is made
  under the apply mutex, and giving up does not look at the claim. The abort rolls the canary nodes back
  and frees the lock; the promotion then finishes with the changeset it read before and overwrites the
  outcome. If its steps succeed, the changeset awaits its confirmation with a free lock.
\<close>

theorem abort_overwritten_by_promotion:
  assumes "store_up E" "store_up E'" "store_up E''" "keys_ok (cd_st c)"
    "continue_claim E i c = (Inr (cs, sg), c1)" "c2 = snd (abortStagedApply E' i actor gw c1)"
    "c3 = snd (continue_run E'' author gw' cs sg c2)"
  shows "(\<exists>t \<in> {StatusRolledBack, StatusFailed}. rowv (cd_st c2) i = Some (t, None)) \<and> st_lockHeldBy (cd_st c2) = [] \<and>
    st_lockHeldBy (cd_st c3) = [] \<and>
    rowv (cd_st c3) i \<in> {Some (StatusFailed, None), Some (StatusAwaitingConfirm, Some (sg_ConfirmDeadline sg))}"
proof -
  obtain cs0 where g: "get_cs E i c = Inr cs0" "ch_Status cs0 = StatusApplying" and cs: "cs = cs0"
    using assms(1,5) by (auto simp: continue_claim_def claimPauseLocked_def stages_Upsert_def StagedApplyState_up
        split: sum.splits option.splits if_splits prod.splits)
  note cl = claimed_stage [OF assms(5,1)]
  have st: "cd_st c1 = cd_st c"
    using assms(5) by (auto simp: continue_claim_def claimPauseLocked_def stages_Upsert_def cancelHoldTimerLocked_def
        split: sum.splits option.splits if_splits prod.splits)
  note gc = get_csD [OF g(1) assms(4)]
  obtain sg' where sg': "cd_stages c1 i = Some sg'" using cl(1) by blast
  have "rowv (cd_st c1) i = Some (StatusApplying, ch_ConfirmDeadline cs0)" using st gc g by simp
  from abort_ends [OF assms(2) _ this sg', of actor gw] st assms(4)
  obtain t where t: "t \<in> {StatusRolledBack, StatusFailed}" "view c2 = (end_view i t (view c1))\<lparr>wn_timers := (cd_timers c1)(i := None), wn_holds := (cd_holds c1)(i := None),
      wn_stages := (if ce_stages E' = Some True then (cd_stages c1)(i := None) else cd_stages c1)\<rparr>"
    unfolding assms(6) by auto
  have r2: "rowv (cd_st c2) i = Some (t, None)" "st_lockHeldBy (cd_st c2) = []" using view_proj(1,2) [OF t(2)] by (simp_all add: end_view_def)
  have "rowv (cd_st c2) (ch_ID cs) \<noteq> None" "ch_Status cs = StatusApplying" using r2 cs gc g by simp_all
  from continue_run_rows [OF assms(3) this, of author gw' sg] r2 cs gc(1) t(1) show ?thesis
    unfolding assms(7) Let_def by auto
qed

theorem abort_overwritten_by_promotion_witness:
  "\<exists>x c1. continue_claim (xc_env 130) ''cs1'' xc_paused = (Inr x, c1) \<and>
     st_lockHeldBy (cd_st (snd (continue_run (xc_env 132) ''ann'' None (fst x) (snd x) (snd (abortStagedApply (xc_env 131) ''cs1'' ''bob'' None c1))))) = [] \<and>
     rowv (cd_st (snd (continue_run (xc_env 132) ''ann'' None (fst x) (snd x) (snd (abortStagedApply (xc_env 131) ''cs1'' ''bob'' None c1))))) ''cs1'' \<in>
       {Some (StatusFailed, None), Some (StatusAwaitingConfirm, Some 220)}"
proof -
  have h: "sg_State xc_stage = StageCanaryHold" "sg_ConfirmDeadline xc_stage = 220" by (simp_all add: xc_stage_def)
  obtain c1 where c: "continue_claim (xc_env 130) ''cs1'' xc_paused = (Inr (fromStoreRow xc_paused_row, xc_stage), c1)"
    using h(1) xc_paused_facts(2,3,5)
    by (simp add: continue_claim_def claimPauseLocked_def StagedApplyState_up [OF xc_up] stages_Upsert_def xc_env_facts)
  from abort_overwritten_by_promotion [OF xc_up xc_up xc_up xc_paused_facts(1) c refl refl, of 131 "''bob''" None 132 "''ann''" None] c h(2)
  show ?thesis by (intro exI [of _ "(fromStoreRow xc_paused_row, xc_stage)"] exI [of _ c1]) auto
qed

end
