(* ===== verification/Mgmt_Touch.thy ===== *)
theory Mgmt_Touch
  imports Apply_Plan
begin

text \<open>
  Which changesets touch a management path (\<^verbatim>\<open>src/internal/change/mgmttouch.go\<close>) and which entities a
  changeset touches at all (\<^verbatim>\<open>preflight.go\<close>). The paths themselves, resolved from the protected set by
  \<^verbatim>\<open>topology.ResolveMgmtPaths\<close>, are an argument.
\<close>

section \<open>Data\<close>

record WgTunnelCarrier =
  wc_Node :: string
  wc_Carrier :: string

text \<open>Of a path, the refs this check reads.\<close>

record MgmtPath =
  mp_Ref :: Ref
  mp_Path :: "Ref list"

text \<open>
  The parameter structs that the planner leaves as a type variable, as far as the check tells them
  apart, with the fields it reads. How a value of the type variable presents itself is an argument.
\<close>

datatype rest_params =
    IfaceRawReplaceParams
  | BondCreateParams "string list"
  | BondUpdateParams "string list option"
  | BridgeCreateParams "string list"
  | BridgePortAddParams string
  | BridgePortRemoveParams string
  | VlanCreateParams string
  | WgTunnelCreateParams string
  | WgTunnelUpdateParams "string option"
  | WgTunnelDeleteParams
  | WgPeerRemoveParams
  | NatMasqueradeCreateParams string
  | NatPortForwardCreateParams string
  | NatPortForwardUpdateParams "string option"
  | RouteStaticCreateParams string
  | RouteStaticUpdateParams "string option"
  | VFProvisionParams
  | SwitchPortUpdateParams
  | OtherParams

type_synonym mgmt_paths = "(string \<times> MgmtPath list) list"


section \<open>The check\<close>

definition isIfaceNamespaceKind :: "kind \<Rightarrow> bool" where
  "isIfaceNamespaceKind k \<longleftrightarrow> k \<in> set [KindPhysNic, KindBond, KindOVSBond, KindBridge, KindOVSBridge, KindVlan]"

definition wgPeerTunnelID :: "string \<Rightarrow> string" where
  "wgPeerTunnelID targetID = takeWhile (\<lambda>c. c \<noteq> CHR ''/'') targetID"

definition path_names :: "mgmt_paths \<Rightarrow> (string \<times> string) list" where
  "path_names paths = concat (map (\<lambda>(node, l). concat (map (\<lambda>p. (node, ref_ID (mp_Ref p)) # map (\<lambda>r. (node, ref_ID r)) (mp_Path p)) l)) paths)"

definition touched :: "(string \<times> string) list \<Rightarrow> string \<Rightarrow> string \<Rightarrow> bool" where
  "touched names node name \<longleftrightarrow> name \<noteq> [] \<and> (node, name) \<in> set names"

definition storedCarrierTouched :: "(string \<times> string) list \<Rightarrow> (string \<rightharpoonup> WgTunnelCarrier) \<Rightarrow> string \<Rightarrow> string \<Rightarrow> bool" where
  "storedCarrierTouched names carriers node tunnelID =
     (case carriers tunnelID of None \<Rightarrow> False | Some c \<Rightarrow> wc_Node c = node \<and> touched names node (wc_Carrier c))"

definition opt_touched :: "(string \<times> string) list \<Rightarrow> string \<Rightarrow> string option \<Rightarrow> bool" where
  "opt_touched names node x = (case x of None \<Rightarrow> False | Some name \<Rightarrow> touched names node name)"

definition default_touched :: "(string \<times> string) list \<Rightarrow> Ref \<Rightarrow> bool" where
  "default_touched names t \<longleftrightarrow> isIfaceNamespaceKind (ref_Kind t) \<and> touched names (ref_Node t) (ref_ID t)"

text \<open>One op, by the type of its parameters.\<close>

definition rest_touches :: "mgmt_paths \<Rightarrow> (string \<rightharpoonup> WgTunnelCarrier) \<Rightarrow> string set \<Rightarrow> Ref \<Rightarrow> rest_params \<Rightarrow> bool" where
  "rest_touches paths carriers switchPorts t p =
     (let names = path_names paths; on = touched names (ref_Node t);
          stored = storedCarrierTouched names carriers (ref_Node t)
      in case p of
        IfaceRawReplaceParams \<Rightarrow> (case map_of paths (ref_ID t) of None \<Rightarrow> False | Some l \<Rightarrow> l \<noteq> [])
      | BondCreateParams slaves \<Rightarrow> on (ref_ID t) \<or> list_ex on slaves
      | BondUpdateParams slaves \<Rightarrow> on (ref_ID t) \<or> (case slaves of None \<Rightarrow> False | Some l \<Rightarrow> list_ex on l)
      | BridgeCreateParams ports \<Rightarrow> on (ref_ID t) \<or> list_ex on ports
      | BridgePortAddParams port \<Rightarrow> on (ref_ID t) \<or> on port
      | BridgePortRemoveParams port \<Rightarrow> on (ref_ID t) \<or> on port
      | VlanCreateParams parent \<Rightarrow> on (ref_ID t) \<or> on parent
      | WgTunnelCreateParams carrier \<Rightarrow> on carrier
      | WgTunnelUpdateParams carrier \<Rightarrow> opt_touched names (ref_Node t) carrier \<or> stored (ref_ID t)
      | WgTunnelDeleteParams \<Rightarrow> stored (ref_ID t)
      | WgPeerRemoveParams \<Rightarrow> stored (wgPeerTunnelID (ref_ID t))
      | NatMasqueradeCreateParams i \<Rightarrow> on i
      | NatPortForwardCreateParams i \<Rightarrow> on i
      | NatPortForwardUpdateParams i \<Rightarrow> opt_touched names (ref_Node t) i
      | RouteStaticCreateParams i \<Rightarrow> on i
      | RouteStaticUpdateParams i \<Rightarrow> opt_touched names (ref_Node t) i
      | VFProvisionParams \<Rightarrow> on (ref_ID t)
      | SwitchPortUpdateParams \<Rightarrow> Ref_String t \<in> switchPorts
      | OtherParams \<Rightarrow> default_touched names t)"

definition op_touches :: "('q \<Rightarrow> rest_params) \<Rightarrow> mgmt_paths \<Rightarrow> (string \<rightharpoonup> WgTunnelCarrier) \<Rightarrow> string set \<Rightarrow> 'q plan_op \<Rightarrow> bool" where
  "op_touches rest paths carriers switchPorts op =
     (let names = path_names paths; t = op_Target op in
      case op_Params op of
        PWgPeerAdd _ \<Rightarrow> storedCarrierTouched names carriers (ref_Node t) (wgPeerTunnelID (ref_ID t))
      | POther (PQosShapeCreate p) \<Rightarrow> touched names (ref_Node t) (qsc_Bridge p)
      | POther (PQosShapeUpdate p) \<Rightarrow> opt_touched names (ref_Node t) (qsu_Bridge p)
      | POther PQosShapeDelete \<Rightarrow> False
      | POther (PRest q) \<Rightarrow> rest_touches paths carriers switchPorts t (rest q)
      | POther _ \<Rightarrow> default_touched names t)"

definition TouchesMgmtPath :: "('q \<Rightarrow> rest_params) \<Rightarrow> mgmt_paths \<Rightarrow> (string \<rightharpoonup> WgTunnelCarrier) \<Rightarrow> string set \<Rightarrow> 'q plan_op list \<Rightarrow> bool" where
  "TouchesMgmtPath rest paths carriers switchPorts ops =
     (if ops = [] then False
      else if paths = [] \<and> switchPorts = {} then False
      else list_ex (op_touches rest paths carriers switchPorts) ops)"

definition touchedTargetRefs :: "'p Op list \<Rightarrow> Ref list" where
  "touchedTargetRefs ops = fold (\<lambda>op out. if Ref_IsZero (op_Target op) \<or> op_Target op \<in> set out then out else out @ [op_Target op]) ops []"


section \<open>What it covers\<close>

lemma set_path_names:
  "(node, name) \<in> set (path_names paths) \<longleftrightarrow>
     (\<exists>l p. (node, l) \<in> set paths \<and> p \<in> set l \<and> (name = ref_ID (mp_Ref p) \<or> (\<exists>r\<in>set (mp_Path p). name = ref_ID r)))"
  unfolding path_names_def by fastforce

lemma no_paths: "\<not> touched (path_names []) node name"
  by (simp add: touched_def path_names_def)

text \<open>Without a path and without a switch port no op is flagged, so the early return changes nothing.\<close>

lemma op_touches_empty: "\<not> op_touches rest [] carriers {} op"
  by (auto simp: op_touches_def rest_touches_def storedCarrierTouched_def opt_touched_def default_touched_def no_paths
      list_ex_iff Let_def split: Params.splits plan_params.splits rest_params.splits option.splits)

lemma TouchesMgmtPath_iff:
  "TouchesMgmtPath rest paths carriers switchPorts ops \<longleftrightarrow> (\<exists>op\<in>set ops. op_touches rest paths carriers switchPorts op)"
  using op_touches_empty [of rest carriers] by (auto simp: TouchesMgmtPath_def list_ex_iff)

lemma touchedTargetRefs_props:
  "distinct (touchedTargetRefs ops) \<and> set (touchedTargetRefs ops) = {op_Target op |op. op \<in> set ops \<and> \<not> Ref_IsZero (op_Target op)}"
proof -
  let ?f = "\<lambda>op out. if Ref_IsZero (op_Target op) \<or> op_Target op \<in> set out then out else out @ [op_Target op]"
  have "distinct (fold ?f ops out) \<and> set (fold ?f ops out) = set out \<union> {op_Target op |op. op \<in> set ops \<and> \<not> Ref_IsZero (op_Target op)}"
    if "distinct out" for out
    using that by (induction ops arbitrary: out) auto
  from this [of "[]"] show ?thesis by (simp add: touchedTargetRefs_def)
qed

end
