(* ===== verification/Schedule.thy ===== *)
theory Schedule
  imports Coordinator Mgmt_Touch
begin

text \<open>
  Scheduled changesets (\<^verbatim>\<open>src/internal/change/schedule.go\<close>): the table of schedules with its repository
  (\<^verbatim>\<open>src/internal/store/changeschedules.go\<close>), the callback token, the calls that create, cancel and
  acknowledge a schedule, and the tick of the scheduler, which fires or expires what is due. The
  ticker that calls it is not modelled.
\<close>

section \<open>Data\<close>

datatype ScheduleStatus = SchedulePending | ScheduleFired | ScheduleMissed | ScheduleBlocked | ScheduleFailed | ScheduleCancelled

abbreviation "MissedWindowSkip \<equiv> ''skip''"
abbreviation "MissedWindowApplyImmediately \<equiv> ''applyImmediately''"

definition validMissedWindowPolicy :: "string \<Rightarrow> bool" where
  "validMissedWindowPolicy p \<longleftrightarrow> p = MissedWindowSkip \<or> p = MissedWindowApplyImmediately"

record ScheduleParams =
  sp_MissedWindowPolicy :: string
  sp_WindowStart :: int
  sp_WindowEnd :: int
  sp_ConfirmTimeoutSec :: int

record ChangesetSchedule =
  cg_ChangesetID :: string
  cg_MissedWindowPolicy :: string
  cg_CallbackTokenHash :: string
  cg_Status :: ScheduleStatus
  cg_CreatedBy :: string
  cg_FiredAt :: "int option"
  cg_CancelledAt :: "int option"
  cg_WindowStart :: int
  cg_WindowEnd :: int
  cg_ConfirmTimeoutSec :: int
  cg_CreatedAt :: int

record Schedule =
  sc_FiredAt :: "int option"
  sc_CancelledAt :: "int option"
  sc_ChangesetID :: string
  sc_MissedWindowPolicy :: string
  sc_Status :: ScheduleStatus
  sc_CreatedBy :: string
  sc_CallbackToken :: string
  sc_WindowStart :: int
  sc_WindowEnd :: int
  sc_ConfirmTimeoutSec :: int
  sc_CreatedAt :: int

record MissedSchedule =
  ms_ChangesetID :: string
  ms_WindowStart :: int
  ms_WindowEnd :: int

definition scheduleFromRow :: "ChangesetSchedule \<Rightarrow> Schedule" where
  "scheduleFromRow row = \<lparr> sc_FiredAt = cg_FiredAt row, sc_CancelledAt = cg_CancelledAt row, sc_ChangesetID = cg_ChangesetID row,
     sc_MissedWindowPolicy = cg_MissedWindowPolicy row, sc_Status = cg_Status row, sc_CreatedBy = cg_CreatedBy row,
     sc_CallbackToken = [], sc_WindowStart = cg_WindowStart row, sc_WindowEnd = cg_WindowEnd row,
     sc_ConfirmTimeoutSec = cg_ConfirmTimeoutSec row, sc_CreatedAt = cg_CreatedAt row \<rparr>"

datatype 'p sched_err =
    ECoord "'p coord_err"
  | ErrSchedStorage
  | ErrScheduleNotFound
  | ErrIllegalState
  | ErrInvalidScheduleWindow int int
  | ErrInvalidMissedWindowPolicy string
  | ErrScheduleAlreadyExists string
  | ErrMgmtStatusUnavailable string
  | ErrMgmtPathUnattendedForbidden string
  | ErrInvalidCallbackToken string

text \<open>
  What a call depends on: the environments of the two locked sections of an apply or a confirmation,
  the scheduler's clock, whether the table is wired and answers, the management paths (\<open>None\<close> when
  they cannot be computed), the carriers of the WireGuard tunnels and the impact check (\<open>None\<close> when
  not wired, inside it \<open>None\<close> for an error), and the functions of \<^verbatim>\<open>crypto/hmac\<close> and \<^verbatim>\<open>crypto/sha256\<close>.
\<close>

record ('q, 'w, 'r) sched_env =
  se_enter :: "('q, 'w, 'r) coord_env"
  se_exit :: "('q, 'w, 'r) coord_env"
  se_schedules :: bool
  se_clock :: int
  se_read_ok :: bool
  se_write_ok :: bool
  se_mgmtPaths :: "mgmt_paths option"
  se_wgCarriers :: "(string \<rightharpoonup> WgTunnelCarrier) option option"
  se_impactPreflight :: "(Ref list \<Rightarrow> (bool \<times> string) option) option"
  se_rest :: "'q \<Rightarrow> rest_params"
  se_secret :: "8 word list"
  se_hmac :: "8 word list \<Rightarrow> string \<Rightarrow> 8 word list"
  se_sha256 :: "string \<Rightarrow> 8 word list"

text \<open>The state: the coordinator, and the rows of the table in the order they were inserted.\<close>

record ('q, 'w, 'r) sched =
  sd_c :: "('q, 'w, 'r) coord"
  sd_rows :: "ChangesetSchedule list"

abbreviation systemScheduleActor :: string where
  "systemScheduleActor \<equiv> ''system:schedule''"

definition DefaultConfirmTimeout :: int where "DefaultConfirmTimeout = 120"


section \<open>The table\<close>

definition sched_Upsert :: "ChangesetSchedule \<Rightarrow> ChangesetSchedule list \<Rightarrow> ChangesetSchedule list" where
  "sched_Upsert s rows =
     (let s = s\<lparr>cg_FiredAt := None, cg_CancelledAt := None\<rparr> in
      if list_ex (\<lambda>r. cg_ChangesetID r = cg_ChangesetID s) rows
      then map (\<lambda>r. if cg_ChangesetID r = cg_ChangesetID s then s else r) rows
      else rows @ [s])"

definition sched_Get :: "bool \<Rightarrow> string \<Rightarrow> ChangesetSchedule list \<Rightarrow> 'p sched_err + ChangesetSchedule" where
  "sched_Get ok i rows =
     (if \<not> ok then Inl ErrSchedStorage
      else case List.find (\<lambda>r. cg_ChangesetID r = i) rows of None \<Rightarrow> Inl ErrScheduleNotFound | Some r \<Rightarrow> Inr r)"

definition sched_ListByStatus :: "ScheduleStatus \<Rightarrow> ChangesetSchedule list \<Rightarrow> ChangesetSchedule list" where
  "sched_ListByStatus status rows = sort_key cg_WindowStart (filter (\<lambda>r. cg_Status r = status) rows)"

definition sched_pending :: "string \<Rightarrow> ChangesetSchedule \<Rightarrow> bool" where
  "sched_pending i r \<longleftrightarrow> cg_ChangesetID r = i \<and> cg_Status r = SchedulePending"

definition sched_Resolve :: "string \<Rightarrow> ScheduleStatus \<Rightarrow> int \<Rightarrow> ChangesetSchedule list \<Rightarrow> ChangesetSchedule list" where
  "sched_Resolve i status firedAt rows =
     map (\<lambda>r. if sched_pending i r then r\<lparr>cg_Status := status, cg_FiredAt := Some firedAt\<rparr> else r) rows"

definition sched_Cancel :: "bool \<Rightarrow> bool \<Rightarrow> string \<Rightarrow> int \<Rightarrow> ChangesetSchedule list \<Rightarrow> 'p sched_err option \<times> ChangesetSchedule list" where
  "sched_Cancel wok rok i cancelledAt rows =
     (if \<not> wok then (Some ErrSchedStorage, rows)
      else if list_ex (sched_pending i) rows
      then (None, map (\<lambda>r. if sched_pending i r then r\<lparr>cg_Status := ScheduleCancelled, cg_CancelledAt := Some cancelledAt\<rparr> else r) rows)
      else case sched_Get rok i rows of Inl e \<Rightarrow> (Some e, rows) | Inr _ \<Rightarrow> (Some ErrIllegalState, rows))"


section \<open>The callback token\<close>

text \<open>\<open>hex.EncodeToString\<close> and \<open>hex.DecodeString\<close>.\<close>

definition hex_EncodeToString :: "8 word list \<Rightarrow> string" where
  "hex_EncodeToString bs = concat (map (\<lambda>b. [go_hexdigit (uint b div 16), go_hexdigit (uint b mod 16)]) bs)"

fun hex_DecodeString :: "string \<Rightarrow> 8 word list option" where
  "hex_DecodeString [] = Some []"
| "hex_DecodeString [c] = None"
| "hex_DecodeString (c # d # cs) =
     (case (hex_digit c, hex_digit d) of
        (Some x, Some y) \<Rightarrow> map_option (\<lambda>bs. word_of_int (16 * x + y) # bs) (hex_DecodeString cs)
      | _ \<Rightarrow> None)"

definition hashCallbackToken :: "(string \<Rightarrow> 8 word list) \<Rightarrow> string \<Rightarrow> string" where
  "hashCallbackToken sha token = hex_EncodeToString (sha token)"

definition mintCallbackToken :: "('q, 'w, 'r) sched_env \<Rightarrow> string \<Rightarrow> int \<Rightarrow> string \<times> string" where
  "mintCallbackToken S changesetID deadline =
     (let token = hex_EncodeToString (se_hmac S (se_secret S) (changesetID @ [CHR 0x00] @ go_Itoa deadline))
      in (token, hashCallbackToken (se_sha256 S) token))"

definition verifyCallbackToken :: "(string \<Rightarrow> 8 word list) \<Rightarrow> string \<Rightarrow> string \<Rightarrow> bool" where
  "verifyCallbackToken sha token want =
     (if token = [] \<or> want = [] then False
      else case hex_DecodeString (hashCallbackToken sha token) of None \<Rightarrow> False
      | Some gotHash \<Rightarrow> (case hex_DecodeString want of None \<Rightarrow> False | Some wantHash \<Rightarrow> gotHash = wantHash))"


section \<open>Helpers\<close>

definition upd_c :: "(('q, 'w, 'r) coord \<Rightarrow> ('q, 'w, 'r) coord) \<Rightarrow> ('q, 'w, 'r) sched \<Rightarrow> ('q, 'w, 'r) sched" where
  "upd_c f s = s\<lparr>sd_c := f (sd_c s)\<rparr>"

definition saudit :: "('q, 'w, 'r) sched_env \<Rightarrow> string \<Rightarrow> string \<Rightarrow> string \<Rightarrow> string \<Rightarrow> ('q, 'w, 'r) sched \<Rightarrow> ('q, 'w, 'r) sched" where
  "saudit S author action res i = upd_c (audit (se_enter S) author action res i)"

definition scheduleConfigured :: "('q, 'w, 'r) sched_env \<Rightarrow> bool" where
  "scheduleConfigured S \<longleftrightarrow> ce_applyConfigured (se_enter S) \<and> se_schedules S"

definition wgTunnelCarriers :: "('q, 'w, 'r) sched_env \<Rightarrow> (string \<rightharpoonup> WgTunnelCarrier)" where
  "wgTunnelCarriers S = (case se_wgCarriers S of Some (Some m) \<Rightarrow> m | _ \<Rightarrow> Map.empty)"

definition preflightImpactBlocks :: "('q, 'w, 'r) sched_env \<Rightarrow> 'q plan_op list \<Rightarrow> string option" where
  "preflightImpactBlocks S ops =
     (case se_impactPreflight S of None \<Rightarrow> None
      | Some f \<Rightarrow>
          (case f (touchedTargetRefs ops) of
             None \<Rightarrow> Some ''failure_impact_error''
           | Some (veto, why) \<Rightarrow> if veto then Some (''failure_impact_'' @ why) else None))"

definition planNeedsPVEGateway :: "'q plan_op list \<Rightarrow> bool" where
  "planNeedsPVEGateway ops =
     (case BuildPlan ops of Inl _ \<Rightarrow> False
      | Inr plan \<Rightarrow> list_ex (\<lambda>st. st_Kind st \<in> set [StepSDNStage, StepSDNApply, StepFwApply, StepFwVerify, StepIpamAlloc]) plan)"

definition touchesMgmt :: "('q, 'w, 'r) sched_env \<Rightarrow> mgmt_paths \<Rightarrow> 'q plan_op list \<Rightarrow> bool" where
  "touchesMgmt S paths ops = TouchesMgmtPath (se_rest S) paths (wgTunnelCarriers S) {} ops"


section \<open>The calls\<close>

definition schedule_row :: "('q, 'w, 'r) sched_env \<Rightarrow> string \<Rightarrow> string \<Rightarrow> string \<Rightarrow> int \<Rightarrow> ScheduleParams \<Rightarrow> ChangesetSchedule" where
  "schedule_row S i author policy confirmTimeoutSec p =
     \<lparr> cg_ChangesetID = i, cg_MissedWindowPolicy = policy,
       cg_CallbackTokenHash = snd (mintCallbackToken S i (sp_WindowEnd p)), cg_Status = SchedulePending,
       cg_CreatedBy = author, cg_FiredAt = None, cg_CancelledAt = None,
       cg_WindowStart = sp_WindowStart p, cg_WindowEnd = sp_WindowEnd p,
       cg_ConfirmTimeoutSec = confirmTimeoutSec, cg_CreatedAt = se_clock S \<rparr>"

definition svc_Schedule :: "('q, 'w, 'r) sched_env \<Rightarrow> string \<Rightarrow> string \<Rightarrow> ScheduleParams \<Rightarrow> ('q, 'w, 'r) sched
    \<Rightarrow> ('q plan_params sched_err + Schedule) \<times> ('q, 'w, 'r) sched" where
  "svc_Schedule S i author p s =
     (if \<not> scheduleConfigured S then (Inl (ECoord ErrApplyNotConfigured), s)
      else if sp_WindowStart p \<ge> sp_WindowEnd p then (Inl (ErrInvalidScheduleWindow (sp_WindowStart p) (sp_WindowEnd p)), s)
      else let policy = (if sp_MissedWindowPolicy p = [] then MissedWindowSkip else sp_MissedWindowPolicy p) in
      if \<not> validMissedWindowPolicy policy then (Inl (ErrInvalidMissedWindowPolicy policy), s)
      else let confirmTimeoutSec = (if sp_ConfirmTimeoutSec p \<le> 0 then DefaultConfirmTimeout else sp_ConfirmTimeoutSec p) in
      case get_cs (se_enter S) i (sd_c s) of Inl e \<Rightarrow> (Inl (ECoord (EChange e)), s)
      | Inr cs \<Rightarrow>
      if \<not> Editable cs then (Inl (ECoord (EChange (ErrIllegalTransition (ch_Status cs) StatusApplying))), s)
      else if (case sched_Get (se_read_ok S) i (sd_rows s) of Inl (_ :: 'q plan_params sched_err) \<Rightarrow> False | Inr r \<Rightarrow> cg_Status r = SchedulePending)
      then (Inl (ErrScheduleAlreadyExists i), s)
      else case se_mgmtPaths S of None \<Rightarrow> (Inl (ErrMgmtStatusUnavailable i), s)
      | Some paths \<Rightarrow>
      if touchesMgmt S paths (ch_Ops cs)
      then (Inl (ErrMgmtPathUnattendedForbidden i), saudit S author ''changeset.schedule_create'' ''mgmt_path_unattended_forbidden'' i s)
      else let findings = svc_validate (sv_inputs (ce_svc (se_enter S))) (ch_ClusterID cs) (ch_ID cs) (ch_Ops cs) in
      if hasError findings
      then (Inl (ECoord (EApply (ErrValidationBlocked findings))), saudit S author ''changeset.schedule_create'' ''validation_failed'' i s)
      else let row = schedule_row S i author policy confirmTimeoutSec p in
      if \<not> se_write_ok S then (Inl ErrSchedStorage, s)
      else (Inr ((scheduleFromRow row)\<lparr>sc_CallbackToken := fst (mintCallbackToken S i (sp_WindowEnd p))\<rparr>),
            saudit S author ''changeset.schedule_create'' ''success'' i (s\<lparr>sd_rows := sched_Upsert row (sd_rows s)\<rparr>)))"

definition GetSchedule :: "('q, 'w, 'r) sched_env \<Rightarrow> string \<Rightarrow> ('q, 'w, 'r) sched \<Rightarrow> 'q plan_params sched_err + Schedule" where
  "GetSchedule S i s =
     (if \<not> scheduleConfigured S then Inl (ECoord ErrApplyNotConfigured)
      else case sched_Get (se_read_ok S) i (sd_rows s) of Inl e \<Rightarrow> Inl e | Inr row \<Rightarrow> Inr (scheduleFromRow row))"

definition CancelSchedule :: "('q, 'w, 'r) sched_env \<Rightarrow> string \<Rightarrow> string \<Rightarrow> ('q, 'w, 'r) sched
    \<Rightarrow> 'q plan_params sched_err option \<times> ('q, 'w, 'r) sched" where
  "CancelSchedule S i author s =
     (if \<not> scheduleConfigured S then (Some (ECoord ErrApplyNotConfigured), s)
      else case sched_Cancel (se_write_ok S) (se_read_ok S) i (se_clock S) (sd_rows s) of
        (Some e, _) \<Rightarrow> (Some e, s)
      | (None, rows) \<Rightarrow> (None, saudit S author ''changeset.schedule_cancel'' ''success'' i (s\<lparr>sd_rows := rows\<rparr>)))"

definition AckSchedule :: "('q, 'w, 'r) sched_env \<Rightarrow> string \<Rightarrow> string \<Rightarrow> ('q, 'w, 'r) sched
    \<Rightarrow> ('q plan_params sched_err option \<times> 'q plan_params Changeset option) \<times> ('q, 'w, 'r) sched" where
  "AckSchedule S i token s =
     (if \<not> scheduleConfigured S then ((Some (ECoord ErrApplyNotConfigured), None), s)
      else case sched_Get (se_read_ok S) i (sd_rows s) of Inl e \<Rightarrow> ((Some e, None), s)
      | Inr row \<Rightarrow>
      if \<not> verifyCallbackToken (se_sha256 S) token (cg_CallbackTokenHash row) then ((Some (ErrInvalidCallbackToken i), None), s)
      else case Confirm (se_enter S) (se_exit S) i (systemScheduleActor @ '':webhook'') (sd_c s) of
        ((e, cs), c) \<Rightarrow> ((map_option ECoord e, cs), s\<lparr>sd_c := c\<rparr>))"


section \<open>The tick\<close>

definition resolveSchedule :: "('q, 'w, 'r) sched_env \<Rightarrow> ChangesetSchedule \<Rightarrow> ScheduleStatus \<Rightarrow> ('q, 'w, 'r) sched \<Rightarrow> ('q, 'w, 'r) sched" where
  "resolveSchedule S row status s =
     (if se_write_ok S then s\<lparr>sd_rows := sched_Resolve (cg_ChangesetID row) status (se_clock S) (sd_rows s)\<rparr> else s)"

text \<open>An apply without a session: no gateway, nothing to seal, no foreign SDN entries are seen.\<close>

definition sessionless :: "('q, 'w, 'r) coord_env \<Rightarrow> ('q, 'w, 'r) coord_env" where
  "sessionless E = E\<lparr>ce_exec := (ce_exec E)\<lparr>xe_pve := None\<rparr>, ce_ticket := None, ce_gates := (ce_gates E)\<lparr>ag_foreign := Some []\<rparr>\<rparr>"

text \<open>The checks before a schedule fires: the status and the audit result it ends with, if one refuses.\<close>

definition fire_gates :: "('q, 'w, 'r) sched_env \<Rightarrow> ChangesetSchedule \<Rightarrow> ('q, 'w, 'r) sched \<Rightarrow> (ScheduleStatus \<times> string) option" where
  "fire_gates S row s =
     (case get_cs (se_enter S) (cg_ChangesetID row) (sd_c s) of
        Inl _ \<Rightarrow> Some (ScheduleFailed, ''changeset_missing'')
      | Inr cs \<Rightarrow>
      if (case se_mgmtPaths S of None \<Rightarrow> False | Some paths \<Rightarrow> touchesMgmt S paths (ch_Ops cs))
      then Some (ScheduleBlocked, ''mgmt_path_unattended_forbidden'')
      else case preflightImpactBlocks S (ch_Ops cs) of
        Some reason \<Rightarrow> Some (ScheduleBlocked, reason)
      | None \<Rightarrow> if planNeedsPVEGateway (ch_Ops cs) then Some (ScheduleBlocked, ''pve_session_required'') else None)"

definition fire_timeout :: "ChangesetSchedule \<Rightarrow> int \<Rightarrow> int" where
  "fire_timeout row effectiveStart =
     (let remaining = cg_WindowEnd row - effectiveStart; timeout = cg_ConfirmTimeoutSec row
      in if timeout > remaining then remaining else timeout)"

definition fire_resolve :: "('q, 'w, 'r) sched_env \<Rightarrow> ChangesetSchedule \<Rightarrow> 'q plan_params coord_err option \<Rightarrow> ('q, 'w, 'r) sched \<Rightarrow> ('q, 'w, 'r) sched" where
  "fire_resolve S row applyErr s =
     (case applyErr of
        Some _ \<Rightarrow> saudit S systemScheduleActor ''changeset.schedule_fire_blocked'' ''apply_failed'' (cg_ChangesetID row)
                    (resolveSchedule S row ScheduleBlocked s)
      | None \<Rightarrow> saudit S systemScheduleActor ''changeset.schedule_fire'' ''success'' (cg_ChangesetID row)
                    (resolveSchedule S row ScheduleFired s))"

definition fire_apply :: "('q, 'w, 'r) sched_env \<Rightarrow> ChangesetSchedule \<Rightarrow> int \<Rightarrow> ('q, 'w, 'r) coord \<Rightarrow> ('q, 'w, 'r) coord_out" where
  "fire_apply S row effectiveStart c =
     Apply (sessionless (se_enter S)) (sessionless (se_exit S)) (cg_ChangesetID row) systemScheduleActor (fire_timeout row effectiveStart) c"

definition fireSchedule :: "('q, 'w, 'r) sched_env \<Rightarrow> ChangesetSchedule \<Rightarrow> int \<Rightarrow> ('q, 'w, 'r) sched \<Rightarrow> ('q, 'w, 'r) sched" where
  "fireSchedule S row effectiveStart s =
     (case fire_gates S row s of
        Some (status, reason) \<Rightarrow>
          saudit S systemScheduleActor ''changeset.schedule_fire_blocked'' reason (cg_ChangesetID row) (resolveSchedule S row status s)
      | None \<Rightarrow>
          (case fire_apply S row effectiveStart (sd_c s) of ((applyErr, _), c) \<Rightarrow> fire_resolve S row applyErr (s\<lparr>sd_c := c\<rparr>)))"

definition handleMissedWindow :: "('q, 'w, 'r) sched_env \<Rightarrow> ChangesetSchedule \<Rightarrow> ('q, 'w, 'r) sched \<Rightarrow> ('q, 'w, 'r) sched" where
  "handleMissedWindow S row s =
     (if cg_MissedWindowPolicy row = MissedWindowApplyImmediately then fireSchedule S row (se_clock S) s
      else saudit S systemScheduleActor ''changeset.schedule_missed'' ''missed'' (cg_ChangesetID row)
             (resolveSchedule S row ScheduleMissed s))"

definition tick_row :: "('q, 'w, 'r) sched_env \<Rightarrow> int \<Rightarrow> ChangesetSchedule \<Rightarrow> ('q, 'w, 'r) sched \<Rightarrow> ('q, 'w, 'r) sched" where
  "tick_row S now row s =
     (if now \<ge> cg_WindowStart row \<and> now < cg_WindowEnd row then fireSchedule S row (cg_WindowStart row) s
      else if now \<ge> cg_WindowEnd row then handleMissedWindow S row s
      else s)"

text \<open>The rows are listed once; the environment of each firing is the one of its changeset.\<close>

definition TickSchedules :: "('q, 'w, 'r) sched_env \<Rightarrow> (string \<Rightarrow> ('q, 'w, 'r) sched_env) \<Rightarrow> ('q, 'w, 'r) sched \<Rightarrow> ('q, 'w, 'r) sched" where
  "TickSchedules S F s =
     (if \<not> scheduleConfigured S then s
      else if \<not> ce_mayLead (se_enter S) then s
      else if \<not> se_read_ok S then s
      else fold (\<lambda>row. tick_row (F (cg_ChangesetID row)) (se_clock S) row) (sched_ListByStatus SchedulePending (sd_rows s)) s)"

definition MissedSchedules :: "('q, 'w, 'r) sched_env \<Rightarrow> ('q, 'w, 'r) sched \<Rightarrow> MissedSchedule list" where
  "MissedSchedules S s =
     (if \<not> scheduleConfigured S \<or> \<not> se_read_ok S then []
      else map (\<lambda>row. \<lparr> ms_ChangesetID = cg_ChangesetID row, ms_WindowStart = cg_WindowStart row, ms_WindowEnd = cg_WindowEnd row \<rparr>)
             (sched_ListByStatus ScheduleMissed (sd_rows s)))"

end
