(* ===== verification/Sched_System.thy ===== *)
theory Sched_System
  imports Schedule Coord_Props
begin

text \<open>
  The scheduler on top of the coordinator as a transition system: its calls and its resolutions of
  rows interleave with every step of the coordinator. The invariant keeps the confirm window guarded
  and the table of schedules well-formed, and a tick is shown to be a sequence of such steps.
\<close>

section \<open>The table\<close>

text \<open>A row of the table: a real window, a known policy, and the stamp that its status calls for.\<close>

definition schedule_ok :: "ChangesetSchedule \<Rightarrow> bool" where
  "schedule_ok r \<longleftrightarrow> cg_WindowStart r < cg_WindowEnd r \<and> validMissedWindowPolicy (cg_MissedWindowPolicy r) \<and> 0 < cg_ConfirmTimeoutSec r \<and>
     (cg_FiredAt r = None \<longleftrightarrow> cg_Status r \<in> {SchedulePending, ScheduleCancelled}) \<and>
     (cg_CancelledAt r = None \<longleftrightarrow> cg_Status r \<noteq> ScheduleCancelled)"

definition table_wf :: "ChangesetSchedule list \<Rightarrow> bool" where
  "table_wf rows \<longleftrightarrow> distinct (map cg_ChangesetID rows) \<and> list_all schedule_ok rows"

lemma wf_map:
  assumes "table_wf rows" "\<And>r. cg_ChangesetID (f r) = cg_ChangesetID r" "\<And>r. schedule_ok r \<Longrightarrow> schedule_ok (f r)"
  shows "table_wf (map f rows)"
proof -
  have "map cg_ChangesetID (map f rows) = map cg_ChangesetID rows" using assms(2) by simp
  with assms(1,3) show ?thesis by (simp add: table_wf_def list_all_iff del: map_map)
qed

lemma wf_Resolve:
  assumes "table_wf rows" "status \<notin> {SchedulePending, ScheduleCancelled}"
  shows "table_wf (sched_Resolve i status t rows)"
  unfolding sched_Resolve_def using assms by (intro wf_map) (auto simp: schedule_ok_def sched_pending_def)

lemma wf_Cancel:
  assumes "table_wf rows" "sched_Cancel wok rok i t rows = (e, rows')"
  shows "table_wf rows'"
proof -
  have "table_wf (map (\<lambda>r. if sched_pending i r then r\<lparr>cg_Status := ScheduleCancelled, cg_CancelledAt := Some t\<rparr> else r) rows)"
    using assms(1) by (intro wf_map) (auto simp: schedule_ok_def sched_pending_def)
  then show ?thesis using assms by (auto simp: sched_Cancel_def split: if_splits sum.splits)
qed

lemma wf_Upsert:
  assumes "table_wf rows" "schedule_ok r" "cg_Status r = SchedulePending"
  shows "table_wf (sched_Upsert r rows)"
proof -
  let ?s = "r\<lparr>cg_FiredAt := None, cg_CancelledAt := None\<rparr>"
  have s: "schedule_ok ?s" using assms(2,3) by (simp add: schedule_ok_def)
  have "table_wf (map (\<lambda>q. if cg_ChangesetID q = cg_ChangesetID ?s then ?s else q) rows)"
    using assms(1) s by (intro wf_map) auto
  moreover have "table_wf (rows @ [?s])" if "\<not> list_ex (\<lambda>q. cg_ChangesetID q = cg_ChangesetID ?s) rows"
    using that assms(1) s by (auto simp: table_wf_def list_ex_iff)
  ultimately show ?thesis by (simp add: sched_Upsert_def Let_def)
qed

lemma find_row:
  assumes "distinct (map cg_ChangesetID rows)" "r \<in> set rows"
  shows "List.find (\<lambda>q. cg_ChangesetID q = cg_ChangesetID r) rows = Some r"
  using assms by (induction rows) auto

lemma find_map_row:
  assumes "\<And>r. cg_ChangesetID (f r) = cg_ChangesetID r"
  shows "List.find (\<lambda>q. cg_ChangesetID q = i) (map f rows) = map_option f (List.find (\<lambda>q. cg_ChangesetID q = i) rows)"
  by (induction rows) (auto simp: assms)


section \<open>The steps\<close>

lemma view_saudit [simp]: "view (sd_c (saudit S author action res i s)) = view (sd_c s)"
  by (simp add: saudit_def upd_c_def)

lemma saudit_rows [simp]: "sd_rows (saudit S author action res i s) = sd_rows s"
  by (simp add: saudit_def upd_c_def)

lemma resolveSchedule_c [simp]: "sd_c (resolveSchedule S row status s) = sd_c s"
  by (simp add: resolveSchedule_def)

type_synonym ('q, 'w, 'r) sched_sys = "('q, 'w, 'r) sched \<times> 'q job option"

text \<open>
  A step of the coordinator, a call of the scheduler's own, or the end of a firing: it resolves a row
  that was listed at some time before. What else a firing or an acknowledgement does are steps of the
  coordinator.
\<close>

inductive sched_step :: "('q, 'w, 'r) sched_sys \<Rightarrow> ('q, 'w, 'r) sched_sys \<Rightarrow> bool" where
  Coord: "coord_step (sd_c s, j) (c, j') \<Longrightarrow> sched_step (s, j) (s\<lparr>sd_c := c\<rparr>, j')"
| ScheduleCall: "sched_step (s, j) (snd (svc_Schedule S i author p s), j)"
| CancelCall: "sched_step (s, j) (snd (CancelSchedule S i author s), j)"
| ResolveRow: "status \<notin> {SchedulePending, ScheduleCancelled} \<Longrightarrow>
     sched_step (s, j) (saudit S author action res (cg_ChangesetID row) (resolveSchedule S row status s), j)"

definition sched_inv :: "('q, 'w, 'r) sched_sys \<Rightarrow> bool" where
  "sched_inv x \<longleftrightarrow> window_inv (sd_c (fst x), snd x) \<and> table_wf (sd_rows (fst x))"

lemma window_inv_view: "view c' = view c \<Longrightarrow> window_inv (c', j) \<longleftrightarrow> window_inv (c, j)"
  by (simp add: window_inv_def)

text \<open>Creating a schedule only adds its row, pending, and only when every check passes.\<close>

lemma svc_Schedule_effect:
  assumes "svc_Schedule S i author p s = (res, s')"
  shows "view (sd_c s') = view (sd_c s)"
    "(\<exists>e. res = Inl e) \<Longrightarrow> sd_rows s' = sd_rows s"
    "res = Inr x \<Longrightarrow> \<exists>r cs paths. sd_rows s' = sched_Upsert r (sd_rows s) \<and> schedule_ok r \<and> cg_Status r = SchedulePending \<and> cg_ChangesetID r = i \<and>
       x = (scheduleFromRow r)\<lparr>sc_CallbackToken := fst (mintCallbackToken S i (cg_WindowEnd r))\<rparr> \<and>
       cg_CallbackTokenHash r = snd (mintCallbackToken S i (cg_WindowEnd r)) \<and>
       get_cs (se_enter S) i (sd_c s) = Inr cs \<and> Editable cs \<and> se_mgmtPaths S = Some paths \<and> \<not> touchesMgmt S paths (ch_Ops cs) \<and>
       \<not> hasError (svc_validate (sv_inputs (ce_svc (se_enter S))) (ch_ClusterID cs) (ch_ID cs) (ch_Ops cs))"
proof -
  show "view (sd_c s') = view (sd_c s)" "(\<exists>e. res = Inl e) \<Longrightarrow> sd_rows s' = sd_rows s"
    using assms by (auto simp: svc_Schedule_def Let_def split: if_splits sum.splits option.splits)
  assume x: "res = Inr x"
  obtain cs where cs: "get_cs (se_enter S) i (sd_c s) = Inr cs"
    using assms x by (cases "get_cs (se_enter S) i (sd_c s)") (auto simp: svc_Schedule_def Let_def split: if_splits)
  obtain paths where ps: "se_mgmtPaths S = Some paths"
    using assms x cs by (cases "se_mgmtPaths S") (auto simp: svc_Schedule_def Let_def split: if_splits)
  let ?pol = "if sp_MissedWindowPolicy p = [] then MissedWindowSkip else sp_MissedWindowPolicy p"
  let ?t = "if sp_ConfirmTimeoutSec p \<le> 0 then DefaultConfirmTimeout else sp_ConfirmTimeoutSec p"
  let ?r = "schedule_row S i author ?pol ?t p"
  have f: "sp_WindowStart p < sp_WindowEnd p" "validMissedWindowPolicy ?pol" "Editable cs" "\<not> touchesMgmt S paths (ch_Ops cs)"
    "\<not> hasError (svc_validate (sv_inputs (ce_svc (se_enter S))) (ch_ClusterID cs) (ch_ID cs) (ch_Ops cs))"
    "sd_rows s' = sched_Upsert ?r (sd_rows s)" "x = (scheduleFromRow ?r)\<lparr>sc_CallbackToken := fst (mintCallbackToken S i (sp_WindowEnd p))\<rparr>"
    using assms x cs ps by (auto simp: svc_Schedule_def Let_def split: if_splits sum.splits)
  have "schedule_ok ?r" using f(1,2) by (simp add: schedule_ok_def schedule_row_def DefaultConfirmTimeout_def)
  moreover have "cg_WindowEnd ?r = sp_WindowEnd p" "cg_Status ?r = SchedulePending" "cg_ChangesetID ?r = i"
    "cg_CallbackTokenHash ?r = snd (mintCallbackToken S i (sp_WindowEnd p))" by (simp_all add: schedule_row_def)
  ultimately show "\<exists>r cs paths. sd_rows s' = sched_Upsert r (sd_rows s) \<and> schedule_ok r \<and> cg_Status r = SchedulePending \<and> cg_ChangesetID r = i \<and>
       x = (scheduleFromRow r)\<lparr>sc_CallbackToken := fst (mintCallbackToken S i (cg_WindowEnd r))\<rparr> \<and>
       cg_CallbackTokenHash r = snd (mintCallbackToken S i (cg_WindowEnd r)) \<and>
       get_cs (se_enter S) i (sd_c s) = Inr cs \<and> Editable cs \<and> se_mgmtPaths S = Some paths \<and> \<not> touchesMgmt S paths (ch_Ops cs) \<and>
       \<not> hasError (svc_validate (sv_inputs (ce_svc (se_enter S))) (ch_ClusterID cs) (ch_ID cs) (ch_Ops cs))"
    using f cs ps by metis
qed

lemma CancelSchedule_effect:
  fixes e :: "'q plan_params sched_err option"
  assumes "CancelSchedule S i author s = (e, s')"
  shows "view (sd_c s') = view (sd_c s)" "sd_rows s' = sd_rows s \<or>
    (\<exists>wok rok e'. sched_Cancel wok rok i (se_clock S) (sd_rows s) = (e' :: 'q plan_params sched_err option, sd_rows s'))"
  using assms by (auto simp: CancelSchedule_def split: if_splits prod.splits option.splits)

lemma sched_step_inv:
  assumes "sched_step x y" "sched_inv x"
  shows "sched_inv y"
  using assms
proof (induction rule: sched_step.induct)
  case (Coord s j c j')
  then show ?case using window_step [OF Coord(1)] by (simp add: sched_inv_def)
next
  case (ScheduleCall s j S i author p)
  obtain res s' where e: "svc_Schedule S i author p s = (res, s')" by fastforce
  note f = svc_Schedule_effect [OF e]
  have "table_wf (sd_rows s')"
  proof (cases res)
    case (Inr x)
    then obtain r where "sd_rows s' = sched_Upsert r (sd_rows s)" "schedule_ok r" "cg_Status r = SchedulePending" using f(3) by blast
    then show ?thesis using ScheduleCall wf_Upsert by (simp add: sched_inv_def)
  qed (use f(2) ScheduleCall in \<open>auto simp: sched_inv_def\<close>)
  then show ?case using ScheduleCall e window_inv_view [OF f(1)] by (simp add: sched_inv_def)
next
  case (CancelCall s j S i author)
  obtain e s' where e: "CancelSchedule S i author s = (e, s')" by fastforce
  note f = CancelSchedule_effect [OF e]
  have "table_wf (sd_rows s')" using f(2) CancelCall wf_Cancel by (auto simp: sched_inv_def)
  then show ?case using CancelCall e window_inv_view [OF f(1)] by (simp add: sched_inv_def)
next
  case (ResolveRow status s j S author action res row)
  then show ?case
    using window_inv_view [of "sd_c (saudit S author action res (cg_ChangesetID row) (resolveSchedule S row status s))" "sd_c s" j]
    by (auto simp: sched_inv_def resolveSchedule_def wf_Resolve)
qed

interpretation scheduler: transition_system sched_step sched_inv
  by unfold_locales (rule sched_step_inv)



section \<open>A tick is a run\<close>

lemma sessionless_simps [simp]:
  "store_up (sessionless E) = store_up E" "sv_now (ce_svc (sessionless E)) = sv_now (ce_svc E)" "confirm_timeout (sessionless E) t = confirm_timeout E t"
  "ce_svc (sessionless E) = ce_svc E"
  by (simp_all add: sessionless_def store_up_def confirm_timeout_def)

text \<open>While a call executes its steps it holds the lock, and no other apply is let in.\<close>

lemma running_refuses:
  assumes "window_inv (c, Some j)" "apply_enter E i author t strategy c = (res, c')"
  shows "\<exists>e. res = Inl e"
proof (cases res)
  case (Inr x)
  obtain cs plan st where x: "x = (cs, plan, st)" by (cases x)
  have g: "guarded_win (Some (ch_ID (jb_cs j))) (view c)" using assms(1) by (simp add: window_inv_def job_win_def)
  have "st_lockHeldBy (cd_st c) = []" using apply_enter_Inr(1) [OF _ guarded_keys [OF g]] assms(2) Inr x by blast
  moreover have "st_lockHeldBy (cd_st c) = ch_ID (jb_cs j)" "rowv (cd_st c) (ch_ID (jb_cs j)) \<noteq> None"
    using g by (auto simp: guarded_win_def)
  moreover have "rowv (cd_st c) [] = None" using guarded_empty [OF g] by (simp add: rowv_def)
  ultimately show ?thesis by simp
qed simp

lemma Apply_steps:
  assumes "store_up E" "store_up E'" "window_inv (c, j)"
  shows "coord_step\<^sup>*\<^sup>* (c, j) (snd (ApplyWithOptions E E' i author timeout strategy opt c), j)"
proof -
  let ?t = "confirm_timeout E timeout"
  have ac: "ce_applyConfigured E" using assms(1) by (simp add: store_up_def)
  obtain res c1 where e: "apply_enter E i author ?t strategy c = (res, c1)" by fastforce
  show ?thesis
  proof (cases res)
    case (Inl x)
    with e ac have "snd (ApplyWithOptions E E' i author timeout strategy opt c) = c1" by (simp add: ApplyWithOptions_def Let_def)
    then show ?thesis using coord_step.Refuse [OF e [unfolded Inl]] by (simp add: r_into_rtranclp)
  next
    case (Inr x)
    then obtain cs plan st where x: "res = Inr (cs, plan, st)" by (cases x) simp
    have n: "j = None" using running_refuses [OF _ e] assms(3) Inr by (cases j) auto
    let ?j = "\<lparr> jb_cs = cs, jb_plan = plan, jb_strategy = st, jb_deadline = ce_now E + ?t \<rparr>"
    obtain r c2 where r: "apply_execute E author opt cs plan st (ce_now E + ?t) c1 = (r, c2)" by fastforce
    have s1: "coord_step (c, None) (c1, Some ?j)" using coord_step.Enter [OF assms(1) e [unfolded x]] .
    have "coord_step (c1, Some ?j) (snd (apply_finish E' author cs plan st (ce_now E + ?t) r c2), None)"
      using coord_step.Finish [OF assms(2), of E author opt ?j c1 r c2] r by simp
    moreover have "snd (ApplyWithOptions E E' i author timeout strategy opt c) = snd (apply_finish E' author cs plan st (ce_now E + ?t) r c2)"
      using e x r ac by (simp add: ApplyWithOptions_def Let_def)
    ultimately show ?thesis using s1 n by (metis converse_rtranclp_into_rtranclp r_into_rtranclp)
  qed
qed

lemma coord_run_sched:
  assumes "coord_step\<^sup>*\<^sup>* (c, j) (c', j')" "sd_c s = c"
  shows "sched_step\<^sup>*\<^sup>* (s, j) (s\<lparr>sd_c := c'\<rparr>, j')"
  using assms
proof (induction rule: rtranclp_induct2)
  case refl
  then have "s\<lparr>sd_c := c\<rparr> = s" by (cases s) simp
  then show ?case by simp
next
  case (step c1 j1 c2 j2)
  from sched_step.Coord [of "s\<lparr>sd_c := c1\<rparr>" j1 c2 j2] step(2)
  have "sched_step (s\<lparr>sd_c := c1\<rparr>, j1) (s\<lparr>sd_c := c2\<rparr>, j2)" by simp
  with step(3) [OF step(4)] show ?case by simp
qed

text \<open>Where the store answers during each firing.\<close>

definition env_up :: "('q, 'w, 'r) sched_env \<Rightarrow> bool" where
  "env_up S \<longleftrightarrow> store_up (se_enter S) \<and> store_up (se_exit S)"

lemma fire_status: "fire_gates S row s = Some (status, reason) \<Longrightarrow> status \<in> {ScheduleFailed, ScheduleBlocked}"
  by (auto simp: fire_gates_def split: sum.splits if_splits option.splits)

lemma fire_runs:
  assumes "env_up S" "sched_inv (s, j)"
  shows "sched_step\<^sup>*\<^sup>* (s, j) (fireSchedule S row start s, j)"
proof (cases "fire_gates S row s")
  case (Some x)
  then obtain status reason where x: "fire_gates S row s = Some (status, reason)" by (cases x) simp
  then show ?thesis using fire_status [OF x] by (auto simp: fireSchedule_def intro!: r_into_rtranclp sched_step.ResolveRow)
next
  case None
  let ?out = "fire_apply S row start (sd_c s)"
  let ?s = "s\<lparr>sd_c := snd ?out\<rparr>"
  have "sched_step\<^sup>*\<^sup>* (s, j) (?s, j)"
    using assms coord_run_sched [OF Apply_steps refl, of "sessionless (se_enter S)" "sessionless (se_exit S)" s j]
    by (simp add: env_up_def sched_inv_def fire_apply_def Apply_def)
  moreover have "sched_step (?s, j) (fire_resolve S row (fst (fst ?out)) ?s, j)"
    by (auto simp: fire_resolve_def split: option.splits intro!: sched_step.ResolveRow)
  moreover have "fireSchedule S row start s = fire_resolve S row (fst (fst ?out)) ?s"
    using None by (simp add: fireSchedule_def split: prod.splits)
  ultimately show ?thesis by (metis rtranclp.rtrancl_into_rtrancl)
qed

lemma tick_row_runs:
  assumes "env_up S" "sched_inv (s, j)"
  shows "sched_step\<^sup>*\<^sup>* (s, j) (tick_row S now row s, j)"
  using fire_runs [OF assms] by (auto simp: tick_row_def handleMissedWindow_def intro!: r_into_rtranclp sched_step.ResolveRow)

lemma TickSchedules_runs:
  assumes "\<And>i. env_up (F i)" "sched_inv (s, j)"
  shows "sched_step\<^sup>*\<^sup>* (s, j) (TickSchedules S F s, j)"
proof -
  let ?f = "\<lambda>row. tick_row (F (cg_ChangesetID row)) (se_clock S) row"
  have "sched_step\<^sup>*\<^sup>* (s, j) (fold ?f rows s, j)" if "sched_inv (s, j)" for rows s
    using that
  proof (induction rows arbitrary: s)
    case (Cons row rows)
    let ?s = "?f row s"
    have r: "sched_step\<^sup>*\<^sup>* (s, j) (?s, j)" using tick_row_runs [OF assms(1) Cons.prems] .
    then have "sched_inv (?s, j)" using scheduler.reach_inv Cons.prems by blast
    with Cons.IH [of ?s] r show ?case by simp
  qed simp
  with assms(2) show ?thesis by (simp add: TickSchedules_def)
qed

end
