(* ===== verification/Sched_Props.thy ===== *)
theory Sched_Props
  imports Sched_System
begin

text \<open>
  What the scheduler promises, and where it does not keep a promise: a cancellation that comes while
  the changeset is being applied, a missed window that is applied late, and a firing late in its window.
\<close>

section \<open>An example scheduler\<close>

definition xs_env :: "int \<Rightarrow> (unit, node_world, unit) sched_env" where
  "xs_env now = \<lparr> se_enter = xc_env now, se_exit = xc_env (now + 10), se_schedules = True, se_clock = now, se_read_ok = True,
     se_write_ok = True, se_mgmtPaths = Some [(''pve1'', [\<lparr> mp_Ref = mkRef KindBridge ''pve1'' ''vmbr9'', mp_Path = [mkRef KindPhysNic ''pve1'' ''eno9''] \<rparr>])],
     se_wgCarriers = None, se_impactPreflight = None, se_rest = (\<lambda>_. OtherParams),
     se_secret = [1], se_hmac = (\<lambda>_ _. [7]), se_sha256 = (\<lambda>t. 9 # map (\<lambda>c. word_of_int (go_ord c)) t) \<rparr>"

definition xs_row :: "string \<Rightarrow> int \<Rightarrow> ChangesetSchedule" where
  "xs_row policy windowEnd = \<lparr> cg_ChangesetID = ''cs1'', cg_MissedWindowPolicy = policy, cg_CallbackTokenHash = ''3037'', cg_Status = SchedulePending,
     cg_CreatedBy = ''ann'', cg_FiredAt = None, cg_CancelledAt = None, cg_WindowStart = 10, cg_WindowEnd = windowEnd,
     cg_ConfirmTimeoutSec = 120, cg_CreatedAt = 1 \<rparr>"

definition xs_start :: "string \<Rightarrow> int \<Rightarrow> (unit, node_world, unit) sched" where
  "xs_start policy windowEnd = \<lparr> sd_c = xc_start, sd_rows = [xs_row policy windowEnd] \<rparr>"

lemmas xs_simps = xs_env_def xs_row_def xs_start_def

lemma xs_up: "env_up (xs_env now)"
  using xc_up [of now] xc_up [of "now + 10"] by (simp add: env_up_def xs_env_def)

lemma xs_facts [simp]:
  "se_enter (xs_env now) = xc_env now" "se_exit (xs_env now) = xc_env (now + 10)" "se_clock (xs_env now) = now" "se_write_ok (xs_env now)"
  "se_read_ok (xs_env now)" "scheduleConfigured (xs_env now)"
  by (simp_all add: xs_env_def scheduleConfigured_def xc_env_def)

lemma ex_apply_any: "\<exists>l w. apply_plan (on_nodes ex_env) ''cs1'' ops ex_two_nodes d (ex_world 99) () = (None, l, w, ())"
  by (simp add: ex_apply_simps upd_step_def)

lemma xs_enter:
  "\<exists>cs c. apply_enter (sessionless (xc_env now)) ''cs1'' author t
     \<lparr> as_Mode = ApplyModeUnset, as_Gate = ApplyGateUnset, as_CanaryNodes = [], as_HoldForSec = 0 \<rparr> xc_start = (Inr (cs, ex_two_nodes, all_strategy), c) \<and>
     c = xc_start\<lparr>cd_st := cd_st c\<rparr> \<and> ch_ID cs = ''cs1''"
  by (simp add: apply_enter_def plan_gates_def apply_simps xc_simps ex_two_plan xc_no_sdn sessionless_def validateApplyStrategy_def all_strategy_def)

lemma xs_apply:
  "\<exists>cs c. Apply (sessionless (xc_env now)) (sessionless (xc_env now')) ''cs1'' author t xc_start = ((None, Some cs), c)"
proof -
  let ?E = "sessionless (xc_env now)"
  let ?E' = "sessionless (xc_env now')"
  let ?t = "confirm_timeout ?E t"
  let ?d = "ce_now ?E + ?t"
  obtain cs c1 where e: "apply_enter ?E ''cs1'' author ?t
      \<lparr> as_Mode = ApplyModeUnset, as_Gate = ApplyGateUnset, as_CanaryNodes = [], as_HoldForSec = 0 \<rparr> xc_start = (Inr (cs, ex_two_nodes, all_strategy), c1)"
    and c1: "c1 = xc_start\<lparr>cd_st := cd_st c1\<rparr>" "ch_ID cs = ''cs1''"
    using xs_enter by blast
  have k: "keys_ok (cd_st xc_start)" by (simp add: keys_ok_def xc_simps)
  note en = apply_enter_Inr [OF e k]
  have w: "cd_w c1 = ex_world 99" using arg_cong [OF c1(1), of cd_w] by (simp add: xc_start_def)
  have nc: "\<not> IsCanary all_strategy" by (simp add: IsCanary_def all_strategy_def)
  obtain res c2 where x: "apply_execute ?E author None cs ex_two_nodes all_strategy ?d c1 = (res, c2)" by fastforce
  have ex: "ce_exec ?E = on_nodes ex_env" by (simp add: sessionless_def xc_env_def on_nodes_def ex_env_def)
  obtain err l where "apply_plan (on_nodes ex_env) ''cs1'' (ch_Ops cs) ex_two_nodes ?d (ex_world 99) () = (err, l, cd_w c2, cd_r c2)"
    "res = (case err of Some e \<Rightarrow> Inl (e, l) | None \<Rightarrow> Inr l)"
    using apply_execute_runs(1) [OF nc x] w c1(2) ex by auto
  with ex_apply_any [of "ch_Ops cs" ?d] have l: "res = Inr l" by auto
  have v2: "view c2 = view c1" using apply_execute_view [of ?E author None cs ex_two_nodes all_strategy ?d c1] x by simp
  have r2: "rowv (cd_st c2) (ch_ID cs) \<noteq> None" using view_proj(1) [OF v2] en(5) view_proj(1) c1(2) by fastforce
  have up: "store_up ?E'" by (simp add: xc_up)
  obtain out c3 where f: "finishAwaitingConfirm ?E' author cs ex_two_nodes l ?d c2 = (out, c3)" by fastforce
  then obtain cs' where "out = (None, Some cs')" using finishAwaitingConfirm_row [OF up r2 en(4) f] by blast
  moreover have "ce_applyConfigured ?E" by (simp add: sessionless_def xc_env_def)
  ultimately show ?thesis using e x f l nc by (simp add: Apply_def ApplyWithOptions_def apply_finish_def Let_def)
qed

lemma xs_gates: "fire_gates (xs_env now) (xs_row p w) (xs_start p' w') = None"
proof -
  have "\<exists>cs. get_cs (xc_env now) ''cs1'' xc_start = Inr cs \<and> ch_Ops cs = ex_two_ops"
    by (simp add: get_cs_def svc_Get_def repo_Get_def xc_simps fromStoreRow_def)
  moreover have "\<not> planNeedsPVEGateway ex_two_ops" by (simp add: planNeedsPVEGateway_def ex_two_plan ex_two_nodes_def stage_reload_def zero_Step_def)
  moreover have "case se_mgmtPaths (xs_env now) of None \<Rightarrow> True | Some paths \<Rightarrow> \<not> touchesMgmt (xs_env now) paths ex_two_ops"
    by (simp add: xs_env_def touchesMgmt_def TouchesMgmtPath_iff ex_two_ops_def op_touches_def rest_touches_def default_touched_def
        touched_def path_names_def ex_plan_op_def)
  ultimately show ?thesis by (auto simp: fire_gates_def xs_row_def xs_start_def preflightImpactBlocks_def xs_env_def split: sum.splits option.splits)
qed

lemma xs_fire: "\<exists>cs c. fire_apply (xs_env now) (xs_row p w) start (sd_c (xs_start p' w')) = ((None, Some cs), c)"
  using xs_apply [of now "now + 10"] by (simp add: fire_apply_def xs_row_def xs_start_def)

lemma xs_keys: "keys_ok (cd_st (sd_c (xs_start p w)))"
  by (simp add: xs_start_def keys_ok_def xc_simps)

lemma xs_inv: "10 < w \<Longrightarrow> validMissedWindowPolicy p \<Longrightarrow> sched_inv (xs_start p w, None)"
  using idle_window [OF xc_idle] by (simp add: sched_inv_def xs_start_def table_wf_def schedule_ok_def xs_row_def)



section \<open>The scheduler and the window\<close>

text \<open>
  C13. The scheduler keeps what the coordinator promises. From a coordinator with nothing in flight and an empty
  table, whatever sequence of calls, firings, ticks and restarts follows within what \<open>coord_step\<close> allows
  (the store answers, this daemon leads, a promotion is not interrupted), the confirm window is guarded,
  each changeset has at most one schedule, every schedule has a real window and a stamp that fits its
  status; and a further tick stays within the reachable states.
\<close>

theorem scheduler_safe:
  assumes "sched_step\<^sup>*\<^sup>* (s0, None) (s, j)" "idle (sd_c s0)" "sd_rows s0 = []" "\<And>i. env_up (F i)"
  shows "guarded_win (job_win j) (view (sd_c s)) \<and> table_wf (sd_rows s) \<and> sched_step\<^sup>*\<^sup>* (s0, None) (TickSchedules S F s, j)"
proof -
  have "sched_inv (s0, None)" using idle_window [OF assms(2)] assms(3) by (simp add: sched_inv_def table_wf_def)
  then have i: "sched_inv (s, j)" using scheduler.reach_inv [OF assms(1)] by blast
  have "sched_step\<^sup>*\<^sup>* (s0, None) (TickSchedules S F s, j)" using assms(1) TickSchedules_runs [OF assms(4) i] by (rule rtranclp_trans)
  with i show ?thesis by (simp add: sched_inv_def window_inv_def)
qed

definition xs_created :: "(unit, node_world, unit) sched" where
  "xs_created = snd (svc_Schedule (xs_env 5) ''cs1'' ''ann'' \<lparr> sp_MissedWindowPolicy = [], sp_WindowStart = 10, sp_WindowEnd = 300, sp_ConfirmTimeoutSec = 0 \<rparr>
     \<lparr> sd_c = xc_start, sd_rows = [] \<rparr>)"

theorem scheduler_safe_witness:
  "table_wf (sd_rows xs_created) \<and>
   sched_step\<^sup>*\<^sup>* (\<lparr> sd_c = xc_start, sd_rows = [] \<rparr>, None) (TickSchedules (xs_env 100) (\<lambda>_. xs_env 100) xs_created, None)"
proof -
  have "sched_step\<^sup>*\<^sup>* (\<lparr> sd_c = xc_start, sd_rows = [] \<rparr>, None) (xs_created, None)"
    unfolding xs_created_def by (intro r_into_rtranclp sched_step.ScheduleCall)
  from scheduler_safe [OF this, of "\<lambda>_. xs_env 100" "xs_env 100"] xs_up xc_idle show ?thesis by simp
qed


section \<open>The tick\<close>

definition due :: "int \<Rightarrow> ChangesetSchedule \<Rightarrow> bool" where
  "due now r \<longleftrightarrow> now \<ge> cg_WindowStart r \<and> now < cg_WindowEnd r \<or> now \<ge> cg_WindowEnd r"

lemma fire_rows:
  assumes "se_write_ok S"
  shows "\<exists>status. status \<notin> {SchedulePending, ScheduleCancelled} \<and>
    sd_rows (fireSchedule S row start s) = sched_Resolve (cg_ChangesetID row) status (se_clock S) (sd_rows s)"
proof (cases "fire_gates S row s")
  case (Some x)
  then obtain status reason where x: "fire_gates S row s = Some (status, reason)" by (cases x) simp
  then show ?thesis using fire_status [OF x] assms by (auto simp: fireSchedule_def resolveSchedule_def)
next
  case None
  then show ?thesis using assms by (auto simp: fireSchedule_def fire_resolve_def resolveSchedule_def split: prod.splits option.splits)
qed

lemma tick_row_rows:
  assumes "se_write_ok S"
  shows "\<exists>status. status \<notin> {SchedulePending, ScheduleCancelled} \<and>
    sd_rows (tick_row S now row s) = (if due now row then sched_Resolve (cg_ChangesetID row) status (se_clock S) (sd_rows s) else sd_rows s)"
proof -
  have m: "sd_rows (saudit S author action res i (resolveSchedule S row ScheduleMissed s)) =
      sched_Resolve (cg_ChangesetID row) ScheduleMissed (se_clock S) (sd_rows s)" for author action res i
    using assms by (simp add: resolveSchedule_def)
  show ?thesis
    using fire_rows [OF assms, of row _ s] m by (fastforce simp: tick_row_def handleMissedWindow_def due_def)
qed

text \<open>What a tick does to the table: it resolves what was listed and is due.\<close>

definition settled :: "int \<Rightarrow> ChangesetSchedule list \<Rightarrow> ChangesetSchedule \<Rightarrow> ChangesetSchedule \<Rightarrow> bool" where
  "settled now rows r r' \<longleftrightarrow> cg_ChangesetID r' = cg_ChangesetID r \<and>
     (if cg_Status r = SchedulePending \<and> (\<exists>row\<in>set rows. cg_ChangesetID row = cg_ChangesetID r \<and> due now row)
      then cg_Status r' \<notin> {SchedulePending, ScheduleCancelled} \<and> cg_FiredAt r' \<noteq> None else r' = r)"

lemma tick_fold_rows:
  assumes "\<And>i. se_write_ok (F i)"
  shows "\<exists>g. sd_rows (fold (\<lambda>row. tick_row (F (cg_ChangesetID row)) now row) rows s) = map g (sd_rows s) \<and> (\<forall>r. settled now rows r (g r))"
proof (induction rows arbitrary: s)
  case Nil
  show ?case by (intro exI [of _ id]) (simp add: settled_def)
next
  case (Cons row rows)
  let ?s = "tick_row (F (cg_ChangesetID row)) now row s"
  let ?i = "cg_ChangesetID row"
  obtain status where st: "status \<notin> {SchedulePending, ScheduleCancelled}"
    "sd_rows ?s = (if due now row then sched_Resolve ?i status (se_clock (F ?i)) (sd_rows s) else sd_rows s)"
    using tick_row_rows [OF assms] by blast
  define h where "h = (\<lambda>r. if due now row \<and> sched_pending ?i r then r\<lparr>cg_Status := status, cg_FiredAt := Some (se_clock (F ?i))\<rparr> else r)"
  have h: "sd_rows ?s = map h (sd_rows s)" using st(2) by (auto simp: h_def sched_Resolve_def)
  obtain g where g: "sd_rows (fold (\<lambda>row. tick_row (F (cg_ChangesetID row)) now row) rows ?s) = map g (sd_rows ?s)"
    "\<And>r. settled now rows r (g r)"
    using Cons.IH [of ?s] by blast
  have "settled now (row # rows) r (g (h r))" for r
  proof (cases "due now row \<and> sched_pending ?i r")
    case True
    then have "cg_Status (h r) = status" "cg_ChangesetID (h r) = cg_ChangesetID r" "cg_FiredAt (h r) \<noteq> None" by (simp_all add: h_def)
    moreover from this have "g (h r) = h r" using g(2) [of "h r"] st(1) by (simp add: settled_def)
    ultimately show ?thesis using True st(1) by (simp add: settled_def sched_pending_def)
  next
    case False
    then have "h r = r" unfolding h_def by auto
    have "(cg_Status r = SchedulePending \<and> (\<exists>q\<in>set (row # rows). cg_ChangesetID q = cg_ChangesetID r \<and> due now q)) =
        (cg_Status r = SchedulePending \<and> (\<exists>q\<in>set rows. cg_ChangesetID q = cg_ChangesetID r \<and> due now q))"
      using False by (auto simp: sched_pending_def)
    then have "settled now (row # rows) r (g r) = settled now rows r (g r)" by (simp only: settled_def)
    with g(2) [of r] \<open>h r = r\<close> show ?thesis by simp
  qed
  moreover have "sd_rows (fold (\<lambda>row. tick_row (F (cg_ChangesetID row)) now row) (row # rows) s) = map (\<lambda>r. g (h r)) (sd_rows s)"
    using g(1) h by (simp add: comp_def)
  ultimately show ?case by (intro exI [of _ "\<lambda>r. g (h r)"] conjI allI)
qed

text \<open>
  C21. Every due schedule is settled. A tick of the leader leaves no pending schedule whose window has begun: it ends
  fired, missed, blocked or failed, with its time recorded. Every other row stays as it is, and the
  tick of a standby changes nothing at all.
\<close>

theorem due_schedules_resolve:
  assumes "table_wf (sd_rows s)" "r \<in> set (sd_rows s)" "scheduleConfigured S" "se_read_ok S" "\<And>i. se_write_ok (F i)"
  shows "if ce_mayLead (se_enter S) \<and> cg_Status r = SchedulePending \<and> cg_WindowStart r \<le> se_clock S
    then \<exists>r'\<in>set (sd_rows (TickSchedules S F s)). cg_ChangesetID r' = cg_ChangesetID r \<and>
      cg_Status r' \<in> {ScheduleFired, ScheduleMissed, ScheduleBlocked, ScheduleFailed} \<and> cg_FiredAt r' \<noteq> None
    else r \<in> set (sd_rows (TickSchedules S F s)) \<and> (ce_mayLead (se_enter S) \<or> TickSchedules S F s = s)"
proof (cases "ce_mayLead (se_enter S)")
  case False
  then show ?thesis using assms(2) by (simp add: TickSchedules_def)
next
  case True
  let ?l = "sched_ListByStatus SchedulePending (sd_rows s)"
  have t: "TickSchedules S F s = fold (\<lambda>row. tick_row (F (cg_ChangesetID row)) (se_clock S) row) ?l s"
    using assms(3,4) True by (simp add: TickSchedules_def)
  obtain g where g1: "sd_rows (TickSchedules S F s) = map g (sd_rows s)" and gs: "settled (se_clock S) ?l r (g r)"
    using tick_fold_rows [where F = F, OF assms(5), of "se_clock S" ?l s] t by auto
  note g = g1 gs [unfolded settled_def, THEN conjunct1] gs [unfolded settled_def, THEN conjunct2]
  have m: "g r \<in> set (sd_rows (TickSchedules S F s))" using g(1) assms(2) by simp
  have same: "row = r" if "row \<in> set ?l" "cg_ChangesetID row = cg_ChangesetID r" for row
  proof -
    have "row \<in> set (sd_rows s)" using that(1) by (simp add: sched_ListByStatus_def)
    moreover have "inj_on cg_ChangesetID (set (sd_rows s))" using assms(1) by (simp add: table_wf_def distinct_map)
    ultimately show ?thesis using that(2) assms(2) by (simp add: inj_on_eq_iff)
  qed
  have "cg_WindowStart r < cg_WindowEnd r" using assms(1,2) by (simp add: table_wf_def list_all_iff schedule_ok_def)
  then have d: "due (se_clock S) r \<longleftrightarrow> cg_WindowStart r \<le> se_clock S" by (auto simp: due_def)
  show ?thesis
  proof (cases "cg_Status r = SchedulePending \<and> cg_WindowStart r \<le> se_clock S")
    case p: True
    then have "r \<in> set ?l" using assms(2) by (simp add: sched_ListByStatus_def)
    then have "\<exists>row\<in>set ?l. cg_ChangesetID row = cg_ChangesetID r \<and> due (se_clock S) row" using p d by blast
    with g(3) p have "cg_Status (g r) \<notin> {SchedulePending, ScheduleCancelled} \<and> cg_FiredAt (g r) \<noteq> None" by simp
    moreover have "cg_Status (g r) \<in> {ScheduleFired, ScheduleMissed, ScheduleBlocked, ScheduleFailed}" if "cg_Status (g r) \<notin> {SchedulePending, ScheduleCancelled}"
      using that by (cases "cg_Status (g r)") auto
    ultimately show ?thesis using m g(2) True p by auto
  next
    case False
    then have "\<not> (cg_Status r = SchedulePending \<and> (\<exists>row\<in>set ?l. cg_ChangesetID row = cg_ChangesetID r \<and> due (se_clock S) row))"
      using same d by blast
    with g(3) have "g r = r" by presburger
    with m False True show ?thesis by auto
  qed
qed

theorem due_schedules_resolve_witness:
  "\<exists>r'\<in>set (sd_rows (TickSchedules (xs_env 100) (\<lambda>_. xs_env 100) (xs_start MissedWindowSkip 90))). cg_ChangesetID r' = ''cs1'' \<and>
      cg_Status r' \<in> {ScheduleFired, ScheduleMissed, ScheduleBlocked, ScheduleFailed} \<and> cg_FiredAt r' \<noteq> None"
proof -
  have wf: "table_wf (sd_rows (xs_start MissedWindowSkip 90))"
    by (simp add: xs_start_def table_wf_def schedule_ok_def xs_row_def validMissedWindowPolicy_def)
  have "xs_row MissedWindowSkip 90 \<in> set (sd_rows (xs_start MissedWindowSkip 90))" "ce_mayLead (xc_env 100)"
    by (simp_all add: xs_start_def xc_env_def)
  with due_schedules_resolve [OF wf this(1), of "xs_env 100" "\<lambda>_. xs_env 100"] show ?thesis
    by (simp add: xs_row_def)
qed



section \<open>What is applied without an operator\<close>

text \<open>
  C19. A schedule fires only past its checks. When the tick changes the status of any changeset on account of a row,
  the window of the row has begun, and it has not ended unless the row asks to be applied late; the
  changeset exists, none of its ops touches a management path as far as the paths can be computed, the
  impact check does not object, and its plan needs no user's session.
\<close>

theorem unattended_apply_checked:
  assumes "rowv (cd_st (sd_c (tick_row S now row s))) \<noteq> rowv (cd_st (sd_c s))"
  shows "(cg_WindowStart row \<le> now \<or> cg_WindowEnd row \<le> now) \<and>
    (now < cg_WindowEnd row \<or> cg_MissedWindowPolicy row = MissedWindowApplyImmediately) \<and>
    (\<exists>cs. get_cs (se_enter S) (cg_ChangesetID row) (sd_c s) = Inr cs \<and> preflightImpactBlocks S (ch_Ops cs) = None \<and>
       \<not> planNeedsPVEGateway (ch_Ops cs) \<and>
       (\<forall>paths op. se_mgmtPaths S = Some paths \<longrightarrow> op \<in> set (ch_Ops cs) \<longrightarrow> \<not> op_touches (se_rest S) paths (wgTunnelCarriers S) {} op))"
proof -
  have quiet: "rowv (cd_st (sd_c (saudit S author action res i (resolveSchedule S row status s)))) = rowv (cd_st (sd_c s))" for author action res i status
    using view_proj(1) [of "sd_c (saudit S author action res i (resolveSchedule S row status s))" "view (sd_c s)"] by simp
  obtain start where f: "tick_row S now row s = fireSchedule S row start s"
    and w: "cg_WindowStart row \<le> now \<or> cg_WindowEnd row \<le> now" "now < cg_WindowEnd row \<or> cg_MissedWindowPolicy row = MissedWindowApplyImmediately"
    using assms quiet by (auto simp: tick_row_def handleMissedWindow_def split: if_splits)
  have "fire_gates S row s = None"
    using assms f quiet by (cases "fire_gates S row s") (auto simp: fireSchedule_def)
  then have "\<exists>cs. get_cs (se_enter S) (cg_ChangesetID row) (sd_c s) = Inr cs \<and> preflightImpactBlocks S (ch_Ops cs) = None \<and>
       \<not> planNeedsPVEGateway (ch_Ops cs) \<and>
       (\<forall>paths op. se_mgmtPaths S = Some paths \<longrightarrow> op \<in> set (ch_Ops cs) \<longrightarrow> \<not> op_touches (se_rest S) paths (wgTunnelCarriers S) {} op)"
    by (auto simp: fire_gates_def touchesMgmt_def TouchesMgmtPath_iff split: sum.splits if_splits option.splits)
  with w show ?thesis by blast
qed

text \<open>What a firing that succeeds leaves behind.\<close>

lemma fired:
  assumes "env_up S" "keys_ok (cd_st (sd_c s))" "fire_gates S row s = None" "fire_apply S row start (sd_c s) = ((None, Some cs), c)"
  shows "rowv (cd_st c) (cg_ChangesetID row) = Some (StatusAwaitingConfirm, Some (ce_now (se_enter S) + confirm_timeout (se_enter S) (fire_timeout row start)))"
    "cd_timers c (cg_ChangesetID row) = Some (ce_now (se_enter S) + confirm_timeout (se_enter S) (fire_timeout row start))"
    "keys_ok (cd_st c)" "view (sd_c (fireSchedule S row start s)) = view c"
proof -
  let ?E = "sessionless (se_enter S)"
  let ?E' = "sessionless (se_exit S)"
  have a: "ApplyWithOptions ?E ?E' (cg_ChangesetID row) systemScheduleActor (fire_timeout row start)
      \<lparr> as_Mode = ApplyModeUnset, as_Gate = ApplyGateUnset, as_CanaryNodes = [], as_HoldForSec = 0 \<rparr> None (sd_c s) = ((None, Some cs), c)"
    using assms(4) by (simp add: fire_apply_def Apply_def)
  have up: "store_up ?E'" using assms(1) by (simp add: env_up_def)
  from ApplyWithOptions_awaiting [OF a _ up assms(2)]
  show "rowv (cd_st c) (cg_ChangesetID row) = Some (StatusAwaitingConfirm, Some (ce_now (se_enter S) + confirm_timeout (se_enter S) (fire_timeout row start)))"
    "cd_timers c (cg_ChangesetID row) = Some (ce_now (se_enter S) + confirm_timeout (se_enter S) (fire_timeout row start))" "keys_ok (cd_st c)"
    by auto
  show "view (sd_c (fireSchedule S row start s)) = view c"
    using assms(3,4) by (simp add: fireSchedule_def fire_resolve_def)
qed

lemma xs_fired:
  "\<exists>cs c. fire_apply (xs_env now) (xs_row p w) start (sd_c (xs_start p w)) = ((None, Some cs), c) \<and>
     rowv (cd_st (sd_c (fireSchedule (xs_env now) (xs_row p w) start (xs_start p w)))) ''cs1'' =
       Some (StatusAwaitingConfirm, Some (now + confirm_timeout (xc_env now) (fire_timeout (xs_row p w) start)))"
proof -
  obtain cs c where f: "fire_apply (xs_env now) (xs_row p w) start (sd_c (xs_start p w)) = ((None, Some cs), c)" using xs_fire by blast
  note n = fired [OF xs_up xs_keys xs_gates f]
  have "rowv (cd_st (sd_c (fireSchedule (xs_env now) (xs_row p w) start (xs_start p w)))) = rowv (cd_st c)"
    using view_proj(1) [OF n(4)] by simp
  with n(1) f show ?thesis by (simp add: xs_row_def xc_env_facts)
qed

theorem unattended_apply_checked_witness:
  "rowv (cd_st (sd_c (tick_row (xs_env 100) 100 (xs_row MissedWindowSkip 300) (xs_start MissedWindowSkip 300)))) \<noteq> rowv (cd_st (sd_c (xs_start MissedWindowSkip 300))) \<and>
   (\<exists>cs. get_cs (xc_env 100) ''cs1'' xc_start = Inr cs \<and> \<not> planNeedsPVEGateway (ch_Ops cs))"
proof -
  let ?s = "xs_start MissedWindowSkip 300"
  have "tick_row (xs_env 100) 100 (xs_row MissedWindowSkip 300) ?s = fireSchedule (xs_env 100) (xs_row MissedWindowSkip 300) 10 ?s"
    by (simp add: tick_row_def xs_row_def)
  moreover have "rowv (cd_st (sd_c ?s)) ''cs1'' = Some (StatusDraft, None)" by (simp add: xs_start_def rowv_def xc_simps)
  ultimately have c: "rowv (cd_st (sd_c (tick_row (xs_env 100) 100 (xs_row MissedWindowSkip 300) ?s))) \<noteq> rowv (cd_st (sd_c ?s))"
    using xs_fired [of 100 MissedWindowSkip 300 10] by auto
  from unattended_apply_checked [OF c] c show ?thesis by (auto simp: xs_row_def xs_start_def)
qed



section \<open>Resolving once\<close>

text \<open>
  C35. A schedule is resolved once. Whatever step of the scheduler or the coordinator is taken, a row that has been
  resolved or cancelled stays exactly as it is, unless the step is a call that schedules the same
  changeset again and succeeds.
\<close>

theorem schedule_resolved_once:
  assumes "sched_step (s, j) (s', j')" "r \<in> set (sd_rows s)" "cg_Status r \<noteq> SchedulePending"
  shows "r \<in> set (sd_rows s') \<or> (\<exists>S author p x. svc_Schedule S (cg_ChangesetID r) author p s = (Inr x, s'))"
  using assms(1)
proof (cases rule: sched_step.cases)
  case (ScheduleCall S i author p)
  obtain res s1 where e: "svc_Schedule S i author p s = (res, s1)" by fastforce
  note f = svc_Schedule_effect [OF e]
  show ?thesis
  proof (cases res)
    case (Inl x)
    with f(2) e ScheduleCall assms(2) show ?thesis by simp
  next
    case (Inr x)
    then obtain q where q: "sd_rows s1 = sched_Upsert q (sd_rows s)" "cg_ChangesetID q = i" using f(3) by blast
    show ?thesis
    proof (cases "cg_ChangesetID r = i")
      case True
      with e Inr ScheduleCall show ?thesis by auto
    next
      case False
      then have "r \<in> set (sched_Upsert q (sd_rows s))" using assms(2) q(2) by (force simp: sched_Upsert_def Let_def)
      with q(1) e ScheduleCall show ?thesis by simp
    qed
  qed
next
  case (CancelCall S i author)
  obtain e s1 where e: "CancelSchedule S i author s = (e, s1)" by fastforce
  have "r \<in> set (sd_rows s1)" using e assms(2,3)
    by (force simp: CancelSchedule_def sched_Cancel_def sched_pending_def split: if_splits sum.splits)
  with e CancelCall show ?thesis by simp
next
  case (ResolveRow status S author action res row)
  have "r \<in> set (sd_rows (resolveSchedule S row status s))" using assms(2,3)
    by (force simp: resolveSchedule_def sched_Resolve_def sched_pending_def)
  with ResolveRow show ?thesis by simp
qed (use assms(2) in simp)

theorem schedule_resolved_once_witness:
  "\<exists>r s'. sched_step (xs_start MissedWindowSkip 90 \<lparr>sd_rows := [r]\<rparr>, None) (s', None) \<and> cg_Status r \<noteq> SchedulePending \<and>
     (r \<in> set (sd_rows s') \<or> (\<exists>S author p x. svc_Schedule S (cg_ChangesetID r) author p (xs_start MissedWindowSkip 90 \<lparr>sd_rows := [r]\<rparr>) = (Inr x, s')))"
proof -
  let ?r = "(xs_row MissedWindowSkip 90)\<lparr>cg_Status := ScheduleMissed\<rparr>"
  let ?s = "xs_start MissedWindowSkip 90 \<lparr>sd_rows := [?r]\<rparr>"
  have st: "sched_step (?s, None) (snd (CancelSchedule (xs_env 100) ''cs1'' ''ann'' ?s), None)" by (rule sched_step.CancelCall)
  have r: "?r \<in> set (sd_rows ?s)" "cg_Status ?r \<noteq> SchedulePending" by simp_all
  from st r(2) schedule_resolved_once [OF st r] show ?thesis by blast
qed



section \<open>The callback token\<close>

lemma hex_digit_round: "0 \<le> n \<Longrightarrow> n < 16 \<Longrightarrow> hex_digit (go_hexdigit n) = Some n"
  by (auto simp: hex_digit_def go_hexdigit_def Let_def)

lemma hex_round: "hex_DecodeString (hex_EncodeToString bs) = Some bs"
proof (induction bs)
  case (Cons b bs)
  have "0 \<le> uint b" "uint b < 256" using uint_bounded [of b] by simp_all
  then have "uint b div 16 < 16" "0 \<le> uint b div 16" by (simp_all add: pos_imp_zdiv_nonneg_iff)
  then have "hex_digit (go_hexdigit (uint b div 16)) = Some (uint b div 16)" "hex_digit (go_hexdigit (uint b mod 16)) = Some (uint b mod 16)"
    by (simp_all add: hex_digit_round)
  with Cons show ?case by (simp add: hex_EncodeToString_def)
qed (simp add: hex_EncodeToString_def)

lemma hex_empty: "hex_EncodeToString bs = [] \<longleftrightarrow> bs = []"
  by (cases bs) (simp_all add: hex_EncodeToString_def)

text \<open>A token is accepted exactly when its digest is the stored one.\<close>

lemma verify_iff:
  assumes "\<And>t. sha t \<noteq> []"
  shows "verifyCallbackToken sha token (hashCallbackToken sha token') \<longleftrightarrow> token \<noteq> [] \<and> sha token = sha token'"
  using assms by (simp add: verifyCallbackToken_def hashCallbackToken_def hex_round hex_empty)

lemma minted:
  assumes "svc_Schedule S i author p s = (Inr x, s')"
  shows "\<exists>r. r \<in> set (sd_rows s') \<and> cg_ChangesetID r = i \<and> cg_Status r = SchedulePending \<and>
    cg_CallbackTokenHash r = hashCallbackToken (se_sha256 S) (sc_CallbackToken x)"
proof -
  obtain r where "sd_rows s' = sched_Upsert r (sd_rows s)" "cg_ChangesetID r = i" "cg_Status r = SchedulePending"
    "x = (scheduleFromRow r)\<lparr>sc_CallbackToken := fst (mintCallbackToken S i (cg_WindowEnd r))\<rparr>"
    "cg_CallbackTokenHash r = snd (mintCallbackToken S i (cg_WindowEnd r))"
    using svc_Schedule_effect(3) [OF assms refl] by blast
  then show ?thesis
    by (intro exI [of _ "r\<lparr>cg_FiredAt := None, cg_CancelledAt := None\<rparr>"])
      (auto simp: sched_Upsert_def Let_def mintCallbackToken_def list_ex_iff image_iff)
qed

text \<open>
  C34. The token of a schedule confirms its changeset, once. Whoever holds the token that the call to schedule
  returned can confirm the changeset in its window, as long as the row is still there; the changeset
  is then committed, and the same token presented again is refused. A token with another digest is
  refused without any effect. Of the two hash functions only that their digests are not empty is used.
\<close>

theorem token_confirms_once:
  assumes "svc_Schedule S i author p s = (Inr x, s1)" "\<And>k m. se_hmac S k m \<noteq> []" "\<And>t. se_sha256 S t \<noteq> []"
    "r \<in> set (sd_rows s1)" "cg_ChangesetID r = i" "table_wf (sd_rows s1)"
    "table_wf (sd_rows s2)" "r' \<in> set (sd_rows s2)" "cg_ChangesetID r' = i" "cg_CallbackTokenHash r' = cg_CallbackTokenHash r"
    "scheduleConfigured S'" "se_read_ok S'" "se_sha256 S' = se_sha256 S" "env_up S'"
    "keys_ok (cd_st (sd_c s2))" "rowv (cd_st (sd_c s2)) i = Some (StatusAwaitingConfirm, d)"
  shows "\<exists>cs s3. AckSchedule S' i (sc_CallbackToken x) s2 = ((None, Some cs), s3) \<and>
      rowv (cd_st (sd_c s3)) i = Some (StatusCommitted, None) \<and>
      fst (fst (AckSchedule S' i (sc_CallbackToken x) s3)) = Some (ECoord (ErrNotConfirmable i StatusCommitted)) \<and>
      (\<forall>t. se_sha256 S t \<noteq> se_sha256 S (sc_CallbackToken x) \<longrightarrow> AckSchedule S' i t s2 = ((Some (ErrInvalidCallbackToken i), None), s2))"
proof -
  let ?t = "sc_CallbackToken x"
  have inj: "q = q'" if "table_wf rows" "q \<in> set rows" "q' \<in> set rows" "cg_ChangesetID q = cg_ChangesetID q'" for rows q q'
    using that by (auto simp: table_wf_def distinct_map inj_on_def)
  obtain q where q: "q \<in> set (sd_rows s1)" "cg_ChangesetID q = i" "cg_CallbackTokenHash q = hashCallbackToken (se_sha256 S) ?t"
    using minted [OF assms(1)] by blast
  have h: "cg_CallbackTokenHash r' = hashCallbackToken (se_sha256 S) ?t"
    using inj [OF assms(6) q(1) assms(4)] q assms(5,10) by simp
  have ne: "?t \<noteq> []"
    using svc_Schedule_effect(3) [OF assms(1) refl] assms(2) by (auto simp: mintCallbackToken_def hex_empty Let_def)
  have get: "List.find (\<lambda>r. cg_ChangesetID r = i) (sd_rows s2) = Some r'"
    using find_row [of "sd_rows s2" r'] assms(7-9) by (simp add: table_wf_def)
  have ver: "verifyCallbackToken (se_sha256 S') t (cg_CallbackTokenHash r') \<longleftrightarrow> t \<noteq> [] \<and> se_sha256 S t = se_sha256 S ?t" for t
    unfolding h assms(13) by (rule verify_iff) (rule assms(3))
  have up: "store_up (se_enter S')" using assms(14) by (simp add: env_up_def)
  then have ac: "ce_applyConfigured (se_enter S')" by (simp add: store_up_def)
  obtain cs c1 where l: "confirm_locked (se_enter S') i (sd_c s2) = (Inr cs, c1)" using confirmable [OF up assms(15,16)] by blast
  note n = confirm_locked_Inr [OF up assms(15) l]
  let ?a = "systemScheduleActor @ '':webhook''"
  let ?c = "confirm_rest (se_exit S') i ?a cs c1"
  let ?s3 = "s2\<lparr>sd_c := ?c\<rparr>"
  have k1: "keys_ok (cd_st c1)" using view_proj(6) [OF n(2)] assms(15) by (simp add: end_view_def)
  have v: "view ?c = (end_view i StatusCommitted (view (sd_c s2)))\<lparr>wn_timers := (cd_timers (sd_c s2))(i := None)\<rparr>"
    using confirm_rest_view [OF k1] n(2) by simp
  note pj = view_proj [OF v]
  have row: "rowv (cd_st ?c) i = Some (StatusCommitted, None)" using pj(1) by (simp add: end_view_def)
  have k3: "keys_ok (cd_st ?c)" using pj(6) assms(15) by (simp add: end_view_def)
  have a1: "AckSchedule S' i ?t s2 = ((None, Some cs), ?s3)"
    using assms(11,12) get ver [of ?t] ne l ac by (simp add: AckSchedule_def Confirm_def sched_Get_def)
  obtain cs3 where g3: "get_cs (se_enter S') i ?c = Inr cs3" using get_cs_up [OF up, of ?c i] row by auto
  have "ch_Status cs3 = StatusCommitted" using get_csD(2) [OF g3 k3] row by simp
  then have "confirm_locked (se_enter S') i ?c = (Inl (ErrNotConfirmable i StatusCommitted), ?c)" using g3 by (simp add: confirm_locked_def)
  then have a2: "fst (fst (AckSchedule S' i ?t ?s3)) = Some (ECoord (ErrNotConfirmable i StatusCommitted))"
    using assms(11,12) get ver [of ?t] ne ac by (simp add: AckSchedule_def Confirm_def sched_Get_def)
  have a3: "AckSchedule S' i t s2 = ((Some (ErrInvalidCallbackToken i), None), s2)" if "se_sha256 S t \<noteq> se_sha256 S ?t" for t
    using assms(11,12) get ver [of t] that by (simp add: AckSchedule_def sched_Get_def)
  show ?thesis using a1 row a2 a3 by auto
qed


lemma xs_scheduled:
  "\<exists>x r. svc_Schedule (xs_env 5) ''cs1'' ''ann'' \<lparr> sp_MissedWindowPolicy = [], sp_WindowStart = 10, sp_WindowEnd = 300, sp_ConfirmTimeoutSec = 0 \<rparr>
     \<lparr> sd_c = xc_start, sd_rows = [] \<rparr> = (Inr x, xs_created) \<and> sd_rows xs_created = [r] \<and> table_wf [r] \<and> cg_ChangesetID r = ''cs1''"
proof -
  obtain cs where cs: "get_cs (xc_env 5) ''cs1'' xc_start = Inr cs" "Editable cs" "ch_Ops cs = ex_two_ops" "ch_ClusterID cs = []" "ch_ID cs = ''cs1''"
    by (simp add: get_cs_def svc_Get_def repo_Get_def xc_simps fromStoreRow_def Editable_def)
  have t: "case se_mgmtPaths (xs_env 5) of None \<Rightarrow> False | Some paths \<Rightarrow> \<not> touchesMgmt (xs_env 5) paths ex_two_ops"
    by (simp add: xs_env_def touchesMgmt_def TouchesMgmtPath_iff ex_two_ops_def op_touches_def rest_touches_def default_touched_def
        touched_def path_names_def ex_plan_op_def)
  have "\<not> hasError (svc_validate (sv_inputs (ce_svc (xc_env 5))) [] ''cs1'' ex_two_ops)"
    by (simp add: xc_simps apply_simps svc_validate_def ValidateWithSafety_def)
  then show ?thesis using cs t
    by (auto simp: svc_Schedule_def xs_created_def Let_def sched_Get_def validMissedWindowPolicy_def sched_Upsert_def table_wf_def schedule_ok_def
        schedule_row_def DefaultConfirmTimeout_def split: option.splits)
qed

theorem token_confirms_once_witness:
  "\<exists>(x :: Schedule) s2 cs s3. sc_CallbackToken x \<noteq> [] \<and> AckSchedule (xs_env 150) ''cs1'' (sc_CallbackToken x) s2 = ((None, Some cs), s3) \<and>
     rowv (cd_st (sd_c s3)) ''cs1'' = Some (StatusCommitted, None)"
proof -
  obtain x r where x: "svc_Schedule (xs_env 5) ''cs1'' ''ann'' \<lparr> sp_MissedWindowPolicy = [], sp_WindowStart = 10, sp_WindowEnd = 300, sp_ConfirmTimeoutSec = 0 \<rparr>
     \<lparr> sd_c = xc_start, sd_rows = [] \<rparr> = (Inr x, xs_created)" "sd_rows xs_created = [r]" "table_wf [r]" "cg_ChangesetID r = ''cs1''"
    using xs_scheduled by blast
  obtain cs c where f: "fire_apply (xs_env 100) (xs_row MissedWindowSkip 300) 10 (sd_c (xs_start MissedWindowSkip 300)) = ((None, Some cs), c)"
    using xs_fire by blast
  note n = fired [OF xs_up xs_keys xs_gates f]
  have w: "rowv (cd_st c) ''cs1'' = Some (StatusAwaitingConfirm, Some (ce_now (xc_env 100) + confirm_timeout (xc_env 100) (fire_timeout (xs_row MissedWindowSkip 300) 10)))"
    using n(1) by (simp add: xs_row_def)
  have sha: "se_hmac (xs_env 5) k m \<noteq> []" "se_sha256 (xs_env now) t \<noteq> []" "se_sha256 (xs_env 150) = se_sha256 (xs_env 5)" for k m t now
    by (simp_all add: xs_env_def)
  have ne: "sc_CallbackToken x \<noteq> []"
    using svc_Schedule_effect(3) [OF x(1) refl] sha(1) by (auto simp: mintCallbackToken_def hex_empty Let_def)
  let ?s2 = "xs_created\<lparr>sd_c := c\<rparr>"
  have m: "r \<in> set (sd_rows xs_created)" "r \<in> set (sd_rows ?s2)" "table_wf (sd_rows xs_created)" "table_wf (sd_rows ?s2)" using x(2,3) by simp_all
  have k: "keys_ok (cd_st (sd_c ?s2))" "rowv (cd_st (sd_c ?s2)) ''cs1'' = Some (StatusAwaitingConfirm, Some (ce_now (xc_env 100) + confirm_timeout (xc_env 100) (fire_timeout (xs_row MissedWindowSkip 300) 10)))"
    using n(3) w by simp_all
  from token_confirms_once [OF x(1) sha(1) sha(2) m(1) x(4) m(3,4,2) x(4) refl xs_facts(6,5) sha(3) xs_up k] ne
  show ?thesis by blast
qed

end
