(* ===== verification/Sched_Gaps.thy ===== *)
theory Sched_Gaps
  imports Sched_Props
begin

text \<open>
  Where the scheduler does not do what its comments say: a missed window that is applied late, a firing
  late in its window, a cancellation during a firing, and management paths that no check sees.
\<close>

section \<open>The confirm window of a firing\<close>

text \<open>
  The window of a changeset that is applied late. With the policy to apply immediately, a schedule that is
  found after its window ended fires with a timeout computed from the end of that window, which is not
  positive. The confirm window is therefore the shortest one, thirty seconds, whatever timeout the
  schedule asks for.
\<close>

theorem missed_window_ignores_timeout:
  assumes "env_up S" "keys_ok (cd_st (sd_c s))" "fire_gates S row s = None" "cg_MissedWindowPolicy row = MissedWindowApplyImmediately"
    "cg_WindowEnd row < se_clock S" "0 < cg_ConfirmTimeoutSec row" "fire_apply S row (se_clock S) (sd_c s) = ((None, Some cs), c)"
  shows "rowv (cd_st (sd_c (handleMissedWindow S row s))) (cg_ChangesetID row) = Some (StatusAwaitingConfirm, Some (ce_now (se_enter S) + 30))"
proof -
  note f = fired [OF assms(1-3,7)]
  have "fire_timeout row (se_clock S) < 0" using assms(5,6) by (simp add: fire_timeout_def Let_def)
  then have "confirm_timeout (se_enter S) (fire_timeout row (se_clock S)) = 30"
    by (simp add: confirm_timeout_def clampConfirmTimeout_def MinConfirmTimeout_def)
  moreover have "rowv (cd_st (sd_c (handleMissedWindow S row s))) = rowv (cd_st c)"
    using view_proj(1) [OF f(4)] assms(4) by (simp add: handleMissedWindow_def)
  ultimately show ?thesis using f(1) by simp
qed

theorem missed_window_ignores_timeout_witness:
  "cg_ConfirmTimeoutSec (xs_row MissedWindowApplyImmediately 90) = 120 \<and>
   rowv (cd_st (sd_c (handleMissedWindow (xs_env 100) (xs_row MissedWindowApplyImmediately 90) (xs_start MissedWindowApplyImmediately 90)))) ''cs1'' =
     Some (StatusAwaitingConfirm, Some 130)"
proof -
  obtain cs c where f: "fire_apply (xs_env 100) (xs_row MissedWindowApplyImmediately 90) (se_clock (xs_env 100)) (sd_c (xs_start MissedWindowApplyImmediately 90)) = ((None, Some cs), c)"
    using xs_fire by blast
  have r: "cg_MissedWindowPolicy (xs_row MissedWindowApplyImmediately 90) = MissedWindowApplyImmediately"
    "cg_WindowEnd (xs_row MissedWindowApplyImmediately 90) < se_clock (xs_env 100)" "0 < cg_ConfirmTimeoutSec (xs_row MissedWindowApplyImmediately 90)"
    by (simp_all add: xs_row_def)
  from missed_window_ignores_timeout [OF xs_up xs_keys xs_gates r f] show ?thesis by (simp add: xs_row_def xc_env_facts)
qed

text \<open>
  The window of a changeset that fires late in its window. The timeout is computed from the start of the
  window, not from the time of the firing. A timeout that fits into the window is used in full, so the
  deadline is past the end of the window when less time than that is left.
\<close>

theorem late_fire_overruns_window:
  assumes "env_up S" "keys_ok (cd_st (sd_c s))" "fire_gates S row s = None"
    "cg_WindowStart row \<le> now" "now < cg_WindowEnd row" "ce_now (se_enter S) = now"
    "30 \<le> cg_ConfirmTimeoutSec row" "cg_ConfirmTimeoutSec row \<le> 600" "cg_ConfirmTimeoutSec row \<le> cg_WindowEnd row - cg_WindowStart row"
    "fire_apply S row (cg_WindowStart row) (sd_c s) = ((None, Some cs), c)"
  shows "\<exists>d. rowv (cd_st (sd_c (tick_row S now row s))) (cg_ChangesetID row) = Some (StatusAwaitingConfirm, Some d) \<and>
    d - cg_WindowEnd row = cg_ConfirmTimeoutSec row - (cg_WindowEnd row - now)"
proof -
  note f = fired [OF assms(1-3,10)]
  have "fire_timeout row (cg_WindowStart row) = cg_ConfirmTimeoutSec row" using assms(9) by (simp add: fire_timeout_def Let_def)
  then have "confirm_timeout (se_enter S) (fire_timeout row (cg_WindowStart row)) = cg_ConfirmTimeoutSec row"
    using assms(7,8) by (simp add: confirm_timeout_def clampConfirmTimeout_def MinConfirmTimeout_def MaxConfirmTimeout_def)
  moreover have "rowv (cd_st (sd_c (tick_row S now row s))) = rowv (cd_st c)"
    using view_proj(1) [OF f(4)] assms(4,5) by (simp add: tick_row_def)
  ultimately show ?thesis using f(1) assms(6) by simp
qed

theorem late_fire_overruns_window_witness:
  "\<exists>d. rowv (cd_st (sd_c (tick_row (xs_env 290) 290 (xs_row MissedWindowSkip 300) (xs_start MissedWindowSkip 300)))) ''cs1'' =
     Some (StatusAwaitingConfirm, Some d) \<and> d = 300 + 110"
proof -
  have r: "cg_WindowStart (xs_row MissedWindowSkip 300) \<le> 290" "290 < cg_WindowEnd (xs_row MissedWindowSkip 300)" "ce_now (se_enter (xs_env 290)) = 290"
    "30 \<le> cg_ConfirmTimeoutSec (xs_row MissedWindowSkip 300)" "cg_ConfirmTimeoutSec (xs_row MissedWindowSkip 300) \<le> 600"
    "cg_ConfirmTimeoutSec (xs_row MissedWindowSkip 300) \<le> cg_WindowEnd (xs_row MissedWindowSkip 300) - cg_WindowStart (xs_row MissedWindowSkip 300)"
    by (simp_all add: xs_row_def xc_env_facts)
  obtain cs c where f: "fire_apply (xs_env 290) (xs_row MissedWindowSkip 300) (cg_WindowStart (xs_row MissedWindowSkip 300)) (sd_c (xs_start MissedWindowSkip 300)) = ((None, Some cs), c)"
    using xs_fire by blast
  from late_fire_overruns_window [OF xs_up xs_keys xs_gates r f] show ?thesis by (simp add: xs_row_def)
qed


section \<open>Cancelling during a firing\<close>

text \<open>
  C26. A cancellation can win against a firing that has happened. The row stays pending while the changeset is
  applied, so a cancellation in that time succeeds. The firing then resolves nothing: the schedule is
  reported as cancelled although its changeset has been applied and awaits its confirmation.
\<close>

theorem cancel_during_fire:
  assumes "env_up S" "keys_ok (cd_st (sd_c s))" "table_wf (sd_rows s)" "row \<in> set (sd_rows s)" "cg_Status row = SchedulePending"
    "fire_gates S row s = None" "fire_apply S row start (sd_c s) = ((None, Some cs), c)" "scheduleConfigured S'" "se_write_ok S'"
    "CancelSchedule S' (cg_ChangesetID row) author (s\<lparr>sd_c := c\<rparr>) = (res, s1)"
  shows "res = None \<and> (\<exists>d. rowv (cd_st (sd_c (fire_resolve S row None s1))) (cg_ChangesetID row) = Some (StatusAwaitingConfirm, d)) \<and>
    (\<exists>r\<in>set (sd_rows (fire_resolve S row None s1)). cg_ChangesetID r = cg_ChangesetID row \<and> cg_Status r = ScheduleCancelled)"
proof -
  note f = fired [OF assms(1,2,6,7)]
  let ?i = "cg_ChangesetID row"
  let ?r = "row\<lparr>cg_Status := ScheduleCancelled, cg_CancelledAt := Some (se_clock S')\<rparr>"
  have p: "list_ex (sched_pending ?i) (sd_rows s)" using assms(4,5) by (auto simp: list_ex_iff sched_pending_def)
  have c: "res = None" "s1 = saudit S' author ''changeset.schedule_cancel'' ''success'' ?i
      (s\<lparr>sd_c := c, sd_rows := map (\<lambda>r. if sched_pending ?i r then r\<lparr>cg_Status := ScheduleCancelled, cg_CancelledAt := Some (se_clock S')\<rparr> else r) (sd_rows s)\<rparr>)"
    using assms(8-10) p by (auto simp: CancelSchedule_def sched_Cancel_def)
  have m: "?r \<in> set (sd_rows s1)" using assms(4,5) by (force simp: c(2) sched_pending_def)
  have "?r \<in> set (sd_rows (fire_resolve S row None s1))"
    using m by (force simp: fire_resolve_def resolveSchedule_def sched_Resolve_def sched_pending_def)
  moreover have v: "view (sd_c (fire_resolve S row None s1)) = view c" by (simp add: fire_resolve_def c(2))
  moreover have "rowv (cd_st (sd_c (fire_resolve S row None s1))) = rowv (cd_st c)" using view_proj(1) [OF v] by simp
  ultimately show ?thesis using c(1) f(1) by (intro conjI bexI [of _ ?r]) simp_all
qed

theorem cancel_during_fire_witness:
  "\<exists>c s1. CancelSchedule (xs_env 105) ''cs1'' ''ann'' ((xs_start MissedWindowSkip 300)\<lparr>sd_c := c\<rparr>) = (None, s1) \<and>
     (\<exists>d. rowv (cd_st (sd_c (fire_resolve (xs_env 100) (xs_row MissedWindowSkip 300) None s1))) ''cs1'' = Some (StatusAwaitingConfirm, d))"
proof -
  obtain cs c where f: "fire_apply (xs_env 100) (xs_row MissedWindowSkip 300) 10 (sd_c (xs_start MissedWindowSkip 300)) = ((None, Some cs), c)"
    using xs_fire by blast
  have wf: "table_wf (sd_rows (xs_start MissedWindowSkip 300))" using xs_inv [of 300 MissedWindowSkip] by (simp add: sched_inv_def validMissedWindowPolicy_def)
  have r: "xs_row MissedWindowSkip 300 \<in> set (sd_rows (xs_start MissedWindowSkip 300))" "cg_Status (xs_row MissedWindowSkip 300) = SchedulePending"
    by (simp_all add: xs_start_def xs_row_def)
  obtain res s1 where e: "CancelSchedule (xs_env 105) (cg_ChangesetID (xs_row MissedWindowSkip 300)) ''ann'' ((xs_start MissedWindowSkip 300)\<lparr>sd_c := c\<rparr>) = (res, s1)"
    by fastforce
  from cancel_during_fire [OF xs_up xs_keys wf r xs_gates f xs_facts(6,4) e] e show ?thesis by (auto simp: xs_row_def)
qed


section \<open>Paths that no check sees\<close>

text \<open>
  An uplink port of a switch never counts as a management path. A changeset of updates of switch ports passes
  the check of the scheduler for every management path and every set of tunnels, because the scheduler
  hands no switch ports to it.
\<close>

theorem switch_ports_unseen:
  assumes "\<And>op. op \<in> set ops \<Longrightarrow> \<exists>q. op_Params op = POther (PRest q) \<and> se_rest S q = SwitchPortUpdateParams"
  shows "\<not> touchesMgmt S paths ops"
  using assms by (fastforce simp: touchesMgmt_def TouchesMgmtPath_iff op_touches_def rest_touches_def Let_def)

theorem switch_ports_unseen_witness:
  "\<not> touchesMgmt ((xs_env 100)\<lparr>se_rest := \<lambda>_. SwitchPortUpdateParams\<rparr>) [(''pve1'', [])]
     [\<lparr> op_ID = ''o'', op_Params = POther (PRest ()), op_Target = mkRef KindSwitchPort [] ''sw1/1'', op_Type = ''switch.port.update'' \<rparr>]"
  by (rule switch_ports_unseen) simp

end
