(* ===== verification/Go_Text.thy ===== *)
theory Go_Text
  imports Go_Strings
begin

text \<open>
  More of the Go package \<^verbatim>\<open>strings\<close>: what the code for the interfaces file uses of it. White space is
  that of \<open>Go_Strings\<close>.
\<close>

definition go_HasSuffix :: "string \<Rightarrow> string \<Rightarrow> bool" where
  "go_HasSuffix s p \<longleftrightarrow> length p \<le> length s \<and> drop (length s - length p) s = p"

definition go_TrimSuffix :: "string \<Rightarrow> string \<Rightarrow> string" where
  "go_TrimSuffix s p = (if go_HasSuffix s p then take (length s - length p) s else s)"

definition go_TrimRight :: "char set \<Rightarrow> string \<Rightarrow> string" where
  "go_TrimRight cs s = rev (dropWhile (\<lambda>c. c \<in> cs) (rev s))"

text \<open>\<open>strings.Join(ts, sep)\<close>.\<close>

fun go_Join :: "string \<Rightarrow> string list \<Rightarrow> string" where
  "go_Join sep [] = []"
| "go_Join sep [t] = t"
| "go_Join sep (t # u # ts) = t @ sep @ go_Join sep (u # ts)"

text \<open>\<open>strings.Fields\<close>: the runs without white space.\<close>

fun split_space :: "string \<Rightarrow> string list" where
  "split_space [] = [[]]"
| "split_space (x # xs) =
     (if go_isspace x then [] # split_space xs
      else (case split_space xs of [] \<Rightarrow> [[x]] | y # ys \<Rightarrow> (x # y) # ys))"

definition go_Fields :: "string \<Rightarrow> string list" where
  "go_Fields s = filter (\<lambda>t. t \<noteq> []) (split_space s)"

text \<open>\<open>strings.Index\<close>, and \<open>strings.Count\<close> for a text that is not empty.\<close>

fun go_Index :: "string \<Rightarrow> string \<Rightarrow> nat option" where
  "go_Index [] sub = (if sub = [] then Some 0 else None)"
| "go_Index (x # xs) sub = (if go_HasPrefix (x # xs) sub then Some 0 else map_option Suc (go_Index xs sub))"

function go_Count :: "string \<Rightarrow> string \<Rightarrow> nat" where
  "go_Count s sub =
     (if sub = [] then 0
      else case go_Index s sub of None \<Rightarrow> 0 | Some i \<Rightarrow> Suc (go_Count (drop (i + length sub) s) sub))"
  by pat_completeness auto
termination
proof (relation "measure (length \<circ> fst)")
  fix s sub :: string and i
  assume "sub \<noteq> []" "go_Index s sub = Some i"
  then have "s \<noteq> []" by auto
  with \<open>sub \<noteq> []\<close> show "((drop (i + length sub) s, sub), s, sub) \<in> measure (length \<circ> fst)" by (cases sub) auto
qed simp

declare go_Count.simps [simp del]


section \<open>Facts\<close>

lemma go_HasSuffix_iff: "go_HasSuffix s p \<longleftrightarrow> (\<exists>a. s = a @ p)"
proof
  assume "go_HasSuffix s p"
  then have "drop (length s - length p) s = p" by (simp add: go_HasSuffix_def)
  then have "s = take (length s - length p) s @ p" by (metis append_take_drop_id)
  then show "\<exists>a. s = a @ p" by blast
qed (auto simp: go_HasSuffix_def)

lemma go_HasPrefix_iff: "go_HasPrefix s p \<longleftrightarrow> (\<exists>a. s = p @ a)"
  unfolding go_HasPrefix_def by (metis append_eq_conv_conj)

lemma go_TrimSuffix_append [simp]: "go_TrimSuffix (a @ p) p = a"
  by (simp add: go_TrimSuffix_def go_HasSuffix_def)

lemma go_TrimSuffix_other: "\<not> go_HasSuffix s p \<Longrightarrow> go_TrimSuffix s p = s"
  by (simp add: go_TrimSuffix_def)

lemma split_space_nonempty [simp]: "split_space s \<noteq> []"
  by (cases s) (auto split: list.splits)

lemma split_space_append:
  assumes "go_isspace c"
  shows "split_space (a @ c # b) = split_space a @ split_space b"
  using assms by (induction a) (auto split: list.splits)

lemma split_space_token: "\<forall>c\<in>set t. \<not> go_isspace c \<Longrightarrow> split_space t = [t]"
  by (induction t) auto

text \<open>A token: not empty and without white space.\<close>

definition token :: "string \<Rightarrow> bool" where
  "token t \<longleftrightarrow> t \<noteq> [] \<and> (\<forall>c\<in>set t. \<not> go_isspace c)"

lemma go_Fields_token: "token t \<Longrightarrow> go_Fields t = [t]"
  by (simp add: go_Fields_def split_space_token token_def)

lemma go_Fields_space: "go_isspace c \<Longrightarrow> go_Fields (a @ c # b) = go_Fields a @ go_Fields b"
  by (simp add: go_Fields_def split_space_append)

lemma go_Fields_Cons: "go_isspace c \<Longrightarrow> go_Fields (c # b) = go_Fields b"
  using go_Fields_space [of c "[]" b] by (simp add: go_Fields_def)

lemma go_Fields_Nil [simp]: "go_Fields [] = []"
  by (simp add: go_Fields_def)

lemma split_space_tokens: "t \<in> set (split_space s) \<Longrightarrow> c \<in> set t \<Longrightarrow> \<not> go_isspace c"
  by (induction s arbitrary: t) (fastforce split: list.splits if_splits)+

lemma go_Fields_tokens: "t \<in> set (go_Fields s) \<Longrightarrow> token t"
  using split_space_tokens by (auto simp: go_Fields_def token_def)

text \<open>Joining tokens with a space and taking them apart again.\<close>

lemma go_Fields_Join: "list_all token ts \<Longrightarrow> go_Fields (go_Join '' '' ts) = ts"
proof (induction ts rule: induct_list012)
  case (3 t u ts)
  then have "go_Fields (t @ CHR '' '' # go_Join '' '' (u # ts)) = go_Fields t @ u # ts"
    by (subst go_Fields_space) (simp_all add: go_isspace_def)
  with 3 show ?case by (simp add: go_Fields_token)
qed (simp_all add: go_Fields_token)

lemma go_TrimSpace_dropWhile: "go_Fields (dropWhile go_isspace s) = go_Fields s"
  by (induction s) (auto simp: go_Fields_Cons)

lemma go_Fields_spaces: "\<forall>c\<in>set b. go_isspace c \<Longrightarrow> go_Fields (a @ b) = go_Fields a"
proof (induction b arbitrary: a)
  case (Cons c b)
  have "go_Fields (a @ c # b) = go_Fields a @ go_Fields b" using Cons.prems by (intro go_Fields_space) simp
  also have "go_Fields b = []" using Cons.IH [of "[]"] Cons.prems by simp
  finally show ?case by simp
qed simp

lemma go_Fields_TrimSpace [simp]: "go_Fields (go_TrimSpace s) = go_Fields s"
proof -
  let ?d = "dropWhile go_isspace s"
  have d: "?d = go_TrimSpace s @ rev (takeWhile go_isspace (rev ?d))"
    by (metis go_TrimSpace_def rev_append rev_rev_ident takeWhile_dropWhile_id)
  have "go_Fields ?d = go_Fields (go_TrimSpace s)"
    by (subst d, rule go_Fields_spaces) (auto dest: set_takeWhileD)
  then show ?thesis by (simp add: go_TrimSpace_dropWhile)
qed

lemma go_TrimSpace_empty: "go_TrimSpace s = [] \<longleftrightarrow> (\<forall>c\<in>set s. go_isspace c)"
  by (simp add: go_TrimSpace_def dropWhile_eq_Nil_conv) (metis set_dropWhileD set_takeWhileD takeWhile_dropWhile_id Un_iff set_append)

end
