(* ===== verification/Ifaces_File.thy ===== *)
theory Ifaces_File
  imports Go_Text
begin

text \<open>
  The file \<^verbatim>\<open>/etc/network/interfaces\<close> as the code keeps it (\<^verbatim>\<open>src/internal/host/interfaces_ast.go\<close>): every
  line with its source text, and its meaning beside it. The parser (\<^verbatim>\<open>interfaces_parse.go\<close>) first joins
  continued lines and then reads one logical line after the other.
\<close>

section \<open>The tree\<close>

datatype EntryKind =
    KindBlank | KindComment | KindAuto | KindAllow | KindNoAutoDown | KindNoScripts | KindRename
  | KindSource | KindSourceDirectory | KindMapping | KindIface

datatype BodyItemKind = BodyBlank | BodyComment | BodyOption

record BodyItem =
  bi_Raw :: string
  bi_Key :: string
  bi_Value :: string
  bi_Kind :: BodyItemKind

record Entry =
  en_Raw :: string
  en_Class :: string
  en_Path :: string
  en_Pattern :: string
  en_Name :: string
  en_Family :: string
  en_Method :: string
  en_Ifaces :: "string list"
  en_Renames :: "string list"
  en_Inherits :: "string list"
  en_Body :: "BodyItem list"
  en_Kind :: EntryKind

text \<open>A file is its list of entries.\<close>

type_synonym File = "Entry list"

definition zero_Entry :: "EntryKind \<Rightarrow> string \<Rightarrow> Entry" where
  "zero_Entry k raw = \<lparr> en_Raw = raw, en_Class = [], en_Path = [], en_Pattern = [], en_Name = [], en_Family = [], en_Method = [],
     en_Ifaces = [], en_Renames = [], en_Inherits = [], en_Body = [], en_Kind = k \<rparr>"

definition zero_Item :: "BodyItemKind \<Rightarrow> string \<Rightarrow> BodyItem" where
  "zero_Item k raw = \<lparr> bi_Raw = raw, bi_Key = [], bi_Value = [], bi_Kind = k \<rparr>"

definition Entry_Options :: "Entry \<Rightarrow> BodyItem list" where
  "Entry_Options e = filter (\<lambda>item. bi_Kind item = BodyOption) (en_Body e)"

definition Entry_Get :: "string \<Rightarrow> Entry \<Rightarrow> string option" where
  "Entry_Get key e = map_option bi_Value (List.find (\<lambda>item. bi_Kind item = BodyOption \<and> bi_Key item = key) (en_Body e))"

definition File_Ifaces :: "File \<Rightarrow> Entry list" where
  "File_Ifaces f = filter (\<lambda>e. en_Kind e = KindIface) f"

definition File_Iface :: "string \<Rightarrow> File \<Rightarrow> Entry option" where
  "File_Iface name f = List.find (\<lambda>e. en_Kind e = KindIface \<and> en_Name e = name) f"

definition AutoIfaces :: "File \<Rightarrow> string list" where
  "AutoIfaces f = concat (map (\<lambda>e. if en_Kind e = KindAuto \<or> en_Kind e = KindAllow \<and> en_Class e = ''auto'' then en_Ifaces e else []) f)"

definition Sources :: "File \<Rightarrow> Entry list" where
  "Sources f = filter (\<lambda>e. en_Kind e = KindSource \<or> en_Kind e = KindSourceDirectory) f"

definition entry_text :: "Entry \<Rightarrow> string" where
  "entry_text e = en_Raw e @ concat (map bi_Raw (en_Body e))"

definition Render :: "File \<Rightarrow> string" where
  "Render f = concat (map entry_text f)"


section \<open>Logical lines\<close>

datatype parse_error = UnterminatedContinuation nat | IfaceArguments nat nat | UnexpectedLine nat string

record logicalLine =
  ll_Text :: string
  ll_Raw :: string
  ll_Start :: nat

text \<open>The first physical line with its terminator, and what follows.\<close>

definition phys_line :: "string \<Rightarrow> string \<times> string" where
  "phys_line s =
     (let a = takeWhile (\<lambda>c. c \<noteq> CHR 0x0A) s in
      case dropWhile (\<lambda>c. c \<noteq> CHR 0x0A) s of [] \<Rightarrow> (a, []) | n # r \<Rightarrow> (a @ [n], r))"

definition line_content :: "string \<Rightarrow> string" where
  "line_content phys = go_TrimSuffix (go_TrimSuffix phys [CHR 0x0A]) [CHR 0x0D]"

lemma phys_line_append:
  assumes "phys_line s = (p, r)" shows "s = p @ r"
proof (cases "dropWhile (\<lambda>c. c \<noteq> CHR 0x0A) s")
  case Nil
  then have "takeWhile (\<lambda>c. c \<noteq> CHR 0x0A) s = s" by (simp add: takeWhile_eq_all_conv)
  with assms show ?thesis unfolding phys_line_def Let_def Nil by simp
next
  case (Cons n l)
  then have "takeWhile (\<lambda>c. c \<noteq> CHR 0x0A) s @ n # l = s" by (metis takeWhile_dropWhile_id)
  with Cons assms show ?thesis by (auto simp: phys_line_def)
qed

lemma phys_line_Nil: "phys_line s = ([], r) \<Longrightarrow> s = []"
proof -
  assume a: "phys_line s = ([], r)"
  then have "dropWhile (\<lambda>c. c \<noteq> CHR 0x0A) s = []" "takeWhile (\<lambda>c. c \<noteq> CHR 0x0A) s = []"
    by (simp_all add: phys_line_def Let_def split: list.splits)
  then show "s = []" by (metis append_Nil takeWhile_dropWhile_id)
qed

lemma line_content_Nil [simp]: "line_content [] = []"
  by (simp add: line_content_def go_TrimSuffix_def)

text \<open>The lines from the number \<open>lineNo\<close> on that form one logical line: its text, its source, the number of the last, the rest.\<close>

function logical_line :: "nat \<Rightarrow> string \<Rightarrow> string \<Rightarrow> string \<Rightarrow> parse_error + string \<times> string \<times> nat \<times> string" where
  "logical_line lineNo raw text s =
     (let (phys, rest) = phys_line s; content = line_content phys in
      if go_HasSuffix content [CHR 0x5C] then
        (if rest = [] then Inl (UnterminatedContinuation lineNo)
         else logical_line (lineNo + 1) (raw @ phys) (text @ take (length content - 1) content) rest)
      else Inr (text @ content, raw @ phys, lineNo, rest))"
  by pat_completeness auto
termination
proof (relation "measure (\<lambda>(n, raw, text, s). length s)")
  fix lineNo :: nat and raw tx s phys rest content and x
  assume a: "x = phys_line s" "(phys, rest) = x" "content = line_content phys" "go_HasSuffix content [CHR 0x5C]"
  then have "phys \<noteq> []" by (auto simp: go_HasSuffix_def)
  moreover have "s = phys @ rest" using a(1,2) phys_line_append by metis
  ultimately show "((lineNo + 1, raw @ phys, tx @ take (length content - 1) content, rest), lineNo, raw, tx, s)
      \<in> measure (\<lambda>(n, raw, text, s). length s)" by simp
qed simp

declare logical_line.simps [simp del]

lemma logical_line_raw: "logical_line n raw tx s = Inr (t, raw', m, rest) \<Longrightarrow> raw' @ rest = raw @ s"
proof (induction n raw tx s rule: logical_line.induct)
  case (1 lineNo raw tx s)
  obtain phys r where p: "phys_line s = (phys, r)" by fastforce
  note s = phys_line_append [OF p]
  show ?case
  proof (cases "go_HasSuffix (line_content phys) [CHR 0x5C]")
    case True
    then have "r \<noteq> []" "logical_line (lineNo + 1) (raw @ phys) (tx @ take (length (line_content phys) - 1) (line_content phys)) r = Inr (t, raw', m, rest)"
      using "1.prems" p by (auto simp: logical_line.simps [of lineNo] Let_def split: if_splits)
    then show ?thesis using "1.IH" [OF p [symmetric] refl refl True] s by simp
  next
    case False
    with "1.prems" p s show ?thesis by (simp add: logical_line.simps [of lineNo] Let_def)
  qed
qed

lemma logical_line_shorter: "logical_line n raw tx s = Inr (t, raw', m, rest) \<Longrightarrow> s \<noteq> [] \<Longrightarrow> length rest < length s"
proof (induction n raw tx s rule: logical_line.induct)
  case (1 lineNo raw tx s)
  obtain phys r where p: "phys_line s = (phys, r)" by fastforce
  note s = phys_line_append [OF p]
  have ne: "phys \<noteq> []" using phys_line_Nil p "1.prems"(2) by blast
  show ?case
  proof (cases "go_HasSuffix (line_content phys) [CHR 0x5C]")
    case True
    then have "r \<noteq> []" "logical_line (lineNo + 1) (raw @ phys) (tx @ take (length (line_content phys) - 1) (line_content phys)) r = Inr (t, raw', m, rest)"
      using "1.prems" p by (auto simp: logical_line.simps [of lineNo] Let_def split: if_splits)
    then have "length rest < length r" using "1.IH" [OF p [symmetric] refl refl True] by blast
    then show ?thesis using s by simp
  next
    case False
    with "1.prems" p s ne show ?thesis by (simp add: logical_line.simps [of lineNo] Let_def)
  qed
qed

function splitLogicalLines :: "nat \<Rightarrow> string \<Rightarrow> parse_error + logicalLine list" where
  "splitLogicalLines lineNo s =
     (if s = [] then Inr []
      else case logical_line (lineNo + 1) [] [] s of
        Inl e \<Rightarrow> Inl e
      | Inr (text, raw, n, rest) \<Rightarrow>
          (case splitLogicalLines n rest of
             Inl e \<Rightarrow> Inl e
           | Inr ls \<Rightarrow> Inr (\<lparr> ll_Text = text, ll_Raw = raw, ll_Start = lineNo + 1 \<rparr> # ls)))"
  by pat_completeness auto
termination
  by (relation "measure (\<lambda>(n, s). length s)") (auto dest: logical_line_shorter)

declare splitLogicalLines.simps [simp del]


section \<open>The parser\<close>

abbreviation "kwAuto \<equiv> ''auto''"
abbreviation "kwNoAutoDown \<equiv> ''no-auto-down''"
abbreviation "kwNoScripts \<equiv> ''no-scripts''"
abbreviation "kwRename \<equiv> ''rename''"
abbreviation "kwSource \<equiv> ''source''"
abbreviation "kwSourceDirectory \<equiv> ''source-directory''"
abbreviation "kwMapping \<equiv> ''mapping''"
abbreviation "kwIface \<equiv> ''iface''"
abbreviation "allowPrefix \<equiv> ''allow-''"
abbreviation "kwInherits \<equiv> ''inherits''"

text \<open>The entries that are complete, and the stanza that is open.\<close>

type_synonym parse_state = "File \<times> Entry option"

definition closeOpen :: "parse_state \<Rightarrow> File" where
  "closeOpen st = (case st of (f, None) \<Rightarrow> f | (f, Some e) \<Rightarrow> f @ [e])"

definition add_item :: "BodyItem \<Rightarrow> Entry \<Rightarrow> Entry" where
  "add_item item e = e\<lparr>en_Body := en_Body e @ [item]\<rparr>"

definition parse_line :: "logicalLine \<Rightarrow> parse_state \<Rightarrow> parse_error + parse_state" where
  "parse_line ln st =
     (let trimmed = go_TrimSpace (ll_Text ln); raw = ll_Raw ln in
      if trimmed = [] then
        (case st of (f, Some e) \<Rightarrow> Inr (f, Some (add_item (zero_Item BodyBlank raw) e))
         | (f, None) \<Rightarrow> Inr (f @ [zero_Entry KindBlank raw], None))
      else if go_HasPrefix trimmed ''#'' then
        (case st of (f, Some e) \<Rightarrow> Inr (f, Some (add_item (zero_Item BodyComment raw) e))
         | (f, None) \<Rightarrow> Inr (f @ [zero_Entry KindComment raw], None))
      else
        let tokens = go_Fields trimmed; kw = hd tokens; args = tl tokens; one = (\<lambda>e. Inr (closeOpen st @ [e], None)) in
        if kw = kwAuto then one ((zero_Entry KindAuto raw)\<lparr>en_Ifaces := args\<rparr>)
        else if go_HasPrefix kw allowPrefix \<and> length kw > length allowPrefix
        then one ((zero_Entry KindAllow raw)\<lparr>en_Class := drop (length allowPrefix) kw, en_Ifaces := args\<rparr>)
        else if kw = kwNoAutoDown then one ((zero_Entry KindNoAutoDown raw)\<lparr>en_Ifaces := args\<rparr>)
        else if kw = kwNoScripts then one ((zero_Entry KindNoScripts raw)\<lparr>en_Ifaces := args\<rparr>)
        else if kw = kwRename then one ((zero_Entry KindRename raw)\<lparr>en_Renames := args\<rparr>)
        else if kw = kwSource then one ((zero_Entry KindSource raw)\<lparr>en_Path := go_Join '' '' args\<rparr>)
        else if kw = kwSourceDirectory then one ((zero_Entry KindSourceDirectory raw)\<lparr>en_Path := go_Join '' '' args\<rparr>)
        else if kw = kwMapping then Inr (closeOpen st, Some ((zero_Entry KindMapping raw)\<lparr>en_Pattern := go_Join '' '' args\<rparr>))
        else if kw = kwIface then
          (if length args < 3 then Inl (IfaceArguments (ll_Start ln) (length args))
           else Inr (closeOpen st, Some ((zero_Entry KindIface raw)\<lparr>en_Name := args ! 0, en_Family := args ! 1, en_Method := args ! 2,
                  en_Inherits := (if length args > 3 \<and> args ! 3 = kwInherits then drop 4 args else [])\<rparr>)))
        else case st of
          (f, None) \<Rightarrow> Inl (UnexpectedLine (ll_Start ln) trimmed)
        | (f, Some e) \<Rightarrow>
            Inr (f, Some (add_item \<lparr> bi_Raw = raw, bi_Key = kw, bi_Value = go_Join '' '' args, bi_Kind = BodyOption \<rparr> e)))"

fun parse_lines :: "logicalLine list \<Rightarrow> parse_state \<Rightarrow> parse_error + parse_state" where
  "parse_lines [] st = Inr st"
| "parse_lines (ln # lns) st = (case parse_line ln st of Inl e \<Rightarrow> Inl e | Inr st \<Rightarrow> parse_lines lns st)"

definition ParseInterfaces :: "string \<Rightarrow> parse_error + File" where
  "ParseInterfaces data =
     (case splitLogicalLines 0 data of Inl e \<Rightarrow> Inl e
      | Inr lines \<Rightarrow> (case parse_lines lines ([], None) of Inl e \<Rightarrow> Inl e | Inr st \<Rightarrow> Inr (closeOpen st)))"


section \<open>No byte is lost\<close>

lemma split_raw: "splitLogicalLines n s = Inr ls \<Longrightarrow> concat (map ll_Raw ls) = s"
proof (induction n s arbitrary: ls rule: splitLogicalLines.induct)
  case (1 lineNo s)
  show ?case
  proof (cases "s = []")
    case False
    then obtain tx raw n rest ls' where l: "logical_line (lineNo + 1) [] [] s = Inr (tx, raw, n, rest)"
      "splitLogicalLines n rest = Inr ls'" "ls = \<lparr> ll_Text = tx, ll_Raw = raw, ll_Start = lineNo + 1 \<rparr> # ls'"
      using "1.prems" by (auto simp: splitLogicalLines.simps [of lineNo s] split: sum.splits)
    have "concat (map ll_Raw ls') = rest" using "1.IH" [OF False l(1) refl refl refl l(2)] .
    with l(3) logical_line_raw [OF l(1)] show ?thesis by simp
  qed (use "1.prems" in \<open>simp add: splitLogicalLines.simps\<close>)
qed

lemma Render_append [simp]: "Render (f @ g) = Render f @ Render g"
  by (simp add: Render_def)

lemma Render_Nil [simp]: "Render [] = []"
  by (simp add: Render_def)

lemma Render_Cons [simp]: "Render (e # f) = entry_text e @ Render f"
  by (simp add: Render_def)

lemma entry_text_zero [simp]: "entry_text (zero_Entry k raw) = raw"
  by (simp add: entry_text_def zero_Entry_def)

lemma entry_text_add [simp]: "entry_text (add_item item e) = entry_text e @ bi_Raw item"
  by (simp add: entry_text_def add_item_def)

lemma parse_line_raw: "parse_line ln st = Inr st' \<Longrightarrow> Render (closeOpen st') = Render (closeOpen st) @ ll_Raw ln"
  by (cases st; cases "snd st")
    (auto simp: parse_line_def Let_def closeOpen_def zero_Item_def entry_text_def zero_Entry_def add_item_def split: if_splits)

lemma parse_lines_raw: "parse_lines lns st = Inr st' \<Longrightarrow> Render (closeOpen st') = Render (closeOpen st) @ concat (map ll_Raw lns)"
proof (induction lns arbitrary: st)
  case (Cons ln lns)
  then obtain st1 where "parse_line ln st = Inr st1" "parse_lines lns st1 = Inr st'" by (auto split: sum.splits)
  with Cons.IH parse_line_raw show ?case by simp
qed simp

text \<open>C33. A text that parses is rendered byte for byte as it was.\<close>

theorem parse_render:
  assumes "ParseInterfaces s = Inr f" shows "Render f = s"
proof -
  obtain lines st where l: "splitLogicalLines 0 s = Inr lines" "parse_lines lines ([], None) = Inr st" "f = closeOpen st"
    using assms by (auto simp: ParseInterfaces_def split: sum.splits)
  with parse_lines_raw [OF l(2)] split_raw [OF l(1)] show ?thesis by (simp add: closeOpen_def)
qed

theorem parse_render_witness:
  "\<exists>f. ParseInterfaces (''auto lo'' @ [CHR 0x0D, CHR 0x0A] @ ''iface lo inet'' @ [CHR 0x5C, CHR 0x0A] @ ''  loopback'') = Inr f \<and> length f = 2 \<and>
     Render f = ''auto lo'' @ [CHR 0x0D, CHR 0x0A] @ ''iface lo inet'' @ [CHR 0x5C, CHR 0x0A] @ ''  loopback''"
proof -
  let ?s = "''auto lo'' @ [CHR 0x0D, CHR 0x0A] @ ''iface lo inet'' @ [CHR 0x5C, CHR 0x0A] @ ''  loopback''"
  have "case ParseInterfaces ?s of Inl _ \<Rightarrow> False | Inr f \<Rightarrow> length f = 2" by code_simp
  then obtain f where f: "ParseInterfaces ?s = Inr f" "length f = 2" by (auto split: sum.splits)
  from f parse_render [OF f(1)] show ?thesis by blast
qed

end
