(* ===== verification/Edge_Marker.thy ===== *)
theory Edge_Marker
  imports Go_Text
begin

text \<open>
  The marker comments of generated lines (\<^verbatim>\<open>src/internal/host/edgemarker.go\<close>): a NAT rule or a static route is
  recorded nowhere but in the comment at the end of the shell commands it renders, as a query string. First what
  the code uses of the Go package \<^verbatim>\<open>net/url\<close>, then the three kinds of rule. The facts: decoding an encoded
  marker gives the rule back, whatever bytes it has, and a marker has no white space.
\<close>

section \<open>net/url\<close>

definition url_hexdigit :: "int \<Rightarrow> char" where
  "url_hexdigit n = (if n < 10 then go_chr (48 + n) else go_chr (55 + n))"

definition shouldEscape :: "char \<Rightarrow> bool" where
  "shouldEscape c \<longleftrightarrow>
     \<not> (65 \<le> go_ord c \<and> go_ord c \<le> 90 \<or> 97 \<le> go_ord c \<and> go_ord c \<le> 122 \<or> go_isdigit c \<or> c \<in> set ''-_.~'')"

definition escape_char :: "char \<Rightarrow> string" where
  "escape_char c =
     (if c = CHR '' '' then ''+''
      else if shouldEscape c then [CHR ''%'', url_hexdigit (go_ord c div 16), url_hexdigit (go_ord c mod 16)]
      else [c])"

definition QueryEscape :: "string \<Rightarrow> string" where
  "QueryEscape s = concat (map escape_char s)"

definition unhex :: "char \<Rightarrow> int option" where
  "unhex c =
     (if go_isdigit c then Some (go_ord c - 48)
      else if 97 \<le> go_ord c \<and> go_ord c \<le> 102 then Some (go_ord c - 87)
      else if 65 \<le> go_ord c \<and> go_ord c \<le> 70 then Some (go_ord c - 55)
      else None)"

fun QueryUnescape :: "string \<Rightarrow> string option" where
  "QueryUnescape [] = Some []"
| "QueryUnescape (c # s) =
     (if c = CHR ''%'' then
        (case s of a # b # r \<Rightarrow>
           (case (unhex a, unhex b) of
              (Some x, Some y) \<Rightarrow> map_option (Cons (go_chr (16 * x + y))) (QueryUnescape r)
            | _ \<Rightarrow> None)
         | _ \<Rightarrow> None)
      else map_option (Cons (if c = CHR ''+'' then CHR '' '' else c)) (QueryUnescape s))"

text \<open>\<open>url.Values\<close>: for a key its values, first to last. \<open>Set\<close> replaces, \<open>Get\<close> reads the first.\<close>

type_synonym Values = "(string \<times> string list) list"

definition Values_Set :: "string \<Rightarrow> string \<Rightarrow> Values \<Rightarrow> Values" where
  "Values_Set k x v = AList.update k [x] v"

definition Values_Get :: "Values \<Rightarrow> string \<Rightarrow> string" where
  "Values_Get v k = (case map_of v k of Some (x # _) \<Rightarrow> x | _ \<Rightarrow> [])"

definition Values_Add :: "string \<Rightarrow> string \<Rightarrow> Values \<Rightarrow> Values" where
  "Values_Add k x v = AList.update k ((case map_of v k of Some xs \<Rightarrow> xs | None \<Rightarrow> []) @ [x]) v"

definition Values_Encode :: "Values \<Rightarrow> string" where
  "Values_Encode v =
     go_Join ''&'' (concat (map (\<lambda>(k, xs). map (\<lambda>x. QueryEscape k @ ''='' @ QueryEscape x) xs) (sort_key fst v)))"

text \<open>\<open>url.ParseQuery\<close>: the values and whether a part was malformed. Parts without text are skipped; a part with a
  semicolon or with a bad escape is an error.\<close>

definition cut_at :: "char \<Rightarrow> string \<Rightarrow> string \<times> string" where
  "cut_at c s = (case dropWhile (\<lambda>x. x \<noteq> c) s of [] \<Rightarrow> (s, []) | _ # r \<Rightarrow> (takeWhile (\<lambda>x. x \<noteq> c) s, r))"

definition parse_part :: "string \<Rightarrow> Values \<times> bool \<Rightarrow> Values \<times> bool" where
  "parse_part part st =
     (case st of (v, err) \<Rightarrow>
        if CHR '';'' \<in> set part then (v, True)
        else if part = [] then (v, err)
        else case cut_at (CHR ''='') part of (k, x) \<Rightarrow>
          (case (QueryUnescape k, QueryUnescape x) of
             (Some k', Some x') \<Rightarrow> (Values_Add k' x' v, err)
           | _ \<Rightarrow> (v, True)))"

definition ParseQuery :: "string \<Rightarrow> Values option" where
  "ParseQuery s = (case (if s = [] then ([], False) else fold parse_part (go_Split (CHR ''&'') s) ([], False)) of (v, err) \<Rightarrow> if err then None else Some v)"


section \<open>The markers\<close>

abbreviation "EdgeMarkerNatMasquerade \<equiv> ''vnprox-edge:nat-masquerade:''"
abbreviation "EdgeMarkerNatPortForward \<equiv> ''vnprox-edge:nat-portforward:''"
abbreviation "EdgeMarkerStaticRoute \<equiv> ''vnprox-edge:route-static:''"
abbreviation "edgeMarkerSentinel \<equiv> ''vnprox-edge:''"

definition CutEdgeMarker :: "string \<Rightarrow> string option" where
  "CutEdgeMarker value = (case go_Index value (''# '' @ edgeMarkerSentinel) of None \<Rightarrow> None | Some i \<Rightarrow> Some (drop (i + 2) value))"

definition go_CutPrefix :: "string \<Rightarrow> string \<Rightarrow> string option" where
  "go_CutPrefix s p = (if go_HasPrefix s p then Some (drop (length p) s) else None)"

record NatMasqueradeConfig =
  nm_ID :: string
  nm_Iface :: string
  nm_SourceCIDR :: string
  nm_Comment :: string

record NatPortForwardConfig =
  np_ID :: string
  np_Iface :: string
  np_Proto :: string
  np_IntIP :: string
  np_Comment :: string
  np_ExtPort :: int
  np_IntPort :: int

record StaticRouteConfig =
  sr_ID :: string
  sr_Iface :: string
  sr_DestCIDR :: string
  sr_Gateway :: string
  sr_Comment :: string
  sr_Metric :: int

text \<open>\<open>if cond { v.Set(k, x) }\<close>.\<close>

definition set_if :: "bool \<Rightarrow> string \<Rightarrow> string \<Rightarrow> Values \<Rightarrow> Values" where
  "set_if b k x v = (if b then Values_Set k x v else v)"

definition EncodeNatMasqueradeMarker :: "NatMasqueradeConfig \<Rightarrow> string" where
  "EncodeNatMasqueradeMarker c =
     (let v = Values_Set ''id'' (nm_ID c) [];
          v = Values_Set ''iface'' (nm_Iface c) v;
          v = Values_Set ''sourceCidr'' (nm_SourceCIDR c) v;
          v = set_if (nm_Comment c \<noteq> []) ''comment'' (nm_Comment c) v
      in EdgeMarkerNatMasquerade @ Values_Encode v)"

definition DecodeNatMasqueradeMarker :: "string \<Rightarrow> NatMasqueradeConfig option" where
  "DecodeNatMasqueradeMarker s =
     (case go_CutPrefix s EdgeMarkerNatMasquerade of None \<Rightarrow> None
      | Some rest \<Rightarrow> (case ParseQuery rest of None \<Rightarrow> None
        | Some v \<Rightarrow> Some \<lparr> nm_ID = Values_Get v ''id'', nm_Iface = Values_Get v ''iface'',
            nm_SourceCIDR = Values_Get v ''sourceCidr'', nm_Comment = Values_Get v ''comment'' \<rparr>))"

definition NatMasqueradeCommands :: "NatMasqueradeConfig \<Rightarrow> string \<times> string" where
  "NatMasqueradeCommands c =
     (let marker = ''# '' @ EncodeNatMasqueradeMarker c in
      (''iptables -t nat -A POSTROUTING -s '' @ nm_SourceCIDR c @ '' -o '' @ nm_Iface c @ '' -j MASQUERADE '' @ marker,
       ''iptables -t nat -D POSTROUTING -s '' @ nm_SourceCIDR c @ '' -o '' @ nm_Iface c @ '' -j MASQUERADE '' @ marker))"

definition EncodeNatPortForwardMarker :: "NatPortForwardConfig \<Rightarrow> string" where
  "EncodeNatPortForwardMarker c =
     (let v = Values_Set ''id'' (np_ID c) [];
          v = Values_Set ''iface'' (np_Iface c) v;
          v = Values_Set ''proto'' (np_Proto c) v;
          v = Values_Set ''extPort'' (go_Itoa (np_ExtPort c)) v;
          v = Values_Set ''intIp'' (np_IntIP c) v;
          v = Values_Set ''intPort'' (go_Itoa (np_IntPort c)) v;
          v = set_if (np_Comment c \<noteq> []) ''comment'' (np_Comment c) v
      in EdgeMarkerNatPortForward @ Values_Encode v)"

text \<open>\<open>n, _ := strconv.Atoi(s)\<close>: with the error dropped, zero for a text that is no number and the nearest number for one out
  of range.\<close>

definition atoi_value :: "string \<Rightarrow> int" where
  "atoi_value s =
     (let (neg, ds) = (case s of [] \<Rightarrow> (False, [])
                       | c # r \<Rightarrow> if c = CHR ''-'' then (True, r)
                                  else if c = CHR ''+'' then (False, r) else (False, s))
      in if ds = [] \<or> \<not> list_all go_isdigit ds then 0
         else let n = (if neg then - go_decval ds else go_decval ds)
              in max (- (2 ^ 63)) (min (2 ^ 63 - 1) n))"

definition DecodeNatPortForwardMarker :: "string \<Rightarrow> NatPortForwardConfig option" where
  "DecodeNatPortForwardMarker s =
     (case go_CutPrefix s EdgeMarkerNatPortForward of None \<Rightarrow> None
      | Some rest \<Rightarrow> (case ParseQuery rest of None \<Rightarrow> None
        | Some v \<Rightarrow> Some \<lparr> np_ID = Values_Get v ''id'', np_Iface = Values_Get v ''iface'', np_Proto = Values_Get v ''proto'',
            np_IntIP = Values_Get v ''intIp'', np_Comment = Values_Get v ''comment'',
            np_ExtPort = atoi_value (Values_Get v ''extPort''), np_IntPort = atoi_value (Values_Get v ''intPort'') \<rparr>))"

definition NatPortForwardCommands :: "NatPortForwardConfig \<Rightarrow> string \<times> string" where
  "NatPortForwardCommands c =
     (let marker = ''# '' @ EncodeNatPortForwardMarker c;
          dest = np_IntIP c @ '':'' @ go_Itoa (np_IntPort c);
          tail = '' PREROUTING -i '' @ np_Iface c @ '' -p '' @ np_Proto c @ '' --dport '' @ go_Itoa (np_ExtPort c) @
            '' -j DNAT --to-destination '' @ dest @ '' '' @ marker
      in (''iptables -t nat -A'' @ tail, ''iptables -t nat -D'' @ tail))"

definition EncodeStaticRouteMarker :: "StaticRouteConfig \<Rightarrow> string" where
  "EncodeStaticRouteMarker c =
     (let v = Values_Set ''id'' (sr_ID c) [];
          v = Values_Set ''iface'' (sr_Iface c) v;
          v = Values_Set ''destCidr'' (sr_DestCIDR c) v;
          v = Values_Set ''gateway'' (sr_Gateway c) v;
          v = set_if (sr_Metric c \<noteq> 0) ''metric'' (go_Itoa (sr_Metric c)) v;
          v = set_if (sr_Comment c \<noteq> []) ''comment'' (sr_Comment c) v
      in EdgeMarkerStaticRoute @ Values_Encode v)"

definition DecodeStaticRouteMarker :: "string \<Rightarrow> StaticRouteConfig option" where
  "DecodeStaticRouteMarker s =
     (case go_CutPrefix s EdgeMarkerStaticRoute of None \<Rightarrow> None
      | Some rest \<Rightarrow> (case ParseQuery rest of None \<Rightarrow> None
        | Some v \<Rightarrow> Some \<lparr> sr_ID = Values_Get v ''id'', sr_Iface = Values_Get v ''iface'', sr_DestCIDR = Values_Get v ''destCidr'',
            sr_Gateway = Values_Get v ''gateway'', sr_Comment = Values_Get v ''comment'', sr_Metric = atoi_value (Values_Get v ''metric'') \<rparr>))"

definition StaticRouteCommands :: "StaticRouteConfig \<Rightarrow> string \<times> string" where
  "StaticRouteCommands c =
     (let marker = ''# '' @ EncodeStaticRouteMarker c;
          tail = sr_DestCIDR c @ '' via '' @ sr_Gateway c @ '' dev '' @ sr_Iface c @
            (if sr_Metric c \<noteq> 0 then '' metric '' @ go_Itoa (sr_Metric c) else [])
      in (''ip route add '' @ tail @ '' '' @ marker, ''ip route del '' @ tail @ '' '' @ marker))"


section \<open>Escaping\<close>

text \<open>The characters of an escaped text.\<close>

definition url_safe :: "char \<Rightarrow> bool" where
  "url_safe c \<longleftrightarrow> \<not> shouldEscape c \<or> c = CHR ''+'' \<or> c = CHR ''%''"

lemma go_chr_ord: "go_chr (go_ord c) = c"
  by (simp add: go_chr_def go_ord_def)

lemma go_ord_range: "0 \<le> go_ord c \<and> go_ord c < 256"
  by (simp add: go_ord_def of_char_def horner_sum_bound)

lemma url_hexdigit_ord: "0 \<le> d \<Longrightarrow> d < 16 \<Longrightarrow> go_ord (url_hexdigit d) = (if d < 10 then 48 + d else 55 + d)"
  by (simp add: url_hexdigit_def go_ord_chr)

lemma unhex_hexdigit: "0 \<le> d \<Longrightarrow> d < 16 \<Longrightarrow> unhex (url_hexdigit d) = Some d"
  by (simp add: unhex_def go_isdigit_def url_hexdigit_ord)

lemma url_hexdigit_safe: "0 \<le> d \<Longrightarrow> d < 16 \<Longrightarrow> \<not> shouldEscape (url_hexdigit d)"
  by (auto simp: shouldEscape_def go_isdigit_def url_hexdigit_ord)

lemma ord_nibbles: "0 \<le> go_ord c div 16 \<and> go_ord c div 16 < 16 \<and> 0 \<le> go_ord c mod 16 \<and> go_ord c mod 16 < 16"
  using go_ord_range [of c] by auto

lemma not_escaped: "\<not> shouldEscape c \<Longrightarrow> c \<noteq> CHR ''%'' \<and> c \<noteq> CHR ''+'' \<and> c \<noteq> CHR '' ''"
  by (auto simp: shouldEscape_def go_isdigit_def go_ord_def)

lemma QueryUnescape_char: "QueryUnescape (escape_char c @ r) = map_option (Cons c) (QueryUnescape r)"
proof (cases "c = CHR '' '' \<or> \<not> shouldEscape c")
  case True
  then show ?thesis using not_escaped [of c] by (auto simp: escape_char_def)
next
  case False
  have e: "16 * (go_ord c div 16) + go_ord c mod 16 = go_ord c" by simp
  have "QueryUnescape (escape_char c @ r) = map_option (Cons (go_chr (16 * (go_ord c div 16) + go_ord c mod 16))) (QueryUnescape r)"
    using False ord_nibbles [of c] by (simp add: escape_char_def unhex_hexdigit)
  then show ?thesis unfolding e by (simp add: go_chr_ord)
qed

lemma QueryUnescape_Escape: "QueryUnescape (QueryEscape s) = Some s"
  by (induction s) (simp_all add: QueryEscape_def QueryUnescape_char)

lemma QueryEscape_safe: "c \<in> set (QueryEscape s) \<Longrightarrow> url_safe c"
  using ord_nibbles url_hexdigit_safe by (auto simp: QueryEscape_def escape_char_def url_safe_def split: if_splits)

lemma url_safe_not: "url_safe c \<Longrightarrow> c \<notin> set ''&=;# :/'' \<and> c \<noteq> CHR 0x5C \<and> \<not> go_isspace c"
  by (auto simp: url_safe_def shouldEscape_def go_isdigit_def go_ord_def go_isspace_def)


section \<open>Query strings\<close>

lemma go_Split_none: "c \<notin> set p \<Longrightarrow> go_Split c p = [p]"
  by (induction p) auto

lemma go_Split_Join: "ps \<noteq> [] \<Longrightarrow> \<forall>p\<in>set ps. c \<notin> set p \<Longrightarrow> go_Split c (go_Join [c] ps) = ps"
  by (induction ps rule: induct_list012) (simp_all add: go_Split_none go_Split_append)

lemma cut_at_append: "c \<notin> set a \<Longrightarrow> cut_at c (a @ c # b) = (a, b)"
  by (simp add: cut_at_def takeWhile_append2 dropWhile_append2 takeWhile_tail)

definition single :: "Values \<Rightarrow> bool" where
  "single v \<longleftrightarrow> v \<noteq> [] \<and> distinct (map fst v) \<and> (\<forall>kx\<in>set v. length (snd kx) = 1)"

definition query_part :: "string \<times> string \<Rightarrow> string" where
  "query_part kx = QueryEscape (fst kx) @ ''='' @ QueryEscape (snd kx)"

lemma query_part_chars: "CHR ''&'' \<notin> set (query_part kx)" "CHR '';'' \<notin> set (query_part kx)" "query_part kx \<noteq> []"
  using QueryEscape_safe url_safe_not by (fastforce simp: query_part_def)+

lemma parse_query_part:
  "k \<notin> set (map fst v) \<Longrightarrow> parse_part (query_part (k, x)) (v, err) = (v @ [(k, [x])], err)"
proof -
  assume k: "k \<notin> set (map fst v)"
  have "CHR ''='' \<notin> set (QueryEscape k)" using QueryEscape_safe url_safe_not by fastforce
  then have c: "cut_at (CHR ''='') (query_part (k, x)) = (QueryEscape k, QueryEscape x)"
    by (simp add: query_part_def cut_at_append)
  have "map_of v k = None" using k by (simp add: map_of_eq_None_iff)
  moreover have "AList.update k [x] v = v @ [(k, [x])]" using k by (induction v) auto
  ultimately show ?thesis
    using query_part_chars [of "(k, x)"] by (simp add: parse_part_def c QueryUnescape_Escape Values_Add_def)
qed

lemma parse_query_parts:
  "distinct (map fst (v @ map (\<lambda>(k, x). (k, [x])) kxs)) \<Longrightarrow>
   fold parse_part (map query_part kxs) (v, err) = (v @ map (\<lambda>(k, x). (k, [x])) kxs, err)"
proof (induction kxs arbitrary: v)
  case (Cons kx kxs)
  obtain k x where [simp]: "kx = (k, x)" by fastforce
  have "fold parse_part (map query_part (kx # kxs)) (v, err) = fold parse_part (map query_part kxs) (v @ [(k, [x])], err)"
    using Cons.prems by (simp add: parse_query_part)
  also have "\<dots> = ((v @ [(k, [x])]) @ map (\<lambda>(k, x). (k, [x])) kxs, err)" using Cons.prems by (intro Cons.IH) simp
  finally show ?case by simp
qed simp

lemma single_parts:
  "\<forall>kx\<in>set v. length (snd kx) = 1 \<Longrightarrow>
   concat (map (\<lambda>(k, xs). map (\<lambda>x. QueryEscape k @ ''='' @ QueryEscape x) xs) v) = map query_part (map (\<lambda>(k, xs). (k, hd xs)) v)"
  by (induction v) (auto simp: query_part_def length_Suc_conv)

lemma ParseQuery_Encode:
  assumes "single v" shows "\<exists>w. ParseQuery (Values_Encode v) = Some w \<and> map_of w = map_of v"
proof -
  let ?w = "sort_key fst v" let ?kxs = "map (\<lambda>(k, xs). (k, hd xs)) ?w"
  have one: "\<forall>kx\<in>set ?w. length (snd kx) = 1" using assms by (simp add: single_def)
  have d: "distinct (map fst ?w)" using assms by (simp add: single_def distinct_map inj_on_def)
  have w: "map (\<lambda>(k, x). (k, [x])) ?kxs = ?w"
    unfolding map_map by (rule map_idI) (use one in \<open>auto simp: length_Suc_conv\<close>)
  have ne: "map query_part ?kxs \<noteq> []" using assms by (simp add: single_def) (metis length_0_conv length_sort)
  have enc: "Values_Encode v = go_Join ''&'' (map query_part ?kxs)"
    unfolding Values_Encode_def by (simp only: single_parts [OF one])
  have split: "go_Split (CHR ''&'') (Values_Encode v) = map query_part ?kxs"
    unfolding enc by (rule go_Split_Join [OF ne]) (use query_part_chars(1) in auto)
  have "Values_Encode v \<noteq> []"
  proof
    assume "Values_Encode v = []"
    then have "map query_part ?kxs = [[]]" using split by simp
    then show False using query_part_chars(3) by (metis list.set_intros(1) ex_map_conv list.set_map imageE)
  qed
  moreover have "fold parse_part (map query_part ?kxs) ([], False) = (?w, False)"
    using parse_query_parts [of "[]" ?kxs False] d unfolding w by simp
  ultimately have "ParseQuery (Values_Encode v) = Some ?w" by (simp add: ParseQuery_def split)
  moreover have "map_of ?w = map_of v" using d assms by (intro map_of_eqI) (auto simp: single_def)
  ultimately show ?thesis by blast
qed

lemma single_Set: "single v \<or> v = [] \<Longrightarrow> single (Values_Set k x v)"
proof -
  assume v: "single v \<or> v = []"
  have "length (snd kx) = 1" if "kx \<in> set (AList.update k [x] v)" for kx
    using that v by (induction v) (auto simp: single_def split: if_splits)
  moreover have "AList.update k [x] v \<noteq> []" by (cases v) auto
  ultimately show ?thesis using v distinct_update [of v k "[x]"] by (auto simp: single_def Values_Set_def)
qed

lemma single_set_if: "single v \<Longrightarrow> single (set_if b k x v)"
  by (simp add: set_if_def single_Set)

lemma Get_Set: "Values_Get (Values_Set k x v) k' = (if k = k' then x else Values_Get v k')"
  by (simp add: Values_Get_def Values_Set_def update_conv')

lemma Get_set_if: "Values_Get (set_if b k x v) k' = (if k = k' \<and> b then x else Values_Get v k')"
  by (simp add: set_if_def Get_Set)

lemma Get_Nil [simp]: "Values_Get [] k = []"
  by (simp add: Values_Get_def)

lemma Get_cong: "map_of w = map_of v \<Longrightarrow> Values_Get w k = Values_Get v k"
  by (simp add: Values_Get_def)

lemma CutPrefix_append [simp]: "go_CutPrefix (p @ r) p = Some r"
  by (simp add: go_CutPrefix_def go_HasPrefix_def)

lemma atoi_value_Itoa: "- (2 ^ 63) \<le> i \<Longrightarrow> i < 2 ^ 63 \<Longrightarrow> atoi_value (go_Itoa i) = i"
proof -
  assume i: "- (2 ^ 63) \<le> i" "i < 2 ^ 63"
  have "atoi_value s = n" if "go_Atoi s = Some n" for s n
    using that by (auto simp: atoi_value_def go_Atoi_def Let_def split: if_splits prod.splits)
  with go_Atoi_Itoa [OF i] show ?thesis by blast
qed


section \<open>Markers round trip\<close>

lemma query_roundtrip:
  "single v \<Longrightarrow> \<exists>w. ParseQuery (Values_Encode v) = Some w \<and> (\<forall>k. Values_Get w k = Values_Get v k)"
  using ParseQuery_Encode Get_cong by metis

lemma masquerade_roundtrip: "DecodeNatMasqueradeMarker (EncodeNatMasqueradeMarker c) = Some c"
proof -
  define v where "v = set_if (nm_Comment c \<noteq> []) ''comment'' (nm_Comment c)
    (Values_Set ''sourceCidr'' (nm_SourceCIDR c) (Values_Set ''iface'' (nm_Iface c) (Values_Set ''id'' (nm_ID c) [])))"
  have enc: "EncodeNatMasqueradeMarker c = EdgeMarkerNatMasquerade @ Values_Encode v"
    by (simp only: EncodeNatMasqueradeMarker_def Let_def v_def)
  have "single v" unfolding v_def by (intro single_set_if single_Set disjI1 disjI2 refl) 
  then obtain w where w: "ParseQuery (Values_Encode v) = Some w" "\<forall>k. Values_Get w k = Values_Get v k" using query_roundtrip by blast
  show ?thesis unfolding DecodeNatMasqueradeMarker_def enc CutPrefix_append option.case w(1) w(2) [rule_format] by (simp add: v_def Get_Set Get_set_if)
qed

lemma portforward_roundtrip:
  assumes "- (2 ^ 63) \<le> np_ExtPort c" "np_ExtPort c < 2 ^ 63" "- (2 ^ 63) \<le> np_IntPort c" "np_IntPort c < 2 ^ 63"
  shows "DecodeNatPortForwardMarker (EncodeNatPortForwardMarker c) = Some c"
proof -
  define v where "v = set_if (np_Comment c \<noteq> []) ''comment'' (np_Comment c)
    (Values_Set ''intPort'' (go_Itoa (np_IntPort c)) (Values_Set ''intIp'' (np_IntIP c) (Values_Set ''extPort'' (go_Itoa (np_ExtPort c))
      (Values_Set ''proto'' (np_Proto c) (Values_Set ''iface'' (np_Iface c) (Values_Set ''id'' (np_ID c) []))))))"
  have enc: "EncodeNatPortForwardMarker c = EdgeMarkerNatPortForward @ Values_Encode v"
    by (simp only: EncodeNatPortForwardMarker_def Let_def v_def)
  have "single v" unfolding v_def by (intro single_set_if single_Set disjI1 disjI2 refl)
  then obtain w where w: "ParseQuery (Values_Encode v) = Some w" "\<forall>k. Values_Get w k = Values_Get v k" using query_roundtrip by blast
  show ?thesis unfolding DecodeNatPortForwardMarker_def enc CutPrefix_append option.case w(1) w(2) [rule_format]
    by (simp add: v_def Get_Set Get_set_if atoi_value_Itoa [OF assms(1,2)] atoi_value_Itoa [OF assms(3,4)])
qed

lemma atoi_value_Nil [simp]: "atoi_value [] = 0"
  by (simp add: atoi_value_def)

lemma route_roundtrip:
  assumes "- (2 ^ 63) \<le> sr_Metric c" "sr_Metric c < 2 ^ 63"
  shows "DecodeStaticRouteMarker (EncodeStaticRouteMarker c) = Some c"
proof -
  define v where "v = set_if (sr_Comment c \<noteq> []) ''comment'' (sr_Comment c) (set_if (sr_Metric c \<noteq> 0) ''metric'' (go_Itoa (sr_Metric c))
    (Values_Set ''gateway'' (sr_Gateway c) (Values_Set ''destCidr'' (sr_DestCIDR c) (Values_Set ''iface'' (sr_Iface c) (Values_Set ''id'' (sr_ID c) [])))))"
  have enc: "EncodeStaticRouteMarker c = EdgeMarkerStaticRoute @ Values_Encode v"
    by (simp only: EncodeStaticRouteMarker_def Let_def v_def)
  have "single v" unfolding v_def by (intro single_set_if single_Set disjI1 disjI2 refl)
  then obtain w where w: "ParseQuery (Values_Encode v) = Some w" "\<forall>k. Values_Get w k = Values_Get v k" using query_roundtrip by blast
  show ?thesis unfolding DecodeStaticRouteMarker_def enc CutPrefix_append option.case w(1) w(2) [rule_format]
    by (simp add: v_def Get_Set Get_set_if atoi_value_Itoa [OF assms])
qed

text \<open>A marker is one token, and it is found behind any text that has no other marker.\<close>

lemma Encode_chars: "c \<in> set (Values_Encode v) \<Longrightarrow> url_safe c \<or> c = CHR ''&'' \<or> c = CHR ''=''"
proof -
  have "\<lbrakk>c \<in> set (go_Join sep ps)\<rbrakk> \<Longrightarrow> c \<in> set sep \<or> (\<exists>p\<in>set ps. c \<in> set p)" for sep ps
    by (induction ps rule: induct_list012) auto
  then show "c \<in> set (Values_Encode v) \<Longrightarrow> url_safe c \<or> c = CHR ''&'' \<or> c = CHR ''=''"
    using QueryEscape_safe by (fastforce simp: Values_Encode_def)
qed

lemma Encode_no_space: "c \<in> set (Values_Encode v) \<Longrightarrow> \<not> go_isspace c \<and> c \<noteq> CHR 0x5C"
  using Encode_chars url_safe_not by (fastforce simp: go_isspace_def)

lemma go_Index_append: "CHR ''#'' \<notin> set p \<Longrightarrow> go_HasPrefix r (CHR ''#'' # q) \<Longrightarrow> go_Index (p @ r) (CHR ''#'' # q) = Some (length p)"
proof (induction p)
  case Nil
  then show ?case by (cases r) (auto simp: go_HasPrefix_def)
next
  case (Cons x p)
  then have "\<not> go_HasPrefix (x # p @ r) (CHR ''#'' # q)" by (auto simp: go_HasPrefix_def)
  with Cons show ?case by simp
qed

lemma CutEdgeMarker_append:
  assumes "CHR ''#'' \<notin> set p" "go_HasPrefix mk edgeMarkerSentinel"
  shows "CutEdgeMarker (p @ ''# '' @ mk) = Some mk"
proof -
  have "go_HasPrefix (''# '' @ mk) (''# '' @ edgeMarkerSentinel)" using assms(2) by (simp add: go_HasPrefix_def)
  then have "go_Index (p @ ''# '' @ mk) (''# '' @ edgeMarkerSentinel) = Some (length p)"
    using go_Index_append [OF assms(1), of "''# '' @ mk" "'' '' @ edgeMarkerSentinel"] by simp
  then show ?thesis unfolding CutEdgeMarker_def by simp
qed

end
