(* ===== verification/Ifaces_Ops.thy ===== *)
theory Ifaces_Ops
  imports Inventory Edge_Marker
begin

text \<open>
  The operations on a node's interfaces file (\<^verbatim>\<open>src/internal/change/ifaces/op.go\<close>) and the commands of virtual
  functions (\<^verbatim>\<open>src/internal/host/vfmarker.go\<close>). A pointer field is an option.
\<close>

section \<open>Virtual functions\<close>

record VFSpec =
  vs_SpoofCheck :: "bool option"
  vs_Trust :: "bool option"
  vs_MacAddr :: string
  vs_ID :: int
  vs_VLAN :: int

record VFEntry =
  ve_MacAddr :: string
  ve_ID :: int
  ve_VLAN :: int
  ve_SpoofCheck :: bool
  ve_Trust :: bool

definition opt_or :: "'a \<Rightarrow> 'a option \<Rightarrow> 'a" where
  "opt_or d p = (case p of None \<Rightarrow> d | Some x \<Rightarrow> x)"

text \<open>\<open>ResolveVFPlan\<close>; None stands for the panic of \<open>make\<close> with a negative count.\<close>

definition ResolveVFPlan :: "int \<Rightarrow> VFSpec list \<Rightarrow> int \<Rightarrow> string \<Rightarrow> bool option \<Rightarrow> bool option \<Rightarrow> VFEntry list option" where
  "ResolveVFPlan count vfs vlan macAddr spoofCheck trust =
     (let defSpoof = opt_or True spoofCheck; defTrust = opt_or False trust in
      if vfs \<noteq> [] then
        Some (map (\<lambda>v. \<lparr> ve_MacAddr = (if vs_MacAddr v = [] then macAddr else vs_MacAddr v), ve_ID = vs_ID v,
            ve_VLAN = (if vs_VLAN v = 0 then vlan else vs_VLAN v),
            ve_SpoofCheck = opt_or defSpoof (vs_SpoofCheck v), ve_Trust = opt_or defTrust (vs_Trust v) \<rparr>) vfs)
      else if count < 0 then None
      else Some (map (\<lambda>i. \<lparr> ve_MacAddr = (if count = 1 then macAddr else []), ve_ID = int i, ve_VLAN = vlan,
            ve_SpoofCheck = defSpoof, ve_Trust = defTrust \<rparr>) [0..<nat count]))"

definition onOff :: "bool \<Rightarrow> string" where
  "onOff b = (if b then ''on'' else ''off'')"

definition vf_commands :: "string \<Rightarrow> VFEntry \<Rightarrow> string \<times> string" where
  "vf_commands pf vf =
     (let marker = ''# vnprox-vf:'' @ pf;
          start = [''ip'', ''link'', ''set'', pf, ''vf'', go_Itoa (ve_ID vf)];
          up = start @ (if ve_MacAddr vf \<noteq> [] then [''mac'', ve_MacAddr vf] else []) @
               (if ve_VLAN vf \<noteq> 0 then [''vlan'', go_Itoa (ve_VLAN vf)] else []) @
               [''spoofchk'', onOff (ve_SpoofCheck vf), ''trust'', onOff (ve_Trust vf)];
          down = start @ (if ve_VLAN vf \<noteq> 0 then [''vlan'', ''0''] else []) @ [''spoofchk'', ''on'', ''trust'', ''off'']
      in (go_Join '' '' up @ '' '' @ marker @ ''/vf'' @ go_Itoa (ve_ID vf),
          go_Join '' '' down @ '' '' @ marker @ ''/vf'' @ go_Itoa (ve_ID vf)))"

text \<open>The pairs of commands \<open>ups[i]\<close>, \<open>downs[i]\<close>.\<close>

definition VFProvisionCommands :: "string \<Rightarrow> int \<Rightarrow> VFEntry list \<Rightarrow> (string \<times> string) list" where
  "VFProvisionCommands pf count vfs =
     (let marker = ''# vnprox-vf:'' @ pf in
      (''echo '' @ go_Itoa count @ '' > /sys/class/net/'' @ pf @ ''/device/sriov_numvfs '' @ marker,
       ''echo 0 > /sys/class/net/'' @ pf @ ''/device/sriov_numvfs '' @ marker) # map (vf_commands pf) vfs)"


section \<open>Operations\<close>

record IfaceUpdate =
  iu_MTU :: "int option"
  iu_Comments :: "string option"
  iu_Gateway :: "string option"
  iu_Autostart :: "bool option"
  iu_Target :: Ref
  iu_Addresses :: "string list"
  iu_RemoveAddress :: bool
  iu_RemoveGateway :: bool

record BondCreate =
  bc_Target :: Ref
  bc_Mode :: string
  bc_LacpRate :: string
  bc_XmitHashPolicy :: string
  bc_Comments :: string
  bc_Bridge :: string
  bc_Slaves :: "string list"
  bc_MIIMon :: int
  bc_MTU :: int
  bc_Autostart :: bool

record BondUpdate =
  bu_Comments :: "string option"
  bu_Target :: Ref
  bu_Mode :: string
  bu_LacpRate :: string
  bu_XmitHashPolicy :: string
  bu_Slaves :: "string list"
  bu_MIIMon :: int
  bu_MTU :: int
  bu_RemoveLacpRate :: bool
  bu_RemoveXmitHashPolicy :: bool

record BridgeCreate =
  gc_Target :: Ref
  gc_Gateway :: string
  gc_Comments :: string
  gc_Ports :: "string list"
  gc_Vids :: "VidRange list"
  gc_Addresses :: "string list"
  gc_MTU :: int
  gc_VlanAware :: bool
  gc_STP :: bool
  gc_Autostart :: bool

record BridgeUpdate =
  gu_VlanAware :: "bool option"
  gu_STP :: "bool option"
  gu_Gateway :: "string option"
  gu_Comments :: "string option"
  gu_Target :: Ref
  gu_Ports :: "string list"
  gu_Vids :: "VidRange list"
  gu_Addresses :: "string list"
  gu_MTU :: int
  gu_RemoveVids :: bool
  gu_RemoveGateway :: bool

record VlanCreate =
  vc_Target :: Ref
  vc_Parent :: string
  vc_Gateway :: string
  vc_Comments :: string
  vc_Addresses :: "string list"
  vc_Trunks :: "VidRange list"
  vc_VID :: int
  vc_MTU :: int
  vc_Autostart :: bool
  vc_OVS :: bool

record VlanUpdate =
  vu_Comments :: "string option"
  vu_Target :: Ref
  vu_Addresses :: "string list"
  vu_MTU :: int

record NatMasqueradeCreate =
  mc_Target :: Ref
  mc_Iface :: string
  mc_SourceCIDR :: string
  mc_Comment :: string

record NatPortForwardCreate =
  pc_Target :: Ref
  pc_Iface :: string
  pc_Proto :: string
  pc_IntIP :: string
  pc_Comment :: string
  pc_ExtPort :: int
  pc_IntPort :: int

record NatPortForwardUpdate =
  pu_Iface :: "string option"
  pu_Proto :: "string option"
  pu_IntIP :: "string option"
  pu_Comment :: "string option"
  pu_ExtPort :: "int option"
  pu_IntPort :: "int option"
  pu_Target :: Ref

record RouteStaticCreate =
  rc_Target :: Ref
  rc_Iface :: string
  rc_DestCIDR :: string
  rc_Gateway :: string
  rc_Comment :: string
  rc_Metric :: int

record RouteStaticUpdate =
  ru_Iface :: "string option"
  ru_DestCIDR :: "string option"
  ru_Gateway :: "string option"
  ru_Comment :: "string option"
  ru_Metric :: "int option"
  ru_Target :: Ref

record VFProvision =
  vp_SpoofCheck :: "bool option"
  vp_Trust :: "bool option"
  vp_Target :: Ref
  vp_MacAddr :: string
  vp_VFs :: "VFSpec list"
  vp_VLAN :: int
  vp_Count :: int

text \<open>The interface \<open>Op\<close> and the types that implement it; those with a target and one more field take both.\<close>

datatype iface_op =
    OpIfaceUpdate IfaceUpdate
  | OpBondCreate BondCreate | OpBondUpdate BondUpdate | OpBondDelete Ref
  | OpBridgeCreate BridgeCreate | OpBridgeUpdate BridgeUpdate | OpBridgeDelete Ref
  | OpBridgePortAdd Ref string | OpBridgePortRemove Ref string
  | OpVlanCreate VlanCreate | OpVlanUpdate VlanUpdate | OpVlanDelete Ref
  | OpIfaceRename Ref string | OpIfaceRawReplace Ref string
  | OpNatMasqueradeCreate NatMasqueradeCreate | OpNatMasqueradeDelete Ref
  | OpNatPortForwardCreate NatPortForwardCreate | OpNatPortForwardUpdate NatPortForwardUpdate | OpNatPortForwardDelete Ref
  | OpRouteStaticCreate RouteStaticCreate | OpRouteStaticUpdate RouteStaticUpdate | OpRouteStaticDelete Ref
  | OpVFProvision VFProvision

fun iface_op_Kind :: "iface_op \<Rightarrow> string" where
  "iface_op_Kind (OpIfaceUpdate o1) = ''iface.update''"
| "iface_op_Kind (OpBondCreate o1) = ''bond.create''"
| "iface_op_Kind (OpBondUpdate o1) = ''bond.update''"
| "iface_op_Kind (OpBondDelete t) = ''bond.delete''"
| "iface_op_Kind (OpBridgeCreate o1) = ''bridge.create''"
| "iface_op_Kind (OpBridgeUpdate o1) = ''bridge.update''"
| "iface_op_Kind (OpBridgeDelete t) = ''bridge.delete''"
| "iface_op_Kind (OpBridgePortAdd t p) = ''bridge.port.add''"
| "iface_op_Kind (OpBridgePortRemove t p) = ''bridge.port.remove''"
| "iface_op_Kind (OpVlanCreate o1) = ''vlan.create''"
| "iface_op_Kind (OpVlanUpdate o1) = ''vlan.update''"
| "iface_op_Kind (OpVlanDelete t) = ''vlan.delete''"
| "iface_op_Kind (OpIfaceRename t n) = ''iface.rename''"
| "iface_op_Kind (OpIfaceRawReplace t c) = ''iface.raw.replace''"
| "iface_op_Kind (OpNatMasqueradeCreate o1) = ''nat.masquerade.create''"
| "iface_op_Kind (OpNatMasqueradeDelete t) = ''nat.masquerade.delete''"
| "iface_op_Kind (OpNatPortForwardCreate o1) = ''nat.portforward.create''"
| "iface_op_Kind (OpNatPortForwardUpdate o1) = ''nat.portforward.update''"
| "iface_op_Kind (OpNatPortForwardDelete t) = ''nat.portforward.delete''"
| "iface_op_Kind (OpRouteStaticCreate o1) = ''route.static.create''"
| "iface_op_Kind (OpRouteStaticUpdate o1) = ''route.static.update''"
| "iface_op_Kind (OpRouteStaticDelete t) = ''route.static.delete''"
| "iface_op_Kind (OpVFProvision o1) = ''vf.provision''"

fun iface_op_Ref :: "iface_op \<Rightarrow> Ref" where
  "iface_op_Ref (OpIfaceUpdate o1) = iu_Target o1"
| "iface_op_Ref (OpBondCreate o1) = bc_Target o1"
| "iface_op_Ref (OpBondUpdate o1) = bu_Target o1"
| "iface_op_Ref (OpBondDelete t) = t"
| "iface_op_Ref (OpBridgeCreate o1) = gc_Target o1"
| "iface_op_Ref (OpBridgeUpdate o1) = gu_Target o1"
| "iface_op_Ref (OpBridgeDelete t) = t"
| "iface_op_Ref (OpBridgePortAdd t p) = t"
| "iface_op_Ref (OpBridgePortRemove t p) = t"
| "iface_op_Ref (OpVlanCreate o1) = vc_Target o1"
| "iface_op_Ref (OpVlanUpdate o1) = vu_Target o1"
| "iface_op_Ref (OpVlanDelete t) = t"
| "iface_op_Ref (OpIfaceRename t n) = t"
| "iface_op_Ref (OpIfaceRawReplace t c) = t"
| "iface_op_Ref (OpNatMasqueradeCreate o1) = mc_Target o1"
| "iface_op_Ref (OpNatMasqueradeDelete t) = t"
| "iface_op_Ref (OpNatPortForwardCreate o1) = pc_Target o1"
| "iface_op_Ref (OpNatPortForwardUpdate o1) = pu_Target o1"
| "iface_op_Ref (OpNatPortForwardDelete t) = t"
| "iface_op_Ref (OpRouteStaticCreate o1) = rc_Target o1"
| "iface_op_Ref (OpRouteStaticUpdate o1) = ru_Target o1"
| "iface_op_Ref (OpRouteStaticDelete t) = t"
| "iface_op_Ref (OpVFProvision o1) = vp_Target o1"

definition VlanName :: "string \<Rightarrow> int \<Rightarrow> string" where
  "VlanName parent vid = parent @ ''.'' @ go_Itoa vid"


section \<open>Summaries\<close>

text \<open>The text of the review card (\<^verbatim>\<open>summary.go\<close>).\<close>

definition orDash :: "string \<Rightarrow> string" where
  "orDash s = (if s = [] then ''-'' else s)"

definition updateFieldList :: "IfaceUpdate \<Rightarrow> string" where
  "updateFieldList o1 =
     (let fields =
        (case iu_MTU o1 of Some n \<Rightarrow> [''mtu='' @ go_Itoa n] | None \<Rightarrow> []) @
        (if iu_Addresses o1 \<noteq> [] then [''addresses''] else if iu_RemoveAddress o1 then [''clear addresses''] else []) @
        (if iu_Gateway o1 \<noteq> None then [''gateway''] else if iu_RemoveGateway o1 then [''clear gateway''] else []) @
        (case iu_Autostart o1 of Some b \<Rightarrow> [''autostart='' @ (if b then ''true'' else ''false'')] | None \<Rightarrow> []) @
        (if iu_Comments o1 \<noteq> None then [''comments''] else [])
      in if fields = [] then ''no changes'' else go_Join '', '' fields)"

definition isOVSKind :: "string \<Rightarrow> bool" where
  "isOVSKind k \<longleftrightarrow> k = ''ovs-bridge'' \<or> k = ''ovs-bond''"

fun summaryText :: "iface_op \<Rightarrow> string" where
  "summaryText (OpIfaceUpdate o1) = ''Update interface '' @ ref_ID (iu_Target o1) @ '' ('' @ updateFieldList o1 @ '')''"
| "summaryText (OpBondCreate o1) = ''Create bond '' @ ref_ID (bc_Target o1) @ '' ('' @ orDash (bc_Mode o1) @ '') from '' @ go_Join '', '' (bc_Slaves o1)"
| "summaryText (OpBondUpdate o1) = ''Update bond '' @ ref_ID (bu_Target o1)"
| "summaryText (OpBondDelete t) = ''Delete bond '' @ ref_ID t"
| "summaryText (OpBridgeCreate o1) = ''Create '' @ (if isOVSKind (ref_Kind (gc_Target o1)) then ''OVS bridge'' else ''bridge'') @ '' '' @ ref_ID (gc_Target o1) @ '' with ports '' @ go_Join '', '' (gc_Ports o1)"
| "summaryText (OpBridgeUpdate o1) = ''Update bridge '' @ ref_ID (gu_Target o1)"
| "summaryText (OpBridgeDelete t) = ''Delete bridge '' @ ref_ID t"
| "summaryText (OpBridgePortAdd t p) = ''Add port '' @ p @ '' to bridge '' @ ref_ID t"
| "summaryText (OpBridgePortRemove t p) = ''Remove port '' @ p @ '' from bridge '' @ ref_ID t"
| "summaryText (OpVlanCreate o1) = ''Create VLAN '' @ ref_ID (vc_Target o1) @ '' (vid '' @ go_Itoa (vc_VID o1) @ '' on '' @ vc_Parent o1 @ '')''"
| "summaryText (OpVlanUpdate o1) = ''Update VLAN '' @ ref_ID (vu_Target o1)"
| "summaryText (OpVlanDelete t) = ''Delete VLAN '' @ ref_ID t"
| "summaryText (OpIfaceRawReplace t c) = ''Replace /etc/network/interfaces on '' @ ref_Node t @ '' (raw edit, '' @ go_Itoa (int (length c)) @ '' bytes)''"
| "summaryText (OpNatMasqueradeCreate o1) = ''Masquerade '' @ mc_SourceCIDR o1 @ '' via '' @ mc_Iface o1"
| "summaryText (OpNatMasqueradeDelete t) = ''Remove masquerade rule '' @ ref_ID t"
| "summaryText (OpNatPortForwardCreate o1) = ''Forward '' @ pc_Proto o1 @ ''/'' @ go_Itoa (pc_ExtPort o1) @ '' on '' @ pc_Iface o1 @ '' to '' @ pc_IntIP o1 @ '':'' @ go_Itoa (pc_IntPort o1)"
| "summaryText (OpNatPortForwardUpdate o1) = ''Update port forward '' @ ref_ID (pu_Target o1)"
| "summaryText (OpNatPortForwardDelete t) = ''Remove port forward '' @ ref_ID t"
| "summaryText (OpRouteStaticCreate o1) = ''Route '' @ rc_DestCIDR o1 @ '' via '' @ rc_Gateway o1 @ '' dev '' @ rc_Iface o1"
| "summaryText (OpRouteStaticUpdate o1) = ''Update static route '' @ ref_ID (ru_Target o1)"
| "summaryText (OpRouteStaticDelete t) = ''Remove static route '' @ ref_ID t"
| "summaryText op = iface_op_Kind op @ '' '' @ ref_ID (iface_op_Ref op)"

record OpSummary =
  os_Op :: string
  os_Target :: string
  os_Node :: string
  os_Summary :: string

definition Summarize :: "iface_op \<Rightarrow> OpSummary" where
  "Summarize op = \<lparr> os_Op = iface_op_Kind op, os_Target = Ref_String (iface_op_Ref op), os_Node = ref_Node (iface_op_Ref op),
     os_Summary = summaryText op \<rparr>"

end
