(* ===== verification/Ifaces_Mutate.thy ===== *)
theory Ifaces_Mutate
  imports Ifaces_File Ifaces_Ops
begin

text \<open>
  Editing an interfaces file (\<^verbatim>\<open>src/internal/change/ifaces\<close>): the helpers of \<^verbatim>\<open>entryutil.go\<close>, one function per
  operation, and \<open>Mutate\<close>, which picks the function. The pointer to the file is an argument and a result.
\<close>

datatype mutate_error =
    ErrNotFound string string
  | ErrExists string string
  | EmptyNewName string
  | RawReplaceParse parse_error
  | NegativeCount
  | ApplyingOp nat mutate_error

abbreviation "LF \<equiv> [CHR 0x0A]"
abbreviation "CRLF \<equiv> [CHR 0x0D, CHR 0x0A]"
abbreviation "TAB \<equiv> [CHR 0x09]"

section \<open>Lines and options\<close>

definition dominantEOL :: "File \<Rightarrow> string" where
  "dominantEOL f =
     (let content = Render f; total = go_Count content LF; crlf = go_Count content CRLF
      in if crlf * 2 > total then CRLF else LF)"

definition managedByComment :: "string \<Rightarrow> string \<Rightarrow> BodyItem" where
  "managedByComment changesetID nl = zero_Item BodyComment (TAB @ ''# managed by vnprox (changeset '' @ changesetID @ '')'' @ nl)"

definition comment_item :: "string \<Rightarrow> string \<Rightarrow> BodyItem" where
  "comment_item tx nl = zero_Item BodyComment (TAB @ ''#'' @ tx @ nl)"

definition optionItem :: "string \<Rightarrow> string \<Rightarrow> string \<Rightarrow> BodyItem" where
  "optionItem key value nl = \<lparr> bi_Raw = TAB @ key @ '' '' @ value @ nl, bi_Key = key, bi_Value = value, bi_Kind = BodyOption \<rparr>"

definition is_option :: "string \<Rightarrow> BodyItem \<Rightarrow> bool" where
  "is_option key item \<longleftrightarrow> bi_Kind item = BodyOption \<and> bi_Key item = key"

definition terminate :: "string \<Rightarrow> BodyItem \<Rightarrow> BodyItem" where
  "terminate nl item = (if go_HasSuffix (bi_Raw item) LF then item else item\<lparr>bi_Raw := bi_Raw item @ nl\<rparr>)"

definition insertBeforeTrailingBlanks :: "BodyItem list \<Rightarrow> BodyItem list \<Rightarrow> string \<Rightarrow> BodyItem list" where
  "insertBeforeTrailingBlanks body items nl =
     (let blanks = rev (takeWhile (\<lambda>item. bi_Kind item = BodyBlank) (rev body));
          front = rev (dropWhile (\<lambda>item. bi_Kind item = BodyBlank) (rev body));
          front = (if items \<noteq> [] \<and> front \<noteq> [] then butlast front @ [terminate nl (last front)] else front)
      in front @ items @ blanks)"

text \<open>The loop of \<open>setOptionList\<close>: the first line of the key gives way to the new ones, later ones go.\<close>

fun replace_options :: "string \<Rightarrow> BodyItem list \<Rightarrow> bool \<Rightarrow> BodyItem list \<Rightarrow> BodyItem list \<times> bool" where
  "replace_options key items inserted [] = ([], inserted)"
| "replace_options key items inserted (item # body) =
     (if is_option key item then
        (let (out, ins) = replace_options key items True body in ((if inserted then [] else items) @ out, ins))
      else (let (out, ins) = replace_options key items inserted body in (item # out, ins)))"

definition setOptionList :: "BodyItem list \<Rightarrow> string \<Rightarrow> string list \<Rightarrow> string \<Rightarrow> BodyItem list" where
  "setOptionList body key values nl =
     (let items = map (\<lambda>v. optionItem key v nl) values; (out, inserted) = replace_options key items False body
      in if inserted then out else insertBeforeTrailingBlanks out items nl)"

definition removeOptionKey :: "BodyItem list \<Rightarrow> string \<Rightarrow> BodyItem list" where
  "removeOptionKey body key = filter (\<lambda>item. \<not> is_option key item) body"

definition setOption :: "BodyItem list \<Rightarrow> string \<Rightarrow> string \<Rightarrow> string \<Rightarrow> BodyItem list" where
  "setOption body key value nl = (if value = [] then removeOptionKey body key else setOptionList body key [value] nl)"

definition getOption :: "BodyItem list \<Rightarrow> string \<Rightarrow> string option" where
  "getOption body key = map_option bi_Value (List.find (is_option key) body)"

definition addToken :: "string \<Rightarrow> string \<Rightarrow> string" where
  "addToken value tok = (let toks = go_Fields value in if tok \<in> set toks then value else go_Join '' '' (toks @ [tok]))"

definition removeToken :: "string \<Rightarrow> string \<Rightarrow> string" where
  "removeToken value tok = go_Join '' '' (filter (\<lambda>t. t \<noteq> tok) (go_Fields value))"

definition joinTokens :: "string list \<Rightarrow> string" where
  "joinTokens ts = go_Join '' '' ts"

definition isManagedByComment :: "string \<Rightarrow> bool" where
  "isManagedByComment raw \<longleftrightarrow> go_Contains raw ''managed by vnprox''"

fun find_index :: "('a \<Rightarrow> bool) \<Rightarrow> 'a list \<Rightarrow> nat option" where
  "find_index P [] = None"
| "find_index P (x # xs) = (if P x then Some 0 else map_option Suc (find_index P xs))"

definition setCommentLine :: "BodyItem list \<Rightarrow> string \<Rightarrow> string \<Rightarrow> BodyItem list" where
  "setCommentLine body tx nl =
     (case find_index (\<lambda>item. bi_Kind item = BodyComment \<and> \<not> isManagedByComment (bi_Raw item)) body of
        None \<Rightarrow> (if tx = [] then body else insertBeforeTrailingBlanks body [comment_item tx nl] nl)
      | Some idx \<Rightarrow> (if tx = [] then take idx body @ drop (idx + 1) body else body[idx := comment_item tx nl]))"


section \<open>Entries\<close>

definition newIfaceEntry :: "string \<Rightarrow> string \<Rightarrow> string \<Rightarrow> string \<Rightarrow> Entry" where
  "newIfaceEntry name family method1 nl =
     (zero_Entry KindIface (''iface '' @ name @ '' '' @ family @ '' '' @ method1 @ nl))\<lparr>en_Name := name, en_Family := family, en_Method := method1\<rparr>"

definition endsWithBlankLine :: "string \<Rightarrow> bool" where
  "endsWithBlankLine s \<longleftrightarrow>
     s = [] \<or>
     (let trimmed = go_TrimRight {CHR 0x0D, CHR 0x0A} s in
      length s - length trimmed \<ge> 2 \<and> go_Count (drop (length trimmed) s) LF \<ge> 2)"

definition prepareAppend :: "File \<Rightarrow> string \<Rightarrow> File" where
  "prepareAppend f nl =
     (let content = Render f in
      if content = [] then f
      else
        let (f, content) = (if go_HasSuffix content LF then (f, content) else (f @ [zero_Entry KindBlank nl], content @ nl)) in
        if endsWithBlankLine content then f else f @ [zero_Entry KindBlank nl])"

definition autoPrefixEntry :: "string \<Rightarrow> string \<Rightarrow> Entry" where
  "autoPrefixEntry name nl = (zero_Entry KindAuto (''auto '' @ name @ nl))\<lparr>en_Ifaces := [name]\<rparr>"

definition allowPrefixEntry :: "string \<Rightarrow> string \<Rightarrow> string \<Rightarrow> Entry" where
  "allowPrefixEntry class1 name nl =
     (zero_Entry KindAllow (''allow-'' @ class1 @ '' '' @ name @ nl))\<lparr>en_Class := class1, en_Ifaces := [name]\<rparr>"

definition appendStanzaRaw :: "File \<Rightarrow> Entry option \<Rightarrow> Entry \<Rightarrow> string \<Rightarrow> File" where
  "appendStanzaRaw f prefix iface nl =
     prepareAppend f nl @ (case prefix of None \<Rightarrow> [] | Some p \<Rightarrow> [p]) @ [iface] @ [zero_Entry KindBlank nl]"

definition appendStanza :: "File \<Rightarrow> bool \<Rightarrow> string \<Rightarrow> Entry \<Rightarrow> string \<Rightarrow> File" where
  "appendStanza f autostart name iface nl = appendStanzaRaw f (if autostart then Some (autoPrefixEntry name nl) else None) iface nl"

definition regenerateIfaceListRaw :: "Entry \<Rightarrow> string \<Rightarrow> string" where
  "regenerateIfaceListRaw e nl =
     (case en_Kind e of KindAuto \<Rightarrow> ''auto'' | KindAllow \<Rightarrow> ''allow-'' @ en_Class e | KindNoAutoDown \<Rightarrow> ''no-auto-down''
      | KindNoScripts \<Rightarrow> ''no-scripts'' | _ \<Rightarrow> []) @ '' '' @ go_Join '' '' (en_Ifaces e) @ nl"

definition list_kind :: "EntryKind \<Rightarrow> bool" where
  "list_kind k \<longleftrightarrow> k \<in> {KindAuto, KindAllow, KindNoAutoDown, KindNoScripts}"

text \<open>One turn of the loop of \<open>removeAutoReference\<close>.\<close>

definition without_name :: "string \<Rightarrow> string \<Rightarrow> Entry \<Rightarrow> Entry list" where
  "without_name name nl e =
     (if list_kind (en_Kind e) \<and> name \<in> set (en_Ifaces e) then
        let remaining = filter (\<lambda>v. v \<noteq> name) (en_Ifaces e); e' = e\<lparr>en_Ifaces := remaining\<rparr> in
        if remaining = [] then [] else [e'\<lparr>en_Raw := regenerateIfaceListRaw e' nl\<rparr>]
      else [e])"

definition removeAutoReference :: "File \<Rightarrow> string \<Rightarrow> string \<Rightarrow> File" where
  "removeAutoReference f name nl = concat (map (without_name name nl) f)"

definition is_iface :: "string \<Rightarrow> Entry \<Rightarrow> bool" where
  "is_iface name e \<longleftrightarrow> en_Kind e = KindIface \<and> en_Name e = name"

definition removeIfaceAndAuto :: "File \<Rightarrow> string \<Rightarrow> string \<Rightarrow> File" where
  "removeIfaceAndAuto f name nl = filter (\<lambda>e. \<not> is_iface name e) (removeAutoReference f name nl)"

definition findIface :: "File \<Rightarrow> string \<Rightarrow> nat option" where
  "findIface f name = find_index (is_iface name) f"

text \<open>\<open>e := &f.Entries[idx]; e.Body = body\<close>.\<close>

definition edit_body :: "nat \<Rightarrow> (BodyItem list \<Rightarrow> BodyItem list) \<Rightarrow> File \<Rightarrow> File" where
  "edit_body idx g f = f[idx := (f ! idx)\<lparr>en_Body := g (en_Body (f ! idx))\<rparr>]"

text \<open>The beginning of every update: the stanza, or the error; then the new body.\<close>

definition on_iface :: "string \<Rightarrow> File \<Rightarrow> string \<Rightarrow> (BodyItem list \<Rightarrow> BodyItem list) \<Rightarrow> mutate_error + File" where
  "on_iface what f name g = (case findIface f name of None \<Rightarrow> Inl (ErrNotFound what name) | Some idx \<Rightarrow> Inr (edit_body idx g f))"

definition opt_line :: "bool \<Rightarrow> string \<Rightarrow> string \<Rightarrow> string \<Rightarrow> BodyItem list" where
  "opt_line b key value nl = (if b then [optionItem key value nl] else [])"

definition comment_line :: "string \<Rightarrow> string \<Rightarrow> BodyItem list" where
  "comment_line tx nl = (if tx \<noteq> [] then [comment_item tx nl] else [])"

definition set_when :: "bool \<Rightarrow> string \<Rightarrow> string \<Rightarrow> string \<Rightarrow> BodyItem list \<Rightarrow> BodyItem list" where
  "set_when b key value nl body = (if b then setOption body key value nl else body)"

definition set_comments :: "string option \<Rightarrow> string \<Rightarrow> BodyItem list \<Rightarrow> BodyItem list" where
  "set_comments c nl body = (case c of None \<Rightarrow> body | Some tx \<Rightarrow> setCommentLine body tx nl)"


section \<open>Bonds\<close>

definition defaultMIIMon :: int where
  "defaultMIIMon = 100"

definition ovsBondModeOptions :: "string \<Rightarrow> string" where
  "ovsBondModeOptions mode =
     (if mode = ''802.3ad'' \<or> mode = ''lacp'' then ''bond_mode=balance-slb lacp=active other_config:lacp-time=fast''
      else if mode = [] then [] else ''bond_mode='' @ mode)"

definition mutateBondCreate :: "File \<Rightarrow> BondCreate \<Rightarrow> string \<Rightarrow> string \<Rightarrow> mutate_error + File" where
  "mutateBondCreate f c changesetID nl =
     (let name = ref_ID (bc_Target c); ovs = isOVSKind (ref_Kind (bc_Target c));
          miimon = (if bc_MIIMon c = 0 then defaultMIIMon else bc_MIIMon c);
          opts = ovsBondModeOptions (bc_Mode c);
          body = [managedByComment changesetID nl] @
            (if ovs then
               [optionItem ''ovs_bonds'' (joinTokens (bc_Slaves c)) nl, optionItem ''ovs_type'' ''OVSBond'' nl] @
               opt_line (bc_Bridge c \<noteq> []) ''ovs_bridge'' (bc_Bridge c) nl @
               opt_line (opts \<noteq> []) ''ovs_options'' opts nl
             else
               [optionItem ''bond-slaves'' (joinTokens (bc_Slaves c)) nl] @
               opt_line (bc_Mode c \<noteq> []) ''bond-mode'' (bc_Mode c) nl @
               [optionItem ''bond-miimon'' (go_Itoa miimon) nl] @
               opt_line (bc_LacpRate c \<noteq> []) ''bond-lacp-rate'' (bc_LacpRate c) nl @
               opt_line (bc_XmitHashPolicy c \<noteq> []) ''bond-xmit-hash-policy'' (bc_XmitHashPolicy c) nl) @
            opt_line (bc_MTU c \<noteq> 0) ''mtu'' (go_Itoa (bc_MTU c)) nl @ comment_line (bc_Comments c) nl;
          iface = (newIfaceEntry name ''inet'' ''manual'' nl)\<lparr>en_Body := body\<rparr>
      in if findIface f name \<noteq> None then Inl (ErrExists ''bond.create'' name)
         else if ovs \<and> bc_Bridge c \<noteq> []
         then Inr (appendStanzaRaw f (if bc_Autostart c then Some (allowPrefixEntry (bc_Bridge c) name nl) else None) iface nl)
         else Inr (appendStanza f (bc_Autostart c) name iface nl))"

definition bond_update_body :: "BondUpdate \<Rightarrow> string \<Rightarrow> BodyItem list \<Rightarrow> BodyItem list" where
  "bond_update_body u nl body =
     (let ovs = isOVSKind (ref_Kind (bu_Target u));
          body = set_when (bu_Slaves u \<noteq> []) (if ovs then ''ovs_bonds'' else ''bond-slaves'') (joinTokens (bu_Slaves u)) nl body;
          body = set_when (bu_Mode u \<noteq> [] \<and> \<not> ovs) ''bond-mode'' (bu_Mode u) nl body;
          body = set_when (bu_MIIMon u \<noteq> 0 \<and> \<not> ovs) ''bond-miimon'' (go_Itoa (bu_MIIMon u)) nl body;
          body = (if ovs then body
                  else if bu_RemoveLacpRate u then removeOptionKey body ''bond-lacp-rate''
                  else set_when (bu_LacpRate u \<noteq> []) ''bond-lacp-rate'' (bu_LacpRate u) nl body);
          body = (if ovs then body
                  else if bu_RemoveXmitHashPolicy u then removeOptionKey body ''bond-xmit-hash-policy''
                  else set_when (bu_XmitHashPolicy u \<noteq> []) ''bond-xmit-hash-policy'' (bu_XmitHashPolicy u) nl body);
          body = set_when (bu_MTU u \<noteq> 0) ''mtu'' (go_Itoa (bu_MTU u)) nl body
      in set_comments (bu_Comments u) nl body)"

definition mutateBondUpdate :: "File \<Rightarrow> BondUpdate \<Rightarrow> string \<Rightarrow> mutate_error + File" where
  "mutateBondUpdate f u nl = on_iface ''bond.update'' f (ref_ID (bu_Target u)) (bond_update_body u nl)"

text \<open>The deletes of a bond, a bridge and a VLAN differ in the text of the error only.\<close>

definition mutate_delete :: "string \<Rightarrow> File \<Rightarrow> Ref \<Rightarrow> string \<Rightarrow> mutate_error + File" where
  "mutate_delete what f target nl =
     (if findIface f (ref_ID target) = None then Inl (ErrNotFound what (ref_ID target))
      else Inr (removeIfaceAndAuto f (ref_ID target) nl))"

definition mutateBondDelete :: "File \<Rightarrow> Ref \<Rightarrow> string \<Rightarrow> mutate_error + File" where
  "mutateBondDelete f target nl = mutate_delete ''bond.delete'' f target nl"


section \<open>Bridges\<close>

definition VidRange_String :: "VidRange \<Rightarrow> string" where
  "VidRange_String v = (if vid_Low v = vid_High v then go_Itoa (vid_Low v) else go_Itoa (vid_Low v) @ ''-'' @ go_Itoa (vid_High v))"

definition vidRangesString :: "VidRange list \<Rightarrow> string" where
  "vidRangesString vids = go_Join '','' (map VidRange_String vids)"

definition mutateBridgeCreate :: "File \<Rightarrow> BridgeCreate \<Rightarrow> string \<Rightarrow> string \<Rightarrow> mutate_error + File" where
  "mutateBridgeCreate f c changesetID nl =
     (let name = ref_ID (gc_Target c); ovs = isOVSKind (ref_Kind (gc_Target c));
          method1 = (if gc_Addresses c \<noteq> [] then ''static'' else ''manual'');
          body = [managedByComment changesetID nl] @
            map (\<lambda>a. optionItem ''address'' a nl) (gc_Addresses c) @
            opt_line (gc_Gateway c \<noteq> []) ''gateway'' (gc_Gateway c) nl @
            (if ovs then
               [optionItem ''ovs_type'' ''OVSBridge'' nl, optionItem ''ovs_ports'' (joinTokens (gc_Ports c)) nl]
             else
               [optionItem ''bridge-ports'' (joinTokens (gc_Ports c)) nl] @
               opt_line (gc_VlanAware c) ''bridge-vlan-aware'' ''yes'' nl @
               opt_line (gc_Vids c \<noteq> []) ''bridge-vids'' (vidRangesString (gc_Vids c)) nl @
               (if gc_STP c then [optionItem ''bridge-stp'' ''on'' nl]
                else [optionItem ''bridge-stp'' ''off'' nl, optionItem ''bridge-fd'' ''0'' nl])) @
            opt_line (gc_MTU c \<noteq> 0) ''mtu'' (go_Itoa (gc_MTU c)) nl @ comment_line (gc_Comments c) nl;
          iface = (newIfaceEntry name ''inet'' method1 nl)\<lparr>en_Body := body\<rparr>
      in if findIface f name \<noteq> None then Inl (ErrExists ''bridge.create'' name)
         else if ovs
         then Inr (appendStanzaRaw f (if gc_Autostart c then Some (allowPrefixEntry ''ovs'' name nl) else None) iface nl)
         else Inr (appendStanza f (gc_Autostart c) name iface nl))"

definition bridge_update_body :: "BridgeUpdate \<Rightarrow> string \<Rightarrow> BodyItem list \<Rightarrow> BodyItem list" where
  "bridge_update_body u nl body =
     (let ovs = isOVSKind (ref_Kind (gu_Target u));
          body = set_when (gu_Ports u \<noteq> []) (if ovs then ''ovs_ports'' else ''bridge-ports'') (joinTokens (gu_Ports u)) nl body;
          body = (if ovs then body
                  else case gu_VlanAware u of None \<Rightarrow> body
                    | Some True \<Rightarrow> setOption body ''bridge-vlan-aware'' ''yes'' nl
                    | Some False \<Rightarrow> removeOptionKey body ''bridge-vlan-aware'');
          body = (if ovs then body
                  else if gu_RemoveVids u then removeOptionKey body ''bridge-vids''
                  else set_when (gu_Vids u \<noteq> []) ''bridge-vids'' (vidRangesString (gu_Vids u)) nl body);
          body = (if ovs then body
                  else case gu_STP u of None \<Rightarrow> body
                    | Some b \<Rightarrow> setOption body ''bridge-stp'' (if b then ''on'' else ''off'') nl);
          body = (if gu_Addresses u \<noteq> [] then setOptionList body ''address'' (gu_Addresses u) nl else body);
          body = (if gu_RemoveGateway u then removeOptionKey body ''gateway''
                  else case gu_Gateway u of None \<Rightarrow> body | Some g \<Rightarrow> set_when (g \<noteq> []) ''gateway'' g nl body);
          body = set_when (gu_MTU u \<noteq> 0) ''mtu'' (go_Itoa (gu_MTU u)) nl body
      in set_comments (gu_Comments u) nl body)"

definition mutateBridgeUpdate :: "File \<Rightarrow> BridgeUpdate \<Rightarrow> string \<Rightarrow> mutate_error + File" where
  "mutateBridgeUpdate f u nl = on_iface ''bridge.update'' f (ref_ID (gu_Target u)) (bridge_update_body u nl)"

definition mutateBridgeDelete :: "File \<Rightarrow> Ref \<Rightarrow> string \<Rightarrow> mutate_error + File" where
  "mutateBridgeDelete f target nl = mutate_delete ''bridge.delete'' f target nl"

definition portsKeyFor :: "BodyItem list \<Rightarrow> string" where
  "portsKeyFor body =
     (if getOption body ''ovs_ports'' \<noteq> None then ''ovs_ports''
      else if getOption body ''ovs_type'' \<noteq> None then ''ovs_ports'' else ''bridge-ports'')"

definition mutateBridgePortAdd :: "File \<Rightarrow> Ref \<Rightarrow> string \<Rightarrow> string \<Rightarrow> mutate_error + File" where
  "mutateBridgePortAdd f target port nl = on_iface ''bridge.port.add'' f (ref_ID target)
     (\<lambda>body. let key = portsKeyFor body; cur = opt_or [] (getOption body key) in setOption body key (addToken cur port) nl)"

definition mutateBridgePortRemove :: "File \<Rightarrow> Ref \<Rightarrow> string \<Rightarrow> string \<Rightarrow> mutate_error + File" where
  "mutateBridgePortRemove f target port nl = on_iface ''bridge.port.remove'' f (ref_ID target)
     (\<lambda>body. let key = portsKeyFor body; cur = opt_or [] (getOption body key) in setOption body key (removeToken cur port) nl)"


section \<open>VLANs\<close>

definition ovsIntPortOptions :: "int \<Rightarrow> VidRange list \<Rightarrow> string" where
  "ovsIntPortOptions vid trunks =
     go_Join '' '' ((if vid \<noteq> 0 then [''tag='' @ go_Itoa vid] else []) @ (if trunks \<noteq> [] then [''trunks='' @ vidRangesString trunks] else []))"

definition mutateVlanCreate :: "File \<Rightarrow> VlanCreate \<Rightarrow> string \<Rightarrow> string \<Rightarrow> mutate_error + File" where
  "mutateVlanCreate f c changesetID nl =
     (let name = (if ref_ID (vc_Target c) = [] \<and> \<not> vc_OVS c then VlanName (vc_Parent c) (vc_VID c) else ref_ID (vc_Target c));
          method1 = (if vc_Addresses c \<noteq> [] then ''static'' else ''manual'');
          opts = ovsIntPortOptions (vc_VID c) (vc_Trunks c);
          body = [managedByComment changesetID nl] @
            map (\<lambda>a. optionItem ''address'' a nl) (vc_Addresses c) @
            opt_line (vc_Gateway c \<noteq> []) ''gateway'' (vc_Gateway c) nl @
            (if vc_OVS c then
               [optionItem ''ovs_type'' ''OVSIntPort'' nl, optionItem ''ovs_bridge'' (vc_Parent c) nl] @
               opt_line (opts \<noteq> []) ''ovs_options'' opts nl
             else [optionItem ''vlan-raw-device'' (vc_Parent c) nl]) @
            opt_line (vc_MTU c \<noteq> 0) ''mtu'' (go_Itoa (vc_MTU c)) nl @ comment_line (vc_Comments c) nl;
          iface = (newIfaceEntry name ''inet'' method1 nl)\<lparr>en_Body := body\<rparr>
      in if findIface f name \<noteq> None then Inl (ErrExists ''vlan.create'' name)
         else if vc_OVS c \<and> vc_Parent c \<noteq> []
         then Inr (appendStanzaRaw f (if vc_Autostart c then Some (allowPrefixEntry (vc_Parent c) name nl) else None) iface nl)
         else Inr (appendStanza f (vc_Autostart c) name iface nl))"

definition vlan_update_body :: "VlanUpdate \<Rightarrow> string \<Rightarrow> BodyItem list \<Rightarrow> BodyItem list" where
  "vlan_update_body u nl body =
     (let body = (if vu_Addresses u \<noteq> [] then setOptionList body ''address'' (vu_Addresses u) nl else body);
          body = set_when (vu_MTU u \<noteq> 0) ''mtu'' (go_Itoa (vu_MTU u)) nl body
      in set_comments (vu_Comments u) nl body)"

definition mutateVlanUpdate :: "File \<Rightarrow> VlanUpdate \<Rightarrow> string \<Rightarrow> mutate_error + File" where
  "mutateVlanUpdate f u nl = on_iface ''vlan.update'' f (ref_ID (vu_Target u)) (vlan_update_body u nl)"

definition mutateVlanDelete :: "File \<Rightarrow> Ref \<Rightarrow> string \<Rightarrow> mutate_error + File" where
  "mutateVlanDelete f target nl = mutate_delete ''vlan.delete'' f target nl"


section \<open>Any interface\<close>

definition setAutostart :: "File \<Rightarrow> string \<Rightarrow> bool \<Rightarrow> string \<Rightarrow> File" where
  "setAutostart f name want nl =
     (let hasAuto = list_ex (\<lambda>e. (en_Kind e = KindAuto \<or> en_Kind e = KindAllow \<and> en_Class e = ''auto'') \<and> name \<in> set (en_Ifaces e)) f in
      if want = hasAuto then f
      else if \<not> want then removeAutoReference f name nl
      else case findIface f name of None \<Rightarrow> f
        | Some idx \<Rightarrow> take idx f @ [autoPrefixEntry name nl] @ drop idx f)"

definition iface_update_body :: "IfaceUpdate \<Rightarrow> string \<Rightarrow> BodyItem list \<Rightarrow> BodyItem list" where
  "iface_update_body u nl body =
     (let body = (if iu_RemoveAddress u \<and> iu_Addresses u = [] then removeOptionKey body ''address''
                  else if iu_Addresses u \<noteq> [] then setOptionList body ''address'' (iu_Addresses u) nl else body);
          body = (if iu_RemoveGateway u \<and> iu_Gateway u = None then removeOptionKey body ''gateway''
                  else case iu_Gateway u of None \<Rightarrow> body | Some g \<Rightarrow> setOption body ''gateway'' g nl);
          body = (case iu_MTU u of None \<Rightarrow> body | Some n \<Rightarrow> setOption body ''mtu'' (go_Itoa n) nl)
      in set_comments (iu_Comments u) nl body)"

definition mutateIfaceUpdate :: "File \<Rightarrow> IfaceUpdate \<Rightarrow> string \<Rightarrow> mutate_error + File" where
  "mutateIfaceUpdate f u nl =
     (case on_iface ''iface.update'' f (ref_ID (iu_Target u)) (iface_update_body u nl) of
        Inl e \<Rightarrow> Inl e
      | Inr f' \<Rightarrow> Inr (case iu_Autostart u of None \<Rightarrow> f' | Some b \<Rightarrow> setAutostart f' (ref_ID (iu_Target u)) b nl))"


section \<open>Renaming\<close>

definition referenceKeys :: "string list" where
  "referenceKeys = [''bridge-ports'', ''ovs_ports'', ''bond-slaves'', ''ovs_bonds'', ''ovs_bridge'', ''vlan-raw-device'']"

definition isTokenBoundary :: "char \<Rightarrow> bool" where
  "isTokenBoundary b \<longleftrightarrow> b = CHR '' '' \<or> b = CHR 0x09 \<or> b = CHR 0x0A \<or> b = CHR 0x0D"

text \<open>The loop of \<open>replaceWholeToken\<close> on the rest of the text: \<open>before1\<close> says whether what was read ends at a boundary.\<close>

function replace_from :: "bool \<Rightarrow> string \<Rightarrow> string \<Rightarrow> string \<Rightarrow> string" where
  "replace_from before1 old newTok s =
     (if old = [] \<or> s = [] then s
      else case go_Index s old of
        None \<Rightarrow> s
      | Some j \<Rightarrow>
          (let beforeOK = (if j = 0 then before1 else isTokenBoundary (s ! (j - 1)));
               rest = drop (j + length old) s;
               afterOK = (rest = [] \<or> isTokenBoundary (hd rest))
           in take j s @ (if beforeOK \<and> afterOK then newTok else old) @ replace_from (isTokenBoundary (last old)) old newTok rest))"
  by pat_completeness auto
termination
  by (relation "measure (\<lambda>(b, old, n, s). length s)") auto

declare replace_from.simps [simp del]

definition replaceWholeToken :: "string \<Rightarrow> string \<Rightarrow> string \<Rightarrow> string" where
  "replaceWholeToken s old newTok = (if old = [] then s else replace_from True old newTok s)"

definition replaceValueToken :: "string \<Rightarrow> string \<Rightarrow> string \<Rightarrow> string \<times> bool" where
  "replaceValueToken value old newName =
     (let toks = go_Fields value in
      if old \<in> set toks then (go_Join '' '' (map (\<lambda>t. if t = old then newName else t) toks), True) else (value, False))"

definition rename_item :: "string \<Rightarrow> string \<Rightarrow> BodyItem \<Rightarrow> BodyItem" where
  "rename_item old newName item =
     (if bi_Kind item \<noteq> BodyOption \<or> bi_Key item \<notin> set referenceKeys then item
      else case replaceValueToken (bi_Value item) old newName of (v, changed) \<Rightarrow>
        if changed then item\<lparr>bi_Value := v, bi_Raw := replaceWholeToken (bi_Raw item) old newName\<rparr> else item)"

definition renameBodyReferences :: "Entry \<Rightarrow> string \<Rightarrow> string \<Rightarrow> Entry" where
  "renameBodyReferences e old newName = e\<lparr>en_Body := map (rename_item old newName) (en_Body e)\<rparr>"

definition rename_entry :: "string \<Rightarrow> string \<Rightarrow> Entry \<Rightarrow> Entry" where
  "rename_entry old newName e =
     (if en_Kind e = KindIface then
        renameBodyReferences
          (if en_Name e = old then e\<lparr>en_Name := newName, en_Raw := replaceWholeToken (en_Raw e) old newName\<rparr> else e) old newName
      else if list_kind (en_Kind e) \<and> old \<in> set (en_Ifaces e) then
        e\<lparr>en_Ifaces := map (\<lambda>n. if n = old then newName else n) (en_Ifaces e), en_Raw := replaceWholeToken (en_Raw e) old newName\<rparr>
      else e)"

definition mutateIfaceRename :: "File \<Rightarrow> Ref \<Rightarrow> string \<Rightarrow> mutate_error + File" where
  "mutateIfaceRename f target newName =
     (let old = ref_ID target in
      if newName = [] then Inl (EmptyNewName old)
      else if findIface f old = None then Inl (ErrNotFound ''iface.rename'' old)
      else if newName = old then Inr f
      else Inr (map (rename_entry old newName) f))"

definition mutateIfaceRawReplace :: "string \<Rightarrow> mutate_error + File" where
  "mutateIfaceRawReplace content = (case ParseInterfaces content of Inl e \<Rightarrow> Inl (RawReplaceParse e) | Inr nf \<Rightarrow> Inr nf)"


section \<open>Rules at the edge\<close>

text \<open>A matcher gives the identifier of the rule a value is marked with.\<close>

definition natMasqueradeMatcher :: "string \<Rightarrow> string option" where
  "natMasqueradeMatcher value =
     (case CutEdgeMarker value of None \<Rightarrow> None | Some s \<Rightarrow> map_option nm_ID (DecodeNatMasqueradeMarker s))"

definition natPortForwardMatcher :: "string \<Rightarrow> string option" where
  "natPortForwardMatcher value =
     (case CutEdgeMarker value of None \<Rightarrow> None | Some s \<Rightarrow> map_option np_ID (DecodeNatPortForwardMarker s))"

definition staticRouteMatcher :: "string \<Rightarrow> string option" where
  "staticRouteMatcher value =
     (case CutEdgeMarker value of None \<Rightarrow> None | Some s \<Rightarrow> map_option sr_ID (DecodeStaticRouteMarker s))"

definition marked :: "(string \<Rightarrow> string option) \<Rightarrow> string \<Rightarrow> BodyItem \<Rightarrow> bool" where
  "marked match id1 item \<longleftrightarrow>
     bi_Kind item = BodyOption \<and> (bi_Key item = ''post-up'' \<or> bi_Key item = ''post-down'') \<and> match (bi_Value item) = Some id1"

text \<open>The lines removed from every stanza, and how many there were.\<close>

definition removeEdgeRuleLines :: "File \<Rightarrow> string \<Rightarrow> (string \<Rightarrow> string option) \<Rightarrow> File \<times> nat" where
  "removeEdgeRuleLines f id1 match =
     (map (\<lambda>e. if en_Kind e = KindIface then e\<lparr>en_Body := filter (\<lambda>item. \<not> marked match id1 item) (en_Body e)\<rparr> else e) f,
      length (filter (marked match id1) (concat (map en_Body (File_Ifaces f)))))"

definition post_ups :: "File \<Rightarrow> string list" where
  "post_ups f = map bi_Value (filter (is_option ''post-up'') (concat (map en_Body (File_Ifaces f))))"

definition findNatPortForwardConfig :: "File \<Rightarrow> string \<Rightarrow> NatPortForwardConfig option" where
  "findNatPortForwardConfig f id1 =
     List.find (\<lambda>c. np_ID c = id1)
       (List.map_filter (\<lambda>v. case CutEdgeMarker v of None \<Rightarrow> None | Some s \<Rightarrow> DecodeNatPortForwardMarker s) (post_ups f))"

definition findStaticRouteConfig :: "File \<Rightarrow> string \<Rightarrow> StaticRouteConfig option" where
  "findStaticRouteConfig f id1 =
     List.find (\<lambda>c. sr_ID c = id1)
       (List.map_filter (\<lambda>v. case CutEdgeMarker v of None \<Rightarrow> None | Some s \<Rightarrow> DecodeStaticRouteMarker s) (post_ups f))"

definition pair_items :: "string \<times> string \<Rightarrow> string \<Rightarrow> BodyItem list" where
  "pair_items cmds nl = [optionItem ''post-up'' (fst cmds) nl, optionItem ''post-down'' (snd cmds) nl]"

definition appendRulePair :: "File \<Rightarrow> string \<Rightarrow> string \<times> string \<Rightarrow> string \<Rightarrow> mutate_error + File" where
  "appendRulePair f ifaceName cmds nl =
     on_iface ''edge rule'' f ifaceName (\<lambda>body. insertBeforeTrailingBlanks body (pair_items cmds nl) nl)"

definition mutateNatMasqueradeCreate :: "File \<Rightarrow> NatMasqueradeCreate \<Rightarrow> string \<Rightarrow> mutate_error + File" where
  "mutateNatMasqueradeCreate f c nl =
     (let cfg = \<lparr> nm_ID = ref_ID (mc_Target c), nm_Iface = mc_Iface c, nm_SourceCIDR = mc_SourceCIDR c, nm_Comment = mc_Comment c \<rparr>
      in appendRulePair f (mc_Iface c) (NatMasqueradeCommands cfg) nl)"

definition remove_rule :: "string \<Rightarrow> (string \<Rightarrow> string option) \<Rightarrow> File \<Rightarrow> Ref \<Rightarrow> mutate_error + File" where
  "remove_rule what match f target =
     (case removeEdgeRuleLines f (ref_ID target) match of (f', n) \<Rightarrow> if n = 0 then Inl (ErrNotFound what (ref_ID target)) else Inr f')"

definition mutateNatMasqueradeDelete :: "File \<Rightarrow> Ref \<Rightarrow> mutate_error + File" where
  "mutateNatMasqueradeDelete f target = remove_rule ''nat.masquerade.delete'' natMasqueradeMatcher f target"

definition mutateNatPortForwardCreate :: "File \<Rightarrow> NatPortForwardCreate \<Rightarrow> string \<Rightarrow> mutate_error + File" where
  "mutateNatPortForwardCreate f c nl =
     (let cfg = \<lparr> np_ID = ref_ID (pc_Target c), np_Iface = pc_Iface c, np_Proto = pc_Proto c, np_IntIP = pc_IntIP c,
                  np_Comment = pc_Comment c, np_ExtPort = pc_ExtPort c, np_IntPort = pc_IntPort c \<rparr>
      in appendRulePair f (pc_Iface c) (NatPortForwardCommands cfg) nl)"

definition merge_portforward :: "NatPortForwardUpdate \<Rightarrow> NatPortForwardConfig \<Rightarrow> NatPortForwardConfig" where
  "merge_portforward u cur =
     cur\<lparr> np_Iface := opt_or (np_Iface cur) (pu_Iface u), np_Proto := opt_or (np_Proto cur) (pu_Proto u),
          np_IntIP := opt_or (np_IntIP cur) (pu_IntIP u), np_Comment := opt_or (np_Comment cur) (pu_Comment u),
          np_ExtPort := opt_or (np_ExtPort cur) (pu_ExtPort u), np_IntPort := opt_or (np_IntPort cur) (pu_IntPort u) \<rparr>"

definition mutateNatPortForwardUpdate :: "File \<Rightarrow> NatPortForwardUpdate \<Rightarrow> string \<Rightarrow> mutate_error + File" where
  "mutateNatPortForwardUpdate f u nl =
     (case findNatPortForwardConfig f (ref_ID (pu_Target u)) of
        None \<Rightarrow> Inl (ErrNotFound ''nat.portforward.update'' (ref_ID (pu_Target u)))
      | Some cur \<Rightarrow>
          (let cur = merge_portforward u cur; f' = fst (removeEdgeRuleLines f (ref_ID (pu_Target u)) natPortForwardMatcher)
           in appendRulePair f' (np_Iface cur) (NatPortForwardCommands cur) nl))"

definition mutateNatPortForwardDelete :: "File \<Rightarrow> Ref \<Rightarrow> mutate_error + File" where
  "mutateNatPortForwardDelete f target = remove_rule ''nat.portforward.delete'' natPortForwardMatcher f target"

definition mutateRouteStaticCreate :: "File \<Rightarrow> RouteStaticCreate \<Rightarrow> string \<Rightarrow> mutate_error + File" where
  "mutateRouteStaticCreate f c nl =
     (let cfg = \<lparr> sr_ID = ref_ID (rc_Target c), sr_Iface = rc_Iface c, sr_DestCIDR = rc_DestCIDR c, sr_Gateway = rc_Gateway c,
                  sr_Comment = rc_Comment c, sr_Metric = rc_Metric c \<rparr>
      in appendRulePair f (rc_Iface c) (StaticRouteCommands cfg) nl)"

definition merge_route :: "RouteStaticUpdate \<Rightarrow> StaticRouteConfig \<Rightarrow> StaticRouteConfig" where
  "merge_route u cur =
     cur\<lparr> sr_Iface := opt_or (sr_Iface cur) (ru_Iface u), sr_DestCIDR := opt_or (sr_DestCIDR cur) (ru_DestCIDR u),
          sr_Gateway := opt_or (sr_Gateway cur) (ru_Gateway u), sr_Comment := opt_or (sr_Comment cur) (ru_Comment u),
          sr_Metric := opt_or (sr_Metric cur) (ru_Metric u) \<rparr>"

definition mutateRouteStaticUpdate :: "File \<Rightarrow> RouteStaticUpdate \<Rightarrow> string \<Rightarrow> mutate_error + File" where
  "mutateRouteStaticUpdate f u nl =
     (case findStaticRouteConfig f (ref_ID (ru_Target u)) of
        None \<Rightarrow> Inl (ErrNotFound ''route.static.update'' (ref_ID (ru_Target u)))
      | Some cur \<Rightarrow>
          (let cur = merge_route u cur; f' = fst (removeEdgeRuleLines f (ref_ID (ru_Target u)) staticRouteMatcher)
           in appendRulePair f' (sr_Iface cur) (StaticRouteCommands cur) nl))"

definition mutateRouteStaticDelete :: "File \<Rightarrow> Ref \<Rightarrow> mutate_error + File" where
  "mutateRouteStaticDelete f target = remove_rule ''route.static.delete'' staticRouteMatcher f target"


section \<open>Virtual functions\<close>

fun append_pairs :: "string \<Rightarrow> string \<Rightarrow> (string \<times> string) list \<Rightarrow> File \<Rightarrow> mutate_error + File" where
  "append_pairs name nl [] f = Inr f"
| "append_pairs name nl (c # cs) f =
     (case on_iface ''vf.provision'' f name (\<lambda>body. insertBeforeTrailingBlanks body (pair_items c nl) nl) of
        Inl e \<Rightarrow> Inl e | Inr f' \<Rightarrow> append_pairs name nl cs f')"

definition mutateVFProvision :: "File \<Rightarrow> VFProvision \<Rightarrow> string \<Rightarrow> mutate_error + File" where
  "mutateVFProvision f p nl =
     (case ResolveVFPlan (vp_Count p) (vp_VFs p) (vp_VLAN p) (vp_MacAddr p) (vp_SpoofCheck p) (vp_Trust p) of
        None \<Rightarrow> Inl NegativeCount
      | Some plan \<Rightarrow>
          append_pairs (ref_ID (vp_Target p)) nl
            (VFProvisionCommands (ref_ID (vp_Target p)) (if vp_Count p = 0 then int (length plan) else vp_Count p) plan) f)"


section \<open>All operations\<close>

definition Mutate :: "File \<Rightarrow> iface_op \<Rightarrow> string \<Rightarrow> mutate_error + File" where
  "Mutate f op changesetID =
     (let nl = dominantEOL f in
      case op of
        OpIfaceUpdate x \<Rightarrow> mutateIfaceUpdate f x nl
      | OpBondCreate x \<Rightarrow> mutateBondCreate f x changesetID nl
      | OpBondUpdate x \<Rightarrow> mutateBondUpdate f x nl
      | OpBondDelete t \<Rightarrow> mutateBondDelete f t nl
      | OpBridgeCreate x \<Rightarrow> mutateBridgeCreate f x changesetID nl
      | OpBridgeUpdate x \<Rightarrow> mutateBridgeUpdate f x nl
      | OpBridgeDelete t \<Rightarrow> mutateBridgeDelete f t nl
      | OpBridgePortAdd t p \<Rightarrow> mutateBridgePortAdd f t p nl
      | OpBridgePortRemove t p \<Rightarrow> mutateBridgePortRemove f t p nl
      | OpVlanCreate x \<Rightarrow> mutateVlanCreate f x changesetID nl
      | OpVlanUpdate x \<Rightarrow> mutateVlanUpdate f x nl
      | OpVlanDelete t \<Rightarrow> mutateVlanDelete f t nl
      | OpIfaceRename t n \<Rightarrow> mutateIfaceRename f t n
      | OpIfaceRawReplace t c \<Rightarrow> mutateIfaceRawReplace c
      | OpNatMasqueradeCreate x \<Rightarrow> mutateNatMasqueradeCreate f x nl
      | OpNatMasqueradeDelete t \<Rightarrow> mutateNatMasqueradeDelete f t
      | OpNatPortForwardCreate x \<Rightarrow> mutateNatPortForwardCreate f x nl
      | OpNatPortForwardUpdate x \<Rightarrow> mutateNatPortForwardUpdate f x nl
      | OpNatPortForwardDelete t \<Rightarrow> mutateNatPortForwardDelete f t
      | OpRouteStaticCreate x \<Rightarrow> mutateRouteStaticCreate f x nl
      | OpRouteStaticUpdate x \<Rightarrow> mutateRouteStaticUpdate f x nl
      | OpRouteStaticDelete t \<Rightarrow> mutateRouteStaticDelete f t
      | OpVFProvision x \<Rightarrow> mutateVFProvision f x nl)"

fun mutate_from :: "nat \<Rightarrow> File \<Rightarrow> iface_op list \<Rightarrow> string \<Rightarrow> mutate_error + File" where
  "mutate_from i f [] changesetID = Inr f"
| "mutate_from i f (op # ops) changesetID =
     (case Mutate f op changesetID of Inl e \<Rightarrow> Inl (ApplyingOp i e) | Inr f' \<Rightarrow> mutate_from (i + 1) f' ops changesetID)"

definition MutateAll :: "File \<Rightarrow> iface_op list \<Rightarrow> string \<Rightarrow> mutate_error + File" where
  "MutateAll f ops changesetID = mutate_from 0 f ops changesetID"

end
