(* ===== verification/Ifaces_Reparse.thy ===== *)
theory Ifaces_Reparse
  imports Ifaces_Mutate
begin

text \<open>
  A rendered file read again. Each entry of a well-formed file is one logical line of text that parses to that entry,
  and so are the lines of a stanza; then the text of the file parses to a file with the same meaning. Parsing
  gives a well-formed file when the text ends in a line end.
\<close>

section \<open>Whole lines\<close>

definition one_line :: "string \<Rightarrow> string \<Rightarrow> bool" where
  "one_line raw tx \<longleftrightarrow> go_HasSuffix raw LF \<and> (\<forall>n rest. \<exists>k. logical_line n [] [] (raw @ rest) = Inr (tx, raw, k, rest))"

lemma go_HasSuffix_single: "go_HasSuffix t [c] \<longleftrightarrow> t \<noteq> [] \<and> last t = c"
  by (cases t rule: rev_cases) (auto simp: go_HasSuffix_def)

lemma phys_line_simple: "CHR 0x0A \<notin> set t \<Longrightarrow> phys_line (t @ LF @ rest) = (t @ LF, rest)"
proof -
  assume t: "CHR 0x0A \<notin> set t"
  then have "takeWhile (\<lambda>c. c \<noteq> CHR 0x0A) (t @ LF @ rest) = t" "dropWhile (\<lambda>c. c \<noteq> CHR 0x0A) (t @ LF @ rest) = CHR 0x0A # rest"
    by (auto simp: takeWhile_append dropWhile_append)
  then show ?thesis by (simp only: phys_line_def Let_def list.case)
qed

lemma phys_line_LF:
  assumes "phys_line (p @ r) = (p, r)" "go_HasSuffix p LF" shows "phys_line (p @ r') = (p, r')"
proof -
  obtain a where a: "p = a @ LF" using assms(2) by (auto simp: go_HasSuffix_iff)
  have "CHR 0x0A \<notin> set a"
  proof
    assume "CHR 0x0A \<in> set a"
    then obtain x y where xy: "a = x @ CHR 0x0A # y" "CHR 0x0A \<notin> set x" by (meson split_list_first)
    then have "phys_line (p @ r) = (x @ LF, y @ LF @ r)" using phys_line_simple [OF xy(2), of "y @ LF @ r"] by (simp add: a)
    then have "length p = length (x @ LF)" using assms(1) by simp
    then show False by (simp add: a xy(1))
  qed
  then show ?thesis using phys_line_simple [of a r'] by (simp add: a)
qed

lemma phys_line_rest: "phys_line s = (p, r) \<Longrightarrow> r \<noteq> [] \<Longrightarrow> go_HasSuffix p LF"
proof -
  assume a: "phys_line s = (p, r)" "r \<noteq> []"
  show ?thesis
  proof (cases "dropWhile (\<lambda>c. c \<noteq> CHR 0x0A) s")
    case Nil
    with a show ?thesis unfolding phys_line_def Let_def by (simp only: Nil list.case) auto
  next
    case (Cons c l)
    then have "c = CHR 0x0A" by (metis (full_types) dropWhile_eq_Cons_conv)
    with a Cons show ?thesis unfolding phys_line_def Let_def go_HasSuffix_iff by (simp only: Cons list.case) auto
  qed
qed

lemma logical_line_any:
  assumes "logical_line n r0 t0 s = Inr (tx, r0 @ raw, m, rest)" "go_HasSuffix raw LF"
  shows "\<exists>m'. logical_line n' r0 t0 (raw @ rest') = Inr (tx, r0 @ raw, m', rest')"
  using assms
proof (induction n r0 t0 s arbitrary: n' raw rule: logical_line.induct)
  case (1 n r0 t0 s)
  obtain phys r where p: "phys_line s = (phys, r)" by fastforce
  note s = phys_line_append [OF p]
  let ?c = "line_content phys"
  show ?case
  proof (cases "go_HasSuffix ?c [CHR 0x5C]")
    case True
    then have r: "r \<noteq> []" and l: "logical_line (n + 1) (r0 @ phys) (t0 @ take (length ?c - 1) ?c) r = Inr (tx, r0 @ raw, m, rest)"
      using "1.prems"(1) p by (auto simp: logical_line.simps [of n] Let_def split: if_splits)
    have "(r0 @ raw) @ rest = (r0 @ phys) @ r" by (rule logical_line_raw [OF l])
    then have raw: "raw @ rest = phys @ r" by simp
    have lf: "go_HasSuffix phys LF" by (rule phys_line_rest [OF p r])
    have sh: "length rest < length r" by (rule logical_line_shorter [OF l r])
    obtain raw2 where raw2: "raw = phys @ raw2" "r = raw2 @ rest"
      using raw sh by (auto simp: append_eq_append_conv2)
    have ne: "raw2 \<noteq> []" using raw2 sh by auto
    then have lf2: "go_HasSuffix raw2 LF" using "1.prems"(2) raw2(1) by (auto simp: go_HasSuffix_iff append_eq_append_conv2 append_eq_Cons_conv)
    have "\<exists>m'. logical_line (n' + 1) (r0 @ phys) (t0 @ take (length ?c - 1) ?c) (raw2 @ rest') = Inr (tx, (r0 @ phys) @ raw2, m', rest')"
      using l raw2 lf2 by (intro "1.IH" [OF p [symmetric] refl refl True r]) simp_all
    moreover have "phys_line (phys @ raw2 @ rest') = (phys, raw2 @ rest')" using phys_line_LF [OF _ lf] p s by simp
    ultimately show ?thesis using True ne by (simp add: raw2(1) logical_line.simps [of n'] Let_def)
  next
    case False
    then have e: "tx = t0 @ ?c" "raw = phys" "rest = r" using "1.prems"(1) p by (auto simp: logical_line.simps [of n] Let_def)
    have "phys_line (raw @ rest') = (raw, rest')" using phys_line_LF [of raw r] "1.prems"(2) p s e by simp
    with False e show ?thesis by (simp add: logical_line.simps [of n'] Let_def)
  qed
qed

lemma logical_line_LF:
  assumes "logical_line n r0 t0 s = Inr (tx, raw, m, rest)" "rest \<noteq> [] \<or> go_HasSuffix s LF" "s \<noteq> []"
  shows "go_HasSuffix raw LF"
  using assms
proof (induction n r0 t0 s rule: logical_line.induct)
  case (1 n r0 t0 s)
  obtain phys r where p: "phys_line s = (phys, r)" by fastforce
  note s = phys_line_append [OF p]
  let ?c = "line_content phys"
  show ?case
  proof (cases "go_HasSuffix ?c [CHR 0x5C]")
    case True
    then have r: "r \<noteq> []" and l: "logical_line (n + 1) (r0 @ phys) (t0 @ take (length ?c - 1) ?c) r = Inr (tx, raw, m, rest)"
      using "1.prems"(1) p by (auto simp: logical_line.simps [of n] Let_def split: if_splits)
    have "rest \<noteq> [] \<or> go_HasSuffix r LF" using "1.prems"(2) s r by (auto simp: go_HasSuffix_single)
    then show ?thesis using "1.IH" [OF p [symmetric] refl refl True r l] r by blast
  next
    case False
    then have e: "raw = r0 @ phys" "rest = r" using "1.prems"(1) p by (auto simp: logical_line.simps [of n] Let_def)
    have "go_HasSuffix phys LF" using phys_line_rest [OF p] "1.prems"(2) s e by (cases "r = []") auto
    with e show ?thesis by (auto simp: go_HasSuffix_single)
  qed
qed

lemma logical_line_one:
  assumes "logical_line n [] [] s = Inr (tx, raw, m, rest)" "go_HasSuffix raw LF"
  shows "one_line raw tx"
  using logical_line_any [of n "[]" "[]" s tx raw m rest] assms unfolding one_line_def by simp

text \<open>The lines the editor writes: no line end inside, no backslash and no carriage return at the end.\<close>

definition plain_text :: "string \<Rightarrow> bool" where
  "plain_text t \<longleftrightarrow> CHR 0x0A \<notin> set t \<and> (t \<noteq> [] \<longrightarrow> last t \<noteq> CHR 0x0D \<and> last t \<noteq> CHR 0x5C)"

lemma line_content_eol:
  assumes "plain_text t" "nl = LF \<or> nl = CRLF" shows "line_content (t @ nl) = t"
proof -
  have "go_TrimSuffix (t @ nl) LF = (if nl = LF then t else t @ [CHR 0x0D])"
    using assms(2) go_TrimSuffix_append [of t LF] go_TrimSuffix_append [of "t @ [CHR 0x0D]" LF] by auto
  moreover have "go_TrimSuffix t [CHR 0x0D] = t"
    using assms(1) by (auto simp: plain_text_def go_TrimSuffix_def go_HasSuffix_single)
  ultimately show ?thesis by (simp add: line_content_def)
qed

lemma one_line_plain:
  assumes "plain_text t" "nl = LF \<or> nl = CRLF" shows "one_line (t @ nl) t"
proof -
  have "phys_line ((t @ nl) @ rest) = (t @ nl, rest)" for rest
    using assms phys_line_simple [of t rest] phys_line_simple [of "t @ [CHR 0x0D]" rest] by (auto simp: plain_text_def)
  moreover have "\<not> go_HasSuffix t [CHR 0x5C]" using assms(1) by (auto simp: plain_text_def go_HasSuffix_single)
  ultimately have "logical_line n [] [] ((t @ nl) @ rest) = Inr (t, t @ nl, n, rest)" for n rest
    using line_content_eol [OF assms] by (simp add: logical_line.simps [of n] Let_def)
  then show ?thesis using assms(2) unfolding one_line_def by (auto simp: go_HasSuffix_iff)
qed


section \<open>Reading a sequence of lines\<close>

inductive reads :: "string list \<Rightarrow> parse_state \<Rightarrow> parse_state \<Rightarrow> bool" where
  reads_Nil: "reads [] st st"
| reads_Cons: "one_line raw tx \<Longrightarrow> (\<And>n. parse_line \<lparr> ll_Text = tx, ll_Raw = raw, ll_Start = n \<rparr> st = Inr st1) \<Longrightarrow>
    reads raws st1 st2 \<Longrightarrow> reads (raw # raws) st st2"

lemma reads_append: "reads xs st st1 \<Longrightarrow> reads ys st1 st2 \<Longrightarrow> reads (xs @ ys) st st2"
  by (induction rule: reads.induct) (auto intro: reads_Cons)

lemma reads_parse: "reads raws st st' \<Longrightarrow> \<exists>ls. splitLogicalLines n (concat raws) = Inr ls \<and> parse_lines ls st = Inr st'"
proof (induction arbitrary: n rule: reads.induct)
  case (reads_Nil st)
  show ?case by (simp add: splitLogicalLines.simps)
next
  case (reads_Cons raw tx st st1 raws st2)
  obtain k where k: "logical_line (n + 1) [] [] (raw @ concat raws) = Inr (tx, raw, k, concat raws)"
    using reads_Cons.hyps(1) unfolding one_line_def by blast
  obtain ls where "splitLogicalLines k (concat raws) = Inr ls" "parse_lines ls st1 = Inr st2" using reads_Cons.IH by blast
  moreover have "raw \<noteq> []" using reads_Cons.hyps(1) by (auto simp: one_line_def go_HasSuffix_def)
  ultimately show ?case using k reads_Cons.hyps(2) by (simp add: splitLogicalLines.simps [of n])
qed


section \<open>Well-formed files\<close>

definition stanza_kind :: "EntryKind \<Rightarrow> bool" where
  "stanza_kind k \<longleftrightarrow> k = KindMapping \<or> k = KindIface"

definition filler :: "Entry \<Rightarrow> bool" where
  "filler e \<longleftrightarrow> en_Kind e = KindBlank \<or> en_Kind e = KindComment"

text \<open>Where a parsed entry goes.\<close>

definition place :: "Entry \<Rightarrow> parse_state \<Rightarrow> parse_state" where
  "place e st =
     (if filler e then
        (case st of (f, None) \<Rightarrow> (f @ [e], None)
         | (f, Some x) \<Rightarrow> (f, Some (add_item (zero_Item (if en_Kind e = KindBlank then BodyBlank else BodyComment) (en_Raw e)) x)))
      else if stanza_kind (en_Kind e) then (closeOpen st, Some e)
      else (closeOpen st @ [e], None))"

definition head_ok :: "Entry \<Rightarrow> bool" where
  "head_ok e \<longleftrightarrow> (\<exists>tx. one_line (en_Raw e) tx \<and> (\<forall>n st. parse_line \<lparr> ll_Text = tx, ll_Raw = en_Raw e, ll_Start = n \<rparr> st = Inr (place e st)))"

definition item_ok :: "BodyItem \<Rightarrow> bool" where
  "item_ok item \<longleftrightarrow> (\<exists>tx. one_line (bi_Raw item) tx \<and>
     (\<forall>n f e. parse_line \<lparr> ll_Text = tx, ll_Raw = bi_Raw item, ll_Start = n \<rparr> (f, Some e) = Inr (f, Some (add_item item e))))"

definition entry_ok :: "Entry \<Rightarrow> bool" where
  "entry_ok e \<longleftrightarrow> head_ok (e\<lparr>en_Body := []\<rparr>) \<and> (stanza_kind (en_Kind e) \<or> en_Body e = []) \<and> list_all item_ok (en_Body e)"

text \<open>The meaning of a file: its entries and options without the source text, blank lines and comments left out.\<close>

definition bare_item :: "BodyItem \<Rightarrow> BodyItem" where
  "bare_item item = item\<lparr>bi_Raw := []\<rparr>"

definition bare_entry :: "Entry \<Rightarrow> Entry" where
  "bare_entry e = e\<lparr>en_Raw := [], en_Body := map bare_item (Entry_Options e)\<rparr>"

definition meaning :: "File \<Rightarrow> Entry list" where
  "meaning f = map bare_entry (filter (\<lambda>e. \<not> filler e) f)"

lemma meaning_simps [simp]:
  "meaning [] = []" "meaning (f @ g) = meaning f @ meaning g"
  "meaning (e # f) = (if filler e then meaning f else bare_entry e # meaning f)"
  by (simp_all add: meaning_def)

definition entry_lines :: "Entry \<Rightarrow> string list" where
  "entry_lines e = en_Raw e # map bi_Raw (en_Body e)"

lemma Render_lines: "Render f = concat (concat (map entry_lines f))"
  by (induction f) (simp_all add: entry_text_def entry_lines_def)

lemma reads_items:
  "list_all item_ok items \<Longrightarrow> reads (map bi_Raw items) (f, Some e) (f, Some (e\<lparr>en_Body := en_Body e @ items\<rparr>))"
proof (induction items arbitrary: e)
  case (Cons item items)
  obtain tx where tx: "one_line (bi_Raw item) tx"
    "\<And>n. parse_line \<lparr> ll_Text = tx, ll_Raw = bi_Raw item, ll_Start = n \<rparr> (f, Some e) = Inr (f, Some (add_item item e))"
    using Cons.prems unfolding item_ok_def list.pred_inject by metis
  have "reads (map bi_Raw items) (f, Some (add_item item e)) (f, Some ((add_item item e)\<lparr>en_Body := en_Body (add_item item e) @ items\<rparr>))"
    using Cons by simp
  then have "reads (map bi_Raw items) (f, Some (add_item item e)) (f, Some (e\<lparr>en_Body := en_Body e @ item # items\<rparr>))"
    by (simp add: add_item_def)
  then show ?case using reads_Cons [OF tx] by simp
qed (simp add: reads_Nil)

text \<open>The meaning of a state of the parser is that of the entries read so far.\<close>

abbreviation "st_meaning st \<equiv> meaning (closeOpen st)"

definition open_ok :: "parse_state \<Rightarrow> bool" where
  "open_ok st \<longleftrightarrow> (case snd st of None \<Rightarrow> True | Some e \<Rightarrow> stanza_kind (en_Kind e))"

lemma bare_add_filler: "bi_Kind item \<noteq> BodyOption \<Longrightarrow> bare_entry (add_item item e) = bare_entry e"
  by (simp add: bare_entry_def add_item_def Entry_Options_def)

lemma add_item_sel [simp]: "en_Kind (add_item item e) = en_Kind e" "filler (add_item item e) = filler e"
  "bi_Kind (zero_Item k raw) = k"
  by (simp_all add: add_item_def filler_def zero_Item_def)

lemma stanza_not_filler: "stanza_kind (en_Kind e) \<Longrightarrow> \<not> filler e"
  by (auto simp: stanza_kind_def filler_def)

lemma reads_entry:
  assumes "entry_ok e" "open_ok st"
  shows "\<exists>st'. reads (entry_lines e) st st' \<and> open_ok st' \<and> st_meaning st' = st_meaning st @ meaning [e]"
proof -
  let ?h = "e\<lparr>en_Body := []\<rparr>"
  have ok: "head_ok ?h" "stanza_kind (en_Kind e) \<or> en_Body e = []" "list_all item_ok (en_Body e)" using assms(1) by (simp_all add: entry_ok_def)
  obtain tx where "one_line (en_Raw ?h) tx" "\<forall>n st. parse_line \<lparr> ll_Text = tx, ll_Raw = en_Raw ?h, ll_Start = n \<rparr> st = Inr (place ?h st)"
    using ok(1) unfolding head_ok_def by blast
  then have tx: "one_line (en_Raw e) tx" "\<And>n. parse_line \<lparr> ll_Text = tx, ll_Raw = en_Raw e, ll_Start = n \<rparr> st = Inr (place ?h st)"
    by (simp_all del: split_paired_All)
  show ?thesis
  proof (cases "stanza_kind (en_Kind e)")
    case True
    then have p: "place ?h st = (closeOpen st, Some ?h)" using stanza_not_filler [of e] by (simp add: place_def filler_def)
    have "reads (map bi_Raw (en_Body e)) (closeOpen st, Some ?h) (closeOpen st, Some e)"
      using reads_items [OF ok(3), of "closeOpen st" ?h] by simp
    then have "reads (entry_lines e) st (closeOpen st, Some e)"
      unfolding entry_lines_def using reads_Cons [OF tx] p by simp
    moreover have "st_meaning (closeOpen st, Some e) = st_meaning st @ meaning [e]" by (simp add: closeOpen_def [of "(_, Some _)"])
    ultimately show ?thesis using True by (intro exI [of _ "(closeOpen st, Some e)"]) (simp add: open_ok_def)
  next
    case False
    then have b: "en_Body e = []" "?h = e" using ok(2) by auto
    have "reads [en_Raw e] st (place ?h st)" by (rule reads_Cons [OF tx reads_Nil])
    then have r: "reads (entry_lines e) st (place e st)" unfolding b(2) by (simp add: entry_lines_def b(1))
    have "open_ok (place e st) \<and> st_meaning (place e st) = st_meaning st @ meaning [e]"
      using assms(2) False
      by (cases st; cases "snd st")
        (auto simp: place_def closeOpen_def open_ok_def bare_add_filler filler_def stanza_kind_def)
    with r show ?thesis by blast
  qed
qed

lemma reads_file:
  "list_all entry_ok f \<Longrightarrow> open_ok st \<Longrightarrow> \<exists>st'. reads (concat (map entry_lines f)) st st' \<and> open_ok st' \<and> st_meaning st' = st_meaning st @ meaning f"
proof (induction f arbitrary: st)
  case Nil
  then show ?case using reads_Nil [of st] by (intro exI [of _ st]) simp
next
  case (Cons e f)
  obtain st1 where st1: "reads (entry_lines e) st st1" "open_ok st1" "st_meaning st1 = st_meaning st @ meaning [e]"
    using reads_entry Cons.prems by (metis list.pred_inject(2))
  obtain st2 where "reads (concat (map entry_lines f)) st1 st2" "open_ok st2" "st_meaning st2 = st_meaning st1 @ meaning f"
    using Cons st1(2) by (metis list.pred_inject(2))
  with st1 show ?case using reads_append by (fastforce split: if_splits)
qed

lemma reparse:
  assumes "list_all entry_ok f" shows "\<exists>f'. ParseInterfaces (Render f) = Inr f' \<and> meaning f' = meaning f"
proof -
  obtain st where st: "reads (concat (map entry_lines f)) ([], None) st" "st_meaning st = st_meaning ([], None) @ meaning f"
    using reads_file [OF assms, of "([], None)"] by (auto simp: open_ok_def)
  obtain ls where "splitLogicalLines 0 (Render f) = Inr ls" "parse_lines ls ([], None) = Inr st"
    using reads_parse [OF st(1)] Render_lines by metis
  then have "ParseInterfaces (Render f) = Inr (closeOpen st)" by (simp add: ParseInterfaces_def)
  with st(2) show ?thesis by (simp add: closeOpen_def [of "([], None)"])
qed


section \<open>What a line means\<close>

text \<open>The entry a line begins, by its tokens; None for an option line and for a short \<^verbatim>\<open>iface\<close> line.\<close>

definition line_head :: "string \<Rightarrow> string \<Rightarrow> Entry option" where
  "line_head tx raw =
     (case go_Fields tx of [] \<Rightarrow> Some (zero_Entry KindBlank raw)
      | kw # args \<Rightarrow>
        if hd kw = CHR ''#'' then Some (zero_Entry KindComment raw)
        else if kw = kwAuto then Some ((zero_Entry KindAuto raw)\<lparr>en_Ifaces := args\<rparr>)
        else if go_HasPrefix kw allowPrefix \<and> length kw > length allowPrefix
        then Some ((zero_Entry KindAllow raw)\<lparr>en_Class := drop (length allowPrefix) kw, en_Ifaces := args\<rparr>)
        else if kw = kwNoAutoDown then Some ((zero_Entry KindNoAutoDown raw)\<lparr>en_Ifaces := args\<rparr>)
        else if kw = kwNoScripts then Some ((zero_Entry KindNoScripts raw)\<lparr>en_Ifaces := args\<rparr>)
        else if kw = kwRename then Some ((zero_Entry KindRename raw)\<lparr>en_Renames := args\<rparr>)
        else if kw = kwSource then Some ((zero_Entry KindSource raw)\<lparr>en_Path := go_Join '' '' args\<rparr>)
        else if kw = kwSourceDirectory then Some ((zero_Entry KindSourceDirectory raw)\<lparr>en_Path := go_Join '' '' args\<rparr>)
        else if kw = kwMapping then Some ((zero_Entry KindMapping raw)\<lparr>en_Pattern := go_Join '' '' args\<rparr>)
        else if kw = kwIface \<and> length args \<ge> 3
        then Some ((zero_Entry KindIface raw)\<lparr>en_Name := args ! 0, en_Family := args ! 1, en_Method := args ! 2,
                  en_Inherits := (if length args > 3 \<and> args ! 3 = kwInherits then drop 4 args else [])\<rparr>)
        else None)"

definition option_of :: "string list \<Rightarrow> string \<Rightarrow> BodyItem" where
  "option_of toks raw = \<lparr> bi_Raw = raw, bi_Key = hd toks, bi_Value = go_Join '' '' (tl toks), bi_Kind = BodyOption \<rparr>"

lemma split_space_head: "\<not> go_isspace x \<Longrightarrow> \<exists>t ts. split_space (x # xs) = (x # t) # ts"
  by (cases "split_space xs") auto

lemma go_Fields_head: "\<not> go_isspace x \<Longrightarrow> \<exists>t ts. go_Fields (x # xs) = (x # t) # ts"
  using split_space_head [of x xs] by (auto simp: go_Fields_def)

lemma TrimSpace_head: "go_TrimSpace s = x # xs \<Longrightarrow> \<not> go_isspace x"
proof -
  let ?d = "dropWhile go_isspace s"
  assume a: "go_TrimSpace s = x # xs"
  have "?d = go_TrimSpace s @ rev (takeWhile go_isspace (rev ?d))"
    by (metis go_TrimSpace_def rev_append rev_rev_ident takeWhile_dropWhile_id)
  then have "?d = x # xs @ rev (takeWhile go_isspace (rev ?d))" using a by simp
  then show ?thesis by (metis dropWhile_eq_Cons_conv)
qed

lemma trimmed_fields:
  "go_TrimSpace tx = [] \<longleftrightarrow> go_Fields tx = []"
  "go_Fields tx \<noteq> [] \<Longrightarrow> go_HasPrefix (go_TrimSpace tx) ''#'' \<longleftrightarrow> hd (hd (go_Fields tx)) = CHR ''#''"
proof -
  have h: "\<exists>t ts. go_Fields tx = (x # t) # ts" if "go_TrimSpace tx = x # xs" for x xs
    using go_Fields_head [OF TrimSpace_head [OF that], of xs] go_Fields_TrimSpace [of tx] unfolding that by simp
  then show e: "go_TrimSpace tx = [] \<longleftrightarrow> go_Fields tx = []"
    using go_Fields_TrimSpace [of tx] by (cases "go_TrimSpace tx") auto
  show "go_HasPrefix (go_TrimSpace tx) ''#'' \<longleftrightarrow> hd (hd (go_Fields tx)) = CHR ''#''" if "go_Fields tx \<noteq> []"
  proof (cases "go_TrimSpace tx")
    case (Cons x xs)
    with h [OF Cons] show ?thesis by (auto simp: go_HasPrefix_def)
  qed (use that e in simp)
qed

lemma place_simps [simp]:
  "en_Kind e = KindBlank \<Longrightarrow> place e (f, Some x) = (f, Some (add_item (zero_Item BodyBlank (en_Raw e)) x))"
  "en_Kind e = KindComment \<Longrightarrow> place e (f, Some x) = (f, Some (add_item (zero_Item BodyComment (en_Raw e)) x))"
  "filler e \<Longrightarrow> place e (f, None) = (f @ [e], None)"
  "stanza_kind (en_Kind e) \<Longrightarrow> place e st = (closeOpen st, Some e)"
  "\<not> filler e \<Longrightarrow> \<not> stanza_kind (en_Kind e) \<Longrightarrow> place e st = (closeOpen st @ [e], None)"
  using stanza_not_filler by (auto simp: place_def filler_def)

lemma zero_Entry_sel [simp]:
  "en_Kind (zero_Entry k raw) = k" "en_Raw (zero_Entry k raw) = raw" "en_Body (zero_Entry k raw) = []"
  by (simp_all add: zero_Entry_def)

lemma parse_line_eq:
  "parse_line \<lparr> ll_Text = tx, ll_Raw = raw, ll_Start = n \<rparr> st =
     (case line_head tx raw of Some e \<Rightarrow> Inr (place e st)
      | None \<Rightarrow>
        if hd (go_Fields tx) = kwIface then Inl (IfaceArguments n (length (tl (go_Fields tx))))
        else case st of (f, None) \<Rightarrow> Inl (UnexpectedLine n (go_TrimSpace tx))
          | (f, Some e) \<Rightarrow> Inr (f, Some (add_item (option_of (go_Fields tx) raw) e)))"
proof (cases "go_Fields tx")
  case Nil
  then have "go_TrimSpace tx = []" by (simp add: trimmed_fields)
  with Nil show ?thesis
    by (cases st; cases "snd st") (simp_all add: parse_line_def line_head_def Let_def filler_def)
next
  case (Cons kw args)
  have t: "go_TrimSpace tx \<noteq> []" "go_HasPrefix (go_TrimSpace tx) ''#'' \<longleftrightarrow> hd kw = CHR ''#''"
    using Cons trimmed_fields [of tx] by simp_all
  show ?thesis
  proof (cases "hd kw = CHR ''#''")
    case True
    with Cons t show ?thesis
      by (cases st; cases "snd st") (simp_all add: parse_line_def line_head_def Let_def filler_def)
  next
    case False
    show ?thesis
      unfolding parse_line_def line_head_def Let_def
      using t False by (simp add: Cons filler_def stanza_kind_def option_of_def not_le del: length_greater_0_conv)
  qed
qed


section \<open>Parsing gives well-formed files\<close>

lemma head_okI: "one_line (en_Raw e) tx \<Longrightarrow> line_head tx (en_Raw e) = Some e \<Longrightarrow> head_ok e"
  unfolding head_ok_def by (rule exI [of _ tx]) (simp add: parse_line_eq)

lemma item_okI:
  "one_line (bi_Raw item) tx \<Longrightarrow> line_head tx (bi_Raw item) = None \<Longrightarrow> hd (go_Fields tx) \<noteq> kwIface \<Longrightarrow>
   item = option_of (go_Fields tx) (bi_Raw item) \<Longrightarrow> item_ok item"
  unfolding item_ok_def by (rule exI [of _ tx]) (simp add: parse_line_eq)

lemma line_head_fill:
  "go_Fields tx = [] \<Longrightarrow> line_head tx raw = Some (zero_Entry KindBlank raw)"
  "go_Fields tx \<noteq> [] \<Longrightarrow> hd (hd (go_Fields tx)) = CHR ''#'' \<Longrightarrow> line_head tx raw = Some (zero_Entry KindComment raw)"
  by (cases "go_Fields tx", simp_all add: line_head_def)+

lemma item_ok_filler:
  "one_line raw tx \<Longrightarrow> go_Fields tx = [] \<Longrightarrow> item_ok (zero_Item BodyBlank raw)"
  "one_line raw tx \<Longrightarrow> go_Fields tx \<noteq> [] \<Longrightarrow> hd (hd (go_Fields tx)) = CHR ''#'' \<Longrightarrow> item_ok (zero_Item BodyComment raw)"
  unfolding item_ok_def
  by (rule exI [of _ tx], simp add: parse_line_eq line_head_fill zero_Item_def)+

definition state_ok :: "parse_state \<Rightarrow> bool" where
  "state_ok st \<longleftrightarrow> list_all entry_ok (fst st) \<and> (case snd st of None \<Rightarrow> True | Some e \<Rightarrow> entry_ok e \<and> stanza_kind (en_Kind e))"

lemma state_ok_closeOpen: "state_ok st \<Longrightarrow> list_all entry_ok (closeOpen st)"
  by (auto simp: state_ok_def closeOpen_def split: option.splits prod.splits)

lemma entry_ok_add: "entry_ok e \<Longrightarrow> stanza_kind (en_Kind e) \<Longrightarrow> item_ok item \<Longrightarrow> entry_ok (add_item item e)"
  by (simp add: entry_ok_def add_item_def)

lemma line_head_sel: "line_head tx raw = Some e \<Longrightarrow> en_Raw e = raw \<and> en_Body e = []"
  by (auto simp: line_head_def split: list.splits if_splits)

lemma line_head_filler:
  "line_head tx raw = Some e \<Longrightarrow> en_Kind e = KindBlank \<Longrightarrow> go_Fields tx = []"
  "line_head tx raw = Some e \<Longrightarrow> en_Kind e = KindComment \<Longrightarrow> go_Fields tx \<noteq> [] \<and> hd (hd (go_Fields tx)) = CHR ''#''"
  by (auto simp: line_head_def split: list.splits if_splits)

lemma parse_line_ok:
  assumes o: "one_line raw tx" and p: "parse_line \<lparr> ll_Text = tx, ll_Raw = raw, ll_Start = n \<rparr> st = Inr st'" and s: "state_ok st"
  shows "state_ok st'"
proof (cases "line_head tx raw")
  case None
  with p obtain f e where st: "st = (f, Some e)" "st' = (f, Some (add_item (option_of (go_Fields tx) raw) e))" "hd (go_Fields tx) \<noteq> kwIface"
    by (auto simp: parse_line_eq split: if_splits prod.splits option.splits)
  have "item_ok (option_of (go_Fields tx) raw)"
    using o None st(3) by (intro item_okI [of _ tx]) (simp_all add: option_of_def)
  with s st entry_ok_add show ?thesis by (simp add: state_ok_def)
next
  case (Some e)
  note sel = line_head_sel [OF Some]
  have b: "e\<lparr>en_Body := []\<rparr> = e" using sel by simp
  have "head_ok e" using head_okI [of e tx] o Some sel by simp
  then have e: "entry_ok e" by (simp add: entry_ok_def b sel)
  have st': "st' = place e st" using p Some by (simp add: parse_line_eq)
  show ?thesis
  proof (cases "filler e")
    case True
    show ?thesis
    proof (cases "snd st")
      case None
      then have "st = (fst st, None)" by (metis prod.collapse)
      then have "st' = (fst st @ [e], None)" using st' True by (metis place_simps(3))
      then show ?thesis using s e by (simp add: state_ok_def)
    next
      case (Some x)
      then have "st = (fst st, Some x)" by (metis prod.collapse)
      moreover obtain item where "item_ok item" "place e (fst st, Some x) = (fst st, Some (add_item item x))"
        using True line_head_filler [OF \<open>line_head tx raw = Some e\<close>] item_ok_filler [OF o] sel by (auto simp: filler_def)
      ultimately show ?thesis using s st' entry_ok_add Some by (simp add: state_ok_def)
    qed
  next
    case False
    have l: "list_all entry_ok (closeOpen st)" by (rule state_ok_closeOpen [OF s])
    show ?thesis
    proof (cases "stanza_kind (en_Kind e)")
      case True
      then show ?thesis using st' l e by (simp add: state_ok_def)
    next
      case F: False
      then show ?thesis using st' l e False by (simp add: state_ok_def)
    qed
  qed
qed

lemma parse_lines_ok:
  "\<forall>ln\<in>set lns. one_line (ll_Raw ln) (ll_Text ln) \<Longrightarrow> parse_lines lns st = Inr st' \<Longrightarrow> state_ok st \<Longrightarrow> state_ok st'"
proof (induction lns arbitrary: st)
  case (Cons ln lns)
  then obtain st1 where st1: "parse_line ln st = Inr st1" "parse_lines lns st1 = Inr st'" by (auto split: sum.splits)
  have "parse_line \<lparr> ll_Text = ll_Text ln, ll_Raw = ll_Raw ln, ll_Start = ll_Start ln \<rparr> st = Inr st1"
    using st1(1) by (metis logicalLine.surjective old.unit.exhaust)
  then have "state_ok st1" using parse_line_ok Cons.prems(1,3) by (metis list.set_intros(1))
  with Cons st1(2) show ?case by simp
qed simp

lemma split_one_lines:
  "splitLogicalLines n s = Inr ls \<Longrightarrow> s = [] \<or> go_HasSuffix s LF \<Longrightarrow> \<forall>ln\<in>set ls. one_line (ll_Raw ln) (ll_Text ln)"
proof (induction n s arbitrary: ls rule: splitLogicalLines.induct)
  case (1 n s)
  show ?case
  proof (cases "s = []")
    case False
    then obtain tx raw k rest ls' where l: "logical_line (n + 1) [] [] s = Inr (tx, raw, k, rest)"
      "splitLogicalLines k rest = Inr ls'" "ls = \<lparr> ll_Text = tx, ll_Raw = raw, ll_Start = n + 1 \<rparr> # ls'"
      using "1.prems"(1) by (auto simp: splitLogicalLines.simps [of n s] split: sum.splits)
    have s: "s = raw @ rest" using logical_line_raw [OF l(1)] by simp
    have lf: "rest = [] \<or> go_HasSuffix rest LF" using "1.prems"(2) False s by (auto simp: go_HasSuffix_single)
    have "go_HasSuffix s LF" using "1.prems"(2) False by blast
    then have "go_HasSuffix raw LF" using logical_line_LF [OF l(1)] False by blast
    then have "one_line raw tx" using logical_line_one l(1) by blast
    moreover have "\<forall>ln\<in>set ls'. one_line (ll_Raw ln) (ll_Text ln)" using "1.IH" [OF False l(1) refl refl refl l(2) lf] .
    ultimately show ?thesis using l(3) by simp
  qed (use "1.prems" in \<open>simp add: splitLogicalLines.simps\<close>)
qed

lemma parsed_ok:
  assumes "ParseInterfaces s = Inr f" "s = [] \<or> go_HasSuffix s LF" shows "list_all entry_ok f"
proof -
  obtain lines st where l: "splitLogicalLines 0 s = Inr lines" "parse_lines lines ([], None) = Inr st" "f = closeOpen st"
    using assms(1) by (auto simp: ParseInterfaces_def split: sum.splits)
  have "state_ok st" using parse_lines_ok [OF split_one_lines [OF l(1) assms(2)] l(2)] by (simp add: state_ok_def)
  then show ?thesis using state_ok_closeOpen l(3) by blast
qed

end
