(* ===== verification/Ifaces_Written.thy ===== *)
theory Ifaces_Written
  imports Ifaces_Reparse
begin

text \<open>
  The lines the editor writes are well-formed when what it is given is: values without line ends, without repeated
  blanks and without a backslash at the end. Then every operation but a rename (see \<open>Ifaces_Rename\<close>) takes a
  well-formed file to a well-formed file.
\<close>

section \<open>Clean values\<close>

definition word :: "string \<Rightarrow> bool" where
  "word t \<longleftrightarrow> token t \<and> last t \<noteq> CHR 0x5C"

definition clean :: "string \<Rightarrow> bool" where
  "clean v \<longleftrightarrow> go_Join '' '' (go_Fields v) = v \<and> (v \<noteq> [] \<longrightarrow> last v \<noteq> CHR 0x5C)"

lemma word_token: "word t \<Longrightarrow> token t"
  by (simp add: word_def)

lemma Join_last: "ts \<noteq> [] \<Longrightarrow> list_all token ts \<Longrightarrow> go_Join '' '' ts \<noteq> [] \<and> last (go_Join '' '' ts) = last (last ts)"
proof (induction ts rule: induct_list012)
  case (3 t u ts)
  then have "go_Join '' '' (u # ts) \<noteq> []" "last (go_Join '' '' (u # ts)) = last (last (u # ts))" by simp_all
  then show ?case by (simp add: last_append)
qed (auto simp: token_def)

lemma clean_Join: "list_all token ts \<Longrightarrow> ts = [] \<or> last (last ts) \<noteq> CHR 0x5C \<Longrightarrow> clean (go_Join '' '' ts)"
  using Join_last [of ts] by (cases "ts = []") (auto simp: clean_def go_Fields_Join)

lemma clean_words: "list_all word ts \<Longrightarrow> clean (go_Join '' '' ts)"
  by (rule clean_Join) (auto simp: word_def list.pred_mono_strong list_all_iff)

lemma clean_word: "word t \<Longrightarrow> clean t"
  using clean_words [of "[t]"] by simp

lemma clean_Nil [simp]: "clean []"
  by (simp add: clean_def)

lemma Join_chars: "c \<in> set (go_Join '' '' ts) \<Longrightarrow> list_all token ts \<Longrightarrow> c = CHR '' '' \<or> \<not> go_isspace c"
  by (induction ts rule: induct_list012) (auto simp: token_def)

lemma clean_chars: "clean v \<Longrightarrow> c \<in> set v \<Longrightarrow> c = CHR '' '' \<or> \<not> go_isspace c"
proof -
  assume a: "clean v" "c \<in> set v"
  have "list_all token (go_Fields v)" using go_Fields_tokens by (auto simp: list_all_iff)
  with a Join_chars [of c "go_Fields v"] show ?thesis by (simp add: clean_def)
qed

lemma isspace_eols [simp]: "go_isspace (CHR 0x0A)" "go_isspace (CHR 0x0D)" "go_isspace (CHR 0x09)" "go_isspace (CHR '' '')" "\<not> go_isspace (CHR ''#'')"
  by (simp_all add: go_isspace_def)

lemma plain_clean: "clean v \<Longrightarrow> plain_text v"
proof -
  assume a: "clean v"
  have "CHR 0x0A \<notin> set v" using clean_chars [OF a, of "CHR 0x0A"] by auto
  moreover have "last v \<noteq> CHR 0x0D" if "v \<noteq> []" using clean_chars [OF a last_in_set [OF that]] by auto
  ultimately show ?thesis using a by (auto simp: plain_text_def clean_def)
qed

lemma plain_append: "CHR 0x0A \<notin> set a \<Longrightarrow> plain_text b \<Longrightarrow> b \<noteq> [] \<Longrightarrow> plain_text (a @ b)"
  by (auto simp: plain_text_def)


section \<open>Written lines\<close>

definition eol :: "string \<Rightarrow> bool" where
  "eol nl \<longleftrightarrow> nl = LF \<or> nl = CRLF"

lemma dominantEOL_eol: "eol (dominantEOL f)"
  by (simp add: eol_def dominantEOL_def Let_def)

lemma one_line_eol: "plain_text t \<Longrightarrow> eol nl \<Longrightarrow> one_line (t @ nl) t"
  by (rule one_line_plain) (simp_all add: eol_def)

text \<open>The names of options the code writes.\<close>

definition option_key :: "string \<Rightarrow> bool" where
  "option_key k \<longleftrightarrow> word k \<and> hd k \<noteq> CHR ''#'' \<and> \<not> (go_HasPrefix k allowPrefix \<and> length k > length allowPrefix) \<and>
     k \<notin> set [kwAuto, kwNoAutoDown, kwNoScripts, kwRename, kwSource, kwSourceDirectory, kwMapping, kwIface]"

lemma option_keys:
  "list_all option_key [''address'', ''gateway'', ''mtu'', ''bond-slaves'', ''bond-mode'', ''bond-miimon'', ''bond-lacp-rate'',
     ''bond-xmit-hash-policy'', ''ovs_bonds'', ''ovs_type'', ''ovs_bridge'', ''ovs_options'', ''ovs_ports'', ''bridge-ports'',
     ''bridge-vlan-aware'', ''bridge-vids'', ''bridge-stp'', ''bridge-fd'', ''vlan-raw-device'', ''post-up'', ''post-down'']"
  by code_simp

lemmas option_keys' [simp] = option_keys [simplified]

lemma key_line: "option_key k \<Longrightarrow> go_Fields (TAB @ k @ '' '' @ v) = k # go_Fields v"
proof -
  assume k: "option_key k"
  have "go_Fields ((TAB @ k) @ CHR '' '' # v) = go_Fields (TAB @ k) @ go_Fields v" by (rule go_Fields_space) simp
  moreover have "go_Fields (TAB @ k) = [k]" using go_Fields_Cons [of "CHR 0x09" k] k by (simp add: option_key_def word_def go_Fields_token)
  ultimately show ?thesis by simp
qed

lemma option_ok:
  assumes "option_key k" "clean v" "eol nl" shows "item_ok (optionItem k v nl)"
proof -
  let ?tx = "TAB @ k @ '' '' @ v"
  have "\<forall>c\<in>set k. \<not> go_isspace c" using assms(1) by (simp add: option_key_def word_def token_def)
  then have lf: "CHR 0x0A \<notin> set (TAB @ k)" by auto
  have "plain_text ?tx"
  proof (cases "v = []")
    case True
    with lf plain_append [of "TAB @ k" "'' ''"] show ?thesis by (simp add: plain_text_def)
  next
    case False
    with lf plain_append [of "TAB @ k @ '' ''" v] plain_clean [OF assms(2)] show ?thesis by simp
  qed
  then have o: "one_line (bi_Raw (optionItem k v nl)) ?tx" using one_line_eol [OF _ assms(3), of ?tx] by (simp add: optionItem_def)
  have f: "go_Fields ?tx = k # go_Fields v" by (rule key_line [OF assms(1)])
  have h: "line_head ?tx (bi_Raw (optionItem k v nl)) = None"
    unfolding line_head_def f list.case using assms(1) by (simp add: option_key_def)
  show ?thesis
    by (rule item_okI [OF o h]) (use assms in \<open>simp_all only: f option_of_def optionItem_def list.sel, simp_all add: option_key_def clean_def\<close>)
qed

lemma comment_ok:
  assumes "plain_text tx" "eol nl" shows "item_ok (comment_item tx nl)"
proof -
  have "plain_text (TAB @ ''#'' @ tx)"
    using assms(1) plain_append [of TAB "''#'' @ tx"] plain_append [of "''#''" tx] by (cases "tx = []") (auto simp: plain_text_def)
  then have o: "one_line (TAB @ ''#'' @ tx @ nl) (TAB @ ''#'' @ tx)" using one_line_eol [OF _ assms(2), of "TAB @ ''#'' @ tx"] by simp
  obtain t ts where "go_Fields (CHR ''#'' # tx) = (CHR ''#'' # t) # ts" using go_Fields_head [of "CHR ''#''" tx] by auto
  then have "go_Fields (TAB @ ''#'' @ tx) = (CHR ''#'' # t) # ts" using go_Fields_Cons [of "CHR 0x09" "CHR ''#'' # tx"] by simp
  then show ?thesis unfolding comment_item_def by (intro item_ok_filler(2) [OF o]) simp_all
qed

lemma managed_ok:
  assumes "CHR 0x0A \<notin> set changesetID" "eol nl" shows "item_ok (managedByComment changesetID nl)"
proof -
  have "managedByComment changesetID nl = comment_item ('' managed by vnprox (changeset '' @ changesetID @ '')'') nl"
    by (simp add: managedByComment_def comment_item_def)
  moreover have "plain_text ('' managed by vnprox (changeset '' @ changesetID @ '')'')" using assms(1) by (simp add: plain_text_def)
  ultimately show ?thesis using comment_ok [OF _ assms(2)] by simp
qed

lemma words_line:
  assumes "list_all token ts" "ts \<noteq> []" "word (last ts)" "eol nl"
  shows "one_line (go_Join '' '' ts @ nl) (go_Join '' '' ts)" "go_Fields (go_Join '' '' ts) = ts"
proof -
  have "clean (go_Join '' '' ts)" using assms by (intro clean_Join) (simp_all add: word_def)
  then show "one_line (go_Join '' '' ts @ nl) (go_Join '' '' ts)" using one_line_eol plain_clean assms(4) by blast
  show "go_Fields (go_Join '' '' ts) = ts" by (rule go_Fields_Join [OF assms(1)])
qed

lemma token_simps [simp]: "token (x # xs) \<longleftrightarrow> \<not> go_isspace x \<and> (\<forall>c\<in>set xs. \<not> go_isspace c)"
  by (simp add: token_def)

lemma blank_ok: "eol nl \<Longrightarrow> head_ok (zero_Entry KindBlank nl)"
  using one_line_eol [of "[]" nl] by (intro head_okI [of _ "[]"]) (simp_all add: line_head_def plain_text_def)

lemma newIface_ok:
  assumes "word name" "eol nl" "m = ''manual'' \<or> m = ''static''"
  shows "head_ok (newIfaceEntry name ''inet'' m nl)"
proof -
  let ?ts = "[''iface'', name, ''inet'', m]"
  have t: "list_all token ?ts" "word (last ?ts)" using assms by (auto simp: word_def go_isspace_def)
  note l = words_line [OF t(1) _ t(2) assms(2), simplified]
  let ?e = "newIfaceEntry name ''inet'' m nl"
  have raw: "en_Raw ?e = go_Join '' '' ?ts @ nl" by (simp add: newIfaceEntry_def)
  show ?thesis
  proof (rule head_okI)
    show "one_line (en_Raw ?e) (go_Join '' '' ?ts)" using l(1) raw by simp
    show "line_head (go_Join '' '' ?ts) (en_Raw ?e) = Some ?e"
      unfolding line_head_def words_line(2) [OF t(1) _ t(2) assms(2), simplified] using l(2)
      by (simp add: newIfaceEntry_def go_HasPrefix_def zero_Entry_def)
  qed
qed


lemma autoPrefix_ok:
  assumes "word name" "eol nl" shows "head_ok (autoPrefixEntry name nl)"
proof -
  have t: "list_all token [''auto'', name]" "word (last [''auto'', name])" using assms by (auto simp: word_def go_isspace_def)
  note l = words_line [OF t(1) _ t(2) assms(2), simplified]
  show ?thesis
    using l by (intro head_okI [of _ "''auto '' @ name"]) (simp_all add: autoPrefixEntry_def line_head_def)
qed

lemma allowPrefix_ok:
  assumes "word name" "token cls" "eol nl" shows "head_ok (allowPrefixEntry cls name nl)"
proof -
  have t: "list_all token [''allow-'' @ cls, name]" "word (last [''allow-'' @ cls, name])"
    using assms by (auto simp: word_def go_isspace_def token_def)
  note l = words_line [OF t(1) _ t(2) assms(3), simplified]
  show ?thesis
    using l assms(2)
    by (intro head_okI [of _ "''allow-'' @ cls @ '' '' @ name"]) (simp_all add: allowPrefixEntry_def line_head_def go_HasPrefix_def token_def)
qed


section \<open>Good files\<close>

text \<open>A good file is well-formed, and no name of an \<^verbatim>\<open>auto\<close> line and no port of a bridge ends in a backslash.\<close>

definition port_key :: "string \<Rightarrow> bool" where
  "port_key k \<longleftrightarrow> k = ''bridge-ports'' \<or> k = ''ovs_ports''"

definition plain_item :: "BodyItem \<Rightarrow> bool" where
  "plain_item item \<longleftrightarrow> (bi_Kind item = BodyOption \<and> port_key (bi_Key item) \<longrightarrow> list_all (\<lambda>t. last t \<noteq> CHR 0x5C) (go_Fields (bi_Value item)))"

definition plain_entry :: "Entry \<Rightarrow> bool" where
  "plain_entry e \<longleftrightarrow> (list_kind (en_Kind e) \<longrightarrow> list_all (\<lambda>t. last t \<noteq> CHR 0x5C) (en_Ifaces e)) \<and> list_all plain_item (en_Body e)"

definition good_item :: "BodyItem \<Rightarrow> bool" where
  "good_item item \<longleftrightarrow> item_ok item \<and> plain_item item"

definition good_entry :: "Entry \<Rightarrow> bool" where
  "good_entry e \<longleftrightarrow> entry_ok e \<and> plain_entry e"

lemma good_entry_body: "good_entry e \<Longrightarrow> list_all good_item (en_Body e)"
  by (auto simp: good_entry_def good_item_def entry_ok_def plain_entry_def list_all_iff)

lemma good_entry_update:
  "good_entry e \<Longrightarrow> stanza_kind (en_Kind e) \<Longrightarrow> list_all good_item body \<Longrightarrow> good_entry (e\<lparr>en_Body := body\<rparr>)"
  by (auto simp: good_entry_def good_item_def entry_ok_def plain_entry_def list_all_iff)

lemma good_head: "head_ok e \<Longrightarrow> en_Body e = [] \<Longrightarrow> (list_kind (en_Kind e) \<Longrightarrow> list_all (\<lambda>t. last t \<noteq> CHR 0x5C) (en_Ifaces e)) \<Longrightarrow> good_entry e"
proof -
  assume a: "head_ok e" "en_Body e = []" "list_kind (en_Kind e) \<Longrightarrow> list_all (\<lambda>t. last t \<noteq> CHR 0x5C) (en_Ifaces e)"
  have eq: "e\<lparr>en_Body := []\<rparr> = e" using a(2) by simp
  have "head_ok (e\<lparr>en_Body := []\<rparr>)" by (subst eq) (rule a(1))
  with a(2,3) show ?thesis by (simp add: good_entry_def entry_ok_def plain_entry_def)
qed

lemma good_stanza:
  "head_ok e \<Longrightarrow> en_Kind e = KindIface \<Longrightarrow> en_Body e = [] \<Longrightarrow> list_all good_item body \<Longrightarrow> good_entry (e\<lparr>en_Body := body\<rparr>)"
  by (rule good_entry_update, rule good_head) (simp_all add: stanza_kind_def list_kind_def)

text \<open>What is known of an item or of a list line from its source.\<close>

lemma item_ok_line:
  assumes "item_ok item" "bi_Kind item = BodyOption"
  shows "\<exists>tx. one_line (bi_Raw item) tx \<and> line_head tx (bi_Raw item) = None \<and> hd (go_Fields tx) \<noteq> kwIface
     \<and> item = option_of (go_Fields tx) (bi_Raw item)"
proof -
  obtain tx where tx: "one_line (bi_Raw item) tx"
    "\<And>n f e. parse_line \<lparr> ll_Text = tx, ll_Raw = bi_Raw item, ll_Start = n \<rparr> (f, Some e) = Inr (f, Some (add_item item e))"
    using assms(1) unfolding item_ok_def by blast
  note p = tx(2) [of 0 "[]" "zero_Entry KindIface []", unfolded parse_line_eq]
  have inj: "add_item i e = add_item j e \<Longrightarrow> i = j" for i j e by (auto simp: add_item_def dest: arg_cong [where f = en_Body])
  show ?thesis
  proof (cases "line_head tx (bi_Raw item)")
    case None
    with p have "hd (go_Fields tx) \<noteq> kwIface" "item = option_of (go_Fields tx) (bi_Raw item)" by (auto split: if_splits dest: inj)
    with tx(1) None show ?thesis by blast
  next
    case (Some x)
    with p have pl: "place x ([], Some (zero_Entry KindIface [])) = ([], Some (add_item item (zero_Entry KindIface [])))" by simp
    have "filler x" using pl by (cases "stanza_kind (en_Kind x)") (auto simp: place_def closeOpen_def split: if_splits)
    then have False using pl assms(2) by (auto simp: place_def dest!: inj split: if_splits)
    then show ?thesis ..
  qed
qed

lemma item_ok_option:
  assumes "item_ok item" "bi_Kind item = BodyOption"
  shows "\<exists>toks. list_all token toks \<and> bi_Value item = go_Join '' '' toks"
proof -
  obtain tx where "item = option_of (go_Fields tx) (bi_Raw item)" using item_ok_line [OF assms] by blast
  then have "bi_Value item = go_Join '' '' (tl (go_Fields tx))" by (metis BodyItem.select_convs(3) option_of_def)
  moreover have "\<forall>t\<in>set (go_Fields tx). token t" using go_Fields_tokens by blast
  then have "list_all token (tl (go_Fields tx))" by (cases "go_Fields tx") (auto simp: list_all_iff simp del: token_simps)
  ultimately show ?thesis by blast
qed

lemma head_ok_list:
  assumes "head_ok e" "list_kind (en_Kind e)"
  shows "\<exists>tx. line_head tx (en_Raw e) = Some e"
proof -
  obtain tx where "\<forall>n st. parse_line \<lparr> ll_Text = tx, ll_Raw = en_Raw e, ll_Start = n \<rparr> st = Inr (place e st)"
    using assms(1) unfolding head_ok_def by blast
  then have p: "parse_line \<lparr> ll_Text = tx, ll_Raw = en_Raw e, ll_Start = 0 \<rparr> ([], None) = Inr (place e ([], None))" by blast
  have "place e ([], None) = ([e], None)" using assms(2) by (auto simp: list_kind_def place_def filler_def stanza_kind_def closeOpen_def)
  then show ?thesis using p
    by (auto simp: parse_line_eq place_def closeOpen_def split: option.splits if_splits)
qed

lemma line_head_list_args:
  assumes "line_head tx raw = Some e" "list_kind (en_Kind e)"
  shows "\<exists>kw args. go_Fields tx = kw # args \<and> en_Ifaces e = args \<and> (en_Kind e = KindAllow \<longrightarrow> en_Class e = drop (length allowPrefix) kw \<and> length allowPrefix < length kw)"
  using assms by (auto simp: line_head_def list_kind_def zero_Entry_def split: list.splits if_splits)

lemma line_head_list:
  assumes "line_head tx raw = Some e" "list_kind (en_Kind e)"
  shows "list_all token (en_Ifaces e) \<and> (en_Kind e = KindAllow \<longrightarrow> token (en_Class e))"
proof -
  obtain kw args where k: "go_Fields tx = kw # args" "en_Ifaces e = args" "en_Kind e = KindAllow \<longrightarrow> en_Class e = drop (length allowPrefix) kw \<and> length allowPrefix < length kw"
    using line_head_list_args [OF assms] by blast
  have t: "\<forall>t\<in>set (kw # args). token t" using go_Fields_tokens k(1) by metis
  then have "length allowPrefix < length kw \<Longrightarrow> token (drop (length allowPrefix) kw)" unfolding token_def by (auto dest: in_set_dropD)
  with t k(2,3) show ?thesis by (auto simp: list_all_iff)
qed


section \<open>Editing a body\<close>

abbreviation "good_body \<equiv> list_all good_item"

lemma good_raw: "good_item item \<Longrightarrow> terminate nl item = item"
  by (auto simp: good_item_def item_ok_def one_line_def terminate_def)

lemma good_insert:
  assumes "good_body body" "good_body items" shows "good_body (insertBeforeTrailingBlanks body items nl)"
proof -
  let ?P = "\<lambda>item. bi_Kind item = BodyBlank"
  have s: "set (rev (takeWhile ?P (rev body))) \<subseteq> set body" "set (rev (dropWhile ?P (rev body))) \<subseteq> set body"
    using set_takeWhileD [of _ ?P "rev body"] set_dropWhileD [of _ ?P "rev body"] by auto
  let ?front = "rev (dropWhile ?P (rev body))"
  have g: "good_body ?front" using s(2) assms(1) by (auto simp: list_all_iff)
  have "butlast ?front @ [terminate nl (last ?front)] = ?front" if "?front \<noteq> []"
  proof -
    have "good_item (last ?front)" using g that last_in_set [OF that] by (auto simp: list_all_iff)
    then show ?thesis using append_butlast_last_id [OF that] by (simp only: good_raw)
  qed
  then have "(if items \<noteq> [] \<and> ?front \<noteq> [] then butlast ?front @ [terminate nl (last ?front)] else ?front) = ?front"
    by (split if_split) blast
  then have "insertBeforeTrailingBlanks body items nl = ?front @ items @ rev (takeWhile ?P (rev body))"
    unfolding insertBeforeTrailingBlanks_def Let_def by (simp only:)
  with g s(1) assms show ?thesis by (auto simp: list_all_iff)
qed

definition good_value :: "string \<Rightarrow> string \<Rightarrow> bool" where
  "good_value k v \<longleftrightarrow> option_key k \<and> clean v \<and> (port_key k \<longrightarrow> list_all (\<lambda>t. last t \<noteq> CHR 0x5C) (go_Fields v))"

lemma good_option: "good_value k v \<Longrightarrow> eol nl \<Longrightarrow> good_item (optionItem k v nl)"
  using option_ok by (auto simp: good_item_def plain_item_def good_value_def) (auto simp: optionItem_def)

lemma good_comment: "plain_text tx \<Longrightarrow> eol nl \<Longrightarrow> good_item (comment_item tx nl)"
  using comment_ok [of tx nl] by (simp add: good_item_def plain_item_def) (simp add: comment_item_def)

lemma good_managed: "CHR 0x0A \<notin> set cs \<Longrightarrow> eol nl \<Longrightarrow> good_item (managedByComment cs nl)"
  using managed_ok [of cs nl] by (simp add: good_item_def plain_item_def) (simp add: managedByComment_def)

lemma good_replace: "good_body body \<Longrightarrow> good_body items \<Longrightarrow> good_body (fst (replace_options k items b body))"
proof (induction body arbitrary: b)
  case (Cons item body)
  then show ?case by (simp add: Let_def case_prod_beta)
qed simp

lemma good_setOptionList:
  assumes "good_body body" "\<forall>v\<in>set vs. good_value k v" "eol nl" shows "good_body (setOptionList body k vs nl)"
proof -
  have i: "good_body (map (\<lambda>v. optionItem k v nl) vs)" using assms good_option by (auto simp: list_all_iff)
  show ?thesis
    using good_replace [OF assms(1) i, of k False] good_insert i
    by (auto simp: setOptionList_def Let_def split: prod.splits)
qed

lemma good_remove: "good_body body \<Longrightarrow> good_body (removeOptionKey body k)"
  by (auto simp: removeOptionKey_def list_all_iff)

lemma good_setOption: "good_body body \<Longrightarrow> good_value k v \<Longrightarrow> eol nl \<Longrightarrow> good_body (setOption body k v nl)"
  by (simp add: setOption_def good_remove good_setOptionList)

lemma good_set_when: "good_body body \<Longrightarrow> (b \<Longrightarrow> good_value k v) \<Longrightarrow> eol nl \<Longrightarrow> good_body (set_when b k v nl body)"
  by (simp add: set_when_def good_setOption)

lemma good_opt_line: "(b \<Longrightarrow> good_value k v) \<Longrightarrow> eol nl \<Longrightarrow> good_body (opt_line b k v nl)"
  by (simp add: opt_line_def good_option)

lemma good_comment_line: "plain_text tx \<Longrightarrow> eol nl \<Longrightarrow> good_body (comment_line tx nl)"
  by (simp add: comment_line_def good_comment)

lemma good_setComment: "good_body body \<Longrightarrow> plain_text tx \<Longrightarrow> eol nl \<Longrightarrow> good_body (setCommentLine body tx nl)"
proof -
  assume a: "good_body body" "plain_text tx" "eol nl"
  have "good_body (body[i := comment_item tx nl])" for i
    using a good_comment set_update_subset_insert [of body i "comment_item tx nl"] by (auto simp: list_all_iff)
  moreover have "good_body (take i body @ drop (i + 1) body)" for i
    using a(1) by (auto simp: list_all_iff dest: in_set_takeD in_set_dropD)
  ultimately show ?thesis
    using a good_insert good_comment by (auto simp: setCommentLine_def split: option.splits)
qed

lemma good_set_comments: "good_body body \<Longrightarrow> (\<And>tx. c = Some tx \<Longrightarrow> plain_text tx) \<Longrightarrow> eol nl \<Longrightarrow> good_body (set_comments c nl body)"
  by (auto simp: set_comments_def good_setComment split: option.splits)

end
