(* ===== verification/Ifaces_Rename.thy ===== *)
theory Ifaces_Rename
  imports Ifaces_Written
begin

text \<open>
  What a rename does to the source of the lines it touches (\<open>replaceWholeToken\<close>): on a line that is not continued it
  renames exactly the fields that are the name. So a rename keeps a file good when the lines that have the name are not
  continued and the name stands on them only where it is meant.
\<close>

section \<open>Replacing a token\<close>

lemma replace_Nil [simp]: "replace_from b old n [] = []"
  by (simp add: replace_from.simps)

lemma replace_here:
  assumes "old \<noteq> []" "go_HasPrefix s old"
  shows "replace_from b old n s =
    (let rest = drop (length old) s
     in (if b \<and> (rest = [] \<or> isTokenBoundary (hd rest)) then n else old) @ replace_from (isTokenBoundary (last old)) old n rest)"
proof -
  obtain x xs where s: "s = x # xs" using assms by (cases s) (auto simp: go_HasPrefix_def)
  then have "go_Index s old = Some 0" using assms(2) by simp
  then show ?thesis using assms(1) s by (simp add: replace_from.simps [of b] Let_def)
qed

lemma replace_skip:
  assumes "old \<noteq> []" "\<not> go_HasPrefix (x # xs) old"
  shows "replace_from b old n (x # xs) = x # replace_from (isTokenBoundary x) old n xs"
proof (cases "go_Index xs old")
  case None
  then show ?thesis using assms by (simp add: replace_from.simps [of b] replace_from.simps [of "isTokenBoundary x"])
next
  case (Some j)
  then have "xs \<noteq> []" using assms(1) by auto
  with Some assms show ?thesis
    by (simp add: replace_from.simps [of b] replace_from.simps [of "isTokenBoundary x"] Let_def nth_Cons')
qed

lemma boundary_space: "isTokenBoundary c \<Longrightarrow> go_isspace c"
  by (auto simp: isTokenBoundary_def go_isspace_def)

abbreviation run :: "string \<Rightarrow> bool" where
  "run t \<equiv> \<forall>c\<in>set t. \<not> go_isspace c"

lemma prefix_run:
  assumes "go_HasPrefix (t @ c # s) old" "run old" "go_isspace c"
  shows "\<exists>u. t = old @ u"
proof -
  obtain a where a: "t @ c # s = old @ a" using assms(1) by (auto simp: go_HasPrefix_iff)
  then obtain u where u: "t = old @ u \<or> old = t @ u \<and> c # s = u @ a"
    by (auto simp: append_eq_append_conv2)
  moreover have "c \<in> set old" if "old = t @ u" "u \<noteq> []" "c # s = u @ a"
    using that by (cases u) auto
  ultimately show ?thesis using assms(2,3) by (cases "u = []") auto
qed

text \<open>The text is read run by run: a run is replaced when it is the name and begins at a boundary.\<close>

lemma replace_run:
  assumes "token old" "run t" "isTokenBoundary c"
  shows "replace_from b old n (t @ c # s) = (if b \<and> t = old then n else t) @ c # replace_from True old n s"
  using assms(2)
proof (induction "length t" arbitrary: t b rule: less_induct)
  case less
  have o: "old \<noteq> []" "run old" using assms(1) by (simp_all add: token_def)
  then have lo: "\<not> isTokenBoundary (last old)" using boundary_space last_in_set by blast
  show ?case
  proof (cases "go_HasPrefix (t @ c # s) old")
    case True
    then obtain u where u: "t = old @ u" using prefix_run [OF True o(2) boundary_space [OF assms(3)]] by blast
    have "length u < length t" "run u" using u o(1) less.prems by auto
    with less.hyps have r: "replace_from False old n (u @ c # s) = u @ c # replace_from True old n s" by simp
    have h: "u @ c # s = [] \<or> isTokenBoundary (hd (u @ c # s)) \<longleftrightarrow> u = []"
      using u less.prems assms(3) boundary_space by (cases u) auto
    show ?thesis using replace_here [OF o(1) True, of b n] lo r h by (auto simp: u Let_def)
  next
    case False
    show ?thesis
    proof (cases t)
      case Nil
      with False show ?thesis using replace_skip [OF o(1), of c s] o(1) assms(3) by simp
    next
      case (Cons x u)
      have "t \<noteq> old" using False by (auto simp: go_HasPrefix_iff)
      moreover have "\<not> isTokenBoundary x" using less.prems Cons boundary_space by auto
      moreover have "replace_from False old n (u @ c # s) = u @ c # replace_from True old n s"
        using less.hyps [of u False] less.prems Cons by simp
      ultimately show ?thesis using replace_skip [OF o(1), of x "u @ c # s"] False Cons by simp
    qed
  qed
qed


section \<open>Texts that end at a boundary\<close>

inductive runs :: "string \<Rightarrow> bool" where
  runs_Nil: "runs []"
| runs_Cons: "run t \<Longrightarrow> isTokenBoundary c \<Longrightarrow> runs s \<Longrightarrow> runs (t @ c # s)"

definition plain_spaces :: "string \<Rightarrow> bool" where
  "plain_spaces s \<longleftrightarrow> (\<forall>c\<in>set s. go_isspace c \<longrightarrow> isTokenBoundary c)"

lemma plain_spaces_append [simp]: "plain_spaces (a @ b) \<longleftrightarrow> plain_spaces a \<and> plain_spaces b"
  by (auto simp: plain_spaces_def)

lemma runs_step: "run [x] \<Longrightarrow> runs s \<Longrightarrow> s \<noteq> [] \<Longrightarrow> runs (x # s)"
proof -
  assume a: "run [x]" "runs s" "s \<noteq> []"
  from a(2,3) obtain t c s' where s: "s = t @ c # s'" "run t" "isTokenBoundary c" "runs s'" by (cases rule: runs.cases) auto
  have "runs ((x # t) @ c # s')" using a(1) s(2-4) by (intro runs_Cons) auto
  then show ?thesis by (simp add: s(1))
qed

lemma runs_closed: "plain_spaces s \<Longrightarrow> s = [] \<or> go_isspace (last s) \<Longrightarrow> runs s"
proof (induction s)
  case (Cons x s)
  show ?case
  proof (cases "go_isspace x")
    case True
    have "s = [] \<or> go_isspace (last s)" using Cons.prems(2) by (cases "s = []") auto
    then have "isTokenBoundary x" "runs s" using Cons True by (auto simp: plain_spaces_def)
    then show ?thesis using runs_Cons [of "[]" x s] by simp
  next
    case False
    then have "s \<noteq> []" using Cons.prems by auto
    with False Cons show ?thesis by (intro runs_step) (auto simp: plain_spaces_def)
  qed
qed (rule runs_Nil)

definition renamed :: "string \<Rightarrow> string \<Rightarrow> string \<Rightarrow> string" where
  "renamed old n t = (if t = old then n else t)"

lemma rep_run: "token old \<Longrightarrow> run t \<Longrightarrow> isTokenBoundary c \<Longrightarrow>
    replace_from True old n (t @ c # s) = renamed old n t @ c # replace_from True old n s"
  by (simp only: replace_run renamed_def simp_thms)

lemma rep_append: "runs a \<Longrightarrow> token old \<Longrightarrow> replace_from True old n (a @ s) = replace_from True old n a @ replace_from True old n s"
  by (induction rule: runs.induct) (simp_all only: rep_run append_assoc append_Cons append_Nil replace_Nil)

lemma rep_last: "runs a \<Longrightarrow> token old \<Longrightarrow> a \<noteq> [] \<Longrightarrow> replace_from True old n a \<noteq> [] \<and> last (replace_from True old n a) = last a"
proof (induction rule: runs.induct)
  case (runs_Cons t c s)
  then show ?case by (cases "s = []") (simp_all add: rep_run)
qed simp

lemma rep_chars: "runs a \<Longrightarrow> token old \<Longrightarrow> c \<in> set (replace_from True old n a) \<Longrightarrow> c \<in> set a \<or> c \<in> set n"
proof (induction rule: runs.induct)
  case (runs_Cons t d s)
  then show ?case by (auto simp: rep_run renamed_def split: if_splits)
qed simp

lemma run_Fields: "run t \<Longrightarrow> token old \<Longrightarrow> token n \<Longrightarrow> go_Fields (renamed old n t) = map (renamed old n) (go_Fields t)"
  by (cases "t = []") (auto simp: token_def go_Fields_token renamed_def)

lemma rep_Fields:
  "runs a \<Longrightarrow> token old \<Longrightarrow> token n \<Longrightarrow> go_Fields (replace_from True old n a) = map (renamed old n) (go_Fields a)"
proof (induction rule: runs.induct)
  case (runs_Cons t c s)
  then show ?case by (simp add: rep_run go_Fields_space boundary_space run_Fields)
qed simp


section \<open>Lines\<close>

text \<open>A line that is not continued, with no white space but blanks, tabs and its line end.\<close>

definition single_line :: "string \<Rightarrow> bool" where
  "single_line raw \<longleftrightarrow> plain_text (line_content raw) \<and> plain_spaces raw"

lemma one_line_unique: "one_line raw tx \<Longrightarrow> one_line raw ty \<Longrightarrow> tx = ty"
proof -
  assume a: "one_line raw tx" "one_line raw ty"
  obtain k where "logical_line 0 [] [] (raw @ []) = Inr (tx, raw, k, [])" using a(1) unfolding one_line_def by blast
  moreover obtain k' where "logical_line 0 [] [] (raw @ []) = Inr (ty, raw, k', [])" using a(2) unfolding one_line_def by blast
  ultimately show "tx = ty" by simp
qed

lemma line_shape:
  assumes "one_line raw tx" "plain_text (line_content raw)"
  shows "\<exists>nl. eol nl \<and> raw = tx @ nl \<and> plain_text tx"
proof -
  obtain p where p: "raw = p @ LF" using assms(1) by (auto simp: one_line_def go_HasSuffix_iff)
  have "\<exists>nl. eol nl \<and> raw = line_content raw @ nl"
  proof (cases "go_HasSuffix p [CHR 0x0D]")
    case True
    then obtain q where "p = q @ [CHR 0x0D]" by (auto simp: go_HasSuffix_iff)
    then have "raw = line_content raw @ CRLF"
      using p go_TrimSuffix_append [of p LF] go_TrimSuffix_append [of q "[CHR 0x0D]"] by (simp add: line_content_def)
    then show ?thesis by (auto simp: eol_def)
  next
    case False
    then have "raw = line_content raw @ LF" using p go_TrimSuffix_append [of p LF] by (simp add: line_content_def go_TrimSuffix_other)
    then show ?thesis by (auto simp: eol_def)
  qed
  then obtain nl where nl: "eol nl" "raw = line_content raw @ nl" by blast
  then have "one_line raw (line_content raw)" using one_line_eol [OF assms(2) nl(1)] by simp
  with one_line_unique [OF assms(1)] have "tx = line_content raw" by blast
  with nl assms(2) show ?thesis by auto
qed

lemma Fields_append: "a = [] \<or> go_isspace (last a) \<Longrightarrow> go_Fields (a @ t) = go_Fields a @ go_Fields t"
proof (cases a rule: rev_cases)
  case (snoc b c)
  moreover assume "a = [] \<or> go_isspace (last a)"
  ultimately have "go_isspace c" by simp
  with snoc show ?thesis using go_Fields_space [of c b t] go_Fields_space [of c b "[]"] by simp
qed simp

lemma last_run: "\<exists>a t. tx = a @ t \<and> run t \<and> (a = [] \<or> go_isspace (last a))"
proof -
  let ?P = "\<lambda>c. \<not> go_isspace c"
  have tx: "tx = rev (dropWhile ?P (rev tx)) @ rev (takeWhile ?P (rev tx))"
    by (metis rev_append rev_rev_ident takeWhile_dropWhile_id)
  have "dropWhile ?P (rev tx) = [] \<or> go_isspace (hd (dropWhile ?P (rev tx)))"
    using hd_dropWhile by blast
  then have "rev (dropWhile ?P (rev tx)) = [] \<or> go_isspace (last (rev (dropWhile ?P (rev tx))))"
    by (auto simp: last_rev)
  moreover have "run (rev (takeWhile ?P (rev tx)))" using set_takeWhileD by fastforce
  ultimately show ?thesis using tx by blast
qed

lemma replaced_line:
  assumes "one_line raw tx" "single_line raw" "token old" "word n"
  shows "\<exists>tx'. one_line (replaceWholeToken raw old n) tx' \<and> go_Fields tx' = map (renamed old n) (go_Fields tx)"
proof -
  obtain nl where nl: "eol nl" "raw = tx @ nl" and tx: "plain_text tx"
    using line_shape assms(1,2) by (auto simp: single_line_def)
  obtain a t where at: "tx = a @ t" "run t" "a = [] \<or> go_isspace (last a)" using last_run by blast
  have pl: "plain_text tx" "plain_spaces tx" using tx assms(2) nl(2) by (simp_all add: single_line_def)
  let ?r = "replace_from True old n"
  have ra: "runs a" using runs_closed pl(2) at(1,3) by simp
  have b: "isTokenBoundary (CHR 0x0A)" "isTokenBoundary (CHR 0x0D)" by (simp_all add: isTokenBoundary_def)
  have "?r LF = LF" using rep_run [OF assms(3) _ b(1), of "[]" n "[]"] assms(3) by (auto simp: renamed_def token_def)
  then have "?r (t @ nl) = renamed old n t @ nl"
    using nl(1) rep_run [OF assms(3) at(2) b(1), of n "[]"] rep_run [OF assms(3) at(2) b(2), of n LF] by (auto simp: eol_def)
  then have raw: "replaceWholeToken raw old n = (?r a @ renamed old n t) @ nl"
    using rep_append [OF ra assms(3), of n "t @ nl"] nl(2) at(1) assms(3) by (simp add: replaceWholeToken_def token_def)
  have w: "token n" "last n \<noteq> CHR 0x5C" "CHR 0x0A \<notin> set n" "last n \<noteq> CHR 0x0D"
    using assms(4) isspace_eols(1,2) by (fastforce simp: word_def token_def simp del: isspace_eols dest: last_in_set)+
  have "CHR 0x0A \<notin> set (?r a @ renamed old n t)"
    using rep_chars [OF ra assms(3)] pl(1) at(1) w(3) by (auto simp: plain_text_def renamed_def)
  moreover have "last (?r a @ renamed old n t) \<noteq> CHR 0x0D \<and> last (?r a @ renamed old n t) \<noteq> CHR 0x5C"
    if "?r a @ renamed old n t \<noteq> []"
  proof (cases "t = []")
    case True
    then have "renamed old n t = []" "a \<noteq> []" using that assms(3) by (auto simp: renamed_def token_def)
    with rep_last [OF ra assms(3)] pl(1) at(1) True show ?thesis by (simp add: plain_text_def)
  next
    case False
    then have "last t \<noteq> CHR 0x0D \<and> last t \<noteq> CHR 0x5C" using pl(1) at(1) by (auto simp: plain_text_def)
    with False w show ?thesis by (auto simp: renamed_def token_def)
  qed
  ultimately have "plain_text (?r a @ renamed old n t)" by (auto simp: plain_text_def)
  then have "one_line (replaceWholeToken raw old n) (?r a @ renamed old n t)" unfolding raw using one_line_eol nl(1) by blast
  moreover have "?r a = [] \<or> go_isspace (last (?r a))" using rep_last [OF ra assms(3), of n] at(3) by (cases "a = []") auto
  then have "go_Fields (?r a @ renamed old n t) = map (renamed old n) (go_Fields tx)"
    using Fields_append at rep_Fields [OF ra assms(3) w(1)] run_Fields [OF at(2) assms(3) w(1)] by simp
  ultimately show ?thesis by blast
qed


section \<open>Entries\<close>

text \<open>What is known of a well-formed entry from its source.\<close>

lemma head_ok_line:
  assumes "head_ok e" "\<not> filler e"
  shows "\<exists>tx. one_line (en_Raw e) tx \<and> line_head tx (en_Raw e) = Some e"
proof -
  obtain tx where tx: "one_line (en_Raw e) tx"
    "\<And>n st. parse_line \<lparr> ll_Text = tx, ll_Raw = en_Raw e, ll_Start = n \<rparr> st = Inr (place e st)"
    using assms(1) unfolding head_ok_def by blast
  obtain x where x: "line_head tx (en_Raw e) = Some x" "place x ([], None) = place e ([], None)"
    using tx(2) [of 0 "([], None)"] by (auto simp: parse_line_eq split: option.splits if_splits)
  then have "x = e" using assms(2) by (auto simp: place_def closeOpen_def split: if_splits)
  with tx(1) x(1) show ?thesis by blast
qed

text \<open>The lines a rename touches are not continued, and the name stands on them where it is meant: once on the
  \<^verbatim>\<open>iface\<close> line, and not as the keyword of a line of names.\<close>

definition renames_cleanly :: "string \<Rightarrow> Entry \<Rightarrow> bool" where
  "renames_cleanly old e \<longleftrightarrow>
     (en_Kind e = KindIface \<and> en_Name e = old \<longrightarrow> single_line (en_Raw e) \<and> old \<notin> set (drop 2 (go_Fields (en_Raw e)))) \<and>
     (list_kind (en_Kind e) \<and> old \<in> set (en_Ifaces e) \<longrightarrow> single_line (en_Raw e) \<and> hd (go_Fields (en_Raw e)) \<noteq> old) \<and>
     list_all (\<lambda>item. bi_Kind item = BodyOption \<and> bi_Key item \<in> set referenceKeys \<and> old \<in> set (go_Fields (bi_Value item)) \<longrightarrow>
       single_line (bi_Raw item)) (en_Body e)"

lemma raw_Fields:
  assumes "one_line raw tx" "single_line raw" shows "go_Fields raw = go_Fields tx"
proof -
  obtain nl where "eol nl" "raw = tx @ nl" using line_shape assms by (auto simp: single_line_def)
  then show ?thesis using go_Fields_spaces [of nl tx] by (auto simp: eol_def)
qed

lemma map_renamed_id: "old \<notin> set ts \<Longrightarrow> map (renamed old n) ts = ts"
  by (induction ts) (auto simp: renamed_def)

lemma renamed_plain: "last n \<noteq> CHR 0x5C \<Longrightarrow> list_all (\<lambda>t. last t \<noteq> CHR 0x5C) ts \<Longrightarrow> list_all (\<lambda>t. last t \<noteq> CHR 0x5C) (map (renamed old n) ts)"
  by (auto simp: list_all_iff renamed_def)

lemma line_head_iface:
  assumes "line_head tx raw = Some e" "en_Kind e = KindIface"
  shows "\<exists>args. go_Fields tx = kwIface # args \<and> 3 \<le> length args \<and> e = (zero_Entry KindIface raw)\<lparr>en_Name := args ! 0,
      en_Family := args ! 1, en_Method := args ! 2, en_Inherits := (if length args > 3 \<and> args ! 3 = kwInherits then drop 4 args else [])\<rparr>"
proof -
  obtain kw args where f: "go_Fields tx = kw # args" using assms by (cases "go_Fields tx") (auto simp: line_head_def)
  note h = assms(1) [unfolded line_head_def f list.case]
  have "kw = kwIface \<and> 3 \<le> length args" using h assms(2) by (auto split: if_splits)
  with f h show ?thesis by (auto simp: go_HasPrefix_def)
qed

lemma with_name:
  "e = (zero_Entry k raw)\<lparr>en_Name := a, en_Family := b, en_Method := m, en_Inherits := i\<rparr> \<Longrightarrow>
   e\<lparr>en_Name := n, en_Raw := r\<rparr> = (zero_Entry k r)\<lparr>en_Name := n, en_Family := b, en_Method := m, en_Inherits := i\<rparr>"
  by (simp add: zero_Entry_def)

lemma rename_head_iface:
  assumes e: "head_ok e" "en_Kind e = KindIface" and r: "single_line (en_Raw e)" "en_Name e \<notin> set (drop 2 (go_Fields (en_Raw e)))"
    and w: "word n" "en_Name e \<noteq> kwIface"
  shows "head_ok (e\<lparr>en_Name := n, en_Raw := replaceWholeToken (en_Raw e) (en_Name e) n\<rparr>)"
proof -
  let ?old = "en_Name e"
  obtain tx where tx: "one_line (en_Raw e) tx" "line_head tx (en_Raw e) = Some e"
    using head_ok_line [OF e(1)] e(2) by (auto simp: filler_def)
  obtain args where f: "go_Fields tx = kwIface # args" "3 \<le> length args" "e = (zero_Entry KindIface (en_Raw e))\<lparr>en_Name := args ! 0,
      en_Family := args ! 1, en_Method := args ! 2, en_Inherits := (if length args > 3 \<and> args ! 3 = kwInherits then drop 4 args else [])\<rparr>"
    using line_head_iface [OF tx(2) e(2)] by blast
  have "?old = args ! 0" using arg_cong [OF f(3), of en_Name] by simp
  with f(2) obtain as where as: "args = ?old # as" by (cases args) auto
  have t: "token ?old" using go_Fields_tokens [of ?old tx] f(1) as by simp
  obtain tx' where tx': "one_line (replaceWholeToken (en_Raw e) ?old n) tx'" "go_Fields tx' = map (renamed ?old n) (go_Fields tx)"
    using replaced_line [OF tx(1) r(1) t w(1)] by blast
  have "?old \<notin> set as" using r(2) raw_Fields [OF tx(1) r(1)] f(1) as by simp
  then have "go_Fields tx' = kwIface # n # as" using tx'(2) f(1) as w(2) by (simp add: map_renamed_id renamed_def)
  then have "line_head tx' (replaceWholeToken (en_Raw e) ?old n) = Some (e\<lparr>en_Name := n, en_Raw := replaceWholeToken (en_Raw e) ?old n\<rparr>)"
    using f(2) as by (simp add: with_name [OF f(3)] line_head_def go_HasPrefix_def)
  with tx'(1) show ?thesis by (intro head_okI [of _ tx']) simp_all
qed


lemma line_head_list_again:
  assumes "line_head tx raw = Some e" "list_kind (en_Kind e)" "go_Fields tx = kw # args" "go_Fields tx' = kw # args'"
  shows "line_head tx' raw' = Some (e\<lparr>en_Ifaces := args', en_Raw := raw'\<rparr>)"
proof -
  note h = assms(1) [unfolded line_head_def assms(3) list.case]
  have c: "hd kw \<noteq> CHR ''#''" using h assms(2) by (auto simp: list_kind_def)
  consider "kw = kwAuto" | "kw \<noteq> kwAuto" "go_HasPrefix kw allowPrefix \<and> length kw > length allowPrefix" | "kw = kwNoAutoDown" | "kw = kwNoScripts"
    using h assms(2) c by (auto simp: list_kind_def split: if_splits)
  then show ?thesis
    unfolding line_head_def assms(4) list.case
    by cases (use h c in \<open>auto simp: go_HasPrefix_def zero_Entry_def\<close>)
qed

lemma rename_head_list:
  assumes e: "head_ok e" "list_kind (en_Kind e)" and r: "single_line (en_Raw e)" "hd (go_Fields (en_Raw e)) \<noteq> old"
    and w: "word n" "old \<in> set (en_Ifaces e)"
  shows "head_ok (e\<lparr>en_Ifaces := map (renamed old n) (en_Ifaces e), en_Raw := replaceWholeToken (en_Raw e) old n\<rparr>)"
proof -
  obtain tx where tx: "one_line (en_Raw e) tx" "line_head tx (en_Raw e) = Some e"
    using head_ok_line [OF e(1)] e(2) by (auto simp: filler_def list_kind_def)
  obtain kw where f: "go_Fields tx = kw # en_Ifaces e" using line_head_list_args [OF tx(2) e(2)] by blast
  have t: "token old" using go_Fields_tokens [of old tx] f w(2) by simp
  obtain tx' where tx': "one_line (replaceWholeToken (en_Raw e) old n) tx'" "go_Fields tx' = map (renamed old n) (go_Fields tx)"
    using replaced_line [OF tx(1) r(1) t w(1)] by blast
  have "kw \<noteq> old" using r(2) raw_Fields [OF tx(1) r(1)] f by simp
  then have "go_Fields tx' = kw # map (renamed old n) (en_Ifaces e)" using tx'(2) f by (simp add: renamed_def)
  from line_head_list_again [OF tx(2) e(2) f this] tx'(1) show ?thesis by (intro head_okI [of _ tx']) simp_all
qed

lemma rename_item_good:
  assumes i: "good_item item" and r: "bi_Kind item = BodyOption \<and> bi_Key item \<in> set referenceKeys \<and> old \<in> set (go_Fields (bi_Value item)) \<longrightarrow>
      single_line (bi_Raw item)"
    and w: "word n" "old \<notin> set referenceKeys"
  shows "good_item (rename_item old n item)"
proof (cases "bi_Kind item = BodyOption \<and> bi_Key item \<in> set referenceKeys \<and> old \<in> set (go_Fields (bi_Value item))")
  case True
  have ok: "item_ok item" "plain_item item" using i by (simp_all add: good_item_def)
  obtain tx where tx: "one_line (bi_Raw item) tx" "line_head tx (bi_Raw item) = None" "hd (go_Fields tx) \<noteq> kwIface"
    "item = option_of (go_Fields tx) (bi_Raw item)" using item_ok_line [OF ok(1)] True by blast
  obtain kw args where f: "go_Fields tx = kw # args" using tx(2) by (cases "go_Fields tx") (auto simp: line_head_def)
  have t: "\<And>x. x \<in> set (kw # args) \<Longrightarrow> token x" using go_Fields_tokens [of _ tx] f by simp
  have kv: "bi_Key item = kw" "bi_Value item = go_Join '' '' args"
    using arg_cong [OF tx(4), of bi_Key] arg_cong [OF tx(4), of bi_Value] f by (simp_all add: option_of_def)
  have args: "go_Fields (bi_Value item) = args" using t by (simp add: kv go_Fields_Join list_all_iff)
  have o: "token old" "old \<noteq> kw" using t args True kv(1) w(2) by auto
  let ?raw = "replaceWholeToken (bi_Raw item) old n" and ?args = "map (renamed old n) args"
  obtain tx' where tx': "one_line ?raw tx'" "go_Fields tx' = map (renamed old n) (go_Fields tx)"
    using replaced_line [OF tx(1) _ o(1) w(1)] r True by blast
  then have f': "go_Fields tx' = kw # ?args" using f o(2) by (simp add: renamed_def)
  have eq: "rename_item old n item = item\<lparr>bi_Value := go_Join '' '' ?args, bi_Raw := ?raw\<rparr>"
    using True args by (simp add: rename_item_def replaceValueToken_def Let_def renamed_def [abs_def])
  have "item\<lparr>bi_Value := go_Join '' '' ?args, bi_Raw := ?raw\<rparr> = option_of (go_Fields tx') ?raw"
    using tx(4) f' kv(1) True by (cases item) (simp add: option_of_def)
  moreover have raw: "bi_Raw (option_of ts r) = r" for ts r by (simp add: option_of_def)
  moreover have "line_head tx' ?raw = None" using tx(2,3) f f' by (auto simp: line_head_def split: if_splits)
  ultimately have "item_ok (rename_item old n item)" unfolding eq using tx'(1) tx(3) f f' by (intro item_okI [of _ tx']) (simp_all add: raw)
  moreover have "token n" "last n \<noteq> CHR 0x5C" using w(1) by (simp_all add: word_def)
  then have "list_all token ?args" using t by (auto simp: list_all_iff renamed_def)
  then have "plain_item (rename_item old n item)"
    using ok(2) args renamed_plain \<open>last n \<noteq> CHR 0x5C\<close> by (simp add: eq plain_item_def go_Fields_Join)
  ultimately show ?thesis by (simp add: good_item_def)
next
  case False
  then have "rename_item old n item = item" by (auto simp: rename_item_def replaceValueToken_def Let_def)
  with i show ?thesis by simp
qed

lemma rename_entry_good:
  assumes e: "good_entry e" and r: "renames_cleanly old e" and w: "word n" "old \<notin> set (kwIface # referenceKeys)"
  shows "good_entry (rename_entry old n e)"
proof -
  have n: "last n \<noteq> CHR 0x5C" using w(1) by (simp add: word_def)
  have body: "list_all good_item (map (rename_item old n) (en_Body e))"
    using good_entry_body [OF e] r rename_item_good [OF _ _ w(1)] w(2) by (auto simp: renames_cleanly_def list_all_iff)
  consider (iface) "en_Kind e = KindIface" | (names) "list_kind (en_Kind e)" "old \<in> set (en_Ifaces e)"
    | (other) "en_Kind e \<noteq> KindIface" "\<not> (list_kind (en_Kind e) \<and> old \<in> set (en_Ifaces e))" by blast
  then show ?thesis
  proof cases
    case iface
    let ?h = "if en_Name e = old then e\<lparr>en_Name := n, en_Raw := replaceWholeToken (en_Raw e) old n\<rparr> else e"
    have swap: "(e\<lparr>en_Body := []\<rparr>)\<lparr>en_Name := n, en_Raw := r\<rparr> = (e\<lparr>en_Name := n, en_Raw := r\<rparr>)\<lparr>en_Body := []\<rparr>" for r
      by (cases e) simp
    have "head_ok ((e\<lparr>en_Name := n, en_Raw := replaceWholeToken (en_Raw e) old n\<rparr>)\<lparr>en_Body := []\<rparr>)" if "en_Name e = old"
      unfolding swap [symmetric] using rename_head_iface [of "e\<lparr>en_Body := []\<rparr>" n] e iface that r w by (simp add: good_entry_def entry_ok_def renames_cleanly_def)
    moreover have "head_ok (e\<lparr>en_Body := []\<rparr>)" using e by (simp add: good_entry_def entry_ok_def)
    ultimately have "head_ok (?h\<lparr>en_Body := []\<rparr>)" by simp
    then have "good_entry ((?h\<lparr>en_Body := []\<rparr>)\<lparr>en_Body := map (rename_item old n) (en_Body e)\<rparr>)"
      using iface by (intro good_stanza [OF _ _ _ body]) (simp_all split: if_split)
    then show ?thesis using iface by (simp add: rename_entry_def renameBodyReferences_def split: if_splits)
  next
    case names
    have "head_ok (e\<lparr>en_Body := []\<rparr>)" "en_Body e = []" "list_all (\<lambda>t. last t \<noteq> CHR 0x5C) (en_Ifaces e)"
      using e names by (auto simp: good_entry_def entry_ok_def plain_entry_def list_kind_def stanza_kind_def)
    then have h: "head_ok e" by (cases e) simp
    have s: "single_line (en_Raw e)" "hd (go_Fields (en_Raw e)) \<noteq> old" using r names by (simp_all add: renames_cleanly_def)
    have "good_entry (e\<lparr>en_Ifaces := map (renamed old n) (en_Ifaces e), en_Raw := replaceWholeToken (en_Raw e) old n\<rparr>)"
      using rename_head_list [OF h names(1) s w(1) names(2)] \<open>en_Body e = []\<close> renamed_plain [OF n \<open>list_all _ (en_Ifaces e)\<close>]
      by (intro good_head) simp_all
    moreover have "en_Kind e \<noteq> KindIface" using names(1) by (auto simp: list_kind_def)
    ultimately show ?thesis using names by (simp add: rename_entry_def renamed_def [abs_def])
  qed (use e in \<open>auto simp: rename_entry_def\<close>)
qed

lemma rename_good:
  assumes "list_all good_entry f" "word n" "ref_ID t \<notin> set (kwIface # referenceKeys)" "list_all (renames_cleanly (ref_ID t)) f"
    and "mutateIfaceRename f t n = Inr f'"
  shows "list_all good_entry f'"
  using assms rename_entry_good [OF _ _ assms(2,3)]
  by (auto simp: mutateIfaceRename_def Let_def list_all_iff split: if_splits)

end
