(* ===== verification/Ifaces_Props.thy ===== *)
theory Ifaces_Props
  imports Ifaces_Rename
begin

text \<open>
  Every operation keeps a file good when its parameters are clean and, for a rename, the lines that have the name are not
  continued and have it only where it is meant. So what the engine stages reads back with the meaning it gave it.
\<close>

section \<open>Clean texts\<close>

definition optword :: "string \<Rightarrow> bool" where
  "optword s \<longleftrightarrow> s = [] \<or> word s"

lemma optword_clean: "optword s \<Longrightarrow> clean s"
  by (auto simp: optword_def clean_word)

lemma word_chars: "t \<noteq> [] \<Longrightarrow> \<forall>c\<in>set t. \<not> go_isspace c \<and> c \<noteq> CHR 0x5C \<Longrightarrow> word t"
  by (simp add: word_def token_def)

lemma word_append: "\<forall>c\<in>set a. \<not> go_isspace c \<Longrightarrow> word b \<Longrightarrow> word (a @ b)"
  by (auto simp: word_def token_def)

lemma natstr_chars: "0 \<le> n \<Longrightarrow> c \<in> set (go_natstr n) \<Longrightarrow> \<not> go_isspace c \<and> c \<noteq> CHR 0x5C"
proof -
  assume "0 \<le> n" "c \<in> set (go_natstr n)"
  then have "go_isdigit c" using go_natstr_digits by (auto simp: list_all_iff)
  then show ?thesis by (auto simp: go_isdigit_def go_ord_def go_isspace_def)
qed

lemma Itoa_chars: "c \<in> set (go_Itoa n) \<Longrightarrow> \<not> go_isspace c \<and> c \<noteq> CHR 0x5C"
  using natstr_chars [of n c] natstr_chars [of "- n" c] by (auto simp: go_Itoa_def go_isspace_def split: if_splits)

lemma Itoa_nonempty [simp]: "go_Itoa n \<noteq> []"
  by (simp add: go_Itoa_def go_natstr_nonempty)

lemma Itoa_word: "word (go_Itoa n)"
  by (rule word_chars) (use Itoa_chars in auto)

lemma Join_comma_chars: "c \<in> set (go_Join '','' ts) \<Longrightarrow> c = CHR '','' \<or> (\<exists>t\<in>set ts. c \<in> set t)"
  by (induction ts rule: induct_list012) auto

lemma vids_chars: "c \<in> set (vidRangesString vids) \<Longrightarrow> \<not> go_isspace c \<and> c \<noteq> CHR 0x5C"
proof -
  assume "c \<in> set (vidRangesString vids)"
  then consider "c = CHR '',''" | v where "c \<in> set (VidRange_String v)" unfolding vidRangesString_def using Join_comma_chars by force
  then show ?thesis
  proof cases
    case 2
    then show ?thesis using Itoa_chars by (auto simp: VidRange_String_def go_isspace_def split: if_splits)
  qed (simp add: go_isspace_def)
qed

lemma vids_nonempty: "vids \<noteq> [] \<Longrightarrow> vidRangesString vids \<noteq> []"
  by (cases vids rule: list.exhaust; cases "tl vids") (auto simp: vidRangesString_def VidRange_String_def)

lemma vids_word: "vids \<noteq> [] \<Longrightarrow> word (vidRangesString vids)"
  by (rule word_chars [OF vids_nonempty]) (use vids_chars in auto)

lemma Encode_word: "p \<noteq> [] \<Longrightarrow> \<forall>c\<in>set p. \<not> go_isspace c \<and> c \<noteq> CHR 0x5C \<Longrightarrow> word (p @ Values_Encode v)"
  by (rule word_chars) (use Encode_no_space in auto)

lemma marker_words: "word (EncodeNatMasqueradeMarker c)" "word (EncodeNatPortForwardMarker d)" "word (EncodeStaticRouteMarker r)"
  unfolding EncodeNatMasqueradeMarker_def EncodeNatPortForwardMarker_def EncodeStaticRouteMarker_def Let_def
  by (rule Encode_word; simp add: go_isspace_def)+

lemma concrete_word [simp]: "word [x] \<longleftrightarrow> \<not> go_isspace x \<and> x \<noteq> CHR 0x5C" "word (x # y # xs) \<longleftrightarrow> \<not> go_isspace x \<and> (\<forall>c\<in>set (y # xs). \<not> go_isspace c) \<and> last (y # xs) \<noteq> CHR 0x5C"
  by (auto simp: word_def)

lemma masquerade_clean:
  assumes "word (nm_SourceCIDR c)" "word (nm_Iface c)"
  shows "clean (fst (NatMasqueradeCommands c)) \<and> clean (snd (NatMasqueradeCommands c))"
proof -
  let ?ts = "\<lambda>x. [''iptables'', ''-t'', ''nat'', x, ''POSTROUTING'', ''-s'', nm_SourceCIDR c, ''-o'', nm_Iface c, ''-j'', ''MASQUERADE'', ''#'',
    EncodeNatMasqueradeMarker c]"
  have "list_all word (?ts ''-A'')" "list_all word (?ts ''-D'')" using assms marker_words by (simp_all add: go_isspace_def)
  moreover have "fst (NatMasqueradeCommands c) = go_Join '' '' (?ts ''-A'')" "snd (NatMasqueradeCommands c) = go_Join '' '' (?ts ''-D'')"
    by (simp_all add: NatMasqueradeCommands_def Let_def)
  ultimately show ?thesis using clean_words by metis
qed

lemma portforward_clean:
  assumes "word (np_Iface c)" "word (np_Proto c)" "word (np_IntIP c)"
  shows "clean (fst (NatPortForwardCommands c)) \<and> clean (snd (NatPortForwardCommands c))"
proof -
  let ?ts = "\<lambda>x. [''iptables'', ''-t'', ''nat'', x, ''PREROUTING'', ''-i'', np_Iface c, ''-p'', np_Proto c, ''--dport'', go_Itoa (np_ExtPort c),
    ''-j'', ''DNAT'', ''--to-destination'', np_IntIP c @ '':'' @ go_Itoa (np_IntPort c), ''#'', EncodeNatPortForwardMarker c]"
  have "word (np_IntIP c @ '':'' @ go_Itoa (np_IntPort c))"
    using assms(3) by (intro word_append Itoa_word) (auto simp: word_def token_def go_isspace_def)
  then have "list_all word (?ts ''-A'')" "list_all word (?ts ''-D'')" using assms marker_words Itoa_word by (simp_all add: go_isspace_def)
  moreover have "fst (NatPortForwardCommands c) = go_Join '' '' (?ts ''-A'')" "snd (NatPortForwardCommands c) = go_Join '' '' (?ts ''-D'')"
    by (simp_all add: NatPortForwardCommands_def Let_def)
  ultimately show ?thesis using clean_words by metis
qed

lemma route_clean:
  assumes "word (sr_DestCIDR c)" "word (sr_Gateway c)" "word (sr_Iface c)"
  shows "clean (fst (StaticRouteCommands c)) \<and> clean (snd (StaticRouteCommands c))"
proof -
  let ?ts = "\<lambda>x. [''ip'', ''route'', x, sr_DestCIDR c, ''via'', sr_Gateway c, ''dev'', sr_Iface c] @
    (if sr_Metric c \<noteq> 0 then [''metric'', go_Itoa (sr_Metric c)] else []) @ [''#'', EncodeStaticRouteMarker c]"
  have "list_all word (?ts ''add'')" "list_all word (?ts ''del'')" using assms marker_words Itoa_word by (simp_all add: go_isspace_def)
  moreover have "fst (StaticRouteCommands c) = go_Join '' '' (?ts ''add'')" "snd (StaticRouteCommands c) = go_Join '' '' (?ts ''del'')"
    by (simp_all add: StaticRouteCommands_def Let_def)
  ultimately show ?thesis using clean_words by metis
qed

lemma vf_clean:
  assumes "word pf" "optword (ve_MacAddr v)"
  shows "clean (fst (vf_commands pf v)) \<and> clean (snd (vf_commands pf v))"
proof -
  let ?start = "[''ip'', ''link'', ''set'', pf, ''vf'', go_Itoa (ve_ID v)]"
  let ?up = "?start @ (if ve_MacAddr v \<noteq> [] then [''mac'', ve_MacAddr v] else []) @
    (if ve_VLAN v \<noteq> 0 then [''vlan'', go_Itoa (ve_VLAN v)] else []) @ [''spoofchk'', onOff (ve_SpoofCheck v), ''trust'', onOff (ve_Trust v)]"
  let ?down = "?start @ (if ve_VLAN v \<noteq> 0 then [''vlan'', ''0''] else []) @ [''spoofchk'', ''on'', ''trust'', ''off'']"
  let ?mark = "[''#'', ''vnprox-vf:'' @ pf @ ''/vf'' @ go_Itoa (ve_ID v)]"
  have onoff: "word (onOff b)" for b by (simp add: onOff_def go_isspace_def)
  have "word (''vnprox-vf:'' @ pf @ ''/vf'' @ go_Itoa (ve_ID v))"
    using assms(1) by (intro word_append Itoa_word) (auto simp: word_def token_def go_isspace_def)
  then have "list_all word (?up @ ?mark)" "list_all word (?down @ ?mark)"
    using assms Itoa_word onoff by (auto simp: go_isspace_def optword_def)
  moreover have j: "go_Join '' '' (ts @ [a, b]) = go_Join '' '' ts @ '' '' @ a @ '' '' @ b" if "ts \<noteq> []" for ts a b
    using that by (induction ts rule: induct_list012) auto
  have "fst (vf_commands pf v) = go_Join '' '' (?up @ ?mark)" "snd (vf_commands pf v) = go_Join '' '' (?down @ ?mark)"
    by (subst j; simp add: vf_commands_def Let_def)+
  ultimately show ?thesis using clean_words by metis
qed

lemma vf_all_clean:
  assumes "word pf" "list_all (\<lambda>v. optword (ve_MacAddr v)) plan"
  shows "list_all (\<lambda>c. clean (fst c) \<and> clean (snd c)) (VFProvisionCommands pf n plan)"
proof -
  let ?ts = "\<lambda>x. [''echo'', x, ''>'', ''/sys/class/net/'' @ pf @ ''/device/sriov_numvfs'', ''#'', ''vnprox-vf:'' @ pf]"
  have "word (''/sys/class/net/'' @ pf @ ''/device/sriov_numvfs'')" "word (''vnprox-vf:'' @ pf)"
    using assms(1) by (auto simp: word_def token_def go_isspace_def)
  then have "list_all word (?ts (go_Itoa n))" "list_all word (?ts ''0'')" using Itoa_word by (simp_all add: go_isspace_def)
  then have "clean (go_Join '' '' (?ts (go_Itoa n)))" "clean (go_Join '' '' (?ts ''0''))" using clean_words by metis+
  then show ?thesis using vf_clean [OF assms(1)] assms(2) by (auto simp: VFProvisionCommands_def Let_def list_all_iff)
qed


section \<open>Clean operations\<close>

definition clean_comments :: "string option \<Rightarrow> bool" where
  "clean_comments c \<longleftrightarrow> (case c of None \<Rightarrow> True | Some tx \<Rightarrow> plain_text tx)"

definition vlan_name :: "VlanCreate \<Rightarrow> string" where
  "vlan_name c = (if ref_ID (vc_Target c) = [] \<and> \<not> vc_OVS c then VlanName (vc_Parent c) (vc_VID c) else ref_ID (vc_Target c))"

fun clean_op :: "iface_op \<Rightarrow> File \<Rightarrow> bool" where
  "clean_op (OpIfaceUpdate u) f \<longleftrightarrow> word (ref_ID (iu_Target u)) \<and> list_all clean (iu_Addresses u) \<and>
     (case iu_Gateway u of None \<Rightarrow> True | Some g \<Rightarrow> clean g) \<and> clean_comments (iu_Comments u)"
| "clean_op (OpBondCreate c) f \<longleftrightarrow> word (ref_ID (bc_Target c)) \<and> list_all word (bc_Slaves c) \<and> optword (bc_Mode c) \<and> optword (bc_LacpRate c) \<and>
     optword (bc_XmitHashPolicy c) \<and> optword (bc_Bridge c) \<and> plain_text (bc_Comments c)"
| "clean_op (OpBondUpdate u) f \<longleftrightarrow> list_all word (bu_Slaves u) \<and> optword (bu_Mode u) \<and> optword (bu_LacpRate u) \<and>
     optword (bu_XmitHashPolicy u) \<and> clean_comments (bu_Comments u)"
| "clean_op (OpBondDelete t) f \<longleftrightarrow> True"
| "clean_op (OpBridgeCreate c) f \<longleftrightarrow> word (ref_ID (gc_Target c)) \<and> list_all clean (gc_Addresses c) \<and> optword (gc_Gateway c) \<and>
     list_all word (gc_Ports c) \<and> plain_text (gc_Comments c)"
| "clean_op (OpBridgeUpdate u) f \<longleftrightarrow> list_all word (gu_Ports u) \<and> list_all clean (gu_Addresses u) \<and>
     (case gu_Gateway u of None \<Rightarrow> True | Some g \<Rightarrow> clean g) \<and> clean_comments (gu_Comments u)"
| "clean_op (OpBridgeDelete t) f \<longleftrightarrow> True"
| "clean_op (OpBridgePortAdd t p) f \<longleftrightarrow> word p"
| "clean_op (OpBridgePortRemove t p) f \<longleftrightarrow> True"
| "clean_op (OpVlanCreate c) f \<longleftrightarrow> word (vlan_name c) \<and> optword (vc_Parent c) \<and> list_all clean (vc_Addresses c) \<and> optword (vc_Gateway c) \<and>
     plain_text (vc_Comments c)"
| "clean_op (OpVlanUpdate u) f \<longleftrightarrow> list_all clean (vu_Addresses u) \<and> clean_comments (vu_Comments u)"
| "clean_op (OpVlanDelete t) f \<longleftrightarrow> True"
| "clean_op (OpIfaceRename t n) f \<longleftrightarrow> word n \<and> ref_ID t \<notin> set (kwIface # referenceKeys) \<and> list_all (renames_cleanly (ref_ID t)) f"
| "clean_op (OpIfaceRawReplace t c) f \<longleftrightarrow> (c = [] \<or> go_HasSuffix c LF) \<and>
     (case ParseInterfaces c of Inl _ \<Rightarrow> True | Inr nf \<Rightarrow> list_all plain_entry nf)"
| "clean_op (OpNatMasqueradeCreate c) f \<longleftrightarrow> word (mc_Iface c) \<and> word (mc_SourceCIDR c)"
| "clean_op (OpNatMasqueradeDelete t) f \<longleftrightarrow> True"
| "clean_op (OpNatPortForwardCreate c) f \<longleftrightarrow> word (pc_Iface c) \<and> word (pc_Proto c) \<and> word (pc_IntIP c)"
| "clean_op (OpNatPortForwardUpdate u) f \<longleftrightarrow>
     (case findNatPortForwardConfig f (ref_ID (pu_Target u)) of None \<Rightarrow> True
      | Some cur \<Rightarrow> (let c = merge_portforward u cur in word (np_Iface c) \<and> word (np_Proto c) \<and> word (np_IntIP c)))"
| "clean_op (OpNatPortForwardDelete t) f \<longleftrightarrow> True"
| "clean_op (OpRouteStaticCreate c) f \<longleftrightarrow> word (rc_Iface c) \<and> word (rc_DestCIDR c) \<and> word (rc_Gateway c)"
| "clean_op (OpRouteStaticUpdate u) f \<longleftrightarrow>
     (case findStaticRouteConfig f (ref_ID (ru_Target u)) of None \<Rightarrow> True
      | Some cur \<Rightarrow> (let c = merge_route u cur in word (sr_DestCIDR c) \<and> word (sr_Gateway c) \<and> word (sr_Iface c)))"
| "clean_op (OpRouteStaticDelete t) f \<longleftrightarrow> True"
| "clean_op (OpVFProvision p) f \<longleftrightarrow> word (ref_ID (vp_Target p)) \<and>
     (case ResolveVFPlan (vp_Count p) (vp_VFs p) (vp_VLAN p) (vp_MacAddr p) (vp_SpoofCheck p) (vp_Trust p) of None \<Rightarrow> True
      | Some plan \<Rightarrow> list_all (\<lambda>v. optword (ve_MacAddr v)) plan)"

abbreviation "good_file \<equiv> list_all good_entry"

text \<open>Values for a key that is not a list of ports need to be clean only; lists of ports are made of words.\<close>

lemma good_valueI: "option_key k \<Longrightarrow> \<not> port_key k \<Longrightarrow> clean v \<Longrightarrow> good_value k v"
  by (simp add: good_value_def)

lemma good_words: "option_key k \<Longrightarrow> list_all word ts \<Longrightarrow> good_value k (go_Join '' '' ts)"
proof -
  assume a: "option_key k" "list_all word ts"
  have t: "list_all token ts" using a(2) by (auto simp: list_all_iff word_def)
  show ?thesis using a clean_words go_Fields_Join [OF t] by (auto simp: good_value_def list_all_iff word_def)
qed

lemma good_on_iface:
  assumes "good_file f" "on_iface w f n g = Inr f'" "\<And>body. good_body body \<Longrightarrow> good_body (g body)"
  shows "good_file f'"
proof -
  obtain i where i: "find_index (is_iface n) f = Some i" "f' = edit_body i g f"
    using assms(2) by (auto simp: on_iface_def findIface_def split: option.splits)
  have "i < length f \<and> is_iface n (f ! i)" using i(1) by (induction f arbitrary: i) (auto split: if_splits)
  then have i2: "i < length f" "en_Kind (f ! i) = KindIface" by (auto simp: is_iface_def)
  have g: "good_entry (f ! i)" using assms(1) i2(1) by (simp add: list_all_length)
  have "good_entry ((f ! i)\<lparr>en_Body := g (en_Body (f ! i))\<rparr>)"
    using good_entry_update [OF g] good_entry_body [OF g] assms(3) i2(2) by (simp add: stanza_kind_def)
  then show ?thesis using assms(1) i(2) set_update_subset_insert by (fastforce simp: edit_body_def list_all_iff)
qed

lemma good_blank: "eol nl \<Longrightarrow> good_entry (zero_Entry KindBlank nl)"
  by (intro good_head blank_ok) (simp_all add: list_kind_def)

lemma good_append:
  assumes "good_file f" "eol nl" "good_entry e" "\<And>q. p = Some q \<Longrightarrow> good_entry q"
  shows "good_file (appendStanzaRaw f p e nl)"
proof -
  have "good_file (prepareAppend f nl)" using assms(1) good_blank [OF assms(2)] by (simp add: prepareAppend_def Let_def)
  then show ?thesis using assms good_blank [OF assms(2)] by (auto simp: appendStanzaRaw_def split: option.splits)
qed

lemma good_auto: "word name \<Longrightarrow> eol nl \<Longrightarrow> good_entry (autoPrefixEntry name nl)"
  by (intro good_head autoPrefix_ok) (simp_all add: autoPrefixEntry_def word_def)

lemma good_allow: "word name \<Longrightarrow> token cls \<Longrightarrow> eol nl \<Longrightarrow> good_entry (allowPrefixEntry cls name nl)"
  by (intro good_head allowPrefix_ok) (simp_all add: allowPrefixEntry_def word_def)

lemma good_appendStanza: "good_file f \<Longrightarrow> eol nl \<Longrightarrow> good_entry e \<Longrightarrow> word name \<Longrightarrow> good_file (appendStanza f b name e nl)"
  unfolding appendStanza_def by (rule good_append) (auto simp: good_auto split: if_splits)

lemma good_new:
  assumes "word name" "eol nl" "m = ''manual'' \<or> m = ''static''" "good_body body"
  shows "good_entry ((newIfaceEntry name ''inet'' m nl)\<lparr>en_Body := body\<rparr>)"
  by (rule good_stanza [OF newIface_ok [OF assms(1-3)] _ _ assms(4)]) (simp_all add: newIfaceEntry_def)

text \<open>The lines that list names.\<close>

definition list_kw :: "EntryKind \<Rightarrow> string \<Rightarrow> string" where
  "list_kw k cls = (case k of KindAuto \<Rightarrow> ''auto'' | KindAllow \<Rightarrow> ''allow-'' @ cls | KindNoAutoDown \<Rightarrow> ''no-auto-down''
      | KindNoScripts \<Rightarrow> ''no-scripts'' | _ \<Rightarrow> [])"

definition list_entry :: "EntryKind \<Rightarrow> string \<Rightarrow> string list \<Rightarrow> string \<Rightarrow> Entry" where
  "list_entry k cls ns raw = (zero_Entry k raw)\<lparr>en_Class := cls, en_Ifaces := ns\<rparr>"

lemma list_entry_form:
  "line_head tx raw = Some e \<Longrightarrow> list_kind (en_Kind e) \<Longrightarrow> e = list_entry (en_Kind e) (en_Class e) (en_Ifaces e) raw \<and> (en_Kind e \<noteq> KindAllow \<longrightarrow> en_Class e = [])"
  by (auto simp: line_head_def list_kind_def zero_Entry_def list_entry_def split: list.splits if_splits)

lemma line_head_list_kw:
  assumes "list_kind k" "k = KindAllow \<longrightarrow> cls \<noteq> []" "k \<noteq> KindAllow \<longrightarrow> cls = []" "go_Fields tx = list_kw k cls # ns"
  shows "line_head tx raw = Some (list_entry k cls ns raw)"
  using assms
  by (cases k) (simp_all add: list_kind_def line_head_def list_kw_def list_entry_def zero_Entry_def go_HasPrefix_def)

lemma list_kw_token: "list_kind k \<Longrightarrow> k = KindAllow \<longrightarrow> token cls \<Longrightarrow> token (list_kw k cls)"
  by (cases k) (auto simp: list_kind_def list_kw_def go_isspace_def token_def)

text \<open>A list line without one of its names.\<close>

lemma good_without:
  assumes "good_entry e" "eol nl" shows "good_file (without_name name nl e)"
proof (cases "list_kind (en_Kind e) \<and> name \<in> set (en_Ifaces e) \<and> filter (\<lambda>v. v \<noteq> name) (en_Ifaces e) \<noteq> []")
  case True
  let ?ts = "filter (\<lambda>v. v \<noteq> name) (en_Ifaces e)"
  define e1 where "e1 = e\<lparr>en_Ifaces := ?ts\<rparr>"
  define e2 where "e2 = e1\<lparr>en_Raw := regenerateIfaceListRaw e1 nl\<rparr>"
  have ok: "head_ok (e\<lparr>en_Body := []\<rparr>)" "en_Body e = []" using assms(1) True by (auto simp: good_entry_def entry_ok_def stanza_kind_def list_kind_def)
  have eq: "e\<lparr>en_Body := []\<rparr> = e" using ok(2) by simp
  have "head_ok e" using ok(1) by (subst (asm) eq)
  then obtain tx where tx: "line_head tx (en_Raw e) = Some e" using head_ok_list True by blast
  define kw where "kw = list_kw (en_Kind e) (en_Class e)"
  have tk: "list_all token (en_Ifaces e)" "en_Kind e = KindAllow \<longrightarrow> token (en_Class e)" using line_head_list [OF tx] True by auto
  have w: "list_all word ?ts" using tk(1) assms(1) True by (auto simp: word_def list_all_iff good_entry_def plain_entry_def)
  have form: "e = list_entry (en_Kind e) (en_Class e) (en_Ifaces e) (en_Raw e)" "en_Kind e \<noteq> KindAllow \<longrightarrow> en_Class e = []"
    using list_entry_form [OF tx] True by auto
  have "token kw" unfolding kw_def using True tk(2) by (intro list_kw_token) auto
  moreover have "word (last ?ts)" using w True last_in_set [of ?ts] unfolding list_all_iff by blast
  ultimately have ts: "list_all token (kw # ?ts)" "word (last (kw # ?ts))" using w True by (auto simp: list_all_iff word_def)
  have raw: "en_Raw e2 = go_Join '' '' (kw # ?ts) @ nl"
  proof -
    obtain u us where u: "?ts = u # us" using True by (cases ?ts) auto
    show ?thesis unfolding e2_def e1_def regenerateIfaceListRaw_def by (cases "en_Kind e") (simp_all add: kw_def list_kw_def u)
  qed
  note l = words_line [OF ts(1) _ ts(2) assms(2), simplified]
  have "e2 = list_entry (en_Kind e) (en_Class e) ?ts (en_Raw e2)"
    unfolding e2_def e1_def by (subst (1 2) form(1)) (simp add: list_entry_def zero_Entry_def)
  moreover have "line_head (go_Join '' '' (kw # ?ts)) (en_Raw e2) = Some (list_entry (en_Kind e) (en_Class e) ?ts (en_Raw e2))"
    using True form(2) tk(2) l(2) by (intro line_head_list_kw) (auto simp: kw_def token_def)
  ultimately have "line_head (go_Join '' '' (kw # ?ts)) (en_Raw e2) = Some e2" by simp
  then have "head_ok e2" using l(1) raw by (intro head_okI) simp_all
  then have "good_entry e2" using w ok(2) by (intro good_head) (auto simp: e2_def e1_def list_all_iff word_def)
  moreover have "without_name name nl e = [e2]" using True by (simp add: without_name_def e2_def e1_def Let_def)
  ultimately show ?thesis by simp
next
  case False
  then show ?thesis using assms(1) by (auto simp: without_name_def Let_def)
qed

lemma good_removeAuto: "good_file f \<Longrightarrow> eol nl \<Longrightarrow> good_file (removeAutoReference f name nl)"
  unfolding removeAutoReference_def by (induction f) (simp_all add: good_without)

lemma good_setAutostart: "good_file f \<Longrightarrow> eol nl \<Longrightarrow> word name \<Longrightarrow> good_file (setAutostart f name b nl)"
proof -
  assume a: "good_file f" "eol nl" "word name"
  have "good_file (take i f @ [autoPrefixEntry name nl] @ drop i f)" for i
    using a good_auto by (auto simp: list_all_iff dest: in_set_takeD in_set_dropD)
  with a good_removeAuto show ?thesis by (auto simp: setAutostart_def Let_def split: option.splits)
qed

lemma good_delete: "good_file f \<Longrightarrow> eol nl \<Longrightarrow> mutate_delete w f t nl = Inr f' \<Longrightarrow> good_file f'"
  using good_removeAuto by (fastforce simp: mutate_delete_def removeIfaceAndAuto_def list_all_iff split: if_splits)

lemma good_removeEdge:
  assumes "good_file f" shows "good_file (fst (removeEdgeRuleLines f i m))"
proof -
  have "good_entry (e\<lparr>en_Body := filter (\<lambda>item. \<not> marked m i item) (en_Body e)\<rparr>)" if "good_entry e" "en_Kind e = KindIface" for e
    using good_entry_update [OF that(1)] good_entry_body [OF that(1)] that(2) by (simp add: stanza_kind_def list_all_iff)
  with assms show ?thesis by (auto simp: removeEdgeRuleLines_def list_all_iff)
qed

lemma good_remove_rule: "good_file f \<Longrightarrow> remove_rule w m f t = Inr f' \<Longrightarrow> good_file f'"
proof -
  assume a: "good_file f" "remove_rule w m f t = Inr f'"
  then have "f' = fst (removeEdgeRuleLines f (ref_ID t) m)" by (auto simp: remove_rule_def split: prod.splits if_splits)
  with good_removeEdge [OF a(1)] show ?thesis by simp
qed

lemma good_pair: "clean (fst c) \<and> clean (snd c) \<Longrightarrow> eol nl \<Longrightarrow> good_body (pair_items c nl)"
  by (simp add: pair_items_def good_option good_valueI port_key_def)

lemma good_rule_pair: "good_file f \<Longrightarrow> appendRulePair f n c nl = Inr f' \<Longrightarrow> clean (fst c) \<and> clean (snd c) \<Longrightarrow> eol nl \<Longrightarrow> good_file f'"
  unfolding appendRulePair_def by (erule (1) good_on_iface) (simp add: good_insert good_pair)

lemma good_pairs:
  "append_pairs n nl cs f = Inr f' \<Longrightarrow> good_file f \<Longrightarrow> list_all (\<lambda>c. clean (fst c) \<and> clean (snd c)) cs \<Longrightarrow> eol nl \<Longrightarrow> good_file f'"
proof (induction cs arbitrary: f)
  case (Cons c cs)
  then obtain g where g: "on_iface ''vf.provision'' f n (\<lambda>body. insertBeforeTrailingBlanks body (pair_items c nl) nl) = Inr g"
    "append_pairs n nl cs g = Inr f'" by (auto split: sum.splits)
  have "good_file g" using Cons.prems(2) g(1) by (rule good_on_iface) (use Cons.prems in \<open>simp add: good_insert good_pair\<close>)
  then show ?case using Cons.IH [OF g(2)] Cons.prems by simp
qed simp

text \<open>Values in the vocabulary of the operations.\<close>

lemmas good_values = good_valueI clean_word Itoa_word optword_clean clean_Nil

lemma value_lists:
  "option_key k \<Longrightarrow> list_all word ts \<Longrightarrow> good_value k (joinTokens ts)"
  "list_all clean as \<Longrightarrow> \<forall>v\<in>set as. good_value ''address'' v"
  by (auto simp: joinTokens_def good_words list_all_iff good_valueI port_key_def)

lemma value_single:
  "option_key k \<Longrightarrow> \<not> port_key k \<Longrightarrow> good_value k (go_Itoa n)"
  "option_key k \<Longrightarrow> \<not> port_key k \<Longrightarrow> clean s \<Longrightarrow> good_value k s"
  "option_key k \<Longrightarrow> \<not> port_key k \<Longrightarrow> vids \<noteq> [] \<Longrightarrow> good_value k (vidRangesString vids)"
  by (simp_all add: good_valueI clean_word Itoa_word optword_clean vids_word)

lemma value_concrete:
  "good_value ''bridge-vlan-aware'' ''yes''" "good_value ''bridge-stp'' ''on''" "good_value ''bridge-stp'' ''off''" "good_value ''bridge-fd'' ''0''"
  "good_value ''ovs_type'' ''OVSBond''" "good_value ''ovs_type'' ''OVSBridge''" "good_value ''ovs_type'' ''OVSIntPort''"
  by (simp_all add: good_valueI clean_word port_key_def go_isspace_def)

lemma bond_options_clean: "optword m \<Longrightarrow> good_value ''ovs_options'' (ovsBondModeOptions m)"
proof -
  assume m: "optword m"
  have "clean (go_Join '' '' [''bond_mode=balance-slb'', ''lacp=active'', ''other_config:lacp-time=fast''])"
    by (rule clean_words) (simp add: go_isspace_def)
  moreover have "word (''bond_mode='' @ m)" if "m \<noteq> []" using m that by (intro word_append) (auto simp: optword_def go_isspace_def)
  ultimately show ?thesis by (auto simp: ovsBondModeOptions_def good_valueI port_key_def clean_word)
qed

lemma intport_options_clean: "good_value ''ovs_options'' (ovsIntPortOptions vid trunks)"
proof -
  have "word (''tag='' @ go_Itoa vid)" by (intro word_append Itoa_word) (simp add: go_isspace_def)
  moreover have "word (''trunks='' @ vidRangesString trunks)" if "trunks \<noteq> []"
    using vids_word [OF that] by (intro word_append) (simp add: go_isspace_def)
  ultimately have "list_all word ((if vid \<noteq> 0 then [''tag='' @ go_Itoa vid] else []) @ (if trunks \<noteq> [] then [''trunks='' @ vidRangesString trunks] else []))"
    by (auto simp del: append_Cons)
  then show ?thesis using clean_words unfolding ovsIntPortOptions_def by (intro good_valueI) (auto simp: port_key_def)
qed

lemma port_list_good:
  assumes "good_body body" "port_key k" "item \<in> set body" "is_option k item"
  shows "list_all word (go_Fields (bi_Value item)) \<and> go_Join '' '' (go_Fields (bi_Value item)) = bi_Value item"
proof -
  have g: "item_ok item" "plain_item item" using assms(1,3) by (auto simp: list_all_iff good_item_def)
  obtain toks where t: "list_all token toks" "bi_Value item = go_Join '' '' toks"
    using item_ok_option [OF g(1)] assms(4) by (auto simp: is_option_def)
  have "go_Fields (bi_Value item) = toks" using t go_Fields_Join by simp
  with t g(2) assms(2,4) show ?thesis by (auto simp: plain_item_def is_option_def list_all_iff word_def)
qed

lemma ports_value:
  assumes "good_body body" "port_key k" "option_key k"
  shows "good_value k (removeToken (opt_or [] (getOption body k)) p)" "word p \<Longrightarrow> good_value k (addToken (opt_or [] (getOption body k)) p)"
proof -
  let ?v = "opt_or [] (getOption body k)"
  have v: "list_all word (go_Fields ?v)" "go_Join '' '' (go_Fields ?v) = ?v"
  proof -
    have "list_all word (go_Fields ?v) \<and> go_Join '' '' (go_Fields ?v) = ?v"
    proof (cases "List.find (is_option k) body")
      case (Some item)
      then have "item \<in> set body" "is_option k item" by (auto simp: find_Some_iff)
      with Some port_list_good [OF assms(1,2)] show ?thesis by (simp add: getOption_def opt_or_def)
    qed (simp add: getOption_def opt_or_def)
    then show "list_all word (go_Fields ?v)" "go_Join '' '' (go_Fields ?v) = ?v" by auto
  qed
  show "good_value k (removeToken ?v p)"
    unfolding removeToken_def using v(1) by (intro good_words assms) (auto simp: list_all_iff)
  show "good_value k (addToken ?v p)" if "word p"
  proof (cases "p \<in> set (go_Fields ?v)")
    case True
    with good_words [OF assms(3) v(1)] v(2) show ?thesis by (simp add: addToken_def)
  next
    case False
    have "list_all word (go_Fields ?v @ [p])" using v(1) that by simp
    with False good_words [OF assms(3) this] show ?thesis by (simp add: addToken_def)
  qed
qed

lemma portsKey: "port_key (portsKeyFor body)" "option_key (portsKeyFor body)"
  by (simp_all add: portsKeyFor_def port_key_def)


section \<open>Operations keep files good\<close>

lemma good_Let: "good_body x \<Longrightarrow> (\<And>y. good_body y \<Longrightarrow> good_body (g y)) \<Longrightarrow> good_body (let y = x in g y)"
  by simp

lemma bond_body_good:
  "clean_op (OpBondUpdate u) f \<Longrightarrow> eol nl \<Longrightarrow> good_body body \<Longrightarrow> good_body (bond_update_body u nl body)"
  unfolding bond_update_body_def Let_def
  by (intro good_set_comments good_set_when)
    (auto simp: optword_clean clean_comments_def port_key_def intro!: good_set_when good_remove value_lists value_single)

lemma vlan_body_good:
  "clean_op (OpVlanUpdate u) f \<Longrightarrow> eol nl \<Longrightarrow> good_body body \<Longrightarrow> good_body (vlan_update_body u nl body)"
  unfolding vlan_update_body_def Let_def
  by (intro good_set_comments good_set_when)
    (auto simp: optword_clean clean_comments_def port_key_def intro!: good_setOptionList value_lists(2) value_single)

lemma bridge_body_good:
  "clean_op (OpBridgeUpdate u) f \<Longrightarrow> eol nl \<Longrightarrow> good_body body \<Longrightarrow> good_body (bridge_update_body u nl body)"
  unfolding bridge_update_body_def
  by (subst Let_def, intro good_Let good_set_comments)
    (auto simp: clean_comments_def port_key_def split: option.splits bool.splits
      intro!: good_set_when good_remove good_setOption good_setOptionList value_lists value_single value_concrete)

lemma iface_body_good:
  "clean_op (OpIfaceUpdate u) f \<Longrightarrow> eol nl \<Longrightarrow> good_body body \<Longrightarrow> good_body (iface_update_body u nl body)"
  unfolding iface_update_body_def Let_def
  by (intro good_set_comments)
    (auto simp: optword_clean clean_comments_def port_key_def split: option.splits
      intro!: good_remove good_setOption good_setOptionList value_lists(2) value_single)

lemma bond_create_good:
  assumes "clean_op (OpBondCreate c) f" "CHR 0x0A \<notin> set cs" "eol nl" "good_file f" "mutateBondCreate f c cs nl = Inr f'"
  shows "good_file f'"
proof -
  have w: "word (ref_ID (bc_Target c))" "optword (bc_Bridge c)" using assms(1) by simp_all
  let ?body = "[managedByComment cs nl] @
            (if isOVSKind (ref_Kind (bc_Target c)) then
               [optionItem ''ovs_bonds'' (joinTokens (bc_Slaves c)) nl, optionItem ''ovs_type'' ''OVSBond'' nl] @
               opt_line (bc_Bridge c \<noteq> []) ''ovs_bridge'' (bc_Bridge c) nl @
               opt_line (ovsBondModeOptions (bc_Mode c) \<noteq> []) ''ovs_options'' (ovsBondModeOptions (bc_Mode c)) nl
             else
               [optionItem ''bond-slaves'' (joinTokens (bc_Slaves c)) nl] @
               opt_line (bc_Mode c \<noteq> []) ''bond-mode'' (bc_Mode c) nl @
               [optionItem ''bond-miimon'' (go_Itoa (if bc_MIIMon c = 0 then defaultMIIMon else bc_MIIMon c)) nl] @
               opt_line (bc_LacpRate c \<noteq> []) ''bond-lacp-rate'' (bc_LacpRate c) nl @
               opt_line (bc_XmitHashPolicy c \<noteq> []) ''bond-xmit-hash-policy'' (bc_XmitHashPolicy c) nl) @
            opt_line (bc_MTU c \<noteq> 0) ''mtu'' (go_Itoa (bc_MTU c)) nl @ comment_line (bc_Comments c) nl"
  have "good_body ?body"
    using assms(1-3)
    by (auto simp: optword_clean port_key_def list_all_append
      intro!: good_managed good_option good_opt_line good_comment_line value_lists(1) value_single value_concrete bond_options_clean)
  then have e: "good_entry ((newIfaceEntry (ref_ID (bc_Target c)) ''inet'' ''manual'' nl)\<lparr>en_Body := ?body\<rparr>)"
    using w(1) assms(3) by (intro good_new) simp_all
  have t: "bc_Bridge c \<noteq> [] \<Longrightarrow> token (bc_Bridge c)" using w(2) by (auto simp: optword_clean optword_def word_def)
  show ?thesis
    using assms(5) e t w assms(3,4) unfolding mutateBondCreate_def Let_def
    by (auto split: if_splits intro!: good_append good_appendStanza good_allow)
qed

lemma bridge_create_good:
  assumes "clean_op (OpBridgeCreate c) f" "CHR 0x0A \<notin> set cs" "eol nl" "good_file f" "mutateBridgeCreate f c cs nl = Inr f'"
  shows "good_file f'"
proof -
  have w: "word (ref_ID (gc_Target c))" using assms(1) by simp
  let ?body = "[managedByComment cs nl] @
            map (\<lambda>a. optionItem ''address'' a nl) (gc_Addresses c) @
            opt_line (gc_Gateway c \<noteq> []) ''gateway'' (gc_Gateway c) nl @
            (if isOVSKind (ref_Kind (gc_Target c)) then
               [optionItem ''ovs_type'' ''OVSBridge'' nl, optionItem ''ovs_ports'' (joinTokens (gc_Ports c)) nl]
             else
               [optionItem ''bridge-ports'' (joinTokens (gc_Ports c)) nl] @
               opt_line (gc_VlanAware c) ''bridge-vlan-aware'' ''yes'' nl @
               opt_line (gc_Vids c \<noteq> []) ''bridge-vids'' (vidRangesString (gc_Vids c)) nl @
               (if gc_STP c then [optionItem ''bridge-stp'' ''on'' nl]
                else [optionItem ''bridge-stp'' ''off'' nl, optionItem ''bridge-fd'' ''0'' nl])) @
            opt_line (gc_MTU c \<noteq> 0) ''mtu'' (go_Itoa (gc_MTU c)) nl @ comment_line (gc_Comments c) nl"
  have "good_body (map (\<lambda>a. optionItem ''address'' a nl) (gc_Addresses c))"
    using assms(1,3) value_lists(2) good_option by (auto simp: optword_clean list_all_iff)
  then have "good_body ?body"
    using assms(1-3)
    by (auto simp: optword_clean port_key_def list_all_append
      intro!: good_managed good_option good_opt_line good_comment_line value_lists(1) value_single value_concrete)
  then have e: "good_entry ((newIfaceEntry (ref_ID (gc_Target c)) ''inet'' m nl)\<lparr>en_Body := ?body\<rparr>)" if "m = ''manual'' \<or> m = ''static''" for m
    using w(1) assms(3) that by (intro good_new) simp_all
  show ?thesis
    using assms(5) e [of "''manual''"] e [of "''static''"] w assms(3,4) unfolding mutateBridgeCreate_def Let_def
    by (auto split: if_splits intro!: good_append good_appendStanza good_allow simp: go_isspace_def)
qed

lemma vlan_create_good:
  assumes "clean_op (OpVlanCreate c) f" "CHR 0x0A \<notin> set cs" "eol nl" "good_file f" "mutateVlanCreate f c cs nl = Inr f'"
  shows "good_file f'"
proof -
  have w: "word (vlan_name c)" "optword (vc_Parent c)" using assms(1) by simp_all
  let ?opts = "ovsIntPortOptions (vc_VID c) (vc_Trunks c)"
  let ?body = "[managedByComment cs nl] @
            map (\<lambda>a. optionItem ''address'' a nl) (vc_Addresses c) @
            opt_line (vc_Gateway c \<noteq> []) ''gateway'' (vc_Gateway c) nl @
            (if vc_OVS c then
               [optionItem ''ovs_type'' ''OVSIntPort'' nl, optionItem ''ovs_bridge'' (vc_Parent c) nl] @
               opt_line (?opts \<noteq> []) ''ovs_options'' ?opts nl
             else [optionItem ''vlan-raw-device'' (vc_Parent c) nl]) @
            opt_line (vc_MTU c \<noteq> 0) ''mtu'' (go_Itoa (vc_MTU c)) nl @ comment_line (vc_Comments c) nl"
  have "good_body (map (\<lambda>a. optionItem ''address'' a nl) (vc_Addresses c))"
    using assms(1,3) value_lists(2) good_option by (auto simp: optword_clean list_all_iff)
  then have "good_body ?body"
    using assms(1-3)
    by (auto simp: optword_clean port_key_def list_all_append
      intro!: good_managed good_option good_opt_line good_comment_line value_single value_concrete intport_options_clean)
  then have e: "good_entry ((newIfaceEntry (vlan_name c) ''inet'' m nl)\<lparr>en_Body := ?body\<rparr>)" if "m = ''manual'' \<or> m = ''static''" for m
    using w(1) assms(3) that by (intro good_new) simp_all
  have t: "vc_Parent c \<noteq> [] \<Longrightarrow> token (vc_Parent c)" using w(2) by (auto simp: optword_clean optword_def word_def)
  show ?thesis
    using assms(5) e [of "''manual''"] e [of "''static''"] w t assms(3,4) unfolding mutateVlanCreate_def Let_def vlan_name_def [symmetric]
    by (auto split: if_splits intro!: good_append good_appendStanza good_allow)
qed

lemma mutate_good:
  assumes "good_file f" "clean_op op f" "CHR 0x0A \<notin> set cs" and m: "Mutate f op cs = Inr f'"
  shows "good_file f'"
proof -
  let ?nl = "dominantEOL f"
  note nl = dominantEOL_eol [of f]
  note m' = m [unfolded Mutate_def Let_def]
  show ?thesis
  proof (cases op)
    case (OpIfaceUpdate u)
    with m' obtain g where g: "on_iface ''iface.update'' f (ref_ID (iu_Target u)) (iface_update_body u ?nl) = Inr g"
      "f' = (case iu_Autostart u of None \<Rightarrow> g | Some b \<Rightarrow> setAutostart g (ref_ID (iu_Target u)) b ?nl)"
      by (auto simp: mutateIfaceUpdate_def split: sum.splits)
    have "good_file g" using assms(1) g(1) by (rule good_on_iface) (use iface_body_good nl assms(2) OpIfaceUpdate in blast)
    then show ?thesis using g(2) good_setAutostart nl assms(2) by (auto simp: OpIfaceUpdate split: option.splits)
  next
    case (OpBondCreate c) then show ?thesis using m' bond_create_good assms(1-3) nl by auto
  next
    case (OpBridgeCreate c) then show ?thesis using m' bridge_create_good assms(1-3) nl by auto
  next
    case (OpVlanCreate c) then show ?thesis using m' vlan_create_good assms(1-3) nl by auto
  next
    case (OpBondUpdate u)
    then have "on_iface ''bond.update'' f (ref_ID (bu_Target u)) (bond_update_body u ?nl) = Inr f'" using m' by (simp add: mutateBondUpdate_def)
    then show ?thesis by (rule good_on_iface [OF assms(1)]) (use bond_body_good nl assms(2) OpBondUpdate in blast)
  next
    case (OpBridgeUpdate u)
    then have "on_iface ''bridge.update'' f (ref_ID (gu_Target u)) (bridge_update_body u ?nl) = Inr f'" using m' by (simp add: mutateBridgeUpdate_def)
    then show ?thesis by (rule good_on_iface [OF assms(1)]) (use bridge_body_good nl assms(2) OpBridgeUpdate in blast)
  next
    case (OpVlanUpdate u)
    then have "on_iface ''vlan.update'' f (ref_ID (vu_Target u)) (vlan_update_body u ?nl) = Inr f'" using m' by (simp add: mutateVlanUpdate_def)
    then show ?thesis by (rule good_on_iface [OF assms(1)]) (use vlan_body_good nl assms(2) OpVlanUpdate in blast)
  next
    case (OpBridgePortAdd t p)
    then have "mutateBridgePortAdd f t p ?nl = Inr f'" "word p" using m' assms(2) by simp_all
    then show ?thesis unfolding mutateBridgePortAdd_def
      by (elim good_on_iface [OF assms(1)]) (simp add: Let_def good_setOption ports_value portsKey nl)
  next
    case (OpBridgePortRemove t p)
    then have "mutateBridgePortRemove f t p ?nl = Inr f'" using m' by simp
    then show ?thesis unfolding mutateBridgePortRemove_def
      by (elim good_on_iface [OF assms(1)]) (simp add: Let_def good_setOption ports_value portsKey nl)
  next
    case (OpIfaceRename t n)
    then have "mutateIfaceRename f t n = Inr f'" using m' by simp
    moreover have "word n" "ref_ID t \<notin> set (kwIface # referenceKeys)" "list_all (renames_cleanly (ref_ID t)) f"
      using assms(2) OpIfaceRename by simp_all
    ultimately show ?thesis using rename_good [OF assms(1)] by blast
  next
    case (OpIfaceRawReplace t c)
    then have p: "ParseInterfaces c = Inr f'" "c = [] \<or> go_HasSuffix c LF" "list_all plain_entry f'"
      using m' assms(2) by (auto simp: mutateIfaceRawReplace_def split: sum.splits)
    with parsed_ok [OF p(1,2)] show ?thesis by (auto simp: good_entry_def list_all_iff)
  next
    case (OpNatMasqueradeCreate c)
    then have "mutateNatMasqueradeCreate f c ?nl = Inr f'" "word (mc_Iface c)" "word (mc_SourceCIDR c)" using m' assms(2) by simp_all
    then show ?thesis unfolding mutateNatMasqueradeCreate_def Let_def
      by (elim good_rule_pair [OF assms(1)]) (simp_all add: masquerade_clean nl)
  next
    case (OpNatPortForwardCreate c)
    then have "mutateNatPortForwardCreate f c ?nl = Inr f'" "word (pc_Iface c)" "word (pc_Proto c)" "word (pc_IntIP c)" using m' assms(2) by simp_all
    then show ?thesis unfolding mutateNatPortForwardCreate_def Let_def
      by (elim good_rule_pair [OF assms(1)]) (simp_all add: portforward_clean nl)
  next
    case (OpRouteStaticCreate c)
    then have "mutateRouteStaticCreate f c ?nl = Inr f'" "word (rc_Iface c)" "word (rc_DestCIDR c)" "word (rc_Gateway c)" using m' assms(2) by simp_all
    then show ?thesis unfolding mutateRouteStaticCreate_def Let_def
      by (elim good_rule_pair [OF assms(1)]) (simp_all add: route_clean nl)
  next
    case (OpNatPortForwardUpdate u)
    then obtain cur where "appendRulePair (fst (removeEdgeRuleLines f (ref_ID (pu_Target u)) natPortForwardMatcher)) (np_Iface (merge_portforward u cur))
        (NatPortForwardCommands (merge_portforward u cur)) ?nl = Inr f'"
      "word (np_Iface (merge_portforward u cur))" "word (np_Proto (merge_portforward u cur))" "word (np_IntIP (merge_portforward u cur))"
      using m' assms(2) by (auto simp: mutateNatPortForwardUpdate_def Let_def split: option.splits)
    then show ?thesis using good_rule_pair [OF good_removeEdge [OF assms(1)]] portforward_clean nl by blast
  next
    case (OpRouteStaticUpdate u)
    then obtain cur where "appendRulePair (fst (removeEdgeRuleLines f (ref_ID (ru_Target u)) staticRouteMatcher)) (sr_Iface (merge_route u cur))
        (StaticRouteCommands (merge_route u cur)) ?nl = Inr f'"
      "word (sr_DestCIDR (merge_route u cur))" "word (sr_Gateway (merge_route u cur))" "word (sr_Iface (merge_route u cur))"
      using m' assms(2) by (auto simp: mutateRouteStaticUpdate_def Let_def split: option.splits)
    then show ?thesis using good_rule_pair [OF good_removeEdge [OF assms(1)]] route_clean nl by blast
  next
    case (OpVFProvision p)
    then show ?thesis using m' assms(1,2) nl vf_all_clean
      by (auto simp: mutateVFProvision_def split: option.splits elim!: good_pairs)
  qed (use m' in \<open>simp_all add: mutateBondDelete_def mutateBridgeDelete_def mutateVlanDelete_def mutateNatMasqueradeDelete_def
      mutateNatPortForwardDelete_def mutateRouteStaticDelete_def good_delete [OF assms(1) nl] good_remove_rule [OF assms(1)]\<close>)
qed

text \<open>Operations in sequence, each clean for the file it meets.\<close>

fun clean_ops :: "iface_op list \<Rightarrow> File \<Rightarrow> string \<Rightarrow> bool" where
  "clean_ops [] f cs \<longleftrightarrow> True"
| "clean_ops (op # ops) f cs \<longleftrightarrow> clean_op op f \<and> (case Mutate f op cs of Inl _ \<Rightarrow> True | Inr f' \<Rightarrow> clean_ops ops f' cs)"

lemma mutate_from_good:
  "mutate_from i f ops cs = Inr f' \<Longrightarrow> good_file f \<Longrightarrow> clean_ops ops f cs \<Longrightarrow> CHR 0x0A \<notin> set cs \<Longrightarrow> good_file f'"
proof (induction ops arbitrary: i f)
  case (Cons op ops)
  then obtain g where g: "Mutate f op cs = Inr g" "mutate_from (i + 1) g ops cs = Inr f'" by (auto split: sum.splits)
  moreover have "good_file g" using mutate_good [OF _ _ _ g(1)] Cons.prems by simp
  ultimately show ?case using Cons.IH [OF g(2)] Cons.prems by simp
qed simp


section \<open>The staged text\<close>

lemma edited_reads_back:
  assumes "ParseInterfaces s = Inr f" "s = [] \<or> go_HasSuffix s LF" "list_all plain_entry f"
    and "clean_ops ops f cs" "CHR 0x0A \<notin> set cs" "MutateAll f ops cs = Inr f'"
  shows "\<exists>f''. ParseInterfaces (Render f') = Inr f'' \<and> meaning f'' = meaning f'"
proof -
  have "good_file f" using parsed_ok [OF assms(1,2)] assms(3) by (auto simp: good_entry_def list_all_iff)
  then have "good_file f'" using mutate_from_good assms(4-6) unfolding MutateAll_def by blast
  then have "list_all entry_ok f'" by (auto simp: good_entry_def list_all_iff)
  then show ?thesis by (rule reparse)
qed

text \<open>C9. What is staged reads back. The file is empty or ends in a line end, and no name on its \<^verbatim>\<open>auto\<close> and \<^verbatim>\<open>allow-\<close> lines
  and no port of its bridges ends in a backslash (\<open>plain_entry\<close>); the changeset id has no line break; and every operation is
  clean for the file it meets (\<open>clean_op\<close>): the names, addresses, comments and other texts it carries have no line break, no
  repeated blanks and no backslash at the end, and a rename is of a name that stands only on lines that are not continued, once on
  its \<^verbatim>\<open>iface\<close> line, and is no keyword. Then the text that is staged parses, and to a file with the same entries and options as the
  edited tree. Without the condition on renames the staged text can say something else (\<open>rename_misses_continued_line\<close> in
  \<open>Ifaces_Gaps\<close>).\<close>

theorem staged_reads_back:
  assumes "ParseInterfaces s = Inr f" "s = [] \<or> go_HasSuffix s LF" "list_all plain_entry f"
    and "clean_ops ops f cs" "CHR 0x0A \<notin> set cs" "MutateAll f ops cs = Inr f'"
  shows "\<exists>f''. ParseInterfaces (Render f') = Inr f'' \<and> meaning f'' = meaning f'"
  using edited_reads_back [OF assms] .

end
