(* ===== verification/Ifaces_Frame.thy ===== *)
theory Ifaces_Frame
  imports Ifaces_Mutate "HOL-Library.Sublist"
begin

text \<open>
  What an operation leaves alone. The contract of \<open>Mutate\<close> is a minimal edit: every entry the operation is not about
  stays in the file as it is, with its source text, and in its place; a create only appends.
\<close>

section \<open>The entries an operation may change\<close>

definition names :: "string \<Rightarrow> Entry \<Rightarrow> bool" where
  "names name e \<longleftrightarrow> list_kind (en_Kind e) \<and> name \<in> set (en_Ifaces e)"

definition refers :: "string \<Rightarrow> Entry \<Rightarrow> bool" where
  "refers name e \<longleftrightarrow> en_Kind e = KindIface \<and>
     (\<exists>item\<in>set (en_Body e). bi_Kind item = BodyOption \<and> bi_Key item \<in> set referenceKeys \<and> name \<in> set (go_Fields (bi_Value item)))"

definition has_marked :: "(string \<Rightarrow> string option) \<Rightarrow> string \<Rightarrow> Entry \<Rightarrow> bool" where
  "has_marked match id1 e \<longleftrightarrow> en_Kind e = KindIface \<and> (\<exists>item\<in>set (en_Body e). marked match id1 item)"

fun concerns :: "iface_op \<Rightarrow> File \<Rightarrow> Entry \<Rightarrow> bool" where
  "concerns (OpIfaceUpdate u) f e \<longleftrightarrow> is_iface (ref_ID (iu_Target u)) e \<or> iu_Autostart u \<noteq> None \<and> names (ref_ID (iu_Target u)) e"
| "concerns (OpBondCreate c) f e \<longleftrightarrow> False"
| "concerns (OpBridgeCreate c) f e \<longleftrightarrow> False"
| "concerns (OpVlanCreate c) f e \<longleftrightarrow> False"
| "concerns (OpBondUpdate u) f e \<longleftrightarrow> is_iface (ref_ID (bu_Target u)) e"
| "concerns (OpBridgeUpdate u) f e \<longleftrightarrow> is_iface (ref_ID (gu_Target u)) e"
| "concerns (OpVlanUpdate u) f e \<longleftrightarrow> is_iface (ref_ID (vu_Target u)) e"
| "concerns (OpBridgePortAdd t p) f e \<longleftrightarrow> is_iface (ref_ID t) e"
| "concerns (OpBridgePortRemove t p) f e \<longleftrightarrow> is_iface (ref_ID t) e"
| "concerns (OpBondDelete t) f e \<longleftrightarrow> is_iface (ref_ID t) e \<or> names (ref_ID t) e"
| "concerns (OpBridgeDelete t) f e \<longleftrightarrow> is_iface (ref_ID t) e \<or> names (ref_ID t) e"
| "concerns (OpVlanDelete t) f e \<longleftrightarrow> is_iface (ref_ID t) e \<or> names (ref_ID t) e"
| "concerns (OpIfaceRename t n) f e \<longleftrightarrow> is_iface (ref_ID t) e \<or> names (ref_ID t) e \<or> refers (ref_ID t) e"
| "concerns (OpIfaceRawReplace t c) f e \<longleftrightarrow> True"
| "concerns (OpNatMasqueradeCreate c) f e \<longleftrightarrow> is_iface (mc_Iface c) e"
| "concerns (OpNatPortForwardCreate c) f e \<longleftrightarrow> is_iface (pc_Iface c) e"
| "concerns (OpRouteStaticCreate c) f e \<longleftrightarrow> is_iface (rc_Iface c) e"
| "concerns (OpNatMasqueradeDelete t) f e \<longleftrightarrow> has_marked natMasqueradeMatcher (ref_ID t) e"
| "concerns (OpNatPortForwardDelete t) f e \<longleftrightarrow> has_marked natPortForwardMatcher (ref_ID t) e"
| "concerns (OpRouteStaticDelete t) f e \<longleftrightarrow> has_marked staticRouteMatcher (ref_ID t) e"
| "concerns (OpNatPortForwardUpdate u) f e \<longleftrightarrow> has_marked natPortForwardMatcher (ref_ID (pu_Target u)) e \<or>
     (\<exists>cur. findNatPortForwardConfig f (ref_ID (pu_Target u)) = Some cur \<and> is_iface (np_Iface (merge_portforward u cur)) e)"
| "concerns (OpRouteStaticUpdate u) f e \<longleftrightarrow> has_marked staticRouteMatcher (ref_ID (ru_Target u)) e \<or>
     (\<exists>cur. findStaticRouteConfig f (ref_ID (ru_Target u)) = Some cur \<and> is_iface (sr_Iface (merge_route u cur)) e)"
| "concerns (OpVFProvision p) f e \<longleftrightarrow> is_iface (ref_ID (vp_Target p)) e"

fun is_create :: "iface_op \<Rightarrow> bool" where
  "is_create (OpBondCreate c) = True"
| "is_create (OpBridgeCreate c) = True"
| "is_create (OpVlanCreate c) = True"
| "is_create op = False"


section \<open>Keeping the others\<close>

definition keeps :: "(Entry \<Rightarrow> bool) \<Rightarrow> File \<Rightarrow> File \<Rightarrow> bool" where
  "keeps P f f' \<longleftrightarrow> subseq (filter P f) f'"

lemma untouched_refl [simp]: "keeps P f f"
  by (simp add: keeps_def)

lemma untouched_trans:
  assumes "keeps P f g" "keeps P g h" shows "keeps P f h"
proof -
  have "subseq (filter P (filter P f)) (filter P g)" using assms(1) unfolding keeps_def by (rule subseq_filter)
  then have "subseq (filter P f) (filter P g)" by (simp only: filter_filter conj_absorb)
  then show ?thesis using assms(2) unfolding keeps_def by (rule subseq_order.trans)
qed

lemma keeps_concat_map: "(\<And>e. P e \<Longrightarrow> g e = [e]) \<Longrightarrow> keeps P f (concat (map g f))"
proof (induction f)
  case (Cons e f)
  then have "subseq (filter P f) (concat (map g f))" by (simp add: keeps_def)
  with Cons.prems [of e] show ?case by (auto simp: keeps_def intro: list_emb_append2)
qed (simp add: keeps_def)

lemma keeps_map: "(\<And>e. P e \<Longrightarrow> g e = e) \<Longrightarrow> keeps P f (map g f)"
  using keeps_concat_map [of P "\<lambda>e. [g e]" f] by simp

lemma keeps_filter: "(\<And>e. P e \<Longrightarrow> Q e) \<Longrightarrow> keeps P f (filter Q f)"
proof -
  assume a: "\<And>e. P e \<Longrightarrow> Q e"
  have "filter P f = filter P (filter Q f)" by (simp add: filter_filter) (metis a)
  then show ?thesis unfolding keeps_def by (metis subseq_filter_left)
qed

lemma keeps_update: "i < length f \<Longrightarrow> \<not> P (f ! i) \<Longrightarrow> keeps P f (f[i := e])"
proof -
  assume i: "i < length f" "\<not> P (f ! i)"
  have "filter P f = filter P (take i f) @ filter P (drop (Suc i) f)"
    by (subst id_take_nth_drop [OF i(1)]) (simp add: i(2))
  moreover have "subseq (filter P (take i f) @ filter P (drop (Suc i) f)) (take i f @ e # drop (Suc i) f)"
    by (intro list_emb_append_mono subseq_filter_left list_emb_Cons)
  ultimately show ?thesis using i by (simp add: keeps_def upd_conv_take_nth_drop)
qed

lemma keeps_insert: "keeps P f (take i f @ [e] @ drop i f)"
proof -
  have "filter P f = filter P (take i f) @ filter P (drop i f)" by (metis append_take_drop_id filter_append)
  moreover have "subseq (filter P (take i f) @ filter P (drop i f)) (take i f @ e # drop i f)"
    by (intro list_emb_append_mono subseq_filter_left list_emb_Cons)
  ultimately show ?thesis by (simp add: keeps_def)
qed

lemma keeps_append: "keeps P f (f @ g)"
  unfolding keeps_def by (metis append_Nil2 list_emb_append_mono subseq_filter_left list_emb_Nil)

lemma find_index_Some: "find_index P xs = Some i \<Longrightarrow> i < length xs \<and> P (xs ! i)"
  by (induction xs arbitrary: i) (auto split: if_splits)

lemma keeps_on_iface:
  assumes "on_iface what f name g = Inr f'" "\<And>e. P e \<Longrightarrow> \<not> is_iface name e" shows "keeps P f f'"
proof -
  obtain i where i: "findIface f name = Some i" "f' = edit_body i g f" using assms(1) by (auto simp: on_iface_def split: option.splits)
  with find_index_Some [of "is_iface name" f i] have "i < length f" "is_iface name (f ! i)" by (auto simp: findIface_def)
  with assms(2) i(2) keeps_update show ?thesis unfolding edit_body_def by blast
qed

lemma keeps_removeAuto: "(\<And>e. P e \<Longrightarrow> \<not> names name e) \<Longrightarrow> keeps P f (removeAutoReference f name nl)"
  unfolding removeAutoReference_def by (rule keeps_concat_map) (auto simp: without_name_def names_def)

lemma keeps_delete:
  assumes "mutate_delete what f t nl = Inr f'" "\<And>e. P e \<Longrightarrow> \<not> is_iface (ref_ID t) e \<and> \<not> names (ref_ID t) e"
  shows "keeps P f f'"
proof -
  have "f' = filter (\<lambda>e. \<not> is_iface (ref_ID t) e) (removeAutoReference f (ref_ID t) nl)"
    using assms(1) by (auto simp: mutate_delete_def removeIfaceAndAuto_def split: if_splits)
  moreover have "keeps P f (removeAutoReference f (ref_ID t) nl)" using assms(2) by (intro keeps_removeAuto) blast
  ultimately show ?thesis using assms(2) keeps_filter untouched_trans by metis
qed

lemma keeps_setAutostart: "(\<And>e. P e \<Longrightarrow> \<not> names name e) \<Longrightarrow> keeps P f (setAutostart f name want nl)"
  unfolding setAutostart_def Let_def using keeps_removeAuto keeps_insert by (auto split: option.splits)

lemma keeps_removeEdge: "(\<And>e. P e \<Longrightarrow> \<not> has_marked match id1 e) \<Longrightarrow> keeps P f (fst (removeEdgeRuleLines f id1 match))"
proof -
  assume a: "\<And>e. P e \<Longrightarrow> \<not> has_marked match id1 e"
  have "e\<lparr>en_Body := filter (\<lambda>item. \<not> marked match id1 item) (en_Body e)\<rparr> = e" if "P e" "en_Kind e = KindIface" for e
  proof -
    have "filter (\<lambda>item. \<not> marked match id1 item) (en_Body e) = en_Body e"
      using a [OF that(1)] that(2) by (auto simp: has_marked_def filter_id_conv)
    then show ?thesis by simp
  qed
  then show ?thesis unfolding removeEdgeRuleLines_def by (auto intro: keeps_map)
qed

lemma keeps_remove_rule:
  assumes "remove_rule what match f t = Inr f'" "\<And>e. P e \<Longrightarrow> \<not> has_marked match (ref_ID t) e" shows "keeps P f f'"
proof -
  have "f' = fst (removeEdgeRuleLines f (ref_ID t) match)"
    using assms(1) by (auto simp: remove_rule_def split: prod.splits if_splits)
  with assms(2) keeps_removeEdge show ?thesis by blast
qed

lemma keeps_append_pairs: "append_pairs name nl cs f = Inr f' \<Longrightarrow> (\<And>e. P e \<Longrightarrow> \<not> is_iface name e) \<Longrightarrow> keeps P f f'"
proof (induction cs arbitrary: f)
  case (Cons c cs)
  then obtain g where g: "on_iface ''vf.provision'' f name (\<lambda>body. insertBeforeTrailingBlanks body (pair_items c nl) nl) = Inr g"
    "append_pairs name nl cs g = Inr f'" by (auto split: sum.splits)
  from keeps_on_iface [OF g(1)] Cons.IH [OF g(2)] Cons.prems(2) show ?case using untouched_trans by blast
qed simp

lemma rename_item_same: "\<not> (bi_Kind item = BodyOption \<and> bi_Key item \<in> set referenceKeys \<and> old \<in> set (go_Fields (bi_Value item))) \<Longrightarrow> rename_item old n item = item"
  by (auto simp: rename_item_def replaceValueToken_def Let_def)

lemma rename_entry_same:
  assumes "\<not> is_iface old e" "\<not> names old e" "\<not> refers old e" shows "rename_entry old n e = e"
proof (cases "en_Kind e = KindIface")
  case True
  then have "map (rename_item old n) (en_Body e) = en_Body e"
    using assms(3) by (intro map_idI rename_item_same) (auto simp: refers_def)
  with True assms(1) show ?thesis by (simp add: rename_entry_def renameBodyReferences_def is_iface_def)
qed (use assms in \<open>auto simp: rename_entry_def names_def\<close>)

lemma prefix_stanza: "prefix f (appendStanzaRaw f p e nl)" "prefix f (appendStanza f b n e nl)"
proof -
  have "prefix f (prepareAppend f nl)" by (simp add: prepareAppend_def Let_def)
  then show a: "prefix f (appendStanzaRaw f p e nl)" for p by (simp add: appendStanzaRaw_def)
  show "prefix f (appendStanza f b n e nl)" unfolding appendStanza_def by (rule a)
qed

lemma create_prefix:
  "mutateBondCreate f x cs nl = Inr f' \<Longrightarrow> prefix f f'"
  "mutateBridgeCreate f y cs nl = Inr f' \<Longrightarrow> prefix f f'"
  "mutateVlanCreate f z cs nl = Inr f' \<Longrightarrow> prefix f f'"
  by (auto simp: mutateBondCreate_def mutateBridgeCreate_def mutateVlanCreate_def Let_def prefix_stanza simp del: prefix_def split: if_splits)


section \<open>The frame of an operation\<close>

lemma keeps_iface_update:
  assumes "mutateIfaceUpdate f u nl = Inr f'"
  shows "keeps (\<lambda>e. \<not> concerns (OpIfaceUpdate u) f e) f f'"
proof -
  obtain g where g: "on_iface ''iface.update'' f (ref_ID (iu_Target u)) (iface_update_body u nl) = Inr g"
    "f' = (case iu_Autostart u of None \<Rightarrow> g | Some b \<Rightarrow> setAutostart g (ref_ID (iu_Target u)) b nl)"
    using assms by (auto simp: mutateIfaceUpdate_def split: sum.splits)
  have "keeps (\<lambda>e. \<not> concerns (OpIfaceUpdate u) f e) f g" using g(1) by (rule keeps_on_iface) simp
  moreover have "keeps (\<lambda>e. \<not> concerns (OpIfaceUpdate u) f e) g f'" using g(2) by (auto intro: keeps_setAutostart split: option.splits)
  ultimately show ?thesis by (rule untouched_trans)
qed

lemma keeps_portforward_update:
  assumes "mutateNatPortForwardUpdate f u nl = Inr f'"
  shows "keeps (\<lambda>e. \<not> concerns (OpNatPortForwardUpdate u) f e) f f'"
proof -
  let ?g = "fst (removeEdgeRuleLines f (ref_ID (pu_Target u)) natPortForwardMatcher)"
  obtain cur where c: "findNatPortForwardConfig f (ref_ID (pu_Target u)) = Some cur"
    "appendRulePair ?g (np_Iface (merge_portforward u cur)) (NatPortForwardCommands (merge_portforward u cur)) nl = Inr f'"
    using assms by (auto simp: mutateNatPortForwardUpdate_def Let_def split: option.splits)
  have "keeps (\<lambda>e. \<not> concerns (OpNatPortForwardUpdate u) f e) f ?g" by (rule keeps_removeEdge) simp
  moreover have "keeps (\<lambda>e. \<not> concerns (OpNatPortForwardUpdate u) f e) ?g f'"
    using c unfolding appendRulePair_def by (elim keeps_on_iface) simp
  ultimately show ?thesis by (rule untouched_trans)
qed

lemma keeps_route_update:
  assumes "mutateRouteStaticUpdate f u nl = Inr f'"
  shows "keeps (\<lambda>e. \<not> concerns (OpRouteStaticUpdate u) f e) f f'"
proof -
  let ?g = "fst (removeEdgeRuleLines f (ref_ID (ru_Target u)) staticRouteMatcher)"
  obtain cur where c: "findStaticRouteConfig f (ref_ID (ru_Target u)) = Some cur"
    "appendRulePair ?g (sr_Iface (merge_route u cur)) (StaticRouteCommands (merge_route u cur)) nl = Inr f'"
    using assms by (auto simp: mutateRouteStaticUpdate_def Let_def split: option.splits)
  have "keeps (\<lambda>e. \<not> concerns (OpRouteStaticUpdate u) f e) f ?g" by (rule keeps_removeEdge) simp
  moreover have "keeps (\<lambda>e. \<not> concerns (OpRouteStaticUpdate u) f e) ?g f'"
    using c unfolding appendRulePair_def by (elim keeps_on_iface) simp
  ultimately show ?thesis by (rule untouched_trans)
qed

lemma keeps_rename:
  assumes "mutateIfaceRename f t n = Inr f'"
  shows "keeps (\<lambda>e. \<not> concerns (OpIfaceRename t n) f e) f f'"
proof -
  have "keeps (\<lambda>e. \<not> concerns (OpIfaceRename t n) f e) f (map (rename_entry (ref_ID t) n) f)"
    by (rule keeps_map, rule rename_entry_same) simp_all
  then show ?thesis using assms by (auto simp: mutateIfaceRename_def Let_def split: if_splits)
qed

text \<open>C14. Every entry an operation is not about is in the new file, unchanged and in the same order; the new file of a create
  begins with the old one.\<close>

theorem mutate_keeps_others:
  assumes m: "Mutate f op changesetID = Inr f'"
  shows "subseq (filter (\<lambda>e. \<not> concerns op f e) f) f' \<and> (is_create op \<longrightarrow> prefix f f')"
proof -
  note m' = m [unfolded Mutate_def Let_def]
  have create: "prefix f f'" if "is_create op"
    using m' that create_prefix by (cases op) auto
  have "keeps (\<lambda>e. \<not> concerns op f e) f f'"
  proof (cases "is_create op")
    case True
    then show ?thesis using create keeps_append by (auto simp: prefix_def)
  next
    case False
    show ?thesis
    proof (cases op)
      case (OpIfaceUpdate u)
      then show ?thesis using m' keeps_iface_update by auto
    next
      case (OpNatPortForwardUpdate u)
      then show ?thesis using m' keeps_portforward_update by auto
    next
      case (OpRouteStaticUpdate u)
      then show ?thesis using m' keeps_route_update by auto
    next
      case (OpIfaceRename t n)
      then show ?thesis using m' keeps_rename by auto
    next
      case (OpIfaceRawReplace t c)
      then show ?thesis by (simp add: keeps_def)
    qed (use m' False in \<open>auto simp: mutateBondUpdate_def mutateBridgeUpdate_def mutateVlanUpdate_def mutateBridgePortAdd_def
        mutateBridgePortRemove_def mutateBondDelete_def mutateBridgeDelete_def mutateVlanDelete_def mutateNatMasqueradeCreate_def
        mutateNatPortForwardCreate_def mutateRouteStaticCreate_def mutateNatMasqueradeDelete_def mutateNatPortForwardDelete_def
        mutateRouteStaticDelete_def mutateVFProvision_def appendRulePair_def Let_def split: option.splits
        elim!: keeps_on_iface keeps_delete keeps_remove_rule keeps_append_pairs\<close>)
  qed
  with create show ?thesis by (simp add: keeps_def)
qed

definition two_ifaces :: File where
  "two_ifaces = [newIfaceEntry ''eth0'' ''inet'' ''manual'' LF, newIfaceEntry ''bond0'' ''inet'' ''manual'' LF]"

theorem mutate_keeps_others_witness:
  "\<exists>f'. Mutate two_ifaces (OpBondDelete (mkRef ''bond'' ''n1'' ''bond0'')) ''c1'' = Inr f' \<and>
     subseq [newIfaceEntry ''eth0'' ''inet'' ''manual'' LF] f' \<and> f' \<noteq> two_ifaces"
proof -
  let ?op = "OpBondDelete (mkRef ''bond'' ''n1'' ''bond0'')"
  have "case Mutate two_ifaces ?op ''c1'' of Inl _ \<Rightarrow> False | Inr f' \<Rightarrow> f' \<noteq> two_ifaces" by code_simp
  then obtain f' where f': "Mutate two_ifaces ?op ''c1'' = Inr f'" "f' \<noteq> two_ifaces" by (auto split: sum.splits)
  have "filter (\<lambda>e. \<not> concerns ?op two_ifaces e) two_ifaces = [newIfaceEntry ''eth0'' ''inet'' ''manual'' LF]"
    by (simp add: two_ifaces_def is_iface_def names_def newIfaceEntry_def zero_Entry_def list_kind_def)
  with mutate_keeps_others [OF f'(1)] f' show ?thesis by auto
qed


section \<open>A rename is complete\<close>

lemma Fields_renamed:
  assumes "token n" shows "go_Fields (go_Join '' '' (map (\<lambda>t. if t = old then n else t) (go_Fields v))) = map (\<lambda>t. if t = old then n else t) (go_Fields v)"
  by (rule go_Fields_Join) (use assms go_Fields_tokens in \<open>auto simp: list_all_iff\<close>)

lemma rename_item_gone:
  assumes "token n" "n \<noteq> old" "bi_Kind item = BodyOption" "bi_Key item \<in> set referenceKeys"
  shows "old \<notin> set (go_Fields (bi_Value (rename_item old n item)))"
  using assms Fields_renamed [OF assms(1), of old "bi_Value item"] by (auto simp: rename_item_def replaceValueToken_def Let_def)

lemma rename_item_sel [simp]: "bi_Kind (rename_item old n item) = bi_Kind item" "bi_Key (rename_item old n item) = bi_Key item"
  by (auto simp: rename_item_def split: prod.splits)

text \<open>After a rename to another name nothing in the tree has the old name: no stanza, no line that lists names and no option that refers to
  interfaces.\<close>

theorem rename_complete:
  assumes "Mutate f (OpIfaceRename t n) cs = Inr f'" "token n" "n \<noteq> ref_ID t"
  shows "\<forall>e\<in>set f'. \<not> is_iface (ref_ID t) e \<and> \<not> names (ref_ID t) e \<and> \<not> refers (ref_ID t) e"
proof
  fix e assume "e \<in> set f'"
  moreover have "f' = map (rename_entry (ref_ID t) n) f"
    using assms(1,3) by (auto simp: Mutate_def mutateIfaceRename_def Let_def split: if_splits)
  ultimately obtain x where e: "e = rename_entry (ref_ID t) n x" by auto
  show "\<not> is_iface (ref_ID t) e \<and> \<not> names (ref_ID t) e \<and> \<not> refers (ref_ID t) e"
  proof (cases "en_Kind x = KindIface")
    case True
    have b: "en_Body e = map (rename_item (ref_ID t) n) (en_Body x)" "en_Kind e = KindIface" "en_Name e \<noteq> ref_ID t"
      using True assms(3) by (auto simp: e rename_entry_def renameBodyReferences_def)
    then show ?thesis using rename_item_gone [OF assms(2,3)] by (auto simp: is_iface_def names_def list_kind_def refers_def)
  next
    case False
    then show ?thesis using assms(3) by (auto simp: e rename_entry_def is_iface_def names_def refers_def)
  qed
qed

theorem rename_complete_witness:
  "\<exists>f'. Mutate two_ifaces (OpIfaceRename (mkRef ''bond'' ''n1'' ''bond0'') ''bond9'') ''c1'' = Inr f' \<and> (\<forall>e\<in>set f'. \<not> is_iface ''bond0'' e)"
proof -
  let ?op = "OpIfaceRename (mkRef ''bond'' ''n1'' ''bond0'') ''bond9''"
  have "case Mutate two_ifaces ?op ''c1'' of Inl _ \<Rightarrow> False | Inr f' \<Rightarrow> True" by code_simp
  then obtain f' where f': "Mutate two_ifaces ?op ''c1'' = Inr f'" by (auto split: sum.splits)
  have "token ''bond9''" by (simp add: token_def go_isspace_def)
  with rename_complete [OF f'] f' show ?thesis by auto
qed

end
