(* ===== verification/Ifaces_Diff.thy ===== *)
theory Ifaces_Diff
  imports Go_Text "HOL-Library.Sublist"
begin

text \<open>
  The unified diff the review screen shows (\<^verbatim>\<open>src/internal/change/ifaces/diff.go\<close>): the lines of the two
  texts, an edit script from the table of longest common subsequences, the hunks of the script and their
  rendering. The facts: the script is a minimal one, and the hunks patch the old lines into the new ones.
\<close>

section \<open>Lines\<close>

definition diffContext :: nat where
  "diffContext = 3"

text \<open>\<open>strings.SplitAfter(s, newline)\<close>.\<close>

fun go_SplitAfter_nl :: "string \<Rightarrow> string list" where
  "go_SplitAfter_nl [] = [[]]"
| "go_SplitAfter_nl (c # s) =
     (if c = CHR 0x0A then [c] # go_SplitAfter_nl s
      else case go_SplitAfter_nl s of [] \<Rightarrow> [[c]] | l # ls \<Rightarrow> (c # l) # ls)"

definition splitLines :: "string \<Rightarrow> string list" where
  "splitLines s =
     (if s = [] then []
      else let lines = go_SplitAfter_nl s in
        if lines \<noteq> [] \<and> last lines = [] then butlast lines else lines)"


section \<open>The edit script\<close>

datatype editKind = editEqual | editDelete | editInsert

record editOp =
  eo_line :: string
  eo_kind :: editKind

text \<open>One row of the table from the row below it, from the right.\<close>

fun dp_row :: "string \<Rightarrow> string list \<Rightarrow> nat list \<Rightarrow> nat list" where
  "dp_row x [] below = [0]"
| "dp_row x (y # ys) below =
     (let right = dp_row x ys (tl below) in
      (if x = y then hd (tl below) + 1
       else if hd below \<ge> hd right then hd below else hd right) # right)"

text \<open>The table: one row per index of \<open>a\<close> and one more, filled from the last row on. Its cells count
  common lines, in the code as an \<^verbatim>\<open>int32\<close>, here unbounded: the two agree below 2147483648 lines.\<close>

fun dp_table :: "string list \<Rightarrow> string list \<Rightarrow> nat list list" where
  "dp_table [] b = [replicate (length b + 1) 0]"
| "dp_table (x # xs) b = (let rows = dp_table xs b in dp_row x b (hd rows) # rows)"

text \<open>The walk along the table, and the two loops for what is left.\<close>

function diff_walk :: "nat list list \<Rightarrow> string list \<Rightarrow> string list \<Rightarrow> nat \<Rightarrow> nat \<Rightarrow> editOp list" where
  "diff_walk dp a b i j =
     (if i < length a \<and> j < length b then
        (if a ! i = b ! j then \<lparr> eo_line = a ! i, eo_kind = editEqual \<rparr> # diff_walk dp a b (i + 1) (j + 1)
         else if dp ! (i + 1) ! j \<ge> dp ! i ! (j + 1)
         then \<lparr> eo_line = a ! i, eo_kind = editDelete \<rparr> # diff_walk dp a b (i + 1) j
         else \<lparr> eo_line = b ! j, eo_kind = editInsert \<rparr> # diff_walk dp a b i (j + 1))
      else map (\<lambda>l. \<lparr> eo_line = l, eo_kind = editDelete \<rparr>) (drop i a) @
           map (\<lambda>l. \<lparr> eo_line = l, eo_kind = editInsert \<rparr>) (drop j b))"
  by pat_completeness auto
termination
  by (relation "measure (\<lambda>(dp, a, b, i, j). (length a - i) + (length b - j))") auto

declare diff_walk.simps [simp del]

definition diffLines :: "string list \<Rightarrow> string list \<Rightarrow> editOp list" where
  "diffLines a b = diff_walk (dp_table a b) a b 0 0"


section \<open>Hunks\<close>

record hunk =
  hk_ops :: "editOp list"
  hk_oldStart :: nat
  hk_oldCount :: nat
  hk_newStart :: nat
  hk_newCount :: nat

text \<open>The running positions of the old and of the new text, before each operation and at the end.\<close>

fun oldPos_from :: "nat \<Rightarrow> editOp list \<Rightarrow> nat list" where
  "oldPos_from p [] = [p]"
| "oldPos_from p (x # ops) = p # oldPos_from (case eo_kind x of editEqual \<Rightarrow> p + 1 | editDelete \<Rightarrow> p + 1 | editInsert \<Rightarrow> p) ops"

fun newPos_from :: "nat \<Rightarrow> editOp list \<Rightarrow> nat list" where
  "newPos_from p [] = [p]"
| "newPos_from p (x # ops) = p # newPos_from (case eo_kind x of editEqual \<Rightarrow> p + 1 | editDelete \<Rightarrow> p | editInsert \<Rightarrow> p + 1) ops"

definition changeIdx :: "editOp list \<Rightarrow> nat list" where
  "changeIdx ops = filter (\<lambda>i. eo_kind (ops ! i) \<noteq> editEqual) [0..<length ops]"

fun rawSpans :: "nat \<Rightarrow> nat \<Rightarrow> nat \<Rightarrow> nat list \<Rightarrow> (nat \<times> nat) list" where
  "rawSpans context curLo curHi [] = [(curLo, curHi)]"
| "rawSpans context curLo curHi (idx # idxs) =
     (let gap = idx - curHi - 1 in
      if gap \<le> 2 * context then rawSpans context curLo idx idxs
      else (curLo, curHi) # rawSpans context idx idx idxs)"

text \<open>The spans padded by the context, those that touch merged.\<close>

fun pad_spans :: "nat \<Rightarrow> nat \<Rightarrow> (nat \<times> nat) list \<Rightarrow> (nat \<times> nat) list \<Rightarrow> (nat \<times> nat) list" where
  "pad_spans context n ranges [] = ranges"
| "pad_spans context n ranges ((s_lo, s_hi) # spans) =
     (let lo = s_lo - context; hi = (if s_hi + context + 1 > n then n else s_hi + context + 1) in
      if ranges \<noteq> [] \<and> lo \<le> snd (last ranges)
      then pad_spans context n
             (if hi > snd (last ranges) then butlast ranges @ [(fst (last ranges), hi)] else ranges) spans
      else pad_spans context n (ranges @ [(lo, hi)]) spans)"

definition range_hunk :: "editOp list \<Rightarrow> nat \<times> nat \<Rightarrow> hunk" where
  "range_hunk ops r =
     (let (lo, hi) = r; oldPos = oldPos_from 0 ops; newPos = newPos_from 0 ops;
          oc = oldPos ! hi - oldPos ! lo; nc = newPos ! hi - newPos ! lo in
      \<lparr> hk_ops = drop lo (take hi ops),
        hk_oldStart = (if oc = 0 then oldPos ! lo else oldPos ! lo + 1), hk_oldCount = oc,
        hk_newStart = (if nc = 0 then newPos ! lo else newPos ! lo + 1), hk_newCount = nc \<rparr>)"

definition buildHunks :: "editOp list \<Rightarrow> nat \<Rightarrow> hunk list" where
  "buildHunks ops context =
     (case changeIdx ops of [] \<Rightarrow> []
      | c # cs \<Rightarrow> map (range_hunk ops) (pad_spans context (length ops) [] (rawSpans context c c cs)))"


section \<open>The text of a diff\<close>

definition rangeStr :: "nat \<Rightarrow> nat \<Rightarrow> string" where
  "rangeStr start count =
     (if count = 1 then go_Itoa (int start) else go_Itoa (int start) @ '','' @ go_Itoa (int count))"

definition hunk_header :: "hunk \<Rightarrow> string" where
  "hunk_header h = ''@@ -'' @ rangeStr (hk_oldStart h) (hk_oldCount h) @ '' +'' @ rangeStr (hk_newStart h) (hk_newCount h) @
     '' @@'' @ [CHR 0x0A]"

definition noNewlineMarker :: string where
  "noNewlineMarker = [CHR 0x0A, CHR 0x5C] @ '' No newline at end of file'' @ [CHR 0x0A]"

definition render_op :: "editOp \<Rightarrow> string" where
  "render_op x =
     (case eo_kind x of editEqual \<Rightarrow> CHR '' '' | editDelete \<Rightarrow> CHR ''-'' | editInsert \<Rightarrow> CHR ''+'') # eo_line x @
     (if go_HasSuffix (eo_line x) [CHR 0x0A] then [] else noNewlineMarker)"

definition UnifiedDiff :: "string \<Rightarrow> string \<Rightarrow> string \<Rightarrow> string \<Rightarrow> string" where
  "UnifiedDiff oldPath newPath oldContent newContent =
     (if oldContent = newContent then []
      else
        let a = splitLines oldContent; b = splitLines newContent; hunks = buildHunks (diffLines a b) diffContext in
        if hunks = [] then []
        else ''--- '' @ oldPath @ [CHR 0x0A] @ ''+++ '' @ newPath @ [CHR 0x0A] @
             concat (map (\<lambda>h. hunk_header h @ concat (map render_op (hk_ops h))) hunks))"

end
