(* ===== verification/Diff_Props.thy ===== *)
theory Diff_Props
  imports Ifaces_Diff
begin

text \<open>
  What the diff promises: the script is minimal, a strict patch takes the old lines to the new ones, and
  the text is empty only for equal contents.
\<close>

section \<open>The script\<close>

definition old_side :: "editOp list \<Rightarrow> string list" where
  "old_side ops = map eo_line (filter (\<lambda>x. eo_kind x \<noteq> editInsert) ops)"

definition new_side :: "editOp list \<Rightarrow> string list" where
  "new_side ops = map eo_line (filter (\<lambda>x. eo_kind x \<noteq> editDelete) ops)"

definition kept :: "editOp list \<Rightarrow> string list" where
  "kept ops = map eo_line (filter (\<lambda>x. eo_kind x = editEqual) ops)"

text \<open>The length of a longest common subsequence.\<close>

fun lcs :: "'a list \<Rightarrow> 'a list \<Rightarrow> nat" where
  "lcs [] ys = 0"
| "lcs (x # xs) [] = 0"
| "lcs (x # xs) (y # ys) = (if x = y then lcs xs ys + 1 else max (lcs xs (y # ys)) (lcs (x # xs) ys))"

lemma lcs_Nil2 [simp]: "lcs xs [] = 0"
  by (cases xs) simp_all

lemma lcs_bound: "subseq zs xs \<Longrightarrow> subseq zs ys \<Longrightarrow> length zs \<le> lcs xs ys"
proof (induction xs ys arbitrary: zs rule: lcs.induct)
  case (3 x xs y ys)
  show ?case
  proof (cases "x = y")
    case True
    show ?thesis
    proof (cases zs)
      case (Cons z zs')
      then have "subseq zs' xs" "subseq zs' ys"
        using "3.prems" True by (metis subseq_Cons' subseq_Cons2' subseq_Cons2_neq)+
      with "3.IH"(1) True Cons show ?thesis by fastforce
    qed simp
  next
    case False
    then have "subseq zs xs \<or> subseq zs ys"
      using "3.prems" by (cases zs) (auto split: if_splits)
    then show ?thesis using "3.IH"(2,3) False "3.prems" by fastforce
  qed
qed simp_all

text \<open>The rows of the table hold these lengths.\<close>

fun lcs_row :: "string list \<Rightarrow> string list \<Rightarrow> nat list" where
  "lcs_row xs [] = [0]"
| "lcs_row xs (y # ys) = lcs xs (y # ys) # lcs_row xs ys"

lemma lcs_row_hd [simp]: "hd (lcs_row xs b) = lcs xs b"
  by (cases b) simp_all

lemma lcs_row_nth: "j \<le> length b \<Longrightarrow> lcs_row xs b ! j = lcs xs (drop j b)"
  by (induction b arbitrary: j) (auto simp: nth_Cons split: nat.splits)

lemma lcs_row_zero: "lcs_row [] b = replicate (length b + 1) 0"
  by (induction b) simp_all

lemma dp_row_lcs: "dp_row x b (lcs_row xs b) = lcs_row (x # xs) b"
  by (induction b) (auto simp: Let_def max_def)

lemma dp_table_hd [simp]: "hd (dp_table a b) = lcs_row a b"
  by (induction a) (simp_all add: Let_def dp_row_lcs lcs_row_zero)

lemma dp_table_nth: "i \<le> length a \<Longrightarrow> dp_table a b ! i = lcs_row (drop i a) b"
proof (induction a arbitrary: i)
  case (Cons x a)
  then show ?case by (cases i) (simp_all add: Let_def dp_row_lcs)
qed (simp add: lcs_row_zero)

lemma dp_table_lcs: "i \<le> length a \<Longrightarrow> j \<le> length b \<Longrightarrow> dp_table a b ! i ! j = lcs (drop i a) (drop j b)"
  by (simp add: dp_table_nth lcs_row_nth)

lemma side_simps [simp]:
  "old_side [] = []" "new_side [] = []" "kept [] = []"
  "old_side (x # ops) = (if eo_kind x = editInsert then old_side ops else eo_line x # old_side ops)"
  "new_side (x # ops) = (if eo_kind x = editDelete then new_side ops else eo_line x # new_side ops)"
  "kept (x # ops) = (if eo_kind x = editEqual then eo_line x # kept ops else kept ops)"
  by (simp_all add: old_side_def new_side_def kept_def)

lemma side_append [simp]:
  "old_side (ops @ ops') = old_side ops @ old_side ops'"
  "new_side (ops @ ops') = new_side ops @ new_side ops'"
  "kept (ops @ ops') = kept ops @ kept ops'"
  by (simp_all add: old_side_def new_side_def kept_def)

lemma side_map:
  "old_side (map (\<lambda>l. \<lparr> eo_line = l, eo_kind = editDelete \<rparr>) ls) = ls"
  "new_side (map (\<lambda>l. \<lparr> eo_line = l, eo_kind = editDelete \<rparr>) ls) = []"
  "old_side (map (\<lambda>l. \<lparr> eo_line = l, eo_kind = editInsert \<rparr>) ls) = []"
  "new_side (map (\<lambda>l. \<lparr> eo_line = l, eo_kind = editInsert \<rparr>) ls) = ls"
  "kept (map (\<lambda>l. \<lparr> eo_line = l, eo_kind = editDelete \<rparr>) ls) = []"
  "kept (map (\<lambda>l. \<lparr> eo_line = l, eo_kind = editInsert \<rparr>) ls) = []"
  by (induction ls) simp_all

lemma diff_walk_ok:
  assumes "i \<le> length a" "j \<le> length b"
  shows "old_side (diff_walk (dp_table a b) a b i j) = drop i a \<and>
         new_side (diff_walk (dp_table a b) a b i j) = drop j b \<and>
         length (kept (diff_walk (dp_table a b) a b i j)) = lcs (drop i a) (drop j b)"
  using assms
proof (induction "(length a - i) + (length b - j)" arbitrary: i j rule: less_induct)
  case less
  show ?case
  proof (cases "i < length a \<and> j < length b")
    case True
    then have d: "drop i a = a ! i # drop (i + 1) a" "drop j b = b ! j # drop (j + 1) b"
      by (simp_all add: Cons_nth_drop_Suc)
    have ih: "old_side (diff_walk (dp_table a b) a b i' j') = drop i' a \<and>
         new_side (diff_walk (dp_table a b) a b i' j') = drop j' b \<and>
         length (kept (diff_walk (dp_table a b) a b i' j')) = lcs (drop i' a) (drop j' b)"
      if "i \<le> i'" "j \<le> j'" "i + j < i' + j'" "i' \<le> length a" "j' \<le> length b" for i' j'
      using that by (intro less.hyps) auto
    note ihs = ih [of "i + 1" "j + 1"] ih [of "i + 1" j] ih [of i "j + 1"]
    show ?thesis
      using True ihs dp_table_lcs [of "i + 1" a j b] dp_table_lcs [of i a "j + 1" b]
      by (subst (1 2 3) diff_walk.simps) (simp add: d del: drop_Suc)
  next
    case False
    then have "drop i a = [] \<or> drop j b = []" by auto
    with False show ?thesis by (subst (1 2 3) diff_walk.simps) (auto simp: side_map)
  qed
qed

lemma diffLines_ok:
  "old_side (diffLines a b) = a" "new_side (diffLines a b) = b" "length (kept (diffLines a b)) = lcs a b"
  using diff_walk_ok [of 0 a 0 b] by (simp_all add: diffLines_def)

lemma kept_subseq: "subseq (kept ops) (old_side ops)" "subseq (kept ops) (new_side ops)"
  by (induction ops) (auto intro: list_emb_Cons)

text \<open>C32. The script reads the old lines on its one side and the new lines on the other, and no script keeps more lines.\<close>

theorem diffLines_minimal:
  "old_side (diffLines a b) = a \<and> new_side (diffLines a b) = b \<and>
   (old_side ops = a \<longrightarrow> new_side ops = b \<longrightarrow> length (kept ops) \<le> length (kept (diffLines a b)))"
  using diffLines_ok [of a b] lcs_bound [of "kept ops" a b] kept_subseq [of ops] by auto

theorem diffLines_minimal_witness:
  "length (kept [\<lparr> eo_line = ''a'', eo_kind = editDelete \<rparr>, \<lparr> eo_line = ''b'', eo_kind = editEqual \<rparr>]) \<le> length (kept (diffLines [''a'', ''b''] [''b'']))"
  using diffLines_minimal [of "[''a'', ''b'']" "[''b'']" "[\<lparr> eo_line = ''a'', eo_kind = editDelete \<rparr>, \<lparr> eo_line = ''b'', eo_kind = editEqual \<rparr>]"]
  by simp


section \<open>The hunks\<close>

text \<open>A strict patch: each hunk must stand at its stated place of both texts, and its old lines must be there.\<close>

definition before :: "nat \<Rightarrow> nat \<Rightarrow> nat" where
  "before start count = (if count = 0 then start else start - 1)"

fun patch :: "nat \<Rightarrow> nat \<Rightarrow> string list \<Rightarrow> hunk list \<Rightarrow> string list option" where
  "patch p q old [] = Some old"
| "patch p q old (h # hs) =
     (let skip = before (hk_oldStart h) (hk_oldCount h) - p; rest = drop skip old in
      if p \<le> before (hk_oldStart h) (hk_oldCount h) \<and> skip \<le> length old \<and>
         before (hk_newStart h) (hk_newCount h) = q + skip \<and>
         length (new_side (hk_ops h)) = hk_newCount h \<and>
         take (hk_oldCount h) rest = old_side (hk_ops h) \<and> length (old_side (hk_ops h)) = hk_oldCount h
      then map_option (\<lambda>r. take skip old @ new_side (hk_ops h) @ r)
             (patch (p + skip + hk_oldCount h) (q + skip + hk_newCount h) (drop (hk_oldCount h) rest) hs)
      else None)"

lemma oldPos_nth: "k \<le> length ops \<Longrightarrow> oldPos_from p ops ! k = p + length (old_side (take k ops))"
proof (induction ops arbitrary: p k)
  case (Cons x ops)
  then show ?case by (cases k; cases "eo_kind x") simp_all
qed simp

lemma newPos_nth: "k \<le> length ops \<Longrightarrow> newPos_from p ops ! k = p + length (new_side (take k ops))"
proof (induction ops arbitrary: p k)
  case (Cons x ops)
  then show ?case by (cases k; cases "eo_kind x") simp_all
qed simp

text \<open>The ranges of a script that leave out equal lines only.\<close>

fun ranges_ok :: "editOp list \<Rightarrow> nat \<Rightarrow> (nat \<times> nat) list \<Rightarrow> bool" where
  "ranges_ok ops p [] \<longleftrightarrow> (\<forall>x\<in>set (drop p ops). eo_kind x = editEqual)"
| "ranges_ok ops p ((lo, hi) # rs) \<longleftrightarrow>
     p \<le> lo \<and> lo \<le> hi \<and> hi \<le> length ops \<and> (\<forall>x\<in>set (drop p (take lo ops)). eo_kind x = editEqual) \<and> ranges_ok ops hi rs"

lemma equal_sides: "\<forall>x\<in>set ops. eo_kind x = editEqual \<Longrightarrow> old_side ops = new_side ops"
  by (induction ops) simp_all

lemma range_hunk_sel:
  assumes "lo \<le> hi" "hi \<le> length ops"
  shows "hk_ops (range_hunk ops (lo, hi)) = drop lo (take hi ops)"
    "hk_oldCount (range_hunk ops (lo, hi)) = length (old_side (drop lo (take hi ops)))"
    "hk_newCount (range_hunk ops (lo, hi)) = length (new_side (drop lo (take hi ops)))"
    "before (hk_oldStart (range_hunk ops (lo, hi))) (hk_oldCount (range_hunk ops (lo, hi))) = length (old_side (take lo ops))"
    "before (hk_newStart (range_hunk ops (lo, hi))) (hk_newCount (range_hunk ops (lo, hi))) = length (new_side (take lo ops))"
proof -
  have t: "take hi ops = take lo ops @ drop lo (take hi ops)"
    using assms by (metis append_take_drop_id min.absorb1 take_take)
  have "length (old_side (take hi ops)) = length (old_side (take lo ops)) + length (old_side (drop lo (take hi ops)))"
    "length (new_side (take hi ops)) = length (new_side (take lo ops)) + length (new_side (drop lo (take hi ops)))"
    by (subst t, simp)+
  then show "hk_ops (range_hunk ops (lo, hi)) = drop lo (take hi ops)"
    "hk_oldCount (range_hunk ops (lo, hi)) = length (old_side (drop lo (take hi ops)))"
    "hk_newCount (range_hunk ops (lo, hi)) = length (new_side (drop lo (take hi ops)))"
    "before (hk_oldStart (range_hunk ops (lo, hi))) (hk_oldCount (range_hunk ops (lo, hi))) = length (old_side (take lo ops))"
    "before (hk_newStart (range_hunk ops (lo, hi))) (hk_newCount (range_hunk ops (lo, hi))) = length (new_side (take lo ops))"
    using assms by (simp_all add: range_hunk_def Let_def oldPos_nth newPos_nth before_def)
qed

lemma drop_take_split: "p \<le> lo \<Longrightarrow> drop p ops = drop p (take lo ops) @ drop lo ops"
  by (metis append_take_drop_id drop_append drop_drop le_add_diff_inverse2 drop_take take_drop)

lemma take_split: "p \<le> lo \<Longrightarrow> take lo ops = take p ops @ drop p (take lo ops)"
  by (metis append_take_drop_id min.absorb1 take_take)

lemma patch_ranges:
  assumes "ranges_ok ops p rs"
  shows "patch (length (old_side (take p ops))) (length (new_side (take p ops))) (old_side (drop p ops)) (map (range_hunk ops) rs)
    = Some (new_side (drop p ops))"
  using assms
proof (induction rs arbitrary: p)
  case (Cons r rs)
  obtain lo hi where r: "r = (lo, hi)" by fastforce
  note ok = Cons.prems [unfolded r, simplified]
  define s1 s2 where "s1 = drop p (take lo ops)" and "s2 = drop lo (take hi ops)"
  have t: "take lo ops = take p ops @ s1" "drop p ops = s1 @ drop lo ops" "drop lo ops = s2 @ drop hi ops"
    "take hi ops = take lo ops @ s2"
    unfolding s1_def s2_def using ok take_split drop_take_split by blast+
  have e: "old_side s1 = new_side s1" using ok equal_sides unfolding s1_def by blast
  note sel = range_hunk_sel [of lo hi ops, folded s2_def]
  have ih: "patch (length (old_side (take hi ops))) (length (new_side (take hi ops))) (old_side (drop hi ops)) (map (range_hunk ops) rs)
    = Some (new_side (drop hi ops))" using Cons.IH ok by blast
  have tl: "take hi ops = take p ops @ s1 @ s2" "drop p ops = s1 @ s2 @ drop hi ops" using t by simp_all
  have "lo \<le> hi" "hi \<le> length ops" using ok by auto
  note sel' = sel [OF this]
  show ?case
    unfolding r list.map patch.simps Let_def
    unfolding sel'(4,5)
    unfolding sel'(1,2,3) t(1) tl(2)
    using ih [unfolded tl(1)] e by (simp add: add.assoc)
qed (simp add: equal_sides)

text \<open>Grouping and padding lose no change and keep the ranges apart.\<close>

definition apart :: "nat \<Rightarrow> (nat \<times> nat) list \<Rightarrow> bool" where
  "apart n rs \<longleftrightarrow> sorted_wrt (\<lambda>r s. snd r < fst s) rs \<and> (\<forall>r\<in>set rs. fst r \<le> snd r \<and> snd r \<le> n)"

lemma apart_ranges_ok:
  assumes "apart (length ops) rs" "\<forall>r\<in>set rs. p \<le> fst r"
    "\<And>k. p \<le> k \<Longrightarrow> k < length ops \<Longrightarrow> eo_kind (ops ! k) \<noteq> editEqual \<Longrightarrow> \<exists>r\<in>set rs. fst r \<le> k \<and> k < snd r"
  shows "ranges_ok ops p rs"
  using assms
proof (induction rs arbitrary: p)
  case Nil
  have "eo_kind x = editEqual" if "x \<in> set (drop p ops)" for x
  proof -
    obtain m where "m < length ops - p" "x = ops ! (p + m)" using \<open>x \<in> set (drop p ops)\<close> by (auto simp: in_set_conv_nth)
    with Nil.prems(3) [of "p + m"] show ?thesis by fastforce
  qed
  then show ?case by simp
next
  case (Cons r rs)
  obtain lo hi where r: "r = (lo, hi)" by fastforce
  have lh: "p \<le> lo" "lo \<le> hi" "hi \<le> length ops" and later: "\<forall>s\<in>set rs. hi < fst s"
    using Cons.prems(1,2) by (auto simp: r apart_def)
  have "eo_kind x = editEqual" if x: "x \<in> set (drop p (take lo ops))" for x
  proof -
    obtain m where "m < lo - p" and m2: "x = ops ! (p + m)" using x lh by (auto simp: in_set_conv_nth)
    then have m: "p + m < lo" "x = ops ! (p + m)" by simp_all
    have False if ne: "eo_kind (ops ! (p + m)) \<noteq> editEqual"
    proof -
      have "p + m < length ops" using m(1) lh by simp
      then obtain s where "s \<in> set (r # rs)" "fst s \<le> p + m" using Cons.prems(3) [of "p + m"] ne by fastforce
      with m(1) later lh show False by (auto simp: r)
    qed
    with m(2) show ?thesis by blast
  qed
  moreover have "ranges_ok ops hi rs"
  proof (rule Cons.IH)
    show "apart (length ops) rs" using Cons.prems(1) by (simp add: apart_def)
    show "\<forall>s\<in>set rs. hi \<le> fst s" using later by auto
    show "\<exists>s\<in>set rs. fst s \<le> k \<and> k < snd s" if "hi \<le> k" "k < length ops" "eo_kind (ops ! k) \<noteq> editEqual" for k
      using Cons.prems(3) [of k] that lh by (auto simp: r)
  qed
  ultimately show ?case using lh by (simp add: r)
qed


lemma rawSpans_ok:
  assumes "curLo \<le> curHi" "sorted (curHi # idxs)" "curHi < n" "\<forall>i\<in>set idxs. i < n"
  shows "sorted (map fst (rawSpans c curLo curHi idxs)) \<and> (\<forall>s\<in>set (rawSpans c curLo curHi idxs). curLo \<le> fst s \<and> fst s \<le> snd s \<and> snd s < n) \<and>
    (\<forall>k. curLo \<le> k \<and> k \<le> curHi \<or> k \<in> set idxs \<longrightarrow> (\<exists>s\<in>set (rawSpans c curLo curHi idxs). fst s \<le> k \<and> k \<le> snd s))"
  using assms
proof (induction idxs arbitrary: curLo curHi)
  case (Cons idx idxs)
  show ?case
  proof (cases "idx - curHi - 1 \<le> 2 * c")
    case True
    have ih: "sorted (map fst (rawSpans c curLo idx idxs)) \<and> (\<forall>s\<in>set (rawSpans c curLo idx idxs). curLo \<le> fst s \<and> fst s \<le> snd s \<and> snd s < n) \<and>
      (\<forall>k. curLo \<le> k \<and> k \<le> idx \<or> k \<in> set idxs \<longrightarrow> (\<exists>s\<in>set (rawSpans c curLo idx idxs). fst s \<le> k \<and> k \<le> snd s))"
      using Cons.prems by (intro Cons.IH) auto
    have "curLo \<le> k \<and> k \<le> idx \<or> k \<in> set idxs" if "curLo \<le> k \<and> k \<le> curHi \<or> k \<in> set (idx # idxs)" for k
      using that Cons.prems by auto
    with ih True show ?thesis by (simp add: Let_def) blast
  next
    case False
    have ih: "sorted (map fst (rawSpans c idx idx idxs)) \<and> (\<forall>s\<in>set (rawSpans c idx idx idxs). idx \<le> fst s \<and> fst s \<le> snd s \<and> snd s < n) \<and>
      (\<forall>k. idx \<le> k \<and> k \<le> idx \<or> k \<in> set idxs \<longrightarrow> (\<exists>s\<in>set (rawSpans c idx idx idxs). fst s \<le> k \<and> k \<le> snd s))"
      using Cons.prems by (intro Cons.IH) auto
    have le: "curLo \<le> idx" using Cons.prems by simp
    have e: "rawSpans c curLo curHi (idx # idxs) = (curLo, curHi) # rawSpans c idx idx idxs" using False by (simp add: Let_def)
    have a: "sorted (map fst (rawSpans c curLo curHi (idx # idxs)))" using ih le unfolding e by (fastforce intro: order_trans)
    have b: "\<forall>s\<in>set (rawSpans c curLo curHi (idx # idxs)). curLo \<le> fst s \<and> fst s \<le> snd s \<and> snd s < n"
      using ih le Cons.prems(1,3) unfolding e by (fastforce intro: order_trans)
    have "\<exists>s\<in>set (rawSpans c curLo curHi (idx # idxs)). fst s \<le> k \<and> k \<le> snd s"
      if k: "curLo \<le> k \<and> k \<le> curHi \<or> k \<in> set (idx # idxs)" for k
    proof (cases "curLo \<le> k \<and> k \<le> curHi")
      case False
      with k have "idx \<le> k \<and> k \<le> idx \<or> k \<in> set idxs" by auto
      with ih show ?thesis unfolding e by auto
    qed (unfold e, simp)
    with a b show ?thesis by blast
  qed
qed auto

lemma apart_snoc: "apart n rs \<Longrightarrow> rs = [] \<or> snd (last rs) < lo \<Longrightarrow> lo \<le> hi \<Longrightarrow> hi \<le> n \<Longrightarrow> apart n (rs @ [(lo, hi)])"
proof -
  assume a: "apart n rs" and l: "rs = [] \<or> snd (last rs) < lo" and h: "lo \<le> hi" "hi \<le> n"
  have "snd r < lo" if "r \<in> set rs" for r
  proof (cases rs rule: rev_cases)
    case (snoc rs' z)
    with a l that show ?thesis by (fastforce simp: apart_def sorted_wrt_append)
  qed (use that in simp)
  with a h show ?thesis by (auto simp: apart_def sorted_wrt_append)
qed

lemma pad_spans_ok:
  assumes "apart n ranges" "sorted (map fst spans)" "\<forall>s\<in>set spans. fst s \<le> snd s \<and> snd s < n"
    "\<forall>s\<in>set spans. ranges \<noteq> [] \<longrightarrow> fst (last ranges) \<le> fst s - c"
  shows "apart n (pad_spans c n ranges spans) \<and>
    (\<forall>k. (\<exists>r\<in>set ranges. fst r \<le> k \<and> k < snd r) \<or> (\<exists>s\<in>set spans. fst s \<le> k \<and> k \<le> snd s) \<longrightarrow>
       (\<exists>r\<in>set (pad_spans c n ranges spans). fst r \<le> k \<and> k < snd r))"
  using assms
proof (induction spans arbitrary: ranges)
  case (Cons s spans)
  obtain sl sh where s: "s = (sl, sh)" by fastforce
  define lo hi where "lo = sl - c" and "hi = (if sh + c + 1 > n then n else sh + c + 1)"
  have ps: "pad_spans c n rs (s # spans) =
      (if rs \<noteq> [] \<and> lo \<le> snd (last rs)
       then pad_spans c n (if hi > snd (last rs) then butlast rs @ [(fst (last rs), hi)] else rs) spans
       else pad_spans c n (rs @ [(lo, hi)]) spans)" for rs
    by (simp add: s Let_def lo_def hi_def)
  have b: "lo \<le> sl" "sl \<le> sh" "sh < hi" "hi \<le> n" using Cons.prems(3) by (auto simp: lo_def hi_def s)
  have step: "apart n (pad_spans c n ranges' spans) \<and>
      (\<forall>k. (\<exists>r\<in>set ranges'. fst r \<le> k \<and> k < snd r) \<or> (\<exists>s\<in>set spans. fst s \<le> k \<and> k \<le> snd s) \<longrightarrow>
       (\<exists>r\<in>set (pad_spans c n ranges' spans). fst r \<le> k \<and> k < snd r))"
    if "apart n ranges'" "ranges' \<noteq> []" "fst (last ranges') \<le> lo" for ranges'
  proof (rule Cons.IH [OF that(1)])
    show "\<forall>s\<in>set spans. ranges' \<noteq> [] \<longrightarrow> fst (last ranges') \<le> fst s - c"
      using that(3) Cons.prems(2) by (auto simp: lo_def s intro: order_trans diff_le_mono)
  qed (use Cons.prems in auto)
  show ?case
  proof (cases "ranges \<noteq> [] \<and> lo \<le> snd (last ranges)")
    case True
    then obtain rs l h where r: "ranges = rs @ [(l, h)]" by (metis append_butlast_last_id surj_pair)
    have l: "l \<le> lo" using Cons.prems(4) by (simp add: r s lo_def)
    define h' where "h' = (if hi > h then hi else h)"
    have e: "pad_spans c n ranges (s # spans) = pad_spans c n (rs @ [(l, h')]) spans"
      using True unfolding ps by (auto simp: r h'_def)
    have ap: "apart n (rs @ [(l, h')])"
      using Cons.prems(1) b by (auto simp: r apart_def sorted_wrt_append h'_def)
    have "rs @ [(l, h')] \<noteq> []" "fst (last (rs @ [(l, h')])) \<le> lo" using l by simp_all
    note st = step [OF ap this]
    have "(\<exists>r\<in>set (rs @ [(l, h')]). fst r \<le> k \<and> k < snd r) \<or> (\<exists>s\<in>set spans. fst s \<le> k \<and> k \<le> snd s)"
      if "(\<exists>r\<in>set ranges. fst r \<le> k \<and> k < snd r) \<or> (\<exists>s\<in>set (s # spans). fst s \<le> k \<and> k \<le> snd s)" for k
      using that l b by (auto simp: r s h'_def)
    with st show ?thesis unfolding e by blast
  next
    case False
    have e: "pad_spans c n ranges (s # spans) = pad_spans c n (ranges @ [(lo, hi)]) spans"
      unfolding ps by (simp only: False if_False)
    have ap: "apart n (ranges @ [(lo, hi)])" using Cons.prems(1) False b by (intro apart_snoc) auto
    have "ranges @ [(lo, hi)] \<noteq> []" "fst (last (ranges @ [(lo, hi)])) \<le> lo" by simp_all
    note st = step [OF ap this]
    have "(\<exists>r\<in>set (ranges @ [(lo, hi)]). fst r \<le> k \<and> k < snd r) \<or> (\<exists>s\<in>set spans. fst s \<le> k \<and> k \<le> snd s)"
      if "(\<exists>r\<in>set ranges. fst r \<le> k \<and> k < snd r) \<or> (\<exists>s\<in>set (s # spans). fst s \<le> k \<and> k \<le> snd s)" for k
      using that b by (auto simp: s)
    with st show ?thesis unfolding e by blast
  qed
qed auto

lemma buildHunks_ranges: "\<exists>rs. buildHunks ops c = map (range_hunk ops) rs \<and> ranges_ok ops 0 rs"
proof (cases "changeIdx ops")
  case Nil
  then have "\<forall>k < length ops. eo_kind (ops ! k) = editEqual" by (auto simp: changeIdx_def filter_empty_conv)
  with Nil show ?thesis by (intro exI [of _ "[]"]) (auto simp: buildHunks_def in_set_conv_nth)
next
  case (Cons d ds)
  have i: "set (d # ds) = {k. k < length ops \<and> eo_kind (ops ! k) \<noteq> editEqual}" "sorted (d # ds)"
    unfolding Cons [symmetric] by (auto simp: changeIdx_def intro: sorted_wrt_filter)
  let ?spans = "rawSpans c d d ds" let ?rs = "pad_spans c (length ops) [] ?spans"
  note sp = rawSpans_ok [of d d ds "length ops" c]
  have sp': "sorted (map fst ?spans) \<and> (\<forall>s\<in>set ?spans. d \<le> fst s \<and> fst s \<le> snd s \<and> snd s < length ops) \<and>
    (\<forall>k. d \<le> k \<and> k \<le> d \<or> k \<in> set ds \<longrightarrow> (\<exists>s\<in>set ?spans. fst s \<le> k \<and> k \<le> snd s))"
    by (rule sp) (use i in auto)
  have rs: "apart (length ops) ?rs \<and>
    (\<forall>k. (\<exists>r\<in>set []. fst r \<le> k \<and> k < snd r) \<or> (\<exists>s\<in>set ?spans. fst s \<le> k \<and> k \<le> snd s) \<longrightarrow>
       (\<exists>r\<in>set ?rs. fst r \<le> k \<and> k < snd r))"
    by (rule pad_spans_ok) (use sp' in \<open>auto simp: apart_def\<close>)
  have "ranges_ok ops 0 ?rs"
  proof (rule apart_ranges_ok)
    fix k assume "k < length ops" "eo_kind (ops ! k) \<noteq> editEqual"
    then have "k \<in> set (d # ds)" using i by auto
    then have "\<exists>s\<in>set ?spans. fst s \<le> k \<and> k \<le> snd s" using sp' by auto
    with rs show "\<exists>r\<in>set ?rs. fst r \<le> k \<and> k < snd r" by blast
  qed (use rs in simp_all)
  with Cons show ?thesis unfolding buildHunks_def by auto
qed

text \<open>A strict patch with the hunks takes the old lines to the new ones.\<close>

theorem hunks_patch: "patch 0 0 a (buildHunks (diffLines a b) context) = Some b"
proof -
  obtain rs where rs: "buildHunks (diffLines a b) context = map (range_hunk (diffLines a b)) rs" "ranges_ok (diffLines a b) 0 rs"
    using buildHunks_ranges by blast
  with patch_ranges [OF rs(2)] show ?thesis by (simp add: diffLines_ok)
qed


section \<open>The text\<close>

lemma SplitAfter_concat: "concat (go_SplitAfter_nl s) = s"
  by (induction s) (auto split: list.splits)

lemma splitLines_concat: "concat (splitLines s) = s"
proof -
  have "concat (butlast ls) = concat ls" if "ls \<noteq> []" "last ls = []" for ls :: "string list"
    using that by (metis append_Nil2 append_butlast_last_id concat.simps concat_append)
  then show ?thesis using SplitAfter_concat [of s] by (auto simp: splitLines_def Let_def)
qed

text \<open>No diff is shown exactly for equal contents.\<close>

theorem UnifiedDiff_empty: "UnifiedDiff p q old new = [] \<longleftrightarrow> old = new"
proof -
  have "old = new" if "buildHunks (diffLines (splitLines old) (splitLines new)) diffContext = []"
    using hunks_patch [of "splitLines old" "splitLines new" diffContext] splitLines_concat that by (metis option.inject patch.simps(1))
  then show ?thesis by (auto simp: UnifiedDiff_def Let_def)
qed

end
