(* ===== verification/Go_Json.thy ===== *)
theory Go_Json
  imports Go_Strings
begin

text \<open>
  The package \<^verbatim>\<open>encoding/json\<close>, as far as the code uses it: JSON values, how \<open>json.Unmarshal\<close> reads one into a Go value, and
  the fields that \<open>json.Marshal\<close> writes for a struct. The text syntax is outside: a value is what a text denotes, a number is its
  literal.

  A decoder gets the value that is there before and returns the one after, or None for an error. \<^verbatim>\<open>null\<close> makes a pointer or a slice
  nil and leaves anything else as it is. The keys of an object are matched exactly, or else without regard to case (ASCII, as
  \<open>strings.EqualFold\<close> in \<open>Go_Strings\<close>); unknown keys are ignored; a key that comes twice is read twice, the second time over the
  first value.
\<close>

datatype json = JNull | JBool bool | JNum string | JStr string | JArr "json list" | JObj "(string \<times> json) list"

type_synonym 'a decoder = "json \<Rightarrow> 'a \<Rightarrow> 'a option"

definition d_str :: "string decoder" where
  "d_str j old = (case j of JNull \<Rightarrow> Some old | JStr s \<Rightarrow> Some s | _ \<Rightarrow> None)"

definition d_bool :: "bool decoder" where
  "d_bool j old = (case j of JNull \<Rightarrow> Some old | JBool b \<Rightarrow> Some b | _ \<Rightarrow> None)"

definition d_int :: "int decoder" where
  "d_int j old = (case j of JNull \<Rightarrow> Some old | JNum n \<Rightarrow> go_Atoi n | _ \<Rightarrow> None)"

text \<open>A \<open>json.RawMessage\<close>: any value, kept as it is.\<close>

definition d_raw :: "json option decoder" where
  "d_raw j old = Some (Some j)"

definition d_ptr :: "'a \<Rightarrow> 'a decoder \<Rightarrow> 'a option decoder" where
  "d_ptr zero d j old = (case j of JNull \<Rightarrow> Some None
     | _ \<Rightarrow> map_option Some (d j (case old of None \<Rightarrow> zero | Some x \<Rightarrow> x)))"

fun d_elems :: "'a \<Rightarrow> 'a decoder \<Rightarrow> json list \<Rightarrow> 'a list \<Rightarrow> 'a list option" where
  "d_elems zero d [] old = Some []"
| "d_elems zero d (j # js) old =
     (case d j (case old of [] \<Rightarrow> zero | x # xs \<Rightarrow> x) of None \<Rightarrow> None
      | Some y \<Rightarrow> map_option (Cons y) (d_elems zero d js (tl old)))"

definition d_list :: "'a \<Rightarrow> 'a decoder \<Rightarrow> 'a list decoder" where
  "d_list zero d j old = (case j of JNull \<Rightarrow> Some [] | JArr js \<Rightarrow> d_elems zero d js old | _ \<Rightarrow> None)"

text \<open>A field of a struct, by how it is read and set.\<close>

definition fld :: "('r \<Rightarrow> 'a) \<Rightarrow> (('a \<Rightarrow> 'a) \<Rightarrow> 'r \<Rightarrow> 'r) \<Rightarrow> 'a decoder \<Rightarrow> 'r decoder" where
  "fld get upd d j r = map_option (\<lambda>v. upd (\<lambda>_. v) r) (d j (get r))"

definition field_for :: "(string \<times> 'x) list \<Rightarrow> string \<Rightarrow> 'x option" where
  "field_for table k = (case map_of table k of Some x \<Rightarrow> Some x
     | None \<Rightarrow> map_option snd (List.find (\<lambda>(name, x). go_EqualFold name k) table))"

fun d_fields :: "(string \<times> 'r decoder) list \<Rightarrow> (string \<times> json) list \<Rightarrow> 'r \<Rightarrow> 'r option" where
  "d_fields table [] r = Some r"
| "d_fields table ((k, j) # kvs) r =
     (case field_for table k of None \<Rightarrow> d_fields table kvs r
      | Some d \<Rightarrow> (case d j r of None \<Rightarrow> None | Some r \<Rightarrow> d_fields table kvs r))"

definition d_struct :: "(string \<times> 'r decoder) list \<Rightarrow> 'r decoder" where
  "d_struct table j r = (case j of JNull \<Rightarrow> Some r | JObj kvs \<Rightarrow> d_fields table kvs r | _ \<Rightarrow> None)"


section \<open>Types\<close>

text \<open>What a Go type accepts. A pointer accepts what its target does.\<close>

datatype jtype = TStr | TInt | TBool | TAny | TPtr jtype | TList jtype | TStruct "(string \<times> jtype) list"

fun strip :: "jtype \<Rightarrow> jtype" where
  "strip (TPtr t) = strip t"
| "strip t = t"

fun has_type :: "json \<Rightarrow> jtype \<Rightarrow> bool" where
  "has_type JNull t \<longleftrightarrow> True"
| "has_type (JBool b) t \<longleftrightarrow> strip t \<in> {TBool, TAny}"
| "has_type (JNum n) t \<longleftrightarrow> strip t = TAny \<or> strip t = TInt \<and> go_Atoi n \<noteq> None"
| "has_type (JStr s) t \<longleftrightarrow> strip t \<in> {TStr, TAny}"
| "has_type (JArr js) t \<longleftrightarrow> (case strip t of TAny \<Rightarrow> True | TList u \<Rightarrow> \<forall>j\<in>set js. has_type j u | _ \<Rightarrow> False)"
| "has_type (JObj kvs) t \<longleftrightarrow> (case strip t of TAny \<Rightarrow> True
     | TStruct fs \<Rightarrow> \<forall>kv\<in>set kvs. (case field_for fs (fst kv) of None \<Rightarrow> True | Some u \<Rightarrow> has_type (snd kv) u)
     | _ \<Rightarrow> False)"

definition accepts :: "'a decoder \<Rightarrow> jtype \<Rightarrow> bool" where
  "accepts d t \<longleftrightarrow> (\<forall>j old. d j old \<noteq> None \<longleftrightarrow> has_type j t)"

lemma has_type_any: "has_type j TAny"
  by (cases j) simp_all

lemma accepts_base:
  "accepts d_str TStr" "accepts d_bool TBool" "accepts d_int TInt" "accepts d_raw TAny"
  by (auto simp: accepts_def d_str_def d_bool_def d_int_def d_raw_def has_type_any split: json.split)

lemma has_type_ptr: "has_type j (TPtr t) \<longleftrightarrow> has_type j t"
  by (cases j) simp_all

lemma accepts_ptr: "accepts d t \<Longrightarrow> accepts (d_ptr z d) (TPtr t)"
  unfolding accepts_def has_type_ptr by (auto simp: d_ptr_def split: json.split)

lemma d_elems_ok: "accepts d t \<Longrightarrow> d_elems z d js old \<noteq> None \<longleftrightarrow> (\<forall>j\<in>set js. has_type j t)"
proof (induction js arbitrary: old)
  case (Cons j js)
  let ?x = "case old of [] \<Rightarrow> z | x # xs \<Rightarrow> x"
  have "d j ?x \<noteq> None \<longleftrightarrow> has_type j t" using Cons.prems by (simp add: accepts_def)
  with Cons show ?case by (cases "d j ?x") auto
qed simp

lemma accepts_list: "accepts d t \<Longrightarrow> accepts (d_list z d) (TList t)"
  using d_elems_ok [of d t z] by (auto simp: accepts_def d_list_def split: json.split)

lemma accepts_fld: "accepts d t \<Longrightarrow> accepts (fld g u d) t"
  by (auto simp: accepts_def fld_def)

text \<open>A key that matches no name, not even up to case, is unknown.\<close>

lemma field_for_none: "list_all (\<lambda>n. \<not> go_EqualFold n k) (map fst table) \<Longrightarrow> field_for table k = None"
proof -
  assume a: "list_all (\<lambda>n. \<not> go_EqualFold n k) (map fst table)"
  then have "k \<notin> fst ` set table" by (auto simp: list_all_iff go_EqualFold_def)
  then have "map_of table k = None" by (simp add: map_of_eq_None_iff)
  moreover have "List.find (\<lambda>(name, x). go_EqualFold name k) table = None"
    using a by (auto simp: find_None_iff list_all_iff)
  ultimately show ?thesis by (simp add: field_for_def)
qed

text \<open>A struct accepts the objects whose known keys have values of the types of their fields.\<close>

lemma field_for_rel:
  "list_all2 (\<lambda>(a, d) (b, t). a = b \<and> accepts d t) table fs \<Longrightarrow>
   rel_option accepts (field_for table k) (field_for fs k)"
proof -
  assume a: "list_all2 (\<lambda>(a, d) (b, t). a = b \<and> accepts d t) table fs"
  then have "rel_option accepts (map_of table k) (map_of fs k)"
    by (induction rule: list_all2_induct) auto
  moreover from a have "rel_option (\<lambda>x y. accepts (snd x) (snd y)) (List.find (\<lambda>(name, x). go_EqualFold name k) table)
      (List.find (\<lambda>(name, x). go_EqualFold name k) fs)"
    by (induction rule: list_all2_induct) (auto split: if_splits)
  ultimately show ?thesis
    by (cases "map_of table k"; cases "map_of fs k";
        cases "List.find (\<lambda>(name, x). go_EqualFold name k) table"; cases "List.find (\<lambda>(name, x). go_EqualFold name k) fs")
      (auto simp: field_for_def)
qed

lemma accepts_struct:
  assumes "list_all2 (\<lambda>(a, d) (b, t). a = b \<and> accepts d t) table fs"
  shows "accepts (d_struct table) (TStruct fs)"
proof -
  have "d_fields table kvs r \<noteq> None \<longleftrightarrow> has_type (JObj kvs) (TStruct fs)" for kvs r
  proof (induction kvs arbitrary: r)
    case (Cons kv kvs)
    obtain k j where kv: "kv = (k, j)" by fastforce
    show ?case
    proof (cases "field_for table k")
      case None
      with field_for_rel [OF assms, of k] have "field_for fs k = None" by auto
      with None Cons kv show ?thesis by simp
    next
      case (Some d)
      with field_for_rel [OF assms, of k] obtain t where t: "field_for fs k = Some t" "accepts d t" by (auto simp: option_rel_Some1)
      then have "d j r \<noteq> None \<longleftrightarrow> has_type j t" by (simp add: accepts_def)
      with Some t(1) Cons kv show ?thesis by (auto split: option.split)
    qed
  qed simp
  then show ?thesis by (auto simp: accepts_def d_struct_def split: json.split)
qed


section \<open>Writing\<close>

text \<open>The fields of a struct that \<open>json.Marshal\<close> writes: always, unless zero (\<^verbatim>\<open>omitempty\<close>), unless nil. A slice is written as an
  array; a nil slice, which is written as \<^verbatim>\<open>null\<close>, is read back like an empty one.\<close>

definition f_val :: "('a \<Rightarrow> json) \<Rightarrow> string \<Rightarrow> 'a \<Rightarrow> (string \<times> json) list" where
  "f_val f name v = [(name, f v)]"

definition f_omit :: "'a \<Rightarrow> ('a \<Rightarrow> json) \<Rightarrow> string \<Rightarrow> 'a \<Rightarrow> (string \<times> json) list" where
  "f_omit zero f name v = (if v = zero then [] else [(name, f v)])"

definition f_ptr :: "('a \<Rightarrow> json) \<Rightarrow> string \<Rightarrow> 'a option \<Rightarrow> (string \<times> json) list" where
  "f_ptr f name p = (case p of None \<Rightarrow> [] | Some v \<Rightarrow> [(name, f v)])"

definition j_int :: "int \<Rightarrow> json" where
  "j_int n = JNum (go_Itoa n)"

definition j_list :: "('a \<Rightarrow> json) \<Rightarrow> 'a list \<Rightarrow> json" where
  "j_list f xs = JArr (map f xs)"

definition all_fields :: "(string \<times> json) list list \<Rightarrow> (string \<times> json) list" where
  "all_fields = concat"

definition j_struct :: "(string \<times> json) list list \<Rightarrow> json" where
  "j_struct fs = JObj (all_fields fs)"


section \<open>Reading what was written\<close>

text \<open>A decoder reads what \<open>f\<close> writes into a zero value, as far as the value fits.\<close>

definition codec :: "'a decoder \<Rightarrow> 'a \<Rightarrow> ('a \<Rightarrow> json) \<Rightarrow> ('a \<Rightarrow> bool) \<Rightarrow> bool" where
  "codec d zero f ok \<longleftrightarrow> (\<forall>v. f v \<noteq> JNull \<and> d (f v) zero = (if ok v then Some v else None))"

definition fits_int :: "int \<Rightarrow> bool" where
  "fits_int n \<longleftrightarrow> - (2 ^ 63) \<le> n \<and> n < 2 ^ 63"

lemma Atoi_Itoa_cases: "go_Atoi (go_Itoa n) = (if fits_int n then Some n else None)"
proof (cases "fits_int n")
  case False
  show ?thesis
  proof (cases "n < 0")
    case True
    with False show ?thesis by (simp add: fits_int_def go_Itoa_def go_Atoi_def Let_def go_natstr_digits go_natstr_val)
  next
    case pos: False
    obtain c r where cr: "go_natstr n = c # r" by (meson go_natstr_nonempty list.exhaust)
    then have "go_isdigit c" using pos go_natstr_hd [of n] by simp
    then have "c \<noteq> CHR ''-''" "c \<noteq> CHR ''+''" by auto
    then show ?thesis
      using False pos cr go_natstr_digits [of n] go_natstr_val [of n] by (simp add: fits_int_def go_Itoa_def go_Atoi_def Let_def)
  qed
qed (simp add: go_Atoi_Itoa fits_int_def)

lemma codec_base:
  "codec d_str [] JStr (\<lambda>_. True)" "codec d_bool False JBool (\<lambda>_. True)" "codec d_int 0 j_int fits_int"
  by (simp_all add: codec_def d_str_def d_bool_def d_int_def j_int_def Atoi_Itoa_cases)

lemma codec_list: "codec d z f ok \<Longrightarrow> codec (d_list z d) [] (j_list f) (list_all ok)"
proof -
  assume c: "codec d z f ok"
  have "d_elems z d (map f xs) [] = (if list_all ok xs then Some xs else None)" for xs
    using c by (induction xs) (auto simp: codec_def)
  then show ?thesis by (simp add: codec_def j_list_def d_list_def)
qed

definition omit :: "'a \<Rightarrow> 'a \<Rightarrow> 'a option" where
  "omit zero v = (if v = zero then None else Some v)"

definition or_zero :: "'a \<Rightarrow> 'a option \<Rightarrow> 'a" where
  "or_zero zero v = (case v of None \<Rightarrow> zero | Some x \<Rightarrow> x)"

text \<open>One field after the other, read into a value field or a pointer field that is still zero.\<close>

lemma read_value:
  assumes "codec d z f ok" "field_for T n = Some (fld g u d)" "g r = z"
  shows "d_fields T (all_fields (f_val f n v # es)) r = (if ok v then d_fields T (all_fields es) (u (\<lambda>_. v) r) else None)"
    "u (\<lambda>_. z) r = r \<Longrightarrow> d_fields T (all_fields (f_omit z f n v # es)) r =
       (if v = z \<or> ok v then d_fields T (all_fields es) (u (\<lambda>_. v) r) else None)"
    "u (\<lambda>_. z) r = r \<Longrightarrow> d_fields T (all_fields (f_ptr f n p # es)) r =
       (if pred_option ok p then d_fields T (all_fields es) (u (\<lambda>_. or_zero z p) r) else None)"
  using assms by (auto simp: all_fields_def f_val_def f_omit_def f_ptr_def codec_def fld_def or_zero_def split: option.split)

lemma read_pointer:
  assumes "codec d z f ok" "field_for T n = Some (fld g u (d_ptr z d))" "g r = None"
  shows "d_fields T (all_fields (f_val f n v # es)) r = (if ok v then d_fields T (all_fields es) (u (\<lambda>_. Some v) r) else None)"
    "u (\<lambda>_. None) r = r \<Longrightarrow> d_fields T (all_fields (f_omit z f n v # es)) r =
       (if v = z \<or> ok v then d_fields T (all_fields es) (u (\<lambda>_. omit z v) r) else None)"
    "u (\<lambda>_. None) r = r \<Longrightarrow> d_fields T (all_fields (f_ptr f n p # es)) r =
       (if pred_option ok p then d_fields T (all_fields es) (u (\<lambda>_. p) r) else None)"
proof -
  have d: "d_ptr z d (f v) None = (if ok v then Some (Some v) else None)" for v
    using assms(1) by (cases "f v") (auto simp: d_ptr_def codec_def dest: spec [of _ v])
  show "d_fields T (all_fields (f_val f n v # es)) r = (if ok v then d_fields T (all_fields es) (u (\<lambda>_. Some v) r) else None)"
    "u (\<lambda>_. None) r = r \<Longrightarrow> d_fields T (all_fields (f_omit z f n v # es)) r =
       (if v = z \<or> ok v then d_fields T (all_fields es) (u (\<lambda>_. omit z v) r) else None)"
    "u (\<lambda>_. None) r = r \<Longrightarrow> d_fields T (all_fields (f_ptr f n p # es)) r =
       (if pred_option ok p then d_fields T (all_fields es) (u (\<lambda>_. p) r) else None)"
    using assms(2,3) d by (auto simp: all_fields_def f_val_def f_omit_def f_ptr_def fld_def omit_def split: option.split)
qed

lemma read_done: "d_fields T (all_fields []) r = Some r"
  by (simp add: all_fields_def)

end
