(* ===== verification/Ifaces_Wire.thy ===== *)
theory Ifaces_Wire
  imports Ifaces_Ops Go_Json
begin

text \<open>
  The wire format of the operations (\<open>DecodeOp\<close> in \<^verbatim>\<open>src/internal/change/ifaces/op.go\<close>): a JSON array of envelopes with the name
  of the operation, its target as text and the union of all parameters. The input is the JSON value the text denotes, None when
  the text is no JSON. The fact: what is decoded has the kind and the target the envelope names, and the lists that are decoded
  are exactly those of well-typed envelopes with a known kind, a readable target and well-typed parameters.
\<close>

record wireParams =
  w_IntIP :: "string option"
  w_Iface :: "string option"
  w_Gateway :: "string option"
  w_Autostart :: "bool option"
  w_STP :: "bool option"
  w_MTU :: "int option"
  w_Metric :: "int option"
  w_IntPort :: "int option"
  w_ExtPort :: "int option"
  w_VlanAware :: "bool option"
  w_Comment :: "string option"
  w_SourceCIDR :: "string option"
  w_Comments :: "string option"
  w_Proto :: "string option"
  w_DestCIDR :: "string option"
  w_VLAN :: "int option"
  w_SpoofCheck :: "bool option"
  w_MacAddr :: "string option"
  w_Trust :: "bool option"
  w_Port :: string
  w_Bridge :: string
  w_XmitHashPolicy :: string
  w_LacpRate :: string
  w_NewName :: string
  w_Mode :: string
  w_Content :: string
  w_Parent :: string
  w_Trunks :: "VidRange list"
  w_Vids :: "VidRange list"
  w_Ports :: "string list"
  w_VFs :: "VFSpec list"
  w_Addresses :: "string list"
  w_Slaves :: "string list"
  w_VID :: int
  w_Count :: int
  w_MIIMon :: int
  w_RemoveAddress :: bool
  w_OVS :: bool
  w_RemoveXmitHashPolicy :: bool
  w_RemoveLacpRate :: bool
  w_RemoveVids :: bool
  w_RemoveGateway :: bool

text \<open>Decoding the parameters: the two structs in them, and all fields by their names on the wire. The struct \<open>VidRange\<close> has no tags,
  so its fields go by their names in Go, which the keys \<^verbatim>\<open>low\<close> and \<^verbatim>\<open>high\<close> match up to case.\<close>

definition zero_VidRange :: VidRange where
  "zero_VidRange = \<lparr> vid_Low = 0, vid_High = 0 \<rparr>"

definition VidRange_fields :: "(string \<times> VidRange decoder) list" where
  "VidRange_fields = [(''Low'', fld vid_Low vid_Low_update d_int), (''High'', fld vid_High vid_High_update d_int)]"

definition zero_VFSpec :: VFSpec where
  "zero_VFSpec = \<lparr> vs_SpoofCheck = None, vs_Trust = None, vs_MacAddr = [], vs_ID = 0, vs_VLAN = 0 \<rparr>"

definition VFSpec_fields :: "(string \<times> VFSpec decoder) list" where
  "VFSpec_fields = [(''spoofCheck'', fld vs_SpoofCheck vs_SpoofCheck_update (d_ptr False d_bool)),
     (''trust'', fld vs_Trust vs_Trust_update (d_ptr False d_bool)), (''macAddr'', fld vs_MacAddr vs_MacAddr_update d_str),
     (''id'', fld vs_ID vs_ID_update d_int), (''vlan'', fld vs_VLAN vs_VLAN_update d_int)]"

definition zero_wire :: wireParams where
  "zero_wire =
     \<lparr> w_IntIP = None, w_Iface = None, w_Gateway = None, w_Autostart = None, w_STP = None, w_MTU = None, w_Metric = None,
       w_IntPort = None, w_ExtPort = None, w_VlanAware = None, w_Comment = None, w_SourceCIDR = None, w_Comments = None,
       w_Proto = None, w_DestCIDR = None, w_VLAN = None, w_SpoofCheck = None, w_MacAddr = None, w_Trust = None, w_Port = [],
       w_Bridge = [], w_XmitHashPolicy = [], w_LacpRate = [], w_NewName = [], w_Mode = [], w_Content = [], w_Parent = [],
       w_Trunks = [], w_Vids = [], w_Ports = [], w_VFs = [], w_Addresses = [], w_Slaves = [], w_VID = 0, w_Count = 0,
       w_MIIMon = 0, w_RemoveAddress = False, w_OVS = False, w_RemoveXmitHashPolicy = False, w_RemoveLacpRate = False,
       w_RemoveVids = False, w_RemoveGateway = False \<rparr>"

definition wire_fields :: "(string \<times> wireParams decoder) list" where
  "wire_fields = [
     (''intIp'', fld w_IntIP w_IntIP_update (d_ptr [] d_str)), (''iface'', fld w_Iface w_Iface_update (d_ptr [] d_str)),
     (''gateway'', fld w_Gateway w_Gateway_update (d_ptr [] d_str)),
     (''autostart'', fld w_Autostart w_Autostart_update (d_ptr False d_bool)),
     (''stp'', fld w_STP w_STP_update (d_ptr False d_bool)), (''mtu'', fld w_MTU w_MTU_update (d_ptr 0 d_int)),
     (''metric'', fld w_Metric w_Metric_update (d_ptr 0 d_int)), (''intPort'', fld w_IntPort w_IntPort_update (d_ptr 0 d_int)),
     (''extPort'', fld w_ExtPort w_ExtPort_update (d_ptr 0 d_int)),
     (''vlanAware'', fld w_VlanAware w_VlanAware_update (d_ptr False d_bool)),
     (''comment'', fld w_Comment w_Comment_update (d_ptr [] d_str)),
     (''sourceCidr'', fld w_SourceCIDR w_SourceCIDR_update (d_ptr [] d_str)),
     (''comments'', fld w_Comments w_Comments_update (d_ptr [] d_str)), (''proto'', fld w_Proto w_Proto_update (d_ptr [] d_str)),
     (''destCidr'', fld w_DestCIDR w_DestCIDR_update (d_ptr [] d_str)), (''vlan'', fld w_VLAN w_VLAN_update (d_ptr 0 d_int)),
     (''spoofCheck'', fld w_SpoofCheck w_SpoofCheck_update (d_ptr False d_bool)),
     (''macAddr'', fld w_MacAddr w_MacAddr_update (d_ptr [] d_str)),
     (''trust'', fld w_Trust w_Trust_update (d_ptr False d_bool)), (''port'', fld w_Port w_Port_update d_str),
     (''bridge'', fld w_Bridge w_Bridge_update d_str), (''xmitHashPolicy'', fld w_XmitHashPolicy w_XmitHashPolicy_update d_str),
     (''lacpRate'', fld w_LacpRate w_LacpRate_update d_str), (''newName'', fld w_NewName w_NewName_update d_str),
     (''mode'', fld w_Mode w_Mode_update d_str), (''content'', fld w_Content w_Content_update d_str),
     (''parent'', fld w_Parent w_Parent_update d_str),
     (''trunks'', fld w_Trunks w_Trunks_update (d_list zero_VidRange (d_struct VidRange_fields))),
     (''vids'', fld w_Vids w_Vids_update (d_list zero_VidRange (d_struct VidRange_fields))),
     (''ports'', fld w_Ports w_Ports_update (d_list [] d_str)),
     (''vfs'', fld w_VFs w_VFs_update (d_list zero_VFSpec (d_struct VFSpec_fields))),
     (''addresses'', fld w_Addresses w_Addresses_update (d_list [] d_str)),
     (''slaves'', fld w_Slaves w_Slaves_update (d_list [] d_str)), (''vid'', fld w_VID w_VID_update d_int),
     (''count'', fld w_Count w_Count_update d_int), (''miimon'', fld w_MIIMon w_MIIMon_update d_int),
     (''removeAddress'', fld w_RemoveAddress w_RemoveAddress_update d_bool), (''ovs'', fld w_OVS w_OVS_update d_bool),
     (''removeXmitHashPolicy'', fld w_RemoveXmitHashPolicy w_RemoveXmitHashPolicy_update d_bool),
     (''removeLacpRate'', fld w_RemoveLacpRate w_RemoveLacpRate_update d_bool),
     (''removeVids'', fld w_RemoveVids w_RemoveVids_update d_bool),
     (''removeGateway'', fld w_RemoveGateway w_RemoveGateway_update d_bool)]"

record envelope =
  env_Op :: string
  env_Target :: string
  env_Params :: "json option"

definition zero_envelope :: envelope where
  "zero_envelope = \<lparr> env_Op = [], env_Target = [], env_Params = None \<rparr>"

definition envelope_fields :: "(string \<times> envelope decoder) list" where
  "envelope_fields = [(''op'', fld env_Op env_Op_update d_str), (''target'', fld env_Target env_Target_update d_str),
     (''params'', fld env_Params env_Params_update d_raw)]"

datatype decode_error = DecodingEnvelope | BadTarget string parse_ref_error | DecodingParams string | UnsupportedOp string
  | DecodingArray | DecodingOp nat decode_error

definition intOr :: "int option \<Rightarrow> int" where
  "intOr p = (case p of None \<Rightarrow> 0 | Some n \<Rightarrow> n)"

definition boolOr :: "bool option \<Rightarrow> bool" where
  "boolOr p = (case p of None \<Rightarrow> False | Some b \<Rightarrow> b)"

definition strOr :: "string option \<Rightarrow> string" where
  "strOr p = (case p of None \<Rightarrow> [] | Some s \<Rightarrow> s)"

text \<open>The cases of the switch, by the name of the operation.\<close>

definition decode_table :: "Ref \<Rightarrow> wireParams \<Rightarrow> (string \<times> iface_op) list" where
  "decode_table target p = [
     (''iface.update'', OpIfaceUpdate \<lparr> iu_MTU = w_MTU p, iu_Comments = w_Comments p, iu_Gateway = w_Gateway p, iu_Autostart = w_Autostart p,
        iu_Target = target, iu_Addresses = w_Addresses p, iu_RemoveAddress = w_RemoveAddress p, iu_RemoveGateway = w_RemoveGateway p \<rparr>),
     (''bond.create'', OpBondCreate \<lparr> bc_Target = target, bc_Mode = w_Mode p, bc_LacpRate = w_LacpRate p, bc_XmitHashPolicy = w_XmitHashPolicy p,
        bc_Comments = strOr (w_Comments p), bc_Bridge = w_Bridge p, bc_Slaves = w_Slaves p, bc_MIIMon = w_MIIMon p, bc_MTU = intOr (w_MTU p),
        bc_Autostart = boolOr (w_Autostart p) \<rparr>),
     (''bond.update'', OpBondUpdate \<lparr> bu_Comments = w_Comments p, bu_Target = target, bu_Mode = w_Mode p, bu_LacpRate = w_LacpRate p,
        bu_XmitHashPolicy = w_XmitHashPolicy p, bu_Slaves = w_Slaves p, bu_MIIMon = w_MIIMon p, bu_MTU = intOr (w_MTU p),
        bu_RemoveLacpRate = w_RemoveLacpRate p, bu_RemoveXmitHashPolicy = w_RemoveXmitHashPolicy p \<rparr>),
     (''bond.delete'', OpBondDelete target),
     (''bridge.create'', OpBridgeCreate \<lparr> gc_Target = target, gc_Gateway = strOr (w_Gateway p), gc_Comments = strOr (w_Comments p), gc_Ports = w_Ports p,
        gc_Vids = w_Vids p, gc_Addresses = w_Addresses p, gc_MTU = intOr (w_MTU p), gc_VlanAware = boolOr (w_VlanAware p), gc_STP = boolOr (w_STP p),
        gc_Autostart = boolOr (w_Autostart p) \<rparr>),
     (''bridge.update'', OpBridgeUpdate \<lparr> gu_VlanAware = w_VlanAware p, gu_STP = w_STP p, gu_Gateway = w_Gateway p, gu_Comments = w_Comments p,
        gu_Target = target, gu_Ports = w_Ports p, gu_Vids = w_Vids p, gu_Addresses = w_Addresses p, gu_MTU = intOr (w_MTU p),
        gu_RemoveVids = w_RemoveVids p, gu_RemoveGateway = w_RemoveGateway p \<rparr>),
     (''bridge.delete'', OpBridgeDelete target),
     (''bridge.port.add'', OpBridgePortAdd target (w_Port p)),
     (''bridge.port.remove'', OpBridgePortRemove target (w_Port p)),
     (''vlan.create'', OpVlanCreate \<lparr> vc_Target = target, vc_Parent = w_Parent p, vc_Gateway = strOr (w_Gateway p), vc_Comments = strOr (w_Comments p),
        vc_Addresses = w_Addresses p, vc_Trunks = w_Trunks p, vc_VID = w_VID p, vc_MTU = intOr (w_MTU p), vc_Autostart = boolOr (w_Autostart p),
        vc_OVS = w_OVS p \<rparr>),
     (''vlan.update'', OpVlanUpdate \<lparr> vu_Comments = w_Comments p, vu_Target = target, vu_Addresses = w_Addresses p, vu_MTU = intOr (w_MTU p) \<rparr>),
     (''vlan.delete'', OpVlanDelete target),
     (''iface.rename'', OpIfaceRename target (w_NewName p)),
     (''iface.raw.replace'', OpIfaceRawReplace target (w_Content p)),
     (''nat.masquerade.create'', OpNatMasqueradeCreate \<lparr> mc_Target = target, mc_Iface = strOr (w_Iface p), mc_SourceCIDR = strOr (w_SourceCIDR p),
        mc_Comment = strOr (w_Comment p) \<rparr>),
     (''nat.masquerade.delete'', OpNatMasqueradeDelete target),
     (''nat.portforward.create'', OpNatPortForwardCreate \<lparr> pc_Target = target, pc_Iface = strOr (w_Iface p), pc_Proto = strOr (w_Proto p),
        pc_IntIP = strOr (w_IntIP p), pc_Comment = strOr (w_Comment p), pc_ExtPort = intOr (w_ExtPort p), pc_IntPort = intOr (w_IntPort p) \<rparr>),
     (''nat.portforward.update'', OpNatPortForwardUpdate \<lparr> pu_Iface = w_Iface p, pu_Proto = w_Proto p, pu_IntIP = w_IntIP p, pu_Comment = w_Comment p,
        pu_ExtPort = w_ExtPort p, pu_IntPort = w_IntPort p, pu_Target = target \<rparr>),
     (''nat.portforward.delete'', OpNatPortForwardDelete target),
     (''route.static.create'', OpRouteStaticCreate \<lparr> rc_Target = target, rc_Iface = strOr (w_Iface p), rc_DestCIDR = strOr (w_DestCIDR p),
        rc_Gateway = strOr (w_Gateway p), rc_Comment = strOr (w_Comment p), rc_Metric = intOr (w_Metric p) \<rparr>),
     (''route.static.update'', OpRouteStaticUpdate \<lparr> ru_Iface = w_Iface p, ru_DestCIDR = w_DestCIDR p, ru_Gateway = w_Gateway p, ru_Comment = w_Comment p,
        ru_Metric = w_Metric p, ru_Target = target \<rparr>),
     (''route.static.delete'', OpRouteStaticDelete target),
     (''vf.provision'', OpVFProvision \<lparr> vp_SpoofCheck = w_SpoofCheck p, vp_Trust = w_Trust p, vp_Target = target, vp_MacAddr = strOr (w_MacAddr p),
        vp_VFs = w_VFs p, vp_VLAN = intOr (w_VLAN p), vp_Count = w_Count p \<rparr>)]"

definition DecodeOp :: "json \<Rightarrow> decode_error + iface_op" where
  "DecodeOp raw =
     (case d_struct envelope_fields raw zero_envelope of None \<Rightarrow> Inl DecodingEnvelope
      | Some env \<Rightarrow>
         (case ParseRef (env_Target env) of Inl e \<Rightarrow> Inl (BadTarget (env_Op env) e)
          | Inr target \<Rightarrow>
             (case (case env_Params env of None \<Rightarrow> Some zero_wire | Some params \<Rightarrow> d_struct wire_fields params zero_wire) of
                None \<Rightarrow> Inl (DecodingParams (env_Op env))
              | Some p \<Rightarrow> (case map_of (decode_table target p) (env_Op env) of
                  None \<Rightarrow> Inl (UnsupportedOp (env_Op env)) | Some op \<Rightarrow> Inr op))))"

fun decode_from :: "nat \<Rightarrow> json list \<Rightarrow> decode_error + iface_op list" where
  "decode_from i [] = Inr []"
| "decode_from i (e # envs) =
     (case DecodeOp e of Inl err \<Rightarrow> Inl (DecodingOp i err)
      | Inr op \<Rightarrow> (case decode_from (i + 1) envs of Inl err \<Rightarrow> Inl err | Inr ops \<Rightarrow> Inr (op # ops)))"

text \<open>The text is read into a slice of raw messages first.\<close>

definition DecodeOps :: "json option \<Rightarrow> decode_error + iface_op list" where
  "DecodeOps raw =
     (case raw of Some JNull \<Rightarrow> decode_from 0 [] | Some (JArr envs) \<Rightarrow> decode_from 0 envs | _ \<Rightarrow> Inl DecodingArray)"


section \<open>What is decoded\<close>

definition file_kinds :: "string list" where
  "file_kinds = [''iface.update'', ''bond.create'', ''bond.update'', ''bond.delete'', ''bridge.create'', ''bridge.update'', ''bridge.delete'',
     ''bridge.port.add'', ''bridge.port.remove'', ''vlan.create'', ''vlan.update'', ''vlan.delete'', ''iface.rename'', ''iface.raw.replace'',
     ''nat.masquerade.create'', ''nat.masquerade.delete'', ''nat.portforward.create'', ''nat.portforward.update'', ''nat.portforward.delete'',
     ''route.static.create'', ''route.static.update'', ''route.static.delete'', ''vf.provision'']"

lemma table_kinds: "map fst (decode_table t p) = file_kinds"
  by (simp add: decode_table_def file_kinds_def)

lemma table_typed: "list_all (\<lambda>(k, op). iface_op_Kind op = k \<and> iface_op_Ref op = t) (decode_table t p)"
  by (simp add: decode_table_def)

lemma kind_known: "iface_op_Kind op \<in> set file_kinds"
  by (cases op) (simp_all add: file_kinds_def)

text \<open>The types of the wire format.\<close>

definition VidRange_type :: jtype where
  "VidRange_type = TStruct [(''Low'', TInt), (''High'', TInt)]"

definition VFSpec_type :: jtype where
  "VFSpec_type = TStruct [(''spoofCheck'', TPtr TBool), (''trust'', TPtr TBool), (''macAddr'', TStr), (''id'', TInt), (''vlan'', TInt)]"

definition params_type :: jtype where
  "params_type = TStruct [
     (''intIp'', TPtr TStr), (''iface'', TPtr TStr), (''gateway'', TPtr TStr), (''autostart'', TPtr TBool),
     (''stp'', TPtr TBool), (''mtu'', TPtr TInt), (''metric'', TPtr TInt), (''intPort'', TPtr TInt), (''extPort'', TPtr TInt),
     (''vlanAware'', TPtr TBool), (''comment'', TPtr TStr), (''sourceCidr'', TPtr TStr), (''comments'', TPtr TStr),
     (''proto'', TPtr TStr), (''destCidr'', TPtr TStr), (''vlan'', TPtr TInt), (''spoofCheck'', TPtr TBool),
     (''macAddr'', TPtr TStr), (''trust'', TPtr TBool), (''port'', TStr), (''bridge'', TStr), (''xmitHashPolicy'', TStr),
     (''lacpRate'', TStr), (''newName'', TStr), (''mode'', TStr), (''content'', TStr), (''parent'', TStr),
     (''trunks'', TList VidRange_type), (''vids'', TList VidRange_type), (''ports'', TList TStr), (''vfs'', TList VFSpec_type),
     (''addresses'', TList TStr), (''slaves'', TList TStr), (''vid'', TInt), (''count'', TInt), (''miimon'', TInt),
     (''removeAddress'', TBool), (''ovs'', TBool), (''removeXmitHashPolicy'', TBool), (''removeLacpRate'', TBool),
     (''removeVids'', TBool), (''removeGateway'', TBool)]"

definition envelope_type :: jtype where
  "envelope_type = TStruct [(''op'', TStr), (''target'', TStr), (''params'', TAny)]"

lemmas accepts_rules = accepts_base accepts_fld accepts_ptr accepts_list

lemma accepts_VidRange: "accepts (d_struct VidRange_fields) VidRange_type"
  unfolding VidRange_type_def by (rule accepts_struct) (simp add: VidRange_fields_def accepts_rules)

lemma accepts_VFSpec: "accepts (d_struct VFSpec_fields) VFSpec_type"
  unfolding VFSpec_type_def by (rule accepts_struct) (simp add: VFSpec_fields_def accepts_rules)

lemma accepts_params: "accepts (d_struct wire_fields) params_type"
  unfolding params_type_def
  by (rule accepts_struct) (simp add: wire_fields_def accepts_rules accepts_VidRange accepts_VFSpec)

lemma accepts_envelope: "accepts (d_struct envelope_fields) envelope_type"
  unfolding envelope_type_def by (rule accepts_struct) (simp add: envelope_fields_def accepts_rules)

text \<open>The envelope a value is read as: the last \<^verbatim>\<open>op\<close>, \<^verbatim>\<open>target\<close> and \<^verbatim>\<open>params\<close> it has.\<close>

definition envelope_of :: "json \<Rightarrow> envelope" where
  "envelope_of raw = (case d_struct envelope_fields raw zero_envelope of None \<Rightarrow> zero_envelope | Some env \<Rightarrow> env)"

text \<open>A well-formed envelope, by the types, the known kinds and the syntax of targets.\<close>

definition op_ok :: "json \<Rightarrow> bool" where
  "op_ok raw \<longleftrightarrow> has_type raw envelope_type \<and> env_Op (envelope_of raw) \<in> set file_kinds \<and>
     (case ParseRef (env_Target (envelope_of raw)) of Inl _ \<Rightarrow> False | Inr _ \<Rightarrow> True) \<and>
     (case env_Params (envelope_of raw) of None \<Rightarrow> True | Some params \<Rightarrow> has_type params params_type)"

lemma DecodeOp_typed:
  "DecodeOp raw = Inr op \<Longrightarrow> iface_op_Kind op = env_Op (envelope_of raw) \<and> ParseRef (env_Target (envelope_of raw)) = Inr (iface_op_Ref op)"
proof -
  assume "DecodeOp raw = Inr op"
  then obtain env t p where e: "envelope_of raw = env" and t: "ParseRef (env_Target env) = Inr t"
    "map_of (decode_table t p) (env_Op env) = Some op"
    by (auto simp: DecodeOp_def envelope_of_def split: sum.splits option.splits)
  have "(env_Op env, op) \<in> set (decode_table t p)" by (rule map_of_SomeD [OF t(2)])
  with table_typed [of t p] t(1) e show ?thesis by (auto simp: list_all_iff)
qed

lemma DecodeOp_total: "(\<exists>op. DecodeOp raw = Inr op) \<longleftrightarrow> op_ok raw"
proof -
  have none: "map_of (decode_table t p) k = None \<longleftrightarrow> k \<notin> set file_kinds" for t p k
    using table_kinds [of t p] by (metis map_of_eq_None_iff set_map)
  have some: "(\<exists>op. (case map_of (decode_table t p) k of None \<Rightarrow> Inl (UnsupportedOp k) | Some op \<Rightarrow> Inr op) = Inr op) \<longleftrightarrow> k \<in> set file_kinds"
    for t p k using none [of t p k] by (cases "map_of (decode_table t p) k") auto
  have par: "d_struct wire_fields params zero_wire = None \<longleftrightarrow> \<not> has_type params params_type" for params
    using accepts_params unfolding accepts_def by blast
  have par': "d_struct wire_fields params zero_wire = Some p \<Longrightarrow> has_type params params_type" for params p
    using par [of params] by auto
  have env: "d_struct envelope_fields raw zero_envelope = None \<longleftrightarrow> \<not> has_type raw envelope_type"
    using accepts_envelope unfolding accepts_def by blast
  show ?thesis
  proof (cases "d_struct envelope_fields raw zero_envelope")
    case None
    with env show ?thesis by (simp add: DecodeOp_def op_ok_def)
  next
    case (Some e)
    show ?thesis
    proof (cases "ParseRef (env_Target e)")
      case (Inr t)
      with Some env par some show ?thesis
        by (auto simp: DecodeOp_def op_ok_def envelope_of_def split: option.splits dest: par')
    qed (simp add: Some DecodeOp_def op_ok_def envelope_of_def)
  qed
qed

text \<open>C36. A changeset on the wire decodes exactly when its text is JSON, \<^verbatim>\<open>null\<close> or an array, whose elements are well-typed envelopes
  (\<open>has_type\<close>), each with one of the kinds that edit the file, a readable target and, if it has parameters, an object of parameters
  whose known fields have the types of the wire format. Then the operations come in the order of the envelopes, each of the kind
  and for the target its envelope names.\<close>

theorem DecodeOps_typed:
  "(\<exists>ops. DecodeOps raw = Inr ops) = (raw = Some JNull \<or> (\<exists>envs. raw = Some (JArr envs) \<and> list_all op_ok envs)) \<and>
   (DecodeOps (Some (JArr envs)) = Inr ops \<longrightarrow> map iface_op_Kind ops = map (\<lambda>e. env_Op (envelope_of e)) envs \<and>
      map (\<lambda>op. Inr (iface_op_Ref op)) ops = map (\<lambda>e. ParseRef (env_Target (envelope_of e))) envs)"
proof -
  have a: "(\<exists>ops. decode_from i envs = Inr ops) = list_all op_ok envs" for i envs
  proof (induction envs arbitrary: i)
    case (Cons env envs)
    have "(\<exists>ops. decode_from i (env # envs) = Inr ops) \<longleftrightarrow> (\<exists>op. DecodeOp env = Inr op) \<and> (\<exists>ops. decode_from (i + 1) envs = Inr ops)"
      by (auto split: sum.splits)
    with Cons DecodeOp_total [of env] show ?case by simp
  qed simp
  have b: "decode_from i envs = Inr ops \<Longrightarrow> map iface_op_Kind ops = map (\<lambda>e. env_Op (envelope_of e)) envs \<and>
      map (\<lambda>op. Inr (iface_op_Ref op)) ops = map (\<lambda>e. ParseRef (env_Target (envelope_of e))) envs" for i
  proof (induction envs arbitrary: i ops)
    case (Cons env envs)
    then obtain op ops' where "DecodeOp env = Inr op" "decode_from (i + 1) envs = Inr ops'" "ops = op # ops'" by (auto split: sum.splits)
    with Cons.IH DecodeOp_typed show ?case by fastforce
  qed simp
  have "(\<exists>ops. DecodeOps raw = Inr ops) = (raw = Some JNull \<or> (\<exists>envs. raw = Some (JArr envs) \<and> list_all op_ok envs))"
    using a [of 0] by (auto simp: DecodeOps_def split: option.split json.split)
  moreover have "DecodeOps (Some (JArr envs)) = decode_from 0 envs" by (simp add: DecodeOps_def)
  ultimately show ?thesis using b by metis
qed

definition mtu_env :: "json \<Rightarrow> json" where
  "mtu_env mtu = JObj [(''op'', JStr ''iface.update''), (''target'', JStr ''bond:n1:bond0''), (''params'', JObj [(''mtu'', mtu)])]"

theorem DecodeOps_typed_witness:
  "(\<exists>ops. DecodeOps (Some (JArr [mtu_env (JNum ''9000'')])) = Inr ops \<and> map iface_op_Kind ops = [''iface.update'']) \<and>
   \<not> (\<exists>ops. DecodeOps (Some (JArr [mtu_env (JStr ''9000'')])) = Inr ops)"
proof -
  have k: "env_Op (envelope_of (mtu_env j)) = ''iface.update''" for j
    by (simp add: envelope_of_def mtu_env_def d_struct_def envelope_fields_def field_for_def fld_def d_str_def d_raw_def zero_envelope_def)
  have "op_ok (mtu_env (JNum ''9000''))" "\<not> op_ok (mtu_env (JStr ''9000''))" by code_simp+
  then show ?thesis
    using DecodeOps_typed [of "Some (JArr [mtu_env (JNum ''9000'')])" "[mtu_env (JNum ''9000'')]"]
      DecodeOps_typed [of "Some (JArr [mtu_env (JStr ''9000'')])"] k by auto
qed

end
