(* ===== verification/Ifaces_Adapt.thy ===== *)
theory Ifaces_Adapt
  imports Ifaces_Wire Ifaces_Mutate Apply_Plan
begin

text \<open>
  From the ops of a changeset to the ops of the file: the parameter structs that name a file op
  (\<^verbatim>\<open>src/internal/change/params_iface.go\<close>, \<^verbatim>\<open>params_bond.go\<close>, \<^verbatim>\<open>params_bridge.go\<close>, \<^verbatim>\<open>params_vlan.go\<close>, \<^verbatim>\<open>params_edge.go\<close>,
  \<^verbatim>\<open>params_vf.go\<close>) and the adapter \<open>changeOpsToIfaces\<close> of \<^verbatim>\<open>apply_exec.go\<close>, which encodes a changeset's ops as JSON and decodes
  them with \<open>DecodeOps\<close>. The two structs meet in the names of their JSON fields: \<open>omitempty\<close> leaves out a zero value and
  a nil pointer, and a field that is left out is nil or zero on the other side; \<open>wire_of\<close> states what the decoder reads, and
  \<open>params_read\<close> that it does. Strings are valid UTF-8, as they come from JSON.
\<close>

section \<open>Parameters of the file ops\<close>

record IfaceUpdateParams =
  iup_MTU :: "int option"
  iup_Comments :: "string option"
  iup_Addresses :: "string list option"
  iup_Gateway :: "string option"
  iup_Autostart :: "bool option"
  iup_RemoveAddress :: bool
  iup_RemoveGateway :: bool

record BondCreateParams =
  bcp_Mode :: string
  bcp_LACPRate :: string
  bcp_XmitHashPolicy :: string
  bcp_Comments :: string
  bcp_Bridge :: string
  bcp_Slaves :: "string list"
  bcp_MIIMon :: int
  bcp_MTU :: int

record BondUpdateParams =
  bup_Mode :: "string option"
  bup_Slaves :: "string list option"
  bup_LACPRate :: "string option"
  bup_XmitHashPolicy :: "string option"
  bup_MIIMon :: "int option"
  bup_MTU :: "int option"
  bup_Comments :: "string option"

record BridgeCreateParams =
  gcp_Gateway :: string
  gcp_Comments :: string
  gcp_Ports :: "string list"
  gcp_Vids :: "VidRange list"
  gcp_Addresses :: "string list"
  gcp_MTU :: int
  gcp_VlanAware :: bool
  gcp_STP :: bool

record BridgeUpdateParams =
  gup_VlanAware :: "bool option"
  gup_Vids :: "VidRange list option"
  gup_Addresses :: "string list option"
  gup_Gateway :: "string option"
  gup_MTU :: "int option"
  gup_STP :: "bool option"
  gup_Comments :: "string option"

record VlanCreateParams =
  vcp_Parent :: string
  vcp_Gateway :: string
  vcp_Addresses :: "string list"
  vcp_Trunks :: "VidRange list"
  vcp_Vid :: int
  vcp_MTU :: int
  vcp_OVS :: bool

record VlanUpdateParams =
  vup_Addresses :: "string list option"
  vup_MTU :: "int option"

record NatMasqueradeCreateParams =
  mcp_Iface :: string
  mcp_SourceCIDR :: string
  mcp_Comment :: string

record NatPortForwardCreateParams =
  pcp_Iface :: string
  pcp_Proto :: string
  pcp_IntIP :: string
  pcp_Comment :: string
  pcp_ExtPort :: int
  pcp_IntPort :: int

record NatPortForwardUpdateParams =
  pup_Iface :: "string option"
  pup_Proto :: "string option"
  pup_IntIP :: "string option"
  pup_Comment :: "string option"
  pup_ExtPort :: "int option"
  pup_IntPort :: "int option"

record RouteStaticCreateParams =
  rcp_Iface :: string
  rcp_DestCIDR :: string
  rcp_Gateway :: string
  rcp_Comment :: string
  rcp_Metric :: int

record RouteStaticUpdateParams =
  rup_Iface :: "string option"
  rup_DestCIDR :: "string option"
  rup_Gateway :: "string option"
  rup_Comment :: "string option"
  rup_Metric :: "int option"

text \<open>The functions of a card have the fields of the host's \<open>VFSpec\<close>, and a range of VLANs those of the inventory's.\<close>

record VFProvisionParams =
  vpp_SpoofCheck :: "bool option"
  vpp_Trust :: "bool option"
  vpp_MacAddr :: string
  vpp_VFs :: "VFSpec list"
  vpp_VLAN :: int
  vpp_Count :: int

text \<open>The empty structs of the deletes are one constructor.\<close>

datatype file_params =
    PIfaceUpdate IfaceUpdateParams
  | PIfaceRename string
  | PIfaceRawReplace string string
  | PBondCreate BondCreateParams
  | PBondUpdate BondUpdateParams
  | PBridgeCreate BridgeCreateParams
  | PBridgeUpdate BridgeUpdateParams
  | PBridgePort string
  | PVlanCreate VlanCreateParams
  | PVlanUpdate VlanUpdateParams
  | PNatMasqueradeCreate NatMasqueradeCreateParams
  | PNatPortForwardCreate NatPortForwardCreateParams
  | PNatPortForwardUpdate NatPortForwardUpdateParams
  | PRouteStaticCreate RouteStaticCreateParams
  | PRouteStaticUpdate RouteStaticUpdateParams
  | PVFProvision VFProvisionParams
  | PDelete


section \<open>The wire\<close>

text \<open>The fields each struct is written with.\<close>

definition j_VidRange :: "VidRange \<Rightarrow> json" where
  "j_VidRange v = j_struct [f_val j_int ''low'' (vid_Low v), f_val j_int ''high'' (vid_High v)]"

definition j_VFSpec :: "VFSpec \<Rightarrow> json" where
  "j_VFSpec v = j_struct [f_ptr JBool ''spoofCheck'' (vs_SpoofCheck v), f_ptr JBool ''trust'' (vs_Trust v), f_omit [] JStr ''macAddr'' (vs_MacAddr v),
     f_val j_int ''id'' (vs_ID v), f_omit 0 j_int ''vlan'' (vs_VLAN v)]"

abbreviation "j_strs \<equiv> j_list JStr"
abbreviation "j_vids \<equiv> j_list j_VidRange"

fun params_JSON :: "file_params \<Rightarrow> json" where
  "params_JSON (PIfaceUpdate p) = j_struct [f_ptr j_int ''mtu'' (iup_MTU p), f_ptr JStr ''comments'' (iup_Comments p),
     f_ptr j_strs ''addresses'' (iup_Addresses p), f_ptr JStr ''gateway'' (iup_Gateway p),
     f_ptr JBool ''autostart'' (iup_Autostart p), f_omit False JBool ''removeAddress'' (iup_RemoveAddress p),
     f_omit False JBool ''removeGateway'' (iup_RemoveGateway p)]"
| "params_JSON (PIfaceRename n) = j_struct [f_val JStr ''newName'' n]"
| "params_JSON (PIfaceRawReplace content baseHash) = j_struct [f_val JStr ''content'' content, f_omit [] JStr ''baseHash'' baseHash]"
| "params_JSON (PBondCreate p) = j_struct [f_val JStr ''mode'' (bcp_Mode p), f_omit [] JStr ''lacpRate'' (bcp_LACPRate p),
     f_omit [] JStr ''xmitHashPolicy'' (bcp_XmitHashPolicy p), f_omit [] JStr ''comments'' (bcp_Comments p),
     f_omit [] JStr ''bridge'' (bcp_Bridge p), f_val j_strs ''slaves'' (bcp_Slaves p), f_omit 0 j_int ''miimon'' (bcp_MIIMon p),
     f_omit 0 j_int ''mtu'' (bcp_MTU p)]"
| "params_JSON (PBondUpdate p) = j_struct [f_ptr JStr ''mode'' (bup_Mode p), f_ptr j_strs ''slaves'' (bup_Slaves p),
     f_ptr JStr ''lacpRate'' (bup_LACPRate p), f_ptr JStr ''xmitHashPolicy'' (bup_XmitHashPolicy p),
     f_ptr j_int ''miimon'' (bup_MIIMon p), f_ptr j_int ''mtu'' (bup_MTU p), f_ptr JStr ''comments'' (bup_Comments p)]"
| "params_JSON (PBridgeCreate p) = j_struct [f_omit [] JStr ''gateway'' (gcp_Gateway p), f_omit [] JStr ''comments'' (gcp_Comments p),
     f_omit [] j_strs ''ports'' (gcp_Ports p), f_omit [] j_vids ''vids'' (gcp_Vids p),
     f_omit [] j_strs ''addresses'' (gcp_Addresses p), f_omit 0 j_int ''mtu'' (gcp_MTU p),
     f_omit False JBool ''vlanAware'' (gcp_VlanAware p), f_omit False JBool ''stp'' (gcp_STP p)]"
| "params_JSON (PBridgeUpdate p) = j_struct [f_ptr JBool ''vlanAware'' (gup_VlanAware p), f_ptr j_vids ''vids'' (gup_Vids p),
     f_ptr j_strs ''addresses'' (gup_Addresses p), f_ptr JStr ''gateway'' (gup_Gateway p), f_ptr j_int ''mtu'' (gup_MTU p),
     f_ptr JBool ''stp'' (gup_STP p), f_ptr JStr ''comments'' (gup_Comments p)]"
| "params_JSON (PBridgePort port) = j_struct [f_val JStr ''port'' port]"
| "params_JSON (PVlanCreate p) = j_struct [f_val JStr ''parent'' (vcp_Parent p), f_omit [] JStr ''gateway'' (vcp_Gateway p),
     f_omit [] j_strs ''addresses'' (vcp_Addresses p), f_omit [] j_vids ''trunks'' (vcp_Trunks p), f_val j_int ''vid'' (vcp_Vid p),
     f_omit 0 j_int ''mtu'' (vcp_MTU p), f_omit False JBool ''ovs'' (vcp_OVS p)]"
| "params_JSON (PVlanUpdate p) = j_struct [f_ptr j_strs ''addresses'' (vup_Addresses p), f_ptr j_int ''mtu'' (vup_MTU p)]"
| "params_JSON (PNatMasqueradeCreate p) = j_struct [f_val JStr ''iface'' (mcp_Iface p), f_val JStr ''sourceCidr'' (mcp_SourceCIDR p),
     f_omit [] JStr ''comment'' (mcp_Comment p)]"
| "params_JSON (PNatPortForwardCreate p) = j_struct [f_val JStr ''iface'' (pcp_Iface p), f_val JStr ''proto'' (pcp_Proto p),
     f_val JStr ''intIp'' (pcp_IntIP p), f_omit [] JStr ''comment'' (pcp_Comment p), f_val j_int ''extPort'' (pcp_ExtPort p),
     f_val j_int ''intPort'' (pcp_IntPort p)]"
| "params_JSON (PNatPortForwardUpdate p) = j_struct [f_ptr JStr ''iface'' (pup_Iface p), f_ptr JStr ''proto'' (pup_Proto p),
     f_ptr JStr ''intIp'' (pup_IntIP p), f_ptr JStr ''comment'' (pup_Comment p), f_ptr j_int ''extPort'' (pup_ExtPort p),
     f_ptr j_int ''intPort'' (pup_IntPort p)]"
| "params_JSON (PRouteStaticCreate p) = j_struct [f_val JStr ''iface'' (rcp_Iface p), f_val JStr ''destCidr'' (rcp_DestCIDR p),
     f_val JStr ''gateway'' (rcp_Gateway p), f_omit [] JStr ''comment'' (rcp_Comment p), f_omit 0 j_int ''metric'' (rcp_Metric p)]"
| "params_JSON (PRouteStaticUpdate p) = j_struct [f_ptr JStr ''iface'' (rup_Iface p), f_ptr JStr ''destCidr'' (rup_DestCIDR p),
     f_ptr JStr ''gateway'' (rup_Gateway p), f_ptr JStr ''comment'' (rup_Comment p), f_ptr j_int ''metric'' (rup_Metric p)]"
| "params_JSON (PVFProvision p) = j_struct [f_ptr JBool ''spoofCheck'' (vpp_SpoofCheck p), f_ptr JBool ''trust'' (vpp_Trust p),
     f_omit [] JStr ''macAddr'' (vpp_MacAddr p), f_omit [] (j_list j_VFSpec) ''vfs'' (vpp_VFs p),
     f_omit 0 j_int ''vlan'' (vpp_VLAN p), f_omit 0 j_int ''count'' (vpp_Count p)]"
| "params_JSON PDelete = j_struct []"

text \<open>The parameters of an op that is not one of the file are never encoded by the adapter; the decoder refuses their kinds.\<close>

definition op_params_JSON :: "file_params plan_op \<Rightarrow> json" where
  "op_params_JSON op = (case op_Params op of POther (PRest p) \<Rightarrow> params_JSON p | _ \<Rightarrow> j_struct [])"

definition op_MarshalJSON :: "file_params plan_op \<Rightarrow> json" where
  "op_MarshalJSON op =
     (let target = (if Ref_IsZero (op_Target op) then JNull else JStr (Ref_String (op_Target op)))
      in j_struct [f_val JStr ''op'' (op_Type op), f_omit [] JStr ''id'' (op_ID op), f_val id ''target'' target,
           f_val id ''params'' (op_params_JSON op)])"

definition changeOpsToIfaces :: "file_params plan_op list \<Rightarrow> decode_error + iface_op list" where
  "changeOpsToIfaces ops = DecodeOps (Some (JArr (map op_MarshalJSON ops)))"


section \<open>What the decoder reads\<close>

text \<open>The parameters as the decoder has them.\<close>

fun wire_of :: "file_params \<Rightarrow> wireParams" where
  "wire_of (PIfaceUpdate p) = zero_wire\<lparr> w_MTU := iup_MTU p, w_Comments := iup_Comments p, w_Addresses := or_zero [] (iup_Addresses p),
     w_Gateway := iup_Gateway p, w_Autostart := iup_Autostart p, w_RemoveAddress := iup_RemoveAddress p, w_RemoveGateway := iup_RemoveGateway p \<rparr>"
| "wire_of (PIfaceRename n) = zero_wire\<lparr> w_NewName := n \<rparr>"
| "wire_of (PIfaceRawReplace content baseHash) = zero_wire\<lparr> w_Content := content \<rparr>"
| "wire_of (PBondCreate p) = zero_wire\<lparr> w_Mode := bcp_Mode p, w_LacpRate := bcp_LACPRate p, w_XmitHashPolicy := bcp_XmitHashPolicy p,
     w_Comments := omit [] (bcp_Comments p), w_Bridge := bcp_Bridge p, w_Slaves := bcp_Slaves p, w_MIIMon := bcp_MIIMon p, w_MTU := omit 0 (bcp_MTU p) \<rparr>"
| "wire_of (PBondUpdate p) = zero_wire\<lparr> w_Mode := or_zero [] (bup_Mode p), w_Slaves := or_zero [] (bup_Slaves p), w_LacpRate := or_zero [] (bup_LACPRate p),
     w_XmitHashPolicy := or_zero [] (bup_XmitHashPolicy p), w_MIIMon := or_zero 0 (bup_MIIMon p), w_MTU := bup_MTU p, w_Comments := bup_Comments p \<rparr>"
| "wire_of (PBridgeCreate p) = zero_wire\<lparr> w_Gateway := omit [] (gcp_Gateway p), w_Comments := omit [] (gcp_Comments p), w_Ports := gcp_Ports p,
     w_Vids := gcp_Vids p, w_Addresses := gcp_Addresses p, w_MTU := omit 0 (gcp_MTU p), w_VlanAware := omit False (gcp_VlanAware p),
     w_STP := omit False (gcp_STP p) \<rparr>"
| "wire_of (PBridgeUpdate p) = zero_wire\<lparr> w_VlanAware := gup_VlanAware p, w_Vids := or_zero [] (gup_Vids p), w_Addresses := or_zero [] (gup_Addresses p),
     w_Gateway := gup_Gateway p, w_MTU := gup_MTU p, w_STP := gup_STP p, w_Comments := gup_Comments p \<rparr>"
| "wire_of (PBridgePort port) = zero_wire\<lparr> w_Port := port \<rparr>"
| "wire_of (PVlanCreate p) = zero_wire\<lparr> w_Parent := vcp_Parent p, w_Gateway := omit [] (vcp_Gateway p), w_Addresses := vcp_Addresses p,
     w_Trunks := vcp_Trunks p, w_VID := vcp_Vid p, w_MTU := omit 0 (vcp_MTU p), w_OVS := vcp_OVS p \<rparr>"
| "wire_of (PVlanUpdate p) = zero_wire\<lparr> w_Addresses := or_zero [] (vup_Addresses p), w_MTU := vup_MTU p \<rparr>"
| "wire_of (PNatMasqueradeCreate p) = zero_wire\<lparr> w_Iface := Some (mcp_Iface p), w_SourceCIDR := Some (mcp_SourceCIDR p), w_Comment := omit [] (mcp_Comment p) \<rparr>"
| "wire_of (PNatPortForwardCreate p) = zero_wire\<lparr> w_Iface := Some (pcp_Iface p), w_Proto := Some (pcp_Proto p), w_IntIP := Some (pcp_IntIP p),
     w_Comment := omit [] (pcp_Comment p), w_ExtPort := Some (pcp_ExtPort p), w_IntPort := Some (pcp_IntPort p) \<rparr>"
| "wire_of (PNatPortForwardUpdate p) = zero_wire\<lparr> w_Iface := pup_Iface p, w_Proto := pup_Proto p, w_IntIP := pup_IntIP p, w_Comment := pup_Comment p,
     w_ExtPort := pup_ExtPort p, w_IntPort := pup_IntPort p \<rparr>"
| "wire_of (PRouteStaticCreate p) = zero_wire\<lparr> w_Iface := Some (rcp_Iface p), w_DestCIDR := Some (rcp_DestCIDR p), w_Gateway := Some (rcp_Gateway p),
     w_Comment := omit [] (rcp_Comment p), w_Metric := omit 0 (rcp_Metric p) \<rparr>"
| "wire_of (PRouteStaticUpdate p) = zero_wire\<lparr> w_Iface := rup_Iface p, w_DestCIDR := rup_DestCIDR p, w_Gateway := rup_Gateway p,
     w_Comment := rup_Comment p, w_Metric := rup_Metric p \<rparr>"
| "wire_of (PVFProvision p) = zero_wire\<lparr> w_SpoofCheck := vpp_SpoofCheck p, w_Trust := vpp_Trust p, w_MacAddr := omit [] (vpp_MacAddr p),
     w_VFs := vpp_VFs p, w_VLAN := omit 0 (vpp_VLAN p), w_Count := vpp_Count p \<rparr>"
| "wire_of PDelete = zero_wire"

lemma VidRange_look:
  "field_for VidRange_fields ''low'' = Some (fld vid_Low vid_Low_update d_int)"
  "field_for VidRange_fields ''high'' = Some (fld vid_High vid_High_update d_int)"
proof -
  have "go_EqualFold ''Low'' ''low''" "go_EqualFold ''High'' ''high''" "\<not> go_EqualFold ''Low'' ''high''" by code_simp+
  then show "field_for VidRange_fields ''low'' = Some (fld vid_Low vid_Low_update d_int)"
    "field_for VidRange_fields ''high'' = Some (fld vid_High vid_High_update d_int)"
    by (simp_all add: field_for_def VidRange_fields_def)
qed

lemma VFSpec_look:
  "field_for VFSpec_fields ''spoofCheck'' = Some (fld vs_SpoofCheck vs_SpoofCheck_update (d_ptr False d_bool))"
  "field_for VFSpec_fields ''trust'' = Some (fld vs_Trust vs_Trust_update (d_ptr False d_bool))"
  "field_for VFSpec_fields ''macAddr'' = Some (fld vs_MacAddr vs_MacAddr_update d_str)"
  "field_for VFSpec_fields ''id'' = Some (fld vs_ID vs_ID_update d_int)"
  "field_for VFSpec_fields ''vlan'' = Some (fld vs_VLAN vs_VLAN_update d_int)"
  by (simp_all add: field_for_def VFSpec_fields_def)

lemma codec_VidRange: "codec (d_struct VidRange_fields) zero_VidRange j_VidRange (\<lambda>v. fits_int (vid_Low v) \<and> fits_int (vid_High v))"
  by (simp add: codec_def j_VidRange_def j_struct_def d_struct_def zero_VidRange_def read_done
      read_value [OF codec_base(3) VidRange_look(1)] read_value [OF codec_base(3) VidRange_look(2)])

lemma codec_VFSpec: "codec (d_struct VFSpec_fields) zero_VFSpec j_VFSpec (\<lambda>v. fits_int (vs_ID v) \<and> fits_int (vs_VLAN v))"
proof -
  have "fits_int 0" by (simp add: fits_int_def)
  then show ?thesis
    by (auto simp: codec_def j_VFSpec_def j_struct_def d_struct_def zero_VFSpec_def read_done option.pred_True
      read_pointer [OF codec_base(2) VFSpec_look(1)] read_pointer [OF codec_base(2) VFSpec_look(2)]
      read_value [OF codec_base(1) VFSpec_look(3)] read_value [OF codec_base(3) VFSpec_look(4)] read_value [OF codec_base(3) VFSpec_look(5)])
qed

lemma wire_look:
  "field_for wire_fields ''intIp'' = Some (fld w_IntIP w_IntIP_update (d_ptr [] d_str))"
  "field_for wire_fields ''iface'' = Some (fld w_Iface w_Iface_update (d_ptr [] d_str))"
  "field_for wire_fields ''gateway'' = Some (fld w_Gateway w_Gateway_update (d_ptr [] d_str))"
  "field_for wire_fields ''autostart'' = Some (fld w_Autostart w_Autostart_update (d_ptr False d_bool))"
  "field_for wire_fields ''stp'' = Some (fld w_STP w_STP_update (d_ptr False d_bool))"
  "field_for wire_fields ''mtu'' = Some (fld w_MTU w_MTU_update (d_ptr 0 d_int))"
  "field_for wire_fields ''metric'' = Some (fld w_Metric w_Metric_update (d_ptr 0 d_int))"
  "field_for wire_fields ''intPort'' = Some (fld w_IntPort w_IntPort_update (d_ptr 0 d_int))"
  "field_for wire_fields ''extPort'' = Some (fld w_ExtPort w_ExtPort_update (d_ptr 0 d_int))"
  "field_for wire_fields ''vlanAware'' = Some (fld w_VlanAware w_VlanAware_update (d_ptr False d_bool))"
  "field_for wire_fields ''comment'' = Some (fld w_Comment w_Comment_update (d_ptr [] d_str))"
  "field_for wire_fields ''sourceCidr'' = Some (fld w_SourceCIDR w_SourceCIDR_update (d_ptr [] d_str))"
  "field_for wire_fields ''comments'' = Some (fld w_Comments w_Comments_update (d_ptr [] d_str))"
  "field_for wire_fields ''proto'' = Some (fld w_Proto w_Proto_update (d_ptr [] d_str))"
  "field_for wire_fields ''destCidr'' = Some (fld w_DestCIDR w_DestCIDR_update (d_ptr [] d_str))"
  "field_for wire_fields ''vlan'' = Some (fld w_VLAN w_VLAN_update (d_ptr 0 d_int))"
  "field_for wire_fields ''spoofCheck'' = Some (fld w_SpoofCheck w_SpoofCheck_update (d_ptr False d_bool))"
  "field_for wire_fields ''macAddr'' = Some (fld w_MacAddr w_MacAddr_update (d_ptr [] d_str))"
  "field_for wire_fields ''trust'' = Some (fld w_Trust w_Trust_update (d_ptr False d_bool))"
  "field_for wire_fields ''port'' = Some (fld w_Port w_Port_update d_str)"
  "field_for wire_fields ''bridge'' = Some (fld w_Bridge w_Bridge_update d_str)"
  "field_for wire_fields ''xmitHashPolicy'' = Some (fld w_XmitHashPolicy w_XmitHashPolicy_update d_str)"
  "field_for wire_fields ''lacpRate'' = Some (fld w_LacpRate w_LacpRate_update d_str)"
  "field_for wire_fields ''newName'' = Some (fld w_NewName w_NewName_update d_str)"
  "field_for wire_fields ''mode'' = Some (fld w_Mode w_Mode_update d_str)"
  "field_for wire_fields ''content'' = Some (fld w_Content w_Content_update d_str)"
  "field_for wire_fields ''parent'' = Some (fld w_Parent w_Parent_update d_str)"
  "field_for wire_fields ''trunks'' = Some (fld w_Trunks w_Trunks_update (d_list zero_VidRange (d_struct VidRange_fields)))"
  "field_for wire_fields ''vids'' = Some (fld w_Vids w_Vids_update (d_list zero_VidRange (d_struct VidRange_fields)))"
  "field_for wire_fields ''ports'' = Some (fld w_Ports w_Ports_update (d_list [] d_str))"
  "field_for wire_fields ''vfs'' = Some (fld w_VFs w_VFs_update (d_list zero_VFSpec (d_struct VFSpec_fields)))"
  "field_for wire_fields ''addresses'' = Some (fld w_Addresses w_Addresses_update (d_list [] d_str))"
  "field_for wire_fields ''slaves'' = Some (fld w_Slaves w_Slaves_update (d_list [] d_str))"
  "field_for wire_fields ''vid'' = Some (fld w_VID w_VID_update d_int)"
  "field_for wire_fields ''count'' = Some (fld w_Count w_Count_update d_int)"
  "field_for wire_fields ''miimon'' = Some (fld w_MIIMon w_MIIMon_update d_int)"
  "field_for wire_fields ''removeAddress'' = Some (fld w_RemoveAddress w_RemoveAddress_update d_bool)"
  "field_for wire_fields ''ovs'' = Some (fld w_OVS w_OVS_update d_bool)"
  "field_for wire_fields ''removeGateway'' = Some (fld w_RemoveGateway w_RemoveGateway_update d_bool)"
  by (simp_all add: field_for_def wire_fields_def)

lemmas wire_read =
  read_pointer [OF codec_base(1) wire_look(1)]
  read_pointer [OF codec_base(1) wire_look(2)]
  read_pointer [OF codec_base(1) wire_look(3)]
  read_pointer [OF codec_base(2) wire_look(4)]
  read_pointer [OF codec_base(2) wire_look(5)]
  read_pointer [OF codec_base(3) wire_look(6)]
  read_pointer [OF codec_base(3) wire_look(7)]
  read_pointer [OF codec_base(3) wire_look(8)]
  read_pointer [OF codec_base(3) wire_look(9)]
  read_pointer [OF codec_base(2) wire_look(10)]
  read_pointer [OF codec_base(1) wire_look(11)]
  read_pointer [OF codec_base(1) wire_look(12)]
  read_pointer [OF codec_base(1) wire_look(13)]
  read_pointer [OF codec_base(1) wire_look(14)]
  read_pointer [OF codec_base(1) wire_look(15)]
  read_pointer [OF codec_base(3) wire_look(16)]
  read_pointer [OF codec_base(2) wire_look(17)]
  read_pointer [OF codec_base(1) wire_look(18)]
  read_pointer [OF codec_base(2) wire_look(19)]
  read_value [OF codec_base(1) wire_look(20)]
  read_value [OF codec_base(1) wire_look(21)]
  read_value [OF codec_base(1) wire_look(22)]
  read_value [OF codec_base(1) wire_look(23)]
  read_value [OF codec_base(1) wire_look(24)]
  read_value [OF codec_base(1) wire_look(25)]
  read_value [OF codec_base(1) wire_look(26)]
  read_value [OF codec_base(1) wire_look(27)]
  read_value [OF codec_list [OF codec_VidRange] wire_look(28)]
  read_value [OF codec_list [OF codec_VidRange] wire_look(29)]
  read_value [OF codec_list [OF codec_base(1)] wire_look(30)]
  read_value [OF codec_list [OF codec_VFSpec] wire_look(31)]
  read_value [OF codec_list [OF codec_base(1)] wire_look(32)]
  read_value [OF codec_list [OF codec_base(1)] wire_look(33)]
  read_value [OF codec_base(3) wire_look(34)]
  read_value [OF codec_base(3) wire_look(35)]
  read_value [OF codec_base(3) wire_look(36)]
  read_value [OF codec_base(2) wire_look(37)]
  read_value [OF codec_base(2) wire_look(38)]
  read_value [OF codec_base(2) wire_look(39)]

lemma unknown_field: "field_for T n = None \<Longrightarrow> d_fields T (all_fields (f_omit z f n v # es)) r = d_fields T (all_fields es) r"
  by (simp add: all_fields_def f_omit_def)

text \<open>The hash of the raw editor is no parameter of the decoder.\<close>

lemma baseHash_unknown: "field_for wire_fields ''baseHash'' = None"
proof (rule field_for_none)
  have n: "map fst wire_fields = [''intIp'', ''iface'', ''gateway'', ''autostart'', ''stp'', ''mtu'', ''metric'', ''intPort'', ''extPort'', ''vlanAware'', ''comment'', ''sourceCidr'', ''comments'', ''proto'', ''destCidr'', ''vlan'', ''spoofCheck'', ''macAddr'', ''trust'', ''port'', ''bridge'', ''xmitHashPolicy'', ''lacpRate'', ''newName'', ''mode'', ''content'', ''parent'', ''trunks'', ''vids'', ''ports'', ''vfs'', ''addresses'', ''slaves'', ''vid'', ''count'', ''miimon'', ''removeAddress'', ''ovs'', ''removeXmitHashPolicy'', ''removeLacpRate'', ''removeVids'', ''removeGateway'']"
    by (simp add: wire_fields_def)
  show "list_all (\<lambda>n. \<not> go_EqualFold n ''baseHash'') (map fst wire_fields)" unfolding n by code_simp
qed

lemma params_read: "d_struct wire_fields (params_JSON p) zero_wire = Some w \<Longrightarrow> w = wire_of p"
proof -
  assume "d_struct wire_fields (params_JSON p) zero_wire = Some w"
  then show "w = wire_of p"
    by (cases p) (simp_all add: d_struct_def j_struct_def zero_wire_def wire_read read_done unknown_field [OF baseHash_unknown] split: if_splits)
qed

lemma envelope_read:
  "d_struct envelope_fields (op_MarshalJSON op) zero_envelope = Some \<lparr> env_Op = op_Type op,
     env_Target = (if Ref_IsZero (op_Target op) then [] else Ref_String (op_Target op)), env_Params = Some (op_params_JSON op) \<rparr>"
proof -
  have "field_for envelope_fields ''id'' = None"
    unfolding envelope_fields_def by (rule field_for_none) (simp, code_simp)
  then show ?thesis
    by (simp add: op_MarshalJSON_def j_struct_def all_fields_def d_struct_def f_val_def f_omit_def Let_def)
      (simp add: envelope_fields_def field_for_def fld_def d_str_def d_raw_def zero_envelope_def)
qed


section \<open>The adapter works op by op\<close>

lemma decode_from_Cons:
  "decode_from i (env # envs) = Inr ops \<longleftrightarrow> (\<exists>op ops'. ops = op # ops' \<and> DecodeOp env = Inr op \<and> decode_from (i + 1) envs = Inr ops')"
  by (auto split: sum.splits)

lemma decode_from_iff:
  "decode_from i envs = Inr ops \<longleftrightarrow> list_all2 (\<lambda>env op. DecodeOp env = Inr op) envs ops"
proof (induction envs arbitrary: i ops)
  case (Cons env envs)
  show ?case by (simp only: decode_from_Cons Cons.IH list_all2_Cons1)
qed auto

text \<open>An op of the changeset and the one it becomes: the switch of the decoder at the parameters that were read.\<close>

definition adapts :: "file_params plan_op \<Rightarrow> iface_op \<Rightarrow> bool" where
  "adapts op x \<longleftrightarrow> DecodeOp (op_MarshalJSON op) = Inr x"

lemma adapts_table:
  assumes "adapts op x" "op_Params op = POther (PRest p)"
  shows "\<exists>t. map_of (decode_table t (wire_of p)) (op_Type op) = Some x"
  using assms params_read [of p]
  by (auto simp: adapts_def DecodeOp_def envelope_read op_params_JSON_def split: sum.splits option.splits)

lemma changeOpsToIfaces_iff: "changeOpsToIfaces ops = Inr xs \<longleftrightarrow> list_all2 adapts ops xs"
  by (simp add: changeOpsToIfaces_def DecodeOps_def decode_from_iff list_all2_map1 adapts_def [abs_def])

text \<open>The targets of a changeset's ops were parsed when it was read.\<close>

definition parsed_target :: "'p Op \<Rightarrow> bool" where
  "parsed_target op \<longleftrightarrow> ParseRef (Ref_String (op_Target op)) = Inr (op_Target op)"

lemma adapts_typed:
  assumes "adapts op x" "parsed_target op"
  shows "iface_op_Kind x = op_Type op" "iface_op_Ref x = op_Target op"
proof -
  note t = DecodeOp_typed [OF assms(1) [unfolded adapts_def]]
  have "ParseRef [] \<noteq> Inr (iface_op_Ref x)" by (simp add: ParseRef_def numeral_3_eq_3)
  then have "\<not> Ref_IsZero (op_Target op)" using t by (auto simp: envelope_of_def envelope_read)
  then show "iface_op_Kind x = op_Type op" "iface_op_Ref x = op_Target op"
    using t assms(2) by (simp_all add: envelope_of_def envelope_read parsed_target_def)
qed

text \<open>Selecting ops before the adapter is selecting their images after it.\<close>

lemma adapts_filter:
  assumes "list_all2 adapts ops xs" "list_all parsed_target ops"
  shows "list_all2 adapts (filter (\<lambda>op. ref_Node (op_Target op) = n) ops) (filter (\<lambda>x. ref_Node (iface_op_Ref x) = n) xs)"
  using assms by (induction rule: list_all2_induct) (auto simp: adapts_typed)

lemma adapts_nodes:
  assumes "list_all2 adapts ops xs" "list_all parsed_target ops"
  shows "map (\<lambda>x. ref_Node (iface_op_Ref x)) xs = map (\<lambda>op. ref_Node (op_Target op)) ops"
  using assms by (induction rule: list_all2_induct) (auto simp: adapts_typed)

end
