(* ===== verification/Ifaces_Review.thy ===== *)
theory Ifaces_Review
  imports Ifaces_Props Ifaces_Frame Diff_Props Ifaces_Adapt
begin

text \<open>
  The review of a changeset (\<open>DiffChangeset\<close> in \<^verbatim>\<open>src/internal/change/ifaces/changeset.go\<close>) and the file the apply stages
  (\<open>computeStagedFile\<close> in \<^verbatim>\<open>src/internal/change/apply_exec.go\<close>): both parse, edit and render, so what is staged
  is what was shown.
\<close>

section \<open>Staging and reviewing\<close>

datatype stage_error = StageParse string parse_error | StageAdapt decode_error | StageMutate mutate_error

text \<open>The ops of the step by their positions; a position outside the list, where Go panics, never comes from the planner.\<close>

definition computeStagedFile :: "string \<Rightarrow> string \<Rightarrow> file_params plan_op list \<Rightarrow> nat list \<Rightarrow> string \<Rightarrow> stage_error + string" where
  "computeStagedFile pre node ops opIdx changesetID =
     (case ParseInterfaces pre of Inl e \<Rightarrow> Inl (StageParse node e)
      | Inr f \<Rightarrow> (case changeOpsToIfaces (map ((!) ops) opIdx) of Inl e \<Rightarrow> Inl (StageAdapt e)
        | Inr ifOps \<Rightarrow> (case MutateAll f ifOps changesetID of Inl e \<Rightarrow> Inl (StageMutate e) | Inr f' \<Rightarrow> Inr (Render f'))))"

definition interfacesPath :: string where
  "interfacesPath = ''/etc/network/interfaces''"

record FileDiff =
  fd_Node :: string
  fd_Path :: string
  fd_Unified :: string
  fd_Changed :: bool

record ChangesetDiff =
  cd_Files :: "FileDiff list"
  cd_Ops :: "OpSummary list"

datatype 'e diff_error = DiffRead string 'e | DiffParse string parse_error | DiffMutate mutate_error | DiffAdapt decode_error

definition diff_node :: "(string \<Rightarrow> 'e + string) \<Rightarrow> iface_op list \<Rightarrow> string \<Rightarrow> string \<Rightarrow> 'e diff_error + FileDiff" where
  "diff_node reader ops changesetID node =
     (case reader node of Inl e \<Rightarrow> Inl (DiffRead node e)
      | Inr pre \<Rightarrow> (case ParseInterfaces pre of Inl e \<Rightarrow> Inl (DiffParse node e)
        | Inr f \<Rightarrow> (case MutateAll f ops changesetID of Inl e \<Rightarrow> Inl (DiffMutate e)
          | Inr f' \<Rightarrow>
              (let unified = UnifiedDiff interfacesPath interfacesPath pre (Render f') in
               Inr \<lparr> fd_Node = node, fd_Path = interfacesPath, fd_Unified = unified, fd_Changed = (unified \<noteq> []) \<rparr>))))"

fun diff_nodes :: "(string \<Rightarrow> 'e + string) \<Rightarrow> iface_op list \<Rightarrow> string \<Rightarrow> string list \<Rightarrow> 'e diff_error + FileDiff list" where
  "diff_nodes reader ops changesetID [] = Inr []"
| "diff_nodes reader ops changesetID (node # nodes) =
     (case diff_node reader (filter (\<lambda>op. ref_Node (iface_op_Ref op) = node) ops) changesetID node of Inl e \<Rightarrow> Inl e
      | Inr d \<Rightarrow> (case diff_nodes reader ops changesetID nodes of Inl e \<Rightarrow> Inl e | Inr ds \<Rightarrow> Inr (d # ds)))"

definition DiffChangeset :: "(string \<Rightarrow> 'e + string) \<Rightarrow> iface_op list \<Rightarrow> string \<Rightarrow> 'e diff_error + ChangesetDiff" where
  "DiffChangeset reader ops changesetID =
     (case diff_nodes reader ops changesetID (first_seen (map (\<lambda>op. ref_Node (iface_op_Ref op)) ops)) of
        Inl e \<Rightarrow> Inl e
      | Inr files \<Rightarrow> Inr \<lparr> cd_Files = files, cd_Ops = map Summarize ops \<rparr>)"


text \<open>The part of \<open>Service.Diff\<close> that is about the files of the nodes, after the checks of the changeset.\<close>

definition svc_Diff_files :: "(string \<Rightarrow> 'e + string) \<Rightarrow> file_params plan_op list \<Rightarrow> string \<Rightarrow> 'e diff_error + ChangesetDiff" where
  "svc_Diff_files reader ops id1 =
     (let fileOps = filter (\<lambda>op. op_Type op \<in> set nodeFileOpTypes) ops in
      case changeOpsToIfaces fileOps of Inl e \<Rightarrow> Inl (DiffAdapt e) | Inr ifOps \<Rightarrow> DiffChangeset reader ifOps id1)"


section \<open>What is shown is what is staged\<close>

text \<open>The node's share of a changeset, as the planner collects it.\<close>

definition node_idxs :: "'q plan_op list \<Rightarrow> string \<Rightarrow> nat list" where
  "node_idxs ops n = group_of (node_kvs (enumerate 0 ops)) n"

lemma node_idxs_filter:
  "map ((!) ops) (node_idxs ops n) = filter (\<lambda>op. op_Type op \<in> set nodeFileOpTypes \<and> ref_Node (op_Target op) = n) ops"
proof -
  have f: "fam t = FNodeFile \<longleftrightarrow> t \<in> set nodeFileOpTypes" for t using fam_in fam_out by blast
  have "node_idxs ops n = map fst (filter (\<lambda>(i, op). op_Type op \<in> set nodeFileOpTypes \<and> ref_Node (op_Target op) = n) (enumerate 0 ops))"
    by (simp add: node_idxs_def group_of_def node_kvs_def sel_def filter_map comp_def case_prod_beta' f conj_commute)
  also have "\<dots> = filter (\<lambda>i. op_Type (ops ! i) \<in> set nodeFileOpTypes \<and> ref_Node (op_Target (ops ! i)) = n) [0..<length ops]"
    by (simp add: fst_filter_enumerate)
  finally show ?thesis by (simp add: filter_upt_nth [of _ ops])
qed

lemma stage_step_idxs:
  assumes "BuildPlan ops = Inr plan" "List.find (\<lambda>s. st_Kind s = StepStageFile \<and> st_Node s = n) plan = Some s"
  shows "st_OpIdx s = node_idxs ops n"
proof -
  let ?xs = "enumerate 0 ops"
  have s: "s \<in> set plan" "st_Kind s = StepStageFile" "st_Node s = n" using assms(2) by (auto simp: find_Some_iff)
  have fw: "fw_steps t is \<noteq> [] \<Longrightarrow> s \<notin> set (fw_steps t is)" for t "is" using s(2) by (auto dest: fw_steps_kinds)
  have "s \<in> set (concat (map (\<lambda>n. stage_reload n (group_of (node_kvs ?xs) n)) (first_seen (map fst (node_kvs ?xs)))))"
    using s(1,2) fw_steps_kinds [of s] unfolding BuildPlan_Inr [OF assms(1)] plan_spec_def Let_def ipam_steps_def
    by (auto simp: case_prod_beta' split: if_splits)
  with s(2,3) show ?thesis by (auto simp: stage_reload_def zero_Step_def node_idxs_def)
qed

lemma computeStagedFile_iff:
  "computeStagedFile pre node ops idx cs = Inr after \<longleftrightarrow>
     (\<exists>f xs f'. ParseInterfaces pre = Inr f \<and> list_all2 adapts (map ((!) ops) idx) xs \<and> MutateAll f xs cs = Inr f' \<and> after = Render f')"
  unfolding computeStagedFile_def by (auto simp: changeOpsToIfaces_iff [symmetric] split: sum.splits)

lemma diff_node_stages:
  assumes "diff_node reader xs cs node = Inr d"
  obtains pre f f' where "reader node = Inr pre" "ParseInterfaces pre = Inr f" "MutateAll f xs cs = Inr f'"
    "d = \<lparr> fd_Node = node, fd_Path = interfacesPath, fd_Unified = UnifiedDiff interfacesPath interfacesPath pre (Render f'), fd_Changed = (Render f' \<noteq> pre) \<rparr>"
proof -
  obtain pre f f' where p: "reader node = Inr pre" "ParseInterfaces pre = Inr f" "MutateAll f xs cs = Inr f'"
    "d = \<lparr> fd_Node = node, fd_Path = interfacesPath, fd_Unified = UnifiedDiff interfacesPath interfacesPath pre (Render f'),
       fd_Changed = (UnifiedDiff interfacesPath interfacesPath pre (Render f') \<noteq> []) \<rparr>"
    using assms by (auto simp: diff_node_def Let_def split: sum.splits)
  show thesis
    using that [OF p(1-3)] p(4) UnifiedDiff_empty by auto
qed

lemma diff_nodes_each:
  "diff_nodes reader ops cs nodes = Inr ds \<Longrightarrow> map fd_Node ds = nodes \<and>
     (\<forall>d\<in>set ds. diff_node reader (filter (\<lambda>op. ref_Node (iface_op_Ref op) = fd_Node d) ops) cs (fd_Node d) = Inr d)"
proof (induction nodes arbitrary: ds)
  case (Cons node nodes)
  then obtain d ds' where d: "diff_node reader (filter (\<lambda>op. ref_Node (iface_op_Ref op) = node) ops) cs node = Inr d"
    "diff_nodes reader ops cs nodes = Inr ds'" "ds = d # ds'" by (auto split: sum.splits)
  have "fd_Node d = node" using d(1) by (rule diff_node_stages) simp
  with d Cons.IH [OF d(2)] show ?case by auto
qed simp

text \<open>C11. A changeset under review: one diff per node that its file ops name, in the order of their first appearance. Each is the diff from the
  file that was read to the content that the stage step of the plan writes for that node: a strict patch with its hunks takes
  the lines read to the lines staged, and the file is marked as changed just when its content changes.\<close>

theorem review_shows_staged:
  assumes "svc_Diff_files reader ops cs = Inr d" "list_all parsed_target ops"
  shows "map fd_Node (cd_Files d) = first_seen (map (\<lambda>op. ref_Node (op_Target op)) (filter (\<lambda>op. op_Type op \<in> set nodeFileOpTypes) ops)) \<and>
    (\<forall>fd\<in>set (cd_Files d). \<exists>pre after.
       reader (fd_Node fd) = Inr pre \<and>
       (\<forall>plan s. BuildPlan ops = Inr plan \<and> List.find (\<lambda>s. st_Kind s = StepStageFile \<and> st_Node s = fd_Node fd) plan = Some s \<longrightarrow>
          computeStagedFile pre (fd_Node fd) ops (st_OpIdx s) cs = Inr after) \<and>
       fd_Unified fd = UnifiedDiff interfacesPath interfacesPath pre after \<and>
       patch 0 0 (splitLines pre) (buildHunks (diffLines (splitLines pre) (splitLines after)) diffContext) = Some (splitLines after) \<and>
       (fd_Changed fd \<longleftrightarrow> after \<noteq> pre))"
proof -
  let ?ops = "filter (\<lambda>op. op_Type op \<in> set nodeFileOpTypes) ops"
  obtain xs where xs: "list_all2 adapts ?ops xs" "DiffChangeset reader xs cs = Inr d"
    using assms(1) by (auto simp: svc_Diff_files_def changeOpsToIfaces_iff [symmetric] split: sum.splits)
  have t: "list_all parsed_target ?ops" using assms(2) by (auto simp: list_all_iff)
  have n: "diff_nodes reader xs cs (first_seen (map (\<lambda>x. ref_Node (iface_op_Ref x)) xs)) = Inr (cd_Files d)"
    using xs(2) by (auto simp: DiffChangeset_def split: sum.splits)
  note each = diff_nodes_each [OF n]
  have "\<exists>pre after. reader (fd_Node fd) = Inr pre \<and>
       (\<forall>plan s. BuildPlan ops = Inr plan \<and> List.find (\<lambda>s. st_Kind s = StepStageFile \<and> st_Node s = fd_Node fd) plan = Some s \<longrightarrow>
          computeStagedFile pre (fd_Node fd) ops (st_OpIdx s) cs = Inr after) \<and>
       fd_Unified fd = UnifiedDiff interfacesPath interfacesPath pre after \<and>
       patch 0 0 (splitLines pre) (buildHunks (diffLines (splitLines pre) (splitLines after)) diffContext) = Some (splitLines after) \<and>
       (fd_Changed fd \<longleftrightarrow> after \<noteq> pre)" if "fd \<in> set (cd_Files d)" for fd
  proof -
    let ?xs = "filter (\<lambda>x. ref_Node (iface_op_Ref x) = fd_Node fd) xs"
    have "diff_node reader ?xs cs (fd_Node fd) = Inr fd" using each that by blast
    then obtain pre f f' where d: "reader (fd_Node fd) = Inr pre" "ParseInterfaces pre = Inr f" "MutateAll f ?xs cs = Inr f'"
      "fd = \<lparr> fd_Node = fd_Node fd, fd_Path = interfacesPath, fd_Unified = UnifiedDiff interfacesPath interfacesPath pre (Render f'), fd_Changed = (Render f' \<noteq> pre) \<rparr>"
      by (rule diff_node_stages)
    have "list_all2 adapts (map ((!) ops) (node_idxs ops (fd_Node fd))) ?xs"
      using adapts_filter [OF xs(1) t, of "fd_Node fd"] by (simp add: node_idxs_filter conj_commute)
    then have "computeStagedFile pre (fd_Node fd) ops (node_idxs ops (fd_Node fd)) cs = Inr (Render f')"
      using d by (auto simp: computeStagedFile_iff)
    then have "\<forall>plan s. BuildPlan ops = Inr plan \<and> List.find (\<lambda>s. st_Kind s = StepStageFile \<and> st_Node s = fd_Node fd) plan = Some s \<longrightarrow>
          computeStagedFile pre (fd_Node fd) ops (st_OpIdx s) cs = Inr (Render f')"
      by (metis stage_step_idxs)
    moreover have "fd_Unified fd = UnifiedDiff interfacesPath interfacesPath pre (Render f')" "fd_Changed fd \<longleftrightarrow> Render f' \<noteq> pre"
      using d(4) by (metis FileDiff.select_convs(3), metis FileDiff.select_convs(4))
    ultimately show ?thesis using d(1) hunks_patch by blast
  qed
  with each adapts_nodes [OF xs(1) t] show ?thesis by simp
qed

definition port_op :: iface_op where
  "port_op = iface_op.OpBridgePortAdd (mkRef KindBridge ''n1'' ''vmbr0'') ''eth1''"

definition port_change :: "file_params plan_op" where
  "port_change = \<lparr> op_ID = ''o1'', op_Params = POther (PRest (PBridgePort ''eth1'')), op_Target = mkRef KindBridge ''n1'' ''vmbr0'', op_Type = ''bridge.port.add'' \<rparr>"

definition bridge_text :: string where
  "bridge_text = ''iface vmbr0 inet manual'' @ LF @ TAB @ ''bridge-ports eth0'' @ LF"

lemma port_adapts: "adapts port_change port_op"
proof -
  have "DecodeOp (op_MarshalJSON port_change) = Inr port_op" by code_simp
  then show ?thesis by (simp add: adapts_def)
qed

theorem review_shows_staged_witness:
  "\<exists>d. svc_Diff_files (\<lambda>n. Inr bridge_text :: string + string) [port_change] ''c1'' = Inr d \<and> map fd_Node (cd_Files d) = [''n1''] \<and>
     (\<forall>fd\<in>set (cd_Files d). fd_Changed fd)"
proof -
  let ?r = "\<lambda>n. Inr bridge_text :: string + string"
  have e: "case DiffChangeset ?r [port_op] ''c1'' of Inl _ \<Rightarrow> False | Inr d \<Rightarrow> list_all fd_Changed (cd_Files d)" by code_simp
  then obtain d where d: "DiffChangeset ?r [port_op] ''c1'' = Inr d" "list_all fd_Changed (cd_Files d)" by (auto split: sum.splits)
  have fo: "filter (\<lambda>op. op_Type op \<in> set nodeFileOpTypes) [port_change] = [port_change]" by code_simp
  have "changeOpsToIfaces [port_change] = Inr [port_op]" using port_adapts by (simp add: changeOpsToIfaces_iff)
  then have s: "svc_Diff_files ?r [port_change] ''c1'' = Inr d" using d(1) by (simp only: svc_Diff_files_def Let_def fo sum.case)
  have t: "list_all parsed_target [port_change]" by code_simp
  have "map fd_Node (cd_Files d) = first_seen (map (\<lambda>op. ref_Node (op_Target op)) [port_change])"
    using review_shows_staged [OF s t] unfolding fo by blast
  also have "\<dots> = [''n1'']" by (simp add: port_change_def first_seen_def see_def)
  finally show ?thesis using d s by (auto simp: list_all_iff)
qed

text \<open>The example edited by hand, a port added and the bridge renamed: the text that is staged reads back.\<close>

definition hand_ops :: "iface_op list" where
  "hand_ops = [port_op, iface_op.OpIfaceRename (mkRef KindBridge ''n1'' ''vmbr0'') ''vmbr9'']"

theorem staged_reads_back_witness:
  "\<exists>f f' f''. ParseInterfaces bridge_text = Inr f \<and> MutateAll f hand_ops ''c1'' = Inr f' \<and> f' \<noteq> f \<and>
     ParseInterfaces (Render f') = Inr f'' \<and> meaning f'' = meaning f'"
proof -
  have e: "case ParseInterfaces bridge_text of Inl _ \<Rightarrow> False | Inr f \<Rightarrow> list_all plain_entry f \<and> clean_ops hand_ops f ''c1'' \<and>
    (case MutateAll f hand_ops ''c1'' of Inl _ \<Rightarrow> False | Inr f' \<Rightarrow> f' \<noteq> f)" by code_simp
  then obtain f f' where f: "ParseInterfaces bridge_text = Inr f" "list_all plain_entry f" "clean_ops hand_ops f ''c1''"
    "MutateAll f hand_ops ''c1'' = Inr f'" "f' \<noteq> f" by (auto split: sum.splits)
  have "bridge_text = [] \<or> go_HasSuffix bridge_text LF" by code_simp
  from staged_reads_back [OF f(1) this f(2,3) _ f(4)] show ?thesis using f by auto
qed

end
