(* ===== verification/Apply_Files.thy ===== *)
theory Apply_Files
  imports Cluster_Apply Ifaces_Review
begin

text \<open>
  The executor and the editor of the interfaces file together: the file a successful apply leaves on a node is the one the review
  showed, and it reads back with the meaning of the edited tree.
\<close>

text \<open>The executor stages what \<open>computeStagedFile\<close> computes from the ops of the changeset.\<close>

definition stages_files :: "(file_params, 'w, 'r) exec_env \<Rightarrow> file_params plan_op list \<Rightarrow> string \<Rightarrow> bool" where
  "stages_files env ops csID \<longleftrightarrow>
     (\<forall>pre n idx c. xe_computeStagedFile env pre n idx = Inr c \<longrightarrow> computeStagedFile pre n ops idx csID = Inr c)"

text \<open>C7. An apply that succeeds, on a node with a stage step: the node had a file that parsed, and the file it has now is the
  text rendered from that file after the file ops of the changeset for that node edited it, in their order. A diff reviewed against
  the file from before patches it into the file the node has now. When the old file ended in a line end, no name on its \<^verbatim>\<open>auto\<close> lines
  and no port ends in a backslash and the ops are clean (as in C9), the file the node has now parses to the entries and options of the
  edited tree. (The changeset id has no line break, the contents of a node are intact before the apply, and the executor stages with
  \<open>computeStagedFile\<close>.)\<close>

theorem applied_file_reads_back:
  assumes "BuildPlan ops = Inr plan" "apply_plan (on_nodes env) csID ops plan deadline w r = (None, l, w', r')" "nw_sound w" "n \<noteq> []"
    and "stages_files env ops csID" "List.find (\<lambda>s. st_Kind s = StepStageFile \<and> st_Node s = n) plan = Some s" "CHR 0x0A \<notin> set csID"
  shows "\<exists>pre f xs f'. nw_committed w n = Some pre \<and> ParseInterfaces pre = Inr f \<and>
    changeOpsToIfaces (filter (\<lambda>op. op_Type op \<in> set nodeFileOpTypes \<and> ref_Node (op_Target op) = n) ops) = Inr xs \<and>
    MutateAll f xs csID = Inr f' \<and> nw_committed w' n = Some (Render f') \<and>
    patch 0 0 (splitLines pre) (buildHunks (diffLines (splitLines pre) (splitLines (Render f'))) diffContext) = Some (splitLines (Render f')) \<and>
    ((pre = [] \<or> go_HasSuffix pre LF) \<and> list_all plain_entry f \<and> clean_ops xs f csID \<longrightarrow>
       (\<exists>g. ParseInterfaces (Render f') = Inr g \<and> meaning g = meaning f'))"
proof -
  obtain pre c where c: "nw_committed w n = Some pre" "xe_computeStagedFile env pre n (st_OpIdx s) = Inr c" "nw_committed w' n = Some c"
    using apply_commits_files [OF assms(1-4)] assms(6) by auto
  have "computeStagedFile pre n ops (st_OpIdx s) csID = Inr c" using assms(5) c(2) by (simp add: stages_files_def)
  then obtain f xs f' where f: "ParseInterfaces pre = Inr f" "list_all2 adapts (map ((!) ops) (node_idxs ops n)) xs"
    "MutateAll f xs csID = Inr f'" "c = Render f'"
    unfolding stage_step_idxs [OF assms(1,6)] computeStagedFile_iff by blast
  have xs: "changeOpsToIfaces (filter (\<lambda>op. op_Type op \<in> set nodeFileOpTypes \<and> ref_Node (op_Target op) = n) ops) = Inr xs"
    using f(2) by (simp add: node_idxs_filter changeOpsToIfaces_iff)
  have "\<exists>g. ParseInterfaces (Render f') = Inr g \<and> meaning g = meaning f'"
    if "pre = [] \<or> go_HasSuffix pre LF" "list_all plain_entry f" "clean_ops xs f csID"
    using edited_reads_back [OF f(1) that(1,2,3) assms(7) f(3)] by simp
  with c f(1,3,4) xs hunks_patch show ?thesis by blast
qed


section \<open>An example\<close>

definition bridge_world :: node_world where
  "bridge_world = (ex_world 99)\<lparr>nw_cluster := (nw_cluster (ex_world 99))\<lparr>cl_files := (\<lambda>_. ex_files\<lparr>hf_committed := Some bridge_text\<rparr>)\<rparr>\<rparr>"

definition port_on :: "string \<Rightarrow> file_params plan_op" where
  "port_on n = port_change\<lparr>op_Target := mkRef KindBridge n ''vmbr0''\<rparr>"

definition bridge_ops :: "file_params plan_op list" where
  "bridge_ops = [port_on ''pve1'', port_on ''pve2'']"

definition bridge_env :: "(file_params, node_world, unit) exec_env" where
  "bridge_env = \<lparr> xe_agent = world_agent, xe_ArmTimer = None, xe_pve = None, xe_qos = None, xe_tcMirror = None,
     xe_wg = None, xe_switches = None, xe_inventory = \<lparr> inv_entities = [], inv_edges = [] \<rparr>,
     xe_computeStagedFile = (\<lambda>pre n idx. case computeStagedFile pre n bridge_ops idx ''cs1'' of Inl _ \<Rightarrow> Inl XParams | Inr c \<Rightarrow> Inr c),
     xe_sdnRestoreOps = (\<lambda>_ _. []), xe_zoneIDsOf = (\<lambda>_. []), xe_errText = (\<lambda>_. []), xe_store_ok = True \<rparr>"

definition bridge_after :: string where
  "bridge_after = ''iface vmbr0 inet manual'' @ LF @ TAB @ ''bridge-ports eth0 eth1'' @ LF"

lemma bridge_plan: "BuildPlan bridge_ops = Inr ex_two_nodes"
  by code_simp

lemma bridge_staged:
  "computeStagedFile bridge_text n bridge_ops [0] ''cs1'' = Inr bridge_after" "computeStagedFile bridge_text n bridge_ops [Suc 0] ''cs1'' = Inr bridge_after"
proof -
  have "computeStagedFile bridge_text [] bridge_ops [0] ''cs1'' = Inr bridge_after"
    "computeStagedFile bridge_text [] bridge_ops [Suc 0] ''cs1'' = Inr bridge_after" by code_simp+
  then show "computeStagedFile bridge_text n bridge_ops [0] ''cs1'' = Inr bridge_after"
    "computeStagedFile bridge_text n bridge_ops [Suc 0] ''cs1'' = Inr bridge_after" by (simp_all add: computeStagedFile_iff)
qed

lemma bridge_sound: "nw_sound bridge_world"
  by (simp add: bridge_world_def ex_world_def cl_sound_def ex_cluster_def no_tear_def ex_os_def)

lemma bridge_applied:
  "case apply_plan (on_nodes bridge_env) ''cs1'' ops ex_two_nodes 220 bridge_world () of (res, l, w, r) \<Rightarrow> res = None \<and> nw_committed w ''pve1'' = Some bridge_after"
  by (simp add: ex_apply_simps upd_step_def bridge_env_def bridge_world_def bridge_staged)

theorem applied_file_reads_back_witness:
  "\<exists>w l r g. apply_plan (on_nodes bridge_env) ''cs1'' bridge_ops ex_two_nodes 220 bridge_world () = (None, l, w, r) \<and>
     nw_committed w ''pve1'' = Some bridge_after \<and> ParseInterfaces bridge_after = Inr g"
proof -
  obtain l w r where a: "apply_plan (on_nodes bridge_env) ''cs1'' bridge_ops ex_two_nodes 220 bridge_world () = (None, l, w, r)"
    "nw_committed w ''pve1'' = Some bridge_after"
    using bridge_applied [of bridge_ops] by (auto split: prod.splits)
  have st: "stages_files bridge_env bridge_ops ''cs1''" by (auto simp: stages_files_def bridge_env_def split: sum.splits)
  obtain s where s: "List.find (\<lambda>s. st_Kind s = StepStageFile \<and> st_Node s = ''pve1'') ex_two_nodes = Some s"
    by (simp add: ex_two_nodes_def stage_reload_def zero_Step_def)
  have pre: "nw_committed bridge_world ''pve1'' = Some bridge_text" by (simp add: bridge_world_def ex_world_def ex_cluster_def ex_files_def)
  have e: "case ParseInterfaces bridge_text of Inl _ \<Rightarrow> False | Inr f \<Rightarrow>
      (case changeOpsToIfaces (filter (\<lambda>op. op_Type op \<in> set nodeFileOpTypes \<and> ref_Node (op_Target op) = ''pve1'') bridge_ops) of
         Inl _ \<Rightarrow> False | Inr xs \<Rightarrow> list_all plain_entry f \<and> clean_ops xs f ''cs1'')" by code_simp
  have lf: "bridge_text = [] \<or> go_HasSuffix bridge_text LF" by code_simp
  have n: "''pve1'' \<noteq> []" "CHR 0x0A \<notin> set ''cs1''" by simp_all
  from applied_file_reads_back [OF bridge_plan a(1) bridge_sound n(1) st s n(2)] pre
  obtain f xs f' where f: "ParseInterfaces bridge_text = Inr f" "nw_committed w ''pve1'' = Some (Render f')"
    "changeOpsToIfaces (filter (\<lambda>op. op_Type op \<in> set nodeFileOpTypes \<and> ref_Node (op_Target op) = ''pve1'') bridge_ops) = Inr xs"
    "(bridge_text = [] \<or> go_HasSuffix bridge_text LF) \<and> list_all plain_entry f \<and> clean_ops xs f ''cs1'' \<longrightarrow>
       (\<exists>g. ParseInterfaces (Render f') = Inr g \<and> meaning g = meaning f')" by (elim exE conjE) simp
  then have "\<exists>g. ParseInterfaces (Render f') = Inr g" using e lf by auto
  with a f(2) show ?thesis by auto
qed

end
