(* ===== verification/Ifaces_Gaps.thy ===== *)
theory Ifaces_Gaps
  imports Ifaces_Review
begin

text \<open>
  Where the staged text does not say what the edit meant: a comment that holds a line end, a file whose last line has no
  line end, and a rename of a name in a continued line; and a setting the ops of a changeset cannot carry, that a new
  interface starts at boot.
\<close>

definition stanza_option :: "string \<Rightarrow> string \<Rightarrow> File \<Rightarrow> string option" where
  "stanza_option name key f = (case File_Iface name f of None \<Rightarrow> None | Some e \<Rightarrow> Entry_Get key e)"

lemma find_bare:
  "map_option bi_Value (List.find (\<lambda>item. bi_Kind item = BodyOption \<and> bi_Key item = k) body) =
   map_option bi_Value (List.find (\<lambda>i. bi_Key i = k) (map bare_item (filter (\<lambda>item. bi_Kind item = BodyOption) body)))"
  by (induction body) (auto simp: bare_item_def)

definition change_op :: "string \<Rightarrow> string \<Rightarrow> string \<Rightarrow> file_params \<Rightarrow> file_params plan_op" where
  "change_op t k name p = \<lparr> op_ID = ''o1'', op_Params = POther (PRest p), op_Target = mkRef k ''n1'' name, op_Type = t \<rparr>"

section \<open>A comment with a line end\<close>

definition no_update :: "BridgeUpdate" where
  "no_update = \<lparr> gu_VlanAware = None, gu_STP = None, gu_Gateway = None, gu_Comments = None, gu_Target = mkRef ''bridge'' ''n1'' ''vmbr0'',
     gu_Ports = [], gu_Vids = [], gu_Addresses = [], gu_MTU = 0, gu_RemoveVids = False, gu_RemoveGateway = False \<rparr>"

definition comment_op :: "string \<Rightarrow> iface_op" where
  "comment_op tx = iface_op.OpBridgeUpdate (no_update\<lparr>gu_Comments := Some tx\<rparr>)"

definition comment_change :: "string \<Rightarrow> file_params plan_op" where
  "comment_change tx = change_op ''bridge.update'' KindBridge ''vmbr0'' (PBridgeUpdate
     \<lparr> gup_VlanAware = None, gup_Vids = None, gup_Addresses = None, gup_Gateway = None, gup_MTU = None, gup_STP = None, gup_Comments = Some tx \<rparr>)"

lemma comment_adapts: "adapts (comment_change tx) (comment_op tx)"
proof -
  have r: "ParseRef (Ref_String (mkRef KindBridge ''n1'' ''vmbr0'')) = Inr (mkRef KindBridge ''n1'' ''vmbr0'')" by code_simp
  have "d_struct wire_fields (op_params_JSON (comment_change tx)) zero_wire = Some (zero_wire\<lparr>w_Comments := Some tx\<rparr>)"
    by (simp add: op_params_JSON_def comment_change_def change_op_def d_struct_def j_struct_def zero_wire_def wire_read read_done or_zero_def)
  then show ?thesis
    by (simp add: adapts_def DecodeOp_def envelope_read)
      (simp add: comment_change_def change_op_def Ref_IsZero_def r decode_table_def zero_wire_def comment_op_def no_update_def intOr_def)
qed

definition plain_bridge :: string where
  "plain_bridge = ''iface vmbr0 inet manual'' @ LF"

definition plain_bridge_entry :: Entry where
  "plain_bridge_entry = (zero_Entry KindIface plain_bridge)\<lparr>en_Name := ''vmbr0'', en_Family := ''inet'', en_Method := ''manual''\<rparr>"

lemma plain_bridge_parse: "ParseInterfaces plain_bridge = Inr [plain_bridge_entry]"
  by code_simp

lemma plain_bridge_eol: "dominantEOL [plain_bridge_entry] = LF"
  by code_simp

lemma plain_bridge_ok: "head_ok plain_bridge_entry"
proof -
  have "plain_bridge_entry = newIfaceEntry ''vmbr0'' ''inet'' ''manual'' LF"
    by (simp add: plain_bridge_entry_def newIfaceEntry_def plain_bridge_def)
  then show ?thesis using newIface_ok [of "''vmbr0''" LF "''manual''"] by (simp add: eol_def go_isspace_def)
qed

lemma comment_op_result:
  assumes "tx \<noteq> []"
  shows "computeStagedFile plain_bridge ''n1'' [comment_change tx] [0] cs = Inr (plain_bridge @ TAB @ ''#'' @ tx @ LF)"
proof -
  have f: "findIface [plain_bridge_entry] ''vmbr0'' = Some 0" by (simp add: findIface_def is_iface_def plain_bridge_entry_def)
  have body: "bridge_update_body (no_update\<lparr>gu_Comments := Some tx\<rparr>) LF [] = [comment_item tx LF]"
    using assms by (simp add: bridge_update_body_def no_update_def Let_def set_when_def set_comments_def setCommentLine_def insertBeforeTrailingBlanks_def)
  have "Mutate [plain_bridge_entry] (comment_op tx) cs = Inr [plain_bridge_entry\<lparr>en_Body := [comment_item tx LF]\<rparr>]"
  proof -
    have b: "en_Body plain_bridge_entry = []" by (simp add: plain_bridge_entry_def)
    have "ref_ID (gu_Target (no_update\<lparr>gu_Comments := Some tx\<rparr>)) = ''vmbr0''" by (simp add: no_update_def)
    then show ?thesis
      by (simp add: Mutate_def Let_def plain_bridge_eol comment_op_def mutateBridgeUpdate_def on_iface_def f edit_body_def b body)
  qed
  then show ?thesis
    using comment_adapts [of tx]
    by (auto simp: computeStagedFile_iff plain_bridge_parse MutateAll_def entry_text_def comment_item_def zero_Item_def
        plain_bridge_entry_def intro!: exI [of _ "[comment_op tx]"])
qed

text \<open>C23. The text of a comment is written as it is. With a line end in it the rest becomes lines of the stanza: here a command that runs when the
  interface comes up, whichever command it is.\<close>

theorem comment_injects_command:
  assumes "clean v"
  shows "\<exists>staged f. computeStagedFile plain_bridge ''n1'' [comment_change (''x'' @ LF @ TAB @ ''post-up '' @ v)] [0] cs = Inr staged \<and>
    ParseInterfaces staged = Inr f \<and> stanza_option ''vmbr0'' ''post-up'' f = Some v"
proof -
  let ?staged = "plain_bridge @ TAB @ ''#'' @ (''x'' @ LF @ TAB @ ''post-up '' @ v) @ LF"
  let ?g = "[plain_bridge_entry\<lparr>en_Body := [comment_item ''x'' LF, optionItem ''post-up'' v LF]\<rparr>]"
  have s: "computeStagedFile plain_bridge ''n1'' [comment_change (''x'' @ LF @ TAB @ ''post-up '' @ v)] [0] cs = Inr ?staged"
    by (rule comment_op_result) simp
  have r: "Render ?g = ?staged"
    by (simp add: entry_text_def comment_item_def zero_Item_def optionItem_def) (simp add: plain_bridge_entry_def)
  have eq: "plain_bridge_entry\<lparr>en_Body := []\<rparr> = plain_bridge_entry" by (simp add: plain_bridge_entry_def zero_Entry_def)
  have ok: "item_ok (comment_item ''x'' LF)" "item_ok (optionItem ''post-up'' v LF)"
    using comment_ok [of "''x''" LF] option_ok [OF _ assms, of "''post-up''" LF] by (simp_all add: eol_def plain_text_def)
  have "entry_ok (plain_bridge_entry\<lparr>en_Body := [comment_item ''x'' LF, optionItem ''post-up'' v LF]\<rparr>)"
    using ok plain_bridge_ok by (simp add: entry_ok_def stanza_kind_def eq) (simp add: plain_bridge_entry_def)
  then obtain f where f: "ParseInterfaces ?staged = Inr f" "meaning f = meaning ?g" using reparse [of ?g] r by auto
  have "stanza_option ''vmbr0'' ''post-up'' f = Some v"
  proof -
    let ?e = "bare_entry (plain_bridge_entry\<lparr>en_Body := [comment_item ''x'' LF, optionItem ''post-up'' v LF]\<rparr>)"
    have m: "map bare_entry (filter (\<lambda>e. \<not> filler e) f) = [?e]"
      using f(2) by (simp add: meaning_def filler_def plain_bridge_entry_def)
    then obtain e where e: "filter (\<lambda>e. \<not> filler e) f = [e]" "bare_entry e = ?e" by (auto simp: map_eq_Cons_conv)
    have k: "en_Kind e = KindIface" "en_Name e = ''vmbr0''" "map bare_item (Entry_Options e) = [bare_item (optionItem ''post-up'' v LF)]"
      using arg_cong [OF e(2), of en_Kind] arg_cong [OF e(2), of en_Name] arg_cong [OF e(2), of en_Body]
      by (simp_all add: bare_entry_def plain_bridge_entry_def Entry_Options_def comment_item_def zero_Item_def optionItem_def)
    have "File_Iface ''vmbr0'' f = List.find (\<lambda>e. en_Kind e = KindIface \<and> en_Name e = ''vmbr0'') (filter (\<lambda>e. \<not> filler e) f)"
      unfolding File_Iface_def by (induction f) (auto simp: filler_def)
    then have fi: "File_Iface ''vmbr0'' f = Some e" using e(1) k by simp
    have "Entry_Get ''post-up'' e = map_option bi_Value (List.find (\<lambda>i. bi_Key i = ''post-up'') (map bare_item (Entry_Options e)))"
      unfolding Entry_Get_def Entry_Options_def by (rule find_bare)
    then show ?thesis using fi k(3) by (simp add: stanza_option_def bare_item_def optionItem_def)
  qed
  with s f(1) show ?thesis by blast
qed

theorem comment_injects_command_witness:
  "\<exists>staged f. computeStagedFile plain_bridge ''n1'' [comment_change (''x'' @ LF @ TAB @ ''post-up '' @ ''reboot'')] [0] ''c1'' = Inr staged \<and>
    ParseInterfaces staged = Inr f \<and> stanza_option ''vmbr0'' ''post-up'' f = Some ''reboot''"
  by (rule comment_injects_command) code_simp


section \<open>A last line without a line end\<close>

definition mtu_change :: "file_params plan_op" where
  "mtu_change = change_op ''iface.update'' KindPhysNic ''eth0'' (PIfaceUpdate
     \<lparr> iup_MTU = Some 9000, iup_Comments = None, iup_Addresses = None, iup_Gateway = None, iup_Autostart = None, iup_RemoveAddress = False,
       iup_RemoveGateway = False \<rparr>)"

text \<open>The tree an edit produces, before it is rendered.\<close>

definition edited_tree :: "string \<Rightarrow> file_params plan_op list \<Rightarrow> string \<Rightarrow> File option" where
  "edited_tree pre ops cs =
     (case (ParseInterfaces pre, changeOpsToIfaces ops) of
        (Inr f, Inr xs) \<Rightarrow> (case MutateAll f xs cs of Inr f' \<Rightarrow> Some f' | Inl _ \<Rightarrow> None) | _ \<Rightarrow> None)"

text \<open>The last line of the file is the header of the stanza and has no line end: the option is written behind it, on the same line. The edited
  tree has the option; the staged text does not.\<close>

theorem unterminated_header_loses_option:
  "(\<exists>f'. edited_tree ''iface eth0 inet manual'' [mtu_change] ''c1'' = Some f' \<and> stanza_option ''eth0'' ''mtu'' f' = Some ''9000'') \<and>
   (\<exists>staged f. computeStagedFile ''iface eth0 inet manual'' ''n1'' [mtu_change] [0] ''c1'' = Inr staged \<and> ParseInterfaces staged = Inr f \<and>
      File_Iface ''eth0'' f \<noteq> None \<and> stanza_option ''eth0'' ''mtu'' f = None)"
proof -
  have "case edited_tree ''iface eth0 inet manual'' [mtu_change] ''c1'' of None \<Rightarrow> False | Some f' \<Rightarrow> stanza_option ''eth0'' ''mtu'' f' = Some ''9000''"
    by code_simp
  moreover have "case computeStagedFile ''iface eth0 inet manual'' ''n1'' [mtu_change] [0] ''c1'' of Inl _ \<Rightarrow> False | Inr staged \<Rightarrow>
      (case ParseInterfaces staged of Inl _ \<Rightarrow> False | Inr f \<Rightarrow> File_Iface ''eth0'' f \<noteq> None \<and> stanza_option ''eth0'' ''mtu'' f = None)" by code_simp
  ultimately show ?thesis by (auto split: sum.splits option.splits)
qed


section \<open>A name in a continued line\<close>

definition continued_text :: string where
  "continued_text = ''iface bond0 inet manual'' @ LF @ ''iface vmbr0 inet manual'' @ LF @ TAB @ ''bridge-ports bond0'' @ [CHR 0x5C] @ LF @ '' eth5'' @ LF"

definition rename_change :: "file_params plan_op" where
  "rename_change = change_op ''iface.rename'' KindBond ''bond0'' (PIfaceRename ''bond9'')"

text \<open>A port list that is continued on the next line: the name before the backslash is renamed in the tree and not in the text, so the staged
  bridge keeps a port that no longer exists.\<close>

theorem rename_misses_continued_line:
  "(\<exists>f'. edited_tree continued_text [rename_change] ''c1'' = Some f' \<and> stanza_option ''vmbr0'' ''bridge-ports'' f' = Some ''bond9 eth5'') \<and>
   (\<exists>staged f. computeStagedFile continued_text ''n1'' [rename_change] [0] ''c1'' = Inr staged \<and> ParseInterfaces staged = Inr f \<and>
      stanza_option ''vmbr0'' ''bridge-ports'' f = Some ''bond0 eth5'' \<and> File_Iface ''bond0'' f = None \<and> File_Iface ''bond9'' f \<noteq> None)"
proof -
  have "case edited_tree continued_text [rename_change] ''c1'' of None \<Rightarrow> False | Some f' \<Rightarrow> stanza_option ''vmbr0'' ''bridge-ports'' f' = Some ''bond9 eth5''"
    by code_simp
  moreover have "case computeStagedFile continued_text ''n1'' [rename_change] [0] ''c1'' of Inl _ \<Rightarrow> False | Inr staged \<Rightarrow>
      (case ParseInterfaces staged of Inl _ \<Rightarrow> False | Inr f \<Rightarrow> stanza_option ''vmbr0'' ''bridge-ports'' f = Some ''bond0 eth5'' \<and>
         File_Iface ''bond0'' f = None \<and> File_Iface ''bond9'' f \<noteq> None)" by code_simp
  ultimately show ?thesis by (auto split: sum.splits option.splits)
qed


section \<open>A new interface never starts at boot\<close>

fun creates :: "string \<Rightarrow> file_params \<Rightarrow> bool" where
  "creates t (PBondCreate p) \<longleftrightarrow> t = ''bond.create''"
| "creates t (PBridgeCreate p) \<longleftrightarrow> t = ''bridge.create''"
| "creates t (PVlanCreate p) \<longleftrightarrow> t = ''vlan.create''"
| "creates t _ \<longleftrightarrow> False"

definition boot_lists :: "File \<Rightarrow> Entry list" where
  "boot_lists f = filter (\<lambda>e. list_kind (en_Kind e)) f"

lemma prepareAppend_lists [simp]:
  "boot_lists (prepareAppend f nl) = boot_lists f" "File_Ifaces (prepareAppend f nl) = File_Ifaces f"
  by (simp_all add: prepareAppend_def Let_def boot_lists_def File_Ifaces_def list_kind_def zero_Entry_def)

lemma appendStanza_lists:
  assumes "en_Kind e = KindIface"
  shows "boot_lists (appendStanzaRaw f None e nl) = boot_lists f" "length (File_Ifaces (appendStanzaRaw f None e nl)) = Suc (length (File_Ifaces f))"
    "boot_lists (appendStanza f False name e nl) = boot_lists f" "length (File_Ifaces (appendStanza f False name e nl)) = Suc (length (File_Ifaces f))"
proof -
  have b: "boot_lists (f @ g) = boot_lists f @ boot_lists g" "File_Ifaces (f @ g) = File_Ifaces f @ File_Ifaces g" for f g
    by (simp_all add: boot_lists_def File_Ifaces_def)
  have e: "boot_lists [e] = []" "File_Ifaces [e] = [e]" "boot_lists [zero_Entry KindBlank nl] = []" "File_Ifaces [zero_Entry KindBlank nl] = []"
    using assms by (simp_all add: boot_lists_def File_Ifaces_def list_kind_def zero_Entry_def)
  show "boot_lists (appendStanzaRaw f None e nl) = boot_lists f" "length (File_Ifaces (appendStanzaRaw f None e nl)) = Suc (length (File_Ifaces f))"
    by (simp_all only: appendStanzaRaw_def option.case append_Nil b e prepareAppend_lists append_Nil2 length_append list.size)
  then show "boot_lists (appendStanza f False name e nl) = boot_lists f" "length (File_Ifaces (appendStanza f False name e nl)) = Suc (length (File_Ifaces f))"
    by (simp_all add: appendStanza_def)
qed

lemma newIface_kind [simp]: "en_Kind (newIfaceEntry name fam1 m nl) = KindIface"
  by (simp add: newIfaceEntry_def zero_Entry_def)

text \<open>C24. The parameters of a create have no field for starting at boot. The stanza that a changeset creates is the only new one, and no line of
  the file that lists the interfaces to start, or the class they belong to, is added or changed.\<close>

theorem created_never_autostarts:
  assumes "adapts op x" "op_Params op = POther (PRest p)" "creates (op_Type op) p" "Mutate f x cs = Inr f'"
  shows "boot_lists f' = boot_lists f \<and> length (File_Ifaces f') = Suc (length (File_Ifaces f))"
proof -
  obtain t where t: "map_of (decode_table t (wire_of p)) (op_Type op) = Some x"
    using adapts_table [OF assms(1,2)] by blast
  from assms(3) show ?thesis
  proof (cases p)
    case (PBondCreate q)
    with assms(3) t obtain c where "x = iface_op.OpBondCreate c" "\<not> bc_Autostart c"
      by (auto simp: decode_table_def zero_wire_def boolOr_def)
    with assms(4) show ?thesis by (auto simp: Mutate_def mutateBondCreate_def Let_def appendStanza_lists split: if_splits)
  next
    case (PBridgeCreate q)
    with assms(3) t obtain c where "x = iface_op.OpBridgeCreate c" "\<not> gc_Autostart c"
      by (auto simp: decode_table_def zero_wire_def boolOr_def)
    with assms(4) show ?thesis by (auto simp: Mutate_def mutateBridgeCreate_def Let_def appendStanza_lists split: if_splits)
  next
    case (PVlanCreate q)
    with assms(3) t obtain c where "x = iface_op.OpVlanCreate c" "\<not> vc_Autostart c"
      by (auto simp: decode_table_def zero_wire_def boolOr_def)
    with assms(4) show ?thesis by (auto simp: Mutate_def mutateVlanCreate_def Let_def appendStanza_lists split: if_splits)
  qed simp_all
qed

definition create_change :: "file_params plan_op" where
  "create_change = change_op ''bridge.create'' KindBridge ''vmbr9'' (PBridgeCreate
     \<lparr> gcp_Gateway = [], gcp_Comments = [], gcp_Ports = [''eth1''], gcp_Vids = [], gcp_Addresses = [], gcp_MTU = 0, gcp_VlanAware = False, gcp_STP = False \<rparr>)"

theorem created_never_autostarts_witness:
  "\<exists>x f'. adapts create_change x \<and> Mutate [plain_bridge_entry] x ''c1'' = Inr f' \<and> boot_lists f' = boot_lists [plain_bridge_entry] \<and> length (File_Ifaces f') = 2"
proof -
  have "case DecodeOp (op_MarshalJSON create_change) of Inl _ \<Rightarrow> False | Inr x \<Rightarrow> (case Mutate [plain_bridge_entry] x ''c1'' of Inl _ \<Rightarrow> False | Inr _ \<Rightarrow> True)"
    by code_simp
  then obtain x f' where x: "adapts create_change x" "Mutate [plain_bridge_entry] x ''c1'' = Inr f'" by (auto simp: adapts_def split: sum.splits)
  obtain p where p: "op_Params create_change = POther (PRest p)" "creates (op_Type create_change) p"
    by (simp add: create_change_def change_op_def)
  have "length (File_Ifaces [plain_bridge_entry]) = 1" by code_simp
  with created_never_autostarts [OF x(1) p x(2)] x show ?thesis by auto
qed

end
