(* ===== verification/Ifaces_Rules.thy ===== *)
theory Ifaces_Rules
  imports Ifaces_Review
begin

text \<open>
  The interfaces file as the store of the NAT rules and static routes: a rule is recorded in the marker of its lines and
  nowhere else. The locale \<open>edge_rule\<close> is the contract of a kind of rule (its marker decodes, is found behind its
  commands, and the commands are clean); its lemmas say what appending and removing lines does to the set of rules, read
  back from the text that is written. It is interpreted on the three kinds.
\<close>

definition rules_of :: "(string \<Rightarrow> 'c option) \<Rightarrow> File \<Rightarrow> 'c list" where
  "rules_of decode f = List.map_filter (\<lambda>v. case CutEdgeMarker v of None \<Rightarrow> None | Some s \<Rightarrow> decode s) (post_ups f)"

definition matcher :: "(string \<Rightarrow> 'c option) \<Rightarrow> ('c \<Rightarrow> string) \<Rightarrow> string \<Rightarrow> string option" where
  "matcher decode rule_id value = (case CutEdgeMarker value of None \<Rightarrow> None | Some s \<Rightarrow> map_option rule_id (decode s))"

lemma matchers:
  "natMasqueradeMatcher = matcher DecodeNatMasqueradeMarker nm_ID"
  "natPortForwardMatcher = matcher DecodeNatPortForwardMarker np_ID"
  "staticRouteMatcher = matcher DecodeStaticRouteMarker sr_ID"
  by (auto simp: natMasqueradeMatcher_def natPortForwardMatcher_def staticRouteMatcher_def matcher_def split: option.splits)

lemma post_ups_simps [simp]:
  "post_ups [] = []"
  "post_ups (e # f) = (if en_Kind e = KindIface then map bi_Value (filter (is_option ''post-up'') (en_Body e)) else []) @ post_ups f"
  by (simp_all add: post_ups_def File_Ifaces_def)

lemma bare_post_ups: "map bi_Value (filter (is_option k) (map bare_item (filter (\<lambda>item. bi_Kind item = BodyOption) body))) = map bi_Value (filter (is_option k) body)"
  by (induction body) (auto simp: bare_item_def is_option_def)

lemma post_ups_meaning: "post_ups (meaning f) = post_ups f"
proof (induction f)
  case (Cons e f)
  then show ?case
    by (auto simp: filler_def bare_entry_def Entry_Options_def bare_post_ups)
qed simp

lemma rules_of_meaning: "meaning f = meaning g \<Longrightarrow> rules_of decode f = rules_of decode g"
  using post_ups_meaning by (metis rules_of_def)

text \<open>The values of the post-up lines after an insertion.\<close>

lemma insert_values:
  "set (map bi_Value (filter (is_option k) (insertBeforeTrailingBlanks body items nl))) =
   set (map bi_Value (filter (is_option k) (body @ items)))"
proof -
  let ?P = "\<lambda>item. bi_Kind item = BodyBlank"
  let ?front = "rev (dropWhile ?P (rev body))" let ?blanks = "rev (takeWhile ?P (rev body))"
  have b: "body = ?front @ ?blanks" by (metis rev_append rev_rev_ident takeWhile_dropWhile_id)
  have t: "is_option k (terminate nl i) = is_option k i" "bi_Value (terminate nl i) = bi_Value i" for i
    by (simp_all add: terminate_def is_option_def)
  have "map bi_Value (filter (is_option k) (butlast xs @ [terminate nl (last xs)])) = map bi_Value (filter (is_option k) xs)" if "xs \<noteq> []" for xs
  proof -
    have "map bi_Value (filter (is_option k) (butlast xs @ [last xs])) = map bi_Value (filter (is_option k) (butlast xs @ [terminate nl (last xs)]))"
      by (simp add: t)
    with that show ?thesis by simp
  qed
  then have "map bi_Value (filter (is_option k) (if items \<noteq> [] \<and> ?front \<noteq> [] then butlast ?front @ [terminate nl (last ?front)] else ?front)) =
      map bi_Value (filter (is_option k) ?front)" by (split if_split) blast
  then have "set (map bi_Value (filter (is_option k) (insertBeforeTrailingBlanks body items nl))) =
      set (map bi_Value (filter (is_option k) ?front)) \<union> set (map bi_Value (filter (is_option k) items)) \<union> set (map bi_Value (filter (is_option k) ?blanks))"
    unfolding insertBeforeTrailingBlanks_def Let_def filter_append map_append set_append by auto
  then show ?thesis by (subst (2) b) auto
qed

lemma post_ups_edit:
  assumes "i < length f" "en_Kind (f ! i) = KindIface"
    "set (map bi_Value (filter (is_option ''post-up'') (g (en_Body (f ! i))))) = insert v (set (map bi_Value (filter (is_option ''post-up'') (en_Body (f ! i)))))"
  shows "set (post_ups (edit_body i g f)) = insert v (set (post_ups f))"
proof -
  let ?e = "(f ! i)\<lparr>en_Body := g (en_Body (f ! i))\<rparr>"
  have app: "post_ups (a @ b) = post_ups a @ post_ups b" for a b by (induction a) simp_all
  have "post_ups f = post_ups (take i f) @ post_ups [f ! i] @ post_ups (drop (Suc i) f)"
    by (subst id_take_nth_drop [OF assms(1)]) (simp add: app)
  moreover have "post_ups (edit_body i g f) = post_ups (take i f) @ post_ups [?e] @ post_ups (drop (Suc i) f)"
    using assms(1) by (simp add: edit_body_def upd_conv_take_nth_drop app)
  ultimately show ?thesis using assms(2,3) by auto
qed

lemma append_pair_ups:
  assumes "appendRulePair f n cmds nl = Inr f'" shows "set (post_ups f') = insert (fst cmds) (set (post_ups f))"
proof -
  let ?g = "\<lambda>body. insertBeforeTrailingBlanks body (pair_items cmds nl) nl"
  obtain i where i: "find_index (is_iface n) f = Some i" "f' = edit_body i ?g f"
    using assms by (auto simp: appendRulePair_def on_iface_def findIface_def split: option.splits)
  have k: "i < length f" "en_Kind (f ! i) = KindIface" using find_index_Some [OF i(1)] by (auto simp: is_iface_def)
  show ?thesis unfolding i(2)
    by (rule post_ups_edit [OF k]) (simp only: insert_values, auto simp: pair_items_def optionItem_def is_option_def)
qed

locale edge_rule =
  fixes encode :: "'c \<Rightarrow> string" and decode :: "string \<Rightarrow> 'c option" and rule_id :: "'c \<Rightarrow> string"
    and commands :: "'c \<Rightarrow> string \<times> string" and valid :: "'c \<Rightarrow> bool"
  assumes decode_encode: "valid c \<Longrightarrow> decode (encode c) = Some c"
    and marker_found: "valid c \<Longrightarrow> CutEdgeMarker (fst (commands c)) = Some (encode c) \<and> CutEdgeMarker (snd (commands c)) = Some (encode c)"
    and commands_clean: "valid c \<Longrightarrow> clean (fst (commands c)) \<and> clean (snd (commands c))"
begin

lemma appended:
  assumes "appendRulePair f n (commands c) nl = Inr f'" "valid c"
  shows "set (rules_of decode f') = insert c (set (rules_of decode f))"
proof -
  let ?d = "\<lambda>v. case CutEdgeMarker v of None \<Rightarrow> None | Some s \<Rightarrow> decode s"
  have s: "set (List.map_filter ?d vs) = {c. \<exists>v\<in>set vs. ?d v = Some c}" for vs
    by (induction vs) (auto simp: map_filter_simps split: option.splits)
  have "?d (fst (commands c)) = Some c" using decode_encode marker_found assms(2) by simp
  then show ?thesis unfolding rules_of_def s append_pair_ups [OF assms(1)] by auto
qed

lemma written:
  assumes "good_file f" "appendRulePair f n (commands c) nl = Inr f'" "valid c" "eol nl"
  shows "\<exists>f''. ParseInterfaces (Render f') = Inr f'' \<and> set (rules_of decode f'') = insert c (set (rules_of decode f))"
proof -
  have "good_file f'" using good_rule_pair [OF assms(1,2) commands_clean [OF assms(3)] assms(4)] .
  then have "list_all entry_ok f'" by (auto simp: good_entry_def list_all_iff)
  then obtain f'' where "ParseInterfaces (Render f') = Inr f''" "meaning f'' = meaning f'" using reparse by blast
  with appended [OF assms(2,3)] rules_of_meaning show ?thesis by metis
qed

lemma removed: "rules_of decode (fst (removeEdgeRuleLines f i (matcher decode rule_id))) = filter (\<lambda>c. rule_id c \<noteq> i) (rules_of decode f)"
proof -
  let ?d = "\<lambda>v. case CutEdgeMarker v of None \<Rightarrow> None | Some s \<Rightarrow> decode s" let ?m = "matcher decode rule_id"
  have m: "?m v = map_option rule_id (?d v)" for v by (simp add: matcher_def split: option.splits)
  have body: "List.map_filter ?d (map bi_Value (filter (is_option ''post-up'') (filter (\<lambda>item. \<not> marked ?m i item) body))) =
      filter (\<lambda>c. rule_id c \<noteq> i) (List.map_filter ?d (map bi_Value (filter (is_option ''post-up'') body)))" for body
    by (induction body) (auto simp: is_option_def marked_def m map_filter_simps split: option.splits)
  have "List.map_filter ?d (post_ups (map (\<lambda>e. if en_Kind e = KindIface then e\<lparr>en_Body := filter (\<lambda>item. \<not> marked ?m i item) (en_Body e)\<rparr> else e) f)) =
      filter (\<lambda>c. rule_id c \<noteq> i) (List.map_filter ?d (post_ups f))"
  proof (induction f)
    case (Cons e f)
    have app: "List.map_filter ?d (a @ b) = List.map_filter ?d a @ List.map_filter ?d b" for a b by (simp add: map_filter_def)
    show ?case using Cons body [of "en_Body e"] by (simp add: app)
  qed (simp add: map_filter_simps)
  then show ?thesis by (simp add: rules_of_def removeEdgeRuleLines_def)
qed

end

section \<open>The three kinds\<close>

definition no_hash :: "string \<Rightarrow> bool" where
  "no_hash s \<longleftrightarrow> word s \<and> CHR ''#'' \<notin> set s"

definition int64 :: "int \<Rightarrow> bool" where
  "int64 n \<longleftrightarrow> - (2 ^ 63) \<le> n \<and> n < 2 ^ 63"

lemma Itoa_no_hash: "CHR ''#'' \<notin> set (go_Itoa n)"
proof -
  have "0 \<le> k \<Longrightarrow> CHR ''#'' \<notin> set (go_natstr k)" for k using go_natstr_digits [of k] by (auto simp: list_all_iff go_isdigit_def go_ord_def)
  then show ?thesis by (simp add: go_Itoa_def)
qed

interpretation masquerade: edge_rule EncodeNatMasqueradeMarker DecodeNatMasqueradeMarker nm_ID NatMasqueradeCommands
  "\<lambda>c. no_hash (nm_SourceCIDR c) \<and> no_hash (nm_Iface c)"
proof (unfold_locales)
  fix c :: NatMasqueradeConfig
  assume v: "no_hash (nm_SourceCIDR c) \<and> no_hash (nm_Iface c)"
  show "DecodeNatMasqueradeMarker (EncodeNatMasqueradeMarker c) = Some c" by (rule masquerade_roundtrip)
  show "clean (fst (NatMasqueradeCommands c)) \<and> clean (snd (NatMasqueradeCommands c))" using v by (intro masquerade_clean) (auto simp: no_hash_def)
  have p: "go_HasPrefix (EncodeNatMasqueradeMarker c) edgeMarkerSentinel" by (simp add: EncodeNatMasqueradeMarker_def Let_def go_HasPrefix_def)
  show "CutEdgeMarker (fst (NatMasqueradeCommands c)) = Some (EncodeNatMasqueradeMarker c) \<and> CutEdgeMarker (snd (NatMasqueradeCommands c)) = Some (EncodeNatMasqueradeMarker c)"
    using v CutEdgeMarker_append [OF _ p, of "''iptables -t nat -A POSTROUTING -s '' @ nm_SourceCIDR c @ '' -o '' @ nm_Iface c @ '' -j MASQUERADE ''"]
      CutEdgeMarker_append [OF _ p, of "''iptables -t nat -D POSTROUTING -s '' @ nm_SourceCIDR c @ '' -o '' @ nm_Iface c @ '' -j MASQUERADE ''"]
    by (simp add: NatMasqueradeCommands_def Let_def no_hash_def)
qed

interpretation portforward: edge_rule EncodeNatPortForwardMarker DecodeNatPortForwardMarker np_ID NatPortForwardCommands
  "\<lambda>c. no_hash (np_Iface c) \<and> no_hash (np_Proto c) \<and> no_hash (np_IntIP c) \<and> int64 (np_ExtPort c) \<and> int64 (np_IntPort c)"
proof (unfold_locales)
  fix c :: NatPortForwardConfig
  assume v: "no_hash (np_Iface c) \<and> no_hash (np_Proto c) \<and> no_hash (np_IntIP c) \<and> int64 (np_ExtPort c) \<and> int64 (np_IntPort c)"
  show "DecodeNatPortForwardMarker (EncodeNatPortForwardMarker c) = Some c" using v by (intro portforward_roundtrip) (auto simp: int64_def)
  show "clean (fst (NatPortForwardCommands c)) \<and> clean (snd (NatPortForwardCommands c))" using v by (intro portforward_clean) (auto simp: no_hash_def)
  have p: "go_HasPrefix (EncodeNatPortForwardMarker c) edgeMarkerSentinel" by (simp add: EncodeNatPortForwardMarker_def Let_def go_HasPrefix_def)
  let ?t = "'' PREROUTING -i '' @ np_Iface c @ '' -p '' @ np_Proto c @ '' --dport '' @ go_Itoa (np_ExtPort c) @
            '' -j DNAT --to-destination '' @ (np_IntIP c @ '':'' @ go_Itoa (np_IntPort c)) @ '' ''"
  show "CutEdgeMarker (fst (NatPortForwardCommands c)) = Some (EncodeNatPortForwardMarker c) \<and> CutEdgeMarker (snd (NatPortForwardCommands c)) = Some (EncodeNatPortForwardMarker c)"
    using v CutEdgeMarker_append [OF _ p, of "''iptables -t nat -A'' @ ?t"] CutEdgeMarker_append [OF _ p, of "''iptables -t nat -D'' @ ?t"] Itoa_no_hash
    by (simp add: NatPortForwardCommands_def Let_def no_hash_def)
qed

interpretation route: edge_rule EncodeStaticRouteMarker DecodeStaticRouteMarker sr_ID StaticRouteCommands
  "\<lambda>c. no_hash (sr_DestCIDR c) \<and> no_hash (sr_Gateway c) \<and> no_hash (sr_Iface c) \<and> int64 (sr_Metric c)"
proof (unfold_locales)
  fix c :: StaticRouteConfig
  assume v: "no_hash (sr_DestCIDR c) \<and> no_hash (sr_Gateway c) \<and> no_hash (sr_Iface c) \<and> int64 (sr_Metric c)"
  show "DecodeStaticRouteMarker (EncodeStaticRouteMarker c) = Some c" using v by (intro route_roundtrip) (auto simp: int64_def)
  show "clean (fst (StaticRouteCommands c)) \<and> clean (snd (StaticRouteCommands c))" using v by (intro route_clean) (auto simp: no_hash_def)
  have p: "go_HasPrefix (EncodeStaticRouteMarker c) edgeMarkerSentinel" by (simp add: EncodeStaticRouteMarker_def Let_def go_HasPrefix_def)
  let ?t = "sr_DestCIDR c @ '' via '' @ sr_Gateway c @ '' dev '' @ sr_Iface c @ (if sr_Metric c \<noteq> 0 then '' metric '' @ go_Itoa (sr_Metric c) else []) @ '' ''"
  show "CutEdgeMarker (fst (StaticRouteCommands c)) = Some (EncodeStaticRouteMarker c) \<and> CutEdgeMarker (snd (StaticRouteCommands c)) = Some (EncodeStaticRouteMarker c)"
    using v CutEdgeMarker_append [OF _ p, of "''ip route add '' @ ?t"] CutEdgeMarker_append [OF _ p, of "''ip route del '' @ ?t"] Itoa_no_hash
    by (simp add: StaticRouteCommands_def Let_def no_hash_def)
qed


section \<open>The file as a store of rules\<close>

abbreviation "portforwards \<equiv> rules_of DecodeNatPortForwardMarker"

definition portforward_of :: "NatPortForwardCreate \<Rightarrow> NatPortForwardConfig" where
  "portforward_of c = \<lparr> np_ID = ref_ID (pc_Target c), np_Iface = pc_Iface c, np_Proto = pc_Proto c, np_IntIP = pc_IntIP c,
     np_Comment = pc_Comment c, np_ExtPort = pc_ExtPort c, np_IntPort = pc_IntPort c \<rparr>"

definition writable :: "NatPortForwardConfig \<Rightarrow> bool" where
  "writable c \<longleftrightarrow> no_hash (np_Iface c) \<and> no_hash (np_Proto c) \<and> no_hash (np_IntIP c) \<and> int64 (np_ExtPort c) \<and> int64 (np_IntPort c)"

lemma parsed_good: "ParseInterfaces s = Inr f \<Longrightarrow> s = [] \<or> go_HasSuffix s LF \<Longrightarrow> list_all plain_entry f \<Longrightarrow> good_file f"
  using parsed_ok by (auto simp: good_entry_def list_all_iff)

lemma find_rule: "findNatPortForwardConfig f i = List.find (\<lambda>c. np_ID c = i) (portforwards f)"
  by (simp add: findNatPortForwardConfig_def rules_of_def)

text \<open>C29. The port forwards of a node, read from the text that is staged, when the file the op edits is empty or ends in a line end and
  no name on its \<^verbatim>\<open>auto\<close> lines and no port ends in a backslash. A create of a rule that can be written (\<open>writable\<close>: interface, protocol
  and address are words without a hash, the ports fit an \<^verbatim>\<open>int\<close>) adds the rule it names with every field it has, whatever its comment;
  an update whose result can be written replaces the rules of that identifier by the first of them with the given fields changed, also when
  it moves to another interface; a delete removes them. No other rule changes. Without the final line end a rule added to a stanza that is
  only its header is lost (\<open>portforward_lost\<close> below).\<close>

theorem portforwards_recorded:
  assumes p: "ParseInterfaces s = Inr f" "s = [] \<or> go_HasSuffix s LF" "list_all plain_entry f"
  shows "(Mutate f (iface_op.OpNatPortForwardCreate c) cs = Inr f1 \<and> writable (portforward_of c) \<longrightarrow>
      (\<exists>g. ParseInterfaces (Render f1) = Inr g \<and> set (portforwards g) = insert (portforward_of c) (set (portforwards f)))) \<and>
    (Mutate f (iface_op.OpNatPortForwardUpdate u) cs = Inr f2 \<longrightarrow>
      (\<exists>cur. List.find (\<lambda>r. np_ID r = ref_ID (pu_Target u)) (portforwards f) = Some cur \<and>
        (writable (merge_portforward u cur) \<longrightarrow> (\<exists>g. ParseInterfaces (Render f2) = Inr g \<and>
           set (portforwards g) = insert (merge_portforward u cur) {r \<in> set (portforwards f). np_ID r \<noteq> ref_ID (pu_Target u)})))) \<and>
    (Mutate f (iface_op.OpNatPortForwardDelete t) cs = Inr f3 \<longrightarrow>
      (\<exists>g. ParseInterfaces (Render f3) = Inr g \<and> portforwards g = filter (\<lambda>r. np_ID r \<noteq> ref_ID t) (portforwards f)))"
proof (intro conjI impI)
  note good = parsed_good [OF p]
  note nl = dominantEOL_eol [of f]
  {
    assume "Mutate f (iface_op.OpNatPortForwardCreate c) cs = Inr f1 \<and> writable (portforward_of c)"
    then have "appendRulePair f (pc_Iface c) (NatPortForwardCommands (portforward_of c)) (dominantEOL f) = Inr f1" "writable (portforward_of c)"
      by (simp_all add: Mutate_def mutateNatPortForwardCreate_def portforward_of_def Let_def)
    then show "\<exists>g. ParseInterfaces (Render f1) = Inr g \<and> set (portforwards g) = insert (portforward_of c) (set (portforwards f))"
      using portforward.written [OF good _ _ nl] unfolding writable_def by blast
  next
    assume "Mutate f (iface_op.OpNatPortForwardUpdate u) cs = Inr f2"
    let ?f = "fst (removeEdgeRuleLines f (ref_ID (pu_Target u)) natPortForwardMatcher)"
    obtain cur where cur: "List.find (\<lambda>r. np_ID r = ref_ID (pu_Target u)) (portforwards f) = Some cur"
      "appendRulePair ?f (np_Iface (merge_portforward u cur)) (NatPortForwardCommands (merge_portforward u cur)) (dominantEOL f) = Inr f2"
      using \<open>Mutate f (iface_op.OpNatPortForwardUpdate u) cs = Inr f2\<close>
      by (auto simp: Mutate_def mutateNatPortForwardUpdate_def Let_def find_rule split: option.splits)
    have "set (portforwards ?f) = {r \<in> set (portforwards f). np_ID r \<noteq> ref_ID (pu_Target u)}"
      using portforward.removed [of f "ref_ID (pu_Target u)"] matchers(2) by auto
    then show "\<exists>cur. List.find (\<lambda>r. np_ID r = ref_ID (pu_Target u)) (portforwards f) = Some cur \<and>
        (writable (merge_portforward u cur) \<longrightarrow> (\<exists>g. ParseInterfaces (Render f2) = Inr g \<and>
           set (portforwards g) = insert (merge_portforward u cur) {r \<in> set (portforwards f). np_ID r \<noteq> ref_ID (pu_Target u)}))"
      using portforward.written [OF good_removeEdge [OF good] cur(2) _ nl] cur(1) unfolding writable_def by auto
  next
    assume "Mutate f (iface_op.OpNatPortForwardDelete t) cs = Inr f3"
    then have f3: "f3 = fst (removeEdgeRuleLines f (ref_ID t) natPortForwardMatcher)"
      by (auto simp: Mutate_def mutateNatPortForwardDelete_def remove_rule_def Let_def split: prod.splits if_splits)
    then have "good_file f3" using good_removeEdge [OF good] by simp
    then obtain g where "ParseInterfaces (Render f3) = Inr g" "meaning g = meaning f3"
      using reparse [of f3] by (auto simp: good_entry_def list_all_iff)
    then show "\<exists>g. ParseInterfaces (Render f3) = Inr g \<and> portforwards g = filter (\<lambda>r. np_ID r \<noteq> ref_ID t) (portforwards f)"
      using rules_of_meaning portforward.removed f3 matchers(2) by metis
  }
qed

definition web_rule :: NatPortForwardCreate where
  "web_rule = \<lparr> pc_Target = mkRef ''nat-rule'' ''n1'' ''web'', pc_Iface = ''vmbr0'', pc_Proto = ''tcp'', pc_IntIP = ''10.0.0.2'',
     pc_Comment = ''web & mail; 50% #1'', pc_ExtPort = 80, pc_IntPort = 8080 \<rparr>"

theorem portforwards_recorded_witness:
  "\<exists>f f1 g. ParseInterfaces bridge_text = Inr f \<and> Mutate f (iface_op.OpNatPortForwardCreate web_rule) ''c1'' = Inr f1 \<and>
     ParseInterfaces (Render f1) = Inr g \<and> set (portforwards g) = {portforward_of web_rule}"
proof -
  have "case ParseInterfaces bridge_text of Inl _ \<Rightarrow> False | Inr f \<Rightarrow> list_all plain_entry f \<and> portforwards f = [] \<and> findIface f ''vmbr0'' = Some 0" by code_simp
  then obtain f where f: "ParseInterfaces bridge_text = Inr f" "list_all plain_entry f" "portforwards f = []" "findIface f ''vmbr0'' = Some 0"
    by (auto split: sum.splits)
  have "pc_Iface web_rule = ''vmbr0''" by (simp add: web_rule_def)
  then obtain f1 where f1: "Mutate f (iface_op.OpNatPortForwardCreate web_rule) ''c1'' = Inr f1"
    using f(4) by (simp add: Mutate_def mutateNatPortForwardCreate_def appendRulePair_def on_iface_def Let_def)
  have w: "writable (portforward_of web_rule)" and lf: "bridge_text = [] \<or> go_HasSuffix bridge_text LF" by code_simp+
  show ?thesis using portforwards_recorded [OF f(1) lf f(2), of web_rule "''c1''" f1] f f1 w by auto
qed

text \<open>The final line end is needed: a port forward created on a file of one \<^verbatim>\<open>iface\<close> line without it is not in the text that is staged.\<close>

theorem portforward_lost:
  "\<exists>f f1 g. ParseInterfaces ''iface vmbr0 inet manual'' = Inr f \<and> Mutate f (iface_op.OpNatPortForwardCreate web_rule) ''c1'' = Inr f1 \<and>
     ParseInterfaces (Render f1) = Inr g \<and> portforward_of web_rule \<notin> set (portforwards g)"
proof -
  have "case ParseInterfaces ''iface vmbr0 inet manual'' of Inl _ \<Rightarrow> False | Inr f \<Rightarrow>
    (case Mutate f (iface_op.OpNatPortForwardCreate web_rule) ''c1'' of Inl _ \<Rightarrow> False | Inr f1 \<Rightarrow>
      (case ParseInterfaces (Render f1) of Inl _ \<Rightarrow> False | Inr g \<Rightarrow> portforwards g = []))"
    by code_simp
  then show ?thesis by (auto split: sum.splits)
qed

end
