(* ===== verification/Spec2Isabelle.thy ===== *)
theory Spec2Isabelle
  imports Sim_Engine HA_Lease Breaker Change_Apply Coord_Gaps Sched_Gaps Apply_Files Ifaces_Gaps
    Ifaces_Rules Ifaces_Wire
begin

text \<open>
  A verification development for vnprox, a network manager for Proxmox clusters written in Go
  (\<^verbatim>\<open>src/internal\<close>). The daemon keeps an inventory of the cluster's network, answers questions about
  it (firewall resolution, path simulation), and changes it through changesets that are staged,
  validated, reviewed, applied and confirmed. Daemons of one cluster talk to each other and may run
  as an active/standby pair.

  \<^bold>\<open>Conventions.\<close> A Go struct is a record, an enumeration a datatype, a pointer an \<open>option\<close>, a map an
  association list when the code iterates over it and a map otherwise, a string a list of
  characters (bytes). Addresses are words of their width; other integers are unbounded and their
  ranges are far below those of the Go types. A call that can fail returns a sum or an option. A
  component with state passes it explicitly. Reads of the clock, of storage and of other services
  are arguments; what they are assumed to satisfy is stated where it is used.

  \<^bold>\<open>Library.\<close> \<open>Vnprox_Prelude\<close> has the shared lemmas and the interfaces: \<open>first_match\<close> (ordered rule
  walks), \<open>transition_system\<close> and \<open>monotone_system\<close> (components with steps). Each is interpreted on
  the model's own definitions: rule walks and lookups of the firewall and the simulator, the
  lifecycle, the draft operations, the breaker, the lease manager, the coordinator of an apply and
  the scheduler. \<open>Sim_Types\<close> has the interface \<open>phase\<close>, which every phase of the simulator satisfies,
  and \<open>Ifaces_Rules\<close> the interface \<open>edge_rule\<close> of the rules kept in an interface's hooks. \<open>Go_Strings\<close>,
  \<open>Go_Text\<close>, \<open>Go_Lists\<close> and \<open>Go_Netip\<close> model what the code uses of the Go packages strings, strconv,
  slices and net/netip; \<open>Go_Json\<close> models encoding/json on JSON values.

  \<^bold>\<open>Inventory\<close> (\<open>Inventory\<close>; \<^verbatim>\<open>inventory/ref.go\<close>, parts of \<^verbatim>\<open>entity.go\<close>, \<^verbatim>\<open>graph.go\<close>, \<^verbatim>\<open>link.go\<close>). Entity
  identities and their text, the entity structs, the snapshot. Shown: printing and parsing are
  inverse.

  \<^bold>\<open>Firewall resolution\<close> (\<open>Fw\<close>; \<^verbatim>\<open>fw/\<close>). Snapshot, macros, the effective rule order of a guest,
  default policies, group effects and object usage. Shown: the resolver computes a declarative
  order, when a view is enforced, which guests a group reaches, and that usage counts are exact.

  \<^bold>\<open>Path simulator\<close> (\<open>Sim_Types\<close>, \<open>Sim_Match\<close>, \<open>Sim_Endpoint\<close>, \<open>Sim_Firewall\<close>, \<open>Sim_Path\<close>, \<open>Sim_Engine\<close>;
  \<^verbatim>\<open>sim/\<close>). The engine resolves two endpoints, follows layer 2 and layer 3 paths, evaluates the
  firewall at both ends and reports a verdict with hops and caveats. The cross-check of trunks
  follows enslaved-by edges without a visited set and takes fuel; the number of edges plus one is
  enough when those edges are acyclic, and no fuel is enough on a cycle. Shown: verdicts are honest
  (indeterminate exactly with a blocker), the verdict refines a declarative specification, answers
  are well-shaped, and the simulator answers on acyclic inventories.

  \<^bold>\<open>Changesets\<close> (\<open>Changeset\<close>, \<open>Change_Service\<close>, \<open>Change_Apply\<close>; \<^verbatim>\<open>change/changeset.go\<close>, \<^verbatim>\<open>validate.go\<close>,
  \<^verbatim>\<open>service.go\<close>, \<^verbatim>\<open>apply.go\<close>, \<^verbatim>\<open>twoperson.go\<close>, \<^verbatim>\<open>store/changesets.go\<close>). The lifecycle, the validator
  pipeline over its classes, the draft operations on the table, and the entry gate of an apply.
  Shown: nothing is committed unconfirmed, a request needs its approval, short-circuiting keeps the
  verdict, no plaintext key is ever stored, failed calls change nothing, edits void reviews, and an
  apply starts only past every gate; also two gaps, a weaker revalidation and a race with an edit.

  \<^bold>\<open>Applying a changeset\<close> (\<open>Apply_Plan\<close>, \<open>Node_Agent\<close>, \<open>Local_Timer\<close>, \<open>Apply_Exec\<close>, \<open>Cluster_Apply\<close>;
  \<^verbatim>\<open>change/apply_plan.go\<close>, \<^verbatim>\<open>apply_exec.go\<close>, \<^verbatim>\<open>apply_sdn.go\<close>, \<^verbatim>\<open>apply_snapshot.go\<close>, \<^verbatim>\<open>localtimer.go\<close>,
  \<^verbatim>\<open>cluster_agent.go\<close>, \<^verbatim>\<open>cmd/vnproxd/changeagent.go\<close>). The planner turns the ops into ordered steps; the
  executor captures the state from before, runs the steps and undoes them when one fails; on each node
  the host writer changes the network file, and a timer of the node's own goes back to the old file
  unless it is cancelled. The environment of a call (which reads, writes, reloads and messages go
  through) is an argument, so every fault is a branch. \<open>Go_Lists\<close> has the slice idioms the planner uses.
  The executor's lemmas are proved once over the interfaces \<open>node_agent_contract\<close>, \<open>guarded_nodes\<close> and
  \<open>restorable_nodes\<close>, which \<open>Cluster_Apply\<close> interprets on the cluster of nodes with their timers.
  Shown: the plan is what the families of ops determine and carries each op once; a changed node always
  has its timer armed with the file from before, whatever fails; a failed apply restores each node or
  says which it could not; a successful one commits exactly the computed files; the log is truthful; a
  cancelled timer is harmless and an armed one survives restarts and restores; also two gaps, a torn
  write that is not undone and a timer that outlives the changeset it belongs to.

  \<^bold>\<open>Coordinator of an apply\<close> (\<open>Coord_Core\<close>, \<open>Staged_Apply\<close>, \<open>Coordinator\<close>, \<open>Confirm_Window\<close>, \<open>Coord_System\<close>,
  \<open>Coord_Restore\<close>, \<open>Coord_Props\<close>, \<open>Coord_Gaps\<close>; \<^verbatim>\<open>change/apply.go\<close>, \<^verbatim>\<open>apply_distributed.go\<close>,
  \<^verbatim>\<open>apply_staged.go\<close>, \<^verbatim>\<open>autorollback.go\<close>, \<^verbatim>\<open>reverticket.go\<close>). The coordinator runs an apply from its
  gate to the end of the confirm window: it takes the lock, executes the plan or only its canary stage,
  holds the canary, promotes or aborts the rest, arms the timer, and ends with a confirmation or a
  rollback by an operator, the deadline or a finding; after a restart it recovers what it left behind.
  The state is \<open>coord\<close>: the changeset store with its lock, the timers, holds and guards in memory, the
  stages and snapshots that are stored, the audit trail, the nodes and the gateway's side. An
  environment per locked section (\<open>coord_env\<close>) says what the clock, the storage, the nodes and the
  gateway answer there. \<open>Confirm_Window\<close> abstracts a state to its view (status, deadline, lock, timers,
  holds, stages), gives the effect of every call on it, and the predicate \<open>guarded_win\<close>;
  \<open>Coord_System\<close> has the steps of the whole, \<open>coord_step\<close>, as an instance of \<open>transition_system\<close>. A
  restart is a step where no hold that ended while the daemon was down passes its check (\<open>promotes\<close>), and
  a promotion of a held apply, a cycle of findings and a draft call are one step each although the code
  releases its lock inside them; the store answers and this daemon leads. What is shown of the reachable
  states holds for these runs, and \<open>Coord_Gaps\<close> shows what happens outside them. \<open>Coord_Restore\<close> proves the laws of a whole rollback over
  the interface \<open>restorable_nodes\<close>. Shown: in every reachable state each open window has its timer or
  hold and its lock, at most one changeset is in flight, every wait ends, an unconfirmed apply puts
  every node back, an abort leaves the nodes outside the stage alone, a confirmation is final, deadlines
  lie within their bounds; also three gaps, a promotion without the lock after a restart, a stale
  finding that undoes a committed changeset and an abort that a promotion overwrites, the first and the
  last of which leave a changeset in flight with the lock free.

  \<^bold>\<open>Scheduled applies\<close> (\<open>Mgmt_Touch\<close>, \<open>Schedule\<close>, \<open>Sched_System\<close>, \<open>Sched_Props\<close>, \<open>Sched_Gaps\<close>;
  \<^verbatim>\<open>change/schedule.go\<close>, \<^verbatim>\<open>mgmttouch.go\<close>, \<^verbatim>\<open>preflight.go\<close>, \<^verbatim>\<open>store/changeschedules.go\<close>). A changeset can
  be given a window in which the daemon applies it unattended. \<open>Mgmt_Touch\<close> decides whether an op
  touches a management path, \<open>Schedule\<close> has the calls of an operator, the table of schedules and the
  tick that fires what is due, \<open>Sched_System\<close> interleaves them with every step of the coordinator
  (\<open>sched_step\<close>). The digest of a callback token, the paths and the impact of an entity are arguments.
  Shown: the invariants of the coordinator and of the table hold in every reachable state (within the
  runs of \<open>coord_step\<close>), an unattended
  apply passed every check, a tick of the leader resolves all that is due, a token confirms once, a
  resolved schedule stays resolved; also three gaps, a confirm window that ignores its timeout, one that
  ends after the window it belongs to, and a cancellation during the apply that reports success.

  \<^bold>\<open>Interfaces file\<close> (\<open>Ifaces_File\<close>, \<open>Edge_Marker\<close>, \<open>Ifaces_Ops\<close>, \<open>Ifaces_Mutate\<close>, \<open>Ifaces_Wire\<close>,
  \<open>Ifaces_Adapt\<close>, \<open>Ifaces_Diff\<close>, \<open>Ifaces_Review\<close>; \<^verbatim>\<open>host/interfaces_ast.go\<close>, \<^verbatim>\<open>interfaces_parse.go\<close>, \<^verbatim>\<open>edgemarker.go\<close>,
  \<^verbatim>\<open>vfmarker.go\<close>, \<^verbatim>\<open>change/ifaces/\<close>). What an apply writes to a node: the file
  \<^verbatim>\<open>/etc/network/interfaces\<close> is parsed into entries that keep every byte, the ops of the changeset edit
  the entries, and the result is rendered; the same computation with a unified diff is what a reviewer
  sees. The ops of a changeset reach the file through JSON: \<open>Ifaces_Adapt\<close> writes each parameter struct as a
  JSON value and \<open>Ifaces_Wire\<close> reads the value field by field, with the errors of a value of the wrong
  type; the text that denotes the value is outside the model. \<open>Ifaces_Frame\<close>, \<open>Ifaces_Reparse\<close>,
  \<open>Ifaces_Written\<close>, \<open>Ifaces_Rename\<close>, \<open>Ifaces_Props\<close>, \<open>Diff_Props\<close> and \<open>Ifaces_Rules\<close> hold the proofs.
  Shown: rendering a parsed file gives back its bytes; an op leaves the entries of other interfaces as
  they are; the file that is staged, parsed again, has exactly the entries the ops produced, when the
  file that was read is empty or ends in a line end, no name on its lists and no port ends in a backslash, the
  ops' texts are clean and a rename is of a name on lines that are not continued; the diff shown for a node is the one to the content its stage step writes, it is a
  shortest edit script and applying its hunks gives the staged file; the rules stored in an interface's hooks are read back as the set the ops describe, under
  the same conditions on the file; a list of ops decodes exactly when its envelopes and parameters are well-typed
  and name a known kind and a readable target. \<open>Apply_Files\<close> composes this with
  the executor: after a successful apply the file on a node reads back as the edited one. \<open>Ifaces_Gaps\<close>
  shows where the hypotheses are needed: a line break in a comment adds a command, an option can be
  glued to a header without a newline, and a rename misses a name before a backslash; and that an interface
  created through a changeset is never marked to start at boot.

  \<^bold>\<open>Active/standby\<close> (\<open>HA_Lease\<close>; \<^verbatim>\<open>ha/manager.go\<close>). The lease manager. A method is
  the composition of its locked sections; \<open>ha_step\<close> interleaves the sections of the ticker with those of
  any number of received batches, in one run of the process. Shown: a promotion was decided on a lease
  expired past the margin and takes a term above those it read, and above its own unless a batch of a
  newer term overtook it; nothing else raises a standby or lowers a term; stale batches are rejected,
  losing the leadership quiesces the timers. Also the gaps: a promotion that is overtaken leads against a
  fresh lease and may lower the term, an adopted term does not survive a restart, equal terms are never
  resolved, and a promotion whose lease is not stored never re-arms.

  \<^bold>\<open>Peer calls\<close> (\<open>Breaker\<close>; \<^verbatim>\<open>peer/breaker.go\<close>, \<^verbatim>\<open>client.go\<close>). The circuit breaker under any
  interleaving of callers.

  \<^bold>\<open>Not modelled.\<close> The HTTP interface, collectors, SQL and transport code are input and output around
  these components; so are the loops of tickers, the text syntax of JSON and the hash functions. The
  individual validator classes, freezes and maintenance windows, the inverse SDN and restoring ops,
  inventory merging, the route explorer and the configuration editors are further parts of the program
  that this development does not cover; where a modelled operation calls one of them, it is a parameter.
\<close>

end
